(* ===== verification/Prelude.thy ===== *)
theory Prelude
  imports Main "HOL-Library.Sublist" "HOL-Library.Char_ord" "HOL-Library.List_Lexorder"
begin

text \<open>
  Shared vocabulary of the development.

  \<^item> The named theorem collections the component theories fill: \<open>registry_simps\<close> (registry
    operations), \<open>scan_simps\<close> (scanning loops over strings), \<open>exn_simps\<close> (results that may
    be an exception).
  \<^item> Exceptions as values: \<open>'a result\<close> is \<open>exn + 'a\<close>, and \<open>Inl\<close> is a C++ throw. An
    exception carries the class and the arguments of its message, not the formatted text.
  \<^item> The loop shapes of the sources over a \<open>vector\<close>: replace the first element that
    matches, erase the first element that matches, remember the last element that matches.
  \<^item> Byte-level character classes. A \<open>char\<close> is a byte, as in the sources.
  \<^item> \<open>string_util\<close>: DuckDB's \<open>StringUtil\<close>, whose source is a git submodule of the
    repository and is not part of it. Every definition that calls it takes the record as an
    argument, and what the code relies on is the predicate \<open>string_util_ok\<close>.
\<close>

named_theorems registry_simps
named_theorems scan_simps
named_theorems exn_simps

section \<open>Exceptions as values\<close>

datatype exn =
    InvalidInput string "string list"
  | Internal string

type_synonym 'a result = "exn + 'a"

definition is_ok :: "'a result \<Rightarrow> bool" where
  "is_ok r = (case r of Inl _ \<Rightarrow> False | Inr _ \<Rightarrow> True)"

lemma is_ok_simps [simp, exn_simps]:
  "is_ok (Inr x)" "\<not> is_ok (Inl e)"
  by (simp_all add: is_ok_def)

lemma is_ok_iff: "is_ok r \<longleftrightarrow> (\<exists>x. r = Inr x)"
  by (cases r) auto

section \<open>Loops over a vector\<close>

text \<open>
  \<^verbatim>\<open>for (it = v.begin(); it != v.end(); ++it) if (p(*it)) { *it = y; return; }\<close>
\<close>

fun replace_first :: "('a \<Rightarrow> bool) \<Rightarrow> 'a \<Rightarrow> 'a list \<Rightarrow> 'a list" where
  "replace_first p y [] = []"
| "replace_first p y (x # xs) = (if p x then y # xs else x # replace_first p y xs)"

text \<open>
  \<^verbatim>\<open>for (it = v.begin(); it != v.end(); ++it) if (p(*it)) { v.erase(it); return true; }\<close>
\<close>

fun erase_first :: "('a \<Rightarrow> bool) \<Rightarrow> 'a list \<Rightarrow> 'a list" where
  "erase_first p [] = []"
| "erase_first p (x # xs) = (if p x then xs else x # erase_first p xs)"

definition any :: "('a \<Rightarrow> bool) \<Rightarrow> 'a list \<Rightarrow> bool" where
  "any p xs = list_ex p xs"

lemma any_simps [simp]:
  "any p [] = False" "any p (x # xs) = (p x \<or> any p xs)" "any p (xs @ ys) = (any p xs \<or> any p ys)"
  by (simp_all add: any_def)

lemma any_iff: "any p xs \<longleftrightarrow> (\<exists>x \<in> set xs. p x)"
  by (induction xs) auto

lemma any_image: "any (\<lambda>x. f x = n) xs \<longleftrightarrow> n \<in> f ` set xs"
  by (induction xs) auto

lemma find_image: "(\<exists>x. List.find (\<lambda>x. f x = n) xs = Some x) \<longleftrightarrow> n \<in> f ` set xs"
  by (induction xs) auto

lemma any_find: "any p xs \<longleftrightarrow> List.find p xs \<noteq> None"
  by (induction xs) auto

lemma replace_first_none [simp]: "\<not> any p xs \<Longrightarrow> replace_first p y xs = xs"
  by (induction xs) auto

lemma erase_first_none [simp]: "\<not> any p xs \<Longrightarrow> erase_first p xs = xs"
  by (induction xs) auto

lemma length_replace_first [simp]: "length (replace_first p y xs) = length xs"
  by (induction xs) auto

lemma set_replace_first_subset: "set (replace_first p y xs) \<subseteq> insert y (set xs)"
  by (induction xs) auto

lemma in_set_replace_firstD: "x \<in> set (replace_first p y xs) \<Longrightarrow> x = y \<or> x \<in> set xs"
  using set_replace_first_subset by fastforce

lemma set_erase_first_subset: "set (erase_first p xs) \<subseteq> set xs"
  by (induction xs) auto

lemma in_set_replace_first: "any p xs \<Longrightarrow> y \<in> set (replace_first p y xs)"
  by (induction xs) auto

lemma set_replace_first_keep: "x \<in> set xs \<Longrightarrow> \<not> p x \<Longrightarrow> x \<in> set (replace_first p y xs)"
  by (induction xs) auto

lemma set_erase_first_keep: "x \<in> set xs \<Longrightarrow> \<not> p x \<Longrightarrow> x \<in> set (erase_first p xs)"
  by (induction xs) auto

lemma find_append: "List.find p (xs @ ys) =
    (case List.find p xs of None \<Rightarrow> List.find p ys | Some x \<Rightarrow> Some x)"
  by (induction xs) auto

lemma find_SomeD: "List.find p xs = Some x \<Longrightarrow> x \<in> set xs \<and> p x"
  by (induction xs) (auto split: if_splits)

lemma find_NoneD: "List.find p xs = None \<Longrightarrow> x \<in> set xs \<Longrightarrow> \<not> p x"
  by (induction xs) (auto split: if_splits)

lemma find_NoneI: "(\<And>x. x \<in> set xs \<Longrightarrow> \<not> p x) \<Longrightarrow> List.find p xs = None"
  by (induction xs) auto

lemma map_replace_first:
  "(\<And>x. x \<in> set xs \<Longrightarrow> p x \<Longrightarrow> f x = f y) \<Longrightarrow> map f (replace_first p y xs) = map f xs"
  by (induction xs) auto

text \<open>Replace the element with the new one's key, or append.\<close>

definition upsert :: "('a \<Rightarrow> bool) \<Rightarrow> 'a \<Rightarrow> 'a list \<Rightarrow> 'a list" where
  "upsert p y xs = (if any p xs then replace_first p y xs else xs @ [y])"

lemma distinct_map_upsert:
  assumes "distinct (map f xs)" and "\<And>x. p x \<longleftrightarrow> f x = f y"
  shows "distinct (map f (upsert p y xs))"
proof (cases "any p xs")
  case True
  have "map f (replace_first p y xs) = map f xs" using assms(2) by (intro map_replace_first) simp
  with True assms(1) show ?thesis by (simp add: upsert_def)
next
  case False
  then have "f y \<notin> f ` set xs" using assms(2) by (auto simp: any_iff image_iff)
  with False assms(1) show ?thesis by (simp add: upsert_def)
qed

lemma image_upsert: "f ` set (upsert (\<lambda>x. f x = f y) y xs) = insert (f y) (f ` set xs)"
proof (cases "any (\<lambda>x. f x = f y) xs")
  case True
  have "map f (replace_first (\<lambda>x. f x = f y) y xs) = map f xs" by (intro map_replace_first) simp
  then have "f ` set (replace_first (\<lambda>x. f x = f y) y xs) = f ` set xs" by (metis list.set_map)
  with True show ?thesis by (auto simp: upsert_def any_image)
qed (simp add: upsert_def)

lemma image_upsert_subset: "g ` set xs \<subseteq> A \<Longrightarrow> g y \<in> A \<Longrightarrow> g ` set (upsert p y xs) \<subseteq> A"
  by (auto simp: upsert_def dest!: in_set_replace_firstD)

lemma distinct_map_erase_first: "distinct (map f xs) \<Longrightarrow> distinct (map f (erase_first p xs))"
  by (induction xs) (auto dest: set_mp [OF set_erase_first_subset])

lemma distinct_map_find:
  "distinct (map f xs) \<Longrightarrow> x \<in> set xs \<Longrightarrow> List.find (\<lambda>y. f y = f x) xs = Some x"
  by (induction xs) (auto simp: image_iff)

lemma find_filter_keep:
  "(\<And>x. p x \<Longrightarrow> q x) \<Longrightarrow> List.find p (filter q xs) = List.find p xs"
  by (induction xs) auto

lemma if_SomeE:
  assumes "(if b then x else y) = Some r"
  obtains "b" "x = Some r" | "\<not> b" "y = Some r"
  using assms by (cases b) auto

section \<open>Characters as bytes\<close>

abbreviation byte :: "char \<Rightarrow> nat" where
  "byte c \<equiv> of_char c"

definition is_digit :: "char \<Rightarrow> bool" where
  "is_digit c = (48 \<le> byte c \<and> byte c \<le> 57)"

definition is_upper :: "char \<Rightarrow> bool" where
  "is_upper c = (65 \<le> byte c \<and> byte c \<le> 90)"

definition is_lower :: "char \<Rightarrow> bool" where
  "is_lower c = (97 \<le> byte c \<and> byte c \<le> 122)"

definition is_alpha :: "char \<Rightarrow> bool" where
  "is_alpha c = (is_upper c \<or> is_lower c)"

lemmas char_class_defs = is_digit_def is_upper_def is_lower_def is_alpha_def

definition ascii_lower :: "char \<Rightarrow> char" where
  "ascii_lower c = (if is_upper c then char_of (byte c + 32) else c)"

definition ascii_upper :: "char \<Rightarrow> char" where
  "ascii_upper c = (if is_lower c then char_of (byte c - 32) else c)"

definition ascii_space :: "char \<Rightarrow> bool" where
  "ascii_space c = (c = CHR '' '' \<or> (9 \<le> byte c \<and> byte c \<le> 13))"

text \<open>Evaluation of case mapping and classes on literals.\<close>

lemmas ascii_eval = ascii_lower_def ascii_upper_def ascii_space_def char_class_defs char_of_def bit_0

lemma byte_less_256 [simp]: "byte c < 256"
  by (rule nat_of_char_less_256)

section \<open>Integer division of C++\<close>

text \<open>Division truncates towards zero. The divisors of the sources are positive constants.\<close>

definition c_div :: "int \<Rightarrow> int \<Rightarrow> int" where
  "c_div a b = sgn a * sgn b * (\<bar>a\<bar> div \<bar>b\<bar>)"

lemma c_div_nonneg: "0 \<le> a \<Longrightarrow> 0 < b \<Longrightarrow> c_div a b = a div b"
  by (cases "a = 0") (auto simp: c_div_def sgn_if)

section \<open>DuckDB's StringUtil\<close>

record string_util =
  su_lower :: "string \<Rightarrow> string"
  su_upper :: "string \<Rightarrow> string"
  su_space :: "char \<Rightarrow> bool"
  su_ci_equals :: "string \<Rightarrow> string \<Rightarrow> bool"
  su_starts_with :: "string \<Rightarrow> string \<Rightarrow> bool"
  su_trim :: "string \<Rightarrow> string"
  su_split :: "string \<Rightarrow> char \<Rightarrow> string list"
  su_ends_with :: "string \<Rightarrow> string \<Rightarrow> bool"
  su_contains :: "string \<Rightarrow> string \<Rightarrow> bool"
  su_join :: "string list \<Rightarrow> string \<Rightarrow> string"

definition trim_ascii :: "string \<Rightarrow> string" where
  "trim_ascii s = rev (dropWhile ascii_space (rev (dropWhile ascii_space s)))"

text \<open>
  Splitting reads fields with \<^verbatim>\<open>std::getline\<close>: a final empty field is not reported.
\<close>

fun getline_fields :: "char \<Rightarrow> string \<Rightarrow> string \<Rightarrow> string list" where
  "getline_fields d acc [] = (if acc = [] then [] else [rev acc])"
| "getline_fields d acc (c # cs) =
     (if c = d then rev acc # getline_fields d [] cs else getline_fields d (c # acc) cs)"

fun join_with :: "string \<Rightarrow> string list \<Rightarrow> string" where
  "join_with sep [] = []"
| "join_with sep [x] = x"
| "join_with sep (x # y # ys) = x @ sep @ join_with sep (y # ys)"

text \<open>
  The documented behaviour of the functions the sources call: ASCII case mapping byte by byte,
  the six ASCII white space bytes, case-insensitive equality, prefix test (the string first, the
  prefix second), trimming of white space at both ends, splitting, suffix and substring tests, and
  joining with a separator.
\<close>

definition string_util_ok :: "string_util \<Rightarrow> bool" where
  "string_util_ok U \<longleftrightarrow>
     su_lower U = map ascii_lower \<and> su_upper U = map ascii_upper \<and> su_space U = ascii_space \<and>
     su_ci_equals U = (\<lambda>a b. map ascii_lower a = map ascii_lower b) \<and>
     su_starts_with U = (\<lambda>s p. prefix p s) \<and> su_trim U = trim_ascii \<and>
     su_split U = (\<lambda>s d. getline_fields d [] s) \<and> su_ends_with U = (\<lambda>s p. suffix p s) \<and>
     su_contains U = (\<lambda>s p. sublist p s) \<and> su_join U = (\<lambda>xs sep. join_with sep xs)"

definition ascii_util :: string_util where
  "ascii_util = \<lparr>su_lower = map ascii_lower, su_upper = map ascii_upper, su_space = ascii_space,
     su_ci_equals = (\<lambda>a b. map ascii_lower a = map ascii_lower b),
     su_starts_with = (\<lambda>s p. prefix p s), su_trim = trim_ascii,
     su_split = (\<lambda>s d. getline_fields d [] s), su_ends_with = (\<lambda>s p. suffix p s),
     su_contains = (\<lambda>s p. sublist p s), su_join = (\<lambda>xs sep. join_with sep xs)\<rparr>"

lemma string_util_ok_ascii [simp]: "string_util_ok ascii_util"
  by (simp add: string_util_ok_def ascii_util_def)

lemma ascii_util_sel [simp]:
  "su_lower ascii_util = map ascii_lower" "su_upper ascii_util = map ascii_upper"
  "su_space ascii_util = ascii_space"
  "su_ci_equals ascii_util a b = (map ascii_lower a = map ascii_lower b)"
  "su_starts_with ascii_util s p = prefix p s" "su_trim ascii_util = trim_ascii"
  "su_split ascii_util s d = getline_fields d [] s" "su_ends_with ascii_util s p = suffix p s"
  "su_contains ascii_util s p = sublist p s" "su_join ascii_util xs s = join_with s xs"
  by (simp_all add: ascii_util_def)

lemma string_util_okD:
  assumes "string_util_ok U"
  shows "su_lower U = map ascii_lower" "su_upper U = map ascii_upper" "su_space U = ascii_space"
    "su_ci_equals U a b = (map ascii_lower a = map ascii_lower b)"
    "su_starts_with U s p = prefix p s" "su_trim U = trim_ascii"
    "su_split U s d = getline_fields d [] s" "su_ends_with U s p = suffix p s"
    "su_contains U s p = sublist p s" "su_join U xs s = join_with s xs"
  using assms by (simp_all add: string_util_ok_def)

lemma ci_equals_refl: "string_util_ok U \<Longrightarrow> su_ci_equals U a a"
  by (simp add: string_util_okD)

lemma ci_equals_sym: "string_util_ok U \<Longrightarrow> su_ci_equals U a b = su_ci_equals U b a"
  by (auto simp: string_util_okD)

lemma ci_equals_trans:
  "string_util_ok U \<Longrightarrow> su_ci_equals U a b \<Longrightarrow> su_ci_equals U b c \<Longrightarrow> su_ci_equals U a c"
  by (simp add: string_util_okD)

section \<open>Decimal numerals\<close>

fun nat_string :: "nat \<Rightarrow> string" where
  "nat_string n = (if n < 10 then [char_of (48 + n)]
                   else nat_string (n div 10) @ [char_of (48 + n mod 10)])"

declare nat_string.simps [simp del]

lemma byte_char_of [simp]: "n < 256 \<Longrightarrow> byte (char_of n) = n"
  by (simp add: of_char_of)

lemma nat_string_digits: "c \<in> set (nat_string n) \<Longrightarrow> is_digit c"
proof (induction n rule: nat_string.induct)
  case (1 n)
  show ?case
  proof (cases "n < 10")
    case True
    with 1(2) show ?thesis by (simp add: nat_string.simps [of n] is_digit_def)
  next
    case False
    have "n mod 10 < 10" by simp
    with 1 False show ?thesis by (auto simp: nat_string.simps [of n] is_digit_def)
  qed
qed

lemma nat_string_nonempty [simp]: "nat_string n \<noteq> []"
  by (subst nat_string.simps) simp

lemma char_of_eq_digit:
  fixes m n :: nat
  assumes "m < 10" "n < 10" "(char_of (48 + m) :: char) = char_of (48 + n)"
  shows "m = n"
proof -
  from assms(3) have "byte (char_of (48 + m)) = byte (char_of (48 + n))" by simp
  with assms(1,2) show ?thesis by simp
qed

end
