(* ===== verification/State.thy ===== *)
theory State
  imports Prelude
begin

text \<open>
  The data model of \<open>src/src/include/quackapi_state.hpp\<close>: the structs a \<open>QuackapiState\<close>
  stores and the state itself, one record each, field for field. DuckDB's \<open>Value\<close> is not part of
  the repository, so it is the type variable \<open>'v\<close>. The mutexes have no counterpart: each
  operation holds its mutex from its first to its last access, so an operation is one step of
  the model. The running servers and the middleware registry are separate objects of the
  sources and have their own theories.
\<close>

section \<open>Registered objects\<close>

datatype QuackapiAuthKind = API_KEY | JWT_HS256

record QuackapiAuth =
  au_name :: string
  au_kind :: QuackapiAuthKind
  au_header :: string
  au_secret :: string

record QuackapiApiKeyEntry =
  ak_auth_name :: string
  ak_key_hash :: string
  ak_subject :: string

datatype QuackapiParamSource = QUERY | HEADER | COOKIE

record 'v QuackapiParamSpec =
  ps_name :: string
  ps_type_name :: string
  ps_source :: QuackapiParamSource
  ps_external_name :: string
  ps_has_default :: bool
  ps_default_is_null :: bool
  ps_default_raw :: string
  ps_default_variant :: 'v
  ps_ge :: "'v option"
  ps_gt :: "'v option"
  ps_le :: "'v option"
  ps_lt :: "'v option"
  ps_min_length :: "nat option"
  ps_max_length :: "nat option"

record QuackapiQueue =
  qu_name :: string
  qu_max_attempts :: int
  qu_visibility_timeout_sec :: int
  qu_backoff_base_sec :: int

record QuackapiGroup =
  gr_name :: string
  gr_prefix :: string
  gr_require_auth :: string
  gr_tags :: string
  gr_policy :: string

record QuackapiGraphqlRoute =
  gq_name :: string
  gq_method :: string
  gq_path :: string
  gq_tables :: "string list"
  gq_require_auth :: string
  gq_limit :: nat

record 'v QuackapiRoute =
  rt_name :: string
  rt_method :: string
  rt_pattern :: string
  rt_handler_sql :: string
  rt_status :: int
  rt_require_auth :: string
  rt_params :: "'v QuackapiParamSpec list"
  rt_body_schema :: string
  rt_body_type :: string
  rt_group_name :: string
  rt_tags :: string
  rt_max_request_bytes :: int
  rt_rate_limit_n :: int
  rt_rate_limit_per_sec :: int
  rt_rate_limit_by :: string
  rt_response_format :: string
  rt_response_envelope :: string
  rt_empty_status :: int
  rt_empty_body :: string
  rt_timeout_sec :: int
  rt_schedule :: string

record QuackapiRowAccessPolicy =
  ra_name :: string
  ra_arg_columns :: "string list"
  ra_arg_types :: "string list"
  ra_expression :: string

record QuackapiMaskingPolicy =
  mp_name :: string
  mp_value_type :: string
  mp_expression :: string

record QuackapiRowAccessBinding =
  rb_table_name :: string
  rb_policy_name :: string
  rb_columns :: "string list"

record QuackapiMaskingBinding =
  mb_table_name :: string
  mb_column_name :: string
  mb_policy_name :: string

datatype QuackapiStreamTransport = SSE | WS

record QuackapiStream =
  st_name :: string
  st_method :: string
  st_pattern :: string
  st_handler_sql :: string
  st_interval_ms :: int
  st_transport :: QuackapiStreamTransport

text \<open>One window of the rate limiter. Times are nanoseconds of the steady clock.\<close>

record RateLimitEntry =
  rl_count :: int
  rl_expires :: int

section \<open>The per-database state\<close>

text \<open>
  \<open>routes_live\<close> and \<open>streams_live\<close> are the published immutable copies (\<open>None\<close> is the
  null pointer before the first publication). \<open>rate_limit_entries\<close> is an \<open>unordered_map\<close>:
  a list of key/value pairs with distinct keys whose order no operation depends on.
\<close>

record 'v QuackapiState =
  rate_limit_entries :: "(string \<times> RateLimitEntry) list"
  routes :: "'v QuackapiRoute list"
  routes_live :: "'v QuackapiRoute list option"
  streams :: "QuackapiStream list"
  streams_live :: "QuackapiStream list option"
  groups :: "QuackapiGroup list"
  auths :: "QuackapiAuth list"
  api_keys :: "QuackapiApiKeyEntry list"
  queues :: "QuackapiQueue list"
  row_access_policies :: "QuackapiRowAccessPolicy list"
  masking_policies :: "QuackapiMaskingPolicy list"
  row_access_bindings :: "QuackapiRowAccessBinding list"
  masking_bindings :: "QuackapiMaskingBinding list"
  graphql_tables :: "string list"
  graphql_routes :: "QuackapiGraphqlRoute list"

definition initial_state :: "'v QuackapiState" where
  "initial_state = \<lparr>rate_limit_entries = [], routes = [], routes_live = None, streams = [],
     streams_live = None, groups = [], auths = [], api_keys = [], queues = [],
     row_access_policies = [], masking_policies = [], row_access_bindings = [],
     masking_bindings = [], graphql_tables = [], graphql_routes = []\<rparr>"

text \<open>A route used in examples.\<close>

definition example_route :: "nat QuackapiRoute" where
  "example_route = \<lparr>rt_name = ''item'', rt_method = ''GET'', rt_pattern = ''/items/:id'',
     rt_handler_sql = ''SELECT $id'', rt_status = 200, rt_require_auth = [], rt_params = [],
     rt_body_schema = [], rt_body_type = [], rt_group_name = [], rt_tags = [],
     rt_max_request_bytes = 0, rt_rate_limit_n = 0, rt_rate_limit_per_sec = 0, rt_rate_limit_by = [],
     rt_response_format = ''json'', rt_response_envelope = ''array'', rt_empty_status = 0,
     rt_empty_body = [], rt_timeout_sec = 0, rt_schedule = []\<rparr>"

section \<open>The contract of a registry of named objects\<close>

text \<open>
  Ten of the registries follow one discipline: an object is stored under its name; adding an
  object whose name is taken replaces it in place under \<open>OR REPLACE\<close> and is an error
  otherwise; a new name goes to the end; dropping erases the object of that name. \<open>stored\<close> is
  what is kept of the object given to \<open>add\<close> (some registries normalise it). The laws hold for
  states whose keys are distinct, and the locale shows that the operations keep them so and that
  the registry behaves as a finite map.
\<close>

locale named_registry =
  fixes entries :: "'s \<Rightarrow> 'e list"
    and key :: "'e \<Rightarrow> 'k"
    and stored :: "'e \<Rightarrow> 's \<Rightarrow> 'e"
    and add :: "'e \<Rightarrow> bool \<Rightarrow> 's \<Rightarrow> 's result"
    and drop_key :: "'k \<Rightarrow> 's \<Rightarrow> bool \<times> 's"
  assumes add_entries: "distinct (map key (entries s)) \<Longrightarrow> add e rep s = Inr s' \<Longrightarrow>
      entries s' = (if any (\<lambda>x. key x = key e) (entries s)
        then replace_first (\<lambda>x. key x = key e) (stored e s) (entries s)
        else entries s @ [stored e s])"
    and add_taken: "any (\<lambda>x. key x = key e) (entries s) \<Longrightarrow> \<not> is_ok (add e False s)"
    and key_stored: "any (\<lambda>x. key x = key e) (entries s) \<or> add e rep s = Inr s' \<Longrightarrow>
      key (stored e s) = key e"
    and drop_entries: "entries (snd (drop_key k s)) = erase_first (\<lambda>x. key x = k) (entries s)"
    and drop_found: "fst (drop_key k s) = any (\<lambda>x. key x = k) (entries s)"
begin

definition keys_distinct :: "'s \<Rightarrow> bool" where
  "keys_distinct s = distinct (map key (entries s))"

definition get :: "'k \<Rightarrow> 's \<Rightarrow> 'e option" where
  "get k s = List.find (\<lambda>x. key x = k) (entries s)"

lemma add_keys_distinct:
  assumes "keys_distinct s" and "add e rep s = Inr s'"
  shows "keys_distinct s'"
proof (cases "any (\<lambda>x. key x = key e) (entries s)")
  case True
  have "map key (entries s') = map key (entries s)"
    using assms True key_stored [of e s rep s']
    by (simp add: add_entries keys_distinct_def map_replace_first)
  then show ?thesis using assms(1) by (simp add: keys_distinct_def)
next
  case False
  then have "key e \<notin> key ` set (entries s)" by (auto simp: any_iff)
  with False assms key_stored [of e s rep s'] show ?thesis
    by (simp add: add_entries keys_distinct_def)
qed

lemma drop_keys_distinct: "keys_distinct s \<Longrightarrow> keys_distinct (snd (drop_key k s))"
  by (simp add: keys_distinct_def drop_entries distinct_map_erase_first)

lemma find_replace_first_key:
  "any (\<lambda>x. key x = key e) xs \<Longrightarrow> key y = key e \<Longrightarrow>
   List.find (\<lambda>x. key x = k) (replace_first (\<lambda>x. key x = key e) y xs) =
     (if k = key e then Some y else List.find (\<lambda>x. key x = k) xs)"
  by (induction xs) auto

lemma get_add:
  assumes "keys_distinct s" and "add e rep s = Inr s'"
  shows "get k s' = (if k = key e then Some (stored e s) else get k s)"
proof (cases "any (\<lambda>x. key x = key e) (entries s)")
  case True
  with assms key_stored [of e s rep s'] show ?thesis
    by (simp add: get_def keys_distinct_def add_entries find_replace_first_key)
next
  case False
  then have "List.find (\<lambda>x. key x = key e) (entries s) = None" by (simp add: any_find)
  with False assms key_stored [of e s rep s'] show ?thesis
    by (simp add: get_def keys_distinct_def add_entries find_append split: option.splits)
qed

lemma find_erase_first_key:
  "distinct (map key xs) \<Longrightarrow> List.find (\<lambda>x. key x = j) (erase_first (\<lambda>x. key x = k) xs) =
     (if j = k then None else List.find (\<lambda>x. key x = j) xs)"
proof (induction xs)
  case (Cons x xs)
  then have "key x \<notin> key ` set xs" by simp
  then have "List.find (\<lambda>y. key y = key x) xs = None"
    by (intro find_NoneI) (metis imageI)
  with Cons show ?case by auto
qed simp

lemma get_drop:
  "keys_distinct s \<Longrightarrow> get j (snd (drop_key k s)) = (if j = k then None else get j s)"
  by (simp add: get_def keys_distinct_def drop_entries find_erase_first_key)

lemma drop_iff_get: "fst (drop_key k s) = (get k s \<noteq> None)"
  by (simp add: drop_found get_def any_find)

lemma add_without_replace: "add e False s = Inr s' \<Longrightarrow> get (key e) s = None"
  using add_taken [of e s] by (cases "get (key e) s") (auto simp: get_def any_find)

lemma add_preserves_all:
  assumes "keys_distinct s" and "add e rep s = Inr s'"
    and "\<And>x. x \<in> set (entries s) \<Longrightarrow> P x" and "P (stored e s)"
  shows "x \<in> set (entries s') \<Longrightarrow> P x"
  using assms set_replace_first_subset [of "\<lambda>x. key x = key e" "stored e s" "entries s"]
  by (auto simp: keys_distinct_def add_entries split: if_splits)

lemma drop_preserves_all:
  assumes "\<And>x. x \<in> set (entries s) \<Longrightarrow> P x"
  shows "x \<in> set (entries (snd (drop_key k s))) \<Longrightarrow> P x"
  using assms set_erase_first_subset by (fastforce simp: drop_entries)

end

text \<open>
  A registry whose objects also occupy a location (a method and pattern, a mount path) that no
  two objects share. \<open>usable\<close> is what the check of the location needs of the stored objects.
\<close>

locale located_registry = named_registry entries key stored add drop_key
  for entries :: "'s \<Rightarrow> 'e list" and key :: "'e \<Rightarrow> 'k" and stored and add and drop_key +
  fixes loc :: "'e \<Rightarrow> 'p"
    and usable :: "'e \<Rightarrow> bool"
  assumes add_loc: "list_all usable (entries s) \<Longrightarrow> distinct (map key (entries s)) \<Longrightarrow>
      add e rep s = Inr s' \<Longrightarrow> x \<in> set (entries s) \<Longrightarrow> key x \<noteq> key e \<Longrightarrow>
      loc x \<noteq> loc (stored e s)"
    and usable_stored: "usable e \<Longrightarrow> usable (stored e s)"
begin

definition registry_wf :: "'s \<Rightarrow> bool" where
  "registry_wf s = (keys_distinct s \<and> distinct (map loc (entries s)) \<and> list_all usable (entries s))"

lemma distinct_loc_replace:
  "distinct (map loc xs) \<Longrightarrow> distinct (map key xs) \<Longrightarrow>
   (\<And>x. x \<in> set xs \<Longrightarrow> key x \<noteq> k \<Longrightarrow> loc x \<noteq> loc y) \<Longrightarrow>
   distinct (map loc (replace_first (\<lambda>x. key x = k) y xs))"
proof (induction xs)
  case (Cons a xs)
  show ?case
  proof (cases "key a = k")
    case True
    with Cons.prems(2) have "\<And>x. x \<in> set xs \<Longrightarrow> key x \<noteq> k" by (auto simp: image_iff)
    with Cons.prems(3) have "loc y \<notin> loc ` set xs" by (metis image_iff list.set_intros(2))
    with True Cons.prems(1) show ?thesis by simp
  next
    case False
    with Cons.prems(3) have "loc a \<noteq> loc y" by simp
    with False Cons show ?thesis
      using set_replace_first_subset [of "\<lambda>x. key x = k" y xs] by (auto simp: image_iff)
  qed
qed simp

lemma add_registry_wf:
  assumes "registry_wf s" and "usable e" and "add e rep s = Inr s'"
  shows "registry_wf s'"
proof -
  from assms(1) have kd: "keys_distinct s" and ld: "distinct (map loc (entries s))"
    and us: "list_all usable (entries s)" by (simp_all add: registry_wf_def)
  have l: "\<And>x. x \<in> set (entries s) \<Longrightarrow> key x \<noteq> key e \<Longrightarrow> loc x \<noteq> loc (stored e s)"
    using add_loc us kd assms(3) by (auto simp: keys_distinct_def)
  have "distinct (map loc (entries s'))"
  proof (cases "any (\<lambda>x. key x = key e) (entries s)")
    case True
    then show ?thesis
      using distinct_loc_replace [OF ld _ l] kd assms(3) by (simp add: add_entries keys_distinct_def)
  next
    case False
    then have "\<And>x. x \<in> set (entries s) \<Longrightarrow> key x \<noteq> key e" by (auto simp: any_iff)
    with l have "loc (stored e s) \<notin> loc ` set (entries s)" by (metis imageE)
    with False ld kd assms(3) show ?thesis by (simp add: add_entries keys_distinct_def)
  qed
  moreover have "list_all usable (entries s')"
    using add_preserves_all [OF kd assms(3), of usable] us usable_stored [OF assms(2)]
    by (auto simp: list_all_iff)
  ultimately show ?thesis
    using add_keys_distinct [OF kd assms(3)] by (simp add: registry_wf_def)
qed

lemma drop_registry_wf: "registry_wf s \<Longrightarrow> registry_wf (snd (drop_key k s))"
  using drop_preserves_all [of s usable]
  by (auto simp: registry_wf_def drop_keys_distinct drop_entries distinct_map_erase_first list_all_iff)

lemma loc_unique:
  "registry_wf s \<Longrightarrow> x \<in> set (entries s) \<Longrightarrow> y \<in> set (entries s) \<Longrightarrow> loc x = loc y \<Longrightarrow> x = y"
  by (auto simp: registry_wf_def dest: distinct_map [THEN iffD1] inj_onD)

end

end
