(* ===== verification/RateLimit.thy ===== *)
theory RateLimit
  imports State
begin

text \<open>
  The in-process rate limiter of \<open>src/src/quackapi_server.cpp\<close>
  (\<open>QuackapiState::AllowRateLimit\<close>, \<open>ClearRouteRateLimit\<close>). The clock reading is an
  argument. The theory shows that the length-prefixed bucket keys of two routes never overlap,
  that the table is bounded, and how many calls a window and a period can admit.
\<close>

section \<open>Definitions\<close>

definition rate_limit_prefix :: "string \<Rightarrow> string" where
  "rate_limit_prefix route = nat_string (length route) @ '':'' @ route @ ''|''"

definition rate_limit_key :: "string \<Rightarrow> string \<Rightarrow> string" where
  "rate_limit_key route client = nat_string (length route) @ '':'' @ route @ ''|'' @ client"

definition RATE_LIMIT_CAPACITY :: nat where
  "RATE_LIMIT_CAPACITY = 100000"

definition second_ns :: int where
  "second_ns = 1000000000"

text \<open>The part of \<open>AllowRateLimit\<close> after the entry has been found or created.\<close>

definition charge_entry :: "int \<Rightarrow> int \<Rightarrow> int \<Rightarrow> RateLimitEntry \<Rightarrow> bool \<times> int \<times> RateLimitEntry" where
  "charge_entry now limit per_sec entry =
     (let entry1 = (if rl_expires entry \<le> now
                    then entry\<lparr>rl_count := 0, rl_expires := now + per_sec * second_ns\<rparr>
                    else entry);
          retry_after = max 1 (c_div (rl_expires entry1 - now) second_ns + 1)
      in if rl_count entry1 \<ge> limit then (False, retry_after, entry1)
         else (True, retry_after, entry1\<lparr>rl_count := rl_count entry1 + 1\<rparr>))"

definition AllowRateLimit ::
  "int \<Rightarrow> string \<Rightarrow> string \<Rightarrow> int \<Rightarrow> int \<Rightarrow> (string \<times> RateLimitEntry) list \<Rightarrow>
   bool \<times> int \<times> (string \<times> RateLimitEntry) list" where
  "AllowRateLimit now route client limit per_sec m =
     (let k = rate_limit_key route client
      in case map_of m k of
           Some entry \<Rightarrow>
             (case charge_entry now limit per_sec entry of
                (ok, retry, entry1) \<Rightarrow> (ok, retry, replace_first (\<lambda>p. fst p = k) (k, entry1) m))
         | None \<Rightarrow>
             (let m1 = (if length m \<ge> RATE_LIMIT_CAPACITY
                        then filter (\<lambda>p. \<not> rl_expires (snd p) \<le> now) m else m)
              in if length m1 \<ge> RATE_LIMIT_CAPACITY then (False, max 1 per_sec, m1)
                 else (case charge_entry now limit per_sec
                              \<lparr>rl_count = 0, rl_expires = now + per_sec * second_ns\<rparr> of
                         (ok, retry, entry1) \<Rightarrow> (ok, retry, m1 @ [(k, entry1)]))))"

definition ClearRouteRateLimit ::
  "string_util \<Rightarrow> string \<Rightarrow> (string \<times> RateLimitEntry) list \<Rightarrow> (string \<times> RateLimitEntry) list" where
  "ClearRouteRateLimit U route m = filter (\<lambda>p. \<not> su_starts_with U (fst p) (rate_limit_prefix route)) m"

section \<open>Bucket keys\<close>

lemma digits_then_colon:
  assumes "list_all is_digit ds" "list_all is_digit es" "ds @ CHR '':'' # xs = es @ CHR '':'' # ys"
  shows "ds = es \<and> xs = ys"
  using assms
proof (induction ds arbitrary: es)
  case Nil
  then show ?case by (cases es) (auto simp: is_digit_def)
next
  case (Cons d ds)
  then show ?case by (cases es) (auto simp: is_digit_def)
qed

lemma list_all_nat_string: "list_all is_digit (nat_string n)"
  by (auto simp: list_all_iff nat_string_digits)

lemma rate_limit_key_prefix: "rate_limit_key route client = rate_limit_prefix route @ client"
  by (simp add: rate_limit_key_def rate_limit_prefix_def)

lemma nat_string_last:
  "last (nat_string n) = char_of (48 + n mod 10)"
  by (subst nat_string.simps) simp

lemma nat_string_inj: "nat_string m = nat_string n \<Longrightarrow> m = n"
proof (induction m arbitrary: n rule: nat_string.induct)
  case (1 m)
  have "last (nat_string m) = last (nat_string n)" using 1(2) by simp
  then have md: "m mod 10 = n mod 10"
    using char_of_eq_digit [of "m mod 10" "n mod 10"] by (simp add: nat_string_last)
  have b: "butlast (nat_string m) = butlast (nat_string n)" using 1(2) by simp
  have bl: "\<And>k. butlast (nat_string k) = (if k < 10 then [] else nat_string (k div 10))"
    by (subst nat_string.simps) simp
  show ?case
  proof (cases "m < 10")
    case True
    with b bl [of m] bl [of n] have "n < 10" by (metis nat_string_nonempty)
    with True md show ?thesis by simp
  next
    case False
    with b bl [of m] bl [of n] have "\<not> n < 10" "nat_string (m div 10) = nat_string (n div 10)"
      by (metis nat_string_nonempty)+
    with 1(1) False have "m div 10 = n div 10" by blast
    with md show ?thesis by (metis div_mult_mod_eq)
  qed
qed

lemma prefix_rate_limit_key:
  "prefix (rate_limit_prefix route) (rate_limit_key route' client) \<longleftrightarrow> route = route'"
proof
  assume "prefix (rate_limit_prefix route) (rate_limit_key route' client)"
  then obtain zs where z: "rate_limit_key route' client = rate_limit_prefix route @ zs"
    by (auto simp: prefix_def)
  then have "nat_string (length route') @ CHR '':'' # route' @ ''|'' @ client =
      nat_string (length route) @ CHR '':'' # route @ ''|'' @ zs"
    by (simp add: rate_limit_key_def rate_limit_prefix_def)
  from digits_then_colon [OF list_all_nat_string list_all_nat_string this]
  have "length route' = length route" and "route' @ ''|'' @ client = route @ ''|'' @ zs"
    by (auto dest: nat_string_inj)
  then show "route = route'" by (simp add: append_eq_append_conv)
qed (simp add: rate_limit_key_prefix)

lemma rate_limit_key_inj:
  "rate_limit_key r c = rate_limit_key r' c' \<longleftrightarrow> r = r' \<and> c = c'"
proof
  assume h: "rate_limit_key r c = rate_limit_key r' c'"
  then have "prefix (rate_limit_prefix r) (rate_limit_key r' c')"
    by (metis prefixI rate_limit_key_prefix)
  then have "r = r'" by (simp add: prefix_rate_limit_key)
  with h show "r = r' \<and> c = c'" by (simp add: rate_limit_key_prefix)
qed simp


text \<open>
  Clearing the buckets of a route (done by CREATE OR REPLACE and DROP of the route) erases
  every bucket of that route, whatever the client, and no bucket of any other route: the
  length prefix keeps names such as \<open>a\<close> and \<open>a|b\<close> apart.
\<close>

theorem clear_rate_limit_exact:
  assumes "string_util_ok U"
  shows "(rate_limit_key route' client, entry) \<in> set (ClearRouteRateLimit U route m) \<longleftrightarrow>
    (rate_limit_key route' client, entry) \<in> set m \<and> route' \<noteq> route"
  using assms by (auto simp: ClearRouteRateLimit_def string_util_okD prefix_rate_limit_key)

theorem clear_rate_limit_exact_witness:
  "string_util_ok ascii_util \<and>
   ((rate_limit_key ''a|b'' ''x'', \<lparr>rl_count = 1, rl_expires = 2\<rparr>) \<in> set (ClearRouteRateLimit
       ascii_util ''a'' [(rate_limit_key ''a|b'' ''x'', \<lparr>rl_count = 1, rl_expires = 2\<rparr>)]) \<longleftrightarrow>
    (rate_limit_key ''a|b'' ''x'', \<lparr>rl_count = 1, rl_expires = 2\<rparr>) \<in> set
       [(rate_limit_key ''a|b'' ''x'', \<lparr>rl_count = 1, rl_expires = 2\<rparr>)] \<and> ''a|b'' \<noteq> ''a'')"
  by (rule conjI [OF string_util_ok_ascii clear_rate_limit_exact [OF string_util_ok_ascii]])

section \<open>The table as a map\<close>

definition rate_table_wf :: "(string \<times> RateLimitEntry) list \<Rightarrow> bool" where
  "rate_table_wf m \<longleftrightarrow> distinct (map fst m) \<and> length m \<le> RATE_LIMIT_CAPACITY \<and>
     (\<forall>p \<in> set m. 0 \<le> rl_count (snd p))"

lemma map_of_replace_key:
  "map_of m k \<noteq> None \<Longrightarrow>
   map_of (replace_first (\<lambda>p. fst p = k) (k, e) m) j = (if j = k then Some e else map_of m j)"
  by (induction m) (auto split: if_splits)

lemma map_of_filter_snd:
  "distinct (map fst m) \<Longrightarrow> map_of (filter (\<lambda>p. q (snd p)) m) j =
     (case map_of m j of None \<Rightarrow> None | Some e \<Rightarrow> if q e then Some e else None)"
  by (induction m) (auto split: option.splits simp: map_of_eq_None_iff)

lemma charge_entry_count:
  "charge_entry now limit per_sec e = (ok, retry, e') \<Longrightarrow> 0 \<le> rl_count e \<Longrightarrow> 0 \<le> rl_count e'"
  by (auto simp: charge_entry_def Let_def split: if_splits)

lemma AllowRateLimit_Some:
  "map_of m (rate_limit_key route client) = Some e \<Longrightarrow>
   AllowRateLimit now route client limit per_sec m =
     (case charge_entry now limit per_sec e of (ok, retry, e1) \<Rightarrow>
        (ok, retry, replace_first (\<lambda>p. fst p = rate_limit_key route client)
                      (rate_limit_key route client, e1) m))"
  by (simp add: AllowRateLimit_def Let_def)

lemma rate_table_bounded_step:
  assumes "rate_table_wf m"
    and "AllowRateLimit now route client limit per_sec m = (ok, retry, m')"
  shows "rate_table_wf m'"
proof (cases "map_of m (rate_limit_key route client)")
  case (Some e)
  obtain a r e1 where c: "charge_entry now limit per_sec e = (a, r, e1)"
    by (cases "charge_entry now limit per_sec e")
  let ?k = "rate_limit_key route client"
  have "m' = replace_first (\<lambda>p. fst p = ?k) (?k, e1) m"
    using assms(2) Some c by (simp add: AllowRateLimit_Some)
  moreover have "0 \<le> rl_count e1"
    using charge_entry_count [OF c] assms(1) map_of_SomeD [OF Some] by (force simp: rate_table_wf_def)
  ultimately show ?thesis
    using assms(1) set_replace_first_subset [of "\<lambda>p. fst p = ?k" "(?k, e1)" m]
    by (auto simp: rate_table_wf_def map_replace_first)
next
  case None
  define m1 where "m1 = (if length m \<ge> RATE_LIMIT_CAPACITY
    then filter (\<lambda>p. \<not> rl_expires (snd p) \<le> now) m else m)"
  have "distinct (map fst m1)" "set m1 \<subseteq> set m" "length m1 \<le> length m"
    using assms(1) by (auto simp: m1_def rate_table_wf_def distinct_map_filter)
  moreover obtain a r e1 where c: "charge_entry now limit per_sec
      \<lparr>rl_count = 0, rl_expires = now + per_sec * second_ns\<rparr> = (a, r, e1)"
    by (metis prod_cases3)
  moreover have "rate_limit_key route client \<notin> fst ` set m1"
    using None \<open>set m1 \<subseteq> set m\<close> by (auto simp: map_of_eq_None_iff)
  ultimately show ?thesis
    using assms None charge_entry_count [OF c]
    by (auto simp: AllowRateLimit_def Let_def m1_def [symmetric] rate_table_wf_def split: if_splits)
qed

text \<open>
  The limiter's table is bounded: from a well-formed table (one entry per key, at most
  100000 entries, no negative count) every call leads to a well-formed table. At the bound a new
  identity is refused instead of being stored.
\<close>

theorem rate_table_bounded:
  assumes "rate_table_wf m"
    and "AllowRateLimit now route client limit per_sec m = (ok, retry, m')"
  shows "rate_table_wf m'"
  using assms by (rule rate_table_bounded_step)

theorem rate_table_bounded_witness:
  "rate_table_wf [] \<and> AllowRateLimit 0 ''r'' ''ip:x'' 1 60 [] =
     (True, 61, [(rate_limit_key ''r'' ''ip:x'', \<lparr>rl_count = 1, rl_expires = 60000000000\<rparr>)]) \<and>
   rate_table_wf [(rate_limit_key ''r'' ''ip:x'', \<lparr>rl_count = 1, rl_expires = 60000000000\<rparr>)]"
proof -
  have w: "rate_table_wf []" by (simp add: rate_table_wf_def)
  have c: "AllowRateLimit 0 ''r'' ''ip:x'' 1 60 [] =
     (True, 61, [(rate_limit_key ''r'' ''ip:x'', \<lparr>rl_count = 1, rl_expires = 60000000000\<rparr>)])"
    by (simp add: AllowRateLimit_def charge_entry_def RATE_LIMIT_CAPACITY_def second_ns_def c_div_def)
  show ?thesis using w c rate_table_bounded [OF w c] by blast
qed

section \<open>How many calls are admitted\<close>

record rate_call =
  rc_now :: int
  rc_route :: string
  rc_client :: string
  rc_limit :: int
  rc_per_sec :: int

definition call_key :: "rate_call \<Rightarrow> string" where
  "call_key c = rate_limit_key (rc_route c) (rc_client c)"

text \<open>The number of calls of bucket \<open>k\<close> that are admitted in a sequence of calls.\<close>

fun admitted :: "string \<Rightarrow> (string \<times> RateLimitEntry) list \<Rightarrow> rate_call list \<Rightarrow> int" where
  "admitted k m [] = 0"
| "admitted k m (c # cs) =
     (case AllowRateLimit (rc_now c) (rc_route c) (rc_client c) (rc_limit c) (rc_per_sec c) m of
        (ok, _, m1) \<Rightarrow> (if ok \<and> call_key c = k then 1 else 0) + admitted k m1 cs)"

text \<open>
  What bucket \<open>k\<close> can still admit before time \<open>horizon\<close> under limit \<open>L\<close>: the rest of its
  window, and one more window if the current one may end before the horizon.
\<close>

definition allowance :: "int \<Rightarrow> int \<Rightarrow> string \<Rightarrow> (string \<times> RateLimitEntry) list \<Rightarrow> int" where
  "allowance horizon L k m = (case map_of m k of None \<Rightarrow> L
     | Some e \<Rightarrow> max 0 (L - rl_count e) + (if horizon \<le> rl_expires e then 0 else L))"

lemma allowance_other_key:
  assumes "rate_table_wf m" "0 \<le> L" "now < horizon" "rate_limit_key route client \<noteq> k"
    and "AllowRateLimit now route client limit per_sec m = (ok, retry, m')"
  shows "allowance horizon L k m' \<le> allowance horizon L k m"
proof (cases "map_of m (rate_limit_key route client)")
  case (Some e)
  with assms(4,5) have "map_of m' k = map_of m k"
    by (auto simp: AllowRateLimit_Some map_of_replace_key split: prod.splits)
  then show ?thesis by (simp add: allowance_def)
next
  case None
  have d: "distinct (map fst m)" using assms(1) by (simp add: rate_table_wf_def)
  have "map_of m' k = map_of m k \<or>
      map_of m' k = (case map_of m k of None \<Rightarrow> None
                     | Some e \<Rightarrow> if \<not> rl_expires e \<le> now then Some e else None)"
    using assms(4,5) None map_of_filter_snd [OF d, of "\<lambda>e. \<not> rl_expires e \<le> now" k]
    by (auto simp: AllowRateLimit_def Let_def map_add_def split: if_splits prod.splits option.splits)
  with assms(2,3) show ?thesis
    by (auto simp: allowance_def split: option.splits if_splits)
qed

lemma charge_entry_allowance:
  assumes "charge_entry now L P e = (ok, retry, e')" "0 \<le> L" "now < t + P * second_ns"
    "t \<le> now" "0 \<le> rl_count e"
  shows "(if ok then 1 else 0) + (max 0 (L - rl_count e') +
      (if t + P * second_ns \<le> rl_expires e' then 0 else L))
    \<le> max 0 (L - rl_count e) + (if t + P * second_ns \<le> rl_expires e then 0 else L)"
  using assms by (auto simp: charge_entry_def Let_def split: if_splits)

lemma charge_fresh_allowance:
  assumes "charge_entry now L P \<lparr>rl_count = 0, rl_expires = now + P * second_ns\<rparr> = (ok, retry, e')"
    "0 \<le> L" "t \<le> now" "0 < P"
  shows "(if ok then 1 else 0) + (max 0 (L - rl_count e') +
      (if t + P * second_ns \<le> rl_expires e' then 0 else L)) \<le> L"
  using assms by (auto simp: charge_entry_def Let_def second_ns_def split: if_splits)

lemma allowance_same_key:
  assumes wf: "rate_table_wf m" and "0 \<le> L" "now < t + P * second_ns" "t \<le> now" "0 < P"
    and k: "rate_limit_key route client = k"
    and call: "AllowRateLimit now route client L P m = (ok, retry, m')"
  shows "(if ok then 1 else 0) + allowance (t + P * second_ns) L k m'
    \<le> allowance (t + P * second_ns) L k m"
proof (cases "map_of m k")
  case (Some e)
  obtain a r e1 where c: "charge_entry now L P e = (a, r, e1)"
    by (cases "charge_entry now L P e")
  have "0 \<le> rl_count e" using wf map_of_SomeD [OF Some] by (force simp: rate_table_wf_def)
  moreover have "ok = a" "map_of m' k = Some e1"
    using call Some c k by (auto simp: AllowRateLimit_Some map_of_replace_key)
  ultimately show ?thesis
    using charge_entry_allowance [OF c \<open>0 \<le> L\<close> assms(3,4)] Some by (simp add: allowance_def)
next
  case None
  obtain a r e1 where c: "charge_entry now L P
      \<lparr>rl_count = 0, rl_expires = now + P * second_ns\<rparr> = (a, r, e1)"
    by (metis prod_cases3)
  have d: "distinct (map fst m)" using wf by (simp add: rate_table_wf_def)
  have "(\<not> ok \<and> map_of m' k = None) \<or> (ok = a \<and> map_of m' k = Some e1)"
    using call None c k map_of_filter_snd [OF d, of "\<lambda>e. \<not> rl_expires e \<le> now" k]
    by (auto simp: AllowRateLimit_def Let_def map_add_def split: if_splits)
  with charge_fresh_allowance [OF c \<open>0 \<le> L\<close> assms(4,5)] None show ?thesis
    by (auto simp: allowance_def)
qed

lemma admitted_le_allowance:
  assumes "rate_table_wf m" "0 \<le> L" "0 < P"
    and "\<And>c. c \<in> set cs \<Longrightarrow> t \<le> rc_now c \<and> rc_now c < t + P * second_ns"
    and "\<And>c. c \<in> set cs \<Longrightarrow> call_key c = k \<Longrightarrow> rc_limit c = L \<and> rc_per_sec c = P"
  shows "admitted k m cs \<le> allowance (t + P * second_ns) L k m"
  using assms
proof (induction cs arbitrary: m)
  case Nil
  then show ?case by (auto simp: allowance_def split: option.splits)
next
  case (Cons c cs)
  obtain ok retry m1 where step:
    "AllowRateLimit (rc_now c) (rc_route c) (rc_client c) (rc_limit c) (rc_per_sec c) m = (ok, retry, m1)"
    by (metis prod_cases3)
  have IH: "admitted k m1 cs \<le> allowance (t + P * second_ns) L k m1"
    using Cons rate_table_bounded_step [OF Cons.prems(1) step] by auto
  show ?case
  proof (cases "call_key c = k")
    case True
    with Cons.prems(5) step have s:
      "AllowRateLimit (rc_now c) (rc_route c) (rc_client c) L P m = (ok, retry, m1)" by simp
    have "(if ok then 1 else 0) + allowance (t + P * second_ns) L k m1
        \<le> allowance (t + P * second_ns) L k m"
      using allowance_same_key [OF Cons.prems(1,2) _ _ Cons.prems(3) _ s] Cons.prems(4) True
      by (simp add: call_key_def)
    with IH step True show ?thesis by auto
  next
    case False
    have "allowance (t + P * second_ns) L k m1 \<le> allowance (t + P * second_ns) L k m"
      using allowance_other_key [OF Cons.prems(1,2) _ _ step] Cons.prems(4) False
      by (simp add: call_key_def)
    with IH step False show ?thesis by auto
  qed
qed

text \<open>
  C24. In any interval as long as the period \<open>P\<close> of a route's limit, a client is admitted at
  most twice the limit, whatever the table holds at the start and however the calls of other
  routes and clients (with other limits, and with purges of expired entries) are interleaved. If
  the client has no bucket yet, it is admitted at most \<open>L\<close> times.
\<close>

theorem rate_limit_period_bound:
  assumes "rate_table_wf m" "0 \<le> L" "0 < P"
    and "\<And>c. c \<in> set cs \<Longrightarrow> t \<le> rc_now c \<and> rc_now c < t + P * second_ns"
    and "\<And>c. c \<in> set cs \<Longrightarrow> call_key c = k \<Longrightarrow> rc_limit c = L \<and> rc_per_sec c = P"
  shows "admitted k m cs \<le> (if map_of m k = None then L else 2 * L)"
proof -
  have "\<And>e. map_of m k = Some e \<Longrightarrow> 0 \<le> rl_count e"
    using assms(1) by (force simp: rate_table_wf_def dest: map_of_SomeD)
  then have "allowance (t + P * second_ns) L k m \<le> (if map_of m k = None then L else 2 * L)"
    using assms(2) by (auto simp: allowance_def split: option.splits)
  moreover have "admitted k m cs \<le> allowance (t + P * second_ns) L k m"
    using assms by (intro admitted_le_allowance) auto
  ultimately show ?thesis by linarith
qed

definition example_calls :: "rate_call list" where
  "example_calls =
     [\<lparr>rc_now = 0, rc_route = ''r'', rc_client = ''a'', rc_limit = 1, rc_per_sec = 60\<rparr>,
      \<lparr>rc_now = 3, rc_route = ''r'', rc_client = ''b'', rc_limit = 1, rc_per_sec = 60\<rparr>,
      \<lparr>rc_now = 5, rc_route = ''r'', rc_client = ''a'', rc_limit = 1, rc_per_sec = 60\<rparr>]"

theorem rate_limit_period_bound_witness:
  "rate_table_wf [] \<and> admitted (rate_limit_key ''r'' ''a'') [] example_calls = 1 \<and>
   admitted (rate_limit_key ''r'' ''a'') [] example_calls
     \<le> (if map_of ([] :: (string \<times> RateLimitEntry) list) (rate_limit_key ''r'' ''a'') = None
        then 1 else 2 * 1)"
proof -
  have w: "rate_table_wf []" by (simp add: rate_table_wf_def)
  have "admitted (rate_limit_key ''r'' ''a'') [] example_calls = 1"
    by (simp add: example_calls_def AllowRateLimit_def charge_entry_def RATE_LIMIT_CAPACITY_def
        second_ns_def c_div_def call_key_def rate_limit_key_inj)
  moreover have "admitted (rate_limit_key ''r'' ''a'') [] example_calls
     \<le> (if map_of ([] :: (string \<times> RateLimitEntry) list) (rate_limit_key ''r'' ''a'') = None
        then 1 else 2 * 1)"
    by (rule rate_limit_period_bound [OF w, where P = 60 and t = 0])
      (auto simp: example_calls_def second_ns_def)
  ultimately show ?thesis using w by blast
qed

end
