(* ===== verification/Crypto.thy ===== *)
theory Crypto
  imports Prelude
begin

text \<open>
  The crypto helpers of \<open>src/src/quackapi_auth.cpp\<close>. They wrap the mbedtls bundled with
  DuckDB, which is not part of the repository: its functions are the fields of the record
  \<open>mbedtls\<close>, a missing result being an error return, and what the code relies on is
  \<open>mbedtls_ok\<close>.
\<close>

record mbedtls =
  mb_sha256 :: "string \<Rightarrow> string option"
  mb_md_available :: bool
  mb_hmac_sha256 :: "string \<Rightarrow> string \<Rightarrow> string option"
  mb_ct_memcmp_zero :: "string \<Rightarrow> string \<Rightarrow> bool"
  mb_base64_encode :: "string \<Rightarrow> string option"
  mb_base64_decode_size :: "string \<Rightarrow> nat option"
  mb_base64_decode :: "string \<Rightarrow> string option"

section \<open>Definitions\<close>

definition QuackapiSha256 :: "mbedtls \<Rightarrow> string \<Rightarrow> string result" where
  "QuackapiSha256 M data = (case mb_sha256 M data of
     None \<Rightarrow> Inl (Internal ''quackapi: SHA-256 failed'') | Some h \<Rightarrow> Inr h)"

definition QuackapiHmacSha256 :: "mbedtls \<Rightarrow> string \<Rightarrow> string \<Rightarrow> string result" where
  "QuackapiHmacSha256 M key data =
     (if \<not> mb_md_available M then Inl (Internal ''quackapi: HMAC-SHA256 md info unavailable'')
      else case mb_hmac_sha256 M key data of
        None \<Rightarrow> Inl (Internal ''quackapi: HMAC-SHA256 failed'') | Some h \<Rightarrow> Inr h)"

definition QuackapiConstantTimeEquals :: "mbedtls \<Rightarrow> string \<Rightarrow> string \<Rightarrow> bool" where
  "QuackapiConstantTimeEquals M a b =
     (if length a \<noteq> length b then False else if a = [] then True else mb_ct_memcmp_zero M a b)"

fun to_base64url :: "string \<Rightarrow> string" where
  "to_base64url [] = []"
| "to_base64url (c # cs) =
     (if c = CHR ''+'' then CHR ''-'' # to_base64url cs
      else if c = CHR ''/'' then CHR ''_'' # to_base64url cs
      else if c = CHR ''='' then to_base64url cs
      else c # to_base64url cs)"

definition QuackapiBase64UrlEncode :: "mbedtls \<Rightarrow> string \<Rightarrow> string result" where
  "QuackapiBase64UrlEncode M data = (case mb_base64_encode M data of
     None \<Rightarrow> Inl (Internal ''quackapi: base64 encode failed'')
   | Some std_b64 \<Rightarrow> Inr (to_base64url std_b64))"

definition from_base64url :: "string \<Rightarrow> string" where
  "from_base64url input =
     map (\<lambda>c. if c = CHR ''-'' then CHR ''+'' else if c = CHR ''_'' then CHR ''/'' else c) input"

text \<open>\<^verbatim>\<open>while (std_b64.size() % 4 != 0) std_b64 += '=';\<close>\<close>

definition pad4 :: "string \<Rightarrow> string" where
  "pad4 s = s @ replicate ((4 - length s mod 4) mod 4) CHR ''=''"

definition QuackapiBase64UrlDecode :: "mbedtls \<Rightarrow> string \<Rightarrow> string option" where
  "QuackapiBase64UrlDecode M input =
     (let std_b64 = pad4 (from_base64url input)
      in case mb_base64_decode_size M std_b64 of
           None \<Rightarrow> None
         | Some olen \<Rightarrow> if olen = 0 then Some [] else mb_base64_decode M std_b64)"

section \<open>What mbedtls promises\<close>

definition base64_char :: "char \<Rightarrow> bool" where
  "base64_char c = (is_alpha c \<or> is_digit c \<or> c = CHR ''+'' \<or> c = CHR ''/'')"

text \<open>
  \<open>mbedtls_ct_memcmp\<close> is zero exactly on equal buffers; the base64 encoder emits characters of
  the standard alphabet followed by at most two padding characters, in groups of four; the
  decoder, and the size it announces, invert the encoder.
\<close>

definition mbedtls_ok :: "mbedtls \<Rightarrow> bool" where
  "mbedtls_ok M \<longleftrightarrow>
     (\<forall>a b. length a = length b \<longrightarrow> mb_ct_memcmp_zero M a b = (a = b)) \<and>
     (\<forall>d. \<exists>body n. mb_base64_encode M d = Some (body @ replicate n CHR ''='') \<and> list_all base64_char body \<and>
        n \<le> 2 \<and> (length body + n) mod 4 = 0 \<and>
        mb_base64_decode_size M (body @ replicate n CHR ''='') = Some (length d) \<and>
        mb_base64_decode M (body @ replicate n CHR ''='') = Some d)"

lemma constant_time_equals_iff:
  "mbedtls_ok M \<Longrightarrow> QuackapiConstantTimeEquals M a b \<longleftrightarrow> a = b"
  by (auto simp: QuackapiConstantTimeEquals_def mbedtls_ok_def)

lemma to_base64url_append: "to_base64url (xs @ ys) = to_base64url xs @ to_base64url ys"
  by (induction xs) auto

lemma to_base64url_pad [simp]: "to_base64url (replicate n CHR ''='') = []"
  by (induction n) auto

lemma from_to_base64url:
  "list_all base64_char body \<Longrightarrow>
   from_base64url (to_base64url body) = body \<and> length (to_base64url body) = length body"
  by (induction body) (auto simp: from_base64url_def base64_char_def char_class_defs)

lemma pad4_body:
  assumes "(length body + n) mod 4 = 0" "n \<le> 2"
  shows "pad4 body = body @ replicate n CHR ''=''"
proof -
  from assms(2) consider "n = 0" | "n = 1" | "n = 2" by linarith
  then have "(4 - length body mod 4) mod 4 = n"
  proof cases
    case 1
    then show ?thesis using assms(1) by simp
  next
    case 2
    then have "length body mod 4 = 3" using assms(1) by presburger
    with 2 show ?thesis by simp
  next
    case 3
    then have "length body mod 4 = 2" using assms(1) by presburger
    with 3 show ?thesis by simp
  qed
  then show ?thesis by (simp add: pad4_def)
qed

text \<open>
  base64url round trip: for every byte string, decoding its encoding gives it back, with
  the padding the encoder strips restored by the decoder.
\<close>

theorem base64url_roundtrip:
  assumes "mbedtls_ok M"
  shows "\<exists>e. QuackapiBase64UrlEncode M d = Inr e \<and> QuackapiBase64UrlDecode M e = Some d"
proof -
  from assms obtain body n where e: "mb_base64_encode M d = Some (body @ replicate n CHR ''='')"
    and b: "list_all base64_char body" and n: "n \<le> 2" "(length body + n) mod 4 = 0"
    and d: "mb_base64_decode_size M (body @ replicate n CHR ''='') = Some (length d)"
      "mb_base64_decode M (body @ replicate n CHR ''='') = Some d"
    unfolding mbedtls_ok_def by metis
  have "pad4 (from_base64url (to_base64url body)) = body @ replicate n CHR ''=''"
    using from_to_base64url [OF b] pad4_body n by simp
  with e d show ?thesis
    by (simp add: QuackapiBase64UrlEncode_def QuackapiBase64UrlDecode_def to_base64url_append)
qed

section \<open>A concrete instance\<close>

text \<open>
  An instance of the parameter for witnesses: each byte becomes eight characters \<open>A\<close>/\<open>B\<close>,
  one per bit; the digests are the identity and concatenation.
\<close>

fun bits_encode :: "string \<Rightarrow> string" where
  "bits_encode [] = []"
| "bits_encode (Char b0 b1 b2 b3 b4 b5 b6 b7 # cs) =
     map (\<lambda>b. if b then CHR ''B'' else CHR ''A'') [b0, b1, b2, b3, b4, b5, b6, b7] @ bits_encode cs"

fun bits_decode :: "string \<Rightarrow> string" where
  "bits_decode (c0 # c1 # c2 # c3 # c4 # c5 # c6 # c7 # cs) =
     Char (c0 = CHR ''B'') (c1 = CHR ''B'') (c2 = CHR ''B'') (c3 = CHR ''B'')
          (c4 = CHR ''B'') (c5 = CHR ''B'') (c6 = CHR ''B'') (c7 = CHR ''B'') # bits_decode cs"
| "bits_decode _ = []"

definition bits_mbedtls :: mbedtls where
  "bits_mbedtls = \<lparr>mb_sha256 = Some, mb_md_available = True,
     mb_hmac_sha256 = (\<lambda>k d. Some (k @ d)), mb_ct_memcmp_zero = (=),
     mb_base64_encode = (\<lambda>d. Some (bits_encode d)),
     mb_base64_decode_size = (\<lambda>s. Some (length s div 8)),
     mb_base64_decode = (\<lambda>s. Some (bits_decode s))\<rparr>"

lemma bits_roundtrip:
  "bits_decode (bits_encode d) = d \<and> length (bits_encode d) = 8 * length d \<and>
   list_all base64_char (bits_encode d)"
  by (induction d rule: bits_encode.induct) (auto simp: base64_char_def char_class_defs)

lemma mbedtls_ok_bits [simp]: "mbedtls_ok bits_mbedtls"
  unfolding mbedtls_ok_def
proof (intro conjI allI)
  fix d
  show "\<exists>body n. mb_base64_encode bits_mbedtls d = Some (body @ replicate n CHR ''='') \<and>
      list_all base64_char body \<and> n \<le> 2 \<and> (length body + n) mod 4 = 0 \<and>
      mb_base64_decode_size bits_mbedtls (body @ replicate n CHR ''='') = Some (length d) \<and>
      mb_base64_decode bits_mbedtls (body @ replicate n CHR ''='') = Some d"
    using bits_roundtrip [of d]
    by (intro exI [of _ "bits_encode d"] exI [of _ 0]) (auto simp: bits_mbedtls_def)
qed (simp_all add: bits_mbedtls_def)

theorem base64url_roundtrip_witness:
  "mbedtls_ok bits_mbedtls \<and> (\<exists>e. QuackapiBase64UrlEncode bits_mbedtls ''jwt'' = Inr e \<and>
     QuackapiBase64UrlDecode bits_mbedtls e = Some ''jwt'')"
  by (rule conjI [OF mbedtls_ok_bits base64url_roundtrip [OF mbedtls_ok_bits]])

end
