(* ===== verification/Registry.thy ===== *)
theory Registry
  imports RateLimit Crypto
begin

text \<open>
  The operations of \<open>QuackapiState\<close> (\<open>src/src/quackapi_registry.cpp\<close>), one definition per
  method, in the order of the file. An operation that throws returns \<open>Inl\<close>; none of them
  changes the state before it throws, so the state is returned on success only. The interface
  of the registries is the locale \<open>named_registry\<close> (and \<open>located_registry\<close>) of the theory
  State, interpreted here on the operations of every registry that follows it.
\<close>

section \<open>Routes\<close>

definition PublishRoutes :: "'v QuackapiState \<Rightarrow> 'v QuackapiState" where
  "PublishRoutes s = s\<lparr>routes_live := Some (routes s)\<rparr>"

definition PublishStreams :: "'v QuackapiState \<Rightarrow> 'v QuackapiState" where
  "PublishStreams s = s\<lparr>streams_live := Some (streams s)\<rparr>"

text \<open>
  The inner loop of \<open>AddRoutes\<close>: it walks all of \<open>proposed\<close>, throws at the first conflict and
  remembers the last element with the route's name.
\<close>

fun scan_proposed :: "'v QuackapiRoute \<Rightarrow> bool \<Rightarrow> 'v QuackapiRoute list \<Rightarrow> nat \<Rightarrow> nat option
    \<Rightarrow> nat option result" where
  "scan_proposed route or_replace [] i existing = Inr existing"
| "scan_proposed route or_replace (it # rest) i existing =
     (if rt_name it = rt_name route then
        (if \<not> or_replace
         then Inl (InvalidInput ''Route already exists, use CREATE OR REPLACE ROUTE'' [rt_name route])
         else scan_proposed route or_replace rest (Suc i) (Some i))
      else if rt_method it = rt_method route \<and> rt_pattern it = rt_pattern route then
        Inl (InvalidInput ''Route path already used by route''
               [rt_method route, rt_pattern route, rt_name it])
      else scan_proposed route or_replace rest (Suc i) existing)"

definition propose_route :: "'v QuackapiRoute \<Rightarrow> bool \<Rightarrow> 'v QuackapiRoute list
    \<Rightarrow> 'v QuackapiRoute list result" where
  "propose_route route or_replace proposed =
     (case scan_proposed route or_replace proposed 0 None of
        Inl e \<Rightarrow> Inl e
      | Inr None \<Rightarrow> Inr (proposed @ [route])
      | Inr (Some i) \<Rightarrow> Inr (proposed[i := route]))"

fun propose_routes :: "'v QuackapiRoute list \<Rightarrow> bool \<Rightarrow> 'v QuackapiRoute list
    \<Rightarrow> 'v QuackapiRoute list result" where
  "propose_routes [] or_replace proposed = Inr proposed"
| "propose_routes (route # rest) or_replace proposed =
     (case propose_route route or_replace proposed of
        Inl e \<Rightarrow> Inl e
      | Inr proposed' \<Rightarrow> propose_routes rest or_replace proposed')"

definition AddRoutes :: "string_util \<Rightarrow> 'v QuackapiRoute list \<Rightarrow> bool \<Rightarrow> 'v QuackapiState
    \<Rightarrow> 'v QuackapiState result" where
  "AddRoutes U new_routes or_replace s =
     (case propose_routes new_routes or_replace (routes s) of
        Inl e \<Rightarrow> Inl e
      | Inr proposed \<Rightarrow>
          (let s1 = PublishRoutes (s\<lparr>routes := proposed\<rparr>)
           in Inr (s1\<lparr>rate_limit_entries :=
                fold (\<lambda>r. ClearRouteRateLimit U (rt_name r)) new_routes (rate_limit_entries s1)\<rparr>)))"

definition AddRoute :: "string_util \<Rightarrow> 'v QuackapiRoute \<Rightarrow> bool \<Rightarrow> 'v QuackapiState
    \<Rightarrow> 'v QuackapiState result" where
  "AddRoute U route or_replace s = AddRoutes U [route] or_replace s"

definition DropRoute :: "string_util \<Rightarrow> string \<Rightarrow> 'v QuackapiState \<Rightarrow> bool \<times> 'v QuackapiState" where
  "DropRoute U name s =
     (if any (\<lambda>r. rt_name r = name) (routes s) then
        (let s1 = PublishRoutes (s\<lparr>routes := erase_first (\<lambda>r. rt_name r = name) (routes s)\<rparr>)
         in (True, s1\<lparr>rate_limit_entries := ClearRouteRateLimit U name (rate_limit_entries s1)\<rparr>))
      else (False, s))"

definition LiveRoutes :: "'v QuackapiState \<Rightarrow> 'v QuackapiRoute list \<times> 'v QuackapiState" where
  "LiveRoutes s = (case routes_live s of
      Some live \<Rightarrow> (live, s)
    | None \<Rightarrow> (routes s, PublishRoutes s))"

definition SnapshotRoutes :: "'v QuackapiState \<Rightarrow> 'v QuackapiRoute list \<times> 'v QuackapiState" where
  "SnapshotRoutes s = LiveRoutes s"

section \<open>Streams\<close>

text \<open>\<open>collides\<close>: the first other stream with the candidate's method and pattern.\<close>

definition stream_collides :: "QuackapiStream \<Rightarrow> string \<Rightarrow> QuackapiStream list \<Rightarrow> QuackapiStream option" where
  "stream_collides candidate ignore_name xs =
     List.find (\<lambda>other. st_name other \<noteq> ignore_name \<and> st_method other = st_method candidate \<and>
                  st_pattern other = st_pattern candidate) xs"

definition stream_path_used :: "QuackapiStream \<Rightarrow> QuackapiStream \<Rightarrow> exn" where
  "stream_path_used stream hit = InvalidInput ''Stream path already used by stream''
     [st_method stream, st_pattern stream, st_name hit]"

definition AddStream :: "QuackapiStream \<Rightarrow> bool \<Rightarrow> 'v QuackapiState \<Rightarrow> 'v QuackapiState result" where
  "AddStream stream or_replace s =
     (if any (\<lambda>x. st_name x = st_name stream) (streams s) then
        (if \<not> or_replace then
           Inl (InvalidInput ''Stream already exists, use CREATE OR REPLACE STREAM'' [st_name stream])
         else case stream_collides stream (st_name stream) (streams s) of
             Some hit \<Rightarrow> Inl (stream_path_used stream hit)
           | None \<Rightarrow> Inr (PublishStreams (s\<lparr>streams :=
               replace_first (\<lambda>x. st_name x = st_name stream) stream (streams s)\<rparr>)))
      else case stream_collides stream [] (streams s) of
          Some hit \<Rightarrow> Inl (stream_path_used stream hit)
        | None \<Rightarrow> Inr (PublishStreams (s\<lparr>streams := streams s @ [stream]\<rparr>)))"

definition DropStream :: "string \<Rightarrow> 'v QuackapiState \<Rightarrow> bool \<times> 'v QuackapiState" where
  "DropStream name s =
     (if any (\<lambda>x. st_name x = name) (streams s)
      then (True, PublishStreams (s\<lparr>streams := erase_first (\<lambda>x. st_name x = name) (streams s)\<rparr>))
      else (False, s))"

definition LiveStreams :: "'v QuackapiState \<Rightarrow> QuackapiStream list \<times> 'v QuackapiState" where
  "LiveStreams s = (case streams_live s of
      Some live \<Rightarrow> (live, s)
    | None \<Rightarrow> (streams s, PublishStreams s))"

definition SnapshotStreams :: "'v QuackapiState \<Rightarrow> QuackapiStream list \<times> 'v QuackapiState" where
  "SnapshotStreams s = LiveStreams s"

section \<open>Groups\<close>

definition AddGroup :: "QuackapiGroup \<Rightarrow> bool \<Rightarrow> 'v QuackapiState \<Rightarrow> 'v QuackapiState result" where
  "AddGroup grp or_replace s =
     (if any (\<lambda>x. gr_name x = gr_name grp) (groups s) then
        (if \<not> or_replace then
           Inl (InvalidInput ''Group already exists, use CREATE OR REPLACE GROUP'' [gr_name grp])
         else Inr (s\<lparr>groups := replace_first (\<lambda>x. gr_name x = gr_name grp) grp (groups s)\<rparr>))
      else Inr (s\<lparr>groups := groups s @ [grp]\<rparr>))"

definition DropGroup :: "string \<Rightarrow> 'v QuackapiState \<Rightarrow> bool \<times> 'v QuackapiState" where
  "DropGroup name s =
     (if any (\<lambda>x. gr_name x = name) (groups s)
      then (True, s\<lparr>groups := erase_first (\<lambda>x. gr_name x = name) (groups s)\<rparr>)
      else (False, s))"

definition GetGroup :: "string \<Rightarrow> 'v QuackapiState \<Rightarrow> QuackapiGroup option" where
  "GetGroup name s = List.find (\<lambda>x. gr_name x = name) (groups s)"

definition SnapshotGroups :: "'v QuackapiState \<Rightarrow> QuackapiGroup list" where
  "SnapshotGroups s = groups s"

section \<open>Auth schemes and API keys\<close>

definition AddAuth :: "string_util \<Rightarrow> QuackapiAuth \<Rightarrow> bool \<Rightarrow> 'v QuackapiState \<Rightarrow> 'v QuackapiState result" where
  "AddAuth U auth or_replace s =
     (case List.find (\<lambda>it. su_ci_equals U (au_name it) (au_name auth)) (auths s) of
        None \<Rightarrow> Inr (s\<lparr>auths := auths s @ [auth]\<rparr>)
      | Some it \<Rightarrow>
          if \<not> or_replace then
            Inl (InvalidInput ''Auth already exists, use CREATE OR REPLACE AUTH'' [au_name auth])
          else
            (let old_name = au_name it; old_kind = au_kind it;
                 keys = (if old_kind = API_KEY \<and> au_kind auth \<noteq> API_KEY
                         then filter (\<lambda>e. \<not> su_ci_equals U (ak_auth_name e) old_name) (api_keys s)
                         else if old_name \<noteq> au_name auth
                         then map (\<lambda>e. if su_ci_equals U (ak_auth_name e) old_name
                                       then e\<lparr>ak_auth_name := au_name auth\<rparr> else e) (api_keys s)
                         else api_keys s)
             in Inr (s\<lparr>auths := replace_first (\<lambda>x. su_ci_equals U (au_name x) (au_name auth)) auth (auths s),
                       api_keys := keys\<rparr>)))"

definition DropAuth :: "string_util \<Rightarrow> string \<Rightarrow> 'v QuackapiState \<Rightarrow> bool \<times> 'v QuackapiState" where
  "DropAuth U name s =
     (case List.find (\<lambda>it. su_ci_equals U (au_name it) name) (auths s) of
        None \<Rightarrow> (False, s)
      | Some it \<Rightarrow>
          (True, s\<lparr>auths := erase_first (\<lambda>x. su_ci_equals U (au_name x) name) (auths s),
                   api_keys := filter (\<lambda>e. \<not> su_ci_equals U (ak_auth_name e) (au_name it)) (api_keys s)\<rparr>))"

definition GetAuth :: "string_util \<Rightarrow> string \<Rightarrow> 'v QuackapiState \<Rightarrow> QuackapiAuth option" where
  "GetAuth U name s = List.find (\<lambda>a. su_ci_equals U (au_name a) name) (auths s)"

definition SnapshotAuths :: "'v QuackapiState \<Rightarrow> QuackapiAuth list" where
  "SnapshotAuths s = auths s"

definition AddApiKey :: "string_util \<Rightarrow> mbedtls \<Rightarrow> string \<Rightarrow> string \<Rightarrow> string \<Rightarrow> 'v QuackapiState
    \<Rightarrow> (string \<times> 'v QuackapiState) result" where
  "AddApiKey U M auth_name raw_key subject s =
     (if raw_key = [] then
        Inl (InvalidInput ''quackapi_add_api_key: raw_key must not be empty'' [])
      else if subject = [] then
        Inl (InvalidInput ''quackapi_add_api_key: subject must not be empty'' [])
      else case List.find (\<lambda>a. su_ci_equals U (au_name a) auth_name) (auths s) of
          None \<Rightarrow> Inl (InvalidInput ''Auth does not exist'' [auth_name])
        | Some auth \<Rightarrow>
            if au_kind auth \<noteq> API_KEY then
              Inl (InvalidInput ''Auth is not an API_KEY scheme'' [auth_name])
            else case QuackapiSha256 M raw_key of
                Inl e \<Rightarrow> Inl e
              | Inr key_hash \<Rightarrow>
                  (let entry = \<lparr>ak_auth_name = au_name auth, ak_key_hash = key_hash, ak_subject = subject\<rparr>;
                       same = (\<lambda>x. su_ci_equals U (ak_auth_name x) (au_name auth) \<and>
                                   QuackapiConstantTimeEquals M (ak_key_hash x) key_hash)
                   in case List.find same (api_keys s) of
                        Some x \<Rightarrow> Inr (subject, s\<lparr>api_keys := replace_first same
                          (x\<lparr>ak_subject := subject, ak_auth_name := au_name auth\<rparr>) (api_keys s)\<rparr>)
                      | None \<Rightarrow> Inr (subject, s\<lparr>api_keys := api_keys s @ [entry]\<rparr>)))"

definition SnapshotApiKeys :: "string_util \<Rightarrow> string \<Rightarrow> 'v QuackapiState \<Rightarrow> QuackapiApiKeyEntry list" where
  "SnapshotApiKeys U auth_name s = filter (\<lambda>e. su_ci_equals U (ak_auth_name e) auth_name) (api_keys s)"

section \<open>Queues\<close>

definition AddQueue :: "QuackapiQueue \<Rightarrow> bool \<Rightarrow> 'v QuackapiState \<Rightarrow> 'v QuackapiState result" where
  "AddQueue queue or_replace s =
     (if any (\<lambda>x. qu_name x = qu_name queue) (queues s) then
        (if \<not> or_replace then
           Inl (InvalidInput ''Queue already exists, use CREATE OR REPLACE QUEUE'' [qu_name queue])
         else Inr (s\<lparr>queues := replace_first (\<lambda>x. qu_name x = qu_name queue) queue (queues s)\<rparr>))
      else Inr (s\<lparr>queues := queues s @ [queue]\<rparr>))"

definition DropQueue :: "string \<Rightarrow> 'v QuackapiState \<Rightarrow> bool \<times> 'v QuackapiState" where
  "DropQueue name s =
     (if any (\<lambda>x. qu_name x = name) (queues s)
      then (True, s\<lparr>queues := erase_first (\<lambda>x. qu_name x = name) (queues s)\<rparr>)
      else (False, s))"

definition GetQueue :: "string \<Rightarrow> 'v QuackapiState \<Rightarrow> QuackapiQueue option" where
  "GetQueue name s = List.find (\<lambda>x. qu_name x = name) (queues s)"

definition SnapshotQueues :: "'v QuackapiState \<Rightarrow> QuackapiQueue list" where
  "SnapshotQueues s = queues s"


section \<open>Row access and masking policies\<close>

definition AddRowAccessPolicy :: "QuackapiRowAccessPolicy \<Rightarrow> bool \<Rightarrow> 'v QuackapiState
    \<Rightarrow> 'v QuackapiState result" where
  "AddRowAccessPolicy policy or_replace s =
     (if any (\<lambda>x. ra_name x = ra_name policy) (row_access_policies s) then
        (if \<not> or_replace then
           Inl (InvalidInput ''Row access policy already exists, use CREATE OR REPLACE ROW ACCESS POLICY''
                  [ra_name policy])
         else Inr (s\<lparr>row_access_policies :=
                replace_first (\<lambda>x. ra_name x = ra_name policy) policy (row_access_policies s)\<rparr>))
      else if any (\<lambda>m. mp_name m = ra_name policy) (masking_policies s) then
        Inl (InvalidInput ''Policy name is already used by a masking policy'' [ra_name policy])
      else Inr (s\<lparr>row_access_policies := row_access_policies s @ [policy]\<rparr>))"

definition DropRowAccessPolicy :: "string \<Rightarrow> 'v QuackapiState \<Rightarrow> bool \<times> 'v QuackapiState" where
  "DropRowAccessPolicy name s =
     (if any (\<lambda>x. ra_name x = name) (row_access_policies s)
      then (True, s\<lparr>row_access_policies := erase_first (\<lambda>x. ra_name x = name) (row_access_policies s),
                    row_access_bindings := filter (\<lambda>b. rb_policy_name b \<noteq> name) (row_access_bindings s)\<rparr>)
      else (False, s))"

definition GetRowAccessPolicy :: "string \<Rightarrow> 'v QuackapiState \<Rightarrow> QuackapiRowAccessPolicy option" where
  "GetRowAccessPolicy name s = List.find (\<lambda>x. ra_name x = name) (row_access_policies s)"

definition AddMaskingPolicy :: "QuackapiMaskingPolicy \<Rightarrow> bool \<Rightarrow> 'v QuackapiState
    \<Rightarrow> 'v QuackapiState result" where
  "AddMaskingPolicy policy or_replace s =
     (if any (\<lambda>x. mp_name x = mp_name policy) (masking_policies s) then
        (if \<not> or_replace then
           Inl (InvalidInput ''Masking policy already exists, use CREATE OR REPLACE MASKING POLICY''
                  [mp_name policy])
         else Inr (s\<lparr>masking_policies :=
                replace_first (\<lambda>x. mp_name x = mp_name policy) policy (masking_policies s)\<rparr>))
      else if any (\<lambda>r. ra_name r = mp_name policy) (row_access_policies s) then
        Inl (InvalidInput ''Policy name is already used by a row access policy'' [mp_name policy])
      else Inr (s\<lparr>masking_policies := masking_policies s @ [policy]\<rparr>))"

definition DropMaskingPolicy :: "string \<Rightarrow> 'v QuackapiState \<Rightarrow> bool \<times> 'v QuackapiState" where
  "DropMaskingPolicy name s =
     (if any (\<lambda>x. mp_name x = name) (masking_policies s)
      then (True, s\<lparr>masking_policies := erase_first (\<lambda>x. mp_name x = name) (masking_policies s),
                    masking_bindings := filter (\<lambda>b. mb_policy_name b \<noteq> name) (masking_bindings s)\<rparr>)
      else (False, s))"

definition GetMaskingPolicy :: "string \<Rightarrow> 'v QuackapiState \<Rightarrow> QuackapiMaskingPolicy option" where
  "GetMaskingPolicy name s = List.find (\<lambda>x. mp_name x = name) (masking_policies s)"

definition BindRowAccessPolicy :: "string_util \<Rightarrow> QuackapiRowAccessBinding \<Rightarrow> bool \<Rightarrow> 'v QuackapiState
    \<Rightarrow> 'v QuackapiState result" where
  "BindRowAccessPolicy U binding or_replace s =
     (case List.find (\<lambda>p. ra_name p = rb_policy_name binding) (row_access_policies s) of
        None \<Rightarrow> Inl (InvalidInput ''Row access policy does not exist'' [rb_policy_name binding])
      | Some pol \<Rightarrow>
          if length (rb_columns binding) \<noteq> length (ra_arg_columns pol) then
            Inl (InvalidInput ''Row access policy expects another number of columns''
                   [rb_policy_name binding, nat_string (length (ra_arg_columns pol)),
                    nat_string (length (rb_columns binding))])
          else
            (let same_table = (\<lambda>b. su_lower U (rb_table_name b) = su_lower U (rb_table_name binding))
             in case List.find same_table (row_access_bindings s) of
                  None \<Rightarrow> Inr (s\<lparr>row_access_bindings := row_access_bindings s @ [binding]\<rparr>)
                | Some it \<Rightarrow>
                    if rb_policy_name it = rb_policy_name binding \<or> or_replace
                    then Inr (s\<lparr>row_access_bindings :=
                           replace_first same_table binding (row_access_bindings s)\<rparr>)
                    else Inl (InvalidInput ''Table already has row access policy''
                           [rb_table_name binding, rb_policy_name it])))"

definition UnbindRowAccessPolicy :: "string_util \<Rightarrow> string \<Rightarrow> string \<Rightarrow> 'v QuackapiState
    \<Rightarrow> bool \<times> 'v QuackapiState" where
  "UnbindRowAccessPolicy U table_name policy_name s =
     (let hit = (\<lambda>b. su_lower U (rb_table_name b) = su_lower U table_name \<and>
                     (policy_name = [] \<or> rb_policy_name b = policy_name))
      in if any hit (row_access_bindings s)
         then (True, s\<lparr>row_access_bindings := erase_first hit (row_access_bindings s)\<rparr>)
         else (False, s))"

definition BindMaskingPolicy :: "string_util \<Rightarrow> QuackapiMaskingBinding \<Rightarrow> bool \<Rightarrow> 'v QuackapiState
    \<Rightarrow> 'v QuackapiState result" where
  "BindMaskingPolicy U binding or_replace s =
     (if \<not> any (\<lambda>p. mp_name p = mb_policy_name binding) (masking_policies s) then
        Inl (InvalidInput ''Masking policy does not exist'' [mb_policy_name binding])
      else
        (let same_column = (\<lambda>b. su_lower U (mb_table_name b) = su_lower U (mb_table_name binding) \<and>
                                su_lower U (mb_column_name b) = su_lower U (mb_column_name binding))
         in case List.find same_column (masking_bindings s) of
              None \<Rightarrow> Inr (s\<lparr>masking_bindings := masking_bindings s @ [binding]\<rparr>)
            | Some it \<Rightarrow>
                if \<not> or_replace \<and> mb_policy_name it \<noteq> mb_policy_name binding
                then Inl (InvalidInput ''Column already has masking policy''
                       [mb_table_name binding, mb_column_name binding, mb_policy_name it])
                else Inr (s\<lparr>masking_bindings := replace_first same_column binding (masking_bindings s)\<rparr>)))"

definition UnbindMaskingPolicy :: "string_util \<Rightarrow> string \<Rightarrow> string \<Rightarrow> 'v QuackapiState
    \<Rightarrow> bool \<times> 'v QuackapiState" where
  "UnbindMaskingPolicy U table_name column_name s =
     (let hit = (\<lambda>b. su_lower U (mb_table_name b) = su_lower U table_name \<and>
                     su_lower U (mb_column_name b) = su_lower U column_name)
      in if any hit (masking_bindings s)
         then (True, s\<lparr>masking_bindings := erase_first hit (masking_bindings s)\<rparr>)
         else (False, s))"

section \<open>GraphQL tables and mounts\<close>

definition AddGraphqlTable :: "string \<Rightarrow> bool \<Rightarrow> 'v QuackapiState \<Rightarrow> 'v QuackapiState result" where
  "AddGraphqlTable table_name or_replace s =
     (if table_name = [] then
        Inl (InvalidInput ''CREATE GRAPHQL FOR TABLE expects a non-empty table name'' [])
      else if any (\<lambda>t. t = table_name) (graphql_tables s) then
        (if \<not> or_replace then
           Inl (InvalidInput ''GraphQL table already registered, use CREATE OR REPLACE GRAPHQL FOR TABLE''
                  [table_name])
         else Inr s)
      else Inr (s\<lparr>graphql_tables := graphql_tables s @ [table_name]\<rparr>))"

definition DropGraphqlTable :: "string \<Rightarrow> 'v QuackapiState \<Rightarrow> bool \<times> 'v QuackapiState" where
  "DropGraphqlTable table_name s =
     (if any (\<lambda>t. t = table_name) (graphql_tables s)
      then (True, s\<lparr>graphql_tables := erase_first (\<lambda>t. t = table_name) (graphql_tables s)\<rparr>)
      else (False, s))"

definition ClearGraphqlTables :: "'v QuackapiState \<Rightarrow> 'v QuackapiState" where
  "ClearGraphqlTables s = s\<lparr>graphql_tables := []\<rparr>"

definition GraphqlAllowlistActive :: "'v QuackapiState \<Rightarrow> bool" where
  "GraphqlAllowlistActive s = (graphql_tables s \<noteq> [])"

definition IsGraphqlTableAllowed :: "string \<Rightarrow> 'v QuackapiState \<Rightarrow> bool" where
  "IsGraphqlTableAllowed table_name s =
     (if graphql_tables s = [] then True else any (\<lambda>t. t = table_name) (graphql_tables s))"

definition SnapshotGraphqlTables :: "'v QuackapiState \<Rightarrow> string list" where
  "SnapshotGraphqlTables s = sort (graphql_tables s)"

text \<open>\<^verbatim>\<open>while (p.size() > 1 && p.back() == '/') p.pop_back();\<close>\<close>

function NormalizeGraphqlMountPath :: "string \<Rightarrow> string" where
  "NormalizeGraphqlMountPath p =
     (if length p > 1 \<and> last p = CHR ''/'' then NormalizeGraphqlMountPath (butlast p) else p)"
  by pat_completeness auto
termination
  by (relation "measure length") auto

declare NormalizeGraphqlMountPath.simps [simp del]

definition IsReservedGraphqlPath :: "string \<Rightarrow> bool" where
  "IsReservedGraphqlPath path = (path = ''/graphql'' \<or> path = ''/graphql/schema'')"

text \<open>The route as it is stored: path normalised, method in upper case.\<close>

definition stored_graphql_route :: "string_util \<Rightarrow> QuackapiGraphqlRoute \<Rightarrow> QuackapiGraphqlRoute" where
  "stored_graphql_route U route_in =
     route_in\<lparr>gq_path := NormalizeGraphqlMountPath (gq_path route_in),
              gq_method := su_upper U (gq_method route_in)\<rparr>"

text \<open>The loop over the existing mounts that looks for a collision with \<open>route\<close>.\<close>

fun graphql_collision :: "QuackapiGraphqlRoute \<Rightarrow> QuackapiGraphqlRoute list \<Rightarrow> exn option" where
  "graphql_collision route [] = None"
| "graphql_collision route (existing # rest) =
     (if gq_name existing = gq_name route then graphql_collision route rest
      else if gq_path existing = gq_path route then
        Some (InvalidInput ''GraphQL route path already used by route'' [gq_path route, gq_name existing])
      else if gq_path existing @ ''/schema'' = gq_path route \<or>
              gq_path existing = gq_path route @ ''/schema'' then
        Some (InvalidInput ''GraphQL route path collides with schema URL of route''
                [gq_path route, gq_name existing])
      else graphql_collision route rest)"

definition AddGraphqlRoute :: "string_util \<Rightarrow> QuackapiGraphqlRoute \<Rightarrow> bool \<Rightarrow> 'v QuackapiState
    \<Rightarrow> 'v QuackapiState result" where
  "AddGraphqlRoute U route_in or_replace s =
     (if gq_name route_in = [] then
        Inl (InvalidInput ''CREATE GRAPHQL ROUTE expects a non-empty name'' [])
      else if gq_path route_in = [] \<or> hd (gq_path route_in) \<noteq> CHR ''/'' then
        Inl (InvalidInput ''CREATE GRAPHQL ROUTE path must be absolute'' [])
      else if gq_tables route_in = [] then
        Inl (InvalidInput ''CREATE GRAPHQL ROUTE requires FROM'' [])
      else
        (let route = stored_graphql_route U route_in
         in if gq_method route \<noteq> ''POST'' then
              Inl (InvalidInput ''CREATE GRAPHQL ROUTE only supports POST in v0'' [gq_method route])
            else if IsReservedGraphqlPath (gq_path route) then
              Inl (InvalidInput ''CREATE GRAPHQL ROUTE path is reserved'' [gq_path route])
            else if IsReservedGraphqlPath (gq_path route @ ''/schema'') then
              Inl (InvalidInput ''CREATE GRAPHQL ROUTE path collides with built-in schema URL'' [gq_path route])
            else case graphql_collision route (graphql_routes s) of
                Some e \<Rightarrow> Inl e
              | None \<Rightarrow>
                  if any (\<lambda>x. gq_name x = gq_name route) (graphql_routes s) then
                    (if \<not> or_replace then
                       Inl (InvalidInput ''GraphQL route already exists, use CREATE OR REPLACE GRAPHQL ROUTE''
                              [gq_name route])
                     else Inr (s\<lparr>graphql_routes :=
                            replace_first (\<lambda>x. gq_name x = gq_name route) route (graphql_routes s)\<rparr>))
                  else Inr (s\<lparr>graphql_routes := graphql_routes s @ [route]\<rparr>)))"

definition DropGraphqlRoute :: "string \<Rightarrow> 'v QuackapiState \<Rightarrow> bool \<times> 'v QuackapiState" where
  "DropGraphqlRoute name s =
     (if any (\<lambda>x. gq_name x = name) (graphql_routes s)
      then (True, s\<lparr>graphql_routes := erase_first (\<lambda>x. gq_name x = name) (graphql_routes s)\<rparr>)
      else (False, s))"

definition GetGraphqlRouteByPath :: "string_util \<Rightarrow> string \<Rightarrow> string \<Rightarrow> 'v QuackapiState
    \<Rightarrow> QuackapiGraphqlRoute option" where
  "GetGraphqlRouteByPath U path method s =
     (let norm = NormalizeGraphqlMountPath path; meth = su_upper U method
      in List.find (\<lambda>r. gq_path r = norm \<and> gq_method r = meth) (graphql_routes s))"

definition GetGraphqlRouteBySchemaPath :: "string \<Rightarrow> 'v QuackapiState \<Rightarrow> QuackapiGraphqlRoute option" where
  "GetGraphqlRouteBySchemaPath path s =
     (let norm = NormalizeGraphqlMountPath path
      in List.find (\<lambda>r. norm = gq_path r @ ''/schema'') (graphql_routes s))"

definition SnapshotGraphqlRoutes :: "'v QuackapiState \<Rightarrow> QuackapiGraphqlRoute list" where
  "SnapshotGraphqlRoutes s = sort_key gq_name (graphql_routes s)"

lemmas add_defs = AddStream_def AddGroup_def AddQueue_def AddRowAccessPolicy_def AddMaskingPolicy_def
  AddGraphqlTable_def

lemmas drop_defs = DropRoute_def DropStream_def DropGroup_def DropQueue_def DropRowAccessPolicy_def
  DropMaskingPolicy_def DropGraphqlTable_def DropGraphqlRoute_def


section \<open>The registries satisfy their contract\<close>

lemma scan_proposed_loc:
  "scan_proposed r rep xs i ex = Inr res \<Longrightarrow> x \<in> set xs \<Longrightarrow> rt_name x \<noteq> rt_name r \<Longrightarrow>
   (rt_method x, rt_pattern x) \<noteq> (rt_method r, rt_pattern r)"
  by (induction xs arbitrary: i ex) (auto split: if_splits)

lemma scan_proposed_absent:
  "\<not> any (\<lambda>x. rt_name x = rt_name r) xs \<Longrightarrow> scan_proposed r rep xs i ex = Inr res \<Longrightarrow> res = ex"
  by (induction xs arbitrary: i) (auto split: if_splits)

lemma scan_proposed_present:
  "any (\<lambda>x. rt_name x = rt_name r) xs \<Longrightarrow> distinct (map rt_name xs) \<Longrightarrow>
   scan_proposed r rep xs i ex = Inr res \<Longrightarrow>
   rep \<and> (\<exists>j. res = Some (i + j) \<and> xs[j := r] = replace_first (\<lambda>x. rt_name x = rt_name r) r xs)"
proof (induction xs arbitrary: i ex)
  case (Cons x xs)
  show ?case
  proof (cases "rt_name x = rt_name r")
    case True
    with Cons.prems(2) have "\<not> any (\<lambda>x. rt_name x = rt_name r) xs" by (auto simp: any_iff image_iff)
    with True Cons.prems(3) have "rep \<and> res = Some (i + 0)"
      by (auto split: if_splits dest: scan_proposed_absent)
    with True show ?thesis by (intro conjI exI [of _ 0]) auto
  next
    case False
    with Cons.prems have "scan_proposed r rep xs (Suc i) ex = Inr res"
      "any (\<lambda>x. rt_name x = rt_name r) xs" "distinct (map rt_name xs)"
      by (auto split: if_splits)
    with Cons.IH obtain j where "rep" "res = Some (Suc i + j)"
      "xs[j := r] = replace_first (\<lambda>x. rt_name x = rt_name r) r xs"
      by blast
    with False show ?thesis by (intro conjI exI [of _ "Suc j"]) auto
  qed
qed simp

lemma propose_route_entries:
  "distinct (map rt_name xs) \<Longrightarrow> propose_route r rep xs = Inr ys \<Longrightarrow>
   ys = (if any (\<lambda>x. rt_name x = rt_name r) xs
         then replace_first (\<lambda>x. rt_name x = rt_name r) r xs else xs @ [r])"
  using scan_proposed_present [of r xs rep 0 None] scan_proposed_absent [of r xs rep 0 None]
  by (auto simp: propose_route_def split: sum.splits option.splits if_splits)

lemma scan_proposed_taken:
  "any (\<lambda>x. rt_name x = rt_name r) xs \<Longrightarrow> \<exists>e. scan_proposed r False xs i ex = Inl e"
  by (induction xs arbitrary: i ex) auto

lemma propose_route_taken:
  "any (\<lambda>x. rt_name x = rt_name r) xs \<Longrightarrow> \<not> is_ok (propose_route r False xs)"
  using scan_proposed_taken [of r xs 0 None] by (auto simp: propose_route_def)

lemma propose_route_loc:
  "propose_route r rep xs = Inr ys \<Longrightarrow> x \<in> set xs \<Longrightarrow> rt_name x \<noteq> rt_name r \<Longrightarrow>
   (rt_method x, rt_pattern x) \<noteq> (rt_method r, rt_pattern r)"
  by (auto simp: propose_route_def split: sum.splits dest: scan_proposed_loc)

lemma AddRoute_propose:
  "AddRoute U r rep s = Inr s' \<Longrightarrow> propose_route r rep (routes s) = Inr (routes s')"
  by (auto simp: AddRoute_def AddRoutes_def PublishRoutes_def Let_def split: sum.splits)

lemma AddRoute_is_ok: "is_ok (AddRoute U r rep s) = is_ok (propose_route r rep (routes s))"
  by (auto simp: AddRoute_def AddRoutes_def Let_def split: sum.splits)

interpretation route_reg: located_registry routes rt_name "\<lambda>r s. r" "AddRoute U" "DropRoute U"
    "\<lambda>r. (rt_method r, rt_pattern r)" "\<lambda>_. True" for U
proof (unfold_locales, goal_cases)
  case (1 s e rep s')
  then show ?case using AddRoute_propose propose_route_entries by blast
next
  case (2 e s)
  then show ?case by (simp add: AddRoute_is_ok propose_route_taken)
next
  case (6 s e rep s' x)
  then show ?case using AddRoute_propose propose_route_loc by blast
qed (auto simp: DropRoute_def PublishRoutes_def Let_def)

interpretation stream_reg: located_registry streams st_name "\<lambda>x s. x" AddStream DropStream
    "\<lambda>x. (st_method x, st_pattern x)" "\<lambda>x. st_name x \<noteq> []"
proof (unfold_locales, goal_cases)
  case (6 s e rep s' x)
  then have "stream_collides e (st_name e) (streams s) = None \<or> stream_collides e [] (streams s) = None"
    by (auto simp: AddStream_def split: if_splits option.splits)
  moreover have "st_name x \<noteq> []" using 6 by (auto simp: list_all_iff)
  ultimately show ?case
    using 6 by (auto simp: stream_collides_def dest!: find_NoneD [where x = x])
qed (auto simp: AddStream_def DropStream_def PublishStreams_def split: if_splits option.splits)

interpretation group_reg: named_registry groups gr_name "\<lambda>x s. x" AddGroup DropGroup
  by unfold_locales (auto simp: AddGroup_def DropGroup_def split: if_splits)

interpretation queue_reg: named_registry queues qu_name "\<lambda>x s. x" AddQueue DropQueue
  by unfold_locales (auto simp: AddQueue_def DropQueue_def split: if_splits)

interpretation row_access_reg: named_registry row_access_policies ra_name "\<lambda>x s. x"
    AddRowAccessPolicy DropRowAccessPolicy
  by unfold_locales (auto simp: AddRowAccessPolicy_def DropRowAccessPolicy_def split: if_splits)

interpretation masking_reg: named_registry masking_policies mp_name "\<lambda>x s. x"
    AddMaskingPolicy DropMaskingPolicy
  by unfold_locales (auto simp: AddMaskingPolicy_def DropMaskingPolicy_def split: if_splits)

lemma replace_first_same [simp]: "replace_first (\<lambda>x. x = y) y xs = xs"
  by (induction xs) auto

interpretation graphql_table_reg: named_registry graphql_tables "\<lambda>x. x" "\<lambda>x s. x"
    AddGraphqlTable DropGraphqlTable
  by unfold_locales (auto simp: AddGraphqlTable_def DropGraphqlTable_def split: if_splits)

lemma stored_graphql_route_name [simp]: "gq_name (stored_graphql_route U r) = gq_name r"
  by (simp add: stored_graphql_route_def)

lemma graphql_collision_None:
  "graphql_collision r xs = None \<Longrightarrow> x \<in> set xs \<Longrightarrow> gq_name x \<noteq> gq_name r \<Longrightarrow>
   gq_path x \<noteq> gq_path r \<and> gq_path x @ ''/schema'' \<noteq> gq_path r \<and> gq_path x \<noteq> gq_path r @ ''/schema''"
  by (induction xs) (auto split: if_splits)

lemma AddGraphqlRoute_collision:
  "AddGraphqlRoute U r rep s = Inr s' \<Longrightarrow>
   graphql_collision (stored_graphql_route U r) (graphql_routes s) = None"
  by (auto simp: AddGraphqlRoute_def Let_def split: if_splits option.splits)

interpretation graphql_route_reg: located_registry graphql_routes gq_name
    "\<lambda>r s. stored_graphql_route U r" "AddGraphqlRoute U" DropGraphqlRoute gq_path "\<lambda>_. True" for U
proof (unfold_locales, goal_cases)
  case (6 s e rep s' x)
  then show ?case using graphql_collision_None [OF AddGraphqlRoute_collision] by fastforce
qed (auto simp: AddGraphqlRoute_def DropGraphqlRoute_def Let_def split: if_splits option.splits)

end
