(* ===== verification/RegistryProps.thy ===== *)
theory RegistryProps
  imports Registry
begin

text \<open>
  Invariants of the registries. A step is one call of an operation that changes the state (each
  holds its mutex throughout, so concurrent callers interleave whole operations); the reachable
  states are those of any sequence of steps from a fresh database. The invariants are proved for
  every reachable state.
\<close>

section \<open>Invariants\<close>

definition routes_wf :: "'v QuackapiState \<Rightarrow> bool" where
  "routes_wf s \<longleftrightarrow> distinct (map rt_name (routes s)) \<and>
     distinct (map (\<lambda>r. (rt_method r, rt_pattern r)) (routes s))"

definition streams_wf :: "'v QuackapiState \<Rightarrow> bool" where
  "streams_wf s \<longleftrightarrow> distinct (map st_name (streams s)) \<and>
     distinct (map (\<lambda>x. (st_method x, st_pattern x)) (streams s)) \<and>
     list_all (\<lambda>x. st_name x \<noteq> []) (streams s)"

definition live_wf :: "'v QuackapiState \<Rightarrow> bool" where
  "live_wf s \<longleftrightarrow> routes_live s \<in> {None, Some (routes s)} \<and> streams_live s \<in> {None, Some (streams s)}"

definition auths_wf :: "string_util \<Rightarrow> 'v QuackapiState \<Rightarrow> bool" where
  "auths_wf U s \<longleftrightarrow> distinct (map (\<lambda>a. su_lower U (au_name a)) (auths s)) \<and>
     (\<forall>k \<in> set (api_keys s). \<exists>a \<in> set (auths s). au_name a = ak_auth_name k \<and> au_kind a = API_KEY)"

definition policies_wf :: "string_util \<Rightarrow> 'v QuackapiState \<Rightarrow> bool" where
  "policies_wf U s \<longleftrightarrow>
     distinct (map ra_name (row_access_policies s)) \<and> distinct (map mp_name (masking_policies s)) \<and>
     ra_name ` set (row_access_policies s) \<inter> mp_name ` set (masking_policies s) = {} \<and>
     rb_policy_name ` set (row_access_bindings s) \<subseteq> ra_name ` set (row_access_policies s) \<and>
     mb_policy_name ` set (masking_bindings s) \<subseteq> mp_name ` set (masking_policies s) \<and>
     distinct (map (\<lambda>b. su_lower U (rb_table_name b)) (row_access_bindings s)) \<and>
     distinct (map (\<lambda>b. (su_lower U (mb_table_name b), su_lower U (mb_column_name b))) (masking_bindings s))"

definition graphql_wf :: "'v QuackapiState \<Rightarrow> bool" where
  "graphql_wf s \<longleftrightarrow> distinct (map gq_name (graphql_routes s)) \<and> distinct (map gq_path (graphql_routes s)) \<and>
     (\<forall>x \<in> set (graphql_routes s). gq_method x = ''POST'' \<and> \<not> IsReservedGraphqlPath (gq_path x) \<and>
        NormalizeGraphqlMountPath (gq_path x) = gq_path x) \<and>
     (\<forall>x \<in> set (graphql_routes s). \<forall>y \<in> set (graphql_routes s).
        gq_name x \<noteq> gq_name y \<longrightarrow> gq_path x @ ''/schema'' \<noteq> gq_path y)"

definition names_wf :: "'v QuackapiState \<Rightarrow> bool" where
  "names_wf s \<longleftrightarrow> distinct (map gr_name (groups s)) \<and> distinct (map qu_name (queues s)) \<and>
     distinct (graphql_tables s) \<and> [] \<notin> set (graphql_tables s)"

section \<open>Steps and reachable states\<close>

inductive registry_step :: "string_util \<Rightarrow> mbedtls \<Rightarrow> 'v QuackapiState \<Rightarrow> 'v QuackapiState \<Rightarrow> bool"
  for U :: string_util and M :: mbedtls where
  add_routes: "AddRoutes U rs rep s = Inr s' \<Longrightarrow> registry_step U M s s'"
| drop_route: "registry_step U M s (snd (DropRoute U name s))"
| live_routes: "registry_step U M s (snd (LiveRoutes s))"
| add_stream: "AddStream x rep s = Inr s' \<Longrightarrow> st_name x \<noteq> [] \<Longrightarrow> registry_step U M s s'"
| drop_stream: "registry_step U M s (snd (DropStream name s))"
| live_streams: "registry_step U M s (snd (LiveStreams s))"
| add_group: "AddGroup g rep s = Inr s' \<Longrightarrow> registry_step U M s s'"
| drop_group: "registry_step U M s (snd (DropGroup name s))"
| add_auth: "AddAuth U a rep s = Inr s' \<Longrightarrow> registry_step U M s s'"
| drop_auth: "registry_step U M s (snd (DropAuth U name s))"
| add_api_key: "AddApiKey U M auth raw subj s = Inr (subj', s') \<Longrightarrow> registry_step U M s s'"
| add_queue: "AddQueue q rep s = Inr s' \<Longrightarrow> registry_step U M s s'"
| drop_queue: "registry_step U M s (snd (DropQueue name s))"
| add_row_access: "AddRowAccessPolicy p rep s = Inr s' \<Longrightarrow> registry_step U M s s'"
| drop_row_access: "registry_step U M s (snd (DropRowAccessPolicy name s))"
| add_masking: "AddMaskingPolicy m rep s = Inr s' \<Longrightarrow> registry_step U M s s'"
| drop_masking: "registry_step U M s (snd (DropMaskingPolicy name s))"
| bind_row_access: "BindRowAccessPolicy U b rep s = Inr s' \<Longrightarrow> registry_step U M s s'"
| unbind_row_access: "registry_step U M s (snd (UnbindRowAccessPolicy U tbl pol s))"
| bind_masking: "BindMaskingPolicy U c rep s = Inr s' \<Longrightarrow> registry_step U M s s'"
| unbind_masking: "registry_step U M s (snd (UnbindMaskingPolicy U tbl col s))"
| add_graphql_table: "AddGraphqlTable t rep s = Inr s' \<Longrightarrow> registry_step U M s s'"
| drop_graphql_table: "registry_step U M s (snd (DropGraphqlTable t s))"
| clear_graphql_tables: "registry_step U M s (ClearGraphqlTables s)"
| add_graphql_route: "AddGraphqlRoute U r rep s = Inr s' \<Longrightarrow> registry_step U M s s'"
| drop_graphql_route: "registry_step U M s (snd (DropGraphqlRoute name s))"
| rate_limit: "AllowRateLimit now route client lim per (rate_limit_entries s) = (ok, retry, m') \<Longrightarrow>
    registry_step U M s (s\<lparr>rate_limit_entries := m'\<rparr>)"

inductive registry_reachable :: "string_util \<Rightarrow> mbedtls \<Rightarrow> 'v QuackapiState \<Rightarrow> bool"
  for U :: string_util and M :: mbedtls where
  start: "registry_reachable U M initial_state"
| step: "registry_reachable U M s \<Longrightarrow> registry_step U M s s' \<Longrightarrow> registry_reachable U M s'"

section \<open>Routes\<close>

lemma routes_wf_registry: "routes_wf s = route_reg.registry_wf s"
  by (simp add: routes_wf_def route_reg.registry_wf_def route_reg.keys_distinct_def list_all_iff)

lemma AddRoute_with_routes:
  "propose_route r rep xs = Inr ys \<Longrightarrow> \<exists>s'. AddRoute U r rep (s\<lparr>routes := xs\<rparr>) = Inr s' \<and> routes s' = ys"
  by (simp add: AddRoute_def AddRoutes_def PublishRoutes_def Let_def)

lemma propose_route_wf:
  assumes "propose_route r rep xs = Inr ys" and "routes_wf (s\<lparr>routes := xs\<rparr>)"
  shows "routes_wf (s\<lparr>routes := ys\<rparr>)"
proof -
  obtain s' where s': "AddRoute undefined r rep (s\<lparr>routes := xs\<rparr>) = Inr s'" "routes s' = ys"
    using AddRoute_with_routes [OF assms(1)] by blast
  have "routes_wf s'"
    using route_reg.add_registry_wf [OF assms(2) [unfolded routes_wf_registry] _ s'(1)]
    by (simp add: routes_wf_registry)
  with s'(2) show ?thesis by (simp add: routes_wf_def)
qed

lemma propose_routes_wf:
  "propose_routes rs rep xs = Inr ys \<Longrightarrow> routes_wf (s\<lparr>routes := xs\<rparr>) \<Longrightarrow> routes_wf (s\<lparr>routes := ys\<rparr>)"
  by (induction rs arbitrary: xs) (auto split: sum.splits dest: propose_route_wf)

lemma AddRoutes_propose:
  "AddRoutes U rs rep s = Inr s' \<Longrightarrow> propose_routes rs rep (routes s) = Inr (routes s')"
  by (auto simp: AddRoutes_def PublishRoutes_def Let_def split: sum.splits)

lemma AddRoutes_wf: "AddRoutes U rs rep s = Inr s' \<Longrightarrow> routes_wf s \<Longrightarrow> routes_wf s'"
  using propose_routes_wf [of rs rep "routes s" "routes s'" s] AddRoutes_propose [of U rs rep s s']
  by (simp add: routes_wf_def)

lemma propose_route_lookup:
  assumes "distinct (map rt_name xs)" "propose_route r rep xs = Inr ys"
  shows "List.find (\<lambda>x. rt_name x = n) ys =
     (if n = rt_name r then Some r else List.find (\<lambda>x. rt_name x = n) xs)"
proof -
  obtain s' where s': "AddRoute undefined r rep ((initial_state)\<lparr>routes := xs\<rparr>) = Inr s'" "routes s' = ys"
    using AddRoute_with_routes [OF assms(2)] by blast
  with assms(1) route_reg.get_add [OF _ s'(1), of n] show ?thesis
    by (simp add: route_reg.get_def route_reg.keys_distinct_def)
qed

lemma propose_routes_lookup:
  assumes "routes_wf (s\<lparr>routes := xs\<rparr>)" and "propose_routes rs rep xs = Inr ys"
  shows "List.find (\<lambda>x. rt_name x = n) ys =
     (case List.find (\<lambda>x. rt_name x = n) (rev rs) of
        Some r \<Rightarrow> Some r | None \<Rightarrow> List.find (\<lambda>x. rt_name x = n) xs)"
  using assms
proof (induction rs arbitrary: xs)
  case (Cons r rs)
  then obtain zs where z: "propose_route r rep xs = Inr zs" "propose_routes rs rep zs = Inr ys"
    by (auto split: sum.splits)
  have "distinct (map rt_name xs)" using Cons.prems(1) by (simp add: routes_wf_def)
  with z Cons.IH [OF propose_route_wf [OF z(1) Cons.prems(1)] z(2)] show ?case
    by (auto simp: propose_route_lookup find_append split: option.splits)
qed simp

lemma DropRoute_wf: "routes_wf s \<Longrightarrow> routes_wf (snd (DropRoute U name s))"
  using route_reg.drop_registry_wf [of s] by (simp add: routes_wf_registry)

lemma scan_proposed_ok:
  "is_ok (scan_proposed r rep xs i ex) \<longleftrightarrow>
     (\<forall>x \<in> set xs. (rt_name x = rt_name r \<longrightarrow> rep) \<and>
        (rt_name x \<noteq> rt_name r \<longrightarrow> (rt_method x, rt_pattern x) \<noteq> (rt_method r, rt_pattern r)))"
  by (induction xs arbitrary: i ex) auto

lemma AddRoutes_single_ok:
  "is_ok (AddRoutes U [r] rep s) = is_ok (scan_proposed r rep (routes s) 0 None)"
  by (auto simp: AddRoutes_def propose_route_def Let_def is_ok_iff split: sum.splits option.splits)

lemma scan_existing:
  "scan_proposed r rep xs i existing = Inr res \<Longrightarrow>
     (case res of None \<Rightarrow> existing = None \<and> rt_name r \<notin> rt_name ` set xs
      | Some k \<Rightarrow> existing = Some k \<and> rt_name r \<notin> rt_name ` set xs \<or> i \<le> k \<and> k < i + length xs \<and> rt_name (xs ! (k - i)) = rt_name r)"
proof (induction xs arbitrary: i existing)
  case (Cons x xs)
  show ?case
  proof (cases "rt_name x = rt_name r")
    case True
    with Cons.prems have "scan_proposed r rep xs (Suc i) (Some i) = Inr res" by (simp split: if_splits)
    from Cons.IH [OF this] True show ?thesis by (auto simp: nth_Cons' split: option.splits)
  next
    case False
    with Cons.prems have "scan_proposed r rep xs (Suc i) existing = Inr res" by (simp split: if_splits)
    from Cons.IH [OF this] False show ?thesis by (auto simp: nth_Cons' split: option.splits)
  qed
qed (auto split: option.splits)

lemma propose_route_names:
  assumes "propose_route r rep xs = Inr ys"
  shows "map rt_name ys = (if rt_name r \<in> rt_name ` set xs then map rt_name xs else map rt_name xs @ [rt_name r])"
proof (cases "scan_proposed r rep xs 0 None")
  case (Inr res)
  show ?thesis
  proof (cases res)
    case None
    with scan_existing [OF Inr] have "rt_name r \<notin> rt_name ` set xs" by simp
    moreover have "ys = xs @ [r]" using assms Inr None by (simp add: propose_route_def)
    ultimately show ?thesis by simp
  next
    case (Some k)
    with scan_existing [OF Inr] have k: "k < length xs" "rt_name (xs ! k) = rt_name r" by auto
    then have "map rt_name (xs[k := r]) = map rt_name xs" by (auto simp: map_update list_update_same_conv)
    moreover have "rt_name r \<in> rt_name ` set xs" using k by (metis image_eqI nth_mem)
    ultimately show ?thesis using assms Inr Some by (simp add: propose_route_def)
  qed
qed (use assms in \<open>simp add: propose_route_def\<close>)

text \<open>
  What \<open>AddRoutes\<close> promises, over the finite map from names to routes: the routes of a batch go in one after
  the other; one whose name is taken needs OR REPLACE, and the method and pattern of another route
  cannot be used again. The order of the table, which decides between routes that match the same request,
  keeps the old names in place and puts new ones at the end.
\<close>

definition route_map :: "'v QuackapiRoute list \<Rightarrow> string \<Rightarrow> 'v QuackapiRoute option" where
  "route_map xs n = List.find (\<lambda>x. rt_name x = n) xs"

definition path_taken :: "'v QuackapiRoute \<Rightarrow> (string \<Rightarrow> 'v QuackapiRoute option) \<Rightarrow> bool" where
  "path_taken r m = (\<exists>n x. n \<noteq> rt_name r \<and> m n = Some x \<and> (rt_method x, rt_pattern x) = (rt_method r, rt_pattern r))"

fun insert_routes :: "'v QuackapiRoute list \<Rightarrow> bool \<Rightarrow> (string \<Rightarrow> 'v QuackapiRoute option) \<Rightarrow> (string \<Rightarrow> 'v QuackapiRoute option) option" where
  "insert_routes [] rep m = Some m"
| "insert_routes (r # rs) rep m =
     (if m (rt_name r) \<noteq> None \<and> \<not> rep \<or> path_taken r m then None else insert_routes rs rep (m(rt_name r \<mapsto> r)))"

fun name_order :: "'v QuackapiRoute list \<Rightarrow> string list \<Rightarrow> string list" where
  "name_order [] ns = ns"
| "name_order (r # rs) ns = name_order rs (if rt_name r \<in> set ns then ns else ns @ [rt_name r])"

lemma route_map_Some:
  assumes "distinct (map rt_name xs)"
  shows "route_map xs n = Some x \<longleftrightarrow> x \<in> set xs \<and> rt_name x = n"
  using assms unfolding route_map_def by (induction xs) auto

lemma propose_route_refines:
  assumes "routes_wf (s\<lparr>routes := xs\<rparr>)"
  shows "is_ok (propose_route r rep xs) \<longleftrightarrow> \<not> (route_map xs (rt_name r) \<noteq> None \<and> \<not> rep \<or> path_taken r (route_map xs))"
    and "propose_route r rep xs = Inr ys \<Longrightarrow> route_map ys = (route_map xs)(rt_name r \<mapsto> r)"
proof -
  have d: "distinct (map rt_name xs)" using assms by (simp add: routes_wf_def)
  have "is_ok (propose_route r rep xs) = is_ok (scan_proposed r rep xs 0 None)"
    by (auto simp: propose_route_def is_ok_iff split: sum.splits option.splits)
  also have "\<dots> \<longleftrightarrow> \<not> (route_map xs (rt_name r) \<noteq> None \<and> \<not> rep \<or> path_taken r (route_map xs))"
  proof -
    have none: "route_map xs (rt_name r) = None \<longleftrightarrow> (\<forall>x \<in> set xs. rt_name x \<noteq> rt_name r)"
      by (auto simp: route_map_def find_None_iff)
    have taken: "path_taken r (route_map xs) \<longleftrightarrow>
        (\<exists>x \<in> set xs. rt_name x \<noteq> rt_name r \<and> (rt_method x, rt_pattern x) = (rt_method r, rt_pattern r))"
      unfolding path_taken_def route_map_Some [OF d] by blast
    show ?thesis unfolding scan_proposed_ok none taken by (cases rep) auto
  qed
  finally show "is_ok (propose_route r rep xs) \<longleftrightarrow> \<not> (route_map xs (rt_name r) \<noteq> None \<and> \<not> rep \<or> path_taken r (route_map xs))" .
  show "propose_route r rep xs = Inr ys \<Longrightarrow> route_map ys = (route_map xs)(rt_name r \<mapsto> r)"
    using propose_route_lookup [OF d] by (auto simp: route_map_def fun_eq_iff)
qed

lemma propose_routes_refines:
  assumes "routes_wf (s\<lparr>routes := xs\<rparr>)"
  shows "case propose_routes rs rep xs of Inl e \<Rightarrow> insert_routes rs rep (route_map xs) = None
    | Inr ys \<Rightarrow> insert_routes rs rep (route_map xs) = Some (route_map ys) \<and> map rt_name ys = name_order rs (map rt_name xs)"
  using assms
proof (induction rs arbitrary: xs)
  case (Cons r rs)
  show ?case
  proof (cases "propose_route r rep xs")
    case (Inl e)
    then have "\<not> is_ok (propose_route r rep xs)" by simp
    then have "route_map xs (rt_name r) \<noteq> None \<and> \<not> rep \<or> path_taken r (route_map xs)"
      unfolding propose_route_refines(1) [OF Cons.prems] by blast
    with Inl show ?thesis by auto
  next
    case (Inr ys)
    then have "is_ok (propose_route r rep xs)" by simp
    then have "insert_routes (r # rs) rep (route_map xs) = insert_routes rs rep (route_map ys)"
      using propose_route_refines(1) [OF Cons.prems, of r rep] unfolding propose_route_refines(2) [OF Cons.prems Inr] by auto
    note i = this
    have n: "name_order (r # rs) (map rt_name xs) = name_order rs (map rt_name ys)"
      by (simp add: propose_route_names [OF Inr])
    have p: "propose_routes (r # rs) rep xs = propose_routes rs rep ys" by (simp add: Inr)
    show ?thesis unfolding i n p by (rule Cons.IH [OF propose_route_wf [OF Inr Cons.prems]])
  qed
qed simp



section \<open>What each operation leaves alone\<close>

lemma drop_frames:
  "snd (DropStream n s) = s\<lparr>streams := streams (snd (DropStream n s)),
     streams_live := streams_live (snd (DropStream n s))\<rparr>"
  "snd (DropGroup n s) = s\<lparr>groups := erase_first (\<lambda>x. gr_name x = n) (groups s)\<rparr>"
  "snd (DropQueue n s) = s\<lparr>queues := erase_first (\<lambda>x. qu_name x = n) (queues s)\<rparr>"
  "snd (DropGraphqlTable n s) = s\<lparr>graphql_tables := erase_first (\<lambda>t. t = n) (graphql_tables s)\<rparr>"
  "snd (DropGraphqlRoute n s) = s\<lparr>graphql_routes := erase_first (\<lambda>x. gq_name x = n) (graphql_routes s)\<rparr>"
  by (simp_all add: drop_defs PublishStreams_def)

lemma add_frames:
  "AddRoutes U rs rep s = Inr s' \<Longrightarrow> \<exists>m xs. s' = s\<lparr>routes := xs, routes_live := Some xs, rate_limit_entries := m\<rparr>"
  "AddStream x rep s = Inr s' \<Longrightarrow> \<exists>xs. s' = s\<lparr>streams := xs, streams_live := Some xs\<rparr>"
  "AddGroup g rep s = Inr s' \<Longrightarrow> \<exists>xs. s' = s\<lparr>groups := xs\<rparr>"
  "AddQueue q rep s = Inr s' \<Longrightarrow> \<exists>xs. s' = s\<lparr>queues := xs\<rparr>"
  "AddRowAccessPolicy p rep s = Inr s' \<Longrightarrow> \<exists>xs. s' = s\<lparr>row_access_policies := xs\<rparr>"
  "AddMaskingPolicy m rep s = Inr s' \<Longrightarrow> \<exists>xs. s' = s\<lparr>masking_policies := xs\<rparr>"
  "AddAuth U a rep s = Inr s' \<Longrightarrow> \<exists>xs ks. s' = s\<lparr>auths := xs, api_keys := ks\<rparr>"
  "AddApiKey U M n raw subj s = Inr (sub, s') \<Longrightarrow> \<exists>ks. s' = s\<lparr>api_keys := ks\<rparr>"
  "BindRowAccessPolicy U b rep s = Inr s' \<Longrightarrow> \<exists>xs. s' = s\<lparr>row_access_bindings := xs\<rparr>"
  "BindMaskingPolicy U c rep s = Inr s' \<Longrightarrow> \<exists>xs. s' = s\<lparr>masking_bindings := xs\<rparr>"
  "AddGraphqlTable t rep s = Inr s' \<Longrightarrow> \<exists>xs. s' = s\<lparr>graphql_tables := xs\<rparr>"
  "AddGraphqlRoute U gq rep s = Inr s' \<Longrightarrow> \<exists>xs. s' = s\<lparr>graphql_routes := xs\<rparr>"
  subgoal by (auto simp: AddRoutes_def PublishRoutes_def Let_def split: sum.splits)
  subgoal by (auto simp: AddStream_def PublishStreams_def split: if_splits option.splits)
  subgoal by (auto simp: AddGroup_def split: if_splits)
  subgoal by (auto simp: AddQueue_def split: if_splits)
  subgoal by (auto simp: AddRowAccessPolicy_def split: if_splits)
  subgoal by (auto simp: AddMaskingPolicy_def split: if_splits)
  subgoal by (intro exI [of _ "auths s'"] exI [of _ "api_keys s'"])
      (auto simp: AddAuth_def Let_def split: if_splits option.splits)
  subgoal by (auto simp: AddApiKey_def Let_def split: if_splits option.splits sum.splits)
  subgoal by (auto simp: BindRowAccessPolicy_def Let_def split: if_splits option.splits)
  subgoal by (auto simp: BindMaskingPolicy_def Let_def split: if_splits option.splits)
  subgoal using exI [of "\<lambda>xs. s = s\<lparr>graphql_tables := xs\<rparr>" "graphql_tables s"]
    by (auto simp: AddGraphqlTable_def split: if_splits)
  subgoal by (auto simp: AddGraphqlRoute_def Let_def split: if_splits option.splits)
  done

lemma unbind_frames:
  "snd (UnbindRowAccessPolicy U tbl pol s) = s\<lparr>row_access_bindings :=
     erase_first (\<lambda>b. su_lower U (rb_table_name b) = su_lower U tbl \<and> (pol = [] \<or> rb_policy_name b = pol))
       (row_access_bindings s)\<rparr>"
  "snd (UnbindMaskingPolicy U tbl col s) = s\<lparr>masking_bindings :=
     erase_first (\<lambda>b. su_lower U (mb_table_name b) = su_lower U tbl \<and>
       su_lower U (mb_column_name b) = su_lower U col) (masking_bindings s)\<rparr>"
  by (simp_all add: UnbindRowAccessPolicy_def UnbindMaskingPolicy_def Let_def)


section \<open>The invariants are kept by every step\<close>

lemmas op_frames = drop_frames unbind_frames

lemma DropRoute_frame:
  "\<exists>xs m l. snd (DropRoute U n s) = s\<lparr>routes := xs, routes_live := l, rate_limit_entries := m\<rparr>"
  by (intro exI [of _ "routes (snd (DropRoute U n s))"] exI [of _ "routes_live (snd (DropRoute U n s))"]
      exI [of _ "rate_limit_entries (snd (DropRoute U n s))"])
    (auto simp: DropRoute_def PublishRoutes_def Let_def)

lemma live_frames:
  "snd (LiveRoutes s) = s\<lparr>routes_live := Some (fst (LiveRoutes s))\<rparr>"
  "snd (LiveStreams s) = s\<lparr>streams_live := Some (fst (LiveStreams s))\<rparr>"
  by (auto simp: LiveRoutes_def LiveStreams_def PublishRoutes_def PublishStreams_def split: option.splits)

lemma auth_frame:
  "snd (DropAuth U n s) = s\<lparr>auths := auths (snd (DropAuth U n s)), api_keys := api_keys (snd (DropAuth U n s))\<rparr>"
  by (auto simp: DropAuth_def split: option.splits)

lemma policy_frames:
  "snd (DropRowAccessPolicy n s) = s\<lparr>row_access_policies := row_access_policies (snd (DropRowAccessPolicy n s)),
     row_access_bindings := row_access_bindings (snd (DropRowAccessPolicy n s))\<rparr>"
  "snd (DropMaskingPolicy n s) = s\<lparr>masking_policies := masking_policies (snd (DropMaskingPolicy n s)),
     masking_bindings := masking_bindings (snd (DropMaskingPolicy n s))\<rparr>"
  by (simp_all add: drop_defs)

lemma frame_routes:
  "routes (snd (DropStream n s)) = routes s" "routes (snd (DropGroup n s)) = routes s"
  "routes (snd (DropAuth U n s)) = routes s" "routes (snd (DropQueue n s)) = routes s"
  "routes (snd (DropRowAccessPolicy n s)) = routes s" "routes (snd (DropMaskingPolicy n s)) = routes s"
  by (subst drop_frames auth_frame policy_frames, simp)+

lemma step_routes_wf: "registry_step U M s s' \<Longrightarrow> routes_wf s \<Longrightarrow> routes_wf s'"
proof (induction rule: registry_step.induct)
  case (add_routes rs rep s s')
  then show ?case by (blast intro: AddRoutes_wf)
next
  case (drop_route s name)
  then show ?case by (rule DropRoute_wf)
qed (auto simp: routes_wf_def live_frames op_frames(2-) frame_routes ClearGraphqlTables_def
      dest!: add_frames(2-))

lemma streams_wf_registry: "streams_wf s = stream_reg.registry_wf s"
  by (simp add: streams_wf_def stream_reg.registry_wf_def stream_reg.keys_distinct_def)

lemma frame_streams:
  "streams (snd (DropRoute U n s)) = streams s" "streams (snd (DropGroup n s)) = streams s"
  "streams (snd (DropAuth U n s)) = streams s" "streams (snd (DropQueue n s)) = streams s"
  "streams (snd (DropRowAccessPolicy n s)) = streams s" "streams (snd (DropMaskingPolicy n s)) = streams s"
  using DropRoute_frame [of U n s] by (auto simp: drop_defs DropAuth_def split: option.splits)

lemma step_streams_wf: "registry_step U M s s' \<Longrightarrow> streams_wf s \<Longrightarrow> streams_wf s'"
proof (induction rule: registry_step.induct)
  case (add_stream x rep s s')
  then show ?case using stream_reg.add_registry_wf by (fastforce simp: streams_wf_registry)
next
  case (drop_stream s name)
  then show ?case using stream_reg.drop_registry_wf by (simp add: streams_wf_registry)
qed (auto simp: streams_wf_def live_frames op_frames(2-) frame_streams ClearGraphqlTables_def
      dest!: add_frames(1,3-))

lemma step_live_wf: "registry_step U M s s' \<Longrightarrow> live_wf s \<Longrightarrow> live_wf s'"
  by (induction rule: registry_step.induct)
    (auto simp: live_wf_def drop_defs DropAuth_def PublishRoutes_def PublishStreams_def Let_def
      LiveRoutes_def LiveStreams_def op_frames(2-) ClearGraphqlTables_def
      dest!: add_frames split: option.splits)

lemma step_names_wf: "registry_step U M s s' \<Longrightarrow> names_wf s \<Longrightarrow> names_wf s'"
proof (induction rule: registry_step.induct)
  case (add_group g rep s s')
  then show ?case using group_reg.add_keys_distinct [of s g rep s'] add_frames(3) [of g rep s s']
    by (auto simp: names_wf_def group_reg.keys_distinct_def)
next
  case (add_queue q rep s s')
  then show ?case using queue_reg.add_keys_distinct [of s q rep s'] add_frames(4) [of q rep s s']
    by (auto simp: names_wf_def queue_reg.keys_distinct_def)
next
  case (add_graphql_table t rep s s')
  then show ?case by (auto simp: names_wf_def AddGraphqlTable_def any_iff split: if_splits)
qed (auto simp: names_wf_def live_frames drop_defs DropAuth_def PublishRoutes_def PublishStreams_def
      op_frames(2-) ClearGraphqlTables_def Let_def distinct_map_erase_first
      distinct_map_erase_first [where f = "\<lambda>x. x", simplified]
      dest!: add_frames(1,2,5-) dest: set_mp [OF set_erase_first_subset] split: option.splits)


section \<open>Auth schemes and their keys\<close>

lemma auth_same_name:
  "distinct (map (\<lambda>a. su_lower U (au_name a)) xs) \<Longrightarrow> a \<in> set xs \<Longrightarrow> b \<in> set xs \<Longrightarrow>
   su_lower U (au_name a) = su_lower U (au_name b) \<Longrightarrow> a = b"
  by (auto simp: distinct_map dest: inj_onD)

lemma ci_lower: "string_util_ok U \<Longrightarrow> su_ci_equals U a b = (su_lower U a = su_lower U b)"
  by (simp add: string_util_okD)

lemma AddAuth_auths_wf:
  assumes U: "string_util_ok U" and add: "AddAuth U auth rep s = Inr s'" and wf: "auths_wf U s"
  shows "auths_wf U s'"
proof (cases "List.find (\<lambda>it. su_ci_equals U (au_name it) (au_name auth)) (auths s)")
  case None
  then have "su_lower U (au_name auth) \<notin> (\<lambda>a. su_lower U (au_name a)) ` set (auths s)"
    using U by (auto simp: ci_lower dest: find_NoneD)
  with None add wf show ?thesis by (auto simp: AddAuth_def auths_wf_def)
next
  case (Some it)
  let ?p = "\<lambda>x. su_ci_equals U (au_name x) (au_name auth)"
  from Some have it: "it \<in> set (auths s)" "su_lower U (au_name it) = su_lower U (au_name auth)"
    using U by (auto simp: ci_lower dest: find_SomeD)
  have s': "auths s' = replace_first ?p auth (auths s)" using add Some by (auto simp: AddAuth_def Let_def split: if_splits)
  have d: "distinct (map (\<lambda>a. su_lower U (au_name a)) (auths s'))"
    using wf U by (simp add: s' map_replace_first ci_lower auths_wf_def)
  have auth_in: "auth \<in> set (auths s')"
    using Some by (auto simp: s' any_find intro: in_set_replace_first)
  have scheme: "\<exists>a \<in> set (auths s'). au_name a = ak_auth_name k' \<and> au_kind a = API_KEY"
    if k': "k' \<in> set (api_keys s')" for k'
  proof -
    from k' add Some obtain k where k: "k \<in> set (api_keys s)"
      and kk: "k' = k \<or> (au_name it \<noteq> au_name auth \<and> su_ci_equals U (ak_auth_name k) (au_name it) \<and>
           k' = k\<lparr>ak_auth_name := au_name auth\<rparr>)"
      and keep: "su_ci_equals U (ak_auth_name k) (au_name it) \<longrightarrow>
           ak_auth_name k' = (if au_name it = au_name auth then ak_auth_name k else au_name auth) \<and>
           \<not> (au_kind it = API_KEY \<and> au_kind auth \<noteq> API_KEY)"
      by (auto simp: AddAuth_def Let_def split: if_splits)
    from wf k obtain a where a: "a \<in> set (auths s)" "au_name a = ak_auth_name k" "au_kind a = API_KEY"
      by (auto simp: auths_wf_def)
    show ?thesis
    proof (cases "su_ci_equals U (ak_auth_name k) (au_name it)")
      case True
      with a(2) U have "su_lower U (au_name a) = su_lower U (au_name it)" by (simp add: ci_lower)
      with wf a(1) it(1) have "a = it" by (auto simp: auths_wf_def intro: auth_same_name)
      with True keep a have "ak_auth_name k' = au_name auth" "au_kind auth = API_KEY" by (auto split: if_splits)
      with auth_in show ?thesis by auto
    next
      case False
      with kk have "k' = k" by blast
      moreover have "\<not> ?p a" using False U it(2) a(2) by (simp add: ci_lower)
      ultimately show ?thesis using a set_replace_first_keep [of a "auths s" ?p auth] by (auto simp: s')
    qed
  qed
  show ?thesis using d scheme by (simp add: auths_wf_def)
qed

lemma DropAuth_auths_wf:
  assumes U: "string_util_ok U" and wf: "auths_wf U s"
  shows "auths_wf U (snd (DropAuth U name s))"
proof (cases "List.find (\<lambda>it. su_ci_equals U (au_name it) name) (auths s)")
  case None
  then show ?thesis using wf by (simp add: DropAuth_def)
next
  case (Some it)
  then have "su_lower U (au_name it) = su_lower U name" using U by (auto simp: ci_lower dest: find_SomeD)
  moreover have "a \<in> set (auths s) \<Longrightarrow> su_lower U (au_name a) \<noteq> su_lower U name \<Longrightarrow>
      a \<in> set (erase_first (\<lambda>x. su_lower U (au_name x) = su_lower U name) (auths s))" for a
    by (rule set_erase_first_keep)
  ultimately show ?thesis
    using Some wf U by (fastforce simp: DropAuth_def auths_wf_def distinct_map_erase_first ci_lower)
qed

lemma AddApiKey_keys:
  "AddApiKey U M n raw subj s = Inr (r, s') \<Longrightarrow>
   \<exists>a. List.find (\<lambda>a. su_ci_equals U (au_name a) n) (auths s) = Some a \<and> au_kind a = API_KEY \<and>
     auths s' = auths s \<and>
     (\<forall>k \<in> set (api_keys s'). k \<in> set (api_keys s) \<or> ak_auth_name k = au_name a)"
  by (auto simp: AddApiKey_def Let_def split: if_splits option.splits sum.splits
      dest!: in_set_replace_firstD)

lemma AddApiKey_auths_wf:
  assumes "AddApiKey U M n raw subj s = Inr (r, s')" and "auths_wf U s"
  shows "auths_wf U s'"
proof -
  obtain a where a: "List.find (\<lambda>a. su_ci_equals U (au_name a) n) (auths s) = Some a"
    "au_kind a = API_KEY" "auths s' = auths s"
    "\<forall>k \<in> set (api_keys s'). k \<in> set (api_keys s) \<or> ak_auth_name k = au_name a"
    using AddApiKey_keys [OF assms(1)] by blast
  moreover from a(1) have "a \<in> set (auths s)" by (auto dest: find_SomeD)
  ultimately show ?thesis using assms(2) by (fastforce simp: auths_wf_def)
qed

lemma step_auths_wf:
  "registry_step U M s s' \<Longrightarrow> string_util_ok U \<Longrightarrow> auths_wf U s \<Longrightarrow> auths_wf U s'"
proof (induction rule: registry_step.induct)
  case (add_auth a rep s s')
  then show ?case by (blast intro: AddAuth_auths_wf)
next
  case (drop_auth s name)
  then show ?case by (blast intro: DropAuth_auths_wf)
next
  case (add_api_key auth raw subj s subj' s')
  then show ?case by (blast intro: AddApiKey_auths_wf)
qed (auto simp: auths_wf_def live_frames drop_defs PublishRoutes_def PublishStreams_def Let_def
      op_frames(2-) ClearGraphqlTables_def dest!: add_frames(1-6,9-))

section \<open>Policies and their bindings\<close>

lemma BindRowAccess_wf:
  assumes b: "BindRowAccessPolicy U b rep s = Inr s'" and wf: "policies_wf U s"
  shows "policies_wf U s'"
proof -
  let ?f = "\<lambda>x. su_lower U (rb_table_name x)"
  let ?same = "\<lambda>x. ?f x = ?f b"
  from b obtain q where "List.find (\<lambda>p. ra_name p = rb_policy_name b) (row_access_policies s) = Some q"
    by (auto simp: BindRowAccessPolicy_def split: option.splits)
  from find_SomeD [OF this] have "q \<in> set (row_access_policies s)" "rb_policy_name b = ra_name q" by auto
  then have pol: "rb_policy_name b \<in> ra_name ` set (row_access_policies s)" by simp
  from b have "s' = s\<lparr>row_access_bindings := upsert ?same b (row_access_bindings s)\<rparr>"
    by (auto simp: BindRowAccessPolicy_def Let_def any_find upsert_def split: option.splits if_splits)
  moreover have "distinct (map ?f (upsert ?same b (row_access_bindings s)))"
    using wf by (intro distinct_map_upsert) (auto simp: policies_wf_def)
  moreover have "rb_policy_name ` set (upsert ?same b (row_access_bindings s))
      \<subseteq> ra_name ` set (row_access_policies s)"
    using wf pol by (intro image_upsert_subset) (auto simp: policies_wf_def)
  ultimately show ?thesis using wf by (simp add: policies_wf_def)
qed

lemma BindMasking_wf:
  assumes b: "BindMaskingPolicy U b rep s = Inr s'" and wf: "policies_wf U s"
  shows "policies_wf U s'"
proof -
  let ?f = "\<lambda>x. (su_lower U (mb_table_name x), su_lower U (mb_column_name x))"
  let ?same = "\<lambda>x. su_lower U (mb_table_name x) = su_lower U (mb_table_name b) \<and>
    su_lower U (mb_column_name x) = su_lower U (mb_column_name b)"
  from b have pol: "mb_policy_name b \<in> mp_name ` set (masking_policies s)"
    by (auto simp: BindMaskingPolicy_def any_image split: if_splits)
  from b have "s' = s\<lparr>masking_bindings := upsert ?same b (masking_bindings s)\<rparr>"
    by (auto simp: BindMaskingPolicy_def Let_def any_find upsert_def split: option.splits if_splits)
  moreover have "distinct (map ?f (upsert ?same b (masking_bindings s)))"
    using wf by (intro distinct_map_upsert) (auto simp: policies_wf_def)
  moreover have "mb_policy_name ` set (upsert ?same b (masking_bindings s))
      \<subseteq> mp_name ` set (masking_policies s)"
    using wf pol by (intro image_upsert_subset) (auto simp: policies_wf_def)
  ultimately show ?thesis using wf by (simp add: policies_wf_def)
qed

lemma AddRowAccessPolicy_wf:
  assumes add: "AddRowAccessPolicy p rep s = Inr s'" and wf: "policies_wf U s"
  shows "policies_wf U s'"
proof -
  let ?new = "upsert (\<lambda>x. ra_name x = ra_name p) p (row_access_policies s)"
  have "s' = s\<lparr>row_access_policies := ?new\<rparr>"
    using add by (auto simp: AddRowAccessPolicy_def upsert_def split: if_splits)
  moreover have "ra_name p \<notin> mp_name ` set (masking_policies s)"
    using add wf by (auto simp: AddRowAccessPolicy_def policies_wf_def any_image split: if_splits)
  moreover have "distinct (map ra_name ?new)"
    using wf by (intro distinct_map_upsert) (auto simp: policies_wf_def)
  ultimately show ?thesis
    using wf by (simp add: policies_wf_def image_upsert subset_insertI2)
qed

lemma AddMaskingPolicy_wf:
  assumes add: "AddMaskingPolicy p rep s = Inr s'" and wf: "policies_wf U s"
  shows "policies_wf U s'"
proof -
  let ?new = "upsert (\<lambda>x. mp_name x = mp_name p) p (masking_policies s)"
  have "s' = s\<lparr>masking_policies := ?new\<rparr>"
    using add by (auto simp: AddMaskingPolicy_def upsert_def split: if_splits)
  moreover have "mp_name p \<notin> ra_name ` set (row_access_policies s)"
    using add wf by (auto simp: AddMaskingPolicy_def policies_wf_def any_image split: if_splits)
  moreover have "distinct (map mp_name ?new)"
    using wf by (intro distinct_map_upsert) (auto simp: policies_wf_def)
  ultimately show ?thesis
    using wf by (simp add: policies_wf_def image_upsert subset_insertI2)
qed

lemma image_erase_first_name:
  "distinct (map f xs) \<Longrightarrow> f ` set (erase_first (\<lambda>x. f x = n) xs) = f ` set xs - {n}"
proof (induction xs)
  case (Cons x xs)
  then have "f x \<notin> f ` set xs" by simp
  then have "\<And>y. y \<in> set xs \<Longrightarrow> f y \<noteq> f x" by (metis imageI)
  with Cons show ?case by auto
qed simp

lemma DropRowAccessPolicy_wf: "policies_wf U s \<Longrightarrow> policies_wf U (snd (DropRowAccessPolicy n s))"
  by (auto simp: DropRowAccessPolicy_def policies_wf_def distinct_map_erase_first distinct_map_filter
      image_erase_first_name)

lemma DropMaskingPolicy_wf: "policies_wf U s \<Longrightarrow> policies_wf U (snd (DropMaskingPolicy n s))"
  by (auto simp: DropMaskingPolicy_def policies_wf_def distinct_map_erase_first distinct_map_filter
      image_erase_first_name)

lemma Unbind_wf:
  "policies_wf U s \<Longrightarrow> policies_wf U (snd (UnbindRowAccessPolicy U t p s))"
  "policies_wf U s \<Longrightarrow> policies_wf U (snd (UnbindMaskingPolicy U t c s))"
  by (auto simp: unbind_frames policies_wf_def distinct_map_erase_first
      dest!: set_mp [OF set_erase_first_subset])

definition policy_fields :: "'v QuackapiState \<Rightarrow> _" where
  "policy_fields s = (row_access_policies s, masking_policies s, row_access_bindings s, masking_bindings s)"

lemma policies_wf_cong: "policy_fields s' = policy_fields s \<Longrightarrow> policies_wf U s \<Longrightarrow> policies_wf U s'"
  by (simp add: policy_fields_def policies_wf_def)

lemma step_policies_wf: "registry_step U M s s' \<Longrightarrow> policies_wf U s \<Longrightarrow> policies_wf U s'"
proof (induction rule: registry_step.induct)
  case (add_row_access p rep s s') then show ?case by (blast intro: AddRowAccessPolicy_wf)
next
  case (add_masking p rep s s') then show ?case by (blast intro: AddMaskingPolicy_wf)
next
  case (bind_row_access b rep s s') then show ?case by (blast intro: BindRowAccess_wf)
next
  case (bind_masking b rep s s') then show ?case by (blast intro: BindMasking_wf)
next
  case (drop_row_access s name) then show ?case by (rule DropRowAccessPolicy_wf)
next
  case (drop_masking s name) then show ?case by (rule DropMaskingPolicy_wf)
next
  case (unbind_row_access s tbl pol) then show ?case by (rule Unbind_wf)
next
  case (unbind_masking s tbl col) then show ?case by (rule Unbind_wf)
qed ((erule policies_wf_cong [rotated]; auto simp: policy_fields_def live_frames DropRoute_def
      DropStream_def DropAuth_def PublishRoutes_def PublishStreams_def Let_def op_frames(2-)
      ClearGraphqlTables_def dest!: add_frames(1-4,7,8,11-) split: option.splits)+)


section \<open>GraphQL mounts\<close>

lemma normalize_idem [simp]:
  "NormalizeGraphqlMountPath (NormalizeGraphqlMountPath p) = NormalizeGraphqlMountPath p"
proof (induction p rule: NormalizeGraphqlMountPath.induct)
  case (1 p)
  then show ?case
    by (cases "length p > 1 \<and> last p = CHR ''/''")
      (auto simp: NormalizeGraphqlMountPath.simps [of p])
qed

definition mount_ok :: "QuackapiGraphqlRoute \<Rightarrow> bool" where
  "mount_ok x \<longleftrightarrow> gq_method x = ''POST'' \<and> \<not> IsReservedGraphqlPath (gq_path x) \<and>
     NormalizeGraphqlMountPath (gq_path x) = gq_path x"

lemma AddGraphqlRoute_mount_ok:
  "AddGraphqlRoute U r rep s = Inr s' \<Longrightarrow> mount_ok (stored_graphql_route U r)"
  by (auto simp: AddGraphqlRoute_def mount_ok_def stored_graphql_route_def Let_def
      split: if_splits option.splits)

lemma graphql_wf_alt:
  "graphql_wf s \<longleftrightarrow> graphql_route_reg.registry_wf s \<and> (\<forall>x \<in> set (graphql_routes s). mount_ok x) \<and>
     (\<forall>x \<in> set (graphql_routes s). \<forall>y \<in> set (graphql_routes s).
        gq_name x \<noteq> gq_name y \<longrightarrow> gq_path x @ ''/schema'' \<noteq> gq_path y)"
  by (simp add: graphql_wf_def graphql_route_reg.registry_wf_def graphql_route_reg.keys_distinct_def
      mount_ok_def list_all_iff)

lemma AddGraphqlRoute_wf:
  assumes add: "AddGraphqlRoute U r rep s = Inr s'" and wf: "graphql_wf s"
  shows "graphql_wf s'"
proof -
  let ?r = "stored_graphql_route U r"
  have reg: "graphql_route_reg.registry_wf s" using wf by (simp add: graphql_wf_alt)
  then have kd: "graphql_route_reg.keys_distinct s" by (simp add: graphql_route_reg.registry_wf_def)
  have "graphql_route_reg.registry_wf s'"
    using graphql_route_reg.add_registry_wf [OF reg _ add] by simp
  moreover have mem: "x = ?r \<or> x \<in> set (graphql_routes s) \<and> (gq_name x \<noteq> gq_name r \<or> x = ?r)"
    if "x \<in> set (graphql_routes s')" for x
  proof -
    have "graphql_route_reg.get (gq_name x) s' = Some x"
      using distinct_map_find [OF _ that, of gq_name] graphql_route_reg.add_keys_distinct [OF kd add]
      by (simp add: graphql_route_reg.get_def graphql_route_reg.keys_distinct_def)
    then show ?thesis
      using graphql_route_reg.get_add [OF kd add, of "gq_name x"]
      by (auto simp: graphql_route_reg.get_def split: if_splits dest: find_SomeD [OF sym])
  qed
  moreover have "\<And>x. x \<in> set (graphql_routes s) \<Longrightarrow> gq_name x \<noteq> gq_name r \<Longrightarrow>
      gq_path x @ ''/schema'' \<noteq> gq_path ?r \<and> gq_path x \<noteq> gq_path ?r @ ''/schema''"
    using graphql_collision_None [OF AddGraphqlRoute_collision [OF add]] by auto
  ultimately show ?thesis
    using wf AddGraphqlRoute_mount_ok [OF add] unfolding graphql_wf_alt
    by (metis stored_graphql_route_name)
qed

lemma DropGraphqlRoute_wf: "graphql_wf s \<Longrightarrow> graphql_wf (snd (DropGraphqlRoute n s))"
  by (auto simp: graphql_wf_def drop_frames distinct_map_erase_first
      dest!: set_mp [OF set_erase_first_subset])

lemma graphql_wf_cong: "graphql_routes s' = graphql_routes s \<Longrightarrow> graphql_wf s \<Longrightarrow> graphql_wf s'"
  by (simp add: graphql_wf_def)

lemma step_graphql_wf: "registry_step U M s s' \<Longrightarrow> graphql_wf s \<Longrightarrow> graphql_wf s'"
proof (induction rule: registry_step.induct)
  case (add_graphql_route r rep s s') then show ?case by (blast intro: AddGraphqlRoute_wf)
next
  case (drop_graphql_route s name) then show ?case by (rule DropGraphqlRoute_wf)
qed ((erule graphql_wf_cong [rotated]; auto simp: live_frames drop_defs DropAuth_def
      PublishRoutes_def PublishStreams_def Let_def op_frames(6-) ClearGraphqlTables_def
      dest!: add_frames(1-11) split: option.splits)+)

section \<open>Reachable states\<close>

lemma reachable_wf:
  assumes "registry_reachable U M s" "string_util_ok U"
  shows "routes_wf s \<and> streams_wf s \<and> live_wf s \<and> names_wf s \<and> auths_wf U s \<and> policies_wf U s \<and> graphql_wf s"
  using assms
proof (induction rule: registry_reachable.induct)
  case start
  show ?case
    by (simp add: initial_state_def routes_wf_def streams_wf_def live_wf_def names_wf_def
        auths_wf_def policies_wf_def graphql_wf_def)
next
  case (step s s')
  then show ?case
    by (simp add: step_routes_wf step_streams_wf step_live_wf step_names_wf step_auths_wf
        step_policies_wf step_graphql_wf)
qed


text \<open>
  C21. In every reachable state no two routes share a name or a method and pattern, the same
  holds for streams, and the published snapshot that the request path reads is exactly the
  current table: no operation forgets to publish.
\<close>

theorem reachable_routes_unique:
  assumes "registry_reachable U M s" "string_util_ok U"
  shows "(\<forall>r \<in> set (routes s). \<forall>r' \<in> set (routes s).
      rt_name r = rt_name r' \<or> (rt_method r, rt_pattern r) = (rt_method r', rt_pattern r') \<longrightarrow> r = r') \<and>
    (\<forall>x \<in> set (streams s). \<forall>x' \<in> set (streams s).
      st_name x = st_name x' \<or> (st_method x, st_pattern x) = (st_method x', st_pattern x') \<longrightarrow> x = x') \<and>
    fst (LiveRoutes s) = routes s \<and> fst (LiveStreams s) = streams s"
proof -
  note wf = reachable_wf [OF assms]
  have "fst (LiveRoutes s) = routes s \<and> fst (LiveStreams s) = streams s"
    using wf by (auto simp: live_wf_def LiveRoutes_def LiveStreams_def)
  moreover have "inj_on rt_name (set (routes s))" "inj_on st_name (set (streams s))"
    "inj_on (\<lambda>r. (rt_method r, rt_pattern r)) (set (routes s))"
    "inj_on (\<lambda>x. (st_method x, st_pattern x)) (set (streams s))"
    using wf by (simp_all add: routes_wf_def streams_wf_def distinct_map)
  ultimately show ?thesis by (auto simp: inj_on_def)
qed

definition example_state :: "nat QuackapiState" where
  "example_state = initial_state\<lparr>routes := [example_route], routes_live := Some [example_route]\<rparr>"

lemma example_state_reachable: "registry_reachable ascii_util bits_mbedtls example_state"
  by (rule registry_reachable.step [OF registry_reachable.start],
      rule registry_step.add_routes [where rs = "[example_route]" and rep = False])
    (simp add: AddRoutes_def propose_route_def PublishRoutes_def example_state_def initial_state_def
      ClearRouteRateLimit_def)

theorem reachable_routes_unique_witness:
  "registry_reachable ascii_util bits_mbedtls example_state \<and> fst (LiveRoutes example_state) = [example_route]"
  using example_state_reachable reachable_routes_unique [OF example_state_reachable string_util_ok_ascii]
  by (simp add: example_state_def)


text \<open>
  In every reachable state each stored API key belongs to a registered scheme: looking the
  key's scheme up by name, in any letter case, finds a scheme of kind API_KEY whose canonical
  name is the one stored with the key. Keys never outlive, or detach from, their scheme.
\<close>

theorem reachable_api_keys_have_scheme:
  assumes "registry_reachable U M s" "string_util_ok U" "k \<in> set (api_keys s)"
    "su_ci_equals U name (ak_auth_name k)"
  shows "\<exists>a. GetAuth U name s = Some a \<and> au_kind a = API_KEY \<and> au_name a = ak_auth_name k"
proof -
  have wf: "auths_wf U s" using reachable_wf [OF assms(1,2)] by blast
  with assms(3) obtain a where a: "a \<in> set (auths s)" "au_name a = ak_auth_name k" "au_kind a = API_KEY"
    by (auto simp: auths_wf_def)
  have "distinct (map (\<lambda>x. su_lower U (au_name x)) (auths s))" using wf by (simp add: auths_wf_def)
  from distinct_map_find [OF this a(1)] have "GetAuth U name s = Some a"
    using assms(2,4) a(2) by (simp add: GetAuth_def ci_lower)
  with a show ?thesis by blast
qed

definition site_auth :: QuackapiAuth where
  "site_auth = \<lparr>au_name = ''Site'', au_kind = API_KEY, au_header = ''X-API-Key'', au_secret = []\<rparr>"

definition site_key :: QuackapiApiKeyEntry where
  "site_key = \<lparr>ak_auth_name = ''Site'', ak_key_hash = ''k'', ak_subject = ''bob''\<rparr>"

definition keyed_state :: "nat QuackapiState" where
  "keyed_state = initial_state\<lparr>auths := [site_auth], api_keys := [site_key]\<rparr>"

lemma keyed_state_reachable: "registry_reachable ascii_util bits_mbedtls keyed_state"
proof -
  have "registry_reachable ascii_util bits_mbedtls (initial_state\<lparr>auths := [site_auth]\<rparr> :: nat QuackapiState)"
    by (rule registry_reachable.step [OF registry_reachable.start],
        rule registry_step.add_auth [where a = site_auth and rep = False])
      (simp add: AddAuth_def initial_state_def)
  then show ?thesis
    by (rule registry_reachable.step,
        intro registry_step.add_api_key [where auth = "''SITE''" and raw = "''k''" and subj = "''bob''" and subj' = "''bob''"])
      (simp add: AddApiKey_def keyed_state_def initial_state_def site_auth_def site_key_def
        QuackapiSha256_def bits_mbedtls_def ascii_eval)
qed

theorem reachable_api_keys_have_scheme_witness:
  "registry_reachable ascii_util bits_mbedtls keyed_state \<and> site_key \<in> set (api_keys keyed_state) \<and>
   (\<exists>a. GetAuth ascii_util ''sITE'' keyed_state = Some a \<and> au_kind a = API_KEY \<and> au_name a = ak_auth_name site_key)"
proof -
  have k: "site_key \<in> set (api_keys keyed_state)" by (simp add: keyed_state_def)
  have c: "su_ci_equals ascii_util ''sITE'' (ak_auth_name site_key)"
    by (simp add: site_key_def ascii_eval)
  show ?thesis
    using keyed_state_reachable k reachable_api_keys_have_scheme [OF keyed_state_reachable string_util_ok_ascii k c]
    by blast
qed

text \<open>
  C28. Revocation of API keys. After DROP AUTH, creating a scheme of the same name again (in any
  letter case) starts without keys; and after a scheme is created or replaced as a JWT scheme no
  key is stored under its name, so replacing it back by an API_KEY scheme resurrects nothing.
\<close>

theorem auth_keys_revoked:
  assumes "registry_reachable U M s" "string_util_ok U"
  shows "(\<forall>s1 a rep s2. DropAuth U n s = (True, s1) \<and> AddAuth U a rep s1 = Inr s2 \<and>
      su_ci_equals U (au_name a) n \<longrightarrow> SnapshotApiKeys U (au_name a) s2 = []) \<and>
    (\<forall>j rep s1. AddAuth U j rep s = Inr s1 \<and> au_kind j = JWT_HS256 \<longrightarrow>
      SnapshotApiKeys U (au_name j) s1 = [])"
proof (intro conjI allI impI)
  have wf: "auths_wf U s" using reachable_wf [OF assms] by blast
  {
    fix s1 a rep s2
    assume h: "DropAuth U n s = (True, s1) \<and> AddAuth U a rep s1 = Inr s2 \<and> su_ci_equals U (au_name a) n"
    then obtain it where it: "List.find (\<lambda>x. su_ci_equals U (au_name x) n) (auths s) = Some it"
      by (auto simp: DropAuth_def split: option.splits)
    have l: "su_lower U (au_name it) = su_lower U (au_name a)" "su_lower U n = su_lower U (au_name a)"
      using find_SomeD [OF it] h assms(2) by (auto simp: ci_lower)
    have keys: "\<forall>k \<in> set (api_keys s1). su_lower U (ak_auth_name k) \<noteq> su_lower U (au_name a)"
      using h it assms(2) l by (auto simp: DropAuth_def ci_lower)
    have "auths s1 = erase_first (\<lambda>x. su_lower U (au_name x) = su_lower U n) (auths s)"
      using h it assms(2) by (auto simp: DropAuth_def ci_lower)
    then have "(\<lambda>x. su_lower U (au_name x)) ` set (auths s1) =
        (\<lambda>x. su_lower U (au_name x)) ` set (auths s) - {su_lower U n}"
      using wf image_erase_first_name [of "\<lambda>x. su_lower U (au_name x)" "auths s" "su_lower U n"]
      by (simp add: auths_wf_def)
    then have "List.find (\<lambda>x. su_ci_equals U (au_name x) (au_name a)) (auths s1) = None"
      using l assms(2) by (intro find_NoneI) (auto simp: ci_lower image_iff)
    then have "api_keys s2 = api_keys s1" using h by (auto simp: AddAuth_def)
    with keys show "SnapshotApiKeys U (au_name a) s2 = []"
      using assms(2) by (simp add: SnapshotApiKeys_def filter_empty_conv ci_lower)
  next
    fix j rep s1
    assume h: "AddAuth U j rep s = Inr s1 \<and> au_kind j = JWT_HS256"
    have wf1: "auths_wf U s1" using AddAuth_auths_wf [OF assms(2) _ wf] h by blast
    have j: "j \<in> set (auths s1)"
      using h in_set_replace_first [of "\<lambda>x. su_ci_equals U (au_name x) (au_name j)" "auths s" j]
      by (auto simp: AddAuth_def Let_def any_find split: option.splits if_splits)
    show "SnapshotApiKeys U (au_name j) s1 = []"
    proof (rule ccontr)
      assume "SnapshotApiKeys U (au_name j) s1 \<noteq> []"
      then obtain k where k: "k \<in> set (api_keys s1)" "su_lower U (ak_auth_name k) = su_lower U (au_name j)"
        using assms(2) by (auto simp: SnapshotApiKeys_def filter_empty_conv ci_lower)
      with wf1 obtain a where a: "a \<in> set (auths s1)" "au_name a = ak_auth_name k" "au_kind a = API_KEY"
        by (auto simp: auths_wf_def)
      with j k wf1 have "a = j" by (intro auth_same_name [of U "auths s1"]) (auto simp: auths_wf_def)
      with a h show False by simp
    qed
  }
qed

theorem auth_keys_revoked_witness:
  "registry_reachable ascii_util bits_mbedtls keyed_state \<and>
   AddAuth ascii_util (site_auth\<lparr>au_kind := JWT_HS256\<rparr>) True keyed_state =
     Inr (keyed_state\<lparr>auths := [site_auth\<lparr>au_kind := JWT_HS256\<rparr>], api_keys := []\<rparr>) \<and>
   SnapshotApiKeys ascii_util ''Site''
     (keyed_state\<lparr>auths := [site_auth\<lparr>au_kind := JWT_HS256\<rparr>], api_keys := []\<rparr>) = []"
proof -
  have a: "AddAuth ascii_util (site_auth\<lparr>au_kind := JWT_HS256\<rparr>) True keyed_state =
     Inr (keyed_state\<lparr>auths := [site_auth\<lparr>au_kind := JWT_HS256\<rparr>], api_keys := []\<rparr>)"
    by (simp add: AddAuth_def keyed_state_def site_auth_def site_key_def)
  have "SnapshotApiKeys ascii_util (au_name (site_auth\<lparr>au_kind := JWT_HS256\<rparr>))
     (keyed_state\<lparr>auths := [site_auth\<lparr>au_kind := JWT_HS256\<rparr>], api_keys := []\<rparr>) = []"
    using a by (intro auth_keys_revoked [OF keyed_state_reachable string_util_ok_ascii, THEN conjunct2, rule_format]) simp
  with a keyed_state_reachable show ?thesis by (simp add: site_auth_def)
qed

text \<open>
  In every reachable state every row-access and masking binding names a registered policy of
  its kind, a policy name is used by one kind only, a table (in any letter case) has at most one
  row-access binding and a column at most one masking binding.
\<close>

theorem reachable_policy_bindings:
  assumes "registry_reachable U M s" "string_util_ok U"
  shows "(\<forall>b \<in> set (row_access_bindings s). \<exists>p. GetRowAccessPolicy (rb_policy_name b) s = Some p) \<and>
    (\<forall>b \<in> set (masking_bindings s). \<exists>p. GetMaskingPolicy (mb_policy_name b) s = Some p) \<and>
    (\<forall>n. GetRowAccessPolicy n s = None \<or> GetMaskingPolicy n s = None) \<and>
    (\<forall>b \<in> set (row_access_bindings s). \<forall>c \<in> set (row_access_bindings s).
       su_lower U (rb_table_name b) = su_lower U (rb_table_name c) \<longrightarrow> b = c) \<and>
    (\<forall>b \<in> set (masking_bindings s). \<forall>c \<in> set (masking_bindings s).
       su_lower U (mb_table_name b) = su_lower U (mb_table_name c) \<and>
       su_lower U (mb_column_name b) = su_lower U (mb_column_name c) \<longrightarrow> b = c)"
proof -
  have wf: "policies_wf U s" using reachable_wf [OF assms] by blast
  have ra: "(\<exists>p. GetRowAccessPolicy n s = Some p) \<longleftrightarrow> n \<in> ra_name ` set (row_access_policies s)" for n
    unfolding GetRowAccessPolicy_def by (rule find_image)
  have mp: "(\<exists>p. GetMaskingPolicy n s = Some p) \<longleftrightarrow> n \<in> mp_name ` set (masking_policies s)" for n
    unfolding GetMaskingPolicy_def by (rule find_image)
  have disj: "ra_name ` set (row_access_policies s) \<inter> mp_name ` set (masking_policies s) = {}"
    using wf by (simp add: policies_wf_def)
  have "GetRowAccessPolicy n s = None \<or> GetMaskingPolicy n s = None" for n
    using ra [of n] mp [of n] disj by (metis disjoint_iff not_None_eq)
  moreover have "inj_on (\<lambda>b. su_lower U (rb_table_name b)) (set (row_access_bindings s))"
    "inj_on (\<lambda>b. (su_lower U (mb_table_name b), su_lower U (mb_column_name b))) (set (masking_bindings s))"
    using wf by (simp_all add: policies_wf_def distinct_map)
  moreover have "\<forall>b \<in> set (row_access_bindings s). \<exists>p. GetRowAccessPolicy (rb_policy_name b) s = Some p"
    "\<forall>b \<in> set (masking_bindings s). \<exists>p. GetMaskingPolicy (mb_policy_name b) s = Some p"
    unfolding ra mp using wf by (auto simp: policies_wf_def)
  ultimately show ?thesis by (simp add: inj_on_def)
qed

definition tenant_policy :: QuackapiRowAccessPolicy where
  "tenant_policy = \<lparr>ra_name = ''tenant'', ra_arg_columns = [''org''], ra_arg_types = [''VARCHAR''],
     ra_expression = ''org = $claims_org''\<rparr>"

definition tenant_binding :: QuackapiRowAccessBinding where
  "tenant_binding = \<lparr>rb_table_name = ''orders'', rb_policy_name = ''tenant'', rb_columns = [''org'']\<rparr>"

definition policed_state :: "nat QuackapiState" where
  "policed_state = initial_state\<lparr>row_access_policies := [tenant_policy], row_access_bindings := [tenant_binding]\<rparr>"

lemma policed_state_reachable: "registry_reachable ascii_util bits_mbedtls policed_state"
proof -
  have "registry_reachable ascii_util bits_mbedtls
      (initial_state\<lparr>row_access_policies := [tenant_policy]\<rparr> :: nat QuackapiState)"
    by (rule registry_reachable.step [OF registry_reachable.start],
        rule registry_step.add_row_access [where p = tenant_policy and rep = False])
      (simp add: AddRowAccessPolicy_def initial_state_def)
  then show ?thesis
    by (rule registry_reachable.step,
        intro registry_step.bind_row_access [where b = tenant_binding and rep = False])
      (simp add: BindRowAccessPolicy_def policed_state_def initial_state_def tenant_binding_def tenant_policy_def)
qed

theorem reachable_policy_bindings_witness:
  "registry_reachable ascii_util bits_mbedtls policed_state \<and>
   (\<exists>p. GetRowAccessPolicy ''tenant'' policed_state = Some p)"
  using policed_state_reachable reachable_policy_bindings [OF policed_state_reachable string_util_ok_ascii]
  by (simp add: policed_state_def tenant_binding_def)

definition mount_serves :: "QuackapiGraphqlRoute \<Rightarrow> string \<Rightarrow> bool" where
  "mount_serves x url = (gq_path x = url \<or> gq_path x @ ''/schema'' = url)"

lemma schema_suffix_not_graphql: "p @ ''/schema'' \<noteq> ''/graphql''"
proof
  assume h: "p @ ''/schema'' = ''/graphql''"
  then have "length p = 1" using arg_cong [OF h, of length] by simp
  then obtain c where "p = [c]" by (auto simp: length_Suc_conv)
  with h show False by simp
qed

lemma schema_suffix_graphql: "p @ ''/schema'' = ''/graphql/schema'' \<Longrightarrow> p = ''/graphql''"
  using append_same_eq [of p "''/schema''" "''/graphql''"] by simp

lemma schema_of_reserved: "IsReservedGraphqlPath (p @ ''/schema'') \<Longrightarrow> IsReservedGraphqlPath p"
  unfolding IsReservedGraphqlPath_def using schema_suffix_graphql schema_suffix_not_graphql by blast

text \<open>
  GraphQL mounts never shadow each other or the built-in endpoint: in every reachable
  state at most one mount serves a given (normalised) URL, as its query URL or as its schema URL,
  and none serves \<open>/graphql\<close> or \<open>/graphql/schema\<close>.
\<close>

theorem reachable_graphql_mounts_disjoint:
  assumes "registry_reachable U M s" "string_util_ok U"
    "x \<in> set (graphql_routes s)" "mount_serves x url"
  shows "\<not> IsReservedGraphqlPath url \<and> (\<forall>y \<in> set (graphql_routes s). mount_serves y url \<longrightarrow> y = x)"
proof -
  have wf: "graphql_wf s" using reachable_wf [OF assms(1,2)] by blast
  have "\<not> IsReservedGraphqlPath (gq_path x)" using wf assms(3) by (simp add: graphql_wf_def)
  then have "\<not> IsReservedGraphqlPath url"
    using assms(4) schema_of_reserved unfolding mount_serves_def by blast
  moreover have "y = x" if y: "y \<in> set (graphql_routes s)" "mount_serves y url" for y
  proof (rule ccontr)
    assume "y \<noteq> x"
    moreover have "inj_on gq_name (set (graphql_routes s))" "inj_on gq_path (set (graphql_routes s))"
      using wf by (simp_all add: graphql_wf_def distinct_map)
    ultimately have "gq_name x \<noteq> gq_name y" "gq_path x \<noteq> gq_path y"
      using assms(3) y(1) by (auto simp: inj_on_def)
    moreover from this(1) have "gq_path x @ ''/schema'' \<noteq> gq_path y" "gq_path y @ ''/schema'' \<noteq> gq_path x"
      using wf assms(3) y(1) unfolding graphql_wf_def by metis+
    ultimately show False
      using assms(4) y(2) unfolding mount_serves_def by (metis append_same_eq)
  qed
  ultimately show ?thesis by blast
qed

definition example_mount :: QuackapiGraphqlRoute where
  "example_mount = \<lparr>gq_name = ''g'', gq_method = ''POST'', gq_path = ''/api/gql'', gq_tables = [''t''],
     gq_require_auth = [], gq_limit = 100\<rparr>"

definition mounted_state :: "nat QuackapiState" where
  "mounted_state = initial_state\<lparr>graphql_routes := [example_mount]\<rparr>"

lemma mounted_state_reachable: "registry_reachable ascii_util bits_mbedtls mounted_state"
  by (rule registry_reachable.step [OF registry_reachable.start],
      rule registry_step.add_graphql_route [where r = "example_mount\<lparr>gq_path := ''/api/gql//'', gq_method := ''post''\<rparr>"
        and rep = False])
    (simp add: AddGraphqlRoute_def example_mount_def mounted_state_def initial_state_def
      stored_graphql_route_def NormalizeGraphqlMountPath.simps IsReservedGraphqlPath_def ascii_eval)

theorem reachable_graphql_mounts_disjoint_witness:
  "registry_reachable ascii_util bits_mbedtls mounted_state \<and> mount_serves example_mount ''/api/gql/schema'' \<and>
   \<not> IsReservedGraphqlPath ''/api/gql/schema''"
proof -
  have m: "example_mount \<in> set (graphql_routes mounted_state)" by (simp add: mounted_state_def)
  have v: "mount_serves example_mount ''/api/gql/schema''" by (simp add: mount_serves_def example_mount_def)
  show ?thesis
    using mounted_state_reachable v
      reachable_graphql_mounts_disjoint [OF mounted_state_reachable string_util_ok_ascii m v] by blast
qed

end
