(* ===== verification/Util.thy ===== *)
theory Util
  imports Prelude "HOL-Library.Word"
begin

text \<open>
  The shared helpers of \<open>src/src/quackapi_util.cpp\<close>: trimming, the shape of an exec route, JSON
  escaping, the reconstruction of a DDL statement from DuckDB's token view, and the byte budget
  of the typed row collector. DuckDB's tokenizer, its binary serializer and the grammar of each
  DDL noun are parameters.
\<close>

section \<open>Trimming and exec routes\<close>

definition QuackapiTrim :: "string_util \<Rightarrow> string \<Rightarrow> string" where
  "QuackapiTrim U input =
     (let tail = dropWhile (su_space U) input
      in rev (dropWhile (\<lambda>c. su_space U c \<or> c = CHR '';'') (rev tail)))"

definition param_start :: "char \<Rightarrow> bool" where
  "param_start c = (is_alpha c \<or> c = CHR ''_'')"

definition QuackapiExecRouteParam :: "string_util \<Rightarrow> string \<Rightarrow> string option" where
  "QuackapiExecRouteParam U handler_sql =
     (let handler = QuackapiTrim U handler_sql
      in if length handler < 2 \<or> hd handler \<noteq> CHR ''$'' then None
         else if \<not> param_start (handler ! 1) then None
         else if \<not> list_all (\<lambda>c. param_start c \<or> is_digit c) (drop 2 handler) then None
         else let name = drop 1 handler
              in if su_starts_with U (su_lower U name) ''claims_'' then None else Some name)"

section \<open>JSON escaping\<close>

definition hex_digit :: "nat \<Rightarrow> char" where
  "hex_digit n = (if n < 10 then char_of (48 + n) else char_of (87 + n))"

definition escape_char :: "char \<Rightarrow> string" where
  "escape_char c =
     (if c = CHR 0x22 then [CHR 0x5C, CHR 0x22]
      else if c = CHR 0x5C then [CHR 0x5C, CHR 0x5C]
      else if c = CHR 0x08 then [CHR 0x5C, CHR ''b'']
      else if c = CHR 0x0C then [CHR 0x5C, CHR ''f'']
      else if c = CHR 0x0A then [CHR 0x5C, CHR ''n'']
      else if c = CHR 0x0D then [CHR 0x5C, CHR ''r'']
      else if c = CHR 0x09 then [CHR 0x5C, CHR ''t'']
      else if byte c < 32 then
        [CHR 0x5C, CHR ''u'', CHR ''0'', CHR ''0'', hex_digit (byte c div 16), hex_digit (byte c mod 16)]
      else [c])"

definition QuackapiJsonEscape :: "string \<Rightarrow> string" where
  "QuackapiJsonEscape input = concat (map escape_char input)"

section \<open>Statements from tokens\<close>

datatype TokenType = STRING_LITERAL | TERMINATOR | END_OF_INPUT | END_OF_INPUT_AUTOCOMPLETE | OTHER_TOKEN nat

record SimpleToken =
  tk_type :: TokenType
  tk_text :: string

definition JoinsWithoutSpace :: "string \<Rightarrow> string \<Rightarrow> bool" where
  "JoinsWithoutSpace previous nxt =
     (if previous = ''('' \<or> previous = ''['' \<or> previous = ''.'' \<or> previous = ''::'' \<or> previous = ''$'' then True
      else nxt = '')'' \<or> nxt = '']'' \<or> nxt = '','' \<or> nxt = ''.'' \<or> nxt = ''::'')"

definition IsStatementEnd :: "TokenType \<Rightarrow> bool" where
  "IsStatementEnd t = (t = TERMINATOR \<or> t = END_OF_INPUT \<or> t = END_OF_INPUT_AUTOCOMPLETE)"

text \<open>
  The loop over the tokens. \<open>prev\<close> is the token before (\<open>None\<close> at the first), \<open>sql\<close> and
  \<open>starts\<close> what has been built. The result is the text with the start offsets, or the text built
  so far with the two adjacent string literals.
\<close>

fun rebuild_tokens :: "string_util \<Rightarrow> SimpleToken option \<Rightarrow> string \<Rightarrow> nat list \<Rightarrow> SimpleToken list
    \<Rightarrow> string \<times> ((string \<times> string) + nat list)" where
  "rebuild_tokens U prev sql starts [] = (sql, Inr starts)"
| "rebuild_tokens U prev sql starts (token # rest) =
     (if IsStatementEnd (tk_type token) then (sql, Inr starts)
      else case prev of
          None \<Rightarrow> rebuild_tokens U (Some token) (sql @ tk_text token) (starts @ [length sql]) rest
        | Some previous \<Rightarrow>
            if tk_type previous = STRING_LITERAL \<and> tk_type token = STRING_LITERAL \<and>
               su_starts_with U (tk_text token) [CHR 0x27]
            then (sql, Inl (tk_text previous, tk_text token))
            else let sql1 = (if JoinsWithoutSpace (tk_text previous) (tk_text token) then sql else sql @ '' '')
                 in rebuild_tokens U (Some token) (sql1 @ tk_text token) (starts @ [length sql1]) rest)"

datatype rebuild_error = AdjacentLiterals string string | TokensChanged string

definition QuackapiTokensToSql :: "string_util \<Rightarrow> (string \<Rightarrow> nat list) \<Rightarrow> SimpleToken list
    \<Rightarrow> string \<times> (rebuild_error + nat)" where
  "QuackapiTokensToSql U tokenize tokens =
     (case rebuild_tokens U None [] [] tokens of
        (sql, Inl (a, b)) \<Rightarrow> (sql, Inl (AdjacentLiterals a b))
      | (sql, Inr starts) \<Rightarrow>
          if tokenize sql = starts then (sql, Inr (length starts))
          else (sql, Inl (TokensChanged sql)))"

datatype 'd parse_outcome = DISPLAY_ORIGINAL_ERROR | DISPLAY_EXTENSION_ERROR string | PARSE_SUCCESSFUL 'd

text \<open>
  The result of a grammar and the number of tokens claimed; \<open>None\<close> is the default of a
  default-constructed result.
\<close>

definition QuackapiParseTokens :: "string_util \<Rightarrow> (string \<Rightarrow> nat list) \<Rightarrow> (rebuild_error \<Rightarrow> string)
    \<Rightarrow> (string \<Rightarrow> 'd parse_outcome) \<Rightarrow> SimpleToken list \<Rightarrow> 'd parse_outcome \<times> int option" where
  "QuackapiParseTokens U tokenize message parse tokens =
     (case QuackapiTokensToSql U tokenize tokens of
        (sql, Inl err) \<Rightarrow>
          (case parse sql of
             DISPLAY_ORIGINAL_ERROR \<Rightarrow> (DISPLAY_ORIGINAL_ERROR, None)
           | _ \<Rightarrow> (DISPLAY_EXTENSION_ERROR (message err), Some (-1)))
      | (sql, Inr statement_tokens) \<Rightarrow>
          (case parse sql of
             PARSE_SUCCESSFUL d \<Rightarrow>
               (PARSE_SUCCESSFUL d, Some (int (min (statement_tokens + 1) (length tokens))))
           | DISPLAY_EXTENSION_ERROR e \<Rightarrow> (DISPLAY_EXTENSION_ERROR e, Some (-1))
           | DISPLAY_ORIGINAL_ERROR \<Rightarrow> (DISPLAY_ORIGINAL_ERROR, Some 0)))"

section \<open>The budget of the typed row collector\<close>

type_synonym idx_t = "64 word"

definition SaturatingAdd :: "idx_t \<Rightarrow> idx_t \<Rightarrow> idx_t" where
  "SaturatingAdd lhs rhs = (if rhs > - 1 - lhs then - 1 else lhs + rhs)"

text \<open>
  DuckDB's binary serializer: the size of a list of rows, of the whole result (with the schema of
  the collector), and of a count. A row is a list of column values, cast to one VARIANT.
\<close>

record 'v native_serializer =
  ns_rows :: "'v list list \<Rightarrow> idx_t"
  ns_result :: "'v list list \<Rightarrow> idx_t"
  ns_count :: "nat \<Rightarrow> idx_t"

record 'v QuackapiTypedRowCollector =
  tc_column_count :: nat
  tc_rows :: "'v list list"
  tc_max_bytes :: idx_t
  tc_empty_rows_bytes :: idx_t
  tc_empty_result_bytes :: idx_t
  tc_row_payload_bytes :: idx_t

definition new_collector :: "'v native_serializer \<Rightarrow> string list \<Rightarrow> 't list \<Rightarrow> idx_t
    \<Rightarrow> 'v QuackapiTypedRowCollector result" where
  "new_collector S names types max_bytes =
     (if length names \<noteq> length types then
        Inl (InvalidInput ''typed row names and types have different sizes'' [])
      else Inr \<lparr>tc_column_count = length names, tc_rows = [], tc_max_bytes = max_bytes,
             tc_empty_rows_bytes = ns_rows S [], tc_empty_result_bytes = ns_result S [],
             tc_row_payload_bytes = 0\<rparr>)"

definition rows_too_large :: exn where
  "rows_too_large = InvalidInput ''native typed rows and schema exceed quackapi_max_response_bytes'' []"

definition AppendRow :: "'v native_serializer \<Rightarrow> 'v list \<Rightarrow> 'v QuackapiTypedRowCollector
    \<Rightarrow> 'v QuackapiTypedRowCollector result" where
  "AppendRow S row c =
     (if length row \<noteq> tc_column_count c then
        Inl (InvalidInput ''typed row has another number of values'' [nat_string (length row), nat_string (tc_column_count c)])
      else
        let singleton_bytes = ns_rows S [row]
        in if singleton_bytes < tc_empty_rows_bytes c then
             Inl (Internal ''native typed row serialization produced a negative row size'')
           else
             let row_delta = singleton_bytes - tc_empty_rows_bytes c;
                 zero_count_bytes = ns_count S 0;
                 next_count_bytes = ns_count S (length (tc_rows c) + 1)
             in if next_count_bytes < zero_count_bytes then
                  Inl (Internal ''native typed list count serialization decreased in size'')
                else
                  let p1 = SaturatingAdd (tc_empty_result_bytes c) (tc_row_payload_bytes c);
                      p2 = SaturatingAdd p1 row_delta;
                      predicted = SaturatingAdd p2 (next_count_bytes - zero_count_bytes)
                  in if predicted > tc_max_bytes c then Inl rows_too_large
                     else Inr (c\<lparr>tc_row_payload_bytes := SaturatingAdd (tc_row_payload_bytes c) row_delta,
                                 tc_rows := tc_rows c @ [row]\<rparr>))"

fun append_rows :: "'v native_serializer \<Rightarrow> 'v list list \<Rightarrow> 'v QuackapiTypedRowCollector
    \<Rightarrow> 'v QuackapiTypedRowCollector result" where
  "append_rows S [] c = Inr c"
| "append_rows S (r # rs) c = (case AppendRow S r c of Inl e \<Rightarrow> Inl e | Inr c' \<Rightarrow> append_rows S rs c')"

text \<open>A chunk is its column count and its rows.\<close>

definition AppendChunk :: "'v native_serializer \<Rightarrow> nat \<times> 'v list list \<Rightarrow> 'v QuackapiTypedRowCollector
    \<Rightarrow> 'v QuackapiTypedRowCollector result" where
  "AppendChunk S chunk c =
     (if fst chunk \<noteq> tc_column_count c then
        Inl (InvalidInput ''typed row chunk does not match the result schema'' [])
      else append_rows S (snd chunk) c)"

definition Finish :: "'v native_serializer \<Rightarrow> 'v QuackapiTypedRowCollector \<Rightarrow> 'v list list result" where
  "Finish S c = (if ns_result S (tc_rows c) > tc_max_bytes c then Inl rows_too_large else Inr (tc_rows c))"

fun append_chunks :: "'v native_serializer \<Rightarrow> (nat \<times> 'v list list) list \<Rightarrow> 'v QuackapiTypedRowCollector
    \<Rightarrow> 'v QuackapiTypedRowCollector result" where
  "append_chunks S [] c = Inr c"
| "append_chunks S (k # ks) c = (case AppendChunk S k c of Inl e \<Rightarrow> Inl e | Inr c' \<Rightarrow> append_chunks S ks c')"

definition QuackapiTypedRowsFromResult :: "'v native_serializer \<Rightarrow> string list \<Rightarrow> 't list
    \<Rightarrow> (nat \<times> 'v list list) list \<Rightarrow> idx_t \<Rightarrow> 'v list list result" where
  "QuackapiTypedRowsFromResult S names types chunks max_bytes =
     (case new_collector S names types max_bytes of
        Inl e \<Rightarrow> Inl e
      | Inr c0 \<Rightarrow> (case append_chunks S chunks c0 of Inl e \<Rightarrow> Inl e | Inr c \<Rightarrow> Finish S c))"

section \<open>Lemmas\<close>

lemma unat_max_idx: "unat (- 1 :: idx_t) = 2 ^ 64 - 1"
  by (simp add: unsigned_minus_1_eq_mask mask_eq_exp_minus_1)

lemma saturating_add_unat:
  "unat (SaturatingAdd a b) = min (unat a + unat b) (2 ^ 64 - 1)"
proof -
  have "unat a < 2 ^ LENGTH(64)" by (rule unsigned_less)
  then have a: "unat a \<le> 2 ^ 64 - 1" by simp
  then have m: "unat (- 1 - a :: idx_t) = 2 ^ 64 - 1 - unat a"
    by (simp add: unat_sub_if' unat_max_idx)
  show ?thesis
  proof (cases "b > - 1 - a")
    case True
    then have "unat a + unat b > 2 ^ 64 - 1" using m a by (simp add: word_less_nat_alt)
    with True show ?thesis by (simp add: SaturatingAdd_def unat_max_idx)
  next
    case False
    then have "unat a + unat b \<le> 2 ^ 64 - 1" using m a by (simp add: word_less_nat_alt)
    with False show ?thesis by (simp add: SaturatingAdd_def unat_word_ariths(1))
  qed
qed

lemma prefix_hd: "prefix r t \<Longrightarrow> r = [] \<or> (t \<noteq> [] \<and> hd r = hd t)"
  by (cases r) (auto simp: prefix_def)

lemma dropWhile_id: "xs = [] \<or> \<not> p (hd xs) \<Longrightarrow> dropWhile p xs = xs"
  by (cases xs) auto

lemma QuackapiTrim_idem: "QuackapiTrim U (QuackapiTrim U s) = QuackapiTrim U s"
proof -
  let ?q = "\<lambda>c. su_space U c \<or> c = CHR '';''"
  let ?t = "dropWhile (su_space U) s"
  let ?r = "rev (dropWhile ?q (rev ?t))"
  have "prefix ?r ?t" by (metis suffix_dropWhile suffix_to_prefix rev_rev_ident)
  from prefix_hd [OF this] have "?r = [] \<or> \<not> su_space U (hd ?r)" by (metis hd_dropWhile)
  then have "dropWhile (su_space U) ?r = ?r" by (rule dropWhile_id)
  then show ?thesis by (simp add: QuackapiTrim_def Let_def dropWhile_idem)
qed


section \<open>Exec routes\<close>

text \<open>
  The handler of an exec route is recognised exactly when, trimmed, it is one named
  parameter: the answer is the name, which starts with a letter or underscore, continues with
  letters, digits and underscores, is not a claims parameter, and the trimmed handler is \<open>$\<close>
  followed by the name. Nothing else of the handler can be SQL.
\<close>

theorem exec_route_param_iff:
  assumes "string_util_ok U"
  shows "QuackapiExecRouteParam U sql = Some name \<longleftrightarrow>
    QuackapiTrim U sql = CHR ''$'' # name \<and> name \<noteq> [] \<and> param_start (hd name) \<and>
    list_all (\<lambda>c. param_start c \<or> is_digit c) name \<and>
    \<not> prefix ''claims_'' (map ascii_lower name)"
proof (cases "QuackapiTrim U sql")
  case Nil
  then show ?thesis by (simp add: QuackapiExecRouteParam_def Let_def)
next
  case (Cons c cs)
  then show ?thesis
    using assms by (cases cs) (auto simp: QuackapiExecRouteParam_def Let_def string_util_okD)
qed

theorem exec_route_param_iff_witness:
  "string_util_ok ascii_util \<and> QuackapiExecRouteParam ascii_util '' $sql ; '' = Some ''sql''"
proof -
  have "QuackapiTrim ascii_util '' $sql ; '' = ''$sql''"
    by (simp add: QuackapiTrim_def ascii_space_def)
  then show ?thesis
    using exec_route_param_iff [OF string_util_ok_ascii, of "'' $sql ; ''" "''sql''"]
    by (simp add: param_start_def ascii_eval)
qed

section \<open>Rebuilt statements\<close>

text \<open>Every token collected so far stands in the text at its recorded offset.\<close>

definition tokens_at :: "string \<Rightarrow> nat list \<Rightarrow> string list \<Rightarrow> bool" where
  "tokens_at sql starts texts = list_all2 (\<lambda>st t. st + length t \<le> length sql \<and> take (length t) (drop st sql) = t) starts texts"

lemma tokens_at_extend:
  "tokens_at sql starts texts \<Longrightarrow> tokens_at (sql @ gap @ t) (starts @ [length sql + length gap]) (texts @ [t])"
  unfolding tokens_at_def by (rule list_all2_appendI) (auto elim!: list_all2_mono)

lemma rebuild_tokens_at:
  "rebuild_tokens U prev sql starts tokens = (sql', Inr starts') \<Longrightarrow> tokens_at sql starts texts \<Longrightarrow>
   tokens_at sql' starts' (texts @ map tk_text (takeWhile (\<lambda>t. \<not> IsStatementEnd (tk_type t)) tokens))"
proof (induction U prev sql starts tokens arbitrary: texts rule: rebuild_tokens.induct)
  case (2 U prev sql starts token rest)
  show ?case
  proof (cases "IsStatementEnd (tk_type token)")
    case False
    note ne = False
    show ?thesis
    proof (cases prev)
      case None
      with 2 ne tokens_at_extend [OF 2(4), of "[]" "tk_text token"] show ?thesis by fastforce
    next
      case (Some p)
      let ?gap = "if JoinsWithoutSpace (tk_text p) (tk_text token) then [] else '' ''"
      have "rebuild_tokens U (Some token) (sql @ ?gap @ tk_text token) (starts @ [length sql + length ?gap]) rest
          = (sql', Inr starts')"
        using 2(3) ne Some by (auto simp: Let_def split: if_splits)
      with 2(2) [OF ne Some _ refl] 2(3) ne Some tokens_at_extend [OF 2(4), of ?gap "tk_text token"]
      show ?thesis by (fastforce simp: Let_def split: if_splits)
    qed
  qed (use 2 in simp)
qed simp

text \<open>
  A rebuilt statement is faithful to its tokens: when the rebuild succeeds, the text
  tokenizes to exactly as many tokens as the statement has before its end, and each of them
  stands in the text verbatim, at the offset where the tokenizer finds it.
\<close>

theorem rebuilt_statement_verbatim:
  assumes "QuackapiTokensToSql U tokenize tokens = (sql, Inr n)"
  shows "n = length (takeWhile (\<lambda>t. \<not> IsStatementEnd (tk_type t)) tokens) \<and> length (tokenize sql) = n \<and>
    (\<forall>i < n. take (length (tk_text (tokens ! i))) (drop (tokenize sql ! i) sql) = tk_text (tokens ! i))"
proof -
  let ?ts = "takeWhile (\<lambda>t. \<not> IsStatementEnd (tk_type t)) tokens"
  obtain starts where r: "rebuild_tokens U None [] [] tokens = (sql, Inr starts)"
    and t: "tokenize sql = starts" "n = length starts"
    using assms by (auto simp: QuackapiTokensToSql_def split: sum.splits if_splits prod.splits)
  have at: "tokens_at sql starts (map tk_text ?ts)"
    using rebuild_tokens_at [OF r, of "[]"] by (simp add: tokens_at_def)
  then have n: "n = length ?ts" using t by (auto simp: tokens_at_def dest: list_all2_lengthD)
  have "take (length (tk_text (tokens ! i))) (drop (tokenize sql ! i) sql) = tk_text (tokens ! i)"
    if "i < n" for i
    using list_all2_nthD2 [OF at [unfolded tokens_at_def], of i] that n t
    by (simp add: takeWhile_nth)
  with n t show ?thesis by simp
qed

definition drop_route_tokens :: "SimpleToken list" where
  "drop_route_tokens = [\<lparr>tk_type = OTHER_TOKEN 0, tk_text = ''DROP''\<rparr>,
     \<lparr>tk_type = OTHER_TOKEN 0, tk_text = ''ROUTE''\<rparr>, \<lparr>tk_type = OTHER_TOKEN 0, tk_text = ''r''\<rparr>,
     \<lparr>tk_type = TERMINATOR, tk_text = '';''\<rparr>]"

theorem rebuilt_statement_verbatim_witness:
  "QuackapiTokensToSql ascii_util (\<lambda>_. [0, 5, 11]) drop_route_tokens = (''DROP ROUTE r'', Inr 3) \<and>
   take 5 (drop 5 ''DROP ROUTE r'') = ''ROUTE''"
proof -
  have r: "QuackapiTokensToSql ascii_util (\<lambda>_. [0, 5, 11]) drop_route_tokens = (''DROP ROUTE r'', Inr 3)"
    by (simp add: QuackapiTokensToSql_def drop_route_tokens_def IsStatementEnd_def JoinsWithoutSpace_def)
  from rebuilt_statement_verbatim [OF r, THEN conjunct2, THEN conjunct2, rule_format, of 1]
  show ?thesis using r by (simp add: drop_route_tokens_def)
qed


section \<open>The budget is exact\<close>

text \<open>
  What the collector's comment relies on, for the rows of one result: rows and counts never
  serialize to less than the empty list and zero, and the size of the result's first rows is the
  size of the empty result, plus the additive payload of each row, plus the width of the count.
\<close>

definition row_delta :: "'v native_serializer \<Rightarrow> 'v list \<Rightarrow> nat" where
  "row_delta S row = unat (ns_rows S [row]) - unat (ns_rows S [])"

definition serializer_additive :: "'v native_serializer \<Rightarrow> 'v list list \<Rightarrow> bool" where
  "serializer_additive S all_rows \<longleftrightarrow>
     (\<forall>row \<in> set all_rows. ns_rows S [] \<le> ns_rows S [row]) \<and>
     (\<forall>n \<le> length all_rows. ns_count S 0 \<le> ns_count S n) \<and>
     (\<forall>n \<le> length all_rows. unat (ns_result S (take n all_rows)) = unat (ns_result S []) +
        sum_list (map (row_delta S) (take n all_rows)) + (unat (ns_count S n) - unat (ns_count S 0)))"

definition collector_inv :: "'v native_serializer \<Rightarrow> 'v QuackapiTypedRowCollector \<Rightarrow> bool" where
  "collector_inv S c \<longleftrightarrow> tc_empty_rows_bytes c = ns_rows S [] \<and> tc_empty_result_bytes c = ns_result S [] \<and>
     unat (tc_row_payload_bytes c) = sum_list (map (row_delta S) (tc_rows c))"

lemma unat_less_idx: "unat (x :: idx_t) < 2 ^ 64"
  using unsigned_less [where w = x] by simp

lemma unat_idx_diff: "(b :: idx_t) \<le> a \<Longrightarrow> unat (a - b) = unat a - unat b"
  by (simp add: unat_sub_if' word_le_nat_alt)

lemma SaturatingAdd_exact: "unat a + unat b < 2 ^ 64 \<Longrightarrow> unat (SaturatingAdd a b) = unat a + unat b"
  by (simp only: saturating_add_unat min_absorb1 less_eq_Suc_le)

lemma row_delta_unat:
  "serializer_additive S (pre @ row # post) \<Longrightarrow> unat (ns_rows S [row] - ns_rows S []) = row_delta S row"
  unfolding serializer_additive_def row_delta_def by (rule unat_idx_diff) simp

lemma count_delta_unat:
  assumes "serializer_additive S (pre @ row # post)"
  shows "ns_count S 0 \<le> ns_count S (Suc (length pre))"
    "unat (ns_count S (Suc (length pre)) - ns_count S 0) = unat (ns_count S (Suc (length pre))) - unat (ns_count S 0)"
proof -
  show "ns_count S 0 \<le> ns_count S (Suc (length pre))" using assms unfolding serializer_additive_def by simp
  then show "unat (ns_count S (Suc (length pre)) - ns_count S 0) = unat (ns_count S (Suc (length pre))) - unat (ns_count S 0)"
    by (rule unat_idx_diff)
qed

lemma result_snoc_unat:
  assumes "serializer_additive S (pre @ row # post)"
  shows "unat (ns_result S (pre @ [row])) = unat (ns_result S []) +
      (sum_list (map (row_delta S) pre) + row_delta S row) +
      (unat (ns_count S (Suc (length pre))) - unat (ns_count S 0))"
  using assms [unfolded serializer_additive_def, THEN conjunct2, THEN conjunct2, rule_format, of "Suc (length pre)"]
  by simp

lemma predicted_exact:
  assumes S: "serializer_additive S (tc_rows c @ row # post)" and c: "collector_inv S c"
  shows "SaturatingAdd (SaturatingAdd (SaturatingAdd (tc_empty_result_bytes c) (tc_row_payload_bytes c))
      (ns_rows S [row] - tc_empty_rows_bytes c)) (ns_count S (Suc (length (tc_rows c))) - ns_count S 0)
    = ns_result S (tc_rows c @ [row])"
proof -
  let ?n = "ns_count S (Suc (length (tc_rows c))) - ns_count S 0" and ?d = "ns_rows S [row] - tc_empty_rows_bytes c"
  let ?e = "tc_empty_result_bytes c" and ?p = "tc_row_payload_bytes c"
  have d: "unat ?d = row_delta S row" using row_delta_unat [OF S] c by (simp add: collector_inv_def)
  have p: "unat ?p = sum_list (map (row_delta S) (tc_rows c))" "unat ?e = unat (ns_result S [])"
    using c by (simp_all add: collector_inv_def)
  have r: "unat ?e + unat ?p + unat ?d + unat ?n = unat (ns_result S (tc_rows c @ [row]))"
    using result_snoc_unat [OF S] count_delta_unat(2) [OF S] d p by presburger
  then have lt: "unat ?e + unat ?p + unat ?d + unat ?n < 2 ^ 64" using unat_less_idx by presburger
  have 1: "unat (SaturatingAdd ?e ?p) = unat ?e + unat ?p" by (rule SaturatingAdd_exact) (use lt in linarith)
  have 2: "unat (SaturatingAdd (SaturatingAdd ?e ?p) ?d) = unat ?e + unat ?p + unat ?d"
    using SaturatingAdd_exact [of "SaturatingAdd ?e ?p" ?d] 1 lt by linarith
  have "unat (SaturatingAdd (SaturatingAdd (SaturatingAdd ?e ?p) ?d) ?n) = unat ?e + unat ?p + unat ?d + unat ?n"
    using SaturatingAdd_exact [of "SaturatingAdd (SaturatingAdd ?e ?p) ?d" ?n] 2 lt by linarith
  then show ?thesis unfolding r by (rule word_unat_eq_iff [THEN iffD2])
qed

lemma payload_exact:
  assumes S: "serializer_additive S (tc_rows c @ row # post)" and c: "collector_inv S c"
  shows "unat (SaturatingAdd (tc_row_payload_bytes c) (ns_rows S [row] - tc_empty_rows_bytes c)) =
    sum_list (map (row_delta S) (tc_rows c)) + row_delta S row"
proof -
  have d: "unat (ns_rows S [row] - tc_empty_rows_bytes c) = row_delta S row"
    "unat (tc_row_payload_bytes c) = sum_list (map (row_delta S) (tc_rows c))"
    using row_delta_unat [OF S] c by (simp_all add: collector_inv_def)
  have "sum_list (map (row_delta S) (tc_rows c)) + row_delta S row \<le> unat (ns_result S (tc_rows c @ [row]))"
    using result_snoc_unat [OF S] by linarith
  then have "sum_list (map (row_delta S) (tc_rows c)) + row_delta S row < 2 ^ 64"
    using unat_less_idx le_less_trans by blast
  then show ?thesis unfolding d [symmetric] by (rule SaturatingAdd_exact)
qed

lemma AppendRow_exact:
  assumes S: "serializer_additive S (tc_rows c @ row # post)" and c: "collector_inv S c"
    and "length row = tc_column_count c"
  shows "AppendRow S row c = (if ns_result S (tc_rows c @ [row]) > tc_max_bytes c then Inl rows_too_large
    else Inr (c\<lparr>tc_row_payload_bytes := SaturatingAdd (tc_row_payload_bytes c)
        (ns_rows S [row] - tc_empty_rows_bytes c), tc_rows := tc_rows c @ [row]\<rparr>))"
proof -
  have "\<not> ns_rows S [row] < tc_empty_rows_bytes c"
    using S c unfolding serializer_additive_def collector_inv_def by (simp only: not_less) simp
  moreover have "\<not> ns_count S (Suc (length (tc_rows c))) < ns_count S 0"
    using count_delta_unat(1) [OF S] by (simp only: not_less)
  ultimately show ?thesis using assms(3) by (simp add: AppendRow_def Let_def predicted_exact [OF S c])
qed

lemma collector_inv_append:
  assumes "serializer_additive S (tc_rows c @ row # post)" "collector_inv S c"
  shows "collector_inv S (c\<lparr>tc_row_payload_bytes := SaturatingAdd (tc_row_payload_bytes c)
    (ns_rows S [row] - tc_empty_rows_bytes c), tc_rows := tc_rows c @ [row]\<rparr>)"
  using assms(2) payload_exact [OF assms] by (simp add: collector_inv_def)

lemma append_rows_exact:
  assumes "serializer_additive S (tc_rows c @ rows @ post)" "collector_inv S c"
    "\<forall>r \<in> set rows. length r = tc_column_count c" "append_rows S rows c = Inr c'"
  shows "tc_rows c' = tc_rows c @ rows \<and> collector_inv S c' \<and> tc_max_bytes c' = tc_max_bytes c \<and>
    (rows \<noteq> [] \<longrightarrow> ns_result S (tc_rows c') \<le> tc_max_bytes c)"
  using assms
proof (induction rows arbitrary: c)
  case (Cons r rows)
  let ?c = "c\<lparr>tc_row_payload_bytes := SaturatingAdd (tc_row_payload_bytes c)
    (ns_rows S [r] - tc_empty_rows_bytes c), tc_rows := tc_rows c @ [r]\<rparr>"
  have S: "serializer_additive S (tc_rows c @ r # rows @ post)" using Cons.prems(1) by simp
  have a: "AppendRow S r c = Inr ?c" "ns_result S (tc_rows c @ [r]) \<le> tc_max_bytes c"
    using AppendRow_exact [OF S Cons.prems(2)] Cons.prems(3,4)
    by (auto simp: not_less split: if_splits)
  from Cons.IH [OF _ collector_inv_append [OF S Cons.prems(2)]] S Cons.prems(3,4) a
  show ?case by (cases "rows = []") auto
qed simp

lemma append_rows_prefix_error: "append_rows S xs c = Inl e \<Longrightarrow> append_rows S (xs @ ys) c = Inl e"
  by (induction xs arbitrary: c) (auto split: sum.splits)

lemma append_rows_too_large:
  assumes "serializer_additive S (tc_rows c @ rows @ post)" "collector_inv S c"
    "\<forall>r \<in> set rows. length r = tc_column_count c" "append_rows S rows c = Inl e"
  shows "e = rows_too_large \<and>
    (\<exists>k \<le> length rows. ns_result S (tc_rows c @ take k rows) > tc_max_bytes c)"
  using assms
proof (induction rows arbitrary: c)
  case (Cons r rows)
  have S: "serializer_additive S (tc_rows c @ r # rows @ post)" using Cons.prems(1) by simp
  note step = AppendRow_exact [OF S Cons.prems(2)]
  show ?case
  proof (cases "ns_result S (tc_rows c @ [r]) > tc_max_bytes c")
    case True
    with step Cons.prems(3,4) show ?thesis by (auto intro!: exI [of _ "Suc 0"])
  next
    case False
    from Cons.IH [OF _ collector_inv_append [OF S Cons.prems(2)]] S False step Cons.prems(3,4)
    have "e = rows_too_large \<and> (\<exists>k \<le> length rows. ns_result S (tc_rows c @ r # take k rows) > tc_max_bytes c)"
      by auto
    then show ?thesis by (metis Suc_le_mono length_Cons take_Suc_Cons)
  qed
qed simp

text \<open>
  The collector's running prediction is exact: for a result delivered as one chunk whose rows
  match the schema, the rows come back unchanged if the native serialization of every prefix of
  the result fits the limit, and otherwise the answer is the too-large error, raised at the first
  row that would exceed it; the final check never rejects what the prediction accepted.
\<close>

theorem typed_rows_budget_exact:
  assumes "serializer_additive S rows" "length names = length types" "\<forall>r \<in> set rows. length r = length names"
    "ns_result S [] \<le> max_bytes"
  shows "QuackapiTypedRowsFromResult S names types [(length names, rows)] max_bytes =
    (if \<forall>k \<le> length rows. ns_result S (take k rows) \<le> max_bytes then Inr rows else Inl rows_too_large)"
proof -
  let ?c = "\<lparr>tc_column_count = length names, tc_rows = [], tc_max_bytes = max_bytes,
    tc_empty_rows_bytes = ns_rows S [], tc_empty_result_bytes = ns_result S [], tc_row_payload_bytes = 0\<rparr>"
  have i: "collector_inv S ?c" by (simp add: collector_inv_def)
  have S: "serializer_additive S (tc_rows ?c @ rows @ [])" using assms(1) by simp
  have run: "QuackapiTypedRowsFromResult S names types [(length names, rows)] max_bytes =
      (case append_rows S rows ?c of Inl e \<Rightarrow> Inl e | Inr c \<Rightarrow> Finish S c)"
    using assms(2) by (simp add: QuackapiTypedRowsFromResult_def new_collector_def AppendChunk_def split: sum.splits)
  show ?thesis
  proof (cases "append_rows S rows ?c")
    case (Inl e)
    with append_rows_too_large [OF S i _ Inl] assms(3) run show ?thesis
      by (auto simp: not_le [symmetric])
  next
    case (Inr c)
    have e: "append_rows S (take k rows) ?c \<noteq> Inl x" for k x
      using append_rows_prefix_error [of S "take k rows" ?c x "drop k rows"] Inr by auto
    have p: "ns_result S (take k rows) \<le> max_bytes" for k
    proof -
      obtain c' where c': "append_rows S (take k rows) ?c = Inr c'" using e by (cases "append_rows S (take k rows) ?c") auto
      have "\<forall>r \<in> set (take k rows). length r = tc_column_count ?c"
        using assms(3) by (auto dest: in_set_takeD)
      from append_rows_exact [OF _ i this c', of "drop k rows"] assms(1,4) show ?thesis
        by (cases "take k rows = []") auto
    qed
    from append_rows_exact [OF S i _ Inr] assms(3) p [of "length rows"] run Inr p show ?thesis
      by (simp add: Finish_def not_le [symmetric])
  qed
qed

text \<open>A format with one byte for each value, one for each row list and one for the count.\<close>

definition byte_serializer :: "nat native_serializer" where
  "byte_serializer = \<lparr>ns_rows = (\<lambda>rows. of_nat (1 + sum_list (map length rows))), 
     ns_result = (\<lambda>rows. of_nat (2 + sum_list (map length rows))), ns_count = (\<lambda>_. 1)\<rparr>"

lemma byte_serializer_additive: "serializer_additive byte_serializer [[7, 8], [9, 10]]"
proof -
  have *: "n \<le> Suc (Suc 0) \<longleftrightarrow> n = 0 \<or> n = Suc 0 \<or> n = Suc (Suc 0)" for n :: nat by auto
  show ?thesis
    unfolding serializer_additive_def row_delta_def byte_serializer_def by (auto simp: *)
qed

theorem typed_rows_budget_exact_witness:
  "QuackapiTypedRowsFromResult byte_serializer [''a'', ''b''] [''INT'', ''INT''] [(length [''a'', ''b''], [[7, 8], [9, 10]])] 5 = Inl rows_too_large \<and>
   QuackapiTypedRowsFromResult byte_serializer [''a'', ''b''] [''INT'', ''INT''] [(length [''a'', ''b''], [[7, 8], [9, 10]])] 6 = Inr [[7, 8], [9, 10]]"
proof -
  have r: "ns_result byte_serializer (take k [[7, 8], [9, 10 :: nat]]) = (if k = 0 then 2 else if k = 1 then 4 else 6)" for k
    by (cases k; cases "k - 1") (auto simp: byte_serializer_def)
  have *: "(\<forall>k \<le> Suc (Suc 0). P k) \<longleftrightarrow> P 0 \<and> P (Suc 0) \<and> P (Suc (Suc 0))" for P by (auto simp: le_Suc_eq)
  show ?thesis
    using typed_rows_budget_exact [OF byte_serializer_additive, of "[''a'', ''b'']" "[''INT'', ''INT'']" 5]
      typed_rows_budget_exact [OF byte_serializer_additive, of "[''a'', ''b'']" "[''INT'', ''INT'']" 6] r [of 0]
    by (simp add: r [simplified] *)
qed

end
