(* ===== verification/Json.thy ===== *)
theory Json
  imports Util
begin

text \<open>
  The JSON reader and the declared body structures of \<open>quackapi_validation.cpp\<close>: the reader for
  declared structures and request bodies, locations of validation errors as JSON paths, the
  OpenAPI text of a declared structure, and the replacement of \<open>VARIANT\<close> leaves.

  The reader keeps an input and a position; the model keeps the input from the position on, and a
  failed read (\<open>false\<close>) is \<open>None\<close>. \<open>ParseValue n\<close> reads a value at nesting depth
  \<open>MAX_NESTING_DEPTH - n\<close>. Types and type constructors of DuckDB are a parameter.
\<close>

unbundle bit_operations_syntax

section \<open>The reader\<close>

datatype JsonNodeKind = NIL | BOOL | NUMBER | STRING | ARRAY | OBJECT

datatype JsonNode = JsonNode (jn_kind: JsonNodeKind) (jn_scalar: string)
  (jn_children: "JsonNode list") (jn_members: "(string \<times> JsonNode) list")

type_synonym 'a reader = "string \<Rightarrow> ('a \<times> string) option"

definition MAX_NESTING_DEPTH :: nat where
  "MAX_NESTING_DEPTH = 128"

definition json_space :: "char \<Rightarrow> bool" where
  "json_space c = (c = CHR '' '' \<or> c = CHR 0x0A \<or> c = CHR 0x0D \<or> c = CHR 0x09)"

definition SkipWhitespace :: "string \<Rightarrow> string" where
  "SkipWhitespace s = dropWhile json_space s"

definition Consume :: "char \<Rightarrow> string \<Rightarrow> string option" where
  "Consume expected s =
     (case SkipWhitespace s of [] \<Rightarrow> None | c # rest \<Rightarrow> if c \<noteq> expected then None else Some rest)"

definition HexValue :: "char \<Rightarrow> int" where
  "HexValue c = (let b = int (byte c) in
     if 48 \<le> b \<and> b \<le> 57 then b - 48
     else if 97 \<le> b \<and> b \<le> 102 then 10 + b - 97
     else if 65 \<le> b \<and> b \<le> 70 then 10 + b - 65
     else - 1)"

definition word_char :: "32 word \<Rightarrow> char" where
  "word_char w = char_of (unat w)"

definition AppendUtf8 :: "string \<Rightarrow> 32 word \<Rightarrow> string" where
  "AppendUtf8 target codepoint =
     (if codepoint \<le> 0x7F then target @ [word_char codepoint]
      else if codepoint \<le> 0x7FF then
        target @ [word_char (0xC0 OR drop_bit 6 codepoint), word_char (0x80 OR (codepoint AND 0x3F))]
      else if codepoint \<le> 0xFFFF then
        target @ [word_char (0xE0 OR drop_bit 12 codepoint),
          word_char (0x80 OR (drop_bit 6 codepoint AND 0x3F)), word_char (0x80 OR (codepoint AND 0x3F))]
      else
        target @ [word_char (0xF0 OR drop_bit 18 codepoint),
          word_char (0x80 OR (drop_bit 12 codepoint AND 0x3F)),
          word_char (0x80 OR (drop_bit 6 codepoint AND 0x3F)), word_char (0x80 OR (codepoint AND 0x3F))])"

fun hex_digits :: "nat \<Rightarrow> 32 word \<Rightarrow> (32 word) reader" where
  "hex_digits 0 codepoint s = Some (codepoint, s)"
| "hex_digits (Suc i) codepoint [] = None"
| "hex_digits (Suc i) codepoint (c # s) =
     (if HexValue c < 0 then None
      else hex_digits i (push_bit 4 codepoint OR word_of_int (HexValue c)) s)"

definition ParseUnicodeEscape :: "(32 word) reader" where
  "ParseUnicodeEscape s = (if length s < 4 then None else hex_digits 4 0 s)"

text \<open>The code point of a \<open>u\<close> escape; a high surrogate takes the escape that follows as its low half.\<close>

definition escaped_codepoint :: "(32 word) reader" where
  "escaped_codepoint s = (case ParseUnicodeEscape s of
       None \<Rightarrow> None
     | Some (codepoint, s') \<Rightarrow>
         if 0xD800 \<le> codepoint \<and> codepoint \<le> 0xDBFF \<and> 6 \<le> length s' \<and> s' ! 0 = CHR 0x5C \<and> s' ! 1 = CHR ''u''
         then (case ParseUnicodeEscape (drop 2 s') of
             None \<Rightarrow> None
           | Some (low, s'') \<Rightarrow>
               if low < 0xDC00 \<or> low > 0xDFFF then None
               else Some (0x10000 + push_bit 10 (codepoint - 0xD800) + (low - 0xDC00), s''))
         else Some (codepoint, s'))"

definition simple_escape :: "char \<Rightarrow> char option" where
  "simple_escape c =
     (if c = CHR 0x22 \<or> c = CHR 0x5C \<or> c = CHR ''/'' then Some c
      else if c = CHR ''b'' then Some (CHR 0x08)
      else if c = CHR ''f'' then Some (CHR 0x0C)
      else if c = CHR ''n'' then Some (CHR 0x0A)
      else if c = CHR ''r'' then Some (CHR 0x0D)
      else if c = CHR ''t'' then Some (CHR 0x09)
      else None)"

lemma hex_digits_length: "hex_digits n w s = Some (w', s') \<Longrightarrow> length s' \<le> length s"
  by (induction n w s rule: hex_digits.induct) (auto split: if_splits)

lemma ParseUnicodeEscape_length: "ParseUnicodeEscape s = Some (w, s') \<Longrightarrow> length s' \<le> length s"
  by (auto simp: ParseUnicodeEscape_def hex_digits_length split: if_splits)

lemma escaped_codepoint_length: "escaped_codepoint s = Some (w, s') \<Longrightarrow> length s' \<le> length s"
  by (fastforce simp: escaped_codepoint_def dest: ParseUnicodeEscape_length split: option.splits if_splits)

function (sequential) string_chars :: "string \<Rightarrow> string reader" where
  "string_chars acc [] = None"
| "string_chars acc (c # s) =
     (if c = CHR 0x22 then Some (acc, s)
      else if byte c < 0x20 then None
      else if c \<noteq> CHR 0x5C then string_chars (acc @ [c]) s
      else case s of
          [] \<Rightarrow> None
        | escaped # s' \<Rightarrow>
            if escaped = CHR ''u'' then
              (case escaped_codepoint s' of
                 None \<Rightarrow> None
               | Some (codepoint, s'') \<Rightarrow> string_chars (AppendUtf8 acc codepoint) s'')
            else (case simple_escape escaped of None \<Rightarrow> None | Some r \<Rightarrow> string_chars (acc @ [r]) s'))"
  by pat_completeness auto
termination
  by (relation "measure (\<lambda>(acc, s). length s)") (auto dest: escaped_codepoint_length)

definition ParseString :: "string reader" where
  "ParseString s = (case Consume (CHR 0x22) s of None \<Rightarrow> None | Some s' \<Rightarrow> string_chars [] s')"

definition number_char :: "char \<Rightarrow> bool" where
  "number_char c = (is_digit c \<or> c = CHR ''.'' \<or> c = CHR ''e'' \<or> c = CHR ''E'' \<or> c = CHR ''+'' \<or> c = CHR ''-'')"

text \<open>
  The element loops. Reading an element always consumes input, so the length test that makes the
  recursion well-founded never decides: see \<open>array_loop_unguarded\<close> and \<open>object_loop_unguarded\<close>.
\<close>

function array_loop :: "JsonNode reader \<Rightarrow> JsonNode list \<Rightarrow> (JsonNode list) reader" where
  "array_loop pv acc s = (case pv s of
       None \<Rightarrow> None
     | Some (child, s1) \<Rightarrow> (case SkipWhitespace s1 of
           [] \<Rightarrow> None
         | c # s2 \<Rightarrow>
             if c = CHR '']'' then Some (acc @ [child], s2)
             else if c \<noteq> CHR '','' then None
             else if length s2 < length s then array_loop pv (acc @ [child]) s2 else None))"
  by pat_completeness auto
termination
  by (relation "measure (\<lambda>(pv, acc, s). length s)") auto

declare array_loop.simps [simp del]

definition ParseArray :: "JsonNode reader \<Rightarrow> JsonNode reader" where
  "ParseArray pv s = (case Consume (CHR ''['') s of
       None \<Rightarrow> None
     | Some s1 \<Rightarrow> (let s2 = SkipWhitespace s1 in
         if s2 \<noteq> [] \<and> hd s2 = CHR '']'' then Some (JsonNode ARRAY [] [] [], tl s2)
         else map_option (\<lambda>(children, s3). (JsonNode ARRAY [] children [], s3)) (array_loop pv [] s2)))"

function object_loop :: "JsonNode reader \<Rightarrow> (string \<times> JsonNode) list \<Rightarrow> ((string \<times> JsonNode) list) reader" where
  "object_loop pv acc s = (case ParseString s of
       None \<Rightarrow> None
     | Some (key, s1) \<Rightarrow> (case Consume (CHR '':'') s1 of
           None \<Rightarrow> None
         | Some s2 \<Rightarrow> (case pv s2 of
               None \<Rightarrow> None
             | Some (val, s3) \<Rightarrow> (case SkipWhitespace s3 of
                   [] \<Rightarrow> None
                 | c # s4 \<Rightarrow>
                     if c = CHR ''}'' then Some (acc @ [(key, val)], s4)
                     else if c \<noteq> CHR '','' then None
                     else if length s4 < length s then object_loop pv (acc @ [(key, val)]) s4 else None))))"
  by pat_completeness auto
termination
  by (relation "measure (\<lambda>(pv, acc, s). length s)") auto

declare object_loop.simps [simp del]

definition ParseObject :: "JsonNode reader \<Rightarrow> JsonNode reader" where
  "ParseObject pv s = (case Consume (CHR ''{'') s of
       None \<Rightarrow> None
     | Some s1 \<Rightarrow> (let s2 = SkipWhitespace s1 in
         if s2 \<noteq> [] \<and> hd s2 = CHR ''}'' then Some (JsonNode OBJECT [] [] [], tl s2)
         else map_option (\<lambda>(members, s3). (JsonNode OBJECT [] [] members, s3)) (object_loop pv [] s2)))"

definition value_with :: "JsonNode reader \<Rightarrow> JsonNode reader \<Rightarrow> JsonNode reader" where
  "value_with parse_object parse_array s0 = (case SkipWhitespace s0 of
       [] \<Rightarrow> None
     | c # s1 \<Rightarrow> let s = c # s1 in
         if c = CHR 0x22 then map_option (\<lambda>(scalar, s'). (JsonNode STRING scalar [] [], s')) (ParseString s)
         else if c = CHR ''{'' then parse_object s
         else if c = CHR ''['' then parse_array s
         else if prefix ''true'' s \<or> prefix ''false'' s then
           Some (JsonNode BOOL [] [] [], drop (if prefix ''true'' s then 4 else 5) s)
         else if prefix ''null'' s then Some (JsonNode NIL [] [] [], drop 4 s)
         else if c = CHR ''-'' \<or> is_digit c then
           Some (JsonNode NUMBER (c # takeWhile number_char s1) [] [], dropWhile number_char s1)
         else None)"

primrec ParseValue :: "nat \<Rightarrow> JsonNode reader" where
  "ParseValue 0 = value_with (\<lambda>_. None) (\<lambda>_. None)"
| "ParseValue (Suc n) = value_with (ParseObject (ParseValue n)) (ParseArray (ParseValue n))"

definition ParseDocument :: "string \<Rightarrow> JsonNode option" where
  "ParseDocument s = (case ParseValue MAX_NESTING_DEPTH (SkipWhitespace s) of
       None \<Rightarrow> None
     | Some (result, s') \<Rightarrow> if SkipWhitespace s' = [] then Some result else None)"

section \<open>Locations\<close>

definition IsCanonicalArrayIndex :: "string \<Rightarrow> bool" where
  "IsCanonicalArrayIndex segment =
     (if segment = [] \<or> (length segment > 1 \<and> hd segment = CHR ''0'') then False
      else list_all is_digit segment)"

fun DecodeJsonPointerSegment :: "string \<Rightarrow> string" where
  "DecodeJsonPointerSegment [] = []"
| "DecodeJsonPointerSegment [c] = [c]"
| "DecodeJsonPointerSegment (c # d # rest) =
     (if c = CHR ''~'' \<and> d = CHR ''0'' then CHR ''~'' # DecodeJsonPointerSegment rest
      else if c = CHR ''~'' \<and> d = CHR ''1'' then CHR ''/'' # DecodeJsonPointerSegment rest
      else c # DecodeJsonPointerSegment (d # rest))"

definition FindMember :: "JsonNode \<Rightarrow> string \<Rightarrow> JsonNode option" where
  "FindMember node name = map_option snd (List.find (\<lambda>m. fst m = name) (jn_members node))"

fun index_loop :: "idx_t \<Rightarrow> string \<Rightarrow> idx_t" where
  "index_loop index [] = index"
| "index_loop index (c # rest) =
     (let digit = word_of_int (int (byte c) - 48) in
      if index > (- 1 - digit) div 10 then - 1 else index_loop (index * 10 + digit) rest)"

definition ParseIndex :: "string \<Rightarrow> idx_t" where
  "ParseIndex segment = index_loop 0 segment"

text \<open>The elements of a list, separated by commas.\<close>

fun comma_list :: "string list \<Rightarrow> string" where
  "comma_list [] = []"
| "comma_list [x] = x"
| "comma_list (x # y # xs) = x @ '','' @ comma_list (y # xs)"

definition json_quote :: "string \<Rightarrow> string" where
  "json_quote s = [CHR 0x22] @ QuackapiJsonEscape s @ [CHR 0x22]"

text \<open>One segment of the pointer: its text in the location, and where the walk continues.\<close>

definition loc_step :: "JsonNode option \<Rightarrow> string \<Rightarrow> string \<times> JsonNode option" where
  "loc_step current raw_segment = (let segment = DecodeJsonPointerSegment raw_segment in
     (case current of
        Some node \<Rightarrow>
          if jn_kind node = ARRAY \<and> IsCanonicalArrayIndex segment then
            (segment, let index = unat (ParseIndex segment) in
                      if index < length (jn_children node) then Some (jn_children node ! index) else None)
          else (json_quote segment, if jn_kind node = OBJECT then FindMember node segment else None)
      | None \<Rightarrow> (json_quote segment, None)))"

text \<open>The loop that cuts the pointer at each slash, and the walk over its segments.\<close>

function split_slash :: "string \<Rightarrow> string list" where
  "split_slash s = (case dropWhile (\<lambda>c. c \<noteq> CHR ''/'') s of
       [] \<Rightarrow> [s]
     | _ # rest \<Rightarrow> takeWhile (\<lambda>c. c \<noteq> CHR ''/'') s # split_slash rest)"
  by pat_completeness auto
termination
proof (relation "measure length")
  fix s rest :: string and c
  assume "dropWhile (\<lambda>c. c \<noteq> CHR ''/'') s = c # rest"
  then show "(rest, s) \<in> measure length"
    using length_dropWhile_le [of "\<lambda>c. c \<noteq> CHR ''/''" s] by simp
qed simp

declare split_slash.simps [simp del]

fun loc_walk :: "JsonNode option \<Rightarrow> string list \<Rightarrow> string" where
  "loc_walk current [] = []"
| "loc_walk current (raw_segment # rest) =
     (case loc_step current raw_segment of (text, next) \<Rightarrow> '','' @ text @ loc_walk next rest)"

definition QuackapiValidationBodyPointerLoc :: "string \<Rightarrow> string \<Rightarrow> string" where
  "QuackapiValidationBodyPointerLoc pointer json_body =
     (if pointer = [] then ''['' @ json_quote ''body'' @ '']''
      else let current = ParseDocument json_body;
               start = (if hd pointer = CHR ''/'' then 1 else 0) in
        ''['' @ json_quote ''body'' @ loc_walk current (split_slash (drop start pointer)) @ '']'')"

record QuackapiValidationIssue =
  vi_loc_json :: string
  vi_message :: string
  vi_type :: string

text \<open>A member of an object whose key needs no escapes, as the string constants of the source spell it.\<close>

definition json_member :: "string \<Rightarrow> string \<Rightarrow> string" where
  "json_member key val = [CHR 0x22] @ key @ [CHR 0x22] @ '':'' @ val"

definition QuackapiValidationErrorsJson :: "QuackapiValidationIssue list \<Rightarrow> string" where
  "QuackapiValidationErrorsJson issues =
     ''{'' @ json_member ''detail'' (''['' @
       comma_list (map (\<lambda>issue. ''{'' @ json_member ''loc'' (vi_loc_json issue) @ '','' @
         json_member ''msg'' (json_quote (vi_message issue)) @ '','' @
         json_member ''type'' (json_quote (vi_type issue)) @ ''}'') issues) @ '']'') @ ''}''"

section \<open>Declared structures\<close>

definition upper_trim :: "string_util \<Rightarrow> string \<Rightarrow> string" where
  "upper_trim U s = su_upper U (su_trim U s)"

definition type_object :: "string \<Rightarrow> string" where
  "type_object t = ''{'' @ json_member ''type'' (json_quote t) @ ''}''"

definition type_format_object :: "string \<Rightarrow> string \<Rightarrow> string" where
  "type_format_object t f =
     ''{'' @ json_member ''type'' (json_quote t) @ '','' @ json_member ''format'' (json_quote f) @ ''}''"

definition TransformScalarToOpenApi :: "string_util \<Rightarrow> string \<Rightarrow> string" where
  "TransformScalarToOpenApi U declared_type = (let type = upper_trim U declared_type in
     if type \<in> {''BOOLEAN'', ''BOOL''} then type_object ''boolean''
     else if type \<in> {''TINYINT'', ''SMALLINT'', ''INTEGER'', ''INT'', ''UTINYINT'', ''USMALLINT''} then
       type_format_object ''integer'' ''int32''
     else if type \<in> {''BIGINT'', ''UINTEGER''} then type_format_object ''integer'' ''int64''
     else if type \<in> {''HUGEINT'', ''UBIGINT'', ''UHUGEINT''} then type_object ''integer''
     else if type \<in> {''FLOAT'', ''REAL''} then type_format_object ''number'' ''float''
     else if type = ''DOUBLE'' \<or> su_starts_with U type ''DECIMAL'' \<or> su_starts_with U type ''NUMERIC'' then
       type_object ''number''
     else if type = ''DATE'' then type_format_object ''string'' ''date''
     else if su_starts_with U type ''TIMESTAMP'' then type_format_object ''string'' ''date-time''
     else if type = ''UUID'' then type_format_object ''string'' ''uuid''
     else if type \<in> {''JSON'', ''ANY'', ''VARIANT''} then ''{}''
     else type_object ''string'')"

fun TransformNodeToOpenApi :: "string_util \<Rightarrow> JsonNode \<Rightarrow> string" where
  "TransformNodeToOpenApi U (JsonNode STRING scalar _ _) = TransformScalarToOpenApi U scalar"
| "TransformNodeToOpenApi U (JsonNode ARRAY _ children _) =
     ''{'' @ json_member ''type'' (json_quote ''array'') @ '','' @
       json_member ''items'' (case children of [] \<Rightarrow> ''{}'' | child # _ \<Rightarrow> TransformNodeToOpenApi U child) @ ''}''"
| "TransformNodeToOpenApi U (JsonNode OBJECT _ _ members) =
     ''{'' @ json_member ''type'' (json_quote ''object'') @ '','' @ json_member ''properties''
       (''{'' @ comma_list (map (\<lambda>m. json_quote (fst m) @ '':'' @ TransformNodeToOpenApi U (snd m)) members) @ ''}'')
       @ ''}''"
| "TransformNodeToOpenApi U _ = ''{}''"

fun TransformNodeHasVariant :: "string_util \<Rightarrow> JsonNode \<Rightarrow> bool" where
  "TransformNodeHasVariant U (JsonNode kind scalar children members) =
     ((kind = STRING \<and> upper_trim U scalar = ''VARIANT'') \<or>
      (\<exists>child \<in> set children. TransformNodeHasVariant U child) \<or>
      (\<exists>m \<in> set members. TransformNodeHasVariant U (snd m)))"

fun SerializeTransformNode :: "string_util \<Rightarrow> JsonNode \<Rightarrow> bool \<Rightarrow> string" where
  "SerializeTransformNode U (JsonNode kind scalar children members) replace_variant =
     (case kind of
        NIL \<Rightarrow> ''null''
      | BOOL \<Rightarrow> scalar
      | NUMBER \<Rightarrow> scalar
      | STRING \<Rightarrow> json_quote (if replace_variant \<and> upper_trim U scalar = ''VARIANT'' then ''JSON'' else scalar)
      | ARRAY \<Rightarrow> ''['' @ comma_list (map (\<lambda>c. SerializeTransformNode U c replace_variant) children) @ '']''
      | OBJECT \<Rightarrow> ''{'' @ comma_list (map (\<lambda>m. json_quote (fst m) @ '':'' @
            SerializeTransformNode U (snd m) replace_variant) members) @ ''}'')"

definition FindTransformMember :: "string_util \<Rightarrow> JsonNode \<Rightarrow> string \<Rightarrow> JsonNode option" where
  "FindTransformMember U node name =
     map_option snd (List.find (\<lambda>m. su_ci_equals U (fst m) name) (jn_members node))"

text \<open>What the sources use of DuckDB's logical types: which nested type it is, with its parts, and the constructors.\<close>

datatype 'ty type_view = STRUCT_VIEW "(string \<times> 'ty) list" | LIST_VIEW 'ty | ARRAY_VIEW 'ty nat | OTHER_VIEW

record 'ty logical_types =
  lt_view :: "'ty \<Rightarrow> 'ty type_view"
  lt_variant :: 'ty
  lt_struct :: "(string \<times> 'ty) list \<Rightarrow> 'ty"
  lt_list :: "'ty \<Rightarrow> 'ty"
  lt_array :: "'ty \<Rightarrow> nat \<Rightarrow> 'ty"

lemma FindTransformMember_size:
  assumes "FindTransformMember U node name = Some d"
  shows "size d < size node"
proof -
  obtain k s cs ms where n: "node = JsonNode k s cs ms" by (cases node)
  from assms obtain m where "m \<in> set ms" "d = snd m"
    by (auto simp: FindTransformMember_def n dest: find_SomeD)
  then have "size d < size_list (\<lambda>x. Suc (size (snd x))) ms"
    by (induction ms) auto
  with n show ?thesis by (simp add: size_prod_simp)
qed

function RestoreVariantLeaves :: "string_util \<Rightarrow> 'ty logical_types \<Rightarrow> 'ty \<Rightarrow> JsonNode \<Rightarrow> 'ty" where
  "RestoreVariantLeaves U L intermediate_type declaration =
     (if jn_kind declaration = STRING then
        (if upper_trim U (jn_scalar declaration) = ''VARIANT'' then lt_variant L else intermediate_type)
      else case lt_view L intermediate_type of
          STRUCT_VIEW children \<Rightarrow>
            if jn_kind declaration = OBJECT then
              lt_struct L (map (\<lambda>(name, ty). (name, case FindTransformMember U declaration name of
                  None \<Rightarrow> ty | Some d \<Rightarrow> RestoreVariantLeaves U L ty d)) children)
            else intermediate_type
        | LIST_VIEW child \<Rightarrow>
            (case declaration of JsonNode ARRAY _ (d # _) _ \<Rightarrow> lt_list L (RestoreVariantLeaves U L child d)
             | _ \<Rightarrow> intermediate_type)
        | ARRAY_VIEW child n \<Rightarrow>
            (case declaration of JsonNode ARRAY _ (d # _) _ \<Rightarrow> lt_array L (RestoreVariantLeaves U L child d) n
             | _ \<Rightarrow> intermediate_type)
        | OTHER_VIEW \<Rightarrow> intermediate_type)"
  by pat_completeness auto
termination
  by (relation "measure (\<lambda>(U, L, ty, d). size d)") (auto dest: FindTransformMember_size)

declare RestoreVariantLeaves.simps [simp del]

definition QuackapiDuckdbTransformToOpenApi :: "string_util \<Rightarrow> string \<Rightarrow> string" where
  "QuackapiDuckdbTransformToOpenApi U body_type =
     (case ParseDocument body_type of None \<Rightarrow> ''{}'' | Some structure \<Rightarrow> TransformNodeToOpenApi U structure)"

definition QuackapiDuckdbTransformHasVariant :: "string_util \<Rightarrow> string \<Rightarrow> bool" where
  "QuackapiDuckdbTransformHasVariant U body_type =
     (case ParseDocument body_type of None \<Rightarrow> False | Some structure \<Rightarrow> TransformNodeHasVariant U structure)"

text \<open>\<open>None\<close> is the answer \<open>false\<close>, which leaves the output argument as it was.\<close>

definition QuackapiDuckdbTransformVariantLeavesAsJson :: "string_util \<Rightarrow> string \<Rightarrow> string option" where
  "QuackapiDuckdbTransformVariantLeavesAsJson U body_type = (case ParseDocument body_type of
       None \<Rightarrow> None
     | Some structure \<Rightarrow>
         if \<not> TransformNodeHasVariant U structure then None
         else Some (SerializeTransformNode U structure True))"

definition QuackapiDuckdbTransformRestoreVariantLeaves ::
  "string_util \<Rightarrow> 'ty logical_types \<Rightarrow> 'ty \<Rightarrow> string \<Rightarrow> 'ty option" where
  "QuackapiDuckdbTransformRestoreVariantLeaves U L intermediate_type body_type = (case ParseDocument body_type of
       None \<Rightarrow> None
     | Some structure \<Rightarrow>
         if \<not> TransformNodeHasVariant U structure then None
         else Some (RestoreVariantLeaves U L intermediate_type structure))"

section \<open>Strings are read back\<close>

lemma HexValue_hex_digit: "n < 16 \<Longrightarrow> HexValue (hex_digit n) = int n"
  by (auto simp: HexValue_def hex_digit_def Let_def)

lemma low_byte_parts:
  "push_bit 4 (word_of_nat (n div 16)) OR word_of_nat (n mod 16) = (word_of_nat n :: 32 word)"
proof -
  let ?h = "push_bit 4 (word_of_nat (n div 16)) :: 32 word" and ?l = "word_of_nat (n mod 16) :: 32 word"
  have l: "?l = word_of_nat (take_bit 4 n)" by (simp add: take_bit_eq_mod)
  have "?h AND ?l = 0"
    unfolding l by (rule bit_word_eqI) (auto simp: bit_simps)
  then have "?h OR ?l = ?h + ?l" by (rule disjunctive_add_eq_or [symmetric])
  also have "\<dots> = word_of_nat (n div 16 * 16 + n mod 16)"
    by (simp only: push_bit_eq_mult of_nat_add of_nat_mult) simp
  finally show ?thesis by (simp only: div_mult_mod_eq)
qed

lemma ParseUnicodeEscape_Cons4:
  "ParseUnicodeEscape (a # b # c # d # s) = hex_digits (Suc (Suc (Suc (Suc 0)))) 0 (a # b # c # d # s)"
  by (simp add: ParseUnicodeEscape_def eval_nat_numeral del: hex_digits.simps)

lemma ParseUnicodeEscape_control:
  assumes "byte c < 32"
  shows "ParseUnicodeEscape (CHR ''0'' # CHR ''0'' # hex_digit (byte c div 16) # hex_digit (byte c mod 16) # s) =
    Some (word_of_nat (byte c), s)"
proof -
  have h0: "HexValue (CHR ''0'') = 0" by (simp add: HexValue_def)
  have h: "HexValue (hex_digit (byte c div 16)) = int (byte c div 16)" 
    "HexValue (hex_digit (byte c mod 16)) = int (byte c mod 16)"
    by (rule HexValue_hex_digit, use assms in simp)+
  show ?thesis unfolding ParseUnicodeEscape_Cons4
    by (simp only: hex_digits.simps h0 h) (simp add: low_byte_parts)
qed

lemma escaped_codepoint_control:
  assumes "byte c < 32"
  shows "escaped_codepoint (CHR ''0'' # CHR ''0'' # hex_digit (byte c div 16) # hex_digit (byte c mod 16) # s) =
    Some (word_of_nat (byte c), s)"
proof -
  have "(word_of_nat (byte c) :: 32 word) < 0xD800" using assms
    by (simp add: word_less_nat_alt unat_of_nat)
  then have "\<not> (0xD800 :: 32 word) \<le> word_of_nat (byte c)" by (simp only: not_le)
  then show ?thesis by (simp add: escaped_codepoint_def ParseUnicodeEscape_control [OF assms])
qed

lemma string_chars_escape_char:
  "string_chars acc (escape_char c @ s) = string_chars (acc @ [c]) s"
proof (cases "byte c < 32 \<and> c \<notin> {CHR 0x08, CHR 0x0C, CHR 0x0A, CHR 0x0D, CHR 0x09}")
  case True
  have n: "c \<noteq> CHR 0x22" "c \<noteq> CHR 0x5C" using True [THEN conjunct1] by (rule_tac notI, simp)+
  have "byte c < 4294967296" using byte_less_256 [of c] by linarith
  then have u: "unat (word_of_nat (byte c) :: 32 word) = byte c"
    by (simp add: unat_of_nat)
  moreover have "(word_of_nat (byte c) :: 32 word) \<le> 0x7F"
    using True [THEN conjunct1] by (simp add: word_le_nat_alt u)
  ultimately
  have "AppendUtf8 acc (word_of_nat (byte c)) = acc @ [c]"
    by (simp add: AppendUtf8_def word_char_def)
  with True n show ?thesis by (simp add: escape_char_def escaped_codepoint_control)
next
  case False
  then show ?thesis by (auto simp: escape_char_def simple_escape_def)
qed

lemma string_chars_escape:
  "string_chars acc (QuackapiJsonEscape s @ CHR 0x22 # rest) = Some (acc @ s, rest)"
  by (induction s arbitrary: acc) (simp_all add: QuackapiJsonEscape_def string_chars_escape_char)

lemma ParseString_quote [simp]: "ParseString (json_quote s @ rest) = Some (s, rest)"
  by (simp add: ParseString_def Consume_def SkipWhitespace_def json_space_def json_quote_def string_chars_escape)

section \<open>Progress of the reader\<close>

definition consuming :: "'a reader \<Rightarrow> bool" where
  "consuming p \<longleftrightarrow> (\<forall>s v s'. p s = Some (v, s') \<longrightarrow> length s' < length s)"

lemma consumingD: "consuming p \<Longrightarrow> p s = Some (v, s') \<Longrightarrow> length s' < length s"
  by (auto simp: consuming_def)

lemma consuming_None [simp]: "consuming (\<lambda>_. None)"
  by (simp add: consuming_def)

lemma SkipWhitespace_length: "length (SkipWhitespace s) \<le> length s"
  by (simp add: SkipWhitespace_def length_dropWhile_le)

lemma SkipWhitespace_Cons_length: "SkipWhitespace s = c # s' \<Longrightarrow> length s' < length s"
  using SkipWhitespace_length [of s] by simp

lemma Consume_length: "Consume c s = Some s' \<Longrightarrow> length s' < length s"
  by (auto simp: Consume_def dest: SkipWhitespace_Cons_length split: list.splits if_splits)

lemma string_chars_length: "string_chars acc s = Some (r, s') \<Longrightarrow> length s' < length s"
proof (induction "length s" arbitrary: acc s rule: less_induct)
  case less
  show ?case
  proof (cases s)
    case Nil
    with less(2) show ?thesis by simp
  next
    case (Cons c t)
    consider "c = CHR 0x22" "s' = t" | a where "string_chars a t = Some (r, s')"
      | e u a where "t = e # u" "string_chars a u = Some (r, s')"
      | e u w v a where "t = e # u" "escaped_codepoint u = Some (w, v)" "string_chars a v = Some (r, s')"
      using less(2) unfolding Cons
      by (simp only: string_chars.simps split: if_splits list.splits option.splits prod.splits) auto
    then show ?thesis
    proof cases
      case 4
      with escaped_codepoint_length [OF 4(2)] less(1) [OF _ 4(3)] Cons show ?thesis by simp
    next
      case 3
      with less(1) [OF _ 3(2)] Cons show ?thesis by simp
    next
      case 2
      with less(1) [OF _ 2] Cons show ?thesis by simp
    qed (use Cons in simp)
  qed
qed

lemma consuming_ParseString: "consuming ParseString"
  unfolding consuming_def ParseString_def
  by (auto dest!: Consume_length string_chars_length split: option.splits)

lemma array_loop_unguarded:
  assumes "consuming pv"
  shows "array_loop pv acc s = (case pv s of
       None \<Rightarrow> None
     | Some (child, s1) \<Rightarrow> (case SkipWhitespace s1 of
           [] \<Rightarrow> None
         | c # s2 \<Rightarrow>
             if c = CHR '']'' then Some (acc @ [child], s2)
             else if c \<noteq> CHR '','' then None
             else array_loop pv (acc @ [child]) s2))"
  by (subst array_loop.simps)
    (auto dest!: consumingD [OF assms] SkipWhitespace_Cons_length split: option.splits list.splits)

lemma object_loop_unguarded:
  assumes "consuming pv"
  shows "object_loop pv acc s = (case ParseString s of
       None \<Rightarrow> None
     | Some (key, s1) \<Rightarrow> (case Consume (CHR '':'') s1 of
           None \<Rightarrow> None
         | Some s2 \<Rightarrow> (case pv s2 of
               None \<Rightarrow> None
             | Some (val, s3) \<Rightarrow> (case SkipWhitespace s3 of
                   [] \<Rightarrow> None
                 | c # s4 \<Rightarrow>
                     if c = CHR ''}'' then Some (acc @ [(key, val)], s4)
                     else if c \<noteq> CHR '','' then None
                     else object_loop pv (acc @ [(key, val)]) s4))))"
  by (subst object_loop.simps)
    (auto dest!: consumingD [OF assms] consumingD [OF consuming_ParseString] Consume_length SkipWhitespace_Cons_length
      split: option.splits list.splits)

lemma array_loop_SomeD:
  assumes "array_loop pv acc s = Some (cs, s')"
  shows "\<exists>child s1 c s2. pv s = Some (child, s1) \<and> SkipWhitespace s1 = c # s2 \<and>
    (cs = acc @ [child] \<and> s' = s2 \<or> length s2 < length s \<and> array_loop pv (acc @ [child]) s2 = Some (cs, s'))"
  using assms by (subst (asm) array_loop.simps) (auto split: option.splits list.splits if_splits)

lemma object_loop_SomeD:
  assumes "object_loop pv acc s = Some (ms, s')"
  shows "\<exists>key s1 s2 val s3 c s4. ParseString s = Some (key, s1) \<and> Consume (CHR '':'') s1 = Some s2 \<and>
    pv s2 = Some (val, s3) \<and> SkipWhitespace s3 = c # s4 \<and>
    (ms = acc @ [(key, val)] \<and> s' = s4 \<or> length s4 < length s \<and> object_loop pv (acc @ [(key, val)]) s4 = Some (ms, s'))"
  using assms by (subst (asm) object_loop.simps) (auto split: option.splits list.splits if_splits)

lemma array_loop_length:
  assumes "consuming pv" "array_loop pv acc s = Some (cs, s')"
  shows "length s' < length s"
  using assms(2)
proof (induction "length s" arbitrary: acc s rule: less_induct)
  case less
  from array_loop_SomeD [OF less(2)] consumingD [OF assms(1)] less(1) show ?case
    by (fastforce dest: SkipWhitespace_Cons_length)
qed

lemma object_loop_length:
  assumes "consuming pv" "object_loop pv acc s = Some (ms, s')"
  shows "length s' < length s"
  using assms(2)
proof (induction "length s" arbitrary: acc s rule: less_induct)
  case less
  obtain key s1 s2 val s3 c s4 where p: "ParseString s = Some (key, s1)" "Consume (CHR '':'') s1 = Some s2"
    "pv s2 = Some (val, s3)" "SkipWhitespace s3 = c # s4"
    and d: "s' = s4 \<or> length s4 < length s \<and> object_loop pv (acc @ [(key, val)]) s4 = Some (ms, s')"
    using object_loop_SomeD [OF less(2)] by blast
  have "length s4 < length s"
    using consumingD [OF consuming_ParseString p(1)] Consume_length [OF p(2)] consumingD [OF assms(1) p(3)]
      SkipWhitespace_Cons_length [OF p(4)] by linarith
  with d less(1) [of s4 "acc @ [(key, val)]"] show ?case by auto
qed

lemma ParseArray_SomeD:
  assumes "ParseArray pv s = Some (v, s')"
  shows "\<exists>s1. Consume (CHR ''['') s = Some s1 \<and>
    ((\<exists>c. SkipWhitespace s1 = c # s' \<and> v = JsonNode ARRAY [] [] []) \<or>
     (\<exists>cs. array_loop pv [] (SkipWhitespace s1) = Some (cs, s') \<and> v = JsonNode ARRAY [] cs []))"
  using assms unfolding ParseArray_def Let_def by (auto simp: neq_Nil_conv split: option.splits if_splits)

lemma ParseObject_SomeD:
  assumes "ParseObject pv s = Some (v, s')"
  shows "\<exists>s1. Consume (CHR ''{'') s = Some s1 \<and>
    ((\<exists>c. SkipWhitespace s1 = c # s' \<and> v = JsonNode OBJECT [] [] []) \<or>
     (\<exists>ms. object_loop pv [] (SkipWhitespace s1) = Some (ms, s') \<and> v = JsonNode OBJECT [] [] ms))"
  using assms unfolding ParseObject_def Let_def by (auto simp: neq_Nil_conv split: option.splits if_splits)

lemma consuming_ParseArray:
  assumes "consuming pv"
  shows "consuming (ParseArray pv)"
  unfolding consuming_def
proof (intro allI impI)
  fix s v s' assume "ParseArray pv s = Some (v, s')"
  from ParseArray_SomeD [OF this] obtain s1 where s1: "Consume (CHR ''['') s = Some s1"
    and "(\<exists>c. SkipWhitespace s1 = c # s') \<or> (\<exists>cs. array_loop pv [] (SkipWhitespace s1) = Some (cs, s'))" by blast
  then have "length s' < length (SkipWhitespace s1)" using array_loop_length [OF assms] by auto
  with Consume_length [OF s1] SkipWhitespace_length [of s1] show "length s' < length s" by linarith
qed

lemma consuming_ParseObject:
  assumes "consuming pv"
  shows "consuming (ParseObject pv)"
  unfolding consuming_def
proof (intro allI impI)
  fix s v s' assume "ParseObject pv s = Some (v, s')"
  from ParseObject_SomeD [OF this] obtain s1 where s1: "Consume (CHR ''{'') s = Some s1"
    and "(\<exists>c. SkipWhitespace s1 = c # s') \<or> (\<exists>cs. object_loop pv [] (SkipWhitespace s1) = Some (cs, s'))" by blast
  then have "length s' < length (SkipWhitespace s1)" using object_loop_length [OF assms] by auto
  with Consume_length [OF s1] SkipWhitespace_length [of s1] show "length s' < length s" by linarith
qed

text \<open>What a value read is: the token it came from, or what the nested readers return.\<close>

lemma value_with_SomeD:
  assumes "value_with po pa s = Some (v, s')"
  shows "\<exists>c s1. SkipWhitespace s = c # s1 \<and>
    (po (c # s1) = Some (v, s') \<or> pa (c # s1) = Some (v, s') \<or>
     (\<exists>t. ParseString (c # s1) = Some (t, s') \<and> v = JsonNode STRING t [] []) \<or>
     length s' < length (c # s1) \<and> (v = JsonNode BOOL [] [] [] \<or> v = JsonNode NIL [] [] []) \<or>
     (c = CHR ''-'' \<or> is_digit c) \<and> s' = dropWhile number_char s1 \<and>
       v = JsonNode NUMBER (c # takeWhile number_char s1) [] [])"
proof -
  obtain c s1 where sk: "SkipWhitespace s = c # s1"
    using assms by (cases "SkipWhitespace s") (simp_all add: value_with_def)
  have eq: "value_with po pa s = (if c = CHR 0x22 then map_option (\<lambda>(scalar, s'). (JsonNode STRING scalar [] [], s')) (ParseString (c # s1))
      else if c = CHR ''{'' then po (c # s1) else if c = CHR ''['' then pa (c # s1)
      else if prefix ''true'' (c # s1) \<or> prefix ''false'' (c # s1) then
        Some (JsonNode BOOL [] [] [], drop (if prefix ''true'' (c # s1) then 4 else 5) (c # s1))
      else if prefix ''null'' (c # s1) then Some (JsonNode NIL [] [] [], drop 4 (c # s1))
      else if c = CHR ''-'' \<or> is_digit c then
        Some (JsonNode NUMBER (c # takeWhile number_char s1) [] [], dropWhile number_char s1) else None)"
    by (simp only: value_with_def Let_def sk list.case)
  have d: "length (drop (if b then 4 else 5) (c # s1)) < length (c # s1)" "length (drop 4 (c # s1)) < length (c # s1)" for b
    by auto
  from assms [unfolded eq] consider
      "map_option (\<lambda>(scalar, s'). (JsonNode STRING scalar [] [], s')) (ParseString (c # s1)) = Some (v, s')"
    | "po (c # s1) = Some (v, s')" | "pa (c # s1) = Some (v, s')"
    | b where "Some (JsonNode BOOL [] [] [], drop (if b then 4 else 5) (c # s1)) = Some (v, s')"
    | "Some (JsonNode NIL [] [] [], drop 4 (c # s1)) = Some (v, s')"
    | "c = CHR ''-'' \<or> is_digit c"
      "Some (JsonNode NUMBER (c # takeWhile number_char s1) [] [], dropWhile number_char s1) = Some (v, s')"
    by (elim if_SomeE) (blast | simp only: option.distinct)+
  then show ?thesis unfolding sk using d by cases (auto simp del: drop_Suc_Cons)
qed

lemma consuming_value_with:
  assumes "consuming po" "consuming pa"
  shows "consuming (value_with po pa)"
  unfolding consuming_def
proof (intro allI impI)
  fix s v s' assume "value_with po pa s = Some (v, s')"
  from value_with_SomeD [OF this] have "length s' < length (SkipWhitespace s)"
    by (auto simp: le_imp_less_Suc length_dropWhile_le
      dest!: consumingD [OF assms(1)] consumingD [OF assms(2)] consumingD [OF consuming_ParseString])
  with SkipWhitespace_length [of s] show "length s' < length s" by linarith
qed

lemma consuming_ParseValue: "consuming (ParseValue n)"
  by (induction n) (simp_all add: consuming_value_with consuming_ParseArray consuming_ParseObject)

section \<open>Texts that read as a node\<close>

text \<open>
  A t reads as a node when the reader, at the given depth budget, takes it for that node and
  stops right after it, whatever follows, unless it could continue a number.
\<close>

definition reads_as :: "nat \<Rightarrow> string \<Rightarrow> JsonNode \<Rightarrow> bool" where
  "reads_as n t node \<longleftrightarrow>
     (\<forall>rest. (rest = [] \<or> \<not> number_char (hd rest)) \<longrightarrow> ParseValue n (t @ rest) = Some (node, rest))"

lemma reads_asD: "reads_as n t node \<Longrightarrow> \<not> number_char c \<Longrightarrow> ParseValue n (t @ c # rest) = Some (node, c # rest)"
  by (simp add: reads_as_def)

lemma SkipWhitespace_idem [simp]: "SkipWhitespace (SkipWhitespace s) = SkipWhitespace s"
  by (simp add: SkipWhitespace_def dropWhile_idem)

lemma value_with_skip: "value_with po pa (SkipWhitespace s) = value_with po pa s"
  by (simp only: value_with_def SkipWhitespace_idem)

lemma ParseValue_skip: "ParseValue n (SkipWhitespace s) = ParseValue n s"
  by (cases n) (simp_all only: ParseValue.simps value_with_skip)

lemma reads_as_document: "reads_as MAX_NESTING_DEPTH t node \<Longrightarrow> ParseDocument t = Some node"
  using reads_as_def [of MAX_NESTING_DEPTH t node, THEN iffD1, rule_format, of "[]"]
  by (simp add: ParseDocument_def ParseValue_skip) (simp add: SkipWhitespace_def)

lemma ParseValue_with: "\<exists>po pa. ParseValue n = value_with po pa"
  by (cases n) auto

lemma reads_string: "reads_as n (json_quote s) (JsonNode STRING s [] [])"
proof -
  obtain po pa where p: "ParseValue n = value_with po pa" using ParseValue_with by blast
  have "json_quote s @ rest = CHR 0x22 # (QuackapiJsonEscape s @ CHR 0x22 # rest)" for rest
    by (simp add: json_quote_def)
  with ParseString_quote [of s] show ?thesis
    by (simp add: reads_as_def p value_with_def SkipWhitespace_def json_space_def)
qed

lemma reads_null: "reads_as n ''null'' (JsonNode NIL [] [] [])"
proof -
  obtain po pa where p: "ParseValue n = value_with po pa" using ParseValue_with by blast
  show ?thesis by (simp add: reads_as_def p value_with_def SkipWhitespace_def json_space_def)
qed

lemma reads_number:
  assumes "c = CHR ''-'' \<or> is_digit c" "list_all number_char cs"
  shows "reads_as n (c # cs) (JsonNode NUMBER (c # cs) [] [])"
proof -
  obtain po pa where p: "ParseValue n = value_with po pa" using ParseValue_with by blast
  have c: "c \<notin> {CHR 0x22, CHR ''{'', CHR ''['', CHR ''t'', CHR ''f'', CHR ''n''}" "\<not> json_space c"
    using assms(1) by (auto simp: is_digit_def json_space_def)
  then have eq: "value_with po pa (c # s) = Some (JsonNode NUMBER (c # takeWhile number_char s) [] [], dropWhile number_char s)" for s
    using assms(1) by (simp add: value_with_def SkipWhitespace_def Let_def) auto
  have "takeWhile number_char (cs @ rest) = cs" "dropWhile number_char (cs @ rest) = rest"
    if "rest = [] \<or> \<not> number_char (hd rest)" for rest
    using that assms(2) by (cases rest; auto simp: list_all_iff takeWhile_append dropWhile_append)+
  then show ?thesis by (simp add: reads_as_def p eq)
qed

lemma ParseValue_nonempty: "ParseValue n s = Some r \<Longrightarrow> \<exists>c s1. SkipWhitespace s = c # s1 \<and> c \<noteq> CHR '']'' \<and> c \<noteq> CHR ''}''"
proof -
  assume a: "ParseValue n s = Some r"
  obtain po pa where p: "ParseValue n = value_with po pa" using ParseValue_with by blast
  show ?thesis
  proof (cases "SkipWhitespace s")
    case (Cons c s1)
    have "\<not> prefix ''true'' (CHR '']'' # s1)" "\<not> prefix ''false'' (CHR '']'' # s1)" "\<not> prefix ''null'' (CHR '']'' # s1)"
      "\<not> is_digit (CHR '']'')" "\<not> is_digit (CHR ''}'')" by (simp_all add: is_digit_def)
    with a Cons show ?thesis by (auto simp: p value_with_def)
  qed (use a p in \<open>simp add: value_with_def\<close>)
qed


lemma number_char_delims [simp]:
  "\<not> number_char (CHR '','')" "\<not> number_char (CHR '']'')" "\<not> number_char (CHR ''}'')"
  by (simp_all add: number_char_def is_digit_def)

lemma SkipWhitespace_delims [simp]:
  "SkipWhitespace (CHR '','' # s) = CHR '','' # s" "SkipWhitespace (CHR '']'' # s) = CHR '']'' # s"
  "SkipWhitespace (CHR ''}'' # s) = CHR ''}'' # s" "SkipWhitespace (CHR ''{'' # s) = CHR ''{'' # s"
  "SkipWhitespace (CHR ''['' # s) = CHR ''['' # s" "SkipWhitespace (CHR '':'' # s) = CHR '':'' # s"
  "SkipWhitespace (CHR 0x22 # s) = CHR 0x22 # s"
  by (simp_all add: SkipWhitespace_def json_space_def)

lemma array_loop_reads:
  assumes "list_all2 (reads_as n) ts nodes" "ts \<noteq> []"
  shows "array_loop (ParseValue n) acc (comma_list ts @ CHR '']'' # rest) = Some (acc @ nodes, rest)"
  using assms
proof (induction ts arbitrary: nodes acc rule: comma_list.induct)
  case (2 t)
  then obtain node where "nodes = [node]" "reads_as n t node" by (auto simp: list_all2_Cons1)
  then show ?case by (simp add: array_loop.simps [of "ParseValue n" acc "t @ CHR '']'' # rest"] reads_asD)
next
  case (3 t u ts)
  then obtain node nodes' where n: "nodes = node # nodes'" "reads_as n t node" "list_all2 (reads_as n) (u # ts) nodes'"
    by (auto simp: list_all2_Cons1)
  let ?s = "comma_list (u # ts) @ CHR '']'' # rest"
  have "array_loop (ParseValue n) acc (t @ CHR '','' # ?s) = array_loop (ParseValue n) (acc @ [node]) ?s"
    using n(2) by (subst array_loop.simps) (simp add: reads_asD)
  with 3(1) [OF n(3)] n(1) show ?case by simp
qed simp

lemma array_loop_skip: "array_loop (ParseValue n) acc (SkipWhitespace s) = array_loop (ParseValue n) acc s"
  by (subst (1 2) array_loop_unguarded [OF consuming_ParseValue]) (simp only: ParseValue_skip)

lemma reads_array:
  assumes "list_all2 (reads_as n) ts nodes"
  shows "reads_as (Suc n) (''['' @ comma_list ts @ '']'') (JsonNode ARRAY [] nodes [])"
proof (cases "ts = []")
  case True
  with assms show ?thesis
    by (simp add: reads_as_def value_with_def ParseArray_def Consume_def)
next
  case False
  have "ParseArray (ParseValue n) (CHR ''['' # comma_list ts @ CHR '']'' # rest) = Some (JsonNode ARRAY [] nodes [], rest)" for rest
  proof -
    let ?s = "comma_list ts @ CHR '']'' # rest"
    have l: "array_loop (ParseValue n) [] ?s = Some (nodes, rest)" using array_loop_reads [OF assms False] by simp
    then obtain v s' where "ParseValue n ?s = Some (v, s')"
      by (subst (asm) array_loop.simps) (auto split: option.splits)
    from ParseValue_nonempty [OF this] have "SkipWhitespace ?s = [] \<or> hd (SkipWhitespace ?s) \<noteq> CHR '']''" by auto
    with l show ?thesis by (auto simp: ParseArray_def Consume_def array_loop_skip Let_def)
  qed
  then show ?thesis by (simp add: reads_as_def value_with_def)
qed

definition member_text :: "string \<times> string \<times> JsonNode \<Rightarrow> string" where
  "member_text = (\<lambda>(key, t, node). json_quote key @ '':'' @ t)"

definition member_node :: "string \<times> string \<times> JsonNode \<Rightarrow> string \<times> JsonNode" where
  "member_node = (\<lambda>(key, t, node). (key, node))"

lemma object_loop_reads:
  assumes "\<forall>(key, t, node) \<in> set ms. reads_as n t node" "ms \<noteq> []"
  shows "object_loop (ParseValue n) acc (comma_list (map member_text ms) @ CHR ''}'' # rest) =
    Some (acc @ map member_node ms, rest)"
  using assms
proof (induction ms arbitrary: acc)
  case (Cons m ms)
  obtain key t node where m: "m = (key, t, node)" by (cases m)
  with Cons.prems have r: "reads_as n t node" by simp
  have step: "object_loop (ParseValue n) acc (member_text m @ c # s) =
    (if c = CHR ''}'' then Some (acc @ [(key, node)], s) else object_loop (ParseValue n) (acc @ [(key, node)]) s)"
    if "c = CHR ''}'' \<or> c = CHR '',''" for c s
    using r that by (subst object_loop.simps) (auto simp: m member_text_def Consume_def reads_asD)
  show ?case
  proof (cases ms)
    case Nil
    then show ?thesis using step [of "CHR ''}''" rest] by (simp add: m member_node_def)
  next
    case (Cons m' ms')
    let ?s = "comma_list (map member_text ms) @ CHR ''}'' # rest"
    have c: "comma_list (map member_text (m # ms)) @ CHR ''}'' # rest = member_text m @ CHR '','' # ?s"
      using Cons by simp
    have "object_loop (ParseValue n) (acc @ [(key, node)]) ?s = Some ((acc @ [(key, node)]) @ map member_node ms, rest)"
      by (rule Cons.IH) (use Cons.prems Cons in auto)
    then show ?thesis unfolding c using step [of "CHR '',''" ?s] by (simp add: m member_node_def)
  qed
qed simp


lemma comma_member_quoted: "ms \<noteq> [] \<Longrightarrow> \<exists>s. comma_list (map member_text ms) = CHR 0x22 # s"
  by (cases ms; cases "tl ms") (auto simp: member_text_def json_quote_def split: prod.splits)

lemma reads_object:
  assumes "\<forall>(key, t, node) \<in> set ms. reads_as n t node"
  shows "reads_as (Suc n) (''{'' @ comma_list (map member_text ms) @ ''}'') (JsonNode OBJECT [] [] (map member_node ms))"
proof (cases "ms = []")
  case True
  then show ?thesis by (simp add: reads_as_def value_with_def ParseObject_def Consume_def)
next
  case False
  have "ParseObject (ParseValue n) (CHR ''{'' # comma_list (map member_text ms) @ CHR ''}'' # rest) =
    Some (JsonNode OBJECT [] [] (map member_node ms), rest)" for rest
    using object_loop_reads [OF assms False, of "[]" rest] comma_member_quoted [OF False]
    by (auto simp: ParseObject_def Consume_def)
  then show ?thesis by (simp add: reads_as_def value_with_def)
qed

section \<open>The nodes the reader builds\<close>

definition number_text :: "string \<Rightarrow> bool" where
  "number_text s = (s \<noteq> [] \<and> (hd s = CHR ''-'' \<or> is_digit (hd s)) \<and> list_all number_char (tl s))"

fun read_node :: "nat \<Rightarrow> JsonNode \<Rightarrow> bool" where
  "read_node n (JsonNode kind scalar children members) =
     (case kind of
        NIL \<Rightarrow> scalar = [] \<and> children = [] \<and> members = []
      | BOOL \<Rightarrow> scalar = [] \<and> children = [] \<and> members = []
      | NUMBER \<Rightarrow> number_text scalar \<and> children = [] \<and> members = []
      | STRING \<Rightarrow> children = [] \<and> members = []
      | ARRAY \<Rightarrow> scalar = [] \<and> members = [] \<and> 0 < n \<and> (\<forall>c \<in> set children. read_node (n - 1) c)
      | OBJECT \<Rightarrow> scalar = [] \<and> children = [] \<and> 0 < n \<and> (\<forall>m \<in> set members. read_node (n - 1) (snd m)))"

lemma array_loop_nodes:
  assumes "\<And>s v s'. pv s = Some (v, s') \<Longrightarrow> P v" "array_loop pv acc s = Some (cs, s')" "\<forall>c \<in> set acc. P c"
  shows "\<forall>c \<in> set cs. P c"
  using assms(2,3)
proof (induction "length s" arbitrary: acc s rule: less_induct)
  case less
  obtain child s1 c s2 where p: "pv s = Some (child, s1)"
    and d: "cs = acc @ [child] \<or> length s2 < length s \<and> array_loop pv (acc @ [child]) s2 = Some (cs, s')"
    using array_loop_SomeD [OF less(2)] by blast
  from d show ?case
  proof
    assume "length s2 < length s \<and> array_loop pv (acc @ [child]) s2 = Some (cs, s')"
    then show ?thesis using less(1) [of s2 "acc @ [child]"] less(3) assms(1) [OF p] by simp
  qed (use less(3) assms(1) [OF p] in simp)
qed

lemma object_loop_nodes:
  assumes "\<And>s v s'. pv s = Some (v, s') \<Longrightarrow> P v" "object_loop pv acc s = Some (ms, s')" "\<forall>m \<in> set acc. P (snd m)"
  shows "\<forall>m \<in> set ms. P (snd m)"
  using assms(2,3)
proof (induction "length s" arbitrary: acc s rule: less_induct)
  case less
  obtain key s2 val s3 s4 where p: "pv s2 = Some (val, s3)"
    and d: "ms = acc @ [(key, val)] \<or> length s4 < length s \<and> object_loop pv (acc @ [(key, val)]) s4 = Some (ms, s')"
    using object_loop_SomeD [OF less(2)] by blast
  from d show ?case
  proof
    assume "length s4 < length s \<and> object_loop pv (acc @ [(key, val)]) s4 = Some (ms, s')"
    then show ?thesis using less(1) [of s4 "acc @ [(key, val)]"] less(3) assms(1) [OF p] by simp
  qed (use less(3) assms(1) [OF p] in auto)
qed

lemma ParseArray_node:
  assumes "\<And>s v s'. pv s = Some (v, s') \<Longrightarrow> read_node n v" "ParseArray pv s = Some (v, s')"
  shows "read_node (Suc n) v"
  using ParseArray_SomeD [OF assms(2)] array_loop_nodes [where P = "read_node n", OF assms(1)] by fastforce

lemma ParseObject_node:
  assumes "\<And>s v s'. pv s = Some (v, s') \<Longrightarrow> read_node n v" "ParseObject pv s = Some (v, s')"
  shows "read_node (Suc n) v"
  using ParseObject_SomeD [OF assms(2)] object_loop_nodes [where P = "read_node n", OF assms(1)] by fastforce

lemma value_with_node:
  assumes "\<And>s v s'. po s = Some (v, s') \<Longrightarrow> read_node n v" "\<And>s v s'. pa s = Some (v, s') \<Longrightarrow> read_node n v"
    "value_with po pa s = Some (v, s')"
  shows "read_node n v"
proof -
  have num: "number_text (c # takeWhile number_char s1)" if "c = CHR ''-'' \<or> is_digit c" for c s1
    using that by (auto simp: number_text_def list_all_iff dest: set_takeWhileD)
  from value_with_SomeD [OF assms(3)] assms(1,2) num show ?thesis by (elim exE conjE disjE) simp_all
qed

lemma ParseValue_node: "ParseValue n s = Some (v, s') \<Longrightarrow> read_node n v"
proof (induction n arbitrary: s v s')
  case 0
  then show ?case using value_with_node [of "\<lambda>_. None" 0 "\<lambda>_. None"] by simp
next
  case (Suc n)
  show ?case
    by (rule value_with_node [OF ParseObject_node ParseArray_node]) (use Suc in auto)
qed

lemma ParseDocument_node: "ParseDocument s = Some v \<Longrightarrow> read_node MAX_NESTING_DEPTH v"
  by (auto simp: ParseDocument_def dest: ParseValue_node split: option.splits if_splits)

section \<open>Serialized structures\<close>

fun no_bool :: "JsonNode \<Rightarrow> bool" where
  "no_bool (JsonNode kind scalar children members) =
     (kind \<noteq> BOOL \<and> (\<forall>c \<in> set children. no_bool c) \<and> (\<forall>m \<in> set members. no_bool (snd m)))"

text \<open>The structure with \<open>JSON\<close> for each \<open>VARIANT\<close> leaf.\<close>

fun json_leaves :: "string_util \<Rightarrow> JsonNode \<Rightarrow> JsonNode" where
  "json_leaves U (JsonNode kind scalar children members) =
     JsonNode kind (if kind = STRING \<and> upper_trim U scalar = ''VARIANT'' then ''JSON'' else scalar)
       (map (json_leaves U) children) (map (\<lambda>m. (fst m, json_leaves U (snd m))) members)"

lemma serialize_reads:
  "read_node n v \<Longrightarrow> no_bool v \<Longrightarrow> reads_as n (SerializeTransformNode U v True) (json_leaves U v)"
proof (induction v arbitrary: n)
  case (JsonNode kind scalar children members)
  show ?case
  proof (cases kind)
    case ARRAY
    with JsonNode.prems obtain n' where n: "n = Suc n'" by (cases n) auto
    have "list_all2 (reads_as n') (map (\<lambda>c. SerializeTransformNode U c True) children) (map (json_leaves U) children)"
      using JsonNode ARRAY n by (auto simp: list_all2_map1 list_all2_map2 intro!: list_all2_same [THEN iffD2])
    from reads_array [OF this] show ?thesis using JsonNode.prems ARRAY n by simp
  next
    case OBJECT
    with JsonNode.prems obtain n' where n: "n = Suc n'" by (cases n) auto
    let ?ms = "map (\<lambda>m. (fst m, SerializeTransformNode U (snd m) True, json_leaves U (snd m))) members"
    have "\<forall>(key, t, node) \<in> set ?ms. reads_as n' t node"
      using JsonNode OBJECT n by (auto simp: snds.simps)
    from reads_object [OF this] show ?thesis using JsonNode.prems OBJECT n
      by (simp add: comp_def member_text_def member_node_def)
  next
    case NUMBER
    with JsonNode.prems reads_number [of "hd scalar" "tl scalar" n] show ?thesis
      by (simp add: number_text_def)
  qed (use JsonNode.prems reads_null reads_string in auto)
qed

lemma json_leaves_no_variant:
  "string_util_ok U \<Longrightarrow> \<not> TransformNodeHasVariant U (json_leaves U v)"
proof (induction v)
  case (JsonNode kind scalar children members)
  have "upper_trim U ''JSON'' = ''JSON''"
    using JsonNode.prems by (simp add: upper_trim_def string_util_okD trim_ascii_def ascii_eval)
  with JsonNode show ?case by (auto simp: snds.simps)
qed

text \<open>
  Declared body structures survive the replacement of their \<open>VARIANT\<close> leaves: for a
  structure that reads, has a \<open>VARIANT\<close> leaf and no boolean literal, the normalized text exists,
  reads as the same structure with \<open>JSON\<close> in place of each \<open>VARIANT\<close>, and has no \<open>VARIANT\<close> left.
\<close>

theorem variant_leaves_as_json:
  assumes "string_util_ok U" "ParseDocument body_type = Some v" "no_bool v"
    "QuackapiDuckdbTransformHasVariant U body_type"
  shows "\<exists>normalized. QuackapiDuckdbTransformVariantLeavesAsJson U body_type = Some normalized \<and>
    ParseDocument normalized = Some (json_leaves U v) \<and> \<not> QuackapiDuckdbTransformHasVariant U normalized"
proof -
  have "ParseDocument (SerializeTransformNode U v True) = Some (json_leaves U v)"
    using serialize_reads [OF ParseDocument_node [OF assms(2)] assms(3)] by (rule reads_as_document)
  with assms json_leaves_no_variant show ?thesis
    by (simp add: QuackapiDuckdbTransformVariantLeavesAsJson_def QuackapiDuckdbTransformHasVariant_def)
qed

text \<open>The declaration with one \<open>VARIANT\<close> member used as an example.\<close>

definition variant_declaration :: string where
  "variant_declaration = ''{'' @ json_quote ''a'' @ '':'' @ json_quote ''VARIANT'' @ ''}''"

lemma variant_declaration_node:
  "ParseDocument variant_declaration = Some (JsonNode OBJECT [] [] [(''a'', JsonNode STRING ''VARIANT'' [] [])])"
proof -
  have m: "MAX_NESTING_DEPTH = Suc 127" by (simp add: MAX_NESTING_DEPTH_def)
  show ?thesis
    using reads_object [of "[(''a'', json_quote ''VARIANT'', JsonNode STRING ''VARIANT'' [] [])]" 127] 
      reads_string [of 127 "''VARIANT''"]
    by (intro reads_as_document) (simp add: m member_text_def member_node_def variant_declaration_def)
qed

theorem variant_leaves_as_json_witness:
  "\<exists>normalized. QuackapiDuckdbTransformVariantLeavesAsJson ascii_util variant_declaration = Some normalized \<and>
    ParseDocument normalized = Some (JsonNode OBJECT [] [] [(''a'', JsonNode STRING ''JSON'' [] [])])"
proof -
  have u: "upper_trim ascii_util ''VARIANT'' = ''VARIANT''" by (simp add: upper_trim_def trim_ascii_def ascii_eval)
  then have "QuackapiDuckdbTransformHasVariant ascii_util variant_declaration"
    by (simp add: QuackapiDuckdbTransformHasVariant_def variant_declaration_node)
  from variant_leaves_as_json [OF string_util_ok_ascii variant_declaration_node _ this] u show ?thesis by auto
qed

section \<open>Boolean literals\<close>

lemma reads_true: "reads_as n ''true'' (JsonNode BOOL [] [] [])"
proof -
  obtain po pa where p: "ParseValue n = value_with po pa" using ParseValue_with by blast
  show ?thesis by (simp add: reads_as_def p value_with_def SkipWhitespace_def json_space_def)
qed

lemma ParseValue_comma: "ParseValue n (CHR '','' # s) = None"
proof -
  obtain po pa where p: "ParseValue n = value_with po pa" using ParseValue_with by blast
  show ?thesis by (simp add: p value_with_def is_digit_def)
qed

text \<open>
  A boolean literal does not survive: the reader accepts it and the serializer writes nothing
  in its place, so a declaration with a boolean and a \<open>VARIANT\<close> leaf is answered with a text that
  no longer reads.
\<close>

theorem bool_literal_lost:
  "\<exists>normalized. QuackapiDuckdbTransformVariantLeavesAsJson ascii_util
      (''{'' @ json_quote k @ '':true,'' @ json_quote l @ '':'' @ json_quote ''VARIANT'' @ ''}'') = Some normalized \<and>
    ParseDocument normalized = None"
proof -
  have m: "MAX_NESTING_DEPTH = Suc 127" by (simp add: MAX_NESTING_DEPTH_def)
  have u: "upper_trim ascii_util ''VARIANT'' = ''VARIANT''" by (simp add: upper_trim_def trim_ascii_def ascii_eval)
  let ?v = "JsonNode OBJECT [] [] [(k, JsonNode BOOL [] [] []), (l, JsonNode STRING ''VARIANT'' [] [])]"
  have "reads_as (Suc 127) (''{'' @ comma_list (map member_text [(k, ''true'', JsonNode BOOL [] [] []),
      (l, json_quote ''VARIANT'', JsonNode STRING ''VARIANT'' [] [])]) @ ''}'') ?v"
    using reads_object [of "[(k, ''true'', JsonNode BOOL [] [] []), (l, json_quote ''VARIANT'', JsonNode STRING ''VARIANT'' [] [])]" 127]
      reads_string [of 127 "''VARIANT''"] reads_true [of 127]
    by (simp add: member_node_def)
  then have p: "ParseDocument (''{'' @ json_quote k @ '':true,'' @ json_quote l @ '':'' @ json_quote ''VARIANT'' @ ''}'') = Some ?v"
    by (intro reads_as_document) (simp add: m member_text_def)
  let ?t = "json_quote k @ CHR '':'' # CHR '','' # json_quote l @ CHR '':'' # json_quote ''JSON'' @ ''}''"
  have s: "SerializeTransformNode ascii_util ?v True = CHR ''{'' # ?t" using u by simp
  have "object_loop (ParseValue 127) [] ?t = None"
    by (subst object_loop.simps) (simp add: Consume_def ParseValue_comma)
  moreover have "SkipWhitespace ?t = ?t" "hd ?t = CHR 0x22" by (simp_all add: json_quote_def)
  ultimately have "ParseValue (Suc 127) (CHR ''{'' # ?t) = None"
    unfolding ParseValue.simps(2) by (simp add: value_with_def ParseObject_def Consume_def Let_def del: append_assoc)
  then have "ParseDocument (CHR ''{'' # ?t) = None" by (simp add: ParseDocument_def m del: ParseValue.simps)
  with p s u show ?thesis by (simp add: QuackapiDuckdbTransformVariantLeavesAsJson_def)
qed

section \<open>Array indices\<close>

definition digit_value :: "char \<Rightarrow> nat" where
  "digit_value c = byte c - 48"

definition decimal :: "nat \<Rightarrow> string \<Rightarrow> nat" where
  "decimal = foldl (\<lambda>n c. n * 10 + digit_value c)"

lemma decimal_ge: "n \<le> decimal n s"
proof (induction s arbitrary: n)
  case (Cons c s)
  have "n * 10 + digit_value c \<le> decimal (n * 10 + digit_value c) s" by (rule Cons)
  then show ?case by (simp add: decimal_def)
qed (simp add: decimal_def)

lemma index_loop_exact:
  "list_all is_digit s \<Longrightarrow> unat (index_loop index s) = min (decimal (unat index) s) (2 ^ 64 - 1)"
proof (induction s arbitrary: index)
  case Nil
  have "unat index < 2 ^ 64" by (rule unat_less_idx)
  then show ?case by (simp add: decimal_def)
next
  case (Cons c s)
  define d where "d = digit_value c"
  have d: "d \<le> 9" and w: "word_of_int (int (byte c) - 48) = (word_of_nat d :: idx_t)"
    using Cons.prems by (auto simp: d_def digit_value_def is_digit_def of_nat_diff)
  have loop: "index_loop index (c # s) = (if index > (- 1 - word_of_nat d) div 10 then - 1
      else index_loop (index * 10 + word_of_nat d) s)"
    by (simp only: index_loop.simps w Let_def)
  have ud: "unat (word_of_nat d :: idx_t) = d" using d by (simp add: unat_of_nat)
  have "unat (- 1 - word_of_nat d :: idx_t) = 2 ^ 64 - 1 - d"
    using d ud by (simp add: unat_sub_if' unat_max_idx)
  then have g: "index > (- 1 - word_of_nat d) div 10 \<longleftrightarrow> unat index > (2 ^ 64 - 1 - d) div 10"
    by (simp add: word_less_nat_alt unat_div)
  show ?case
  proof (cases "unat index > (2 ^ 64 - 1 - d) div 10")
    case True
    then have "unat index * 10 + d > 2 ^ 64 - 1" by linarith
    then have "decimal (unat index) (c # s) > 2 ^ 64 - 1"
      using decimal_ge [of "unat index * 10 + d" s] by (simp add: decimal_def d_def)
    with True g show ?thesis by (simp add: loop unat_max_idx del: index_loop.simps)
  next
    case False
    then have "unat index * 10 + d < 2 ^ 64" using d by simp
    then have "unat (index * 10 + word_of_nat d) = unat index * 10 + d"
      using ud by (simp add: unat_word_ariths)
    with False g Cons show ?thesis by (simp add: loop decimal_def d_def del: index_loop.simps)
  qed
qed

text \<open>
  The index of an array segment is its decimal value, saturated at the largest 64-bit
  number: an index too large for the machine type never wraps to an element that exists.
\<close>

theorem ParseIndex_saturates:
  assumes "IsCanonicalArrayIndex segment"
  shows "unat (ParseIndex segment) = min (decimal 0 segment) (2 ^ 64 - 1)"
  using assms index_loop_exact [of segment 0] by (simp add: IsCanonicalArrayIndex_def ParseIndex_def split: if_splits)

theorem ParseIndex_saturates_witness:
  "unat (ParseIndex ''18446744073709551616'') = 2 ^ 64 - 1 \<and> unat (ParseIndex ''120'') = 120"
  using ParseIndex_saturates [of "''18446744073709551616''"] ParseIndex_saturates [of "''120''"]
  by (simp add: IsCanonicalArrayIndex_def is_digit_def decimal_def digit_value_def)

section \<open>Error locations\<close>

text \<open>The node of one location segment.\<close>

definition segment_node :: "string \<Rightarrow> JsonNode \<Rightarrow> bool" where
  "segment_node raw node \<longleftrightarrow> jn_scalar node = DecodeJsonPointerSegment raw \<and> jn_kind node \<in> {STRING, NUMBER}"

lemma canonical_index_reads:
  assumes "IsCanonicalArrayIndex s"
  shows "reads_as n s (JsonNode NUMBER s [] [])"
proof -
  obtain c cs where s: "s = c # cs" using assms by (cases s) (auto simp: IsCanonicalArrayIndex_def)
  then have "is_digit c" "list_all number_char cs"
    using assms by (auto simp: IsCanonicalArrayIndex_def number_char_def list_all_iff split: if_splits)
  with s show ?thesis by (simp add: reads_number)
qed

lemma loc_step_reads:
  "\<exists>node. reads_as n (fst (loc_step current raw)) node \<and> segment_node raw node"
proof -
  let ?s = "DecodeJsonPointerSegment raw"
  show ?thesis
  proof (cases "\<exists>node. current = Some node \<and> jn_kind node = ARRAY \<and> IsCanonicalArrayIndex ?s")
    case True
    then have "fst (loc_step current raw) = ?s" "IsCanonicalArrayIndex ?s" by (auto simp: loc_step_def Let_def)
    then show ?thesis using canonical_index_reads [of ?s n] by (metis segment_node_def JsonNode.sel(1,2) insertCI)
  next
    case False
    then have "fst (loc_step current raw) = json_quote ?s"
      by (auto simp: loc_step_def Let_def split: option.splits)
    then show ?thesis using reads_string [of n ?s] by (metis segment_node_def JsonNode.sel(1,2) insertI1)
  qed
qed

fun loc_texts :: "JsonNode option \<Rightarrow> string list \<Rightarrow> string list" where
  "loc_texts current [] = []"
| "loc_texts current (raw # rest) = fst (loc_step current raw) # loc_texts (snd (loc_step current raw)) rest"

lemma comma_list_Cons: "comma_list (x # xs) = x @ concat (map (\<lambda>y. CHR '','' # y) xs)"
  by (induction xs arbitrary: x) auto

lemma loc_walk_texts: "loc_walk current segs = concat (map (\<lambda>y. CHR '','' # y) (loc_texts current segs))"
  by (induction current segs rule: loc_walk.induct) (auto split: prod.splits)

lemma loc_texts_read:
  "\<exists>nodes. list_all2 (reads_as n) (loc_texts current segs) nodes \<and> list_all2 segment_node segs nodes"
proof (induction current segs rule: loc_texts.induct)
  case (2 current raw rest)
  then show ?case using loc_step_reads [of n current raw] by (auto simp: list_all2_Cons1)
qed simp

definition pointer_segments :: "string \<Rightarrow> string list" where
  "pointer_segments pointer = (if pointer = [] then []
     else split_slash (if hd pointer = CHR ''/'' then tl pointer else pointer))"

lemma pointer_loc_text:
  "QuackapiValidationBodyPointerLoc pointer body =
   ''['' @ comma_list (json_quote ''body'' # loc_texts (ParseDocument body) (pointer_segments pointer)) @ '']''"
  by (cases pointer) (simp_all add: QuackapiValidationBodyPointerLoc_def pointer_segments_def comma_list_Cons loc_walk_texts)

lemma pointer_loc_reads:
  "\<exists>nodes. reads_as (Suc n) (QuackapiValidationBodyPointerLoc pointer body)
      (JsonNode ARRAY [] (JsonNode STRING ''body'' [] [] # nodes) []) \<and>
    list_all2 segment_node (pointer_segments pointer) nodes"
proof -
  obtain nodes where n: "list_all2 (reads_as n) (loc_texts (ParseDocument body) (pointer_segments pointer)) nodes"
    "list_all2 segment_node (pointer_segments pointer) nodes" using loc_texts_read by blast
  from n(1) have "list_all2 (reads_as n) (json_quote ''body'' # loc_texts (ParseDocument body) (pointer_segments pointer))
    (JsonNode STRING ''body'' [] [] # nodes)" by (simp add: reads_string)
  from reads_array [OF this] n(2) show ?thesis unfolding pointer_loc_text by blast
qed

text \<open>
  Every error location is a JSON array, whatever the pointer and the body: it starts with
  \<open>"body"\<close> and has one element for each pointer segment, a string or a number whose text is the
  decoded segment.
\<close>

theorem body_pointer_loc_json:
  "\<exists>nodes. ParseDocument (QuackapiValidationBodyPointerLoc pointer body) =
      Some (JsonNode ARRAY [] (JsonNode STRING ''body'' [] [] # nodes) []) \<and>
    list_all2 segment_node (pointer_segments pointer) nodes"
  using pointer_loc_reads [of 127 pointer body] reads_as_document by (auto simp: MAX_NESTING_DEPTH_def)

section \<open>Error documents and OpenAPI texts\<close>

definition plain_key :: "string \<Rightarrow> bool" where
  "plain_key key \<longleftrightarrow> QuackapiJsonEscape key = key"

lemma json_member_text: "plain_key key \<Longrightarrow> json_member key val = member_text (key, val, node)"
  by (simp add: json_member_def member_text_def json_quote_def plain_key_def)

lemma plain_keys [simp]:
  "plain_key ''detail''" "plain_key ''loc''" "plain_key ''msg''" "plain_key ''type''" "plain_key ''format''"
  "plain_key ''items''" "plain_key ''properties''"
  by (simp_all add: plain_key_def QuackapiJsonEscape_def escape_char_def)

lemma reads_object1:
  assumes "reads_as n t v" "plain_key k"
  shows "reads_as (Suc n) (''{'' @ json_member k t @ ''}'') (JsonNode OBJECT [] [] [(k, v)])"
  using reads_object [of "[(k, t, v)]" n] assms by (simp add: json_member_text [of k t v] member_node_def)

lemma reads_object2:
  assumes "reads_as n t v" "reads_as n u w" "plain_key k" "plain_key l"
  shows "reads_as (Suc n) (''{'' @ json_member k t @ '','' @ json_member l u @ ''}'') (JsonNode OBJECT [] [] [(k, v), (l, w)])"
  using reads_object [of "[(k, t, v), (l, u, w)]" n] assms
  by (simp add: json_member_text [of k t v] json_member_text [of l u w] member_node_def)

lemma reads_object3:
  assumes "reads_as n t v" "reads_as n u w" "reads_as n r x" "plain_key k" "plain_key l" "plain_key m"
  shows "reads_as (Suc n) (''{'' @ json_member k t @ '','' @ json_member l u @ '','' @ json_member m r @ ''}'')
    (JsonNode OBJECT [] [] [(k, v), (l, w), (m, x)])"
  using reads_object [of "[(k, t, v), (l, u, w), (m, r, x)]" n] assms
  by (simp add: json_member_text [of k t v] json_member_text [of l u w] json_member_text [of m r x] member_node_def)

definition issue_node :: "QuackapiValidationIssue \<Rightarrow> JsonNode \<Rightarrow> JsonNode" where
  "issue_node issue loc = JsonNode OBJECT [] [] [(''loc'', loc), (''msg'', JsonNode STRING (vi_message issue) [] []),
     (''type'', JsonNode STRING (vi_type issue) [] [])]"

text \<open>
  The error document of a validation failure is well-formed: when each location reads, it
  reads as \<open>{"detail": [...]}\<close> with one object for each issue, in order, that holds the location,
  the message and the type unchanged.
\<close>

theorem validation_errors_json:
  assumes "list_all2 (\<lambda>issue loc. reads_as 125 (vi_loc_json issue) loc) issues locs"
  shows "ParseDocument (QuackapiValidationErrorsJson issues) =
    Some (JsonNode OBJECT [] [] [(''detail'', JsonNode ARRAY [] (map2 issue_node issues locs) [])])"
proof -
  let ?t = "\<lambda>issue. ''{'' @ json_member ''loc'' (vi_loc_json issue) @ '','' @ json_member ''msg'' (json_quote (vi_message issue)) @ '','' @
         json_member ''type'' (json_quote (vi_type issue)) @ ''}''"
  have issue: "reads_as (Suc 125) (?t issue) (issue_node issue loc)" if "reads_as 125 (vi_loc_json issue) loc" for issue loc
    unfolding issue_node_def by (rule reads_object3) (use that reads_string in simp_all)
  have "list_all2 (reads_as (Suc 125)) (map ?t issues) (map2 issue_node issues locs)"
    using assms by (induction issues locs rule: list_all2_induct) (use issue in auto)
  from reads_object1 [OF reads_array [OF this], of "''detail''"]
  have "reads_as MAX_NESTING_DEPTH (QuackapiValidationErrorsJson issues)
      (JsonNode OBJECT [] [] [(''detail'', JsonNode ARRAY [] (map2 issue_node issues locs) [])])"
    by (simp add: QuackapiValidationErrorsJson_def MAX_NESTING_DEPTH_def)
  then show ?thesis by (rule reads_as_document)
qed

definition missing_issue :: QuackapiValidationIssue where
  "missing_issue = \<lparr>vi_loc_json = QuackapiValidationBodyPointerLoc [] [], vi_message = ''Field required'', vi_type = ''missing''\<rparr>"

theorem validation_errors_json_witness:
  "\<exists>loc. ParseDocument (QuackapiValidationErrorsJson [missing_issue]) =
    Some (JsonNode OBJECT [] [] [(''detail'', JsonNode ARRAY [] [issue_node missing_issue loc] [])])"
proof -
  obtain loc where "reads_as (Suc 124) (QuackapiValidationBodyPointerLoc [] []) loc" using pointer_loc_reads by blast
  then have "list_all2 (\<lambda>issue loc. reads_as 125 (vi_loc_json issue) loc) [missing_issue] [loc]"
    by (simp add: missing_issue_def)
  from validation_errors_json [OF this] show ?thesis by auto
qed

lemma empty_object_reads: "reads_as (Suc n) ''{}'' (JsonNode OBJECT [] [] [])"
  using reads_object [of "[]" n] by simp

lemma scalar_openapi_reads: "\<exists>node. reads_as (Suc n) (TransformScalarToOpenApi U declared_type) node"
proof -
  define Q where "Q = (\<lambda>t. \<exists>node. reads_as (Suc n) t node)"
  have both: "Q t \<Longrightarrow> Q u \<Longrightarrow> Q (if b then t else u)" for t u b by simp
  have q: "Q (type_object t)" "Q (type_format_object t f)" "Q ''{}''" for t f
    unfolding Q_def type_object_def type_format_object_def
    by (rule exI, rule reads_object1 [OF reads_string], simp)
      (rule exI, rule reads_object2 [OF reads_string reads_string], simp, simp, rule exI, rule empty_object_reads)
  have "Q (TransformScalarToOpenApi U declared_type)"
    unfolding TransformScalarToOpenApi_def Let_def by (intro both q)
  then show ?thesis by (simp add: Q_def)
qed

lemma openapi_reads: "read_node n v \<Longrightarrow> \<exists>node. reads_as (Suc (2 * n + m)) (TransformNodeToOpenApi U v) node"
proof (induction v arbitrary: n m)
  case (JsonNode kind scalar children members)
  show ?case
  proof (cases kind)
    case STRING
    then show ?thesis using scalar_openapi_reads by simp
  next
    case ARRAY
    with JsonNode.prems obtain n' where n: "n = Suc n'" by (cases n) auto
    let ?items = "case children of [] \<Rightarrow> ''{}'' | child # _ \<Rightarrow> TransformNodeToOpenApi U child"
    have "\<exists>node. reads_as (Suc (2 * n' + Suc m)) ?items node"
    proof (cases children)
      case Nil
      then show ?thesis using empty_object_reads by auto
    next
      case (Cons c cs)
      with JsonNode.IH(1) [of c n' "Suc m"] JsonNode.prems ARRAY n show ?thesis by simp
    qed
    then obtain node where "reads_as (Suc (2 * n' + Suc m)) ?items node" by blast
    from reads_object2 [OF reads_string this, of "''type''" "''items''" "''array''"] show ?thesis using ARRAY n by auto
  next
    case OBJECT
    with JsonNode.prems obtain n' where n: "n = Suc n'" by (cases n) auto
    have "\<forall>p \<in> set members. \<exists>node. reads_as (Suc (2 * n' + m)) (TransformNodeToOpenApi U (snd p)) node"
      using JsonNode OBJECT n by (auto simp: snds.simps)
    then obtain f where f: "\<forall>p \<in> set members. reads_as (Suc (2 * n' + m)) (TransformNodeToOpenApi U (snd p)) (f p)"
      by metis
    let ?ms = "map (\<lambda>p. (fst p, TransformNodeToOpenApi U (snd p), f p)) members"
    have "\<forall>(key, t, node) \<in> set ?ms. reads_as (Suc (2 * n' + m)) t node" using f by auto
    from reads_object2 [OF reads_string reads_object [OF this], of "''type''" "''properties''" "''object''"]
    show ?thesis using OBJECT n by (auto simp: comp_def member_text_def)
  qed (use empty_object_reads in auto)
qed

text \<open>
  The OpenAPI text of a declared body structure is a complete JSON value for every
  declaration, also for one that does not read; the text nests at most twice as deep as the
  declaration, plus one level.
\<close>

theorem openapi_text_json:
  "\<exists>node. ParseValue (2 * MAX_NESTING_DEPTH + 1) (QuackapiDuckdbTransformToOpenApi U body_type) = Some (node, [])"
proof -
  have "\<exists>node. reads_as (Suc (2 * MAX_NESTING_DEPTH + 0)) (QuackapiDuckdbTransformToOpenApi U body_type) node"
  proof (cases "ParseDocument body_type")
    case None
    then show ?thesis using empty_object_reads by (auto simp: QuackapiDuckdbTransformToOpenApi_def)
  next
    case (Some v)
    with openapi_reads [OF ParseDocument_node [OF Some], of 0 U] show ?thesis
      by (simp add: QuackapiDuckdbTransformToOpenApi_def)
  qed
  then show ?thesis unfolding reads_as_def by (metis Suc_eq_plus1 add_0_right append_Nil2)
qed

text \<open>
  Escaping and reading are inverse on every byte string: the quoted, escaped text of a string
  reads back as that string, and the reader stops right after the closing quote.
\<close>

theorem json_string_roundtrip: "ParseString (json_quote s @ rest) = Some (s, rest)"
  by (rule ParseString_quote)

end
