(* ===== verification/Auth.thy ===== *)
theory Auth
  imports Registry Json
begin

text \<open>
  Authentication (\<open>quackapi_auth.cpp\<close> after the crypto helpers): JWT verification, API keys, the
  enforcement of a route's \<open>REQUIRE\<close>, and the DDL of auth schemes.

  DuckDB's JSON functions are the record \<open>json_db\<close>: whether a text is JSON, the type of its root
  (\<open>None\<close> when the query fails), and the key and text of each field. Claims are an association list
  with distinct keys. The clock is read once for \<open>exp\<close> and once for \<open>nbf\<close>.
\<close>

section \<open>JWT verification\<close>

record json_db =
  jd_is_json :: "string \<Rightarrow> bool"
  jd_type :: "string \<Rightarrow> string option"
  jd_fields :: "string \<Rightarrow> (string option \<times> string option) list option"

type_synonym claims = "(string \<times> string) list"

text \<open>The rows of \<open>json_each\<close>; the second component collects the keys whose value is null.\<close>

fun collect_claims :: "string list \<Rightarrow> claims \<Rightarrow> string list \<Rightarrow> (string option \<times> string option) list \<Rightarrow>
  (claims \<times> string list) option" where
  "collect_claims seen claims nulls [] = Some (claims, nulls)"
| "collect_claims seen claims nulls ((None, _) # rows) = collect_claims seen claims nulls rows"
| "collect_claims seen claims nulls ((Some key, val) # rows) =
     (if key \<in> set seen then None
      else case val of
          None \<Rightarrow> collect_claims (key # seen) claims (nulls @ [key]) rows
        | Some v \<Rightarrow> collect_claims (key # seen) (claims @ [(key, v)]) nulls rows)"

definition ParseJsonObjectClaims :: "json_db \<Rightarrow> string \<Rightarrow> (claims \<times> string list) option" where
  "ParseJsonObjectClaims J json =
     (if \<not> jd_is_json J json then None
      else if jd_type J json \<noteq> Some ''OBJECT'' then None
      else case jd_fields J json of None \<Rightarrow> None | Some rows \<Rightarrow> collect_claims [] [] [] rows)"

record QuackapiAuthResult =
  ar_ok :: bool
  ar_status :: int
  ar_body :: string
  ar_www_authenticate :: string
  ar_claims :: claims

definition DetailJson :: "string \<Rightarrow> string" where
  "DetailJson detail = ''{'' @ json_member ''detail'' (json_quote detail) @ ''}''"

definition Fail401 :: "string \<Rightarrow> string \<Rightarrow> QuackapiAuthResult" where
  "Fail401 detail www_auth = \<lparr>ar_ok = False, ar_status = 401, ar_body = DetailJson detail,
     ar_www_authenticate = www_auth, ar_claims = []\<rparr>"

definition FailClosedUnconfiguredScheme :: QuackapiAuthResult where
  "FailClosedUnconfiguredScheme = Fail401 ''Not authenticated'' []"

definition ExtractBearer :: "string_util \<Rightarrow> string \<Rightarrow> string option" where
  "ExtractBearer U authorization =
     (if length authorization < 7 then None
      else if su_lower U (take 6 authorization) \<noteq> ''bearer'' \<or> \<not> su_space U (authorization ! 6) then None
      else let token = dropWhile (su_space U) (drop 6 authorization) in
        if token = [] then None else Some token)"

text \<open>
  \<open>std::stoll\<close>: leading white space, an optional sign, decimal digits; the value and how many
  characters it took. It throws (\<open>None\<close>) without digits or out of the range of \<open>long long\<close>.
\<close>

definition stoll_digits :: "string \<Rightarrow> int" where
  "stoll_digits = foldl (\<lambda>n c. n * 10 + (int (byte c) - 48)) 0"

definition stoll :: "string \<Rightarrow> (int \<times> nat) option" where
  "stoll s =
     (let t = dropWhile ascii_space s;
          signed = (t \<noteq> [] \<and> (hd t = CHR ''-'' \<or> hd t = CHR ''+''));
          u = (if signed then tl t else t);
          digits = takeWhile is_digit u;
          v = (if signed \<and> hd t = CHR ''-'' then - stoll_digits digits else stoll_digits digits)
      in if digits = [] \<or> v < - (2 ^ 63) \<or> 2 ^ 63 \<le> v then None
      else Some (v, length s - length (dropWhile is_digit u)))"

definition stoll_all :: "string \<Rightarrow> int option" where
  "stoll_all s = (case stoll s of None \<Rightarrow> None | Some (v, consumed) \<Rightarrow> if consumed \<noteq> length s then None else Some v)"

definition invalid_credentials :: string where
  "invalid_credentials = ''Invalid authentication credentials''"

definition exp_ok :: "int \<Rightarrow> claims \<Rightarrow> bool" where
  "exp_ok now claims = (case map_of claims ''exp'' of None \<Rightarrow> True
     | Some t \<Rightarrow> (case stoll_all t of None \<Rightarrow> False | Some v \<Rightarrow> \<not> v \<le> now))"

definition nbf_ok :: "int \<Rightarrow> claims \<Rightarrow> bool" where
  "nbf_ok now claims = (case map_of claims ''nbf'' of None \<Rightarrow> True
     | Some t \<Rightarrow> (case stoll_all t of None \<Rightarrow> False | Some v \<Rightarrow> \<not> v > now))"

text \<open>The checks of header and payload, once the signature has been verified.\<close>

definition jwt_contents :: "mbedtls \<Rightarrow> json_db \<Rightarrow> int \<Rightarrow> int \<Rightarrow> string \<Rightarrow> string \<Rightarrow> string + claims" where
  "jwt_contents M J now_exp now_nbf header_b64 payload_b64 =
     (case QuackapiBase64UrlDecode M header_b64 of
        None \<Rightarrow> Inl invalid_credentials
      | Some header_json \<Rightarrow> (case ParseJsonObjectClaims J header_json of
        None \<Rightarrow> Inl invalid_credentials
      | Some (header_claims, _) \<Rightarrow>
      if map_of header_claims ''alg'' \<noteq> Some ''HS256'' then Inl invalid_credentials
      else case QuackapiBase64UrlDecode M payload_b64 of
        None \<Rightarrow> Inl invalid_credentials
      | Some payload_json \<Rightarrow> (case ParseJsonObjectClaims J payload_json of
        None \<Rightarrow> Inl invalid_credentials
      | Some (claims, nulls) \<Rightarrow>
      if ''exp'' \<in> set nulls \<or> ''nbf'' \<in> set nulls then Inl invalid_credentials
      else if \<not> exp_ok now_exp claims then Inl invalid_credentials
      else if \<not> nbf_ok now_nbf claims then Inl invalid_credentials
      else Inr claims)))"

definition dot :: "char \<Rightarrow> bool" where
  "dot c = (c = CHR ''.'')"

text \<open>The three parts of a token with exactly two dots.\<close>

definition jwt_parts :: "string \<Rightarrow> (string \<times> string \<times> string) option" where
  "jwt_parts token =
     (case dropWhile (\<lambda>c. \<not> dot c) token of
        [] \<Rightarrow> None
      | _ # rest1 \<Rightarrow> (case dropWhile (\<lambda>c. \<not> dot c) rest1 of
            [] \<Rightarrow> None
          | _ # sig_b64 \<Rightarrow>
              if list_ex dot sig_b64 then None
              else Some (takeWhile (\<lambda>c. \<not> dot c) token, takeWhile (\<lambda>c. \<not> dot c) rest1, sig_b64)))"

definition VerifyJwtHs256 :: "mbedtls \<Rightarrow> json_db \<Rightarrow> int \<Rightarrow> int \<Rightarrow> string \<Rightarrow> string \<Rightarrow> (string + claims) result" where
  "VerifyJwtHs256 M J now_exp now_nbf token secret =
     (case jwt_parts token of
        None \<Rightarrow> Inr (Inl invalid_credentials)
      | Some (header_b64, payload_b64, sig_b64) \<Rightarrow>
      if header_b64 = [] \<or> payload_b64 = [] \<or> sig_b64 = [] then Inr (Inl invalid_credentials)
      else case QuackapiHmacSha256 M secret (header_b64 @ ''.'' @ payload_b64) of
        Inl e \<Rightarrow> Inl e
      | Inr expected_sig \<Rightarrow> (case QuackapiBase64UrlDecode M sig_b64 of
        None \<Rightarrow> Inr (Inl invalid_credentials)
      | Some actual_sig \<Rightarrow>
      if \<not> QuackapiConstantTimeEquals M expected_sig actual_sig then Inr (Inl invalid_credentials)
      else Inr (jwt_contents M J now_exp now_nbf header_b64 payload_b64)))"

section \<open>Enforcement\<close>

type_synonym headers = "(string \<times> string) list"

definition HeaderGet :: "string_util \<Rightarrow> headers \<Rightarrow> string \<Rightarrow> string" where
  "HeaderGet U headers name = (case List.find (\<lambda>h. su_ci_equals U (fst h) name) headers of
     None \<Rightarrow> [] | Some h \<Rightarrow> snd h)"

definition ExtractAuthString :: "string_util \<Rightarrow> QuackapiAuth \<Rightarrow> headers \<Rightarrow> string" where
  "ExtractAuthString U auth headers = (case au_kind auth of
       API_KEY \<Rightarrow>
         (let raw_key = HeaderGet U headers (au_header auth) in
          if raw_key \<noteq> [] then raw_key
          else case ExtractBearer U (HeaderGet U headers ''Authorization'') of None \<Rightarrow> [] | Some t \<Rightarrow> t)
     | JWT_HS256 \<Rightarrow> (case ExtractBearer U (HeaderGet U headers ''Authorization'') of None \<Rightarrow> [] | Some t \<Rightarrow> t))"

definition ClaimsToJson :: "claims \<Rightarrow> string" where
  "ClaimsToJson claims =
     ''{'' @ comma_list (map (\<lambda>(k, v). json_quote k @ '':'' @ json_quote v) claims) @ ''}''"

text \<open>The loop over the keys of a scheme: every hash is compared, the first match gives the subject.\<close>

fun match_key :: "mbedtls \<Rightarrow> string \<Rightarrow> string option \<Rightarrow> QuackapiApiKeyEntry list \<Rightarrow> string option" where
  "match_key M hash found [] = found"
| "match_key M hash found (entry # keys) =
     match_key M hash (if QuackapiConstantTimeEquals M hash (ak_key_hash entry) \<and> found = None
                       then Some (ak_subject entry) else found) keys"

definition auth_accepted :: "claims \<Rightarrow> QuackapiAuthResult" where
  "auth_accepted claims = \<lparr>ar_ok = True, ar_status = 200, ar_body = [], ar_www_authenticate = [], ar_claims = claims\<rparr>"

definition VerifyAuthScheme :: "string_util \<Rightarrow> mbedtls \<Rightarrow> json_db \<Rightarrow> int \<Rightarrow> int \<Rightarrow> 'v QuackapiState \<Rightarrow> string \<Rightarrow> string \<Rightarrow>
  QuackapiAuthResult result" where
  "VerifyAuthScheme U M J now_exp now_nbf s scheme_name auth_string =
     (case GetAuth U scheme_name s of
        None \<Rightarrow> Inr FailClosedUnconfiguredScheme
      | Some auth \<Rightarrow> (case au_kind auth of
        API_KEY \<Rightarrow>
          if auth_string = [] then Inr (Fail401 ''Not authenticated'' ''ApiKey'')
          else (case QuackapiSha256 M auth_string of
              Inl e \<Rightarrow> Inl e
            | Inr hash \<Rightarrow> (case match_key M hash None (SnapshotApiKeys U (au_name auth) s) of
                  None \<Rightarrow> Inr (Fail401 invalid_credentials [])
                | Some subject \<Rightarrow> Inr (auth_accepted [(''sub'', subject)])))
      | JWT_HS256 \<Rightarrow>
          if auth_string = [] then Inr (Fail401 ''Not authenticated'' ''Bearer'')
          else (case VerifyJwtHs256 M J now_exp now_nbf auth_string (au_secret auth) of
              Inl e \<Rightarrow> Inl e
            | Inr (Inl err) \<Rightarrow> Inr (Fail401 err [])
            | Inr (Inr claims) \<Rightarrow> Inr (auth_accepted claims))))"

definition CheckAuth :: "string_util \<Rightarrow> mbedtls \<Rightarrow> json_db \<Rightarrow> int \<Rightarrow> int \<Rightarrow> 'v QuackapiState \<Rightarrow> 'v QuackapiRoute \<Rightarrow> headers \<Rightarrow>
  QuackapiAuthResult result" where
  "CheckAuth U M J now_exp now_nbf s route headers =
     (if rt_require_auth route = [] then
        Inr \<lparr>ar_ok = True, ar_status = 401, ar_body = [], ar_www_authenticate = [], ar_claims = []\<rparr>
      else case GetAuth U (rt_require_auth route) s of
          None \<Rightarrow> Inr FailClosedUnconfiguredScheme
        | Some auth \<Rightarrow>
            VerifyAuthScheme U M J now_exp now_nbf s (rt_require_auth route) (ExtractAuthString U auth headers))"

section \<open>The DDL of auth schemes\<close>

record AuthDdlParseData =
  ad_action :: string
  ad_or_replace :: bool
  ad_auth :: QuackapiAuth

definition quote_char :: "char \<Rightarrow> bool" where
  "quote_char c = (c = CHR 0x27)"

text \<open>The option loop of a JWT scheme, over the rest of the options; the result is the last secret.\<close>

function jwt_options :: "string_util \<Rightarrow> string option \<Rightarrow> string \<Rightarrow> string + string option" where
  "jwt_options U secret s =
     (let slice = dropWhile (\<lambda>c. su_space U c \<or> c = CHR '','') s; slice_upper = su_upper U slice in
      if slice = [] then Inr secret
      else if su_starts_with U slice_upper ''SECRET'' then
        (let t = dropWhile (su_space U) (drop 6 slice) in
         if t = [] \<or> \<not> quote_char (hd t) then Inl ''SECRET expects a quoted string''
         else let new_secret = takeWhile (\<lambda>c. \<not> quote_char c) (tl t); after = dropWhile (\<lambda>c. \<not> quote_char c) (tl t) in
           if after = [] then Inl ''Unterminated SECRET string''
           else if new_secret = [] then Inl ''SECRET must not be empty''
           else jwt_options U (Some new_secret) (tl after))
      else if su_starts_with U slice_upper ''ALGORITHM'' then
        (let t = dropWhile (su_space U) (drop 9 slice);
             alg = su_upper U (takeWhile (\<lambda>c. \<not> su_space U c \<and> c \<noteq> CHR '','') t) in
         if alg \<noteq> ''HS256'' then Inl ''Only ALGORITHM HS256 is supported''
         else jwt_options U secret (dropWhile (\<lambda>c. \<not> su_space U c \<and> c \<noteq> CHR '','') t))
      else Inl ''JWT options: SECRET '<secret>' [, ALGORITHM HS256 ]'')"
  by pat_completeness auto
termination
proof (relation "measure (\<lambda>(U, secret, s). length s)", goal_cases)
  case (2 U secret s slice slice_upper t new_secret after)
  have "length after \<le> length (tl t)" unfolding 2(8) by (rule length_dropWhile_le)
  moreover have "length t \<le> length (drop 6 slice)" unfolding 2(5) by (rule length_dropWhile_le)
  moreover have "length slice \<le> length s" unfolding 2(1) by (rule length_dropWhile_le)
  moreover have "length (drop 6 slice) < length slice" using 2(3) by simp
  ultimately show ?case by simp
next
  case (3 U secret s slice slice_upper t alg)
  have "length (dropWhile (\<lambda>c. \<not> su_space U c \<and> c \<noteq> CHR '','') t) \<le> length t" by (rule length_dropWhile_le)
  moreover have "length t \<le> length (drop 9 slice)" unfolding 3(6) by (rule length_dropWhile_le)
  moreover have "length slice \<le> length s" unfolding 3(1) by (rule length_dropWhile_le)
  moreover have "length (drop 9 slice) < length slice" using 3(3) by simp
  ultimately show ?case by simp
qed simp

declare jwt_options.simps [simp del]

text \<open>The text between the first parenthesis and the first closing one, and what follows it.\<close>

definition paren_group :: "string \<Rightarrow> (string \<times> string) option" where
  "paren_group rest = (case dropWhile (\<lambda>c. c \<noteq> CHR '')'') rest of
       [] \<Rightarrow> None
     | _ # after \<Rightarrow> Some (tl (takeWhile (\<lambda>c. c \<noteq> CHR '')'') rest), after))"

definition api_key_options :: "string_util \<Rightarrow> string \<Rightarrow> string \<Rightarrow> string + QuackapiAuth" where
  "api_key_options U name rest0 =
     (let rest = QuackapiTrim U (drop 7 rest0);
          auth = \<lparr>au_name = name, au_kind = API_KEY, au_header = ''X-API-Key'', au_secret = []\<rparr> in
      if rest = [] then Inr auth
      else if hd rest \<noteq> CHR ''('' then Inl ''Unexpected tokens after API_KEY''
      else case paren_group rest of
        None \<Rightarrow> Inl ''Unterminated API_KEY options''
      | Some (group0, after) \<Rightarrow>
          let opts = QuackapiTrim U group0 in
          if su_starts_with U (su_upper U opts) ''HEADER '' then
            (let hrest = QuackapiTrim U (drop 7 opts) in
             if length hrest < 2 \<or> \<not> quote_char (hd hrest) \<or> \<not> quote_char (last hrest) then
               Inl ''HEADER expects a quoted string''
             else let header = take (length hrest - 2) (drop 1 hrest) in
               if header = [] then Inl ''HEADER must not be empty''
               else if QuackapiTrim U after \<noteq> [] then Inl ''Unexpected tokens after API_KEY''
               else Inr (auth\<lparr>au_header := header\<rparr>))
          else if opts \<noteq> [] then Inl (''API_KEY options: expected HEADER '<name>'' @ [CHR 0x27])
          else if QuackapiTrim U after \<noteq> [] then Inl ''Unexpected tokens after API_KEY''
          else Inr auth)"

definition secret_required :: string where
  "secret_required = ''JWT requires SECRET '<secret>'' @ [CHR 0x27]"

definition jwt_scheme :: "string_util \<Rightarrow> string \<Rightarrow> string \<Rightarrow> string + QuackapiAuth" where
  "jwt_scheme U name rest0 =
     (let rest = QuackapiTrim U (drop 3 rest0) in
      if rest = [] \<or> hd rest \<noteq> CHR ''('' then Inl ''JWT requires ( SECRET '<secret>' [, ALGORITHM HS256 ] )''
      else case paren_group rest of
        None \<Rightarrow> Inl ''Unterminated JWT options''
      | Some (group0, after) \<Rightarrow>
          let opts = QuackapiTrim U group0 in
          if opts = [] then Inl secret_required
          else case jwt_options U None opts of
            Inl e \<Rightarrow> Inl e
          | Inr None \<Rightarrow> Inl secret_required
          | Inr (Some secret) \<Rightarrow>
              if QuackapiTrim U after \<noteq> [] then Inl ''Unexpected tokens after JWT options''
              else Inr \<lparr>au_name = name, au_kind = JWT_HS256, au_header = [], au_secret = secret\<rparr>)"

definition AuthCreateParse :: "string_util \<Rightarrow> bool \<Rightarrow> string \<Rightarrow> AuthDdlParseData parse_outcome" where
  "AuthCreateParse U or_replace rest0 =
     (let rest = QuackapiTrim U rest0; name = takeWhile (\<lambda>c. c \<noteq> CHR '' '') rest in
      if name = rest then DISPLAY_EXTENSION_ERROR ''CREATE AUTH <name> AS API_KEY | JWT (...)''
      else let rest1 = QuackapiTrim U (dropWhile (\<lambda>c. c \<noteq> CHR '' '') rest) in
      if \<not> su_starts_with U (su_upper U rest1) ''AS '' then
        DISPLAY_EXTENSION_ERROR ''Expected AS API_KEY | JWT after auth name''
      else let rest2 = QuackapiTrim U (drop 3 rest1); upper2 = su_upper U rest2;
               scheme = (if su_starts_with U upper2 ''API_KEY'' then api_key_options U name rest2
                         else if su_starts_with U upper2 ''JWT'' then jwt_scheme U name rest2
                         else Inl ''Unknown AUTH kind - expected API_KEY or JWT'') in
      case scheme of
        Inl e \<Rightarrow> DISPLAY_EXTENSION_ERROR e
      | Inr auth \<Rightarrow> PARSE_SUCCESSFUL \<lparr>ad_action = ''CREATE'', ad_or_replace = or_replace, ad_auth = auth\<rparr>)"

definition AuthDdlParse :: "string_util \<Rightarrow> string \<Rightarrow> AuthDdlParseData parse_outcome" where
  "AuthDdlParse U query =
     (let q = QuackapiTrim U query; upper = su_upper U q in
      if su_starts_with U upper ''CREATE AUTH '' then AuthCreateParse U False (drop 12 q)
      else if su_starts_with U upper ''CREATE OR REPLACE AUTH '' then AuthCreateParse U True (drop 23 q)
      else if su_starts_with U upper ''DROP AUTH '' then
        (let name = QuackapiTrim U (drop 10 q) in
         if name = [] \<or> CHR '' '' \<in> set name then DISPLAY_EXTENSION_ERROR ''DROP AUTH expects a single auth name''
         else PARSE_SUCCESSFUL \<lparr>ad_action = ''DROP'', ad_or_replace = False,
           ad_auth = \<lparr>au_name = name, au_kind = API_KEY, au_header = [], au_secret = []\<rparr>\<rparr>)
      else DISPLAY_ORIGINAL_ERROR)"

definition AuthKindToString :: "QuackapiAuthKind \<Rightarrow> string" where
  "AuthKindToString kind = (case kind of API_KEY \<Rightarrow> ''API_KEY'' | JWT_HS256 \<Rightarrow> ''JWT_HS256'')"

text \<open>The plan passes the kind as text; the application reads it back.\<close>

definition ApplyAuthExec :: "string_util \<Rightarrow> string \<Rightarrow> bool \<Rightarrow> string \<Rightarrow> string \<Rightarrow> string \<Rightarrow> string \<Rightarrow> 'v QuackapiState \<Rightarrow>
  (string \<times> 'v QuackapiState) result" where
  "ApplyAuthExec U action or_replace name kind header secret s =
     (if action = ''CREATE'' then
        (if kind \<noteq> ''API_KEY'' \<and> kind \<noteq> ''JWT_HS256'' then Inl (InvalidInput ''Unknown auth kind'' [kind])
         else let auth = (if kind = ''API_KEY''
             then \<lparr>au_name = name, au_kind = API_KEY, au_header = (if header = [] then ''X-API-Key'' else header), au_secret = []\<rparr>
             else \<lparr>au_name = name, au_kind = JWT_HS256, au_header = [], au_secret = secret\<rparr>) in
           case AddAuth U auth or_replace s of
             Inl e \<Rightarrow> Inl e
           | Inr s' \<Rightarrow> Inr (''Auth '' @ name @ '': '' @ kind, s'))
      else case DropAuth U name s of
          (True, s') \<Rightarrow> Inr (''Dropped auth '' @ name, s')
        | (False, _) \<Rightarrow> Inl (InvalidInput ''Auth does not exist'' [name]))"

definition AuthDdlPlan :: "string_util \<Rightarrow> AuthDdlParseData \<Rightarrow> 'v QuackapiState \<Rightarrow> (string \<times> 'v QuackapiState) result" where
  "AuthDdlPlan U d = ApplyAuthExec U (ad_action d) (ad_or_replace d) (au_name (ad_auth d))
     (AuthKindToString (au_kind (ad_auth d))) (au_header (ad_auth d)) (au_secret (ad_auth d))"

definition AuthsExec :: "'v QuackapiState \<Rightarrow> (string \<times> string \<times> string) list" where
  "AuthsExec s = map (\<lambda>auth. (au_name auth, AuthKindToString (au_kind auth),
     if au_kind auth = JWT_HS256 then ''Authorization'' else au_header auth)) (SnapshotAuths s)"

text \<open>The SQL function \<open>quackapi_verify_auth\<close>: its row, with null arguments as empty strings.\<close>

definition QuackapiVerifyAuthFunction :: "string_util \<Rightarrow> mbedtls \<Rightarrow> json_db \<Rightarrow> int \<Rightarrow> int \<Rightarrow> 'v QuackapiState \<Rightarrow>
  string option \<Rightarrow> string option \<Rightarrow> (bool \<times> int \<times> string \<times> string \<times> string) result" where
  "QuackapiVerifyAuthFunction U M J now_exp now_nbf s scheme auth_string =
     (case VerifyAuthScheme U M J now_exp now_nbf s (case scheme of None \<Rightarrow> [] | Some x \<Rightarrow> x)
         (case auth_string of None \<Rightarrow> [] | Some x \<Rightarrow> x) of
        Inl e \<Rightarrow> Inl e
      | Inr r \<Rightarrow> Inr (ar_ok r, ar_status r, ar_body r, ar_www_authenticate r,
          if ar_ok r then ClaimsToJson (ar_claims r) else ''{}''))"

section \<open>Tokens\<close>

definition no_dot :: "string \<Rightarrow> bool" where
  "no_dot s = list_all (\<lambda>c. \<not> dot c) s"

lemma dropWhile_no_dot:
  "no_dot h \<Longrightarrow> takeWhile (\<lambda>c. \<not> dot c) (h @ CHR ''.'' # r) = h"
  "no_dot h \<Longrightarrow> dropWhile (\<lambda>c. \<not> dot c) (h @ CHR ''.'' # r) = CHR ''.'' # r"
  by (induction h) (simp_all add: no_dot_def dot_def)

lemma split_dot:
  assumes "dropWhile (\<lambda>c. \<not> dot c) s = d # r"
  shows "d = CHR ''.'' \<and> s = takeWhile (\<lambda>c. \<not> dot c) s @ CHR ''.'' # r \<and> no_dot (takeWhile (\<lambda>c. \<not> dot c) s)"
proof -
  have "\<not> \<not> dot d" using hd_dropWhile [of "\<lambda>c. \<not> dot c" s] assms by auto
  moreover have "s = takeWhile (\<lambda>c. \<not> dot c) s @ d # r" using assms takeWhile_dropWhile_id [of "\<lambda>c. \<not> dot c" s] by simp
  ultimately show ?thesis by (auto simp: dot_def no_dot_def list_all_iff dest: set_takeWhileD)
qed

lemma jwt_parts_iff:
  "jwt_parts token = Some (h, p, sig) \<longleftrightarrow>
   token = h @ ''.'' @ p @ ''.'' @ sig \<and> no_dot h \<and> no_dot p \<and> no_dot sig"
proof
  assume a: "jwt_parts token = Some (h, p, sig)"
  then obtain d1 r1 d2 where 1: "dropWhile (\<lambda>c. \<not> dot c) token = d1 # r1" "dropWhile (\<lambda>c. \<not> dot c) r1 = d2 # sig"
    and h: "h = takeWhile (\<lambda>c. \<not> dot c) token" "p = takeWhile (\<lambda>c. \<not> dot c) r1" "\<not> list_ex dot sig"
    by (auto simp: jwt_parts_def split: list.splits if_splits)
  from split_dot [OF 1(1)] split_dot [OF 1(2)] h
  have "token = h @ CHR ''.'' # r1" "r1 = p @ CHR ''.'' # sig" "no_dot h" "no_dot p" by simp_all
  with h(3) show "token = h @ ''.'' @ p @ ''.'' @ sig \<and> no_dot h \<and> no_dot p \<and> no_dot sig"
    by (auto simp: no_dot_def list_ex_iff list_all_iff)
next
  assume a: "token = h @ ''.'' @ p @ ''.'' @ sig \<and> no_dot h \<and> no_dot p \<and> no_dot sig"
  then have "\<not> list_ex dot sig" by (auto simp: no_dot_def list_ex_iff list_all_iff)
  with a show "jwt_parts token = Some (h, p, sig)" by (simp add: jwt_parts_def dropWhile_no_dot)
qed

text \<open>What an accepted token is.\<close>

definition jwt_valid :: "mbedtls \<Rightarrow> json_db \<Rightarrow> int \<Rightarrow> int \<Rightarrow> string \<Rightarrow> string \<Rightarrow> claims \<Rightarrow> bool" where
  "jwt_valid M J now_exp now_nbf token secret claims \<longleftrightarrow>
     (\<exists>h p sig mac header_json payload_json header header_nulls nulls.
        token = h @ ''.'' @ p @ ''.'' @ sig \<and> no_dot h \<and> no_dot p \<and> no_dot sig \<and> h \<noteq> [] \<and> p \<noteq> [] \<and> sig \<noteq> [] \<and>
        QuackapiHmacSha256 M secret (h @ ''.'' @ p) = Inr mac \<and> QuackapiBase64UrlDecode M sig = Some mac \<and>
        QuackapiBase64UrlDecode M h = Some header_json \<and> ParseJsonObjectClaims J header_json = Some (header, header_nulls) \<and>
        map_of header ''alg'' = Some ''HS256'' \<and>
        QuackapiBase64UrlDecode M p = Some payload_json \<and> ParseJsonObjectClaims J payload_json = Some (claims, nulls) \<and>
        ''exp'' \<notin> set nulls \<and> ''nbf'' \<notin> set nulls \<and>
        (\<forall>t. map_of claims ''exp'' = Some t \<longrightarrow> (\<exists>v. stoll_all t = Some v \<and> now_exp < v)) \<and>
        (\<forall>t. map_of claims ''nbf'' = Some t \<longrightarrow> (\<exists>v. stoll_all t = Some v \<and> v \<le> now_nbf)))"

lemma exp_ok_iff: "exp_ok now claims \<longleftrightarrow> (\<forall>t. map_of claims ''exp'' = Some t \<longrightarrow> (\<exists>v. stoll_all t = Some v \<and> now < v))"
  by (auto simp: exp_ok_def split: option.splits)

lemma nbf_ok_iff: "nbf_ok now claims \<longleftrightarrow> (\<forall>t. map_of claims ''nbf'' = Some t \<longrightarrow> (\<exists>v. stoll_all t = Some v \<and> v \<le> now))"
  by (auto simp: nbf_ok_def split: option.splits)

lemma jwt_contents_iff:
  "jwt_contents M J now_exp now_nbf h p = Inr claims \<longleftrightarrow>
   (\<exists>header_json payload_json header header_nulls nulls.
      QuackapiBase64UrlDecode M h = Some header_json \<and> ParseJsonObjectClaims J header_json = Some (header, header_nulls) \<and>
      map_of header ''alg'' = Some ''HS256'' \<and>
      QuackapiBase64UrlDecode M p = Some payload_json \<and> ParseJsonObjectClaims J payload_json = Some (claims, nulls) \<and>
      ''exp'' \<notin> set nulls \<and> ''nbf'' \<notin> set nulls \<and> exp_ok now_exp claims \<and> nbf_ok now_nbf claims)"
  unfolding jwt_contents_def by (auto split: option.splits if_splits prod.splits)

lemma VerifyJwtHs256_Inr:
  "VerifyJwtHs256 M J now_exp now_nbf token secret = Inr (Inr claims) \<longleftrightarrow>
   (\<exists>h p sig mac actual. jwt_parts token = Some (h, p, sig) \<and> h \<noteq> [] \<and> p \<noteq> [] \<and> sig \<noteq> [] \<and>
      QuackapiHmacSha256 M secret (h @ ''.'' @ p) = Inr mac \<and> QuackapiBase64UrlDecode M sig = Some actual \<and>
      QuackapiConstantTimeEquals M mac actual \<and> jwt_contents M J now_exp now_nbf h p = Inr claims)"
  unfolding VerifyJwtHs256_def by (auto split: option.splits if_splits prod.splits sum.splits)

lemma VerifyJwtHs256_valid:
  assumes "mbedtls_ok M"
  shows "VerifyJwtHs256 M J now_exp now_nbf token secret = Inr (Inr claims) \<longleftrightarrow>
    jwt_valid M J now_exp now_nbf token secret claims"
  unfolding VerifyJwtHs256_Inr jwt_parts_iff constant_time_equals_iff [OF assms] jwt_contents_iff exp_ok_iff nbf_ok_iff
    jwt_valid_def by blast

lemma set_bits_encode: "set (bits_encode d) \<subseteq> {CHR ''A'', CHR ''B''}"
  by (induction d rule: bits_encode.induct) auto

lemma bits_decode_url: "QuackapiBase64UrlDecode bits_mbedtls (bits_encode d) = Some d"
proof -
  have "from_base64url (bits_encode d) = bits_encode d"
    unfolding from_base64url_def using set_bits_encode [of d] by (intro map_idI) auto
  moreover have "pad4 (bits_encode d) = bits_encode d"
    using bits_roundtrip [of d] by (simp add: pad4_def)
  ultimately show ?thesis
    using bits_roundtrip [of d] by (auto simp: QuackapiBase64UrlDecode_def bits_mbedtls_def Let_def)
qed

lemma bits_encode_Nil: "bits_encode d = [] \<longleftrightarrow> d = []"
  using bits_roundtrip [of d] by (metis bits_encode.simps(1) bits_decode.simps(2))

lemma bits_no_dot: "no_dot (bits_encode d)"
  using set_bits_encode [of d] by (auto simp: no_dot_def list_all_iff dot_def)

text \<open>A token for the instance of the parameters used in examples, with the fields of its two objects.\<close>

definition example_jwt :: string where
  "example_jwt = bits_encode ''h'' @ ''.'' @ bits_encode ''p'' @ ''.'' @
     bits_encode (''k'' @ bits_encode ''h'' @ ''.'' @ bits_encode ''p'')"

definition example_json :: json_db where
  "example_json = \<lparr>jd_is_json = (\<lambda>_. True), jd_type = (\<lambda>_. Some ''OBJECT''),
     jd_fields = (\<lambda>t. Some (if t = ''h'' then [(Some ''alg'', Some ''HS256'')] else [(Some ''exp'', Some ''10''), (Some ''sub'', Some ''u'')]))\<rparr>"

lemma stoll_ten: "stoll_all ''10'' = Some 10"
  by (simp add: stoll_all_def stoll_def stoll_digits_def is_digit_def ascii_space_def Let_def)

lemma example_jwt_valid: "jwt_valid bits_mbedtls example_json 5 5 example_jwt ''k'' [(''exp'', ''10''), (''sub'', ''u'')]"
  unfolding jwt_valid_def
  apply (rule exI [of _ "bits_encode ''h''"], rule exI [of _ "bits_encode ''p''"],
    rule exI [of _ "bits_encode (''k'' @ bits_encode ''h'' @ ''.'' @ bits_encode ''p'')"],
    rule exI [of _ "''k'' @ bits_encode ''h'' @ ''.'' @ bits_encode ''p''"], rule exI [of _ "''h''"], rule exI [of _ "''p''"],
    rule exI [of _ "[(''alg'', ''HS256'')]"], rule exI [of _ "[]"], rule exI [of _ "[]"])
  apply (intro conjI)
  apply (simp_all only: example_jwt_def bits_no_dot bits_decode_url QuackapiHmacSha256_def bits_encode_Nil)
  apply (simp_all add: bits_mbedtls_def ParseJsonObjectClaims_def example_json_def stoll_ten)
  done

text \<open>
  C20. A token is accepted exactly when it is valid: three nonempty parts separated by two dots,
  the third decodes to the HMAC-SHA256 of the first two under the scheme's secret, the header is
  a JSON object without duplicate keys whose \<open>alg\<close> is \<open>HS256\<close>, the payload is a JSON object without
  duplicate keys, and its \<open>exp\<close> and \<open>nbf\<close>, where present, are integers with now before \<open>exp\<close> and
  not before \<open>nbf\<close>. The claims are those of the payload.
\<close>

theorem jwt_accepted_iff_valid:
  assumes "mbedtls_ok M"
  shows "VerifyJwtHs256 M J now_exp now_nbf token secret = Inr (Inr claims) \<longleftrightarrow>
    jwt_valid M J now_exp now_nbf token secret claims"
  using assms by (rule VerifyJwtHs256_valid)

theorem jwt_accepted_iff_valid_witness:
  "VerifyJwtHs256 bits_mbedtls example_json 5 5 example_jwt ''k'' = Inr (Inr [(''exp'', ''10''), (''sub'', ''u'')])"
  using jwt_accepted_iff_valid [OF mbedtls_ok_bits] example_jwt_valid by blast

section \<open>Enforcement\<close>

lemma match_key_iff:
  "mbedtls_ok M \<Longrightarrow> match_key M hash found keys =
    (case found of Some s \<Rightarrow> Some s
     | None \<Rightarrow> map_option ak_subject (List.find (\<lambda>e. ak_key_hash e = hash) keys))"
  by (induction keys arbitrary: found) (auto simp: constant_time_equals_iff split: option.splits)

text \<open>The credentials a scheme accepts, and the claims they give.\<close>

definition credential_ok :: "string_util \<Rightarrow> mbedtls \<Rightarrow> json_db \<Rightarrow> int \<Rightarrow> int \<Rightarrow> 'v QuackapiState \<Rightarrow> QuackapiAuth \<Rightarrow> string \<Rightarrow> claims \<Rightarrow> bool" where
  "credential_ok U M J now_exp now_nbf s auth cred claims \<longleftrightarrow> cred \<noteq> [] \<and>
     (case au_kind auth of
        API_KEY \<Rightarrow> (\<exists>hash entry. QuackapiSha256 M cred = Inr hash \<and>
          List.find (\<lambda>e. ak_key_hash e = hash) (SnapshotApiKeys U (au_name auth) s) = Some entry \<and>
          claims = [(''sub'', ak_subject entry)])
      | JWT_HS256 \<Rightarrow> jwt_valid M J now_exp now_nbf cred (au_secret auth) claims)"

lemma VerifyJwtHs256_Inl: "VerifyJwtHs256 M J n1 n2 token secret = Inr (Inl e) \<Longrightarrow> e = invalid_credentials"
  by (auto simp: VerifyJwtHs256_def jwt_contents_def split: option.splits if_splits sum.splits prod.splits)

lemma VerifyAuthScheme_ok:
  assumes "mbedtls_ok M" "VerifyAuthScheme U M J n1 n2 s scheme cred = Inr r"
  shows "(ar_ok r \<and> (\<exists>auth. GetAuth U scheme s = Some auth \<and> credential_ok U M J n1 n2 s auth cred (ar_claims r))) \<or>
    (\<exists>www. r = Fail401 ''Not authenticated'' www) \<or> (\<exists>www. r = Fail401 invalid_credentials www)"
proof (cases "GetAuth U scheme s")
  case None
  with assms(2) show ?thesis by (auto simp: VerifyAuthScheme_def FailClosedUnconfiguredScheme_def)
next
  case (Some auth)
  show ?thesis
  proof (cases "au_kind auth")
    case API_KEY
    with Some assms show ?thesis
      by (auto simp: VerifyAuthScheme_def match_key_iff auth_accepted_def credential_ok_def split: if_splits sum.splits option.splits)
  next
    case JWT_HS256
    with Some assms(2) show ?thesis
      by (auto simp: VerifyAuthScheme_def auth_accepted_def credential_ok_def VerifyJwtHs256_valid [OF assms(1)]
        dest: VerifyJwtHs256_Inl split: if_splits sum.splits)
  qed
qed

text \<open>
  C3. Routes are protected: a request passes the check of a route only when the route requires no
  scheme, or the required scheme is registered and the credential taken from the request's headers
  is one the scheme accepts (a key whose hash is stored for the scheme, or a valid token), and the
  claims are those of that credential. Every other answer is a 401 with one of two fixed bodies
  and no claims, also when the scheme does not exist.
\<close>

theorem route_auth_enforced:
  assumes "mbedtls_ok M" "CheckAuth U M J now_exp now_nbf s route headers = Inr r"
  shows "(ar_ok r \<and> (rt_require_auth route = [] \<and> ar_claims r = [] \<or>
      (\<exists>auth. GetAuth U (rt_require_auth route) s = Some auth \<and>
        credential_ok U M J now_exp now_nbf s auth (ExtractAuthString U auth headers) (ar_claims r)))) \<or>
    (\<not> ar_ok r \<and> ar_status r = 401 \<and> ar_claims r = [] \<and>
      ar_body r \<in> {DetailJson ''Not authenticated'', DetailJson invalid_credentials})"
proof -
  consider "rt_require_auth route = []" "ar_ok r" "ar_claims r = []" | "r = FailClosedUnconfiguredScheme"
    | auth where "GetAuth U (rt_require_auth route) s = Some auth"
      "VerifyAuthScheme U M J now_exp now_nbf s (rt_require_auth route) (ExtractAuthString U auth headers) = Inr r"
    using assms(2) by (auto simp: CheckAuth_def split: if_splits option.splits)
  then show ?thesis
  proof cases
    case 3
    with VerifyAuthScheme_ok [OF assms(1) 3(2)] show ?thesis by (auto simp: Fail401_def)
  qed (auto simp: FailClosedUnconfiguredScheme_def Fail401_def)
qed

definition secured_state :: "nat QuackapiState" where
  "secured_state = initial_state\<lparr>auths := [\<lparr>au_name = ''jwt'', au_kind = JWT_HS256, au_header = [], au_secret = ''k''\<rparr>]\<rparr>"

theorem route_auth_enforced_witness:
  "CheckAuth ascii_util bits_mbedtls example_json 5 5 secured_state (example_route\<lparr>rt_require_auth := ''JWT''\<rparr>) [] =
     Inr (Fail401 ''Not authenticated'' ''Bearer'') \<and>
   ar_status (Fail401 ''Not authenticated'' ''Bearer'') = 401"
proof -
  have c: "CheckAuth ascii_util bits_mbedtls example_json 5 5 secured_state (example_route\<lparr>rt_require_auth := ''JWT''\<rparr>) [] =
     Inr (Fail401 ''Not authenticated'' ''Bearer'')"
    by (simp add: CheckAuth_def GetAuth_def secured_state_def VerifyAuthScheme_def ExtractAuthString_def HeaderGet_def
      ExtractBearer_def ascii_eval)
  with route_auth_enforced [OF mbedtls_ok_bits c] show ?thesis by (auto simp: Fail401_def)
qed

lemma find_filter: "List.find p (filter q xs) = List.find (\<lambda>x. q x \<and> p x) xs"
  by (induction xs) auto

lemma find_replace_first_Some:
  "List.find p xs = Some x \<Longrightarrow> p y \<Longrightarrow> List.find p (replace_first p y xs) = Some y"
  by (induction xs) (auto split: if_splits)

lemma find_snoc: "List.find p xs = None \<Longrightarrow> p y \<Longrightarrow> List.find p (xs @ [y]) = Some y"
  by (induction xs) (auto split: if_splits)

lemma AddApiKey_find:
  assumes "string_util_ok U" "mbedtls_ok M" "AddApiKey U M name key subject s = Inr (m, s')"
  shows "key \<noteq> [] \<and> (\<exists>auth hash entry. GetAuth U name s' = Some auth \<and> au_kind auth = API_KEY \<and> QuackapiSha256 M key = Inr hash \<and>
    List.find (\<lambda>e. su_ci_equals U (ak_auth_name e) (au_name auth) \<and> ak_key_hash e = hash) (api_keys s') = Some entry \<and>
    ak_subject entry = subject)"
proof -
  obtain auth hash where a: "key \<noteq> []" "List.find (\<lambda>a. su_ci_equals U (au_name a) name) (auths s) = Some auth"
    "au_kind auth = API_KEY" "QuackapiSha256 M key = Inr hash"
    using assms(3) by (auto simp: AddApiKey_def split: if_splits option.splits sum.splits)
  let ?p = "\<lambda>e. su_ci_equals U (ak_auth_name e) (au_name auth) \<and> ak_key_hash e = hash"
  let ?new = "\<lparr>ak_auth_name = au_name auth, ak_key_hash = hash, ak_subject = subject\<rparr>"
  have s': "s' = (case List.find ?p (api_keys s) of
      Some x \<Rightarrow> s\<lparr>api_keys := replace_first ?p (x\<lparr>ak_subject := subject, ak_auth_name := au_name auth\<rparr>) (api_keys s)\<rparr>
    | None \<Rightarrow> s\<lparr>api_keys := api_keys s @ [?new]\<rparr>)"
    using assms(3) a
    by (auto simp: AddApiKey_def Let_def constant_time_equals_iff [OF assms(2)] split: if_splits option.splits)
  show ?thesis
  proof (cases "List.find ?p (api_keys s)")
    case None
    have "List.find ?p (api_keys s') = Some ?new"
      using find_snoc [OF None, of ?new] ci_equals_refl [OF assms(1)] s' None by simp
    then show ?thesis using a s' None by (auto simp: GetAuth_def)
  next
    case (Some x)
    let ?y = "x\<lparr>ak_subject := subject, ak_auth_name := au_name auth\<rparr>"
    have "?p ?y" using find_SomeD [OF Some] ci_equals_refl [OF assms(1)] by simp
    from find_replace_first_Some [OF Some this] have "List.find ?p (api_keys s') = Some ?y" using s' Some by simp
    then show ?thesis using a s' Some by (auto simp: GetAuth_def)
  qed
qed

text \<open>
  An API key works from the moment it is added: after \<open>AddApiKey\<close> succeeds for a scheme, a
  request with that key is accepted by the scheme, and its subject claim is the one given last.
\<close>

theorem added_key_accepted:
  assumes "string_util_ok U" "mbedtls_ok M" "AddApiKey U M name key subject s = Inr (m, s')"
  shows "VerifyAuthScheme U M J now_exp now_nbf s' name key = Inr (auth_accepted [(''sub'', subject)])"
  using AddApiKey_find [OF assms]
  by (auto simp: VerifyAuthScheme_def match_key_iff [OF assms(2)] SnapshotApiKeys_def find_filter)

definition key_state :: "nat QuackapiState" where
  "key_state = initial_state\<lparr>auths := [\<lparr>au_name = ''keys'', au_kind = API_KEY, au_header = ''X-API-Key'', au_secret = []\<rparr>]\<rparr>"

theorem added_key_accepted_witness:
  "VerifyAuthScheme ascii_util bits_mbedtls example_json 0 0
     (key_state\<lparr>api_keys := [\<lparr>ak_auth_name = ''keys'', ak_key_hash = ''s3cret'', ak_subject = ''bob''\<rparr>]\<rparr>) ''Keys'' ''s3cret'' =
   Inr (auth_accepted [(''sub'', ''bob'')])"
proof -
  have "AddApiKey ascii_util bits_mbedtls ''Keys'' ''s3cret'' ''bob'' key_state =
    Inr (''bob'', key_state\<lparr>api_keys := [\<lparr>ak_auth_name = ''keys'', ak_key_hash = ''s3cret'', ak_subject = ''bob''\<rparr>]\<rparr>)"
    by (simp add: AddApiKey_def key_state_def initial_state_def ascii_eval QuackapiSha256_def bits_mbedtls_def Let_def)
  from added_key_accepted [OF string_util_ok_ascii mbedtls_ok_bits this] show ?thesis .
qed

section \<open>The DDL\<close>

definition scheme_valid :: "QuackapiAuth \<Rightarrow> bool" where
  "scheme_valid auth \<longleftrightarrow> (case au_kind auth of API_KEY \<Rightarrow> au_header auth \<noteq> [] | JWT_HS256 \<Rightarrow> au_secret auth \<noteq> [])"

lemma if_InrE:
  assumes "(if b then x else y) = Inr r"
  obtains "b" "x = Inr r" | "\<not> b" "y = Inr r"
  using assms by (cases b) auto

lemma jwt_options_nonempty:
  "jwt_options U secret s = Inr r \<Longrightarrow> secret \<noteq> Some [] \<Longrightarrow> r \<noteq> Some []"
proof (induction U secret s rule: jwt_options.induct)
  case (1 U secret s)
  from 1(3) [unfolded jwt_options.simps [of U secret s] Let_def] show ?case
    apply (elim if_InrE)
    subgoal using 1(4) by simp
    subgoal by simp
    subgoal by simp
    subgoal by simp
    subgoal by (rule 1(1) [OF refl refl _ _ refl _ refl refl]) simp_all
    subgoal by simp
    subgoal by (rule 1(2) [OF refl refl _ _ _ refl refl]) (use 1(4) in simp_all)
    subgoal by simp
    done
qed

lemma api_key_options_valid: "api_key_options U name rest = Inr auth \<Longrightarrow> scheme_valid auth \<and> au_name auth = name"
  unfolding api_key_options_def Let_def
  by (auto simp: scheme_valid_def split: if_splits option.splits)

lemma jwt_scheme_valid:
  assumes "jwt_scheme U name rest = Inr auth"
  shows "scheme_valid auth \<and> au_name auth = name"
proof -
  obtain secret opts where "jwt_options U None opts = Inr (Some secret)"
    "auth = \<lparr>au_name = name, au_kind = JWT_HS256, au_header = [], au_secret = secret\<rparr>"
    using assms unfolding jwt_scheme_def Let_def by (auto split: if_splits option.splits sum.splits)
  with jwt_options_nonempty [OF this(1)] show ?thesis by (auto simp: scheme_valid_def)
qed

lemma AuthCreateParse_valid:
  assumes "AuthCreateParse U rep rest = PARSE_SUCCESSFUL d"
  shows "ad_action d = ''CREATE'' \<and> scheme_valid (ad_auth d)"
  using assms unfolding AuthCreateParse_def Let_def
  by (auto split: if_splits sum.splits dest: api_key_options_valid jwt_scheme_valid)

lemma AuthDdlParse_valid:
  assumes "AuthDdlParse U query = PARSE_SUCCESSFUL d"
  shows "ad_action d = ''CREATE'' \<and> scheme_valid (ad_auth d) \<or> ad_action d = ''DROP''"
  using assms unfolding AuthDdlParse_def Let_def
  by (auto split: if_splits dest: AuthCreateParse_valid)

text \<open>One statement: parsed, planned and applied; an error leaves the state as it was.\<close>

definition run_auth_ddl :: "string_util \<Rightarrow> string \<Rightarrow> 'v QuackapiState \<Rightarrow> 'v QuackapiState" where
  "run_auth_ddl U query s = (case AuthDdlParse U query of
       PARSE_SUCCESSFUL d \<Rightarrow> (case AuthDdlPlan U d s of Inr (_, s') \<Rightarrow> s' | Inl _ \<Rightarrow> s)
     | _ \<Rightarrow> s)"

lemma AddAuth_schemes:
  "AddAuth U auth rep s = Inr s' \<Longrightarrow> \<forall>a \<in> set (auths s). P a \<Longrightarrow> P auth \<Longrightarrow> \<forall>a \<in> set (auths s'). P a"
  by (auto simp: AddAuth_def Let_def split: option.splits if_splits dest!: in_set_replace_firstD)

lemma DropAuth_schemes:
  "\<forall>a \<in> set (auths s). P a \<Longrightarrow> \<forall>a \<in> set (auths (snd (DropAuth U name s))). P a"
  by (auto simp: DropAuth_def split: option.splits dest: set_mp [OF set_erase_first_subset])

lemma ApplyAuthExec_create:
  assumes "ApplyAuthExec U ''CREATE'' rep (au_name auth) (AuthKindToString (au_kind auth)) (au_header auth) (au_secret auth) s = Inr (m, s')"
    "scheme_valid auth"
  shows "\<exists>auth'. scheme_valid auth' \<and> AddAuth U auth' rep s = Inr s'"
proof (cases "au_kind auth")
  case API_KEY
  with assms show ?thesis
    by (intro exI [of _ "\<lparr>au_name = au_name auth, au_kind = API_KEY, au_header = au_header auth, au_secret = []\<rparr>"])
      (auto simp: ApplyAuthExec_def AuthKindToString_def scheme_valid_def split: sum.splits)
next
  case JWT_HS256
  with assms show ?thesis
    by (intro exI [of _ "\<lparr>au_name = au_name auth, au_kind = JWT_HS256, au_header = [], au_secret = au_secret auth\<rparr>"])
      (auto simp: ApplyAuthExec_def AuthKindToString_def scheme_valid_def split: sum.splits)
qed

lemma ApplyAuthExec_drop:
  "ApplyAuthExec U ''DROP'' rep name kind header secret s = Inr (m, s') \<Longrightarrow> s' = snd (DropAuth U name s)"
  by (auto simp: ApplyAuthExec_def split: prod.splits bool.splits)

lemma run_auth_ddl_schemes:
  assumes "\<forall>a \<in> set (auths s). scheme_valid a"
  shows "\<forall>a \<in> set (auths (run_auth_ddl U query s)). scheme_valid a"
proof (cases "AuthDdlParse U query")
  case (PARSE_SUCCESSFUL d)
  show ?thesis
  proof (cases "AuthDdlPlan U d s")
    case (Inr p)
    obtain m s' where p: "p = (m, s')" by (cases p)
    have "\<forall>a \<in> set (auths s'). scheme_valid a"
      using AuthDdlParse_valid [OF PARSE_SUCCESSFUL]
    proof
      assume d: "ad_action d = ''CREATE'' \<and> scheme_valid (ad_auth d)"
      with ApplyAuthExec_create [of U "ad_or_replace d" "ad_auth d" s m s'] Inr p
      obtain auth' where "scheme_valid auth'" "AddAuth U auth' (ad_or_replace d) s = Inr s'" by (auto simp: AuthDdlPlan_def)
      then show ?thesis using AddAuth_schemes assms by blast
    next
      assume "ad_action d = ''DROP''"
      with Inr p have "s' = snd (DropAuth U (au_name (ad_auth d)) s)" by (auto simp: AuthDdlPlan_def dest: ApplyAuthExec_drop)
      then show ?thesis using DropAuth_schemes [OF assms] by simp
    qed
    with PARSE_SUCCESSFUL Inr p show ?thesis by (simp add: run_auth_ddl_def)
  qed (use PARSE_SUCCESSFUL assms in \<open>simp add: run_auth_ddl_def\<close>)
qed (use assms in \<open>simp_all add: run_auth_ddl_def\<close>)

text \<open>
  No scheme without key material: whatever statements are run, every JWT scheme they leave
  registered has a nonempty secret, so a token signed with the empty key is never accepted for
  lack of one, and every API key scheme names a nonempty header.
\<close>

theorem auth_ddl_schemes_valid:
  assumes "\<forall>a \<in> set (auths s). scheme_valid a"
  shows "\<forall>a \<in> set (auths (fold (run_auth_ddl U) queries s)). scheme_valid a"
  using assms
proof (induction queries arbitrary: s)
  case (Cons q qs)
  from Cons.IH [OF run_auth_ddl_schemes [OF Cons.prems]] show ?case by simp
qed simp

lemma jwt_ddl:
  "run_auth_ddl ascii_util ''create auth t as jwt (secret 'k')'' key_state = key_state\<lparr>auths := auths key_state @
     [\<lparr>au_name = ''t'', au_kind = JWT_HS256, au_header = [], au_secret = ''k''\<rparr>]\<rparr>"
  by (simp add: run_auth_ddl_def AuthDdlParse_def AuthCreateParse_def jwt_scheme_def paren_group_def jwt_options.simps
    QuackapiTrim_def quote_char_def Let_def ascii_eval AuthDdlPlan_def ApplyAuthExec_def AuthKindToString_def AddAuth_def
    key_state_def initial_state_def)

theorem auth_ddl_schemes_valid_witness:
  "scheme_valid \<lparr>au_name = ''t'', au_kind = JWT_HS256, au_header = [], au_secret = ''k''\<rparr>"
proof -
  have "\<forall>a \<in> set (auths key_state). scheme_valid a" by (simp add: key_state_def scheme_valid_def)
  from auth_ddl_schemes_valid [OF this, of ascii_util "[''create auth t as jwt (secret 'k')'']"] show ?thesis
    by (simp add: jwt_ddl)
qed

text \<open>The listing of schemes does not depend on their secrets.\<close>

lemma auth_listing_hides_secrets:
  "AuthsExec (s\<lparr>auths := map (\<lambda>a. a\<lparr>au_secret := f a\<rparr>) (auths s)\<rparr>) = AuthsExec s"
  by (simp add: AuthsExec_def SnapshotAuths_def)

lemma claims_json_reads:
  "reads_as (Suc n) (ClaimsToJson claims) (JsonNode OBJECT [] [] (map (\<lambda>(k, v). (k, JsonNode STRING v [] [])) claims))"
proof -
  let ?ms = "map (\<lambda>(k, v). (k, json_quote v, JsonNode STRING v [] [])) claims"
  have "\<forall>(key, t, node) \<in> set ?ms. reads_as n t node" using reads_string by auto
  moreover have "map member_text ?ms = map (\<lambda>(k, v). json_quote k @ '':'' @ json_quote v) claims"
    "map member_node ?ms = map (\<lambda>(k, v). (k, JsonNode STRING v [] [])) claims"
    by (auto simp: member_text_def member_node_def)
  ultimately show ?thesis using reads_object [of ?ms n] by (simp only: ClaimsToJson_def)
qed

text \<open>
  The SQL verifier reports claims faithfully: when a credential is accepted, the JSON it
  returns reads as an object whose members are exactly the claims, each a string; otherwise it is
  the empty object.
\<close>

theorem verify_auth_claims_json:
  assumes "QuackapiVerifyAuthFunction U M J now_exp now_nbf s scheme cred = Inr (ok, status, body, www, json)"
  shows "if ok then \<exists>claims. ParseDocument json = Some (JsonNode OBJECT [] [] (map (\<lambda>(k, v). (k, JsonNode STRING v [] [])) claims)) \<and>
      (\<exists>r. VerifyAuthScheme U M J now_exp now_nbf s (case scheme of None \<Rightarrow> [] | Some x \<Rightarrow> x)
        (case cred of None \<Rightarrow> [] | Some x \<Rightarrow> x) = Inr r \<and> claims = ar_claims r)
    else json = ''{}''"
  using assms reads_as_document [of _ "JsonNode OBJECT [] [] _"] claims_json_reads [of 127]
  by (fastforce simp: QuackapiVerifyAuthFunction_def MAX_NESTING_DEPTH_def split: sum.splits if_splits)

theorem verify_auth_claims_json_witness:
  "ParseDocument (ClaimsToJson [(''sub'', ''bob'')]) = Some (JsonNode OBJECT [] [] [(''sub'', JsonNode STRING ''bob'' [] [])])"
proof -
  let ?s = "key_state\<lparr>api_keys := [\<lparr>ak_auth_name = ''keys'', ak_key_hash = ''s3cret'', ak_subject = ''bob''\<rparr>]\<rparr>"
  have v: "VerifyAuthScheme ascii_util bits_mbedtls example_json 0 0 ?s ''keys'' ''s3cret'' = Inr (auth_accepted [(''sub'', ''bob'')])"
    by (simp add: VerifyAuthScheme_def GetAuth_def key_state_def ascii_eval QuackapiSha256_def bits_mbedtls_def
      SnapshotApiKeys_def QuackapiConstantTimeEquals_def)
  then have "QuackapiVerifyAuthFunction ascii_util bits_mbedtls example_json 0 0 ?s (Some ''keys'') (Some ''s3cret'') =
    Inr (True, 200, [], [], ClaimsToJson [(''sub'', ''bob'')])"
    by (simp add: QuackapiVerifyAuthFunction_def auth_accepted_def)
  from verify_auth_claims_json [OF this] show ?thesis using v by (auto simp: auth_accepted_def)
qed

end
