(* ===== verification/Middleware.thy ===== *)
theory Middleware
  imports State Util
begin

text \<open>
  SQL middleware (\<open>quackapi_middleware.cpp\<close>, \<open>quackapi_middleware.hpp\<close>): its DDL, its registry, the
  selection of the hooks of a request, and their execution.

  What the executor asks of DuckDB for one hook (policy rewriting of its SQL, preparation,
  execution, the rows fetched, the deadline) is the record \<open>hook_env\<close>, one for each hook executed;
  an exception thrown by any of them is \<open>Inl\<close>.
\<close>

section \<open>Definitions and their DDL\<close>

datatype QuackapiMiddlewarePhase = BEFORE | AFTER

record QuackapiMiddleware =
  mw_name :: string
  mw_phase :: QuackapiMiddlewarePhase
  mw_group_name :: string
  mw_handler_sql :: string
  mw_registration_order :: nat

definition QUACKAPI_MIDDLEWARE_MAX_SQL_BYTES :: nat where
  "QUACKAPI_MIDDLEWARE_MAX_SQL_BYTES = 16 * 1024"

definition QUACKAPI_MIDDLEWARE_MAX_DEFINITIONS :: nat where
  "QUACKAPI_MIDDLEWARE_MAX_DEFINITIONS = 64"

definition QUACKAPI_MIDDLEWARE_MAX_RESULT_ROWS :: nat where
  "QUACKAPI_MIDDLEWARE_MAX_RESULT_ROWS = 64"

definition QUACKAPI_MIDDLEWARE_MAX_HEADER_BYTES :: nat where
  "QUACKAPI_MIDDLEWARE_MAX_HEADER_BYTES = 8 * 1024"

definition QUACKAPI_MIDDLEWARE_MAX_BODY_BYTES :: nat where
  "QUACKAPI_MIDDLEWARE_MAX_BODY_BYTES = 1024 * 1024"

definition IsMiddlewareName :: "string \<Rightarrow> bool" where
  "IsMiddlewareName name =
     (if name = [] \<or> length name > 128 then False
      else list_all (\<lambda>c. is_alpha c \<or> is_digit c \<or> c = CHR ''_'' \<or> c = CHR ''-'') name)"

definition IsWhitespaceBoundary :: "string_util \<Rightarrow> string \<Rightarrow> nat \<Rightarrow> bool" where
  "IsWhitespaceBoundary U s pos = (length s \<le> pos \<or> su_space U (s ! pos))"

text \<open>The first position from \<open>start\<close> on where the keyword stands alone; \<open>npos\<close> is \<open>None\<close>.\<close>

definition keyword_at :: "string_util \<Rightarrow> string \<Rightarrow> string \<Rightarrow> nat \<Rightarrow> bool" where
  "keyword_at U upper keyword pos =
     (take (length keyword) (drop pos upper) = keyword \<and>
      (pos = 0 \<or> su_space U (upper ! (pos - 1))) \<and>
      IsWhitespaceBoundary U upper (pos + length keyword))"

definition FindStandaloneKeyword :: "string_util \<Rightarrow> string \<Rightarrow> string \<Rightarrow> nat \<Rightarrow> nat option" where
  "FindStandaloneKeyword U upper keyword start =
     List.find (keyword_at U upper keyword) [start ..< Suc (length upper) - length keyword]"

function WhitespaceTokens :: "string_util \<Rightarrow> string \<Rightarrow> string list" where
  "WhitespaceTokens U input = (let s = dropWhile (su_space U) input in
     if s = [] then []
     else takeWhile (\<lambda>c. \<not> su_space U c) s # WhitespaceTokens U (dropWhile (\<lambda>c. \<not> su_space U c) s))"
  by pat_completeness auto
termination
proof (relation "measure (\<lambda>(U, s). length s)", goal_cases)
  case (2 U input s)
  then obtain c t where s: "dropWhile (su_space U) input = c # t" by (cases "dropWhile (su_space U) input") auto
  then have "\<not> su_space U c" by (metis hd_dropWhile list.sel(1) list.discI)
  then have "length (dropWhile (\<lambda>c. \<not> su_space U c) s) \<le> length t"
    using 2 s by (simp add: length_dropWhile_le)
  then show ?case using s length_dropWhile_le [of "su_space U" input] by simp
qed simp

declare WhitespaceTokens.simps [simp del]

record MiddlewareDdlParseData =
  md_action :: string
  md_or_replace :: bool
  md_middleware :: QuackapiMiddleware

definition new_middleware :: "string \<Rightarrow> QuackapiMiddleware" where
  "new_middleware name = \<lparr>mw_name = name, mw_phase = BEFORE, mw_group_name = [], mw_handler_sql = [],
     mw_registration_order = 0\<rparr>"

text \<open>The branch for \<open>CREATE\<close>, from the end of the prefix on.\<close>

definition MiddlewareCreateParse ::
  "string_util \<Rightarrow> string \<Rightarrow> string \<Rightarrow> bool \<Rightarrow> nat \<Rightarrow> MiddlewareDdlParseData parse_outcome" where
  "MiddlewareCreateParse U q upper or_replace prefix_end =
     (case FindStandaloneKeyword U upper ''AS'' prefix_end of
        None \<Rightarrow> DISPLAY_EXTENSION_ERROR ''CREATE MIDDLEWARE <name> BEFORE|AFTER [GROUP <name>] AS <sql>''
      | Some as_pos \<Rightarrow>
          let tokens = WhitespaceTokens U (QuackapiTrim U (take (as_pos - prefix_end) (drop prefix_end q)));
              handler_sql = QuackapiTrim U (drop (as_pos + 2) q)
          in
          if length tokens \<noteq> 2 \<and> length tokens \<noteq> 4 then
            DISPLAY_EXTENSION_ERROR ''CREATE MIDDLEWARE expects <name> BEFORE|AFTER [GROUP <name>] before AS''
          else if \<not> IsMiddlewareName (tokens ! 0) then
            DISPLAY_EXTENSION_ERROR ''Middleware name must use [A-Za-z0-9_-] and be at most 128 bytes''
          else let phase = su_upper U (tokens ! 1) in
          if phase \<noteq> ''BEFORE'' \<and> phase \<noteq> ''AFTER'' then
            DISPLAY_EXTENSION_ERROR ''MIDDLEWARE phase must be BEFORE or AFTER''
          else if length tokens = 4 \<and> (\<not> su_ci_equals U (tokens ! 2) ''GROUP'' \<or> \<not> IsMiddlewareName (tokens ! 3)) then
            DISPLAY_EXTENSION_ERROR ''MIDDLEWARE GROUP expects a name using [A-Za-z0-9_-]''
          else if handler_sql = [] then DISPLAY_EXTENSION_ERROR ''MIDDLEWARE AS requires SQL''
          else if length handler_sql > QUACKAPI_MIDDLEWARE_MAX_SQL_BYTES then
            DISPLAY_EXTENSION_ERROR ''MIDDLEWARE SQL exceeds the 16 KiB definition limit''
          else PARSE_SUCCESSFUL \<lparr>md_action = ''CREATE'', md_or_replace = or_replace, md_middleware =
            \<lparr>mw_name = tokens ! 0, mw_phase = (if phase = ''BEFORE'' then BEFORE else AFTER),
             mw_group_name = (if length tokens = 4 then tokens ! 3 else []), mw_handler_sql = handler_sql,
             mw_registration_order = 0\<rparr>\<rparr>)"

definition MiddlewareDdlParse :: "string_util \<Rightarrow> string \<Rightarrow> MiddlewareDdlParseData parse_outcome" where
  "MiddlewareDdlParse U query =
     (let q = QuackapiTrim U query; upper = su_upper U q in
      if su_starts_with U upper ''DROP MIDDLEWARE '' then
        (let name = QuackapiTrim U (drop 16 q) in
         if \<not> IsMiddlewareName name then
           DISPLAY_EXTENSION_ERROR ''DROP MIDDLEWARE expects a single name ([A-Za-z0-9_-], max 128 bytes)''
         else PARSE_SUCCESSFUL \<lparr>md_action = ''DROP'', md_or_replace = False, md_middleware = new_middleware name\<rparr>)
      else if su_starts_with U upper ''CREATE OR REPLACE MIDDLEWARE '' then MiddlewareCreateParse U q upper True 29
      else if su_starts_with U upper ''CREATE MIDDLEWARE '' then MiddlewareCreateParse U q upper False 18
      else DISPLAY_ORIGINAL_ERROR)"

definition QuackapiMiddlewarePhaseName :: "QuackapiMiddlewarePhase \<Rightarrow> string" where
  "QuackapiMiddlewarePhaseName phase = (if phase = AFTER then ''AFTER'' else ''BEFORE'')"

section \<open>The registry\<close>

record QuackapiMiddlewareRegistry =
  middlewares :: "QuackapiMiddleware list"
  next_registration_order :: nat

definition empty_registry :: QuackapiMiddlewareRegistry where
  "empty_registry = \<lparr>middlewares = [], next_registration_order = 1\<rparr>"

definition AddMiddleware :: "QuackapiMiddleware \<Rightarrow> bool \<Rightarrow> QuackapiMiddlewareRegistry \<Rightarrow>
  QuackapiMiddlewareRegistry result" where
  "AddMiddleware middleware or_replace r =
     (case List.find (\<lambda>m. mw_name m = mw_name middleware) (middlewares r) of
        Some old \<Rightarrow>
          if \<not> or_replace then
            Inl (InvalidInput ''Middleware \"%s\" already exists - use CREATE OR REPLACE MIDDLEWARE'' [mw_name middleware])
          else Inr (r\<lparr>middlewares := replace_first (\<lambda>m. mw_name m = mw_name middleware)
                 (middleware\<lparr>mw_registration_order := mw_registration_order old\<rparr>) (middlewares r)\<rparr>)
      | None \<Rightarrow>
          if length (middlewares r) \<ge> QUACKAPI_MIDDLEWARE_MAX_DEFINITIONS then
            Inl (InvalidInput ''Middleware registry limit is %llu definitions'' [nat_string QUACKAPI_MIDDLEWARE_MAX_DEFINITIONS])
          else Inr (r\<lparr>middlewares := middlewares r @ [middleware\<lparr>mw_registration_order := next_registration_order r\<rparr>],
                 next_registration_order := next_registration_order r + 1\<rparr>))"

definition DropMiddleware :: "string \<Rightarrow> QuackapiMiddlewareRegistry \<Rightarrow> bool \<times> QuackapiMiddlewareRegistry" where
  "DropMiddleware name r =
     (any (\<lambda>m. mw_name m = name) (middlewares r),
      r\<lparr>middlewares := erase_first (\<lambda>m. mw_name m = name) (middlewares r)\<rparr>)"

definition append_scope :: "QuackapiMiddlewarePhase \<Rightarrow> string \<Rightarrow> bool \<Rightarrow> QuackapiMiddleware list \<Rightarrow>
  QuackapiMiddleware list" where
  "append_scope phase group_name global ms =
     filter (\<lambda>m. mw_phase m = phase \<and> (if global then mw_group_name m = [] else mw_group_name m = group_name)) ms"

definition MiddlewareSnapshot :: "QuackapiMiddlewarePhase \<Rightarrow> string \<Rightarrow> QuackapiMiddlewareRegistry \<Rightarrow>
  QuackapiMiddleware list" where
  "MiddlewareSnapshot phase group_name r =
     (if phase = BEFORE then
        append_scope phase group_name True (middlewares r) @
        (if group_name \<noteq> [] then append_scope phase group_name False (middlewares r) else [])
      else
        (if group_name \<noteq> [] then append_scope phase group_name False (middlewares r) else []) @
        append_scope phase group_name True (middlewares r))"

definition SnapshotAll :: "QuackapiMiddlewareRegistry \<Rightarrow> QuackapiMiddleware list" where
  "SnapshotAll r = middlewares r"

text \<open>
  Application of a parsed statement. \<open>prepare\<close> is DuckDB's preparation of the handler: an error
  text or success. The status message is the other result.
\<close>

definition ApplyMiddlewareExec :: "(string \<Rightarrow> string + unit) \<Rightarrow> MiddlewareDdlParseData \<Rightarrow>
  QuackapiMiddlewareRegistry \<Rightarrow> (string \<times> QuackapiMiddlewareRegistry) result" where
  "ApplyMiddlewareExec prepare d r = (let m = md_middleware d in
     if md_action d = ''CREATE'' then
       (if \<not> IsMiddlewareName (mw_name m) \<or> (mw_group_name m \<noteq> [] \<and> \<not> IsMiddlewareName (mw_group_name m)) then
          Inl (InvalidInput ''Middleware names must use [A-Za-z0-9_-] and be at most 128 bytes'' [])
        else if mw_handler_sql m = [] \<or> length (mw_handler_sql m) > QUACKAPI_MIDDLEWARE_MAX_SQL_BYTES then
          Inl (InvalidInput ''Middleware SQL must be between 1 byte and 16 KiB'' [])
        else (case prepare (mw_handler_sql m) of
            Inl e \<Rightarrow> Inl (InvalidInput ''Invalid handler SQL for middleware \"%s\": %s'' [mw_name m, e])
          | Inr _ \<Rightarrow> (case AddMiddleware m (md_or_replace d) r of
                Inl e \<Rightarrow> Inl e
              | Inr r' \<Rightarrow> Inr (''Middleware '' @ mw_name m @ '': '' @ QuackapiMiddlewarePhaseName (mw_phase m) @
                    (if mw_group_name m = [] then [] else '' GROUP '' @ mw_group_name m), r'))))
     else (case DropMiddleware (mw_name m) r of
         (True, r') \<Rightarrow> Inr (''Dropped middleware '' @ mw_name m, r')
       | (False, _) \<Rightarrow> Inl (InvalidInput ''Middleware \"%s\" does not exist'' [mw_name m])))"

section \<open>Execution\<close>

datatype Value = NULL_V | BOOL_V bool | INT_V int | STR_V string

datatype LogicalTypeId = BOOLEAN | INTEGER | VARCHAR | OTHER_TYPE nat

record QuackapiMiddlewareContext =
  mc_method :: string
  mc_path :: string
  mc_route_name :: string
  mc_group_name :: string
  mc_request_id :: string
  mc_request_body :: string
  mc_headers_json :: string
  mc_query_json :: string
  mc_client_ip :: string
  mc_auth_subject :: string
  mc_status :: int
  mc_response_body :: string
  mc_response_headers :: "(string \<times> string) list"
  mc_timeout_ms :: int
  mc_elapsed_ms :: int
  mc_middleware_failed :: bool

text \<open>A query result: its columns, and the chunks it delivers until one is empty or fetching throws.\<close>

record query_result =
  qr_error :: bool
  qr_names :: "string list"
  qr_types :: "LogicalTypeId list"
  qr_chunks :: "Value list list list"
  qr_fetch_throws :: bool

record hook_env =
  he_rewrite :: "string \<Rightarrow> bool \<Rightarrow> (string \<times> bool \<times> string) result"
  he_prepare :: "string \<Rightarrow> string list result"
  he_remaining_ms :: "int \<Rightarrow> int"
  he_execute :: "string \<Rightarrow> (string \<times> Value) list \<Rightarrow> query_result result"
  he_expired_after_execute :: bool
  he_expired_after_fetch :: bool

definition IsClaimsParameter :: "string_util \<Rightarrow> string \<Rightarrow> string option" where
  "IsClaimsParameter U name =
     (if \<not> su_starts_with U (su_lower U name) ''claims_'' \<or> length name = 7 then None else Some (drop 7 name))"

definition IsValidHttpStatus :: "int \<Rightarrow> bool" where
  "IsValidHttpStatus status = (100 \<le> status \<and> status \<le> 599)"

definition IsHttpTokenChar :: "char \<Rightarrow> bool" where
  "IsHttpTokenChar c = (is_alpha c \<or> is_digit c \<or> c \<in> set (''!#$%&'' @ [CHR 0x27] @ ''*+-.^_`|~''))"

definition IsForbiddenResponseHeader :: "string_util \<Rightarrow> string \<Rightarrow> bool" where
  "IsForbiddenResponseHeader U name = (su_lower U name \<in> set [''connection'', ''content-length'', ''keep-alive'',
     ''proxy-authenticate'', ''proxy-authorization'', ''te'', ''trailer'', ''transfer-encoding'', ''upgrade''])"

definition IsSafeResponseHeader :: "string_util \<Rightarrow> string \<Rightarrow> string \<Rightarrow> bool" where
  "IsSafeResponseHeader U name val =
     (if name = [] \<or> length name > 256 \<or> length val > QUACKAPI_MIDDLEWARE_MAX_HEADER_BYTES \<or>
         length name + length val > QUACKAPI_MIDDLEWARE_MAX_HEADER_BYTES \<or> IsForbiddenResponseHeader U name
      then False
      else list_all IsHttpTokenChar name \<and> CHR 0x0D \<notin> set val \<and> CHR 0x0A \<notin> set val)"

definition timed_out_body :: string where
  "timed_out_body = ''{\"detail\":\"Request timed out\"}''"

definition failed_body :: string where
  "failed_body = ''{\"detail\":\"Middleware execution failed\"}''"

definition rejected_body :: string where
  "rejected_body = ''{\"detail\":\"Request rejected by middleware\"}''"

definition not_authenticated_body :: string where
  "not_authenticated_body = ''{\"detail\":\"Not authenticated\"}''"

definition SetMiddlewareFailure :: "int \<Rightarrow> QuackapiMiddlewareContext \<Rightarrow> QuackapiMiddlewareContext" where
  "SetMiddlewareFailure status context = context\<lparr>mc_status := status,
     mc_response_body := (if status = 408 then timed_out_body else failed_body), mc_middleware_failed := True\<rparr>"

record control_cols =
  allow_col :: nat
  status_col :: nat
  body_col :: nat
  header_name_col :: nat
  header_value_col :: nat

text \<open>One slot for each control column; a second column for a slot is an error.\<close>

definition set_slot :: "nat \<Rightarrow> string \<Rightarrow> nat \<Rightarrow> control_cols \<Rightarrow> control_cols option" where
  "set_slot invalid lower col cc =
     (if lower = ''allow'' then (if allow_col cc \<noteq> invalid then None else Some (cc\<lparr>allow_col := col\<rparr>))
      else if lower = ''status'' then (if status_col cc \<noteq> invalid then None else Some (cc\<lparr>status_col := col\<rparr>))
      else if lower = ''body'' then (if body_col cc \<noteq> invalid then None else Some (cc\<lparr>body_col := col\<rparr>))
      else if lower = ''header_name'' then (if header_name_col cc \<noteq> invalid then None else Some (cc\<lparr>header_name_col := col\<rparr>))
      else if lower = ''header_value'' then (if header_value_col cc \<noteq> invalid then None else Some (cc\<lparr>header_value_col := col\<rparr>))
      else Some cc)"

fun scan_columns :: "string_util \<Rightarrow> nat \<Rightarrow> nat \<Rightarrow> string list \<Rightarrow> control_cols \<Rightarrow> control_cols option" where
  "scan_columns U invalid col [] cc = Some cc"
| "scan_columns U invalid col (name # names) cc =
     (case set_slot invalid (su_lower U name) col cc of None \<Rightarrow> None
      | Some cc' \<Rightarrow> scan_columns U invalid (Suc col) names cc')"

definition has_type :: "LogicalTypeId list \<Rightarrow> nat \<Rightarrow> LogicalTypeId \<Rightarrow> bool" where
  "has_type types col t = (col < length types \<and> types ! col = t)"

definition GetMiddlewareResultColumns :: "string_util \<Rightarrow> string list \<Rightarrow> LogicalTypeId list \<Rightarrow> control_cols option" where
  "GetMiddlewareResultColumns U names types = (let invalid = length names in
     case scan_columns U invalid 0 names \<lparr>allow_col = invalid, status_col = invalid, body_col = invalid,
         header_name_col = invalid, header_value_col = invalid\<rparr> of
       None \<Rightarrow> None
     | Some cc \<Rightarrow>
         if allow_col cc = invalid \<or> \<not> has_type types (allow_col cc) BOOLEAN then None
         else if (status_col cc \<noteq> invalid \<and> \<not> has_type types (status_col cc) INTEGER) \<or>
                 (body_col cc \<noteq> invalid \<and> \<not> has_type types (body_col cc) VARCHAR) \<or>
                 (header_name_col cc \<noteq> invalid \<and> \<not> has_type types (header_name_col cc) VARCHAR) \<or>
                 (header_value_col cc \<noteq> invalid \<and> \<not> has_type types (header_value_col cc) VARCHAR) then None
         else if (header_name_col cc = invalid) = (header_value_col cc = invalid) then Some cc else None)"

text \<open>The value bound to a named parameter of a hook; \<open>None\<close> is the refusal of any other name.\<close>

definition null_if_empty :: "string \<Rightarrow> Value" where
  "null_if_empty s = (if s = [] then NULL_V else STR_V s)"

definition bind_parameter :: "string_util \<Rightarrow> (string \<Rightarrow> string option) \<Rightarrow> QuackapiMiddlewareContext \<Rightarrow>
  string \<Rightarrow> Value option" where
  "bind_parameter U claims context name = (let lower = su_lower U name in
     case IsClaimsParameter U name of
       Some claim_key \<Rightarrow> Some (case claims claim_key of None \<Rightarrow> NULL_V | Some v \<Rightarrow> STR_V v)
     | None \<Rightarrow>
         if lower = ''request_id'' then Some (STR_V (mc_request_id context))
         else if lower = ''method'' then Some (STR_V (mc_method context))
         else if lower = ''path'' then Some (STR_V (mc_path context))
         else if lower = ''route'' then Some (STR_V (mc_route_name context))
         else if lower = ''group'' then Some (null_if_empty (mc_group_name context))
         else if lower = ''client_ip'' then Some (null_if_empty (mc_client_ip context))
         else if lower = ''auth_subject'' then Some (null_if_empty (mc_auth_subject context))
         else if lower = ''headers_json'' then Some (STR_V (mc_headers_json context))
         else if lower = ''query_json'' then Some (STR_V (mc_query_json context))
         else if lower = ''body'' then Some (STR_V (mc_request_body context))
         else if lower = ''status'' then Some (if mc_status context = 0 then NULL_V else INT_V (mc_status context))
         else if lower = ''elapsed_ms'' then Some (INT_V (mc_elapsed_ms context))
         else None)"

fun bind_parameters :: "(string \<Rightarrow> Value option) \<Rightarrow> string list \<Rightarrow> (string \<times> Value) list option" where
  "bind_parameters b [] = Some []"
| "bind_parameters b (name # names) =
     (case b name of None \<Rightarrow> None
      | Some v \<Rightarrow> map_option (\<lambda>vs. (name, v) # vs) (bind_parameters b names))"

text \<open>What the rows of a hook have decided so far. A value of another type than its column's throws.\<close>

record hook_rows =
  hk_row_count :: nat
  hk_blocked :: bool
  hk_status :: int
  hk_body :: string
  hk_headers :: "(string \<times> string) list"

definition cell :: "Value list \<Rightarrow> nat \<Rightarrow> Value" where
  "cell row col = (if col < length row then row ! col else NULL_V)"

definition blocking_row :: "Value \<Rightarrow> Value \<Rightarrow> hook_rows \<Rightarrow> hook_rows option" where
  "blocking_row status body st =
     (let status_value = (case status of NULL_V \<Rightarrow> Some 403 | INT_V i \<Rightarrow> Some i | _ \<Rightarrow> None);
          body_value = (case body of NULL_V \<Rightarrow> Some rejected_body | STR_V b \<Rightarrow> Some b | _ \<Rightarrow> None)
      in case (status_value, body_value) of
        (Some s, Some b) \<Rightarrow>
          if \<not> IsValidHttpStatus s then None
          else if length b > QUACKAPI_MIDDLEWARE_MAX_BODY_BYTES then None
          else if hk_blocked st \<and> (hk_status st \<noteq> s \<or> hk_body st \<noteq> b) then None
          else Some (st\<lparr>hk_blocked := True, hk_status := s, hk_body := b\<rparr>)
      | _ \<Rightarrow> None)"

definition header_row :: "string_util \<Rightarrow> Value \<Rightarrow> Value \<Rightarrow> hook_rows \<Rightarrow> hook_rows option" where
  "header_row U header_name header_value st =
     (if (header_name = NULL_V) \<noteq> (header_value = NULL_V) then None
      else case (header_name, header_value) of
        (NULL_V, _) \<Rightarrow> Some st
      | (STR_V name, STR_V val) \<Rightarrow>
          if \<not> IsSafeResponseHeader U name val then None
          else Some (st\<lparr>hk_headers := hk_headers st @ [(name, val)]\<rparr>)
      | _ \<Rightarrow> None)"

definition hook_row :: "string_util \<Rightarrow> nat \<Rightarrow> control_cols \<Rightarrow> Value list \<Rightarrow> hook_rows \<Rightarrow> hook_rows option" where
  "hook_row U ncols cc row st0 =
     (let st = st0\<lparr>hk_row_count := hk_row_count st0 + 1\<rparr>;
          status = (if status_col cc < ncols then cell row (status_col cc) else NULL_V);
          body = (if body_col cc < ncols then cell row (body_col cc) else NULL_V)
      in if hk_row_count st > QUACKAPI_MIDDLEWARE_MAX_RESULT_ROWS then None
      else case cell row (allow_col cc) of
        BOOL_V allow \<Rightarrow>
          if allow \<and> (status \<noteq> NULL_V \<or> body \<noteq> NULL_V) then None
          else (case (if header_name_col cc < ncols
                      then header_row U (cell row (header_name_col cc)) (cell row (header_value_col cc)) st
                      else Some st) of
              None \<Rightarrow> None
            | Some st1 \<Rightarrow> if allow then Some st1 else blocking_row status body st1)
      | _ \<Rightarrow> None)"

fun hook_rows_run :: "string_util \<Rightarrow> nat \<Rightarrow> control_cols \<Rightarrow> Value list list \<Rightarrow> hook_rows \<Rightarrow> hook_rows option" where
  "hook_rows_run U ncols cc [] st = Some st"
| "hook_rows_run U ncols cc (row # rows) st =
     (case hook_row U ncols cc row st of None \<Rightarrow> None | Some st' \<Rightarrow> hook_rows_run U ncols cc rows st')"

definition no_rows :: hook_rows where
  "no_rows = \<lparr>hk_row_count = 0, hk_blocked = False, hk_status = 403, hk_body = rejected_body, hk_headers = []\<rparr>"

text \<open>The fetch loop: the contract is checked when the first chunk with rows arrives.\<close>

definition fetch_rows :: "string_util \<Rightarrow> query_result \<Rightarrow> hook_rows option" where
  "fetch_rows U result =
     (let rows = concat (takeWhile (\<lambda>chunk. chunk \<noteq> []) (qr_chunks result));
          ended = (if qr_fetch_throws result \<and> [] \<notin> set (qr_chunks result) then (\<lambda>_. None) else Some)
      in if rows = [] then ended no_rows
      else case GetMiddlewareResultColumns U (qr_names result) (qr_types result) of
          None \<Rightarrow> None
        | Some cc \<Rightarrow> (case hook_rows_run U (length (qr_names result)) cc rows no_rows of
              None \<Rightarrow> None | Some st \<Rightarrow> ended st))"

text \<open>One hook: whether the next stage is allowed, and the context.\<close>

definition execute_hook :: "string_util \<Rightarrow> hook_env \<Rightarrow> bool \<Rightarrow> (string \<Rightarrow> string option) \<Rightarrow> QuackapiMiddleware \<Rightarrow>
  QuackapiMiddlewareContext \<Rightarrow> bool \<times> QuackapiMiddlewareContext" where
  "execute_hook U env authenticated claims hook context =
     (case he_rewrite env (mw_handler_sql hook) authenticated of
        Inl _ \<Rightarrow> (False, SetMiddlewareFailure 500 context)
      | Inr (handler_sql, deny_unauthenticated, policy_error) \<Rightarrow>
      if deny_unauthenticated then
        (False, context\<lparr>mc_status := 401, mc_response_body := not_authenticated_body\<rparr>)
      else if policy_error \<noteq> [] then (False, SetMiddlewareFailure 500 context)
      else case he_prepare env handler_sql of
        Inl _ \<Rightarrow> (False, SetMiddlewareFailure 500 context)
      | Inr params \<Rightarrow> (case bind_parameters (bind_parameter U claims context) params of
        None \<Rightarrow> (False, SetMiddlewareFailure 500 context)
      | Some vals \<Rightarrow>
      if he_remaining_ms env (if mc_timeout_ms context > 0 then mc_timeout_ms context else 30000) \<le> 0 then
        (False, SetMiddlewareFailure 408 context)
      else case he_execute env handler_sql vals of
        Inl _ \<Rightarrow> (False, SetMiddlewareFailure 500 context)
      | Inr result \<Rightarrow>
      if qr_error result \<or> he_expired_after_execute env then
        (False, SetMiddlewareFailure (if he_expired_after_execute env then 408 else 500) context)
      else case fetch_rows U result of
        None \<Rightarrow> (False, SetMiddlewareFailure 500 context)
      | Some st \<Rightarrow>
      if he_expired_after_fetch env then (False, SetMiddlewareFailure 408 context)
      else let context' = context\<lparr>mc_response_headers := mc_response_headers context @ hk_headers st\<rparr> in
        if hk_blocked st then (False, context'\<lparr>mc_status := hk_status st, mc_response_body := hk_body st\<rparr>)
        else (True, context')))"

fun execute_hooks :: "string_util \<Rightarrow> (nat \<Rightarrow> hook_env) \<Rightarrow> nat \<Rightarrow> bool \<Rightarrow> (string \<Rightarrow> string option) \<Rightarrow>
  QuackapiMiddleware list \<Rightarrow> QuackapiMiddlewareContext \<Rightarrow> bool \<times> QuackapiMiddlewareContext" where
  "execute_hooks U env i authenticated claims [] context = (True, context)"
| "execute_hooks U env i authenticated claims (m # ms) context =
     (case execute_hook U (env i) authenticated claims m context of
        (True, context') \<Rightarrow> execute_hooks U env (Suc i) authenticated claims ms context'
      | (False, context') \<Rightarrow> (False, context'))"

definition ExecuteQuackapiMiddleware :: "string_util \<Rightarrow> (nat \<Rightarrow> hook_env) \<Rightarrow> QuackapiMiddlewareRegistry \<Rightarrow>
  QuackapiMiddlewarePhase \<Rightarrow> string \<Rightarrow> bool \<Rightarrow> (string \<Rightarrow> string option) \<Rightarrow> QuackapiMiddlewareContext \<Rightarrow>
  bool \<times> QuackapiMiddlewareContext" where
  "ExecuteQuackapiMiddleware U env r phase group_name authenticated claims context =
     execute_hooks U env 0 authenticated claims (MiddlewareSnapshot phase group_name r) context"

section \<open>Registration order\<close>

interpretation middleware_reg: named_registry middlewares mw_name
    "\<lambda>m r. m\<lparr>mw_registration_order := (case List.find (\<lambda>x. mw_name x = mw_name m) (middlewares r) of
       Some old \<Rightarrow> mw_registration_order old | None \<Rightarrow> next_registration_order r)\<rparr>"
    AddMiddleware DropMiddleware
  by unfold_locales (auto simp: AddMiddleware_def DropMiddleware_def any_find split: option.splits if_splits)

definition middleware_wf :: "QuackapiMiddlewareRegistry \<Rightarrow> bool" where
  "middleware_wf r \<longleftrightarrow> distinct (map mw_name (middlewares r)) \<and>
     sorted_wrt (<) (map mw_registration_order (middlewares r)) \<and>
     (\<forall>m \<in> set (middlewares r). mw_registration_order m < next_registration_order r) \<and>
     length (middlewares r) \<le> QUACKAPI_MIDDLEWARE_MAX_DEFINITIONS"

inductive middleware_step :: "QuackapiMiddlewareRegistry \<Rightarrow> QuackapiMiddlewareRegistry \<Rightarrow> bool" where
  add: "AddMiddleware m or_replace r = Inr r' \<Longrightarrow> middleware_step r r'"
| drop: "middleware_step r (snd (DropMiddleware name r))"

inductive middleware_reachable :: "QuackapiMiddlewareRegistry \<Rightarrow> bool" where
  init: "middleware_reachable empty_registry"
| step: "middleware_reachable r \<Longrightarrow> middleware_step r r' \<Longrightarrow> middleware_reachable r'"

lemma map_replace_first_found:
  "List.find p xs = Some old \<Longrightarrow> f y = f old \<Longrightarrow> map f (replace_first p y xs) = map f xs"
  by (induction xs) (auto split: if_splits)

lemma length_erase_first: "length (erase_first p xs) \<le> length xs"
  by (induction xs) auto

lemma sorted_map_erase_first: "sorted_wrt (<) (map f xs) \<Longrightarrow> sorted_wrt (<) (map f (erase_first p xs))"
  by (induction xs) (auto dest: set_mp [OF set_erase_first_subset])

lemma AddMiddleware_wf:
  assumes "middleware_wf r" "AddMiddleware m rep r = Inr r'"
  shows "middleware_wf r'"
proof -
  have "distinct (map mw_name (middlewares r'))"
    using middleware_reg.add_keys_distinct assms by (auto simp: middleware_wf_def middleware_reg.keys_distinct_def)
  moreover have "sorted_wrt (<) (map mw_registration_order (middlewares r')) \<and>
     (\<forall>m \<in> set (middlewares r'). mw_registration_order m < next_registration_order r') \<and>
     length (middlewares r') \<le> QUACKAPI_MIDDLEWARE_MAX_DEFINITIONS"
  proof (cases "List.find (\<lambda>x. mw_name x = mw_name m) (middlewares r)")
    case None
    then show ?thesis using assms
      by (auto simp: AddMiddleware_def middleware_wf_def sorted_wrt_append less_Suc_eq split: if_splits)
  next
    case (Some old)
    let ?m = "m\<lparr>mw_registration_order := mw_registration_order old\<rparr>"
    have r': "r' = r\<lparr>middlewares := replace_first (\<lambda>x. mw_name x = mw_name m) ?m (middlewares r)\<rparr>"
      using Some assms(2) by (auto simp: AddMiddleware_def split: if_splits)
    have o: "map mw_registration_order (middlewares r') = map mw_registration_order (middlewares r)"
      using map_replace_first_found [OF Some, of mw_registration_order ?m] by (simp add: r')
    then have "mw_registration_order ` set (middlewares r') = mw_registration_order ` set (middlewares r)"
      by (metis list.set_map)
    moreover have "\<forall>k \<in> mw_registration_order ` set (middlewares r). k < next_registration_order r"
      using assms(1) by (simp add: middleware_wf_def)
    moreover have "next_registration_order r' = next_registration_order r" by (simp add: r')
    ultimately have "\<forall>x \<in> set (middlewares r'). mw_registration_order x < next_registration_order r'"
      by (metis imageI)
    with o assms(1) show ?thesis by (simp add: r' middleware_wf_def)
  qed
  ultimately show ?thesis by (simp add: middleware_wf_def)
qed

lemma DropMiddleware_wf: "middleware_wf r \<Longrightarrow> middleware_wf (snd (DropMiddleware name r))"
  using set_erase_first_subset [of "\<lambda>m. mw_name m = name" "middlewares r"]
    length_erase_first [of "\<lambda>m. mw_name m = name" "middlewares r"]
  by (auto simp: middleware_wf_def DropMiddleware_def distinct_map_erase_first sorted_map_erase_first)

lemma middleware_reachable_wf: "middleware_reachable r \<Longrightarrow> middleware_wf r"
proof (induction rule: middleware_reachable.induct)
  case init
  then show ?case by (simp add: middleware_wf_def empty_registry_def)
next
  case (step r r')
  from step(2,3) show ?case
    by (cases rule: middleware_step.cases) (auto intro: AddMiddleware_wf DropMiddleware_wf)
qed

lemma sorted_map_filter: "sorted_wrt (<) (map f xs) \<Longrightarrow> sorted_wrt (<) (map f (filter p xs))"
  by (induction xs) auto

definition runs_before :: "QuackapiMiddlewarePhase \<Rightarrow> QuackapiMiddleware \<Rightarrow> QuackapiMiddleware \<Rightarrow> bool" where
  "runs_before phase m n \<longleftrightarrow>
     (if (mw_group_name m = []) = (mw_group_name n = []) then mw_registration_order m < mw_registration_order n
      else if phase = BEFORE then mw_group_name m = [] else mw_group_name n = [])"

lemma append_scope_sorted:
  assumes "sorted_wrt (<) (map mw_registration_order ms)" "global \<or> group_name \<noteq> []"
  shows "sorted_wrt (runs_before phase) (append_scope phase group_name global ms)"
proof -
  let ?p = "\<lambda>m. mw_phase m = phase \<and> (if global then mw_group_name m = [] else mw_group_name m = group_name)"
  have "sorted_wrt (\<lambda>m n. mw_registration_order m < mw_registration_order n) (filter ?p ms)"
    using sorted_map_filter [OF assms(1), of ?p] by (simp add: sorted_wrt_map)
  then show ?thesis unfolding append_scope_def
    by (rule sorted_wrt_mono_rel [rotated]) (use assms(2) in \<open>auto simp: runs_before_def split: if_splits\<close>)
qed

text \<open>
  In every reachable registry the hooks of a request run in a fixed order: exactly the hooks
  of the phase that are global or of the route's group; before the handler the global hooks run
  first, after it they run last; within a scope the order is the order of registration.
\<close>

theorem middleware_snapshot_order:
  assumes "middleware_reachable r"
  shows "sorted_wrt (runs_before phase) (MiddlewareSnapshot phase group_name r) \<and>
    set (MiddlewareSnapshot phase group_name r) =
      {m \<in> set (middlewares r). mw_phase m = phase \<and> (mw_group_name m = [] \<or> mw_group_name m = group_name)}"
proof
  have s: "sorted_wrt (<) (map mw_registration_order (middlewares r))"
    using middleware_reachable_wf [OF assms] by (simp add: middleware_wf_def)
  note g = append_scope_sorted [OF s]
  have x: "runs_before BEFORE m n" "runs_before AFTER n m"
    if "mw_group_name m = []" "mw_group_name n \<noteq> []" for m n
    using that by (auto simp: runs_before_def)
  show "sorted_wrt (runs_before phase) (MiddlewareSnapshot phase group_name r)"
  proof (cases phase)
    case BEFORE
    then show ?thesis using g [of True group_name phase] g [of False group_name phase]
      by (auto simp: MiddlewareSnapshot_def sorted_wrt_append append_scope_def intro!: x)
  next
    case AFTER
    then show ?thesis using g [of True group_name phase] g [of False group_name phase]
      by (auto simp: MiddlewareSnapshot_def sorted_wrt_append append_scope_def intro!: x)
  qed
  show "set (MiddlewareSnapshot phase group_name r) =
      {m \<in> set (middlewares r). mw_phase m = phase \<and> (mw_group_name m = [] \<or> mw_group_name m = group_name)}"
    by (auto simp: MiddlewareSnapshot_def append_scope_def split: if_splits)
qed

definition audit_hook :: QuackapiMiddleware where
  "audit_hook = (new_middleware ''audit'')\<lparr>mw_group_name := ''api''\<rparr>"

definition audit_registry :: QuackapiMiddlewareRegistry where
  "audit_registry = \<lparr>middlewares = [audit_hook\<lparr>mw_registration_order := 1\<rparr>, (new_middleware ''gate'')\<lparr>mw_registration_order := 2\<rparr>],
     next_registration_order = 3\<rparr>"

lemma audit_registry_reachable: "middleware_reachable audit_registry"
proof -
  have "AddMiddleware audit_hook False empty_registry = Inr \<lparr>middlewares = [audit_hook\<lparr>mw_registration_order := 1\<rparr>], next_registration_order = 2\<rparr>"
    "AddMiddleware (new_middleware ''gate'') False \<lparr>middlewares = [audit_hook\<lparr>mw_registration_order := 1\<rparr>], next_registration_order = 2\<rparr> =
      Inr audit_registry"
    by (simp_all add: AddMiddleware_def empty_registry_def QUACKAPI_MIDDLEWARE_MAX_DEFINITIONS_def audit_hook_def
      new_middleware_def audit_registry_def)
  then show ?thesis by (meson middleware_reachable.intros middleware_step.add)
qed

theorem middleware_snapshot_order_witness:
  "map mw_name (MiddlewareSnapshot BEFORE ''api'' audit_registry) = [''gate'', ''audit''] \<and>
   sorted_wrt (runs_before BEFORE) (MiddlewareSnapshot BEFORE ''api'' audit_registry)"
  using middleware_snapshot_order [OF audit_registry_reachable, of BEFORE "''api''"]
  by (simp add: audit_registry_def MiddlewareSnapshot_def append_scope_def audit_hook_def new_middleware_def)

section \<open>Response headers\<close>

definition safe_headers :: "string_util \<Rightarrow> (string \<times> string) list \<Rightarrow> bool" where
  "safe_headers U hs = list_all (\<lambda>(name, val). IsSafeResponseHeader U name val) hs"

lemma blocking_row_SomeD:
  assumes "blocking_row status body st = Some st'"
  shows "hk_headers st' = hk_headers st \<and> hk_blocked st' \<and> IsValidHttpStatus (hk_status st') \<and>
    length (hk_body st') \<le> QUACKAPI_MIDDLEWARE_MAX_BODY_BYTES \<and> hk_row_count st' = hk_row_count st"
  using assms unfolding blocking_row_def Let_def by (auto split: option.splits prod.splits if_splits)

lemma header_row_SomeD:
  assumes "header_row U hn hv st = Some st'"
  shows "st' = st \<or> (\<exists>name val. IsSafeResponseHeader U name val \<and> st' = st\<lparr>hk_headers := hk_headers st @ [(name, val)]\<rparr>)"
  using assms unfolding header_row_def by (cases hn; cases hv) (auto split: if_splits)

lemma hook_row_SomeD:
  assumes "hook_row U n cc row st = Some st'"
  obtains allow st1 status body where "cell row (allow_col cc) = BOOL_V allow"
    "hk_row_count st < QUACKAPI_MIDDLEWARE_MAX_RESULT_ROWS"
    "st1 = st\<lparr>hk_row_count := hk_row_count st + 1\<rparr> \<or>
     (\<exists>name val. IsSafeResponseHeader U name val \<and>
        st1 = st\<lparr>hk_row_count := hk_row_count st + 1, hk_headers := hk_headers st @ [(name, val)]\<rparr>)"
    "if allow then st' = st1 else blocking_row status body st1 = Some st'"
proof -
  let ?st = "st\<lparr>hk_row_count := hk_row_count st + 1\<rparr>"
  obtain allow where a: "cell row (allow_col cc) = BOOL_V allow" "hk_row_count st < QUACKAPI_MIDDLEWARE_MAX_RESULT_ROWS"
    using assms by (cases "cell row (allow_col cc)") (auto simp: hook_row_def Let_def split: if_splits)
  obtain st1 where h: "(if header_name_col cc < n then header_row U (cell row (header_name_col cc)) (cell row (header_value_col cc)) ?st
      else Some ?st) = Some st1"
    and b: "if allow then st' = st1 else \<exists>status body. blocking_row status body st1 = Some st'"
    using assms a unfolding hook_row_def Let_def by (auto split: if_splits option.splits)
  from h have s: "st1 = ?st \<or> (\<exists>name val. IsSafeResponseHeader U name val \<and> st1 = ?st\<lparr>hk_headers := hk_headers ?st @ [(name, val)]\<rparr>)"
  proof (cases "header_name_col cc < n")
    case True
    with h have "header_row U (cell row (header_name_col cc)) (cell row (header_value_col cc)) ?st = Some st1" by simp
    then show ?thesis by (rule header_row_SomeD)
  qed (use h in simp)
  from b obtain status body where "if allow then st' = st1 else blocking_row status body st1 = Some st'"
    by (cases allow) auto
  from that [OF a _ this] s show thesis by simp
qed

lemma hook_row_safe:
  assumes "hook_row U n cc row st = Some st'" "safe_headers U (hk_headers st)"
  shows "safe_headers U (hk_headers st')"
  using assms(1)
proof (rule hook_row_SomeD)
  fix allow st1 status body
  assume "st1 = st\<lparr>hk_row_count := hk_row_count st + 1\<rparr> \<or>
     (\<exists>name val. IsSafeResponseHeader U name val \<and>
        st1 = st\<lparr>hk_row_count := hk_row_count st + 1, hk_headers := hk_headers st @ [(name, val)]\<rparr>)"
    and "if allow then st' = st1 else blocking_row status body st1 = Some st'"
  moreover from this(1) have "safe_headers U (hk_headers st1)" using assms(2) by (auto simp: safe_headers_def)
  ultimately show ?thesis by (cases allow) (auto dest: blocking_row_SomeD)
qed

lemma hook_rows_run_safe:
  "hook_rows_run U n cc rows st = Some st' \<Longrightarrow> safe_headers U (hk_headers st) \<Longrightarrow> safe_headers U (hk_headers st')"
proof (induction rows arbitrary: st)
  case (Cons row rows)
  then obtain st1 where "hook_row U n cc row st = Some st1" "hook_rows_run U n cc rows st1 = Some st'"
    by (auto split: option.splits)
  with Cons.IH hook_row_safe Cons.prems(2) show ?case by blast
qed simp

lemma fetch_rows_SomeD:
  assumes "fetch_rows U result = Some st"
  shows "st = no_rows \<or> (\<exists>cc rows. hook_rows_run U (length (qr_names result)) cc rows no_rows = Some st)"
proof -
  have e: "(if b then (\<lambda>_. None) else Some) x = Some y \<Longrightarrow> x = y" for b and x y :: hook_rows
    by (cases b) auto
  show ?thesis
    using assms unfolding fetch_rows_def Let_def
    by (elim if_SomeE) (auto dest!: e split: option.splits)
qed

lemma fetch_rows_safe: "fetch_rows U result = Some st \<Longrightarrow> safe_headers U (hk_headers st)"
  using fetch_rows_SomeD hook_rows_run_safe [where st = no_rows]
  by (metis no_rows_def hook_rows.select_convs(5) safe_headers_def list.pred_inject(1))


lemma execute_hook_cases:
  assumes "execute_hook U env auth claims m context = (ok, context')"
  shows "(\<not> ok \<and> (context' = SetMiddlewareFailure 500 context \<or> context' = SetMiddlewareFailure 408 context)) \<or>
    (\<not> ok \<and> context' = context\<lparr>mc_status := 401, mc_response_body := not_authenticated_body\<rparr>) \<or>
    (\<exists>st result. fetch_rows U result = Some st \<and> ok = (\<not> hk_blocked st) \<and>
      context' = (if hk_blocked st then context\<lparr>mc_response_headers := mc_response_headers context @ hk_headers st,
          mc_status := hk_status st, mc_response_body := hk_body st\<rparr>
        else context\<lparr>mc_response_headers := mc_response_headers context @ hk_headers st\<rparr>))"
proof -
  define Q where "Q = (\<lambda>p. (\<not> fst p \<and> (snd p = SetMiddlewareFailure 500 context \<or> snd p = SetMiddlewareFailure 408 context)) \<or>
    (\<not> fst p \<and> snd p = context\<lparr>mc_status := 401, mc_response_body := not_authenticated_body\<rparr>) \<or>
    (\<exists>st result. fetch_rows U result = Some st \<and> fst p = (\<not> hk_blocked st) \<and>
      snd p = (if hk_blocked st then context\<lparr>mc_response_headers := mc_response_headers context @ hk_headers st,
          mc_status := hk_status st, mc_response_body := hk_body st\<rparr>
        else context\<lparr>mc_response_headers := mc_response_headers context @ hk_headers st\<rparr>)))"
  have f: "Q (False, SetMiddlewareFailure 500 context)" "Q (False, SetMiddlewareFailure 408 context)"
    "Q (False, SetMiddlewareFailure (if b then 408 else 500) context)"
    "Q (False, context\<lparr>mc_status := 401, mc_response_body := not_authenticated_body\<rparr>)" for b
    by (simp_all add: Q_def)
  have i: "Q x \<Longrightarrow> Q y \<Longrightarrow> Q (if b then x else y)" for b x y by simp
  have "Q (execute_hook U env auth claims m context)"
    unfolding execute_hook_def Let_def
    by (auto intro!: i f split: sum.split option.split prod.split) (auto simp: Q_def)
  then show ?thesis using assms by (simp add: Q_def)
qed

lemma execute_hook_headers:
  assumes "execute_hook U env auth claims m context = (ok, context')"
  shows "\<exists>hs. safe_headers U hs \<and> mc_response_headers context' = mc_response_headers context @ hs"
  using execute_hook_cases [OF assms]
proof (elim disjE exE conjE)
  fix st result
  assume "fetch_rows U result = Some st" and c: "context' = (if hk_blocked st then context\<lparr>mc_response_headers := mc_response_headers context @ hk_headers st,
          mc_status := hk_status st, mc_response_body := hk_body st\<rparr>
        else context\<lparr>mc_response_headers := mc_response_headers context @ hk_headers st\<rparr>)"
  then show ?thesis using fetch_rows_safe by (intro exI [of _ "hk_headers st"]) auto
qed (auto simp: SetMiddlewareFailure_def safe_headers_def intro!: exI [of _ "[]"])

lemma safe_headers_append: "safe_headers U xs \<Longrightarrow> safe_headers U ys \<Longrightarrow> safe_headers U (xs @ ys)"
  by (simp add: safe_headers_def)

lemma execute_hooks_headers:
  "execute_hooks U env i auth claims ms context = (ok, context') \<Longrightarrow>
   \<exists>hs. safe_headers U hs \<and> mc_response_headers context' = mc_response_headers context @ hs"
proof (induction ms arbitrary: i "context")
  case Nil
  then show ?case by (auto simp: safe_headers_def intro!: exI [of _ "[]"])
next
  case (Cons m ms)
  obtain ok1 c1 where e: "execute_hook U (env i) auth claims m context = (ok1, c1)" by (cases "execute_hook U (env i) auth claims m context")
  obtain hs where h: "safe_headers U hs" "mc_response_headers c1 = mc_response_headers context @ hs"
    using execute_hook_headers [OF e] by blast
  show ?case
  proof (cases ok1)
    case True
    with Cons.prems e Cons.IH [of "Suc i" c1] h safe_headers_append [OF h(1)] show ?thesis by fastforce
  next
    case False
    with Cons.prems e h show ?thesis by auto
  qed
qed

text \<open>
  Hooks cannot split or reframe a response: whatever their SQL returns, the headers of the
  response are those it had before followed by headers whose name is a nonempty HTTP token that
  is none of the connection and framing headers, whose value has no carriage return and no
  newline, and whose size is within the limit.
\<close>

theorem middleware_headers_safe:
  assumes "string_util_ok U" "ExecuteQuackapiMiddleware U env r phase group_name authenticated claims context = (ok, context')"
  shows "\<exists>hs. mc_response_headers context' = mc_response_headers context @ hs \<and>
    (\<forall>(name, val) \<in> set hs. name \<noteq> [] \<and> list_all IsHttpTokenChar name \<and>
       map ascii_lower name \<notin> {''content-length'', ''transfer-encoding'', ''connection'', ''upgrade'', ''trailer'', ''te''} \<and>
       set val \<inter> {CHR 0x0D, CHR 0x0A} = {} \<and> length name + length val \<le> 8192)"
proof -
  obtain hs where h: "safe_headers U hs" "mc_response_headers context' = mc_response_headers context @ hs"
    using execute_hooks_headers assms(2) unfolding ExecuteQuackapiMiddleware_def by blast
  have "name \<noteq> [] \<and> list_all IsHttpTokenChar name \<and>
       map ascii_lower name \<notin> {''content-length'', ''transfer-encoding'', ''connection'', ''upgrade'', ''trailer'', ''te''} \<and>
       set val \<inter> {CHR 0x0D, CHR 0x0A} = {} \<and> length name + length val \<le> 8192"
    if "IsSafeResponseHeader U name val" for name val
    using that string_util_okD(1) [OF assms(1)]
    by (auto simp: IsSafeResponseHeader_def IsForbiddenResponseHeader_def QUACKAPI_MIDDLEWARE_MAX_HEADER_BYTES_def
      split: if_splits)
  with h show ?thesis by (force simp: safe_headers_def list_all_iff)
qed

definition example_context :: QuackapiMiddlewareContext where
  "example_context = \<lparr>mc_method = ''GET'', mc_path = ''/'', mc_route_name = ''r'', mc_group_name = ''api'',
     mc_request_id = ''1'', mc_request_body = [], mc_headers_json = ''{}'', mc_query_json = ''{}'', mc_client_ip = [],
     mc_auth_subject = [], mc_status = 0, mc_response_body = [], mc_response_headers = [], mc_timeout_ms = 30000,
     mc_elapsed_ms = 0, mc_middleware_failed = False\<rparr>"

definition row_env :: "string list \<Rightarrow> LogicalTypeId list \<Rightarrow> Value list \<Rightarrow> hook_env" where
  "row_env names types row = \<lparr>he_rewrite = (\<lambda>sql _. Inr (sql, False, [])), he_prepare = (\<lambda>_. Inr [''method'']),
     he_remaining_ms = (\<lambda>t. t), he_execute = (\<lambda>_ _. Inr \<lparr>qr_error = False, qr_names = names, qr_types = types,
       qr_chunks = [[row]], qr_fetch_throws = False\<rparr>), he_expired_after_execute = False, he_expired_after_fetch = False\<rparr>"

lemmas hook_eval = ExecuteQuackapiMiddleware_def execute_hook_def row_env_def example_context_def bind_parameter_def
  IsClaimsParameter_def fetch_rows_def GetMiddlewareResultColumns_def set_slot_def has_type_def hook_row_def no_rows_def
  cell_def header_row_def blocking_row_def IsSafeResponseHeader_def IsForbiddenResponseHeader_def IsHttpTokenChar_def
  IsValidHttpStatus_def QUACKAPI_MIDDLEWARE_MAX_RESULT_ROWS_def QUACKAPI_MIDDLEWARE_MAX_HEADER_BYTES_def
  QUACKAPI_MIDDLEWARE_MAX_BODY_BYTES_def audit_registry_def MiddlewareSnapshot_def append_scope_def audit_hook_def
  new_middleware_def ascii_eval Let_def

lemma header_hooks_run:
  "ExecuteQuackapiMiddleware ascii_util (\<lambda>_. row_env [''allow'', ''Header_Name'', ''header_value''] [BOOLEAN, VARCHAR, VARCHAR]
     [BOOL_V True, STR_V ''X-A'', STR_V ''1'']) audit_registry BEFORE [] True Map.empty example_context =
   (True, example_context\<lparr>mc_response_headers := [(''X-A'', ''1'')]\<rparr>)"
  by (simp add: hook_eval)

theorem middleware_headers_safe_witness:
  "\<exists>hs. mc_response_headers (example_context\<lparr>mc_response_headers := [(''X-A'', ''1'')]\<rparr>) = mc_response_headers example_context @ hs \<and>
    (\<forall>(name, val) \<in> set hs. name \<noteq> [])"
  using middleware_headers_safe [OF string_util_ok_ascii header_hooks_run] by fast

section \<open>Failing closed\<close>

text \<open>What a blocked or failed request answers.\<close>

definition refusal :: "QuackapiMiddlewareContext \<Rightarrow> QuackapiMiddlewareContext \<Rightarrow> bool" where
  "refusal c c' \<longleftrightarrow>
     (mc_middleware_failed c' \<and> (mc_status c' = 500 \<and> mc_response_body c' = failed_body \<or>
        mc_status c' = 408 \<and> mc_response_body c' = timed_out_body)) \<or>
     (mc_middleware_failed c' = mc_middleware_failed c \<and>
        (mc_status c' = 401 \<and> mc_response_body c' = not_authenticated_body \<or>
         IsValidHttpStatus (mc_status c') \<and> length (mc_response_body c') \<le> QUACKAPI_MIDDLEWARE_MAX_BODY_BYTES))"

lemma hook_row_blocked:
  assumes "hook_row U n cc row st = Some st'"
  shows "hk_blocked st' \<longrightarrow> hk_blocked st \<and> hk_status st' = hk_status st \<and> hk_body st' = hk_body st \<or>
      IsValidHttpStatus (hk_status st') \<and> length (hk_body st') \<le> QUACKAPI_MIDDLEWARE_MAX_BODY_BYTES"
    and "\<not> hk_blocked st' \<Longrightarrow> cell row (allow_col cc) = BOOL_V True \<and> \<not> hk_blocked st"
proof -
  obtain allow st1 status body where a: "cell row (allow_col cc) = BOOL_V allow"
    and "hk_row_count st < QUACKAPI_MIDDLEWARE_MAX_RESULT_ROWS"
    and d: "st1 = st\<lparr>hk_row_count := hk_row_count st + 1\<rparr> \<or>
     (\<exists>name val. IsSafeResponseHeader U name val \<and>
        st1 = st\<lparr>hk_row_count := hk_row_count st + 1, hk_headers := hk_headers st @ [(name, val)]\<rparr>)"
    and b: "if allow then st' = st1 else blocking_row status body st1 = Some st'"
    using assms by (rule hook_row_SomeD)
  have s: "hk_blocked st1 = hk_blocked st" "hk_status st1 = hk_status st" "hk_body st1 = hk_body st"
    using d by auto
  show "hk_blocked st' \<longrightarrow> hk_blocked st \<and> hk_status st' = hk_status st \<and> hk_body st' = hk_body st \<or>
      IsValidHttpStatus (hk_status st') \<and> length (hk_body st') \<le> QUACKAPI_MIDDLEWARE_MAX_BODY_BYTES"
    using s b blocking_row_SomeD by (cases allow) auto
  show "cell row (allow_col cc) = BOOL_V True \<and> \<not> hk_blocked st" if "\<not> hk_blocked st'"
    using that a s b blocking_row_SomeD by (cases allow) auto
qed

definition block_ok :: "hook_rows \<Rightarrow> bool" where
  "block_ok st \<longleftrightarrow> (hk_blocked st \<longrightarrow>
     IsValidHttpStatus (hk_status st) \<and> length (hk_body st) \<le> QUACKAPI_MIDDLEWARE_MAX_BODY_BYTES)"

lemma hook_rows_run_block:
  "hook_rows_run U n cc rows st = Some st' \<Longrightarrow> block_ok st \<Longrightarrow>
   block_ok st' \<and> (\<not> hk_blocked st' \<longrightarrow> \<not> hk_blocked st \<and> (\<forall>row \<in> set rows. cell row (allow_col cc) = BOOL_V True))"
proof (induction rows arbitrary: st)
  case (Cons row rows)
  then obtain st1 where r: "hook_row U n cc row st = Some st1" "hook_rows_run U n cc rows st1 = Some st'"
    by (auto split: option.splits)
  have "block_ok st1" using hook_row_blocked(1) [OF r(1)] Cons.prems(2) by (auto simp: block_ok_def)
  from Cons.IH [OF r(2) this] hook_row_blocked(2) [OF r(1)] show ?case by auto
qed simp

definition delivered_rows :: "query_result \<Rightarrow> Value list list" where
  "delivered_rows result = concat (takeWhile (\<lambda>chunk. chunk \<noteq> []) (qr_chunks result))"

lemma fetch_rows_block:
  assumes "fetch_rows U result = Some st"
  shows "block_ok st \<and> (\<not> hk_blocked st \<longrightarrow> delivered_rows result = [] \<or>
    (\<exists>cc. GetMiddlewareResultColumns U (qr_names result) (qr_types result) = Some cc \<and>
      (\<forall>row \<in> set (delivered_rows result). cell row (allow_col cc) = BOOL_V True)))"
proof -
  have e: "(if b then (\<lambda>_. None) else Some) x = Some y \<Longrightarrow> x = y" for b and x y :: hook_rows
    by (cases b) auto
  have n: "block_ok no_rows" by (simp add: block_ok_def no_rows_def)
  show ?thesis
  proof (cases "delivered_rows result = []")
    case True
    with assms n show ?thesis
      unfolding fetch_rows_def Let_def delivered_rows_def [symmetric] by (auto dest!: e)
  next
    case False
    then obtain cc where "GetMiddlewareResultColumns U (qr_names result) (qr_types result) = Some cc"
      "hook_rows_run U (length (qr_names result)) cc (delivered_rows result) no_rows = Some st"
      using assms unfolding fetch_rows_def Let_def delivered_rows_def [symmetric] by (auto dest!: e split: option.splits)
    with hook_rows_run_block [OF this(2) n] show ?thesis by auto
  qed
qed

lemma execute_hook_refusal:
  assumes "execute_hook U env auth claims m ctx = (False, ctx')"
  shows "refusal ctx ctx'"
  using execute_hook_cases [OF assms]
proof (elim disjE exE conjE)
  fix st result
  assume f: "fetch_rows U result = Some st" and b: "False = (\<not> hk_blocked st)" and
    "ctx' = (if hk_blocked st then ctx\<lparr>mc_response_headers := mc_response_headers ctx @ hk_headers st,
          mc_status := hk_status st, mc_response_body := hk_body st\<rparr>
        else ctx\<lparr>mc_response_headers := mc_response_headers ctx @ hk_headers st\<rparr>)"
  then show ?thesis using fetch_rows_block [OF f] by (simp add: refusal_def block_ok_def)
qed (auto simp: SetMiddlewareFailure_def refusal_def)

text \<open>What DuckDB answered when a hook let the request pass.\<close>

definition hook_allows :: "string_util \<Rightarrow> hook_env \<Rightarrow> bool \<Rightarrow> QuackapiMiddleware \<Rightarrow> bool" where
  "hook_allows U env auth m \<longleftrightarrow> (\<exists>sql vals result. he_rewrite env (mw_handler_sql m) auth = Inr (sql, False, []) \<and>
     he_execute env sql vals = Inr result \<and> \<not> qr_error result \<and>
     \<not> he_expired_after_execute env \<and> \<not> he_expired_after_fetch env \<and>
     (delivered_rows result = [] \<or>
      (\<exists>cc. GetMiddlewareResultColumns U (qr_names result) (qr_types result) = Some cc \<and>
        (\<forall>row \<in> set (delivered_rows result). cell row (allow_col cc) = BOOL_V True))))"

lemma if_not_False: "(if b then (False, x) else y) = (True, z) \<longleftrightarrow> \<not> b \<and> y = (True, z)"
  by auto

lemma execute_hook_allows:
  assumes "execute_hook U env auth claims m ctx = (True, ctx')"
  shows "hook_allows U env auth m \<and> mc_status ctx' = mc_status ctx \<and> mc_response_body ctx' = mc_response_body ctx \<and>
    mc_middleware_failed ctx' = mc_middleware_failed ctx"
proof -
  obtain sql deny perr where rw: "he_rewrite env (mw_handler_sql m) auth = Inr (sql, deny, perr)" "\<not> deny" "perr = []"
    using assms by (auto simp: execute_hook_def if_not_False split: sum.splits)
  obtain params vals where pv: "he_prepare env sql = Inr params" "bind_parameters (bind_parameter U claims ctx) params = Some vals"
    using assms rw by (auto simp: execute_hook_def if_not_False split: sum.splits option.splits)
  obtain result where re: "he_execute env sql vals = Inr result" "\<not> qr_error result" "\<not> he_expired_after_execute env"
    using assms rw pv by (auto simp: execute_hook_def if_not_False split: sum.splits)
  obtain st where st: "fetch_rows U result = Some st" "\<not> he_expired_after_fetch env" "\<not> hk_blocked st"
    "ctx' = ctx\<lparr>mc_response_headers := mc_response_headers ctx @ hk_headers st\<rparr>"
    using assms rw pv re by (auto simp: execute_hook_def if_not_False Let_def split: option.splits)
  show ?thesis using fetch_rows_block [OF st(1)] rw re st unfolding hook_allows_def by auto
qed


lemma execute_hooks_outcome:
  "execute_hooks U env i auth claims ms ctx = (ok, ctx') \<Longrightarrow>
   (if ok then (\<forall>k < length ms. hook_allows U (env (i + k)) auth (ms ! k)) \<and> mc_status ctx' = mc_status ctx \<and>
      mc_response_body ctx' = mc_response_body ctx \<and> mc_middleware_failed ctx' = mc_middleware_failed ctx
    else refusal ctx ctx')"
proof (induction ms arbitrary: i ctx)
  case (Cons m ms)
  obtain ok1 c1 where e: "execute_hook U (env i) auth claims m ctx = (ok1, c1)" by (cases "execute_hook U (env i) auth claims m ctx")
  show ?case
  proof (cases ok1)
    case False
    with Cons.prems e have "execute_hook U (env i) auth claims m ctx = (False, ctx')" "\<not> ok" by auto
    then show ?thesis using execute_hook_refusal by simp
  next
    case True
    have a: "hook_allows U (env i) auth m" "mc_status c1 = mc_status ctx"
      "mc_response_body c1 = mc_response_body ctx" "mc_middleware_failed c1 = mc_middleware_failed ctx"
      using execute_hook_allows [of U "env i" auth claims m ctx c1] e True by simp_all
    from True Cons.prems e have "execute_hooks U env (Suc i) auth claims ms c1 = (ok, ctx')" by simp
    note ih = Cons.IH [OF this]
    show ?thesis
    proof (cases ok)
      case True
      have "hook_allows U (env (i + k)) auth ((m # ms) ! k)" if "k < length (m # ms)" for k
        using that a(1) ih True by (cases k) auto
      with True ih a show ?thesis by simp
    next
      case False
      with ih a(4) show ?thesis by (simp add: refusal_def)
    qed
  qed
qed simp

text \<open>
  C23. Middleware fails closed: the next stage runs only when every hook of the snapshot was
  rewritten without denial or policy error, executed without error before its deadline, and
  returned no row or only rows whose typed \<open>allow\<close> column is true; then status, body and failure
  flag are untouched. In every other case the answer is a fixed 500 or 408 failure without any
  detail of the error, the fixed 401, or a declared block with a valid status and a bounded body.
\<close>

theorem middleware_fails_closed:
  assumes "ExecuteQuackapiMiddleware U env r phase group_name authenticated claims ctx = (ok, ctx')"
  shows "(ok \<longrightarrow> (\<forall>k < length (MiddlewareSnapshot phase group_name r).
        hook_allows U (env k) authenticated (MiddlewareSnapshot phase group_name r ! k)) \<and>
      mc_status ctx' = mc_status ctx \<and> mc_response_body ctx' = mc_response_body ctx \<and>
      mc_middleware_failed ctx' = mc_middleware_failed ctx) \<and>
    (\<not> ok \<longrightarrow> refusal ctx ctx')"
  using execute_hooks_outcome [OF assms [unfolded ExecuteQuackapiMiddleware_def]] by (cases ok) auto

lemma denied_hooks_run:
  "ExecuteQuackapiMiddleware ascii_util (\<lambda>_. row_env [''allow'', ''status''] [BOOLEAN, INTEGER]
     [BOOL_V False, INT_V 429]) audit_registry BEFORE [] True Map.empty example_context =
   (False, example_context\<lparr>mc_status := 429, mc_response_body := rejected_body\<rparr>)"
  by (simp add: hook_eval rejected_body_def)

theorem middleware_fails_closed_witness:
  "refusal example_context (example_context\<lparr>mc_status := 429, mc_response_body := rejected_body\<rparr>)"
  using middleware_fails_closed [OF denied_hooks_run] by simp

section \<open>The DDL\<close>

definition valid_definition :: "QuackapiMiddleware \<Rightarrow> bool" where
  "valid_definition m \<longleftrightarrow> IsMiddlewareName (mw_name m) \<and> (mw_group_name m = [] \<or> IsMiddlewareName (mw_group_name m)) \<and>
     mw_handler_sql m \<noteq> [] \<and> length (mw_handler_sql m) \<le> QUACKAPI_MIDDLEWARE_MAX_SQL_BYTES"

lemma MiddlewareCreateParse_valid:
  assumes "MiddlewareCreateParse U q upper rep n = PARSE_SUCCESSFUL d"
  shows "md_action d = ''CREATE'' \<and> valid_definition (md_middleware d) \<and> md_or_replace d = rep"
  using assms unfolding MiddlewareCreateParse_def Let_def
  by (auto simp: valid_definition_def split: option.splits if_splits)


lemma MiddlewareDdlParse_valid:
  assumes "MiddlewareDdlParse U q = PARSE_SUCCESSFUL d"
  shows "md_action d = ''CREATE'' \<and> valid_definition (md_middleware d) \<or>
    md_action d = ''DROP'' \<and> IsMiddlewareName (mw_name (md_middleware d))"
  using assms MiddlewareCreateParse_valid
  by (fastforce simp: MiddlewareDdlParse_def new_middleware_def Let_def split: if_splits)

text \<open>One DDL statement: parsed, planned (the plan passes the parsed data on) and applied.\<close>

definition run_middleware_ddl :: "string_util \<Rightarrow> (string \<Rightarrow> string + unit) \<Rightarrow> string \<Rightarrow>
  QuackapiMiddlewareRegistry \<Rightarrow> QuackapiMiddlewareRegistry" where
  "run_middleware_ddl U prepare query r = (case MiddlewareDdlParse U query of
       PARSE_SUCCESSFUL d \<Rightarrow> (case ApplyMiddlewareExec prepare d r of Inr (_, r') \<Rightarrow> r' | Inl _ \<Rightarrow> r)
     | _ \<Rightarrow> r)"

definition good_hook :: "(string \<Rightarrow> string + unit) \<Rightarrow> QuackapiMiddleware \<Rightarrow> bool" where
  "good_hook prepare m \<longleftrightarrow> valid_definition m \<and> prepare (mw_handler_sql m) = Inr ()"

lemma good_hook_order [simp]: "good_hook prepare (m\<lparr>mw_registration_order := k\<rparr>) = good_hook prepare m"
  by (simp add: good_hook_def valid_definition_def)

lemma AddMiddleware_hooks:
  "AddMiddleware m rep r = Inr r' \<Longrightarrow> \<forall>x \<in> set (middlewares r). good_hook p x \<Longrightarrow> good_hook p m \<Longrightarrow>
   \<forall>x \<in> set (middlewares r'). good_hook p x"
  by (auto simp: AddMiddleware_def split: option.splits if_splits dest!: in_set_replace_firstD)

lemma run_middleware_ddl_step:
  "run_middleware_ddl U prepare query r = r \<or> middleware_step r (run_middleware_ddl U prepare query r)"
proof (cases "MiddlewareDdlParse U query")
  case (PARSE_SUCCESSFUL d)
  show ?thesis
  proof (cases "ApplyMiddlewareExec prepare d r")
    case (Inr p)
    then have "(\<exists>m rep. AddMiddleware m rep r = Inr (snd p)) \<or> (\<exists>n. snd p = snd (DropMiddleware n r))"
      by (auto simp: ApplyMiddlewareExec_def Let_def DropMiddleware_def split: if_splits sum.splits bool.splits)
    with PARSE_SUCCESSFUL Inr show ?thesis
      by (auto simp: run_middleware_ddl_def split: prod.splits intro: middleware_step.intros)
  qed (use PARSE_SUCCESSFUL in \<open>simp add: run_middleware_ddl_def\<close>)
qed (simp_all add: run_middleware_ddl_def)

lemma run_middleware_ddl_hooks:
  assumes "\<forall>x \<in> set (middlewares r). good_hook prepare x"
  shows "\<forall>x \<in> set (middlewares (run_middleware_ddl U prepare query r)). good_hook prepare x"
proof (cases "MiddlewareDdlParse U query")
  case (PARSE_SUCCESSFUL d)
  show ?thesis
  proof (cases "ApplyMiddlewareExec prepare d r")
    case (Inr p)
    from MiddlewareDdlParse_valid [OF PARSE_SUCCESSFUL] show ?thesis
    proof
      assume d: "md_action d = ''CREATE'' \<and> valid_definition (md_middleware d)"
      then have "prepare (mw_handler_sql (md_middleware d)) = Inr ()" "AddMiddleware (md_middleware d) (md_or_replace d) r = Inr (snd p)"
        using Inr by (auto simp: ApplyMiddlewareExec_def Let_def split: if_splits sum.splits)
      then have "\<forall>x \<in> set (middlewares (snd p)). good_hook prepare x"
        using AddMiddleware_hooks assms d by (metis good_hook_def)
      then show ?thesis using PARSE_SUCCESSFUL Inr by (simp add: run_middleware_ddl_def split: prod.splits)
    next
      assume "md_action d = ''DROP'' \<and> IsMiddlewareName (mw_name (md_middleware d))"
      then have "snd p = snd (DropMiddleware (mw_name (md_middleware d)) r)"
        using Inr by (auto simp: ApplyMiddlewareExec_def Let_def DropMiddleware_def split: if_splits bool.splits)
      then show ?thesis using PARSE_SUCCESSFUL Inr assms set_erase_first_subset
        by (fastforce simp: run_middleware_ddl_def DropMiddleware_def split: prod.splits)
    qed
  qed (use PARSE_SUCCESSFUL assms in \<open>simp add: run_middleware_ddl_def\<close>)
qed (use assms in \<open>simp_all add: run_middleware_ddl_def\<close>)

text \<open>
  Whatever statements are run, the registry they leave is well-formed: names are distinct,
  there are at most 64 definitions, in strictly increasing registration order, and each of them
  has a valid name and group, SQL of at most 16 KiB, and SQL that DuckDB prepared.
\<close>

theorem middleware_ddl_registry:
  "middleware_wf (fold (run_middleware_ddl U prepare) queries empty_registry) \<and>
   (\<forall>m \<in> set (middlewares (fold (run_middleware_ddl U prepare) queries empty_registry)). good_hook prepare m)"
proof -
  have "middleware_reachable r \<and> (\<forall>m \<in> set (middlewares r). good_hook prepare m) \<Longrightarrow>
      middleware_reachable (fold (run_middleware_ddl U prepare) queries r) \<and>
      (\<forall>m \<in> set (middlewares (fold (run_middleware_ddl U prepare) queries r)). good_hook prepare m)" for r
  proof (induction queries arbitrary: r)
    case (Cons q qs)
    have "middleware_reachable (run_middleware_ddl U prepare q r)"
      using run_middleware_ddl_step [of U prepare q r] Cons.prems middleware_reachable.step by metis
    with Cons.IH [of "run_middleware_ddl U prepare q r"] run_middleware_ddl_hooks [of r prepare U q] Cons.prems show ?case by simp
  qed simp
  from this [of empty_registry] show ?thesis
    using middleware_reachable.init middleware_reachable_wf by (simp add: empty_registry_def)
qed

lemma gate_ddl:
  "MiddlewareDdlParse ascii_util ''create middleware gate before as select 1'' =
   PARSE_SUCCESSFUL \<lparr>md_action = ''CREATE'', md_or_replace = False,
     md_middleware = (new_middleware ''gate'')\<lparr>mw_handler_sql := ''select 1''\<rparr>\<rparr>"
  by (simp add: MiddlewareDdlParse_def MiddlewareCreateParse_def QuackapiTrim_def Let_def ascii_eval upt_rec_numeral
    FindStandaloneKeyword_def keyword_at_def IsWhitespaceBoundary_def WhitespaceTokens.simps IsMiddlewareName_def
    QUACKAPI_MIDDLEWARE_MAX_SQL_BYTES_def new_middleware_def)

theorem middleware_ddl_registry_witness:
  "good_hook (\<lambda>_. Inr ()) \<lparr>mw_name = ''gate'', mw_phase = BEFORE, mw_group_name = [], mw_handler_sql = ''select 1'', mw_registration_order = 1\<rparr>"
proof -
  have "fold (run_middleware_ddl ascii_util (\<lambda>_. Inr ())) [''create middleware gate before as select 1''] empty_registry =
    \<lparr>middlewares = [\<lparr>mw_name = ''gate'', mw_phase = BEFORE, mw_group_name = [], mw_handler_sql = ''select 1'', mw_registration_order = 1\<rparr>],
     next_registration_order = 2\<rparr>"
    by (simp add: run_middleware_ddl_def gate_ddl ApplyMiddlewareExec_def new_middleware_def IsMiddlewareName_def ascii_eval
      QUACKAPI_MIDDLEWARE_MAX_SQL_BYTES_def AddMiddleware_def empty_registry_def QUACKAPI_MIDDLEWARE_MAX_DEFINITIONS_def Let_def)
  then show ?thesis
    using middleware_ddl_registry [of ascii_util "\<lambda>_. Inr ()" "[''create middleware gate before as select 1'']"] by simp
qed

end
