(* ===== verification/Http.thy ===== *)
theory Http
  imports Util
begin

text \<open>
  The parts of the vendored HTTP library \<open>src/third_party/httplib/httplib.hpp\<close> the server relies
  on: header multimaps with case-insensitive keys, the validity of a header field, requests and
  responses, and the encoding of query components. A multimap keeps its entries in insertion
  order, so it is a list of pairs.
\<close>

section \<open>Header multimaps\<close>

type_synonym multimap = "(string \<times> string) list"

definition hl_lower :: "char \<Rightarrow> char" where
  "hl_lower c =
     (if 65 \<le> byte c \<and> byte c \<le> 90 \<or> 192 \<le> byte c \<and> byte c \<le> 214 \<or> 216 \<le> byte c \<and> byte c \<le> 222
      then char_of (byte c + 32) else c)"

definition hl_equal :: "string \<Rightarrow> string \<Rightarrow> bool" where
  "hl_equal a b = (map hl_lower a = map hl_lower b)"

definition find_header :: "multimap \<Rightarrow> string \<Rightarrow> string option" where
  "find_header headers key = map_option snd (List.find (\<lambda>h. hl_equal (fst h) key) headers)"

definition has_header :: "multimap \<Rightarrow> string \<Rightarrow> bool" where
  "has_header headers key = any (\<lambda>h. hl_equal (fst h) key) headers"

text \<open>The value is read as a C string, up to its first null byte.\<close>

definition get_header_value :: "multimap \<Rightarrow> string \<Rightarrow> string" where
  "get_header_value headers key = (case find_header headers key of
     None \<Rightarrow> [] | Some v \<Rightarrow> takeWhile (\<lambda>c. c \<noteq> CHR 0x00) v)"

definition erase_header :: "string \<Rightarrow> multimap \<Rightarrow> multimap" where
  "erase_header key headers = filter (\<lambda>h. \<not> hl_equal (fst h) key) headers"

definition is_token_char :: "char \<Rightarrow> bool" where
  "is_token_char c = (is_digit c \<or> is_alpha c \<or> c \<in> set ''!#$%&*+-.^_`|~'' \<or> c = CHR 0x27)"

definition is_field_name :: "string \<Rightarrow> bool" where
  "is_field_name s = (s \<noteq> [] \<and> list_all is_token_char s)"

definition is_field_vchar :: "char \<Rightarrow> bool" where
  "is_field_vchar c = (33 \<le> byte c \<and> byte c \<le> 126 \<or> 128 \<le> byte c)"

definition is_field_value :: "string \<Rightarrow> bool" where
  "is_field_value s =
     (if s = [] then True
      else if length s = 1 then is_field_vchar (s ! 0)
      else if length s = 2 then is_field_vchar (s ! 0) \<and> is_field_vchar (s ! 1)
      else is_field_vchar (hd s) \<and>
        list_all (\<lambda>c. c = CHR '' '' \<or> c = CHR 0x09 \<or> is_field_vchar c) (butlast (tl s)) \<and>
        is_field_vchar (last s))"

definition emplace_header :: "string \<Rightarrow> string \<Rightarrow> multimap \<Rightarrow> multimap" where
  "emplace_header key val headers =
     (if is_field_name key \<and> is_field_value val then headers @ [(key, val)] else headers)"

section \<open>Requests and responses\<close>

record FormFile =
  ff_name :: string
  ff_filename :: string
  ff_content :: string

record Request =
  rq_method :: string
  rq_path :: string
  rq_target :: string
  rq_version :: string
  rq_headers :: multimap
  rq_params :: multimap
  rq_body :: string
  rq_remote_addr :: string
  rq_remote_port :: int
  rq_form_fields :: multimap
  rq_form_files :: "FormFile list"

record Response =
  rs_status :: int
  rs_headers :: multimap
  rs_body :: string

definition empty_response :: Response where
  "empty_response = \<lparr>rs_status = -1, rs_headers = [], rs_body = []\<rparr>"

definition set_header :: "string \<Rightarrow> string \<Rightarrow> Response \<Rightarrow> Response" where
  "set_header key val res = res\<lparr>rs_headers := emplace_header key val (rs_headers res)\<rparr>"

definition set_content :: "string \<Rightarrow> string \<Rightarrow> Response \<Rightarrow> Response" where
  "set_content body content_type res =
     set_header ''Content-Type'' content_type
       (res\<lparr>rs_body := body, rs_headers := erase_header ''Content-Type'' (rs_headers res)\<rparr>)"

definition SetJson :: "int \<Rightarrow> string \<Rightarrow> Response \<Rightarrow> Response" where
  "SetJson status body res = set_content body ''application/json'' (res\<lparr>rs_status := status\<rparr>)"

definition set_headers :: "(string \<times> string) list \<Rightarrow> Response \<Rightarrow> Response" where
  "set_headers hs res = fold (\<lambda>h. set_header (fst h) (snd h)) hs res"

section \<open>Query components\<close>

definition upper_hex :: "nat \<Rightarrow> char" where
  "upper_hex n = (if n < 10 then char_of (48 + n) else char_of (55 + n))"

definition query_safe :: "char \<Rightarrow> bool" where
  "query_safe c = (is_digit c \<or> is_alpha c \<or> c \<in> set ''-._~!$()*,;:@/?'' \<or> c = CHR 0x27)"

definition encode_query_char :: "char \<Rightarrow> string" where
  "encode_query_char c =
     (if query_safe c then [c] else if c = CHR '' '' then ''+''
      else [CHR ''%'', upper_hex (byte c div 16), upper_hex (byte c mod 16)])"

definition encode_query_component :: "string \<Rightarrow> string" where
  "encode_query_component s = concat (map encode_query_char s)"

definition hex_value :: "char \<Rightarrow> nat option" where
  "hex_value c =
     (if is_digit c then Some (byte c - 48)
      else if 65 \<le> byte c \<and> byte c \<le> 70 then Some (byte c - 65 + 10)
      else if 97 \<le> byte c \<and> byte c \<le> 102 then Some (byte c - 97 + 10)
      else None)"

fun decode_query_component :: "string \<Rightarrow> string" where
  "decode_query_component (a # b # c # rest) =
     (if a = CHR ''%'' then
        (case (hex_value b, hex_value c) of
           (Some h, Some l) \<Rightarrow> char_of (h * 16 + l) # decode_query_component rest
         | _ \<Rightarrow> a # decode_query_component (b # c # rest))
      else if a = CHR ''+'' then CHR '' '' # decode_query_component (b # c # rest)
      else a # decode_query_component (b # c # rest))"
| "decode_query_component s = map (\<lambda>c. if c = CHR ''+'' then CHR '' '' else c) s"

lemma hl_equal_refl [simp]: "hl_equal a a"
  by (simp add: hl_equal_def)

lemma hl_equal_sym: "hl_equal a b = hl_equal b a"
  by (auto simp: hl_equal_def)

lemma hl_equal_trans: "hl_equal a b \<Longrightarrow> hl_equal b c \<Longrightarrow> hl_equal a c"
  by (simp add: hl_equal_def)

lemma hex_value_upper_hex: "n < 16 \<Longrightarrow> hex_value (upper_hex n) = Some n"
  by (auto simp: hex_value_def upper_hex_def is_digit_def)

lemma decode_plain:
  "c \<noteq> CHR ''%'' \<Longrightarrow>
   decode_query_component (c # s) = (if c = CHR ''+'' then CHR '' '' else c) # decode_query_component s"
  by (cases s rule: decode_query_component.cases) (auto split: list.splits)

lemma decode_percent:
  assumes "h < 16" "l < 16"
  shows "decode_query_component (CHR ''%'' # upper_hex h # upper_hex l # s) =
     char_of (h * 16 + l) # decode_query_component s"
  using assms by (simp add: hex_value_upper_hex)

lemma decode_encoded_char:
  "decode_query_component (encode_query_char c @ s) = c # decode_query_component s"
proof -
  consider "query_safe c" | "\<not> query_safe c" "c = CHR '' ''" | "\<not> query_safe c" "c \<noteq> CHR '' ''" by blast
  then show ?thesis
  proof cases
    case 1
    then have "c \<noteq> CHR ''%''" "c \<noteq> CHR ''+''" by (auto simp: query_safe_def char_class_defs)
    with 1 show ?thesis by (simp add: encode_query_char_def decode_plain)
  next
    case 2
    then show ?thesis by (simp add: encode_query_char_def decode_plain)
  next
    case 3
    have "byte c div 16 < 16" using byte_less_256 [of c] by (simp add: less_mult_imp_div_less)
    moreover have "byte c mod 16 < 16" by simp
    moreover have "byte c div 16 * 16 + byte c mod 16 = byte c" by simp
    ultimately show ?thesis using 3 by (simp add: encode_query_char_def hex_value_upper_hex)
  qed
qed

lemma decode_encode_query_component: "decode_query_component (encode_query_component s) = s"
  by (induction s) (simp_all add: encode_query_component_def decode_encoded_char)

end
