(* ===== verification/Routing.thy ===== *)
theory Routing
  imports Http Registry
begin

text \<open>
  Which route or stream answers a request (\<open>src/src/quackapi_server.cpp\<close>): path patterns and
  their captures, the scan of the live registry, automatic \<open>HEAD\<close>, the byte limit of a request
  body, and the answers given when nothing matches: preflight, \<open>405\<close> with its \<open>Allow\<close> list,
  \<open>426\<close>, the redirect to the other trailing-slash form, and \<open>404\<close>.
\<close>

section \<open>Path patterns\<close>

fun split_path :: "string \<Rightarrow> string \<Rightarrow> string list" where
  "split_path current [] = (if current = [] then [] else [current])"
| "split_path current (c # path) =
     (if c = CHR ''/'' then (if current = [] then split_path [] path else current # split_path [] path)
      else split_path (current @ [c]) path)"

definition SplitPath :: "string \<Rightarrow> string list" where
  "SplitPath path = split_path [] path"

definition HasTrailingSlash :: "string \<Rightarrow> bool" where
  "HasTrailingSlash path = (length path > 1 \<and> last path = CHR ''/'')"

definition StripTrailingSlash :: "string \<Rightarrow> string" where
  "StripTrailingSlash path = (if HasTrailingSlash path then butlast path else path)"

text \<open>The name a pattern segment captures, if it is \<open>:name\<close> or \<open>{name}\<close>.\<close>

definition capture_name :: "string \<Rightarrow> string option" where
  "capture_name ps =
     (if ps \<noteq> [] \<and> hd ps = CHR '':'' then Some (tl ps)
      else if length ps \<ge> 2 \<and> hd ps = CHR 0x7B \<and> last ps = CHR 0x7D then Some (butlast (tl ps))
      else None)"

fun match_segments :: "string list \<Rightarrow> string list \<Rightarrow> (string \<times> string) list option" where
  "match_segments (ps # pss) (seg # segs) =
     (case capture_name ps of
        Some n \<Rightarrow> map_option (Cons (n, seg)) (match_segments pss segs)
      | None \<Rightarrow> if ps \<noteq> seg then None else match_segments pss segs)"
| "match_segments _ _ = Some []"

text \<open>
  \<open>Some captures\<close> is \<open>true\<close>. The captures of a failed match are dropped: no caller reads them.
\<close>

definition MatchPattern :: "string \<Rightarrow> string \<Rightarrow> (string \<times> string) list option" where
  "MatchPattern pattern path =
     (if HasTrailingSlash pattern \<noteq> HasTrailingSlash path then None
      else let pattern_segments = SplitPath pattern; path_segments = SplitPath path
           in if length pattern_segments \<noteq> length path_segments then None
              else match_segments pattern_segments path_segments)"

definition IsPathParam :: "string \<Rightarrow> string \<Rightarrow> bool" where
  "IsPathParam pattern param_name =
     any (\<lambda>ps. (ps \<noteq> [] \<and> hd ps = CHR '':'' \<and> tl ps = param_name) \<or>
       (length ps \<ge> 2 \<and> hd ps = CHR 0x7B \<and> last ps = CHR 0x7D \<and> butlast (tl ps) = param_name))
       (SplitPath pattern)"

section \<open>Query strings\<close>

definition BuildQueryString :: "multimap \<Rightarrow> string" where
  "BuildQueryString params =
     join_with ''&'' (map (\<lambda>kv. encode_query_component (fst kv) @ ''='' @ encode_query_component (snd kv)) params)"

definition query_pair :: "string \<Rightarrow> string \<times> string" where
  "query_pair pair =
     (if CHR ''='' \<notin> set pair then (decode_query_component pair, [])
      else (decode_query_component (takeWhile (\<lambda>c. c \<noteq> CHR ''='') pair),
            decode_query_component (tl (dropWhile (\<lambda>c. c \<noteq> CHR ''='') pair))))"

function ParseQueryStringIntoParams :: "string \<Rightarrow> multimap" where
  "ParseQueryStringIntoParams query =
     (if query = [] then []
      else let pair = takeWhile (\<lambda>c. c \<noteq> CHR ''&'') query;
               rest = ParseQueryStringIntoParams (tl (dropWhile (\<lambda>c. c \<noteq> CHR ''&'') query))
           in if pair = [] then rest else query_pair pair # rest)"
  by pat_completeness auto
termination
proof (relation "measure length")
  fix query :: string
  assume "query \<noteq> []"
  then have "length (tl (dropWhile (\<lambda>c. c \<noteq> CHR ''&'') query)) \<le> length (tl query)"
    using length_dropWhile_le [of "\<lambda>c. c \<noteq> CHR ''&''" "tl query"] by (cases query) auto
  with \<open>query \<noteq> []\<close> show "(tl (dropWhile (\<lambda>c. c \<noteq> CHR ''&'') query), query) \<in> measure length"
    by (cases query) auto
qed simp

declare ParseQueryStringIntoParams.simps [simp del]

section \<open>The scan of the registry\<close>

definition MethodListContains :: "string list \<Rightarrow> string \<Rightarrow> bool" where
  "MethodListContains list m = any (\<lambda>s. s = m) list"

definition add_method :: "string \<Rightarrow> string list \<Rightarrow> string list" where
  "add_method m list = (if MethodListContains list m then list else list @ [m])"

record 'v match_state =
  ms_match :: "('v QuackapiRoute \<times> (string \<times> string) list) option"
  ms_stream :: "(QuackapiStream \<times> (string \<times> string) list) option"
  ms_other_method :: bool
  ms_methods :: "string list"
  ms_websocket :: bool

definition no_match :: "'v match_state" where
  "no_match = \<lparr>ms_match = None, ms_stream = None, ms_other_method = False, ms_methods = [], ms_websocket = False\<rparr>"

definition scan_route :: "Request \<Rightarrow> 'v QuackapiRoute \<Rightarrow> 'v match_state \<Rightarrow> 'v match_state" where
  "scan_route req route ms =
     (case MatchPattern (rt_pattern route) (rq_path req) of
        None \<Rightarrow> ms
      | Some captures \<Rightarrow>
          let ms1 = ms\<lparr>ms_methods := add_method (rt_method route) (ms_methods ms)\<rparr>
          in if rt_method route = rq_method req then ms1\<lparr>ms_match := Some (route, captures)\<rparr>
             else if ms_match ms = None then ms1\<lparr>ms_other_method := True\<rparr>
             else ms1)"

definition scan_stream :: "Request \<Rightarrow> QuackapiStream \<Rightarrow> 'v match_state \<Rightarrow> 'v match_state" where
  "scan_stream req stream ms =
     (if st_transport stream = WS then
        ms\<lparr>ms_websocket := ms_websocket ms \<or> MatchPattern (st_pattern stream) (rq_path req) \<noteq> None\<rparr>
      else case MatchPattern (st_pattern stream) (rq_path req) of
        None \<Rightarrow> ms
      | Some captures \<Rightarrow>
          let ms1 = ms\<lparr>ms_methods := add_method (st_method stream) (ms_methods ms)\<rparr>
          in if st_method stream = rq_method req then
               (if ms_match ms = None \<and> ms_stream ms = None then ms1\<lparr>ms_stream := Some (stream, captures)\<rparr> else ms1)
             else if ms_match ms = None \<and> ms_stream ms = None then ms1\<lparr>ms_other_method := True\<rparr>
             else ms1)"

definition head_route :: "Request \<Rightarrow> 'v QuackapiRoute \<Rightarrow> 'v match_state \<Rightarrow> 'v match_state" where
  "head_route req route ms =
     (case MatchPattern (rt_pattern route) (rq_path req) of
        None \<Rightarrow> ms
      | Some captures \<Rightarrow>
          if rt_method route = ''GET'' then
            ms\<lparr>ms_match := Some (route, captures), ms_methods := add_method ''HEAD'' (ms_methods ms)\<rparr>
          else ms)"

fun head_stream :: "Request \<Rightarrow> QuackapiStream list \<Rightarrow> 'v match_state \<Rightarrow> 'v match_state" where
  "head_stream req [] ms = ms"
| "head_stream req (stream # live_streams) ms =
     (case MatchPattern (st_pattern stream) (rq_path req) of
        None \<Rightarrow> head_stream req live_streams ms
      | Some captures \<Rightarrow>
          if st_method stream = ''GET'' then
            ms\<lparr>ms_stream := Some (stream, captures), ms_methods := add_method ''HEAD'' (ms_methods ms)\<rparr>
          else head_stream req live_streams ms)"

definition match_request :: "Request \<Rightarrow> 'v QuackapiRoute list \<Rightarrow> QuackapiStream list \<Rightarrow> 'v match_state" where
  "match_request req live_routes live_streams =
     (let ms = fold (scan_stream req) live_streams (fold (scan_route req) live_routes no_match)
      in if ms_match ms = None \<and> ms_stream ms = None \<and> rq_method req = ''HEAD'' then
           let ms1 = fold (head_route req) live_routes ms
           in if ms_match ms1 = None then head_stream req live_streams ms1 else ms1
         else ms)"

section \<open>Limits of a request body\<close>

definition QUACKAPI_PAYLOAD_MAX_LENGTH :: int where
  "QUACKAPI_PAYLOAD_MAX_LENGTH = 8 * 1024 * 1024"

definition hard_body_limit :: "int \<Rightarrow> int" where
  "hard_body_limit max_request_bytes = max 1 max_request_bytes"

definition default_body_limit :: "int \<Rightarrow> int" where
  "default_body_limit max_request_bytes = min QUACKAPI_PAYLOAD_MAX_LENGTH (hard_body_limit max_request_bytes)"

definition route_limit :: "int \<Rightarrow> 'v QuackapiRoute \<Rightarrow> int" where
  "route_limit max_request_bytes route =
     (if rt_max_request_bytes route > 0 then rt_max_request_bytes route else default_body_limit max_request_bytes)"

definition effective_body_limit :: "int \<Rightarrow> 'v match_state \<Rightarrow> int" where
  "effective_body_limit max_request_bytes ms =
     min (case ms_match ms of Some (route, _) \<Rightarrow> route_limit max_request_bytes route
          | None \<Rightarrow> default_body_limit max_request_bytes)
       (hard_body_limit max_request_bytes)"

definition matches_as :: "string \<Rightarrow> Request \<Rightarrow> 'v QuackapiRoute \<Rightarrow> bool" where
  "matches_as m req route = (rt_method route = m \<and> MatchPattern (rt_pattern route) (rq_path req) \<noteq> None)"

text \<open>
  The limit httplib applies before it reads the body. \<open>None\<close> stands for a database that is gone.
\<close>

definition SetRequestPayloadLimit :: "int \<Rightarrow> 'v QuackapiRoute list option \<Rightarrow> Request \<Rightarrow> int" where
  "SetRequestPayloadLimit max_request_bytes db_routes req =
     (let hard_limit = hard_body_limit max_request_bytes;
          initial = default_body_limit max_request_bytes;
          limits = (\<lambda>m live_routes limit. fold (\<lambda>route limit.
             if matches_as m req route then route_limit max_request_bytes route else limit) live_routes limit);
          limit = (case db_routes of
              None \<Rightarrow> initial
            | Some live_routes \<Rightarrow>
                let limit1 = limits (rq_method req) live_routes initial
                in if rq_method req = ''HEAD'' \<and> \<not> any (matches_as ''HEAD'' req) live_routes
                   then limits ''GET'' live_routes limit1 else limit1)
      in min limit hard_limit)"

section \<open>Answers when nothing matches\<close>

definition detail_body :: "string \<Rightarrow> string" where
  "detail_body s = [CHR 0x7B, CHR 0x22] @ ''detail'' @ [CHR 0x22, CHR '':'', CHR 0x22] @ s @ [CHR 0x22, CHR 0x7D]"

definition not_found :: "Response \<Rightarrow> Response" where
  "not_found res = SetJson 404 (detail_body ''Not Found'') res"

definition method_not_allowed :: "string \<Rightarrow> Response \<Rightarrow> Response" where
  "method_not_allowed allow res =
     SetJson 405 (detail_body ''Method Not Allowed'') (set_header ''Allow'' allow res)"

definition preflight :: "string \<Rightarrow> Response \<Rightarrow> Response" where
  "preflight allow res = (set_header ''Allow'' allow (res\<lparr>rs_status := 204\<rparr>))\<lparr>rs_body := []\<rparr>"

definition allow_head :: "string list \<Rightarrow> string list" where
  "allow_head methods =
     (if MethodListContains methods ''GET'' \<and> \<not> MethodListContains methods ''HEAD'' then methods @ [''HEAD''] else methods)"

definition options_response :: "string_util \<Rightarrow> string \<Rightarrow> 'v match_state \<Rightarrow> Response \<Rightarrow> Response" where
  "options_response U cors_origins ms res =
     (if ms_methods ms \<noteq> [] \<or> ms_other_method ms then
        let methods = allow_head (ms_methods ms)
        in if cors_origins = [] then method_not_allowed (su_join U methods '', '') res
           else preflight (su_join U (add_method ''OPTIONS'' methods) '', '') res
      else not_found res)"

definition alternate_path :: "string \<Rightarrow> string" where
  "alternate_path path = (if HasTrailingSlash path then StripTrailingSlash path else path @ ''/'')"

definition alternate_matches :: "string \<Rightarrow> 'v QuackapiRoute list \<Rightarrow> QuackapiStream list \<Rightarrow> bool" where
  "alternate_matches alt_path live_routes live_streams =
     (any (\<lambda>r. MatchPattern (rt_pattern r) alt_path \<noteq> None) live_routes \<or>
      any (\<lambda>s. MatchPattern (st_pattern s) alt_path \<noteq> None) live_streams)"

definition redirect_location :: "Request \<Rightarrow> string" where
  "redirect_location req =
     (let qs = BuildQueryString (rq_params req); alt_path = alternate_path (rq_path req)
      in if qs \<noteq> [] then alt_path @ ''?'' @ qs else alt_path)"

definition redirects :: "Request \<Rightarrow> 'v QuackapiRoute list \<Rightarrow> QuackapiStream list \<Rightarrow> 'v match_state \<Rightarrow> bool" where
  "redirects req live_routes live_streams ms =
     (\<not> ms_other_method ms \<and> ms_methods ms = [] \<and> rq_path req \<noteq> ''/'' \<and>
      alternate_matches (alternate_path (rq_path req)) live_routes live_streams)"

definition unmatched_response :: "string_util \<Rightarrow> string \<Rightarrow> Request \<Rightarrow> 'v QuackapiRoute list \<Rightarrow> QuackapiStream list
    \<Rightarrow> 'v match_state \<Rightarrow> Response \<Rightarrow> Response" where
  "unmatched_response U cors_origins req live_routes live_streams ms res =
     (if redirects req live_routes live_streams ms then
        (set_header ''Location'' (redirect_location req) (res\<lparr>rs_status := 307\<rparr>))\<lparr>rs_body := []\<rparr>
      else if ms_other_method ms \<or> ms_methods ms \<noteq> [] then
        let methods = allow_head (ms_methods ms);
            methods1 = (if cors_origins \<noteq> [] then add_method ''OPTIONS'' methods else methods)
        in method_not_allowed (su_join U methods1 '', '') res
      else not_found res)"

definition upgrade_required :: "Response \<Rightarrow> Response" where
  "upgrade_required res =
     SetJson 426 (detail_body ''Upgrade Required: this path is a WebSocket stream'')
       (set_header ''Upgrade'' ''websocket'' res)"

text \<open>
  The part of \<open>HandleRequest\<close> from the scan to the point where a route or a stream takes over:
  \<open>Inl\<close> is an answer, \<open>Inr\<close> the match that goes on.
\<close>

definition route_request :: "string_util \<Rightarrow> string \<Rightarrow> int \<Rightarrow> Request \<Rightarrow> 'v QuackapiRoute list \<Rightarrow> QuackapiStream list
    \<Rightarrow> Response \<Rightarrow> Response + 'v match_state" where
  "route_request U cors_origins max_request_bytes req live_routes live_streams res =
     (let ms = match_request req live_routes live_streams
      in if int (length (rq_body req)) > effective_body_limit max_request_bytes ms then
           Inl (SetJson 413 (detail_body ''Request body too large'') res)
         else if rq_method req = ''OPTIONS'' then Inl (options_response U cors_origins ms res)
         else if ms_match ms = None \<and> ms_stream ms = None \<and> ms_websocket ms then Inl (upgrade_required res)
         else if ms_match ms = None \<and> ms_stream ms = None then
           Inl (unmatched_response U cors_origins req live_routes live_streams ms res)
         else Inr ms)"

section \<open>Properties of matching\<close>

text \<open>
  The specification of a match: the segments of the path are those of the pattern with each
  capturing segment replaced by the captured text.
\<close>

inductive instantiates :: "string list \<Rightarrow> (string \<times> string) list \<Rightarrow> string list \<Rightarrow> bool" where
  inst_nil: "instantiates [] [] []"
| inst_capture: "capture_name ps = Some n \<Longrightarrow> instantiates pss caps segs \<Longrightarrow>
    instantiates (ps # pss) ((n, seg) # caps) (seg # segs)"
| inst_literal: "capture_name ps = None \<Longrightarrow> instantiates pss caps segs \<Longrightarrow>
    instantiates (ps # pss) caps (ps # segs)"

inductive_cases instantiates_NilE: "instantiates [] caps segs"
inductive_cases instantiates_ConsE: "instantiates (ps # pss) caps segs"

lemma instantiates_length: "instantiates pss caps segs \<Longrightarrow> length pss = length segs"
  by (induction rule: instantiates.induct) auto

lemma match_segments_sound:
  "length pss = length segs \<Longrightarrow> match_segments pss segs = Some caps \<Longrightarrow> instantiates pss caps segs"
proof (induction pss segs arbitrary: caps rule: match_segments.induct)
  case (1 ps pss seg segs)
  then show ?case
    by (auto intro: instantiates.intros split: option.splits if_splits)
qed (auto intro: instantiates.intros)

lemma match_segments_complete: "instantiates pss caps segs \<Longrightarrow> match_segments pss segs = Some caps"
  by (induction rule: instantiates.induct) auto

lemma match_segments_iff:
  "length pss = length segs \<and> match_segments pss segs = Some caps \<longleftrightarrow> instantiates pss caps segs"
  using match_segments_sound match_segments_complete instantiates_length by blast

text \<open>
  C25. A path pattern matches a path exactly when both have or both lack a trailing slash and the
  path's segments instantiate the pattern's segments; the captures are then the texts that stand
  for the capturing segments, in order.
\<close>

theorem match_pattern_iff:
  "MatchPattern pattern path = Some captures \<longleftrightarrow>
     HasTrailingSlash pattern = HasTrailingSlash path \<and>
     instantiates (SplitPath pattern) captures (SplitPath path)"
  using match_segments_iff [of "SplitPath pattern" "SplitPath path" captures]
  by (auto simp: MatchPattern_def Let_def)

lemma split_path_segments: "seg \<in> set (split_path cur path) \<Longrightarrow> CHR ''/'' \<notin> set cur \<Longrightarrow> seg \<noteq> [] \<and> CHR ''/'' \<notin> set seg"
  by (induction cur path rule: split_path.induct) (auto split: if_splits)

lemma instantiates_captures: "instantiates pss caps segs \<Longrightarrow> snd ` set caps \<subseteq> set segs"
  by (induction rule: instantiates.induct) auto

section \<open>Properties of query strings\<close>

lemma join_with_Cons: "xs \<noteq> [] \<Longrightarrow> join_with sep (x # xs) = x @ sep @ join_with sep xs"
  by (cases xs) auto

definition query_text :: "string \<times> string \<Rightarrow> string" where
  "query_text kv = encode_query_component (fst kv) @ ''='' @ encode_query_component (snd kv)"

lemma byte_neqI: "byte a \<noteq> byte b \<Longrightarrow> a \<noteq> b"
  by blast

lemma upper_hex_not_delim: "n < 16 \<Longrightarrow> upper_hex n \<noteq> CHR ''&'' \<and> upper_hex n \<noteq> CHR ''=''"
  by (auto simp: upper_hex_def intro!: byte_neqI)

lemma encode_query_char_no_delim: "CHR ''&'' \<notin> set (encode_query_char c)" "CHR ''='' \<notin> set (encode_query_char c)"
proof -
  have h: "byte c div 16 < 16" "byte c mod 16 < 16" using byte_less_256 [of c] by (simp_all add: less_mult_imp_div_less)
  have d: "\<not> query_safe (CHR ''&'')" "\<not> query_safe (CHR ''='')" by (simp_all add: query_safe_def char_class_defs)
  show "CHR ''&'' \<notin> set (encode_query_char c)" "CHR ''='' \<notin> set (encode_query_char c)"
    using d upper_hex_not_delim [OF h(1)] upper_hex_not_delim [OF h(2)]
    by (auto simp: encode_query_char_def split: if_splits)
qed

lemma encode_query_no_delim:
  "CHR ''&'' \<notin> set (encode_query_component s)" "CHR ''='' \<notin> set (encode_query_component s)"
  using encode_query_char_no_delim by (auto simp: encode_query_component_def)

lemma query_text_no_amp: "CHR ''&'' \<notin> set (query_text kv)"
  by (simp add: query_text_def encode_query_no_delim)

lemma takeWhile_no: "x \<notin> set xs \<Longrightarrow> takeWhile (\<lambda>c. c \<noteq> x) (xs @ x # ys) = xs \<and> dropWhile (\<lambda>c. c \<noteq> x) (xs @ x # ys) = x # ys"
  by (induction xs) auto

lemma takeWhile_all: "x \<notin> set xs \<Longrightarrow> takeWhile (\<lambda>c. c \<noteq> x) xs = xs \<and> dropWhile (\<lambda>c. c \<noteq> x) xs = []"
  by (induction xs) auto

lemma query_pair_text: "query_pair (query_text kv) = kv"
proof -
  have "query_pair (query_text kv) = (decode_query_component (encode_query_component (fst kv)),
      decode_query_component (encode_query_component (snd kv)))"
    using takeWhile_no [OF encode_query_no_delim(2)] by (simp add: query_pair_def query_text_def)
  then show ?thesis by (simp add: decode_encode_query_component)
qed

lemma parse_built_query: "ParseQueryStringIntoParams (join_with ''&'' (map query_text ps)) = ps"
proof (induction ps)
  case Nil
  show ?case by (simp add: ParseQueryStringIntoParams.simps [of "[]"])
next
  case (Cons p ps)
  have ne: "query_text p \<noteq> []" by (simp add: query_text_def)
  show ?case
  proof (cases "ps = []")
    case True
    have w: "takeWhile (\<lambda>c. c \<noteq> CHR ''&'') (query_text p) = query_text p"
      "dropWhile (\<lambda>c. c \<noteq> CHR ''&'') (query_text p) = []"
      using takeWhile_all [OF query_text_no_amp [of p]] by simp_all
    have "ParseQueryStringIntoParams (query_text p) = [p]"
      using ne by (simp only: ParseQueryStringIntoParams.simps [of "query_text p"] w)
        (simp add: ParseQueryStringIntoParams.simps [of "[]"] query_pair_text)
    with True show ?thesis by simp
  next
    case False
    let ?rest = "join_with ''&'' (map query_text ps)"
    have "join_with ''&'' (map query_text (p # ps)) = query_text p @ CHR ''&'' # ?rest"
      using False by (simp add: join_with_Cons)
    then show ?thesis
      using ne Cons.IH takeWhile_no [OF query_text_no_amp [of p], of ?rest]
      by (simp add: ParseQueryStringIntoParams.simps [of "query_text p @ CHR ''&'' # ?rest"] query_pair_text Let_def)
  qed
qed

text \<open>
  The query string the server rebuilds for a redirect, read back as a query string, gives the
  parameters of the original request: same names, same values, same order, duplicates included.
\<close>

theorem query_string_roundtrip: "ParseQueryStringIntoParams (BuildQueryString params) = params"
  using parse_built_query [of params] by (simp add: BuildQueryString_def query_text_def [abs_def])

section \<open>Properties of the scan\<close>

definition path_matches :: "Request \<Rightarrow> string \<Rightarrow> bool" where
  "path_matches req pattern = (MatchPattern pattern (rq_path req) \<noteq> None)"

definition captured :: "Request \<Rightarrow> 'v QuackapiRoute \<Rightarrow> 'v QuackapiRoute \<times> (string \<times> string) list" where
  "captured req r = (r, the (MatchPattern (rt_pattern r) (rq_path req)))"

lemma matches_as_iff: "matches_as m req r \<longleftrightarrow> rt_method r = m \<and> path_matches req (rt_pattern r)"
  by (simp add: matches_as_def path_matches_def)

lemma set_add_method [simp]: "set (add_method m ms) = insert m (set ms)"
  by (auto simp: add_method_def MethodListContains_def any_iff)

lemma add_method_nonempty [simp]: "add_method m ms \<noteq> []"
  by (auto simp: add_method_def MethodListContains_def)

lemma scan_route_match:
  "ms_match (scan_route req r ms) = (if matches_as (rq_method req) req r then Some (captured req r) else ms_match ms)"
  by (auto simp: scan_route_def matches_as_def captured_def Let_def split: option.splits)

lemma scan_route_rest [simp]:
  "ms_stream (scan_route req r ms) = ms_stream ms" "ms_websocket (scan_route req r ms) = ms_websocket ms"
  by (auto simp: scan_route_def Let_def split: option.splits)

lemma scan_route_methods:
  "set (ms_methods (scan_route req r ms)) =
     (if path_matches req (rt_pattern r) then insert (rt_method r) (set (ms_methods ms)) else set (ms_methods ms))"
  by (auto simp: scan_route_def path_matches_def Let_def split: option.splits)

lemma scan_routes_match:
  "ms_match (fold (scan_route req) rs ms) =
     (case List.find (matches_as (rq_method req) req) (rev rs) of
        Some r \<Rightarrow> Some (captured req r) | None \<Rightarrow> ms_match ms)"
  by (induction rs rule: rev_induct) (auto simp: scan_route_match)

lemma scan_routes_rest [simp]:
  "ms_stream (fold (scan_route req) rs ms) = ms_stream ms"
  "ms_websocket (fold (scan_route req) rs ms) = ms_websocket ms"
  by (induction rs arbitrary: ms) auto

lemma scan_routes_methods:
  "set (ms_methods (fold (scan_route req) rs ms)) =
     set (ms_methods ms) \<union> {rt_method r |r. r \<in> set rs \<and> path_matches req (rt_pattern r)}"
  by (induction rs arbitrary: ms) (auto simp: scan_route_methods)

lemma scan_stream_match [simp]: "ms_match (scan_stream req s ms) = ms_match ms"
  by (auto simp: scan_stream_def Let_def split: option.splits)

lemma scan_streams_match [simp]: "ms_match (fold (scan_stream req) ss ms) = ms_match ms"
  by (induction ss arbitrary: ms) auto

lemma scan_stream_methods:
  "set (ms_methods (scan_stream req s ms)) =
     (if st_transport s \<noteq> WS \<and> path_matches req (st_pattern s) then insert (st_method s) (set (ms_methods ms))
      else set (ms_methods ms))"
  by (auto simp: scan_stream_def path_matches_def Let_def split: option.splits)

lemma scan_streams_methods:
  "set (ms_methods (fold (scan_stream req) ss ms)) =
     set (ms_methods ms) \<union> {st_method s |s. s \<in> set ss \<and> st_transport s \<noteq> WS \<and> path_matches req (st_pattern s)}"
  by (induction ss arbitrary: ms) (auto simp: scan_stream_methods)

lemma scan_stream_websocket:
  "ms_websocket (scan_stream req s ms) = (ms_websocket ms \<or> st_transport s = WS \<and> path_matches req (st_pattern s))"
  by (auto simp: scan_stream_def path_matches_def Let_def split: option.splits)

lemma scan_streams_websocket:
  "ms_websocket (fold (scan_stream req) ss ms) =
     (ms_websocket ms \<or> any (\<lambda>s. st_transport s = WS \<and> path_matches req (st_pattern s)) ss)"
  by (induction ss arbitrary: ms) (auto simp: scan_stream_websocket)

definition stream_serves :: "Request \<Rightarrow> QuackapiStream \<Rightarrow> bool" where
  "stream_serves req s = (st_transport s \<noteq> WS \<and> st_method s = rq_method req \<and> path_matches req (st_pattern s))"

lemma scan_stream_stream:
  "ms_stream (scan_stream req s ms) =
     (if stream_serves req s \<and> ms_match ms = None \<and> ms_stream ms = None
      then Some (s, the (MatchPattern (st_pattern s) (rq_path req))) else ms_stream ms)"
  by (auto simp: scan_stream_def stream_serves_def path_matches_def Let_def split: option.splits)

lemma scan_streams_none:
  "ms_stream ms = None \<Longrightarrow>
   (ms_stream (fold (scan_stream req) ss ms) = None) = (ms_match ms \<noteq> None \<or> \<not> any (stream_serves req) ss)"
proof (induction ss arbitrary: ms)
  case (Cons s ss)
  have keep: "ms_stream m = Some x \<Longrightarrow> ms_stream (fold (scan_stream req) ss m) = Some x" for m x
    by (induction ss arbitrary: m) (auto simp: scan_stream_stream)
  show ?case
    using Cons by (cases "stream_serves req s \<and> ms_match ms = None") (auto simp: scan_stream_stream keep)
qed simp

lemma head_route_match:
  "ms_match (head_route req r ms) = (if matches_as ''GET'' req r then Some (captured req r) else ms_match ms)"
  by (auto simp: head_route_def matches_as_def captured_def split: option.splits)

lemma head_routes_match:
  "ms_match (fold (head_route req) rs ms) =
     (case List.find (matches_as ''GET'' req) (rev rs) of Some r \<Rightarrow> Some (captured req r) | None \<Rightarrow> ms_match ms)"
  by (induction rs rule: rev_induct) (auto simp: head_route_match)

lemma head_stream_match [simp]: "ms_match (head_stream req ss ms) = ms_match ms"
  by (induction ss) (auto split: option.splits)

lemma head_routes_methods: "set (ms_methods ms) \<subseteq> set (ms_methods (fold (head_route req) rs ms))"
proof (induction rs arbitrary: ms)
  case (Cons r rs)
  have "set (ms_methods ms) \<subseteq> set (ms_methods (head_route req r ms))"
    by (auto simp: head_route_def split: option.splits)
  with Cons show ?case by fastforce
qed simp

lemma head_route_rest [simp]:
  "ms_websocket (head_route req r ms) = ms_websocket ms" "ms_stream (head_route req r ms) = ms_stream ms"
  by (auto simp: head_route_def split: option.splits)

lemma head_routes_rest [simp]:
  "ms_websocket (fold (head_route req) rs ms) = ms_websocket ms"
  "ms_stream (fold (head_route req) rs ms) = ms_stream ms"
  by (induction rs arbitrary: ms) auto

lemma head_stream_methods: "set (ms_methods ms) \<subseteq> set (ms_methods (head_stream req ss ms))"
  by (induction ss) (auto split: option.splits)

lemma head_stream_websocket [simp]: "ms_websocket (head_stream req ss ms) = ms_websocket ms"
  by (induction ss) (auto split: option.splits)

lemma match_request_methods:
  "{rt_method r |r. r \<in> set rs \<and> path_matches req (rt_pattern r)} \<union>
   {st_method s |s. s \<in> set ss \<and> st_transport s \<noteq> WS \<and> path_matches req (st_pattern s)}
     \<subseteq> set (ms_methods (match_request req rs ss))"
proof -
  let ?ms = "fold (scan_stream req) ss (fold (scan_route req) rs no_match)"
  have "{rt_method r |r. r \<in> set rs \<and> path_matches req (rt_pattern r)} \<union>
      {st_method s |s. s \<in> set ss \<and> st_transport s \<noteq> WS \<and> path_matches req (st_pattern s)} \<subseteq> set (ms_methods ?ms)"
    by (auto simp: scan_streams_methods scan_routes_methods)
  moreover have "set (ms_methods ?ms) \<subseteq> set (ms_methods (match_request req rs ss))"
    using head_routes_methods [of ?ms req rs] head_stream_methods [of "fold (head_route req) rs ?ms" req ss]
    by (auto simp: match_request_def Let_def)
  ultimately show ?thesis by blast
qed

lemma match_request_websocket:
  "ms_websocket (match_request req rs ss) = any (\<lambda>s. st_transport s = WS \<and> path_matches req (st_pattern s)) ss"
  by (simp add: match_request_def Let_def scan_streams_websocket no_match_def)


section \<open>Properties of limits and redirects\<close>

lemma fold_last_wins:
  "fold (\<lambda>r limit. if p r then f r else limit) rs limit =
     (case List.find p (rev rs) of Some r \<Rightarrow> f r | None \<Rightarrow> limit)"
  by (induction rs rule: rev_induct) auto

lemma find_rev_any: "List.find p (rev rs) = None \<longleftrightarrow> \<not> any p rs"
  by (auto simp: find_None_iff any_iff)

text \<open>
  The limit httplib enforces while it reads a body and the limit the handler checks for calls
  that arrive with the body already read are the same number, when the event streams serve
  \<open>GET\<close>.
\<close>

theorem payload_limit_agrees:
  assumes "\<forall>s \<in> set live_streams. st_method s = ''GET''"
  shows "SetRequestPayloadLimit max_request_bytes (Some live_routes) req =
    effective_body_limit max_request_bytes (match_request req live_routes live_streams)"
proof -
  have no: "rq_method req = ''HEAD'' \<Longrightarrow> \<not> any (stream_serves req) live_streams"
    using assms by (auto simp: any_iff stream_serves_def)
  have sel: "ms_match (match_request req live_routes live_streams) =
     (case List.find (matches_as (rq_method req) req) (rev live_routes) of
        Some r \<Rightarrow> Some (captured req r)
      | None \<Rightarrow> if rq_method req = ''HEAD'' then map_option (captured req) (List.find (matches_as ''GET'' req) (rev live_routes)) else None)"
    using no by (auto simp: match_request_def Let_def scan_routes_match head_routes_match scan_streams_none no_match_def
        split: option.splits)
  have fl: "fold (\<lambda>route limit. if matches_as m req route then route_limit max_request_bytes route else limit) live_routes limit
      = (case List.find (matches_as m req) (rev live_routes) of Some r \<Rightarrow> route_limit max_request_bytes r | None \<Rightarrow> limit)" for m limit
    by (rule fold_last_wins)
  have nf: "\<not> any (matches_as ''HEAD'' req) live_routes \<longleftrightarrow> List.find (matches_as ''HEAD'' req) (rev live_routes) = None"
    by (simp add: find_rev_any)
  show ?thesis
    unfolding SetRequestPayloadLimit_def effective_body_limit_def sel Let_def option.case fl nf
    by (auto simp: captured_def split: option.splits)
qed

definition example_request :: "string \<Rightarrow> string \<Rightarrow> Request" where
  "example_request m path = \<lparr>rq_method = m, rq_path = path, rq_target = path, rq_version = ''HTTP/1.1'',
     rq_headers = [], rq_params = [], rq_body = [], rq_remote_addr = ''127.0.0.1'', rq_remote_port = 0,
     rq_form_fields = [], rq_form_files = []\<rparr>"

definition example_stream :: QuackapiStream where
  "example_stream = \<lparr>st_name = ''ticks'', st_method = ''GET'', st_pattern = ''/ticks'',
     st_handler_sql = ''SELECT 1'', st_interval_ms = 0, st_transport = SSE\<rparr>"

theorem payload_limit_agrees_witness:
  "SetRequestPayloadLimit 4096 (Some [example_route]) (example_request ''HEAD'' ''/items/7'') =
    effective_body_limit 4096 (match_request (example_request ''HEAD'' ''/items/7'') [example_route] [example_stream])"
  by (rule payload_limit_agrees) (simp add: example_stream_def)

lemma status_simps [simp]:
  "rs_status (set_header k v res) = rs_status res" "rs_status (SetJson n b res) = n"
  "rs_status (set_content b t res) = rs_status res"
  by (simp_all add: set_header_def SetJson_def set_content_def)

lemma answer_status:
  "rs_status (not_found res) = 404" "rs_status (method_not_allowed a res) = 405" "rs_status (preflight a res) = 204"
  "rs_status (upgrade_required res) = 426"
  by (simp_all add: not_found_def method_not_allowed_def preflight_def upgrade_required_def)

lemma unmatched_307:
  "rs_status (unmatched_response U cors req rs ss ms res) = 307 \<Longrightarrow> redirects req rs ss ms"
  by (auto simp: unmatched_response_def answer_status Let_def split: if_splits)

lemma route_request_307:
  assumes "route_request U cors n req rs ss res = Inl r" and "rs_status r = 307"
  shows "redirects req rs ss (match_request req rs ss) \<and> \<not> ms_websocket (match_request req rs ss)"
proof -
  have "rs_status (options_response U cors (match_request req rs ss) res) \<noteq> 307"
    by (auto simp: options_response_def answer_status Let_def)
  with assms show ?thesis
    by (auto simp: route_request_def Let_def answer_status dest: unmatched_307 split: if_splits)
qed

lemma alternate_answered:
  assumes "alternate_matches (rq_path req) rs ss"
  shows "ms_methods (match_request req rs ss) \<noteq> [] \<or> ms_websocket (match_request req rs ss)"
proof (rule disjCI)
  assume "\<not> ms_websocket (match_request req rs ss)"
  then have ws: "s \<in> set ss \<Longrightarrow> path_matches req (st_pattern s) \<Longrightarrow> st_transport s \<noteq> WS" for s
    by (auto simp: match_request_websocket any_iff)
  from assms consider r where "r \<in> set rs" "path_matches req (rt_pattern r)"
    | s where "s \<in> set ss" "path_matches req (st_pattern s)"
    unfolding alternate_matches_def any_iff path_matches_def by blast
  then show "ms_methods (match_request req rs ss) \<noteq> []"
  proof cases
    case 1
    then have "rt_method r \<in> set (ms_methods (match_request req rs ss))"
      by (intro subsetD [OF match_request_methods] UnI1) blast
    then show ?thesis by auto
  next
    case 2
    then have "st_method s \<in> set (ms_methods (match_request req rs ss))"
      using ws by (intro subsetD [OF match_request_methods] UnI2) blast
    then show ?thesis by auto
  qed
qed

text \<open>
  A slash redirect is final: when a request is answered with a redirect, the same server asked
  for the other form of the path answers without redirecting again, whatever the second request is.
\<close>

theorem slash_redirect_final:
  assumes "route_request U cors_origins n req live_routes live_streams res = Inl r" and "rs_status r = 307"
    and "rq_path req' = alternate_path (rq_path req)"
    and "route_request U cors_origins n req' live_routes live_streams res' = Inl r'"
  shows "rs_status r' \<noteq> 307"
proof
  assume "rs_status r' = 307"
  with assms(4) have "redirects req' live_routes live_streams (match_request req' live_routes live_streams)"
    "\<not> ms_websocket (match_request req' live_routes live_streams)"
    using route_request_307 by blast+
  moreover have "alternate_matches (rq_path req') live_routes live_streams"
    using route_request_307 [OF assms(1,2)] assms(3) by (simp add: redirects_def)
  ultimately show False using alternate_answered [of req' live_routes live_streams] by (auto simp: redirects_def)
qed

lemma example_redirect:
  "route_request ascii_util [] 4096 (example_request ''GET'' ''/items/7/'') [example_route] [] empty_response =
     Inl \<lparr>rs_status = 307, rs_headers = [(''Location'', ''/items/7'')], rs_body = []\<rparr>"
  by code_simp

lemma example_redirect_end:
  "route_request ascii_util [] 4096 (example_request ''POST'' ''/items/7'') [example_route] [] empty_response =
     Inl (method_not_allowed ''GET, HEAD'' empty_response)"
  by code_simp

theorem slash_redirect_final_witness: "rs_status (method_not_allowed ''GET, HEAD'' empty_response) \<noteq> 307"
  by (rule slash_redirect_final [OF example_redirect _ _ example_redirect_end])
    (simp_all add: example_request_def alternate_path_def HasTrailingSlash_def StripTrailingSlash_def)

text \<open>
  The redirect sends the path back as it came: with one route that captures a single segment, a
  request for \<open>//evil.com/\<close> is redirected to \<open>//evil.com\<close>, which a browser reads as another
  host.
\<close>

theorem slash_redirect_leaves_host:
  "route_request ascii_util [] 4096 (example_request ''GET'' ''//evil.com/'')
     [example_route\<lparr>rt_pattern := ''/:id''\<rparr>] [] empty_response =
     Inl \<lparr>rs_status = 307, rs_headers = [(''Location'', ''//evil.com'')], rs_body = []\<rparr>"
  by code_simp

end
