(* ===== verification/Negotiate.thy ===== *)
theory Negotiate
  imports Complex_Main Http State
begin

text \<open>
  Content negotiation (\<open>src/src/quackapi_server.cpp\<close>): the quality values of \<open>Accept-Encoding\<close>
  and \<open>Accept\<close>, the choice of a content encoding, the choice of a body format, and the
  compression of a response. The C++ \<open>double\<close>s of this code are only compared, so a double is
  its exact rational value, an infinity or not-a-number; the conversion from text (\<open>std::stod\<close>,
  \<open>atof\<close>) rounds to the nearest double and is a parameter, about which no theorem assumes
  anything. The compressors are DuckDB's and are parameters too.
\<close>

section \<open>Doubles\<close>

datatype double = NaN | NegInf | Fin rat | PosInf

fun dbl_le :: "double \<Rightarrow> double \<Rightarrow> bool" where
  "dbl_le NaN _ = False"
| "dbl_le _ NaN = False"
| "dbl_le NegInf _ = True"
| "dbl_le _ PosInf = True"
| "dbl_le (Fin a) (Fin b) = (a \<le> b)"
| "dbl_le (Fin a) NegInf = False"
| "dbl_le PosInf _ = False"

definition dbl_lt :: "double \<Rightarrow> double \<Rightarrow> bool" where
  "dbl_lt a b = (dbl_le a b \<and> a \<noteq> b)"

definition dbl_eq :: "double \<Rightarrow> double \<Rightarrow> bool" where
  "dbl_eq a b = (a = b \<and> a \<noteq> NaN)"

text \<open>\<open>stod\<close> is \<open>None\<close> where it throws; \<open>atof\<close> is total.\<close>

record float_text =
  ft_stod :: "string \<Rightarrow> double option"
  ft_atof :: "string \<Rightarrow> double"

definition until_char :: "char \<Rightarrow> string \<Rightarrow> string" where
  "until_char d s = takeWhile (\<lambda>c. c \<noteq> d) s"

section \<open>Content encoding\<close>

datatype NegotiatedEncoding = IDENTITY | ZSTD | GZIP

datatype QuackapiCompressionMode = COMPRESS_OFF | COMPRESS_GZIP | COMPRESS_ZSTD | COMPRESS_AUTO

definition encoding_q :: "float_text \<Rightarrow> string \<Rightarrow> rat" where
  "encoding_q F qstr = (case ft_stod F qstr of
     Some (Fin q) \<Rightarrow> if 0 \<le> q \<and> q \<le> 1 then q else 0
   | _ \<Rightarrow> 0)"

fun encoding_params :: "string_util \<Rightarrow> float_text \<Rightarrow> string list \<Rightarrow> rat" where
  "encoding_params U F [] = 1"
| "encoding_params U F (part # parts) =
     (let p = su_trim U part
      in if su_starts_with U (su_lower U p) ''q='' then encoding_q F (su_trim U (drop 2 p))
         else encoding_params U F parts)"

definition ParseEncodingQ :: "string_util \<Rightarrow> float_text \<Rightarrow> string \<Rightarrow> rat" where
  "ParseEncodingQ U F token =
     (let parts = su_split U token (CHR '';'')
      in if length parts < 2 then 1 else encoding_params U F (tl parts))"

text \<open>The four quality values of the loop, \<open>-1\<close> when not seen.\<close>

record coding_qs =
  cq_zstd :: rat
  cq_gzip :: rat
  cq_identity :: rat
  cq_star :: rat

definition unseen_qs :: coding_qs where
  "unseen_qs = \<lparr>cq_zstd = -1, cq_gzip = -1, cq_identity = -1, cq_star = -1\<rparr>"

definition coding_token :: "string_util \<Rightarrow> float_text \<Rightarrow> string \<Rightarrow> coding_qs \<Rightarrow> coding_qs" where
  "coding_token U F raw qs =
     (let tok = su_trim U raw
      in if tok = [] then qs
         else let lower = su_lower U (su_trim U (until_char (CHR '';'') tok)); q = ParseEncodingQ U F tok
              in if lower = ''zstd'' then qs\<lparr>cq_zstd := q\<rparr>
                 else if lower = ''gzip'' \<or> lower = ''x-gzip'' then qs\<lparr>cq_gzip := q\<rparr>
                 else if lower = ''identity'' then qs\<lparr>cq_identity := q\<rparr>
                 else if lower = ''*'' then qs\<lparr>cq_star := q\<rparr>
                 else qs)"

definition accepted_q :: "rat \<Rightarrow> rat \<Rightarrow> rat" where
  "accepted_q explicit_q star = (if explicit_q \<ge> 0 then explicit_q else if star \<ge> 0 then star else 0)"

definition choose_encoding :: "QuackapiCompressionMode \<Rightarrow> coding_qs \<Rightarrow> NegotiatedEncoding" where
  "choose_encoding mode qs =
     (let zstd_quality = (if mode = COMPRESS_GZIP then 0 else accepted_q (cq_zstd qs) (cq_star qs));
          gzip_quality = (if mode = COMPRESS_ZSTD then 0 else accepted_q (cq_gzip qs) (cq_star qs))
      in if zstd_quality > 0 \<and> zstd_quality \<ge> gzip_quality then ZSTD
         else if gzip_quality > 0 then GZIP
         else IDENTITY)"

definition NegotiateContentEncoding :: "string_util \<Rightarrow> float_text \<Rightarrow> multimap \<Rightarrow> QuackapiCompressionMode
    \<Rightarrow> NegotiatedEncoding" where
  "NegotiateContentEncoding U F headers mode =
     (case find_header headers ''Accept-Encoding'' of
        None \<Rightarrow> IDENTITY
      | Some header \<Rightarrow>
          if header = [] then IDENTITY
          else choose_encoding mode (fold (coding_token U F) (su_split U header (CHR '','')) unseen_qs))"

definition compressed_types :: "string list" where
  "compressed_types = [''application/gzip'', ''application/x-gzip'', ''application/zip'',
     ''application/x-zip-compressed'', ''application/zstd'', ''application/x-zstd'', ''application/brotli'',
     ''application/x-brotli'', ''application/x-compress'', ''application/x-xz'', ''application/x-bzip'',
     ''application/x-bzip2'', ''application/x-lzip'', ''application/x-lzma'', ''application/x-lz4'',
     ''application/x-snappy-framed'', ''application/x-7z-compressed'', ''application/x-rar-compressed'',
     ''application/vnd.rar'', ''application/wasm'', ''font/woff'', ''font/woff2'', ''application/font-woff'',
     ''application/font-woff2'']"

definition IsAlreadyCompressedContentType :: "string_util \<Rightarrow> string \<Rightarrow> bool" where
  "IsAlreadyCompressedContentType U content_type =
     (if content_type = [] then False
      else let ct = su_trim U (until_char (CHR '';'') (su_lower U content_type))
           in if su_starts_with U ct ''image/'' then True
              else if su_starts_with U ct ''audio/'' \<or> su_starts_with U ct ''video/'' then True
              else any (\<lambda>t. ct = t) compressed_types)"

section \<open>Compression of a response\<close>

text \<open>The compressors; \<open>None\<close> is a failure.\<close>

record compressors =
  cp_zstd :: "string \<Rightarrow> string option"
  cp_gzip :: "string \<Rightarrow> string option"

definition swap_body :: "string \<Rightarrow> string option \<Rightarrow> Response \<Rightarrow> Response" where
  "swap_body encoding_name outcome res = (case outcome of
     None \<Rightarrow> res
   | Some compressed \<Rightarrow>
       if length compressed \<ge> length (rs_body res) then res
       else let res1 = set_header ''Content-Encoding'' encoding_name (res\<lparr>rs_body := compressed\<rparr>)
            in res1\<lparr>rs_headers := erase_header ''Content-Length'' (rs_headers res1)\<rparr>)"

definition MaybeCompressResponse :: "string_util \<Rightarrow> float_text \<Rightarrow> compressors \<Rightarrow> QuackapiCompressionMode \<Rightarrow> nat
    \<Rightarrow> multimap \<Rightarrow> Response \<Rightarrow> Response" where
  "MaybeCompressResponse U F C compression compression_min_bytes req_headers res =
     (if compression = COMPRESS_OFF then res
      else if rs_body res = [] \<or> length (rs_body res) < compression_min_bytes then res
      else if rs_status res = 204 \<or> rs_status res = 304 then res
      else if has_header (rs_headers res) ''Content-Encoding'' then res
      else if IsAlreadyCompressedContentType U (get_header_value (rs_headers res) ''Content-Type'') then res
      else let res1 = set_header ''Vary'' ''Accept-Encoding'' res
           in case NegotiateContentEncoding U F req_headers compression of
                IDENTITY \<Rightarrow> res1
              | ZSTD \<Rightarrow> swap_body ''zstd'' (cp_zstd C (rs_body res1)) res1
              | GZIP \<Rightarrow> swap_body ''gzip'' (cp_gzip C (rs_body res1)) res1)"

section \<open>Body formats\<close>

datatype ResponseMode = MODE_JSON | MODE_HTML | MODE_TEXT

definition ResponseModeFor :: "string_util \<Rightarrow> string list \<Rightarrow> ResponseMode" where
  "ResponseModeFor U names =
     (if length names \<noteq> 1 then MODE_JSON
      else let lower = su_lower U (names ! 0)
           in if lower = ''html'' then MODE_HTML else if lower = ''text'' then MODE_TEXT else MODE_JSON)"

datatype BodyFormat = FORMAT_JSON | FORMAT_NDJSON | FORMAT_CSV | FORMAT_PARQUET | FORMAT_ARROW | FORMAT_BINARY

definition ParseBodyFormatToken :: "string_util \<Rightarrow> string \<Rightarrow> BodyFormat" where
  "ParseBodyFormatToken U token =
     (let t = su_lower U token
      in if t = ''binary'' then FORMAT_BINARY
         else if t = ''ndjson'' then FORMAT_NDJSON
         else if t = ''csv'' then FORMAT_CSV
         else if t = ''parquet'' then FORMAT_PARQUET
         else if t = ''arrow'' \<or> t = ''arrows'' then FORMAT_ARROW
         else FORMAT_JSON)"

definition MediaTypeToBodyFormat :: "string_util \<Rightarrow> string \<Rightarrow> BodyFormat option" where
  "MediaTypeToBodyFormat U media =
     (let m = QuackapiTrim U (su_lower U media)
      in if m = ''application/x-ndjson'' \<or> m = ''application/jsonl'' \<or> m = ''application/ndjson'' then Some FORMAT_NDJSON
         else if m = ''text/csv'' \<or> m = ''application/csv'' then Some FORMAT_CSV
         else if m = ''application/vnd.apache.parquet'' \<or> m = ''application/parquet'' then Some FORMAT_PARQUET
         else if m = ''application/vnd.apache.arrow.stream'' \<or> m = ''application/vnd.apache.arrow.file'' \<or>
           m = ''application/x-apache-arrow-stream'' \<or> m = ''application/arrow'' then Some FORMAT_ARROW
         else if m = ''application/json'' \<or> m = ''text/json'' \<or> m = ''*/*'' then Some FORMAT_JSON
         else None)"

fun accept_params :: "string_util \<Rightarrow> float_text \<Rightarrow> string list \<Rightarrow> double" where
  "accept_params U F [] = Fin 1"
| "accept_params U F (part # parts) =
     (let p = QuackapiTrim U part
      in if su_starts_with U (su_lower U p) ''q='' then ft_atof F (drop 2 p) else accept_params U F parts)"

definition ParseAcceptQ :: "string_util \<Rightarrow> float_text \<Rightarrow> string \<Rightarrow> double" where
  "ParseAcceptQ U F token =
     (let parts = su_split U token (CHR '';'')
      in if length parts < 2 then Fin 1 else accept_params U F (tl parts))"

text \<open>The best format so far with its quality; \<open>None\<close> while none has been recognised.\<close>

definition accept_token :: "string_util \<Rightarrow> float_text \<Rightarrow> string \<Rightarrow> (BodyFormat \<times> double) option
    \<Rightarrow> (BodyFormat \<times> double) option" where
  "accept_token U F tok best =
     (let t = QuackapiTrim U tok
      in if t = [] then best
         else let q = ParseAcceptQ U F t
              in if dbl_le q (Fin 0) then best
                 else let media = (if CHR '';'' \<in> set t then QuackapiTrim U (until_char (CHR '';'') t) else t)
                      in case MediaTypeToBodyFormat U media of
                           None \<Rightarrow> best
                         | Some f \<Rightarrow> (case best of
                               None \<Rightarrow> Some (f, q)
                             | Some (b, best_q) \<Rightarrow>
                                 if dbl_lt best_q q \<or> dbl_eq q best_q \<and> b = FORMAT_JSON \<and> f \<noteq> FORMAT_JSON
                                 then Some (f, q) else best))"

definition ResolveBodyFormat :: "string_util \<Rightarrow> float_text \<Rightarrow> 'v QuackapiRoute \<Rightarrow> multimap \<Rightarrow> BodyFormat" where
  "ResolveBodyFormat U F route headers =
     (let route_fmt = su_lower U (if rt_response_format route = [] then ''json'' else rt_response_format route)
      in if route_fmt \<in> {''ndjson'', ''csv'', ''parquet'', ''arrow'', ''arrows'', ''binary''}
         then ParseBodyFormatToken U route_fmt
         else case find_header headers ''Accept'' of
                None \<Rightarrow> FORMAT_JSON
              | Some accept \<Rightarrow>
                  if accept = [] then FORMAT_JSON
                  else case fold (accept_token U F) (su_split U accept (CHR '','')) None of
                         None \<Rightarrow> FORMAT_JSON | Some (f, _) \<Rightarrow> f)"

section \<open>Properties of the negotiation\<close>

lemma ParseEncodingQ_range: "0 \<le> ParseEncodingQ U F token \<and> ParseEncodingQ U F token \<le> 1"
proof -
  have "0 \<le> encoding_params U F ps \<and> encoding_params U F ps \<le> 1" for ps
    by (induction ps) (auto simp: encoding_q_def Let_def split: option.splits double.splits)
  then show ?thesis by (simp add: ParseEncodingQ_def Let_def)
qed

text \<open>
  The specification: a header lists codings; the quality of a coding is that of its last mention,
  else that of the last wildcard, else zero.
\<close>

definition coding_of :: "string_util \<Rightarrow> string \<Rightarrow> string" where
  "coding_of U raw = su_lower U (su_trim U (until_char (CHR '';'') (su_trim U raw)))"

definition last_mention :: "string_util \<Rightarrow> float_text \<Rightarrow> string list \<Rightarrow> string list \<Rightarrow> rat option" where
  "last_mention U F names raws =
     map_option (\<lambda>raw. ParseEncodingQ U F (su_trim U raw))
       (List.find (\<lambda>raw. su_trim U raw \<noteq> [] \<and> coding_of U raw \<in> set names) (rev raws))"

definition coding_quality :: "string_util \<Rightarrow> float_text \<Rightarrow> string list \<Rightarrow> string list \<Rightarrow> rat" where
  "coding_quality U F names raws = (case last_mention U F names raws of
     Some q \<Rightarrow> q
   | None \<Rightarrow> (case last_mention U F [''*''] raws of Some q \<Rightarrow> q | None \<Rightarrow> 0))"

definition q_slot :: "rat option \<Rightarrow> rat" where
  "q_slot q = (case q of Some q \<Rightarrow> q | None \<Rightarrow> -1)"

lemma last_mention_snoc:
  "last_mention U F names (raws @ [raw]) =
     (if su_trim U raw \<noteq> [] \<and> coding_of U raw \<in> set names then Some (ParseEncodingQ U F (su_trim U raw))
      else last_mention U F names raws)"
  by (simp add: last_mention_def)

lemma coding_tokens:
  "cq_zstd (fold (coding_token U F) raws unseen_qs) = q_slot (last_mention U F [''zstd''] raws) \<and>
   cq_gzip (fold (coding_token U F) raws unseen_qs) = q_slot (last_mention U F [''gzip'', ''x-gzip''] raws) \<and>
   cq_star (fold (coding_token U F) raws unseen_qs) = q_slot (last_mention U F [''*''] raws)"
proof (induction raws rule: rev_induct)
  case Nil
  show ?case by (simp add: unseen_qs_def last_mention_def q_slot_def)
next
  case (snoc raw raws)
  then show ?case
    by (auto simp: coding_token_def last_mention_snoc Let_def coding_of_def q_slot_def)
qed

lemma accepted_quality:
  "accepted_q (q_slot (last_mention U F names raws)) (q_slot (last_mention U F [''*''] raws)) =
     coding_quality U F names raws"
  using ParseEncodingQ_range [of U F]
  by (auto simp: accepted_q_def q_slot_def coding_quality_def last_mention_def split: option.splits)

lemma choose_encoding_best:
  "choose_encoding mode (fold (coding_token U F) raws unseen_qs) =
    (let qz = coding_quality U F [''zstd''] raws; qg = coding_quality U F [''gzip'', ''x-gzip''] raws
     in if mode \<noteq> COMPRESS_GZIP \<and> 0 < qz \<and> (mode = COMPRESS_ZSTD \<or> qg \<le> qz) then ZSTD
        else if mode \<noteq> COMPRESS_ZSTD \<and> 0 < qg then GZIP
        else IDENTITY)"
  using coding_tokens [of U F raws] accepted_quality [of U F "[''zstd'']" raws]
    accepted_quality [of U F "[''gzip'', ''x-gzip'']" raws]
  unfolding choose_encoding_def Let_def by (cases mode) auto

text \<open>
  The content encoding chosen for a response is the one with the highest quality the client
  gave among those the server's mode allows, zstd before gzip on a tie, and never one the client
  gave quality zero or did not mention.
\<close>

theorem negotiated_encoding_best:
  "NegotiateContentEncoding U F headers mode =
    (case find_header headers ''Accept-Encoding'' of
       None \<Rightarrow> IDENTITY
     | Some header \<Rightarrow>
         let raws = su_split U header (CHR '','');
             qz = coding_quality U F [''zstd''] raws; qg = coding_quality U F [''gzip'', ''x-gzip''] raws
         in if header = [] then IDENTITY
            else if mode \<noteq> COMPRESS_GZIP \<and> 0 < qz \<and> (mode = COMPRESS_ZSTD \<or> qg \<le> qz) then ZSTD
            else if mode \<noteq> COMPRESS_ZSTD \<and> 0 < qg then GZIP
            else IDENTITY)"
  by (simp add: NegotiateContentEncoding_def choose_encoding_best Let_def split: option.splits)

text \<open>The body a client recovers from a response by undoing its content encoding.\<close>

definition decoded_body :: "(string \<Rightarrow> string) \<Rightarrow> (string \<Rightarrow> string) \<Rightarrow> Response \<Rightarrow> string" where
  "decoded_body unzstd gunzip res = (case find_header (rs_headers res) ''Content-Encoding'' of
     None \<Rightarrow> rs_body res
   | Some e \<Rightarrow> if e = ''zstd'' then unzstd (rs_body res) else if e = ''gzip'' then gunzip (rs_body res) else rs_body res)"

lemma find_header_emplace:
  "\<not> hl_equal k key \<Longrightarrow> find_header (emplace_header k v hs) key = find_header hs key"
  by (simp add: find_header_def emplace_header_def find_append split: option.splits)

lemma find_header_emplace_new:
  assumes "find_header hs key = None" "is_field_name key" "is_field_value v"
  shows "find_header (emplace_header key v hs) key = Some v"
proof -
  have "List.find (\<lambda>h. hl_equal (fst h) key) hs = None"
    using assms(1) by (simp add: find_header_def)
  then show ?thesis using assms(2,3) by (simp add: find_header_def emplace_header_def find_append)
qed

lemma find_header_erase:
  "\<not> hl_equal k key \<Longrightarrow> find_header (erase_header k hs) key = find_header hs key"
proof -
  assume "\<not> hl_equal k key"
  then have k: "\<And>h. hl_equal (fst h) key \<Longrightarrow> \<not> hl_equal (fst h) k" for hs :: multimap
    using hl_equal_sym hl_equal_trans by blast
  have "List.find (\<lambda>h. hl_equal (fst h) key) (filter (\<lambda>h. \<not> hl_equal (fst h) k) hs) = List.find (\<lambda>h. hl_equal (fst h) key) hs"
    by (rule find_filter_keep) (rule k)
  then show ?thesis by (simp add: find_header_def erase_header_def)
qed

lemma hl_literals:
  "\<not> hl_equal ''Vary'' ''Content-Encoding''" "\<not> hl_equal ''Content-Length'' ''Content-Encoding''"
  by (simp_all add: hl_equal_def hl_lower_def)

lemma field_literals:
  "is_field_name ''Content-Encoding''" "is_field_value ''zstd''" "is_field_value ''gzip''"
  by code_simp+

lemma has_header_find: "has_header hs key \<longleftrightarrow> find_header hs key \<noteq> None"
  by (simp add: has_header_def find_header_def any_find)

lemma swap_body_decoded:
  assumes "find_header (rs_headers res) ''Content-Encoding'' = None"
    and "enc = ''zstd'' \<or> enc = ''gzip''"
    and "\<And>c. outcome = Some c \<Longrightarrow> (if enc = ''zstd'' then unzstd c else gunzip c) = rs_body res"
  shows "decoded_body unzstd gunzip (swap_body enc outcome res) = rs_body res"
proof -
  have v: "is_field_value enc" using assms(2) field_literals by auto
  have n: "find_header (erase_header ''Content-Length'' (emplace_header ''Content-Encoding'' enc (rs_headers res))) ''Content-Encoding''
      = Some enc"
    using find_header_emplace_new [OF assms(1) field_literals(1) v] by (simp add: find_header_erase hl_literals)
  show ?thesis
  proof (cases outcome)
    case None
    then show ?thesis using assms(1) by (simp add: swap_body_def decoded_body_def)
  next
    case (Some c)
    then show ?thesis
      using assms n by (auto simp: swap_body_def decoded_body_def Let_def set_header_def)
  qed
qed

text \<open>
  Compressing a response is invisible to a client that undoes the announced content encoding:
  whatever the client asked for and whatever the server's settings, it recovers the body the
  handler produced, provided the compressors are lossless and the handler set no encoding itself.
\<close>

theorem compression_transparent:
  assumes "\<And>s c. cp_zstd C s = Some c \<Longrightarrow> unzstd c = s" and "\<And>s c. cp_gzip C s = Some c \<Longrightarrow> gunzip c = s"
    and "\<not> has_header (rs_headers res) ''Content-Encoding''"
  shows "decoded_body unzstd gunzip (MaybeCompressResponse U F C mode min_bytes req_headers res) = rs_body res"
proof -
  have n: "find_header (rs_headers res) ''Content-Encoding'' = None" using assms(3) by (simp add: has_header_find)
  let ?r = "set_header ''Vary'' ''Accept-Encoding'' res"
  have r: "rs_body ?r = rs_body res" "find_header (rs_headers ?r) ''Content-Encoding'' = None"
    using n by (simp_all add: set_header_def find_header_emplace hl_literals)
  have "decoded_body unzstd gunzip (swap_body ''zstd'' (cp_zstd C (rs_body ?r)) ?r) = rs_body ?r"
    by (rule swap_body_decoded) (use r assms(1) in auto)
  moreover have "decoded_body unzstd gunzip (swap_body ''gzip'' (cp_gzip C (rs_body ?r)) ?r) = rs_body ?r"
    by (rule swap_body_decoded) (use r assms(2) in auto)
  moreover have "decoded_body unzstd gunzip res = rs_body res" "decoded_body unzstd gunzip ?r = rs_body res"
    using n r by (simp_all add: decoded_body_def)
  ultimately show ?thesis
    using r(1) unfolding MaybeCompressResponse_def Let_def by (simp split: NegotiatedEncoding.split)
qed

text \<open>Run-length coding of a repeated byte stands for the compressors in the example.\<close>

definition example_compressors :: compressors where
  "example_compressors = \<lparr>cp_zstd = (\<lambda>s. if s = replicate 8 (CHR ''a'') then Some ''8a'' else None), cp_gzip = (\<lambda>_. None)\<rparr>"

definition example_floats :: float_text where
  "example_floats = \<lparr>ft_stod = (\<lambda>s. if s = ''1'' then Some (Fin 1) else None), ft_atof = (\<lambda>s. if s = ''1'' then Fin 1 else Fin 0)\<rparr>"

definition large_response :: Response where
  "large_response = \<lparr>rs_status = 200, rs_headers = [], rs_body = replicate 8 (CHR ''a'')\<rparr>"

lemma example_compressors_lossless:
  "cp_zstd example_compressors s = Some c \<Longrightarrow> replicate 8 (CHR ''a'') = s" "cp_gzip example_compressors s \<noteq> Some c"
  by (auto simp: example_compressors_def split: if_splits)

theorem compression_transparent_witness:
  "decoded_body (\<lambda>_. replicate 8 (CHR ''a'')) id
     (MaybeCompressResponse ascii_util example_floats example_compressors COMPRESS_AUTO 1
        [(''Accept-Encoding'', ''zstd;q=1'')] large_response) = replicate 8 (CHR ''a'') \<and>
   rs_body (MaybeCompressResponse ascii_util example_floats example_compressors COMPRESS_AUTO 1
        [(''Accept-Encoding'', ''zstd;q=1'')] large_response) = ''8a''"
proof
  show "decoded_body (\<lambda>_. replicate 8 (CHR ''a'')) id
     (MaybeCompressResponse ascii_util example_floats example_compressors COMPRESS_AUTO 1
        [(''Accept-Encoding'', ''zstd;q=1'')] large_response) = replicate 8 (CHR ''a'')"
    by (subst compression_transparent) (auto simp: example_compressors_lossless large_response_def has_header_def)
  show "rs_body (MaybeCompressResponse ascii_util example_floats example_compressors COMPRESS_AUTO 1
        [(''Accept-Encoding'', ''zstd;q=1'')] large_response) = ''8a''"
    by code_simp
qed

section \<open>Properties of the body format\<close>

definition offered :: "string_util \<Rightarrow> float_text \<Rightarrow> string \<Rightarrow> (BodyFormat \<times> double) option" where
  "offered U F tok =
     (let t = QuackapiTrim U tok; q = ParseAcceptQ U F t
      in if t = [] \<or> dbl_le q (Fin 0) then None
         else map_option (\<lambda>f. (f, q)) (MediaTypeToBodyFormat U
           (if CHR '';'' \<in> set t then QuackapiTrim U (until_char (CHR '';'') t) else t)))"

lemma accept_token_offered:
  "accept_token U F tok best = (case offered U F tok of
     None \<Rightarrow> best
   | Some (f, q) \<Rightarrow> (case best of None \<Rightarrow> Some (f, q)
       | Some (b, bq) \<Rightarrow> if dbl_lt bq q \<or> dbl_eq q bq \<and> b = FORMAT_JSON \<and> f \<noteq> FORMAT_JSON then Some (f, q) else best))"
  by (auto simp: accept_token_def offered_def Let_def split: option.splits)

lemma dbl_lt_trans: "dbl_lt a b \<Longrightarrow> dbl_lt b c \<Longrightarrow> dbl_lt a c"
  by (cases a; cases b; cases c) (auto simp: dbl_lt_def)

lemma accept_fold_snoc:
  "fold (accept_token U F) (toks @ [tok]) None = (case offered U F tok of
     None \<Rightarrow> fold (accept_token U F) toks None
   | Some (f, q) \<Rightarrow> (case fold (accept_token U F) toks None of None \<Rightarrow> Some (f, q)
       | Some (b, bq) \<Rightarrow> if dbl_lt bq q \<or> dbl_eq q bq \<and> b = FORMAT_JSON \<and> f \<noteq> FORMAT_JSON then Some (f, q)
           else Some (b, bq)))"
  by (simp add: accept_token_offered [of U F tok "fold (accept_token U F) toks None"] split: option.splits)

lemma accept_tokens_none:
  "fold (accept_token U F) toks None = None \<longleftrightarrow> (\<forall>tok \<in> set toks. offered U F tok = None)"
  by (induction toks rule: rev_induct) (auto simp only: accept_fold_snoc split: option.splits if_splits, auto)

lemma dbl_lt_irrefl [simp]: "\<not> dbl_lt a a"
  by (simp add: dbl_lt_def)

lemma accept_tokens_some:
  "fold (accept_token U F) toks None = Some (b, bq) \<Longrightarrow>
     (\<exists>tok \<in> set toks. offered U F tok = Some (b, bq)) \<and>
     (\<forall>tok \<in> set toks. \<forall>f q. offered U F tok = Some (f, q) \<longrightarrow> \<not> dbl_lt bq q)"
proof (induction toks arbitrary: b bq rule: rev_induct)
  case (snoc tok toks)
  show ?case
  proof (cases "offered U F tok")
    case None
    with snoc.prems snoc.IH [of b bq] show ?thesis by (simp only: accept_fold_snoc) auto
  next
    case (Some fq)
    obtain f q where fq: "fq = (f, q)" by fastforce
    show ?thesis
    proof (cases "fold (accept_token U F) toks None")
      case None
      then have "\<forall>tok \<in> set toks. offered U F tok = None" by (simp only: accept_tokens_none)
      with snoc.prems None Some fq show ?thesis by (simp only: accept_fold_snoc) auto
    next
      case (Some cb)
      obtain c cq where c: "cb = (c, cq)" by fastforce
      note IH = snoc.IH [OF Some [unfolded c]]
      have "(b, bq) = (if dbl_lt cq q \<or> dbl_eq q cq \<and> c = FORMAT_JSON \<and> f \<noteq> FORMAT_JSON then (f, q) else (c, cq))"
        using snoc.prems Some c fq \<open>offered U F tok = Some fq\<close> by (simp only: accept_fold_snoc) (auto split: if_splits)
      with IH \<open>offered U F tok = Some fq\<close> fq show ?thesis
        by (auto simp: dbl_eq_def split: if_splits dest: dbl_lt_trans)
    qed
  qed
qed simp

text \<open>
  A route without a format of its own answers in a format the client accepts: with the format
  of an \<open>Accept\<close> entry whose quality is not zero and is not below that of another recognised
  entry, and with JSON when the header recognises nothing.
\<close>

theorem body_format_acceptable:
  assumes "rt_response_format route = []" and "su_lower U ''json'' = ''json''"
    and "find_header headers ''Accept'' = Some accept" and "accept \<noteq> []"
  shows "if \<exists>tok \<in> set (su_split U accept (CHR '','')). offered U F tok \<noteq> None
    then \<exists>q. (\<exists>tok \<in> set (su_split U accept (CHR '','')). offered U F tok = Some (ResolveBodyFormat U F route headers, q)) \<and>
      (\<forall>tok \<in> set (su_split U accept (CHR '','')). \<forall>f q'. offered U F tok = Some (f, q') \<longrightarrow> \<not> dbl_lt q q')
    else ResolveBodyFormat U F route headers = FORMAT_JSON"
proof (cases "fold (accept_token U F) (su_split U accept (CHR '','')) None")
  case None
  with assms show ?thesis
    using accept_tokens_none [of U F "su_split U accept (CHR '','')"] by (auto simp: ResolveBodyFormat_def)
next
  case (Some bq)
  obtain b q where b: "bq = (b, q)" by fastforce
  have r: "ResolveBodyFormat U F route headers = b" using assms Some b by (simp add: ResolveBodyFormat_def)
  note best = accept_tokens_some [OF Some [unfolded b]]
  then have "\<exists>tok \<in> set (su_split U accept (CHR '','')). offered U F tok \<noteq> None" by force
  with best show ?thesis unfolding r by (subst if_P) blast+
qed

theorem body_format_acceptable_witness:
  "ResolveBodyFormat ascii_util example_floats (example_route\<lparr>rt_response_format := []\<rparr>)
     [(''Accept'', ''application/json;q=0, text/csv;q=1'')] = FORMAT_CSV \<and>
   (\<exists>q. \<exists>tok \<in> set (su_split ascii_util ''application/json;q=0, text/csv;q=1'' (CHR '','')).
      offered ascii_util example_floats tok = Some (FORMAT_CSV, q))"
proof -
  let ?r = "example_route\<lparr>rt_response_format := []\<rparr>" and ?a = "''application/json;q=0, text/csv;q=1''"
  have r: "ResolveBodyFormat ascii_util example_floats ?r [(''Accept'', ?a)] = FORMAT_CSV" by code_simp
  have "\<exists>tok \<in> set (su_split ascii_util ?a (CHR '','')). offered ascii_util example_floats tok \<noteq> None" by code_simp
  then show ?thesis
    using body_format_acceptable [of ?r ascii_util "[(''Accept'', ?a)]" ?a example_floats] r
    by (auto simp: find_header_def ascii_lower_def is_upper_def)
qed

end
