(* ===== verification/Body.thy ===== *)
theory Body
  imports Http Json State
begin

text \<open>
  What a request carries (\<open>src/src/quackapi_server.cpp\<close>): media types, form bodies, cookies,
  declared header and cookie parameters, and the fields of a JSON body, with the scanner that
  reads a flat JSON object without the database. Case-insensitive maps are association lists whose
  keys are distinct up to case; assigning to a key keeps the spelling it was first stored with.
  The JSON extension of DuckDB is a parameter.
\<close>

section \<open>Case-insensitive maps\<close>

type_synonym 'a ci_map = "(string \<times> 'a) list"

definition ci_find :: "string_util \<Rightarrow> string \<Rightarrow> 'a ci_map \<Rightarrow> 'a option" where
  "ci_find U k m = map_option snd (List.find (\<lambda>e. su_ci_equals U (fst e) k) m)"

fun ci_put :: "string_util \<Rightarrow> string \<Rightarrow> 'a \<Rightarrow> 'a ci_map \<Rightarrow> 'a ci_map" where
  "ci_put U k v [] = [(k, v)]"
| "ci_put U k v (e # m) = (if su_ci_equals U (fst e) k then (fst e, v) # m else e # ci_put U k v m)"

definition ci_put_new :: "string_util \<Rightarrow> string \<Rightarrow> 'a \<Rightarrow> 'a ci_map \<Rightarrow> 'a ci_map" where
  "ci_put_new U k v m = (if ci_find U k m = None then ci_put U k v m else m)"

definition CollectHeaders :: "string_util \<Rightarrow> multimap \<Rightarrow> string ci_map" where
  "CollectHeaders U hs = fold (\<lambda>kv m. ci_put_new U (fst kv) (snd kv) m) hs []"

definition FindHeaderValue :: "string_util \<Rightarrow> string ci_map \<Rightarrow> string \<Rightarrow> string option" where
  "FindHeaderValue U headers wire_name = ci_find U wire_name headers"

section \<open>Media types\<close>

definition ContentTypeMedia :: "string_util \<Rightarrow> string ci_map \<Rightarrow> string" where
  "ContentTypeMedia U headers = (case ci_find U ''Content-Type'' headers of
     None \<Rightarrow> []
   | Some ct \<Rightarrow> su_lower U (su_trim U (takeWhile (\<lambda>c. c \<noteq> CHR '';'') ct)))"

definition IsJsonMediaType :: "string_util \<Rightarrow> string \<Rightarrow> bool" where
  "IsJsonMediaType U media = (media = ''application/json'' \<or> su_ends_with U media ''+json'')"

definition IsFormUrlEncodedMediaType :: "string \<Rightarrow> bool" where
  "IsFormUrlEncodedMediaType media = (media = ''application/x-www-form-urlencoded'')"

definition IsMultipartMediaType :: "string_util \<Rightarrow> string \<Rightarrow> bool" where
  "IsMultipartMediaType U media = su_starts_with U media ''multipart/form-data''"

definition IsBodyMethod :: "string \<Rightarrow> bool" where
  "IsBodyMethod m = (m = ''POST'' \<or> m = ''PUT'' \<or> m = ''PATCH'')"

definition form_pair :: "string \<Rightarrow> string \<times> string" where
  "form_pair pair =
     (if CHR ''='' \<notin> set pair then (decode_query_component pair, [])
      else (decode_query_component (takeWhile (\<lambda>c. c \<noteq> CHR ''='') pair),
            decode_query_component (tl (dropWhile (\<lambda>c. c \<noteq> CHR ''='') pair))))"

function form_fields :: "string_util \<Rightarrow> string \<Rightarrow> string ci_map \<Rightarrow> string ci_map" where
  "form_fields U body out =
     (if body = [] then out
      else let pair = takeWhile (\<lambda>c. c \<noteq> CHR ''&'') body; kv = form_pair pair;
               out1 = (if pair \<noteq> [] \<and> fst kv \<noteq> [] then ci_put U (fst kv) (snd kv) out else out)
           in form_fields U (tl (dropWhile (\<lambda>c. c \<noteq> CHR ''&'') body)) out1)"
  by pat_completeness auto
termination
proof (relation "measure (\<lambda>(U, body, out). length body)")
  fix U out body x xa xb
  assume "(body :: string) \<noteq> []"
  then show "((U :: string_util, tl (dropWhile (\<lambda>c. c \<noteq> CHR ''&'') body), xb :: string ci_map), U, body, out)
      \<in> measure (\<lambda>(U, body, out). length body)"
    using length_dropWhile_le [of "\<lambda>c. c \<noteq> CHR ''&''" "tl body"] by (cases body) auto
qed simp

declare form_fields.simps [simp del]

definition ParseFormUrlEncoded :: "string_util \<Rightarrow> string \<Rightarrow> string ci_map" where
  "ParseFormUrlEncoded U body = form_fields U body []"

section \<open>Cookies and declared parameters\<close>

definition ParamWireName :: "'v QuackapiParamSpec \<Rightarrow> string" where
  "ParamWireName spec =
     (if ps_external_name spec \<noteq> [] then ps_external_name spec
      else if ps_source spec = HEADER then map (\<lambda>c. if c = CHR ''_'' then CHR ''-'' else c) (ps_name spec)
      else ps_name spec)"

definition cookie_skip :: "char \<Rightarrow> bool" where
  "cookie_skip c = (c = CHR '' '' \<or> c = CHR '';'' \<or> c = CHR 0x09)"

definition unquote_cookie :: "string \<Rightarrow> string" where
  "unquote_cookie val =
     (if length val \<ge> 2 \<and> hd val = CHR 0x22 \<and> last val = CHR 0x22 then butlast (tl val) else val)"

text \<open>
  One pass of the loop reads \<open>name\<close> up to \<open>=\<close> or \<open>;\<close>, the value up to \<open>;\<close>, and steps over
  that \<open>;\<close>.
\<close>

function cookie_loop :: "string_util \<Rightarrow> string \<Rightarrow> string ci_map \<Rightarrow> string ci_map" where
  "cookie_loop U s out =
     (let s1 = dropWhile cookie_skip s
      in if s1 = [] then out
         else let name = su_trim U (takeWhile (\<lambda>c. c \<noteq> CHR ''='' \<and> c \<noteq> CHR '';'') s1);
                  s2 = dropWhile (\<lambda>c. c \<noteq> CHR ''='' \<and> c \<noteq> CHR '';'') s1;
                  val = (if s2 \<noteq> [] \<and> hd s2 = CHR ''='' then
                           unquote_cookie (su_trim U (takeWhile (\<lambda>c. c \<noteq> CHR '';'') (tl s2))) else []);
                  s3 = (if s2 \<noteq> [] \<and> hd s2 = CHR ''='' then dropWhile (\<lambda>c. c \<noteq> CHR '';'') (tl s2) else s2);
                  out1 = (if name \<noteq> [] then ci_put_new U name val out else out)
              in cookie_loop U (tl s3) out1)"
  by pat_completeness auto
termination
proof (relation "measure (\<lambda>(U, s, out). length s)")
  fix U :: string_util and s :: string and out :: "string ci_map" and s1 name s2 val s3 out1
  assume a: "s1 = dropWhile cookie_skip s" "s1 \<noteq> []"
    "s2 = dropWhile (\<lambda>c. c \<noteq> CHR ''='' \<and> c \<noteq> CHR '';'') s1"
    "s3 = (if s2 \<noteq> [] \<and> hd s2 = CHR ''='' then dropWhile (\<lambda>c. c \<noteq> CHR '';'') (tl s2) else s2)"
  have "length s3 \<le> length s2" using length_dropWhile_le [of "\<lambda>c. c \<noteq> CHR '';''" "tl s2"] a(4) by auto
  moreover have "length s2 \<le> length s1" using a(3) length_dropWhile_le by blast
  moreover have "length s1 \<le> length s" using a(1) length_dropWhile_le by blast
  moreover have "0 < length s1" using a(2) by simp
  ultimately have "length s3 - 1 < length s" by linarith
  then show "((U, tl s3, out1), U, s, out) \<in> measure (\<lambda>(U, s, out). length s)" by simp
qed simp

declare cookie_loop.simps [simp del]

definition ParseCookieHeader :: "string_util \<Rightarrow> string \<Rightarrow> string ci_map" where
  "ParseCookieHeader U cookie_header = cookie_loop U cookie_header []"

definition FindParamSpec :: "string_util \<Rightarrow> 'v QuackapiParamSpec list \<Rightarrow> string \<Rightarrow> 'v QuackapiParamSpec option" where
  "FindParamSpec U specs name = List.find (\<lambda>s. su_lower U (ps_name s) = su_lower U name) specs"

definition IsClaimsParam :: "string_util \<Rightarrow> string \<Rightarrow> string option" where
  "IsClaimsParam U param_name =
     (if length param_name \<le> 7 then None
      else if \<not> su_starts_with U (su_lower U param_name) ''claims_'' then None
      else if drop 7 param_name \<noteq> [] then Some (drop 7 param_name) else None)"

definition IsStrictIntegerString :: "string \<Rightarrow> bool \<Rightarrow> bool" where
  "IsStrictIntegerString s allow_negative =
     (if s = [] then False
      else if hd s = CHR ''-'' then
        (if \<not> allow_negative \<or> length s = 1 then False else list_all is_digit (tl s))
      else list_all is_digit s)"

section \<open>The flat JSON object scanner\<close>

record JsonBodyField =
  jb_value :: string
  jb_json_value :: string
  jb_explicit_null :: bool

fun plain_chars :: "string \<Rightarrow> (string \<times> string) option" where
  "plain_chars [] = None"
| "plain_chars (c # s) =
     (if c = CHR 0x22 then Some ([], s)
      else if byte c < 32 \<or> c = CHR 0x5C then None
      else map_option (\<lambda>(v, rest). (c # v, rest)) (plain_chars s))"

definition parse_plain_string :: "string \<Rightarrow> (string \<times> string) option" where
  "parse_plain_string s = (case s of [] \<Rightarrow> None | c # rest \<Rightarrow> if c \<noteq> CHR 0x22 then None else plain_chars rest)"

definition starts_digit :: "string \<Rightarrow> bool" where
  "starts_digit s = (s \<noteq> [] \<and> is_digit (hd s))"

definition number_int :: "string \<Rightarrow> string option" where
  "number_int s =
     (if s = [] then None
      else if hd s = CHR ''0'' then (if starts_digit (tl s) then None else Some (tl s))
      else if is_digit (hd s) then Some (dropWhile is_digit (tl s))
      else None)"

definition number_frac :: "string \<Rightarrow> string option" where
  "number_frac s =
     (if s \<noteq> [] \<and> hd s = CHR ''.'' then (if starts_digit (tl s) then Some (dropWhile is_digit (tl s)) else None)
      else Some s)"

definition number_exp :: "string \<Rightarrow> string option" where
  "number_exp s =
     (if s \<noteq> [] \<and> (hd s = CHR ''e'' \<or> hd s = CHR ''E'') then
        let s1 = (if tl s \<noteq> [] \<and> (hd (tl s) = CHR ''+'' \<or> hd (tl s) = CHR ''-'') then tl (tl s) else tl s)
        in if starts_digit s1 then Some (dropWhile is_digit s1) else None
      else Some s)"

text \<open>What is left after a number.\<close>

definition parse_number :: "string \<Rightarrow> string option" where
  "parse_number s =
     (let s1 = (if s \<noteq> [] \<and> hd s = CHR ''-'' then tl s else s)
      in Option.bind (number_int s1) (\<lambda>s2. Option.bind (number_frac s2) number_exp))"

definition consumed :: "string \<Rightarrow> string \<Rightarrow> string" where
  "consumed s rest = take (length s - length rest) s"

text \<open>A member's value: the text to bind, whether it is \<open>null\<close>, and what is left.\<close>

definition flat_value :: "string \<Rightarrow> (string \<times> bool \<times> string) option" where
  "flat_value s =
     (if s = [] then None
      else if hd s = CHR 0x22 then map_option (\<lambda>(v, rest). (v, False, rest)) (parse_plain_string s)
      else if prefix ''null'' s then Some ([], True, drop 4 s)
      else if prefix ''true'' s then Some (''true'', False, drop 4 s)
      else if prefix ''false'' s then Some (''false'', False, drop 5 s)
      else if hd s = CHR ''-'' \<or> is_digit (hd s) then
        map_option (\<lambda>rest. (consumed s rest, False, rest)) (parse_number s)
      else None)"

text \<open>One member up to its value, with what is left.\<close>

definition flat_member :: "string \<Rightarrow> ((string \<times> JsonBodyField) \<times> string) option" where
  "flat_member s = (case parse_plain_string (SkipWhitespace s) of
     None \<Rightarrow> None
   | Some (key, s1) \<Rightarrow> (case SkipWhitespace s1 of
       [] \<Rightarrow> None
     | c # s2 \<Rightarrow> if c \<noteq> CHR '':'' then None
         else (case flat_value (SkipWhitespace s2) of
             None \<Rightarrow> None
           | Some (val, explicit_null, s3) \<Rightarrow>
               Some ((key, \<lparr>jb_value = val, jb_json_value = consumed (SkipWhitespace s2) s3,
                 jb_explicit_null = explicit_null\<rparr>), s3))))"

lemma plain_chars_length: "plain_chars s = Some (v, rest) \<Longrightarrow> length rest < length s"
proof (induction s arbitrary: v rest)
  case (Cons c s)
  then show ?case by (cases "plain_chars s") (auto split: if_splits simp: less_Suc_eq)
qed simp

lemma parse_plain_string_length: "parse_plain_string s = Some (v, rest) \<Longrightarrow> length rest < length s"
  by (auto simp: parse_plain_string_def split: list.splits if_splits dest: plain_chars_length)

lemma number_parts_length:
  "number_int s = Some r \<Longrightarrow> length r \<le> length s" "number_frac s = Some r \<Longrightarrow> length r \<le> length s"
  "number_exp s = Some r \<Longrightarrow> length r \<le> length s"
  using length_dropWhile_le [of is_digit "tl s"] length_dropWhile_le [of is_digit "tl (tl s)"]
  by (auto simp: number_int_def number_frac_def number_exp_def Let_def split: if_splits)

lemma parse_number_length: "parse_number s = Some r \<Longrightarrow> length r \<le> length s"
  by (fastforce simp: parse_number_def Let_def bind_eq_Some_conv split: if_splits dest: number_parts_length)

lemma flat_value_length: "flat_value s = Some (v, b, r) \<Longrightarrow> length r \<le> length s"
  by (auto simp: flat_value_def split: if_splits dest: parse_plain_string_length parse_number_length)

lemma flat_member_length: "flat_member s = Some (m, r) \<Longrightarrow> length r < length s"
proof -
  assume "flat_member s = Some (m, r)"
  then obtain key s1 s2 v b where a: "parse_plain_string (SkipWhitespace s) = Some (key, s1)"
    "SkipWhitespace s1 = CHR '':'' # s2" "flat_value (SkipWhitespace s2) = Some (v, b, r)"
    by (auto simp: flat_member_def split: option.splits list.splits if_splits)
  have "length r \<le> length (SkipWhitespace s2)" by (rule flat_value_length [OF a(3)])
  also have "\<dots> \<le> length s2" by (rule SkipWhitespace_length)
  also have "\<dots> < length s1" by (rule SkipWhitespace_Cons_length [OF a(2)])
  also have "\<dots> < length (SkipWhitespace s)" by (rule parse_plain_string_length [OF a(1)])
  also have "\<dots> \<le> length s" by (rule SkipWhitespace_length)
  finally show ?thesis .
qed

text \<open>
  The loop over the members. The flag is the result, the list what has been stored, also when the
  scan gives up.
\<close>

function flat_members :: "(string \<times> JsonBodyField) list \<Rightarrow> string \<Rightarrow> bool \<times> (string \<times> JsonBodyField) list" where
  "flat_members acc s = (case flat_member s of
     None \<Rightarrow> (False, acc)
   | Some (m, s1) \<Rightarrow> (case SkipWhitespace s1 of
       [] \<Rightarrow> (False, acc @ [m])
     | c # s2 \<Rightarrow>
         if c = CHR '','' then flat_members (acc @ [m]) s2
         else if c = CHR ''}'' then (SkipWhitespace s2 = [], acc @ [m])
         else (False, acc @ [m])))"
  by pat_completeness auto
termination
  by (relation "measure (\<lambda>(acc, s). length s)") (auto dest!: flat_member_length SkipWhitespace_Cons_length)

declare flat_members.simps [simp del]

definition store_fields :: "string_util \<Rightarrow> (string \<times> JsonBodyField) list \<Rightarrow> JsonBodyField ci_map" where
  "store_fields U ms = fold (\<lambda>m. ci_put U (fst m) (snd m)) ms []"

definition flat_object :: "string \<Rightarrow> bool \<times> (string \<times> JsonBodyField) list" where
  "flat_object raw_body = (case SkipWhitespace raw_body of
     [] \<Rightarrow> (False, [])
   | c # s \<Rightarrow> if c \<noteq> CHR ''{'' then (False, [])
       else let s1 = SkipWhitespace s
            in if s1 \<noteq> [] \<and> hd s1 = CHR ''}'' then (SkipWhitespace (tl s1) = [], [])
               else flat_members [] s1)"

text \<open>The flag and the fields. A body that is not an object leaves the caller's empty map as it is.\<close>

definition TryExtractFlatJsonObject :: "string_util \<Rightarrow> string \<Rightarrow> bool \<times> JsonBodyField ci_map" where
  "TryExtractFlatJsonObject U raw_body = (case flat_object raw_body of (ok, ms) \<Rightarrow> (ok, store_fields U ms))"

section \<open>The scanner against the JSON reader\<close>

definition flat_node :: "JsonBodyField \<Rightarrow> JsonNode" where
  "flat_node f =
     (if jb_explicit_null f then JsonNode NIL [] [] []
      else if hd (jb_json_value f) = CHR 0x22 then JsonNode STRING (jb_value f) [] []
      else if jb_json_value f = ''true'' \<or> jb_json_value f = ''false'' then JsonNode BOOL [] [] []
      else JsonNode NUMBER (jb_value f) [] [])"

lemma plain_string_chars: "plain_chars s = Some (v, rest) \<Longrightarrow> string_chars acc s = Some (acc @ v, rest)"
proof (induction s arbitrary: acc v)
  case (Cons c s)
  then show ?case by (cases "plain_chars s") (auto split: if_splits)
qed simp

lemma plain_chars_split:
  "plain_chars s = Some (v, rest) \<Longrightarrow> s = v @ CHR 0x22 # rest \<and> list_all (\<lambda>c. c \<noteq> CHR 0x22 \<and> \<not> byte c < 32 \<and> c \<noteq> CHR 0x5C) v"
proof (induction s arbitrary: v)
  case (Cons c s)
  then show ?case by (cases "plain_chars s") (auto split: if_splits)
qed simp

lemma plain_chars_text:
  "list_all (\<lambda>c. c \<noteq> CHR 0x22 \<and> \<not> byte c < 32 \<and> c \<noteq> CHR 0x5C) v \<Longrightarrow> plain_chars (v @ CHR 0x22 # rest) = Some (v, rest)"
  by (induction v) auto

lemma reads_plain_string:
  assumes "list_all (\<lambda>c. c \<noteq> CHR 0x22 \<and> \<not> byte c < 32 \<and> c \<noteq> CHR 0x5C) v"
  shows "reads_as n (CHR 0x22 # v @ [CHR 0x22]) (JsonNode STRING v [] [])"
proof -
  obtain po pa where p: "ParseValue n = value_with po pa" using ParseValue_with by blast
  have "string_chars [] (v @ CHR 0x22 # rest) = Some (v, rest)" for rest
    using plain_string_chars [OF plain_chars_text [OF assms], of "[]" rest] by simp
  then show ?thesis by (simp add: reads_as_def p value_with_def ParseString_def Consume_def Let_def)
qed

lemma reads_false: "reads_as n ''false'' (JsonNode BOOL [] [] [])"
proof -
  obtain po pa where p: "ParseValue n = value_with po pa" using ParseValue_with by blast
  show ?thesis by (simp add: reads_as_def p value_with_def SkipWhitespace_def json_space_def Let_def)
qed

text \<open>A number is a sign or digit followed by characters of numbers.\<close>

definition num_split :: "string \<Rightarrow> string \<Rightarrow> bool" where
  "num_split s r = (\<exists>t. s = t @ r \<and> list_all number_char t)"

lemma num_split_refl: "num_split s s"
  by (simp add: num_split_def)

lemma num_split_step: "number_char c \<Longrightarrow> num_split s r \<Longrightarrow> num_split (c # s) r"
  unfolding num_split_def by (metis append_Cons list.pred_inject(2))

lemma num_split_trans: "num_split s r \<Longrightarrow> num_split r q \<Longrightarrow> num_split s q"
  unfolding num_split_def by (metis append_assoc list_all_append)

lemma num_split_digits: "num_split s (dropWhile is_digit s)"
  unfolding num_split_def
  by (rule exI [of _ "takeWhile is_digit s"]) (auto simp: list_all_iff number_char_def dest: set_takeWhileD)

lemma num_split_tl: "s \<noteq> [] \<Longrightarrow> number_char (hd s) \<Longrightarrow> num_split (tl s) r \<Longrightarrow> num_split s r"
  by (cases s) (auto intro: num_split_step)

lemma is_digit_zero [simp]: "is_digit (CHR ''0'')"
  by (simp add: is_digit_def)

lemma number_parts_split:
  "number_int s = Some r \<Longrightarrow> num_split s r" "number_frac s = Some r \<Longrightarrow> num_split s r"
  "number_exp s = Some r \<Longrightarrow> num_split s r"
proof -
  show "number_int s = Some r \<Longrightarrow> num_split s r"
    by (auto simp: number_int_def number_char_def intro!: num_split_tl num_split_digits num_split_refl split: if_splits)
  show "number_frac s = Some r \<Longrightarrow> num_split s r"
    by (auto simp: number_frac_def number_char_def intro!: num_split_tl num_split_digits num_split_refl split: if_splits)
  show "number_exp s = Some r \<Longrightarrow> num_split s r"
    by (auto simp: number_exp_def number_char_def Let_def starts_digit_def
        intro!: num_split_tl num_split_digits num_split_refl split: if_splits)
qed

lemma parse_number_split:
  assumes "parse_number s = Some r" "hd s = CHR ''-'' \<or> is_digit (hd s)" "s \<noteq> []"
  shows "\<exists>c cs. s = (c # cs) @ r \<and> (c = CHR ''-'' \<or> is_digit c) \<and> list_all number_char cs"
proof -
  have "num_split (if hd s = CHR ''-'' then tl s else s) r"
    using assms(1,3) unfolding parse_number_def Let_def
    by (auto simp: bind_eq_Some_conv dest!: number_parts_split intro: num_split_trans split: if_splits)
  moreover have "length r < length s"
  proof -
    let ?s1 = "if s \<noteq> [] \<and> hd s = CHR ''-'' then tl s else s"
    obtain s2 s3 where "number_int ?s1 = Some s2" "number_frac s2 = Some s3" "number_exp s3 = Some r"
      using assms(1) by (auto simp: parse_number_def Let_def bind_eq_Some_conv)
    moreover have "length s2 < length s"
      using \<open>number_int ?s1 = Some s2\<close> assms(3) length_dropWhile_le [of is_digit "tl ?s1"]
      by (cases s) (auto simp: number_int_def less_Suc_eq_le split: if_splits)
    ultimately show ?thesis using number_parts_length(2) [of s2 s3] number_parts_length(3) [of s3 r] by simp
  qed
  ultimately obtain t where t: "s = t @ r" "t \<noteq> []" "list_all number_char (tl t)"
  proof (cases "hd s = CHR ''-''")
    case True
    assume *: "num_split (if hd s = CHR ''-'' then tl s else s) r" "length r < length s"
      and th: "\<And>t. s = t @ r \<Longrightarrow> t \<noteq> [] \<Longrightarrow> list_all number_char (tl t) \<Longrightarrow> thesis"
    from * True obtain u where "tl s = u @ r" "list_all number_char u" by (auto simp: num_split_def)
    then show thesis using th [of "hd s # u"] assms(3) by (cases s) auto
  next
    case False
    assume *: "num_split (if hd s = CHR ''-'' then tl s else s) r" "length r < length s"
      and th: "\<And>t. s = t @ r \<Longrightarrow> t \<noteq> [] \<Longrightarrow> list_all number_char (tl t) \<Longrightarrow> thesis"
    from * False obtain u where "s = u @ r" "list_all number_char u" by (auto simp: num_split_def)
    then show thesis using th [of u] *(2) by (cases u) auto
  qed
  then show ?thesis using assms(2) by (cases t) auto
qed

lemma consumed_append [simp]: "consumed (t @ r) r = t"
  by (simp add: consumed_def)

lemma flat_value_reads:
  assumes "flat_value s = Some (v, b, r)"
  shows "\<exists>t. s = t @ r \<and> reads_as n t (flat_node \<lparr>jb_value = v, jb_json_value = consumed s r, jb_explicit_null = b\<rparr>)"
proof -
  consider (str) rest where "s = CHR 0x22 # rest" "plain_chars rest = Some (v, r)" "\<not> b"
    | (null) "s = ''null'' @ r" "b" | (true) "s = ''true'' @ r" "\<not> b" "v = ''true''"
    | (false) "s = ''false'' @ r" "\<not> b" "v = ''false''"
    | (num) c cs where "s = (c # cs) @ r" "c = CHR ''-'' \<or> is_digit c" "list_all number_char cs" "v = c # cs" "\<not> b"
  proof -
    have np: "\<exists>c cs. s = (c # cs) @ r \<and> (c = CHR ''-'' \<or> is_digit c) \<and> list_all number_char cs \<and> v = c # cs"
      if "parse_number s = Some r" "hd s = CHR ''-'' \<or> is_digit (hd s)" "s \<noteq> []" "v = consumed s r"
      using parse_number_split [OF that(1-3)] that(4) by (metis consumed_append)
    show thesis
      using assms str null true false num np
      by (auto simp: flat_value_def parse_plain_string_def prefix_def split: if_splits list.splits)
  qed
  then show ?thesis
  proof cases
    case str
    have t: "s = (CHR 0x22 # v @ [CHR 0x22]) @ r" using plain_chars_split [OF str(2)] str(1) by simp
    show ?thesis
      using reads_plain_string plain_chars_split [OF str(2)] str(3) unfolding t consumed_append
      by (intro exI [of _ "CHR 0x22 # v @ [CHR 0x22]"]) (auto simp: flat_node_def)
  next
    case null
    show ?thesis unfolding null(1) consumed_append
      by (intro exI [of _ "''null''"]) (simp add: flat_node_def null(2) reads_null)
  next
    case true
    show ?thesis unfolding true(1) consumed_append
      by (intro exI [of _ "''true''"]) (simp add: flat_node_def true(2) reads_true)
  next
    case false
    show ?thesis unfolding false(1) consumed_append
      by (intro exI [of _ "''false''"]) (simp add: flat_node_def false(2) reads_false)
  next
    case num
    then have "c \<noteq> CHR 0x22" "c \<noteq> CHR ''t''" "c \<noteq> CHR ''f''" by (auto simp: is_digit_def)
    then show ?thesis using num reads_number [OF num(2,3), of n] unfolding num(1) consumed_append
      by (intro exI [of _ "c # cs"]) (auto simp: flat_node_def)
  qed
qed

lemma skip_not_number: "SkipWhitespace r = c # s \<Longrightarrow> \<not> number_char c \<Longrightarrow> \<not> number_char (hd r)"
proof (cases r)
  case (Cons d r')
  assume "SkipWhitespace r = c # s" "\<not> number_char c"
  moreover have "json_space d \<Longrightarrow> \<not> number_char d" by (auto simp: json_space_def number_char_def is_digit_def)
  ultimately show ?thesis using Cons by (auto simp: SkipWhitespace_def split: if_splits)
qed (simp add: SkipWhitespace_def)

lemma flat_member_reads:
  assumes "flat_member s = Some ((key, f), r)" "SkipWhitespace r = c # s'" "\<not> number_char c"
  shows "\<exists>s1 s2. ParseString s = Some (key, s1) \<and> Consume (CHR '':'') s1 = Some s2 \<and> ParseValue n s2 = Some (flat_node f, r)"
proof -
  obtain s1 s2 v b where a: "parse_plain_string (SkipWhitespace s) = Some (key, s1)"
    "SkipWhitespace s1 = CHR '':'' # s2" "flat_value (SkipWhitespace s2) = Some (v, b, r)"
    "f = \<lparr>jb_value = v, jb_json_value = consumed (SkipWhitespace s2) r, jb_explicit_null = b\<rparr>"
    using assms(1) by (auto simp: flat_member_def split: option.splits list.splits if_splits)
  have "ParseString s = Some (key, s1)"
    using a(1) plain_string_chars [of _ key s1 "[]"]
    by (auto simp: ParseString_def Consume_def parse_plain_string_def split: list.splits if_splits)
  moreover obtain t where "SkipWhitespace s2 = t @ r" "reads_as n t (flat_node f)"
    using flat_value_reads [OF a(3), of n] a(4) by blast
  then have "ParseValue n (SkipWhitespace s2) = Some (flat_node f, r)"
    using skip_not_number [OF assms(2,3)] by (simp add: reads_as_def)
  ultimately show ?thesis using a(2) by (auto simp: ParseValue_skip Consume_def)
qed

definition field_node :: "string \<times> JsonBodyField \<Rightarrow> string \<times> JsonNode" where
  "field_node m = (fst m, flat_node (snd m))"

lemma flat_members_reads:
  assumes "flat_members acc s = (True, ms)"
  shows "\<exists>rest. object_loop (ParseValue n) (map field_node acc) s = Some (map field_node ms, rest) \<and> SkipWhitespace rest = []"
  using assms
proof (induction "length s" arbitrary: acc s rule: less_induct)
  case less
  obtain m s1 where m: "flat_member s = Some (m, s1)"
    using less.prems by (auto simp: flat_members.simps [of acc s] split: option.splits)
  obtain c s2 where c: "SkipWhitespace s1 = c # s2" "c = CHR '','' \<or> c = CHR ''}''"
    using less.prems m by (auto simp: flat_members.simps [of acc s] split: list.splits if_splits)
  obtain key f where kf: "m = (key, f)" by fastforce
  obtain t1 t2 where r: "ParseString s = Some (key, t1)" "Consume (CHR '':'') t1 = Some t2" "ParseValue n t2 = Some (flat_node f, s1)"
    using flat_member_reads [of s key f s1 c s2 n] m c kf by auto
  note loop = object_loop_unguarded [OF consuming_ParseValue, of n "map field_node acc" s]
  show ?case
  proof (cases "c = CHR '',''")
    case True
    have "flat_members (acc @ [m]) s2 = (True, ms)"
      using less.prems m c(1) True by (simp add: flat_members.simps [of acc s])
    moreover have "length s2 < length s" using flat_member_length [OF m] SkipWhitespace_Cons_length [OF c(1)] by simp
    ultimately obtain rest where "object_loop (ParseValue n) (map field_node (acc @ [m])) s2 = Some (map field_node ms, rest)"
      "SkipWhitespace rest = []" using less.hyps by blast
    then show ?thesis using r c(1) True kf by (auto simp: loop field_node_def)
  next
    case False
    then have "ms = acc @ [m]" "SkipWhitespace s2 = []"
      using less.prems m c by (auto simp: flat_members.simps [of acc s])
    then show ?thesis using r c False kf by (auto simp: loop field_node_def)
  qed
qed

text \<open>
  C32. Whenever the scanner for flat bodies accepts a request body, the body is a JSON object in
  the sense of the full reader, and the fields bound to parameters are its members: strings with
  their content, numbers and literals with their text, and null only where the document has null.
\<close>

theorem flat_scanner_sound:
  assumes "TryExtractFlatJsonObject U raw_body = (True, found)"
  shows "\<exists>ms. ParseDocument raw_body = Some (JsonNode OBJECT [] [] (map field_node ms)) \<and> found = store_fields U ms"
proof -
  obtain ms where ms: "flat_object raw_body = (True, ms)" "found = store_fields U ms"
    using assms by (auto simp: TryExtractFlatJsonObject_def split: prod.splits)
  obtain s where s: "SkipWhitespace raw_body = CHR ''{'' # s"
    using ms(1) by (auto simp: flat_object_def split: list.splits if_splits)
  have n: "MAX_NESTING_DEPTH = Suc 127" by (simp add: MAX_NESTING_DEPTH_def)
  have obj: "ParseValue MAX_NESTING_DEPTH (SkipWhitespace raw_body) = ParseObject (ParseValue 127) (CHR ''{'' # s)"
    by (simp only: n ParseValue.simps(2) s) (simp add: value_with_def)
  have cons: "Consume (CHR ''{'') (CHR ''{'' # s) = Some s" by (simp add: Consume_def)
  show ?thesis
  proof (cases "SkipWhitespace s \<noteq> [] \<and> hd (SkipWhitespace s) = CHR ''}''")
    case True
    then have "ms = []" "SkipWhitespace (tl (SkipWhitespace s)) = []"
      using ms(1) s by (auto simp: flat_object_def Let_def)
    then show ?thesis
      using True ms(2) by (intro exI [of _ "[]"]) (simp add: ParseDocument_def obj ParseObject_def cons Let_def)
  next
    case False
    then have "flat_members [] (SkipWhitespace s) = (True, ms)"
      using ms(1) s by (auto simp: flat_object_def Let_def)
    then obtain rest where "object_loop (ParseValue 127) [] (SkipWhitespace s) = Some (map field_node ms, rest)" "SkipWhitespace rest = []"
      using flat_members_reads [of "[]" "SkipWhitespace s" ms 127] by auto
    then show ?thesis
      using False ms(2) by (intro exI [of _ ms]) (auto simp: ParseDocument_def obj ParseObject_def cons Let_def)
  qed
qed

definition example_body :: string where
  "example_body = ''{'' @ [CHR 0x22] @ ''name'' @ [CHR 0x22] @ '': '' @ [CHR 0x22] @ ''null'' @ [CHR 0x22] @ '', '' @
     [CHR 0x22] @ ''qty'' @ [CHR 0x22] @ '':-1.5e3}''"

definition example_fields :: "JsonBodyField ci_map" where
  "example_fields = [(''name'', \<lparr>jb_value = ''null'', jb_json_value = [CHR 0x22] @ ''null'' @ [CHR 0x22], jb_explicit_null = False\<rparr>),
     (''qty'', \<lparr>jb_value = ''-1.5e3'', jb_json_value = ''-1.5e3'', jb_explicit_null = False\<rparr>)]"

lemma example_body_fields: "TryExtractFlatJsonObject ascii_util example_body = (True, example_fields)"
  by code_simp

theorem flat_scanner_sound_witness:
  "\<exists>ms. ParseDocument example_body = Some (JsonNode OBJECT [] [] (map field_node ms)) \<and>
     example_fields = store_fields ascii_util ms"
  by (rule flat_scanner_sound [OF example_body_fields])

end
