(* ===== verification/Serialize.thy ===== *)
theory Serialize
  imports Negotiate Body
begin

text \<open>
  From query results to response bodies (\<open>src/src/quackapi_server.cpp\<close>): the JSON text of a value
  and of rows, newline-delimited JSON, CSV, server-sent events, the bodies of validation errors,
  and the execution of an exec route's SQL batch with its byte budget.

  DuckDB's \<open>Value\<close> is seen through what the sources observe of it: its type, whether it is null,
  its children, and its text. DuckDB's parser and executor are parameters; executing a statement
  maps a database state to a new one.
\<close>

section \<open>Values\<close>

datatype TypeId = T_BOOLEAN | T_TINYINT | T_SMALLINT | T_INTEGER | T_BIGINT | T_HUGEINT | T_UTINYINT | T_USMALLINT
  | T_UINTEGER | T_UBIGINT | T_DECIMAL | T_FLOAT | T_DOUBLE | T_VARCHAR | T_BLOB | T_LIST | T_STRUCT | T_MAP
  | T_VARIANT | T_UNKNOWN | T_OTHER nat

text \<open>
  \<open>Scalar t s\<close> is a value of type \<open>t\<close> whose text is \<open>s\<close>; a floating point value also says
  whether it is finite; a nested value carries its children and its text.
\<close>

datatype DuckValue =
    NullValue TypeId
  | BoolValue bool
  | Scalar TypeId string
  | FloatValue TypeId bool string
  | BlobValue string string
  | ListValue "DuckValue list" string
  | StructValue "(string \<times> DuckValue) list" string
  | VariantValue DuckValue string

fun IsNull :: "DuckValue \<Rightarrow> bool" where
  "IsNull (NullValue _) = True"
| "IsNull _ = False"

fun type_id :: "DuckValue \<Rightarrow> TypeId" where
  "type_id (NullValue t) = t"
| "type_id (BoolValue _) = T_BOOLEAN"
| "type_id (Scalar t _) = t"
| "type_id (FloatValue t _ _) = t"
| "type_id (BlobValue _ _) = T_BLOB"
| "type_id (ListValue _ _) = T_LIST"
| "type_id (StructValue _ _) = T_STRUCT"
| "type_id (VariantValue _ _) = T_VARIANT"

fun ToString :: "DuckValue \<Rightarrow> string" where
  "ToString (NullValue _) = ''NULL''"
| "ToString (BoolValue b) = (if b then ''true'' else ''false'')"
| "ToString (Scalar _ s) = s"
| "ToString (FloatValue _ _ s) = s"
| "ToString (BlobValue _ s) = s"
| "ToString (ListValue _ s) = s"
| "ToString (StructValue _ s) = s"
| "ToString (VariantValue _ s) = s"

definition numeric_id :: "TypeId \<Rightarrow> bool" where
  "numeric_id t = (t \<in> {T_TINYINT, T_SMALLINT, T_INTEGER, T_BIGINT, T_HUGEINT, T_UTINYINT, T_USMALLINT, T_UINTEGER,
     T_UBIGINT, T_DECIMAL})"

fun ValueToJson :: "DuckValue \<Rightarrow> string" where
  "ValueToJson (NullValue _) = ''null''"
| "ValueToJson (VariantValue v _) = ValueToJson v"
| "ValueToJson (BoolValue b) = (if b then ''true'' else ''false'')"
| "ValueToJson (Scalar t s) = (if numeric_id t then s else json_quote s)"
| "ValueToJson (FloatValue t fin s) = (if fin then s else ''null'')"
| "ValueToJson (ListValue children _) = ''['' @ comma_list (map ValueToJson children) @ '']''"
| "ValueToJson (StructValue children _) =
     ''{'' @ comma_list (map (\<lambda>m. json_quote (fst m) @ '':'' @ ValueToJson (snd m)) children) @ ''}''"
| "ValueToJson (BlobValue _ s) = json_quote s"

section \<open>Error bodies\<close>

definition ValidationLocJson :: "string \<Rightarrow> string \<Rightarrow> string" where
  "ValidationLocJson loc_kind param_name = ''['' @ json_quote loc_kind @ '','' @ json_quote param_name @ '']''"

definition detail_entry :: "string \<Rightarrow> string \<Rightarrow> string \<Rightarrow> string" where
  "detail_entry loc msg t =
     ''{'' @ json_member ''detail'' (''[{'' @ json_member ''loc'' loc @ '','' @ json_member ''msg'' (json_quote msg) @
       '','' @ json_member ''type'' (json_quote t) @ ''}]'') @ ''}''"

definition ValidationErrorJson :: "string \<Rightarrow> string \<Rightarrow> string \<Rightarrow> string \<Rightarrow> string" where
  "ValidationErrorJson loc_kind param_name msg t = detail_entry (ValidationLocJson loc_kind param_name) msg t"

definition ValidationErrorJsonBody :: "string \<Rightarrow> string \<Rightarrow> string" where
  "ValidationErrorJsonBody msg t = detail_entry (''['' @ json_quote ''body'' @ '']'') msg t"

definition PairsToJsonObject :: "multimap \<Rightarrow> string" where
  "PairsToJsonObject pairs =
     ''{'' @ comma_list (map (\<lambda>kv. json_quote (fst kv) @ '':'' @ json_quote (snd kv)) pairs) @ ''}''"

text \<open>The position of the first occurrence of a text, and of the first of some characters.\<close>

fun find_sub :: "string \<Rightarrow> string \<Rightarrow> nat option" where
  "find_sub pat [] = (if pat = [] then Some 0 else None)"
| "find_sub pat (c # s) = (if prefix pat (c # s) then Some 0 else map_option Suc (find_sub pat s))"

definition find_from :: "string \<Rightarrow> string \<Rightarrow> nat \<Rightarrow> nat option" where
  "find_from pat s i = map_option (\<lambda>k. i + k) (find_sub pat (drop i s))"

definition find_first_of :: "char set \<Rightarrow> string \<Rightarrow> nat \<Rightarrow> nat option" where
  "find_first_of cs s i =
     (let k = length (takeWhile (\<lambda>c. c \<notin> cs) (drop i s)) in if i + k < length s then Some (i + k) else None)"

text \<open>The JSON pointer a failure message of the schema extension names, if it has one.\<close>

definition schema_pointer :: "string_util \<Rightarrow> string \<Rightarrow> string \<Rightarrow> string option" where
  "schema_pointer U msg marker = (case find_from marker msg 0 of
     None \<Rightarrow> None
   | Some start_marker \<Rightarrow>
       let start = start_marker + length marker - 1;
           of_end = find_from '' of '' msg start;
           punctuation_end = find_first_of {CHR '':'', CHR 0x0A, CHR 0x0D} msg start;
           end_pos = (case (of_end, punctuation_end) of
               (None, _) \<Rightarrow> punctuation_end
             | (Some e, Some p) \<Rightarrow> if p < e then Some p else Some e
             | (Some e, None) \<Rightarrow> Some e);
           text = take ((case end_pos of None \<Rightarrow> length msg | Some e \<Rightarrow> e) - start) (drop start msg);
           trimmed = rev (dropWhile (su_space U) (rev text))
       in if trimmed \<noteq> [] then Some trimmed else None)"

definition ValidationErrorJsonSchema :: "string_util \<Rightarrow> string \<Rightarrow> string \<Rightarrow> string \<Rightarrow> string" where
  "ValidationErrorJsonSchema U msg t raw_body =
     (case (schema_pointer U msg ''At /'', schema_pointer U msg ''at /'') of
        (Some p, _) \<Rightarrow> QuackapiValidationErrorsJson
          [\<lparr>vi_loc_json = QuackapiValidationBodyPointerLoc p raw_body, vi_message = msg, vi_type = t\<rparr>]
      | (None, Some p) \<Rightarrow> QuackapiValidationErrorsJson
          [\<lparr>vi_loc_json = QuackapiValidationBodyPointerLoc p raw_body, vi_message = msg, vi_type = t\<rparr>]
      | (None, None) \<Rightarrow> ValidationErrorJson ''body'' ''_schema'' msg t)"

section \<open>Rows\<close>

type_synonym row = "DuckValue list"

definition json_pairs :: "(string \<times> DuckValue) list \<Rightarrow> string" where
  "json_pairs ps = ''{'' @ comma_list (map (\<lambda>p. json_quote (fst p) @ '':'' @ ValueToJson (snd p)) ps) @ ''}''"

definition RowJsonObject :: "string list \<Rightarrow> row \<Rightarrow> string" where
  "RowJsonObject names cols = json_pairs (zip names cols)"

definition SerializeRowJsonObject :: "string list \<Rightarrow> nat list \<Rightarrow> row \<Rightarrow> string" where
  "SerializeRowJsonObject names data_cols cols = json_pairs (map (\<lambda>col. (names ! col, cols ! col)) data_cols)"

definition SerializeRowsNdjson :: "string list \<Rightarrow> nat list \<Rightarrow> row list \<Rightarrow> string" where
  "SerializeRowsNdjson names data_cols rows =
     concat (map (\<lambda>cols. SerializeRowJsonObject names data_cols cols @ [CHR 0x0A]) rows)"

definition FormatSseEvent :: "string_util \<Rightarrow> string list \<Rightarrow> row \<Rightarrow> string" where
  "FormatSseEvent U names cols =
     (let id_col = length (takeWhile (\<lambda>n. su_lower U n \<noteq> ''id'') names);
          event = (if id_col < length cols \<and> \<not> IsNull (cols ! id_col) then ''id: '' @ ToString (cols ! id_col) @ [CHR 0x0A] else [])
      in event @ ''data: '' @ RowJsonObject names cols @ [CHR 0x0A, CHR 0x0A])"

definition csv_special :: "char \<Rightarrow> bool" where
  "csv_special c = (c = CHR 0x22 \<or> c = CHR '','' \<or> c = CHR 0x0A \<or> c = CHR 0x0D)"

definition CsvEscapeField :: "string \<Rightarrow> string" where
  "CsvEscapeField input =
     (if \<not> any csv_special input then input
      else [CHR 0x22] @ concat (map (\<lambda>c. if c = CHR 0x22 then [CHR 0x22, CHR 0x22] else [c]) input) @ [CHR 0x22])"

definition ValueToCsvCell :: "DuckValue \<Rightarrow> string" where
  "ValueToCsvCell v =
     (if IsNull v then []
      else if type_id v = T_LIST \<or> type_id v = T_STRUCT \<or> type_id v = T_MAP then ValueToJson v
      else ToString v)"

definition csv_line :: "string list \<Rightarrow> string" where
  "csv_line cells = comma_list (map CsvEscapeField cells) @ [CHR 0x0A]"

definition csv_cells :: "nat list \<Rightarrow> row \<Rightarrow> string list" where
  "csv_cells data_cols cols = map (\<lambda>col. if col < length cols then ValueToCsvCell (cols ! col) else []) data_cols"

definition SerializeRowsCsv :: "string list \<Rightarrow> nat list \<Rightarrow> row list \<Rightarrow> string" where
  "SerializeRowsCsv names data_cols rows =
     csv_line (map (\<lambda>col. names ! col) data_cols) @ concat (map (\<lambda>cols. csv_line (csv_cells data_cols cols)) rows)"

definition EmptyResultBody :: "'v QuackapiRoute \<Rightarrow> string" where
  "EmptyResultBody route =
     (if rt_empty_body route \<noteq> [] then rt_empty_body route else ''{'' @ json_member ''detail'' (json_quote ''Not Found'') @ ''}'')"

section \<open>Special columns\<close>

definition IsSpecialResponseColumn :: "string_util \<Rightarrow> string \<Rightarrow> bool" where
  "IsSpecialResponseColumn U name =
     (let lower = su_lower U name in lower = ''location'' \<or> lower = ''set_cookie'' \<or> lower = ''set-cookie'')"

record result_cols =
  rc_data :: "nat list"
  rc_location :: nat
  rc_set_cookie :: nat

text \<open>The scan of the column names: the last column of each special name counts.\<close>

fun scan_result_cols :: "string_util \<Rightarrow> nat \<Rightarrow> string list \<Rightarrow> result_cols \<Rightarrow> result_cols" where
  "scan_result_cols U c [] rc = rc"
| "scan_result_cols U c (name # names) rc =
     scan_result_cols U (Suc c) names
       (let lower = su_lower U name
        in if lower = ''location'' then rc\<lparr>rc_location := c\<rparr>
           else if lower = ''set_cookie'' \<or> lower = ''set-cookie'' then rc\<lparr>rc_set_cookie := c\<rparr>
           else rc\<lparr>rc_data := rc_data rc @ [c]\<rparr>)"

definition result_columns :: "string_util \<Rightarrow> string list \<Rightarrow> result_cols" where
  "result_columns U names =
     scan_result_cols U 0 names \<lparr>rc_data = [], rc_location = length names, rc_set_cookie = length names\<rparr>"

definition cell_text :: "nat \<Rightarrow> row \<Rightarrow> string option" where
  "cell_text col cols = (if col < length cols \<and> \<not> IsNull (cols ! col) then Some (ToString (cols ! col)) else None)"

section \<open>Running an exec route's SQL\<close>

record QuackapiExecResponse =
  ex_status :: int
  ex_body :: string
  ex_headers :: "(string \<times> string) list"
  ex_rows :: nat
  ex_typed :: "row list option"

definition new_exec_response :: QuackapiExecResponse where
  "new_exec_response = \<lparr>ex_status = 200, ex_body = [], ex_headers = [], ex_rows = 0, ex_typed = None\<rparr>"

definition ExecJsonResponse :: "int \<Rightarrow> string \<Rightarrow> QuackapiExecResponse" where
  "ExecJsonResponse status body =
     new_exec_response\<lparr>ex_status := status, ex_body := body, ex_headers := [(''Content-Type'', ''application/json'')]\<rparr>"

definition detail_json :: "string \<Rightarrow> string" where
  "detail_json msg = ''{'' @ json_member ''detail'' (json_quote msg) @ ''}''"

definition QuackapiExecTimeoutResponse :: QuackapiExecResponse where
  "QuackapiExecTimeoutResponse = ExecJsonResponse 504 (detail_json ''Query execution deadline exceeded'')"

definition QuackapiExecPolicyDeniedResponse :: QuackapiExecResponse where
  "QuackapiExecPolicyDeniedResponse = ExecJsonResponse 403 (detail_json ''Policy denies unauthenticated access'')"

definition QuackapiExecErrorResponse :: "string \<Rightarrow> QuackapiExecResponse" where
  "QuackapiExecErrorResponse error = ExecJsonResponse 422 (ValidationErrorJson ''body'' ''sql'' error ''value_error'')"

definition too_large_response :: QuackapiExecResponse where
  "too_large_response = ExecJsonResponse 507 (detail_json ''Response exceeds configured byte limit'')"

text \<open>
  A finished query: its column names, the rows it delivers, and the message of the exception its
  fetch throws after them, if any.
\<close>

record 't exec_result =
  er_names :: "string list"
  er_types :: "'t list"
  er_rows :: "row list"
  er_throws :: "string option"

record exec_state =
  xs_body :: string
  xs_headers :: "(string \<times> string) list"
  xs_rows :: nat
  xs_location :: string
  xs_typed :: "DuckValue QuackapiTypedRowCollector option"

definition append_typed :: "DuckValue native_serializer \<Rightarrow> row \<Rightarrow> exec_state \<Rightarrow> exec_state result" where
  "append_typed S cols st = (case xs_typed st of
     None \<Rightarrow> Inr st
   | Some c \<Rightarrow> (case AppendRow S cols c of Inl e \<Rightarrow> Inl e | Inr c' \<Rightarrow> Inr (st\<lparr>xs_typed := Some c'\<rparr>)))"

text \<open>What a row adds after its body: the first location, its cookie, the count.\<close>

definition exec_row_end :: "result_cols \<Rightarrow> row \<Rightarrow> exec_state \<Rightarrow> exec_state" where
  "exec_row_end rc cols st =
     (let st1 = (case cell_text (rc_location rc) cols of
            Some l \<Rightarrow> if xs_location st = [] then st\<lparr>xs_location := l\<rparr> else st | None \<Rightarrow> st);
          st2 = (case cell_text (rc_set_cookie rc) cols of
            Some v \<Rightarrow> st1\<lparr>xs_headers := xs_headers st1 @ [(''Set-Cookie'', v)]\<rparr> | None \<Rightarrow> st1)
      in st2\<lparr>xs_rows := xs_rows st2 + 1\<rparr>)"

text \<open>
  The loop over the rows: \<open>Inr st\<close> when all rows have been taken, \<open>Inl (Inr r)\<close> for an early
  return of the response \<open>r\<close>, \<open>Inl (Inl e)\<close> for an exception of the row collector.
\<close>

fun exec_rows :: "DuckValue native_serializer \<Rightarrow> string list \<Rightarrow> result_cols \<Rightarrow> bool \<Rightarrow> nat \<Rightarrow> row list \<Rightarrow> exec_state
    \<Rightarrow> (exn + QuackapiExecResponse) + exec_state" where
  "exec_rows S names rc json max_bytes [] st = Inr st"
| "exec_rows S names rc json max_bytes (cols # rows) st = (case append_typed S cols st of
     Inl e \<Rightarrow> Inl (Inl e)
   | Inr st1 \<Rightarrow>
       let encoded = SerializeRowJsonObject names (rc_data rc) cols
       in if json \<and> length (xs_body st1) + length encoded + (if xs_rows st1 \<noteq> 0 then 1 else 0) + 1 > max_bytes
          then Inl (Inr too_large_response)
          else let st2 = (if json then
                 st1\<lparr>xs_body := xs_body st1 @ (if xs_rows st1 \<noteq> 0 then '','' else []) @ encoded\<rparr>
               else if rc_data rc \<noteq> [] \<and> \<not> IsNull (cols ! hd (rc_data rc)) then
                 st1\<lparr>xs_body := xs_body st1 @ ToString (cols ! hd (rc_data rc))\<rparr>
               else st1);
               st3 = exec_row_end rc cols st2
             in if length (xs_body st3) > max_bytes then Inl (Inr too_large_response)
                else exec_rows S names rc json max_bytes rows st3)"

definition cap_response :: "nat \<Rightarrow> QuackapiExecResponse \<Rightarrow> QuackapiExecResponse" where
  "cap_response max_bytes out = (if length (ex_body out) > max_bytes then too_large_response else out)"

text \<open>\<open>what\<close> is the message of an exception.\<close>

definition QuackapiExecResult :: "string_util \<Rightarrow> DuckValue native_serializer \<Rightarrow> (exn \<Rightarrow> string) \<Rightarrow> 't exec_result \<Rightarrow> nat \<Rightarrow> bool
    \<Rightarrow> QuackapiExecResponse" where
  "QuackapiExecResult U S what result max_response_bytes collect_typed_rows =
     (let names = er_names result;
          internal = (\<lambda>msg. cap_response max_response_bytes (ExecJsonResponse 500 (detail_json msg)));
          thrown = (\<lambda>e. if e = rows_too_large
             then ExecJsonResponse 507 (detail_json ''Native typed rows exceed configured byte limit'')
             else internal (what e))
      in case (if collect_typed_rows then map_sum id Some (new_collector S names (er_types result) (of_nat max_response_bytes))
               else Inr None) of
           Inl e \<Rightarrow> thrown e
         | Inr typed0 \<Rightarrow>
         let rc = result_columns U names;
             mode = ResponseModeFor U (map (\<lambda>c. names ! c) (rc_data rc));
             json = (mode = MODE_JSON \<and> rc_data rc \<noteq> []);
             headers = (if json then [(''Content-Type'', ''application/json'')]
               else if rc_data rc \<noteq> [] then
                 [(''Content-Type'', if mode = MODE_HTML then ''text/html; charset=utf-8'' else ''text/plain; charset=utf-8'')]
               else []);
             st0 = \<lparr>xs_body = (if json then ''['' else []), xs_headers = headers, xs_rows = 0, xs_location = [], xs_typed = typed0\<rparr>
         in case exec_rows S names rc json max_response_bytes (er_rows result) st0 of
              Inl (Inl e) \<Rightarrow> thrown e
            | Inl (Inr r) \<Rightarrow> r
            | Inr st \<Rightarrow> (case er_throws result of
                Some msg \<Rightarrow> internal msg
              | None \<Rightarrow>
                  let out = (if json then new_exec_response\<lparr>ex_body := xs_body st @ '']'', ex_headers := xs_headers st, ex_rows := xs_rows st\<rparr>
                             else if names = [] then ExecJsonResponse 200 ''[]''
                             else new_exec_response\<lparr>ex_body := xs_body st, ex_headers := xs_headers st, ex_rows := xs_rows st\<rparr>)
                  in case (case xs_typed st of None \<Rightarrow> Inr None | Some c \<Rightarrow> map_sum id Some (Finish S c)) of
                       Inl e \<Rightarrow> thrown e
                     | Inr t \<Rightarrow> cap_response max_response_bytes
                         (out\<lparr>ex_typed := t, ex_headers := ex_headers out @
                           (if xs_location st \<noteq> [] then [(''Location'', xs_location st)] else [])\<rparr>)))"

text \<open>
  The batch: \<open>extract\<close> is the parser (\<open>Inl\<close> its error), \<open>run\<close> executes one statement on the
  connection, \<open>stop i\<close> is the answer of the cancellation check before statement \<open>i\<close>.
\<close>

fun run_statements :: "('db \<Rightarrow> 'stmt \<Rightarrow> 'db \<times> (string + 'r)) \<Rightarrow> (nat \<Rightarrow> bool) \<Rightarrow> nat \<Rightarrow> nat \<Rightarrow> 'stmt list \<Rightarrow> 'r option \<Rightarrow> 'db
    \<Rightarrow> 'db \<times> (string + 'r option)" where
  "run_statements run stop count i [] result db = (db, Inr result)"
| "run_statements run stop count i (s # ss) result db =
     (if stop i then
        (db, Inl (''Statement '' @ nat_string (i + 1) @ '' of '' @ nat_string count @ '' not run: the call was cancelled''))
      else case run db s of
        (db', Inl err) \<Rightarrow> (db', Inl (if count > 1
           then ''Statement '' @ nat_string (i + 1) @ '' of '' @ nat_string count @ '' failed: '' @ err else err))
      | (db', Inr r) \<Rightarrow> run_statements run stop count (i + 1) ss (Some r) db')"

definition ExecuteRequestSql :: "(string \<Rightarrow> string + 'stmt list) \<Rightarrow> ('db \<Rightarrow> 'stmt \<Rightarrow> 'db \<times> (string + 'r)) \<Rightarrow> (nat \<Rightarrow> bool)
    \<Rightarrow> string \<Rightarrow> 'db \<Rightarrow> 'db \<times> (string + 'r option)" where
  "ExecuteRequestSql extract run stop sql db =
     (if CHR 0x00 \<in> set sql then (db, Inl ''SQL text must not contain null bytes'')
      else case extract sql of
        Inl err \<Rightarrow> (db, Inl err)
      | Inr statements \<Rightarrow>
          if statements = [] then (db, Inl ''No statement to execute'')
          else run_statements run stop (length statements) 0 statements None db)"

text \<open>
  \<open>expired\<close> holds the two readings of the deadline after the batch: after a failure, and at the
  end.
\<close>

definition QuackapiExecSql :: "string_util \<Rightarrow> DuckValue native_serializer \<Rightarrow> (exn \<Rightarrow> string) \<Rightarrow> (string \<Rightarrow> string + 'stmt list)
    \<Rightarrow> ('db \<Rightarrow> 'stmt \<Rightarrow> 'db \<times> (string + 't exec_result)) \<Rightarrow> (nat \<Rightarrow> bool) \<Rightarrow> bool \<times> bool \<Rightarrow> string \<Rightarrow> nat \<Rightarrow> string \<Rightarrow> string \<Rightarrow> bool
    \<Rightarrow> 'db \<Rightarrow> 'db \<times> QuackapiExecResponse" where
  "QuackapiExecSql U S what extract run stop expired sql max_response_bytes loc param collect_typed_rows db =
     (case ExecuteRequestSql extract run stop sql db of
        (db', outcome) \<Rightarrow>
          let out = (case outcome of
              Inl err \<Rightarrow> if fst expired then QuackapiExecTimeoutResponse
                else ExecJsonResponse 422 (ValidationErrorJson loc param err ''value_error'')
            | Inr None \<Rightarrow> new_exec_response
            | Inr (Some r) \<Rightarrow> QuackapiExecResult U S what r max_response_bytes collect_typed_rows)
          in (db', if snd expired then QuackapiExecTimeoutResponse
                   else if length (ex_body out) > max_response_bytes then too_large_response
                   else out))"

definition IsPlainExecRoute :: "string_util \<Rightarrow> 'v QuackapiRoute \<Rightarrow> BodyFormat \<Rightarrow> bool" where
  "IsPlainExecRoute U route body_format =
     (let envelope = su_lower U (rt_response_envelope route)
      in rt_status route = 200 \<and> rt_empty_status route = 0 \<and> (envelope = [] \<or> envelope = ''array'') \<and>
         body_format = FORMAT_JSON)"

fun exec_headers :: "string_util \<Rightarrow> (string \<times> string) list \<Rightarrow> string \<Rightarrow> Response \<Rightarrow> string \<times> Response" where
  "exec_headers U [] content_type res = (content_type, res)"
| "exec_headers U (h # hs) content_type res =
     (if su_ci_equals U (fst h) ''Content-Type'' then exec_headers U hs (snd h) res
      else exec_headers U hs content_type (set_header (fst h) (snd h) res))"

definition ApplyExecResponse :: "string_util \<Rightarrow> QuackapiExecResponse \<Rightarrow> Response \<Rightarrow> Response" where
  "ApplyExecResponse U response res =
     (case exec_headers U (ex_headers response) [] (res\<lparr>rs_status := ex_status response\<rparr>) of
        (content_type, res1) \<Rightarrow>
          if content_type = [] then res1\<lparr>rs_body := []\<rparr> else set_content (ex_body response) content_type res1)"

section \<open>Values as JSON\<close>

fun wf_value :: "DuckValue \<Rightarrow> bool" where
  "wf_value (Scalar t s) = (numeric_id t \<longrightarrow> number_text s)"
| "wf_value (FloatValue t fin s) = (fin \<longrightarrow> number_text s)"
| "wf_value (ListValue children _) = (\<forall>c \<in> set children. wf_value c)"
| "wf_value (StructValue children _) = (\<forall>m \<in> set children. wf_value (snd m))"
| "wf_value (VariantValue v _) = wf_value v"
| "wf_value _ = True"

fun value_fits :: "nat \<Rightarrow> DuckValue \<Rightarrow> bool" where
  "value_fits n (ListValue children _) = (0 < n \<and> (\<forall>c \<in> set children. value_fits (n - 1) c))"
| "value_fits n (StructValue children _) = (0 < n \<and> (\<forall>m \<in> set children. value_fits (n - 1) (snd m)))"
| "value_fits n (VariantValue v _) = value_fits n v"
| "value_fits n _ = True"

fun value_node :: "DuckValue \<Rightarrow> JsonNode" where
  "value_node (NullValue _) = JsonNode NIL [] [] []"
| "value_node (VariantValue v _) = value_node v"
| "value_node (BoolValue b) = JsonNode BOOL [] [] []"
| "value_node (Scalar t s) = (if numeric_id t then JsonNode NUMBER s [] [] else JsonNode STRING s [] [])"
| "value_node (FloatValue t fin s) = (if fin then JsonNode NUMBER s [] [] else JsonNode NIL [] [] [])"
| "value_node (ListValue children _) = JsonNode ARRAY [] (map value_node children) []"
| "value_node (StructValue children _) = JsonNode OBJECT [] [] (map (\<lambda>m. (fst m, value_node (snd m))) children)"
| "value_node (BlobValue _ s) = JsonNode STRING s [] []"

lemma reads_number_text: "number_text s \<Longrightarrow> reads_as n s (JsonNode NUMBER s [] [])"
  using reads_number [of "hd s" "tl s" n] by (cases s) (auto simp: number_text_def)

lemma reads_pairs:
  assumes "\<And>p. p \<in> set ps \<Longrightarrow> reads_as n (t p) (node p)"
  shows "reads_as (Suc n) (''{'' @ comma_list (map (\<lambda>p. json_quote (fst p) @ '':'' @ t p) ps) @ ''}'')
    (JsonNode OBJECT [] [] (map (\<lambda>p. (fst p, node p)) ps))"
  using reads_object [of "map (\<lambda>p. (fst p, t p, node p)) ps" n] assms
  by (simp add: member_text_def member_node_def comp_def split_def)

lemma value_json_reads:
  "wf_value v \<Longrightarrow> value_fits n v \<Longrightarrow> reads_as n (ValueToJson v) (value_node v)"
proof (induction v arbitrary: n rule: ValueToJson.induct)
  case (6 children t)
  then obtain m where m: "n = Suc m" by (cases n) auto
  have "list_all2 (reads_as m) (map ValueToJson children) (map value_node children)"
    using 6 m by (auto simp: list_all2_conv_all_nth)
  then show ?case using m reads_array by simp
next
  case (7 children t)
  then obtain m where m: "n = Suc m" by (cases n) auto
  have "reads_as (Suc m) (''{'' @ comma_list (map (\<lambda>p. json_quote (fst p) @ '':'' @ ValueToJson (snd p)) children) @ ''}'')
    (JsonNode OBJECT [] [] (map (\<lambda>p. (fst p, value_node (snd p))) children))"
    by (rule reads_pairs) (use 7 m in \<open>auto simp: snds.simps\<close>)
  then show ?case using m by simp
qed (auto simp: reads_null reads_true reads_false reads_string reads_number_text)

definition row_node :: "string list \<Rightarrow> nat list \<Rightarrow> row \<Rightarrow> JsonNode" where
  "row_node names data_cols cols = JsonNode OBJECT [] [] (map (\<lambda>col. (names ! col, value_node (cols ! col))) data_cols)"

definition row_ok :: "nat list \<Rightarrow> row \<Rightarrow> bool" where
  "row_ok data_cols cols = (\<forall>col \<in> set data_cols. wf_value (cols ! col) \<and> value_fits 126 (cols ! col))"

lemma row_json_reads:
  assumes "row_ok data_cols cols"
  shows "reads_as 127 (SerializeRowJsonObject names data_cols cols) (row_node names data_cols cols)"
proof -
  let ?ps = "map (\<lambda>col. (names ! col, cols ! col)) data_cols"
  have "reads_as (Suc 126) (''{'' @ comma_list (map (\<lambda>p. json_quote (fst p) @ '':'' @ ValueToJson (snd p)) ?ps) @ ''}'')
    (JsonNode OBJECT [] [] (map (\<lambda>p. (fst p, value_node (snd p))) ?ps))"
    by (rule reads_pairs) (use assms in \<open>auto simp: row_ok_def intro: value_json_reads\<close>)
  then show ?thesis by (simp add: SerializeRowJsonObject_def json_pairs_def row_node_def comp_def)
qed

section \<open>Properties of exec responses\<close>

lemma exec_row_end_sel [simp]:
  "xs_body (exec_row_end rc cols st) = xs_body st" "xs_rows (exec_row_end rc cols st) = xs_rows st + 1"
  "xs_typed (exec_row_end rc cols st) = xs_typed st"
  by (auto simp: exec_row_end_def Let_def split: option.splits)

definition json_rows :: "string list \<Rightarrow> nat list \<Rightarrow> row list \<Rightarrow> string" where
  "json_rows names data_cols rows = ''['' @ comma_list (map (SerializeRowJsonObject names data_cols) rows)"

lemma comma_list_snoc: "comma_list (xs @ [x]) = comma_list xs @ (if xs \<noteq> [] then '','' else []) @ x"
  by (induction xs rule: comma_list.induct) auto

lemma exec_rows_json:
  assumes "exec_rows S names rc True max_bytes rows st = Inr st'" "xs_typed st = None"
    "xs_body st = json_rows names (rc_data rc) done" "xs_rows st = length done"
  shows "xs_body st' = json_rows names (rc_data rc) (done @ rows) \<and> xs_rows st' = length (done @ rows) \<and> xs_typed st' = None"
  using assms
proof (induction rows arbitrary: st "done")
  case (Cons cols rows)
  let ?enc = "SerializeRowJsonObject names (rc_data rc) cols"
  let ?st2 = "st\<lparr>xs_body := xs_body st @ (if xs_rows st \<noteq> 0 then '','' else []) @ ?enc\<rparr>"
  have t: "append_typed S cols st = Inr st" using Cons.prems(2) by (simp add: append_typed_def)
  have next_rows: "exec_rows S names rc True max_bytes rows (exec_row_end rc cols ?st2) = Inr st'"
    using Cons.prems(1) by (simp add: t Let_def split: if_splits)
  have "xs_body (exec_row_end rc cols ?st2) = json_rows names (rc_data rc) (done @ [cols])"
    using Cons.prems(3,4) by (auto simp: json_rows_def comma_list_snoc)
  then show ?case using Cons.IH [OF next_rows, of "done @ [cols]"] Cons.prems(2,4) by simp
qed simp

lemma exec_rows_no_exn: "xs_typed st = None \<Longrightarrow> exec_rows S names rc json max_bytes rows st \<noteq> Inl (Inl e)"
proof (induction rows arbitrary: st)
  case (Cons cols rows)
  then have "append_typed S cols st = Inr st" by (simp add: append_typed_def)
  with Cons show ?case by (simp add: Let_def)
qed simp

lemma too_large_status [simp]: "ex_status too_large_response = 507" "ex_status (ExecJsonResponse n b) = n"
  by (simp_all add: too_large_response_def ExecJsonResponse_def)

lemma exec_rows_early: "exec_rows S names rc json max_bytes rows st = Inl (Inr q) \<Longrightarrow> ex_status q = 507"
  by (induction rows arbitrary: st) (auto simp: Let_def split: sum.splits if_splits)

definition json_result :: "string_util \<Rightarrow> 't exec_result \<Rightarrow> bool" where
  "json_result U r = (rc_data (result_columns U (er_names r)) \<noteq> [] \<and>
     ResponseModeFor U (map (\<lambda>c. er_names r ! c) (rc_data (result_columns U (er_names r)))) = MODE_JSON)"

lemma exec_result_json:
  assumes "json_result U r" and "ex_status (QuackapiExecResult U S what r max_bytes False) = 200"
  shows "ex_body (QuackapiExecResult U S what r max_bytes False) =
      json_rows (er_names r) (rc_data (result_columns U (er_names r))) (er_rows r) @ '']'' \<and>
    ex_rows (QuackapiExecResult U S what r max_bytes False) = length (er_rows r) \<and>
    length (ex_body (QuackapiExecResult U S what r max_bytes False)) \<le> max_bytes"
proof -
  let ?rc = "result_columns U (er_names r)"
  let ?st0 = "\<lparr>xs_body = ''['', xs_headers = [(''Content-Type'', ''application/json'')], xs_rows = 0, xs_location = [],
    xs_typed = None :: DuckValue QuackapiTypedRowCollector option\<rparr>"
  have j: "(ResponseModeFor U (map (\<lambda>c. er_names r ! c) (rc_data ?rc)) = MODE_JSON \<and> rc_data ?rc \<noteq> []) = True"
    using assms(1) by (simp add: json_result_def)
  note d = QuackapiExecResult_def [of U S what r max_bytes False, unfolded Let_def j, simplified]
  consider (run) st' where "exec_rows S (er_names r) ?rc True max_bytes (er_rows r) ?st0 = Inr st'"
    | (ret) q where "exec_rows S (er_names r) ?rc True max_bytes (er_rows r) ?st0 = Inl (Inr q)"
    using exec_rows_no_exn [of ?st0 S "er_names r" ?rc True max_bytes "er_rows r"]
    by (metis exec_state.select_convs(5) sum.exhaust)
  then show ?thesis
  proof cases
    case run
    have b: "xs_body st' = json_rows (er_names r) (rc_data ?rc) (er_rows r)" "xs_rows st' = length (er_rows r)" "xs_typed st' = None"
      using exec_rows_json [OF run, of "[]"] by (simp_all add: json_rows_def)
    show ?thesis
      using assms(2) b run by (auto simp: d cap_response_def new_exec_response_def split: option.splits if_splits)
  next
    case ret
    then show ?thesis using assms(2) exec_rows_early [OF ret] by (simp add: d)
  qed
qed

lemma json_rows_document:
  assumes "\<forall>cols \<in> set rows. row_ok data_cols cols"
  shows "ParseDocument (json_rows names data_cols rows @ '']'') = Some (JsonNode ARRAY [] (map (row_node names data_cols) rows) [])"
proof -
  have "list_all2 (reads_as 127) (map (SerializeRowJsonObject names data_cols) rows) (map (row_node names data_cols) rows)"
    using assms row_json_reads by (auto simp: list_all2_conv_all_nth)
  from reads_array [OF this] have "reads_as MAX_NESTING_DEPTH (json_rows names data_cols rows @ '']'')
      (JsonNode ARRAY [] (map (row_node names data_cols) rows) [])"
    by (simp add: json_rows_def MAX_NESTING_DEPTH_def)
  then show ?thesis by (rule reads_as_document)
qed

text \<open>
  When an exec route's result has data columns and is answered with success, the body is a JSON
  document: an array with one object per row, in order, each with the data columns under their
  names; and it keeps within the configured number of bytes.
\<close>

theorem exec_body_json:
  assumes "json_result U r" and "ex_status (QuackapiExecResult U S what r max_bytes False) = 200"
    and "\<forall>cols \<in> set (er_rows r). row_ok (rc_data (result_columns U (er_names r))) cols"
  shows "ParseDocument (ex_body (QuackapiExecResult U S what r max_bytes False)) =
      Some (JsonNode ARRAY [] (map (row_node (er_names r) (rc_data (result_columns U (er_names r)))) (er_rows r)) []) \<and>
    length (ex_body (QuackapiExecResult U S what r max_bytes False)) \<le> max_bytes"
  using exec_result_json [OF assms(1,2)] json_rows_document [OF assms(3)] by metis

definition example_result :: "nat exec_result" where
  "example_result = \<lparr>er_names = [''id'', ''Location'', ''name''], er_types = [0, 1, 1],
     er_rows = [[Scalar T_INTEGER ''7'', Scalar T_VARCHAR ''/items/7'', Scalar T_VARCHAR ''duck''],
       [Scalar T_INTEGER ''8'', NullValue T_VARCHAR, NullValue T_VARCHAR]], er_throws = None\<rparr>"

definition no_serializer :: "DuckValue native_serializer" where
  "no_serializer = \<lparr>ns_rows = (\<lambda>_. 0), ns_result = (\<lambda>_. 0), ns_count = (\<lambda>_. 0)\<rparr>"

lemma example_result_ok:
  "json_result ascii_util example_result"
  "ex_status (QuackapiExecResult ascii_util no_serializer (\<lambda>_. []) example_result 100 False) = 200"
  "\<forall>cols \<in> set (er_rows example_result). row_ok (rc_data (result_columns ascii_util (er_names example_result))) cols"
  by code_simp+

theorem exec_body_json_witness:
  "ParseDocument (ex_body (QuackapiExecResult ascii_util no_serializer (\<lambda>_. []) example_result 100 False)) =
    Some (JsonNode ARRAY [] (map (row_node (er_names example_result) (rc_data (result_columns ascii_util (er_names example_result))))
      (er_rows example_result)) [])"
  using exec_body_json [OF example_result_ok] by simp

section \<open>Properties of a batch\<close>

definition executed :: "('db \<Rightarrow> 'stmt \<Rightarrow> 'db \<times> (string + 'r)) \<Rightarrow> 'stmt list \<Rightarrow> 'db \<Rightarrow> 'db" where
  "executed run ss db = fold (\<lambda>s db. fst (run db s)) ss db"

fun all_succeed :: "('db \<Rightarrow> 'stmt \<Rightarrow> 'db \<times> (string + 'r)) \<Rightarrow> 'stmt list \<Rightarrow> 'db \<Rightarrow> bool" where
  "all_succeed run [] db = True"
| "all_succeed run (s # ss) db = ((\<exists>r. snd (run db s) = Inr r) \<and> all_succeed run ss (fst (run db s)))"

lemma run_statements_prefix:
  assumes "run_statements run stop count i ss result db = (db', outcome)"
  shows "\<exists>k \<le> length ss. db' = executed run (take k ss) db \<and> (\<forall>j < k. \<not> stop (i + j)) \<and> all_succeed run (take (k - 1) ss) db \<and>
    ((\<exists>r. outcome = Inr r) \<longleftrightarrow> k = length ss \<and> all_succeed run ss db)"
  using assms
proof (induction ss arbitrary: i result db)
  case Nil
  then show ?case by (auto simp: executed_def)
next
  case (Cons s ss)
  show ?case
  proof (cases "stop i")
    case True
    with Cons.prems show ?thesis by (intro exI [of _ 0]) (auto simp: executed_def)
  next
    case False
    obtain db1 out where r: "run db s = (db1, out)" by fastforce
    show ?thesis
    proof (cases out)
      case (Inl err)
      with Cons.prems False r show ?thesis by (intro exI [of _ 1]) (auto simp: executed_def)
    next
      case (Inr x)
      with Cons.prems False r have "run_statements run stop count (i + 1) ss (Some x) db1 = (db', outcome)" by simp
      from Cons.IH [OF this] obtain k where k: "k \<le> length ss" "db' = executed run (take k ss) db1"
        "\<forall>j < k. \<not> stop (i + 1 + j)" "all_succeed run (take (k - 1) ss) db1"
        "(\<exists>r. outcome = Inr r) \<longleftrightarrow> k = length ss \<and> all_succeed run ss db1" by blast
      have "\<forall>j < Suc k. \<not> stop (i + j)"
        using k(3) False by (metis add_0_right add_Suc_shift add.commute less_Suc_eq_0_disj plus_1_eq_Suc)
      moreover have "all_succeed run (take k (s # ss)) db" using k(4) r Inr by (cases k) auto
      ultimately show ?thesis using k(1,2,5) r Inr by (intro exI [of _ "Suc k"]) (auto simp: executed_def)
    qed
  qed
qed

text \<open>
  C27. Of a batch of statements a prefix is executed, in order: every statement of it but possibly
  its last succeeded, none of them was preceded by a cancelled check, the statements after it
  leave no trace in the database, and the batch succeeds exactly when all its statements did.
\<close>

theorem exec_batch_prefix:
  assumes "extract sql = Inr stmts" and "stmts \<noteq> []" and "CHR 0x00 \<notin> set sql"
    and "ExecuteRequestSql extract run stop sql db = (db', outcome)"
  shows "\<exists>k \<le> length stmts. db' = executed run (take k stmts) db \<and> (\<forall>j < k. \<not> stop j) \<and>
    all_succeed run (take (k - 1) stmts) db \<and>
    ((\<exists>r. outcome = Inr r) \<longleftrightarrow> k = length stmts \<and> all_succeed run stmts db)"
  using assms run_statements_prefix [of run stop "length stmts" 0 stmts None db db' outcome]
  by (simp add: ExecuteRequestSql_def)

text \<open>A database that is the list of the statements run on it; \<open>fail\<close> fails after running.\<close>

definition log_run :: "string list \<Rightarrow> string \<Rightarrow> string list \<times> (string + unit)" where
  "log_run db s = (db @ [s], if s = ''fail'' then Inl ''failed'' else Inr ())"

definition log_extract :: "string \<Rightarrow> string + string list" where
  "log_extract sql = Inr (getline_fields (CHR '';'') [] sql)"

lemma log_batch: "ExecuteRequestSql log_extract log_run (\<lambda>_. False) ''a;fail;b'' [] =
    ([''a'', ''fail''], Inl ''Statement 2 of 3 failed: failed'')"
  by (simp add: ExecuteRequestSql_def log_extract_def log_run_def nat_string.simps char_of_def bit_0)

theorem exec_batch_prefix_witness:
  "\<exists>k \<le> 3. [''a'', ''fail''] = executed log_run (take k [''a'', ''fail'', ''b'']) [] \<and>
     all_succeed log_run (take (k - 1) [''a'', ''fail'', ''b'']) []"
proof -
  have e: "log_extract ''a;fail;b'' = Inr [''a'', ''fail'', ''b'']" by (simp add: log_extract_def)
  have len: "length [''a'', ''fail'', ''b''] = 3" by simp
  show ?thesis using exec_batch_prefix [OF e _ _ log_batch] unfolding len by (auto simp del: One_nat_def)
qed

section \<open>CSV\<close>

text \<open>A reader of CSV: quoted fields with doubled quotes, plain fields up to a comma or a line end.\<close>

fun csv_quoted :: "string \<Rightarrow> (string \<times> string) option" where
  "csv_quoted [] = None"
| "csv_quoted (c # s) =
     (if c = CHR 0x22 then
        (case s of d # s' \<Rightarrow> if d = CHR 0x22 then map_option (\<lambda>(f, r). (CHR 0x22 # f, r)) (csv_quoted s') else Some ([], s)
         | [] \<Rightarrow> Some ([], []))
      else map_option (\<lambda>(f, r). (c # f, r)) (csv_quoted s))"

definition csv_plain :: "char \<Rightarrow> bool" where
  "csv_plain c = (c \<noteq> CHR '','' \<and> c \<noteq> CHR 0x0A)"

definition csv_field :: "string \<Rightarrow> (string \<times> string) option" where
  "csv_field s = (if s \<noteq> [] \<and> hd s = CHR 0x22 then csv_quoted (tl s) else Some (takeWhile csv_plain s, dropWhile csv_plain s))"

lemma csv_quoted_length: "csv_quoted s = Some (f, r) \<Longrightarrow> length r \<le> length s"
proof (induction s arbitrary: f rule: csv_quoted.induct)
  case (2 c s)
  then show ?case by (fastforce split: if_splits list.splits)
qed simp

lemma csv_field_length: "csv_field s = Some (f, r) \<Longrightarrow> length r \<le> length s"
  using length_dropWhile_le [of csv_plain s]
  by (auto simp: csv_field_def dest!: csv_quoted_length split: if_splits)

function csv_record :: "string \<Rightarrow> (string list \<times> string) option" where
  "csv_record s = (case csv_field s of
     None \<Rightarrow> None
   | Some (f, rest) \<Rightarrow> (case rest of
       [] \<Rightarrow> Some ([f], [])
     | c # r \<Rightarrow> if c = CHR '','' then map_option (\<lambda>(fs, q). (f # fs, q)) (csv_record r)
         else if c = CHR 0x0A then Some ([f], r) else None))"
  by pat_completeness auto
termination
  by (relation "measure length") (auto dest: csv_field_length)

declare csv_record.simps [simp del]

lemma csv_record_length: "csv_record s = Some (fs, r) \<Longrightarrow> r = [] \<or> length r < length s"
proof (induction "length s" arbitrary: s fs rule: less_induct)
  case less
  obtain f rest where f: "csv_field s = Some (f, rest)" "length rest \<le> length s"
    using less.prems by (auto simp: csv_record.simps [of s] dest: csv_field_length split: option.splits)
  show ?case
  proof (cases rest)
    case Nil
    with less.prems f show ?thesis by (simp add: csv_record.simps [of s])
  next
    case (Cons c q)
    show ?thesis
    proof (cases "c = CHR '',''")
      case True
      with less.prems f(1) Cons obtain gs where "csv_record q = Some (gs, r)" by (auto simp: csv_record.simps [of s])
      then show ?thesis using less.hyps [of q gs] f(2) Cons by auto
    next
      case False
      with less.prems f Cons show ?thesis by (auto simp: csv_record.simps [of s] split: if_splits)
    qed
  qed
qed

function csv_records :: "string \<Rightarrow> string list list option" where
  "csv_records s =
     (if s = [] then Some []
      else case csv_record s of None \<Rightarrow> None | Some (r, rest) \<Rightarrow> map_option (Cons r) (csv_records rest))"
  by pat_completeness auto
termination
  by (relation "measure length") (auto dest: csv_record_length)

declare csv_records.simps [simp del]

lemma csv_quoted_escaped:
  "c \<noteq> CHR 0x22 \<Longrightarrow>
   csv_quoted (concat (map (\<lambda>c. if c = CHR 0x22 then [CHR 0x22, CHR 0x22] else [c]) x) @ CHR 0x22 # c # r) = Some (x, c # r)"
  by (induction x) auto

lemma csv_field_escaped:
  assumes "c = CHR '','' \<or> c = CHR 0x0A"
  shows "csv_field (CsvEscapeField x @ c # r) = Some (x, c # r)"
proof (cases "any csv_special x")
  case True
  then show ?thesis using csv_quoted_escaped [of c x r] assms by (auto simp: CsvEscapeField_def csv_field_def)
next
  case False
  then have "\<forall>d \<in> set x. csv_plain d \<and> d \<noteq> CHR 0x22" by (auto simp: any_iff csv_special_def csv_plain_def)
  moreover have "\<not> csv_plain c" using assms by (auto simp: csv_plain_def)
  ultimately have w: "takeWhile csv_plain (x @ c # r) = x" "dropWhile csv_plain (x @ c # r) = c # r"
    "hd (x @ c # r) \<noteq> CHR 0x22"
    using assms by (cases x; auto simp: takeWhile_append dropWhile_append)+
  have "CsvEscapeField x = x" using False by (simp add: CsvEscapeField_def)
  then show ?thesis using w by (simp add: csv_field_def)
qed

lemma csv_record_line: "cells \<noteq> [] \<Longrightarrow> csv_record (csv_line cells @ r) = Some (cells, r)"
proof (induction cells)
  case (Cons x cells)
  show ?case
  proof (cases "cells = []")
    case True
    then show ?thesis by (simp add: csv_line_def csv_record.simps [of "CsvEscapeField x @ CHR 0x0A # r"] csv_field_escaped)
  next
    case False
    have "csv_line (x # cells) @ r = CsvEscapeField x @ CHR '','' # (csv_line cells @ r)"
      using False by (cases cells) (simp_all add: csv_line_def)
    then show ?thesis
      using Cons.IH False by (simp add: csv_record.simps [of "CsvEscapeField x @ CHR '','' # (csv_line cells @ r)"] csv_field_escaped)
  qed
qed simp

lemma csv_line_nonempty: "csv_line cells \<noteq> []"
  by (simp add: csv_line_def)

lemma csv_records_lines: "\<forall>cells \<in> set ls. cells \<noteq> [] \<Longrightarrow> csv_records (concat (map csv_line ls)) = Some ls"
proof (induction ls)
  case (Cons l ls)
  then show ?case
    by (simp add: csv_records.simps [of "csv_line l @ concat (map csv_line ls)"] csv_record_line csv_line_nonempty)
qed (simp add: csv_records.simps)

text \<open>
  A CSV response read back by a CSV reader gives the header line of the data columns and then
  each row's cells, byte for byte: commas, quotes, line breaks and empty cells included.
\<close>

theorem csv_roundtrip:
  assumes "data_cols \<noteq> []"
  shows "csv_records (SerializeRowsCsv names data_cols rows) =
    Some (map (\<lambda>col. names ! col) data_cols # map (csv_cells data_cols) rows)"
  using assms csv_records_lines [of "map (\<lambda>col. names ! col) data_cols # map (csv_cells data_cols) rows"]
  by (simp add: SerializeRowsCsv_def csv_cells_def comp_def)

theorem csv_roundtrip_witness:
  "csv_records (SerializeRowsCsv [''a,b'', ''location'', ''c''] [0, 2] [[Scalar T_VARCHAR [CHR 0x22, CHR 0x0A], NullValue T_VARCHAR, NullValue T_VARCHAR]]) =
    Some [[''a,b'', ''c''], [[CHR 0x22, CHR 0x0A], []]]"
  by (subst csv_roundtrip) (simp_all add: csv_cells_def ValueToCsvCell_def)

section \<open>Server-sent events\<close>

text \<open>
  The text of an \<open>id\<close> column goes into the event as it is: a line break in it ends the \<open>id\<close>
  field and what follows is read as further fields of the event.
\<close>

lemma sse_id_adds_fields:
  "FormatSseEvent ascii_util [''id''] [Scalar T_VARCHAR (''1'' @ [CHR 0x0A] @ ''event: admin'')] =
     ''id: 1'' @ [CHR 0x0A] @ ''event: admin'' @ [CHR 0x0A] @
     ''data: '' @ RowJsonObject [''id''] [Scalar T_VARCHAR (''1'' @ [CHR 0x0A] @ ''event: admin'')] @ [CHR 0x0A, CHR 0x0A]"
  by (simp add: FormatSseEvent_def ascii_lower_def is_upper_def)

end
