(* ===== verification/Telemetry.thy ===== *)
theory Telemetry
  imports Serialize "HOL-Library.Multiset"
begin

text \<open>
  Observability of the server (\<open>src/src/quackapi_server.cpp\<close>, \<open>src/src/include/quackapi_server.hpp\<close>):
  request and trace identifiers, the redaction of headers and query strings, the record of a
  completed request, the ring of recent requests, and the table sink of the access log with its
  worker thread. Each section that holds the sink's mutex is one step; the worker's position
  between two such sections is part of the state. Times are nanoseconds of the steady clock.
\<close>

section \<open>Options\<close>

datatype QuackapiLogLevel = LOG_SILENT | LOG_ERROR | LOG_WARN | LOG_INFO | LOG_DEBUG

record QuackapiServeOptions =
  so_static_dir :: string
  so_cors_origins :: string
  so_max_request_bytes :: int
  so_cancel_on_disconnect :: bool
  so_log_level :: QuackapiLogLevel
  so_slow_request_ms :: int
  so_access_log :: bool
  so_access_log_table :: string
  so_log_headers :: string
  so_log_query :: bool
  so_enable_logging :: bool
  so_enable_logging_explicit :: bool
  so_request_ring :: int
  so_health_routes :: bool
  so_worker_threads :: int
  so_keep_alive_max_count :: int
  so_keep_alive_timeout_sec :: int
  so_read_timeout_sec :: int
  so_write_timeout_sec :: int
  so_query_timeout_ms :: int
  so_max_response_bytes :: int
  so_max_pending_requests :: int
  so_memory_limit :: string
  so_threads :: string
  so_preserve_insertion_order :: bool
  so_preserve_insertion_order_explicit :: bool
  so_enable_http_metadata_cache :: bool
  so_http_client :: string
  so_http_client_active :: string
  so_http_client_reason :: string
  so_request_id_source :: string
  so_compression :: QuackapiCompressionMode
  so_compression_min_bytes :: nat

definition default_options :: QuackapiServeOptions where
  "default_options = \<lparr>so_static_dir = [], so_cors_origins = [], so_max_request_bytes = 8 * 1024 * 1024,
     so_cancel_on_disconnect = False, so_log_level = LOG_INFO, so_slow_request_ms = 1000, so_access_log = True,
     so_access_log_table = [], so_log_headers = [], so_log_query = False, so_enable_logging = False,
     so_enable_logging_explicit = False, so_request_ring = 10000, so_health_routes = True, so_worker_threads = 32,
     so_keep_alive_max_count = 128, so_keep_alive_timeout_sec = 10, so_read_timeout_sec = 30,
     so_write_timeout_sec = 30, so_query_timeout_ms = 30000, so_max_response_bytes = 16 * 1024 * 1024,
     so_max_pending_requests = 256, so_memory_limit = [], so_threads = [], so_preserve_insertion_order = False,
     so_preserve_insertion_order_explicit = False, so_enable_http_metadata_cache = True, so_http_client = ''auto'',
     so_http_client_active = [], so_http_client_reason = [], so_request_id_source = [],
     so_compression = COMPRESS_AUTO, so_compression_min_bytes = 1024\<rparr>"

section \<open>Identifiers\<close>

fun sanitize_id :: "nat \<Rightarrow> string \<Rightarrow> string" where
  "sanitize_id n [] = []"
| "sanitize_id n (c # s) =
     (if 0x21 \<le> byte c \<and> byte c \<le> 0x7E then (if n + 1 \<ge> 128 then [c] else c # sanitize_id (n + 1) s)
      else sanitize_id n s)"

definition SanitizeClientRequestId :: "string \<Rightarrow> string" where
  "SanitizeClientRequestId s = sanitize_id 0 s"

definition IsHexString :: "string \<Rightarrow> bool" where
  "IsHexString s = list_all (\<lambda>c. is_digit c \<or> (97 \<le> byte c \<and> byte c \<le> 102) \<or> (65 \<le> byte c \<and> byte c \<le> 70)) s"

definition IsAllZero :: "string \<Rightarrow> bool" where
  "IsAllZero s = list_all (\<lambda>c. c = CHR ''0'') s"

text \<open>\<open>uuid\<close> is the text of a fresh version 7 UUID.\<close>

definition RandomTraceHex :: "string \<Rightarrow> nat \<Rightarrow> string" where
  "RandomTraceHex uuid n = (let raw = filter (\<lambda>c. c \<noteq> CHR ''-'') uuid in if n = 16 then take n (drop 16 raw) else take n raw)"

record trace_context =
  tc_trace_id :: string
  tc_span_id :: string
  tc_parent_span_id :: string
  tc_sampled :: bool

definition hex_flags :: "string \<Rightarrow> nat" where
  "hex_flags s = foldl (\<lambda>n c. case hex_value c of Some d \<Rightarrow> n * 16 + d | None \<Rightarrow> n) 0 s"

definition MakeTraceContext :: "string_util \<Rightarrow> string \<Rightarrow> string \<Rightarrow> string \<Rightarrow> trace_context" where
  "MakeTraceContext U uuid1 uuid2 traceparent =
     (let fresh = \<lparr>tc_trace_id = RandomTraceHex uuid1 32, tc_span_id = RandomTraceHex uuid2 16, tc_parent_span_id = [],
            tc_sampled = True\<rparr>;
          inbound_trace = take 32 (drop 3 traceparent);
          inbound_parent = take 16 (drop 36 traceparent);
          flags = take 2 (drop 53 traceparent)
      in if length traceparent = 55 \<and> traceparent ! 2 = CHR ''-'' \<and> traceparent ! 35 = CHR ''-'' \<and>
            traceparent ! 52 = CHR ''-'' \<and> take 2 traceparent = ''00'' \<and>
            IsHexString inbound_trace \<and> IsHexString inbound_parent \<and> IsHexString flags \<and>
            \<not> IsAllZero inbound_trace \<and> \<not> IsAllZero inbound_parent
         then fresh\<lparr>tc_trace_id := su_lower U inbound_trace, tc_parent_span_id := su_lower U inbound_parent,
                tc_sampled := odd (hex_flags flags)\<rparr>
         else fresh)"

section \<open>Redaction\<close>

definition IsDeniedHeaderName :: "string_util \<Rightarrow> string \<Rightarrow> bool" where
  "IsDeniedHeaderName U name =
     (name = ''authorization'' \<or> name = ''proxy-authorization'' \<or> name = ''cookie'' \<or> name = ''set-cookie'' \<or>
      name = ''x-api-key'' \<or> su_contains U name ''token'' \<or> su_contains U name ''secret'' \<or> su_contains U name ''password'')"

definition allowed_names :: "string_util \<Rightarrow> string \<Rightarrow> string list" where
  "allowed_names U allowlist =
     filter (\<lambda>n. n \<noteq> []) (map (\<lambda>n. su_lower U (su_trim U n)) (su_split U allowlist (CHR '','')))"

definition RedactedHeaders :: "string_util \<Rightarrow> multimap \<Rightarrow> string \<Rightarrow> (string \<times> string) list" where
  "RedactedHeaders U headers allowlist =
     fold (\<lambda>h acc. let name = su_lower U (fst h)
        in if any (\<lambda>c. name = c) (allowed_names U allowlist) \<and> \<not> any (\<lambda>e. fst e = name) acc
           then acc @ [(name, if IsDeniedHeaderName U name then ''[REDACTED]'' else snd h)] else acc) headers []"

definition denied_query_key_parts :: "string list" where
  "denied_query_key_parts = [''token'', ''key'', ''secret'', ''password'', ''sig'', ''code'', ''auth'']"

definition IsDeniedQueryKey :: "string_util \<Rightarrow> string \<Rightarrow> bool" where
  "IsDeniedQueryKey U raw_key =
     (let key = su_lower U (decode_query_component raw_key) in any (\<lambda>part. su_contains U key part) denied_query_key_parts)"

definition redact_pair :: "string_util \<Rightarrow> string \<Rightarrow> string" where
  "redact_pair U pair =
     (let raw_key = until_char (CHR ''='') pair
      in raw_key @ (if IsDeniedQueryKey U raw_key then ''=[REDACTED]'' else dropWhile (\<lambda>c. c \<noteq> CHR ''='') pair))"

text \<open>One pass per text between ampersands; the last one ends the loop.\<close>

function redact_pairs :: "string_util \<Rightarrow> string \<Rightarrow> string" where
  "redact_pairs U raw_query =
     (let pair = until_char (CHR ''&'') raw_query
      in case dropWhile (\<lambda>c. c \<noteq> CHR ''&'') raw_query of
           [] \<Rightarrow> redact_pair U pair
         | _ # rest \<Rightarrow> redact_pair U pair @ ''&'' @ redact_pairs U rest)"
  by pat_completeness auto
termination
proof (relation "measure (\<lambda>(U, s). length s)")
  fix U :: string_util and s :: string and x c rest
  assume "dropWhile (\<lambda>c. c \<noteq> CHR ''&'') s = c # rest"
  then show "((U, rest), U, s) \<in> measure (\<lambda>(U, s). length s)"
    using length_dropWhile_le [of "\<lambda>c. c \<noteq> CHR ''&''" s] by simp
qed simp

declare redact_pairs.simps [simp del]

definition RedactRawQuery :: "string_util \<Rightarrow> string \<Rightarrow> string" where
  "RedactRawQuery U target = (case dropWhile (\<lambda>c. c \<noteq> CHR ''?'') target of [] \<Rightarrow> [] | _ # raw_query \<Rightarrow> redact_pairs U raw_query)"

section \<open>The record of a request\<close>

record QuackapiRequestRecord =
  rr_request_id :: string
  rr_received_at_micros :: int
  rr_method :: string
  rr_path :: string
  rr_route_name :: string
  rr_route_path :: string
  rr_status :: int
  rr_duration_ms :: double
  rr_sql_prepare_ms :: double
  rr_sql_execute_ms :: double
  rr_rows_out :: int
  rr_bytes_in :: int
  rr_bytes_out :: int
  rr_client_ip :: string
  rr_user_agent :: string
  rr_http_version :: string
  rr_error_type :: string
  rr_error_message :: string
  rr_trace_id :: string
  rr_span_id :: string
  rr_parent_span_id :: string
  rr_sampled :: bool
  rr_headers_logged :: bool
  rr_headers :: "(string \<times> string) list"
  rr_query_logged :: bool
  rr_query :: string

definition detail_prefix :: string where
  "detail_prefix = ''{'' @ [CHR 0x22] @ ''detail'' @ [CHR 0x22] @ '':'' @ [CHR 0x22]"

text \<open>The text up to the first quote that does not follow a backslash.\<close>

fun until_quote :: "char option \<Rightarrow> string \<Rightarrow> string option" where
  "until_quote prev [] = None"
| "until_quote prev (c # s) =
     (if c = CHR 0x22 \<and> prev \<noteq> Some (CHR 0x5C) then Some [] else map_option (Cons c) (until_quote (Some c) s))"

definition ErrorMessageFromResponse :: "string_util \<Rightarrow> string \<Rightarrow> string" where
  "ErrorMessageFromResponse U body =
     (if \<not> su_starts_with U body detail_prefix then take 512 body
      else let rest = drop (length detail_prefix) body
           in case until_quote None rest of Some t \<Rightarrow> take 512 t | None \<Rightarrow> take 512 rest)"

definition ErrorTypeForStatus :: "int \<Rightarrow> string" where
  "ErrorTypeForStatus status =
     (if status = 502 then ''upstream_error'' else if status = 503 then ''service_unavailable''
      else if status = 504 then ''timeout'' else if status = 507 then ''response_too_large''
      else if status \<ge> 500 then ''internal_error'' else ''http_error'')"

text \<open>
  \<^verbatim>\<open>std::stoull\<close> in base ten: leading white space, a sign, digits; no digits or a value that does
  not fit throws (\<open>None\<close>); a minus sign negates modulo \<open>2^64\<close>.
\<close>

definition stoull :: "string \<Rightarrow> int option" where
  "stoull s =
     (let s1 = dropWhile ascii_space s;
          s2 = (if s1 \<noteq> [] \<and> (hd s1 = CHR ''+'' \<or> hd s1 = CHR ''-'') then tl s1 else s1);
          digits = takeWhile is_digit s2;
          n = foldl (\<lambda>n c. n * 10 + (int (byte c) - 48)) 0 digits
      in if digits = [] \<or> n \<ge> 2 ^ 64 then None
         else Some ((if hd s1 = CHR ''-'' then - n else n) mod 2 ^ 64))"

definition as_int64 :: "int \<Rightarrow> int" where
  "as_int64 n = (if n \<ge> 2 ^ 63 then n - 2 ^ 64 else n)"

definition ResponseBytes :: "Response \<Rightarrow> int" where
  "ResponseBytes res = (case find_header (rs_headers res) ''Content-Length'' of
     None \<Rightarrow> int (length (rs_body res))
   | Some v \<Rightarrow> (case stoull v of None \<Rightarrow> int (length (rs_body res)) | Some n \<Rightarrow> as_int64 n))"

record request_timing =
  rt_latency_ms :: double
  rt_received_at :: int
  rt_prepare_ms :: double
  rt_execute_ms :: double
  rt_rows :: int

definition MakeRequestRecord :: "string_util \<Rightarrow> Request \<Rightarrow> Response \<Rightarrow> string \<Rightarrow> string \<Rightarrow> string
    \<Rightarrow> request_timing \<Rightarrow> trace_context \<Rightarrow> QuackapiServeOptions \<Rightarrow> QuackapiRequestRecord" where
  "MakeRequestRecord U req res request_id route_name route_path t trace options =
     \<lparr>rr_request_id = request_id, rr_received_at_micros = rt_received_at t, rr_method = rq_method req, rr_path = rq_path req,
      rr_route_name = route_name, rr_route_path = route_path, rr_status = rs_status res, rr_duration_ms = rt_latency_ms t,
      rr_sql_prepare_ms = rt_prepare_ms t, rr_sql_execute_ms = rt_execute_ms t, rr_rows_out = rt_rows t,
      rr_bytes_in = int (length (rq_body req)), rr_bytes_out = ResponseBytes res, rr_client_ip = rq_remote_addr req,
      rr_user_agent = take 256 (get_header_value (rq_headers req) ''User-Agent''), rr_http_version = rq_version req,
      rr_error_type = (if rs_status res \<ge> 400 then ErrorTypeForStatus (rs_status res) else []),
      rr_error_message = (if rs_status res \<ge> 500 then ErrorMessageFromResponse U (rs_body res) else []),
      rr_trace_id = tc_trace_id trace, rr_span_id = tc_span_id trace, rr_parent_span_id = tc_parent_span_id trace,
      rr_sampled = tc_sampled trace, rr_headers_logged = (so_log_headers options \<noteq> []),
      rr_headers = (if so_log_headers options \<noteq> [] then RedactedHeaders U (rq_headers req) (so_log_headers options) else []),
      rr_query_logged = so_log_query options,
      rr_query = (if so_log_query options then RedactRawQuery U (rq_target req) else [])\<rparr>"

section \<open>The ring of recent requests\<close>

record 'a request_ring =
  rg_records :: "'a list"
  rg_head :: nat
  rg_count :: nat

definition new_ring :: "'a \<Rightarrow> nat \<Rightarrow> 'a request_ring" where
  "new_ring blank capacity = \<lparr>rg_records = replicate capacity blank, rg_head = 0, rg_count = 0\<rparr>"

definition Push :: "'a \<Rightarrow> 'a request_ring \<Rightarrow> 'a request_ring" where
  "Push entry ring =
     (if rg_records ring = [] then ring
      else ring\<lparr>rg_records := (rg_records ring)[rg_head ring := entry],
                rg_head := (rg_head ring + 1) mod length (rg_records ring),
                rg_count := (if rg_count ring < length (rg_records ring) then rg_count ring + 1 else rg_count ring)\<rparr>)"

definition Snapshot :: "'a request_ring \<Rightarrow> 'a list" where
  "Snapshot ring =
     (if rg_records ring = [] then []
      else let first = (if rg_count ring = length (rg_records ring) then rg_head ring else 0)
           in map (\<lambda>i. rg_records ring ! ((first + i) mod length (rg_records ring))) [0..<rg_count ring])"

text \<open>Whether a record passes the log level.\<close>

definition log_level_emits :: "QuackapiServeOptions \<Rightarrow> QuackapiRequestRecord \<Rightarrow> bool" where
  "log_level_emits options entry = (case so_log_level options of
     LOG_DEBUG \<Rightarrow> True
   | LOG_INFO \<Rightarrow> True
   | LOG_WARN \<Rightarrow> rr_status entry \<ge> 400 \<or> dbl_le (Fin (of_int (so_slow_request_ms options))) (rr_duration_ms entry)
   | LOG_ERROR \<Rightarrow> rr_status entry \<ge> 500
   | LOG_SILENT \<Rightarrow> False)"

definition EmitAccessLog :: "QuackapiServeOptions \<Rightarrow> QuackapiRequestRecord \<Rightarrow> ('s \<Rightarrow> QuackapiRequestRecord \<Rightarrow> 's)
    \<Rightarrow> QuackapiRequestRecord request_ring option \<times> 's list \<Rightarrow> QuackapiRequestRecord request_ring option \<times> 's list" where
  "EmitAccessLog options entry enqueue st =
     (case st of (ring, sinks) \<Rightarrow>
        (map_option (Push entry) ring,
         if so_access_log options \<and> log_level_emits options entry then map (\<lambda>s. enqueue s entry) sinks else sinks))"

section \<open>The table sink\<close>

text \<open>
  The state behind the sink's mutex, with the worker's position, the clock-free counters, and
  three observations: the records given to the sink, those written to the table, and those printed
  on the standard error stream.
\<close>

datatype worker = W_WAIT | W_HAVE "QuackapiRequestRecord list" | W_WRITE "QuackapiRequestRecord list"
  | W_EXPORTED | W_FAILED "QuackapiRequestRecord list" | W_DONE | W_EXIT

record table_sink =
  ts_pending :: "QuackapiRequestRecord list"
  ts_stopping :: bool
  ts_flush_requested :: bool
  ts_flushing :: bool
  ts_failed :: bool
  ts_retry_at :: int
  ts_retry_delay_seconds :: int
  ts_overflow_count :: nat
  ts_exported_total :: nat
  ts_has_export :: bool
  ts_last_error :: string
  ts_overflow_warning :: bool
  ts_worker :: worker
  ts_given :: "QuackapiRequestRecord list"
  ts_table :: "QuackapiRequestRecord list"
  ts_stderr :: "QuackapiRequestRecord list"

definition new_sink :: table_sink where
  "new_sink = \<lparr>ts_pending = [], ts_stopping = False, ts_flush_requested = False, ts_flushing = False, ts_failed = False,
     ts_retry_at = 0, ts_retry_delay_seconds = 1, ts_overflow_count = 0, ts_exported_total = 0, ts_has_export = False,
     ts_last_error = [], ts_overflow_warning = False, ts_worker = W_WAIT, ts_given = [], ts_table = [], ts_stderr = []\<rparr>"

definition ACCESS_LOG_QUEUE_CAPACITY :: nat where
  "ACCESS_LOG_QUEUE_CAPACITY = 10000"

definition Enqueue :: "int \<Rightarrow> QuackapiRequestRecord \<Rightarrow> table_sink \<Rightarrow> table_sink" where
  "Enqueue now entry sink =
     (let s = sink\<lparr>ts_given := ts_given sink @ [entry]\<rparr>
      in if ts_failed s \<and> now < ts_retry_at s then s\<lparr>ts_stderr := ts_stderr s @ [entry]\<rparr>
         else if length (ts_pending s) \<ge> ACCESS_LOG_QUEUE_CAPACITY then
           s\<lparr>ts_overflow_count := ts_overflow_count s + 1, ts_overflow_warning := True, ts_stderr := ts_stderr s @ [entry]\<rparr>
         else s\<lparr>ts_pending := ts_pending s @ [entry]\<rparr>)"

text \<open>The request of \<open>FlushPending\<close>; the caller then waits for \<open>flush_settled\<close>.\<close>

definition FlushPending :: "table_sink \<Rightarrow> table_sink" where
  "FlushPending sink =
     (if ts_worker sink = W_EXIT \<or> ts_stopping sink \<or> (ts_pending sink = [] \<and> \<not> ts_flushing sink) then sink
      else sink\<lparr>ts_flush_requested := True\<rparr>)"

definition flush_settled :: "table_sink \<Rightarrow> bool" where
  "flush_settled sink = (\<not> ts_flush_requested sink \<and> \<not> ts_flushing sink)"

definition Shutdown :: "table_sink \<Rightarrow> table_sink" where
  "Shutdown sink = sink\<lparr>ts_stopping := True\<rparr>"

definition take_batch :: "table_sink \<Rightarrow> table_sink" where
  "take_batch sink =
     (let batch = ts_pending sink
      in if batch = [] then
           (let s = sink\<lparr>ts_flush_requested := False\<rparr> in if ts_stopping s then s\<lparr>ts_worker := W_EXIT\<rparr> else s)
         else sink\<lparr>ts_pending := [], ts_flushing := True, ts_worker := W_HAVE batch\<rparr>)"

definition MarkExported :: "QuackapiRequestRecord list \<Rightarrow> table_sink \<Rightarrow> table_sink" where
  "MarkExported batch sink = sink\<lparr>ts_exported_total := ts_exported_total sink + length batch, ts_has_export := True\<rparr>"

definition MarkFailed :: "int \<Rightarrow> string \<Rightarrow> table_sink \<Rightarrow> table_sink" where
  "MarkFailed now reason sink =
     sink\<lparr>ts_last_error := reason, ts_failed := True,
       ts_retry_at := now + ts_retry_delay_seconds sink * 1000000000,
       ts_retry_delay_seconds := min (ts_retry_delay_seconds sink * 2) 60\<rparr>"

definition MarkRecovered :: "table_sink \<Rightarrow> table_sink" where
  "MarkRecovered sink = (if \<not> ts_failed sink then sink else sink\<lparr>ts_failed := False, ts_retry_delay_seconds := 1\<rparr>)"

definition choose_target :: "int \<Rightarrow> QuackapiRequestRecord list \<Rightarrow> table_sink \<Rightarrow> table_sink" where
  "choose_target now batch sink =
     (if ts_failed sink \<and> now < ts_retry_at sink
      then sink\<lparr>ts_stderr := ts_stderr sink @ batch, ts_worker := W_DONE\<rparr>
      else sink\<lparr>ts_worker := W_WRITE batch\<rparr>)"

definition finish_batch :: "table_sink \<Rightarrow> table_sink" where
  "finish_batch sink =
     sink\<lparr>ts_flushing := False,
       ts_flush_requested := (if ts_flush_requested sink \<and> ts_pending sink = [] then False else ts_flush_requested sink),
       ts_worker := W_WAIT\<rparr>"

text \<open>
  One step of the worker loop; \<open>now\<close> is the clock and \<open>outcome\<close> what writing the batch to the
  table gives: \<open>None\<close> when it succeeds, the message when it throws.
\<close>

definition worker_step :: "int \<Rightarrow> string option \<Rightarrow> table_sink \<Rightarrow> table_sink" where
  "worker_step now outcome sink = (case ts_worker sink of
     W_WAIT \<Rightarrow> take_batch sink
   | W_HAVE batch \<Rightarrow> choose_target now batch sink
   | W_WRITE batch \<Rightarrow> (case outcome of
       None \<Rightarrow> (MarkExported batch sink)\<lparr>ts_table := ts_table sink @ batch, ts_worker := W_EXPORTED\<rparr>
     | Some reason \<Rightarrow> (MarkFailed now reason sink)\<lparr>ts_worker := W_FAILED batch\<rparr>)
   | W_EXPORTED \<Rightarrow> (MarkRecovered sink)\<lparr>ts_worker := W_DONE\<rparr>
   | W_FAILED batch \<Rightarrow> sink\<lparr>ts_stderr := ts_stderr sink @ batch, ts_worker := W_DONE\<rparr>
   | W_DONE \<Rightarrow> finish_batch sink
   | W_EXIT \<Rightarrow> sink)"

inductive sink_step :: "table_sink \<Rightarrow> table_sink \<Rightarrow> bool" where
  enqueue: "sink_step s (Enqueue now entry s)"
| flush: "sink_step s (FlushPending s)"
| stop: "sink_step s (Shutdown s)"
| work: "sink_step s (worker_step now outcome s)"

inductive sink_reachable :: "table_sink \<Rightarrow> bool" where
  sink_new: "sink_reachable new_sink"
| sink_next: "sink_reachable s \<Longrightarrow> sink_step s s' \<Longrightarrow> sink_reachable s'"

section \<open>Properties of the ring\<close>

definition ring_holds :: "'a request_ring \<Rightarrow> 'a list \<Rightarrow> bool" where
  "ring_holds ring xs =
     (let c = length (rg_records ring); n = length xs
      in 0 < c \<and> rg_count ring = min n c \<and> rg_head ring = n mod c \<and>
         (\<forall>j. n - min n c \<le> j \<and> j < n \<longrightarrow> rg_records ring ! (j mod c) = xs ! j))"

lemma mod_window: "j < n \<Longrightarrow> n < j + c \<Longrightarrow> j mod c \<noteq> n mod (c :: nat)"
proof
  assume a: "j < n" "n < j + c" "j mod c = n mod c"
  then have "c dvd n - j" by (metis less_or_eq_imp_le mod_eq_dvd_iff_nat)
  then show False using a(1,2) dvd_imp_le [of c "n - j"] by simp
qed

lemma ring_holds_push:
  assumes "ring_holds ring xs"
  shows "ring_holds (Push x ring) (xs @ [x])"
proof -
  let ?c = "length (rg_records ring)" and ?n = "length xs"
  have c: "0 < ?c" and cnt: "rg_count ring = min ?n ?c" and h: "rg_head ring = ?n mod ?c"
    and w: "\<And>j. ?n - min ?n ?c \<le> j \<Longrightarrow> j < ?n \<Longrightarrow> rg_records ring ! (j mod ?c) = xs ! j"
    using assms by (auto simp: ring_holds_def Let_def)
  have "(rg_records ring)[?n mod ?c := x] ! (j mod ?c) = (xs @ [x]) ! j"
    if "Suc ?n - min (Suc ?n) ?c \<le> j" "j < Suc ?n" for j
  proof (cases "j = ?n")
    case True
    then show ?thesis using c by (simp add: mod_less_divisor)
  next
    case False
    then have "j < ?n" "?n < j + ?c" using that by auto
    then have "j mod ?c \<noteq> ?n mod ?c" by (rule mod_window)
    moreover have "?n - min ?n ?c \<le> j" using that by auto
    ultimately show ?thesis using w \<open>j < ?n\<close> by (simp add: nth_append)
  qed
  moreover have "rg_records ring \<noteq> []" using c by auto
  ultimately show ?thesis
    using c cnt h by (auto simp: ring_holds_def Let_def Push_def mod_Suc_eq)
qed

lemma Push_length [simp]: "length (rg_records (Push x ring)) = length (rg_records ring)"
  by (simp add: Push_def)

lemma ring_holds_all:
  "0 < capacity \<Longrightarrow> ring_holds (fold Push xs (new_ring blank capacity)) xs \<and>
     length (rg_records (fold Push xs (new_ring blank capacity))) = capacity"
proof (induction xs rule: rev_induct)
  case Nil
  then show ?case by (simp add: ring_holds_def new_ring_def)
next
  case (snoc x xs)
  then show ?case using ring_holds_push [of "fold Push xs (new_ring blank capacity)" xs x] by simp
qed

lemma ring_snapshot:
  assumes "ring_holds ring xs"
  shows "Snapshot ring = drop (length xs - length (rg_records ring)) xs"
proof (rule nth_equalityI)
  let ?c = "length (rg_records ring)" and ?n = "length xs"
  have c: "0 < ?c" and cnt: "rg_count ring = min ?n ?c" and h: "rg_head ring = ?n mod ?c"
    and w: "\<And>j. ?n - min ?n ?c \<le> j \<Longrightarrow> j < ?n \<Longrightarrow> rg_records ring ! (j mod ?c) = xs ! j"
    using assms by (auto simp: ring_holds_def Let_def)
  have ne: "rg_records ring \<noteq> []" using c by auto
  show len: "length (Snapshot ring) = length (drop (?n - ?c) xs)" using ne cnt by (simp add: Snapshot_def Let_def)
  fix i assume "i < length (Snapshot ring)"
  then have i: "i < min ?n ?c" using ne cnt by (simp add: Snapshot_def Let_def)
  show "Snapshot ring ! i = drop (?n - ?c) xs ! i"
  proof (cases "?n < ?c")
    case True
    then show ?thesis using i ne cnt w [of i] by (simp add: Snapshot_def Let_def)
  next
    case False
    have "(?n mod ?c + i) mod ?c = (?n - ?c + i) mod ?c"
      using False by (metis le_add_diff_inverse2 linorder_not_less mod_add_left_eq mod_add_self2)
    then show ?thesis using False i ne cnt h w [of "?n - ?c + i"] by (simp add: Snapshot_def Let_def)
  qed
qed

text \<open>
  The ring of recent requests is the tail of the request history: after any sequence of
  requests, a snapshot is the last \<open>capacity\<close> of them, oldest first, or all of them when there
  are fewer.
\<close>

theorem ring_is_history_tail:
  "Snapshot (fold Push xs (new_ring blank capacity)) = drop (length xs - capacity) xs"
proof (cases "capacity = 0")
  case True
  have "rg_records (fold Push xs (new_ring blank 0)) = []"
    by (induction xs rule: rev_induct) (auto simp: new_ring_def Push_def)
  with True show ?thesis by (simp add: Snapshot_def)
next
  case False
  then have "0 < capacity" by simp
  from ring_holds_all [OF this] show ?thesis using ring_snapshot by metis
qed

section \<open>Properties of the table sink\<close>

fun in_flight :: "worker \<Rightarrow> QuackapiRequestRecord list" where
  "in_flight (W_HAVE b) = b"
| "in_flight (W_WRITE b) = b"
| "in_flight (W_FAILED b) = b"
| "in_flight _ = []"

definition busy :: "worker \<Rightarrow> bool" where
  "busy w = (w \<noteq> W_WAIT \<and> w \<noteq> W_EXIT)"

definition sink_inv :: "table_sink \<Rightarrow> bool" where
  "sink_inv s \<longleftrightarrow>
     mset (ts_given s) = mset (ts_pending s) + mset (in_flight (ts_worker s)) + mset (ts_table s) + mset (ts_stderr s) \<and>
     length (ts_pending s) \<le> ACCESS_LOG_QUEUE_CAPACITY \<and> ts_exported_total s = length (ts_table s) \<and>
     1 \<le> ts_retry_delay_seconds s \<and> ts_retry_delay_seconds s \<le> 60 \<and> ts_flushing s = busy (ts_worker s) \<and>
     (ts_worker s = W_EXIT \<longrightarrow> ts_stopping s \<and> \<not> ts_flush_requested s)"

lemma sink_inv_new: "sink_inv new_sink"
  by (simp add: sink_inv_def new_sink_def busy_def)

lemma sink_inv_enqueue: "sink_inv s \<Longrightarrow> sink_inv (Enqueue now entry s)"
  by (auto simp: sink_inv_def Enqueue_def Let_def)

lemma sink_inv_requests: "sink_inv s \<Longrightarrow> sink_inv (FlushPending s)" "sink_inv s \<Longrightarrow> sink_inv (Shutdown s)"
  by (auto simp: sink_inv_def FlushPending_def Shutdown_def)

lemma sink_inv_worker: "sink_inv s \<Longrightarrow> sink_inv (worker_step now outcome s)"
  unfolding worker_step_def
  by (cases "ts_worker s"; cases outcome)
    (auto simp: sink_inv_def take_batch_def choose_target_def finish_batch_def MarkExported_def MarkFailed_def
      MarkRecovered_def busy_def Let_def ACCESS_LOG_QUEUE_CAPACITY_def)

lemma sink_reachable_inv: "sink_reachable s \<Longrightarrow> sink_inv s"
proof (induction rule: sink_reachable.induct)
  case (sink_next s s')
  from sink_next(2,3) show ?case
    by (cases rule: sink_step.cases) (auto intro: sink_inv_enqueue sink_inv_requests sink_inv_worker)
qed (rule sink_inv_new)

text \<open>
  C33. The access log loses nothing and duplicates nothing: whatever the interleaving of requests,
  flushes, shutdown and the worker, and however often writing the table fails, the records given
  to the sink are exactly those queued, held by the worker, written to the table, or printed on
  the standard error stream; and the queue never exceeds its capacity.
\<close>

theorem access_log_conserves:
  assumes "sink_reachable s"
  shows "mset (ts_given s) = mset (ts_pending s) + mset (in_flight (ts_worker s)) + mset (ts_table s) + mset (ts_stderr s) \<and>
    length (ts_pending s) \<le> ACCESS_LOG_QUEUE_CAPACITY \<and> ts_exported_total s = length (ts_table s)"
  using sink_reachable_inv [OF assms] by (simp add: sink_inv_def)

definition example_record :: QuackapiRequestRecord where
  "example_record = MakeRequestRecord ascii_util
     \<lparr>rq_method = ''GET'', rq_path = ''/'', rq_target = ''/'', rq_version = ''HTTP/1.1'', rq_headers = [], rq_params = [],
       rq_body = [], rq_remote_addr = [], rq_remote_port = 0, rq_form_fields = [], rq_form_files = []\<rparr>
     empty_response ''r1'' [] [] \<lparr>rt_latency_ms = Fin 1, rt_received_at = 0, rt_prepare_ms = Fin (-1), rt_execute_ms = Fin (-1), rt_rows = -1\<rparr>
     \<lparr>tc_trace_id = [], tc_span_id = [], tc_parent_span_id = [], tc_sampled = True\<rparr> default_options"

definition failed_write :: table_sink where
  "failed_write = worker_step 2 (Some ''no table'') (worker_step 1 None (worker_step 0 None (Enqueue 0 example_record new_sink)))"

lemma failed_write_reachable: "sink_reachable failed_write"
  unfolding failed_write_def by (intro sink_next [OF _ work] sink_next [OF sink_new enqueue])

theorem access_log_conserves_witness:
  "ts_worker failed_write = W_FAILED [example_record] \<and>
   mset (ts_given failed_write) = mset (ts_pending failed_write) + mset (in_flight (ts_worker failed_write)) +
     mset (ts_table failed_write) + mset (ts_stderr failed_write)"
proof -
  have "ts_worker failed_write = W_FAILED [example_record]"
    by (simp add: failed_write_def worker_step_def Enqueue_def new_sink_def take_batch_def choose_target_def
        MarkFailed_def Let_def ACCESS_LOG_QUEUE_CAPACITY_def)
  with access_log_conserves [OF failed_write_reachable] show ?thesis by simp
qed

text \<open>The worker running alone, with the clock readings and write outcomes it meets.\<close>

definition run_worker :: "(int \<times> string option) list \<Rightarrow> table_sink \<Rightarrow> table_sink" where
  "run_worker ins s = fold (\<lambda>(now, outcome). worker_step now outcome) ins s"

fun worker_rank :: "worker \<Rightarrow> nat" where
  "worker_rank W_WAIT = 0"
| "worker_rank (W_HAVE _) = 4"
| "worker_rank (W_WRITE _) = 3"
| "worker_rank W_EXPORTED = 2"
| "worker_rank (W_FAILED _) = 2"
| "worker_rank W_DONE = 1"
| "worker_rank W_EXIT = 0"

text \<open>How many worker steps settle a flush: the batch in hand, then the queue.\<close>

definition flush_rank :: "table_sink \<Rightarrow> nat" where
  "flush_rank s = worker_rank (ts_worker s) + (if ts_worker s = W_EXIT then 0 else if ts_pending s \<noteq> [] then 5
     else if ts_flush_requested s \<and> ts_worker s = W_WAIT then 1 else 0)"

lemma flush_rank_step:
  assumes "ts_flushing s = busy (ts_worker s)" and "0 < flush_rank s"
  shows "flush_rank (worker_step now outcome s) < flush_rank s"
  using assms
  by (cases "ts_worker s"; cases outcome)
    (auto simp: flush_rank_def worker_step_def take_batch_def choose_target_def finish_batch_def MarkExported_def
      MarkFailed_def MarkRecovered_def busy_def Let_def split: if_splits)

lemma flush_rank_zero:
  assumes "ts_flushing s = busy (ts_worker s)" "flush_rank s = 0" "ts_worker s \<noteq> W_EXIT"
  shows "flush_settled s"
  using assms by (cases "ts_worker s") (auto simp: flush_rank_def flush_settled_def busy_def split: if_splits)

lemma worker_step_settled: "flush_rank s = 0 \<Longrightarrow> ts_flushing s = busy (ts_worker s) \<Longrightarrow> flush_rank (worker_step now outcome s) = 0"
  by (cases "ts_worker s"; cases outcome)
    (auto simp: flush_rank_def worker_step_def take_batch_def Let_def split: if_splits)

lemma run_worker_rank: "sink_inv s \<Longrightarrow> sink_inv (run_worker ins s) \<and> flush_rank (run_worker ins s) \<le> flush_rank s - length ins"
proof (induction ins arbitrary: s)
  case Nil
  then show ?case by (simp add: run_worker_def)
next
  case (Cons i ins)
  obtain now outcome where i: "i = (now, outcome)" by fastforce
  let ?s = "worker_step now outcome s"
  have f: "ts_flushing s = busy (ts_worker s)" using Cons.prems by (simp add: sink_inv_def)
  have "flush_rank ?s \<le> flush_rank s - 1"
    using flush_rank_step [OF f, of now outcome] worker_step_settled [OF _ f, of now outcome] by (cases "flush_rank s = 0") auto
  with Cons.IH [OF sink_inv_worker [OF Cons.prems], of now outcome] show ?case
    unfolding run_worker_def i fold.simps comp_def split by auto
qed

lemma flush_rank_bound: "flush_rank s \<le> 9"
  by (cases "ts_worker s") (simp_all add: flush_rank_def)

text \<open>
  A flush request is answered: from every reachable state of the sink, nine steps of the worker
  with nothing else arriving settle the request, whatever the clock says and whether or not
  writing the table succeeds; so the caller that waits for it is woken.
\<close>

theorem flush_pending_completes:
  assumes "sink_reachable s" and "9 \<le> length ins"
  shows "flush_settled (run_worker ins (FlushPending s))"
proof -
  let ?s = "FlushPending s"
  have inv: "sink_inv ?s" using sink_reachable_inv [OF assms(1)] by (rule sink_inv_requests)
  from run_worker_rank [OF this] flush_rank_bound [of ?s] assms(2)
  have i: "sink_inv (run_worker ins ?s)" and r: "flush_rank (run_worker ins ?s) = 0" by (metis diff_is_0_eq le_zero_eq order_trans)+
  show ?thesis
  proof (cases "ts_worker (run_worker ins ?s) = W_EXIT")
    case True
    with i show ?thesis by (auto simp: sink_inv_def flush_settled_def busy_def)
  next
    case False
    with i r show ?thesis by (intro flush_rank_zero) (auto simp: sink_inv_def)
  qed
qed

theorem flush_pending_completes_witness:
  "flush_settled (run_worker (replicate 9 (5, Some ''no table'')) (FlushPending failed_write))"
  by (rule flush_pending_completes [OF failed_write_reachable]) simp

section \<open>Properties of redaction\<close>

lemma redacted_headers_sound:
  assumes "(name, v) \<in> set (RedactedHeaders U headers allowlist)"
  shows "name \<in> set (allowed_names U allowlist) \<and> (IsDeniedHeaderName U name \<longrightarrow> v = ''[REDACTED]'')"
proof -
  let ?f = "\<lambda>h acc. let name = su_lower U (fst h)
        in if any (\<lambda>c. name = c) (allowed_names U allowlist) \<and> \<not> any (\<lambda>e. fst e = name) acc
           then acc @ [(name, if IsDeniedHeaderName U name then ''[REDACTED]'' else snd h)] else acc"
  have "(name, v) \<in> set (fold ?f hs acc) \<Longrightarrow>
      (name, v) \<in> set acc \<or> name \<in> set (allowed_names U allowlist) \<and> (IsDeniedHeaderName U name \<longrightarrow> v = ''[REDACTED]'')" for hs acc
  proof (induction hs arbitrary: acc)
    case (Cons h hs)
    then have "(name, v) \<in> set (fold ?f hs (?f h acc))" by simp
    from Cons.IH [OF this] show ?case by (auto simp: Let_def any_iff split: if_splits)
  qed simp
  from this [of headers "[]"] assms show ?thesis by (simp add: RedactedHeaders_def)
qed

text \<open>Two raw query texts that differ only in values of denied keys.\<close>

definition same_public :: "string_util \<Rightarrow> string \<Rightarrow> string \<Rightarrow> bool" where
  "same_public U p q =
     (until_char (CHR ''='') p = until_char (CHR ''='') q \<and> (p = q \<or> IsDeniedQueryKey U (until_char (CHR ''='') p)))"

lemma redact_pair_public: "same_public U p q \<Longrightarrow> redact_pair U p = redact_pair U q"
  by (auto simp: same_public_def redact_pair_def Let_def)

lemma redact_pairs_join:
  "ps \<noteq> [] \<Longrightarrow> \<forall>p \<in> set ps. CHR ''&'' \<notin> set p \<Longrightarrow> redact_pairs U (join_with ''&'' ps) = join_with ''&'' (map (redact_pair U) ps)"
proof (induction ps rule: induct_list012)
  case (2 p)
  have w: "takeWhile (\<lambda>c. c \<noteq> CHR ''&'') p = p" "dropWhile (\<lambda>c. c \<noteq> CHR ''&'') p = []"
    using 2 by (auto simp: takeWhile_eq_all_conv dropWhile_eq_Nil_conv)
  show ?case by (simp only: redact_pairs.simps [of U p] until_char_def w join_with.simps list.map) (simp add: Let_def)
next
  case (3 p q ps)
  let ?rest = "join_with ''&'' (q # ps)"
  have w: "takeWhile (\<lambda>c. c \<noteq> CHR ''&'') (p @ CHR ''&'' # ?rest) = p"
    "dropWhile (\<lambda>c. c \<noteq> CHR ''&'') (p @ CHR ''&'' # ?rest) = CHR ''&'' # ?rest"
    using 3 by (auto simp: takeWhile_append dropWhile_append)
  have "redact_pairs U (p @ CHR ''&'' # ?rest) = redact_pair U p @ ''&'' @ redact_pairs U ?rest"
    by (simp only: redact_pairs.simps [of U "p @ CHR ''&'' # ?rest"] until_char_def w) (simp add: Let_def)
  moreover have "redact_pairs U ?rest = join_with ''&'' (map (redact_pair U) (q # ps))" using 3 by simp
  ultimately show ?case by simp
qed simp

text \<open>
  What the access log keeps of a query string does not depend on the values of denied keys:
  two requests whose query strings have the same keys in the same order and differ only in such
  values leave the same text in the log.
\<close>

theorem query_redaction_hides:
  assumes "list_all2 (same_public U) ps qs" and "ps \<noteq> []"
    and "\<forall>p \<in> set ps \<union> set qs. CHR ''&'' \<notin> set p" and "CHR ''?'' \<notin> set path"
  shows "RedactRawQuery U (path @ ''?'' @ join_with ''&'' ps) = RedactRawQuery U (path @ ''?'' @ join_with ''&'' qs)"
proof -
  have d: "dropWhile (\<lambda>c. c \<noteq> CHR ''?'') (path @ ''?'' @ s) = CHR ''?'' # s" for s
    using assms(4) by (auto simp: dropWhile_append)
  have "map (redact_pair U) ps = map (redact_pair U) qs"
    using assms(1) by (induction rule: list_all2_induct) (simp_all add: redact_pair_public)
  moreover have "qs \<noteq> []" using assms(1,2) by auto
  ultimately have "redact_pairs U (join_with ''&'' ps) = redact_pairs U (join_with ''&'' qs)"
    using assms(2,3) by (simp add: redact_pairs_join)
  then show ?thesis by (simp add: RedactRawQuery_def d [simplified])
qed

theorem query_redaction_hides_witness:
  "RedactRawQuery ascii_util ''/a?x=1&api_key=s3cret'' = RedactRawQuery ascii_util ''/a?x=1&api_key=other''"
proof -
  have d: "IsDeniedQueryKey ascii_util ''api_key''" by code_simp
  have "RedactRawQuery ascii_util (''/a'' @ ''?'' @ join_with ''&'' [''x=1'', ''api_key=s3cret'']) =
    RedactRawQuery ascii_util (''/a'' @ ''?'' @ join_with ''&'' [''x=1'', ''api_key=other''])"
    by (rule query_redaction_hides) (simp_all add: same_public_def until_char_def d)
  then show ?thesis by simp
qed

text \<open>
  The message of a server error whose text ends in a backslash is not cut where it ends: the
  closing quote follows a backslash and is taken for an escaped one.
\<close>

lemma error_message_runs_over:
  "detail_json [CHR ''a'', CHR 0x5C] = detail_prefix @ [CHR ''a'', CHR 0x5C, CHR 0x5C, CHR 0x22, CHR ''}'']"
  "ErrorMessageFromResponse ascii_util (detail_json [CHR ''a'', CHR 0x5C]) = [CHR ''a'', CHR 0x5C, CHR 0x5C, CHR 0x22, CHR ''}'']"
  by code_simp+

end
