(* ===== verification/Server.thy ===== *)
theory Server
  imports Routing Telemetry Auth Middleware RateLimit
begin

text \<open>
  The request pipeline of \<open>src/src/quackapi_server.cpp\<close>: cross-origin headers, the client key of
  the rate limiter, WebSocket admission, and \<open>HandleRequest\<close> from the first byte to the point
  where a route's handler runs, with the epilogue every answer goes through. What the handler
  itself does is the argument \<open>run\<close>, so that its definition can be put in its place. DuckDB, the
  clock, and the policy rewriter (which works on DuckDB's syntax trees) are parameters.
\<close>

section \<open>Cross-origin requests\<close>

definition default_cors_headers :: string where
  "default_cors_headers = ''Authorization, Content-Type, X-API-Key''"

definition allow_origin :: "string_util \<Rightarrow> string \<Rightarrow> string \<Rightarrow> string" where
  "allow_origin U cors_origins origin =
     (if cors_origins = ''*'' then ''*''
      else case List.find (\<lambda>part. su_trim U part \<noteq> [] \<and> su_trim U part = origin) (su_split U cors_origins (CHR '','')) of
        None \<Rightarrow> [] | Some _ \<Rightarrow> origin)"

definition ApplyCorsHeaders :: "string_util \<Rightarrow> string \<Rightarrow> multimap \<Rightarrow> Response \<Rightarrow> Response" where
  "ApplyCorsHeaders U cors_origins req_headers res =
     (if cors_origins = [] then res
      else let origin = (case find_header req_headers ''Origin'' of None \<Rightarrow> [] | Some o' \<Rightarrow> o');
               allowed = allow_origin U cors_origins origin;
               requested = (case find_header req_headers ''Access-Control-Request-Headers'' of
                   Some h \<Rightarrow> if h \<noteq> [] then h else default_cors_headers | None \<Rightarrow> default_cors_headers)
           in if cors_origins \<noteq> ''*'' \<and> allowed = [] then res
              else set_headers ([(''Access-Control-Allow-Origin'', allowed),
                     (''Access-Control-Allow-Methods'', ''GET, HEAD, POST, PUT, DELETE, PATCH, OPTIONS''),
                     (''Access-Control-Allow-Headers'', requested), (''Access-Control-Max-Age'', ''600'')] @
                     (if allowed \<noteq> ''*'' then [(''Vary'', ''Origin'')] else [])) res)"

definition OriginAllowed :: "string_util \<Rightarrow> string \<Rightarrow> multimap \<Rightarrow> bool" where
  "OriginAllowed U cors_origins headers =
     (let origin = get_header_value headers ''Origin''; host_header = get_header_value headers ''Host''
      in if origin = [] \<or> cors_origins = ''*'' then True
         else if any (\<lambda>part. QuackapiTrim U part = origin) (su_split U cors_origins (CHR '','')) then True
         else host_header \<noteq> [] \<and> (origin = ''http://'' @ host_header \<or> origin = ''https://'' @ host_header))"

section \<open>The client key of the rate limiter\<close>

definition RateLimitClientKey :: "string_util \<Rightarrow> mbedtls \<Rightarrow> 'v QuackapiState \<Rightarrow> Request \<Rightarrow> string \<Rightarrow> 'v QuackapiRoute
    \<Rightarrow> QuackapiAuthResult \<Rightarrow> string result" where
  "RateLimitClientKey U M s req by' route verified =
     (let by_ip = Inr (''ip:'' @ (if rq_remote_addr req = [] then ''unknown'' else rq_remote_addr req))
      in if by' = ''token'' \<or> by' = ''key'' then
           (case GetAuth U (rt_require_auth route) s of
              Some scheme \<Rightarrow>
                if rt_require_auth route \<noteq> [] \<and> ar_ok verified then
                  (case map_of (ar_claims verified) ''sub'' of
                     Some sub \<Rightarrow>
                       if sub \<noteq> [] then map_sum id (\<lambda>h. ''sub:'' @ h) (QuackapiSha256 M (rt_require_auth route @ '':'' @ sub))
                       else map_sum id (\<lambda>h. ''tok:'' @ h)
                         (QuackapiSha256 M (ExtractAuthString U scheme (CollectHeaders U (rq_headers req))))
                   | None \<Rightarrow> map_sum id (\<lambda>h. ''tok:'' @ h)
                         (QuackapiSha256 M (ExtractAuthString U scheme (CollectHeaders U (rq_headers req)))))
                else by_ip
            | None \<Rightarrow> by_ip)
         else by_ip)"

section \<open>WebSocket admission\<close>

definition is_websocket_upgrade :: "Request \<Rightarrow> bool" where
  "is_websocket_upgrade req =
     (let hs = rq_headers req; key = get_header_value hs ''Sec-WebSocket-Key''
      in rq_method req = ''GET'' \<and>
         (case find_header hs ''Upgrade'' of None \<Rightarrow> False | Some v \<Rightarrow> map hl_lower v = ''websocket'') \<and>
         (case find_header hs ''Connection'' of None \<Rightarrow> False | Some v \<Rightarrow> sublist ''upgrade'' (map hl_lower v)) \<and>
         length key = 24 \<and> drop 22 key = ''=='' \<and>
         list_all (\<lambda>c. is_alpha c \<or> is_digit c \<or> c = CHR ''+'' \<or> c = CHR ''/'') (take 22 key) \<and>
         get_header_value hs ''Sec-WebSocket-Version'' = ''13'')"

function (sequential) cut_utf8 :: "string \<Rightarrow> nat \<Rightarrow> nat" where
  "cut_utf8 message end' =
     (if end' > 0 \<and> end' < length message \<and> 128 \<le> byte (message ! end') \<and> byte (message ! end') < 192
      then cut_utf8 message (end' - 1) else end')"
  by pat_completeness auto
termination by (relation "measure snd") auto

declare cut_utf8.simps [simp del]

definition WebSocketCloseReason :: "string \<Rightarrow> string" where
  "WebSocketCloseReason message = take (cut_utf8 message (min (length message) 123)) message"

text \<open>The first WebSocket stream whose pattern matches, with its captures.\<close>

fun find_ws_stream :: "string \<Rightarrow> QuackapiStream list \<Rightarrow> (QuackapiStream \<times> (string \<times> string) list) option" where
  "find_ws_stream path [] = None"
| "find_ws_stream path (stream # live) =
     (if st_transport stream = WS then
        (case MatchPattern (st_pattern stream) path of Some c \<Rightarrow> Some (stream, c) | None \<Rightarrow> find_ws_stream path live)
      else find_ws_stream path live)"

datatype ws_admission =
    NotWebSocket
  | WsRejected int string
  | WsAdmitted QuackapiStream "(string \<times> string) list"

text \<open>
  Admission up to the session counter. The counter is incremented before it is compared, and
  decremented again when the limit was reached; the result is the counter after the step.
\<close>

definition admit_websocket :: "string_util \<Rightarrow> string \<Rightarrow> bool \<Rightarrow> nat \<Rightarrow> Request \<Rightarrow> QuackapiStream list \<Rightarrow> nat \<Rightarrow> nat \<times> ws_admission" where
  "admit_websocket U cors_origins db_alive session_limit req live sessions =
     (if \<not> is_websocket_upgrade req then (sessions, NotWebSocket)
      else if \<not> db_alive then (sessions, WsRejected 503 (detail_body ''database shutting down''))
      else case find_ws_stream (rq_path req) live of
        None \<Rightarrow> (sessions, WsRejected 404 (detail_body ''Not Found''))
      | Some (stream, captures) \<Rightarrow>
          if \<not> OriginAllowed U cors_origins (rq_headers req) then (sessions, WsRejected 403 (detail_body ''Origin not allowed''))
          else if sessions \<ge> session_limit then (sessions, WsRejected 503 (detail_body ''Too many open WebSocket sessions''))
          else (sessions + 1, WsAdmitted stream captures))"

definition websocket_session_limit :: "nat \<Rightarrow> nat" where
  "websocket_session_limit workers = max 1 (workers div 2)"

section \<open>The epilogue of every answer\<close>

record request_env =
  re_util :: string_util
  re_floats :: float_text
  re_compressors :: compressors
  re_mbedtls :: mbedtls
  re_json :: json_db
  re_now_exp :: int
  re_now_nbf :: int
  re_now_ns :: int
  re_elapsed_ms :: int
  re_db_alive :: bool
  re_fresh_id :: string
  re_rewrite :: "string \<Rightarrow> bool \<Rightarrow> string \<times> bool \<times> string"

definition erase_response_header :: "string \<Rightarrow> Response \<Rightarrow> Response" where
  "erase_response_header key res = res\<lparr>rs_headers := erase_header key (rs_headers res)\<rparr>"

definition enforce_limits :: "request_env \<Rightarrow> QuackapiServeOptions \<Rightarrow> Response \<Rightarrow> Response" where
  "enforce_limits E options res =
     (if re_elapsed_ms E \<ge> so_query_timeout_ms options then
        SetJson 504 (detail_body ''Query execution deadline exceeded'') (erase_response_header ''Content-Encoding'' res)
      else if int (length (rs_body res)) > so_max_response_bytes options then
        SetJson 507 (detail_body ''Response exceeds configured byte limit'') (erase_response_header ''Content-Encoding'' res)
      else res)"

definition finish_request :: "request_env \<Rightarrow> QuackapiServeOptions \<Rightarrow> string \<Rightarrow> Request \<Rightarrow> (Response \<Rightarrow> Response) \<Rightarrow> Response \<Rightarrow> Response" where
  "finish_request E options request_id req after_middleware res =
     (let res1 = enforce_limits E options (after_middleware res);
          res2 = (if request_id \<noteq> [] then set_header ''X-Request-ID'' request_id res1 else res1);
          res3 = ApplyCorsHeaders (re_util E) (so_cors_origins options) (rq_headers req) res2
      in MaybeCompressResponse (re_util E) (re_floats E) (re_compressors E) (so_compression options)
           (so_compression_min_bytes options) (rq_headers req) res3)"

definition choose_request_id :: "request_env \<Rightarrow> Request \<Rightarrow> string" where
  "choose_request_id E req =
     (let client_rid = SanitizeClientRequestId (get_header_value (rq_headers req) ''X-Request-ID'')
      in if client_rid \<noteq> [] then client_rid else re_fresh_id E)"

section \<open>From a matched route to its handler\<close>

text \<open>
  The guards before the handler, in the order of the code: authentication is checked, the rate
  limit is charged, and only then a failed authentication is answered; policies come last.
  \<open>Inl\<close> is an answer, \<open>Inr\<close> the claims and the SQL to run.
\<close>

definition charge_rate_limit :: "request_env \<Rightarrow> 'v QuackapiRoute \<Rightarrow> Request \<Rightarrow> QuackapiAuthResult \<Rightarrow> 'v QuackapiState
    \<Rightarrow> ('v QuackapiState \<times> (bool \<times> int)) result" where
  "charge_rate_limit E route req auth_result s =
     (if rt_rate_limit_n route > 0 \<and> rt_rate_limit_per_sec route > 0 then
        (let by' = (if rt_rate_limit_by route = [] then ''ip'' else rt_rate_limit_by route)
         in case RateLimitClientKey (re_util E) (re_mbedtls E) s req by' route auth_result of
              Inl e \<Rightarrow> Inl e
            | Inr client \<Rightarrow>
                (case AllowRateLimit (re_now_ns E) (rt_name route) client (rt_rate_limit_n route) (rt_rate_limit_per_sec route)
                        (rate_limit_entries s) of
                   (ok, retry, m) \<Rightarrow> Inr (s\<lparr>rate_limit_entries := m\<rparr>, ok, retry)))
      else Inr (s, True, 0))"

definition int_string :: "int \<Rightarrow> string" where
  "int_string n = (if n < 0 then ''-'' @ nat_string (nat (- n)) else nat_string (nat n))"

definition auth_failure :: "QuackapiAuthResult \<Rightarrow> Response \<Rightarrow> Response" where
  "auth_failure auth_result res =
     SetJson (ar_status auth_result) (ar_body auth_result)
       (if ar_www_authenticate auth_result \<noteq> [] then set_header ''WWW-Authenticate'' (ar_www_authenticate auth_result) res else res)"

definition route_guards :: "request_env \<Rightarrow> 'v QuackapiRoute \<Rightarrow> Request \<Rightarrow> Response \<Rightarrow> 'v QuackapiState
    \<Rightarrow> 'v QuackapiState \<times> (Response + (claims \<times> string)) result" where
  "route_guards E route req res s =
     (case CheckAuth (re_util E) (re_mbedtls E) (re_json E) (re_now_exp E) (re_now_nbf E) s route (CollectHeaders (re_util E) (rq_headers req)) of
        Inl e \<Rightarrow> (s, Inl e)
      | Inr auth_result \<Rightarrow> (case charge_rate_limit E route req auth_result s of
          Inl e \<Rightarrow> (s, Inl e)
        | Inr (s1, allowed, retry_after) \<Rightarrow>
            (s1, Inr
              (if \<not> allowed then
                 Inl (SetJson 429 (detail_body ''Rate limit exceeded'') (set_header ''Retry-After'' (int_string retry_after) res))
               else if \<not> ar_ok auth_result then Inl (auth_failure auth_result res)
               else case re_rewrite E (rt_handler_sql route) (rt_require_auth route \<noteq> [] \<and> ar_ok auth_result) of
                 (handler_sql, deny_unauth, policy_error) \<Rightarrow>
                   if deny_unauth \<or> policy_error \<noteq> [] then
                     Inl (SetJson 403 (detail_body ''Policy denies unauthenticated access'') res)
                   else Inr (ar_claims auth_result, handler_sql)))))"

section \<open>Built-in routes\<close>

record QuackapiTelemetryStatus =
  te_sink :: string
  te_queued :: nat
  te_exported_total :: nat
  te_dropped_total :: nat
  te_last_error :: string

definition TelemetryHealthJson :: "QuackapiTelemetryStatus list \<Rightarrow> string" where
  "TelemetryHealthJson statuses =
     ''['' @ comma_list (map (\<lambda>st. ''{'' @ json_member ''sink'' (json_quote (te_sink st)) @ '','' @
       json_member ''queued'' (nat_string (te_queued st)) @ '','' @
       json_member ''exported_total'' (nat_string (te_exported_total st)) @ '','' @
       json_member ''dropped_total'' (nat_string (te_dropped_total st)) @ '','' @
       json_member ''last_error'' (json_quote (te_last_error st)) @ ''}'') statuses) @ '']''"

definition AccessLogOverflowCount :: "QuackapiTelemetryStatus list \<Rightarrow> nat" where
  "AccessLogOverflowCount statuses = sum_list (map te_dropped_total statuses)"

text \<open>
  What the built-in routes read: DuckDB's version when the check query succeeds, the uptime, the
  telemetry, and the GraphQL and OpenAPI generators (\<open>Inl\<close> is the message of an exception).
\<close>

record builtin_env =
  bi_version :: "string option"
  bi_uptime_sec :: int
  bi_telemetry :: "QuackapiTelemetryStatus list"
  bi_gql_extract :: "string \<Rightarrow> string + string"
  bi_gql_execute :: "string list option \<Rightarrow> bool \<Rightarrow> claims \<Rightarrow> nat \<Rightarrow> string \<Rightarrow> string + string"
  bi_gql_schema :: "string list option \<Rightarrow> string \<Rightarrow> bool \<Rightarrow> claims \<Rightarrow> string + string"
  bi_openapi :: "string + string"
  bi_docs_html :: string
  bi_redoc_html :: string

definition healthz_body :: "builtin_env \<Rightarrow> QuackapiServeOptions \<Rightarrow> string \<Rightarrow> string" where
  "healthz_body B options version =
     ''{'' @ json_member ''status'' (json_quote ''ok'') @ '','' @ json_member ''version'' (json_quote version) @ '','' @
       json_member ''uptime_sec'' (int_string (bi_uptime_sec B)) @ '','' @
       json_member ''request_id_source'' (json_quote (if so_request_id_source options = [] then ''uuidv7'' else so_request_id_source options)) @ '','' @
       json_member ''http_client'' (json_quote (if so_http_client_active options = [] then ''httplib'' else so_http_client_active options)) @ '','' @
       json_member ''http_client_reason'' (json_quote (so_http_client_reason options)) @ '','' @
       json_member ''access_log_overflow_count'' (nat_string (AccessLogOverflowCount (bi_telemetry B))) @ '','' @
       json_member ''telemetry'' (TelemetryHealthJson (bi_telemetry B)) @ ''}''"

definition health_response :: "builtin_env \<Rightarrow> QuackapiServeOptions \<Rightarrow> Request \<Rightarrow> Response \<Rightarrow> Response option" where
  "health_response B options req res =
     (if so_health_routes options \<and> (rq_method req = ''GET'' \<or> rq_method req = ''HEAD'') then
        if rq_path req = ''/health'' then Some (SetJson 200 (''{'' @ json_member ''status'' (json_quote ''ok'') @ ''}'') res)
        else if rq_path req = ''/healthz'' then
          Some (case bi_version B of
            Some version \<Rightarrow> SetJson 200 (healthz_body B options version) res
          | None \<Rightarrow> SetJson 503 (''{'' @ json_member ''status'' (json_quote ''not_ready'') @ '','' @
              json_member ''detail'' (json_quote ''database handle check failed'') @ ''}'') res)
        else None
      else None)"

definition graphql_errors :: "string \<Rightarrow> string" where
  "graphql_errors msg = ''{'' @ json_member ''errors'' (''[{'' @ json_member ''message'' (json_quote msg) @ ''}]'') @ ''}''"

definition or_errors :: "string + string \<Rightarrow> string" where
  "or_errors r = (case r of Inl msg \<Rightarrow> graphql_errors msg | Inr body \<Rightarrow> body)"

definition QUACKAPI_GRAPHQL_DEFAULT_LIMIT :: nat where
  "QUACKAPI_GRAPHQL_DEFAULT_LIMIT = 100"

text \<open>
  The authentication of a GraphQL mount: \<open>Inl\<close> is the refusal; a mount without a scheme has a
  default-constructed result, which is not a successful one.
\<close>

definition graphql_auth :: "request_env \<Rightarrow> 'v QuackapiState \<Rightarrow> 'v QuackapiRoute \<Rightarrow> QuackapiGraphqlRoute \<Rightarrow> Request \<Rightarrow> Response
    \<Rightarrow> (Response + (bool \<times> claims)) result" where
  "graphql_auth E s probe gql req res =
     (if gq_require_auth gql = [] then Inr (Inr (False, []))
      else case CheckAuth (re_util E) (re_mbedtls E) (re_json E) (re_now_exp E) (re_now_nbf E) s
             (probe\<lparr>rt_require_auth := gq_require_auth gql\<rparr>) (CollectHeaders (re_util E) (rq_headers req)) of
        Inl e \<Rightarrow> Inl e
      | Inr auth_result \<Rightarrow>
          if \<not> ar_ok auth_result then Inr (Inl (auth_failure auth_result res))
          else Inr (Inr (True, ar_claims auth_result)))"

definition graphql_mount :: "request_env \<Rightarrow> builtin_env \<Rightarrow> 'v QuackapiState \<Rightarrow> 'v QuackapiRoute \<Rightarrow> Request \<Rightarrow> Response
    \<Rightarrow> Response result option" where
  "graphql_mount E B s probe req res =
     (case (if rq_method req = ''POST'' then GetGraphqlRouteByPath (re_util E) (rq_path req) (rq_method req) s else None) of
        Some gql \<Rightarrow> Some (case graphql_auth E s probe gql req res of
            Inl e \<Rightarrow> Inl e
          | Inr (Inl denied) \<Rightarrow> Inr denied
          | Inr (Inr (authenticated, claims)) \<Rightarrow> (case bi_gql_extract B (rq_body req) of
              Inl gql_err \<Rightarrow> Inr (SetJson 400 gql_err res)
            | Inr gql_query \<Rightarrow> Inr (SetJson 200 (or_errors (bi_gql_execute B (Some (gq_tables gql)) authenticated claims
                (if gq_limit gql = 0 then QUACKAPI_GRAPHQL_DEFAULT_LIMIT else gq_limit gql) gql_query)) res)))
      | None \<Rightarrow>
          (case (if rq_method req = ''GET'' \<or> rq_method req = ''HEAD'' then GetGraphqlRouteBySchemaPath (rq_path req) s else None) of
             Some gql \<Rightarrow> Some (case graphql_auth E s probe gql req res of
                 Inl e \<Rightarrow> Inl e
               | Inr (Inl denied) \<Rightarrow> Inr denied
               | Inr (Inr (authenticated, claims)) \<Rightarrow>
                   Inr (SetJson 200 (or_errors (bi_gql_schema B (Some (gq_tables gql)) (gq_name gql) authenticated claims)) res))
           | None \<Rightarrow> None))"

definition graphql_builtin :: "builtin_env \<Rightarrow> QuackapiServeOptions \<Rightarrow> Request \<Rightarrow> Response \<Rightarrow> Response option" where
  "graphql_builtin B options req res =
     (if rq_path req = ''/graphql'' \<or> rq_path req = ''/graphql/'' then
        Some (if rq_method req = ''POST'' then
                (case bi_gql_extract B (rq_body req) of
                   Inl gql_err \<Rightarrow> SetJson 400 gql_err res
                 | Inr gql_query \<Rightarrow>
                     SetJson 200 (or_errors (bi_gql_execute B None False [] QUACKAPI_GRAPHQL_DEFAULT_LIMIT gql_query)) res)
              else if rq_method req = ''OPTIONS'' then
                (if so_cors_origins options = [] then method_not_allowed ''POST'' res else preflight ''POST, OPTIONS'' res)
              else method_not_allowed ''POST'' res)
      else if (rq_method req = ''GET'' \<or> rq_method req = ''HEAD'') \<and>
              (rq_path req = ''/graphql/schema'' \<or> rq_path req = ''/graphql/schema/'') then
        Some (SetJson 200 (or_errors (bi_gql_schema B None [] False [])) res)
      else None)"

definition SetInternalError :: "string \<Rightarrow> Response \<Rightarrow> Response" where
  "SetInternalError server_side_detail res = SetJson 500 (detail_json server_side_detail) res"

definition docs_builtin :: "builtin_env \<Rightarrow> QuackapiServeOptions \<Rightarrow> Request \<Rightarrow> Response \<Rightarrow> Response option" where
  "docs_builtin B options req res =
     (if rq_method req = ''GET'' \<or> rq_method req = ''HEAD'' then
        if rq_path req = ''/openapi.json'' then
          Some (case bi_openapi B of Inl msg \<Rightarrow> SetInternalError msg res | Inr doc \<Rightarrow> SetJson 200 doc res)
        else if rq_path req = ''/docs'' \<or> rq_path req = ''/docs/'' then
          Some (set_content (bi_docs_html B) ''text/html; charset=utf-8'' (res\<lparr>rs_status := 200\<rparr>))
        else if rq_path req = ''/redoc'' \<or> rq_path req = ''/redoc/'' then
          Some (set_content (bi_redoc_html B) ''text/html; charset=utf-8'' (res\<lparr>rs_status := 200\<rparr>))
        else None
      else if rq_method req = ''OPTIONS'' \<and>
         rq_path req \<in> {''/openapi.json'', ''/docs'', ''/docs/'', ''/redoc'', ''/redoc/''} then
        Some (if so_cors_origins options = [] then method_not_allowed ''GET, HEAD'' res else preflight ''GET, HEAD, OPTIONS'' res)
      else None)"

section \<open>Middleware around the handler\<close>

record middleware_env =
  me_registry :: QuackapiMiddlewareRegistry
  me_before :: "nat \<Rightarrow> hook_env"
  me_after :: "nat \<Rightarrow> hook_env"
  me_elapsed_before :: int
  me_elapsed_after :: int

definition middleware_context :: "middleware_env \<Rightarrow> QuackapiServeOptions \<Rightarrow> Request \<Rightarrow> 'v QuackapiRoute \<Rightarrow> string \<Rightarrow> claims
    \<Rightarrow> QuackapiMiddlewareContext" where
  "middleware_context W options req route request_id claims =
     \<lparr>mc_method = rq_method req, mc_path = rq_path req, mc_route_name = rt_name route, mc_group_name = rt_group_name route,
      mc_request_id = request_id, mc_request_body = rq_body req, mc_headers_json = PairsToJsonObject (rq_headers req),
      mc_query_json = PairsToJsonObject (rq_params req), mc_client_ip = rq_remote_addr req,
      mc_auth_subject = (case map_of claims ''sub'' of Some s \<Rightarrow> s | None \<Rightarrow> []), mc_status = 0, mc_response_body = [],
      mc_response_headers = [], mc_timeout_ms = so_query_timeout_ms options, mc_elapsed_ms = me_elapsed_before W,
      mc_middleware_failed = False\<rparr>"

definition has_middleware :: "QuackapiMiddlewareRegistry \<Rightarrow> 'v QuackapiRoute \<Rightarrow> bool" where
  "has_middleware r route =
     (MiddlewareSnapshot BEFORE (rt_group_name route) r \<noteq> [] \<or> MiddlewareSnapshot AFTER (rt_group_name route) r \<noteq> [])"

definition after_middleware :: "string_util \<Rightarrow> middleware_env \<Rightarrow> bool \<Rightarrow> claims \<Rightarrow> QuackapiMiddlewareContext \<Rightarrow> Response \<Rightarrow> Response" where
  "after_middleware U W authenticated claims context res =
     (case ExecuteQuackapiMiddleware U (me_after W) (me_registry W) AFTER (mc_group_name context) authenticated (map_of claims)
             (context\<lparr>mc_status := rs_status res, mc_response_body := rs_body res, mc_elapsed_ms := me_elapsed_after W\<rparr>) of
        (ok, context') \<Rightarrow>
          set_headers (mc_response_headers context')
            (if ok then res else SetJson (mc_status context') (mc_response_body context') res))"

text \<open>
  The hooks before the handler, the handler, and the hooks the epilogue will run: \<open>False\<close> when a
  hook refused the request and the handler did not run.
\<close>

definition with_middleware :: "string_util \<Rightarrow> middleware_env \<Rightarrow> QuackapiServeOptions \<Rightarrow> Request \<Rightarrow> 'v QuackapiRoute \<Rightarrow> string \<Rightarrow> claims
    \<Rightarrow> (Response \<Rightarrow> Response) \<Rightarrow> Response \<Rightarrow> bool \<times> Response \<times> (Response \<Rightarrow> Response)" where
  "with_middleware U W options req route request_id claims handler res =
     (let authenticated = (rt_require_auth route \<noteq> [])
      in if has_middleware (me_registry W) route then
           (case ExecuteQuackapiMiddleware U (me_before W) (me_registry W) BEFORE (rt_group_name route) authenticated (map_of claims)
                   (middleware_context W options req route request_id claims) of
              (False, context) \<Rightarrow>
                (False, set_headers (mc_response_headers context) (SetJson (mc_status context) (mc_response_body context) res), id)
            | (True, context) \<Rightarrow> (True, handler res, after_middleware U W authenticated claims context))
         else (True, handler res, id))"

section \<open>The whole request\<close>

record 'v served =
  sr_state :: "'v QuackapiState"
  sr_response :: Response
  sr_ran :: "('v QuackapiRoute \<times> (string \<times> string) list \<times> claims \<times> string) option"

text \<open>The live views of the registry; a missing snapshot is published first.\<close>

definition live_views :: "'v QuackapiState \<Rightarrow> 'v QuackapiRoute list \<times> QuackapiStream list \<times> 'v QuackapiState" where
  "live_views s = (case LiveRoutes s of (live_routes, s1) \<Rightarrow> (case LiveStreams s1 of (live_streams, s2) \<Rightarrow> (live_routes, live_streams, s2)))"

definition first_answer :: "'a option list \<Rightarrow> 'a option" where
  "first_answer xs = (case List.find (\<lambda>x. x \<noteq> None) xs of Some x \<Rightarrow> x | None \<Rightarrow> None)"

text \<open>
  \<open>run\<close> is the route's handler; \<open>stream\<close> is what an event stream does: \<open>Inl\<close> an answer that
  goes through the epilogue, \<open>Inr\<close> a response whose body is produced later and which does not. An exception that leaves the authentication or the rate
  limiter leaves the function (\<open>Inl\<close>): neither is inside a \<open>try\<close>.
\<close>

definition HandleRequest :: "request_env \<Rightarrow> builtin_env \<Rightarrow> middleware_env \<Rightarrow> QuackapiServeOptions
    \<Rightarrow> ('v QuackapiRoute \<Rightarrow> (string \<times> string) list \<Rightarrow> claims \<Rightarrow> string \<Rightarrow> Response \<Rightarrow> Response)
    \<Rightarrow> (QuackapiStream \<Rightarrow> (string \<times> string) list \<Rightarrow> string \<Rightarrow> Response \<Rightarrow> Response + Response)
    \<Rightarrow> 'v QuackapiRoute \<Rightarrow> Request \<Rightarrow> Response \<Rightarrow> 'v QuackapiState \<Rightarrow> 'v served result" where
  "HandleRequest E B W options run stream probe req res s =
     (if \<not> re_db_alive E then
        Inr \<lparr>sr_state = s, sr_response = finish_request E options [] req id (SetJson 503 (detail_body ''database shutting down'') res),
          sr_ran = None\<rparr>
      else let request_id = choose_request_id E req;
               finish = finish_request E options request_id req;
               answer = (\<lambda>r. Inr \<lparr>sr_state = s, sr_response = finish id r, sr_ran = None\<rparr>)
           in case health_response B options req res of
                Some r \<Rightarrow> answer r
              | None \<Rightarrow> (case graphql_mount E B s probe req res of
                  Some (Inl e) \<Rightarrow> Inl e
                | Some (Inr r) \<Rightarrow> answer r
                | None \<Rightarrow> (case first_answer [graphql_builtin B options req res, docs_builtin B options req res] of
                    Some r \<Rightarrow> answer r
                  | None \<Rightarrow>
                      (case live_views s of
                         (live_routes, live_streams, s1) \<Rightarrow>
                           (case route_request (re_util E) (so_cors_origins options) (so_max_request_bytes options) req live_routes live_streams res of
                              Inl r \<Rightarrow> Inr \<lparr>sr_state = s1, sr_response = finish id r, sr_ran = None\<rparr>
                            | Inr ms \<Rightarrow> (case ms_match ms of
                                None \<Rightarrow> (case ms_stream ms of
                                    Some (st, captures) \<Rightarrow> (case stream st captures request_id res of
                                        Inl r \<Rightarrow> Inr \<lparr>sr_state = s1, sr_response = finish id r, sr_ran = None\<rparr>
                                      | Inr r \<Rightarrow> Inr \<lparr>sr_state = s1, sr_response = r, sr_ran = None\<rparr>)
                                  | None \<Rightarrow> Inr \<lparr>sr_state = s1, sr_response = finish id res, sr_ran = None\<rparr>)
                              | Some (route, captures) \<Rightarrow> (case route_guards E route req res s1 of
                                  (s2, Inl e) \<Rightarrow> Inl e
                                | (s2, Inr (Inl r)) \<Rightarrow> Inr \<lparr>sr_state = s2, sr_response = finish id r, sr_ran = None\<rparr>
                                | (s2, Inr (Inr (claims, sql))) \<Rightarrow>
                                    (case with_middleware (re_util E) W options req route request_id claims
                                            (run route captures claims sql) res of
                                       (handled, r, after) \<Rightarrow>
                                         Inr \<lparr>sr_state = s2, sr_response = finish after r,
                                           sr_ran = (if handled then Some (route, captures, claims, sql) else None)\<rparr>))))))))"

section \<open>Properties of the pipeline\<close>

lemma set_header_new: "h \<in> set (rs_headers (set_header k v res)) \<Longrightarrow> h = (k, v) \<or> h \<in> set (rs_headers res)"
  by (auto simp: set_header_def emplace_header_def split: if_splits)

lemma set_headers_new: "h \<in> set (rs_headers (set_headers hs res)) \<Longrightarrow> h \<in> set hs \<or> h \<in> set (rs_headers res)"
proof (induction hs arbitrary: res)
  case (Cons k hs)
  then have "h \<in> set (rs_headers (set_headers hs (set_header (fst k) (snd k) res)))" by (simp add: set_headers_def)
  from Cons.IH [OF this] show ?case using set_header_new [of h "fst k" "snd k" res] by auto
qed (simp add: set_headers_def)

text \<open>
  Cross-origin access is given only as configured: an allowed origin added to a response is the
  wildcard exactly when the server is configured with the wildcard, and otherwise it is the
  request's own origin and an entry of the configured list.
\<close>

theorem cors_as_configured:
  assumes "(''Access-Control-Allow-Origin'', v) \<in> set (rs_headers (ApplyCorsHeaders U cors_origins req_headers res))"
    and "(''Access-Control-Allow-Origin'', v) \<notin> set (rs_headers res)"
  shows "if cors_origins = ''*'' then v = ''*''
    else find_header req_headers ''Origin'' = Some v \<and> v \<in> su_trim U ` set (su_split U cors_origins (CHR '',''))"
proof -
  let ?origin = "case find_header req_headers ''Origin'' of None \<Rightarrow> [] | Some o' \<Rightarrow> o'"
  have ne: "cors_origins \<noteq> []" "cors_origins = ''*'' \<or> allow_origin U cors_origins ?origin \<noteq> []"
    using assms by (auto simp: ApplyCorsHeaders_def Let_def split: if_splits)
  have v: "v = allow_origin U cors_origins ?origin"
    using assms ne by (auto simp: ApplyCorsHeaders_def Let_def dest!: set_headers_new split: if_splits)
  show ?thesis
  proof (cases "cors_origins = ''*''")
    case True
    with v show ?thesis by (simp add: allow_origin_def)
  next
    case False
    then obtain part where p: "List.find (\<lambda>part. su_trim U part \<noteq> [] \<and> su_trim U part = ?origin) (su_split U cors_origins (CHR '','')) = Some part"
      using ne v by (auto simp: allow_origin_def split: option.splits)
    from find_SomeD [OF p] False v show ?thesis
      by (auto simp: allow_origin_def p image_iff split: option.splits)
  qed
qed

theorem cors_as_configured_witness:
  "(''Access-Control-Allow-Origin'', ''https://a'') \<in> set (rs_headers (ApplyCorsHeaders ascii_util ''https://b, https://a''
     [(''origin'', ''https://a'')] empty_response)) \<and>
   find_header [(''origin'', ''https://a'')] ''Origin'' = Some ''https://a''"
proof -
  have m: "(''Access-Control-Allow-Origin'', ''https://a'') \<in> set (rs_headers (ApplyCorsHeaders ascii_util ''https://b, https://a''
     [(''origin'', ''https://a'')] empty_response))" by code_simp
  have "(''Access-Control-Allow-Origin'', ''https://a'') \<notin> set (rs_headers empty_response)" by (simp add: empty_response_def)
  from cors_as_configured [OF m this] m show ?thesis by simp
qed

lemma cut_utf8_le: "cut_utf8 m n \<le> n"
  by (induction m n rule: cut_utf8.induct) (subst cut_utf8.simps, auto)

lemma cut_utf8_boundary:
  "cut_utf8 m n = 0 \<or> cut_utf8 m n \<ge> length m \<or> \<not> (128 \<le> byte (m ! cut_utf8 m n) \<and> byte (m ! cut_utf8 m n) < 192)"
proof (induction m n rule: cut_utf8.induct)
  case (1 m n)
  then show ?case
    by (cases "n > 0 \<and> n < length m \<and> 128 \<le> byte (m ! n) \<and> byte (m ! n) < 192") (auto simp: cut_utf8.simps [of m n])
qed

text \<open>The guards of a route, inverted: what holds when its handler is reached.\<close>

lemma route_guards_pass:
  assumes "route_guards E route req res s = (s', Inr (Inr (claims, sql)))"
  shows "\<exists>auth retry. CheckAuth (re_util E) (re_mbedtls E) (re_json E) (re_now_exp E) (re_now_nbf E) s route
      (CollectHeaders (re_util E) (rq_headers req)) = Inr auth \<and> ar_ok auth \<and> claims = ar_claims auth \<and>
    charge_rate_limit E route req auth s = Inr (s', True, retry) \<and>
    re_rewrite E (rt_handler_sql route) (rt_require_auth route \<noteq> []) = (sql, False, [])"
  using assms by (auto simp: route_guards_def split: sum.splits prod.splits if_splits)

text \<open>A request whose handler has run was routed to it and has passed its guards.\<close>

lemma handler_reached:
  assumes "HandleRequest E B W options run stream probe req res s = Inr out"
    and "sr_ran out = Some (route, captures, claims, sql)"
    and "live_views s = (live_routes, live_streams, s')"
  obtains ms where "route_request (re_util E) (so_cors_origins options) (so_max_request_bytes options) req live_routes live_streams res = Inr ms"
    and "ms_match ms = Some (route, captures)"
    and "route_guards E route req res s' = (sr_state out, Inr (Inr (claims, sql)))"
  using assms by (auto simp: HandleRequest_def Let_def split: if_splits option.splits sum.splits prod.splits)

text \<open>
  C2. A handler runs only for an admitted request: it belongs to a live route that matches the
  request's method and path with the captures it is given, the authentication the route requires
  succeeded with the claims it is given, the rate limit had room, and its SQL is the policy
  rewriter's output with no denial.
\<close>

theorem handler_runs_admitted:
  assumes "HandleRequest E B W options run stream probe req res s = Inr out"
    and "sr_ran out = Some (route, captures, claims, sql)"
    and "live_views s = (live_routes, live_streams, s')"
  shows "route \<in> set live_routes \<and> MatchPattern (rt_pattern route) (rq_path req) = Some captures \<and>
    (rt_method route = rq_method req \<or> rq_method req = ''HEAD'' \<and> rt_method route = ''GET'') \<and>
    (\<exists>auth retry. CheckAuth (re_util E) (re_mbedtls E) (re_json E) (re_now_exp E) (re_now_nbf E) s' route
        (CollectHeaders (re_util E) (rq_headers req)) = Inr auth \<and> ar_ok auth \<and> claims = ar_claims auth \<and>
      charge_rate_limit E route req auth s' = Inr (sr_state out, True, retry)) \<and>
    re_rewrite E (rt_handler_sql route) (rt_require_auth route \<noteq> []) = (sql, False, [])"
proof -
  obtain ms where ms: "route_request (re_util E) (so_cors_origins options) (so_max_request_bytes options) req live_routes live_streams res = Inr ms"
    and m: "ms_match ms = Some (route, captures)"
    and g: "route_guards E route req res s' = (sr_state out, Inr (Inr (claims, sql)))" by (rule handler_reached [OF assms])
  have "ms = match_request req live_routes live_streams" using ms by (auto simp: route_request_def Let_def split: if_splits)
  moreover have "ms_match (match_request req live_routes live_streams) = Some (route, captures) \<Longrightarrow>
      route \<in> set live_routes \<and> MatchPattern (rt_pattern route) (rq_path req) = Some captures \<and>
      (rt_method route = rq_method req \<or> rq_method req = ''HEAD'' \<and> rt_method route = ''GET'')"
    by (auto simp: match_request_def Let_def scan_routes_match head_routes_match captured_def no_match_def matches_as_def
        dest!: find_SomeD split: if_splits option.splits)
  ultimately show ?thesis using m route_guards_pass [OF g] by auto
qed

definition served_request :: Request where
  "served_request = \<lparr>rq_method = ''GET'', rq_path = ''/items/7'', rq_target = ''/items/7'', rq_version = ''HTTP/1.1'',
     rq_headers = [(''Host'', ''h'')], rq_params = [], rq_body = [], rq_remote_addr = ''10.0.0.1'', rq_remote_port = 5000,
     rq_form_fields = [], rq_form_files = []\<rparr>"

definition example_env :: request_env where
  "example_env = \<lparr>re_util = ascii_util, re_floats = example_floats, re_compressors = example_compressors, re_mbedtls = bits_mbedtls,
     re_json = example_json, re_now_exp = 5, re_now_nbf = 5, re_now_ns = 0, re_elapsed_ms = 3, re_db_alive = True,
     re_fresh_id = ''id'', re_rewrite = (\<lambda>sql _. (sql, False, []))\<rparr>"

definition example_builtins :: builtin_env where
  "example_builtins = \<lparr>bi_version = Some ''v1'', bi_uptime_sec = 1, bi_telemetry = [], bi_gql_extract = Inr,
     bi_gql_execute = (\<lambda>_ _ _ _ _. Inr ''{}''), bi_gql_schema = (\<lambda>_ _ _ _. Inr ''{}''), bi_openapi = Inr ''{}'',
     bi_docs_html = [], bi_redoc_html = []\<rparr>"

definition example_hooks :: middleware_env where
  "example_hooks = \<lparr>me_registry = empty_registry, me_before = (\<lambda>_. row_env [] [] []), me_after = (\<lambda>_. row_env [] [] []),
     me_elapsed_before = 0, me_elapsed_after = 0\<rparr>"

definition serving_state :: "nat QuackapiState" where
  "serving_state = initial_state\<lparr>routes := [example_route], routes_live := Some [example_route]\<rparr>"

lemma serving_live: "live_views serving_state = ([example_route], [], serving_state\<lparr>streams_live := Some []\<rparr>)"
  by (simp add: live_views_def LiveRoutes_def LiveStreams_def PublishStreams_def serving_state_def initial_state_def)

lemma example_match: "MatchPattern ''/items/:id'' ''/items/7'' = Some [(''id'', ''7'')]"
  by code_simp

lemma example_guards: "route_guards example_env example_route served_request empty_response s = (s, Inr (Inr ([], ''SELECT $id'')))"
  by (simp add: route_guards_def CheckAuth_def charge_rate_limit_def example_route_def example_env_def auth_accepted_def)

lemma example_routed:
  "\<exists>ms. route_request ascii_util [] 8388608 served_request [example_route] [] empty_response = Inr ms \<and>
     ms_match ms = Some (example_route, [(''id'', ''7'')])"
proof -
  have "case route_request ascii_util [] 8388608 served_request [example_route] [] empty_response of Inl _ \<Rightarrow> False
      | Inr ms \<Rightarrow> ms_match ms = Some (example_route, [(''id'', ''7'')])" by code_simp
  then show ?thesis by (auto split: sum.splits)
qed

lemma example_not_builtin:
  "health_response B opts served_request res = None" "graphql_builtin B opts served_request res = None"
  "docs_builtin B opts served_request res = None"
  by (simp_all add: health_response_def graphql_builtin_def docs_builtin_def served_request_def)

lemma example_no_mount: "graphql_mount E B (serving_state\<lparr>streams_live := x\<rparr>) probe served_request res = None"
  "graphql_mount E B serving_state probe served_request res = None"
  by (simp_all add: graphql_mount_def served_request_def GetGraphqlRouteBySchemaPath_def serving_state_def initial_state_def)

lemma example_no_hooks: "with_middleware U example_hooks opts req route rid claims h res = (True, h res, id)"
  by (simp add: with_middleware_def has_middleware_def example_hooks_def MiddlewareSnapshot_def empty_registry_def append_scope_def)

lemma example_options: "so_cors_origins default_options = []" "so_max_request_bytes default_options = 8388608"
  by (simp_all add: default_options_def)

lemma example_env_sel: "re_util example_env = ascii_util" "re_db_alive example_env"
  by (simp_all add: example_env_def)

lemma example_handled:
  "\<exists>out. HandleRequest example_env example_builtins example_hooks default_options
     (\<lambda>_ _ _ _ res. SetJson 200 ''[]'' res) (\<lambda>_ _ _ res. Inl res) example_route served_request empty_response serving_state = Inr out \<and>
     sr_ran out = Some (example_route, [(''id'', ''7'')], [], ''SELECT $id'')"
proof -
  obtain ms where "route_request ascii_util [] 8388608 served_request [example_route] [] empty_response = Inr ms"
    "ms_match ms = Some (example_route, [(''id'', ''7'')])" using example_routed by blast
  then show ?thesis
    by (simp add: HandleRequest_def Let_def serving_live example_not_builtin example_guards example_no_mount example_no_hooks
      example_options example_env_sel first_answer_def)
qed

theorem handler_runs_admitted_witness:
  "\<exists>auth. CheckAuth ascii_util bits_mbedtls example_json 5 5 (serving_state\<lparr>streams_live := Some []\<rparr>) example_route
     (CollectHeaders ascii_util [(''Host'', ''h'')]) = Inr auth \<and> ar_ok auth"
proof -
  from example_handled obtain out where "HandleRequest example_env example_builtins example_hooks default_options
     (\<lambda>_ _ _ _ res. SetJson 200 ''[]'' res) (\<lambda>_ _ _ res. Inl res) example_route served_request empty_response serving_state = Inr out"
     "sr_ran out = Some (example_route, [(''id'', ''7'')], [], ''SELECT $id'')" by blast
  from handler_runs_admitted [OF this serving_live] show ?thesis by (auto simp: example_env_def served_request_def)
qed

end
