(* ===== verification/Params.thy ===== *)
theory Params
  imports Serialize Routing Auth
begin

text \<open>
  From a request to the values a handler's statement is executed with
  (\<open>src/src/quackapi_server.cpp\<close>): which text each parameter gets and from where (path, query,
  header, cookie, body), the request body and its declared schema or type, the checks on every
  value, and the binding of the prepared statement's parameters. DuckDB is a parameter
  (\<open>engine\<close>): its lexer, its JSON functions, its casts and its comparison of values.
\<close>

section \<open>What the sources use of DuckDB\<close>

text \<open>
  \<open>en_tokens\<close> gives the start of each token and whether it is a string constant or a comment;
  queries that can fail give \<open>None\<close> or \<open>Inl\<close> with their message.
\<close>

record ('v, 't) engine =
  en_tokens :: "string \<Rightarrow> (nat \<times> bool) list"
  en_types :: "'t logical_types"
  en_type :: "TypeId \<Rightarrow> 't"
  en_type_id :: "'t \<Rightarrow> TypeId"
  en_type_name :: "'t \<Rightarrow> string"
  en_valid_utf8 :: "string \<Rightarrow> bool"
  en_null :: 'v
  en_null_of :: "'t \<Rightarrow> 'v"
  en_string :: "string \<Rightarrow> 'v"
  en_value_type :: "'v \<Rightarrow> 't"
  en_value_text :: "'v \<Rightarrow> string"
  en_is_null :: "'v \<Rightarrow> bool"
  en_try_cast :: "'v \<Rightarrow> 't \<Rightarrow> 'v option"
  en_default_cast :: "'v \<Rightarrow> 't \<Rightarrow> string + 'v"
  en_tinyint_of_bool :: "'v \<Rightarrow> 'v"
  en_greater_equal :: "'v \<Rightarrow> 'v \<Rightarrow> bool"
  en_greater :: "'v \<Rightarrow> 'v \<Rightarrow> bool"
  en_less_equal :: "'v \<Rightarrow> 'v \<Rightarrow> bool"
  en_less :: "'v \<Rightarrow> 'v \<Rightarrow> bool"
  en_literal :: "string \<Rightarrow> 'v option"
  en_json_variant :: "string \<Rightarrow> 'v option"
  en_text_variant :: "string \<Rightarrow> 'v option"
  en_variant_value :: "'v \<Rightarrow> 'v"
  en_load_json :: bool
  en_is_json :: "string \<Rightarrow> bool option"
  en_json_type :: "string \<Rightarrow> string option option"
  en_json_each :: "string \<Rightarrow> (string option \<times> string option \<times> string option) list option"
  en_load_json_schema :: bool
  en_try_schema :: "string \<Rightarrow> string \<Rightarrow> bool option option"
  en_schema_error :: "string \<Rightarrow> string \<Rightarrow> string option"
  en_try_transform :: "bool \<Rightarrow> string \<Rightarrow> string \<Rightarrow> string + 'v option"
  en_transform_error :: "string \<Rightarrow> string \<Rightarrow> string option"
  en_transform_type :: "string \<Rightarrow> string \<Rightarrow> string + 't option"
  en_transform_typeof :: "string \<Rightarrow> string \<Rightarrow> string + string option"
  en_cast_json :: "string \<Rightarrow> 't \<Rightarrow> 't \<Rightarrow> string + 'v"

section \<open>JSON bodies\<close>

definition json_invalid :: string where
  "json_invalid = ValidationErrorJsonBody ''JSON decode error'' ''json_invalid''"

definition no_dictionary :: string where
  "no_dictionary = ValidationErrorJsonBody ''Input should be a valid dictionary or object to extract fields from'' ''model_attributes_type''"

definition json_field :: "string_util \<Rightarrow> string option \<times> string option \<times> string option \<Rightarrow> JsonBodyField ci_map \<Rightarrow> JsonBodyField ci_map" where
  "json_field U row found = (case row of
     (None, _, _) \<Rightarrow> found
   | (Some key, None, _) \<Rightarrow> ci_put U key \<lparr>jb_value = [], jb_json_value = ''null'', jb_explicit_null = True\<rparr> found
   | (Some key, Some v, j) \<Rightarrow> ci_put U key \<lparr>jb_value = v, jb_json_value = (case j of None \<Rightarrow> [] | Some t \<Rightarrow> t), jb_explicit_null = False\<rparr> found)"

text \<open>Fields the flat scanner stored before it gave up stay in the map.\<close>

definition ExtractJsonBodyFields :: "string_util \<Rightarrow> ('v, 't) engine \<Rightarrow> string \<Rightarrow> string + JsonBodyField ci_map" where
  "ExtractJsonBodyFields U E raw_body =
     (if raw_body = [] then Inl json_invalid
      else case TryExtractFlatJsonObject U raw_body of
        (True, found) \<Rightarrow> Inr found
      | (False, found) \<Rightarrow>
          if \<not> en_load_json E then Inl (ValidationErrorJsonBody ''JSON extension unavailable'' ''value_error'')
          else if en_is_json E raw_body \<noteq> Some True then Inl json_invalid
          else case en_json_type E raw_body of
            None \<Rightarrow> Inl json_invalid
          | Some jtype \<Rightarrow>
              if jtype \<noteq> Some ''OBJECT'' then Inl no_dictionary
              else case en_json_each E raw_body of
                None \<Rightarrow> Inl json_invalid
              | Some rows \<Rightarrow> Inr (fold (json_field U) rows found))"

definition strip_error_prefix :: "string_util \<Rightarrow> string \<Rightarrow> string" where
  "strip_error_prefix U msg =
     (case List.find (\<lambda>p. su_starts_with U msg p) [''Invalid Input Error: '', ''Invalid Error: '', ''Binder Error: ''] of
        Some p \<Rightarrow> drop (length p) msg
      | None \<Rightarrow> msg)"

definition ValidateBodySchema :: "string_util \<Rightarrow> ('v, 't) engine \<Rightarrow> string \<Rightarrow> string \<Rightarrow> string option" where
  "ValidateBodySchema U E schema raw_body =
     (if \<not> en_load_json_schema E then Some (ValidationErrorJsonBody ''json_schema extension unavailable'' ''value_error'')
      else case en_try_schema E schema raw_body of
        None \<Rightarrow> Some (ValidationErrorJsonBody ''Body schema validation failed'' ''value_error'')
      | Some ok \<Rightarrow>
          if ok = Some True then None
          else let msg = (case en_schema_error E schema raw_body of
                   None \<Rightarrow> ''Body schema validation failed''
                 | Some err \<Rightarrow> take 200 (strip_error_prefix U err))
               in Some (ValidationErrorJsonSchema U msg ''value_error'' raw_body))"

definition TransformTypedBody :: "string_util \<Rightarrow> ('v, 't) engine \<Rightarrow> string \<Rightarrow> string \<Rightarrow> string + 'v" where
  "TransformTypedBody U E body_type raw_body =
     (let first = en_try_transform E False raw_body body_type;
          result = (case first of
              Inl err \<Rightarrow> if su_contains U err ''json extension'' \<and> en_load_json E then en_try_transform E True raw_body body_type else first
            | Inr _ \<Rightarrow> first)
      in case result of
           Inr (Some v) \<Rightarrow> Inr v
         | _ \<Rightarrow> Inl (ValidationErrorJsonBody (case en_transform_error E raw_body body_type of
             None \<Rightarrow> ''Body type validation failed''
           | Some err \<Rightarrow> strip_error_prefix U err) ''type_error''))"

definition json_blank :: "char \<Rightarrow> bool" where
  "json_blank c = (c = CHR '' '' \<or> c = CHR 0x09 \<or> c = CHR 0x0A \<or> c = CHR 0x0D)"

text \<open>A document of the declared shape: the empty object, the empty array, or null.\<close>

definition sample_of :: "string \<Rightarrow> string" where
  "sample_of body_type = (case dropWhile json_blank body_type of
     c # _ \<Rightarrow> if c = CHR ''{'' then ''{}'' else if c = CHR ''['' then ''[]'' else ''null''
   | [] \<Rightarrow> ''null'')"

definition ResolveVariantTypedBodyTypes :: "string_util \<Rightarrow> ('v, 't) engine \<Rightarrow> string \<Rightarrow> string + ('t \<times> 't)" where
  "ResolveVariantTypedBodyTypes U E body_type =
     (if \<not> en_load_json E then Inl ''JSON extension unavailable''
      else case QuackapiDuckdbTransformVariantLeavesAsJson U body_type of
        None \<Rightarrow> Inl ''BODY TYPE does not contain a valid VARIANT declaration''
      | Some normalized_body_type \<Rightarrow> (case en_transform_type E (sample_of body_type) normalized_body_type of
          Inl err \<Rightarrow> Inl err
        | Inr None \<Rightarrow> Inl ''BODY TYPE does not describe a DuckDB value type''
        | Inr (Some intermediate_type) \<Rightarrow>
            (case QuackapiDuckdbTransformRestoreVariantLeaves U (en_types E) intermediate_type body_type of
               None \<Rightarrow> Inl ''BODY TYPE does not describe a DuckDB value type''
             | Some target_type \<Rightarrow> Inr (intermediate_type, target_type))))"

definition TransformVariantTypedBody :: "string_util \<Rightarrow> ('v, 't) engine \<Rightarrow> string \<Rightarrow> string \<Rightarrow> string + 'v" where
  "TransformVariantTypedBody U E body_type raw_body = (case ResolveVariantTypedBodyTypes U E body_type of
     Inl err \<Rightarrow> Inl (ValidationErrorJsonBody err ''type_error'')
   | Inr (intermediate_type, target_type) \<Rightarrow> (case en_cast_json E raw_body intermediate_type target_type of
       Inl err \<Rightarrow> Inl (ValidationErrorJsonBody err ''type_error'')
     | Inr v \<Rightarrow> Inr v))"

definition ResolveTypedBodySqlType :: "string_util \<Rightarrow> ('v, 't) engine \<Rightarrow> string \<Rightarrow> string + string" where
  "ResolveTypedBodySqlType U E body_type =
     (if QuackapiDuckdbTransformHasVariant U body_type then
        map_sum id (\<lambda>(_, target_type). en_type_name E target_type) (ResolveVariantTypedBodyTypes U E body_type)
      else case en_transform_typeof E (sample_of body_type) body_type of
        Inl err \<Rightarrow> Inl err
      | Inr None \<Rightarrow> Inl ''BODY TYPE does not describe a DuckDB value type''
      | Inr (Some t) \<Rightarrow> Inr t)"

section \<open>Types and constraints\<close>

definition IsIntegralType :: "TypeId \<Rightarrow> bool" where
  "IsIntegralType t = (t \<in> {T_TINYINT, T_SMALLINT, T_INTEGER, T_BIGINT, T_HUGEINT, T_UTINYINT, T_USMALLINT, T_UINTEGER, T_UBIGINT})"

definition IsUnsignedIntegralType :: "TypeId \<Rightarrow> bool" where
  "IsUnsignedIntegralType t = (t \<in> {T_UTINYINT, T_USMALLINT, T_UINTEGER, T_UBIGINT})"

definition IsNumericType :: "TypeId \<Rightarrow> bool" where
  "IsNumericType t = (IsIntegralType t \<or> t = T_FLOAT \<or> t = T_DOUBLE \<or> t = T_DECIMAL)"

text \<open>Characters are counted as the bytes that do not continue a UTF-8 sequence.\<close>

definition character_count :: "string \<Rightarrow> nat" where
  "character_count raw = length (filter (\<lambda>c. \<not> (128 \<le> byte c \<and> byte c < 192)) raw)"

text \<open>The value the numeric bounds are compared with; \<open>None\<close> when there is none.\<close>

definition numeric_view :: "('v, 't) engine \<Rightarrow> string \<Rightarrow> 'v \<Rightarrow> bool \<Rightarrow> 'v option" where
  "numeric_view E raw bound native_variant =
     (let t = en_type_id E (en_value_type E bound)
      in if t = T_BOOLEAN then Some (en_tinyint_of_bool E bound)
         else if IsNumericType t then Some bound
         else if native_variant then None
         else en_literal E raw)"

definition check_bound :: "('v, 't) engine \<Rightarrow> ('v \<Rightarrow> 'v \<Rightarrow> bool) \<Rightarrow> string \<Rightarrow> string \<Rightarrow> 'v \<Rightarrow> 'v option \<Rightarrow> (string \<times> string) option" where
  "check_bound E holds text err_type numeric limit = (case limit of
     Some b \<Rightarrow> if holds numeric b then None else Some (''Input should be '' @ text @ en_value_text E b, err_type)
   | None \<Rightarrow> None)"

definition check_bounds :: "('v, 't) engine \<Rightarrow> 'v QuackapiParamSpec \<Rightarrow> 'v \<Rightarrow> (string \<times> string) option" where
  "check_bounds E spec numeric =
     (case check_bound E (en_greater_equal E) ''greater than or equal to '' ''greater_than_equal'' numeric (ps_ge spec) of
        Some e \<Rightarrow> Some e
      | None \<Rightarrow> (case check_bound E (en_greater E) ''greater than '' ''greater_than'' numeric (ps_gt spec) of
          Some e \<Rightarrow> Some e
        | None \<Rightarrow> (case check_bound E (en_less_equal E) ''less than or equal to '' ''less_than_equal'' numeric (ps_le spec) of
            Some e \<Rightarrow> Some e
          | None \<Rightarrow> check_bound E (en_less E) ''less than '' ''less_than'' numeric (ps_lt spec))))"

definition has_bounds :: "'v QuackapiParamSpec \<Rightarrow> bool" where
  "has_bounds spec = (ps_ge spec \<noteq> None \<or> ps_gt spec \<noteq> None \<or> ps_le spec \<noteq> None \<or> ps_lt spec \<noteq> None)"

definition has_lengths :: "'v QuackapiParamSpec \<Rightarrow> bool" where
  "has_lengths spec = (ps_min_length spec \<noteq> None \<or> ps_max_length spec \<noteq> None)"

text \<open>\<open>Some\<close> is the message and the error type of the first violated constraint.\<close>

definition CheckParamConstraints :: "('v, 't) engine \<Rightarrow> 'v QuackapiParamSpec \<Rightarrow> string \<Rightarrow> 'v \<Rightarrow> bool \<Rightarrow> (string \<times> string) option" where
  "CheckParamConstraints E spec raw bound native_variant =
     (if has_lengths spec \<and> native_variant \<and> \<not> en_is_null E bound \<and> en_type_id E (en_value_type E bound) \<noteq> T_VARCHAR then
        Some (''Input should be a valid string'', ''type_error'')
      else if (case ps_min_length spec of Some n \<Rightarrow> character_count raw < n | None \<Rightarrow> False) then
        Some (''String should have at least '' @ nat_string (the (ps_min_length spec)) @ '' characters'', ''string_too_short'')
      else if (case ps_max_length spec of Some n \<Rightarrow> character_count raw > n | None \<Rightarrow> False) then
        Some (''String should have at most '' @ nat_string (the (ps_max_length spec)) @ '' characters'', ''string_too_long'')
      else if \<not> has_bounds spec then None
      else if en_is_null E bound then None
      else case numeric_view E raw bound native_variant of
        None \<Rightarrow> Some (''Input should be a valid number'', ''type_error'')
      | Some numeric \<Rightarrow> if en_is_null E numeric then None else check_bounds E spec numeric)"

definition BindParamValue :: "('v, 't) engine \<Rightarrow> string \<Rightarrow> 't \<Rightarrow> string \<Rightarrow> string \<Rightarrow> string + 'v" where
  "BindParamValue E raw expected loc_kind param_name =
     (let t = en_type_id E expected
      in if IsIntegralType t \<and> \<not> IsStrictIntegerString raw (\<not> IsUnsignedIntegralType t) then
           Inl (ValidationErrorJson loc_kind param_name ''Input should be a valid integer'' ''type_error'')
         else if t \<noteq> T_VARCHAR \<and> t \<noteq> T_UNKNOWN then
           (case en_try_cast E (en_string E raw) expected of
              None \<Rightarrow> Inl (ValidationErrorJson loc_kind param_name (''Input should be a valid '' @ en_type_name E expected) ''type_error'')
            | Some casted \<Rightarrow> Inr casted)
         else Inr (en_string E raw))"

section \<open>Parameters in the handler's SQL\<close>

definition ident_char :: "char \<Rightarrow> bool" where
  "ident_char c = (is_alpha c \<or> is_digit c \<or> c = CHR ''_'')"

text \<open>
  A position is protected when it lies in a string constant, a comment or a quoted identifier: from
  the token's start to the start of the next token. A later token overwrites nothing.
\<close>

fun protect_spans :: "string \<Rightarrow> (nat \<times> bool) list \<Rightarrow> (nat \<times> nat) list" where
  "protect_spans sql [] = []"
| "protect_spans sql ((start, quoted) # tokens) =
     (if quoted \<or> start < length sql \<and> sql ! start = CHR 0x22 then
        (start, (case tokens of [] \<Rightarrow> length sql | t # _ \<Rightarrow> fst t)) # protect_spans sql tokens
      else protect_spans sql tokens)"

definition ProtectedSqlText :: "('v, 't) engine \<Rightarrow> string \<Rightarrow> bool list" where
  "ProtectedSqlText E sql =
     map (\<lambda>p. any (\<lambda>span. fst span \<le> p \<and> p < snd span) (protect_spans sql (en_tokens E sql))) [0..<length sql]"

definition IsBodyParameterAt :: "string_util \<Rightarrow> string \<Rightarrow> bool list \<Rightarrow> nat \<Rightarrow> bool" where
  "IsBodyParameterAt U sql protected_text index =
     (if index + 5 > length sql \<or> protected_text ! index \<or> sql ! index \<noteq> CHR ''$'' then False
      else if su_lower U (take 4 (drop (index + 1) sql)) \<noteq> ''body'' then False
      else \<not> (index + 5 < length sql \<and> ident_char (sql ! (index + 5))))"

function rewrite_body :: "string_util \<Rightarrow> string \<Rightarrow> bool list \<Rightarrow> string \<Rightarrow> nat \<Rightarrow> string" where
  "rewrite_body U sql protected_text sql_type i =
     (if i \<ge> length sql then []
      else if IsBodyParameterAt U sql protected_text i then
        (if i + 6 < length sql \<and> sql ! (i + 5) = CHR '':'' \<and> sql ! (i + 6) = CHR '':'' then take 5 (drop i sql)
         else ''($body::'' @ sql_type @ '')'') @ rewrite_body U sql protected_text sql_type (i + 5)
      else sql ! i # rewrite_body U sql protected_text sql_type (i + 1))"
  by pat_completeness auto
termination by (relation "measure (\<lambda>(U, sql, p, t, i). length sql - i)") auto

declare rewrite_body.simps [simp del]

definition RewriteTypedBodyParameter :: "string_util \<Rightarrow> ('v, 't) engine \<Rightarrow> string \<Rightarrow> string \<Rightarrow> string" where
  "RewriteTypedBodyParameter U E sql sql_type = rewrite_body U sql (ProtectedSqlText E sql) sql_type 0"

text \<open>The names of the \<open>$\<close> parameters outside protected text, in order.\<close>

function param_names :: "string \<Rightarrow> bool list \<Rightarrow> nat \<Rightarrow> string list" where
  "param_names sql protected_text i =
     (if i \<ge> length sql then []
      else if protected_text ! i \<or> sql ! i \<noteq> CHR ''$'' \<or> i + 1 \<ge> length sql \<or> \<not> param_start (sql ! (i + 1)) then
        param_names sql protected_text (i + 1)
      else let pname = takeWhile ident_char (drop (i + 1) sql)
           in pname # param_names sql protected_text (i + 1 + length pname))"
  by pat_completeness auto
termination by (relation "measure (\<lambda>(sql, p, i). length sql - i)") auto

declare param_names.simps [simp del]

section \<open>The request's parameters\<close>

text \<open>Each name maps to where its value comes from and the text.\<close>

type_synonym provided = "(string \<times> string) ci_map"

definition put_from :: "string_util \<Rightarrow> string \<Rightarrow> string \<times> string \<Rightarrow> provided \<Rightarrow> provided" where
  "put_from U loc kv m = ci_put U (fst kv) (loc, snd kv) m"

definition request_params :: "string_util \<Rightarrow> Request \<Rightarrow> (string \<times> string) list \<Rightarrow> string \<Rightarrow> string \<Rightarrow> string \<Rightarrow> provided" where
  "request_params U req captures request_id trace_id span_id =
     fold (put_from U ''server'') [(''request_id'', request_id), (''trace_id'', trace_id), (''span_id'', span_id)]
       (fold (put_from U ''path'') captures (fold (put_from U ''query'') (rq_params req) []))"

definition put_unless_path :: "string_util \<Rightarrow> string \<Rightarrow> string \<times> string \<Rightarrow> provided \<Rightarrow> provided" where
  "put_unless_path U name v m =
     (if (case ci_find U name m of None \<Rightarrow> True | Some (loc, _) \<Rightarrow> loc \<noteq> ''path'') then ci_put U name v m else m)"

definition request_cookies :: "string_util \<Rightarrow> string ci_map \<Rightarrow> string ci_map" where
  "request_cookies U headers = (case FindHeaderValue U headers ''Cookie'' of None \<Rightarrow> [] | Some h \<Rightarrow> ParseCookieHeader U h)"

definition declared_param :: "string_util \<Rightarrow> string ci_map \<Rightarrow> 'v QuackapiParamSpec \<Rightarrow> provided \<Rightarrow> provided" where
  "declared_param U headers pspec m = (case ps_source pspec of
     HEADER \<Rightarrow> (case FindHeaderValue U headers (ParamWireName pspec) of
         Some v \<Rightarrow> put_unless_path U (ps_name pspec) (''header'', v) m | None \<Rightarrow> m)
   | COOKIE \<Rightarrow> (case ci_find U (ParamWireName pspec) (request_cookies U headers) of
         Some v \<Rightarrow> put_unless_path U (ps_name pspec) (''cookie'', v) m | None \<Rightarrow> m)
   | _ \<Rightarrow> m)"

section \<open>What the handler needs of the body\<close>

record body_needs =
  bn_body_named :: bool
  bn_json_fields :: bool
  bn_body_fields :: bool

definition from_header_or_cookie :: "'v QuackapiParamSpec option \<Rightarrow> bool" where
  "from_header_or_cookie spec = (case spec of Some ps \<Rightarrow> ps_source ps = HEADER \<or> ps_source ps = COOKIE | None \<Rightarrow> False)"

definition scan_param :: "string_util \<Rightarrow> 'v QuackapiRoute \<Rightarrow> provided \<Rightarrow> string \<Rightarrow> body_needs \<Rightarrow> body_needs" where
  "scan_param U route m pname needs =
     (if su_lower U pname = ''body'' then needs\<lparr>bn_body_named := True, bn_body_fields := True\<rparr>
      else if IsClaimsParam U pname \<noteq> None \<or> ci_find U pname m \<noteq> None \<or> IsPathParam (rt_pattern route) pname then needs
      else let ps = FindParamSpec U (rt_params route) pname
           in if from_header_or_cookie ps then needs
              else if (case ps of Some s \<Rightarrow> ps_has_default s | None \<Rightarrow> False) then needs\<lparr>bn_json_fields := True\<rparr>
              else needs\<lparr>bn_body_fields := True, bn_json_fields := True\<rparr>)"

definition handler_needs :: "string_util \<Rightarrow> ('v, 't) engine \<Rightarrow> 'v QuackapiRoute \<Rightarrow> string \<Rightarrow> provided \<Rightarrow> body_needs" where
  "handler_needs U E route handler_sql m =
     fold (scan_param U route m) (param_names handler_sql (ProtectedSqlText E handler_sql) 0)
       \<lparr>bn_body_named = False, bn_json_fields = False, bn_body_fields = (rt_body_schema route \<noteq> [] \<or> rt_body_type route \<noteq> [])\<rparr>"

section \<open>The request body\<close>

record 'v gathered =
  ga_provided :: provided
  ga_nulls :: "unit ci_map"
  ga_json :: "string ci_map"
  ga_typed :: "'v option"

definition json_request :: "string_util \<Rightarrow> string \<Rightarrow> string \<Rightarrow> bool" where
  "json_request U media body =
     (IsJsonMediaType U media \<or> media = [] \<and> body \<noteq> [] \<and> (hd body = CHR ''{'' \<or> hd body = CHR ''[''))"

definition provide :: "string_util \<Rightarrow> string \<Rightarrow> string \<Rightarrow> provided \<Rightarrow> provided" where
  "provide U name v m = (if ci_find U name m = None then ci_put U name (''body'', v) m else m)"

definition body_field :: "string_util \<Rightarrow> string \<times> JsonBodyField \<Rightarrow> 'v gathered \<Rightarrow> 'v gathered" where
  "body_field U kv g =
     (if ci_find U (fst kv) (ga_provided g) = None then
        g\<lparr>ga_provided := ci_put U (fst kv) (''body'', jb_value (snd kv)) (ga_provided g),
          ga_json := ci_put U (fst kv) (jb_json_value (snd kv)) (ga_json g),
          ga_nulls := (if jb_explicit_null (snd kv) then ci_put U (fst kv) () (ga_nulls g) else ga_nulls g)\<rparr>
      else g)"

definition raw_body :: "string_util \<Rightarrow> string \<Rightarrow> bool \<Rightarrow> 'v gathered \<Rightarrow> 'v gathered" where
  "raw_body U body json g =
     (if ci_find U ''body'' (ga_provided g) = None then
        g\<lparr>ga_provided := ci_put U ''body'' (''body'', body) (ga_provided g),
          ga_json := (if json then ci_put U ''body'' body (ga_json g) else ga_json g)\<rparr>
      else g)"

definition transform_body :: "string_util \<Rightarrow> ('v, 't) engine \<Rightarrow> string \<Rightarrow> string \<Rightarrow> string + 'v" where
  "transform_body U E body_type body =
     (if QuackapiDuckdbTransformHasVariant U body_type then TransformVariantTypedBody U E body_type body
      else TransformTypedBody U E body_type body)"

text \<open>\<open>Inl\<close> is the body of a 422 answer.\<close>

definition json_body :: "string_util \<Rightarrow> ('v, 't) engine \<Rightarrow> 'v QuackapiRoute \<Rightarrow> body_needs \<Rightarrow> string \<Rightarrow> 'v gathered \<Rightarrow> string + 'v gathered" where
  "json_body U E route needs body g =
     (if body = [] \<and> \<not> bn_body_fields needs \<and> rt_body_schema route = [] \<and> rt_body_type route = [] then Inr g
      else case (if bn_json_fields needs then ExtractJsonBodyFields U E body else Inr []) of
        Inl err \<Rightarrow> Inl err
      | Inr found \<Rightarrow> (case (if rt_body_schema route \<noteq> [] then ValidateBodySchema U E (rt_body_schema route) body else None) of
          Some err \<Rightarrow> Inl err
        | None \<Rightarrow> (case (if rt_body_type route \<noteq> [] then map_sum id Some (transform_body U E (rt_body_type route) body) else Inr (ga_typed g)) of
            Inl err \<Rightarrow> Inl err
          | Inr typed \<Rightarrow>
              let g1 = fold (body_field U) found (g\<lparr>ga_typed := typed\<rparr>)
              in Inr (if bn_body_named needs then raw_body U body True g1 else g1))))"

definition form_field :: "string_util \<Rightarrow> string \<times> string \<Rightarrow> provided \<Rightarrow> provided" where
  "form_field U kv m =
     (if (case ci_find U (fst kv) m of None \<Rightarrow> True | Some (loc, _) \<Rightarrow> loc = ''query'')
      then ci_put U (fst kv) (''body'', snd kv) m else m)"

definition form_file :: "string_util \<Rightarrow> FormFile \<Rightarrow> provided \<Rightarrow> provided" where
  "form_file U f m =
     (let m1 = provide U (ff_name f) (ff_content f) m;
          m2 = ci_put U (ff_name f @ ''_filename'') (''body'', ff_filename f) m1
      in provide U ''filename'' (ff_filename f) m2)"

definition form_body :: "string_util \<Rightarrow> bool \<Rightarrow> Request \<Rightarrow> provided \<Rightarrow> provided" where
  "form_body U form_ct req m =
     (if form_ct then fold (form_field U) (ParseFormUrlEncoded U (rq_body req)) m
      else fold (form_file U) (rq_form_files req) (fold (\<lambda>kv. provide U (fst kv) (snd kv)) (rq_form_fields req) m))"

definition extract_media_type :: "string \<Rightarrow> string" where
  "extract_media_type content_type =
     (let blank = (\<lambda>c. c = CHR '' '' \<or> c = CHR 0x09)
      in rev (dropWhile blank (rev (dropWhile blank (takeWhile (\<lambda>c. c \<noteq> CHR '';'') content_type)))))"

definition is_multipart_form_data :: "Request \<Rightarrow> bool" where
  "is_multipart_form_data req = (extract_media_type (get_header_value (rq_headers req) ''Content-Type'') = ''multipart/form-data'')"

definition gather_body :: "string_util \<Rightarrow> ('v, 't) engine \<Rightarrow> 'v QuackapiRoute \<Rightarrow> body_needs \<Rightarrow> string \<Rightarrow> Request \<Rightarrow> 'v gathered \<Rightarrow> string + 'v gathered" where
  "gather_body U E route needs media req g =
     (if \<not> IsBodyMethod (rq_method req) then Inr g
      else if json_request U media (rq_body req) then json_body U E route needs (rq_body req) g
      else if IsFormUrlEncodedMediaType media \<or> IsMultipartMediaType U media \<or> is_multipart_form_data req then
        (if rt_body_schema route \<noteq> [] \<or> rt_body_type route \<noteq> [] then
           Inl (ValidationErrorJsonBody ''BODY SCHEMA and BODY TYPE require JSON'' ''model_attributes_type'')
         else let g1 = g\<lparr>ga_provided := form_body U (IsFormUrlEncodedMediaType media) req (ga_provided g)\<rparr>
              in Inr (if bn_body_named needs then raw_body U (rq_body req) False g1 else g1))
      else if media \<noteq> [] \<and> rq_body req \<noteq> [] \<and> bn_body_fields needs then Inl no_dictionary
      else if rt_body_schema route \<noteq> [] \<or> rt_body_type route \<noteq> [] then Inl no_dictionary
      else Inr g)"

text \<open>Everything a request provides to its handler, and what the handler's SQL needs of the body.\<close>

definition gather_params :: "string_util \<Rightarrow> ('v, 't) engine \<Rightarrow> 'v QuackapiRoute \<Rightarrow> Request \<Rightarrow> (string \<times> string) list \<Rightarrow> string \<Rightarrow> string \<Rightarrow> string \<Rightarrow> string
    \<Rightarrow> body_needs \<times> (string + 'v gathered)" where
  "gather_params U E route req captures request_id trace_id span_id handler_sql =
     (let headers = CollectHeaders U (rq_headers req);
          m = fold (declared_param U headers) (rt_params route) (request_params U req captures request_id trace_id span_id);
          needs = handler_needs U E route handler_sql m
      in (needs, gather_body U E route needs (ContentTypeMedia U headers) req \<lparr>ga_provided = m, ga_nulls = [], ga_json = [], ga_typed = None\<rparr>))"

section \<open>Binding a prepared statement\<close>

text \<open>
  The outcome for one parameter: a value (with the source and text remembered for error messages,
  where the code remembers them), an issue of the validation report, a 422 answer that ends the
  request, or an exception.
\<close>

datatype 'v binding =
    BIND 'v "(string \<times> string) option"
  | ISSUE QuackapiValidationIssue
  | ANSWER_422 string
  | RAISE string

definition issue :: "string \<Rightarrow> string \<Rightarrow> string \<Rightarrow> string \<Rightarrow> 'v binding" where
  "issue loc_kind param_name msg t = ISSUE \<lparr>vi_loc_json = ValidationLocJson loc_kind param_name, vi_message = msg, vi_type = t\<rparr>"

definition declared_type :: "string \<Rightarrow> TypeId option" where
  "declared_type tn =
     (if tn = ''INTEGER'' \<or> tn = ''INT'' then Some T_INTEGER
      else if tn = ''BIGINT'' then Some T_BIGINT
      else if tn = ''SMALLINT'' then Some T_SMALLINT
      else if tn = ''TINYINT'' then Some T_TINYINT
      else if tn = ''HUGEINT'' then Some T_HUGEINT
      else if tn = ''DOUBLE'' then Some T_DOUBLE
      else if tn = ''FLOAT'' \<or> tn = ''REAL'' then Some T_FLOAT
      else if tn = ''BOOLEAN'' \<or> tn = ''BOOL'' then Some T_BOOLEAN
      else if tn = ''VARCHAR'' \<or> tn = ''TEXT'' \<or> tn = ''STRING'' then Some T_VARCHAR
      else if tn = ''VARIANT'' then Some T_VARIANT
      else None)"

definition expected_type :: "string_util \<Rightarrow> ('v, 't) engine \<Rightarrow> 'v QuackapiParamSpec option \<Rightarrow> 't option \<Rightarrow> bool \<Rightarrow> 't" where
  "expected_type U E spec planned is_exec_sql =
     (if is_exec_sql then en_type E T_VARCHAR
      else let planned_type = (case planned of Some t \<Rightarrow> t | None \<Rightarrow> en_type E T_UNKNOWN)
           in case spec of
                None \<Rightarrow> planned_type
              | Some s \<Rightarrow> if ps_type_name s = [] then planned_type
                  else (case declared_type (su_upper U (ps_type_name s)) of Some t \<Rightarrow> en_type E t | None \<Rightarrow> planned_type))"

definition find_provided :: "string_util \<Rightarrow> string \<Rightarrow> 'v QuackapiParamSpec option \<Rightarrow> string \<Rightarrow> provided \<Rightarrow> (string \<times> string) option" where
  "find_provided U pattern spec param_name m =
     (let only_from = (\<lambda>loc found. case found of Some (l, raw) \<Rightarrow> if l \<noteq> loc then None else Some (l, raw) | None \<Rightarrow> None)
      in case spec of
           None \<Rightarrow> ci_find U param_name m
         | Some s \<Rightarrow>
             if ps_source s = HEADER then only_from ''header'' (ci_find U param_name m)
             else if ps_source s = COOKIE then only_from ''cookie'' (ci_find U param_name m)
             else if ps_external_name s \<noteq> [] \<and> \<not> IsPathParam pattern param_name then only_from ''query'' (ci_find U (ps_external_name s) m)
             else ci_find U param_name m)"

definition default_loc :: "string_util \<Rightarrow> string \<Rightarrow> 'v QuackapiParamSpec option \<Rightarrow> string \<Rightarrow> string \<Rightarrow> Request \<Rightarrow> string" where
  "default_loc U pattern spec param_name media req =
     (if IsPathParam pattern param_name then ''path''
      else if (case spec of Some s \<Rightarrow> ps_source s = HEADER | None \<Rightarrow> False) then ''header''
      else if (case spec of Some s \<Rightarrow> ps_source s = COOKIE | None \<Rightarrow> False) then ''cookie''
      else if IsBodyMethod (rq_method req) \<and> json_request U media (rq_body req) then ''body''
      else ''query'')"

text \<open>
  A text that DuckDB would round to an integer although it is not written as one: it mixes digits
  with other characters and the cast to INTEGER succeeds.
\<close>

definition rounds_to_integer :: "('v, 't) engine \<Rightarrow> string \<Rightarrow> bool" where
  "rounds_to_integer E raw =
     (raw \<noteq> [] \<and> \<not> IsStrictIntegerString raw True \<and> en_try_cast E (en_string E raw) (en_type E T_INTEGER) \<noteq> None \<and>
      any is_digit raw \<and> any (\<lambda>c. \<not> is_digit c \<and> c \<noteq> CHR ''-'' \<and> c \<noteq> CHR ''+'') raw)"

definition null_binding :: "('v, 't) engine \<Rightarrow> 't \<Rightarrow> 'v binding" where
  "null_binding E expected = BIND (if en_type_id E expected = T_UNKNOWN then en_null E else en_null_of E expected) None"

definition bind_typed_body :: "string_util \<Rightarrow> ('v, 't) engine \<Rightarrow> string \<Rightarrow> 'v option \<Rightarrow> 't \<Rightarrow> string \<Rightarrow> 'v binding" where
  "bind_typed_body U E body_type validated expected raw =
     (case (case validated of Some v \<Rightarrow> Inr v | None \<Rightarrow> transform_body U E body_type raw) of
        Inl err \<Rightarrow> ANSWER_422 err
      | Inr typed_body \<Rightarrow>
          if en_type_id E expected \<noteq> T_UNKNOWN \<and> en_value_type E typed_body \<noteq> expected then
            (case en_try_cast E typed_body expected of
               None \<Rightarrow> ANSWER_422 (ValidationErrorJson ''body'' ''body'' ''BODY TYPE does not match handler parameter type'' ''type_error'')
             | Some casted \<Rightarrow> BIND casted None)
          else BIND typed_body None)"

text \<open>The native value of a VARIANT parameter, from the JSON text of its body field, a default, or its text.\<close>

definition native_variant :: "string_util \<Rightarrow> ('v, 't) engine \<Rightarrow> string \<Rightarrow> string \<Rightarrow> string ci_map \<Rightarrow> 'v option \<Rightarrow> string \<Rightarrow> 'v binding + 'v" where
  "native_variant U E loc_kind param_name json default_variant raw =
     (case (if loc_kind = ''body'' then ci_find U param_name json else None) of
        Some json_text \<Rightarrow>
          if \<not> en_load_json E then Inl (issue loc_kind param_name ''JSON extension unavailable'' ''value_error'')
          else (case en_json_variant E json_text of
            None \<Rightarrow> Inl (issue loc_kind param_name ''Input should be valid JSON'' ''json_invalid'')
          | Some v \<Rightarrow> Inr v)
      | None \<Rightarrow> (case default_variant of
          Some v \<Rightarrow> Inr v
        | None \<Rightarrow> (case en_text_variant E raw of
            None \<Rightarrow> Inl (issue loc_kind param_name ''Input should be a valid VARIANT'' ''type_error'')
          | Some v \<Rightarrow> Inr v)))"

text \<open>The value compared with the declared constraints; a failed cast leaves the null value.\<close>

definition constraint_value :: "('v, 't) engine \<Rightarrow> 't \<Rightarrow> string \<Rightarrow> 'v \<Rightarrow> 'v" where
  "constraint_value E expected raw bound =
     (let t = en_type_id E expected
      in if t = T_VARIANT then en_variant_value E bound
         else if t \<noteq> T_UNKNOWN \<and> t \<noteq> T_VARCHAR then
           (case en_try_cast E (en_string E raw) expected of Some v \<Rightarrow> v | None \<Rightarrow> en_null E)
         else en_string E raw)"

definition constrain :: "('v, 't) engine \<Rightarrow> 'v QuackapiParamSpec option \<Rightarrow> 't \<Rightarrow> string \<Rightarrow> string \<Rightarrow> string \<Rightarrow> 'v \<Rightarrow> 'v binding" where
  "constrain E spec expected loc_kind param_name raw v =
     (case (case spec of None \<Rightarrow> None
            | Some s \<Rightarrow> CheckParamConstraints E s raw (constraint_value E expected raw v) (en_type_id E expected = T_VARIANT)) of
        Some (msg, t) \<Rightarrow> issue loc_kind param_name msg t
      | None \<Rightarrow> BIND v (Some (loc_kind, raw)))"

definition takes_typed_body :: "string_util \<Rightarrow> 'v QuackapiRoute \<Rightarrow> 'v option \<Rightarrow> TypeId \<Rightarrow> string \<Rightarrow> bool" where
  "takes_typed_body U route typed t param_name =
     (param_name = ''body'' \<and> rt_body_type route \<noteq> [] \<and>
      (t \<in> {T_STRUCT, T_LIST, T_MAP} \<or> QuackapiDuckdbTransformHasVariant U (rt_body_type route) \<and> typed \<noteq> None))"

definition bind_text :: "string_util \<Rightarrow> ('v, 't) engine \<Rightarrow> 'v QuackapiRoute \<Rightarrow> 'v gathered \<Rightarrow> 'v QuackapiParamSpec option \<Rightarrow> 't \<Rightarrow> bool \<Rightarrow> string \<Rightarrow> string
    \<Rightarrow> 'v option \<Rightarrow> string \<Rightarrow> 'v binding" where
  "bind_text U E route g spec expected is_exec_sql loc_kind param_name default_variant raw =
     (let t = en_type_id E expected
      in if \<not> en_valid_utf8 E raw then issue loc_kind param_name ''Input should be valid UTF-8 text'' ''type_error''
         else if IsIntegralType t \<and> \<not> IsStrictIntegerString raw (\<not> IsUnsignedIntegralType t) then
           issue loc_kind param_name ''Input should be a valid integer'' ''type_error''
         else if \<not> IsIntegralType t \<and> \<not> is_exec_sql \<and> (t = T_UNKNOWN \<or> t = T_VARCHAR) \<and>
                 \<not> (case spec of Some s \<Rightarrow> ps_type_name s \<noteq> [] | None \<Rightarrow> False) \<and> rounds_to_integer E raw then
           issue loc_kind param_name ''Input should be a valid integer'' ''type_error''
         else if takes_typed_body U route (ga_typed g) t param_name then
           bind_typed_body U E (rt_body_type route) (ga_typed g) expected raw
         else case (if t = T_VARIANT then native_variant U E loc_kind param_name (ga_json g) default_variant raw
                    else case BindParamValue E raw expected loc_kind param_name of
                      Inl _ \<Rightarrow> Inl (issue loc_kind param_name (''Input should be a valid '' @ en_type_name E expected) ''type_error'')
                    | Inr v \<Rightarrow> Inr v) of
           Inl b \<Rightarrow> b
         | Inr v \<Rightarrow> constrain E spec expected loc_kind param_name raw v)"

definition null_allowed :: "'v QuackapiRoute \<Rightarrow> 'v QuackapiParamSpec option \<Rightarrow> TypeId \<Rightarrow> string \<Rightarrow> bool" where
  "null_allowed route spec t loc_kind =
     (loc_kind = ''body'' \<and> rt_body_schema route \<noteq> [] \<or>
      (case spec of Some s \<Rightarrow> ps_has_default s \<and> ps_default_is_null s | None \<Rightarrow> False) \<or>
      t = T_VARIANT \<and> \<not> (case spec of Some s \<Rightarrow> has_bounds s \<or> has_lengths s | None \<Rightarrow> False))"

definition is_exec_sql :: "string_util \<Rightarrow> string option \<Rightarrow> string \<Rightarrow> bool" where
  "is_exec_sql U exec_param param_name = (case exec_param of Some p \<Rightarrow> su_ci_equals U param_name p | None \<Rightarrow> False)"

definition param_type :: "string_util \<Rightarrow> ('v, 't) engine \<Rightarrow> 'v QuackapiRoute \<Rightarrow> string option \<Rightarrow> string \<Rightarrow> 't option \<Rightarrow> 't" where
  "param_type U E route exec_param param_name planned =
     expected_type U E (FindParamSpec U (rt_params route) param_name) planned (is_exec_sql U exec_param param_name)"

definition bind_param :: "string_util \<Rightarrow> ('v, 't) engine \<Rightarrow> 'v QuackapiRoute \<Rightarrow> Request \<Rightarrow> string \<Rightarrow> claims \<Rightarrow> 'v gathered \<Rightarrow> string option
    \<Rightarrow> string \<Rightarrow> 't option \<Rightarrow> 'v binding" where
  "bind_param U E route req media claims g exec_param param_name planned = (case IsClaimsParam U param_name of
     Some claim_key \<Rightarrow> BIND (case map_of claims claim_key of None \<Rightarrow> en_null E | Some v \<Rightarrow> en_string E v) None
   | None \<Rightarrow>
       let spec = FindParamSpec U (rt_params route) param_name;
           is_exec = is_exec_sql U exec_param param_name;
           expected = param_type U E route exec_param param_name planned;
           t = en_type_id E expected;
           loc = default_loc U (rt_pattern route) spec param_name media req
       in case find_provided U (rt_pattern route) spec param_name (ga_provided g) of
            None \<Rightarrow> (case spec of
                Some s \<Rightarrow>
                  if \<not> ps_has_default s then issue loc param_name ''Field required'' ''missing''
                  else if ps_default_is_null s then null_binding E expected
                  else if t = T_VARIANT then
                    (case en_default_cast E (ps_default_variant s) (en_type E T_VARIANT) of
                       Inl msg \<Rightarrow> RAISE msg
                     | Inr v \<Rightarrow> bind_text U E route g spec expected is_exec loc param_name (Some v) (ps_default_raw s))
                  else bind_text U E route g spec expected is_exec loc param_name None (ps_default_raw s)
              | None \<Rightarrow> issue loc param_name ''Field required'' ''missing'')
          | Some (loc_kind, raw) \<Rightarrow>
              if ci_find U param_name (ga_nulls g) \<noteq> None then
                (if null_allowed route spec t loc_kind then null_binding E expected
                 else issue loc_kind param_name (''Input should be a valid '' @ en_type_name E expected) ''type_error'')
              else bind_text U E route g spec expected is_exec loc_kind param_name None raw)"

record 'v bound_params =
  bp_values :: "(string \<times> 'v) list"
  bp_raw :: provided
  bp_issues :: "QuackapiValidationIssue list"

text \<open>
  All parameters of the statement, in the order the prepared statement lists them. \<open>Inl\<close> is the
  status and the body of an answer that ends the request, where the status 500 carries an
  exception's message.
\<close>

fun bind_all :: "string_util \<Rightarrow> (string \<Rightarrow> 't option \<Rightarrow> 'v binding) \<Rightarrow> (string \<times> 't option) list \<Rightarrow> 'v bound_params \<Rightarrow> (int \<times> string) + 'v bound_params" where
  "bind_all U bind [] bp = Inr bp"
| "bind_all U bind ((name, planned) # params) bp = (case bind name planned of
     BIND v remembered \<Rightarrow> bind_all U bind params (bp\<lparr>bp_values := bp_values bp @ [(name, v)],
       bp_raw := (case remembered of Some lr \<Rightarrow> ci_put U name lr (bp_raw bp) | None \<Rightarrow> bp_raw bp)\<rparr>)
   | ISSUE i \<Rightarrow> bind_all U bind params (bp\<lparr>bp_issues := bp_issues bp @ [i]\<rparr>)
   | ANSWER_422 body \<Rightarrow> Inl (422, body)
   | RAISE msg \<Rightarrow> Inl (500, detail_json msg))"

definition bind_params :: "string_util \<Rightarrow> (string \<Rightarrow> 't option \<Rightarrow> 'v binding) \<Rightarrow> (string \<times> 't option) list \<Rightarrow> (int \<times> string) + 'v bound_params" where
  "bind_params U bind params = (case bind_all U bind params \<lparr>bp_values = [], bp_raw = [], bp_issues = []\<rparr> of
     Inl e \<Rightarrow> Inl e
   | Inr bp \<Rightarrow> if bp_issues bp \<noteq> [] then Inl (422, QuackapiValidationErrorsJson (bp_issues bp)) else Inr bp)"

section \<open>Dictionaries\<close>

text \<open>
  What the parameter sources rely on of a map whose keys are compared by an equivalence: a lookup
  after a store. The lemmas say which of a sequence of stores a lookup sees.
\<close>

locale dictionary =
  fixes same :: "'k \<Rightarrow> 'k \<Rightarrow> bool"
    and lookup :: "'k \<Rightarrow> 'm \<Rightarrow> 'v option"
    and store :: "'k \<Rightarrow> 'v \<Rightarrow> 'm \<Rightarrow> 'm"
  assumes same_refl: "same k k"
    and same_sym: "same k l \<Longrightarrow> same l k"
    and same_trans: "same j k \<Longrightarrow> same k l \<Longrightarrow> same j l"
    and lookup_store: "lookup k (store l v m) = (if same l k then Some v else lookup k m)"
begin

lemma lookup_fold_other:
  assumes "\<forall>x \<in> set xs. \<not> same (key x) k"
  shows "lookup k (fold (\<lambda>x. store (key x) (val x)) xs m) = lookup k m"
  using assms by (induction xs arbitrary: m) (auto simp: lookup_store)

lemma lookup_last_store:
  assumes "\<forall>x \<in> set post. \<not> same (key x) k" and "same (key x) k"
  shows "lookup k (fold (\<lambda>x. store (key x) (val x)) (pre @ x # post) m) = Some (val x)"
  using assms by (simp add: lookup_fold_other lookup_store)

lemma fold_keeps:
  assumes "\<And>x m. x \<in> set xs \<Longrightarrow> lookup k m = Some v \<Longrightarrow> lookup k (f x m) = Some v" and "lookup k m = Some v"
  shows "lookup k (fold f xs m) = Some v"
  using assms by (induction xs arbitrary: m) auto

lemma guarded_store_keeps:
  assumes "lookup k m = Some v" and "\<And>l. same l k \<Longrightarrow> lookup l m = Some v \<Longrightarrow> \<not> p" and "\<And>l. same l k \<Longrightarrow> lookup l m = lookup k m"
  shows "lookup k (if p then store l w m else m) = Some v"
  using assms same_sym by (auto simp: lookup_store)

end

lemma ci_find_cong:
  assumes "string_util_ok U" and "su_ci_equals U l k"
  shows "ci_find U l m = ci_find U k m"
  using assms by (auto simp: ci_find_def string_util_ok_def intro!: arg_cong [where f = "map_option snd"])

lemma dictionary_ci:
  assumes "string_util_ok U"
  shows "dictionary (su_ci_equals U) (ci_find U) (ci_put U)"
proof
  fix k l v and m :: "'a ci_map"
  show "ci_find U k (ci_put U l v m) = (if su_ci_equals U l k then Some v else ci_find U k m)"
    using assms by (induction m) (auto simp: ci_find_def string_util_ok_def)
qed (use assms in \<open>auto simp: string_util_ok_def\<close>)

interpretation ci: dictionary "su_ci_equals ascii_util" "ci_find ascii_util" "ci_put ascii_util"
  by (rule dictionary_ci) simp

section \<open>Which source wins\<close>

lemma put_unless_path_keeps:
  assumes ok: "string_util_ok U" and m: "ci_find U k m = Some (''path'', v)"
  shows "ci_find U k (put_unless_path U name w m) = Some (''path'', v)"
  using m ci_find_cong [OF ok, of name k m] by (auto simp: put_unless_path_def dictionary.lookup_store [OF dictionary_ci [OF ok]])

lemma provide_keeps:
  assumes ok: "string_util_ok U" and m: "ci_find U k m = Some x"
  shows "ci_find U k (provide U name w m) = Some x"
  using m ci_find_cong [OF ok, of name k m] by (auto simp: provide_def dictionary.lookup_store [OF dictionary_ci [OF ok]])

lemma form_field_keeps:
  assumes ok: "string_util_ok U" and m: "ci_find U k m = Some (''path'', v)"
  shows "ci_find U k (form_field U kv m) = Some (''path'', v)"
  using m ci_find_cong [OF ok, of "fst kv" k m] by (auto simp: form_field_def dictionary.lookup_store [OF dictionary_ci [OF ok]])

lemma form_file_keeps:
  assumes ok: "string_util_ok U" and m: "ci_find U k m = Some x" and f: "\<not> su_ci_equals U (ff_name f @ ''_filename'') k"
  shows "ci_find U k (form_file U f m) = Some x"
  using m f by (auto simp: form_file_def Let_def dictionary.lookup_store [OF dictionary_ci [OF ok]] intro!: provide_keeps [OF ok])

lemma declared_param_keeps:
  assumes ok: "string_util_ok U" and m: "ci_find U k m = Some (''path'', v)"
  shows "ci_find U k (declared_param U headers pspec m) = Some (''path'', v)"
  using m by (auto simp: declared_param_def put_unless_path_keeps [OF ok] split: QuackapiParamSource.splits option.splits)

lemma body_field_keeps:
  assumes ok: "string_util_ok U" and m: "ci_find U k (ga_provided g) = Some x"
  shows "ci_find U k (ga_provided (body_field U kv g)) = Some x"
  using m ci_find_cong [OF ok, of "fst kv" k "ga_provided g"]
  by (auto simp: body_field_def dictionary.lookup_store [OF dictionary_ci [OF ok]])

lemma body_fields_keep:
  assumes "string_util_ok U" and "ci_find U k (ga_provided g) = Some x"
  shows "ci_find U k (ga_provided (fold (body_field U) found g)) = Some x"
  using assms by (induction found arbitrary: g) (auto intro: body_field_keeps)

lemma raw_body_keeps:
  assumes ok: "string_util_ok U" and m: "ci_find U k (ga_provided g) = Some x"
  shows "ci_find U k (ga_provided (raw_body U body json g)) = Some x"
  using m ci_find_cong [OF ok, of "''body''" k "ga_provided g"]
  by (auto simp: raw_body_def dictionary.lookup_store [OF dictionary_ci [OF ok]])

lemma form_body_keeps:
  assumes ok: "string_util_ok U" and m: "ci_find U k m = Some (''path'', v)"
    and files: "\<forall>f \<in> set (rq_form_files req). \<not> su_ci_equals U (ff_name f @ ''_filename'') k"
  shows "ci_find U k (form_body U form_ct req m) = Some (''path'', v)"
  using m files
  by (auto simp: form_body_def intro!: dictionary.fold_keeps [OF dictionary_ci [OF ok]] form_field_keeps [OF ok]
      form_file_keeps [OF ok] provide_keeps [OF ok])

lemma json_body_keeps:
  assumes "string_util_ok U" and "ci_find U k (ga_provided g) = Some x" and "json_body U E route needs body g = Inr g'"
  shows "ci_find U k (ga_provided g') = Some x"
  using assms by (auto simp: json_body_def Let_def body_fields_keep raw_body_keeps split: if_splits sum.splits option.splits)

lemma gather_body_cases:
  assumes "gather_body U E route needs media req g = Inr g'"
  shows "g' = g \<or> json_body U E route needs (rq_body req) g = Inr g' \<or>
    (\<exists>ct. let g1 = g\<lparr>ga_provided := form_body U ct req (ga_provided g)\<rparr> in g' = g1 \<or> g' = raw_body U (rq_body req) False g1)"
proof -
  consider "\<not> IsBodyMethod (rq_method req)" | "IsBodyMethod (rq_method req)" "json_request U media (rq_body req)"
    | "IsBodyMethod (rq_method req)" "\<not> json_request U media (rq_body req)" by blast
  then show ?thesis using assms by cases (simp_all add: gather_body_def Let_def split: if_splits, blast+)
qed

text \<open>A name that is provided already gets no explicit null from the body.\<close>

lemma body_field_nulls:
  assumes "string_util_ok U" and "ci_find U k (ga_provided g) \<noteq> None" and "ci_find U k (ga_nulls g) = None"
  shows "ci_find U k (ga_provided (body_field U kv g)) \<noteq> None \<and> ci_find U k (ga_nulls (body_field U kv g)) = None"
  using assms ci_find_cong [OF assms(1), of "fst kv" k "ga_provided g"]
  by (auto simp: body_field_def dictionary.lookup_store [OF dictionary_ci [OF assms(1)]])

lemma body_fields_nulls:
  assumes "string_util_ok U" and "ci_find U k (ga_provided g) \<noteq> None" and "ci_find U k (ga_nulls g) = None"
  shows "ci_find U k (ga_nulls (fold (body_field U) fs g)) = None"
  using assms(2,3)
proof (induction fs arbitrary: g)
  case (Cons f fs)
  from body_field_nulls [OF assms(1) Cons.prems] Cons.IH [of "body_field U f g"] show ?case by simp
qed simp

lemma raw_body_nulls: "ga_nulls (raw_body U body json g) = ga_nulls g"
  by (simp add: raw_body_def)

lemma gather_body_nulls:
  assumes ok: "string_util_ok U" and "gather_body U E route needs media req g = Inr g'"
    and "ci_find U k (ga_provided g) \<noteq> None" and "ci_find U k (ga_nulls g) = None"
  shows "ci_find U k (ga_nulls g') = None"
  using gather_body_cases [OF assms(2)]
proof (elim disjE exE)
  assume "json_body U E route needs (rq_body req) g = Inr g'"
  then show ?thesis using assms(3,4)
    by (auto simp: json_body_def Let_def raw_body_nulls intro!: body_fields_nulls [OF ok] split: if_splits sum.splits option.splits)
qed (use assms(4) in \<open>auto simp: Let_def raw_body_nulls\<close>)

lemma gather_body_keeps:
  assumes ok: "string_util_ok U" and m: "ci_find U k (ga_provided g) = Some (''path'', v)"
    and files: "\<forall>f \<in> set (rq_form_files req). \<not> su_ci_equals U (ff_name f @ ''_filename'') k"
    and body: "gather_body U E route needs media req g = Inr g'"
  shows "ci_find U k (ga_provided g') = Some (''path'', v)"
  using gather_body_cases [OF body]
proof (elim disjE exE)
  assume "json_body U E route needs (rq_body req) g = Inr g'"
  then show ?thesis by (rule json_body_keeps [OF ok m])
next
  fix ct assume "let g1 = g\<lparr>ga_provided := form_body U ct req (ga_provided g)\<rparr> in g' = g1 \<or> g' = raw_body U (rq_body req) False g1"
  moreover have "ci_find U k (ga_provided (g\<lparr>ga_provided := form_body U ct req (ga_provided g)\<rparr>)) = Some (''path'', v)"
    using form_body_keeps [OF ok m files] by simp
  ultimately show ?thesis using raw_body_keeps [OF ok, of k "g\<lparr>ga_provided := form_body U ct req (ga_provided g)\<rparr>"] by (auto simp: Let_def)
qed (use m in simp)

text \<open>The names the server itself writes, over whatever the request provides under them.\<close>

definition server_names :: "string list" where
  "server_names = [''request_id'', ''trace_id'', ''span_id'']"

lemma captured_kept:
  assumes ok: "string_util_ok U"
    and "gather_params U E route req (pre @ (k, v) # post) request_id trace_id span_id handler_sql = (needs, Inr g)"
    and "\<forall>c \<in> set post. \<not> su_ci_equals U (fst c) k"
    and "\<forall>stamped \<in> set server_names. \<not> su_ci_equals U stamped k"
    and "\<forall>f \<in> set (rq_form_files req). \<not> su_ci_equals U (ff_name f @ ''_filename'') k"
  shows "ci_find U k (ga_provided g) = Some (''path'', v) \<and> ci_find U k (ga_nulls g) = None"
proof -
  note d = dictionary_ci [OF ok]
  have "ci_find U k (request_params U req (pre @ (k, v) # post) request_id trace_id span_id) = Some (''path'', v)"
    using assms(3,4) dictionary.lookup_last_store [OF d, of post fst k "(k, v)" "\<lambda>x. (''path'', snd x)" pre]
      dictionary.same_refl [OF d]
    by (simp add: request_params_def put_from_def [abs_def] dictionary.lookup_store [OF d] server_names_def)
  then have m: "ci_find U k (fold (declared_param U headers) ps (request_params U req (pre @ (k, v) # post) request_id trace_id span_id)) =
      Some (''path'', v)" for headers and ps :: "'v QuackapiParamSpec list"
    by (intro dictionary.fold_keeps [OF d] declared_param_keeps [OF ok])
  have "gather_body U E route needs (ContentTypeMedia U (CollectHeaders U (rq_headers req))) req
      \<lparr>ga_provided = fold (declared_param U (CollectHeaders U (rq_headers req))) (rt_params route)
         (request_params U req (pre @ (k, v) # post) request_id trace_id span_id), ga_nulls = [], ga_json = [], ga_typed = None\<rparr> = Inr g"
    using assms(2) by (auto simp: gather_params_def Let_def)
  note b = this
  have "ci_find U k (ga_provided g) = Some (''path'', v)" by (rule gather_body_keeps [OF ok _ assms(5) b]) (simp add: m)
  moreover have "ci_find U k (ga_nulls g) = None" by (rule gather_body_nulls [OF ok b]) (simp add: m, simp add: ci_find_def)
  ultimately show ?thesis ..
qed

section \<open>What a bound value satisfies\<close>

lemma bind_all_values:
  assumes "bind_all U bind params bp = Inr bp'"
  shows "length (bp_issues bp) \<le> length (bp_issues bp') \<and>
    (length (bp_issues bp') = length (bp_issues bp) \<longrightarrow>
      list_all2 (\<lambda>p nv. fst nv = fst p \<and> (\<exists>r. bind (fst p) (snd p) = BIND (snd nv) r)) params (drop (length (bp_values bp)) (bp_values bp')) \<and>
      take (length (bp_values bp)) (bp_values bp') = bp_values bp)"
  using assms
proof (induction params arbitrary: bp)
  case (Cons p params)
  obtain name planned where p: "p = (name, planned)" by force
  show ?case
  proof (cases "bind name planned")
    case (BIND v r)
    let ?bp = "bp\<lparr>bp_values := bp_values bp @ [(name, v)],
       bp_raw := (case r of Some lr \<Rightarrow> ci_put U name lr (bp_raw bp) | None \<Rightarrow> bp_raw bp)\<rparr>"
    have "bind_all U bind params ?bp = Inr bp'" using Cons.prems BIND p by simp
    from Cons.IH [OF this] have *: "length (bp_issues bp) \<le> length (bp_issues bp')"
      "length (bp_issues bp') = length (bp_issues bp) \<Longrightarrow>
        list_all2 (\<lambda>p nv. fst nv = fst p \<and> (\<exists>r. bind (fst p) (snd p) = BIND (snd nv) r)) params (drop (Suc (length (bp_values bp))) (bp_values bp')) \<and>
        take (Suc (length (bp_values bp))) (bp_values bp') = bp_values bp @ [(name, v)]" by simp_all
    show ?thesis
    proof (intro conjI impI)
      assume eq: "length (bp_issues bp') = length (bp_issues bp)"
      from *(2) [OF eq] have tk: "take (Suc (length (bp_values bp))) (bp_values bp') = bp_values bp @ [(name, v)]" by simp
      then have len: "length (bp_values bp) < length (bp_values bp')"
        by (metis append_eq_conv_conj length_append_singleton not_le_imp_less nat_less_le take_all_iff Suc_n_not_le_n length_take min.absorb2 linorder_not_less le_SucI)
      have "drop (length (bp_values bp)) (bp_values bp') = (name, v) # drop (Suc (length (bp_values bp))) (bp_values bp')"
        using tk len by (metis Cons_nth_drop_Suc nth_append_length nth_take lessI)
      then show "list_all2 (\<lambda>p nv. fst nv = fst p \<and> (\<exists>r. bind (fst p) (snd p) = BIND (snd nv) r)) (p # params)
          (drop (length (bp_values bp)) (bp_values bp'))"
        using *(2) [OF eq] BIND p by auto
      show "take (length (bp_values bp)) (bp_values bp') = bp_values bp"
        using tk by (metis append_eq_conv_conj take_take min.absorb1 le_SucI order_refl)
    qed (use *(1) in simp)
  next
    case (ISSUE i)
    then show ?thesis using Cons.prems Cons.IH [of "bp\<lparr>bp_issues := bp_issues bp @ [i]\<rparr>"] p by fastforce
  qed (use Cons.prems p in simp_all)
qed simp

lemma bind_params_values:
  assumes "bind_params U bind params = Inr bp"
  shows "list_all2 (\<lambda>p nv. fst nv = fst p \<and> (\<exists>r. bind (fst p) (snd p) = BIND (snd nv) r)) params (bp_values bp)"
  using assms bind_all_values [of U bind params "\<lparr>bp_values = [], bp_raw = [], bp_issues = []\<rparr>" bp]
  by (auto simp: bind_params_def split: sum.splits if_splits)


text \<open>
  C39. Every parameter of the handler's statement is bound, once and in order, before it runs, and a
  \<open>$claims_\<close> parameter is bound only from the claims of the verified credential: to the claim's
  text, or to NULL when the credential has no such claim, whatever the request sends under that name.
\<close>

theorem claims_params_verified:
  assumes "bind_params U (bind_param U E route req media claims g exec_param) params = Inr bp"
  shows "map fst (bp_values bp) = map fst params \<and>
    (\<forall>(name, v) \<in> set (bp_values bp). \<forall>key. IsClaimsParam U name = Some key \<longrightarrow>
       v = (case map_of claims key of None \<Rightarrow> en_null E | Some c \<Rightarrow> en_string E c))"
proof -
  note b = bind_params_values [OF assms]
  have "map fst (bp_values bp) = map fst params"
    using b by (induction rule: list_all2_induct) auto
  moreover have "v = (case map_of claims key of None \<Rightarrow> en_null E | Some c \<Rightarrow> en_string E c)"
    if "(name, v) \<in> set (bp_values bp)" "IsClaimsParam U name = Some key" for name v key
    using b that by (induction rule: list_all2_induct) (auto simp: bind_param_def)
  ultimately show ?thesis by auto
qed

lemma check_bounds_None:
  assumes "check_bounds E s n = None"
  shows "\<forall>b. (ps_ge s = Some b \<longrightarrow> en_greater_equal E n b) \<and> (ps_gt s = Some b \<longrightarrow> en_greater E n b) \<and>
    (ps_le s = Some b \<longrightarrow> en_less_equal E n b) \<and> (ps_lt s = Some b \<longrightarrow> en_less E n b)"
  using assms by (auto simp: check_bounds_def check_bound_def split: option.splits if_splits)

lemma CheckParamConstraints_None:
  assumes "CheckParamConstraints E s raw val variant = None"
  shows "(\<forall>n. ps_min_length s = Some n \<longrightarrow> n \<le> character_count raw) \<and> (\<forall>n. ps_max_length s = Some n \<longrightarrow> character_count raw \<le> n)"
  using assms by (auto simp: CheckParamConstraints_def split: if_splits)

lemma bind_text_remembered:
  assumes "bind_text U E route g spec expected x loc name d raw = BIND v (Some (loc', raw'))"
  shows "loc' = loc \<and> raw' = raw \<and> en_valid_utf8 E raw \<and>
    (IsIntegralType (en_type_id E expected) \<longrightarrow> IsStrictIntegerString raw (\<not> IsUnsignedIntegralType (en_type_id E expected))) \<and>
    (\<forall>s. spec = Some s \<longrightarrow> CheckParamConstraints E s raw (constraint_value E expected raw v) (en_type_id E expected = T_VARIANT) = None)"
  using assms
  by (auto simp: bind_text_def Let_def issue_def constrain_def bind_typed_body_def native_variant_def
      split: if_splits sum.splits option.splits)

lemma bind_param_remembered:
  assumes "bind_param U E route req media claims g exec_param name planned = BIND v (Some (loc, raw))"
  shows "\<exists>d. bind_text U E route g (FindParamSpec U (rt_params route) name) (param_type U E route exec_param name planned)
      (is_exec_sql U exec_param name) loc name d raw = BIND v (Some (loc, raw))"
proof -
  have c: "IsClaimsParam U name = None" using assms by (auto simp: bind_param_def split: option.splits)
  have "\<exists>d loc' raw'. bind_text U E route g (FindParamSpec U (rt_params route) name) (param_type U E route exec_param name planned)
      (is_exec_sql U exec_param name) loc' name d raw' = BIND v (Some (loc, raw))"
    using assms c by (auto simp: bind_param_def Let_def issue_def null_binding_def split: if_splits sum.splits option.splits) blast+
  then show ?thesis using bind_text_remembered by metis
qed

text \<open>The value of a bound text, when the parameter is neither a typed body nor a VARIANT.\<close>

definition text_bound :: "('v, 't) engine \<Rightarrow> 't \<Rightarrow> string \<Rightarrow> 'v \<Rightarrow> bool" where
  "text_bound E t raw v =
     (if en_type_id E t = T_VARIANT then True
      else if en_type_id E t = T_VARCHAR \<or> en_type_id E t = T_UNKNOWN then v = en_string E raw
      else en_try_cast E (en_string E raw) t = Some v)"

lemma bind_text_bound:
  assumes "bind_text U E route g spec expected x loc name d raw = BIND v (Some r)"
  shows "text_bound E expected raw v"
  using assms
  by (auto simp: text_bound_def bind_text_def BindParamValue_def Let_def issue_def constrain_def bind_typed_body_def native_variant_def
      split: if_splits sum.splits option.splits)


text \<open>
  What a value in the declared bounds is; and what the bounds rely on of DuckDB: a text is a VARCHAR and not NULL,
  and a cast of a text that succeeds gives a value of the type asked for that is not NULL.
\<close>

definition in_bounds :: "('v, 't) engine \<Rightarrow> 'v QuackapiParamSpec \<Rightarrow> 'v \<Rightarrow> bool" where
  "in_bounds E s n = (pred_option (en_greater_equal E n) (ps_ge s) \<and> pred_option (en_greater E n) (ps_gt s) \<and>
     pred_option (en_less_equal E n) (ps_le s) \<and> pred_option (en_less E n) (ps_lt s))"

definition casts_typed :: "('v, 't) engine \<Rightarrow> bool" where
  "casts_typed E = (\<forall>raw. en_type_id E (en_value_type E (en_string E raw)) = T_VARCHAR \<and> \<not> en_is_null E (en_string E raw) \<and>
     (\<forall>t v. en_try_cast E (en_string E raw) t = Some v \<longrightarrow> en_value_type E v = t \<and> \<not> en_is_null E v))"

lemma constraints_bounds:
  assumes "CheckParamConstraints E s raw val variant = None" and "has_bounds s" and "\<not> en_is_null E val"
  shows "\<exists>n. numeric_view E raw val variant = Some n \<and> (en_is_null E n \<or> in_bounds E s n)"
  using assms check_bounds_None [of E s]
  by (auto simp: CheckParamConstraints_def in_bounds_def pred_option_def split: if_splits option.splits)

lemma unbounded: "\<not> has_bounds s \<Longrightarrow> in_bounds E s n"
  by (simp add: has_bounds_def in_bounds_def)



section \<open>Examples\<close>

text \<open>An engine whose values are decimal texts and whose only cast keeps the text.\<close>

definition text_value :: "string \<Rightarrow> nat" where
  "text_value s = fold (\<lambda>c n. 10 * n + (byte c - 48)) s 0"

definition example_engine :: "(DuckValue, TypeId) engine" where
  "example_engine = \<lparr>en_tokens = (\<lambda>_. []),
     en_types = \<lparr>lt_view = (\<lambda>_. OTHER_VIEW), lt_variant = T_VARIANT, lt_struct = (\<lambda>_. T_STRUCT), lt_list = (\<lambda>_. T_LIST), lt_array = (\<lambda>_ _. T_OTHER 0)\<rparr>,
     en_type = id, en_type_id = id, en_type_name = (\<lambda>_. ''INTEGER''), en_valid_utf8 = list_all (\<lambda>c. byte c < 128),
     en_null = NullValue T_UNKNOWN, en_null_of = NullValue, en_string = Scalar T_VARCHAR, en_value_type = type_id, en_value_text = ToString,
     en_is_null = IsNull, en_try_cast = (\<lambda>v t. if IsStrictIntegerString (ToString v) False then Some (Scalar t (ToString v)) else None),
     en_default_cast = (\<lambda>v t. Inr v), en_tinyint_of_bool = id,
     en_greater_equal = (\<lambda>a b. text_value (ToString a) \<ge> text_value (ToString b)), en_greater = (\<lambda>a b. text_value (ToString a) > text_value (ToString b)),
     en_less_equal = (\<lambda>a b. text_value (ToString a) \<le> text_value (ToString b)), en_less = (\<lambda>a b. text_value (ToString a) < text_value (ToString b)),
     en_literal = (\<lambda>_. None), en_json_variant = (\<lambda>_. None), en_text_variant = (\<lambda>_. None), en_variant_value = id,
     en_load_json = True, en_is_json = (\<lambda>_. None), en_json_type = (\<lambda>_. None), en_json_each = (\<lambda>_. None),
     en_load_json_schema = False, en_try_schema = (\<lambda>_ _. None), en_schema_error = (\<lambda>_ _. None),
     en_try_transform = (\<lambda>_ _ _. Inr None), en_transform_error = (\<lambda>_ _. None), en_transform_type = (\<lambda>_ _. Inr None),
     en_transform_typeof = (\<lambda>_ _. Inr None), en_cast_json = (\<lambda>_ _ _. Inl [])\<rparr>"

definition item_spec :: "DuckValue QuackapiParamSpec" where
  "item_spec = \<lparr>ps_name = ''id'', ps_type_name = ''INTEGER'', ps_source = QUERY, ps_external_name = [], ps_has_default = False,
     ps_default_is_null = False, ps_default_raw = [], ps_default_variant = NullValue T_UNKNOWN, ps_ge = Some (Scalar T_INTEGER ''1''),
     ps_gt = None, ps_le = None, ps_lt = None, ps_min_length = None, ps_max_length = Some 3\<rparr>"

definition item_route :: "DuckValue QuackapiRoute" where
  "item_route = \<lparr>rt_name = ''item'', rt_method = ''GET'', rt_pattern = ''/items/:id'', rt_handler_sql = ''SELECT $id, $claims_sub'',
     rt_status = 200, rt_require_auth = [], rt_params = [item_spec], rt_body_schema = [], rt_body_type = [], rt_group_name = [],
     rt_tags = [], rt_max_request_bytes = 0, rt_rate_limit_n = 0, rt_rate_limit_per_sec = 0, rt_rate_limit_by = [],
     rt_response_format = ''json'', rt_response_envelope = ''array'', rt_empty_status = 0, rt_empty_body = [], rt_timeout_sec = 0,
     rt_schedule = []\<rparr>"

definition item_request :: Request where
  "item_request = (example_request ''GET'' ''/items/7'')\<lparr>rq_params := [(''ID'', ''8''), (''claims_sub'', ''root'')]\<rparr>"

definition item_gathered :: "DuckValue gathered" where
  "item_gathered = \<lparr>ga_provided = [(''ID'', ''path'', ''7''), (''claims_sub'', ''query'', ''root''), (''request_id'', ''server'', ''r''),
     (''trace_id'', ''server'', ''t''), (''span_id'', ''server'', ''s'')], ga_nulls = [], ga_json = [], ga_typed = None\<rparr>"

lemma item_gathers:
  "gather_params ascii_util example_engine item_route item_request [(''id'', ''7'')] ''r'' ''t'' ''s'' (rt_handler_sql item_route) =
     (\<lparr>bn_body_named = False, bn_json_fields = False, bn_body_fields = False\<rparr>, Inr item_gathered)"
  by code_simp


lemma item_binds:
  "bind_params ascii_util (bind_param ascii_util example_engine item_route item_request [] [(''sub'', ''u'')] item_gathered None)
     [(''id'', Some T_INTEGER), (''claims_sub'', None)] =
   Inr \<lparr>bp_values = [(''id'', Scalar T_INTEGER ''7''), (''claims_sub'', Scalar T_VARCHAR ''u'')], bp_raw = [(''id'', ''path'', ''7'')], bp_issues = []\<rparr>"
  by code_simp

theorem claims_params_verified_witness:
  "IsClaimsParam ascii_util ''claims_sub'' = Some ''sub'' \<and>
   Scalar T_VARCHAR ''u'' = (case map_of [(''sub'', ''u'')] ''sub'' of None \<Rightarrow> en_null example_engine | Some c \<Rightarrow> en_string example_engine c)"
proof -
  have "IsClaimsParam ascii_util ''claims_sub'' = Some ''sub''" by code_simp
  then show ?thesis using claims_params_verified [OF item_binds] by auto
qed

lemma example_casts: "casts_typed example_engine"
  by (auto simp: casts_typed_def example_engine_def split: if_splits)


text \<open>
  A file's own name is stored under the field's name with \<open>_filename\<close> appended whatever that name
  already holds, so an upload can replace a captured path segment.
\<close>

lemma filename_replaces_capture:
  "ci_find ascii_util ''doc_filename'' (form_file ascii_util \<lparr>ff_name = ''doc'', ff_filename = ''evil'', ff_content = ''x''\<rparr>
     [(''doc_filename'', ''path'', ''report'')]) = Some (''body'', ''evil'')"
  by code_simp

end
