(* ===== verification/Handler.thy ===== *)
theory Handler
  imports Params Server
begin

text \<open>
  A route's handler (\<open>src/src/quackapi_server.cpp\<close>, the second half of \<open>HandleRequest\<close>): the
  statement is prepared, its parameters are bound, it is executed, and its result is rendered in the
  negotiated format. DuckDB's preparation and execution and the columnar serializers are parameters
  (\<open>database\<close>); executing maps a database state to a new one.
\<close>

section \<open>What the handler uses of the database\<close>

datatype serialize_failure = TOO_LARGE | STOPPED | FAILED string

text \<open>
  \<open>db_order\<close> is the iteration order of a hash map, \<open>db_stop\<close> the cancellation check before each
  statement of a batch, \<open>db_expired\<close> the readings of the deadline after a batch and
  \<open>db_late\<close> the reading after a failed serialization.
\<close>

record ('db, 'v, 't, 'stmt) database =
  db_prepare :: "'db \<Rightarrow> string \<Rightarrow> string + (string \<times> 't option) list"
  db_execute :: "'db \<Rightarrow> string \<Rightarrow> (string \<times> 'v) list \<Rightarrow> 'db \<times> (string + 't exec_result)"
  db_extract :: "string \<Rightarrow> string + 'stmt list"
  db_run :: "'db \<Rightarrow> 'stmt \<Rightarrow> 'db \<times> (string + 't exec_result)"
  db_serializer :: "DuckValue native_serializer"
  db_what :: "exn \<Rightarrow> string"
  db_stop :: "nat \<Rightarrow> bool"
  db_expired :: "bool \<times> bool"
  db_late :: bool
  db_disconnected :: bool
  db_order :: "provided \<Rightarrow> provided"
  db_is_blob :: "'t \<Rightarrow> bool"
  db_arrow :: "'t exec_result \<Rightarrow> nat list \<Rightarrow> nat \<Rightarrow> serialize_failure + string"
  db_parquet :: "'t exec_result \<Rightarrow> nat list \<Rightarrow> nat \<Rightarrow> serialize_failure + string"

definition deadline_body :: string where
  "deadline_body = detail_body ''Query execution deadline exceeded''"

definition too_large_body :: string where
  "too_large_body = detail_body ''Response exceeds configured byte limit''"

section \<open>Errors of the execution\<close>

text \<open>The bound value an error message names: the longest one it contains, the later one on a tie.\<close>

definition blame :: "string_util \<Rightarrow> string \<Rightarrow> string \<times> (string \<times> string) \<Rightarrow> nat \<times> (string \<times> string) option \<Rightarrow> nat \<times> (string \<times> string) option" where
  "blame U err kv best = (case kv of (name, loc, raw) \<Rightarrow>
     if raw \<noteq> [] \<and> su_contains U err raw \<and> length raw \<ge> fst best then (length raw, Some (loc, name)) else best)"

definition blamed_param :: "string_util \<Rightarrow> string \<Rightarrow> provided \<Rightarrow> (string \<times> string) option" where
  "blamed_param U err bound_raw = snd (fold (blame U err) bound_raw (0, None))"

text \<open>A parameter named \<open>_\<close> counts as none found.\<close>

definition found_name :: "(string \<times> string) option \<Rightarrow> bool" where
  "found_name p = (case p of Some (_, name) \<Rightarrow> name \<noteq> ''_'' | None \<Rightarrow> False)"

definition conversion_error :: "string_util \<Rightarrow> string \<Rightarrow> provided \<Rightarrow> Response \<Rightarrow> Response" where
  "conversion_error U err bound_raw res =
     (let p = blamed_param U err bound_raw;
          q = (if found_name p then p
               else case bound_raw of [(name, loc, _)] \<Rightarrow> Some (loc, name) | _ \<Rightarrow> p)
      in case q of
           Some (loc, name) \<Rightarrow> SetJson 422 (ValidationErrorJson loc name err ''type_error'') res
         | None \<Rightarrow> SetJson 422 (ValidationErrorJson ''query'' ''_'' err ''type_error'') res)"

definition execution_error :: "string_util \<Rightarrow> string \<Rightarrow> provided \<Rightarrow> Response \<Rightarrow> Response" where
  "execution_error U err bound_raw res =
     (let err_lower = su_lower U err; has = su_contains U err_lower
      in if has ''limit/offset cannot be negative'' \<or> has ''limit cannot be negative'' \<or> has ''offset cannot be negative'' then
           SetJson 200 ''[]'' res
         else if has ''conversion error'' \<or> has ''could not convert string'' then conversion_error U err bound_raw res
         else if has ''invalid input'' \<or> has ''binder error'' \<or> has ''out of range'' then
           (case blamed_param U err bound_raw of
              Some (loc, name) \<Rightarrow> if name = ''_'' then SetInternalError err res
                else SetJson 422 (ValidationErrorJson loc name err ''value_error'') res
            | None \<Rightarrow> SetInternalError err res)
         else SetInternalError err res)"

section \<open>Rendering a result\<close>

record rendered =
  rn_rows :: "row list"
  rn_json :: string
  rn_location :: string
  rn_cookies :: "string list"
  rn_count :: nat
  rn_bytes :: nat

fun value_bytes :: "DuckValue \<Rightarrow> nat" where
  "value_bytes (BlobValue bytes _) = length bytes"
| "value_bytes v = length (ToString v)"

definition special_cells :: "result_cols \<Rightarrow> row \<Rightarrow> rendered \<Rightarrow> rendered" where
  "special_cells rc cols st =
     (let st1 = (case cell_text (rc_location rc) cols of
            Some l \<Rightarrow> if rn_location st = [] then st\<lparr>rn_location := l\<rparr> else st | None \<Rightarrow> st)
      in case cell_text (rc_set_cookie rc) cols of
           Some v \<Rightarrow> st1\<lparr>rn_cookies := rn_cookies st1 @ [v]\<rparr> | None \<Rightarrow> st1)"

text \<open>One row of the loop; \<open>None\<close> is the answer for a response over the byte limit.\<close>

definition render_row :: "string list \<Rightarrow> result_cols \<Rightarrow> bool \<Rightarrow> bool \<Rightarrow> nat \<Rightarrow> row \<Rightarrow> rendered \<Rightarrow> rendered option" where
  "render_row names rc count_json_bytes object_envelope max_bytes cols st =
     (let bytes = rn_bytes st + (if count_json_bytes then 0 else sum_list (map value_bytes cols));
          encoded = SerializeRowJsonObject names (rc_data rc) cols;
          comma = (\<not> object_envelope \<and> rn_count st \<noteq> 0);
          json_bytes = bytes + length encoded + (if comma then 1 else 0)
      in if cols \<noteq> [] \<and> bytes > max_bytes then None
         else if count_json_bytes \<and> json_bytes > max_bytes then None
         else let st1 = (if count_json_bytes
                then st\<lparr>rn_bytes := json_bytes, rn_json := rn_json st @ (if comma then '','' else []) @ encoded\<rparr>
                else st\<lparr>rn_bytes := bytes\<rparr>);
                  st2 = special_cells rc cols st1
              in Some (st2\<lparr>rn_count := rn_count st2 + 1,
                   rn_rows := (if count_json_bytes then rn_rows st2 else rn_rows st2 @ [cols])\<rparr>))"

fun render_rows :: "(row \<Rightarrow> rendered \<Rightarrow> rendered option) \<Rightarrow> row list \<Rightarrow> rendered \<Rightarrow> rendered option" where
  "render_rows step [] st = Some st"
| "render_rows step (cols # rows) st = (case step cols st of None \<Rightarrow> None | Some st' \<Rightarrow> render_rows step rows st')"

definition set_cookies :: "string list \<Rightarrow> Response \<Rightarrow> Response" where
  "set_cookies cookies res = fold (set_header ''Set-Cookie'') cookies res"

definition set_location :: "string \<Rightarrow> Response \<Rightarrow> Response" where
  "set_location location res = (if location \<noteq> [] then set_header ''Location'' location res else res)"

text \<open>The columnar formats, whose bytes the parameters produce; cookies come before the location here.\<close>

definition columnar_response :: "'v QuackapiRoute \<Rightarrow> string \<Rightarrow> rendered \<Rightarrow> string \<Rightarrow> Response \<Rightarrow> Response" where
  "columnar_response route content_type st body res =
     (let res1 = set_location (rn_location st) (set_cookies (rn_cookies st) res)
      in if rn_count st = 0 \<and> rt_empty_status route \<noteq> 0 then SetJson (rt_empty_status route) (EmptyResultBody route) res1
         else set_content body content_type (res1\<lparr>rs_status := rt_status route\<rparr>))"

definition new_rendered :: "bool \<Rightarrow> bool \<Rightarrow> rendered" where
  "new_rendered count_json_bytes object_envelope =
     \<lparr>rn_rows = [], rn_json = (if object_envelope then [] else ''[''), rn_location = [], rn_cookies = [], rn_count = 0,
      rn_bytes = (if count_json_bytes \<and> \<not> object_envelope then 2 else 0)\<rparr>"

definition visit_rows :: "result_cols \<Rightarrow> row list \<Rightarrow> rendered" where
  "visit_rows rc rows = fold (\<lambda>cols st. (special_cells rc cols st)\<lparr>rn_count := rn_count st + 1\<rparr>) rows (new_rendered False False)"

definition arrow_response :: "('db, 'v, 't, 'stmt) database \<Rightarrow> 'v QuackapiRoute \<Rightarrow> nat \<Rightarrow> 't exec_result \<Rightarrow> result_cols \<Rightarrow> Response \<Rightarrow> Response" where
  "arrow_response D route max_bytes result rc res = (case db_arrow D result (rc_data rc) max_bytes of
     Inr body \<Rightarrow> columnar_response route ''application/vnd.apache.arrow.stream'' (visit_rows rc (er_rows result)) body res
   | Inl (FAILED msg) \<Rightarrow> SetInternalError msg res
   | Inl _ \<Rightarrow> SetJson 507 too_large_body res)"

definition parquet_response :: "('db, 'v, 't, 'stmt) database \<Rightarrow> 'v QuackapiRoute \<Rightarrow> nat \<Rightarrow> 't exec_result \<Rightarrow> result_cols \<Rightarrow> Response \<Rightarrow> Response" where
  "parquet_response D route max_bytes result rc res = (case db_parquet D result (rc_data rc) max_bytes of
     Inr body \<Rightarrow> columnar_response route ''application/vnd.apache.parquet'' (visit_rows rc (er_rows result)) body res
   | Inl TOO_LARGE \<Rightarrow> SetJson 507 too_large_body res
   | Inl STOPPED \<Rightarrow> if db_late D then SetJson 504 deadline_body res else res
   | Inl (FAILED msg) \<Rightarrow> if db_late D then SetJson 504 deadline_body res
       else if \<not> db_disconnected D then SetJson 500 (detail_json msg) res else res)"

section \<open>The formats built from rows\<close>

definition binary_error :: string where
  "binary_error = detail_body ''FORMAT binary requires one row with a BLOB body and optional content_type''"

text \<open>The last data column of a name, compared without case; the number of columns when there is none.\<close>

definition column_of :: "string_util \<Rightarrow> string list \<Rightarrow> nat list \<Rightarrow> string \<Rightarrow> nat" where
  "column_of U names data_cols name = (case filter (\<lambda>c. su_ci_equals U (names ! c) name) data_cols of
     [] \<Rightarrow> length names | cs \<Rightarrow> last cs)"

definition blob_bytes :: "DuckValue \<Rightarrow> string" where
  "blob_bytes v = (case v of BlobValue bytes _ \<Rightarrow> bytes | _ \<Rightarrow> ToString v)"

definition binary_response :: "string_util \<Rightarrow> ('db, 'v, 't, 'stmt) database \<Rightarrow> 'v QuackapiRoute \<Rightarrow> 't exec_result \<Rightarrow> result_cols \<Rightarrow> row list \<Rightarrow> Response \<Rightarrow> Response" where
  "binary_response U D route result rc rows res =
     (let names = er_names result;
          body_col = column_of U names (rc_data rc) ''body'';
          type_col = column_of U names (rc_data rc) ''content_type''
      in if length rows \<noteq> 1 \<or> body_col = length names \<or> IsNull (hd rows ! body_col) \<or> \<not> db_is_blob D (er_types result ! body_col) \<or>
            length (rc_data rc) \<noteq> (if type_col = length names then 1 else 2) then SetJson 500 binary_error res
         else let declared = (if type_col \<noteq> length names \<and> \<not> IsNull (hd rows ! type_col) then Some (ToString (hd rows ! type_col)) else None)
              in if (case declared of Some t \<Rightarrow> t = [] \<or> any (\<lambda>c. byte c < 32 \<or> byte c = 127) t | None \<Rightarrow> False) then
                   SetJson 500 (detail_body ''Invalid binary content_type'') res
                 else set_content (blob_bytes (hd rows ! body_col))
                   (case declared of Some t \<Rightarrow> t | None \<Rightarrow> ''application/octet-stream'') (res\<lparr>rs_status := rt_status route\<rparr>))"

definition text_response :: "'v QuackapiRoute \<Rightarrow> ResponseMode \<Rightarrow> result_cols \<Rightarrow> row list \<Rightarrow> Response \<Rightarrow> Response" where
  "text_response route mode rc rows res =
     set_content (concat (map (\<lambda>cols. case cell_text (hd (rc_data rc)) cols of Some t \<Rightarrow> t | None \<Rightarrow> []) rows))
       (if mode = MODE_HTML then ''text/html; charset=utf-8'' else ''text/plain; charset=utf-8'') (res\<lparr>rs_status := rt_status route\<rparr>)"

definition object_envelope :: "string_util \<Rightarrow> 'v QuackapiRoute \<Rightarrow> bool" where
  "object_envelope U route = (su_lower U (if rt_response_envelope route = [] then ''array'' else rt_response_envelope route) = ''object'')"

definition json_response :: "string_util \<Rightarrow> 'v QuackapiRoute \<Rightarrow> rendered \<Rightarrow> Response \<Rightarrow> Response" where
  "json_response U route st res =
     (if object_envelope U route then
        (if rn_count st > 1 then
           SetJson 500 (detail_body (''ENVELOPE object requires exactly one row, got '' @ nat_string (rn_count st))) res
         else SetJson (rt_status route) (if rn_count st = 0 then ''null'' else rn_json st) res)
      else SetJson (rt_status route) (rn_json st @ '']'') res)"

definition rows_response :: "string_util \<Rightarrow> ('db, 'v, 't, 'stmt) database \<Rightarrow> 'v QuackapiRoute \<Rightarrow> BodyFormat \<Rightarrow> bool \<Rightarrow> 't exec_result \<Rightarrow> result_cols
    \<Rightarrow> ResponseMode \<Rightarrow> rendered \<Rightarrow> Response \<Rightarrow> Response" where
  "rows_response U D route body_format exec_route result rc mode st res0 =
     (let names = er_names result; res = set_cookies (rn_cookies st) (set_location (rn_location st) res0); ok = res\<lparr>rs_status := rt_status route\<rparr>
      in if rn_count st = 0 \<and> rt_empty_status route \<noteq> 0 then SetJson (rt_empty_status route) (EmptyResultBody route) res
         else if rc_data rc = [] \<and> exec_route \<and> rc_location rc = length names \<and> rc_set_cookie rc = length names then
           SetJson (rt_status route) ''[]'' res
         else if rc_data rc = [] then ok\<lparr>rs_body := []\<rparr>
         else if body_format = FORMAT_BINARY then binary_response U D route result rc (rn_rows st) res
         else if mode \<noteq> MODE_JSON then text_response route mode rc (rn_rows st) res
         else if body_format = FORMAT_NDJSON then set_content (SerializeRowsNdjson names (rc_data rc) (rn_rows st)) ''application/x-ndjson'' ok
         else if body_format = FORMAT_CSV then set_content (SerializeRowsCsv names (rc_data rc) (rn_rows st)) ''text/csv; charset=utf-8'' ok
         else if body_format = FORMAT_PARQUET then set_content [] ''application/vnd.apache.parquet'' ok
         else json_response U route st res)"

definition render_result :: "string_util \<Rightarrow> ('db, 'v, 't, 'stmt) database \<Rightarrow> 'v QuackapiRoute \<Rightarrow> nat \<Rightarrow> BodyFormat \<Rightarrow> bool \<Rightarrow> 't exec_result \<Rightarrow> Response \<Rightarrow> Response" where
  "render_result U D route max_bytes body_format exec_route result res =
     (let names = er_names result; rc = result_columns U names;
          mode = ResponseModeFor U (map (\<lambda>c. names ! c) (rc_data rc));
          count_json_bytes = (body_format = FORMAT_JSON \<and> mode = MODE_JSON \<and> rc_data rc \<noteq> []);
          step = render_row names rc count_json_bytes (object_envelope U route) max_bytes
      in if body_format = FORMAT_ARROW \<and> mode = MODE_JSON \<and> rc_data rc \<noteq> [] then arrow_response D route max_bytes result rc res
         else if body_format = FORMAT_PARQUET \<and> rc_data rc \<noteq> [] then parquet_response D route max_bytes result rc res
         else case render_rows step (er_rows result) (new_rendered count_json_bytes (object_envelope U route)) of
           None \<Rightarrow> SetJson 507 too_large_body res
         | Some st \<Rightarrow> (case er_throws result of
             Some msg \<Rightarrow> SetInternalError msg res
           | None \<Rightarrow> rows_response U D route body_format exec_route result rc mode st res))"

section \<open>The handler\<close>

definition ValidateRequestSql :: "('db, 'v, 't, 'stmt) database \<Rightarrow> string \<Rightarrow> string option" where
  "ValidateRequestSql D sql = (case db_extract D sql of
     Inl err \<Rightarrow> Some err
   | Inr statements \<Rightarrow> if statements = [] then Some ''No statement to parse!'' else None)"

record request_ids =
  ri_request_id :: string
  ri_trace_id :: string
  ri_span_id :: string

text \<open>The statement to prepare: a typed \<open>$body\<close> gets the cast its declaration asks for. \<open>Inl\<close> is the message of a bad declaration.\<close>

definition typed_handler_sql :: "string_util \<Rightarrow> ('v, 't) engine \<Rightarrow> 'v QuackapiRoute \<Rightarrow> bool \<Rightarrow> body_needs \<Rightarrow> 'v option \<Rightarrow> string \<Rightarrow> string + string" where
  "typed_handler_sql U E route exec_route needs typed handler_sql =
     (if bn_body_named needs \<and> rt_body_type route \<noteq> [] \<and> \<not> exec_route then
        (let known = (case typed of Some v \<Rightarrow> en_type_name E (en_value_type E v) | None \<Rightarrow> [])
         in case (if known = [] then ResolveTypedBodySqlType U E (rt_body_type route) else Inr known) of
              Inl err \<Rightarrow> Inl (''Invalid BODY TYPE declaration: '' @ err)
            | Inr sql_type \<Rightarrow> Inr (RewriteTypedBodyParameter U E handler_sql sql_type))
      else Inr handler_sql)"

text \<open>The request's SQL of an exec route: a failure is a 422 on the parameter that carried it.\<close>

definition run_exec_route :: "string_util \<Rightarrow> ('db, 'v, 't, 'stmt) database \<Rightarrow> 'v QuackapiRoute \<Rightarrow> Request \<Rightarrow> nat \<Rightarrow> BodyFormat \<Rightarrow> string \<Rightarrow> provided
    \<Rightarrow> Response \<Rightarrow> 'db \<Rightarrow> 'db \<times> Response" where
  "run_exec_route U D route req max_bytes body_format exec_param bound_raw res db =
     (case ci_find U exec_param bound_raw of
        None \<Rightarrow> (db, SetJson 422 (ValidationErrorJson (if IsBodyMethod (rq_method req) then ''body'' else ''query'') exec_param
          ''Field required'' ''missing'') res)
      | Some (loc, sql) \<Rightarrow>
          if IsPlainExecRoute U route body_format then
            (case QuackapiExecSql U (db_serializer D) (db_what D) (db_extract D) (db_run D) (db_stop D) (db_expired D) sql max_bytes loc exec_param False db of
               (db', response) \<Rightarrow> (db', ApplyExecResponse U response res))
          else (case ExecuteRequestSql (db_extract D) (db_run D) (db_stop D) sql db of
            (db', Inl err) \<Rightarrow> (db', if fst (db_expired D) then SetJson 504 deadline_body res
               else SetJson 422 (ValidationErrorJson loc exec_param err ''value_error'') res)
          | (db', Inr None) \<Rightarrow> (db', res)
          | (db', Inr (Some result)) \<Rightarrow> (db', render_result U D route max_bytes body_format True result res)))"

definition run_statement :: "string_util \<Rightarrow> ('db, 'v, 't, 'stmt) database \<Rightarrow> 'v QuackapiRoute \<Rightarrow> nat \<Rightarrow> BodyFormat \<Rightarrow> string \<Rightarrow> 'v bound_params \<Rightarrow> Response
    \<Rightarrow> 'db \<Rightarrow> 'db \<times> Response" where
  "run_statement U D route max_bytes body_format sql bp res db = (case db_execute D db sql (bp_values bp) of
     (db', Inl err) \<Rightarrow> (db', execution_error U err (db_order D (bp_raw bp)) res)
   | (db', Inr result) \<Rightarrow> (db', render_result U D route max_bytes body_format False result res))"

text \<open>
  Everything before the execution: \<open>Inl\<close> is the answer of a refused request, \<open>Inr\<close> the prepared
  statement and its bound values.
\<close>

definition accept_request :: "string_util \<Rightarrow> ('v, 't) engine \<Rightarrow> ('db, 'v, 't, 'stmt) database \<Rightarrow> Request \<Rightarrow> request_ids
    \<Rightarrow> 'v QuackapiRoute \<Rightarrow> (string \<times> string) list \<Rightarrow> claims \<Rightarrow> string \<Rightarrow> Response \<Rightarrow> 'db \<Rightarrow> Response + (string \<times> 'v bound_params)" where
  "accept_request U E D req ids route captures claims handler_sql res db =
     (let exec_param = QuackapiExecRouteParam U (rt_handler_sql route); exec_route = (exec_param \<noteq> None);
          media = ContentTypeMedia U (CollectHeaders U (rq_headers req))
      in case gather_params U E route req captures (ri_request_id ids) (ri_trace_id ids) (ri_span_id ids) handler_sql of
           (needs, Inl err) \<Rightarrow> Inl (SetJson 422 err res)
         | (needs, Inr g) \<Rightarrow> (case typed_handler_sql U E route exec_route needs (ga_typed g) handler_sql of
             Inl err \<Rightarrow> Inl (SetInternalError err res)
           | Inr sql \<Rightarrow>
               let statement = (case exec_param of Some p \<Rightarrow> ''SELECT $'' @ p | None \<Rightarrow> sql)
               in case db_prepare D db statement of
                    Inl err \<Rightarrow> Inl (SetInternalError err res)
                  | Inr params \<Rightarrow> (case bind_params U (bind_param U E route req media claims g exec_param) params of
                      Inl (status, body) \<Rightarrow> Inl (SetJson status body res)
                    | Inr bp \<Rightarrow>
                        (case (if rt_pattern route = ''/sql'' \<and> \<not> exec_route then
                                 (case ci_find U ''sql'' (ga_provided g) of Some (_, raw) \<Rightarrow> ValidateRequestSql D raw | None \<Rightarrow> None)
                               else None) of
                           Some err \<Rightarrow> Inl (SetJson 422 (ValidationErrorJson ''body'' ''sql'' err ''value_error'') res)
                         | None \<Rightarrow> Inr (statement, bp)))))"

definition handle_route :: "string_util \<Rightarrow> float_text \<Rightarrow> ('v, 't) engine \<Rightarrow> ('db, 'v, 't, 'stmt) database \<Rightarrow> QuackapiServeOptions \<Rightarrow> Request \<Rightarrow> request_ids
    \<Rightarrow> 'v QuackapiRoute \<Rightarrow> (string \<times> string) list \<Rightarrow> claims \<Rightarrow> string \<Rightarrow> Response \<Rightarrow> 'db \<Rightarrow> 'db \<times> Response" where
  "handle_route U F E D options req ids route captures claims handler_sql res db =
     (case accept_request U E D req ids route captures claims handler_sql res db of
        Inl answer \<Rightarrow> (db, answer)
      | Inr (statement, bp) \<Rightarrow>
          let max_bytes = nat (so_max_response_bytes options); body_format = ResolveBodyFormat U F route (rq_headers req)
          in case QuackapiExecRouteParam U (rt_handler_sql route) of
               Some p \<Rightarrow> run_exec_route U D route req max_bytes body_format p (bp_raw bp) res db
             | None \<Rightarrow> run_statement U D route max_bytes body_format statement bp res db)"

section \<open>Properties\<close>

lemma special_cells_sel [simp]:
  "rn_json (special_cells rc cols st) = rn_json st" "rn_count (special_cells rc cols st) = rn_count st"
  "rn_bytes (special_cells rc cols st) = rn_bytes st" "rn_rows (special_cells rc cols st) = rn_rows st"
  by (auto simp: special_cells_def Let_def split: option.splits)

text \<open>The text that the rows add to the body, and that its length decides about the byte limit.\<close>

fun rows_text :: "(row \<Rightarrow> string) \<Rightarrow> bool \<Rightarrow> nat \<Rightarrow> row list \<Rightarrow> string" where
  "rows_text enc obj n [] = []"
| "rows_text enc obj n (cols # rows) = (if \<not> obj \<and> n \<noteq> 0 then '','' else []) @ enc cols @ rows_text enc obj (Suc n) rows"

lemma rows_text_array: "rows_text enc False (Suc n) rows = concat (map (\<lambda>cols. '','' @ enc cols) rows)"
  by (induction rows arbitrary: n) simp_all

lemma rows_text_simps:
  "rows_text enc True n rows = concat (map enc rows)" "rows_text enc False 0 rows = comma_list (map enc rows)"
proof -
  show "rows_text enc True n rows = concat (map enc rows)" by (induction rows arbitrary: n) simp_all
  have "comma_list (enc r # map enc rs) = enc r @ concat (map (\<lambda>cols. '','' @ enc cols) rs)" for r rs
    by (induction rs arbitrary: r) simp_all
  then show "rows_text enc False 0 rows = comma_list (map enc rows)" by (cases rows) (simp_all add: rows_text_array)
qed

lemma render_row_json:
  "render_row names rc True obj m cols st =
     (let t = rows_text (SerializeRowJsonObject names (rc_data rc)) obj (rn_count st) [cols]
      in if rn_bytes st + length t > m then None
         else Some ((special_cells rc cols (st\<lparr>rn_bytes := rn_bytes st + length t, rn_json := rn_json st @ t\<rparr>))\<lparr>rn_count := rn_count st + 1\<rparr>))"
  by (simp add: render_row_def Let_def)

lemma render_rows_json:
  fixes names rc defines "enc \<equiv> SerializeRowJsonObject names (rc_data rc)"
  shows "case render_rows (render_row names rc True obj m) rows st of
      None \<Rightarrow> rows \<noteq> [] \<and> m < rn_bytes st + length (rows_text enc obj (rn_count st) rows)
    | Some st' \<Rightarrow> (rows = [] \<or> rn_bytes st + length (rows_text enc obj (rn_count st) rows) \<le> m) \<and>
        rn_json st' = rn_json st @ rows_text enc obj (rn_count st) rows \<and> rn_count st' = rn_count st + length rows"
proof (induction rows arbitrary: st)
  case (Cons cols rows)
  let ?t = "rows_text enc obj (rn_count st) [cols]"
  have split: "rows_text enc obj (rn_count st) (cols # rows) = ?t @ rows_text enc obj (Suc (rn_count st)) rows" by simp
  show ?case
  proof (cases "render_row names rc True obj m cols st")
    case None
    then have "m < rn_bytes st + length ?t" by (simp add: render_row_json enc_def Let_def del: rows_text.simps split: if_splits)
    then show ?thesis unfolding split using None by (simp del: rows_text.simps)
  next
    case (Some st1)
    then have st1: "rn_bytes st1 = rn_bytes st + length ?t" "rn_json st1 = rn_json st @ ?t" "rn_count st1 = Suc (rn_count st)"
      "rn_bytes st + length ?t \<le> m"
      by (auto simp: render_row_json enc_def Let_def simp del: rows_text.simps split: if_splits)
    show ?thesis unfolding split
      using Cons.IH [of st1] st1 by (cases rows) (auto simp: Some simp del: rows_text.simps split: option.splits)
  qed
qed simp

lemma set_header_body [simp]: "rs_body (set_header k v res) = rs_body res" "rs_status (set_header k v res) = rs_status res"
  by (simp_all add: set_header_def)

lemma SetJson_sel [simp]: "rs_status (SetJson n body res) = n" "rs_body (SetJson n body res) = body"
  by (simp_all add: SetJson_def set_content_def)

lemma value_fits_more: "value_fits n v \<Longrightarrow> value_fits (Suc n) v"
proof (induction n v rule: value_fits.induct)
  case (1 n children t)
  then show ?case by (cases n) auto
next
  case (2 n children t)
  then show ?case by (cases n) auto
qed simp_all

lemma row_document:
  assumes "row_ok data_cols cols"
  shows "ParseDocument (SerializeRowJsonObject names data_cols cols) = Some (row_node names data_cols cols)"
proof (rule reads_as_document)
  let ?ps = "map (\<lambda>col. (names ! col, cols ! col)) data_cols"
  have fits: "wf_value (cols ! col) \<and> value_fits 127 (cols ! col)" if "col \<in> set data_cols" for col
  proof -
    have "wf_value (cols ! col)" "value_fits 126 (cols ! col)" using assms that by (auto simp: row_ok_def)
    with value_fits_more [of 126 "cols ! col"] show ?thesis by (metis eval_nat_numeral(3) semiring_norm(28))
  qed
  have "reads_as (Suc 127) (''{'' @ comma_list (map (\<lambda>p. json_quote (fst p) @ '':'' @ ValueToJson (snd p)) ?ps) @ ''}'')
    (JsonNode OBJECT [] [] (map (\<lambda>p. (fst p, value_node (snd p))) ?ps))"
    by (rule reads_pairs) (use fits in \<open>auto intro: value_json_reads\<close>)
  then show "reads_as MAX_NESTING_DEPTH (SerializeRowJsonObject names data_cols cols) (row_node names data_cols cols)"
    by (simp add: SerializeRowJsonObject_def json_pairs_def row_node_def comp_def MAX_NESTING_DEPTH_def)
qed

lemma null_document: "ParseDocument ''null'' = Some (JsonNode NIL [] [] [])"
  by (rule reads_as_document [OF reads_null])

text \<open>The bytes a JSON answer needs: of the whole array, or of the rows that an object answer is made from.\<close>

definition json_size :: "string_util \<Rightarrow> 'v QuackapiRoute \<Rightarrow> 't exec_result \<Rightarrow> nat" where
  "json_size U route result =
     (let enc = SerializeRowJsonObject (er_names result) (rc_data (result_columns U (er_names result)))
      in if object_envelope U route then length (concat (map enc (er_rows result))) else length (comma_list (map enc (er_rows result))) + 2)"

text \<open>
  C36. A JSON answer is what the statement returned, for every outcome of a result with data columns. A result with
  rows whose text is over the byte limit is answered 507, and no other is. An empty result gets the route's
  EMPTY STATUS and body when it has one. With the array envelope the answer has the route's status and
  reads as an array with one object per row, in order, each with the data columns under their names; with the
  object envelope it reads as the one row's object, as null for no row, and two rows are answered 500.
  What reads as the rows is within the byte limit.
\<close>

theorem json_answer_is_result:
  assumes "json_result U result" and "er_throws result = None"
    and "\<forall>cols \<in> set (er_rows result). row_ok (rc_data (result_columns U (er_names result))) cols"
    and "r = render_result U D route max_bytes FORMAT_JSON exec_route result res"
  shows "if er_rows result \<noteq> [] \<and> max_bytes < json_size U route result then r = SetJson 507 too_large_body res
    else if er_rows result = [] \<and> rt_empty_status route \<noteq> 0 then
      rs_status r = rt_empty_status route \<and> rs_body r = EmptyResultBody route
    else if object_envelope U route \<and> length (er_rows result) > 1 then
      rs_status r = 500 \<and> rs_body r = detail_body (''ENVELOPE object requires exactly one row, got '' @ nat_string (length (er_rows result)))
    else rs_status r = rt_status route \<and> (er_rows result \<noteq> [] \<longrightarrow> length (rs_body r) \<le> max_bytes) \<and>
      ParseDocument (rs_body r) = Some
        (let node = row_node (er_names result) (rc_data (result_columns U (er_names result)))
         in if \<not> object_envelope U route then JsonNode ARRAY [] (map node (er_rows result)) []
            else case er_rows result of [] \<Rightarrow> JsonNode NIL [] [] [] | cols # _ \<Rightarrow> node cols)"
proof -
  let ?rc = "result_columns U (er_names result)" and ?obj = "object_envelope U route" and ?rows = "er_rows result"
  let ?enc = "SerializeRowJsonObject (er_names result) (rc_data ?rc)"
  let ?run = "render_rows (render_row (er_names result) ?rc True ?obj max_bytes) ?rows (new_rendered True ?obj)"
  have r: "r = (case ?run of None \<Rightarrow> SetJson 507 too_large_body res
      | Some st \<Rightarrow> rows_response U D route FORMAT_JSON exec_route result ?rc MODE_JSON st res)"
    using assms(1,2,4) by (simp add: render_result_def Let_def json_result_def split: option.split)
  have size: "rn_bytes (new_rendered True ?obj) + length (rows_text ?enc ?obj (rn_count (new_rendered True ?obj)) ?rows) = json_size U route result"
    by (simp add: new_rendered_def json_size_def rows_text_simps)
  note run = render_rows_json [where names = "er_names result" and rc = ?rc and obj = ?obj and m = max_bytes and rows = ?rows and st = "new_rendered True ?obj", unfolded size]
  show ?thesis
  proof (cases "?rows \<noteq> [] \<and> max_bytes < json_size U route result")
    case True
    then have "?run = None" using run by (auto split: option.splits)
    with True r show ?thesis by simp
  next
    case False
    then obtain st where st: "?run = Some st" using run by (auto split: option.splits)
    then have cells: "rn_json st = (if ?obj then [] else ''['') @ rows_text ?enc ?obj 0 ?rows" "rn_count st = length ?rows"
      using run by (simp_all add: new_rendered_def)
    have data: "rc_data ?rc \<noteq> []" using assms(1) by (simp add: json_result_def)
    have resp: "rows_response U D route FORMAT_JSON exec_route result ?rc MODE_JSON st res =
        (if ?rows = [] \<and> rt_empty_status route \<noteq> 0 then SetJson (rt_empty_status route) (EmptyResultBody route)
           (set_cookies (rn_cookies st) (set_location (rn_location st) res))
         else json_response U route st (set_cookies (rn_cookies st) (set_location (rn_location st) res)))"
      using data cells(2) by (simp add: rows_response_def Let_def)
    have array: "ParseDocument (rn_json st @ '']'') = Some (JsonNode ARRAY [] (map (row_node (er_names result) (rc_data ?rc)) ?rows) [])"
      "length (rn_json st @ '']'') = json_size U route result" if "\<not> ?obj"
      using that json_rows_document [OF assms(3), of "er_names result"] by (simp_all add: cells(1) rows_text_simps json_rows_def json_size_def)
    have object: "rn_json st = ?enc cols" "length (rn_json st) = json_size U route result"
        "ParseDocument (?enc cols) = Some (row_node (er_names result) (rc_data ?rc) cols)"
      if "?obj" "?rows = [cols]" for cols
      using that row_document assms(3) by (simp_all add: cells(1) rows_text_simps json_size_def)
    show ?thesis
    proof (cases ?obj)
      case True
      with False show ?thesis unfolding r st option.case resp using object null_document cells(2)
        by (cases ?rows; cases "tl ?rows") (auto simp: json_response_def)
    next
      case o: False
      with False array [OF o] show ?thesis unfolding r st option.case resp by (auto simp: json_response_def)
    qed
  qed
qed

lemma QuackapiExecSql_db: "fst (QuackapiExecSql U S what extract run stop expired sql n loc param c db) = fst (ExecuteRequestSql extract run stop sql db)"
  by (simp add: QuackapiExecSql_def Let_def split: prod.splits)

lemma run_exec_route_db:
  assumes "ci_find U p bound_raw = Some (loc, sql)"
  shows "fst (run_exec_route U D route req n fmt p bound_raw res db) = fst (ExecuteRequestSql (db_extract D) (db_run D) (db_stop D) sql db)"
  using QuackapiExecSql_db [of U "db_serializer D" "db_what D" "db_extract D" "db_run D" "db_stop D" "db_expired D" sql n loc p False db] assms
  by (auto simp: run_exec_route_def split: prod.splits sum.splits option.splits)

lemma run_statement_db: "fst (run_statement U D route n fmt sql bp res db) = fst (db_execute D db sql (bp_values bp))"
  by (auto simp: run_statement_def split: prod.splits sum.splits)

text \<open>
  What a request must pass before anything is executed: its body and parameters are gathered, the handler's
  statement prepares, every parameter of it is bound within its declaration, and SQL sent to the route
  \<open>/sql\<close> parses. \<open>statement\<close> and \<open>bp\<close> are then what is executed.
\<close>

definition accepted :: "string_util \<Rightarrow> ('v, 't) engine \<Rightarrow> ('db, 'v, 't, 'stmt) database \<Rightarrow> Request \<Rightarrow> request_ids \<Rightarrow> 'v QuackapiRoute
    \<Rightarrow> (string \<times> string) list \<Rightarrow> claims \<Rightarrow> string \<Rightarrow> 'db \<Rightarrow> string \<Rightarrow> 'v bound_params \<Rightarrow> bool" where
  "accepted U E D req ids route captures claims handler_sql db statement bp =
     (\<exists>needs g sql params. let exec_param = QuackapiExecRouteParam U (rt_handler_sql route) in
        gather_params U E route req captures (ri_request_id ids) (ri_trace_id ids) (ri_span_id ids) handler_sql = (needs, Inr g) \<and>
        typed_handler_sql U E route (exec_param \<noteq> None) needs (ga_typed g) handler_sql = Inr sql \<and>
        statement = (case exec_param of Some p \<Rightarrow> ''SELECT $'' @ p | None \<Rightarrow> sql) \<and> db_prepare D db statement = Inr params \<and>
        bind_params U (bind_param U E route req (ContentTypeMedia U (CollectHeaders U (rq_headers req))) claims g exec_param) params = Inr bp \<and>
        (rt_pattern route = ''/sql'' \<and> exec_param = None \<longrightarrow>
           (\<forall>loc raw. ci_find U ''sql'' (ga_provided g) = Some (loc, raw) \<longrightarrow> ValidateRequestSql D raw = None)))"

lemma accept_request_accepted:
  "accept_request U E D req ids route captures claims handler_sql res db = Inr (statement, bp) \<longleftrightarrow>
     accepted U E D req ids route captures claims handler_sql db statement bp"
  by (auto simp: accept_request_def accepted_def Let_def split: prod.splits sum.splits option.splits if_splits)

lemma bind_params_status: "bind_params U bind params = Inl (status, body) \<Longrightarrow> status = 422 \<or> status = 500"
proof -
  have "bind_all U bind params bp = Inl (status, body) \<Longrightarrow> status = 422 \<or> status = 500" for bp
    by (induction params arbitrary: bp) (auto split: binding.splits)
  then show "bind_params U bind params = Inl (status, body) \<Longrightarrow> status = 422 \<or> status = 500"
    by (auto simp: bind_params_def split: sum.splits if_splits)
qed

lemma accept_request_refused:
  "accept_request U E D req ids route captures claims handler_sql res db = Inl answer \<Longrightarrow> rs_status answer = 422 \<or> rs_status answer = 500"
  by (auto simp: accept_request_def SetInternalError_def Let_def split: prod.splits sum.splits option.splits if_splits dest: bind_params_status)

lemma bound_names: "bind_params U bind params = Inr bp \<Longrightarrow> map fst (bp_values bp) = map fst params"
proof -
  assume "bind_params U bind params = Inr bp"
  from bind_params_values [OF this] show ?thesis by (induction rule: list_all2_induct) auto
qed

text \<open>
  C35. A request is refused, or its statement is executed, once. When this request's body and parameters are
  accepted, the database is the one after executing the handler's statement, each of its parameters bound
  once, in order; on an exec route, the one after running as a batch the text the request gave for its parameter.
  Otherwise (a body or parameter that is not accepted, a statement that does not prepare, no text for
  the exec route) the answer is 422 or 500 and the database is left as it was.
\<close>

theorem refused_request_changes_nothing:
  assumes "handle_route U F E D options req ids route captures claims handler_sql res db = (db', r)"
  shows "(\<exists>statement bp. accepted U E D req ids route captures claims handler_sql db statement bp \<and>
      (\<exists>params. db_prepare D db statement = Inr params \<and> map fst (bp_values bp) = map fst params) \<and>
      (case QuackapiExecRouteParam U (rt_handler_sql route) of
         None \<Rightarrow> db' = fst (db_execute D db statement (bp_values bp))
       | Some p \<Rightarrow> \<exists>loc sql. ci_find U p (bp_raw bp) = Some (loc, sql) \<and>
           db' = fst (ExecuteRequestSql (db_extract D) (db_run D) (db_stop D) sql db))) \<or>
    (db' = db \<and> (rs_status r = 422 \<or> rs_status r = 500) \<and>
      (\<forall>statement bp. accepted U E D req ids route captures claims handler_sql db statement bp \<longrightarrow>
         (\<exists>p. QuackapiExecRouteParam U (rt_handler_sql route) = Some p \<and> ci_find U p (bp_raw bp) = None)))"
proof (cases "accept_request U E D req ids route captures claims handler_sql res db")
  case (Inl answer)
  then have "\<not> accepted U E D req ids route captures claims handler_sql db statement bp" for statement bp
    unfolding accept_request_accepted [symmetric, of _ _ _ _ _ _ _ _ _ _ _ _ res] by simp
  then show ?thesis using Inl accept_request_refused [OF Inl] assms by (simp add: handle_route_def)
next
  case (Inr x)
  obtain statement bp where x: "x = (statement, bp)" by force
  note a = Inr [unfolded x]
  have acc: "accepted U E D req ids route captures claims handler_sql db statement bp"
    using a unfolding accept_request_accepted .
  have unique: "statement' = statement \<and> bp' = bp" if "accepted U E D req ids route captures claims handler_sql db statement' bp'" for statement' bp'
    using that a unfolding accept_request_accepted [symmetric, of _ _ _ _ _ _ _ _ _ _ _ _ res] by simp
  have names: "\<exists>params. db_prepare D db statement = Inr params \<and> map fst (bp_values bp) = map fst params"
    using acc bound_names unfolding accepted_def Let_def by metis
  let ?n = "nat (so_max_response_bytes options)" and ?fmt = "ResolveBodyFormat U F route (rq_headers req)"
  have run: "(db', r) = (case QuackapiExecRouteParam U (rt_handler_sql route) of
        Some p \<Rightarrow> run_exec_route U D route req ?n ?fmt p (bp_raw bp) res db
      | None \<Rightarrow> run_statement U D route ?n ?fmt statement bp res db)"
    using assms a by (simp add: handle_route_def Let_def split: option.splits)
  show ?thesis
  proof (cases "QuackapiExecRouteParam U (rt_handler_sql route)")
    case None
    then have "db' = fst (db_execute D db statement (bp_values bp))" using run run_statement_db by (metis fst_conv option.simps(4))
    then show ?thesis using acc names None by auto
  next
    case (Some p)
    then have e: "run_exec_route U D route req ?n ?fmt p (bp_raw bp) res db = (db', r)" using run by simp
    show ?thesis
    proof (cases "ci_find U p (bp_raw bp)")
      case None
      then have "db' = db \<and> rs_status r = 422" using e by (auto simp: run_exec_route_def)
      then show ?thesis using unique Some None by blast
    next
      case found: (Some lr)
      then obtain loc sql where l: "ci_find U p (bp_raw bp) = Some (loc, sql)" by force
      from run_exec_route_db [OF l, of D route req ?n ?fmt res db] e
      have "db' = fst (ExecuteRequestSql (db_extract D) (db_run D) (db_stop D) sql db)" by simp
      then show ?thesis using acc names Some l by auto
    qed
  qed
qed


section \<open>Examples\<close>

text \<open>A database that counts the statements executed on it.\<close>

definition item_result :: "TypeId exec_result" where
  "item_result = \<lparr>er_names = [''id'', ''name''], er_types = [T_INTEGER, T_VARCHAR],
     er_rows = [[Scalar T_INTEGER ''7'', Scalar T_VARCHAR ''duck'']], er_throws = None\<rparr>"

definition counting_db :: "(nat, DuckValue, TypeId, string) database" where
  "counting_db = \<lparr>db_prepare = (\<lambda>_ _. Inr [(''id'', Some T_INTEGER), (''claims_sub'', None)]),
     db_execute = (\<lambda>n _ _. (n + 1, Inr item_result)), db_extract = (\<lambda>_. Inr []), db_run = (\<lambda>n _. (n + 1, Inr item_result)),
     db_serializer = no_serializer, db_what = (\<lambda>_. []), db_stop = (\<lambda>_. False), db_expired = (False, False), db_late = False,
     db_disconnected = False, db_order = id, db_is_blob = (\<lambda>t. t = T_BLOB), db_arrow = (\<lambda>_ _ _. Inl TOO_LARGE), db_parquet = (\<lambda>_ _ _. Inl STOPPED)\<rparr>"

definition item_ids :: request_ids where
  "item_ids = \<lparr>ri_request_id = ''r'', ri_trace_id = ''t'', ri_span_id = ''s''\<rparr>"

lemma item_result_ok:
  "json_result ascii_util item_result" "er_throws item_result = None" "\<not> object_envelope ascii_util item_route"
  "\<forall>cols \<in> set (er_rows item_result). row_ok (rc_data (result_columns ascii_util (er_names item_result))) cols"
  "json_size ascii_util item_route item_result \<le> 100"
  by code_simp+

theorem json_answer_is_result_witness:
  "ParseDocument (rs_body (render_result ascii_util counting_db item_route 100 FORMAT_JSON False item_result empty_response)) =
     Some (JsonNode ARRAY [] (map (row_node (er_names item_result) (rc_data (result_columns ascii_util (er_names item_result)))) (er_rows item_result)) [])"
proof -
  have "er_rows item_result \<noteq> []" by (simp add: item_result_def)
  then show ?thesis
    using json_answer_is_result [OF item_result_ok(1,2,4) refl, where D = counting_db and route = item_route and max_bytes = 100 and exec_route = False
      and res = empty_response] item_result_ok(3,5) by simp
qed

theorem refused_request_changes_nothing_witness:
  "\<exists>params (bp :: DuckValue bound_params). db_prepare counting_db (0 :: nat) (rt_handler_sql item_route) = Inr params \<and> map fst (bp_values bp) = map fst params \<and>
     (1 :: nat) = fst (db_execute counting_db 0 (rt_handler_sql item_route) (bp_values bp))"
proof -
  let ?h = "handle_route ascii_util example_floats example_engine counting_db (default_options\<lparr>so_max_response_bytes := 100\<rparr>) item_request item_ids item_route
    [(''id'', ''7'')] [(''sub'', ''u'')] (rt_handler_sql item_route) empty_response 0"
  have x: "QuackapiExecRouteParam ascii_util (rt_handler_sql item_route) = None" by code_simp
  have h: "?h = (1, snd ?h)" by code_simp
  from refused_request_changes_nothing [OF h] x obtain statement params and bp :: "DuckValue bound_params" where
    "db_prepare counting_db (0 :: nat) statement = Inr params" "map fst (bp_values bp) = map fst params" by auto
  then show ?thesis by (intro exI [of _ params] exI [of _ bp]) (simp add: counting_db_def)
qed

end
