(* ===== verification/Options.thy ===== *)
theory Options
  imports Util
begin

text \<open>
  What the statements of the extension share: quoted strings, the list of options of a
  \<open>WITH (key=value, ...)\<close> clause, as \<open>CREATE STREAM\<close> and \<open>CREATE QUEUE\<close> read it
  (\<open>src/src/quackapi_stream.cpp\<close>, \<open>src/src/quackapi_queue.cpp\<close>), and the readers of durations and
  sizes (also of \<open>src/src/quackapi_ddl.cpp\<close>). A reader returns \<open>Inl\<close> with its message.
\<close>

definition squote :: char where
  "squote = CHR 0x27"

definition em_dash :: string where
  "em_dash = [CHR 0xE2, CHR 0x80, CHR 0x94]"

definition dquoted :: "string \<Rightarrow> string" where
  "dquoted s = [CHR 0x22] @ s @ [CHR 0x22]"

section \<open>Durations\<close>

definition strip_squotes :: "string \<Rightarrow> string" where
  "strip_squotes s = (if length s \<ge> 2 \<and> hd s = squote \<and> last s = squote then take (length s - 2) (tl s) else s)"

text \<open>The digits at the front as a number; \<open>None\<close> as soon as the number passes the limit.\<close>

fun read_number :: "int \<Rightarrow> int \<Rightarrow> string \<Rightarrow> (int \<times> string) option" where
  "read_number limit num [] = Some (num, [])"
| "read_number limit num (c # s) =
     (if is_digit c then
        (let num' = num * 10 + (int (byte c) - 48) in if num' > limit then None else read_number limit num' s)
      else Some (num, c # s))"

definition second_units :: "string list" where
  "second_units = [''s'', ''sec'', ''secs'', ''second'', ''seconds'']"

definition minute_units :: "string list" where
  "minute_units = [''m'', ''min'', ''mins'', ''minute'', ''minutes'']"

definition hour_units :: "string list" where
  "hour_units = [''h'', ''hr'', ''hrs'', ''hour'', ''hours'']"

definition milli_units :: "string list" where
  "milli_units = [''ms'', ''msec'', ''millis'', ''millisecond'', ''milliseconds'']"

definition seconds_per :: "string \<Rightarrow> int option" where
  "seconds_per u =
     (if u \<in> set second_units then Some 1 else if u \<in> set minute_units then Some 60
      else if u \<in> set hour_units then Some 3600 else None)"

definition ParseIntervalMs :: "string_util \<Rightarrow> string \<Rightarrow> string + int" where
  "ParseIntervalMs U raw =
     (let s = strip_squotes (QuackapiTrim U raw)
      in if s = [] then Inl ''empty interval''
         else if hd s = CHR ''-'' then Inl ''interval must be non-negative''
         else if \<not> is_digit (hd s) then Inl ''interval must start with a number''
         else case read_number 86400000 0 s of
           None \<Rightarrow> Inl ''interval too large''
         | Some (num, rest) \<Rightarrow>
             let u = su_lower U rest in
             (case (if rest = [] then Some 1000 else if u \<in> set milli_units then Some 1 else map_option (\<lambda>k. k * 1000) (seconds_per u)) of
                None \<Rightarrow> Inl (''unknown interval unit '' @ dquoted u @ '' '' @ em_dash @ '' use ms, s, m, or h'')
              | Some mult \<Rightarrow> if num * mult > 86400000 then Inl ''interval max is 24 hours'' else Inr (num * mult)))"

definition ParseDurationSeconds :: "string_util \<Rightarrow> string \<Rightarrow> string + int" where
  "ParseDurationSeconds U raw =
     (let s = strip_squotes (QuackapiTrim U raw)
      in if s = [] then Inl ''empty duration''
         else let neg = (hd s = CHR ''-''); t = (if neg then tl s else s)
              in if t = [] \<or> \<not> is_digit (hd t) then Inl ''duration must start with a number''
                 else case read_number 31536000 0 t of
                   None \<Rightarrow> Inl ''duration too large''
                 | Some (num, rest) \<Rightarrow>
                     (case (if rest = [] then Some 1 else seconds_per (su_lower U rest)) of
                        None \<Rightarrow> Inl (''unknown duration unit '' @ dquoted (su_lower U rest) @ '' '' @ em_dash @ '' use s, m, or h'')
                      | Some mult \<Rightarrow>
                          let sec = (if neg then - (num * mult) else num * mult)
                          in if sec < 0 then Inl ''duration must be non-negative''
                             else if sec > 604800 then Inl ''visibility_timeout max is 7 days''
                             else Inr sec))"

definition ParseRouteTimeoutSec :: "string_util \<Rightarrow> string \<Rightarrow> string + int" where
  "ParseRouteTimeoutSec U raw =
     (let s = strip_squotes (QuackapiTrim U raw)
      in if s = [] then Inl ''empty timeout''
         else if hd s = CHR ''-'' then Inl ''timeout must be positive''
         else if \<not> is_digit (hd s) then Inl ''timeout must start with a number''
         else case read_number 86400 0 s of
           None \<Rightarrow> Inl ''timeout too large''
         | Some (num, rest) \<Rightarrow>
             (case (if rest = [] then Some 1 else seconds_per (su_lower U rest)) of
                None \<Rightarrow> Inl (''unknown timeout unit '' @ dquoted (su_lower U rest) @ '' '' @ em_dash @ '' use s, m, or h'')
              | Some mult \<Rightarrow>
                  if num * mult \<le> 0 then Inl ''timeout must be a positive number of seconds''
                  else if num * mult > 86400 then Inl ''timeout max is 24 hours''
                  else Inr (num * mult)))"

definition decimal_value :: "string \<Rightarrow> int" where
  "decimal_value s = fold (\<lambda>c n. n * 10 + (int (byte c) - 48)) s 0"

text \<open>\<open>std::stoll\<close> throws when the value does not fit 64 bits.\<close>

definition ParseRouteRequestBytes :: "string \<Rightarrow> string + int" where
  "ParseRouteRequestBytes raw =
     (if raw = [] \<or> \<not> list_all is_digit raw then Inl ''must be a positive integer byte count''
      else if decimal_value raw > 9223372036854775807 then
        Inl ''must be a positive integer byte count no larger than 9223372036854775807''
      else if decimal_value raw \<le> 0 then Inl ''must be a positive integer byte count''
      else Inr (decimal_value raw))"

section \<open>Option lists\<close>

text \<open>The text after an opening quote up to the closing one, where a doubled quote stands for one.\<close>

fun sql_quoted :: "string \<Rightarrow> (string \<times> string) option" where
  "sql_quoted [] = None"
| "sql_quoted (c # s) =
     (if c = squote then
        (case s of
           d # s' \<Rightarrow> if d = squote then map_option (\<lambda>(v, r). (squote # v, r)) (sql_quoted s') else Some ([], s)
         | [] \<Rightarrow> Some ([], []))
      else map_option (\<lambda>(v, r). (c # v, r)) (sql_quoted s))"

definition option_value :: "string_util \<Rightarrow> string \<Rightarrow> (string \<times> string) option" where
  "option_value U s =
     (if hd s = squote then sql_quoted (tl s)
      else let bare = (\<lambda>c. c \<noteq> CHR '','' \<and> \<not> su_space U c) in Some (takeWhile bare s, dropWhile bare s))"

lemma sql_quoted_shorter: "sql_quoted s = Some (v, r) \<Longrightarrow> length r < length s"
  by (induction s arbitrary: v r rule: sql_quoted.induct) (fastforce split: if_splits list.splits)+

lemma option_value_shorter:
  assumes "s \<noteq> []" and "option_value U s = Some (v, r)"
  shows "length r \<le> length s"
proof (cases "hd s = squote")
  case True
  then show ?thesis using assms sql_quoted_shorter [of "tl s" v r] by (auto simp: option_value_def)
next
  case False
  then show ?thesis using assms by (auto simp: option_value_def Let_def intro: length_dropWhile_le)
qed

definition key_char :: "char \<Rightarrow> bool" where
  "key_char c = (is_alpha c \<or> is_digit c \<or> c = CHR ''_'')"

definition no_value :: "string \<Rightarrow> string" where
  "no_value key = ''WITH options: expected key=value (got key '' @ dquoted key @ '')''"

lemma with_option_shorter:
  assumes "s = dropWhile (\<lambda>c. su_space U c \<or> c = CHR '','') opts" and "t = dropWhile (su_space U) (dropWhile kc s)"
    and "t \<noteq> []" and "u = dropWhile (su_space U) (tl t)" and "u \<noteq> []" and "option_value U u = Some (val, rest)"
  shows "length rest < length opts"
proof -
  have "length rest \<le> length u" using option_value_shorter assms(5,6) by blast
  moreover have "length u \<le> length (tl t)" unfolding assms(4) by (rule length_dropWhile_le)
  moreover have "length t \<le> length (dropWhile kc s)" unfolding assms(2) by (rule length_dropWhile_le)
  moreover have "length (dropWhile kc s) \<le> length s" by (rule length_dropWhile_le)
  moreover have "length s \<le> length opts" unfolding assms(1) by (rule length_dropWhile_le)
  ultimately show ?thesis using assms(3) by (cases t) auto
qed

text \<open>The loop over the options: \<open>apply_option\<close> is what the statement does with one of them.\<close>

function with_options :: "string_util \<Rightarrow> (string \<Rightarrow> string \<Rightarrow> 'a \<Rightarrow> string + 'a) \<Rightarrow> string \<Rightarrow> 'a \<Rightarrow> string + 'a" where
  "with_options U apply_option opts acc =
     (let s = dropWhile (\<lambda>c. su_space U c \<or> c = CHR '','') opts
      in if s = [] then Inr acc
         else let key = su_lower U (takeWhile key_char s); t = dropWhile (su_space U) (dropWhile key_char s)
              in if t = [] \<or> hd t \<noteq> CHR ''='' then Inl (no_value key)
                 else let u = dropWhile (su_space U) (tl t)
                      in if u = [] then Inl (''WITH options: missing value for '' @ dquoted key)
                         else case option_value U u of
                           None \<Rightarrow> Inl (''Unterminated quoted value for '' @ dquoted key)
                         | Some (val, rest) \<Rightarrow> (case apply_option key val acc of
                             Inl err \<Rightarrow> Inl err
                           | Inr acc' \<Rightarrow> with_options U apply_option rest acc'))"
  by pat_completeness auto
termination
proof (relation "measure (\<lambda>(U, a, opts, acc). length opts)", goal_cases)
  case (2 U apply_option opts acc s key t u p val rest acc')
  then show ?case using with_option_shorter [of s U opts t _ u val rest] by simp
qed simp

declare with_options.simps [simp del]

text \<open>The parenthesized group of a \<open>WITH\<close> clause: up to the first closing parenthesis.\<close>

definition with_group :: "string_util \<Rightarrow> string \<Rightarrow> string + (string \<times> string)" where
  "with_group U rest =
     (if rest = [] \<or> hd rest \<noteq> CHR ''('' then Inl ''WITH expects a parenthesized option list''
      else if CHR '')'' \<notin> set rest then Inl ''Unterminated WITH ( ... ) options''
      else Inr (QuackapiTrim U (tl (takeWhile (\<lambda>c. c \<noteq> CHR '')'') rest)), QuackapiTrim U (tl (dropWhile (\<lambda>c. c \<noteq> CHR '')'') rest))))"

definition starts_with_keyword :: "string_util \<Rightarrow> string \<Rightarrow> string \<Rightarrow> bool" where
  "starts_with_keyword U kw rest =
     (su_starts_with U (su_upper U rest) kw \<and>
      (length rest = length kw \<or> su_space U (rest ! length kw) \<or> rest ! length kw = CHR ''(''))"

text \<open>An invariant of the options is one each option keeps.\<close>

lemma with_options_step:
  assumes "with_options U f opts acc = Inr acc'" and "acc' \<noteq> acc"
  shows "\<exists>key val rest acc1. f key val acc = Inr acc1 \<and> with_options U f rest acc1 = Inr acc' \<and> length rest < length opts"
proof -
  define s where "s = dropWhile (\<lambda>c. su_space U c \<or> c = CHR '','') opts"
  define t where "t = dropWhile (su_space U) (dropWhile key_char s)"
  define u where "u = dropWhile (su_space U) (tl t)"
  note w = assms(1) [unfolded with_options.simps [of U f opts acc] Let_def, folded s_def, folded t_def, folded u_def]
  have ne: "s \<noteq> []" "t \<noteq> []" "u \<noteq> []" using w assms(2) by (auto split: if_splits)
  obtain val rest where v: "option_value U u = Some (val, rest)" using w ne assms(2) by (auto split: if_splits option.splits)
  obtain acc1 where "f (su_lower U (takeWhile key_char s)) val acc = Inr acc1" "with_options U f rest acc1 = Inr acc'"
    using w ne v by (auto split: if_splits sum.splits)
  then show ?thesis using with_option_shorter [OF s_def t_def ne(2) u_def ne(3) v] by blast
qed

lemma with_options_keep:
  assumes "with_options U f opts acc = Inr acc'"
    and "P acc" and "\<And>key val acc acc'. P acc \<Longrightarrow> f key val acc = Inr acc' \<Longrightarrow> P acc'"
  shows "P acc'"
  using assms(1,2)
proof (induction opts arbitrary: acc rule: length_induct)
  case (1 opts)
  show ?case
  proof (cases "acc' = acc")
    case False
    from with_options_step [OF 1(2) False] 1(1) assms(3) 1(3) show ?thesis by blast
  qed (use 1(3) in simp)
qed

lemma read_number_bounds:
  assumes "read_number limit num s = Some (n, r)" and "0 \<le> num" and "num \<le> limit"
  shows "0 \<le> n \<and> n \<le> limit"
  using assms by (induction limit num s rule: read_number.induct) (auto simp: Let_def is_digit_def split: if_splits)

lemma ParseIntervalMs_bounds: "ParseIntervalMs U raw = Inr ms \<Longrightarrow> 0 \<le> ms \<and> ms \<le> 86400000"
  by (auto simp: ParseIntervalMs_def Let_def seconds_per_def dest!: read_number_bounds split: if_splits option.splits)

lemma ParseDurationSeconds_bounds: "ParseDurationSeconds U raw = Inr sec \<Longrightarrow> 0 \<le> sec \<and> sec \<le> 604800"
  by (auto simp: ParseDurationSeconds_def Let_def split: if_splits option.splits)

lemma ParseRouteTimeoutSec_bounds: "ParseRouteTimeoutSec U raw = Inr sec \<Longrightarrow> 0 < sec \<and> sec \<le> 86400"
  by (auto simp: ParseRouteTimeoutSec_def Let_def split: if_splits option.splits)

lemma ParseRouteRequestBytes_bounds: "ParseRouteRequestBytes raw = Inr n \<Longrightarrow> 0 < n \<and> n < 2 ^ 63"
  by (auto simp: ParseRouteRequestBytes_def split: if_splits)

end
