(* ===== verification/Queue.thy ===== *)
theory Queue
  imports Options Registry
begin

text \<open>
  Durable queues (\<open>src/src/quackapi_queue.cpp\<close>): the statements \<open>CREATE QUEUE\<close> and \<open>DROP QUEUE\<close>, and
  the delivery of jobs. The jobs live in a table of the database; each SQL statement of the source is
  a function on the rows of that table, an \<open>UPDATE ... WHERE\<close> a conditional map. A statement reads
  the clock when it runs (\<open>now\<close>, microseconds) and may fail, which leaves the table as it was and
  throws (\<open>fails\<close>, by the statement's position in the operation).
\<close>

section \<open>SQL literals\<close>

definition SqlQuote :: "string \<Rightarrow> string" where
  "SqlQuote s = [squote] @ concat (map (\<lambda>c. if c = squote then [squote, squote] else [c]) s) @ [squote]"

section \<open>The DDL\<close>

record QueueDdlParseData =
  qd_action :: string
  qd_or_replace :: bool
  qd_queue :: QuackapiQueue

definition new_queue :: "string \<Rightarrow> QuackapiQueue" where
  "new_queue name = \<lparr>qu_name = name, qu_max_attempts = 3, qu_visibility_timeout_sec = 30, qu_backoff_base_sec = 2\<rparr>"

text \<open>\<open>atoi\<close> is the C library's, whose value is unspecified for numbers out of range.\<close>

definition queue_option :: "string_util \<Rightarrow> (string \<Rightarrow> int) \<Rightarrow> string \<Rightarrow> string \<Rightarrow> QuackapiQueue \<Rightarrow> string + QuackapiQueue" where
  "queue_option U atoi key val q =
     (if key = ''max_attempts'' then
        (if atoi val < 1 \<or> atoi val > 1000 then Inl ''max_attempts must be between 1 and 1000''
         else Inr (q\<lparr>qu_max_attempts := atoi val\<rparr>))
      else if key = ''visibility_timeout'' \<or> key = ''visibility_timeout_sec'' then
        (case ParseDurationSeconds U val of
           Inl err \<Rightarrow> Inl (''visibility_timeout: '' @ err)
         | Inr sec \<Rightarrow> if sec < 1 then Inl ''visibility_timeout must be at least 1 second''
             else Inr (q\<lparr>qu_visibility_timeout_sec := sec\<rparr>))
      else if key = ''backoff_base_seconds'' \<or> key = ''backoff_base'' then
        (if atoi val < 0 \<or> atoi val > 3600 then Inl ''backoff_base_seconds must be between 0 and 3600''
         else Inr (q\<lparr>qu_backoff_base_sec := atoi val\<rparr>))
      else Inl (''Unknown QUEUE option '' @ dquoted key @ '' '' @ em_dash @ '' expected max_attempts, visibility_timeout, backoff_base_seconds''))"

definition ident_name_char :: "char \<Rightarrow> bool" where
  "ident_name_char c = (is_alpha c \<or> is_digit c \<or> c = CHR ''_'' \<or> c = CHR ''-'')"

definition QueueCreateParse :: "string_util \<Rightarrow> (string \<Rightarrow> int) \<Rightarrow> bool \<Rightarrow> string \<Rightarrow> QueueDdlParseData parse_outcome" where
  "QueueCreateParse U atoi or_replace rest =
     (let name = takeWhile (\<lambda>c. \<not> su_space U c \<and> c \<noteq> CHR ''('') rest;
          tail = QuackapiTrim U (drop (length name) rest);
          created = (\<lambda>q. PARSE_SUCCESSFUL \<lparr>qd_action = ''CREATE'', qd_or_replace = or_replace, qd_queue = q\<rparr>)
      in if rest = [] \<or> name = [] then DISPLAY_EXTENSION_ERROR ''CREATE QUEUE expects a queue name''
         else if \<not> list_all ident_name_char name then DISPLAY_EXTENSION_ERROR ''Queue name must be an identifier ([A-Za-z0-9_-]+)''
         else if tail = [] then created (new_queue name)
         else if \<not> starts_with_keyword U ''WITH'' tail then
           DISPLAY_EXTENSION_ERROR ''Expected WITH (...) after queue name, or end of statement''
         else case with_group U (QuackapiTrim U (drop 4 tail)) of
           Inl err \<Rightarrow> DISPLAY_EXTENSION_ERROR err
         | Inr (opts, after) \<Rightarrow>
             if after \<noteq> [] then DISPLAY_EXTENSION_ERROR ''Unexpected tokens after WITH options''
             else (case with_options U (queue_option U atoi) opts (new_queue name) of
               Inl err \<Rightarrow> DISPLAY_EXTENSION_ERROR err
             | Inr q \<Rightarrow> created q))"

definition QueueDdlParse :: "string_util \<Rightarrow> (string \<Rightarrow> int) \<Rightarrow> string \<Rightarrow> QueueDdlParseData parse_outcome" where
  "QueueDdlParse U atoi query =
     (let q = QuackapiTrim U query; upper = su_upper U q
      in if su_starts_with U upper ''CREATE QUEUE '' then QueueCreateParse U atoi False (QuackapiTrim U (drop 13 q))
         else if su_starts_with U upper ''CREATE OR REPLACE QUEUE '' then QueueCreateParse U atoi True (QuackapiTrim U (drop 24 q))
         else if su_starts_with U upper ''DROP QUEUE '' then
           (let name = QuackapiTrim U (drop 11 q)
            in if name = [] \<or> CHR '' '' \<in> set name then DISPLAY_EXTENSION_ERROR ''DROP QUEUE expects a single queue name''
               else PARSE_SUCCESSFUL \<lparr>qd_action = ''DROP'', qd_or_replace = False, qd_queue = new_queue name\<rparr>)
         else DISPLAY_ORIGINAL_ERROR)"

text \<open>
  Applying a parsed statement: the planner hands the fields over one by one. Creating the jobs table
  (\<open>ensure\<close>) may fail.
\<close>

definition ApplyQueueExec :: "string option \<Rightarrow> QueueDdlParseData \<Rightarrow> 'v QuackapiState \<Rightarrow> (string \<times> 'v QuackapiState) result" where
  "ApplyQueueExec ensure d s =
     (let q = qd_queue d
      in if qd_action d = ''CREATE'' then
           (case ensure of
              Some err \<Rightarrow> Inl (InvalidInput ''quackapi queue'' [err])
            | None \<Rightarrow> (case AddQueue q (qd_or_replace d) s of
                Inl e \<Rightarrow> Inl e
              | Inr s' \<Rightarrow> Inr (''Queue '' @ qu_name q @ '': max_attempts='' @ nat_string (nat (qu_max_attempts q)) @
                  '' visibility_timeout='' @ nat_string (nat (qu_visibility_timeout_sec q)) @ ''s'', s')))
         else (case DropQueue (qu_name q) s of
             (True, s') \<Rightarrow> Inr (''Dropped queue '' @ qu_name q, s')
           | (False, _) \<Rightarrow> Inl (InvalidInput ''Queue does not exist'' [qu_name q])))"

section \<open>Jobs\<close>

record Job =
  qj_id :: int
  qj_queue :: string
  qj_payload :: string
  qj_status :: string
  qj_attempts :: int
  qj_max_attempts :: int
  qj_visible_at :: int
  qj_created_at :: int
  qj_updated_at :: int
  qj_last_error :: "string option"
  qj_generation :: int
  qj_worker_id :: "string option"

record job_store =
  js_jobs :: "Job list"
  js_next :: int

definition to_seconds :: "int \<Rightarrow> int" where
  "to_seconds n = n * 1000000"

definition update_jobs :: "(Job \<Rightarrow> bool) \<Rightarrow> (Job \<Rightarrow> Job) \<Rightarrow> job_store \<Rightarrow> job_store" where
  "update_jobs cond set_columns st = st\<lparr>js_jobs := map (\<lambda>j. if cond j then set_columns j else j) (js_jobs st)\<rparr>"

definition CheckQuery :: "string option \<Rightarrow> string \<Rightarrow> exn option" where
  "CheckQuery failure ctx = map_option (\<lambda>err. InvalidInput ''quackapi queue'' [ctx, err]) failure"

definition RequireQueue :: "'v QuackapiState \<Rightarrow> string \<Rightarrow> QuackapiQueue result" where
  "RequireQueue s name = (case GetQueue name s of
     None \<Rightarrow> Inl (InvalidInput ''Queue does not exist - CREATE QUEUE first'' [name])
   | Some q \<Rightarrow> Inr q)"

definition EnqueueJob :: "'v QuackapiState \<Rightarrow> string option \<Rightarrow> int \<Rightarrow> string \<Rightarrow> string \<Rightarrow> int \<Rightarrow> job_store \<Rightarrow> job_store \<times> int result" where
  "EnqueueJob s fails now queue_name payload_json max_attempts_override st =
     (case RequireQueue s queue_name of
        Inl e \<Rightarrow> (st, Inl e)
      | Inr q \<Rightarrow>
          let max_att = (if max_attempts_override > 0 then max_attempts_override else qu_max_attempts q)
          in if max_att < 1 then (st, Inl (InvalidInput ''quackapi_enqueue: max_attempts must be >= 1'' []))
             else case CheckQuery fails ''enqueue'' of
               Some e \<Rightarrow> (st, Inl e)
             | None \<Rightarrow>
                 (st\<lparr>js_next := js_next st + 1, js_jobs := js_jobs st @
                    [\<lparr>qj_id = js_next st, qj_queue = queue_name, qj_payload = payload_json, qj_status = ''pending'', qj_attempts = 0,
                      qj_max_attempts = max_att, qj_visible_at = now, qj_created_at = now, qj_updated_at = now, qj_last_error = None,
                      qj_generation = 0, qj_worker_id = None\<rparr>]\<rparr>, Inr (js_next st)))"

section \<open>Dequeueing\<close>

definition exhausted_pending :: "string \<Rightarrow> int \<Rightarrow> job_store \<Rightarrow> job_store" where
  "exhausted_pending queue_name now =
     update_jobs (\<lambda>j. qj_queue j = queue_name \<and> qj_status j = ''pending'' \<and> qj_attempts j \<ge> qj_max_attempts j)
       (\<lambda>j. j\<lparr>qj_status := ''dead'', qj_visible_at := now, qj_updated_at := now, qj_worker_id := None,
          qj_last_error := (case qj_last_error j of None \<Rightarrow> Some ''attempt limit reached before delivery'' | e \<Rightarrow> e)\<rparr>)"

definition exhausted_running :: "string \<Rightarrow> int \<Rightarrow> job_store \<Rightarrow> job_store" where
  "exhausted_running queue_name now =
     update_jobs (\<lambda>j. qj_queue j = queue_name \<and> qj_status j = ''running'' \<and> qj_visible_at j \<le> now \<and> qj_attempts j \<ge> qj_max_attempts j)
       (\<lambda>j. j\<lparr>qj_status := ''dead'', qj_visible_at := now, qj_updated_at := now, qj_worker_id := None,
          qj_last_error := Some ''visibility lease expired after maximum attempts''\<rparr>)"

definition retry_expired :: "string \<Rightarrow> int \<Rightarrow> job_store \<Rightarrow> job_store" where
  "retry_expired queue_name now =
     update_jobs (\<lambda>j. qj_queue j = queue_name \<and> qj_status j = ''running'' \<and> qj_visible_at j \<le> now \<and> qj_attempts j < qj_max_attempts j)
       (\<lambda>j. j\<lparr>qj_status := ''pending'', qj_visible_at := now, qj_updated_at := now, qj_worker_id := None\<rparr>)"

text \<open>The statements run one by one; what ran before a failing one stays.\<close>

fun run_queries :: "(nat \<Rightarrow> string option) \<Rightarrow> nat \<Rightarrow> (string \<times> (job_store \<Rightarrow> job_store)) list \<Rightarrow> job_store \<Rightarrow> job_store \<times> exn option" where
  "run_queries fails i [] st = (st, None)"
| "run_queries fails i ((ctx, f) # qs) st = (case CheckQuery (fails i) ctx of
     Some e \<Rightarrow> (st, Some e)
   | None \<Rightarrow> run_queries fails (i + 1) qs (f st))"

definition RecoverExpiredJobs :: "(nat \<Rightarrow> string option) \<Rightarrow> int \<Rightarrow> int \<Rightarrow> int \<Rightarrow> string \<Rightarrow> job_store \<Rightarrow> job_store \<times> exn option" where
  "RecoverExpiredJobs fails now1 now2 now3 queue_name st =
     run_queries fails 0 [(''dequeue exhausted-pending sweep'', exhausted_pending queue_name now1),
       (''dequeue exhausted-running sweep'', exhausted_running queue_name now2), (''dequeue expiry sweep'', retry_expired queue_name now3)] st"

definition claimable :: "string \<Rightarrow> int \<Rightarrow> Job \<Rightarrow> bool" where
  "claimable queue_name now j =
     (qj_queue j = queue_name \<and> qj_status j = ''pending'' \<and> qj_attempts j < qj_max_attempts j \<and> qj_visible_at j \<le> now)"

definition claim :: "int \<Rightarrow> int \<Rightarrow> Job \<Rightarrow> Job" where
  "claim visibility_timeout_sec now j =
     j\<lparr>qj_status := ''running'', qj_attempts := qj_attempts j + 1, qj_generation := qj_generation j + 1,
       qj_visible_at := now + to_seconds visibility_timeout_sec, qj_updated_at := now, qj_worker_id := None\<rparr>"

definition claim_ids :: "string \<Rightarrow> int \<Rightarrow> nat \<Rightarrow> job_store \<Rightarrow> int list" where
  "claim_ids queue_name now count st = take count (sort (map qj_id (filter (claimable queue_name now) (js_jobs st))))"

definition claim_query :: "string \<Rightarrow> int \<Rightarrow> int \<Rightarrow> nat \<Rightarrow> job_store \<Rightarrow> job_store \<times> Job list" where
  "claim_query queue_name visibility_timeout_sec now count st =
     (let cond = (\<lambda>j. qj_id j \<in> set (claim_ids queue_name now count st) \<and> qj_status j = ''pending'')
      in (update_jobs cond (claim visibility_timeout_sec now) st, map (claim visibility_timeout_sec now) (filter cond (js_jobs st))))"

text \<open>At most eight tries: a conflict with a concurrent claim is tried again, any other failure throws.\<close>

fun claim_tries :: "string_util \<Rightarrow> (nat \<Rightarrow> string option) \<Rightarrow> (nat \<Rightarrow> int) \<Rightarrow> string \<Rightarrow> int \<Rightarrow> nat \<Rightarrow> nat \<Rightarrow> job_store \<Rightarrow> job_store \<times> Job list result" where
  "claim_tries U fails now queue_name timeout count tries st = (case tries of
     0 \<Rightarrow> (st, Inl (InvalidInput ''quackapi queue'' [''dequeue'', the (fails 7)]))
   | Suc left \<Rightarrow> (case fails (7 - left) of
       None \<Rightarrow> (case claim_query queue_name timeout (now (7 - left)) count st of (st', rows) \<Rightarrow> (st', Inr rows))
     | Some err \<Rightarrow>
         if su_contains U err ''Conflict'' then claim_tries U fails now queue_name timeout count left st
         else (st, Inl (InvalidInput ''quackapi queue'' [''dequeue'', err]))))"

definition ClaimPendingJobs :: "string_util \<Rightarrow> (nat \<Rightarrow> string option) \<Rightarrow> (nat \<Rightarrow> int) \<Rightarrow> string \<Rightarrow> int \<Rightarrow> nat \<Rightarrow> job_store \<Rightarrow> job_store \<times> Job list result" where
  "ClaimPendingJobs U fails now queue_name visibility_timeout_sec count st =
     claim_tries U fails now queue_name visibility_timeout_sec count 8 st"

definition DequeueBind :: "int option \<Rightarrow> nat result" where
  "DequeueBind n = (case n of None \<Rightarrow> Inr 1
   | Some k \<Rightarrow> if k < 1 then Inl (InvalidInput ''quackapi_dequeue: n must be >= 1'' [])
       else if k > 1000 then Inl (InvalidInput ''quackapi_dequeue: n max is 1000'' []) else Inr (nat k))"

text \<open>The clock of a dequeue: the times of the three sweeps and of each try to claim.\<close>

record dequeue_env =
  de_fails :: "nat \<Rightarrow> string option"
  de_sweep1 :: int
  de_sweep2 :: int
  de_sweep3 :: int
  de_claim_fails :: "nat \<Rightarrow> string option"
  de_claim_now :: "nat \<Rightarrow> int"

definition DequeueInit :: "string_util \<Rightarrow> 'v QuackapiState \<Rightarrow> dequeue_env \<Rightarrow> string \<Rightarrow> nat \<Rightarrow> job_store \<Rightarrow> job_store \<times> Job list result" where
  "DequeueInit U s E queue_name n st =
     (case RequireQueue s queue_name of
        Inl e \<Rightarrow> (st, Inl e)
      | Inr q \<Rightarrow> (case RecoverExpiredJobs (de_fails E) (de_sweep1 E) (de_sweep2 E) (de_sweep3 E) queue_name st of
          (st1, Some e) \<Rightarrow> (st1, Inl e)
        | (st1, None) \<Rightarrow> (case ClaimPendingJobs U (de_claim_fails E) (de_claim_now E) queue_name (qu_visibility_timeout_sec q) n st1 of
            (st2, Inl e) \<Rightarrow> (st2, Inl e)
          | (st2, Inr rows) \<Rightarrow> (st2, Inr (sort_key qj_id rows)))))"

section \<open>Completing a delivery\<close>

text \<open>The ownership test every completion repeats: this delivery, running, its lease not expired.\<close>

definition owned :: "string \<Rightarrow> int \<Rightarrow> int \<Rightarrow> int \<Rightarrow> Job \<Rightarrow> bool" where
  "owned queue_name job_id delivery_generation now j =
     (qj_id j = job_id \<and> qj_queue j = queue_name \<and> qj_status j = ''running'' \<and> qj_generation j = delivery_generation \<and> qj_visible_at j > now)"

definition AckJob :: "'v QuackapiState \<Rightarrow> string option \<Rightarrow> int \<Rightarrow> string \<Rightarrow> int \<Rightarrow> int \<Rightarrow> job_store \<Rightarrow> job_store \<times> bool result" where
  "AckJob s fails now queue_name job_id delivery_generation st =
     (case RequireQueue s queue_name of
        Inl e \<Rightarrow> (st, Inl e)
      | Inr q \<Rightarrow> (case CheckQuery fails ''ack'' of
          Some e \<Rightarrow> (st, Inl e)
        | None \<Rightarrow> (update_jobs (owned queue_name job_id delivery_generation now)
              (\<lambda>j. j\<lparr>qj_status := ''done'', qj_updated_at := now, qj_worker_id := None\<rparr>) st,
            Inr (any (owned queue_name job_id delivery_generation now) (js_jobs st)))))"

definition nack_backoff :: "int \<Rightarrow> int \<Rightarrow> int" where
  "nack_backoff backoff_base_sec attempts =
     (if backoff_base_sec > 0 then min 3600 (backoff_base_sec ^ nat (max 0 (min 6 attempts))) else 0)"

definition nack_error :: "string \<Rightarrow> string option" where
  "nack_error error = Some (if error = [] then ''nack'' else error)"

definition nack_dead :: "int \<Rightarrow> string \<Rightarrow> Job \<Rightarrow> Job" where
  "nack_dead now error j = j\<lparr>qj_status := ''dead'', qj_visible_at := now, qj_last_error := nack_error error, qj_updated_at := now, qj_worker_id := None\<rparr>"

definition nack_requeue :: "int \<Rightarrow> int \<Rightarrow> string \<Rightarrow> Job \<Rightarrow> Job" where
  "nack_requeue now backoff error j =
     j\<lparr>qj_status := ''pending'', qj_visible_at := now + to_seconds backoff, qj_last_error := nack_error error, qj_updated_at := now, qj_worker_id := None\<rparr>"

text \<open>
  The row is read first (\<open>now1\<close>) and updated under the same test later (\<open>now2\<close>); the lease may have
  expired between the two.
\<close>

definition NackJob :: "'v QuackapiState \<Rightarrow> (nat \<Rightarrow> string option) \<Rightarrow> int \<Rightarrow> int \<Rightarrow> string \<Rightarrow> int \<Rightarrow> int \<Rightarrow> bool \<Rightarrow> string \<Rightarrow> job_store \<Rightarrow> job_store \<times> string result" where
  "NackJob s fails now1 now2 queue_name job_id delivery_generation requeue error st =
     (case RequireQueue s queue_name of
        Inl e \<Rightarrow> (st, Inl e)
      | Inr q \<Rightarrow> (case CheckQuery (fails 0) ''nack read'' of
          Some e \<Rightarrow> (st, Inl e)
        | None \<Rightarrow> (case List.find (owned queue_name job_id delivery_generation now1) (js_jobs st) of
            None \<Rightarrow> (st, Inr ''stale'')
          | Some row \<Rightarrow>
              let to_dead = (\<not> requeue \<or> qj_attempts row \<ge> qj_max_attempts row);
                  set_columns = (if to_dead then nack_dead now2 error
                    else nack_requeue now2 (nack_backoff (qu_backoff_base_sec q) (qj_attempts row)) error)
              in case CheckQuery (fails 1) ''nack'' of
                   Some e \<Rightarrow> (st, Inl e)
                 | None \<Rightarrow> (update_jobs (owned queue_name job_id delivery_generation now2) set_columns st,
                     Inr (if any (owned queue_name job_id delivery_generation now2) (js_jobs st)
                          then (if to_dead then ''dead'' else ''pending'') else ''stale'')))))"

definition RenewJob :: "'v QuackapiState \<Rightarrow> string option \<Rightarrow> int \<Rightarrow> string \<Rightarrow> int \<Rightarrow> int \<Rightarrow> job_store \<Rightarrow> job_store \<times> bool result" where
  "RenewJob s fails now queue_name job_id delivery_generation st =
     (case RequireQueue s queue_name of
        Inl e \<Rightarrow> (st, Inl e)
      | Inr q \<Rightarrow> (case CheckQuery fails ''renew'' of
          Some e \<Rightarrow> (st, Inl e)
        | None \<Rightarrow> (update_jobs (owned queue_name job_id delivery_generation now)
              (\<lambda>j. j\<lparr>qj_visible_at := now + to_seconds (qu_visibility_timeout_sec q), qj_updated_at := now\<rparr>) st,
            Inr (any (owned queue_name job_id delivery_generation now) (js_jobs st)))))"


section \<open>The scalar functions\<close>

text \<open>
  A scalar function runs its operation row by row; a row with a NULL argument gives NULL. A row that
  throws ends the call, the rows before it have been committed.
\<close>

fun scalar_rows :: "(nat \<Rightarrow> 'a \<Rightarrow> job_store \<Rightarrow> job_store \<times> 'b result) \<Rightarrow> nat \<Rightarrow> 'a option list \<Rightarrow> job_store \<Rightarrow> job_store \<times> 'b option list result" where
  "scalar_rows f i [] st = (st, Inr [])"
| "scalar_rows f i (None # rows) st = (case scalar_rows f (i + 1) rows st of
     (st', Inl e) \<Rightarrow> (st', Inl e)
   | (st', Inr vs) \<Rightarrow> (st', Inr (None # vs)))"
| "scalar_rows f i (Some args # rows) st = (case f i args st of
     (st1, Inl e) \<Rightarrow> (st1, Inl e)
   | (st1, Inr v) \<Rightarrow> (case scalar_rows f (i + 1) rows st1 of
       (st', Inl e) \<Rightarrow> (st', Inl e)
     | (st', Inr vs) \<Rightarrow> (st', Inr (Some v # vs))))"

fun delivery_args :: "string option \<times> int option \<times> int option \<Rightarrow> (string \<times> int \<times> int) option" where
  "delivery_args (Some queue_name, Some job_id, Some delivery_generation) = Some (queue_name, job_id, delivery_generation)"
| "delivery_args _ = None"

text \<open>\<open>max_attempts\<close>: NULL, and absent, are 0. \<open>requeue\<close> defaults to true, \<open>error\<close> to \<open>nack\<close>.\<close>

fun enqueue_args :: "string option \<times> string option \<times> int option \<Rightarrow> (string \<times> string \<times> int) option" where
  "enqueue_args (Some queue_name, Some payload, max_attempts) = Some (queue_name, payload, case max_attempts of None \<Rightarrow> 0 | Some n \<Rightarrow> n)"
| "enqueue_args _ = None"

definition EnqueueScalar :: "'v QuackapiState \<Rightarrow> (nat \<Rightarrow> string option) \<Rightarrow> (nat \<Rightarrow> int) \<Rightarrow> (string option \<times> string option \<times> int option) list \<Rightarrow> job_store \<Rightarrow> job_store \<times> int option list result" where
  "EnqueueScalar s fails now rows =
     scalar_rows (\<lambda>i (queue_name, payload, max_attempts). EnqueueJob s (fails i) (now i) queue_name payload max_attempts) 0 (map enqueue_args rows)"

definition AckScalar :: "'v QuackapiState \<Rightarrow> (nat \<Rightarrow> string option) \<Rightarrow> (nat \<Rightarrow> int) \<Rightarrow> (string option \<times> int option \<times> int option) list \<Rightarrow> job_store \<Rightarrow> job_store \<times> bool option list result" where
  "AckScalar s fails now rows =
     scalar_rows (\<lambda>i (queue_name, job_id, generation). AckJob s (fails i) (now i) queue_name job_id generation) 0 (map delivery_args rows)"

definition nack_args :: "(string option \<times> int option \<times> int option) \<times> bool option \<times> string option \<Rightarrow> ((string \<times> int \<times> int) \<times> bool \<times> string) option" where
  "nack_args row = (case row of (delivery, requeue, error) \<Rightarrow>
     map_option (\<lambda>d. (d, (case requeue of None \<Rightarrow> True | Some b \<Rightarrow> b), (case error of None \<Rightarrow> ''nack'' | Some e \<Rightarrow> e))) (delivery_args delivery))"

definition NackScalar :: "'v QuackapiState \<Rightarrow> (nat \<Rightarrow> nat \<Rightarrow> string option) \<Rightarrow> (nat \<Rightarrow> int \<times> int) \<Rightarrow> ((string option \<times> int option \<times> int option) \<times> bool option \<times> string option) list \<Rightarrow> job_store \<Rightarrow> job_store \<times> string option list result" where
  "NackScalar s fails now rows =
     scalar_rows (\<lambda>i ((queue_name, job_id, generation), requeue, error).
       NackJob s (fails i) (fst (now i)) (snd (now i)) queue_name job_id generation requeue error) 0 (map nack_args rows)"

definition RenewScalar :: "'v QuackapiState \<Rightarrow> (nat \<Rightarrow> string option) \<Rightarrow> (nat \<Rightarrow> int) \<Rightarrow> (string option \<times> int option \<times> int option) list \<Rightarrow> job_store \<Rightarrow> job_store \<times> bool option list result" where
  "RenewScalar s fails now rows =
     scalar_rows (\<lambda>i (queue_name, job_id, generation). RenewJob s (fails i) (now i) queue_name job_id generation) 0 (map delivery_args rows)"

section \<open>The inspection of the queues\<close>

record queue_row =
  qr_name :: string
  qr_depth :: nat
  qr_in_flight :: nat
  qr_dead :: nat
  qr_max_attempts :: int
  qr_visibility_timeout_sec :: int
  qr_backoff_base_sec :: int

definition in_depth :: "int \<Rightarrow> Job \<Rightarrow> bool" where
  "in_depth now j = (qj_status j = ''pending'' \<or> qj_status j = ''running'' \<and> qj_visible_at j \<le> now)"

definition jobs_where :: "(Job \<Rightarrow> bool) \<Rightarrow> string \<Rightarrow> job_store \<Rightarrow> nat" where
  "jobs_where cond queue_name st = length (filter (\<lambda>j. qj_queue j = queue_name \<and> cond j) (js_jobs st))"

text \<open>The counts stay zero when the query fails.\<close>

definition QueuesInit :: "'v QuackapiState \<Rightarrow> string option \<Rightarrow> int \<Rightarrow> job_store \<Rightarrow> queue_row list" where
  "QueuesInit s fails now st =
     map (\<lambda>q. let stat = (\<lambda>cond. if fails = None then jobs_where cond (qu_name q) st else 0) in
       \<lparr>qr_name = qu_name q, qr_depth = stat (in_depth now),
        qr_in_flight = stat (\<lambda>j. qj_status j = ''running'' \<and> qj_visible_at j > now), qr_dead = stat (\<lambda>j. qj_status j = ''dead''),
        qr_max_attempts = qu_max_attempts q, qr_visibility_timeout_sec = qu_visibility_timeout_sec q, qr_backoff_base_sec = qu_backoff_base_sec q\<rparr>)
       (SnapshotQueues s)"

section \<open>Histories\<close>

text \<open>
  What can happen to the registry of queues and the table of jobs, by the statements and the
  operations of any number of clients; the operations on deliveries run under the mutex
  \<open>DequeueClaimMutex\<close>. The deliveries handed out and the deliveries acknowledged are the visible
  events. The clock is not assumed to be monotone. A failing operation other than a dequeue changes
  nothing.
\<close>

datatype queue_event = Enqueued int | Delivered "(int \<times> int) list" | Acked int int | Quiet

inductive queue_step :: "'v QuackapiState \<times> job_store \<Rightarrow> queue_event \<Rightarrow> 'v QuackapiState \<times> job_store \<Rightarrow> bool" where
  statement: "QueueDdlParse U atoi sql = PARSE_SUCCESSFUL d \<Longrightarrow> ApplyQueueExec ensure d s = Inr (msg, s') \<Longrightarrow> queue_step (s, st) Quiet (s', st)"
| enqueued: "EnqueueJob s fails now q payload n st = (st', Inr i) \<Longrightarrow> queue_step (s, st) (Enqueued i) (s, st')"
| dequeued: "DequeueInit U s E q n st = (st', Inr rows) \<Longrightarrow>
     queue_step (s, st) (Delivered (map (\<lambda>j. (qj_id j, qj_generation j)) rows)) (s, st')"
| dequeue_failed: "DequeueInit U s E q n st = (st', Inl e) \<Longrightarrow> queue_step (s, st) Quiet (s, st')"
| acked: "AckJob s fails now q i g st = (st', Inr True) \<Longrightarrow> queue_step (s, st) (Acked i g) (s, st')"
| ack_stale: "AckJob s fails now q i g st = (st', Inr False) \<Longrightarrow> queue_step (s, st) Quiet (s, st')"
| nacked: "NackJob s fs now1 now2 q i g requeue err st = (st', Inr status) \<Longrightarrow> queue_step (s, st) Quiet (s, st')"
| renewed: "RenewJob s fails now q i g st = (st', Inr b) \<Longrightarrow> queue_step (s, st) Quiet (s, st')"

inductive queue_history :: "queue_event list \<Rightarrow> 'v QuackapiState \<times> job_store \<Rightarrow> bool" where
  no_jobs: "queue_history [] (initial_state, \<lparr>js_jobs = [], js_next = 1\<rparr>)"
| more_steps: "queue_history evs c \<Longrightarrow> queue_step c ev c' \<Longrightarrow> queue_history (evs @ [ev]) c'"

fun deliveries :: "queue_event list \<Rightarrow> (int \<times> int) list" where
  "deliveries [] = []"
| "deliveries (Delivered ds # evs) = ds @ deliveries evs"
| "deliveries (_ # evs) = deliveries evs"

fun completions :: "queue_event list \<Rightarrow> (int \<times> int) list" where
  "completions [] = []"
| "completions (Acked i g # evs) = (i, g) # completions evs"
| "completions (_ # evs) = completions evs"


lemma deliveries_append [simp]: "deliveries (xs @ ys) = deliveries xs @ deliveries ys"
  by (induction xs rule: deliveries.induct) simp_all

lemma completions_append [simp]: "completions (xs @ ys) = completions xs @ completions ys"
  by (induction xs rule: completions.induct) simp_all

text \<open>The record an observer keeps of the deliveries agrees with the table.\<close>

definition job_ok :: "(int \<times> int) list \<Rightarrow> Job \<Rightarrow> bool" where
  "job_ok ds j = (qj_generation j = qj_attempts j \<and> 0 \<le> qj_attempts j \<and> qj_attempts j \<le> qj_max_attempts j \<and>
     (qj_status j = ''running'' \<longrightarrow> 1 \<le> qj_generation j) \<and>
     filter (\<lambda>d. fst d = qj_id j) ds = map (Pair (qj_id j)) [1..qj_generation j])"

definition finished :: "Job \<Rightarrow> bool" where
  "finished j = (qj_status j = ''done'' \<or> qj_status j = ''dead'')"

definition completed :: "Job list \<Rightarrow> int \<times> int \<Rightarrow> bool" where
  "completed js d = (\<exists>j \<in> set js. qj_id j = fst d \<and> qj_generation j = snd d \<and> qj_status j = ''done'' \<and> 1 \<le> snd d)"

lemma completed_mono:
  assumes "completed js d" and "\<And>j. j \<in> set js \<Longrightarrow> finished j \<Longrightarrow> j \<in> set js'"
  shows "completed js' d"
  using assms unfolding completed_def finished_def by blast

definition jobs_ok :: "(int \<times> int) list \<Rightarrow> (int \<times> int) list \<Rightarrow> job_store \<Rightarrow> bool" where
  "jobs_ok ds cs st = (distinct (map qj_id (js_jobs st)) \<and> (\<forall>j \<in> set (js_jobs st). qj_id j < js_next st \<and> job_ok ds j) \<and>
     fst ` set ds \<subseteq> qj_id ` set (js_jobs st) \<and> distinct (map fst cs) \<and>
     (\<forall>d \<in> set cs. completed (js_jobs st) d))"

definition quiet_move :: "Job \<Rightarrow> Job \<Rightarrow> bool" where
  "quiet_move j j' = (qj_id j' = qj_id j \<and> qj_attempts j' = qj_attempts j \<and> qj_max_attempts j' = qj_max_attempts j \<and>
     qj_generation j' = qj_generation j \<and> (finished j \<longrightarrow> j' = j) \<and>
     (qj_status j' = ''running'' \<longrightarrow> qj_status j = ''running''))"

definition quiet_change :: "job_store \<Rightarrow> job_store \<Rightarrow> bool" where
  "quiet_change st st' = (js_next st' = js_next st \<and> list_all2 quiet_move (js_jobs st) (js_jobs st'))"

lemma quiet_move_refl [simp]: "quiet_move j j"
  by (simp add: quiet_move_def)

lemma quiet_move_trans: "quiet_move i j \<Longrightarrow> quiet_move j k \<Longrightarrow> quiet_move i k"
  unfolding quiet_move_def by metis

lemma quiet_change_refl [simp]: "quiet_change st st"
  by (simp add: quiet_change_def list_all2_refl)

lemma quiet_change_trans:
  assumes "quiet_change st st'" and "quiet_change st' st''"
  shows "quiet_change st st''"
  using assms list_all2_trans [of quiet_move quiet_move quiet_move "js_jobs st" "js_jobs st'" "js_jobs st''"] quiet_move_trans
  unfolding quiet_change_def by auto

lemma quiet_update:
  assumes "\<And>j. cond j \<Longrightarrow> quiet_move j (f j)"
  shows "quiet_change st (update_jobs cond f st)"
  using assms by (auto simp: quiet_change_def update_jobs_def list.rel_map intro: list.rel_refl_strong)

lemma quiet_change_ids:
  assumes "quiet_change st st'" shows "map qj_id (js_jobs st') = map qj_id (js_jobs st)"
proof (rule nth_equalityI)
  show "length (map qj_id (js_jobs st')) = length (map qj_id (js_jobs st))"
    using assms list_all2_lengthD unfolding quiet_change_def by fastforce
  fix k assume "k < length (map qj_id (js_jobs st'))"
  then show "map qj_id (js_jobs st') ! k = map qj_id (js_jobs st) ! k"
    using assms list_all2_nthD2 [of quiet_move "js_jobs st" "js_jobs st'" k] list_all2_lengthD [of quiet_move "js_jobs st" "js_jobs st'"]
    unfolding quiet_change_def by (simp add: quiet_move_def)
qed

lemma job_ok_quiet: "quiet_move j j' \<Longrightarrow> job_ok ds j \<Longrightarrow> job_ok ds j'"
  unfolding job_ok_def quiet_move_def by metis

lemma quiet_change_back:
  assumes "quiet_change st st'" and "j' \<in> set (js_jobs st')"
  shows "\<exists>j \<in> set (js_jobs st). quiet_move j j'"
  using assms unfolding quiet_change_def by (metis in_set_conv_nth list_all2_conv_all_nth)

lemma quiet_change_finished:
  assumes "quiet_change st st'" and "j \<in> set (js_jobs st)" and "finished j"
  shows "j \<in> set (js_jobs st')"
proof -
  obtain k where "k < length (js_jobs st)" "js_jobs st ! k = j" using assms(2) by (auto simp: in_set_conv_nth)
  moreover have "list_all2 quiet_move (js_jobs st) (js_jobs st')" using assms(1) by (simp add: quiet_change_def)
  ultimately have "k < length (js_jobs st')" and "js_jobs st' ! k = j"
    using assms(3) by (auto simp: list_all2_conv_all_nth quiet_move_def)
  then show ?thesis using nth_mem by blast
qed

lemma jobs_ok_quiet:
  assumes "quiet_change st st'" and ok: "jobs_ok ds cs st"
  shows "jobs_ok ds cs st'"
proof -
  have ids: "map qj_id (js_jobs st') = map qj_id (js_jobs st)" using quiet_change_ids assms(1) .
  then have idset: "qj_id ` set (js_jobs st') = qj_id ` set (js_jobs st)" by (metis image_set)
  have upto: "js_next st' = js_next st" using assms(1) by (simp add: quiet_change_def)
  have each: "qj_id j' < js_next st' \<and> job_ok ds j'" if member: "j' \<in> set (js_jobs st')" for j'
  proof -
    obtain j where j: "j \<in> set (js_jobs st)" "quiet_move j j'" using quiet_change_back [OF assms(1) member] by blast
    have "qj_id j < js_next st" and "job_ok ds j" using ok j(1) by (simp_all add: jobs_ok_def)
    then show ?thesis using upto j(2) job_ok_quiet [OF j(2)] by (simp add: quiet_move_def)
  qed
  have "completed (js_jobs st') d" if "d \<in> set cs" for d
    using ok that quiet_change_finished [OF assms(1)] completed_mono unfolding jobs_ok_def by blast
  then show ?thesis using ok each unfolding jobs_ok_def ids idset by auto
qed


text \<open>The operations that hand out no delivery change jobs quietly.\<close>

lemma owned_running: "owned q i g now j \<Longrightarrow> qj_id j = i \<and> qj_generation j = g \<and> qj_status j = ''running''"
  by (simp add: owned_def)

lemma sweep_quiet:
  "quiet_change st (exhausted_pending q now st)" "quiet_change st (exhausted_running q now st)" "quiet_change st (retry_expired q now st)"
  unfolding exhausted_pending_def exhausted_running_def retry_expired_def
  by (rule quiet_update; simp add: quiet_move_def finished_def)+

lemma run_queries_quiet:
  assumes "\<And>ctx f s. (ctx, f) \<in> set qs \<Longrightarrow> quiet_change s (f s)"
  shows "quiet_change st (fst (run_queries fails i qs st))"
  using assms
proof (induction fails i qs st rule: run_queries.induct)
  case (2 fails i ctx f qs st)
  show ?case
  proof (cases "CheckQuery (fails i) ctx")
    case None
    have "quiet_change (f st) (fst (run_queries fails (i + 1) qs (f st)))" using 2 None by auto
    then show ?thesis using None 2(2) [of ctx f st] quiet_change_trans by auto
  qed simp
qed simp

lemma RecoverExpiredJobs_quiet: "quiet_change st (fst (RecoverExpiredJobs fails now1 now2 now3 q st))"
  unfolding RecoverExpiredJobs_def by (rule run_queries_quiet) (auto intro: sweep_quiet)

lemma NackJob_quiet: "NackJob s fails now1 now2 q i g requeue err st = (st', r) \<Longrightarrow> quiet_change st st'"
  unfolding NackJob_def
  by (auto simp: Let_def nack_dead_def nack_requeue_def quiet_move_def finished_def owned_def intro!: quiet_update
    split: sum.splits option.splits if_splits)

lemma RenewJob_quiet: "RenewJob s fails now q i g st = (st', r) \<Longrightarrow> quiet_change st st'"
  unfolding RenewJob_def
  by (auto simp: quiet_move_def finished_def owned_def intro!: quiet_update split: sum.splits option.splits if_splits)

lemma update_jobs_none: "\<not> any cond (js_jobs st) \<Longrightarrow> update_jobs cond f st = st"
  by (cases st) (auto simp: update_jobs_def any_iff intro: map_idI)

lemma AckJob_stale: "AckJob s fails now q i g st = (st', Inr False) \<Longrightarrow> st' = st"
  unfolding AckJob_def by (auto split: sum.splits option.splits dest: update_jobs_none)

lemma AckJob_done:
  assumes "AckJob s fails now q i g st = (st', Inr True)"
  shows "st' = update_jobs (owned q i g now) (\<lambda>j. j\<lparr>qj_status := ''done'', qj_updated_at := now, qj_worker_id := None\<rparr>) st"
    and "\<exists>j \<in> set (js_jobs st). owned q i g now j"
  using assms unfolding AckJob_def by (auto simp: any_iff split: sum.splits option.splits)


lemma EnqueueJob_ok:
  assumes "EnqueueJob s fails now q payload n st = (st', Inr i)" and "jobs_ok ds cs st"
  shows "jobs_ok ds cs st'"
proof -
  obtain m where st': "st' = st\<lparr>js_next := js_next st + 1, js_jobs := js_jobs st @
       [\<lparr>qj_id = js_next st, qj_queue = q, qj_payload = payload, qj_status = ''pending'', qj_attempts = 0,
         qj_max_attempts = m, qj_visible_at = now, qj_created_at = now, qj_updated_at = now, qj_last_error = None,
         qj_generation = 0, qj_worker_id = None\<rparr>]\<rparr>" and m: "m \<ge> 1"
    using assms(1) unfolding EnqueueJob_def Let_def by (auto split: sum.splits option.splits if_splits)
  have "\<forall>j \<in> set (js_jobs st). qj_id j < js_next st" using assms(2) by (simp add: jobs_ok_def)
  then have fresh: "js_next st \<notin> qj_id ` set (js_jobs st)" by auto
  moreover have "fst ` set ds \<subseteq> qj_id ` set (js_jobs st)" using assms(2) by (simp add: jobs_ok_def)
  ultimately have "js_next st \<notin> fst ` set ds" by blast
  then have "filter (\<lambda>d. fst d = js_next st) ds = []" by (force simp: filter_empty_conv)
  then have "job_ok ds (last (js_jobs st'))" using m by (simp add: st' job_ok_def)
  moreover have "completed (js_jobs st') d" if "completed (js_jobs st) d" for d
    using that by (rule completed_mono) (simp add: st')
  ultimately show ?thesis using assms(2) fresh unfolding st' jobs_ok_def by auto
qed

lemma AckJob_ok:
  assumes "AckJob s fails now q i g st = (st', Inr True)" and ok: "jobs_ok ds cs st"
  shows "jobs_ok ds (cs @ [(i, g)]) st'"
proof -
  define f where "f = (\<lambda>j. if owned q i g now j then j\<lparr>qj_status := ''done'', qj_updated_at := now, qj_worker_id := None\<rparr> else j)"
  have jobs: "js_jobs st' = map f (js_jobs st)" and upto: "js_next st' = js_next st"
    using AckJob_done(1) [OF assms(1)] by (simp_all add: update_jobs_def f_def)
  have keep: "qj_id (f j) = qj_id j \<and> qj_generation (f j) = qj_generation j \<and> qj_attempts (f j) = qj_attempts j \<and>
      qj_max_attempts (f j) = qj_max_attempts j \<and> (qj_status (f j) = ''running'' \<longrightarrow> qj_status j = ''running'')
      \<and> (qj_status j = ''done'' \<longrightarrow> f j = j)" for j
    by (auto simp: f_def owned_def)
  obtain k where k: "k \<in> set (js_jobs st)" "owned q i g now k" using AckJob_done(2) [OF assms(1)] by blast
  have k_done: "f k \<in> set (js_jobs st')" "qj_id (f k) = i" "qj_generation (f k) = g" "qj_status (f k) = ''done''" "1 \<le> g"
    using k ok by (auto simp: jobs jobs_ok_def job_ok_def f_def owned_def)
  have ids: "map qj_id (js_jobs st') = map qj_id (js_jobs st)" by (simp add: jobs f_def)
  then have idset: "qj_id ` set (js_jobs st') = qj_id ` set (js_jobs st)" by (metis image_set)
  have "i \<notin> fst ` set cs"
  proof
    assume "i \<in> fst ` set cs"
    then obtain j where "j \<in> set (js_jobs st)" "qj_id j = i" "qj_status j = ''done''"
      using ok unfolding jobs_ok_def completed_def by fastforce
    moreover have "inj_on qj_id (set (js_jobs st))" using ok by (simp add: jobs_ok_def distinct_map)
    ultimately have "j = k" using k owned_running inj_onD by metis
    then show False using \<open>qj_status j = ''done''\<close> k(2) by (simp add: owned_def)
  qed
  moreover have "job_ok ds (f j)" if "job_ok ds j" for j using that keep [of j] unfolding job_ok_def by metis
  moreover have "completed (js_jobs st') d" if "completed (js_jobs st) d" for d
    using that by (rule completed_mono) (force simp: jobs f_def owned_def finished_def)
  moreover have "completed (js_jobs st') (i, g)" using k_done unfolding completed_def by auto
  moreover have "qj_id (f j) = qj_id j" for j by (simp add: f_def)
  ultimately show ?thesis using ok unfolding jobs_ok_def ids idset upto by (auto simp: jobs)
qed

text \<open>A successful claim, whichever try it was.\<close>

lemma claim_tries_ok:
  assumes "claim_tries U fails now q timeout n tries st = (st', Inr rows)" and "tries \<le> 8"
  shows "\<exists>k < 8. (st', rows) = claim_query q timeout (now k) n st"
  using assms
proof (induction tries)
  case (Suc left)
  then show ?case
    by (cases "fails (7 - left)") (auto split: if_splits prod.splits intro!: exI [of _ "7 - left"])
qed simp

lemma claim_tries_error: "claim_tries U fails now q timeout n tries st = (st', Inl e) \<Longrightarrow> st' = st"
  by (induction tries) (auto split: if_splits prod.splits option.splits)


lemma ClaimPendingJobs_error: "ClaimPendingJobs U fails now q timeout n st = (st', Inl e) \<Longrightarrow> st' = st"
  unfolding ClaimPendingJobs_def by (rule claim_tries_error)

lemma claim_query_jobs:
  assumes "claim_query q timeout now n st = (st', rows)" and distinct: "distinct (map qj_id (js_jobs st))"
  shows "st' = update_jobs (\<lambda>j. qj_id j \<in> set (claim_ids q now n st)) (claim timeout now) st"
    and "rows = map (claim timeout now) (filter (\<lambda>j. qj_id j \<in> set (claim_ids q now n st)) (js_jobs st))"
    and "\<And>j. j \<in> set (js_jobs st) \<Longrightarrow> qj_id j \<in> set (claim_ids q now n st) \<Longrightarrow> claimable q now j"
proof -
  show able: "claimable q now j" if "j \<in> set (js_jobs st)" "qj_id j \<in> set (claim_ids q now n st)" for j
  proof -
    have "qj_id j \<in> qj_id ` set (filter (claimable q now) (js_jobs st))" using that(2) in_set_takeD unfolding claim_ids_def by force
    then obtain k where "k \<in> set (js_jobs st)" "qj_id k = qj_id j" "claimable q now k" by auto
    moreover have "inj_on qj_id (set (js_jobs st))" using distinct by (simp add: distinct_map)
    ultimately show ?thesis using that(1) inj_onD by metis
  qed
  have same: "qj_id j \<in> set (claim_ids q now n st) \<and> qj_status j = ''pending'' \<longleftrightarrow> qj_id j \<in> set (claim_ids q now n st)"
    if "j \<in> set (js_jobs st)" for j
    using able [OF that] by (auto simp: claimable_def)
  have split: "st' = update_jobs (\<lambda>j. qj_id j \<in> set (claim_ids q now n st) \<and> qj_status j = ''pending'') (claim timeout now) st"
    "rows = map (claim timeout now) (filter (\<lambda>j. qj_id j \<in> set (claim_ids q now n st) \<and> qj_status j = ''pending'') (js_jobs st))"
    using assms(1) by (simp_all add: claim_query_def Let_def)
  show "rows = map (claim timeout now) (filter (\<lambda>j. qj_id j \<in> set (claim_ids q now n st)) (js_jobs st))"
    unfolding split(2) using same by (simp cong: filter_cong)
  have "map (\<lambda>j. if qj_id j \<in> set (claim_ids q now n st) \<and> qj_status j = ''pending'' then claim timeout now j else j) (js_jobs st) =
      map (\<lambda>j. if qj_id j \<in> set (claim_ids q now n st) then claim timeout now j else j) (js_jobs st)"
    using same by auto
  then show "st' = update_jobs (\<lambda>j. qj_id j \<in> set (claim_ids q now n st)) (claim timeout now) st"
    unfolding split(1) update_jobs_def by simp
qed

lemma claim_simps [simp]:
  "qj_id (claim t now j) = qj_id j" "qj_generation (claim t now j) = qj_generation j + 1" "qj_attempts (claim t now j) = qj_attempts j + 1"
  "qj_max_attempts (claim t now j) = qj_max_attempts j" "qj_status (claim t now j) = ''running''"
  by (simp_all add: claim_def)

lemma filter_one:
  assumes "distinct (map f xs)" and "x \<in> set xs"
  shows "filter (\<lambda>y. f y = f x) xs = [x]"
  using assms
proof (induction xs)
  case (Cons a xs)
  show ?case
  proof (cases "a = x")
    case True
    then have "f y \<noteq> f x" if "y \<in> set xs" for y using Cons.prems(1) that by (auto simp: image_iff)
    then have "filter (\<lambda>y. f y = f x) xs = []" by (simp add: filter_empty_conv)
    then show ?thesis using True by simp
  qed (use Cons in auto)
qed simp

lemma filter_deliveries:
  assumes "distinct (map qj_id js)"
  shows "filter (\<lambda>d. fst d = i) (map (\<lambda>j. (qj_id j, qj_generation j)) js) = (case List.find (\<lambda>j. qj_id j = i) js of None \<Rightarrow> [] | Some j \<Rightarrow> [(i, qj_generation j)])"
proof (cases "List.find (\<lambda>j. qj_id j = i) js")
  case None
  then have "\<forall>j \<in> set js. qj_id j \<noteq> i" by (auto simp: find_None_iff)
  then have "filter (\<lambda>d. fst d = i) (map (\<lambda>j. (qj_id j, qj_generation j)) js) = []" by (auto simp: filter_empty_conv)
  then show ?thesis using None by simp
next
  case (Some j)
  then have j: "j \<in> set js" "qj_id j = i" by (auto simp: find_Some_iff in_set_conv_nth)
  have "filter (\<lambda>d. fst d = i) (map (\<lambda>j. (qj_id j, qj_generation j)) js) = map (\<lambda>j. (qj_id j, qj_generation j)) (filter (\<lambda>y. qj_id y = qj_id j) js)"
    using j(2) by (simp add: filter_map o_def)
  then show ?thesis using filter_one [OF assms j(1)] Some j(2) by simp
qed

lemma distinct_sort_key: "distinct (map f xs) \<Longrightarrow> distinct (map f (sort_key f xs))"
  by (metis distinct_map distinct_sort set_sort)

lemma find_distinct: "distinct (map f xs) \<Longrightarrow> List.find (\<lambda>x. f x = i) xs = Some y \<longleftrightarrow> y \<in> set xs \<and> f y = i"
  by (induction xs) force+


lemma claim_ok:
  assumes claim: "claim_query q timeout now n st = (st', rows)" and ok: "jobs_ok ds cs st"
  shows "jobs_ok (ds @ map (\<lambda>j. (qj_id j, qj_generation j)) (sort_key qj_id rows)) cs st'"
proof -
  have distinct: "distinct (map qj_id (js_jobs st))" using ok by (simp add: jobs_ok_def)
  define chosen where "chosen = (\<lambda>j :: Job. qj_id j \<in> set (claim_ids q now n st))"
  define f where "f = (\<lambda>j. if chosen j then claim timeout now j else j)"
  define new where "new = map (\<lambda>j. (qj_id j, qj_generation j)) (sort_key qj_id rows)"
  note parts = claim_query_jobs [OF claim distinct, folded chosen_def]
  have jobs: "js_jobs st' = map f (js_jobs st)" and upto: "js_next st' = js_next st"
    by (simp_all add: parts(1) update_jobs_def f_def)
  have able: "qj_status j = ''pending'' \<and> qj_attempts j < qj_max_attempts j" if "j \<in> set (js_jobs st)" "chosen j" for j
    using parts(3) that unfolding chosen_def claimable_def by blast
  have f_id: "qj_id (f j) = qj_id j" for j by (simp add: f_def)
  have ids: "map qj_id (js_jobs st') = map qj_id (js_jobs st)" by (simp add: jobs f_id)
  then have idset: "qj_id ` set (js_jobs st') = qj_id ` set (js_jobs st)" by (metis image_set)
  have rows_ids: "map qj_id rows = map qj_id (filter chosen (js_jobs st))" by (simp add: parts(2))
  have rows_distinct: "distinct (map qj_id (sort_key qj_id rows))"
    using distinct by (intro distinct_sort_key) (simp add: rows_ids distinct_map_filter)
  have new_of: "filter (\<lambda>d. fst d = qj_id j) new = (if chosen j then [(qj_id j, qj_generation j + 1)] else [])"
    if member: "j \<in> set (js_jobs st)" for j
  proof (cases "chosen j")
    case True
    then have "claim timeout now j \<in> set (sort_key qj_id rows)" using member by (simp add: parts(2))
    then have "List.find (\<lambda>x. qj_id x = qj_id j) (sort_key qj_id rows) = Some (claim timeout now j)"
      using find_distinct [OF rows_distinct] by simp
    then show ?thesis using True unfolding new_def filter_deliveries [OF rows_distinct] by simp
  next
    case False
    then have "qj_id x \<noteq> qj_id j" if "x \<in> set rows" for x using that unfolding parts(2) chosen_def by auto
    then show ?thesis using False by (auto simp: new_def filter_empty_conv)
  qed
  have "job_ok (ds @ new) (f j)" if member: "j \<in> set (js_jobs st)" for j
  proof -
    have "job_ok ds j" using ok member by (simp add: jobs_ok_def)
    then show ?thesis
      using new_of [OF member] able [OF member] by (cases "chosen j") (auto simp: job_ok_def f_def upto_rec2 [of 1 "qj_attempts j + 1"])
  qed
  moreover have "fst ` set new \<subseteq> qj_id ` set (js_jobs st)" by (auto simp: new_def parts(2))
  moreover have "completed (js_jobs st') d" if "completed (js_jobs st) d" for d
    using that by (rule completed_mono) (force simp: jobs f_def finished_def dest: able)
  ultimately show ?thesis
    using ok unfolding jobs_ok_def ids idset upto new_def [symmetric] by (auto simp: jobs f_id)
qed

lemma update_jobs_finished:
  assumes "j \<in> set (js_jobs st)" and "finished j" and "finished j \<Longrightarrow> \<not> cond j"
  shows "j \<in> set (js_jobs (update_jobs cond f st))"
  using assms by (force simp: update_jobs_def)

lemma EnqueueJob_keeps: "EnqueueJob s fails now q payload n st = (st', r) \<Longrightarrow> set (js_jobs st) \<subseteq> set (js_jobs st')"
  unfolding EnqueueJob_def Let_def by (auto split: sum.splits option.splits if_splits)

lemma run_queries_all: "run_queries fails i qs st = (st', None) \<Longrightarrow> st' = fold (\<lambda>(ctx, f) s. f s) qs st"
  by (induction fails i qs st rule: run_queries.induct) (auto split: option.splits)

lemma DequeueInit_parts:
  assumes "DequeueInit U s E q n st = (st', Inr rows)"
  shows "\<exists>st1 claimed k t. st1 = retry_expired q (de_sweep3 E) (exhausted_running q (de_sweep2 E) (exhausted_pending q (de_sweep1 E) st)) \<and>
      claim_query q t (de_claim_now E k) n st1 = (st', claimed) \<and> rows = sort_key qj_id claimed"
proof -
  obtain qu :: QuackapiQueue and st1 claimed
    where swept: "RecoverExpiredJobs (de_fails E) (de_sweep1 E) (de_sweep2 E) (de_sweep3 E) q st = (st1, None)"
    and claim: "ClaimPendingJobs U (de_claim_fails E) (de_claim_now E) q (qu_visibility_timeout_sec qu) n st1 = (st', Inr claimed)"
    and rows: "rows = sort_key qj_id claimed"
    using assms(1) unfolding DequeueInit_def by (auto split: sum.splits option.splits prod.splits)
  have "st1 = retry_expired q (de_sweep3 E) (exhausted_running q (de_sweep2 E) (exhausted_pending q (de_sweep1 E) st))"
    using run_queries_all [OF swept [unfolded RecoverExpiredJobs_def]] by simp
  moreover obtain k where "claim_query q (qu_visibility_timeout_sec qu) (de_claim_now E k) n st1 = (st', claimed)"
    using claim_tries_ok [OF claim [unfolded ClaimPendingJobs_def]] by auto
  ultimately show ?thesis using rows by blast
qed

lemma DequeueInit_ok:
  assumes "DequeueInit U s E q n st = (st', Inr rows)" and ok: "jobs_ok ds cs st"
  shows "jobs_ok (ds @ map (\<lambda>j. (qj_id j, qj_generation j)) rows) cs st'"
proof -
  obtain st1 claimed k t where st1: "st1 = retry_expired q (de_sweep3 E) (exhausted_running q (de_sweep2 E) (exhausted_pending q (de_sweep1 E) st))"
    and claim: "claim_query q t (de_claim_now E k) n st1 = (st', claimed)" and rows: "rows = sort_key qj_id claimed"
    using DequeueInit_parts [OF assms(1)] by blast
  have "jobs_ok ds cs st1" unfolding st1 by (intro jobs_ok_quiet [OF sweep_quiet(1)] jobs_ok_quiet [OF sweep_quiet(2)] jobs_ok_quiet [OF sweep_quiet(3)] ok)
  then show ?thesis using claim_ok [OF claim] rows by blast
qed

lemma DequeueInit_finished:
  assumes "DequeueInit U s E q n st = (st', Inr rows)" and "j \<in> set (js_jobs st)" and "finished j"
  shows "j \<in> set (js_jobs st')"
proof -
  obtain st1 claimed k t where st1: "st1 = retry_expired q (de_sweep3 E) (exhausted_running q (de_sweep2 E) (exhausted_pending q (de_sweep1 E) st))"
    and claim: "claim_query q t (de_claim_now E k) n st1 = (st', claimed)"
    using DequeueInit_parts [OF assms(1)] by blast
  have "j \<in> set (js_jobs st1)" unfolding st1 using assms(2,3)
    by (intro quiet_change_finished [OF sweep_quiet(1)] quiet_change_finished [OF sweep_quiet(2)] quiet_change_finished [OF sweep_quiet(3)])
  then show ?thesis using claim assms(3)
    by (auto simp: claim_query_def Let_def finished_def intro!: update_jobs_finished)
qed

lemma DequeueInit_failed:
  assumes "DequeueInit U s E q n st = (st', Inl e)"
  shows "quiet_change st st'"
  using assms RecoverExpiredJobs_quiet [of st "de_fails E" "de_sweep1 E" "de_sweep2 E" "de_sweep3 E" q] unfolding DequeueInit_def
  by (auto split: sum.splits option.splits prod.splits dest: ClaimPendingJobs_error)


lemma statement_keeps_jobs: "queue_step (s, st) ev (s', st') \<Longrightarrow> s' \<noteq> s \<Longrightarrow> st' = st"
  by (erule queue_step.cases) auto

lemma history_ok: "queue_history evs c \<Longrightarrow> jobs_ok (deliveries evs) (completions evs) (snd c)"
proof (induction rule: queue_history.induct)
  case no_jobs
  show ?case by (simp add: jobs_ok_def)
next
  case (more_steps evs c ev c')
  from more_steps(2) show ?case
  proof cases
    case (enqueued s fails now q payload n st st' i)
    then show ?thesis using EnqueueJob_ok more_steps.IH by fastforce
  next
    case (dequeued U s E q n st st' rows)
    then show ?thesis using DequeueInit_ok more_steps.IH by fastforce
  next
    case (acked s fails now q i g st st')
    then show ?thesis using AckJob_ok more_steps.IH by fastforce
  qed (use more_steps.IH in \<open>auto dest!: DequeueInit_failed AckJob_stale NackJob_quiet RenewJob_quiet intro: jobs_ok_quiet\<close>)
qed

section \<open>What the queues promise\<close>

text \<open>
  C34. A job is never handed out more often than its attempt limit: in every history of the queues,
  the deliveries of a job are numbered 1, 2, ... without gap or repetition and there are exactly as
  many as its attempt counter says, at most \<open>max_attempts\<close>.
\<close>

theorem deliveries_bounded:
  assumes "queue_history evs (s, st)" and "j \<in> set (js_jobs st)"
  shows "filter (\<lambda>d. fst d = qj_id j) (deliveries evs) = map (Pair (qj_id j)) [1..qj_attempts j] \<and>
         int (length (filter (\<lambda>d. fst d = qj_id j) (deliveries evs))) \<le> qj_max_attempts j"
proof -
  have "job_ok (deliveries evs) j" using history_ok [OF assms(1)] assms(2) by (simp add: jobs_ok_def)
  then show ?thesis by (auto simp: job_ok_def)
qed

lemma distinct_by_filters: "(\<And>i. distinct (filter (\<lambda>d. f d = i) ds)) \<Longrightarrow> distinct ds"
proof (induction ds)
  case (Cons d ds)
  have "distinct (filter (\<lambda>x. f x = i) ds)" for i using Cons.prems [of i] by (auto split: if_splits)
  moreover have "d \<notin> set ds" using Cons.prems [of "f d"] by auto
  ultimately show ?case using Cons.IH by simp
qed simp

lemma deliveries_distinct:
  assumes "jobs_ok ds cs st"
  shows "distinct ds"
proof -
  have "distinct (filter (\<lambda>d. fst d = i) ds)" for i
  proof (cases "i \<in> fst ` set ds")
    case True
    then obtain j where "j \<in> set (js_jobs st)" "qj_id j = i" using assms unfolding jobs_ok_def by auto
    then have "filter (\<lambda>d. fst d = i) ds = map (Pair i) [1..qj_generation j]" using assms unfolding jobs_ok_def job_ok_def by blast
    then show ?thesis by (simp add: distinct_map inj_on_def)
  next
    case False
    then have "filter (\<lambda>d. fst d = i) ds = []" by (force simp: filter_empty_conv)
    then show ?thesis by simp
  qed
  then show ?thesis by (rule distinct_by_filters)
qed

text \<open>
  A job is completed once: no two acknowledgements of a history succeed for one job, and the one
  that does names the last delivery of the job that was handed out, no delivery follows it.
\<close>

theorem completed_by_last_delivery:
  assumes "queue_history evs (s, st)"
  shows "distinct (map fst (completions evs)) \<and>
         (\<forall>(i, g) \<in> set (completions evs). last (filter (\<lambda>d. fst d = i) (deliveries evs)) = (i, g) \<and> (i, g) \<in> set (deliveries evs))"
proof -
  note ok = history_ok [OF assms, simplified]
  have "last (filter (\<lambda>d. fst d = i) (deliveries evs)) = (i, g) \<and> (i, g) \<in> set (deliveries evs)" if "(i, g) \<in> set (completions evs)" for i g
  proof -
    have "completed (js_jobs st) (i, g)" using ok that by (simp add: jobs_ok_def)
    then obtain j where j: "j \<in> set (js_jobs st)" "qj_id j = i" "qj_generation j = g" "1 \<le> g"
      unfolding completed_def by auto
    then have only: "filter (\<lambda>d. fst d = i) (deliveries evs) = map (Pair i) [1..g]" using ok unfolding jobs_ok_def job_ok_def by blast
    moreover have "last (map (Pair i) [1..g]) = (i, g)" using j(4) by (simp add: upto_rec2 [of 1 g])
    moreover have "(i, g) \<in> set (filter (\<lambda>d. fst d = i) (deliveries evs))" unfolding only using j(4) by simp
    then have "(i, g) \<in> set (deliveries evs)" unfolding only [symmetric] by (rule subsetD [OF filter_is_subset])
    ultimately show ?thesis by simp
  qed
  then show ?thesis using ok unfolding jobs_ok_def by auto
qed

text \<open>
  A finished job is final: no step of any client changes or removes the row of a job that is done
  or dead.
\<close>

theorem finished_jobs_stay:
  assumes "queue_step (s, st) ev (s', st')" and "j \<in> set (js_jobs st)" and "qj_status j = ''done'' \<or> qj_status j = ''dead''"
  shows "j \<in> set (js_jobs st')"
proof -
  have fin: "finished j" using assms(3) by (simp add: finished_def)
  from assms(1) show ?thesis
  proof cases
    case (dequeued U E q n rows)
    then show ?thesis using DequeueInit_finished assms(2) fin by blast
  next
    case (acked fails now q i g)
    then have "st' = update_jobs (owned q i g now) (\<lambda>j. j\<lparr>qj_status := ''done'', qj_updated_at := now, qj_worker_id := None\<rparr>) st"
      using AckJob_done(1) by blast
    moreover have "\<not> owned q i g now j" using fin by (auto simp: owned_def finished_def)
    ultimately show ?thesis using update_jobs_finished [OF assms(2) fin] by blast
  qed (use assms(2) fin in \<open>auto dest!: DequeueInit_failed AckJob_stale NackJob_quiet RenewJob_quiet EnqueueJob_keeps
    intro: quiet_change_finished\<close>)
qed

text \<open>
  A dequeue takes the oldest jobs: once the expired deliveries are recovered, the rows it returns
  are, in the order of their ids, the first \<open>n\<close> jobs of the queue that are pending, visible and below
  their attempt limit, each as it was with one attempt and one generation more.
\<close>

theorem dequeue_takes_oldest:
  assumes "DequeueInit U s E q n st = (st', Inr rows)" and "distinct (map qj_id (js_jobs st))"
  shows "\<exists>now jobs. jobs = js_jobs (retry_expired q (de_sweep3 E) (exhausted_running q (de_sweep2 E) (exhausted_pending q (de_sweep1 E) st))) \<and>
           map qj_id rows = take n (sort (map qj_id (filter (claimable q now) jobs))) \<and>
           (\<forall>r \<in> set rows. \<exists>j \<in> set jobs. claimable q now j \<and> qj_id r = qj_id j \<and> qj_payload r = qj_payload j \<and>
              qj_attempts r = qj_attempts j + 1 \<and> qj_generation r = qj_generation j + 1 \<and> qj_status r = ''running'')"
proof -
  obtain st1 claimed k t where st1: "st1 = retry_expired q (de_sweep3 E) (exhausted_running q (de_sweep2 E) (exhausted_pending q (de_sweep1 E) st))"
    and claim: "claim_query q t (de_claim_now E k) n st1 = (st', claimed)" and rows: "rows = sort_key qj_id claimed"
    using DequeueInit_parts [OF assms(1)] by blast
  have ids: "map qj_id (js_jobs st1) = map qj_id (js_jobs st)" unfolding st1
    by (simp add: quiet_change_ids [OF sweep_quiet(1)] quiet_change_ids [OF sweep_quiet(2)] quiet_change_ids [OF sweep_quiet(3)])
  then have distinct: "distinct (map qj_id (js_jobs st1))" using assms(2) by simp
  note parts = claim_query_jobs [OF claim distinct]
  define chosen where "chosen = claim_ids q (de_claim_now E k) n st1"
  have chosen: "sorted chosen" "distinct chosen" "set chosen \<subseteq> qj_id ` set (js_jobs st1)"
    using distinct by (auto simp: chosen_def claim_ids_def sorted_wrt_take distinct_map_filter dest!: in_set_takeD)
  have "map qj_id rows = chosen"
  proof (rule sorted_distinct_set_unique)
    show "sorted (map qj_id rows)" unfolding rows by (rule sorted_sort_key)
    have "map qj_id claimed = map qj_id (filter (\<lambda>j. qj_id j \<in> set chosen) (js_jobs st1))" by (simp add: parts(2) chosen_def)
    then show "distinct (map qj_id rows)" unfolding rows using distinct by (intro distinct_sort_key) (simp add: distinct_map_filter)
    have "qj_id ` {x \<in> set (js_jobs st1). qj_id x \<in> set chosen} = set chosen" using chosen(3) by auto
    then show "set (map qj_id rows) = set chosen" by (simp add: rows parts(2) image_image chosen_def)
  qed (rule chosen)+
  moreover have "\<exists>j \<in> set (js_jobs st1). claimable q (de_claim_now E k) j \<and> qj_id r = qj_id j \<and> qj_payload r = qj_payload j \<and>
      qj_attempts r = qj_attempts j + 1 \<and> qj_generation r = qj_generation j + 1 \<and> qj_status r = ''running''" if "r \<in> set rows" for r
  proof -
    obtain j where j: "j \<in> set (js_jobs st1)" "qj_id j \<in> set (claim_ids q (de_claim_now E k) n st1)" "r = claim t (de_claim_now E k) j"
      using \<open>r \<in> set rows\<close> by (auto simp: rows parts(2))
    show ?thesis using parts(3) [OF j(1,2)] j(1,3) by (intro bexI [of _ j]) (simp_all add: claim_def)
  qed
  ultimately show ?thesis using st1 unfolding chosen_def claim_ids_def by blast
qed


definition queue_in_bounds :: "QuackapiQueue \<Rightarrow> bool" where
  "queue_in_bounds q = (1 \<le> qu_max_attempts q \<and> qu_max_attempts q \<le> 1000 \<and> 1 \<le> qu_visibility_timeout_sec q \<and>
     qu_visibility_timeout_sec q \<le> 604800 \<and> 0 \<le> qu_backoff_base_sec q \<and> qu_backoff_base_sec q \<le> 3600)"

lemma queue_in_bounds_new [simp]: "queue_in_bounds (new_queue name)"
  by (simp add: queue_in_bounds_def new_queue_def)

lemma if_Inr: "(if b then x else y) = Inr v \<longleftrightarrow> b \<and> x = Inr v \<or> \<not> b \<and> y = Inr v"
  by simp

lemma case_Inr: "(case x of Inl e \<Rightarrow> Inl (f e) | Inr y \<Rightarrow> g y) = Inr v \<longleftrightarrow> (\<exists>y. x = Inr y \<and> g y = Inr v)"
  by (simp split: sum.split)

lemma queue_option_bounds:
  assumes "queue_option U atoi key val q = Inr q'" and "queue_in_bounds q"
  shows "queue_in_bounds q'"
proof -
  have "queue_in_bounds (q\<lparr>qu_max_attempts := n\<rparr>)" if "\<not> (n < 1 \<or> n > 1000)" for n using assms(2) that by (simp add: queue_in_bounds_def)
  moreover have "queue_in_bounds (q\<lparr>qu_visibility_timeout_sec := n\<rparr>)" if "ParseDurationSeconds U val = Inr n" "\<not> n < 1" for n
    using assms(2) that ParseDurationSeconds_bounds [OF that(1)] by (simp add: queue_in_bounds_def)
  moreover have "queue_in_bounds (q\<lparr>qu_backoff_base_sec := n\<rparr>)" if "\<not> (n < 0 \<or> n > 3600)" for n using assms(2) that by (simp add: queue_in_bounds_def)
  moreover have "q' = q\<lparr>qu_max_attempts := atoi val\<rparr> \<and> \<not> (atoi val < 1 \<or> atoi val > 1000) \<or>
    (\<exists>n. q' = q\<lparr>qu_visibility_timeout_sec := n\<rparr> \<and> ParseDurationSeconds U val = Inr n \<and> \<not> n < 1) \<or>
    q' = q\<lparr>qu_backoff_base_sec := atoi val\<rparr> \<and> \<not> (atoi val < 0 \<or> atoi val > 3600)"
    using assms(1) unfolding queue_option_def by (simp only: if_Inr case_Inr sum.inject sum.distinct, elim disjE conjE exE) simp_all
  ultimately show ?thesis by (elim disjE conjE exE) simp_all
qed

lemma QueueCreateParse_bounds: "QueueCreateParse U atoi r rest = PARSE_SUCCESSFUL d \<Longrightarrow> queue_in_bounds (qd_queue d)"
  unfolding QueueCreateParse_def Let_def
  by (auto split: if_splits sum.splits prod.splits
    dest!: with_options_keep [where P = queue_in_bounds] queue_option_bounds)

lemma QueueDdlParse_bounds: "QueueDdlParse U atoi sql = PARSE_SUCCESSFUL d \<Longrightarrow> queue_in_bounds (qd_queue d)"
  unfolding QueueDdlParse_def Let_def by (auto split: if_splits dest: QueueCreateParse_bounds)

lemma ApplyQueueExec_queues:
  assumes "ApplyQueueExec ensure d s = Inr (msg, s')" and "q \<in> set (queues s')"
  shows "q \<in> set (queues s) \<or> q = qd_queue d"
  using assms unfolding ApplyQueueExec_def AddQueue_def DropQueue_def Let_def
  by (auto split: if_splits option.splits sum.splits prod.splits bool.splits dest: in_set_replace_firstD subsetD [OF set_erase_first_subset])


lemma history_queues: "queue_history evs c \<Longrightarrow> q \<in> set (queues (fst c)) \<Longrightarrow> queue_in_bounds q"
proof (induction rule: queue_history.induct)
  case no_jobs
  then show ?case by (simp add: initial_state_def)
next
  case (more_steps evs c ev c')
  from more_steps(2) show ?case
  proof cases
    case (statement U atoi sql d ensure s msg s' st)
    then show ?thesis using ApplyQueueExec_queues [OF statement(5)] QueueDdlParse_bounds [OF statement(4)] more_steps(3,4) by auto
  qed (use more_steps(3,4) in auto)
qed

text \<open>
  Whatever statements are accepted, every queue of the registry has an attempt limit from 1 to
  1000, a visibility timeout from one second to a week and a backoff base of at most an hour.
\<close>

theorem queues_within_bounds:
  assumes "queue_history evs (s, st)" and "q \<in> set (queues s)"
  shows "1 \<le> qu_max_attempts q \<and> qu_max_attempts q \<le> 1000 \<and> 1 \<le> qu_visibility_timeout_sec q \<and>
         qu_visibility_timeout_sec q \<le> 604800 \<and> 0 \<le> qu_backoff_base_sec q \<and> qu_backoff_base_sec q \<le> 3600"
  using history_queues [OF assms(1)] assms(2) by (simp add: queue_in_bounds_def)

text \<open>
  A string put into an SQL statement of the queues is one literal: read by the rules of SQL
  quoting, \<open>SqlQuote\<close> gives back the string and leaves exactly what follows it, whatever quotes the
  string holds.
\<close>

theorem SqlQuote_roundtrip:
  assumes "rest = [] \<or> hd rest \<noteq> squote"
  shows "hd (SqlQuote s) = squote \<and> sql_quoted (tl (SqlQuote s) @ rest) = Some (s, rest)"
proof -
  have "sql_quoted (concat (map (\<lambda>c. if c = squote then [squote, squote] else [c]) s) @ [squote] @ rest) = Some (s, rest)"
  proof (induction s)
    case Nil
    show ?case using assms by (cases rest) auto
  qed auto
  then show ?thesis by (simp add: SqlQuote_def)
qed

theorem SqlQuote_roundtrip_witness:
  "sql_quoted (tl (SqlQuote [CHR ''a'', squote, CHR ''b'']) @ '' AND'') = Some ([CHR ''a'', squote, CHR ''b''], '' AND'')"
  using SqlQuote_roundtrip [of "'' AND''" "[CHR ''a'', squote, CHR ''b'']"] by (simp add: squote_def)

section \<open>An example history\<close>

definition mail_registry :: "nat QuackapiState" where
  "mail_registry = initial_state\<lparr>queues := [new_queue ''mail'']\<rparr>"

definition mail_env :: dequeue_env where
  "mail_env = \<lparr>de_fails = (\<lambda>_. None), de_sweep1 = 5, de_sweep2 = 5, de_sweep3 = 5, de_claim_fails = (\<lambda>_. None), de_claim_now = (\<lambda>_. 5)\<rparr>"

definition mail_job :: Job where
  "mail_job = \<lparr>qj_id = 1, qj_queue = ''mail'', qj_payload = ''{}'', qj_status = ''pending'', qj_attempts = 0, qj_max_attempts = 3,
     qj_visible_at = 4, qj_created_at = 4, qj_updated_at = 4, qj_last_error = None, qj_generation = 0, qj_worker_id = None\<rparr>"

definition mail_claimed :: Job where
  "mail_claimed = mail_job\<lparr>qj_status := ''running'', qj_attempts := 1, qj_generation := 1, qj_visible_at := 30000005, qj_updated_at := 5\<rparr>"

definition mail_done :: Job where
  "mail_done = mail_claimed\<lparr>qj_status := ''done'', qj_updated_at := 6\<rparr>"

lemma mail_statement:
  "QueueDdlParse ascii_util (\<lambda>_. 0) ''CREATE QUEUE mail'' = PARSE_SUCCESSFUL \<lparr>qd_action = ''CREATE'', qd_or_replace = False, qd_queue = new_queue ''mail''\<rparr>"
  by code_simp

lemma mail_created:
  "\<exists>msg. ApplyQueueExec None \<lparr>qd_action = ''CREATE'', qd_or_replace = False, qd_queue = new_queue ''mail''\<rparr> initial_state = Inr (msg, mail_registry)"
  by (simp add: ApplyQueueExec_def AddQueue_def mail_registry_def initial_state_def new_queue_def)

lemma mail_enqueued:
  "EnqueueJob mail_registry None 4 ''mail'' ''{}'' 0 \<lparr>js_jobs = [], js_next = 1\<rparr> = (\<lparr>js_jobs = [mail_job], js_next = 2\<rparr>, Inr 1)"
  by code_simp

lemma mail_dequeued:
  "DequeueInit ascii_util mail_registry mail_env ''mail'' 1 \<lparr>js_jobs = [mail_job], js_next = 2\<rparr> =
     (\<lparr>js_jobs = [mail_claimed], js_next = 2\<rparr>, Inr [mail_claimed])"
  by code_simp

lemma mail_acked:
  "AckJob mail_registry None 6 ''mail'' 1 1 \<lparr>js_jobs = [mail_claimed], js_next = 2\<rparr> = (\<lparr>js_jobs = [mail_done], js_next = 2\<rparr>, Inr True)"
  by code_simp

lemma mail_history:
  "queue_history [Quiet, Enqueued 1, Delivered [(1, 1)], Acked 1 1] (mail_registry, \<lparr>js_jobs = [mail_done], js_next = 2\<rparr>)"
proof -
  have 1: "queue_history [Quiet] (mail_registry, \<lparr>js_jobs = [], js_next = 1\<rparr>)"
    using more_steps [OF no_jobs statement [OF mail_statement]] mail_created by fastforce
  have 2: "queue_history [Quiet, Enqueued 1] (mail_registry, \<lparr>js_jobs = [mail_job], js_next = 2\<rparr>)"
    using more_steps [OF 1 enqueued [OF mail_enqueued]] by simp
  have 3: "queue_history [Quiet, Enqueued 1, Delivered [(1, 1)]] (mail_registry, \<lparr>js_jobs = [mail_claimed], js_next = 2\<rparr>)"
    using more_steps [OF 2 dequeued [OF mail_dequeued]] by (simp add: mail_claimed_def mail_job_def)
  show ?thesis using more_steps [OF 3 acked [OF mail_acked]] by simp
qed

theorem deliveries_bounded_witness:
  "mail_done \<in> set [mail_done] \<and> int (length (filter (\<lambda>d. fst d = qj_id mail_done) [(1, 1)])) \<le> qj_max_attempts mail_done"
  using deliveries_bounded [OF mail_history, of mail_done] by (auto simp: mail_done_def mail_claimed_def mail_job_def)

theorem completed_by_last_delivery_witness:
  "last (filter (\<lambda>d. fst d = 1) [(1 :: int, 1 :: int)]) = (1, 1)"
  using completed_by_last_delivery [OF mail_history] by simp

lemma mail_requeue_stale:
  "NackJob mail_registry (\<lambda>_. None) 7 7 ''mail'' 1 1 True [] \<lparr>js_jobs = [mail_done], js_next = 2\<rparr> =
     (\<lparr>js_jobs = [mail_done], js_next = 2\<rparr>, Inr ''stale'')"
  by code_simp

theorem finished_jobs_stay_witness: "qj_status mail_done = ''done'' \<and> mail_done \<in> set [mail_done]"
  using finished_jobs_stay [OF nacked [OF mail_requeue_stale], of mail_done] by (simp add: mail_done_def)

theorem dequeue_takes_oldest_witness:
  "\<exists>now jobs. map qj_id [mail_claimed] = take 1 (sort (map qj_id (filter (claimable ''mail'' now) jobs)))"
  using dequeue_takes_oldest [OF mail_dequeued] by auto

theorem queues_within_bounds_witness:
  "new_queue ''mail'' \<in> set (queues mail_registry) \<and> qu_max_attempts (new_queue ''mail'') \<le> 1000"
  using queues_within_bounds [OF mail_history, of "new_queue ''mail''"] by (simp add: mail_registry_def)

text \<open>
  The comment above the query of \<open>QueuesInit\<close> says that the depth counts the claimable jobs. A job
  waiting out its backoff is counted, although no dequeue hands it out yet.
\<close>

lemma depth_counts_backoff:
  "jobs_where (in_depth 5) ''mail'' \<lparr>js_jobs = [mail_job\<lparr>qj_visible_at := 9\<rparr>], js_next = 2\<rparr> = 1 \<and>
   \<not> claimable ''mail'' 5 (mail_job\<lparr>qj_visible_at := 9\<rparr>)"
  by code_simp

end
