(* ===== verification/Ddl.thy ===== *)
theory Ddl
  imports Options Registry
begin

text \<open>
  The statements \<open>CREATE ROUTE\<close>, \<open>DROP ROUTE\<close>, \<open>CREATE GROUP\<close> and \<open>DROP GROUP\<close>
  (\<open>src/src/quackapi_ddl.cpp\<close>): the grammars, what the planner hands to the execution, and the
  execution on the registry. The rest of the text still to be read is passed along, as the source
  does with its variable \<open>rest\<close>. DuckDB's parser of literals and the queries run at creation are
  parameters.
\<close>

section \<open>Scanning\<close>

text \<open>The first run of characters that are no white space, and the trimmed text after it.\<close>

definition next_token :: "string_util \<Rightarrow> string \<Rightarrow> string \<times> string" where
  "next_token U s = (let tok = takeWhile (\<lambda>c. \<not> su_space U c) s in (tok, QuackapiTrim U (drop (length tok) s)))"

text \<open>A keyword at the front, ended by white space or the end of the text.\<close>

definition at_keyword :: "string_util \<Rightarrow> string \<Rightarrow> string \<Rightarrow> bool" where
  "at_keyword U kw rest =
     (su_starts_with U (su_upper U rest) kw \<and> (length rest = length kw \<or> length rest > length kw \<and> su_space U (rest ! length kw)))"

text \<open>A keyword that must be followed by white space.\<close>

definition at_word :: "string_util \<Rightarrow> string \<Rightarrow> string \<Rightarrow> bool" where
  "at_word U kw rest = (su_starts_with U (su_upper U rest) kw \<and> length rest > length kw \<and> su_space U (rest ! length kw))"

definition after_keyword :: "string_util \<Rightarrow> string \<Rightarrow> string \<Rightarrow> string" where
  "after_keyword U kw rest = QuackapiTrim U (drop (length kw) rest)"

text \<open>A quoted string at the front, where a doubled quote stands for one.\<close>

definition quoted_string :: "string_util \<Rightarrow> string \<Rightarrow> (string \<times> string) option" where
  "quoted_string U s = (case sql_quoted (tl s) of None \<Rightarrow> None | Some (v, r) \<Rightarrow> Some (v, QuackapiTrim U r))"

definition squoted :: "string \<Rightarrow> string" where
  "squoted s = [squote] @ s @ [squote]"

definition quote_ahead :: "string \<Rightarrow> bool" where
  "quote_ahead s = (s \<noteq> [] \<and> hd s = squote)"

section \<open>Checks of the pieces\<close>

definition IsHttpMethod :: "string \<Rightarrow> bool" where
  "IsHttpMethod m = (m \<in> {''GET'', ''POST'', ''PUT'', ''DELETE'', ''PATCH'', ''HEAD''})"

definition IsParamTypeName :: "string_util \<Rightarrow> string \<Rightarrow> bool" where
  "IsParamTypeName U tok = (su_upper U tok \<in> {''INTEGER'', ''INT'', ''BIGINT'', ''SMALLINT'', ''TINYINT'', ''HUGEINT'', ''UBIGINT'',
     ''UINTEGER'', ''USMALLINT'', ''UTINYINT'', ''DOUBLE'', ''FLOAT'', ''REAL'', ''DECIMAL'', ''NUMERIC'', ''VARCHAR'', ''TEXT'',
     ''STRING'', ''BOOLEAN'', ''BOOL'', ''VARIANT''})"

text \<open>The segments between separators, empty ones included.\<close>

fun segments :: "char \<Rightarrow> string \<Rightarrow> string \<Rightarrow> string list" where
  "segments d acc [] = [rev acc]"
| "segments d acc (c # cs) = (if c = d then rev acc # segments d [] cs else segments d (c # acc) cs)"

definition HasRoutePathParams :: "string \<Rightarrow> bool" where
  "HasRoutePathParams pat =
     any (\<lambda>seg. seg \<noteq> [] \<and> hd seg = CHR '':'' \<or> length seg \<ge> 2 \<and> hd seg = CHR 0x7B \<and> last seg = CHR 0x7D) (segments (CHR ''/'') [] pat)"

fun count_fields :: "string_util \<Rightarrow> bool \<Rightarrow> string \<Rightarrow> nat" where
  "count_fields U in_field [] = 0"
| "count_fields U in_field (c # cs) =
     (if su_space U c then count_fields U False cs else (if in_field then 0 else 1) + count_fields U True cs)"

definition ValidateRouteSchedule :: "string_util \<Rightarrow> string \<Rightarrow> string option" where
  "ValidateRouteSchedule U schedule =
     (if count_fields U False schedule \<noteq> 6
      then Some ''SCHEDULE must contain exactly 6 whitespace-separated cron fields (seconds first)'' else None)"

definition strip_slashes :: "string \<Rightarrow> string" where
  "strip_slashes pre = hd pre # rev (dropWhile (\<lambda>c. c = CHR ''/'') (rev (tl pre)))"

definition JoinGroupPrefix :: "string_util \<Rightarrow> string \<Rightarrow> string \<Rightarrow> string result" where
  "JoinGroupPrefix U pre path =
     (if pre = [] \<or> hd pre \<noteq> CHR ''/'' then Inl (InvalidInput (''Group prefix must start with '' @ squoted ''/'') [])
      else let p = strip_slashes pre
           in if path = [] then Inr p
              else let r = (if hd path \<noteq> CHR ''/'' then CHR ''/'' # path else path)
                   in if r = p \<or> su_starts_with U r (p @ ''/'') then
                        Inl (InvalidInput ''Route path already starts with group prefix'' [path, pre])
                      else Inr (p @ r))"

section \<open>Clauses of a route\<close>

text \<open>What a clause makes of the text: it is not there, it is wrong, or it has been read.\<close>

datatype 'a clause = ABSENT | WRONG string | THROWS exn | TAKEN 'a string

record 'v clauses =
  cl_route :: "'v QuackapiRoute"
  cl_schedule_seen :: bool

definition schedule_clause :: "string_util \<Rightarrow> 'v clauses \<Rightarrow> string \<Rightarrow> 'v clauses clause" where
  "schedule_clause U c rest =
     (if \<not> at_keyword U ''SCHEDULE'' rest then ABSENT
      else if cl_schedule_seen c then WRONG ''SCHEDULE specified more than once''
      else let after = after_keyword U ''SCHEDULE'' rest
           in if \<not> quote_ahead after then WRONG ''SCHEDULE expects a quoted 6-field cron expression (seconds first)''
              else case quoted_string U after of
                None \<Rightarrow> WRONG ''Unterminated SCHEDULE string''
              | Some (val, rest') \<Rightarrow> (case ValidateRouteSchedule U val of
                  Some err \<Rightarrow> WRONG err
                | None \<Rightarrow> TAKEN (c\<lparr>cl_route := (cl_route c)\<lparr>rt_schedule := val\<rparr>, cl_schedule_seen := True\<rparr>) rest'))"

definition status_clause :: "string_util \<Rightarrow> (string \<Rightarrow> int) \<Rightarrow> 'v QuackapiRoute \<Rightarrow> string \<Rightarrow> 'v QuackapiRoute clause" where
  "status_clause U atoi route rest =
     (if \<not> at_keyword U ''STATUS'' rest then ABSENT
      else case next_token U (after_keyword U ''STATUS'' rest) of (tok, rest') \<Rightarrow>
        if tok = [] then WRONG ''Expected AS <select> after STATUS <n>''
        else if atoi tok < 100 \<or> atoi tok > 599 then WRONG ''STATUS must be a valid HTTP status code''
        else TAKEN (route\<lparr>rt_status := atoi tok\<rparr>) rest')"

definition rate_by :: "string_util \<Rightarrow> string \<Rightarrow> string + (string \<times> string)" where
  "rate_by U rest =
     (if at_keyword U ''BY'' rest then
        (case next_token U (after_keyword U ''BY'' rest) of (tok, rest') \<Rightarrow>
           let by = su_lower U tok
           in if tok = [] then Inl ''RATE LIMIT BY expects ip, token, or key''
              else if by \<noteq> ''ip'' \<and> by \<noteq> ''token'' \<and> by \<noteq> ''key'' then Inl ''RATE LIMIT BY must be ip, token, or key''
              else Inr (if by = ''key'' then ''token'' else by, rest'))
      else Inr (''ip'', rest))"

definition rate_clause :: "string_util \<Rightarrow> (string \<Rightarrow> int) \<Rightarrow> 'v QuackapiRoute \<Rightarrow> string \<Rightarrow> 'v QuackapiRoute clause" where
  "rate_clause U atoi route rest =
     (if \<not> at_word U ''RATE'' rest then ABSENT
      else let after = after_keyword U ''RATE'' rest
           in if \<not> at_keyword U ''LIMIT'' after then WRONG ''Expected RATE LIMIT <n> PER <seconds>''
              else case next_token U (after_keyword U ''LIMIT'' after) of (n, after_n) \<Rightarrow>
                if n = [] then WRONG ''RATE LIMIT expects a positive integer count''
                else if atoi n \<le> 0 then WRONG ''RATE LIMIT count must be a positive integer''
                else if \<not> at_keyword U ''PER'' after_n then WRONG ''Expected PER <seconds> after RATE LIMIT <n>''
                else case next_token U (after_keyword U ''PER'' after_n) of (per, after_per) \<Rightarrow>
                  if per = [] then WRONG ''RATE LIMIT PER expects a positive seconds window''
                  else if atoi per \<le> 0 then WRONG ''RATE LIMIT window (PER seconds) must be positive''
                  else case rate_by U after_per of
                    Inl err \<Rightarrow> WRONG err
                  | Inr (by, rest') \<Rightarrow>
                      TAKEN (route\<lparr>rt_rate_limit_n := atoi n, rt_rate_limit_per_sec := atoi per, rt_rate_limit_by := by\<rparr>) rest')"

definition require_clause :: "string_util \<Rightarrow> 'v QuackapiRoute \<Rightarrow> string \<Rightarrow> 'v QuackapiRoute clause" where
  "require_clause U route rest =
     (if \<not> at_keyword U ''REQUIRE'' rest then ABSENT
      else case next_token U (after_keyword U ''REQUIRE'' rest) of (tok, rest') \<Rightarrow>
        if tok = [] then WRONG ''Expected AS <select> after REQUIRE <auth>'' else TAKEN (route\<lparr>rt_require_auth := tok\<rparr>) rest')"

definition route_formats :: "string list" where
  "route_formats = [''json'', ''ndjson'', ''csv'', ''parquet'', ''arrow'', ''binary'']"

definition format_clause :: "string_util \<Rightarrow> 'v QuackapiRoute \<Rightarrow> string \<Rightarrow> 'v QuackapiRoute clause" where
  "format_clause U route rest =
     (if \<not> at_keyword U ''FORMAT'' rest then ABSENT
      else case next_token U (after_keyword U ''FORMAT'' rest) of (tok, rest') \<Rightarrow>
        let fmt = (if su_lower U tok = ''arrows'' then ''arrow'' else su_lower U tok)
        in if tok = [] then WRONG ''FORMAT expects json, ndjson, csv, parquet, arrow, or binary''
           else if fmt \<notin> set route_formats then WRONG ''FORMAT must be json, ndjson, csv, parquet, arrow, or binary''
           else TAKEN (route\<lparr>rt_response_format := fmt\<rparr>) rest')"

definition envelope_clause :: "string_util \<Rightarrow> 'v QuackapiRoute \<Rightarrow> string \<Rightarrow> 'v QuackapiRoute clause" where
  "envelope_clause U route rest =
     (if \<not> at_keyword U ''ENVELOPE'' rest then ABSENT
      else case next_token U (after_keyword U ''ENVELOPE'' rest) of (tok, rest') \<Rightarrow>
        let env = su_lower U tok
        in if tok = [] then WRONG ''ENVELOPE expects array or object''
           else if env \<noteq> ''array'' \<and> env \<noteq> ''object'' then WRONG ''ENVELOPE must be array or object''
           else TAKEN (route\<lparr>rt_response_envelope := env\<rparr>) rest')"

definition empty_body_clause :: "string_util \<Rightarrow> 'v QuackapiRoute \<Rightarrow> string \<Rightarrow> 'v QuackapiRoute clause" where
  "empty_body_clause U route rest =
     (if \<not> at_word U ''BODY'' rest then TAKEN route rest
      else let after = after_keyword U ''BODY'' rest
           in if su_starts_with U (su_upper U after) ''SCHEMA'' then WRONG ''EMPTY STATUS BODY expects a quoted string, not BODY SCHEMA''
              else if \<not> quote_ahead after then WRONG ''EMPTY STATUS BODY expects a quoted string''
              else case quoted_string U after of
                None \<Rightarrow> WRONG ''Unterminated EMPTY STATUS BODY string''
              | Some (body, rest') \<Rightarrow> TAKEN (route\<lparr>rt_empty_body := body\<rparr>) rest')"

definition empty_clause :: "string_util \<Rightarrow> (string \<Rightarrow> int) \<Rightarrow> 'v QuackapiRoute \<Rightarrow> string \<Rightarrow> 'v QuackapiRoute clause" where
  "empty_clause U atoi route rest =
     (if \<not> at_keyword U ''EMPTY'' rest then ABSENT
      else let after = after_keyword U ''EMPTY'' rest
           in if \<not> at_keyword U ''STATUS'' after then WRONG (''Expected EMPTY STATUS <n> [BODY '' @ squoted ''<json>'' @ '']'')
              else case next_token U (after_keyword U ''STATUS'' after) of (tok, rest') \<Rightarrow>
                if tok = [] then WRONG ''EMPTY STATUS expects a valid HTTP status code''
                else if atoi tok < 100 \<or> atoi tok > 599 then WRONG ''EMPTY STATUS must be a valid HTTP status code''
                else empty_body_clause U (route\<lparr>rt_empty_status := atoi tok\<rparr>) rest')"

text \<open>The duration of a \<open>TIMEOUT\<close> keeps its quotes, up to the next quote.\<close>

definition timeout_token :: "string_util \<Rightarrow> string \<Rightarrow> (string \<times> string) option" where
  "timeout_token U rest =
     (if quote_ahead rest then
        (if squote \<notin> set (tl rest) then None
         else let inner = takeWhile (\<lambda>c. c \<noteq> squote) (tl rest)
              in Some ([squote] @ inner @ [squote], QuackapiTrim U (drop (length inner + 2) rest)))
      else Some (next_token U rest))"

definition timeout_clause :: "string_util \<Rightarrow> 'v QuackapiRoute \<Rightarrow> string \<Rightarrow> 'v QuackapiRoute clause" where
  "timeout_clause U route rest =
     (if \<not> at_keyword U ''TIMEOUT'' rest then ABSENT
      else let after = after_keyword U ''TIMEOUT'' rest
           in if after = [] then WRONG (''TIMEOUT expects a duration (e.g. 180, '' @ squoted ''3m'' @ '', '' @ squoted ''30s'' @ '')'')
              else case timeout_token U after of
                None \<Rightarrow> WRONG ''Unterminated TIMEOUT string''
              | Some (tok, rest') \<Rightarrow> (case ParseRouteTimeoutSec U tok of
                  Inl err \<Rightarrow> WRONG (''TIMEOUT: '' @ err)
                | Inr sec \<Rightarrow> if rt_timeout_sec route > 0 then WRONG ''TIMEOUT specified more than once''
                    else TAKEN (route\<lparr>rt_timeout_sec := sec\<rparr>) rest'))"

definition group_name_clause :: "string_util \<Rightarrow> string \<Rightarrow> 'v QuackapiRoute \<Rightarrow> string \<Rightarrow> 'v QuackapiRoute clause" where
  "group_name_clause U clause_name route rest =
     (case next_token U (after_keyword U ''GROUP'' rest) of (tok, rest') \<Rightarrow>
        if tok = [] then WRONG (clause_name @ '' expects a group name'')
        else if rt_group_name route \<noteq> [] then WRONG ''GROUP specified more than once''
        else TAKEN (route\<lparr>rt_group_name := tok\<rparr>) rest')"

definition group_clause :: "string_util \<Rightarrow> 'v QuackapiRoute \<Rightarrow> string \<Rightarrow> 'v QuackapiRoute clause" where
  "group_clause U route rest =
     (if at_word U ''IN'' rest \<and> at_keyword U ''GROUP'' (after_keyword U ''IN'' rest) then
        group_name_clause U ''IN GROUP'' route (after_keyword U ''IN'' rest)
      else if at_keyword U ''GROUP'' rest then group_name_clause U ''GROUP'' route rest
      else ABSENT)"

text \<open>The clauses are tried in this order.\<close>

fun first_clause :: "('a \<Rightarrow> string \<Rightarrow> 'a clause) list \<Rightarrow> 'a \<Rightarrow> string \<Rightarrow> 'a clause" where
  "first_clause [] a rest = ABSENT"
| "first_clause (p # ps) a rest = (case p a rest of ABSENT \<Rightarrow> first_clause ps a rest | found \<Rightarrow> found)"

definition on_route :: "('v QuackapiRoute \<Rightarrow> string \<Rightarrow> 'v QuackapiRoute clause) \<Rightarrow> 'v clauses \<Rightarrow> string \<Rightarrow> 'v clauses clause" where
  "on_route p c rest = (case p (cl_route c) rest of
     ABSENT \<Rightarrow> ABSENT | WRONG err \<Rightarrow> WRONG err | THROWS e \<Rightarrow> THROWS e | TAKEN route rest' \<Rightarrow> TAKEN (c\<lparr>cl_route := route\<rparr>) rest')"

definition route_clause :: "string_util \<Rightarrow> (string \<Rightarrow> int) \<Rightarrow> 'v clauses \<Rightarrow> string \<Rightarrow> 'v clauses clause" where
  "route_clause U atoi = first_clause [schedule_clause U, on_route (status_clause U atoi), on_route (rate_clause U atoi),
     on_route (require_clause U), on_route (format_clause U), on_route (envelope_clause U), on_route (empty_clause U atoi),
     on_route (timeout_clause U), on_route (group_clause U)]"

text \<open>At most eighteen clauses are read; one more is left to the rest of the grammar.\<close>

fun clause_rounds :: "nat \<Rightarrow> ('a \<Rightarrow> string \<Rightarrow> 'a clause) \<Rightarrow> 'a \<Rightarrow> string \<Rightarrow> 'a clause" where
  "clause_rounds 0 p a rest = TAKEN a rest"
| "clause_rounds (Suc n) p a rest = (case p a rest of ABSENT \<Rightarrow> TAKEN a rest | TAKEN a' rest' \<Rightarrow> clause_rounds n p a' rest' | e \<Rightarrow> e)"


text \<open>\<open>BODY SCHEMA\<close> and \<open>BODY TYPE\<close>.\<close>

definition body_clause :: "string_util \<Rightarrow> 'v QuackapiRoute \<Rightarrow> string \<Rightarrow> 'v QuackapiRoute clause" where
  "body_clause U route rest =
     (if \<not> at_word U ''BODY'' rest then ABSENT
      else let after = after_keyword U ''BODY'' rest;
               is_schema = su_starts_with U (su_upper U after) ''SCHEMA''; is_type = su_starts_with U (su_upper U after) ''TYPE'';
               n = (if is_schema then 6 else 4); clause_name = (if is_schema then ''BODY SCHEMA'' else ''BODY TYPE'');
               no_string = WRONG (clause_name @ '' expects a quoted JSON string'')
           in if \<not> is_schema \<and> \<not> is_type then
                WRONG (''Expected BODY SCHEMA '' @ squoted ''<json-schema>'' @ '' or BODY TYPE '' @ squoted ''<duckdb-json-structure>'')
              else if length after = n then no_string
              else if \<not> su_space U (after ! n) \<and> after ! n \<noteq> squote then WRONG (''Expected '' @ clause_name @ '' '' @ squoted ''<json>'')
              else let text_at = (if su_space U (after ! n) then QuackapiTrim U (drop n after) else drop n after)
                   in if \<not> quote_ahead text_at then no_string
                      else case quoted_string U text_at of
                        None \<Rightarrow> WRONG (''Unterminated '' @ clause_name @ '' string'')
                      | Some (v, rest') \<Rightarrow>
                          TAKEN (if is_schema then route\<lparr>rt_body_schema := v\<rparr> else route\<lparr>rt_body_type := v\<rparr>) rest')"

section \<open>Declared parameters\<close>

text \<open>
  DuckDB on literals: the starts of the tokens of a text; an expression that is a constant, with the
  literal's text and value (\<open>None\<close> for another expression, \<open>Inl\<close> when it does not parse); a single
  numeric literal; whether a value has an integer type; the cast to an unsigned integer; values of
  strings, and NULL.
\<close>

record 'v literals =
  li_tokens :: "string \<Rightarrow> nat list"
  li_constant :: "string \<Rightarrow> (string \<times> 'v) option result"
  li_numeric :: "string \<Rightarrow> 'v option"
  li_integral :: "'v \<Rightarrow> bool"
  li_ubigint :: "'v \<Rightarrow> nat option"
  li_string :: "string \<Rightarrow> 'v"
  li_null :: 'v

definition ParseNumericParamBound :: "'v literals \<Rightarrow> string \<Rightarrow> 'v result" where
  "ParseNumericParamBound L t = (case li_numeric L t of Some v \<Rightarrow> Inr v
   | None \<Rightarrow> Inl (InvalidInput ''PARAM numeric bounds must be numeric literals'' []))"

definition ParseLengthParamBound :: "'v literals \<Rightarrow> string \<Rightarrow> nat result" where
  "ParseLengthParamBound L t = (case ParseNumericParamBound L t of
     Inl e \<Rightarrow> Inl e
   | Inr v \<Rightarrow> (case (if li_integral L v then li_ubigint L v else None) of Some n \<Rightarrow> Inr n
       | None \<Rightarrow> Inl (InvalidInput ''PARAM MIN_LENGTH/MAX_LENGTH must be non-negative integers'' [])))"

definition new_spec :: "'v literals \<Rightarrow> string \<Rightarrow> 'v QuackapiParamSpec" where
  "new_spec L name = \<lparr>ps_name = name, ps_type_name = [], ps_source = QUERY, ps_external_name = [], ps_has_default = False,
     ps_default_is_null = False, ps_default_raw = [], ps_default_variant = li_null L, ps_ge = None, ps_gt = None, ps_le = None,
     ps_lt = None, ps_min_length = None, ps_max_length = None\<rparr>"

definition canonical_type :: "string \<Rightarrow> string" where
  "canonical_type t = (if t = ''INT'' then ''INTEGER'' else if t = ''BOOL'' then ''BOOLEAN''
     else if t = ''TEXT'' \<or> t = ''STRING'' then ''VARCHAR'' else if t = ''REAL'' then ''FLOAT'' else t)"

definition param_type_clause :: "string_util \<Rightarrow> 'v QuackapiParamSpec \<Rightarrow> string \<Rightarrow> 'v QuackapiParamSpec \<times> string" where
  "param_type_clause U spec rest = (case next_token U rest of (tok, rest') \<Rightarrow>
     if rest \<noteq> [] \<and> IsParamTypeName U tok then (spec\<lparr>ps_type_name := canonical_type (su_upper U tok)\<rparr>, rest') else (spec, rest))"

definition option_words :: "string list" where
  "option_words = [''DEFAULT'', ''GE'', ''GT'', ''LE'', ''LT'', ''MIN_LENGTH'', ''MAX_LENGTH'', ''PARAM'', ''BODY'', ''AS'', ''HEADER'',
     ''COOKIE'', ''QUERY'', ''SCHEDULE'']"

text \<open>The name on the wire after the source, quoted or bare.\<close>

definition wire_name :: "string_util \<Rightarrow> 'v QuackapiParamSpec \<Rightarrow> string \<Rightarrow> 'v QuackapiParamSpec \<times> string" where
  "wire_name U spec rest =
     (if rest = [] then (spec, rest)
      else if hd rest = squote then
        (if squote \<notin> set (tl rest) then (spec, rest)
         else let inner = takeWhile (\<lambda>c. c \<noteq> squote) (tl rest)
              in (spec\<lparr>ps_external_name := inner\<rparr>, QuackapiTrim U (drop (length inner + 2) rest)))
      else case next_token U rest of (tok, rest') \<Rightarrow>
        if su_upper U tok \<notin> set option_words \<and> \<not> IsParamTypeName U tok then (spec\<lparr>ps_external_name := tok\<rparr>, rest') else (spec, rest))"

definition param_source :: "string_util \<Rightarrow> 'v QuackapiParamSpec \<Rightarrow> string \<Rightarrow> ('v QuackapiParamSpec \<times> string) option" where
  "param_source U spec rest = (case next_token U rest of (tok, rest') \<Rightarrow>
     let key = su_upper U tok
     in if rest = [] then None
        else if key = ''HEADER'' then Some (wire_name U (spec\<lparr>ps_source := HEADER\<rparr>) rest')
        else if key = ''COOKIE'' then Some (wire_name U (spec\<lparr>ps_source := COOKIE\<rparr>) rest')
        else if key = ''QUERY'' then Some (wire_name U (spec\<lparr>ps_source := QUERY\<rparr>) rest')
        else None)"

definition param_default :: "'v literals \<Rightarrow> string_util \<Rightarrow> 'v QuackapiParamSpec \<Rightarrow> string \<Rightarrow> 'v QuackapiParamSpec clause" where
  "param_default L U spec after =
     (if after = [] then WRONG ''PARAM DEFAULT expects a literal or NULL''
      else if hd after = squote then
        (let starts = li_tokens L after; e = (if length starts > 1 then starts ! 1 else length after)
         in case li_constant L (take e after) of
              Inl ex \<Rightarrow> THROWS ex
            | Inr None \<Rightarrow> THROWS (Internal ''Failed to cast expression to type - expression type mismatch'')
            | Inr (Some (raw, v)) \<Rightarrow>
                TAKEN (spec\<lparr>ps_has_default := True, ps_default_raw := raw, ps_default_variant := v, ps_default_is_null := False\<rparr>)
                  (QuackapiTrim U (drop e after)))
      else case next_token U after of (lit, rest') \<Rightarrow>
        if su_upper U lit = ''NULL'' then TAKEN (spec\<lparr>ps_has_default := True, ps_default_is_null := True, ps_default_raw := []\<rparr>) rest'
        else (case li_constant L lit of
            Inl ex \<Rightarrow> THROWS ex
          | Inr c \<Rightarrow> TAKEN (spec\<lparr>ps_has_default := True, ps_default_is_null := False, ps_default_raw := lit,
              ps_default_variant := (case c of Some (_, v) \<Rightarrow> v | None \<Rightarrow> li_string L lit)\<rparr>) rest'))"

definition set_bound :: "'v literals \<Rightarrow> string \<Rightarrow> string \<Rightarrow> 'v QuackapiParamSpec \<Rightarrow> 'v QuackapiParamSpec result" where
  "set_bound L key num spec =
     (if key = ''GE'' then map_sum id (\<lambda>v. spec\<lparr>ps_ge := Some v\<rparr>) (ParseNumericParamBound L num)
      else if key = ''GT'' then map_sum id (\<lambda>v. spec\<lparr>ps_gt := Some v\<rparr>) (ParseNumericParamBound L num)
      else if key = ''LE'' then map_sum id (\<lambda>v. spec\<lparr>ps_le := Some v\<rparr>) (ParseNumericParamBound L num)
      else if key = ''LT'' then map_sum id (\<lambda>v. spec\<lparr>ps_lt := Some v\<rparr>) (ParseNumericParamBound L num)
      else if key = ''MIN_LENGTH'' then map_sum id (\<lambda>n. spec\<lparr>ps_min_length := Some n\<rparr>) (ParseLengthParamBound L num)
      else map_sum id (\<lambda>n. spec\<lparr>ps_max_length := Some n\<rparr>) (ParseLengthParamBound L num))"

text \<open>A sign that stands alone belongs to the number after it.\<close>

definition param_bound :: "'v literals \<Rightarrow> string_util \<Rightarrow> string \<Rightarrow> 'v QuackapiParamSpec \<Rightarrow> string \<Rightarrow> 'v QuackapiParamSpec clause" where
  "param_bound L U key spec after =
     (let tok = takeWhile (\<lambda>c. \<not> su_space U c) after; starts = li_tokens L after;
          e = (if tok = ''-'' \<or> tok = ''+'' then (if length starts > 2 then starts ! 2 else length after) else length tok)
      in if after = [] then WRONG (''PARAM '' @ key @ '' expects a number'')
         else case set_bound L key (take e after) spec of
           Inl ex \<Rightarrow> THROWS ex
         | Inr spec' \<Rightarrow> TAKEN spec' (QuackapiTrim U (drop e after)))"

definition bound_words :: "string list" where
  "bound_words = [''GE'', ''GT'', ''LE'', ''LT'', ''MIN_LENGTH'', ''MAX_LENGTH'']"

definition ends_param :: "string_util \<Rightarrow> string \<Rightarrow> bool" where
  "ends_param U rest = (at_keyword U ''PARAM'' rest \<or> at_word U ''BODY'' rest \<or> at_word U ''AS'' rest \<or>
     starts_with_keyword U ''WITH'' rest \<or> at_keyword U ''TIMEOUT'' rest \<or> at_keyword U ''SCHEDULE'' rest)"

text \<open>One option of a parameter; \<open>ABSENT\<close> when the text after the parameter is reached.\<close>

definition param_option :: "'v literals \<Rightarrow> string_util \<Rightarrow> 'v QuackapiParamSpec \<Rightarrow> string \<Rightarrow> 'v QuackapiParamSpec clause" where
  "param_option L U spec rest =
     (if rest = [] \<or> ends_param U rest then ABSENT
      else case param_source U spec rest of
        Some (spec', rest') \<Rightarrow> TAKEN spec' rest'
      | None \<Rightarrow> (case next_token U rest of (tok, after) \<Rightarrow>
          let key = su_upper U tok
          in if key = ''DEFAULT'' then param_default L U spec after
             else if key \<in> set bound_words then param_bound L U key spec after
             else WRONG (''Unknown PARAM option '' @ dquoted key @ '' '' @ em_dash @
               '' expected HEADER, COOKIE, DEFAULT, GE, GT, LE, LT, MIN_LENGTH, MAX_LENGTH'')))"

partial_function (option) param_options :: "'v literals \<Rightarrow> string_util \<Rightarrow> 'v QuackapiParamSpec \<Rightarrow> string \<Rightarrow> 'v QuackapiParamSpec clause option" where
  "param_options L U spec rest = (case param_option L U spec rest of
     ABSENT \<Rightarrow> Some (TAKEN spec rest)
   | TAKEN spec' rest' \<Rightarrow> param_options L U spec' rest'
   | WRONG err \<Rightarrow> Some (WRONG err)
   | THROWS e \<Rightarrow> Some (THROWS e))"

definition param_head :: "'v literals \<Rightarrow> string_util \<Rightarrow> string \<Rightarrow> 'v QuackapiParamSpec clause" where
  "param_head L U rest =
     (if rest = [] then WRONG ''PARAM expects a parameter name''
      else case next_token U rest of (name, rest1) \<Rightarrow>
        (case param_type_clause U (new_spec L name) rest1 of (spec, rest2) \<Rightarrow>
          (case param_source U spec rest2 of Some (spec', rest3) \<Rightarrow> TAKEN spec' rest3 | None \<Rightarrow> TAKEN spec rest2)))"

partial_function (option) param_clauses :: "'v literals \<Rightarrow> string_util \<Rightarrow> 'v QuackapiParamSpec list \<Rightarrow> string \<Rightarrow> 'v QuackapiParamSpec list clause option" where
  "param_clauses L U specs rest =
     (if \<not> at_keyword U ''PARAM'' rest then Some (TAKEN specs rest)
      else (case param_head L U (after_keyword U ''PARAM'' rest) of
        TAKEN spec rest1 \<Rightarrow> Option.bind (param_options L U spec rest1) (\<lambda>r. case r of
            TAKEN spec' rest' \<Rightarrow> param_clauses L U (specs @ [spec']) rest'
          | WRONG err \<Rightarrow> Some (WRONG err)
          | THROWS e \<Rightarrow> Some (THROWS e)
          | ABSENT \<Rightarrow> Some ABSENT)
      | WRONG err \<Rightarrow> Some (WRONG err)
      | THROWS e \<Rightarrow> Some (THROWS e)
      | ABSENT \<Rightarrow> Some ABSENT))"


section \<open>CREATE ROUTE\<close>

text \<open>The text before and after the first occurrence of a separator.\<close>

fun around :: "string \<Rightarrow> string \<Rightarrow> (string \<times> string) option" where
  "around sep [] = None"
| "around sep (c # s) = (if take (length sep) (c # s) = sep then Some ([], drop (length sep) (c # s))
     else map_option (\<lambda>(a, b). (c # a, b)) (around sep s))"

definition with_part :: "string_util \<Rightarrow> string \<Rightarrow> 'v QuackapiRoute \<Rightarrow> string + 'v QuackapiRoute" where
  "with_part U part route =
     (case (case around '':='' part of None \<Rightarrow> around ''='' part | found \<Rightarrow> found) of
        None \<Rightarrow> Inl (''WITH option must be timeout_sec or max_request_bytes '' @ em_dash @ '' got '' @ dquoted part)
      | Some (k, v) \<Rightarrow>
          let key = su_lower U (QuackapiTrim U k); val = QuackapiTrim U v
          in if key = ''timeout_sec'' \<or> key = ''timeout'' then
               (case ParseRouteTimeoutSec U val of
                  Inl err \<Rightarrow> Inl (''timeout_sec: '' @ err)
                | Inr sec \<Rightarrow> if rt_timeout_sec route > 0 then Inl ''TIMEOUT / timeout_sec specified more than once''
                    else Inr (route\<lparr>rt_timeout_sec := sec\<rparr>))
             else if key = ''max_request_bytes'' then
               (case ParseRouteRequestBytes val of
                  Inl err \<Rightarrow> Inl (''max_request_bytes: '' @ err)
                | Inr bytes \<Rightarrow> if rt_max_request_bytes route > 0 then Inl ''max_request_bytes specified more than once''
                    else Inr (route\<lparr>rt_max_request_bytes := bytes\<rparr>))
             else Inl (''Unknown WITH option '' @ dquoted key @ '' '' @ em_dash @ '' expected timeout_sec or max_request_bytes''))"

fun with_parts :: "string_util \<Rightarrow> string list \<Rightarrow> 'v QuackapiRoute \<Rightarrow> string + 'v QuackapiRoute" where
  "with_parts U [] route = Inr route"
| "with_parts U (part # parts) route =
     (if QuackapiTrim U part = [] then with_parts U parts route
      else case with_part U (QuackapiTrim U part) route of Inl err \<Rightarrow> Inl err | Inr route' \<Rightarrow> with_parts U parts route')"

definition with_clause :: "string_util \<Rightarrow> 'v QuackapiRoute \<Rightarrow> string \<Rightarrow> 'v QuackapiRoute clause" where
  "with_clause U route rest =
     (if \<not> starts_with_keyword U ''WITH'' rest then ABSENT
      else let after = after_keyword U ''WITH'' rest
           in if after = [] \<or> hd after \<noteq> CHR ''('' then WRONG ''Expected WITH (timeout_sec := <n>)''
              else if CHR '')'' \<notin> set after then WRONG ''Unterminated WITH (...) options''
              else let inner = QuackapiTrim U (tl (takeWhile (\<lambda>c. c \<noteq> CHR '')'') after));
                       rest' = QuackapiTrim U (tl (dropWhile (\<lambda>c. c \<noteq> CHR '')'') after))
                   in if inner = [] then WRONG (''WITH (...) is empty '' @ em_dash @ '' expected timeout_sec or max_request_bytes'')
                      else case with_parts U (segments (CHR '','') [] inner) route of
                        Inl err \<Rightarrow> WRONG err | Inr route' \<Rightarrow> TAKEN route' rest')"

text \<open>An optional clause, and one clause after another.\<close>

definition optional :: "('a \<Rightarrow> string \<Rightarrow> 'a clause) \<Rightarrow> 'a \<Rightarrow> string \<Rightarrow> 'a clause" where
  "optional p a rest = (case p a rest of ABSENT \<Rightarrow> TAKEN a rest | found \<Rightarrow> found)"

definition then_read :: "'a clause \<Rightarrow> ('a \<Rightarrow> string \<Rightarrow> 'b clause) \<Rightarrow> 'b clause" where
  "then_read r f = (case r of TAKEN a rest \<Rightarrow> f a rest | WRONG err \<Rightarrow> WRONG err | THROWS e \<Rightarrow> THROWS e | ABSENT \<Rightarrow> ABSENT)"

definition new_route :: "string \<Rightarrow> string \<Rightarrow> string \<Rightarrow> 'v QuackapiRoute" where
  "new_route name m pat = \<lparr>rt_name = name, rt_method = m, rt_pattern = pat, rt_handler_sql = [], rt_status = 200, rt_require_auth = [],
     rt_params = [], rt_body_schema = [], rt_body_type = [], rt_group_name = [], rt_tags = [], rt_max_request_bytes = 0,
     rt_rate_limit_n = 0, rt_rate_limit_per_sec = 0, rt_rate_limit_by = [], rt_response_format = ''json'', rt_response_envelope = ''array'',
     rt_empty_status = 0, rt_empty_body = [], rt_timeout_sec = 0, rt_schedule = []\<rparr>"

definition route_head :: "string_util \<Rightarrow> string \<Rightarrow> 'v QuackapiRoute clause" where
  "route_head U rest =
     (case around '' '' rest of
        None \<Rightarrow> WRONG (''CREATE ROUTE <name> <METHOD> '' @ squoted ''<pattern>'' @ '' AS <select>'')
      | Some (name, r1) \<Rightarrow> (case around '' '' (QuackapiTrim U r1) of
          None \<Rightarrow> WRONG (''Expected <METHOD> '' @ squoted ''<pattern>'' @ '' after route name'')
        | Some (m, r2) \<Rightarrow>
            let r3 = QuackapiTrim U r2
            in if \<not> IsHttpMethod (su_upper U m) then
                 WRONG (''Unknown HTTP method '' @ dquoted (su_upper U m) @ '' '' @ em_dash @ '' expected GET, POST, PUT, DELETE, PATCH or HEAD'')
               else if \<not> quote_ahead r3 then WRONG (''Expected quoted '' @ squoted ''<pattern>'' @ '' after method'')
               else if squote \<notin> set (tl r3) then WRONG ''Unterminated route pattern''
               else let pat = takeWhile (\<lambda>c. c \<noteq> squote) (tl r3)
                    in if pat = [] then WRONG ''Route pattern must not be empty''
                       else TAKEN (new_route name (su_upper U m) pat) (QuackapiTrim U (drop (length pat + 2) r3))))"

definition after_clauses :: "'v clauses \<Rightarrow> string \<Rightarrow> 'v clauses clause" where
  "after_clauses c rest =
     (let route = cl_route c
      in if rt_response_envelope route = ''object'' \<and> rt_response_format route \<noteq> ''json'' then
           WRONG ''ENVELOPE object requires FORMAT json (default)''
         else if rt_group_name route = [] \<and> hd (rt_pattern route) \<noteq> CHR ''/'' then
           WRONG (''Route pattern must start with '' @ squoted ''/'')
         else TAKEN c rest)"

definition second_body_clause :: "string_util \<Rightarrow> 'v QuackapiRoute \<Rightarrow> string \<Rightarrow> 'v QuackapiRoute clause" where
  "second_body_clause U route rest =
     (if rt_body_schema route = [] \<or> rt_body_type route = [] then body_clause U route rest else ABSENT)"

definition handler_clause :: "string_util \<Rightarrow> 'v clauses \<Rightarrow> string \<Rightarrow> 'v QuackapiRoute clause" where
  "handler_clause U c rest =
     (if \<not> at_word U ''AS'' rest then WRONG ''Expected AS <select> in CREATE ROUTE''
      else let handler = after_keyword U ''AS'' rest; route = cl_route c
           in if handler = [] then WRONG ''Empty handler after AS''
              else TAKEN (route\<lparr>rt_handler_sql := handler, rt_rate_limit_by :=
                (if rt_rate_limit_by route = [] \<and> rt_rate_limit_n route > 0 then ''ip'' else rt_rate_limit_by route)\<rparr>) [])"

text \<open>The clauses before the parameters, and those after them.\<close>

definition front_clauses :: "string_util \<Rightarrow> (string \<Rightarrow> int) \<Rightarrow> string \<Rightarrow> 'v clauses clause" where
  "front_clauses U atoi rest =
     then_read (then_read (then_read (route_head U rest)
       (\<lambda>route. clause_rounds 18 (route_clause U atoi) \<lparr>cl_route = route, cl_schedule_seen = False\<rparr>)) after_clauses)
       (optional (on_route (body_clause U)))"

definition back_clauses :: "string_util \<Rightarrow> 'v clauses \<Rightarrow> string \<Rightarrow> 'v QuackapiRoute clause" where
  "back_clauses U c rest =
     then_read (then_read (then_read (then_read (optional (on_route (second_body_clause U)) c rest)
       (optional (schedule_clause U))) (optional (on_route (timeout_clause U)))) (optional (on_route (with_clause U)))) (handler_clause U)"

definition route_grammar :: "'v literals \<Rightarrow> string_util \<Rightarrow> (string \<Rightarrow> int) \<Rightarrow> string \<Rightarrow> 'v QuackapiRoute clause option" where
  "route_grammar L U atoi rest = (case front_clauses U atoi rest of
     TAKEN c rest1 \<Rightarrow> map_option (\<lambda>r. then_read r (\<lambda>specs. back_clauses U (c\<lparr>cl_route := (cl_route c)\<lparr>rt_params := specs\<rparr>\<rparr>)))
       (param_clauses L U [] rest1)
   | WRONG err \<Rightarrow> Some (WRONG err)
   | THROWS e \<Rightarrow> Some (THROWS e)
   | ABSENT \<Rightarrow> Some ABSENT)"

record 'v RouteDdlParseData =
  rd_action :: string
  rd_or_replace :: bool
  rd_route :: "'v QuackapiRoute"

definition drop_statement :: "string_util \<Rightarrow> string \<Rightarrow> string \<Rightarrow> (string \<Rightarrow> 'd) \<Rightarrow> 'd parse_outcome" where
  "drop_statement U rest message d =
     (let name = QuackapiTrim U rest
      in if name = [] \<or> CHR '' '' \<in> set name then DISPLAY_EXTENSION_ERROR message else PARSE_SUCCESSFUL (d name))"

text \<open>
  The parser of routes: \<open>None\<close> would be a parser that does not return, \<open>Inl\<close> is an exception of
  DuckDB's parser of literals.
\<close>

definition parsed_route :: "bool \<Rightarrow> 'v QuackapiRoute clause \<Rightarrow> 'v RouteDdlParseData parse_outcome result" where
  "parsed_route or_replace r = (case r of
     TAKEN route _ \<Rightarrow> Inr (PARSE_SUCCESSFUL \<lparr>rd_action = ''CREATE'', rd_or_replace = or_replace, rd_route = route\<rparr>)
   | WRONG err \<Rightarrow> Inr (DISPLAY_EXTENSION_ERROR err)
   | THROWS e \<Rightarrow> Inl e
   | ABSENT \<Rightarrow> Inr DISPLAY_ORIGINAL_ERROR)"

definition RouteDdlParse :: "'v literals \<Rightarrow> string_util \<Rightarrow> (string \<Rightarrow> int) \<Rightarrow> string \<Rightarrow> 'v RouteDdlParseData parse_outcome result option" where
  "RouteDdlParse L U atoi query =
     (let q = QuackapiTrim U query; upper = su_upper U q
      in if su_starts_with U upper ''CREATE ROUTE '' then
           map_option (parsed_route False) (route_grammar L U atoi (QuackapiTrim U (drop 13 q)))
         else if su_starts_with U upper ''CREATE OR REPLACE ROUTE '' then
           map_option (parsed_route True) (route_grammar L U atoi (QuackapiTrim U (drop 24 q)))
         else if su_starts_with U upper ''DROP ROUTE '' then
           Some (Inr (drop_statement U (drop 11 q) ''DROP ROUTE expects a single route name''
             (\<lambda>name. \<lparr>rd_action = ''DROP'', rd_or_replace = False, rd_route = new_route name [] []\<rparr>)))
         else Some (Inr DISPLAY_ORIGINAL_ERROR))"

section \<open>From the plan to the execution\<close>

text \<open>
  The parameters of a route travel as a list of structs with nullable fields. The conversion of a
  value to DuckDB's VARIANT and back is a parameter.
\<close>

record 'v param_fields =
  pf_name :: string
  pf_type_name :: string
  pf_has_default :: bool
  pf_default_raw :: "string option"
  pf_ge :: "'v option"
  pf_gt :: "'v option"
  pf_le :: "'v option"
  pf_lt :: "'v option"
  pf_min_length :: "nat option"
  pf_max_length :: "nat option"
  pf_source :: nat
  pf_external_name :: string
  pf_default_variant :: "'v option"

record 'v variants =
  va_to :: "'v \<Rightarrow> 'v"
  va_from :: "'v \<Rightarrow> 'v"
  va_null :: 'v

fun source_code :: "QuackapiParamSource \<Rightarrow> nat" where
  "source_code QUERY = 0" | "source_code HEADER = 1" | "source_code COOKIE = 2"

definition ParamSpecsValue :: "'v variants \<Rightarrow> 'v QuackapiParamSpec list \<Rightarrow> 'v param_fields list" where
  "ParamSpecsValue V specs = map (\<lambda>s.
     \<lparr>pf_name = ps_name s, pf_type_name = ps_type_name s, pf_has_default = ps_has_default s,
      pf_default_raw = (if ps_default_is_null s then None else Some (ps_default_raw s)), pf_ge = map_option (va_to V) (ps_ge s),
      pf_gt = map_option (va_to V) (ps_gt s), pf_le = map_option (va_to V) (ps_le s), pf_lt = map_option (va_to V) (ps_lt s),
      pf_min_length = ps_min_length s, pf_max_length = ps_max_length s, pf_source = source_code (ps_source s),
      pf_external_name = ps_external_name s,
      pf_default_variant = (if ps_has_default s \<and> \<not> ps_default_is_null s then Some (va_to V (ps_default_variant s)) else None)\<rparr>) specs"

definition ParamSpecsFromValue :: "'v variants \<Rightarrow> 'v param_fields list \<Rightarrow> 'v QuackapiParamSpec list" where
  "ParamSpecsFromValue V entries = map (\<lambda>f.
     \<lparr>ps_name = pf_name f, ps_type_name = pf_type_name f,
      ps_source = (if pf_source f = 0 then QUERY else if pf_source f = 1 then HEADER else COOKIE), ps_external_name = pf_external_name f,
      ps_has_default = pf_has_default f, ps_default_is_null = (pf_default_raw f = None),
      ps_default_raw = (case pf_default_raw f of None \<Rightarrow> [] | Some r \<Rightarrow> r),
      ps_default_variant = (case pf_default_variant f of None \<Rightarrow> va_null V | Some v \<Rightarrow> va_from V v), ps_ge = map_option (va_from V) (pf_ge f),
      ps_gt = map_option (va_from V) (pf_gt f), ps_le = map_option (va_from V) (pf_le f), ps_lt = map_option (va_from V) (pf_lt f),
      ps_min_length = pf_min_length f, ps_max_length = pf_max_length f\<rparr>) entries"

text \<open>The route the execution sees: the planner hands over every field but the tags.\<close>

definition planned_route :: "string_util \<Rightarrow> 'v variants \<Rightarrow> 'v QuackapiRoute \<Rightarrow> 'v QuackapiRoute" where
  "planned_route U V route = route\<lparr>rt_tags := [],
     rt_params := ParamSpecsFromValue V (ParamSpecsValue V (rt_params route)),
     rt_response_format := (if rt_response_format route = [] then ''json'' else su_lower U (rt_response_format route)),
     rt_response_envelope := (if rt_response_envelope route = [] then ''array'' else su_lower U (rt_response_envelope route))\<rparr>"

text \<open>What the database answers to the checks of a new route: \<open>Some\<close> is an error.\<close>

record route_checks =
  rc_load_schema :: "string option"
  rc_install_schema :: "string option"
  rc_load_installed :: "string option"
  rc_load_json :: "string option"
  rc_is_json :: "string \<Rightarrow> string + bool"
  rc_prepare :: "string \<Rightarrow> string option"

definition check_schema :: "route_checks \<Rightarrow> 'v QuackapiRoute \<Rightarrow> exn option" where
  "check_schema C route =
     (if rt_body_schema route = [] then None
      else case rc_load_schema C of
        Some _ \<Rightarrow> (case rc_install_schema C of
            Some err \<Rightarrow> Some (InvalidInput ''BODY SCHEMA requires json_schema from a registered query_farm repository (https://duckdb-extensions.query.farm)'' [err])
          | None \<Rightarrow> (case rc_load_installed C of
              Some err \<Rightarrow> Some (InvalidInput ''BODY SCHEMA requires the json_schema extension'' [err])
            | None \<Rightarrow> None))
      | None \<Rightarrow> None)"

definition check_schema_json :: "route_checks \<Rightarrow> 'v QuackapiRoute \<Rightarrow> exn option" where
  "check_schema_json C route =
     (if rt_body_schema route = [] then None
      else case rc_load_json C of
        Some err \<Rightarrow> Some (InvalidInput ''BODY SCHEMA requires the json extension'' [err])
      | None \<Rightarrow> (case rc_is_json C (rt_body_schema route) of
          Inl err \<Rightarrow> Some (InvalidInput ''Invalid BODY SCHEMA JSON for route'' [rt_name route, err])
        | Inr ok \<Rightarrow> if ok then None else Some (InvalidInput ''Invalid BODY SCHEMA JSON for route'' [rt_name route])))"

definition bare_claims :: "string_util \<Rightarrow> string \<Rightarrow> bool" where
  "bare_claims U handler_sql =
     (let bare = QuackapiTrim U handler_sql
      in length bare > 8 \<and> hd bare = CHR ''$'' \<and> su_starts_with U (su_lower U (take 7 (tl bare))) ''claims_'' \<and>
         list_all (\<lambda>c. is_alpha c \<or> c = CHR ''_'' \<or> is_digit c) (tl bare))"

definition check_handler :: "string_util \<Rightarrow> route_checks \<Rightarrow> 'v QuackapiRoute \<Rightarrow> exn option" where
  "check_handler U C route =
     (if bare_claims U (rt_handler_sql route) then
        Some (InvalidInput ''Invalid handler SQL for route: $claims_* is server-bound, never request SQL'' [rt_name route])
      else if QuackapiExecRouteParam U (rt_handler_sql route) \<noteq> None then None
      else map_option (\<lambda>err. InvalidInput ''Invalid handler SQL for route'' [rt_name route, err]) (rc_prepare C (rt_handler_sql route)))"

definition first_error :: "exn option list \<Rightarrow> exn option" where
  "first_error checks = (case filter (\<lambda>c. c \<noteq> None) checks of [] \<Rightarrow> None | e # _ \<Rightarrow> e)"

text \<open>A route joins its group at creation: prefix, default scheme and tags.\<close>

definition expand_group :: "string_util \<Rightarrow> 'v QuackapiState \<Rightarrow> 'v QuackapiRoute \<Rightarrow> 'v QuackapiRoute result" where
  "expand_group U s route =
     (if rt_group_name route \<noteq> [] then
        (case GetGroup (rt_group_name route) s of
           None \<Rightarrow> Inl (InvalidInput ''Group does not exist'' [rt_group_name route])
         | Some g \<Rightarrow> (case JoinGroupPrefix U (gr_prefix g) (rt_pattern route) of
             Inl e \<Rightarrow> Inl e
           | Inr pat \<Rightarrow> Inr (route\<lparr>rt_pattern := pat,
               rt_require_auth := (if rt_require_auth route = [] then gr_require_auth g else rt_require_auth route),
               rt_tags := (if rt_tags route = [] then gr_tags g else rt_tags route)\<rparr>)))
      else if rt_pattern route = [] \<or> hd (rt_pattern route) \<noteq> CHR ''/'' then
        Inl (InvalidInput (''Route pattern must start with '' @ squoted ''/'') [])
      else Inr route)"

definition ApplyRouteExec :: "string_util \<Rightarrow> 'v variants \<Rightarrow> route_checks \<Rightarrow> 'v RouteDdlParseData \<Rightarrow> 'v QuackapiState \<Rightarrow> (string \<times> 'v QuackapiState) result" where
  "ApplyRouteExec U V C d s =
     (if rd_action d = ''CREATE'' then
        (case expand_group U s (planned_route U V (rd_route d)) of
           Inl e \<Rightarrow> Inl e
         | Inr route \<Rightarrow>
             if rt_schedule route \<noteq> [] \<and> HasRoutePathParams (rt_pattern route) then
               Inl (InvalidInput ''Scheduled route cannot have path parameters; use a parameter-free route'' [rt_name route])
             else (case first_error [check_schema C route, check_schema_json C route, check_handler U C route] of
                 Some e \<Rightarrow> Inl e
               | None \<Rightarrow> (case AddRoute U route (rd_or_replace d) s of
                   Inl e \<Rightarrow> Inl e
                 | Inr s' \<Rightarrow> Inr (''Route '' @ rt_name route @ '': '' @ rt_method route @ '' '' @ rt_pattern route, s'))))
      else (case DropRoute U (rt_name (rd_route d)) s of
          (True, s') \<Rightarrow> Inr (''Dropped route '' @ rt_name (rd_route d), s')
        | (False, _) \<Rightarrow> Inl (InvalidInput ''Route does not exist'' [rt_name (rd_route d)])))"


section \<open>Groups\<close>

lemma length_QuackapiTrim: "length (QuackapiTrim U s) \<le> length s"
  by (simp add: QuackapiTrim_def Let_def) (metis length_dropWhile_le le_trans length_rev)

record GroupDdlParseData =
  gd_action :: string
  gd_or_replace :: bool
  gd_group :: QuackapiGroup

definition new_group :: "string \<Rightarrow> QuackapiGroup" where
  "new_group name = \<lparr>gr_name = name, gr_prefix = [], gr_require_auth = [], gr_tags = [], gr_policy = []\<rparr>"

definition group_key_char :: "string_util \<Rightarrow> char \<Rightarrow> bool" where
  "group_key_char U c = (\<not> su_space U c \<and> c \<noteq> CHR ''='' \<and> c \<noteq> CHR '','')"

definition group_option :: "string \<Rightarrow> string \<Rightarrow> QuackapiGroup \<times> bool \<Rightarrow> string + (QuackapiGroup \<times> bool)" where
  "group_option key val acc = (case acc of (g, have_prefix) \<Rightarrow>
     if key = ''prefix'' then
       (if val = [] \<or> hd val \<noteq> CHR ''/'' then Inl (''GROUP prefix must start with '' @ squoted ''/'') else Inr (g\<lparr>gr_prefix := val\<rparr>, True))
     else if key = ''auth'' \<or> key = ''require'' \<or> key = ''require_auth'' then Inr (g\<lparr>gr_require_auth := val\<rparr>, have_prefix)
     else if key = ''tags'' then Inr (g\<lparr>gr_tags := val\<rparr>, have_prefix)
     else if key = ''policy'' then Inr (g\<lparr>gr_policy := val\<rparr>, have_prefix)
     else Inl (''Unknown GROUP option '' @ dquoted key @ '' '' @ em_dash @ '' expected prefix, auth, tags, policy''))"

function group_options :: "string_util \<Rightarrow> string \<Rightarrow> QuackapiGroup \<times> bool \<Rightarrow> string + (QuackapiGroup \<times> bool)" where
  "group_options U opts acc =
     (let s = dropWhile (\<lambda>c. su_space U c \<or> c = CHR '','') opts
      in if s = [] then Inr acc
         else let key = su_lower U (takeWhile (group_key_char U) s); t = dropWhile (su_space U) (dropWhile (group_key_char U) s)
              in if t = [] \<or> hd t \<noteq> CHR ''='' then Inl (''GROUP option '' @ dquoted key @ '' expects =value'')
                 else let u = dropWhile (su_space U) (tl t)
                      in if u = [] then Inl (''GROUP option '' @ dquoted key @ '' expects a value'')
                         else case option_value U u of
                           None \<Rightarrow> Inl (''Unterminated quoted value for '' @ key)
                         | Some (val, rest) \<Rightarrow> (case group_option key val acc of
                             Inl err \<Rightarrow> Inl err
                           | Inr acc' \<Rightarrow> group_options U rest acc'))"
  by pat_completeness auto
termination
proof (relation "measure (\<lambda>(U, opts, acc). length opts)", goal_cases)
  case (2 U opts acc s key t u p val rest acc')
  then show ?case using with_option_shorter [of s U opts t _ u val rest] by simp
qed simp

declare group_options.simps [simp del]

text \<open>The positional form after the prefix.\<close>

lemma quoted_string_shorter: "quoted_string U s = Some (v, r) \<Longrightarrow> length r < length s"
  by (cases s) (auto simp: quoted_string_def dest!: sql_quoted_shorter split: option.splits
    intro: le_less_trans [OF length_QuackapiTrim])

lemma next_token_shorter: "next_token U s = (tok, r) \<Longrightarrow> tok \<noteq> [] \<Longrightarrow> length r < length s"
  using length_QuackapiTrim [of U "drop (length tok) s"] by (cases s) (auto simp: next_token_def Let_def split: if_splits)

lemma after_keyword_shorter: "length (after_keyword U kw s) \<le> length s"
  using length_QuackapiTrim [of U "drop (length kw) s"] by (simp add: after_keyword_def)

function group_words :: "string_util \<Rightarrow> string \<Rightarrow> QuackapiGroup \<Rightarrow> string + QuackapiGroup" where
  "group_words U rest g =
     (if rest = [] then Inr g
      else if at_keyword U ''TAGS'' rest then
        (if \<not> quote_ahead (after_keyword U ''TAGS'' rest) then Inl ''TAGS expects a quoted string''
         else case quoted_string U (after_keyword U ''TAGS'' rest) of
           None \<Rightarrow> Inl ''Unterminated TAGS string''
         | Some (v, rest') \<Rightarrow> group_words U rest' (g\<lparr>gr_tags := v\<rparr>))
      else if at_keyword U ''REQUIRE'' rest then
        (case next_token U (after_keyword U ''REQUIRE'' rest) of (tok, rest') \<Rightarrow>
           if tok = [] then Inl ''REQUIRE expects an auth name'' else group_words U rest' (g\<lparr>gr_require_auth := tok\<rparr>))
      else Inl (''Unexpected token in CREATE GROUP '' @ em_dash @ '' expected TAGS or REQUIRE''))"
  by pat_completeness auto
termination
proof (relation "measure (\<lambda>(U, rest, g). length rest)", goal_cases)
  case (2 U rest g p v rest')
  then show ?case using quoted_string_shorter [of U "after_keyword U ''TAGS'' rest" v rest'] after_keyword_shorter [of U "''TAGS''" rest] by simp
next
  case (3 U rest g tok rest')
  then show ?case using next_token_shorter [of U "after_keyword U ''REQUIRE'' rest" tok rest'] after_keyword_shorter [of U "''REQUIRE''" rest] by simp
qed simp

declare group_words.simps [simp del]

definition prefixed :: "QuackapiGroup \<Rightarrow> bool" where
  "prefixed g = (gr_prefix g \<noteq> [] \<and> hd (gr_prefix g) = CHR ''/'')"

definition group_with :: "string_util \<Rightarrow> string \<Rightarrow> QuackapiGroup \<Rightarrow> string + QuackapiGroup" where
  "group_with U rest g =
     (if rest = [] \<or> hd rest \<noteq> CHR ''('' then Inl (''Expected WITH (prefix='' @ squoted ''...'' @ '', ...)'')
      else if CHR '')'' \<notin> set rest then Inl ''Unterminated WITH (...) options''
      else let after = rev (takeWhile (\<lambda>c. c \<noteq> CHR '')'') (rev rest));
               opts = QuackapiTrim U (tl (butlast (take (length rest - length after) rest)))
           in if QuackapiTrim U after \<noteq> [] then Inl ''Unexpected tokens after GROUP WITH (...)''
              else case group_options U opts (g, False) of
                Inl err \<Rightarrow> Inl err
              | Inr (g', have_prefix) \<Rightarrow>
                  if have_prefix then Inr g' else Inl (''CREATE GROUP requires prefix='' @ squoted ''/...''))"

definition group_positional :: "string_util \<Rightarrow> string \<Rightarrow> QuackapiGroup \<Rightarrow> string + QuackapiGroup" where
  "group_positional U rest g =
     (if \<not> quote_ahead rest then Inl ''PREFIX expects a quoted path''
      else case quoted_string U rest of
        None \<Rightarrow> Inl ''Unterminated PREFIX string''
      | Some (v, rest') \<Rightarrow>
          if \<not> prefixed (g\<lparr>gr_prefix := v\<rparr>) then Inl (''GROUP prefix must start with '' @ squoted ''/'')
          else group_words U rest' (g\<lparr>gr_prefix := v\<rparr>))"

definition GroupCreateParse :: "string_util \<Rightarrow> bool \<Rightarrow> string \<Rightarrow> GroupDdlParseData parse_outcome" where
  "GroupCreateParse U or_replace rest =
     (case next_token U rest of (name, rest') \<Rightarrow>
        let upper = su_upper U rest'
        in if CHR '' '' \<notin> set rest then
             DISPLAY_EXTENSION_ERROR (if rest = [] then ''CREATE GROUP <name> WITH (prefix='' @ squoted ''...'' @ '', ...)''
               else ''CREATE GROUP requires WITH (prefix='' @ squoted ''...'' @ '') or PREFIX '' @ squoted ''...'')
           else if name = [] then DISPLAY_EXTENSION_ERROR ''CREATE GROUP expects a group name''
           else case (if su_starts_with U upper ''WITH'' then group_with U (after_keyword U ''WITH'' rest') (new_group name)
                      else if su_starts_with U upper ''PREFIX'' then group_positional U (after_keyword U ''PREFIX'' rest') (new_group name)
                      else Inl (''CREATE GROUP requires WITH (prefix='' @ squoted ''...'' @ '') or PREFIX '' @ squoted ''...'')) of
             Inl err \<Rightarrow> DISPLAY_EXTENSION_ERROR err
           | Inr g \<Rightarrow> PARSE_SUCCESSFUL \<lparr>gd_action = ''CREATE'', gd_or_replace = or_replace, gd_group = g\<rparr>)"

definition GroupDdlParse :: "string_util \<Rightarrow> string \<Rightarrow> GroupDdlParseData parse_outcome" where
  "GroupDdlParse U query =
     (let q = QuackapiTrim U query; upper = su_upper U q;
          dropped = (\<lambda>name. \<lparr>gd_action = ''DROP'', gd_or_replace = False, gd_group = new_group name\<rparr>)
      in if su_starts_with U upper ''DROP API GROUP '' then drop_statement U (drop 15 q) ''DROP API GROUP expects a single group name'' dropped
         else if su_starts_with U upper ''DROP GROUP '' then drop_statement U (drop 11 q) ''DROP GROUP expects a single group name'' dropped
         else if su_starts_with U upper ''CREATE OR REPLACE API GROUP '' then GroupCreateParse U True (QuackapiTrim U (drop 28 q))
         else if su_starts_with U upper ''CREATE OR REPLACE GROUP '' then GroupCreateParse U True (QuackapiTrim U (drop 24 q))
         else if su_starts_with U upper ''CREATE API GROUP '' then GroupCreateParse U False (QuackapiTrim U (drop 17 q))
         else if su_starts_with U upper ''CREATE GROUP '' then GroupCreateParse U False (QuackapiTrim U (drop 13 q))
         else DISPLAY_ORIGINAL_ERROR)"

definition ApplyGroupExec :: "GroupDdlParseData \<Rightarrow> 'v QuackapiState \<Rightarrow> (string \<times> 'v QuackapiState) result" where
  "ApplyGroupExec d s =
     (let g = gd_group d
      in if gd_action d = ''CREATE'' then
           (if \<not> prefixed g then Inl (InvalidInput (''Group prefix must start with '' @ squoted ''/'') [])
            else case AddGroup g (gd_or_replace d) s of
              Inl e \<Rightarrow> Inl e
            | Inr s' \<Rightarrow> Inr (''Group '' @ gr_name g @ '': '' @ gr_prefix g, s'))
         else (case DropGroup (gr_name g) s of
             (True, s') \<Rightarrow> Inr (''Dropped group '' @ gr_name g, s')
           | (False, _) \<Rightarrow> Inl (InvalidInput ''Group does not exist'' [gr_name g])))"

text \<open>The listing of the groups with the routes that joined each.\<close>

definition group_members :: "'v QuackapiRoute list \<Rightarrow> QuackapiGroup \<Rightarrow> string" where
  "group_members rs g = join_with '','' (map rt_name (filter (\<lambda>r. rt_group_name r = gr_name g) rs))"

definition GroupsExec :: "'v QuackapiState \<Rightarrow> (string \<times> string \<times> string \<times> string \<times> string) list" where
  "GroupsExec s = map (\<lambda>g. (gr_name g, gr_prefix g, gr_require_auth g, gr_tags g, group_members (fst (SnapshotRoutes s)) g)) (SnapshotGroups s)"

section \<open>The parser returns\<close>

definition trimmed :: "string_util \<Rightarrow> string \<Rightarrow> bool" where
  "trimmed U s = (s = [] \<or> \<not> su_space U (hd s))"

lemma trimmed_QuackapiTrim [simp]: "trimmed U (QuackapiTrim U s)"
proof -
  let ?t = "dropWhile (su_space U) s"
  let ?r = "QuackapiTrim U s"
  have "prefix ?r ?t" unfolding QuackapiTrim_def Let_def by (metis suffix_dropWhile suffix_to_prefix rev_rev_ident)
  then obtain z where z: "?t = ?r @ z" by (auto simp: prefix_def)
  show ?thesis
  proof (cases "?r = []")
    case False
    then have "hd ?r = hd ?t" and "?t \<noteq> []" using z by (metis hd_append2, metis append_is_Nil_conv)
    then show ?thesis using hd_dropWhile [of "su_space U" s] by (simp add: trimmed_def)
  qed (simp add: trimmed_def)
qed

lemma next_token_trimmed:
  assumes "next_token U s = (tok, r)" and "trimmed U s" and "s \<noteq> []"
  shows "length r < length s" and "trimmed U r"
proof -
  have "tok \<noteq> []" using assms by (cases s) (auto simp: next_token_def Let_def trimmed_def)
  then show "length r < length s" using next_token_shorter [OF assms(1)] by simp
  show "trimmed U r" using assms(1) by (auto simp: next_token_def Let_def)
qed

lemma wire_name_trimmed:
  assumes "wire_name U spec s = (spec', r)" and "trimmed U s"
  shows "length r \<le> length s \<and> trimmed U r"
proof -
  have "length (QuackapiTrim U (drop k s)) \<le> length s" for k
    using length_QuackapiTrim [of U "drop k s"] by simp
  then show ?thesis using assms unfolding wire_name_def next_token_def Let_def by (auto split: if_splits)
qed

lemma param_source_trimmed:
  assumes "param_source U spec s = Some (spec', r)" and "trimmed U s"
  shows "length r < length s \<and> trimmed U r"
proof -
  obtain tok rest' where t: "next_token U s = (tok, rest')" by fastforce
  have "s \<noteq> []" using assms(1) by (auto simp: param_source_def Let_def t)
  note shorter = next_token_trimmed [OF t assms(2) this]
  obtain spec0 where "wire_name U spec0 rest' = (spec', r)" using assms(1) by (auto simp: param_source_def Let_def t split: if_splits)
  from wire_name_trimmed [OF this shorter(2)] show ?thesis using shorter(1) by simp
qed

lemma param_values_trimmed:
  "param_default L U spec s = TAKEN spec' r \<Longrightarrow> length r \<le> length s \<and> trimmed U r"
  "param_bound L U key spec s = TAKEN spec' r \<Longrightarrow> length r \<le> length s \<and> trimmed U r"
proof -
  have less: "length (QuackapiTrim U (drop k s)) \<le> length s" for k
    using length_QuackapiTrim [of U "drop k s"] by simp
  have nil: "QuackapiTrim U [] = []" "trimmed U []" by (simp_all add: QuackapiTrim_def trimmed_def)
  from less nil show "param_default L U spec s = TAKEN spec' r \<Longrightarrow> length r \<le> length s \<and> trimmed U r"
    unfolding param_default_def next_token_def Let_def by (auto split: if_splits sum.splits option.splits)
  show "param_bound L U key spec s = TAKEN spec' r \<Longrightarrow> length r \<le> length s \<and> trimmed U r"
    using less nil unfolding param_bound_def Let_def by (auto split: if_splits sum.splits)
qed

lemma param_option_progress:
  assumes "param_option L U spec s = TAKEN spec' r" and "trimmed U s"
  shows "length r < length s \<and> trimmed U r"
proof -
  have ne: "s \<noteq> []" using assms(1) by (auto simp: param_option_def)
  obtain tok after where t: "next_token U s = (tok, after)" by fastforce
  note shorter = next_token_trimmed [OF t assms(2) ne]
  show ?thesis
  proof (cases "param_source U spec s")
    case (Some p)
    then show ?thesis using assms param_source_trimmed [of U spec s spec' r] by (auto simp: param_option_def split: if_splits prod.splits)
  next
    case None
    then have "param_default L U spec after = TAKEN spec' r \<or> (\<exists>key. param_bound L U key spec after = TAKEN spec' r)"
      using assms(1) by (auto simp: param_option_def t Let_def split: if_splits)
    then show ?thesis using param_values_trimmed shorter(1) by (metis le_less_trans)
  qed
qed

lemma param_options_returns:
  assumes "trimmed U s"
  shows "\<exists>r. param_options L U spec s = Some r \<and> (\<forall>spec' s'. r = TAKEN spec' s' \<longrightarrow> length s' \<le> length s)"
  using assms
proof (induction "length s" arbitrary: s spec rule: less_induct)
  case less
  show ?case
  proof (cases "param_option L U spec s")
    case (TAKEN spec' s')
    then have "length s' < length s" "trimmed U s'" using param_option_progress less.prems by blast+
    then obtain r where "param_options L U spec' s' = Some r" "\<forall>spec'' s''. r = TAKEN spec'' s'' \<longrightarrow> length s'' \<le> length s'"
      using less.hyps by blast
    then show ?thesis using TAKEN \<open>length s' < length s\<close> by (subst param_options.simps) fastforce
  qed (auto simp: param_options.simps [of L U spec s])
qed

lemma param_head_progress:
  assumes "param_head L U s = TAKEN spec r" and "trimmed U s"
  shows "length r < length s \<and> trimmed U r"
proof -
  have ne: "s \<noteq> []" using assms(1) by (auto simp: param_head_def)
  obtain name r1 where t: "next_token U s = (name, r1)" by fastforce
  note r1 = next_token_trimmed [OF t assms(2) ne]
  obtain spec2 r2 where r2: "param_type_clause U (new_spec L name) r1 = (spec2, r2)" by fastforce
  have "length r2 \<le> length r1 \<and> trimmed U r2"
  proof (cases "r1 = []")
    case False
    obtain tok r' where t': "next_token U r1 = (tok, r')" by fastforce
    show ?thesis using r2 r1(2) next_token_trimmed [OF t' r1(2) False] by (auto simp: param_type_clause_def t' split: if_splits)
  qed (use r2 in \<open>auto simp: param_type_clause_def trimmed_def split: prod.splits if_splits\<close>)
  moreover have "r = r2 \<or> param_source U spec2 r2 = Some (spec, r)"
    using assms(1) ne by (auto simp: param_head_def t r2 split: option.splits)
  ultimately show ?thesis using r1(1) param_source_trimmed [of U spec2 r2 spec r] by auto
qed

lemma param_clauses_returns: "\<exists>r. param_clauses L U specs s = Some r"
proof (induction "length s" arbitrary: s specs rule: less_induct)
  case less
  show ?case
  proof (cases "at_keyword U ''PARAM'' s")
    case True
    let ?a = "after_keyword U ''PARAM'' s"
    have a: "trimmed U ?a" by (simp add: after_keyword_def)
    have a_le: "length ?a \<le> length s" by (rule after_keyword_shorter)
    show ?thesis
    proof (cases "param_head L U ?a")
      case (TAKEN spec s1)
      then have s1: "length s1 < length s" "trimmed U s1" using param_head_progress a a_le by fastforce+
      obtain r where r: "param_options L U spec s1 = Some r" "\<forall>spec' s'. r = TAKEN spec' s' \<longrightarrow> length s' \<le> length s1"
        using param_options_returns s1(2) by blast
      show ?thesis
      proof (cases r)
        case t: (TAKEN spec' s')
        then have "length s' < length s" using r(2) s1(1) by fastforce
        then show ?thesis using less.hyps True TAKEN r(1) t by (subst param_clauses.simps) simp
      qed (use True TAKEN r(1) in \<open>auto simp: param_clauses.simps [of L U specs s]\<close>)
    qed (use True in \<open>auto simp: param_clauses.simps [of L U specs s]\<close>)
  qed (auto simp: param_clauses.simps [of L U specs s])
qed

text \<open>
  C7. The parser of routes returns on every statement: the loops over the parameters and over the
  options of a parameter, which the source runs without a bound, end on every text, whatever the
  literals are, with a route, a message or an exception.
\<close>

theorem route_parse_returns: "\<exists>r. RouteDdlParse L U atoi query = Some r"
proof -
  have "\<exists>r. route_grammar L U atoi rest = Some r" for rest
  proof (cases "front_clauses U atoi rest :: 'a clauses clause")
    case (TAKEN c rest1)
    then show ?thesis using param_clauses_returns [of L U "[]" rest1] by (auto simp: route_grammar_def)
  qed (auto simp: route_grammar_def)
  then show ?thesis unfolding RouteDdlParse_def Let_def by auto
qed


section \<open>What a registered route looks like\<close>

text \<open>What the clauses keep, and what the grammar establishes before the parameters.\<close>

definition route_ok :: "string_util \<Rightarrow> 'v QuackapiRoute \<Rightarrow> bool" where
  "route_ok U r = (IsHttpMethod (rt_method r) \<and> 100 \<le> rt_status r \<and> rt_status r \<le> 599 \<and>
     (rt_empty_status r = 0 \<or> 100 \<le> rt_empty_status r \<and> rt_empty_status r \<le> 599) \<and>
     rt_response_format r \<in> set route_formats \<and> rt_response_envelope r \<in> {''array'', ''object''} \<and>
     0 \<le> rt_timeout_sec r \<and> rt_timeout_sec r \<le> 86400 \<and> 0 \<le> rt_max_request_bytes r \<and> rt_max_request_bytes r < 2 ^ 63 \<and>
     (rt_rate_limit_n r = 0 \<and> rt_rate_limit_per_sec r = 0 \<and> rt_rate_limit_by r = [] \<or>
      rt_rate_limit_n r > 0 \<and> rt_rate_limit_per_sec r > 0 \<and> rt_rate_limit_by r \<in> {''ip'', ''token''}) \<and>
     (rt_schedule r = [] \<or> count_fields U False (rt_schedule r) = 6))"

definition object_is_json :: "'v QuackapiRoute \<Rightarrow> bool" where
  "object_is_json r = (rt_response_envelope r = ''object'' \<longrightarrow> rt_response_format r = ''json'')"

definition keeps :: "('a \<Rightarrow> bool) \<Rightarrow> ('a \<Rightarrow> string \<Rightarrow> 'a clause) \<Rightarrow> bool" where
  "keeps P p = (\<forall>a rest a' rest'. p a rest = TAKEN a' rest' \<longrightarrow> P a \<longrightarrow> P a')"

lemma keepsI: "(\<And>a rest a' rest'. p a rest = TAKEN a' rest' \<Longrightarrow> P a \<Longrightarrow> P a') \<Longrightarrow> keeps P p"
  by (simp add: keeps_def)

lemma keepsD: "keeps P p \<Longrightarrow> p a rest = TAKEN a' rest' \<Longrightarrow> P a \<Longrightarrow> P a'"
  unfolding keeps_def by blast

lemma keeps_first: "(\<And>p. p \<in> set ps \<Longrightarrow> keeps P p) \<Longrightarrow> keeps P (first_clause ps)"
proof (induction ps)
  case (Cons p ps)
  then have "keeps P p" "keeps P (first_clause ps)" by simp_all
  then show ?case by (intro keepsI) (auto split: clause.splits dest: keepsD)
qed (simp add: keeps_def)

lemma keeps_rounds: "keeps P p \<Longrightarrow> keeps P (clause_rounds n p)"
proof (induction n)
  case (Suc n)
  then show ?case by (intro keepsI) (auto split: clause.splits dest: keepsD)
qed (simp add: keeps_def)

lemma keeps_optional: "keeps P p \<Longrightarrow> keeps P (optional p)"
  by (intro keepsI) (auto simp: optional_def split: clause.splits dest: keepsD)

lemma keeps_on_route: "keeps P p \<Longrightarrow> keeps (\<lambda>c. P (cl_route c)) (on_route p)"
  by (intro keepsI) (auto simp: on_route_def split: clause.splits dest: keepsD)

lemma then_read_TAKEN: "then_read r f = TAKEN b rest \<longleftrightarrow> (\<exists>a rest1. r = TAKEN a rest1 \<and> f a rest1 = TAKEN b rest)"
  by (auto simp: then_read_def split: clause.splits)

text \<open>What each clause stores.\<close>

lemma clause_results:
  "status_clause U atoi r rest = TAKEN r' rest' \<Longrightarrow> \<exists>tok. r' = r\<lparr>rt_status := atoi tok\<rparr> \<and> 100 \<le> atoi tok \<and> atoi tok \<le> 599"
  "require_clause U r rest = TAKEN r' rest' \<Longrightarrow> \<exists>tok. r' = r\<lparr>rt_require_auth := tok\<rparr>"
  "format_clause U r rest = TAKEN r' rest' \<Longrightarrow> \<exists>fmt. r' = r\<lparr>rt_response_format := fmt\<rparr> \<and> fmt \<in> set route_formats"
  "envelope_clause U r rest = TAKEN r' rest' \<Longrightarrow> \<exists>e. r' = r\<lparr>rt_response_envelope := e\<rparr> \<and> e \<in> {''array'', ''object''}"
  "timeout_clause U r rest = TAKEN r' rest' \<Longrightarrow> \<exists>n. r' = r\<lparr>rt_timeout_sec := n\<rparr> \<and> 0 \<le> n \<and> n \<le> 86400"
  "group_clause U r rest = TAKEN r' rest' \<Longrightarrow> \<exists>g. r' = r\<lparr>rt_group_name := g\<rparr>"
  "body_clause U r rest = TAKEN r' rest' \<Longrightarrow> \<exists>v. r' = r\<lparr>rt_body_schema := v\<rparr> \<or> r' = r\<lparr>rt_body_type := v\<rparr>"
  "empty_body_clause U r rest = TAKEN r' rest' \<Longrightarrow> \<exists>v. r' = r\<lparr>rt_empty_body := v\<rparr>"
proof -
  show "status_clause U atoi r rest = TAKEN r' rest' \<Longrightarrow> \<exists>tok. r' = r\<lparr>rt_status := atoi tok\<rparr> \<and> 100 \<le> atoi tok \<and> atoi tok \<le> 599"
    by (force simp: status_clause_def split: if_splits prod.splits)
  show "require_clause U r rest = TAKEN r' rest' \<Longrightarrow> \<exists>tok. r' = r\<lparr>rt_require_auth := tok\<rparr>"
    by (auto simp: require_clause_def split: if_splits prod.splits)
  show "format_clause U r rest = TAKEN r' rest' \<Longrightarrow> \<exists>fmt. r' = r\<lparr>rt_response_format := fmt\<rparr> \<and> fmt \<in> set route_formats"
    unfolding format_clause_def Let_def by (auto split: if_split_asm prod.split_asm)
  show "envelope_clause U r rest = TAKEN r' rest' \<Longrightarrow> \<exists>e. r' = r\<lparr>rt_response_envelope := e\<rparr> \<and> e \<in> {''array'', ''object''}"
    unfolding envelope_clause_def Let_def by (auto split: if_split_asm prod.split_asm)
  show "timeout_clause U r rest = TAKEN r' rest' \<Longrightarrow> \<exists>n. r' = r\<lparr>rt_timeout_sec := n\<rparr> \<and> 0 \<le> n \<and> n \<le> 86400"
    unfolding timeout_clause_def Let_def
    by (force split: if_split_asm prod.split_asm option.split_asm sum.split_asm dest: ParseRouteTimeoutSec_bounds)
  show "group_clause U r rest = TAKEN r' rest' \<Longrightarrow> \<exists>g. r' = r\<lparr>rt_group_name := g\<rparr>"
    unfolding group_clause_def group_name_clause_def by (auto split: if_split_asm prod.split_asm)
  show "body_clause U r rest = TAKEN r' rest' \<Longrightarrow> \<exists>v. r' = r\<lparr>rt_body_schema := v\<rparr> \<or> r' = r\<lparr>rt_body_type := v\<rparr>"
    unfolding body_clause_def Let_def by (auto split: if_split_asm prod.split_asm option.split_asm)
  show "empty_body_clause U r rest = TAKEN r' rest' \<Longrightarrow> \<exists>v. r' = r\<lparr>rt_empty_body := v\<rparr>"
  proof (cases "at_word U ''BODY'' rest")
    case False
    moreover have "r = r\<lparr>rt_empty_body := rt_empty_body r\<rparr>" by simp
    ultimately show "empty_body_clause U r rest = TAKEN r' rest' \<Longrightarrow> \<exists>v. r' = r\<lparr>rt_empty_body := v\<rparr>"
      unfolding empty_body_clause_def by (metis clause.inject(3))
  next
    case True
    then show "empty_body_clause U r rest = TAKEN r' rest' \<Longrightarrow> \<exists>v. r' = r\<lparr>rt_empty_body := v\<rparr>"
      unfolding empty_body_clause_def Let_def by (auto split: if_split_asm prod.split_asm option.split_asm)
  qed
qed

lemma rate_clause_result:
  assumes "rate_clause U atoi r rest = TAKEN r' rest'"
  shows "\<exists>n per who. r' = r\<lparr>rt_rate_limit_n := n, rt_rate_limit_per_sec := per, rt_rate_limit_by := who\<rparr> \<and> n > 0 \<and> per > 0 \<and> who \<in> {''ip'', ''token''}"
proof -
  obtain n per who r1 r2 where "r' = r\<lparr>rt_rate_limit_n := atoi n, rt_rate_limit_per_sec := atoi per, rt_rate_limit_by := who\<rparr>"
    and "atoi n > 0" "atoi per > 0" and who: "rate_by U r1 = Inr (who, r2)"
    using assms by (auto simp: rate_clause_def Let_def split: if_splits prod.splits sum.splits)
  moreover have "who \<in> {''ip'', ''token''}" using who by (auto simp: rate_by_def Let_def split: if_splits prod.splits)
  ultimately show ?thesis by blast
qed

lemma empty_clause_result:
  assumes "empty_clause U atoi r rest = TAKEN r' rest'"
  shows "\<exists>n v. r' = r\<lparr>rt_empty_status := n, rt_empty_body := v\<rparr> \<and> 100 \<le> n \<and> n \<le> 599"
proof -
  obtain n r1 where "empty_body_clause U (r\<lparr>rt_empty_status := n\<rparr>) r1 = TAKEN r' rest'" "100 \<le> n" "n \<le> 599"
    using assms by (fastforce simp: empty_clause_def Let_def split: if_splits prod.splits)
  then show ?thesis using clause_results(8) by blast
qed

lemma clauses_keep:
  "keeps (route_ok U) (status_clause U atoi)" "keeps (route_ok U) (rate_clause U atoi)" "keeps (route_ok U) (require_clause U)"
  "keeps (route_ok U) (format_clause U)" "keeps (route_ok U) (envelope_clause U)" "keeps (route_ok U) (empty_clause U atoi)"
  "keeps (route_ok U) (timeout_clause U)" "keeps (route_ok U) (group_clause U)" "keeps (route_ok U) (body_clause U)"
proof -
  show "keeps (route_ok U) (status_clause U atoi)" by (intro keepsI, drule clause_results(1)) (clarsimp simp: route_ok_def)
  show "keeps (route_ok U) (require_clause U)" by (intro keepsI, drule clause_results(2)) (clarsimp simp: route_ok_def)
  show "keeps (route_ok U) (format_clause U)" by (intro keepsI, drule clause_results(3)) (clarsimp simp: route_ok_def)
  show "keeps (route_ok U) (envelope_clause U)" by (intro keepsI, drule clause_results(4)) (clarsimp simp: route_ok_def)
  show "keeps (route_ok U) (timeout_clause U)" by (intro keepsI, drule clause_results(5)) (clarsimp simp: route_ok_def)
  show "keeps (route_ok U) (group_clause U)" by (intro keepsI, drule clause_results(6)) (clarsimp simp: route_ok_def)
  show "keeps (route_ok U) (body_clause U)" by (intro keepsI, drule clause_results(7)) (elim exE disjE; clarsimp simp: route_ok_def)
  show "keeps (route_ok U) (rate_clause U atoi)" by (intro keepsI, drule rate_clause_result) (clarsimp simp: route_ok_def)
  show "keeps (route_ok U) (empty_clause U atoi)" by (intro keepsI, drule empty_clause_result) (clarsimp simp: route_ok_def)
qed


lemma schedule_clause_keep: "keeps (\<lambda>c. route_ok U (cl_route c)) (schedule_clause U)"
proof (intro keepsI)
  fix c rest c' rest' assume t: "schedule_clause U c rest = TAKEN c' rest'" and ok: "route_ok U (cl_route c)"
  have "\<exists>v. cl_route c' = (cl_route c)\<lparr>rt_schedule := v\<rparr> \<and> count_fields U False v = 6"
    using t unfolding schedule_clause_def Let_def ValidateRouteSchedule_def
    by (auto split: if_split_asm option.split_asm prod.split_asm)
  then show "route_ok U (cl_route c')" using ok by (clarsimp simp: route_ok_def)
qed

lemma route_ok_limits:
  "route_ok U r \<Longrightarrow> 0 \<le> n \<Longrightarrow> n \<le> 86400 \<Longrightarrow> route_ok U (r\<lparr>rt_timeout_sec := n\<rparr>)"
  "route_ok U r \<Longrightarrow> 0 \<le> n \<Longrightarrow> n < 2 ^ 63 \<Longrightarrow> route_ok U (r\<lparr>rt_max_request_bytes := n\<rparr>)"
  "object_is_json r \<Longrightarrow> object_is_json (r\<lparr>rt_timeout_sec := n\<rparr>)" "object_is_json r \<Longrightarrow> object_is_json (r\<lparr>rt_max_request_bytes := n\<rparr>)"
  by (simp_all add: route_ok_def object_is_json_def)

lemma with_part_result:
  assumes "with_part U part r = Inr r'"
  shows "\<exists>n. r' = r\<lparr>rt_timeout_sec := n\<rparr> \<and> 0 \<le> n \<and> n \<le> 86400 \<or> r' = r\<lparr>rt_max_request_bytes := n\<rparr> \<and> 0 \<le> n \<and> n < 2 ^ 63"
  using assms unfolding with_part_def Let_def
  by (force split: option.split_asm prod.split_asm if_split_asm sum.split_asm dest: ParseRouteTimeoutSec_bounds ParseRouteRequestBytes_bounds)

lemma with_parts_keep: "with_parts U parts r = Inr r' \<Longrightarrow> route_ok U r \<and> object_is_json r \<Longrightarrow> route_ok U r' \<and> object_is_json r'"
proof (induction U parts r rule: with_parts.induct)
  case (2 U part parts r)
  show ?case
  proof (cases "QuackapiTrim U part = []")
    case False
    then obtain r1 where r1: "with_part U (QuackapiTrim U part) r = Inr r1" "with_parts U parts r1 = Inr r'"
      using 2(3) by (auto split: sum.split_asm)
    have "route_ok U r1 \<and> object_is_json r1"
      using with_part_result [OF r1(1)] 2(4) by (elim exE disjE conjE) (blast intro: route_ok_limits)+
    with 2(2) [OF False r1] show ?thesis by simp
  qed (use 2 in simp)
qed simp

lemma with_clause_keep: "keeps (\<lambda>r. route_ok U r \<and> object_is_json r) (with_clause U)"
proof (intro keepsI)
  fix r rest r' rest' assume "with_clause U r rest = TAKEN r' rest'" and ok: "route_ok U r \<and> object_is_json r"
  then obtain parts where "with_parts U parts r = Inr r'"
    by (auto simp: with_clause_def Let_def split: if_split_asm sum.split_asm)
  then show "route_ok U r' \<and> object_is_json r'" using with_parts_keep ok by blast
qed

lemma late_clauses_keep:
  "keeps (\<lambda>r. route_ok U r \<and> object_is_json r) (body_clause U)" "keeps (\<lambda>r. route_ok U r \<and> object_is_json r) (second_body_clause U)"
  "keeps (\<lambda>r. route_ok U r \<and> object_is_json r) (timeout_clause U)"
  "keeps (\<lambda>c. route_ok U (cl_route c) \<and> object_is_json (cl_route c)) (schedule_clause U)"
proof -
  show body: "keeps (\<lambda>r. route_ok U r \<and> object_is_json r) (body_clause U)"
    by (intro keepsI, drule clause_results(7)) (elim exE disjE; clarsimp simp: route_ok_def object_is_json_def)
  then show "keeps (\<lambda>r. route_ok U r \<and> object_is_json r) (second_body_clause U)"
    unfolding keeps_def second_body_clause_def by (metis clause.distinct(5))
  show "keeps (\<lambda>r. route_ok U r \<and> object_is_json r) (timeout_clause U)"
    by (intro keepsI, drule clause_results(5)) (clarsimp simp: route_ok_def object_is_json_def)
  show "keeps (\<lambda>c. route_ok U (cl_route c) \<and> object_is_json (cl_route c)) (schedule_clause U)"
  proof (intro keepsI)
    fix c rest c' rest' assume t: "schedule_clause U c rest = TAKEN c' rest'" and ok: "route_ok U (cl_route c) \<and> object_is_json (cl_route c)"
    have "object_is_json (cl_route c')" using t ok unfolding schedule_clause_def Let_def
      by (auto simp: object_is_json_def split: if_split_asm option.split_asm prod.split_asm)
    then show "route_ok U (cl_route c') \<and> object_is_json (cl_route c')" using keepsD [OF schedule_clause_keep t] ok by blast
  qed
qed

lemma route_clause_keep: "keeps (\<lambda>c. route_ok U (cl_route c)) (route_clause U atoi)"
  unfolding route_clause_def by (rule keeps_first) (auto intro: keeps_on_route clauses_keep schedule_clause_keep)

lemma front_clauses_ok:
  assumes "front_clauses U atoi rest = TAKEN c rest'"
  shows "route_ok U (cl_route c) \<and> object_is_json (cl_route c)"
proof -
  obtain route c1 c2 r1 r2 r3 where head: "route_head U rest = TAKEN route r1"
    and rounds: "clause_rounds 18 (route_clause U atoi) \<lparr>cl_route = route, cl_schedule_seen = False\<rparr> r1 = TAKEN c1 r2"
    and after: "after_clauses c1 r2 = TAKEN c2 r3" and body: "optional (on_route (body_clause U)) c2 r3 = TAKEN c rest'"
    using assms unfolding front_clauses_def then_read_TAKEN by blast
  have "route_ok U route" using head unfolding route_head_def Let_def
    by (auto simp: route_ok_def new_route_def route_formats_def split: option.split_asm prod.split_asm if_split_asm)
  then have "route_ok U (cl_route c1)" using keepsD [OF keeps_rounds [OF route_clause_keep] rounds] by simp
  then have "route_ok U (cl_route c2) \<and> object_is_json (cl_route c2)"
    using after by (auto simp: after_clauses_def Let_def object_is_json_def split: if_split_asm)
  then show ?thesis using keepsD [OF keeps_optional [OF keeps_on_route [OF late_clauses_keep(1)]] body] by simp
qed

lemma back_clauses_ok:
  assumes "back_clauses U c rest = TAKEN r rest'" and "route_ok U (cl_route c) \<and> object_is_json (cl_route c)"
  shows "route_ok U r \<and> object_is_json r"
proof -
  obtain c1 r1 c2 r2 c3 r3 c4 r4 where 1: "optional (on_route (second_body_clause U)) c rest = TAKEN c1 r1"
    and 2: "optional (schedule_clause U) c1 r1 = TAKEN c2 r2" and 3: "optional (on_route (timeout_clause U)) c2 r2 = TAKEN c3 r3"
    and 4: "optional (on_route (with_clause U)) c3 r3 = TAKEN c4 r4" and 5: "handler_clause U c4 r4 = TAKEN r rest'"
    using assms(1) unfolding back_clauses_def then_read_TAKEN by blast
  note s1 = keepsD [OF keeps_optional [OF keeps_on_route [OF late_clauses_keep(2)]] 1 assms(2)]
  note s2 = keepsD [OF keeps_optional [OF late_clauses_keep(4)] 2 s1]
  note s3 = keepsD [OF keeps_optional [OF keeps_on_route [OF late_clauses_keep(3)]] 3 s2]
  note s4 = keepsD [OF keeps_optional [OF keeps_on_route [OF with_clause_keep]] 4 s3]
  obtain h where "r = (cl_route c4)\<lparr>rt_handler_sql := h, rt_rate_limit_by :=
      (if rt_rate_limit_by (cl_route c4) = [] \<and> rt_rate_limit_n (cl_route c4) > 0 then ''ip'' else rt_rate_limit_by (cl_route c4))\<rparr>"
    using 5 by (auto simp: handler_clause_def Let_def split: if_split_asm)
  moreover have "\<not> (rt_rate_limit_by (cl_route c4) = [] \<and> rt_rate_limit_n (cl_route c4) > 0)"
    using s4 unfolding route_ok_def by force
  ultimately have "r = (cl_route c4)\<lparr>rt_handler_sql := h\<rparr>" by simp
  then show ?thesis using s4 by (simp add: route_ok_def object_is_json_def)
qed

lemma route_grammar_ok:
  assumes "route_grammar L U atoi rest = Some (TAKEN r rest')"
  shows "route_ok U r \<and> object_is_json r"
proof -
  obtain c r1 specs r2 where front: "front_clauses U atoi rest = TAKEN c r1"
    and rear: "back_clauses U (c\<lparr>cl_route := (cl_route c)\<lparr>rt_params := specs\<rparr>\<rparr>) r2 = TAKEN r rest'"
    using assms unfolding route_grammar_def by (auto simp: then_read_TAKEN split: clause.split_asm)
  from front_clauses_ok [OF front] have "route_ok U (cl_route c) \<and> object_is_json (cl_route c)" .
  then show ?thesis by (intro back_clauses_ok [OF rear]) (simp add: route_ok_def object_is_json_def)
qed


text \<open>Storing a route.\<close>

lemma scan_proposed_index:
  "scan_proposed r rep xs i ex = Inr (Some k) \<Longrightarrow> (\<forall>j. ex = Some j \<longrightarrow> j < i + length xs) \<Longrightarrow> k < i + length xs"
  by (induction xs arbitrary: i ex) (fastforce split: if_splits)+

lemma AddRoute_routes:
  assumes "AddRoute U route or_replace s = Inr s'"
  shows "set (routes s') \<subseteq> insert route (set (routes s))" and "route \<in> set (routes s')"
proof -
  obtain proposed where p: "propose_route route or_replace (routes s) = Inr proposed" and s': "routes s' = proposed"
    using assms by (auto simp: AddRoute_def AddRoutes_def PublishRoutes_def Let_def split: sum.splits)
  show "set (routes s') \<subseteq> insert route (set (routes s))"
    unfolding s' using p by (auto simp: propose_route_def dest: subsetD [OF set_update_subset_insert] split: sum.splits option.splits)
  show "route \<in> set (routes s')"
    unfolding s' using p scan_proposed_index [of route or_replace "routes s" 0 None]
    by (auto simp: propose_route_def set_update_memI split: sum.splits option.splits)
qed

lemma DropRoute_routes: "set (routes (snd (DropRoute U name s))) \<subseteq> set (routes s)"
  by (auto simp: DropRoute_def PublishRoutes_def Let_def dest: subsetD [OF set_erase_first_subset])

text \<open>The states the statements lead to. Each statement may meet other literals and other answers of the database.\<close>

inductive ddl_reachable :: "string_util \<Rightarrow> 'v variants \<Rightarrow> 'v QuackapiState \<Rightarrow> bool" for U V where
  nothing: "ddl_reachable U V initial_state"
| route: "ddl_reachable U V s \<Longrightarrow> RouteDdlParse L U atoi sql = Some (Inr (PARSE_SUCCESSFUL d)) \<Longrightarrow>
    ApplyRouteExec U V C d s = Inr (msg, s') \<Longrightarrow> ddl_reachable U V s'"
| grouping: "ddl_reachable U V s \<Longrightarrow> GroupDdlParse U sql = PARSE_SUCCESSFUL d \<Longrightarrow> ApplyGroupExec d s = Inr (msg, s') \<Longrightarrow> ddl_reachable U V s'"

definition route_registered :: "string_util \<Rightarrow> 'v QuackapiRoute \<Rightarrow> bool" where
  "route_registered U r = (route_ok U r \<and> object_is_json r \<and> rt_pattern r \<noteq> [] \<and> hd (rt_pattern r) = CHR ''/'' \<and>
     (rt_schedule r = [] \<or> \<not> HasRoutePathParams (rt_pattern r)) \<and> \<not> bare_claims U (rt_handler_sql r))"

lemma planned_route_ok:
  assumes "string_util_ok U" and "route_ok U r \<and> object_is_json r"
  shows "route_ok U (planned_route U V r) \<and> object_is_json (planned_route U V r)"
proof -
  have "list_all (\<lambda>f. map ascii_lower f = f) (route_formats @ [''array'', ''object''])" by code_simp
  moreover have "rt_response_format r \<in> set route_formats" "rt_response_envelope r \<in> {''array'', ''object''}"
    using assms(2) by (simp_all only: route_ok_def)
  ultimately have "su_lower U (rt_response_format r) = rt_response_format r" "su_lower U (rt_response_envelope r) = rt_response_envelope r"
    "rt_response_format r \<noteq> []" "rt_response_envelope r \<noteq> []"
    using string_util_okD(1) [OF assms(1)] by (auto simp: list_all_iff route_formats_def)
  then have "planned_route U V r = r\<lparr>rt_tags := [], rt_params := ParamSpecsFromValue V (ParamSpecsValue V (rt_params r))\<rparr>"
    by (simp add: planned_route_def)
  then show ?thesis using assms(2) by (simp add: route_ok_def object_is_json_def)
qed

lemma expand_group_ok:
  assumes "expand_group U s r = Inr r'" and "route_ok U r \<and> object_is_json r"
  shows "route_ok U r' \<and> object_is_json r' \<and> rt_pattern r' \<noteq> [] \<and> hd (rt_pattern r') = CHR ''/''"
proof (cases "rt_group_name r = []")
  case True
  then show ?thesis using assms by (auto simp: expand_group_def split: if_split_asm)
next
  case False
  then obtain g p where g: "JoinGroupPrefix U (gr_prefix (g :: QuackapiGroup)) (rt_pattern r) = Inr p"
    and r': "r' = r\<lparr>rt_pattern := p, rt_require_auth := (if rt_require_auth r = [] then gr_require_auth g else rt_require_auth r),
      rt_tags := (if rt_tags r = [] then gr_tags g else rt_tags r)\<rparr>"
    using assms(1) unfolding expand_group_def by (cases "GetGroup (rt_group_name r) s") (auto split: sum.split_asm)
  then have "p \<noteq> [] \<and> hd p = CHR ''/''" by (auto simp: JoinGroupPrefix_def strip_slashes_def Let_def split: if_split_asm)
  then show ?thesis using assms(2) r' by (simp add: route_ok_def object_is_json_def)
qed

lemma RouteDdlParse_ok:
  assumes "RouteDdlParse L U atoi sql = Some (Inr (PARSE_SUCCESSFUL d))" and "rd_action d = ''CREATE''"
  shows "route_ok U (rd_route d) \<and> object_is_json (rd_route d)"
proof -
  obtain rest r where "route_grammar L U atoi rest = Some r" "\<exists>b. parsed_route b r = Inr (PARSE_SUCCESSFUL d)"
    using assms unfolding RouteDdlParse_def Let_def
    by (auto simp: drop_statement_def Let_def split: if_split_asm)
  then obtain route r2 where "route_grammar L U atoi rest = Some (TAKEN route r2)" "rd_route d = route"
    by (cases r) (auto simp: parsed_route_def)
  then show ?thesis using route_grammar_ok by metis
qed

lemma ApplyRouteExec_create:
  assumes "ApplyRouteExec U V C d s = Inr (msg, s')" and "rd_action d = ''CREATE''"
  obtains route where "expand_group U s (planned_route U V (rd_route d)) = Inr route"
    and "rt_schedule route = [] \<or> \<not> HasRoutePathParams (rt_pattern route)" and "check_handler U C route = None"
    and "AddRoute U route (rd_or_replace d) s = Inr s'"
  using assms unfolding ApplyRouteExec_def
  by (auto simp: first_error_def split: sum.split_asm if_split_asm option.split_asm list.split_asm)

lemma check_handler_None: "check_handler U C route = None \<Longrightarrow> \<not> bare_claims U (rt_handler_sql route)"
  by (auto simp: check_handler_def split: if_split_asm)

lemma ddl_routes_registered:
  assumes "string_util_ok U" and "ddl_reachable U V s"
  shows "\<forall>r \<in> set (routes s). route_registered U r"
  using assms(2)
proof (induction rule: ddl_reachable.induct)
  case nothing
  show ?case by (simp add: initial_state_def)
next
  case (route s L atoi sql d C msg s')
  show ?case
  proof (cases "rd_action d = ''CREATE''")
    case True
    from ApplyRouteExec_create [OF route(3) True] obtain r where
      r: "expand_group U s (planned_route U V (rd_route d)) = Inr r" "rt_schedule r = [] \<or> \<not> HasRoutePathParams (rt_pattern r)"
      "check_handler U C r = None" "AddRoute U r (rd_or_replace d) s = Inr s'" by blast
    have "route_registered U r" unfolding route_registered_def
      using expand_group_ok [OF r(1) planned_route_ok [OF assms(1) RouteDdlParse_ok [OF route(2) True]]] r(2) check_handler_None [OF r(3)]
      by simp
    then show ?thesis using AddRoute_routes(1) [OF r(4)] route.IH by blast
  next
    case False
    then show ?thesis using route(3) route.IH DropRoute_routes [of U "rt_name (rd_route d)" s]
      by (auto simp: ApplyRouteExec_def split: prod.split_asm bool.split_asm)
  qed
next
  case (grouping s sql d msg s')
  then have "routes s' = routes s"
    by (auto simp: ApplyGroupExec_def AddGroup_def DropGroup_def Let_def split: if_split_asm sum.split_asm prod.split_asm bool.split_asm)
  then show ?case using grouping.IH by simp
qed


definition rooted :: "string \<Rightarrow> string" where
  "rooted path = (if path = [] \<or> hd path = CHR ''/'' then path else CHR ''/'' # path)"

text \<open>
  C8. A route created in a group is stored under the group's prefix, its final slashes removed, and
  with the group's authentication scheme when it names none of its own: joining a group never leaves a
  route with neither.
\<close>

theorem grouped_route_guarded:
  assumes "ApplyRouteExec U V C d s = Inr (msg, s')" and "rd_action d = ''CREATE''"
    and "rt_group_name (rd_route d) = name" and "name \<noteq> []" and "GetGroup name s = Some g"
  shows "\<exists>r \<in> set (routes s'). rt_name r = rt_name (rd_route d) \<and> rt_pattern r = strip_slashes (gr_prefix g) @ rooted (rt_pattern (rd_route d)) \<and>
    rt_require_auth r = (if rt_require_auth (rd_route d) = [] then gr_require_auth g else rt_require_auth (rd_route d)) \<and>
    rt_handler_sql r = rt_handler_sql (rd_route d)"
proof -
  from ApplyRouteExec_create [OF assms(1,2)] obtain r where
    r: "expand_group U s (planned_route U V (rd_route d)) = Inr r" and stored: "AddRoute U r (rd_or_replace d) s = Inr s'" by blast
  then obtain p where p: "JoinGroupPrefix U (gr_prefix g) (rt_pattern (rd_route d)) = Inr p"
    and r': "rt_pattern r = p" "rt_name r = rt_name (rd_route d)" "rt_handler_sql r = rt_handler_sql (rd_route d)"
      "rt_require_auth r = (if rt_require_auth (rd_route d) = [] then gr_require_auth g else rt_require_auth (rd_route d))"
    using assms(3-5) by (auto simp: expand_group_def planned_route_def split: sum.split_asm)
  have "p = strip_slashes (gr_prefix g) @ rooted (rt_pattern (rd_route d))"
    using p by (auto simp: JoinGroupPrefix_def Let_def rooted_def split: if_split_asm)
  then show ?thesis using r' AddRoute_routes(2) [OF stored] by blast
qed

text \<open>
  The parameters of a route survive the plan: the execution reads back every field the parser
  wrote, for every list of parameters, when the conversion to VARIANT loses no value. Only a default
  that is absent or NULL is stored in its one normal form.
\<close>

theorem param_specs_roundtrip:
  assumes "\<And>v. va_from V (va_to V v) = v"
  shows "ParamSpecsFromValue V (ParamSpecsValue V specs) = map (\<lambda>s. if ps_has_default s \<and> \<not> ps_default_is_null s then s
    else s\<lparr>ps_default_variant := va_null V, ps_default_raw := (if ps_default_is_null s then [] else ps_default_raw s)\<rparr>) specs"
proof -
  have opt: "map_option (va_from V) (map_option (va_to V) x) = x" for x using assms by (cases x) simp_all
  have "ParamSpecsFromValue V (ParamSpecsValue V [s]) = [if ps_has_default s \<and> \<not> ps_default_is_null s then s
    else s\<lparr>ps_default_variant := va_null V, ps_default_raw := (if ps_default_is_null s then [] else ps_default_raw s)\<rparr>]" for s
    by (cases s; cases "ps_source s") (simp_all add: ParamSpecsFromValue_def ParamSpecsValue_def opt assms)
  then show ?thesis by (simp add: ParamSpecsFromValue_def ParamSpecsValue_def)
qed

text \<open>A group, a route in it, and what the two statements lead to.\<close>

definition shop_variants :: "string variants" where
  "shop_variants = \<lparr>va_to = (\<lambda>v. v), va_from = (\<lambda>v. v), va_null = []\<rparr>"

definition shop_literals :: "string literals" where
  "shop_literals = \<lparr>li_tokens = (\<lambda>_. []), li_constant = (\<lambda>_. Inr None), li_numeric = (\<lambda>_. None), li_integral = (\<lambda>_. False),
     li_ubigint = (\<lambda>_. None), li_string = (\<lambda>s. s), li_null = []\<rparr>"

definition shop_checks :: route_checks where
  "shop_checks = \<lparr>rc_load_schema = None, rc_install_schema = None, rc_load_installed = None, rc_load_json = None,
     rc_is_json = (\<lambda>_. Inr True), rc_prepare = (\<lambda>_. None)\<rparr>"

definition shop_group :: QuackapiGroup where
  "shop_group = \<lparr>gr_name = ''api'', gr_prefix = ''/v1/'', gr_require_auth = ''jwt'', gr_tags = [], gr_policy = []\<rparr>"

definition shop_state :: "string QuackapiState" where
  "shop_state = initial_state\<lparr>groups := [shop_group]\<rparr>"

definition shop_route :: "string QuackapiRoute" where
  "shop_route = (new_route ''items'' ''GET'' ''/items'')\<lparr>rt_group_name := ''api'', rt_timeout_sec := 30, rt_handler_sql := ''SELECT 1''\<rparr>"

definition shop_created :: "string RouteDdlParseData" where
  "shop_created = \<lparr>rd_action = ''CREATE'', rd_or_replace = False, rd_route = shop_route\<rparr>"

definition shop_stored :: "string QuackapiRoute" where
  "shop_stored = shop_route\<lparr>rt_pattern := ''/v1/items'', rt_require_auth := ''jwt''\<rparr>"

definition shop_served :: "string QuackapiState" where
  "shop_served = PublishRoutes (shop_state\<lparr>routes := [shop_stored]\<rparr>)"

lemma shop_group_created:
  "GroupDdlParse ascii_util ''create group api with (prefix = /v1/, auth = jwt)'' =
     PARSE_SUCCESSFUL \<lparr>gd_action = ''CREATE'', gd_or_replace = False, gd_group = shop_group\<rparr>"
  by code_simp

declare param_clauses.simps [code] param_options.simps [code]

lemma shop_route_parsed:
  "RouteDdlParse shop_literals ascii_util (\<lambda>_. 0) (''CREATE ROUTE items GET '' @ squoted ''/items'' @ '' GROUP api TIMEOUT 30s AS SELECT 1'') =
     Some (Inr (PARSE_SUCCESSFUL shop_created))"
  by code_simp

lemma shop_route_stored:
  "ApplyRouteExec ascii_util shop_variants shop_checks shop_created shop_state = Inr (''Route items: GET /v1/items'', shop_served)"
  by code_simp

lemma shop_served_reachable: "ddl_reachable ascii_util shop_variants shop_served"
proof -
  have "ApplyGroupExec \<lparr>gd_action = ''CREATE'', gd_or_replace = False, gd_group = shop_group\<rparr> initial_state = Inr (''Group api: /v1/'', shop_state)"
    by code_simp
  from ddl_reachable.route [OF ddl_reachable.grouping [OF ddl_reachable.nothing shop_group_created this] shop_route_parsed shop_route_stored]
  show ?thesis .
qed


theorem grouped_route_guarded_witness:
  "\<exists>r \<in> set (routes shop_served). rt_name r = ''items'' \<and> rt_pattern r = ''/v1/items'' \<and> rt_require_auth r = ''jwt''"
  using grouped_route_guarded [OF shop_route_stored, of "''api''" shop_group]
  by (simp add: shop_created_def shop_route_def new_route_def shop_state_def GetGroup_def shop_group_def strip_slashes_def rooted_def) blast

theorem param_specs_roundtrip_witness:
  "ParamSpecsFromValue shop_variants (ParamSpecsValue shop_variants [new_spec shop_literals ''id'']) = [new_spec shop_literals ''id'']"
  using param_specs_roundtrip [of shop_variants "[new_spec shop_literals ''id'']"]
  by (simp add: shop_variants_def new_spec_def shop_literals_def)

end
