(* ===== verification/Policy.thy ===== *)
theory Policy
  imports Options Registry
begin

text \<open>
  The enforcement of row access and masking policies (\<open>src/src/quackapi_policy.cpp\<close>): the scanners
  over policy expressions, the identities of tables, the text of the query that replaces a protected
  table, and the rewriting of a handler's syntax tree. The syntax trees are DuckDB's, whose source is
  not part of the repository: the datatypes keep what the rewriting looks at and carry the rest of a
  node as a text. DuckDB's parser, printer and catalog are parameters. The caches of the rewriting
  only repeat an answer of the catalog, so a lookup is a function of its key; a failure is a value,
  \<open>Inl\<close> of the reason and of the flag that denies an unauthenticated caller, so the tests of an
  error set earlier are the early returns.
\<close>

section \<open>Scanning policy expressions\<close>

definition IsIdentStart :: "char \<Rightarrow> bool" where
  "IsIdentStart c = (is_alpha c \<or> c = CHR ''_'')"

definition IsIdentChar :: "char \<Rightarrow> bool" where
  "IsIdentChar c = (is_alpha c \<or> is_digit c \<or> c = CHR ''_'')"

text \<open>A string literal from its opening quote on, as it is written, and the text after it.\<close>

fun literal_rest :: "string \<Rightarrow> string \<times> string" where
  "literal_rest [] = ([], [])"
| "literal_rest (c # cs) =
     (if c = squote then
        (case cs of
           d # ds \<Rightarrow> if d = squote then map_prod (\<lambda>l. c # d # l) id (literal_rest ds) else ([c], cs)
         | [] \<Rightarrow> ([c], cs))
      else map_prod ((#) c) id (literal_rest cs))"

text \<open>The text inside balanced parentheses, whose first has been read, and the text after them.\<close>

fun paren_rest :: "nat \<Rightarrow> bool \<Rightarrow> string \<Rightarrow> (string \<times> string) option" where
  "paren_rest depth in_str [] = None"
| "paren_rest depth in_str (c # cs) =
     (if in_str then
        (if c = squote then
           (case cs of
              d # ds \<Rightarrow> if d = squote then map_option (map_prod (\<lambda>l. c # d # l) id) (paren_rest depth True ds)
                else map_option (map_prod ((#) c) id) (paren_rest depth False cs)
            | [] \<Rightarrow> None)
         else map_option (map_prod ((#) c) id) (paren_rest depth True cs))
      else if c = squote then map_option (map_prod ((#) c) id) (paren_rest depth True cs)
      else if c = CHR ''('' then map_option (map_prod ((#) c) id) (paren_rest (Suc depth) False cs)
      else if c = CHR '')'' then
        (if depth = 1 then Some ([], cs) else map_option (map_prod ((#) c) id) (paren_rest (depth - 1) False cs))
      else map_option (map_prod ((#) c) id) (paren_rest depth False cs))"

definition ExtractParenGroup :: "string \<Rightarrow> (string \<times> string) option" where
  "ExtractParenGroup rest = (if rest = [] \<or> hd rest \<noteq> CHR ''('' then None else paren_rest 1 False (tl rest))"

lemma literal_rest_shorter: "literal_rest s = (l, r) \<Longrightarrow> length r \<le> length s"
  by (induction s arbitrary: l r rule: literal_rest.induct)
    (fastforce split: if_splits list.splits prod.splits simp: map_prod_def)+

text \<open>The placeholder of a masking policy. Text in double quotes is not told apart.\<close>

function SubstituteValPlaceholder :: "string_util \<Rightarrow> string \<Rightarrow> string \<Rightarrow> string" where
  "SubstituteValPlaceholder U expr replacement =
     (case expr of
        [] \<Rightarrow> []
      | c # cs \<Rightarrow>
          if c = squote then
            (case literal_rest cs of (l, r) \<Rightarrow> c # l @ SubstituteValPlaceholder U r replacement)
          else if IsIdentStart c then
            (let tok = c # takeWhile IsIdentChar cs
             in (if su_lower U tok = ''val'' then replacement else tok) @
                SubstituteValPlaceholder U (dropWhile IsIdentChar cs) replacement)
          else c # SubstituteValPlaceholder U cs replacement)"
  by pat_completeness auto
termination
  by (relation "measure (\<lambda>(U, expr, r). length expr)")
    (auto dest!: sym [of _ "literal_rest _"] literal_rest_shorter simp: less_Suc_eq_le length_dropWhile_le)

declare SubstituteValPlaceholder.simps [simp del]

text \<open>An identifier in double quotes, its opening quote read: its name, its text, the text after it.\<close>

fun quoted_ident :: "string \<Rightarrow> string \<times> string \<times> string" where
  "quoted_ident [] = ([], [], [])"
| "quoted_ident (c # cs) =
     (if c = CHR 0x22 then
        (case cs of
           d # ds \<Rightarrow> if d = CHR 0x22 then (case quoted_ident ds of (name, wr, r) \<Rightarrow> (d # name, c # d # wr, r)) else ([], [c], cs)
         | [] \<Rightarrow> ([], [c], cs))
      else (case quoted_ident cs of (name, wr, r) \<Rightarrow> (c # name, c # wr, r)))"

lemma quoted_ident_text: "quoted_ident s = (name, wr, r) \<Longrightarrow> s = wr @ r"
  by (induction s arbitrary: name wr r rule: quoted_ident.induct)
    (fastforce split: if_splits list.splits prod.splits)+

definition QuoteCatalogIdentifier :: "string \<Rightarrow> string" where
  "QuoteCatalogIdentifier ident = [CHR 0x22] @ concat (map (\<lambda>c. if c = CHR 0x22 then [c, c] else [c]) ident) @ [CHR 0x22]"

definition SameCatalogIdentifier :: "string_util \<Rightarrow> string \<Rightarrow> string \<Rightarrow> bool" where
  "SameCatalogIdentifier U a b = (su_lower U a = su_lower U b)"

text \<open>A name of the policy's signature becomes the bound column's, quoted; other text stays.\<close>

fun renamed :: "string_util \<Rightarrow> string \<Rightarrow> string \<Rightarrow> string list \<Rightarrow> string list \<Rightarrow> string" where
  "renamed U token wr (f # from) (t # to) =
     (if SameCatalogIdentifier U token f then QuoteCatalogIdentifier t else renamed U token wr from to)"
| "renamed U token wr _ _ = wr"

function ReplacePolicyIdentifiers :: "string_util \<Rightarrow> string \<Rightarrow> string list \<Rightarrow> string list \<Rightarrow> string" where
  "ReplacePolicyIdentifiers U expr from to =
     (case expr of
        [] \<Rightarrow> []
      | c # cs \<Rightarrow>
          if c = squote then
            (case literal_rest cs of (l, r) \<Rightarrow> c # l @ ReplacePolicyIdentifiers U r from to)
          else if c = CHR 0x22 then
            (case quoted_ident cs of (name, wr, r) \<Rightarrow> renamed U name (c # wr) from to @ ReplacePolicyIdentifiers U r from to)
          else if IsIdentStart c then
            (let tok = c # takeWhile IsIdentChar cs
             in renamed U tok tok from to @ ReplacePolicyIdentifiers U (dropWhile IsIdentChar cs) from to)
          else c # ReplacePolicyIdentifiers U cs from to)"
  by pat_completeness auto
termination
  by (relation "measure (\<lambda>(U, expr, r). length expr)")
    (auto dest!: sym [of _ "literal_rest _"] sym [of _ "quoted_ident _"] literal_rest_shorter quoted_ident_text
      simp: less_Suc_eq_le length_dropWhile_le)

declare ReplacePolicyIdentifiers.simps [simp del]

section \<open>Tables and the query that replaces them\<close>

record PolicyTableIdentity =
  pt_catalog :: string
  pt_schema :: string
  pt_table :: string

text \<open>A qualified name has an empty part where none is written.\<close>

definition IdentityFromName :: "string \<times> string \<times> string \<Rightarrow> string \<Rightarrow> PolicyTableIdentity" where
  "IdentityFromName name default_catalog = (case name of (cat, sch, tab) \<Rightarrow>
     \<lparr>pt_catalog = (if cat = [] then default_catalog else cat), pt_schema = (if sch = [] then ''main'' else sch), pt_table = tab\<rparr>)"

definition SamePolicyTableIdentity :: "string_util \<Rightarrow> PolicyTableIdentity \<Rightarrow> PolicyTableIdentity \<Rightarrow> bool" where
  "SamePolicyTableIdentity U a b =
     (SameCatalogIdentifier U (pt_catalog a) (pt_catalog b) \<and> SameCatalogIdentifier U (pt_schema a) (pt_schema b) \<and>
      SameCatalogIdentifier U (pt_table a) (pt_table b))"

definition QuotePolicyTableIdentity :: "PolicyTableIdentity \<Rightarrow> string" where
  "QuotePolicyTableIdentity i = QuoteCatalogIdentifier (pt_catalog i) @ ''.'' @ QuoteCatalogIdentifier (pt_schema i) @ ''.'' @
     QuoteCatalogIdentifier (pt_table i)"

definition BuildSecureSubqueryQuoted :: "string \<Rightarrow> string \<Rightarrow> (string \<times> string) list \<Rightarrow> string" where
  "BuildSecureSubqueryQuoted relation where_expr masked =
     (let where_sql = (if where_expr = [] then [] else '' WHERE ('' @ where_expr @ '')'')
      in if masked = [] then ''SELECT * FROM '' @ relation @ where_sql
         else ''SELECT * EXCLUDE ('' @ join_with '', '' (map (QuoteCatalogIdentifier \<circ> fst) masked) @ ''), '' @
           join_with '', '' (map (\<lambda>(col, e). ''('' @ e @ '') AS '' @ QuoteCatalogIdentifier col) masked) @
           '' FROM '' @ relation @ where_sql)"

section \<open>Syntax trees\<close>

text \<open>
  The last string of a node holds what is neither an expression nor a query. The parts of a node that
  hold expressions and that the rewriting passes over are kept: the version of a table (\<open>AT\<close>, the last
  part of a \<open>BaseTableRef\<close>) and the columns of a \<open>PIVOT\<close>, each with its expressions (after \<open>ON\<close> or
  \<open>FOR\<close>), the expressions of its entries and the query of its values (after \<open>IN\<close>).
\<close>

datatype expr =
    FunctionExpression string "expr list" string
  | SubqueryExpression query "expr list" string
  | OtherExpression "expr list" string
and table_ref =
    BaseTableRef string string string string "expr option"
  | SubqueryRef query string
  | JoinRef table_ref table_ref "expr option" string
  | PivotRef table_ref "expr list" "(expr list \<times> expr list \<times> query option) list" string
  | TableFunctionRef string
  | CteTableRef string
  | EmptyTableRef
  | ExpressionListRef "expr list list" string
  | OtherTableRef string
and query =
    SelectNode "(string \<times> query) list" "table_ref option" "expr list" "expr list" "expr option" "expr option" "expr option" "expr list" string
  | SetOperationNode "(string \<times> query) list" "query list" "expr list" string
  | OtherNode "(string \<times> query) list" string

datatype sql_statement = SelectStatement query | OtherStatement string

record policy_env =
  pe_util :: string_util
  pe_parse :: "string \<Rightarrow> sql_statement list option"
  pe_print :: "query \<Rightarrow> string"
  pe_name :: "string \<Rightarrow> (string \<times> string \<times> string) option"
  pe_default_catalog :: string
  pe_is_view :: "PolicyTableIdentity \<Rightarrow> bool option"
  pe_is_macro :: "string \<Rightarrow> bool option"
  pe_attached :: "string \<Rightarrow> bool"

section \<open>Rewriting\<close>

type_synonym policy_stop = "string \<times> bool"

text \<open>The first reason stays; an unauthenticated caller is denied.\<close>

definition Reject :: "bool \<Rightarrow> policy_stop \<Rightarrow> string \<Rightarrow> policy_stop" where
  "Reject authenticated stop reason = (case stop of (err, deny) \<Rightarrow> (if err = [] then reason else err, deny \<or> \<not> authenticated))"

definition rejected :: "bool \<Rightarrow> string \<Rightarrow> policy_stop + 'a" where
  "rejected authenticated reason = Inl (Reject authenticated ([], False) reason)"

text \<open>Sequencing of steps that may stop, with their congruence rules for the recursion through lists.\<close>

definition and_then :: "'e + 'a \<Rightarrow> ('a \<Rightarrow> 'e + 'b) \<Rightarrow> 'e + 'b" where
  "and_then r f = (case r of Inl e \<Rightarrow> Inl e | Inr a \<Rightarrow> f a)"

lemma and_then_simps [simp]: "and_then (Inl e) f = Inl e" "and_then (Inr a) f = f a"
  by (simp_all add: and_then_def)

lemma and_then_Inr: "and_then r f = Inr b \<longleftrightarrow> (\<exists>a. r = Inr a \<and> f a = Inr b)"
  by (cases r) simp_all

lemma and_then_cong [fundef_cong]: "r = r' \<Longrightarrow> (\<And>a. r' = Inr a \<Longrightarrow> f a = g a) \<Longrightarrow> and_then r f = and_then r' g"
  by (cases r') simp_all

fun each :: "('a \<Rightarrow> 'e + 'b) \<Rightarrow> 'a list \<Rightarrow> 'e + 'b list" where
  "each f [] = Inr []"
| "each f (x # xs) = and_then (f x) (\<lambda>y. and_then (each f xs) (\<lambda>ys. Inr (y # ys)))"

lemma each_cong [fundef_cong]: "xs = ys \<Longrightarrow> (\<And>x. x \<in> set ys \<Longrightarrow> f x = g x) \<Longrightarrow> each f xs = each g ys"
  by (induction ys arbitrary: xs) auto

definition maybe :: "('a \<Rightarrow> 'e + 'b) \<Rightarrow> 'a option \<Rightarrow> 'e + 'b option" where
  "maybe f x = (case x of None \<Rightarrow> Inr None | Some a \<Rightarrow> and_then (f a) (\<lambda>b. Inr (Some b)))"

lemma maybe_simps [simp]: "maybe f None = Inr None" "maybe f (Some a) = and_then (f a) (\<lambda>b. Inr (Some b))"
  by (simp_all add: maybe_def)

lemma maybe_cong [fundef_cong]: "x = y \<Longrightarrow> (\<And>a. a \<in> set_option y \<Longrightarrow> f a = g a) \<Longrightarrow> maybe f x = maybe g y"
  by (cases y) simp_all

text \<open>The common table expressions of a node: each is inspected with the names before it in scope.\<close>

fun each_cte :: "(string list \<Rightarrow> query \<Rightarrow> policy_stop + query) \<Rightarrow> bool \<Rightarrow> string list \<Rightarrow> (string \<times> query) list
    \<Rightarrow> policy_stop + ((string \<times> query) list \<times> string list)" where
  "each_cte f authenticated scope [] = Inr ([], scope)"
| "each_cte f authenticated scope ((name, q) # ctes) =
     (case f scope q of
        Inl stop \<Rightarrow> Inl (Reject authenticated stop ''policy enforcement could not inspect a common table expression'')
      | Inr q' \<Rightarrow> and_then (each_cte f authenticated (scope @ [name]) ctes) (\<lambda>(rest, scope'). Inr ((name, q') # rest, scope')))"

lemma each_cte_cong [fundef_cong]:
  assumes "b = b'" "scope = scope'" "ctes = ctes'" "\<And>sc n q. (n, q) \<in> set ctes' \<Longrightarrow> f sc q = g sc q"
  shows "each_cte f b scope ctes = each_cte g b' scope' ctes'"
  using assms(4) unfolding assms(1-3)
proof (induction ctes' arbitrary: scope')
  case (Cons c ctes')
  obtain n q where c: "c = (n, q)" by fastforce
  have "f scope' q = g scope' q" by (rule Cons.prems [of n]) (simp add: c)
  moreover have "each_cte f b' sc ctes' = each_cte g b' sc ctes'" for sc using Cons.IH [of sc] Cons.prems by (meson list.set_intros(2))
  ultimately show ?case by (simp add: c split: sum.split)
qed simp

text \<open>The first binding of a table. Each identity on the way must parse.\<close>

definition BindingIdentity :: "policy_env \<Rightarrow> string \<Rightarrow> PolicyTableIdentity option" where
  "BindingIdentity E table_name = (case pe_name E table_name of
     None \<Rightarrow> None
   | Some name \<Rightarrow> (let i = IdentityFromName name (pe_default_catalog E) in if pt_table i = [] then None else Some i))"

fun first_bound :: "policy_env \<Rightarrow> bool \<Rightarrow> ('b \<Rightarrow> string) \<Rightarrow> PolicyTableIdentity \<Rightarrow> 'b list \<Rightarrow> policy_stop + 'b option" where
  "first_bound E authenticated tab identity [] = Inr None"
| "first_bound E authenticated tab identity (b # bs) = (case BindingIdentity E (tab b) of
     None \<Rightarrow> rejected authenticated ''policy binding has an invalid catalog identity''
   | Some i \<Rightarrow> if SamePolicyTableIdentity (pe_util E) identity i then Inr (Some b)
       else first_bound E authenticated tab identity bs)"

text \<open>All the masks of a table.\<close>

fun masked_columns :: "policy_env \<Rightarrow> 'v QuackapiState \<Rightarrow> bool \<Rightarrow> PolicyTableIdentity \<Rightarrow> QuackapiMaskingBinding list
    \<Rightarrow> policy_stop + (string \<times> string) list" where
  "masked_columns E s authenticated identity [] = Inr []"
| "masked_columns E s authenticated identity (b # bs) = (case BindingIdentity E (mb_table_name b) of
     None \<Rightarrow> rejected authenticated ''policy binding has an invalid catalog identity''
   | Some i \<Rightarrow>
       if \<not> SamePolicyTableIdentity (pe_util E) identity i then masked_columns E s authenticated identity bs
       else case GetMaskingPolicy (mb_policy_name b) s of
         None \<Rightarrow> rejected authenticated ''masking policy binding references a missing policy''
       | Some p \<Rightarrow> and_then (masked_columns E s authenticated identity bs) (\<lambda>ms.
           Inr ((mb_column_name b, SubstituteValPlaceholder (pe_util E) (mp_expression p) (QuoteCatalogIdentifier (mb_column_name b))) # ms)))"

definition where_expression :: "policy_env \<Rightarrow> 'v QuackapiState \<Rightarrow> bool \<Rightarrow> QuackapiRowAccessBinding option \<Rightarrow> policy_stop + string" where
  "where_expression E s authenticated rap = (case rap of
     None \<Rightarrow> Inr []
   | Some b \<Rightarrow> (case GetRowAccessPolicy (rb_policy_name b) s of
       None \<Rightarrow> rejected authenticated ''row-access policy binding references a missing policy''
     | Some p \<Rightarrow> Inr (ReplacePolicyIdentifiers (pe_util E) (ra_expression p) (ra_arg_columns p) (rb_columns b))))"

definition ParseSecureSubquery :: "policy_env \<Rightarrow> string \<Rightarrow> query option" where
  "ParseSecureSubquery E sql = (case pe_parse E sql of Some [SelectStatement q] \<Rightarrow> Some q | _ \<Rightarrow> None)"

text \<open>A table that is not a common table expression: \<open>None\<close> leaves it as it is, \<open>Some\<close> is the query that replaces it.\<close>

definition secure_source :: "policy_env \<Rightarrow> 'v QuackapiState \<Rightarrow> bool \<Rightarrow> PolicyTableIdentity \<Rightarrow> policy_stop + query option" where
  "secure_source E s authenticated identity =
     and_then (first_bound E authenticated rb_table_name identity (row_access_bindings s)) (\<lambda>rap.
     and_then (first_bound E authenticated mb_table_name identity (masking_bindings s)) (\<lambda>mask.
       if rap = None \<and> mask = None then Inr None
       else if \<not> authenticated then Inl ([], True)
       else and_then (where_expression E s authenticated rap) (\<lambda>where_expr.
            and_then (masked_columns E s authenticated identity (masking_bindings s)) (\<lambda>masked.
              case ParseSecureSubquery E (BuildSecureSubqueryQuoted (QuotePolicyTableIdentity identity) where_expr masked) of
                None \<Rightarrow> rejected authenticated ''policy enforcement could not construct a secure subquery''
              | Some q \<Rightarrow> Inr (Some q)))))"

definition is_cte :: "policy_env \<Rightarrow> string list \<Rightarrow> string \<Rightarrow> string \<Rightarrow> string \<Rightarrow> bool" where
  "is_cte E scope cat sch tab = (sch = [] \<and> cat = [] \<and> any (\<lambda>n. SameCatalogIdentifier (pe_util E) n tab) scope)"

definition rewrite_base :: "policy_env \<Rightarrow> 'v QuackapiState \<Rightarrow> bool \<Rightarrow> string list \<Rightarrow> string \<Rightarrow> string \<Rightarrow> string \<Rightarrow> string
    \<Rightarrow> expr option \<Rightarrow> policy_stop + table_ref" where
  "rewrite_base E s authenticated scope cat sch tab alias version =
     (let same = BaseTableRef cat sch tab alias version; identity = IdentityFromName (cat, sch, tab) (pe_default_catalog E)
      in if is_cte E scope cat sch tab then Inr same
         else case pe_is_view E identity of
           None \<Rightarrow> rejected authenticated ''policy enforcement could not resolve catalog object identity''
         | Some is_view \<Rightarrow>
             if is_view then rejected authenticated ''policy enforcement rejects indirect view reads''
             else and_then (secure_source E s authenticated identity) (\<lambda>r. case r of
               None \<Rightarrow> Inr same
             | Some q \<Rightarrow> Inr (SubqueryRef q (if alias = [] then tab else alias))))"

fun RewritePolicyExpression :: "policy_env \<Rightarrow> 'v QuackapiState \<Rightarrow> bool \<Rightarrow> string list \<Rightarrow> expr \<Rightarrow> policy_stop + expr"
  and RewritePolicyTableRef :: "policy_env \<Rightarrow> 'v QuackapiState \<Rightarrow> bool \<Rightarrow> string list \<Rightarrow> table_ref \<Rightarrow> policy_stop + table_ref"
  and RewritePolicyQueryNode :: "policy_env \<Rightarrow> 'v QuackapiState \<Rightarrow> bool \<Rightarrow> string list \<Rightarrow> query \<Rightarrow> policy_stop + query" where
  "RewritePolicyExpression E s auth scope (FunctionExpression name children z) =
     (case pe_is_macro E name of
        None \<Rightarrow> rejected auth ''policy enforcement could not inspect a nested expression''
      | Some is_macro \<Rightarrow>
          if is_macro then rejected auth ''policy enforcement rejects scalar macro dependencies''
          else and_then (each (RewritePolicyExpression E s auth scope) children) (\<lambda>cs. Inr (FunctionExpression name cs z)))"
| "RewritePolicyExpression E s auth scope (SubqueryExpression q children z) =
     (case RewritePolicyQueryNode E s auth scope q of
        Inl stop \<Rightarrow> Inl (if fst stop = [] then Reject auth stop ''policy enforcement could not inspect a nested subquery'' else stop)
      | Inr q' \<Rightarrow> and_then (each (RewritePolicyExpression E s auth scope) children) (\<lambda>cs. Inr (SubqueryExpression q' cs z)))"
| "RewritePolicyExpression E s auth scope (OtherExpression children z) =
     and_then (each (RewritePolicyExpression E s auth scope) children) (\<lambda>cs. Inr (OtherExpression cs z))"
| "RewritePolicyTableRef E s auth scope (BaseTableRef cat sch tab alias version) = rewrite_base E s auth scope cat sch tab alias version"
| "RewritePolicyTableRef E s auth scope (SubqueryRef q alias) =
     and_then (RewritePolicyQueryNode E s auth scope q) (\<lambda>q'. Inr (SubqueryRef q' alias))"
| "RewritePolicyTableRef E s auth scope (JoinRef l r cond z) =
     and_then (RewritePolicyTableRef E s auth scope l) (\<lambda>l'. and_then (RewritePolicyTableRef E s auth scope r) (\<lambda>r'.
       and_then (maybe (RewritePolicyExpression E s auth scope) cond) (\<lambda>c'. Inr (JoinRef l' r' c' z))))"
| "RewritePolicyTableRef E s auth scope (PivotRef src aggregates columns z) =
     and_then (RewritePolicyTableRef E s auth scope src) (\<lambda>src'.
       and_then (each (RewritePolicyExpression E s auth scope) aggregates) (\<lambda>as. Inr (PivotRef src' as columns z)))"
| "RewritePolicyTableRef E s auth scope (TableFunctionRef z) = rejected auth ''policy enforcement rejects table functions and table macros''"
| "RewritePolicyTableRef E s auth scope (CteTableRef z) = Inr (CteTableRef z)"
| "RewritePolicyTableRef E s auth scope EmptyTableRef = Inr EmptyTableRef"
| "RewritePolicyTableRef E s auth scope (ExpressionListRef rows z) =
     and_then (each (each (RewritePolicyExpression E s auth scope)) rows) (\<lambda>rows'. Inr (ExpressionListRef rows' z))"
| "RewritePolicyTableRef E s auth scope (OtherTableRef z) = rejected auth ''policy enforcement rejects an unsupported relation source''"
| "RewritePolicyQueryNode E s auth scope (SelectNode ctes source select_list grouping where_clause having qualify modifiers z) =
     and_then (each_cte (RewritePolicyQueryNode E s auth) auth scope ctes) (\<lambda>(ctes', scope').
     and_then (maybe (RewritePolicyTableRef E s auth scope') source) (\<lambda>source'.
     and_then (each (RewritePolicyExpression E s auth scope') select_list) (\<lambda>select_list'.
     and_then (each (RewritePolicyExpression E s auth scope') grouping) (\<lambda>grouping'.
     and_then (maybe (RewritePolicyExpression E s auth scope') where_clause) (\<lambda>where_clause'.
     and_then (maybe (RewritePolicyExpression E s auth scope') having) (\<lambda>having'.
     and_then (maybe (RewritePolicyExpression E s auth scope') qualify) (\<lambda>qualify'.
     and_then (each (RewritePolicyExpression E s auth scope') modifiers) (\<lambda>modifiers'.
       Inr (SelectNode ctes' source' select_list' grouping' where_clause' having' qualify' modifiers' z)))))))))"
| "RewritePolicyQueryNode E s auth scope (SetOperationNode ctes children modifiers z) =
     and_then (each_cte (RewritePolicyQueryNode E s auth) auth scope ctes) (\<lambda>(ctes', scope').
     and_then (each (RewritePolicyQueryNode E s auth scope') children) (\<lambda>children'.
     and_then (each (RewritePolicyExpression E s auth scope') modifiers) (\<lambda>modifiers'.
       Inr (SetOperationNode ctes' children' modifiers' z))))"
| "RewritePolicyQueryNode E s auth scope (OtherNode ctes z) =
     and_then (each_cte (RewritePolicyQueryNode E s auth) auth scope ctes) (\<lambda>_.
       rejected auth ''policy enforcement rejects an unsupported query form'')"


definition refused :: "string \<Rightarrow> bool \<Rightarrow> policy_stop \<Rightarrow> string \<times> bool \<times> string" where
  "refused handler_sql authenticated stop =
     (case stop of (err, deny) \<Rightarrow> (handler_sql, deny \<or> err \<noteq> [] \<and> \<not> authenticated, err))"

text \<open>The text to run, whether an unauthenticated caller is denied, and the error.\<close>

definition RewriteHandlerWithPolicies :: "policy_env \<Rightarrow> 'v QuackapiState \<Rightarrow> string \<Rightarrow> bool \<Rightarrow> string \<times> bool \<times> string" where
  "RewriteHandlerWithPolicies E s handler_sql authenticated =
     (let refuse = (\<lambda>reason. refused handler_sql authenticated (Reject authenticated ([], False) reason))
      in if row_access_bindings s = [] \<and> masking_bindings s = [] then (handler_sql, False, [])
         else case pe_parse E handler_sql of
           None \<Rightarrow> refuse ''policy enforcement could not parse handler SQL''
         | Some [SelectStatement q] \<Rightarrow> (case RewritePolicyQueryNode E s authenticated [] q of
             Inl stop \<Rightarrow> refused handler_sql authenticated stop
           | Inr q' \<Rightarrow> (pe_print E q', False, []))
         | Some _ \<Rightarrow> refuse ''policy enforcement supports one SELECT statement per handler'')"

definition HandlerTouchesPoliciedTable :: "policy_env \<Rightarrow> 'v QuackapiState \<Rightarrow> string \<Rightarrow> bool" where
  "HandlerTouchesPoliciedTable E s handler_sql =
     (case RewriteHandlerWithPolicies E s handler_sql False of (_, deny, err) \<Rightarrow> deny \<or> err \<noteq> [])"

section \<open>What the rewriting guarantees\<close>

text \<open>
  What the rewriting has inspected, stated on the tree that results: a table is bound when some
  binding names it, as the code reads names; a tree is guarded when every table it reads is a common table expression in scope or
  a table of the catalog (no view) that is not bound, when it calls no macro, and when it has no table
  function and no source or node of an unknown kind. A subquery is exempt when \<open>exempt\<close> accepts it.
\<close>

definition bound_table :: "policy_env \<Rightarrow> 'v QuackapiState \<Rightarrow> PolicyTableIdentity \<Rightarrow> bool" where
  "bound_table E s identity = list_ex (\<lambda>t. case BindingIdentity E t of
       None \<Rightarrow> False | Some i \<Rightarrow> SamePolicyTableIdentity (pe_util E) identity i)
     (map rb_table_name (row_access_bindings s) @ map mb_table_name (masking_bindings s))"

fun scoped_ctes :: "(string list \<Rightarrow> query \<Rightarrow> bool) \<Rightarrow> string list \<Rightarrow> (string \<times> query) list \<Rightarrow> bool" where
  "scoped_ctes P scope [] = True"
| "scoped_ctes P scope ((name, q) # ctes) = (P scope q \<and> scoped_ctes P (scope @ [name]) ctes)"

lemma scoped_ctes_cong [fundef_cong]:
  assumes "scope = scope'" "ctes = ctes'" "\<And>sc n q. (n, q) \<in> set ctes' \<Longrightarrow> P sc q = Q sc q"
  shows "scoped_ctes P scope ctes = scoped_ctes Q scope' ctes'"
  using assms(3) unfolding assms(1,2)
proof (induction ctes' arbitrary: scope')
  case (Cons c ctes')
  obtain n q where c: "c = (n, q)" by fastforce
  have "P scope' q = Q scope' q" by (rule Cons.prems [of n]) (simp add: c)
  moreover have "scoped_ctes P sc ctes' = scoped_ctes Q sc ctes'" for sc using Cons.IH [of sc] Cons.prems by (meson list.set_intros(2))
  ultimately show ?case by (simp add: c)
qed simp

fun guarded_expr :: "policy_env \<Rightarrow> 'v QuackapiState \<Rightarrow> (query \<Rightarrow> bool) \<Rightarrow> string list \<Rightarrow> expr \<Rightarrow> bool"
  and guarded_ref :: "policy_env \<Rightarrow> 'v QuackapiState \<Rightarrow> (query \<Rightarrow> bool) \<Rightarrow> string list \<Rightarrow> table_ref \<Rightarrow> bool"
  and guarded :: "policy_env \<Rightarrow> 'v QuackapiState \<Rightarrow> (query \<Rightarrow> bool) \<Rightarrow> string list \<Rightarrow> query \<Rightarrow> bool" where
  "guarded_expr E s exempt scope (FunctionExpression name children z) =
     (pe_is_macro E name = Some False \<and> list_all (guarded_expr E s exempt scope) children)"
| "guarded_expr E s exempt scope (SubqueryExpression q children z) =
     (guarded E s exempt scope q \<and> list_all (guarded_expr E s exempt scope) children)"
| "guarded_expr E s exempt scope (OtherExpression children z) = list_all (guarded_expr E s exempt scope) children"
| "guarded_ref E s exempt scope (BaseTableRef cat sch tab alias version) =
     (is_cte E scope cat sch tab \<or> (let i = IdentityFromName (cat, sch, tab) (pe_default_catalog E)
        in pe_is_view E i = Some False \<and> \<not> bound_table E s i))"
| "guarded_ref E s exempt scope (SubqueryRef q alias) = (exempt q \<or> guarded E s exempt scope q)"
| "guarded_ref E s exempt scope (JoinRef l r cond z) =
     (guarded_ref E s exempt scope l \<and> guarded_ref E s exempt scope r \<and> pred_option (guarded_expr E s exempt scope) cond)"
| "guarded_ref E s exempt scope (PivotRef src aggregates columns z) =
     (guarded_ref E s exempt scope src \<and> list_all (guarded_expr E s exempt scope) aggregates)"
| "guarded_ref E s exempt scope (TableFunctionRef z) = False"
| "guarded_ref E s exempt scope (CteTableRef z) = True"
| "guarded_ref E s exempt scope EmptyTableRef = True"
| "guarded_ref E s exempt scope (ExpressionListRef rows z) = list_all (list_all (guarded_expr E s exempt scope)) rows"
| "guarded_ref E s exempt scope (OtherTableRef z) = False"
| "guarded E s exempt scope (SelectNode ctes source select_list grouping where_clause having qualify modifiers z) =
     (let scope' = scope @ map fst ctes
      in scoped_ctes (guarded E s exempt) scope ctes \<and> pred_option (guarded_ref E s exempt scope') source \<and>
         list_all (guarded_expr E s exempt scope') select_list \<and> list_all (guarded_expr E s exempt scope') grouping \<and>
         pred_option (guarded_expr E s exempt scope') where_clause \<and> pred_option (guarded_expr E s exempt scope') having \<and>
         pred_option (guarded_expr E s exempt scope') qualify \<and> list_all (guarded_expr E s exempt scope') modifiers)"
| "guarded E s exempt scope (SetOperationNode ctes children modifiers z) =
     (let scope' = scope @ map fst ctes
      in scoped_ctes (guarded E s exempt) scope ctes \<and> list_all (guarded E s exempt scope') children \<and>
         list_all (guarded_expr E s exempt scope') modifiers)"
| "guarded E s exempt scope (OtherNode ctes z) = False"

text \<open>
  The guarantee the policies are for is stated without the code's reading of names, on the whole tree.
  A name is resolved as DuckDB does: a name of two parts is \<open>catalog.table\<close> when a database of the first
  part's name is attached, and \<open>schema.table\<close> otherwise. A table has a policy when the name of some
  binding resolves to it. A tree is protected when every table it reads is a common table expression in
  scope or a table of the catalog (no view) without a policy, when it calls no macro, and when it has no
  table function and no source or node of an unknown kind, in every expression and query it holds.
\<close>

definition ResolvedIdentity :: "policy_env \<Rightarrow> string \<times> string \<times> string \<Rightarrow> PolicyTableIdentity" where
  "ResolvedIdentity E name = (case name of (cat, sch, tab) \<Rightarrow>
     if cat \<noteq> [] \<and> sch \<noteq> [] then \<lparr>pt_catalog = cat, pt_schema = sch, pt_table = tab\<rparr>
     else if cat \<noteq> [] then \<lparr>pt_catalog = cat, pt_schema = ''main'', pt_table = tab\<rparr>
     else if sch = [] then \<lparr>pt_catalog = pe_default_catalog E, pt_schema = ''main'', pt_table = tab\<rparr>
     else if pe_attached E sch then \<lparr>pt_catalog = sch, pt_schema = ''main'', pt_table = tab\<rparr>
     else \<lparr>pt_catalog = pe_default_catalog E, pt_schema = sch, pt_table = tab\<rparr>)"

definition folded :: "policy_env \<Rightarrow> PolicyTableIdentity \<Rightarrow> string list" where
  "folded E i = map (su_lower (pe_util E)) [pt_catalog i, pt_schema i, pt_table i]"

definition policied_table :: "policy_env \<Rightarrow> 'v QuackapiState \<Rightarrow> PolicyTableIdentity \<Rightarrow> bool" where
  "policied_table E s i = list_ex (\<lambda>t. case pe_name E t of None \<Rightarrow> False | Some name \<Rightarrow> folded E (ResolvedIdentity E name) = folded E i)
     (map rb_table_name (row_access_bindings s) @ map mb_table_name (masking_bindings s))"

fun protected_expr :: "policy_env \<Rightarrow> 'v QuackapiState \<Rightarrow> (query \<Rightarrow> bool) \<Rightarrow> string list \<Rightarrow> expr \<Rightarrow> bool"
  and protected_ref :: "policy_env \<Rightarrow> 'v QuackapiState \<Rightarrow> (query \<Rightarrow> bool) \<Rightarrow> string list \<Rightarrow> table_ref \<Rightarrow> bool"
  and protected :: "policy_env \<Rightarrow> 'v QuackapiState \<Rightarrow> (query \<Rightarrow> bool) \<Rightarrow> string list \<Rightarrow> query \<Rightarrow> bool" where
  "protected_expr E s exempt scope (FunctionExpression name children z) =
     (pe_is_macro E name = Some False \<and> list_all (protected_expr E s exempt scope) children)"
| "protected_expr E s exempt scope (SubqueryExpression q children z) =
     (protected E s exempt scope q \<and> list_all (protected_expr E s exempt scope) children)"
| "protected_expr E s exempt scope (OtherExpression children z) = list_all (protected_expr E s exempt scope) children"
| "protected_ref E s exempt scope (BaseTableRef cat sch tab alias version) =
     ((is_cte E scope cat sch tab \<or> (let i = ResolvedIdentity E (cat, sch, tab)
         in pe_is_view E i = Some False \<and> \<not> policied_table E s i)) \<and> pred_option (protected_expr E s exempt scope) version)"
| "protected_ref E s exempt scope (SubqueryRef q alias) = (exempt q \<or> protected E s exempt scope q)"
| "protected_ref E s exempt scope (JoinRef l r cond z) =
     (protected_ref E s exempt scope l \<and> protected_ref E s exempt scope r \<and> pred_option (protected_expr E s exempt scope) cond)"
| "protected_ref E s exempt scope (PivotRef src aggregates columns z) =
     (protected_ref E s exempt scope src \<and> list_all (protected_expr E s exempt scope) aggregates \<and>
      list_all (\<lambda>(es, entries, vals). list_all (protected_expr E s exempt scope) es \<and>
        list_all (protected_expr E s exempt scope) entries \<and> pred_option (protected E s exempt scope) vals) columns)"
| "protected_ref E s exempt scope (TableFunctionRef z) = False"
| "protected_ref E s exempt scope (CteTableRef z) = True"
| "protected_ref E s exempt scope EmptyTableRef = True"
| "protected_ref E s exempt scope (ExpressionListRef rows z) = list_all (list_all (protected_expr E s exempt scope)) rows"
| "protected_ref E s exempt scope (OtherTableRef z) = False"
| "protected E s exempt scope (SelectNode ctes source select_list grouping where_clause having qualify modifiers z) =
     (let scope' = scope @ map fst ctes
      in scoped_ctes (protected E s exempt) scope ctes \<and> pred_option (protected_ref E s exempt scope') source \<and>
         list_all (protected_expr E s exempt scope') select_list \<and> list_all (protected_expr E s exempt scope') grouping \<and>
         pred_option (protected_expr E s exempt scope') where_clause \<and> pred_option (protected_expr E s exempt scope') having \<and>
         pred_option (protected_expr E s exempt scope') qualify \<and> list_all (protected_expr E s exempt scope') modifiers)"
| "protected E s exempt scope (SetOperationNode ctes children modifiers z) =
     (let scope' = scope @ map fst ctes
      in scoped_ctes (protected E s exempt) scope ctes \<and> list_all (protected E s exempt scope') children \<and>
         list_all (protected_expr E s exempt scope') modifiers)"
| "protected E s exempt scope (OtherNode ctes z) = False"

text \<open>
  The handlers for which the inspection amounts to the guarantee. No name in them, and none of a binding,
  has two parts of which the first is an attached database; a table has no version, and the columns of a
  \<open>PIVOT\<close> have neither calls nor queries. \<open>catalog_qualified_read_unguarded\<close> and
  \<open>pivot_columns_unguarded\<close> below show what happens otherwise.
\<close>

definition plain_name :: "policy_env \<Rightarrow> string \<times> string \<times> string \<Rightarrow> bool" where
  "plain_name E name = (case name of (cat, sch, tab) \<Rightarrow> cat \<noteq> [] \<or> sch = [] \<or> \<not> pe_attached E sch)"

definition plain_bindings :: "policy_env \<Rightarrow> 'v QuackapiState \<Rightarrow> bool" where
  "plain_bindings E s = list_all (\<lambda>t. case pe_name E t of None \<Rightarrow> True | Some name \<Rightarrow> plain_name E name \<and> snd (snd name) \<noteq> [])
     (map rb_table_name (row_access_bindings s) @ map mb_table_name (masking_bindings s))"

fun simple_expr :: "expr \<Rightarrow> bool" where
  "simple_expr (FunctionExpression name children z) = False"
| "simple_expr (SubqueryExpression q children z) = False"
| "simple_expr (OtherExpression children z) = list_all simple_expr children"

fun inspectable_expr :: "policy_env \<Rightarrow> expr \<Rightarrow> bool"
  and inspectable_ref :: "policy_env \<Rightarrow> table_ref \<Rightarrow> bool"
  and inspectable :: "policy_env \<Rightarrow> query \<Rightarrow> bool" where
  "inspectable_expr E (FunctionExpression name children z) = list_all (inspectable_expr E) children"
| "inspectable_expr E (SubqueryExpression q children z) = (inspectable E q \<and> list_all (inspectable_expr E) children)"
| "inspectable_expr E (OtherExpression children z) = list_all (inspectable_expr E) children"
| "inspectable_ref E (BaseTableRef cat sch tab alias version) = (plain_name E (cat, sch, tab) \<and> version = None)"
| "inspectable_ref E (SubqueryRef q alias) = inspectable E q"
| "inspectable_ref E (JoinRef l r cond z) = (inspectable_ref E l \<and> inspectable_ref E r \<and> pred_option (inspectable_expr E) cond)"
| "inspectable_ref E (PivotRef src aggregates columns z) =
     (inspectable_ref E src \<and> list_all (inspectable_expr E) aggregates \<and>
      list_all (\<lambda>(es, entries, vals). list_all simple_expr es \<and> list_all simple_expr entries \<and> vals = None) columns)"
| "inspectable_ref E (TableFunctionRef z) = True"
| "inspectable_ref E (CteTableRef z) = True"
| "inspectable_ref E EmptyTableRef = True"
| "inspectable_ref E (ExpressionListRef rows z) = list_all (list_all (inspectable_expr E)) rows"
| "inspectable_ref E (OtherTableRef z) = True"
| "inspectable E (SelectNode ctes source select_list grouping where_clause having qualify modifiers z) =
     (list_all (\<lambda>(n, q). inspectable E q) ctes \<and> pred_option (inspectable_ref E) source \<and>
      list_all (inspectable_expr E) select_list \<and> list_all (inspectable_expr E) grouping \<and>
      pred_option (inspectable_expr E) where_clause \<and> pred_option (inspectable_expr E) having \<and>
      pred_option (inspectable_expr E) qualify \<and> list_all (inspectable_expr E) modifiers)"
| "inspectable E (SetOperationNode ctes children modifiers z) =
     (list_all (\<lambda>(n, q). inspectable E q) ctes \<and> list_all (inspectable E) children \<and> list_all (inspectable_expr E) modifiers)"
| "inspectable E (OtherNode ctes z) = True"

text \<open>The query that stands for a protected table: the only one that may read it.\<close>

definition secures :: "policy_env \<Rightarrow> 'v QuackapiState \<Rightarrow> PolicyTableIdentity \<Rightarrow> query \<Rightarrow> bool" where
  "secures E s identity q = (bound_table E s identity \<and> (\<exists>rap where_expr masked.
     first_bound E True rb_table_name identity (row_access_bindings s) = Inr rap \<and> where_expression E s True rap = Inr where_expr \<and>
     masked_columns E s True identity (masking_bindings s) = Inr masked \<and>
     pe_parse E (BuildSecureSubqueryQuoted (QuotePolicyTableIdentity identity) where_expr masked) = Some [SelectStatement q]))"

definition secure_query :: "policy_env \<Rightarrow> 'v QuackapiState \<Rightarrow> query \<Rightarrow> bool" where
  "secure_query E s q = (\<exists>identity. secures E s identity q)"

lemma each_Inr: "each f xs = Inr ys \<longleftrightarrow> list_all2 (\<lambda>x y. f x = Inr y) xs ys"
  by (induction xs arbitrary: ys) (auto simp: and_then_Inr list_all2_Cons1)

lemma maybe_Inr: "maybe f x = Inr y \<longleftrightarrow> rel_option (\<lambda>a b. f a = Inr b) x y"
  by (cases x; cases y) (auto simp: and_then_Inr)

lemma each_cte_Inr:
  assumes "each_cte f b scope ctes = Inr (ctes', scope')" and "\<And>sc n q q'. (n, q) \<in> set ctes \<Longrightarrow> f sc q = Inr q' \<Longrightarrow> P sc q'"
  shows "scope' = scope @ map fst ctes \<and> map fst ctes' = map fst ctes \<and> scoped_ctes P scope ctes'"
  using assms
proof (induction ctes arbitrary: scope ctes')
  case (Cons c ctes)
  obtain n q where c: "c = (n, q)" by fastforce
  with Cons.prems(1) obtain q' rest where q': "f scope q = Inr q'" "ctes' = (n, q') # rest"
    and rest: "each_cte f b (scope @ [n]) ctes = Inr (rest, scope')"
    by (auto simp: and_then_Inr split: sum.split_asm)
  have "P scope q'" by (rule Cons.prems(2) [OF _ q'(1), of n]) (simp add: c)
  moreover have "scope' = (scope @ [n]) @ map fst ctes \<and> map fst rest = map fst ctes \<and> scoped_ctes P (scope @ [n]) rest"
    by (rule Cons.IH [OF rest], rule Cons.prems(2)) auto
  ultimately show ?case by (simp add: c q'(2))
qed simp

lemma each_cte_same:
  assumes "each_cte f b scope ctes = Inr (ctes', scope')" and "\<And>sc n q q'. (n, q) \<in> set ctes \<Longrightarrow> f sc q = Inr q' \<Longrightarrow> q' = q"
  shows "ctes' = ctes"
  using assms
proof (induction ctes arbitrary: scope ctes')
  case (Cons c ctes)
  obtain n q where c: "c = (n, q)" by fastforce
  with Cons.prems(1) obtain q' rest where q': "f scope q = Inr q'" "ctes' = (n, q') # rest"
    and rest: "each_cte f b (scope @ [n]) ctes = Inr (rest, scope')"
    by (auto simp: and_then_Inr split: sum.split_asm)
  have "q' = q" by (rule Cons.prems(2) [OF _ q'(1), of n]) (simp add: c)
  moreover have "rest = ctes" by (rule Cons.IH [OF rest]) (rule Cons.prems(2), auto)
  ultimately show ?case by (simp add: c q'(2))
qed simp

lemma each_sound:
  "list_all2 (\<lambda>x y. f x = Inr y) xs ys \<Longrightarrow> (\<And>x y. x \<in> set xs \<Longrightarrow> f x = Inr y \<Longrightarrow> P y \<and> (a \<or> y = x) \<and> (I x \<longrightarrow> Q y)) \<Longrightarrow>
     list_all P ys \<and> (a \<or> ys = xs) \<and> (list_all I xs \<longrightarrow> list_all Q ys)"
  by (induction xs ys rule: list_all2_induct) auto

lemma each_each_sound:
  assumes "list_all2 (\<lambda>xs ys. each f xs = Inr ys) xss yss" and "\<And>xs x y. xs \<in> set xss \<Longrightarrow> x \<in> set xs \<Longrightarrow> f x = Inr y \<Longrightarrow> P y \<and> (a \<or> y = x) \<and> (I x \<longrightarrow> Q y)"
  shows "list_all (list_all P) yss \<and> (a \<or> yss = xss) \<and> (list_all (list_all I) xss \<longrightarrow> list_all (list_all Q) yss)"
proof (rule each_sound [OF assms(1)])
  fix xs ys assume "xs \<in> set xss" "each f xs = Inr ys"
  then show "list_all P ys \<and> (a \<or> ys = xs) \<and> (list_all I xs \<longrightarrow> list_all Q ys)" unfolding each_Inr using assms(2) by (intro each_sound [where f = f]) blast+
qed

lemma maybe_sound:
  "rel_option (\<lambda>x y. f x = Inr y) x y \<Longrightarrow> (\<And>c d. c \<in> set_option x \<Longrightarrow> f c = Inr d \<Longrightarrow> P d \<and> (a \<or> d = c) \<and> (I c \<longrightarrow> Q d)) \<Longrightarrow>
     pred_option P y \<and> (a \<or> y = x) \<and> (pred_option I x \<longrightarrow> pred_option Q y)"
  by (cases x; cases y) auto

text \<open>Which tables are bound.\<close>

lemma first_bound_Inr:
  "first_bound E auth tab i bs = Inr r \<Longrightarrow>
     (case r of None \<Rightarrow> False | Some _ \<Rightarrow> True) = list_ex (\<lambda>t. case BindingIdentity E t of None \<Rightarrow> False | Some j \<Rightarrow> SamePolicyTableIdentity (pe_util E) i j) (map tab bs)"
  by (induction bs) (auto simp: rejected_def split: option.splits if_splits)

lemma first_bound_auth: "first_bound E auth tab i bs = Inr r \<Longrightarrow> first_bound E auth' tab i bs = Inr r"
  by (induction bs) (auto simp: rejected_def split: option.splits if_splits)

lemma secure_source_None:
  assumes "secure_source E s auth i = Inr None"
  shows "\<not> bound_table E s i"
proof -
  from assms have "first_bound E auth rb_table_name i (row_access_bindings s) = Inr None" "first_bound E auth mb_table_name i (masking_bindings s) = Inr None"
    by (auto simp: secure_source_def and_then_Inr rejected_def split: if_split_asm option.split_asm)
  then show ?thesis by (auto simp: bound_table_def dest!: first_bound_Inr)
qed

lemma secure_source_Some:
  assumes "secure_source E s auth i = Inr (Some q)"
  shows "auth \<and> secures E s i q"
proof -
  from assms obtain rap mask where b: "first_bound E auth rb_table_name i (row_access_bindings s) = Inr rap"
      "first_bound E auth mb_table_name i (masking_bindings s) = Inr mask" "\<not> (rap = None \<and> mask = None)" and auth: auth
    and "\<exists>w masked. where_expression E s auth rap = Inr w \<and> masked_columns E s auth i (masking_bindings s) = Inr masked \<and>
      ParseSecureSubquery E (BuildSecureSubqueryQuoted (QuotePolicyTableIdentity i) w masked) = Some q"
    by (auto simp: secure_source_def and_then_Inr rejected_def split: if_split_asm option.split_asm)
  then obtain w masked where r: "where_expression E s True rap = Inr w" "masked_columns E s True i (masking_bindings s) = Inr masked"
      "ParseSecureSubquery E (BuildSecureSubqueryQuoted (QuotePolicyTableIdentity i) w masked) = Some q" by auto
  from r(3) have "pe_parse E (BuildSecureSubqueryQuoted (QuotePolicyTableIdentity i) w masked) = Some [SelectStatement q]"
    by (auto simp: ParseSecureSubquery_def split: option.split_asm list.split_asm sql_statement.split_asm)
  moreover have "bound_table E s i"
    using first_bound_Inr [OF b(1)] first_bound_Inr [OF b(2)] b(3) by (auto simp: bound_table_def split: option.split_asm)
  ultimately show ?thesis using b(1) r auth unfolding secures_def by auto
qed

abbreviation exempt_for :: "policy_env \<Rightarrow> 'v QuackapiState \<Rightarrow> bool \<Rightarrow> query \<Rightarrow> bool" where
  "exempt_for E s auth q \<equiv> (auth \<and> secure_query E s q)"

lemma plain_resolved: "plain_name E name \<Longrightarrow> ResolvedIdentity E name = IdentityFromName name (pe_default_catalog E)"
  by (auto simp: plain_name_def ResolvedIdentity_def IdentityFromName_def split: prod.splits)

lemma policied_bound:
  assumes "plain_bindings E s" "policied_table E s i"
  shows "bound_table E s i"
proof -
  let ?ts = "map rb_table_name (row_access_bindings s) @ map mb_table_name (masking_bindings s)"
  obtain t where "t \<in> set ?ts" and c: "case pe_name E t of None \<Rightarrow> False | Some name \<Rightarrow> folded E (ResolvedIdentity E name) = folded E i"
    using assms(2) unfolding policied_table_def list_ex_iff by blast
  moreover obtain name where "pe_name E t = Some name" using c by (cases "pe_name E t") simp_all
  ultimately have t: "t \<in> set ?ts" "pe_name E t = Some name" "folded E (ResolvedIdentity E name) = folded E i" by simp_all
  have "case pe_name E t of None \<Rightarrow> True | Some n \<Rightarrow> plain_name E n \<and> snd (snd n) \<noteq> []"
    using assms(1) t(1) unfolding plain_bindings_def list_all_iff by blast
  with t(2) have p: "plain_name E name" "snd (snd name) \<noteq> []" by simp_all
  let ?j = "IdentityFromName name (pe_default_catalog E)"
  have "BindingIdentity E t = Some ?j"
    using t(2) p(2) by (cases name) (simp add: BindingIdentity_def IdentityFromName_def)
  moreover have "SamePolicyTableIdentity (pe_util E) i ?j"
    using t(3) plain_resolved [OF p(1)] by (simp add: folded_def SamePolicyTableIdentity_def SameCatalogIdentifier_def)
  ultimately show ?thesis using t(1) by (auto simp: bound_table_def list_ex_iff intro!: bexI [of _ t])
qed

lemma rewrite_base_sound:
  assumes "rewrite_base E s auth scope cat sch tab alias version = Inr r"
  shows "guarded_ref E s (exempt_for E s auth) scope r \<and> (auth \<or> r = BaseTableRef cat sch tab alias version) \<and>
    (plain_bindings E s \<and> inspectable_ref E (BaseTableRef cat sch tab alias version) \<longrightarrow> protected_ref E s (exempt_for E s auth) scope r)"
proof (cases "is_cte E scope cat sch tab")
  case False
  let ?i = "IdentityFromName (cat, sch, tab) (pe_default_catalog E)"
  from False assms obtain o' where v: "pe_is_view E ?i = Some False" and src: "secure_source E s auth ?i = Inr o'"
    and r: "r = (case o' of None \<Rightarrow> BaseTableRef cat sch tab alias version | Some q \<Rightarrow> SubqueryRef q (if alias = [] then tab else alias))"
    by (auto simp: rewrite_base_def Let_def rejected_def and_then_Inr split: option.split_asm if_split_asm)
  show ?thesis
  proof (cases o')
    case None
    have "\<not> bound_table E s ?i" using src None secure_source_None by blast
    then show ?thesis using v r None plain_resolved policied_bound [of E s ?i] by (auto simp: Let_def)
  next
    case (Some q)
    then show ?thesis using src r secure_source_Some [of E s auth ?i q] by (auto simp: secure_query_def)
  qed
qed (use assms in \<open>auto simp: rewrite_base_def\<close>)

lemma simple_protected: "simple_expr e \<Longrightarrow> protected_expr E s exempt scope e"
  by (induction e rule: simple_expr.induct) (auto simp: list_all_iff)

lemma each_cte_sound:
  assumes "each_cte f b scope ctes = Inr (ctes', scope')"
    and "\<And>c q sc q'. c \<in> set ctes \<Longrightarrow> q \<in> Basic_BNFs.snds c \<Longrightarrow> f sc q = Inr q' \<Longrightarrow> P sc q' \<and> (a \<or> q' = q) \<and> (I q \<longrightarrow> Q sc q')"
  shows "scope' = scope @ map fst ctes' \<and> scoped_ctes P scope ctes' \<and> (a \<or> ctes' = ctes) \<and>
    (list_all (\<lambda>(n, q). I q) ctes \<longrightarrow> scoped_ctes Q scope ctes')"
proof -
  have *: "P sc q' \<and> (a \<or> q' = q) \<and> (I q \<longrightarrow> Q sc q')" if "(n, q) \<in> set ctes" "f sc q = Inr q'" for n q sc q'
    using assms(2) [OF that(1) _ that(2)] by (simp add: snds.simps)
  have "scope' = scope @ map fst ctes \<and> map fst ctes' = map fst ctes \<and> scoped_ctes P scope ctes'"
    by (rule each_cte_Inr [OF assms(1)]) (use * in blast)
  moreover have "a \<or> ctes' = ctes" using each_cte_same [OF assms(1)] * by blast
  moreover have "scope' = scope @ map fst ctes \<and> map fst ctes' = map fst ctes \<and> scoped_ctes Q scope ctes'"
    if "list_all (\<lambda>(n, q). I q) ctes"
    by (rule each_cte_Inr [OF assms(1)]) (use * that in \<open>auto simp: list_all_iff\<close>)
  ultimately show ?thesis by simp
qed

lemma pred_under:
  "b \<Longrightarrow> list_all (\<lambda>x. b \<and> f x) xs = list_all f xs"
  "b \<Longrightarrow> list_all (\<lambda>(n, q). b \<and> g q) ctes = list_all (\<lambda>(n, q). g q) ctes"
  "b \<Longrightarrow> list_all (list_all (\<lambda>x. b \<and> f x)) xss = list_all (list_all f) xss"
  "b \<Longrightarrow> pred_option (\<lambda>x. b \<and> h x) c = pred_option h c"
  by simp_all

lemma simple_columns:
  "list_all (\<lambda>(es, entries, vals). list_all simple_expr es \<and> list_all simple_expr entries \<and> vals = None) columns \<Longrightarrow>
   list_all (\<lambda>(es, entries, vals). list_all (protected_expr E s exempt scope) es \<and>
     list_all (protected_expr E s exempt scope) entries \<and> pred_option (protected E s exempt scope) vals) columns"
  by (auto simp: list_all_iff simple_protected)

lemma rewrite_sound:
  "\<And>scope e'. RewritePolicyExpression E s auth scope e = Inr e' \<Longrightarrow> guarded_expr E s (exempt_for E s auth) scope e' \<and> (auth \<or> e' = e) \<and>
    (plain_bindings E s \<and> inspectable_expr E e \<longrightarrow> protected_expr E s (exempt_for E s auth) scope e')"
  "\<And>scope r'. RewritePolicyTableRef E s auth scope r = Inr r' \<Longrightarrow> guarded_ref E s (exempt_for E s auth) scope r' \<and> (auth \<or> r' = r) \<and>
    (plain_bindings E s \<and> inspectable_ref E r \<longrightarrow> protected_ref E s (exempt_for E s auth) scope r')"
  "\<And>scope q'. RewritePolicyQueryNode E s auth scope q = Inr q' \<Longrightarrow> guarded E s (exempt_for E s auth) scope q' \<and> (auth \<or> q' = q) \<and>
    (plain_bindings E s \<and> inspectable E q \<longrightarrow> protected E s (exempt_for E s auth) scope q')"
proof (induction e and r and q)
  case (FunctionExpression name children z)
  then obtain cs where m: "pe_is_macro E name = Some False" and cs: "list_all2 (\<lambda>x y. RewritePolicyExpression E s auth scope x = Inr y) children cs"
    and e': "e' = FunctionExpression name cs z"
    by (auto simp: rejected_def and_then_Inr each_Inr split: option.split_asm if_split_asm)
  from each_sound [where P = "guarded_expr E s (exempt_for E s auth) scope" and a = auth and I = "\<lambda>x. plain_bindings E s \<and> inspectable_expr E x"
      and Q = "protected_expr E s (exempt_for E s auth) scope", OF cs FunctionExpression.IH] m show ?case unfolding e' by (auto simp: pred_under)
next
  case (SubqueryExpression q children z)
  then obtain q' cs where q': "RewritePolicyQueryNode E s auth scope q = Inr q'"
    and cs: "list_all2 (\<lambda>x y. RewritePolicyExpression E s auth scope x = Inr y) children cs" and e': "e' = SubqueryExpression q' cs z"
    by (auto simp: and_then_Inr each_Inr split: sum.split_asm)
  from SubqueryExpression.IH(1) [OF q'] each_sound [where P = "guarded_expr E s (exempt_for E s auth) scope" and a = auth and I = "\<lambda>x. plain_bindings E s \<and> inspectable_expr E x"
      and Q = "protected_expr E s (exempt_for E s auth) scope", OF cs SubqueryExpression.IH(2)] show ?case unfolding e' by (auto simp: pred_under)
next
  case (OtherExpression children z)
  then obtain cs where cs: "list_all2 (\<lambda>x y. RewritePolicyExpression E s auth scope x = Inr y) children cs" and e': "e' = OtherExpression cs z"
    by (auto simp: and_then_Inr each_Inr)
  from each_sound [where P = "guarded_expr E s (exempt_for E s auth) scope" and a = auth and I = "\<lambda>x. plain_bindings E s \<and> inspectable_expr E x"
      and Q = "protected_expr E s (exempt_for E s auth) scope", OF cs OtherExpression.IH] show ?case unfolding e' by (auto simp: pred_under)
next
  case (SubqueryRef q al)
  then obtain q' where q': "RewritePolicyQueryNode E s auth scope q = Inr q'" and r': "r' = SubqueryRef q' al"
    by (auto simp: and_then_Inr)
  from SubqueryRef.IH [OF q'] show ?case unfolding r' by (auto simp: pred_under)
next
  case (JoinRef l r cond z)
  then obtain l' rr c' where l': "RewritePolicyTableRef E s auth scope l = Inr l'" and rr: "RewritePolicyTableRef E s auth scope r = Inr rr"
    and c': "rel_option (\<lambda>x y. RewritePolicyExpression E s auth scope x = Inr y) cond c'" and r': "r' = JoinRef l' rr c' z"
    by (auto simp: and_then_Inr maybe_Inr)
  from JoinRef.IH(1) [OF l'] JoinRef.IH(2) [OF rr] maybe_sound [where P = "guarded_expr E s (exempt_for E s auth) scope" and a = auth and I = "\<lambda>x. plain_bindings E s \<and> inspectable_expr E x"
      and Q = "protected_expr E s (exempt_for E s auth) scope", OF c' JoinRef.IH(3)] show ?case unfolding r' by (auto simp: pred_under)
next
  case (PivotRef src aggregates columns z)
  then obtain src' ags where src': "RewritePolicyTableRef E s auth scope src = Inr src'"
    and ags: "list_all2 (\<lambda>x y. RewritePolicyExpression E s auth scope x = Inr y) aggregates ags" and r': "r' = PivotRef src' ags columns z"
    by (auto simp: and_then_Inr each_Inr)
  note ags = each_sound [where P = "guarded_expr E s (exempt_for E s auth) scope" and a = auth and I = "\<lambda>x. plain_bindings E s \<and> inspectable_expr E x"
      and Q = "protected_expr E s (exempt_for E s auth) scope", OF ags PivotRef.IH(2)]
  then have "plain_bindings E s \<and> list_all (inspectable_expr E) aggregates \<longrightarrow> list_all (protected_expr E s (exempt_for E s auth) scope) ags"
    by (cases "plain_bindings E s") simp_all
  with PivotRef.IH(1) [OF src'] ags simple_columns [of columns E s "exempt_for E s auth" scope] show ?case
    unfolding r' guarded_ref.simps protected_ref.simps inspectable_ref.simps table_ref.inject by blast
next
  case (ExpressionListRef rows z)
  then obtain rs where rs: "list_all2 (\<lambda>xs ys. each (RewritePolicyExpression E s auth scope) xs = Inr ys) rows rs"
    and r': "r' = ExpressionListRef rs z" by (auto simp: and_then_Inr each_Inr [of "each f" for f])
  from each_each_sound [where P = "guarded_expr E s (exempt_for E s auth) scope" and a = auth and I = "\<lambda>x. plain_bindings E s \<and> inspectable_expr E x"
      and Q = "protected_expr E s (exempt_for E s auth) scope", OF rs ExpressionListRef.IH] show ?case unfolding r' by (auto simp: pred_under)
next
  case (SelectNode ctes source select_list grouping where_clause having qualify modifiers z)
  then obtain ctes' scope' source' sl gs w h qu ms where
      c: "each_cte (RewritePolicyQueryNode E s auth) auth scope ctes = Inr (ctes', scope')"
    and parts: "rel_option (\<lambda>a b. RewritePolicyTableRef E s auth scope' a = Inr b) source source'"
      "list_all2 (\<lambda>x y. RewritePolicyExpression E s auth scope' x = Inr y) select_list sl"
      "list_all2 (\<lambda>x y. RewritePolicyExpression E s auth scope' x = Inr y) grouping gs"
      "rel_option (\<lambda>x y. RewritePolicyExpression E s auth scope' x = Inr y) where_clause w"
      "rel_option (\<lambda>x y. RewritePolicyExpression E s auth scope' x = Inr y) having h"
      "rel_option (\<lambda>x y. RewritePolicyExpression E s auth scope' x = Inr y) qualify qu"
      "list_all2 (\<lambda>x y. RewritePolicyExpression E s auth scope' x = Inr y) modifiers ms"
    and q': "q' = SelectNode ctes' source' sl gs w h qu ms z"
    by (auto simp: and_then_Inr maybe_Inr each_Inr)
  let ?g = "guarded_expr E s (exempt_for E s auth) scope'" and ?p = "protected_expr E s (exempt_for E s auth) scope'"
    and ?i = "\<lambda>x. plain_bindings E s \<and> inspectable_expr E x"
  note sound = each_cte_sound [where P = "guarded E s (exempt_for E s auth)" and a = auth and I = "\<lambda>q. plain_bindings E s \<and> inspectable E q" and Q = "protected E s (exempt_for E s auth)", OF c SelectNode.IH(1)]
    maybe_sound [where P = "guarded_ref E s (exempt_for E s auth) scope'" and a = auth and I = "\<lambda>r. plain_bindings E s \<and> inspectable_ref E r" and Q = "protected_ref E s (exempt_for E s auth) scope'", OF parts(1) SelectNode.IH(2)]
    each_sound [where P = ?g and a = auth and I = ?i and Q = ?p, OF parts(2) SelectNode.IH(3)] each_sound [where P = ?g and a = auth and I = ?i and Q = ?p, OF parts(3) SelectNode.IH(4)]
    maybe_sound [where P = ?g and a = auth and I = ?i and Q = ?p, OF parts(4) SelectNode.IH(5)] maybe_sound [where P = ?g and a = auth and I = ?i and Q = ?p, OF parts(5) SelectNode.IH(6)]
    maybe_sound [where P = ?g and a = auth and I = ?i and Q = ?p, OF parts(6) SelectNode.IH(7)] each_sound [where P = ?g and a = auth and I = ?i and Q = ?p, OF parts(7) SelectNode.IH(8)]
  from sound show ?case unfolding q' by (auto simp: Let_def pred_under)
next
  case (SetOperationNode ctes children modifiers z)
  then obtain ctes' scope' cs ms where
      c: "each_cte (RewritePolicyQueryNode E s auth) auth scope ctes = Inr (ctes', scope')"
    and parts: "list_all2 (\<lambda>x y. RewritePolicyQueryNode E s auth scope' x = Inr y) children cs"
      "list_all2 (\<lambda>x y. RewritePolicyExpression E s auth scope' x = Inr y) modifiers ms"
    and q': "q' = SetOperationNode ctes' cs ms z"
    by (auto simp: and_then_Inr each_Inr)
  from each_cte_sound [where P = "guarded E s (exempt_for E s auth)" and a = auth and I = "\<lambda>q. plain_bindings E s \<and> inspectable E q" and Q = "protected E s (exempt_for E s auth)", OF c SetOperationNode.IH(1)]
    each_sound [where P = "guarded E s (exempt_for E s auth) scope'" and a = auth and I = "\<lambda>q. plain_bindings E s \<and> inspectable E q" and Q = "protected E s (exempt_for E s auth) scope'", OF parts(1) SetOperationNode.IH(2)]
    each_sound [where P = "guarded_expr E s (exempt_for E s auth) scope'" and a = auth and I = "\<lambda>x. plain_bindings E s \<and> inspectable_expr E x"
      and Q = "protected_expr E s (exempt_for E s auth) scope'", OF parts(2) SetOperationNode.IH(3)]
  show ?case unfolding q' by (auto simp: Let_def pred_under)
next
  case (BaseTableRef cat sch tab al version)
  then show ?case using rewrite_base_sound by simp
qed (auto simp: rejected_def and_then_Inr)

text \<open>A rewriting that stops says why, or denies.\<close>

lemma each_Inl: "each f xs = Inl e \<Longrightarrow> \<exists>x \<in> set xs. f x = Inl e"
  by (induction xs) (auto simp: and_then_def split: sum.split_asm)

lemma maybe_Inl: "maybe f x = Inl e \<Longrightarrow> \<exists>a \<in> set_option x. f a = Inl e"
  by (cases x) (auto simp: and_then_def split: sum.split_asm)

lemma and_then_Inl: "and_then r f = Inl e \<Longrightarrow> r = Inl e \<or> (\<exists>a. f a = Inl e)"
  by (cases r) auto

definition stops :: "policy_stop + 'a \<Rightarrow> bool" where
  "stops r = (\<forall>stop. r = Inl stop \<longrightarrow> stop \<noteq> ([], False))"

lemma Reject_stops: "reason \<noteq> [] \<Longrightarrow> Reject auth stop reason \<noteq> ([], False)"
  by (cases stop) (simp add: Reject_def)

lemma stops_basic [simp]: "stops (Inr x)" "reason \<noteq> [] \<Longrightarrow> stops (rejected auth reason)"
  "reason \<noteq> [] \<Longrightarrow> stops (Inl (Reject auth stop reason))"
  by (simp_all add: stops_def rejected_def Reject_stops)

lemma stops_and_then [intro]: "stops r \<Longrightarrow> (\<And>a. stops (f a)) \<Longrightarrow> stops (and_then r f)"
  by (cases r) (auto simp: stops_def)

lemma stops_each [intro]: "(\<And>x. x \<in> set xs \<Longrightarrow> stops (f x)) \<Longrightarrow> stops (each f xs)"
  unfolding stops_def by (metis each_Inl)

lemma stops_maybe [intro]: "(\<And>a. a \<in> set_option x \<Longrightarrow> stops (f a)) \<Longrightarrow> stops (maybe f x)"
  unfolding stops_def by (metis maybe_Inl)

lemma stops_each_cte: "stops (each_cte f auth scope ctes)"
proof (induction ctes arbitrary: scope)
  case (Cons c ctes)
  then show ?case by (cases c) (auto split: sum.split)
qed simp

lemma stops_first_bound: "stops (first_bound E auth tab i bs)"
  by (induction bs) (simp_all split: option.split)

lemma stops_masked_columns: "stops (masked_columns E s auth i bs)"
  by (induction bs) (auto split: option.split)

lemma stops_rewrite_base: "stops (rewrite_base E s auth scope cat sch tab al version)"
proof -
  have "stops (where_expression E s auth rap)" for rap by (simp add: where_expression_def split: option.split)
  moreover have "stops (Inl ([], True))" by (simp add: stops_def)
  ultimately have "stops (secure_source E s auth i)" for i unfolding secure_source_def
    by (intro stops_and_then stops_first_bound) (auto intro!: stops_and_then stops_masked_columns split: option.split)
  then show ?thesis by (auto simp: rewrite_base_def Let_def split: option.split)
qed

lemma rewrite_stops:
  "\<And>scope. stops (RewritePolicyExpression E s auth scope e)" "\<And>scope. stops (RewritePolicyTableRef E s auth scope r)"
  "\<And>scope. stops (RewritePolicyQueryNode E s auth scope q)"
proof (induction e and r and q)
  case (SubqueryExpression q children z)
  then have "stops (and_then (each (RewritePolicyExpression E s auth scope) children) f)" if "\<And>a. stops (f a)" for f :: "expr list \<Rightarrow> policy_stop + expr"
    using that by blast
  moreover have "stop \<noteq> ([], False)" if "RewritePolicyQueryNode E s auth scope q = Inl stop" for stop
    using SubqueryExpression(1) [of scope] that by (simp add: stops_def)
  then have "stops (Inl (if fst stop = [] then Reject auth stop ''policy enforcement could not inspect a nested subquery'' else stop))"
    if "RewritePolicyQueryNode E s auth scope q = Inl stop" for stop using that by (auto simp: stops_def Reject_stops)
  ultimately show ?case by (cases "RewritePolicyQueryNode E s auth scope q") auto
next
  case (FunctionExpression name children z)
  then show ?case by (auto split: option.split intro!: stops_and_then)
next
  case (SelectNode ctes source select_list grouping where_clause having qualify modifiers z)
  then show ?case by (auto intro!: stops_and_then stops_each_cte split: prod.split)
next
  case (SetOperationNode ctes children modifiers z)
  then show ?case by (auto intro!: stops_and_then stops_each_cte split: prod.split)
qed (auto intro!: stops_rewrite_base stops_and_then stops_each_cte stops_each)

text \<open>The rewriting leaves a query alone that reads nothing protected.\<close>

lemma each_id: "(\<And>x. x \<in> set xs \<Longrightarrow> f x = Inr x) \<Longrightarrow> each f xs = Inr xs"
  by (induction xs) auto

lemma maybe_id: "(\<And>a. a \<in> set_option x \<Longrightarrow> f a = Inr a) \<Longrightarrow> maybe f x = Inr x"
  by (cases x) auto

lemma each_cte_id:
  "scoped_ctes P scope ctes \<Longrightarrow> (\<And>c q sc. c \<in> set ctes \<Longrightarrow> q \<in> Basic_BNFs.snds c \<Longrightarrow> P sc q \<Longrightarrow> f sc q = Inr q) \<Longrightarrow>
     each_cte f auth scope ctes = Inr (ctes, scope @ map fst ctes)"
proof (induction ctes arbitrary: scope)
  case (Cons c ctes)
  obtain n q where c: "c = (n, q)" by fastforce
  have "f scope q = Inr q" by (rule Cons.prems(2) [of c]) (use Cons.prems(1) in \<open>auto simp: c snds.simps\<close>)
  moreover have "each_cte f auth (scope @ [n]) ctes = Inr (ctes, (scope @ [n]) @ map fst ctes)"
    by (rule Cons.IH) (use Cons.prems in \<open>auto simp: c\<close>)
  ultimately show ?case by (simp add: c)
qed simp

lemma first_bound_none:
  "(\<And>b. b \<in> set bs \<Longrightarrow> \<exists>j. BindingIdentity E (tab b) = Some j \<and> \<not> SamePolicyTableIdentity (pe_util E) i j) \<Longrightarrow>
     first_bound E auth tab i bs = Inr None"
  by (induction bs) fastforce+

definition bindings_parse :: "policy_env \<Rightarrow> 'v QuackapiState \<Rightarrow> bool" where
  "bindings_parse E s = list_all (\<lambda>t. BindingIdentity E t \<noteq> None)
     (map rb_table_name (row_access_bindings s) @ map mb_table_name (masking_bindings s))"

lemma rewrite_base_unbound:
  assumes "guarded_ref E s (\<lambda>_. False) scope (BaseTableRef cat sch tab al version)" and "bindings_parse E s"
  shows "rewrite_base E s auth scope cat sch tab al version = Inr (BaseTableRef cat sch tab al version)"
proof (cases "is_cte E scope cat sch tab")
  case False
  let ?i = "IdentityFromName (cat, sch, tab) (pe_default_catalog E)"
  from False assms(1) have v: "pe_is_view E ?i = Some False" and b: "\<not> bound_table E s ?i" by (auto simp: Let_def)
  from b assms(2) have "first_bound E auth rb_table_name ?i (row_access_bindings s) = Inr None"
    "first_bound E auth mb_table_name ?i (masking_bindings s) = Inr None"
    unfolding bound_table_def bindings_parse_def list_all_iff list_ex_iff
    by (auto split: option.split_asm intro!: first_bound_none) (metis UnI1 UnI2 imageI option.exhaust)+
  then show ?thesis using v False by (simp add: rewrite_base_def secure_source_def)
qed (simp add: rewrite_base_def)

lemma rewrite_unbound:
  assumes "bindings_parse E s"
  shows "\<And>scope. guarded_expr E s (\<lambda>_. False) scope e \<Longrightarrow> RewritePolicyExpression E s auth scope e = Inr e"
    "\<And>scope. guarded_ref E s (\<lambda>_. False) scope r \<Longrightarrow> RewritePolicyTableRef E s auth scope r = Inr r"
    "\<And>scope. guarded E s (\<lambda>_. False) scope q \<Longrightarrow> RewritePolicyQueryNode E s auth scope q = Inr q"
proof (induction e and r and q)
  case (SelectNode ctes source select_list grouping where_clause having qualify modifiers z)
  let ?sc = "scope @ map fst ctes"
  have "each_cte (RewritePolicyQueryNode E s auth) auth scope ctes = Inr (ctes, ?sc)"
    by (rule each_cte_id [where P = "guarded E s (\<lambda>_. False)"]) (use SelectNode in \<open>auto simp: Let_def\<close>)
  moreover have "maybe (RewritePolicyTableRef E s auth ?sc) source = Inr source"
    "each (RewritePolicyExpression E s auth ?sc) select_list = Inr select_list"
    "each (RewritePolicyExpression E s auth ?sc) grouping = Inr grouping"
    "maybe (RewritePolicyExpression E s auth ?sc) where_clause = Inr where_clause"
    "maybe (RewritePolicyExpression E s auth ?sc) having = Inr having"
    "maybe (RewritePolicyExpression E s auth ?sc) qualify = Inr qualify"
    "each (RewritePolicyExpression E s auth ?sc) modifiers = Inr modifiers"
    using SelectNode by (auto simp: Let_def list_all_iff pred_option_def intro!: maybe_id each_id)
  ultimately show ?case by simp
next
  case (SetOperationNode ctes children modifiers z)
  let ?sc = "scope @ map fst ctes"
  have "each_cte (RewritePolicyQueryNode E s auth) auth scope ctes = Inr (ctes, ?sc)"
    by (rule each_cte_id [where P = "guarded E s (\<lambda>_. False)"]) (use SetOperationNode in \<open>auto simp: Let_def\<close>)
  moreover have "each (RewritePolicyQueryNode E s auth ?sc) children = Inr children"
    "each (RewritePolicyExpression E s auth ?sc) modifiers = Inr modifiers"
    using SetOperationNode by (auto simp: Let_def list_all_iff intro!: each_id)
  ultimately show ?case by simp
next
  case (ExpressionListRef rows z)
  then have "each (each (RewritePolicyExpression E s auth scope)) rows = Inr rows" by (auto simp: list_all_iff intro!: each_id)
  then show ?case by simp
next
  case (JoinRef l r cond z)
  then have "maybe (RewritePolicyExpression E s auth scope) cond = Inr cond" by (auto simp: pred_option_def intro!: maybe_id)
  then show ?case using JoinRef by simp
next
  case (BaseTableRef cat sch tab al version)
  then show ?case using rewrite_base_unbound assms by simp
qed (simp_all add: list_all_iff each_id)


section \<open>Theorems\<close>

text \<open>A rewriting that passes has rewritten the one SELECT of the handler.\<close>

lemma rewrite_passes:
  assumes "RewriteHandlerWithPolicies E s handler_sql auth = (sql, False, [])"
    and "row_access_bindings s \<noteq> [] \<or> masking_bindings s \<noteq> []"
  obtains q q' where "pe_parse E handler_sql = Some [SelectStatement q]" and "sql = pe_print E q'"
    and "RewritePolicyQueryNode E s auth [] q = Inr q'"
proof -
  let ?r = "RewritePolicyQueryNode E s auth []"
  obtain q where q: "pe_parse E handler_sql = Some [SelectStatement q]"
    and r: "(case ?r q of Inl stop \<Rightarrow> refused handler_sql auth stop | Inr q' \<Rightarrow> (pe_print E q', False, [])) = (sql, False, [])"
    using assms by (auto simp: RewriteHandlerWithPolicies_def Let_def refused_def Reject_def
      split: option.split_asm list.split_asm sql_statement.split_asm if_split_asm)
  from r rewrite_stops(3) [where q = q and scope = "[]" and E = E and s = s and auth = auth] obtain q' where "?r q = Inr q'" "sql = pe_print E q'"
    by (cases "?r q") (auto simp: refused_def stops_def split: prod.split_asm)
  with q show ?thesis using that by blast
qed

lemma policied_rewrite_protected:
  assumes "RewriteHandlerWithPolicies E s handler_sql auth = (sql, False, [])"
    and "row_access_bindings s \<noteq> [] \<or> masking_bindings s \<noteq> []"
    and "plain_bindings E s" and "\<And>q. pe_parse E handler_sql = Some [SelectStatement q] \<Longrightarrow> inspectable E q"
  shows "\<exists>q q'. pe_parse E handler_sql = Some [SelectStatement q] \<and> sql = pe_print E q' \<and>
    protected E s (\<lambda>r. auth \<and> secure_query E s r) [] q' \<and> (auth \<or> q' = q)"
proof -
  obtain q q' where q: "pe_parse E handler_sql = Some [SelectStatement q]" "sql = pe_print E q'" "RewritePolicyQueryNode E s auth [] q = Inr q'"
    by (rule rewrite_passes [OF assms(1,2)])
  from rewrite_sound(3) [OF q(3)] assms(3) assms(4) [OF q(1)] q(1,2) show ?thesis by blast
qed


text \<open>
  Policies leave unrelated queries alone: a query that is guarded as it stands is run unchanged for
  every caller, and no caller is denied, when the names the bindings carry are names.
\<close>

theorem unbound_queries_unchanged:
  assumes "pe_parse E handler_sql = Some [SelectStatement q]" and "guarded E s (\<lambda>_. False) [] q" and "bindings_parse E s"
  shows "RewriteHandlerWithPolicies E s handler_sql auth \<in> {(handler_sql, False, []), (pe_print E q, False, [])} \<and>
    \<not> HandlerTouchesPoliciedTable E s handler_sql"
proof -
  have r: "RewriteHandlerWithPolicies E s handler_sql b \<in> {(handler_sql, False, []), (pe_print E q, False, [])}" for b
    using rewrite_unbound(3) [OF assms(3,2), of b] assms(1) by (simp add: RewriteHandlerWithPolicies_def)
  from r [of auth] r [of False] show ?thesis by (auto simp: HandlerTouchesPoliciedTable_def)
qed

text \<open>
  A quoted identifier cannot end early: reading it back gives the identifier itself and exactly the
  text after it, whatever characters it has.
\<close>

theorem quoted_identifier_roundtrip:
  assumes "rest = [] \<or> hd rest \<noteq> CHR 0x22"
  shows "quoted_ident (tl (QuoteCatalogIdentifier ident) @ rest) = (ident, tl (QuoteCatalogIdentifier ident), rest)"
proof -
  let ?esc = "\<lambda>i. concat (map (\<lambda>c. if c = CHR 0x22 then [c, c] else [c]) i)"
  have "quoted_ident (?esc ident @ CHR 0x22 # rest) = (ident, ?esc ident @ [CHR 0x22], rest)"
    by (induction ident) (use assms in \<open>auto split: list.split\<close>)
  then show ?thesis by (simp add: QuoteCatalogIdentifier_def)
qed

theorem quoted_identifier_roundtrip_witness:
  "quoted_ident (tl (QuoteCatalogIdentifier [CHR ''a'', CHR 0x22]) @ ''.t'') = ([CHR ''a'', CHR 0x22], tl (QuoteCatalogIdentifier [CHR ''a'', CHR 0x22]), ''.t'')"
  using quoted_identifier_roundtrip [of "''.t''" "[CHR ''a'', CHR 0x22]"] by simp

text \<open>A table with a row policy and a mask, and a handler that reads it.\<close>

definition read_people :: query where
  "read_people = SelectNode [] (Some (BaseTableRef [] [] ''people'' [] None)) [OtherExpression [] ''ssn''] [] None None None [] []"

definition read_jobs :: query where
  "read_jobs = SelectNode [] (Some (BaseTableRef [] [] ''jobs'' [] None)) [OtherExpression [] ''id''] [] None None None [] []"

definition people_secured :: query where
  "people_secured = SelectNode [] (Some (BaseTableRef ''memory'' ''main'' ''people'' [] None)) [OtherExpression [] ''*''] [] None None None [] []"

definition people_env :: policy_env where
  "people_env = \<lparr>pe_util = ascii_util,
     pe_parse = (\<lambda>sql. if sql = ''FROM people'' then Some [SelectStatement read_people] else if sql = ''FROM jobs'' then Some [SelectStatement read_jobs]
       else if take 8 sql = ''SELECT *'' then Some [SelectStatement people_secured] else None),
     pe_print = (\<lambda>_. ''printed''), pe_name = (\<lambda>t. Some ([], [], t)), pe_default_catalog = ''memory'',
     pe_is_view = (\<lambda>_. Some False), pe_is_macro = (\<lambda>_. Some False), pe_attached = (\<lambda>n. n = ''memory'')\<rparr>"

definition people_state :: "nat QuackapiState" where
  "people_state = initial_state\<lparr>
     row_access_policies := [\<lparr>ra_name = ''mine'', ra_arg_columns = [''o''], ra_arg_types = [[]], ra_expression = ''o = $claims_sub''\<rparr>],
     masking_policies := [\<lparr>mp_name = ''last4'', mp_value_type = ''VARCHAR'', mp_expression = ''right(val, 4)''\<rparr>],
     row_access_bindings := [\<lparr>rb_table_name = ''people'', rb_policy_name = ''mine'', rb_columns = [''owner'']\<rparr>],
     masking_bindings := [\<lparr>mb_table_name = ''People'', mb_column_name = ''ssn'', mb_policy_name = ''last4''\<rparr>]\<rparr>"

lemma people_rewritten: "RewriteHandlerWithPolicies people_env people_state ''FROM people'' True = (''printed'', False, [])"
  by code_simp

lemma people_denied: "RewriteHandlerWithPolicies people_env people_state ''FROM people'' False = (''FROM people'', True, [])"
  by code_simp

lemma people_plain: "plain_bindings people_env people_state" "inspectable people_env read_people"
  by (simp_all add: plain_bindings_def people_env_def people_state_def plain_name_def read_people_def)


theorem unbound_queries_unchanged_witness: "\<not> HandlerTouchesPoliciedTable people_env people_state ''FROM jobs''"
proof -
  have "bindings_parse people_env people_state" by code_simp
  moreover have "\<not> bound_table people_env people_state \<lparr>pt_catalog = ''memory'', pt_schema = ''main'', pt_table = ''jobs''\<rparr>" by code_simp
  then have "guarded people_env people_state (\<lambda>_. False) [] read_jobs"
    by (simp add: read_jobs_def is_cte_def IdentityFromName_def people_env_def)
  ultimately show ?thesis using unbound_queries_unchanged [of people_env "''FROM jobs''" read_jobs people_state] by (simp add: people_env_def)
qed

text \<open>
  Two findings. A table bound twice under two spellings of its name has only its first row policy
  enforced, although the registry accepts both bindings; and the placeholder of a mask is replaced inside
  a quoted identifier, whose quotes then close.
\<close>

lemma second_spelling_unenforced:
  assumes "BindingIdentity E (rb_table_name a) = Some i" and "SamePolicyTableIdentity (pe_util E) identity i"
    and "BindingIdentity E (rb_table_name b) = Some j" and "SamePolicyTableIdentity (pe_util E) identity j"
  shows "first_bound E auth rb_table_name identity (a # b # bs) = Inr (Some a)"
  using assms by simp

lemma second_spelling_accepted:
  "case BindRowAccessPolicy ascii_util \<lparr>rb_table_name = ''main.people'', rb_policy_name = ''mine'', rb_columns = [''tenant'']\<rparr> False people_state of
     Inl _ \<Rightarrow> False | Inr s \<Rightarrow> length (row_access_bindings s) = 2"
  by code_simp

lemma mask_breaks_quoted_val:
  "SubstituteValPlaceholder ascii_util (QuoteCatalogIdentifier ''val'') (QuoteCatalogIdentifier ''ssn'') =
     [CHR 0x22, CHR 0x22] @ ''ssn'' @ [CHR 0x22, CHR 0x22]"
  by code_simp

text \<open>
  Two more, on what the rewriting passes over. A table named as \<open>catalog.table\<close> is looked up as
  \<open>schema.table\<close> of the default database: no policy is found, nothing of the kind is a view, and the
  read stays, for every caller. The columns of a \<open>PIVOT\<close> are not visited: a subquery or a macro in them
  stays, for every caller, whatever it reads.
\<close>

lemma catalog_qualified_read_unguarded:
  "pe_attached people_env ''memory''"
  "policied_table people_env people_state (ResolvedIdentity people_env ([], ''memory'', ''people''))"
  "RewritePolicyTableRef people_env people_state auth [] (BaseTableRef [] ''memory'' ''people'' [] None) =
     Inr (BaseTableRef [] ''memory'' ''people'' [] None)"
  "\<not> protected_ref people_env people_state (\<lambda>_. False) [] (BaseTableRef [] ''memory'' ''people'' [] None)"
  by (cases auth; code_simp)+

lemma pivot_columns_unguarded:
  assumes "RewritePolicyTableRef E s auth scope src = Inr src"
  shows "RewritePolicyTableRef E s auth scope (PivotRef src [] columns z) = Inr (PivotRef src [] columns z)"
  using assms by simp

lemma pivot_reads_people:
  "RewritePolicyTableRef people_env people_state False [] (PivotRef EmptyTableRef [] [([SubqueryExpression read_people [] []], [], None)] []) =
     Inr (PivotRef EmptyTableRef [] [([SubqueryExpression read_people [] []], [], None)] [])"
  "\<not> protected_ref people_env people_state (\<lambda>_. False) [] (PivotRef EmptyTableRef [] [([SubqueryExpression read_people [] []], [], None)] [])"
proof -
  have "policied_table people_env people_state (ResolvedIdentity people_env ([], [], ''people''))" by code_simp
  then show "\<not> protected_ref people_env people_state (\<lambda>_. False) [] (PivotRef EmptyTableRef [] [([SubqueryExpression read_people [] []], [], None)] [])"
    by (simp add: read_people_def is_cte_def)
qed (simp add: pivot_columns_unguarded)

lemma paren_rest_quote:
  "paren_rest d True (squote # e # es) = (if e = squote then map_option (map_prod (\<lambda>l. squote # squote # l) id) (paren_rest d True es)
     else map_option (map_prod ((#) squote) id) (paren_rest d False (e # es)))"
  "paren_rest d True [squote] = None"
  by (subst paren_rest.simps, simp)+

lemma paren_rest_contained:
  "paren_rest d b s = Some (inner, after) \<Longrightarrow> s = inner @ CHR '')'' # after \<and> paren_rest d b (inner @ CHR '')'' # x) = Some (inner, x)"
proof (induction d b s arbitrary: inner rule: paren_rest.induct)
  case (2 d b c cs)
  show ?case
  proof (cases "b \<and> c = squote")
    case True
    then have p: "paren_rest d True (squote # cs) = Some (inner, after)" using 2(8) by (simp del: paren_rest.simps)
    then obtain e es where cs: "cs = e # es" by (cases cs) (auto simp: paren_rest_quote simp del: paren_rest.simps)
    show ?thesis
    proof (cases "e = squote")
      case eq: True
      with p obtain i where i: "paren_rest d True es = Some (i, after)" "inner = squote # squote # i"
        unfolding cs by (auto simp: paren_rest_quote simp del: paren_rest.simps)
      with 2(1) [of e es i] True cs eq have "es = i @ CHR '')'' # after" "paren_rest d True (i @ CHR '')'' # x) = Some (i, x)" by auto
      then show ?thesis using True cs eq i(2) by (simp add: paren_rest_quote del: paren_rest.simps)
    next
      case neq: False
      with p obtain i where i: "paren_rest d False cs = Some (i, after)" "inner = squote # i"
        unfolding cs by (auto simp: paren_rest_quote simp del: paren_rest.simps)
      then have ih: "cs = i @ CHR '')'' # after" "paren_rest d False (i @ CHR '')'' # x) = Some (i, x)"
        using 2(2) [of e es i] True cs neq by (auto simp del: paren_rest.simps)
      then obtain f fs where "i @ CHR '')'' # x = f # fs" "f \<noteq> squote" using cs neq
        by (cases i) (auto simp: squote_def)
      then show ?thesis using ih i(2) True by (simp add: paren_rest_quote del: paren_rest.simps)
    qed
  next
    case False
    then show ?thesis using 2 by (auto split: if_split_asm)
  qed
qed simp

text \<open>
  The text taken from the parentheses of a policy statement is balanced, literals apart: put between
  parentheses again, it ends exactly at the closing one that follows it, whatever text comes then. So an
  expression that has been accepted cannot close the parentheses of another text it is put into.
\<close>

theorem using_expression_contained:
  assumes "ExtractParenGroup s = Some (inner, after)"
  shows "s = ''('' @ inner @ '')'' @ after \<and> ExtractParenGroup (''('' @ inner @ '')'' @ rest) = Some (inner, rest)"
proof -
  from assms have "s \<noteq> []" "hd s = CHR ''(''" and p: "paren_rest 1 False (tl s) = Some (inner, after)"
    by (auto simp: ExtractParenGroup_def split: if_split_asm)
  then have "s = CHR ''('' # tl s" by (cases s) auto
  with paren_rest_contained [OF p, of rest] show ?thesis by (simp add: ExtractParenGroup_def)
qed

theorem using_expression_contained_witness:
  "ExtractParenGroup (''('' @ ''f(a) OR b = '' @ [squote] @ '')'' @ [squote] @ '')'' @ '' AND x'') =
     Some (''f(a) OR b = '' @ [squote] @ '')'' @ [squote], '' AND x'')"
proof -
  have "ExtractParenGroup (''(f(a) OR b = '' @ [squote] @ '')'' @ [squote] @ '') ;'') =
      Some (''f(a) OR b = '' @ [squote] @ '')'' @ [squote], '' ;'')" by code_simp
  from using_expression_contained [OF this, of "'' AND x''"] show ?thesis by simp
qed

end
