(* ===== verification/PolicyDdl.thy ===== *)
theory PolicyDdl
  imports Policy Ddl
begin

text \<open>
  The statements on policies (\<open>src/src/quackapi_policy.cpp\<close>): creating, dropping, binding and
  unbinding row access and masking policies, their execution on the registry, and the listing of the
  policies. DuckDB's tokenizer and its qualified names are parameters.
\<close>

section \<open>Column lists\<close>

lemma IdentStart_Char: "IsIdentStart c \<Longrightarrow> IsIdentChar c"
  by (auto simp: IsIdentStart_def IsIdentChar_def)

text \<open>The columns of a list, each with its type or the empty text.\<close>

definition col_entry :: "string_util \<Rightarrow> string \<Rightarrow> (string \<times> string) \<times> string" where
  "col_entry U s =
     (let col = takeWhile IsIdentChar s; s2 = dropWhile (su_space U) (dropWhile IsIdentChar s)
      in if s2 \<noteq> [] \<and> IsIdentStart (hd s2)
         then ((col, canonical_type (su_upper U (takeWhile IsIdentChar s2))), dropWhile IsIdentChar s2)
         else ((col, []), s2))"

lemma col_entry_shorter:
  assumes "col_entry U s = (e, r)" and "s \<noteq> []" and "IsIdentStart (hd s)"
  shows "length r < length s" and "fst e = takeWhile IsIdentChar s" and "fst e \<noteq> [] \<and> hd (fst e) = hd s"
proof -
  let ?d = "dropWhile IsIdentChar s"
  have "length ?d < length s" using assms(2,3) IdentStart_Char by (cases s) (auto simp: less_Suc_eq_le length_dropWhile_le)
  moreover have "length (dropWhile (su_space U) ?d) \<le> length ?d" "length (dropWhile IsIdentChar (dropWhile (su_space U) ?d)) \<le> length (dropWhile (su_space U) ?d)"
    by (simp_all only: length_dropWhile_le)
  ultimately show "length r < length s" using assms(1) unfolding col_entry_def Let_def by (auto split: if_split_asm)
  show f: "fst e = takeWhile IsIdentChar s" using assms(1) unfolding col_entry_def Let_def by (auto split: if_split_asm)
  show "fst e \<noteq> [] \<and> hd (fst e) = hd s" using assms(2,3) IdentStart_Char unfolding f by (cases s) auto
qed

function col_entries :: "string_util \<Rightarrow> string \<Rightarrow> string + (string \<times> string) list" where
  "col_entries U s =
     (let s1 = dropWhile (\<lambda>c. su_space U c \<or> c = CHR '','') s
      in if s1 = [] then Inr []
         else if \<not> IsIdentStart (hd s1) then Inl ''expected column name in list''
         else case col_entry U s1 of (e, r) \<Rightarrow>
           (case col_entries U r of Inl err \<Rightarrow> Inl err | Inr entries \<Rightarrow> Inr (e # entries)))"
  by pat_completeness auto
termination
proof (relation "measure (\<lambda>(U, s). length s)", goal_cases)
  case (2 U s s1 e r)
  then have "length r < length s1" using col_entry_shorter(1) [of U s1 e r] by simp
  then show ?case using 2(1) length_dropWhile_le [of "\<lambda>c. su_space U c \<or> c = CHR '',''" s] by simp
qed simp

declare col_entries.simps [simp del]

definition ParseColList :: "string_util \<Rightarrow> string \<Rightarrow> string + (string list \<times> string list)" where
  "ParseColList U inner =
     (if QuackapiTrim U inner = [] then Inl ''column list must not be empty''
      else case col_entries U (QuackapiTrim U inner) of
        Inl err \<Rightarrow> Inl err
      | Inr entries \<Rightarrow> if entries = [] then Inl ''column list must not be empty'' else Inr (map fst entries, map snd entries))"

section \<open>The grammar\<close>

record PolicyDdlParseData =
  pd_action :: string
  pd_or_replace :: bool
  pd_name :: string
  pd_value_type :: string
  pd_arg_columns :: "string list"
  pd_arg_types :: "string list"
  pd_expression :: string
  pd_table_name :: string
  pd_column_name :: string

definition policy_data :: "string \<Rightarrow> string \<Rightarrow> PolicyDdlParseData" where
  "policy_data action name = \<lparr>pd_action = action, pd_or_replace = False, pd_name = name, pd_value_type = [], pd_arg_columns = [],
     pd_arg_types = [], pd_expression = [], pd_table_name = [], pd_column_name = []\<rparr>"

text \<open>A word that must be at the front; what follows it need not be white space.\<close>

definition expect :: "string_util \<Rightarrow> string \<Rightarrow> string \<Rightarrow> string \<Rightarrow> string + string" where
  "expect U word message rest = (if su_starts_with U (su_upper U rest) word then Inr (after_keyword U word rest) else Inl message)"

definition paren_clause :: "string_util \<Rightarrow> string \<Rightarrow> string \<Rightarrow> string \<Rightarrow> string + (string \<times> string)" where
  "paren_clause U expected unterminated rest =
     (if rest = [] \<or> hd rest \<noteq> CHR ''('' then Inl expected
      else case ExtractParenGroup rest of None \<Rightarrow> Inl unterminated | Some (inner, after) \<Rightarrow> Inr (inner, QuackapiTrim U after))"

definition columns_clause :: "string_util \<Rightarrow> string \<Rightarrow> string + ((string list \<times> string list) \<times> string)" where
  "columns_clause U rest = and_then (paren_clause U ''Expected AS (<cols>)'' ''Unterminated column list in AS (...)'' rest) (\<lambda>(inner, after).
     case ParseColList U inner of Inl err \<Rightarrow> Inl (''ROW ACCESS POLICY AS (...): '' @ err) | Inr cols \<Rightarrow> Inr (cols, after))"

text \<open>The expression ends the statement.\<close>

definition using_clause :: "string_util \<Rightarrow> string \<Rightarrow> string \<Rightarrow> string + string" where
  "using_clause U message rest =
     and_then (expect U ''USING'' message rest) (\<lambda>r1.
     and_then (paren_clause U ''Expected USING (<expr>)'' ''Unterminated USING (...) expression'' r1) (\<lambda>(inner, after).
       if QuackapiTrim U inner = [] then Inl ''USING expression must not be empty''
       else if after \<noteq> [] then Inl ''Unexpected tokens after USING (...)''
       else Inr (QuackapiTrim U inner)))"

text \<open>The name, which may not end the statement.\<close>

definition policy_name :: "string_util \<Rightarrow> string \<Rightarrow> string \<Rightarrow> string + (string \<times> string)" where
  "policy_name U message rest = (case next_token U rest of (name, after) \<Rightarrow>
     if name = [] \<or> length name \<ge> length rest then Inl message else Inr (name, after))"

definition CreateRowPolicy :: "string_util \<Rightarrow> bool \<Rightarrow> string \<Rightarrow> string + PolicyDdlParseData" where
  "CreateRowPolicy U or_replace rest =
     and_then (policy_name U ''CREATE ROW ACCESS POLICY <name> AS (<cols>) RETURNS BOOLEAN USING (<expr>)'' rest) (\<lambda>(name, r1).
     and_then (expect U ''AS'' ''Expected AS (<cols>) after policy name'' r1) (\<lambda>r2.
     and_then (columns_clause U r2) (\<lambda>((cols, types), r3).
     and_then (expect U ''RETURNS'' ''Expected RETURNS BOOLEAN after AS (...)'' r3) (\<lambda>r4.
     and_then (expect U ''BOOLEAN'' ''ROW ACCESS POLICY must RETURNS BOOLEAN'' r4) (\<lambda>r5.
     and_then (using_clause U ''Expected USING (<expr>) after RETURNS BOOLEAN'' r5) (\<lambda>e.
       Inr ((policy_data ''CREATE_ROW'' name)\<lparr>pd_or_replace := or_replace, pd_arg_columns := cols, pd_arg_types := types,
         pd_expression := e\<rparr>)))))))"

definition CreateMaskPolicy :: "string_util \<Rightarrow> bool \<Rightarrow> string \<Rightarrow> string + PolicyDdlParseData" where
  "CreateMaskPolicy U or_replace rest =
     and_then (policy_name U ''CREATE MASKING POLICY <name> ON <type> USING (<expr>)'' rest) (\<lambda>(name, r1).
     and_then (if su_starts_with U (su_upper U r1) ''ON'' \<and> length r1 = 2 then Inl ''Expected ON <type> USING (<expr>)''
         else expect U ''ON'' ''Expected ON <type> after masking policy name'' r1) (\<lambda>r2.
     and_then (policy_name U ''Expected ON <type> USING (<expr>)'' r2) (\<lambda>(vtype, r3).
     and_then (using_clause U ''Expected USING (<expr>) after ON <type>'' r3) (\<lambda>e.
       Inr ((policy_data ''CREATE_MASK'' name)\<lparr>pd_or_replace := or_replace, pd_value_type := canonical_type (su_upper U vtype),
         pd_expression := e\<rparr>)))))"

record qualified_names =
  qn_tokens :: "string \<Rightarrow> nat list"
  qn_parse :: "string \<Rightarrow> (string \<times> string \<times> string) option"
  qn_render :: "string \<times> string \<times> string \<Rightarrow> string"

text \<open>The tokens after the first that continue the name: each dot and the token after it.\<close>

fun name_parts :: "string \<Rightarrow> nat list \<Rightarrow> nat" where
  "name_parts rest (t # u # ts) = (if rest ! t = CHR ''.'' then 2 + name_parts rest ts else 0)"
| "name_parts rest _ = 0"

definition table_part :: "qualified_names \<Rightarrow> string \<Rightarrow> nat option" where
  "table_part Q rest = (let tokens = qn_tokens Q rest
     in if tokens = [] then None
        else let n = 1 + name_parts rest (tl tokens) in Some (if n < length tokens then tokens ! n else length rest))"

definition ellipsis :: string where
  "ellipsis = [CHR 0xE2, CHR 0x80, CHR 0xA6]"

definition AddRowPolicy :: "string_util \<Rightarrow> string \<Rightarrow> bool \<Rightarrow> string \<Rightarrow> string + PolicyDdlParseData" where
  "AddRowPolicy U table or_replace rest = (case next_token U rest of (name, r1) \<Rightarrow>
     if name = [] then Inl ''ADD ROW ACCESS POLICY expects a policy name''
     else and_then (expect U ''ON'' ''Expected ON (<cols>) after policy name'' r1) (\<lambda>r2.
          and_then (paren_clause U ''Expected ON (<cols>)'' ''Unterminated ON (...) column list'' r2) (\<lambda>(inner, after).
            case ParseColList U inner of
              Inl err \<Rightarrow> Inl (''ON (...): '' @ err)
            | Inr (cols, _) \<Rightarrow>
                if after \<noteq> [] then Inl ''Unexpected tokens after ON (...)''
                else Inr ((policy_data ''BIND_ROW'' name)\<lparr>pd_or_replace := or_replace, pd_table_name := table, pd_arg_columns := cols\<rparr>))))"

definition AlterColumn :: "string_util \<Rightarrow> string \<Rightarrow> string \<Rightarrow> PolicyDdlParseData parse_outcome" where
  "AlterColumn U table rest =
     (if rest = [] then DISPLAY_EXTENSION_ERROR (''ALTER TABLE '' @ ellipsis @ '' COLUMN expects a column name'')
      else if hd rest = CHR 0x22 then DISPLAY_EXTENSION_ERROR ''Quoted column names in SET MASKING POLICY not yet supported''
      else let col = takeWhile IsIdentChar rest; r = QuackapiTrim U (dropWhile IsIdentChar rest); upper = su_upper U r
           in if su_starts_with U upper ''SET MASKING POLICY '' then
                drop_statement U (drop 19 r) ''SET MASKING POLICY expects a policy name''
                  (\<lambda>p. (policy_data ''BIND_MASK'' p)\<lparr>pd_or_replace := True, pd_table_name := table, pd_column_name := col\<rparr>)
              else if su_starts_with U upper ''UNSET MASKING POLICY'' \<or> su_starts_with U upper ''DROP MASKING POLICY'' then
                PARSE_SUCCESSFUL ((policy_data ''UNBIND_MASK'' [])\<lparr>pd_table_name := table, pd_column_name := col\<rparr>)
              else DISPLAY_ORIGINAL_ERROR)"

definition parsed_policy :: "string + PolicyDdlParseData \<Rightarrow> PolicyDdlParseData parse_outcome" where
  "parsed_policy r = (case r of Inl err \<Rightarrow> DISPLAY_EXTENSION_ERROR err | Inr d \<Rightarrow> PARSE_SUCCESSFUL d)"

definition AlterTable :: "string_util \<Rightarrow> qualified_names \<Rightarrow> string \<Rightarrow> PolicyDdlParseData parse_outcome" where
  "AlterTable U Q rest = (case table_part Q rest of
     None \<Rightarrow> DISPLAY_ORIGINAL_ERROR
   | Some name_end \<Rightarrow> (case qn_parse Q (QuackapiTrim U (take name_end rest)) of
       None \<Rightarrow> DISPLAY_ORIGINAL_ERROR
     | Some name \<Rightarrow>
         let table = qn_render Q name; r = QuackapiTrim U (drop name_end rest); upper = su_upper U r
         in if su_starts_with U upper ''ADD OR REPLACE ROW ACCESS POLICY '' then parsed_policy (AddRowPolicy U table True (QuackapiTrim U (drop 33 r)))
            else if su_starts_with U upper ''ADD ROW ACCESS POLICY '' then parsed_policy (AddRowPolicy U table False (QuackapiTrim U (drop 22 r)))
            else if su_starts_with U upper ''DROP ROW ACCESS POLICY '' then
              drop_statement U (drop 23 r) (''ALTER TABLE '' @ ellipsis @ '' DROP ROW ACCESS POLICY expects a policy name'')
                (\<lambda>p. (policy_data ''UNBIND_ROW'' p)\<lparr>pd_table_name := table\<rparr>)
            else if su_starts_with U upper ''MODIFY COLUMN '' then AlterColumn U table (QuackapiTrim U (drop 14 r))
            else if su_starts_with U upper ''ALTER COLUMN '' then AlterColumn U table (QuackapiTrim U (drop 13 r))
            else DISPLAY_ORIGINAL_ERROR))"

definition PolicyDdlParse :: "string_util \<Rightarrow> qualified_names \<Rightarrow> string \<Rightarrow> PolicyDdlParseData parse_outcome" where
  "PolicyDdlParse U Q query =
     (let q = QuackapiTrim U query; upper = su_upper U q; starts = su_starts_with U upper; rest = (\<lambda>n. QuackapiTrim U (drop n q))
      in if starts ''DROP ROW ACCESS POLICY '' then
           drop_statement U (drop 23 q) ''DROP ROW ACCESS POLICY expects a single policy name'' (policy_data ''DROP_ROW'')
         else if starts ''DROP MASKING POLICY '' then
           drop_statement U (drop 20 q) ''DROP MASKING POLICY expects a single policy name'' (policy_data ''DROP_MASK'')
         else if starts ''CREATE OR REPLACE ROW ACCESS POLICY '' then parsed_policy (CreateRowPolicy U True (rest 36))
         else if starts ''CREATE ROW ACCESS POLICY '' then parsed_policy (CreateRowPolicy U False (rest 25))
         else if starts ''CREATE OR REPLACE MASKING POLICY '' then parsed_policy (CreateMaskPolicy U True (rest 33))
         else if starts ''CREATE MASKING POLICY '' then parsed_policy (CreateMaskPolicy U False (rest 22))
         else if starts ''ALTER TABLE '' then AlterTable U Q (rest 12)
         else DISPLAY_ORIGINAL_ERROR)"

section \<open>Execution and listing\<close>

definition dropped :: "bool \<times> 'v QuackapiState \<Rightarrow> exn \<Rightarrow> string \<Rightarrow> (string \<times> 'v QuackapiState) result" where
  "dropped r e message = (case r of (True, s') \<Rightarrow> Inr (message, s') | (False, _) \<Rightarrow> Inl e)"

definition stored :: "'v QuackapiState result \<Rightarrow> string \<Rightarrow> (string \<times> 'v QuackapiState) result" where
  "stored r message = (case r of Inl e \<Rightarrow> Inl e | Inr s' \<Rightarrow> Inr (message, s'))"

definition ApplyPolicyExec :: "string_util \<Rightarrow> PolicyDdlParseData \<Rightarrow> 'v QuackapiState \<Rightarrow> (string \<times> 'v QuackapiState) result" where
  "ApplyPolicyExec U d s =
     (let name = pd_name d; table = pd_table_name d; column = pd_column_name d; cols = pd_arg_columns d; action = pd_action d
      in if action = ''CREATE_ROW'' then
           stored (AddRowAccessPolicy \<lparr>ra_name = name, ra_arg_columns = cols,
               ra_arg_types = pd_arg_types d @ replicate (length cols - length (pd_arg_types d)) [], ra_expression = pd_expression d\<rparr>
             (pd_or_replace d) s) (''Row access policy '' @ name)
         else if action = ''CREATE_MASK'' then
           stored (AddMaskingPolicy \<lparr>mp_name = name, mp_value_type = pd_value_type d, mp_expression = pd_expression d\<rparr> (pd_or_replace d) s)
             (''Masking policy '' @ name @ '' ON '' @ pd_value_type d)
         else if action = ''DROP_ROW'' then
           dropped (DropRowAccessPolicy name s) (InvalidInput ''Row access policy does not exist'' [name]) (''Dropped row access policy '' @ name)
         else if action = ''DROP_MASK'' then
           dropped (DropMaskingPolicy name s) (InvalidInput ''Masking policy does not exist'' [name]) (''Dropped masking policy '' @ name)
         else if action = ''BIND_ROW'' then
           stored (BindRowAccessPolicy U \<lparr>rb_table_name = table, rb_policy_name = name, rb_columns = cols\<rparr> (pd_or_replace d) s)
             (''Bound row access policy '' @ name @ '' on '' @ table)
         else if action = ''UNBIND_ROW'' then
           dropped (UnbindRowAccessPolicy U table name s) (InvalidInput ''Table has no row access policy'' [table, name])
             (''Dropped row access policy '' @ name @ '' from '' @ table)
         else if action = ''BIND_MASK'' then
           stored (BindMaskingPolicy U \<lparr>mb_table_name = table, mb_column_name = column, mb_policy_name = name\<rparr> (pd_or_replace d) s)
             (''Set masking policy '' @ name @ '' on '' @ table @ ''.'' @ column)
         else if action = ''UNBIND_MASK'' then
           dropped (UnbindMaskingPolicy U table column s) (InvalidInput ''Column has no masking policy'' [table, column])
             (''Unset masking policy on '' @ table @ ''.'' @ column)
         else Inl (InvalidInput ''Unknown policy action'' [action]))"

record PolicyRow =
  pr_name :: string
  pr_kind :: string
  pr_signature :: string
  pr_expression :: string
  pr_bound_table :: string
  pr_bound_columns :: string

definition row_signature :: "QuackapiRowAccessPolicy \<Rightarrow> string" where
  "row_signature p = ''('' @ join_with '', '' (map (\<lambda>i. ra_arg_columns p ! i @
       (if i < length (ra_arg_types p) \<and> ra_arg_types p ! i \<noteq> [] then '' '' @ ra_arg_types p ! i else [])) [0..<length (ra_arg_columns p)]) @
     '') RETURNS BOOLEAN''"

text \<open>A policy has one row for each binding, or one row without a table.\<close>

definition policy_rows :: "(string \<Rightarrow> string \<Rightarrow> PolicyRow) \<Rightarrow> (string \<times> string) list \<Rightarrow> PolicyRow list" where
  "policy_rows mk bindings = (if bindings = [] then [mk [] []] else map (\<lambda>(t, c). mk t c) bindings)"

definition PoliciesInit :: "'v QuackapiState \<Rightarrow> PolicyRow list" where
  "PoliciesInit s =
     concat (map (\<lambda>p. policy_rows (\<lambda>t c. \<lparr>pr_name = ra_name p, pr_kind = ''ROW_ACCESS'', pr_signature = row_signature p,
         pr_expression = ra_expression p, pr_bound_table = t, pr_bound_columns = c\<rparr>)
       (map (\<lambda>b. (rb_table_name b, join_with '', '' (rb_columns b))) (filter (\<lambda>b. rb_policy_name b = ra_name p) (row_access_bindings s))))
       (row_access_policies s)) @
     concat (map (\<lambda>p. policy_rows (\<lambda>t c. \<lparr>pr_name = mp_name p, pr_kind = ''MASKING'', pr_signature = ''ON '' @ mp_value_type p,
         pr_expression = mp_expression p, pr_bound_table = t, pr_bound_columns = c\<rparr>)
       (map (\<lambda>b. (mb_table_name b, mb_column_name b)) (filter (\<lambda>b. mb_policy_name b = mp_name p) (masking_bindings s))))
       (masking_policies s))"


section \<open>What the statements establish\<close>

text \<open>A column list is one the bindings can use: as many types as columns, and every column an identifier.\<close>

lemma col_entries_idents:
  "col_entries U s = Inr entries \<Longrightarrow> list_all (\<lambda>(c, t). c \<noteq> [] \<and> IsIdentStart (hd c) \<and> list_all IsIdentChar c) entries"
proof (induction U s arbitrary: entries rule: col_entries.induct)
  case (1 U s)
  let ?s1 = "dropWhile (\<lambda>c. su_space U c \<or> c = CHR '','') s"
  note unfolded = 1(2) [unfolded col_entries.simps [of U s] Let_def]
  show ?case
  proof (cases "?s1 = []")
    case False
    obtain e r where e: "col_entry U ?s1 = (e, r)" by fastforce
    with unfolded False have start: "IsIdentStart (hd ?s1)" by (simp only: split: if_split_asm) auto
    with unfolded False e obtain es where es: "col_entries U r = Inr es" "entries = e # es"
      by (simp only: if_False not_True_eq_False prod.case) (auto split: sum.split_asm)
    note e' = col_entry_shorter [OF e False start]
    have "list_all IsIdentChar (fst e)" unfolding e'(2) by (auto simp: list_all_iff dest: set_takeWhileD)
    with 1(1) [OF refl False _ e [symmetric] es(1)] start e'(3) show ?thesis by (auto simp: es(2) split: prod.split)
  qed (use unfolded in simp)
qed

lemma ParseColList_ok:
  assumes "ParseColList U inner = Inr (cols, types)"
  shows "cols \<noteq> [] \<and> length types = length cols \<and> list_all (\<lambda>c. c \<noteq> [] \<and> IsIdentStart (hd c) \<and> list_all IsIdentChar c) cols"
proof -
  from assms obtain entries where "col_entries U (QuackapiTrim U inner) = Inr entries" "entries \<noteq> []" "cols = map fst entries" "types = map snd entries"
    by (auto simp: ParseColList_def split: if_split_asm sum.split_asm)
  then show ?thesis using col_entries_idents [of U "QuackapiTrim U inner" entries] by (auto simp: list_all_iff)
qed

end
