(* ===== verification/Enforcement.thy ===== *)
theory Enforcement
  imports Server Policy
begin

text \<open>
  The request handler with the policy enforcement in place of its parameter: what the SQL of a request
  that has run may read.
\<close>


text \<open>The example of \<open>Server\<close> on a database with a policy on another table.\<close>

definition screened_state :: "nat QuackapiState" where
  "screened_state = serving_state\<lparr>masking_bindings := [\<lparr>mb_table_name = ''people'', mb_column_name = ''ssn'', mb_policy_name = ''last4''\<rparr>]\<rparr>"

definition item_query :: query where
  "item_query = SelectNode [] None [OtherExpression [] ''$id''] [] None None None [] []"

definition policed_env :: policy_env where
  "policed_env = people_env\<lparr>pe_parse := (\<lambda>sql. Some [SelectStatement item_query]), pe_print := (\<lambda>_. ''SELECT $id'')\<rparr>"

definition policed_server :: request_env where
  "policed_server = example_env\<lparr>re_rewrite := RewriteHandlerWithPolicies policed_env screened_state\<rparr>"

lemma policed_rewrite: "RewriteHandlerWithPolicies policed_env screened_state sql False = (''SELECT $id'', False, [])"
  by (simp add: RewriteHandlerWithPolicies_def screened_state_def policed_env_def item_query_def)

lemma policed_live: "live_views screened_state = ([example_route], [], screened_state\<lparr>streams_live := Some []\<rparr>)"
  by (simp add: live_views_def LiveRoutes_def LiveStreams_def PublishStreams_def screened_state_def serving_state_def initial_state_def)

lemma policed_handled:
  "\<exists>out. HandleRequest policed_server example_builtins example_hooks default_options
     (\<lambda>_ _ _ _ res. SetJson 200 ''[]'' res) (\<lambda>_ _ _ res. Inl res) example_route served_request empty_response screened_state = Inr out \<and>
     sr_ran out = Some (example_route, [(''id'', ''7'')], [], ''SELECT $id'')"
proof -
  obtain ms where "route_request ascii_util [] 8388608 served_request [example_route] [] empty_response = Inr ms"
    "ms_match ms = Some (example_route, [(''id'', ''7'')])" using example_routed by blast
  moreover have "route_guards policed_server example_route served_request empty_response s = (s, Inr (Inr ([], ''SELECT $id'')))" for s :: "nat QuackapiState"
    by (simp add: route_guards_def CheckAuth_def charge_rate_limit_def example_route_def policed_server_def example_env_def auth_accepted_def policed_rewrite)
  moreover have "graphql_mount policed_server example_builtins (screened_state\<lparr>streams_live := x\<rparr>) example_route served_request r = None"
    "graphql_mount policed_server example_builtins screened_state example_route served_request r = None" for x r
    by (simp_all add: graphql_mount_def served_request_def GetGraphqlRouteBySchemaPath_def screened_state_def serving_state_def initial_state_def)
  moreover have "re_util policed_server = ascii_util" "re_db_alive policed_server" by (simp_all add: policed_server_def example_env_def)
  ultimately show ?thesis
    by (simp add: HandleRequest_def Let_def policed_live example_not_builtin example_no_hooks example_options first_answer_def)
qed


end
