(* ===== verification/StreamDdl.thy ===== *)
theory StreamDdl
  imports Ddl
begin

text \<open>
  The statements \<open>CREATE STREAM\<close> and \<open>DROP STREAM\<close> (\<open>src/src/quackapi_stream.cpp\<close>): the grammar,
  the execution on the registry and the listing. Whether DuckDB can prepare the handler's SQL is a
  parameter of the execution.
\<close>

section \<open>Transports\<close>

definition StreamTransportForMethod :: "string \<Rightarrow> QuackapiStreamTransport" where
  "StreamTransportForMethod method' = (if method' = ''WS'' then WS else SSE)"

definition StreamTransportName :: "QuackapiStreamTransport \<Rightarrow> string" where
  "StreamTransportName transport = (case transport of WS \<Rightarrow> ''WS'' | SSE \<Rightarrow> ''SSE'')"

section \<open>The grammar\<close>

record StreamDdlParseData =
  sd_action :: string
  sd_or_replace :: bool
  sd_stream :: QuackapiStream

definition new_stream :: "string \<Rightarrow> string \<Rightarrow> string \<Rightarrow> QuackapiStream" where
  "new_stream name method' pattern =
     \<lparr>st_name = name, st_method = method', st_pattern = pattern, st_handler_sql = [], st_interval_ms = 0,
      st_transport = StreamTransportForMethod method'\<rparr>"

definition stream_name_char :: "char \<Rightarrow> bool" where
  "stream_name_char c = (is_alpha c \<or> is_digit c \<or> c = CHR ''_'' \<or> c = CHR ''-'')"

definition stream_option :: "string_util \<Rightarrow> string \<Rightarrow> string \<Rightarrow> QuackapiStream \<Rightarrow> string + QuackapiStream" where
  "stream_option U key val stream =
     (if key = ''interval'' then
        (case ParseIntervalMs U val of
           Inl err \<Rightarrow> Inl (''interval: '' @ err)
         | Inr ms \<Rightarrow> Inr (stream\<lparr>st_interval_ms := ms\<rparr>))
      else Inl (''Unknown STREAM option '' @ dquoted key @ '' '' @ em_dash @ '' expected interval''))"

text \<open>The optional \<open>WITH\<close> clause: the stream and the text after it.\<close>

definition stream_with :: "string_util \<Rightarrow> QuackapiStream \<Rightarrow> string \<Rightarrow> string + (QuackapiStream \<times> string)" where
  "stream_with U stream rest =
     (if \<not> starts_with_keyword U ''WITH'' rest then Inr (stream, rest)
      else case with_group U (QuackapiTrim U (drop 4 rest)) of
        Inl err \<Rightarrow> Inl err
      | Inr (opts, after) \<Rightarrow> (case with_options U (stream_option U) opts stream of
          Inl err \<Rightarrow> Inl err
        | Inr stream' \<Rightarrow> Inr (stream', after)))"

text \<open>The method, where \<open>WEBSOCKET\<close> is another name of \<open>WS\<close>.\<close>

definition stream_method :: "string_util \<Rightarrow> string \<Rightarrow> string + string" where
  "stream_method U word =
     (let method' = (if su_upper U word = ''WEBSOCKET'' then ''WS'' else su_upper U word)
      in if method' = ''WSS'' then Inl ''Use WS: wss:// is TLS in front of the same WebSocket stream''
         else if method' \<noteq> ''GET'' \<and> method' \<noteq> ''WS'' then
           Inl (''CREATE STREAM supports GET (Server-Sent Events) or WS (WebSocket). Unknown method '' @ dquoted method')
         else Inr method')"

definition stream_path :: "string \<Rightarrow> string \<Rightarrow> string + (string \<times> string)" where
  "stream_path method' rest =
     (if \<not> quote_ahead rest then Inl (''Expected quoted '' @ squoted ''<path>'' @ '' after '' @ method')
      else if squote \<notin> set (tl rest) then Inl ''Unterminated stream path''
      else let pattern = takeWhile (\<lambda>c. c \<noteq> squote) (tl rest)
           in if pattern = [] \<or> hd pattern \<noteq> CHR ''/'' then Inl (''Stream path must start with '' @ squoted ''/'')
              else Inr (pattern, tl (dropWhile (\<lambda>c. c \<noteq> squote) (tl rest))))"

definition stream_select :: "string_util \<Rightarrow> string \<Rightarrow> string + string" where
  "stream_select U rest =
     (if \<not> at_word U ''AS'' rest then Inl ''Expected AS <select> in CREATE STREAM''
      else if after_keyword U ''AS'' rest = [] then Inl ''Empty handler after AS''
      else Inr (after_keyword U ''AS'' rest))"

text \<open>The clauses after the method and its word.\<close>

definition stream_clauses :: "string_util \<Rightarrow> string \<Rightarrow> string \<Rightarrow> string \<Rightarrow> string + QuackapiStream" where
  "stream_clauses U name method' rest =
     (case stream_path method' rest of
        Inl err \<Rightarrow> Inl err
      | Inr (pattern, rest1) \<Rightarrow> (case stream_with U (new_stream name method' pattern) (QuackapiTrim U rest1) of
          Inl err \<Rightarrow> Inl err
        | Inr (stream, rest2) \<Rightarrow> (case stream_select U rest2 of
            Inl err \<Rightarrow> Inl err
          | Inr handler \<Rightarrow> Inr (stream\<lparr>st_handler_sql := handler\<rparr>))))"

definition StreamCreateParse :: "string_util \<Rightarrow> string \<Rightarrow> string + QuackapiStream" where
  "StreamCreateParse U rest =
     (let name = takeWhile (\<lambda>c. c \<noteq> CHR '' '') rest; rest1 = QuackapiTrim U (drop (length name) rest);
          word = takeWhile (\<lambda>c. c \<noteq> CHR '' '') rest1
      in if CHR '' '' \<notin> set rest then Inl (''CREATE STREAM <name> GET | WS '' @ squoted ''<path>'' @ '' AS <select>'')
         else if \<not> list_all stream_name_char name then Inl ''Stream name must be an identifier ([A-Za-z0-9_-]+)''
         else if CHR '' '' \<notin> set rest1 then Inl (''Expected GET or WS '' @ squoted ''<path>'' @ '' after stream name'')
         else case stream_method U word of
           Inl err \<Rightarrow> Inl err
         | Inr method' \<Rightarrow> stream_clauses U name method' (QuackapiTrim U (drop (length word) rest1)))"

definition stream_created :: "bool \<Rightarrow> string + QuackapiStream \<Rightarrow> StreamDdlParseData parse_outcome" where
  "stream_created or_replace parsed = (case parsed of
     Inl err \<Rightarrow> DISPLAY_EXTENSION_ERROR err
   | Inr stream \<Rightarrow> PARSE_SUCCESSFUL \<lparr>sd_action = ''CREATE'', sd_or_replace = or_replace, sd_stream = stream\<rparr>)"

definition StreamDdlParse :: "string_util \<Rightarrow> string \<Rightarrow> StreamDdlParseData parse_outcome" where
  "StreamDdlParse U query =
     (let q = QuackapiTrim U query; upper = su_upper U q
      in if su_starts_with U upper ''CREATE STREAM '' then stream_created False (StreamCreateParse U (QuackapiTrim U (drop 14 q)))
         else if su_starts_with U upper ''CREATE OR REPLACE STREAM '' then
           stream_created True (StreamCreateParse U (QuackapiTrim U (drop 25 q)))
         else if su_starts_with U upper ''DROP STREAM '' then
           (let name = QuackapiTrim U (drop 12 q)
            in if name = [] \<or> CHR '' '' \<in> set name then DISPLAY_EXTENSION_ERROR ''DROP STREAM expects a single stream name''
               else PARSE_SUCCESSFUL \<lparr>sd_action = ''DROP'', sd_or_replace = False, sd_stream = new_stream name ''GET'' []\<rparr>)
         else DISPLAY_ORIGINAL_ERROR)"

section \<open>Execution\<close>

text \<open>
  The planner hands the name, method, pattern, handler and interval over, and the transport is
  computed again from the method. \<open>prepare\<close> is the error of preparing the handler's SQL.
\<close>

definition ApplyStreamBind :: "StreamDdlParseData \<Rightarrow> StreamDdlParseData" where
  "ApplyStreamBind d = d\<lparr>sd_stream := (sd_stream d)\<lparr>st_transport := StreamTransportForMethod (st_method (sd_stream d))\<rparr>\<rparr>"

definition stream_message :: "QuackapiStream \<Rightarrow> string" where
  "stream_message s =
     ''Stream '' @ st_name s @ '': '' @ st_method s @ '' '' @ st_pattern s @ '' '' @ StreamTransportName (st_transport s) @
     (if st_interval_ms s > 0 then '' interval='' @ nat_string (nat (st_interval_ms s)) @ ''ms'' else [])"

definition ApplyStreamExec :: "(string \<Rightarrow> string option) \<Rightarrow> StreamDdlParseData \<Rightarrow> 'v QuackapiState \<Rightarrow> (string \<times> 'v QuackapiState) result" where
  "ApplyStreamExec prepare d s =
     (let stream = sd_stream (ApplyStreamBind d)
      in if sd_action d = ''CREATE'' then
           (case prepare (st_handler_sql stream) of
              Some err \<Rightarrow> Inl (InvalidInput ''Invalid handler SQL for stream'' [st_name stream, err])
            | None \<Rightarrow> (case AddStream stream (sd_or_replace d) s of
                Inl e \<Rightarrow> Inl e
              | Inr s' \<Rightarrow> Inr (stream_message stream, s')))
         else (case DropStream (st_name stream) s of
             (True, s') \<Rightarrow> Inr (''Dropped stream '' @ st_name stream, s')
           | (False, _) \<Rightarrow> Inl (InvalidInput ''Stream does not exist'' [st_name stream])))"

definition StreamsExec :: "string_util \<Rightarrow> 'v QuackapiState \<Rightarrow> (string \<times> string \<times> string \<times> string \<times> int \<times> string) list" where
  "StreamsExec U s = map (\<lambda>t. (st_name t, st_method t, st_pattern t, su_lower U (StreamTransportName (st_transport t)),
     st_interval_ms t, st_handler_sql t)) (fst (SnapshotStreams s))"

section \<open>Properties\<close>

definition stream_ok :: "QuackapiStream \<Rightarrow> bool" where
  "stream_ok t =
     (list_all stream_name_char (st_name t) \<and> (st_method t = ''GET'' \<and> st_transport t = SSE \<or> st_method t = ''WS'' \<and> st_transport t = WS) \<and>
      st_pattern t \<noteq> [] \<and> hd (st_pattern t) = CHR ''/'' \<and> squote \<notin> set (st_pattern t) \<and> st_handler_sql t \<noteq> [] \<and>
      0 \<le> st_interval_ms t \<and> st_interval_ms t \<le> 86400000)"

definition stream_shape :: "QuackapiStream \<Rightarrow> bool" where
  "stream_shape t = stream_ok (t\<lparr>st_handler_sql := ''x''\<rparr>)"

lemma stream_option_shape: "stream_shape t \<Longrightarrow> stream_option U key val t = Inr t' \<Longrightarrow> stream_shape t'"
  by (auto simp: stream_option_def stream_shape_def stream_ok_def dest: ParseIntervalMs_bounds split: if_splits sum.splits)

lemma stream_with_shape: "stream_shape t \<Longrightarrow> stream_with U t rest = Inr (t', rest') \<Longrightarrow> stream_shape t'"
  by (auto simp: stream_with_def split: if_splits sum.splits intro: with_options_keep [where P = stream_shape, OF _ _ stream_option_shape])

lemma new_stream_shape:
  assumes "list_all stream_name_char name" and "stream_method U word = Inr m" and "stream_path m' rest = Inr (pattern, rest1)"
  shows "stream_shape (new_stream name m pattern)"
proof -
  have "squote \<notin> set (takeWhile (\<lambda>c. c \<noteq> squote) xs)" for xs using set_takeWhileD by metis
  with assms show ?thesis
    by (auto simp: stream_shape_def stream_ok_def new_stream_def StreamTransportForMethod_def stream_method_def stream_path_def Let_def split: if_splits)
qed

lemma stream_clauses_ok:
  assumes "list_all stream_name_char name" and "stream_method U word = Inr m" and "stream_clauses U name m rest = Inr t"
  shows "stream_ok t"
proof -
  obtain pattern rest1 stream rest2 where p: "stream_path m rest = Inr (pattern, rest1)"
    and w: "stream_with U (new_stream name m pattern) (QuackapiTrim U rest1) = Inr (stream, rest2)"
    and t: "t = stream\<lparr>st_handler_sql := after_keyword U ''AS'' rest2\<rparr>" and h: "after_keyword U ''AS'' rest2 \<noteq> []"
    using assms(3) unfolding stream_clauses_def stream_select_def by (auto split: sum.splits if_splits)
  from stream_with_shape [OF new_stream_shape [OF assms(1,2) p] w] t h show ?thesis by (simp add: stream_shape_def stream_ok_def)
qed

lemma StreamDdlParse_ok:
  assumes "StreamDdlParse U sql = PARSE_SUCCESSFUL d" and "sd_action d = ''CREATE''"
  shows "stream_ok (sd_stream d)"
proof -
  have "StreamCreateParse U rest = Inr t \<Longrightarrow> stream_ok t" for rest t
    unfolding StreamCreateParse_def Let_def by (auto split: if_splits sum.splits dest: stream_clauses_ok)
  with assms show ?thesis unfolding StreamDdlParse_def Let_def stream_created_def by (auto split: if_splits sum.splits)
qed

text \<open>The registry as the statements that succeed leave it, each applied to what its grammar returned.\<close>

inductive stream_history :: "string_util \<Rightarrow> (string \<Rightarrow> string option) \<Rightarrow> 'v QuackapiState \<Rightarrow> bool" for U prepare where
  no_streams: "stream_history U prepare initial_state"
| stream_statement: "stream_history U prepare s \<Longrightarrow> StreamDdlParse U sql = PARSE_SUCCESSFUL d \<Longrightarrow> ApplyStreamExec prepare d s = Inr (msg, s')
    \<Longrightarrow> stream_history U prepare s'"
| stream_view: "stream_history U prepare s \<Longrightarrow> stream_history U prepare (snd (SnapshotStreams s))"

lemma SnapshotStreams_streams [simp]: "streams (snd (SnapshotStreams s)) = streams s"
  by (simp add: SnapshotStreams_def LiveStreams_def PublishStreams_def split: option.splits)

lemma ApplyStreamExec_streams:
  assumes "ApplyStreamExec prepare d s = Inr (msg, s')" and "t \<in> set (streams s')"
  shows "t \<in> set (streams s) \<or> sd_action d = ''CREATE'' \<and> t = sd_stream (ApplyStreamBind d) \<and> prepare (st_handler_sql t) = None"
  using assms unfolding ApplyStreamExec_def AddStream_def DropStream_def PublishStreams_def Let_def
  by (auto split: if_splits option.splits sum.splits prod.splits bool.splits dest: in_set_replace_firstD subsetD [OF set_erase_first_subset])

lemma ApplyStreamBind_ok: "stream_ok (sd_stream d) \<Longrightarrow> sd_stream (ApplyStreamBind d) = sd_stream d"
  by (auto simp: stream_ok_def ApplyStreamBind_def StreamTransportForMethod_def)

text \<open>
  Whatever statements are accepted, every stream of the registry has an identifier as its name, a
  method that agrees with its transport, a pattern that starts with a slash, a handler DuckDB could
  prepare, and a polling interval of at most a day.
\<close>

theorem declared_streams_well_formed:
  assumes "stream_history U prepare s" and "t \<in> set (streams s)"
  shows "stream_ok t \<and> prepare (st_handler_sql t) = None"
  using assms
proof (induction)
  case no_streams
  then show ?case by (simp add: initial_state_def)
next
  case (stream_statement s sql d msg s')
  from ApplyStreamExec_streams [OF stream_statement(3,5)] show ?case
    using stream_statement(4) StreamDdlParse_ok [OF stream_statement(2)] ApplyStreamBind_ok [of d] by auto
qed simp

definition clock_stream :: QuackapiStream where
  "clock_stream = \<lparr>st_name = ''clock'', st_method = ''GET'', st_pattern = ''/clock'', st_handler_sql = ''SELECT now()'', st_interval_ms = 2000,
     st_transport = SSE\<rparr>"

lemma clock_statement:
  "StreamDdlParse ascii_util (''CREATE STREAM clock GET '' @ squoted ''/clock'' @ '' WITH (interval=2s) AS SELECT now()'') =
     PARSE_SUCCESSFUL \<lparr>sd_action = ''CREATE'', sd_or_replace = False, sd_stream = clock_stream\<rparr>"
  by code_simp

lemma clock_created:
  "\<exists>msg. ApplyStreamExec (\<lambda>_. None) \<lparr>sd_action = ''CREATE'', sd_or_replace = False, sd_stream = clock_stream\<rparr> initial_state =
     Inr (msg, initial_state\<lparr>streams := [clock_stream], streams_live := Some [clock_stream]\<rparr>)"
  by (simp add: Let_def ApplyStreamExec_def ApplyStreamBind_def AddStream_def PublishStreams_def stream_collides_def initial_state_def
    clock_stream_def StreamTransportForMethod_def)

theorem declared_streams_well_formed_witness: "stream_ok clock_stream"
proof -
  obtain msg where c: "ApplyStreamExec (\<lambda>_. None) \<lparr>sd_action = ''CREATE'', sd_or_replace = False, sd_stream = clock_stream\<rparr> (initial_state :: nat QuackapiState) =
     Inr (msg, initial_state\<lparr>streams := [clock_stream], streams_live := Some [clock_stream]\<rparr>)" using clock_created by blast
  from declared_streams_well_formed [OF stream_statement [OF no_streams clock_statement c], of clock_stream] show ?thesis by simp
qed

end
