(* ===== verification/Streams.thy ===== *)
theory Streams
  imports Enforcement Handler
begin

text \<open>
  Serving streams (\<open>src/src/quackapi_server.cpp\<close>): event streams over HTTP and sessions over
  WebSockets. DuckDB is a parameter (\<open>stream_db\<close>): an execution gives the new state of the database
  and the chunks its fetches will return. The connection is an environment: what each write returns, what
  each read brings, and when the server stops.
\<close>

section \<open>Parameters\<close>

definition StreamProvidedParams :: "string_util \<Rightarrow> Request \<Rightarrow> (string \<times> string) list \<Rightarrow> string \<Rightarrow> string \<Rightarrow> string \<Rightarrow> string ci_map" where
  "StreamProvidedParams U req captures request_id trace_id span_id =
     fold (\<lambda>kv. ci_put U (fst kv) (snd kv))
       (rq_params req @ captures @ [(''request_id'', request_id), (''trace_id'', trace_id), (''span_id'', span_id)]) []"

text \<open>The prepared statement lists its parameters with their expected types; the loop stops at the first failure.\<close>

fun BindStreamParams :: "string_util \<Rightarrow> ('v, 't) engine \<Rightarrow> string \<Rightarrow> string ci_map \<Rightarrow> string list \<Rightarrow> (string \<times> 't option) list
    \<Rightarrow> 'v ci_map \<Rightarrow> string + 'v ci_map" where
  "BindStreamParams U E pattern provided optional [] named_values = Inr named_values"
| "BindStreamParams U E pattern provided optional ((param_name, planned) # params) named_values =
     (let expected = (case planned of Some t \<Rightarrow> t | None \<Rightarrow> en_type E T_UNKNOWN);
          loc = (if IsPathParam pattern param_name then ''path'' else ''query'')
      in case ci_find U param_name provided of
           None \<Rightarrow> if param_name \<in> set optional
             then BindStreamParams U E pattern provided optional params (ci_put U param_name (en_null E) named_values)
             else Inl (ValidationErrorJson loc param_name ''Field required'' ''missing'')
         | Some raw \<Rightarrow> (case BindParamValue E raw expected loc param_name of
             Inl err_json \<Rightarrow> Inl err_json
           | Inr bound \<Rightarrow> BindStreamParams U E pattern provided optional params (ci_put U param_name bound named_values)))"

section \<open>The database\<close>

text \<open>The rest of a result: the chunks still to fetch, and the exception that the fetch after them throws.\<close>

record stream_result =
  sr_names :: "string list"
  sr_chunks :: "row list list"
  sr_throws :: "string option"

record ('db, 'v, 't) stream_db =
  sb_prepare :: "'db \<Rightarrow> string \<Rightarrow> string + (string \<times> 't option) list"
  sb_execute :: "'db \<Rightarrow> string \<Rightarrow> 'v ci_map \<Rightarrow> 'db \<times> (string + stream_result)"

datatype fetched = FETCH_THROWS string | NO_MORE_ROWS | CHUNK "row list"

text \<open>A null chunk and an empty one both end a result.\<close>

definition Fetch :: "stream_result \<Rightarrow> fetched \<times> stream_result" where
  "Fetch r = (case sr_chunks r of
     [] \<Rightarrow> (case sr_throws r of Some e \<Rightarrow> FETCH_THROWS e | None \<Rightarrow> NO_MORE_ROWS, r)
   | c # cs \<Rightarrow> (if c = [] then NO_MORE_ROWS else CHUNK c, r\<lparr>sr_chunks := cs\<rparr>))"

section \<open>Event streams: the request\<close>

record 'v sse_state =
  ss_sql :: string
  ss_named_values :: "'v ci_map"
  ss_interval_ms :: int
  ss_max_bytes :: nat
  ss_result :: "stream_result option"
  ss_need_execute :: bool
  ss_closed :: bool
  ss_sent_bytes :: nat
  ss_rows_sent :: nat

definition event_stream_headers :: "Response \<Rightarrow> Response" where
  "event_stream_headers res = set_header ''X-Accel-Buffering'' ''no'' (set_header ''Cache-Control'' ''no-cache'' res)"

definition policy_denial :: string where
  "policy_denial = detail_body ''Policy denies unauthenticated access''"

text \<open>The request header \<open>Last-Event-ID\<close> is the parameter \<open>last_id\<close>, unless the request has one.\<close>

definition with_last_id :: "string_util \<Rightarrow> string ci_map \<Rightarrow> string ci_map \<Rightarrow> string ci_map" where
  "with_last_id U headers provided =
     (if ci_find U ''last_id'' provided \<noteq> None then provided
      else case FindHeaderValue U headers ''Last-Event-ID'' of
        Some v \<Rightarrow> if v \<noteq> [] then ci_put U ''last_id'' v provided else provided
      | None \<Rightarrow> provided)"

text \<open>
  The counter of open sessions is incremented before it is compared and decremented again at the limit;
  it is only kept when a listening server answers. The result is the counter and whether a session was taken.
\<close>

definition take_session :: "nat \<Rightarrow> nat \<Rightarrow> nat \<times> bool" where
  "take_session limit sessions = (if sessions \<ge> limit then (sessions, False) else (sessions + 1, True))"

record server_env =
  sv_listening :: bool
  sv_session_limit :: nat
  sv_trace :: trace_context

text \<open>
  Opening an event stream: \<open>Inl\<close> is an answer, \<open>Inr\<close> the response together with the state of the
  provider that will write its body. The first execution happens here.
\<close>

definition start_sse :: "request_env \<Rightarrow> ('db, 'v, 't) stream_db \<Rightarrow> server_env \<Rightarrow> QuackapiServeOptions \<Rightarrow> Request \<Rightarrow> QuackapiStream
    \<Rightarrow> string \<Rightarrow> string \<Rightarrow> 'v ci_map \<Rightarrow> Response \<Rightarrow> 'db \<times> nat \<Rightarrow> ('db \<times> nat) \<times> (Response + Response \<times> 'v sse_state)" where
  "start_sse E D V options req stream request_id sql named_values res dn = (case dn of (db, sessions) \<Rightarrow>
     (case sb_execute D db sql named_values of
        (db', Inl err) \<Rightarrow> ((db', sessions), Inl (SetInternalError err res))
      | (db', Inr result) \<Rightarrow>
          (case (if sv_listening V then take_session (sv_session_limit V) sessions else (sessions, True)) of
             (sessions', False) \<Rightarrow> ((db', sessions'), Inl (SetJson 503 (detail_body ''Too many open stream sessions'') res))
           | (sessions', True) \<Rightarrow> ((db', sessions'),
               Inr (set_header ''Content-Type'' ''text/event-stream'' (set_header ''X-Request-ID'' request_id
                      (ApplyCorsHeaders (re_util E) (so_cors_origins options) (rq_headers req)
                        (event_stream_headers (res\<lparr>rs_status := 200\<rparr>)))),
                    \<lparr>ss_sql = sql, ss_named_values = named_values, ss_interval_ms = st_interval_ms stream,
                     ss_max_bytes = nat (so_max_response_bytes options), ss_result = Some result, ss_need_execute = False,
                     ss_closed = False, ss_sent_bytes = 0, ss_rows_sent = 0\<rparr>)))))"

definition open_sse :: "request_env \<Rightarrow> ('v, 't) engine \<Rightarrow> ('db, 'v, 't) stream_db \<Rightarrow> server_env \<Rightarrow> QuackapiServeOptions \<Rightarrow> Request
    \<Rightarrow> QuackapiStream \<Rightarrow> (string \<times> string) list \<Rightarrow> string \<Rightarrow> Response \<Rightarrow> 'db \<times> nat \<Rightarrow> ('db \<times> nat) \<times> (Response + Response \<times> 'v sse_state)" where
  "open_sse E G D V options req stream captures request_id res dn =
     (let U = re_util E
      in case re_rewrite E (st_handler_sql stream) False of (sql, denied, policy_error) \<Rightarrow>
        if denied \<or> policy_error \<noteq> [] then (dn, Inl (SetJson 403 policy_denial res))
        else if rq_method req = ''HEAD'' then
          (dn, Inl ((event_stream_headers (set_header ''Content-Type'' ''text/event-stream'' (res\<lparr>rs_status := 200\<rparr>)))\<lparr>rs_body := []\<rparr>))
        else case sb_prepare D (fst dn) sql of
          Inl err \<Rightarrow> (dn, Inl (SetInternalError err res))
        | Inr params \<Rightarrow>
            let provided = with_last_id U (CollectHeaders U (rq_headers req))
              (StreamProvidedParams U req captures request_id (tc_trace_id (sv_trace V)) (tc_span_id (sv_trace V)))
            in case BindStreamParams U G (st_pattern stream) provided [''last_id''] params [] of
                 Inl err_json \<Rightarrow> (dn, Inl (SetJson 422 err_json res))
               | Inr named_values \<Rightarrow> start_sse E D V options req stream request_id sql named_values res dn)"

section \<open>Event streams: the provider\<close>

text \<open>
  What a call of the provider meets: whether the server has stopped, whether the client is still
  there when a given time of the pause remains, and the result of the write.
\<close>

record sink_env =
  si_stopped :: bool
  si_alive :: "int \<Rightarrow> bool"
  si_write :: bool

datatype provider_outcome = MORE | DONE | ABORTED

text \<open>The pause between two executions, in steps of at most 100 ms.\<close>

function sleep_loop :: "(int \<Rightarrow> bool) \<Rightarrow> int \<Rightarrow> bool" where
  "sleep_loop alive remaining =
     (if remaining \<le> 0 then True
      else let rest = remaining - (if remaining > 100 then 100 else remaining)
           in if alive rest then sleep_loop alive rest else False)"
  by pat_completeness auto
termination by (relation "measure (\<lambda>(alive, remaining). nat remaining)") auto

declare sleep_loop.simps [simp del]

text \<open>The events of a chunk; \<open>None\<close> when they would pass the byte limit.\<close>

fun chunk_events :: "string_util \<Rightarrow> string list \<Rightarrow> nat \<Rightarrow> nat \<Rightarrow> row list \<Rightarrow> string \<Rightarrow> string option" where
  "chunk_events U names max_bytes sent [] buf = Some buf"
| "chunk_events U names max_bytes sent (cols # rows) buf =
     (let event = FormatSseEvent U names cols
      in if sent + length buf + length event > max_bytes then None
         else chunk_events U names max_bytes sent rows (buf @ event))"

definition sse_close :: "'v sse_state \<Rightarrow> 'v sse_state" where
  "sse_close st = st\<lparr>ss_closed := True\<rparr>"

text \<open>After the execution: the next state, the outcome and what was handed to the sink.\<close>

definition sse_fetch :: "string_util \<Rightarrow> sink_env \<Rightarrow> 'v sse_state \<Rightarrow> stream_result \<Rightarrow> 'v sse_state \<times> provider_outcome \<times> string" where
  "sse_fetch U I st result = (case Fetch result of
     (FETCH_THROWS e, _) \<Rightarrow> (sse_close st, ABORTED, [])
   | (NO_MORE_ROWS, _) \<Rightarrow>
       let st1 = st\<lparr>ss_result := None\<rparr>
       in if ss_interval_ms st \<le> 0 then (sse_close st1, DONE, [])
          else if \<not> sleep_loop (si_alive I) (ss_interval_ms st) then (sse_close st1, ABORTED, [])
          else (st1\<lparr>ss_need_execute := True\<rparr>, MORE, [])
   | (CHUNK rows, result') \<Rightarrow> (case chunk_events U (sr_names result') (ss_max_bytes st) (ss_sent_bytes st) rows [] of
       None \<Rightarrow> (sse_close (st\<lparr>ss_result := Some result'\<rparr>), ABORTED, [])
     | Some buf \<Rightarrow>
         let st1 = st\<lparr>ss_result := Some result', ss_sent_bytes := ss_sent_bytes st + length buf, ss_rows_sent := ss_rows_sent st + length rows\<rparr>
         in if buf \<noteq> [] \<and> \<not> si_write I then (sse_close st1, ABORTED, buf) else (st1, MORE, buf)))"

text \<open>
  One call of the provider. With no result and no execution due the dereferenced pointer is null and
  throws; the lemma \<open>sse_result_ready\<close> shows that this never happens.
\<close>

definition sse_call :: "string_util \<Rightarrow> ('db, 'v, 't) stream_db \<Rightarrow> sink_env \<Rightarrow> 'db \<times> 'v sse_state \<Rightarrow> ('db \<times> 'v sse_state) \<times> provider_outcome \<times> string" where
  "sse_call U D I dst = (case dst of (db, st) \<Rightarrow>
     if ss_closed st \<or> si_stopped I then ((db, st), DONE, [])
     else case (if ss_need_execute st then sb_execute D db (ss_sql st) (ss_named_values st)
                else (db, case ss_result st of Some r \<Rightarrow> Inr r | None \<Rightarrow> Inl ''null result'')) of
       (db', Inl err) \<Rightarrow> ((db', sse_close st), ABORTED, [])
     | (db', Inr result) \<Rightarrow> (case sse_fetch U I (st\<lparr>ss_need_execute := False, ss_result := Some result\<rparr>) result of
         (st', outcome, out) \<Rightarrow> ((db', st'), outcome, out)))"

text \<open>The transfer: the provider is called until it is done or fails; the text is what the sink was handed.\<close>

fun run_sse :: "string_util \<Rightarrow> ('db, 'v, 't) stream_db \<Rightarrow> sink_env list \<Rightarrow> 'db \<times> 'v sse_state \<Rightarrow> ('db \<times> 'v sse_state) \<times> string" where
  "run_sse U D [] dst = (dst, [])"
| "run_sse U D (I # Is) dst = (case sse_call U D I dst of
     (dst', MORE, out) \<Rightarrow> (case run_sse U D Is dst' of (dst'', rest) \<Rightarrow> (dst'', out @ rest))
   | (dst', _, out) \<Rightarrow> (dst', out))"

text \<open>The end of the transfer drops the result, and the session with the last reference to the state.\<close>

definition release_sse :: "server_env \<Rightarrow> nat \<Rightarrow> 'v sse_state \<Rightarrow> nat \<times> 'v sse_state" where
  "release_sse V sessions st =
     (if sv_listening V then sessions - 1 else sessions, st\<lparr>ss_result := None, ss_closed := True\<rparr>)"

definition sse_record :: "string_util \<Rightarrow> Request \<Rightarrow> 'v sse_state \<Rightarrow> string \<Rightarrow> QuackapiStream \<Rightarrow> request_timing \<Rightarrow> trace_context \<Rightarrow> QuackapiServeOptions
    \<Rightarrow> QuackapiRequestRecord" where
  "sse_record U req st request_id stream t trace options =
     MakeRequestRecord U req (set_header ''Content-Length'' (nat_string (ss_sent_bytes st)) (empty_response\<lparr>rs_status := 200\<rparr>)) request_id
       (st_name stream) (st_pattern stream) (t\<lparr>rt_prepare_ms := Fin (- 1), rt_execute_ms := Fin (- 1), rt_rows := int (ss_rows_sent st)\<rparr>) trace options"

section \<open>Properties of the provider\<close>

definition events_text :: "string_util \<Rightarrow> (string list \<times> row) list \<Rightarrow> string" where
  "events_text U xs = concat (map (\<lambda>x. FormatSseEvent U (fst x) (snd x)) xs)"

lemma events_text_simps [simp]:
  "events_text U [] = []" "events_text U (xs @ ys) = events_text U xs @ events_text U ys"
  by (simp_all add: events_text_def)

lemma chunk_events_text:
  assumes "chunk_events U names max_bytes sent rows buf = Some out"
  shows "out = buf @ events_text U (map (Pair names) rows) \<and> (sent + length buf \<le> max_bytes \<longrightarrow> sent + length out \<le> max_bytes)"
  using assms
proof (induction rows arbitrary: buf)
  case (Cons cols rows)
  let ?event = "FormatSseEvent U names cols"
  have fits: "sent + length buf + length ?event \<le> max_bytes" and tail: "chunk_events U names max_bytes sent rows (buf @ ?event) = Some out"
    using Cons.prems by (simp_all add: Let_def split: if_splits)
  from Cons.IH [OF tail] have "out = buf @ events_text U (map (Pair names) (cols # rows))" "sent + length out \<le> max_bytes"
    using fits by (auto simp: events_text_def)
  then show ?case by simp
qed auto

lemma sse_close_sel [simp]:
  "ss_sent_bytes (sse_close st) = ss_sent_bytes st" "ss_rows_sent (sse_close st) = ss_rows_sent st" "ss_max_bytes (sse_close st) = ss_max_bytes st"
  "ss_closed (sse_close st)" "ss_interval_ms (sse_close st) = ss_interval_ms st" "ss_need_execute (sse_close st) = ss_need_execute st"
  "ss_result (sse_close st) = ss_result st"
  by (simp_all add: sse_close_def)

text \<open>What a call may do to the state: it hands rows to the sink, counts them and their bytes, and keeps to the limit.\<close>

definition sse_sends :: "string_util \<Rightarrow> 'v sse_state \<Rightarrow> 'v sse_state \<Rightarrow> string \<Rightarrow> bool" where
  "sse_sends U st st' out =
     (ss_max_bytes st' = ss_max_bytes st \<and>
      (ss_sent_bytes st \<le> ss_max_bytes st \<longrightarrow>
        ss_sent_bytes st' = ss_sent_bytes st + length out \<and> ss_sent_bytes st' \<le> ss_max_bytes st' \<and>
        (\<exists>xs. out = events_text U xs \<and> ss_rows_sent st' = ss_rows_sent st + length xs)))"

lemma sse_sends_none: "ss_max_bytes st' = ss_max_bytes st \<Longrightarrow> ss_sent_bytes st' = ss_sent_bytes st \<Longrightarrow> ss_rows_sent st' = ss_rows_sent st \<Longrightarrow> sse_sends U st st' []"
  unfolding sse_sends_def by (auto intro: exI [where x = "[]"])

lemma sse_sends_trans: "sse_sends U st st1 out1 \<Longrightarrow> sse_sends U st1 st2 out2 \<Longrightarrow> sse_sends U st st2 (out1 @ out2)"
  unfolding sse_sends_def by (force simp: add.assoc simp flip: events_text_simps(2))

lemma sse_fetch_sends:
  assumes "sse_fetch U I st result = (st', outcome, out)"
  shows "sse_sends U st st' out"
proof (cases "fst (Fetch result)")
  case (CHUNK rows)
  show ?thesis
  proof (cases "chunk_events U (sr_names (snd (Fetch result))) (ss_max_bytes st) (ss_sent_bytes st) rows []")
    case None
    with CHUNK assms show ?thesis by (auto simp: sse_fetch_def split: prod.splits intro!: sse_sends_none)
  next
    case (Some buf)
    with CHUNK assms chunk_events_text [OF Some] show ?thesis
      by (fastforce simp: sse_fetch_def sse_sends_def Let_def split: prod.splits if_splits
        intro: exI [where x = "map (Pair (sr_names (snd (Fetch result)))) rows"])
  qed
qed (use assms in \<open>auto simp: sse_fetch_def Let_def split: prod.splits if_splits intro!: sse_sends_none\<close>)

lemma sse_call_sends:
  assumes "sse_call U D I (db, st) = ((db', st'), outcome, out)"
  shows "sse_sends U st st' out"
proof (cases "ss_closed st \<or> si_stopped I")
  case False
  then consider (failed) err where "st' = sse_close st" "out = []"
    | (fetched) result where "sse_fetch U I (st\<lparr>ss_need_execute := False, ss_result := Some result\<rparr>) result = (st', outcome, out)"
    using assms by (auto simp: sse_call_def split: prod.splits sum.splits)
  then show ?thesis
  proof cases
    case fetched
    from sse_fetch_sends [OF this] show ?thesis by (auto simp: sse_sends_def)
  qed (auto intro: sse_sends_none)
qed (use assms in \<open>auto simp: sse_call_def intro: sse_sends_none\<close>)

lemma run_sse_sends: "run_sse U D Is (db, st) = ((db', st'), out) \<Longrightarrow> sse_sends U st st' out"
proof (induction Is arbitrary: db st out)
  case Nil
  then show ?case by (auto intro: sse_sends_none)
next
  case (Cons I Is)
  obtain db1 st1 outcome out1 where c: "sse_call U D I (db, st) = ((db1, st1), outcome, out1)" by (metis prod.exhaust)
  from sse_call_sends [OF c] c Cons show ?case
    by (cases outcome) (auto split: prod.splits intro: sse_sends_trans)
qed

text \<open>A provider always has a result to fetch from, or an execution due.\<close>

definition result_ready :: "'v sse_state \<Rightarrow> bool" where
  "result_ready st = (ss_closed st \<or> ss_need_execute st \<or> ss_result st \<noteq> None)"

lemma sse_result_ready:
  assumes "result_ready st" and "sse_call U D I (db, st) = ((db', st'), outcome, out)"
  shows "result_ready st'"
  using assms
  by (auto simp: sse_call_def sse_fetch_def result_ready_def Let_def split: prod.splits sum.splits fetched.splits option.splits if_splits)

text \<open>A stream without an interval, with a result to fetch from.\<close>

definition one_shot :: "'v sse_state \<Rightarrow> stream_result \<Rightarrow> bool" where
  "one_shot st r = (ss_interval_ms st \<le> 0 \<and> \<not> ss_need_execute st \<and> ss_result st = Some r)"

lemma one_shot_call:
  assumes "one_shot st r" and "sse_call U D I (db, st) = ((db', st'), outcome, out)"
  shows "db' = db \<and>
    (outcome = MORE \<and> (\<exists>rows cs. sr_chunks r = rows # cs \<and> one_shot st' (r\<lparr>sr_chunks := cs\<rparr>) \<and>
        out = events_text U (map (Pair (sr_names r)) rows) \<and> ss_rows_sent st' = ss_rows_sent st + length rows) \<or>
     outcome \<noteq> MORE \<and> (\<exists>rows. out = events_text U (map (Pair (sr_names r)) rows) \<and> ss_rows_sent st' = ss_rows_sent st + length rows \<and>
        (rows = [] \<or> (\<exists>cs. sr_chunks r = rows # cs))))"
proof -
  have st: "st\<lparr>ss_need_execute := False, ss_result := Some r\<rparr> = st" using assms(1) by (simp add: one_shot_def)
  show ?thesis
  proof (cases "ss_closed st \<or> si_stopped I")
    case False
    then have f: "db' = db" "sse_fetch U I st r = (st', outcome, out)"
      using assms st by (auto simp: sse_call_def one_shot_def split: prod.splits)
    show ?thesis
    proof (cases "\<exists>rows cs. sr_chunks r = rows # cs \<and> rows \<noteq> []")
      case True
      then obtain rows cs where c: "sr_chunks r = rows # cs" "rows \<noteq> []" by blast
      show ?thesis
      proof (cases "chunk_events U (sr_names r) (ss_max_bytes st) (ss_sent_bytes st) rows []")
        case None
        with f c show ?thesis by (auto simp: sse_fetch_def Fetch_def intro: exI [where x = "[]"])
      next
        case (Some buf)
        with f c chunk_events_text [OF Some] assms(1) show ?thesis
          by (auto simp: sse_fetch_def Fetch_def Let_def one_shot_def split: if_splits)
      qed
    next
      case no: False
      have "outcome \<noteq> MORE \<and> out = [] \<and> ss_rows_sent st' = ss_rows_sent st"
        using f no assms(1) by (auto simp: sse_fetch_def Fetch_def Let_def one_shot_def split: list.splits option.splits if_splits)
      then show ?thesis using f(1) by (auto intro: exI [where x = "[]"])
    qed
  qed (use assms in \<open>auto simp: sse_call_def intro: exI [where x = "[]"]\<close>)
qed

lemma one_shot_run:
  assumes "one_shot st r" and "run_sse U D Is (db, st) = ((db', st'), out)"
  shows "db' = db \<and> (\<exists>k. out = events_text U (map (Pair (sr_names r)) (take k (concat (sr_chunks r)))) \<and>
    k \<le> length (concat (sr_chunks r)) \<and> ss_rows_sent st' = ss_rows_sent st + k)"
  using assms
proof (induction Is arbitrary: st r out)
  case Nil
  then show ?case by (auto intro: exI [where x = 0])
next
  case (Cons I Is)
  obtain db1 st1 outcome out1 where c: "sse_call U D I (db, st) = ((db1, st1), outcome, out1)" by (metis prod.exhaust)
  note call = one_shot_call [OF Cons.prems(1) c]
  show ?case
  proof (cases "outcome = MORE")
    case True
    then obtain rows cs where m: "sr_chunks r = rows # cs" "one_shot st1 (r\<lparr>sr_chunks := cs\<rparr>)" "db1 = db"
      "out1 = events_text U (map (Pair (sr_names r)) rows)" "ss_rows_sent st1 = ss_rows_sent st + length rows" using call by blast
    obtain out2 where rest: "run_sse U D Is (db, st1) = ((db', st'), out2)" "out = out1 @ out2"
      using Cons.prems(2) c True m(3) by (auto split: prod.splits)
    from Cons.IH [OF m(2) rest(1)] obtain k where "db' = db" "k \<le> length (concat cs)" "ss_rows_sent st' = ss_rows_sent st1 + k"
      "out2 = events_text U (map (Pair (sr_names r)) (take k (concat cs)))" by auto
    then show ?thesis using m rest(2)
      by (intro conjI exI [where x = "length rows + k"]) (auto simp del: events_text_simps simp: events_text_simps(2) [symmetric] simp flip: map_append)
  next
    case False
    then obtain rows where m: "db1 = db" "out1 = events_text U (map (Pair (sr_names r)) rows)" "ss_rows_sent st1 = ss_rows_sent st + length rows"
      "rows = [] \<or> (\<exists>cs. sr_chunks r = rows # cs)" using call by blast
    moreover have "db' = db1" "st' = st1" "out = out1" using False c Cons.prems(2) by (auto split: provider_outcome.splits)
    ultimately show ?thesis by (intro conjI exI [where x = "length rows"]) auto
  qed
qed

text \<open>With a client that stays, a server that runs and room in the limit, a stream without an interval is delivered whole.\<close>

definition smooth :: "sink_env \<Rightarrow> bool" where
  "smooth I = (\<not> si_stopped I \<and> si_write I)"

lemma chunk_events_fit:
  assumes "sent + length buf + length (events_text U (map (Pair names) rows)) \<le> max_bytes"
  shows "chunk_events U names max_bytes sent rows buf = Some (buf @ events_text U (map (Pair names) rows))"
  using assms
proof (induction rows arbitrary: buf)
  case (Cons cols rows)
  then show ?case using Cons.IH [of "buf @ FormatSseEvent U names cols"] by (simp add: events_text_def)
qed simp

lemma one_shot_complete:
  assumes "one_shot st r" and "\<not> ss_closed st" and "[] \<notin> set (sr_chunks r)" and "sr_throws r = None"
    and "\<forall>I \<in> set Is. smooth I" and "length (sr_chunks r) < length Is"
    and "ss_sent_bytes st + length (events_text U (map (Pair (sr_names r)) (concat (sr_chunks r)))) \<le> ss_max_bytes st"
  shows "\<exists>st'. run_sse U D Is (db, st) = ((db, st'), events_text U (map (Pair (sr_names r)) (concat (sr_chunks r)))) \<and> ss_closed st'"
  using assms
proof (induction "sr_chunks r" arbitrary: st r Is)
  case Nil
  then obtain I Is' where Is: "Is = I # Is'" by (cases Is) auto
  with Nil show ?case
    by (auto simp: sse_call_def smooth_def one_shot_def sse_fetch_def Fetch_def Let_def)
next
  case (Cons rows cs)
  then obtain I Is' where Is: "Is = I # Is'" by (cases Is) auto
  let ?text = "events_text U (map (Pair (sr_names r)) rows)"
  let ?st = "st\<lparr>ss_need_execute := False, ss_result := Some (r\<lparr>sr_chunks := cs\<rparr>),
    ss_sent_bytes := ss_sent_bytes st + length ?text, ss_rows_sent := ss_rows_sent st + length rows\<rparr>"
  have room: "ss_sent_bytes st + length ?text + length (events_text U (map (Pair (sr_names r)) (concat cs))) \<le> ss_max_bytes st"
    using Cons.prems(7) Cons.hyps(2) [symmetric] by simp
  have "chunk_events U (sr_names r) (ss_max_bytes st) (ss_sent_bytes st) rows [] = Some ?text"
    using chunk_events_fit [of "ss_sent_bytes st" "[]" U "sr_names r" rows "ss_max_bytes st"] room by simp
  moreover have "smooth I" "rows \<noteq> []" using Cons.prems(3,5) Is Cons.hyps(2) [symmetric] by auto
  ultimately have call: "sse_call U D I (db, st) = ((db, ?st), MORE, ?text)"
    using Cons.prems(1,2) Cons.hyps(2) [symmetric] by (auto simp: sse_call_def smooth_def one_shot_def sse_fetch_def Fetch_def Let_def)
  from Cons.hyps(1) [of "r\<lparr>sr_chunks := cs\<rparr>" ?st Is'] obtain st' where
    "run_sse U D Is' (db, ?st) = ((db, st'), events_text U (map (Pair (sr_names r)) (concat cs)))" "ss_closed st'"
    using Cons.prems Cons.hyps(2) [symmetric] room Is by (auto simp: one_shot_def add.assoc)
  then show ?case using call Is Cons.hyps(2) [symmetric] by auto
qed

section \<open>Properties of an opened stream\<close>

lemma opened_sse:
  assumes "open_sse E G D V options req stream captures request_id res dn = (dn', Inr (answer, st))"
  obtains sql params vals result where "re_rewrite E (st_handler_sql stream) False = (sql, False, [])"
    and "sb_prepare D (fst dn) sql = Inr params" and "sb_execute D (fst dn) sql vals = (fst dn', Inr result)"
    and "st = \<lparr>ss_sql = sql, ss_named_values = vals, ss_interval_ms = st_interval_ms stream,
           ss_max_bytes = nat (so_max_response_bytes options), ss_result = Some result, ss_need_execute = False,
           ss_closed = False, ss_sent_bytes = 0, ss_rows_sent = 0\<rparr>"
    and "snd dn' = (if sv_listening V then snd dn + 1 else snd dn)" and "sv_listening V \<Longrightarrow> snd dn < sv_session_limit V"
  using assms
  by (auto simp: open_sse_def start_sse_def take_session_def Let_def split: prod.splits if_splits sum.splits bool.splits)

text \<open>The body of an event stream keeps within the configured number of bytes, which the access log reports.\<close>

lemma opened_stream_bounded:
  assumes "open_sse E G D V options req stream captures request_id res dn = (dn', Inr (answer, st))"
    and "run_sse U D Is (db, st) = ((db', st'), body)"
  shows "length body = ss_sent_bytes st' \<and> length body \<le> nat (so_max_response_bytes options) \<and>
    (\<exists>xs. body = events_text U xs \<and> length xs = ss_rows_sent st')"
proof -
  obtain sql params vals result where "st = \<lparr>ss_sql = sql, ss_named_values = vals, ss_interval_ms = st_interval_ms stream,
           ss_max_bytes = nat (so_max_response_bytes options), ss_result = Some result, ss_need_execute = False,
           ss_closed = False, ss_sent_bytes = 0, ss_rows_sent = 0\<rparr>" by (rule opened_sse [OF assms(1)])
  then show ?thesis using run_sse_sends [OF assms(2)] by (auto simp: sse_sends_def)
qed

text \<open>
  An event stream without an interval runs its statement once: the provider executes nothing, so the
  database is left as the opening left it, and the body is the events of the first rows of that one
  execution's result, in order, as many as the access log counts.
\<close>

theorem event_stream_executes_once:
  assumes "open_sse E G D V options req stream captures request_id res (db, n) = ((db1, n1), Inr (answer, st))"
    and "st_interval_ms stream \<le> 0" and "run_sse U D Is (db1, st) = ((db2, st2), body)"
  shows "\<exists>sql vals result. re_rewrite E (st_handler_sql stream) False = (sql, False, []) \<and>
    sb_execute D db sql vals = (db1, Inr result) \<and> db2 = db1 \<and>
    body = concat (map (FormatSseEvent U (sr_names result)) (take (ss_rows_sent st2) (concat (sr_chunks result)))) \<and>
    length body \<le> nat (so_max_response_bytes options)"
proof -
  obtain sql params vals result where o: "re_rewrite E (st_handler_sql stream) False = (sql, False, [])"
    "sb_execute D db sql vals = (db1, Inr result)"
    "st = \<lparr>ss_sql = sql, ss_named_values = vals, ss_interval_ms = st_interval_ms stream,
           ss_max_bytes = nat (so_max_response_bytes options), ss_result = Some result, ss_need_execute = False,
           ss_closed = False, ss_sent_bytes = 0, ss_rows_sent = 0\<rparr>" by (rule opened_sse [OF assms(1)]) simp
  then have "one_shot st result" using assms(2) by (simp add: one_shot_def)
  from one_shot_run [OF this assms(3)] o(3) have "db2 = db1"
    "body = events_text U (map (Pair (sr_names result)) (take (ss_rows_sent st2) (concat (sr_chunks result))))" by auto
  moreover have "events_text U (map (Pair ns) rows) = concat (map (FormatSseEvent U ns) rows)" for ns rows
    by (simp add: events_text_def comp_def)
  ultimately show ?thesis using o opened_stream_bounded [OF assms(1,3)] by metis
qed


section \<open>Examples\<close>

definition tick_result :: stream_result where
  "tick_result = \<lparr>sr_names = [''n''], sr_chunks = [[[Scalar T_INTEGER ''1''], [Scalar T_INTEGER ''2'']]], sr_throws = None\<rparr>"

text \<open>A database that counts its executions.\<close>

definition tick_db :: "(nat, DuckValue, TypeId) stream_db" where
  "tick_db = \<lparr>sb_prepare = (\<lambda>_ _. Inr []), sb_execute = (\<lambda>n _ _. (n + 1, Inr tick_result))\<rparr>"

definition tick_stream :: QuackapiStream where
  "tick_stream = \<lparr>st_name = ''ticks'', st_method = ''GET'', st_pattern = ''/ticks'', st_handler_sql = ''SELECT n'', st_interval_ms = 0, st_transport = SSE\<rparr>"

definition tick_server :: server_env where
  "tick_server = \<lparr>sv_listening = True, sv_session_limit = 4,
     sv_trace = \<lparr>tc_trace_id = ''t'', tc_span_id = ''s'', tc_parent_span_id = [], tc_sampled = True\<rparr>\<rparr>"

definition tick_options :: QuackapiServeOptions where
  "tick_options = default_options\<lparr>so_max_response_bytes := 100\<rparr>"

definition tick_state :: "DuckValue sse_state" where
  "tick_state = \<lparr>ss_sql = ''SELECT n'', ss_named_values = [], ss_interval_ms = 0, ss_max_bytes = 100, ss_result = Some tick_result,
     ss_need_execute = False, ss_closed = False, ss_sent_bytes = 0, ss_rows_sent = 0\<rparr>"

definition willing :: sink_env where
  "willing = \<lparr>si_stopped = False, si_alive = (\<lambda>_. True), si_write = True\<rparr>"

lemma tick_opens:
  assumes "re_rewrite E = (\<lambda>sql _. (sql, False, [])) \<or> re_rewrite E ''SELECT n'' False = (''SELECT n'', False, [])"
  shows "\<exists>answer. open_sse E example_engine tick_db tick_server tick_options served_request tick_stream [] ''r'' empty_response (0, 3) =
     ((1, 4), Inr (answer, tick_state))"
  using assms
  by (auto simp: open_sse_def start_sse_def take_session_def Let_def tick_db_def tick_stream_def tick_server_def served_request_def
    tick_options_def tick_state_def)

lemma tick_runs:
  "\<exists>st. run_sse ascii_util tick_db [willing, willing] (1, tick_state) =
     ((1, st), concat (map (FormatSseEvent ascii_util [''n'']) [[Scalar T_INTEGER ''1''], [Scalar T_INTEGER ''2'']])) \<and> ss_rows_sent st = 2"
proof -
  have "length (events_text ascii_util (map (Pair [''n'']) [[Scalar T_INTEGER ''1''], [Scalar T_INTEGER ''2'']])) \<le> 100" by code_simp
  then show ?thesis
  by (auto simp: events_text_def tick_state_def tick_db_def tick_result_def willing_def sse_call_def sse_fetch_def Fetch_def Let_def)
qed

theorem event_stream_executes_once_witness:
  "\<exists>st. run_sse ascii_util tick_db [willing, willing] (1, tick_state) =
     ((1, st), concat (map (FormatSseEvent ascii_util [''n'']) [[Scalar T_INTEGER ''1''], [Scalar T_INTEGER ''2'']])) \<and>
     length (concat (map (FormatSseEvent ascii_util [''n'']) [[Scalar T_INTEGER ''1''], [Scalar T_INTEGER ''2'']])) \<le> 100"
proof -
  obtain st where r: "run_sse ascii_util tick_db [willing, willing] (1, tick_state) =
     ((1, st), concat (map (FormatSseEvent ascii_util [''n'']) [[Scalar T_INTEGER ''1''], [Scalar T_INTEGER ''2'']]))" using tick_runs by blast
  obtain answer where o: "open_sse example_env example_engine tick_db tick_server tick_options served_request tick_stream [] ''r'' empty_response (0, 3) =
     ((1, 4), Inr (answer, tick_state))" using tick_opens [of example_env] by (auto simp: example_env_def)
  have "st_interval_ms tick_stream \<le> 0" by (simp add: tick_stream_def)
  from event_stream_executes_once [OF o this r] r show ?thesis by (auto simp: tick_options_def)
qed

definition tick_query :: query where
  "tick_query = SelectNode [] None [OtherExpression [] ''n''] [] None None None [] []"

definition tick_policies :: policy_env where
  "tick_policies = people_env\<lparr>pe_parse := (\<lambda>sql. Some [SelectStatement tick_query]), pe_print := (\<lambda>_. ''SELECT n'')\<rparr>"


text \<open>
  A request that finds all sessions taken is answered 503 after its statement has been executed: the
  comment at the provider's state says that side effects are never executed twice, but a client that
  retries a refused stream executes them again.
\<close>

lemma refused_stream_has_executed:
  "fst (open_sse example_env example_engine tick_db tick_server tick_options served_request tick_stream [] ''r'' empty_response (0, 4)) = (1, 4) \<and>
   (case snd (open_sse example_env example_engine tick_db tick_server tick_options served_request tick_stream [] ''r'' empty_response (0, 4)) of
      Inl res \<Rightarrow> rs_status res = 503 | Inr _ \<Rightarrow> False)"
  by code_simp

end
