(* ===== verification/WebSocket.thy ===== *)
theory WebSocket
  imports Streams
begin

text \<open>
  WebSocket sessions (\<open>src/src/quackapi_server.cpp\<close>, \<open>RejectWebSocket\<close> and
  \<open>HandleWebSocket\<close>): the admission with everything that may refuse an upgrade, the session in its two
  modes, and the counter of open sessions under interleaving.
\<close>

section \<open>Admission\<close>

record ('v, 't) QuackapiPendingWebSocket =
  pw_stream :: QuackapiStream
  pw_sql :: string
  pw_named_values :: "'v ci_map"
  pw_message_type :: 't
  pw_takes_message :: bool
  pw_request_id :: string

datatype ('v, 't) ws_upgrade =
    HTTP_REQUEST
  | WS_REJECTED Response
  | WS_PENDING "('v, 't) QuackapiPendingWebSocket"

text \<open>The statement is prepared and its parameters are bound, all but \<open>$message\<close>. \<open>Inl\<close> is the refusal.\<close>

definition prepare_websocket :: "request_env \<Rightarrow> ('v, 't) engine \<Rightarrow> ('db, 'v, 't) stream_db \<Rightarrow> server_env \<Rightarrow> Request \<Rightarrow> QuackapiStream
    \<Rightarrow> (string \<times> string) list \<Rightarrow> string \<Rightarrow> Response \<Rightarrow> 'db \<Rightarrow> Response + ('v, 't) QuackapiPendingWebSocket" where
  "prepare_websocket E G D V req stream captures request_id res db =
     (case re_rewrite E (st_handler_sql stream) False of (sql, denied, policy_error) \<Rightarrow>
        if denied \<or> policy_error \<noteq> [] then Inl (SetJson 403 policy_denial res)
        else case sb_prepare D db sql of
          Inl err \<Rightarrow> Inl (SetInternalError err res)
        | Inr params \<Rightarrow>
            let provided = StreamProvidedParams (re_util E) req captures request_id (tc_trace_id (sv_trace V)) (tc_span_id (sv_trace V));
                message_type = (case map_of params ''message'' of Some (Some t) \<Rightarrow> t | _ \<Rightarrow> en_type G T_UNKNOWN)
            in (case BindStreamParams (re_util E) G (st_pattern stream) provided [''message''] params [] of
                  Inl err_json \<Rightarrow> Inl (SetJson 422 err_json res)
                | Inr named_values \<Rightarrow>
                    Inr \<lparr>pw_stream = stream, pw_sql = sql, pw_named_values = named_values, pw_message_type = message_type,
                         pw_takes_message = (''message'' \<in> fst ` set params), pw_request_id = request_id\<rparr>))"

text \<open>
  The result of \<open>RejectWebSocket\<close>: the counter, and whether the upgrade goes on. Every refusal but
  the one of a closed database carries the request's id. A refusal after the session was counted gives it
  back when the pending state is destroyed.
\<close>

definition RejectWebSocket :: "request_env \<Rightarrow> ('v, 't) engine \<Rightarrow> ('db, 'v, 't) stream_db \<Rightarrow> server_env \<Rightarrow> QuackapiServeOptions \<Rightarrow> Request
    \<Rightarrow> QuackapiStream list \<Rightarrow> Response \<Rightarrow> 'db \<Rightarrow> nat \<Rightarrow> nat \<times> ('v, 't) ws_upgrade" where
  "RejectWebSocket E G D V options req live res db sessions =
     (let request_id = (if re_db_alive E then choose_request_id E req else []);
          identified = (\<lambda>r. if request_id \<noteq> [] then set_header ''X-Request-ID'' request_id r else r)
      in case admit_websocket (re_util E) (so_cors_origins options) (re_db_alive E) (sv_session_limit V) req live sessions of
           (n, NotWebSocket) \<Rightarrow> (n, HTTP_REQUEST)
         | (n, WsRejected status body) \<Rightarrow> (n, WS_REJECTED (identified (SetJson status body res)))
         | (n, WsAdmitted stream captures) \<Rightarrow> (case prepare_websocket E G D V req stream captures request_id res db of
             Inl answer \<Rightarrow> (n - 1, WS_REJECTED (identified answer))
           | Inr pending \<Rightarrow> (n, WS_PENDING pending)))"

section \<open>The connection\<close>

text \<open>
  The frames the server has sent, and whether the connection is closed. \<open>wc_wire\<close> is what the write
  of the n-th frame returns. A close frame goes out once, and only on an open connection; nothing is sent
  on a closed one.
\<close>

datatype ws_frame = TEXT_FRAME string | CLOSE_FRAME int string

record ws_connection =
  wc_frames :: "ws_frame list"
  wc_closed :: bool
  wc_wire :: "nat \<Rightarrow> bool"

definition ws_send :: "string \<Rightarrow> ws_connection \<Rightarrow> bool \<times> ws_connection" where
  "ws_send data ws =
     (if wc_closed ws \<or> \<not> wc_wire ws (length (wc_frames ws)) then (False, ws)
      else (True, ws\<lparr>wc_frames := wc_frames ws @ [TEXT_FRAME data]\<rparr>))"

definition ws_close :: "int \<Rightarrow> string \<Rightarrow> ws_connection \<Rightarrow> ws_connection" where
  "ws_close status reason ws =
     (if wc_closed ws then ws
      else ws\<lparr>wc_closed := True, wc_frames := wc_frames ws @ [CLOSE_FRAME status (take 123 reason)]\<rparr>)"

definition Normal :: int where "Normal = 1000"
definition GoingAway :: int where "GoingAway = 1001"
definition InvalidPayload :: int where "InvalidPayload = 1007"
definition MessageTooBig :: int where "MessageTooBig = 1009"
definition InternalError :: int where "InternalError = 1011"

text \<open>
  What a read brings: \<open>INVALID_TEXT\<close> is a text message that is not UTF-8, which the read answers by
  closing. On a closed connection every read fails, and a failed read closes it. The pongs and the echo of
  the client's close frame are the library's and not listed.
\<close>

datatype ws_read = FAIL | INVALID_TEXT | TIMEOUT | MESSAGE string

definition read_ws :: "ws_read \<Rightarrow> ws_connection \<Rightarrow> ws_read \<times> ws_connection" where
  "read_ws event ws =
     (if wc_closed ws then (FAIL, ws)
      else case event of
        FAIL \<Rightarrow> (FAIL, ws\<lparr>wc_closed := True\<rparr>)
      | INVALID_TEXT \<Rightarrow> (FAIL, ws_close InvalidPayload ''invalid UTF-8'' ws)
      | _ \<Rightarrow> (event, ws))"

section \<open>The session\<close>

record ('db, 'v) ws_session =
  wz_db :: 'db
  wz_connection :: ws_connection
  wz_named_values :: "'v ci_map"
  wz_rows_sent :: nat
  wz_bytes_sent :: nat

definition wz_close :: "int \<Rightarrow> string \<Rightarrow> ('db, 'v) ws_session \<Rightarrow> ('db, 'v) ws_session" where
  "wz_close status reason z = z\<lparr>wz_connection := ws_close status reason (wz_connection z)\<rparr>"

definition send_row :: "string list \<Rightarrow> nat \<Rightarrow> row \<Rightarrow> ('db, 'v) ws_session \<Rightarrow> bool \<times> ('db, 'v) ws_session" where
  "send_row names max_bytes cols z =
     (let frame = RowJsonObject names cols
      in if wz_bytes_sent z + length frame > max_bytes then
           (False, wz_close MessageTooBig ''Response exceeds configured byte limit'' z)
         else case ws_send frame (wz_connection z) of
           (False, ws) \<Rightarrow> (False, z\<lparr>wz_connection := ws\<rparr>)
         | (True, ws) \<Rightarrow> (True, z\<lparr>wz_connection := ws, wz_bytes_sent := wz_bytes_sent z + length frame,
             wz_rows_sent := wz_rows_sent z + 1\<rparr>))"

fun send_chunk :: "string list \<Rightarrow> nat \<Rightarrow> row list \<Rightarrow> ('db, 'v) ws_session \<Rightarrow> bool \<times> ('db, 'v) ws_session" where
  "send_chunk names max_bytes [] z = (True, z)"
| "send_chunk names max_bytes (cols # rows) z = (case send_row names max_bytes cols z of
     (True, z') \<Rightarrow> send_chunk names max_bytes rows z'
   | (False, z') \<Rightarrow> (False, z'))"

text \<open>The loop over the fetches of a result.\<close>

fun send_chunks :: "string list \<Rightarrow> nat \<Rightarrow> string option \<Rightarrow> row list list \<Rightarrow> ('db, 'v) ws_session \<Rightarrow> bool \<times> ('db, 'v) ws_session" where
  "send_chunks names max_bytes throws [] z = (case throws of
     None \<Rightarrow> (True, z)
   | Some what \<Rightarrow> (False, wz_close InternalError (WebSocketCloseReason what) z))"
| "send_chunks names max_bytes throws (rows # cs) z =
     (if rows = [] then (True, z)
      else case send_chunk names max_bytes rows z of
        (True, z') \<Rightarrow> send_chunks names max_bytes throws cs z'
      | (False, z') \<Rightarrow> (False, z'))"

text \<open>One execution; \<open>False\<close> ends the session. A failed execution and an exception close alike.\<close>

definition send_rows :: "('db, 'v, 't) stream_db \<Rightarrow> string \<Rightarrow> nat \<Rightarrow> ('db, 'v) ws_session \<Rightarrow> bool \<times> ('db, 'v) ws_session" where
  "send_rows D sql max_bytes z = (case sb_execute D (wz_db z) sql (wz_named_values z) of
     (db', Inl err) \<Rightarrow> (False, wz_close InternalError (WebSocketCloseReason err) (z\<lparr>wz_db := db'\<rparr>))
   | (db', Inr result) \<Rightarrow> send_chunks (sr_names result) max_bytes (sr_throws result) (sr_chunks result) (z\<lparr>wz_db := db'\<rparr>))"

text \<open>
  The client's message as \<open>$message\<close>. \<open>fails\<close> is the message of an exception the binding throws,
  as for a binary frame that is no UTF-8.
\<close>

definition bind_message :: "string_util \<Rightarrow> ('v, 't) engine \<Rightarrow> (string \<Rightarrow> string option) \<Rightarrow> 't \<Rightarrow> string \<Rightarrow> ('db, 'v) ws_session
    \<Rightarrow> bool \<times> ('db, 'v) ws_session" where
  "bind_message U G fails message_type message z =
     (case (case fails message of
              Some what \<Rightarrow> Inl (ValidationErrorJson ''body'' ''message'' what ''value_error'')
            | None \<Rightarrow> BindParamValue G message message_type ''body'' ''message'') of
        Inr bound \<Rightarrow> (True, z\<lparr>wz_named_values := ci_put U ''message'' bound (wz_named_values z)\<rparr>)
      | Inl err_json \<Rightarrow> (False, z\<lparr>wz_connection := snd (ws_send err_json (wz_connection z))\<rparr>))"

text \<open>
  Reply mode. Each element is one round of the loop, entered while the server runs: what the read
  brings and whether the server still runs after it. The list ends when the server stops.
\<close>

fun reply_loop :: "string_util \<Rightarrow> ('v, 't) engine \<Rightarrow> ('db, 'v, 't) stream_db \<Rightarrow> (string \<Rightarrow> string option) \<Rightarrow> ('v, 't) QuackapiPendingWebSocket \<Rightarrow> nat
    \<Rightarrow> (ws_read \<times> bool) list \<Rightarrow> ('db, 'v) ws_session \<Rightarrow> ('db, 'v) ws_session" where
  "reply_loop U G D fails p max_bytes [] z = z"
| "reply_loop U G D fails p max_bytes ((event, running) # rounds) z =
     (case read_ws event (wz_connection z) of (got, ws) \<Rightarrow>
        let z1 = z\<lparr>wz_connection := ws\<rparr>
        in case got of
             FAIL \<Rightarrow> z1
           | INVALID_TEXT \<Rightarrow> z1
           | TIMEOUT \<Rightarrow> reply_loop U G D fails p max_bytes rounds z1
           | MESSAGE message \<Rightarrow>
               if \<not> running then reply_loop U G D fails p max_bytes rounds z1
               else (case bind_message U G fails (pw_message_type p) message z1 of
                 (False, z2) \<Rightarrow> reply_loop U G D fails p max_bytes rounds z2
               | (True, z2) \<Rightarrow> (case send_rows D (pw_sql p) max_bytes z2 of
                   (False, z3) \<Rightarrow> z3
                 | (True, z3) \<Rightarrow> reply_loop U G D fails p max_bytes rounds z3)))"

text \<open>
  Push mode: between two executions the client's messages are read and dropped. Each element is one
  pause: what its reads bring, and whether the server still runs at its end.
\<close>

fun drain :: "ws_read list \<Rightarrow> ws_connection \<Rightarrow> bool \<times> ws_connection" where
  "drain [] ws = (True, ws)"
| "drain (event # events) ws = (case read_ws event ws of
     (FAIL, ws') \<Rightarrow> (False, ws')
   | (_, ws') \<Rightarrow> drain events ws')"

fun push_loop :: "('db, 'v, 't) stream_db \<Rightarrow> ('v, 't) QuackapiPendingWebSocket \<Rightarrow> nat \<Rightarrow> (ws_read list \<times> bool) list
    \<Rightarrow> ('db, 'v) ws_session \<Rightarrow> ('db, 'v) ws_session" where
  "push_loop D p max_bytes [] z = z"
| "push_loop D p max_bytes ((events, running) # pauses) z =
     (case drain events (wz_connection z) of (client_open, ws) \<Rightarrow>
        let z1 = z\<lparr>wz_connection := ws\<rparr>
        in if client_open \<and> running then
             (case send_rows D (pw_sql p) max_bytes z1 of
                (False, z2) \<Rightarrow> z2
              | (True, z2) \<Rightarrow> push_loop D p max_bytes pauses z2)
           else z1)"

record ws_script =
  wx_rounds :: "(ws_read \<times> bool) list"
  wx_pauses :: "(ws_read list \<times> bool) list"
  wx_fails :: "string \<Rightarrow> string option"
  wx_running :: bool

definition ws_loop :: "string_util \<Rightarrow> ('v, 't) engine \<Rightarrow> ('db, 'v, 't) stream_db \<Rightarrow> ws_script \<Rightarrow> ('v, 't) QuackapiPendingWebSocket \<Rightarrow> nat
    \<Rightarrow> ('db, 'v) ws_session \<Rightarrow> ('db, 'v) ws_session" where
  "ws_loop U G D X p max_bytes z =
     (if pw_takes_message p then reply_loop U G D (wx_fails X) p max_bytes (wx_rounds X) z
      else case send_rows D (pw_sql p) max_bytes z of
        (False, z') \<Rightarrow> z'
      | (True, z') \<Rightarrow> if st_interval_ms (pw_stream p) > 0 then push_loop D p max_bytes (wx_pauses X) z' else z')"

definition HandleWebSocket :: "string_util \<Rightarrow> ('v, 't) engine \<Rightarrow> ('db, 'v, 't) stream_db \<Rightarrow> ws_script \<Rightarrow> QuackapiServeOptions
    \<Rightarrow> ('v, 't) QuackapiPendingWebSocket option \<Rightarrow> ws_connection \<Rightarrow> 'db \<Rightarrow> ('db, 'v) ws_session" where
  "HandleWebSocket U G D X options pending ws db = (case pending of
     None \<Rightarrow> wz_close InternalError ''stream was not prepared''
       \<lparr>wz_db = db, wz_connection = ws, wz_named_values = [], wz_rows_sent = 0, wz_bytes_sent = 0\<rparr>
   | Some p \<Rightarrow> wz_close (if wx_running X then Normal else GoingAway) []
       (ws_loop U G D X p (nat (so_max_response_bytes options))
         \<lparr>wz_db = db, wz_connection = ws, wz_named_values = pw_named_values p, wz_rows_sent = 0, wz_bytes_sent = 0\<rparr>))"

definition ws_session_record :: "string_util \<Rightarrow> Request \<Rightarrow> ('v, 't) QuackapiPendingWebSocket \<Rightarrow> ('db, 'v) ws_session \<Rightarrow> request_timing \<Rightarrow> trace_context
    \<Rightarrow> QuackapiServeOptions \<Rightarrow> QuackapiRequestRecord" where
  "ws_session_record U req p z t trace options =
     MakeRequestRecord U req (set_header ''Content-Length'' (nat_string (wz_bytes_sent z)) (empty_response\<lparr>rs_status := 101\<rparr>)) (pw_request_id p)
       (st_name (pw_stream p)) (st_pattern (pw_stream p))
       (t\<lparr>rt_prepare_ms := Fin (- 1), rt_execute_ms := Fin (- 1), rt_rows := int (wz_rows_sent z)\<rparr>) trace options"

section \<open>What every session keeps\<close>

text \<open>An invariant that the single steps of a pushing session keep; a replying one also binds messages.\<close>

locale push_invariant =
  fixes keep :: "nat \<Rightarrow> ('db, 'v) ws_session \<Rightarrow> bool"
  assumes keep_close: "keep m z \<Longrightarrow> keep m (wz_close status reason z)"
    and keep_row: "keep m z \<Longrightarrow> send_row names m cols z = (b, z') \<Longrightarrow> keep m z'"
    and keep_execute: "keep m z \<Longrightarrow> keep m (z\<lparr>wz_db := db\<rparr>)"
    and keep_read: "keep m z \<Longrightarrow> read_ws event (wz_connection z) = (got, ws) \<Longrightarrow> keep m (z\<lparr>wz_connection := ws\<rparr>)"
begin

lemma keep_chunk: "keep m z \<Longrightarrow> send_chunk names m rows z = (b, z') \<Longrightarrow> keep m z'"
  by (induction rows arbitrary: z) (auto split: prod.splits bool.splits dest: keep_row)

lemma keep_chunks: "keep m z \<Longrightarrow> send_chunks names m throws cs z = (b, z') \<Longrightarrow> keep m z'"
  by (induction cs arbitrary: z) (auto split: if_splits option.splits prod.splits bool.splits intro: keep_close dest: keep_chunk)

lemma keep_rows: "keep m z \<Longrightarrow> send_rows D sql m z = (b, z') \<Longrightarrow> keep m z'"
  by (auto simp: send_rows_def split: prod.splits sum.splits intro: keep_close keep_execute dest: keep_chunks [OF keep_execute])

lemma keep_drain: "keep m z \<Longrightarrow> drain events (wz_connection z) = (b, ws) \<Longrightarrow> keep m (z\<lparr>wz_connection := ws\<rparr>)"
proof (induction events arbitrary: z)
  case (Cons event events)
  obtain got ws1 where r: "read_ws event (wz_connection z) = (got, ws1)" by (cases "read_ws event (wz_connection z)")
  from keep_read [OF Cons.prems(1) this] have k: "keep m (z\<lparr>wz_connection := ws1\<rparr>)" .
  show ?case using Cons.IH [OF k] Cons.prems(2) r k by (cases got) auto
qed auto

lemma keep_push: "keep m z \<Longrightarrow> keep m (push_loop D p m pauses z)"
proof (induction pauses arbitrary: z)
  case (Cons pause pauses)
  obtain events running where p: "pause = (events, running)" by (cases pause)
  obtain b ws where d: "drain events (wz_connection z) = (b, ws)" by (cases "drain events (wz_connection z)")
  have k: "keep m (z\<lparr>wz_connection := ws\<rparr>)" using keep_drain [OF Cons.prems d] .
  obtain c z2 where r: "send_rows D (pw_sql p) m (z\<lparr>wz_connection := ws\<rparr>) = (c, z2)" by (metis prod.exhaust)
  from Cons.IH [OF keep_rows [OF k r]] keep_rows [OF k r] k show ?case by (cases c) (auto simp: p d r Let_def)
qed simp

lemma keep_push_session:
  assumes "\<not> pw_takes_message p" and "keep m z"
  shows "keep m (ws_loop U G D X p m z)"
proof -
  obtain b z1 where r: "send_rows D (pw_sql p) m z = (b, z1)" by (metis prod.exhaust)
  from keep_rows [OF assms(2) r] keep_push [OF keep_rows [OF assms(2) r]] assms(1) r show ?thesis
    by (cases b) (auto simp: ws_loop_def)
qed

end

locale session_invariant = push_invariant keep for keep :: "nat \<Rightarrow> ('db, 'v) ws_session \<Rightarrow> bool" +
  fixes G :: "('v, 't) engine"
  assumes keep_bind: "keep m z \<Longrightarrow> bind_message U G fails t message z = (b, z') \<Longrightarrow> keep m z'"
begin

lemma keep_reply: "keep m z \<Longrightarrow> keep m (reply_loop U G D fails p m rounds z)"
proof (induction rounds arbitrary: z)
  case (Cons round rounds)
  obtain event running where r: "round = (event, running)" by (cases round)
  obtain got ws where g: "read_ws event (wz_connection z) = (got, ws)" by (cases "read_ws event (wz_connection z)")
  note k = keep_read [OF Cons.prems g]
  show ?case
  proof (cases "\<exists>message. got = MESSAGE message \<and> running")
    case True
    then obtain message where m: "got = MESSAGE message" "running" by blast
    obtain b z2 where bm: "bind_message U G fails (pw_message_type p) message (z\<lparr>wz_connection := ws\<rparr>) = (b, z2)" by (metis prod.exhaust)
    note k2 = keep_bind [OF k bm]
    obtain c z3 where sr: "send_rows D (pw_sql p) m z2 = (c, z3)" by (metis prod.exhaust)
    from Cons.IH k2 keep_rows [OF k2 sr] show ?thesis by (cases b; cases c) (auto simp: r g m bm sr Let_def)
  next
    case False
    with Cons.IH [OF k] k show ?thesis by (cases got) (auto simp: r g Let_def)
  qed
qed simp

lemma keep_session: "keep m z \<Longrightarrow> keep m (ws_loop U G D X p m z)"
  using keep_push_session [of p m z U G D X] keep_reply [of m z U D "wx_fails X" p "wx_rounds X"]
  by (cases "pw_takes_message p") (simp_all add: ws_loop_def)

end

text \<open>
  The order of the frames and the limit: text frames first, then at most one close frame with a reason that fits a control
  frame, and only on a connection that is closed; the bytes counted keep within the limit.
\<close>

fun is_text :: "ws_frame \<Rightarrow> bool" where
  "is_text (TEXT_FRAME data) = True"
| "is_text (CLOSE_FRAME status reason) = False"

fun text_bytes :: "ws_frame \<Rightarrow> nat" where
  "text_bytes (TEXT_FRAME data) = length data"
| "text_bytes (CLOSE_FRAME status reason) = 0"

definition frames_in_order :: "ws_connection \<Rightarrow> bool" where
  "frames_in_order ws =
     (list_all is_text (wc_frames ws) \<or>
      wc_closed ws \<and> (\<exists>texts status reason. wc_frames ws = texts @ [CLOSE_FRAME status reason] \<and> list_all is_text texts \<and> length reason \<le> 123))"

definition session_ok :: "nat \<Rightarrow> ('db, 'v) ws_session \<Rightarrow> bool" where
  "session_ok m z = (frames_in_order (wz_connection z) \<and> wz_bytes_sent z \<le> m)"

definition counted :: "nat \<Rightarrow> ('db, 'v) ws_session \<Rightarrow> bool" where
  "counted m z = (sum_list (map text_bytes (wc_frames (wz_connection z))) = wz_bytes_sent z \<and>
     length (filter is_text (wc_frames (wz_connection z))) = wz_rows_sent z)"

lemma frames_in_order_close: "frames_in_order ws \<Longrightarrow> frames_in_order (ws_close status reason ws)"
  by (auto simp: frames_in_order_def ws_close_def)

lemma frames_in_order_send: "frames_in_order ws \<Longrightarrow> ws_send data ws = (b, ws') \<Longrightarrow> frames_in_order ws'"
  by (auto simp: frames_in_order_def ws_send_def split: if_splits)

lemma frames_in_order_read: "frames_in_order ws \<Longrightarrow> read_ws event ws = (got, ws') \<Longrightarrow> frames_in_order ws'"
  by (auto simp: read_ws_def frames_in_order_close split: if_splits ws_read.splits) (auto simp: frames_in_order_def)

lemma session_ok_row: "session_ok m z \<Longrightarrow> send_row names m cols z = (b, z') \<Longrightarrow> session_ok m z'"
  by (auto simp: session_ok_def send_row_def Let_def wz_close_def frames_in_order_close split: if_splits prod.splits bool.splits
      dest: frames_in_order_send)

lemma session_ok_bind: "session_ok m z \<Longrightarrow> bind_message U G fails t message z = (b, z') \<Longrightarrow> session_ok m z'"
  by (auto simp: session_ok_def bind_message_def split: sum.splits option.splits intro: frames_in_order_send [OF _ prod.collapse [symmetric]])

interpretation session_frames: session_invariant session_ok G for G :: "('v, 't) engine"
proof unfold_locales
  show "session_ok m z \<Longrightarrow> session_ok m (wz_close status reason z)" for m :: nat and z :: "('x, 'v) ws_session" and status reason
    by (simp add: session_ok_def wz_close_def frames_in_order_close)
  show "session_ok m z \<Longrightarrow> session_ok m (z\<lparr>wz_db := db\<rparr>)" for m :: nat and z :: "('x, 'v) ws_session" and db
    by (simp add: session_ok_def)
  show "session_ok m z \<Longrightarrow> read_ws event (wz_connection z) = (got, ws) \<Longrightarrow> session_ok m (z\<lparr>wz_connection := ws\<rparr>)"
    for m :: nat and z :: "('x, 'v) ws_session" and event got ws
    by (auto simp: session_ok_def dest: frames_in_order_read)
qed (fact session_ok_row session_ok_bind)+

interpretation push_count: push_invariant counted
  by unfold_locales
    (auto simp: counted_def wz_close_def ws_close_def send_row_def ws_send_def read_ws_def Let_def
      split: if_splits prod.splits bool.splits ws_read.splits)

lemma ws_close_closed [simp]: "wc_closed (ws_close status reason ws)"
  by (simp add: ws_close_def)

lemma wz_close_sel [simp]:
  "wz_db (wz_close status reason z) = wz_db z" "wz_bytes_sent (wz_close status reason z) = wz_bytes_sent z"
  "wz_rows_sent (wz_close status reason z) = wz_rows_sent z" "wz_named_values (wz_close status reason z) = wz_named_values z"
  "wz_connection (wz_close status reason z) = ws_close status reason (wz_connection z)"
  by (simp_all add: wz_close_def)

text \<open>
  C11. Every WebSocket session ends closed and speaks in order: text frames, then at most one close frame
  with a reason that fits a control frame. The bytes of rows that its access-log record reports keep within
  the configured limit, and in push mode they are exactly the bytes of its text frames, one frame per row.
\<close>

theorem websocket_session_frames:
  "let z = HandleWebSocket U G D X options (Some p) \<lparr>wc_frames = [], wc_closed = False, wc_wire = wire\<rparr> db
   in wc_closed (wz_connection z) \<and> frames_in_order (wz_connection z) \<and> wz_bytes_sent z \<le> nat (so_max_response_bytes options) \<and>
    (pw_takes_message p \<or> sum_list (map text_bytes (wc_frames (wz_connection z))) = wz_bytes_sent z \<and>
       length (filter is_text (wc_frames (wz_connection z))) = wz_rows_sent z)"
proof -
  let ?m = "nat (so_max_response_bytes options)"
  let ?z0 = "\<lparr>wz_db = db, wz_connection = \<lparr>wc_frames = [], wc_closed = False, wc_wire = wire\<rparr>, wz_named_values = pw_named_values p,
    wz_rows_sent = 0, wz_bytes_sent = 0\<rparr>"
  define z where "z = HandleWebSocket U G D X options (Some p) \<lparr>wc_frames = [], wc_closed = False, wc_wire = wire\<rparr> db"
  then have z: "z = wz_close (if wx_running X then Normal else GoingAway) [] (ws_loop U G D X p ?m ?z0)"
    by (simp add: HandleWebSocket_def)
  have "session_ok ?m ?z0" "counted ?m ?z0" by (simp_all add: session_ok_def counted_def frames_in_order_def)
  then have "session_ok ?m z" "\<not> pw_takes_message p \<Longrightarrow> counted ?m z" unfolding z
    by (blast intro: session_frames.keep_close session_frames.keep_session push_count.keep_close push_count.keep_push_session)+
  then show ?thesis using z by (auto simp: session_ok_def counted_def simp flip: z_def)
qed

section \<open>Reply mode executes once per message\<close>

text \<open>The value a round binds, if it gets as far as the execution.\<close>

definition bound_value :: "('v, 't) engine \<Rightarrow> (string \<Rightarrow> string option) \<Rightarrow> 't \<Rightarrow> ws_read \<times> bool \<Rightarrow> 'v option" where
  "bound_value G fails t step = (case step of
     (MESSAGE message, True) \<Rightarrow>
       if fails message \<noteq> None then None
       else (case BindParamValue G message t ''body'' ''message'' of Inr v \<Rightarrow> Some v | Inl _ \<Rightarrow> None)
   | _ \<Rightarrow> None)"

definition execute_with :: "string_util \<Rightarrow> ('db, 'v, 't) stream_db \<Rightarrow> string \<Rightarrow> 'v ci_map \<Rightarrow> 'v \<Rightarrow> 'db \<Rightarrow> 'db" where
  "execute_with U D sql named_values v db = fst (sb_execute D db sql (ci_put U ''message'' v named_values))"

lemma send_row_db: "send_row names m cols z = (b, z') \<Longrightarrow> wz_db z' = wz_db z \<and> wz_named_values z' = wz_named_values z"
  by (auto simp: send_row_def Let_def split: if_splits prod.splits bool.splits)

lemma send_chunk_db: "send_chunk names m rows z = (b, z') \<Longrightarrow> wz_db z' = wz_db z \<and> wz_named_values z' = wz_named_values z"
  by (induction rows arbitrary: z) (fastforce split: prod.splits bool.splits dest: send_row_db)+

lemma send_chunks_db: "send_chunks names m throws cs z = (b, z') \<Longrightarrow> wz_db z' = wz_db z \<and> wz_named_values z' = wz_named_values z"
  by (induction cs arbitrary: z) (fastforce split: if_splits option.splits prod.splits bool.splits dest: send_chunk_db)+

lemma send_rows_db:
  assumes "send_rows D sql m z = (b, z')"
  shows "wz_db z' = fst (sb_execute D (wz_db z) sql (wz_named_values z)) \<and> wz_named_values z' = wz_named_values z"
  using assms by (auto simp: send_rows_def split: prod.splits sum.splits dest: send_chunks_db)

lemma ci_put_same:
  assumes "su_ci_equals U k k"
  shows "ci_put U k w (ci_put U k v m) = ci_put U k w m"
  using assms by (induction m) auto

text \<open>
  A reply ends the session when its execution fails, its result throws while it is fetched, a row
  would pass the byte limit, or its next frame cannot be written. \<open>z\<close> is the session when it has ended.
\<close>

definition reply_ended :: "('db, 'v, 't) stream_db \<Rightarrow> string \<Rightarrow> 'v ci_map \<Rightarrow> nat \<Rightarrow> 'db \<Rightarrow> (nat \<Rightarrow> bool) \<Rightarrow> ('db, 'v) ws_session \<Rightarrow> bool" where
  "reply_ended D sql vals max_bytes db wire z = (case snd (sb_execute D db sql vals) of
     Inl err \<Rightarrow> True
   | Inr result \<Rightarrow> sr_throws result \<noteq> None \<or>
       list_ex (\<lambda>row. wz_bytes_sent z + length (RowJsonObject (sr_names result) row) > max_bytes) (concat (sr_chunks result)) \<or>
       \<not> wc_closed (wz_connection z) \<and> \<not> wire (length (wc_frames (wz_connection z))))"

abbreviation open_on :: "(nat \<Rightarrow> bool) \<Rightarrow> ('db, 'v) ws_session \<Rightarrow> bool" where
  "open_on wire z \<equiv> \<not> wc_closed (wz_connection z) \<and> wc_wire (wz_connection z) = wire"

lemma send_row_ended:
  assumes "send_row names m cols z = (b, z')" and "open_on wire z"
  shows "if b then open_on wire z' else wz_bytes_sent z' + length (RowJsonObject names cols) > m \<or>
    \<not> wc_closed (wz_connection z') \<and> \<not> wire (length (wc_frames (wz_connection z')))"
  using assms by (auto simp: send_row_def ws_send_def Let_def split: if_splits)

lemma send_chunk_ended:
  assumes "send_chunk names m rows z = (b, z')" and "open_on wire z"
  shows "if b then open_on wire z' else list_ex (\<lambda>row. wz_bytes_sent z' + length (RowJsonObject names row) > m) rows \<or>
    \<not> wc_closed (wz_connection z') \<and> \<not> wire (length (wc_frames (wz_connection z')))"
  using assms
proof (induction rows arbitrary: z)
  case (Cons row rows)
  obtain c z1 where r: "send_row names m row z = (c, z1)" by (metis prod.exhaust)
  show ?case using Cons.IH [of z1] Cons.prems send_row_ended [OF r Cons.prems(2)] by (cases c) (auto simp: r split: if_splits)
qed simp

lemma send_chunks_ended:
  assumes "send_chunks names m throws cs z = (b, z')" and "open_on wire z"
  shows "if b then open_on wire z' else throws \<noteq> None \<or>
    list_ex (\<lambda>row. wz_bytes_sent z' + length (RowJsonObject names row) > m) (concat cs) \<or>
    \<not> wc_closed (wz_connection z') \<and> \<not> wire (length (wc_frames (wz_connection z')))"
  using assms
proof (induction cs arbitrary: z)
  case (Cons rows cs)
  obtain c z1 where r: "send_chunk names m rows z = (c, z1)" by (metis prod.exhaust)
  show ?case using Cons.IH [of z1] Cons.prems send_chunk_ended [OF r Cons.prems(2)] by (cases c) (auto simp: r split: if_splits)
qed (auto split: option.splits)

lemma send_rows_ended:
  assumes "send_rows D sql m z = (b, z')" and "open_on wire z"
  shows "if b then open_on wire z' else reply_ended D sql (wz_named_values z) m (wz_db z) wire z'"
proof (cases "sb_execute D (wz_db z) sql (wz_named_values z)")
  case (Pair db' r)
  show ?thesis
  proof (cases r)
    case (Inr result)
    then have "send_chunks (sr_names result) m (sr_throws result) (sr_chunks result) (z\<lparr>wz_db := db'\<rparr>) = (b, z')"
      using assms(1) by (simp add: send_rows_def Pair)
    from send_chunks_ended [OF this, of wire] assms(2) show ?thesis by (auto simp: reply_ended_def Pair Inr)
  qed (use assms in \<open>auto simp: send_rows_def reply_ended_def Pair\<close>)
qed

lemma ws_send_open: "wc_closed (snd (ws_send frame ws)) = wc_closed ws" "wc_wire (snd (ws_send frame ws)) = wc_wire ws"
  by (simp_all add: ws_send_def)

lemma bind_message_open: "bind_message U G fails t message z = (b, z') \<Longrightarrow> open_on wire z \<Longrightarrow> open_on wire z'"
  by (auto simp: bind_message_def ws_send_open split: sum.splits option.splits)

text \<open>The rounds a session has gone through, and why it did not go on.\<close>

definition replied :: "string_util \<Rightarrow> ('v, 't) engine \<Rightarrow> ('db, 'v, 't) stream_db \<Rightarrow> (string \<Rightarrow> string option) \<Rightarrow> 't \<Rightarrow> string \<Rightarrow> 'v ci_map \<Rightarrow> nat
    \<Rightarrow> (nat \<Rightarrow> bool) \<Rightarrow> (ws_read \<times> bool) list \<Rightarrow> nat \<Rightarrow> 'db \<Rightarrow> ('db, 'v) ws_session \<Rightarrow> bool" where
  "replied U G D fails t sql nv max_bytes wire rounds n db z =
     (let vs = List.map_filter (bound_value G fails t) (take n rounds)
      in n \<le> length rounds \<and> wz_db z = fold (execute_with U D sql nv) vs db \<and>
         (n = length rounds \<or> fst (rounds ! n) \<in> {FAIL, INVALID_TEXT} \<or>
          0 < n \<and> (\<exists>us v. vs = us @ [v] \<and> bound_value G fails t (rounds ! (n - 1)) = Some v \<and>
            reply_ended D sql (ci_put U ''message'' v nv) max_bytes (fold (execute_with U D sql nv) us db) wire z)))"

lemma replied_start:
  "wz_db z = db \<Longrightarrow> rounds = [] \<or> fst (hd rounds) \<in> {FAIL, INVALID_TEXT} \<Longrightarrow> replied U G D fails t sql nv m wire rounds 0 db z"
  by (cases rounds) (auto simp: replied_def map_filter_simps)

lemma replied_skip:
  assumes "replied U G D fails t sql nv m wire rounds n db z" and "bound_value G fails t r = None"
  shows "replied U G D fails t sql nv m wire (r # rounds) (Suc n) db z"
  using assms by (cases n) (auto simp: replied_def Let_def map_filter_simps)

lemma replied_bound:
  assumes "replied U G D fails t sql nv m wire rounds n (execute_with U D sql nv v db) z" and "bound_value G fails t r = Some v"
  shows "replied U G D fails t sql nv m wire (r # rounds) (Suc n) db z"
proof -
  let ?vs = "List.map_filter (bound_value G fails t) (take n rounds)"
  have vs: "List.map_filter (bound_value G fails t) (take (Suc n) (r # rounds)) = v # ?vs" using assms(2) by (simp add: map_filter_simps)
  have "n \<le> length rounds" and db: "wz_db z = fold (execute_with U D sql nv) (v # ?vs) db"
    using assms(1) by (simp_all add: replied_def Let_def)
  moreover consider "n = length rounds" | "fst (rounds ! n) \<in> {FAIL, INVALID_TEXT}"
    | us w where "0 < n" "?vs = us @ [w]" "bound_value G fails t (rounds ! (n - 1)) = Some w"
      "reply_ended D sql (ci_put U ''message'' w nv) m (fold (execute_with U D sql nv) (v # us) db) wire z"
    using assms(1) by (auto simp: replied_def Let_def)
  then have "n = length rounds \<or> fst (rounds ! n) \<in> {FAIL, INVALID_TEXT} \<or> (\<exists>us w. v # ?vs = us @ [w] \<and>
      bound_value G fails t ((r # rounds) ! n) = Some w \<and>
      reply_ended D sql (ci_put U ''message'' w nv) m (fold (execute_with U D sql nv) us db) wire z)"
  proof cases
    case (3 us w)
    then show ?thesis by (intro disjI2 exI [of _ "v # us"] exI [of _ w]) (simp add: nth_Cons')
  qed simp_all
  ultimately show ?thesis unfolding replied_def Let_def vs by simp
qed

lemma replied_ended:
  assumes "reply_ended D sql (ci_put U ''message'' v nv) m db wire z" and "bound_value G fails t r = Some v"
    and "wz_db z = execute_with U D sql nv v db"
  shows "replied U G D fails t sql nv m wire (r # rounds) 1 db z"
  using assms by (auto simp: replied_def Let_def map_filter_simps)

lemma reply_replied:
  assumes "su_ci_equals U ''message'' ''message''" and "wz_named_values z = nv \<or> (\<exists>v. wz_named_values z = ci_put U ''message'' v nv)"
    and "open_on wire z"
  shows "\<exists>n. replied U G D fails (pw_message_type p) (pw_sql p) nv m wire rounds n (wz_db z) (reply_loop U G D fails p m rounds z)"
  using assms(2,3)
proof (induction rounds arbitrary: z)
  case Nil
  then show ?case using replied_start by fastforce
next
  case (Cons step rounds)
  obtain event running where r: "step = (event, running)" by (cases step)
  let ?bound = "bound_value G fails (pw_message_type p)"
  have got: "fst (read_ws event (wz_connection z)) = (if event = INVALID_TEXT then FAIL else event)"
    and same: "event \<notin> {FAIL, INVALID_TEXT} \<Longrightarrow> read_ws event (wz_connection z) = (event, wz_connection z)"
    using Cons.prems(2) by (auto simp: read_ws_def split: ws_read.splits)
  consider (stop) "event \<in> {FAIL, INVALID_TEXT}" | (skip) "event \<notin> {FAIL, INVALID_TEXT}" "\<not> (running \<and> (\<exists>message. event = MESSAGE message))"
    | (message) message where "event = MESSAGE message" "running" by blast
  then show ?case
  proof cases
    case stop
    then have "wz_db (reply_loop U G D fails p m (step # rounds) z) = wz_db z"
      using got by (auto simp: r Let_def split: prod.splits)
    then show ?thesis by (intro exI [of _ 0] replied_start) (use stop r in simp_all)
  next
    case skip
    then have "reply_loop U G D fails p m (step # rounds) z = reply_loop U G D fails p m rounds z"
      using same by (cases event) (auto simp: r)
    moreover have "?bound step = None" using skip by (cases event) (auto simp: r bound_value_def)
    ultimately show ?thesis using Cons.IH [OF Cons.prems] replied_skip by metis
  next
    case message
    have rd: "read_ws (MESSAGE message) (wz_connection z) = (MESSAGE message, wz_connection z)" using same message by simp
    show ?thesis
    proof (cases "?bound step")
      case None
      then obtain z2 where b: "bind_message U G fails (pw_message_type p) message z = (False, z2)" "wz_db z2 = wz_db z" "wz_named_values z2 = wz_named_values z"
        using r message by (cases "fails message") (auto simp: bound_value_def bind_message_def split: sum.splits)
      then have "reply_loop U G D fails p m (step # rounds) z = reply_loop U G D fails p m rounds z2" by (simp add: r message rd)
      with Cons.IH [of z2] Cons.prems bind_message_open [OF b(1)] b(2,3) None show ?thesis using replied_skip by metis
    next
      case (Some v)
      let ?z2 = "z\<lparr>wz_named_values := ci_put U ''message'' v (wz_named_values z)\<rparr>"
      have b: "bind_message U G fails (pw_message_type p) message z = (True, ?z2)"
        using Some r message by (auto simp: bound_value_def bind_message_def split: if_splits sum.splits option.splits)
      have nv: "wz_named_values ?z2 = ci_put U ''message'' v nv" using Cons.prems by (auto simp: ci_put_same [OF assms(1)])
      obtain c z3 where sr: "send_rows D (pw_sql p) m ?z2 = (c, z3)" by (metis prod.exhaust)
      from send_rows_db [OF sr] nv have z3: "wz_db z3 = execute_with U D (pw_sql p) nv v (wz_db z)" "wz_named_values z3 = ci_put U ''message'' v nv"
        by (simp_all add: execute_with_def)
      have loop: "reply_loop U G D fails p m (step # rounds) z = (if c then reply_loop U G D fails p m rounds z3 else z3)"
        using b sr by (cases c) (simp_all add: r message rd)
      have ends: "if c then open_on wire z3 else reply_ended D (pw_sql p) (ci_put U ''message'' v nv) m (wz_db z) wire z3"
        using send_rows_ended [OF sr, of wire] Cons.prems(2) nv by (simp split: if_split_asm)
      show ?thesis
      proof (cases c)
        case True
        with Cons.IH [of z3] z3 ends obtain n where "replied U G D fails (pw_message_type p) (pw_sql p) nv m wire rounds n
            (execute_with U D (pw_sql p) nv v (wz_db z)) (reply_loop U G D fails p m rounds z3)" by auto
        from replied_bound [OF this Some] loop True show ?thesis by auto
      next
        case False
        with ends loop z3 show ?thesis using replied_ended [OF _ Some, of D "pw_sql p" U nv m "wz_db z" wire z3] by auto
      qed
    qed
  qed
qed
text \<open>
  C12. In reply mode the statement is executed once per message that binds, in the order of the messages, each
  time with \<open>$message\<close> bound to that message and the other parameters as they were bound at the upgrade: the
  database is the one the messages of the first \<open>n\<close> rounds leave, every one of them executed. The session
  goes through all rounds, unless the next read fails, or the reply to the last message ends it: the
  execution failed, its result threw, a row would pass the byte limit, or a frame could not be written.
\<close>

theorem websocket_reply_per_message:
  assumes "string_util_ok U" and "pw_takes_message p"
  shows "\<exists>n vs z'. vs = List.map_filter (bound_value G (wx_fails X) (pw_message_type p)) (take n (wx_rounds X)) \<and> n \<le> length (wx_rounds X) \<and>
    HandleWebSocket U G D X options (Some p) \<lparr>wc_frames = [], wc_closed = False, wc_wire = wire\<rparr> db =
      wz_close (if wx_running X then Normal else GoingAway) [] z' \<and>
    wz_db z' = fold (execute_with U D (pw_sql p) (pw_named_values p)) vs db \<and>
    (n = length (wx_rounds X) \<or> fst (wx_rounds X ! n) \<in> {FAIL, INVALID_TEXT} \<or>
     0 < n \<and> (\<exists>us v. vs = us @ [v] \<and> bound_value G (wx_fails X) (pw_message_type p) (wx_rounds X ! (n - 1)) = Some v \<and>
       reply_ended D (pw_sql p) (ci_put U ''message'' v (pw_named_values p)) (nat (so_max_response_bytes options))
         (fold (execute_with U D (pw_sql p) (pw_named_values p)) us db) wire z'))"
proof -
  have self: "su_ci_equals U ''message'' ''message''" using assms(1) by (simp add: string_util_ok_def)
  let ?z = "\<lparr>wz_db = db, wz_connection = \<lparr>wc_frames = [], wc_closed = False, wc_wire = wire\<rparr>, wz_named_values = pw_named_values p,
    wz_rows_sent = 0, wz_bytes_sent = 0\<rparr>"
  let ?z' = "reply_loop U G D (wx_fails X) p (nat (so_max_response_bytes options)) (wx_rounds X) ?z"
  have "\<exists>n. replied U G D (wx_fails X) (pw_message_type p) (pw_sql p) (pw_named_values p) (nat (so_max_response_bytes options)) wire (wx_rounds X) n
      (wz_db ?z) ?z'"
    by (rule reply_replied) (simp_all add: self)
  then obtain n where "replied U G D (wx_fails X) (pw_message_type p) (pw_sql p) (pw_named_values p) (nat (so_max_response_bytes options)) wire
      (wx_rounds X) n db ?z'" by auto
  moreover have "HandleWebSocket U G D X options (Some p) \<lparr>wc_frames = [], wc_closed = False, wc_wire = wire\<rparr> db =
      wz_close (if wx_running X then Normal else GoingAway) [] ?z'"
    using assms(2) by (simp add: HandleWebSocket_def ws_loop_def)
  ultimately show ?thesis unfolding replied_def Let_def by blast
qed

section \<open>The counter of open sessions\<close>

text \<open>
  Requests for a session on several threads, interleaved at the atomic operations on the counter: one
  adds to it and, at the limit, later subtracts again; an open session subtracts when it ends.
\<close>

datatype session_pc = ARRIVED | OVER_LIMIT | SESSION_OPEN | LEFT

definition session_step :: "nat \<Rightarrow> nat \<Rightarrow> nat \<times> session_pc list \<Rightarrow> nat \<times> session_pc list" where
  "session_step limit t c = (case c of (counter, pcs) \<Rightarrow>
     if t \<ge> length pcs then c
     else case pcs ! t of
       ARRIVED \<Rightarrow> (counter + 1, pcs[t := if counter \<ge> limit then OVER_LIMIT else SESSION_OPEN])
     | OVER_LIMIT \<Rightarrow> (counter - 1, pcs[t := LEFT])
     | SESSION_OPEN \<Rightarrow> (counter - 1, pcs[t := LEFT])
     | LEFT \<Rightarrow> c)"

definition run_sessions :: "nat \<Rightarrow> nat \<Rightarrow> nat list \<Rightarrow> nat \<times> session_pc list" where
  "run_sessions limit threads schedule = fold (session_step limit) schedule (0, replicate threads ARRIVED)"

definition counter_agrees :: "nat \<Rightarrow> nat \<times> session_pc list \<Rightarrow> bool" where
  "counter_agrees limit c =
     (fst c = count_list (snd c) SESSION_OPEN + count_list (snd c) OVER_LIMIT \<and> count_list (snd c) SESSION_OPEN \<le> limit)"

lemma count_list_update:
  "t < length xs \<Longrightarrow> count_list (xs[t := y]) x + (if xs ! t = x then 1 else 0) = count_list xs x + (if y = x then 1 else 0)"
proof (induction xs arbitrary: t)
  case (Cons z xs)
  then show ?case
  proof (cases t)
    case (Suc k)
    with Cons.prems Cons.IH [of k] show ?thesis by (auto split: if_splits)
  qed auto
qed simp

lemma session_step_agrees: "counter_agrees limit c \<Longrightarrow> counter_agrees limit (session_step limit t c)"
proof -
  assume a: "counter_agrees limit c"
  obtain counter pcs where c: "c = (counter, pcs)" by (cases c)
  show ?thesis
  proof (cases "t < length pcs")
    case True
    note u = count_list_update [OF True]
    note us = u [where x = SESSION_OPEN and y = SESSION_OPEN] u [where x = OVER_LIMIT and y = SESSION_OPEN]
      u [where x = SESSION_OPEN and y = OVER_LIMIT] u [where x = OVER_LIMIT and y = OVER_LIMIT]
      u [where x = SESSION_OPEN and y = LEFT] u [where x = OVER_LIMIT and y = LEFT]
    show ?thesis
      using a us by (cases "pcs ! t") (auto simp: c True session_step_def counter_agrees_def)
  qed (use a in \<open>simp add: session_step_def c\<close>)
qed

text \<open>
  C13. However the requests interleave, the counter is the number of open sessions and of requests about to
  be refused, and the open sessions never exceed the limit.
\<close>

theorem sessions_within_limit:
  "fst (run_sessions limit threads schedule) =
     count_list (snd (run_sessions limit threads schedule)) SESSION_OPEN + count_list (snd (run_sessions limit threads schedule)) OVER_LIMIT \<and>
   count_list (snd (run_sessions limit threads schedule)) SESSION_OPEN \<le> limit"
proof -
  have "counter_agrees limit (fold (session_step limit) schedule c)" if "counter_agrees limit c" for c
    using that by (induction schedule arbitrary: c) (simp_all add: session_step_agrees del: split_paired_All)
  moreover have "count_list (replicate n ARRIVED) y = 0" if "y \<noteq> ARRIVED" for n y using that by (induction n) auto
  then have "counter_agrees limit (0, replicate threads ARRIVED)" by (simp add: counter_agrees_def)
  ultimately show ?thesis unfolding run_sessions_def counter_agrees_def by blast
qed

text \<open>
  The step of \<open>take_session\<close> is what one request does alone. A request that is about to be refused can
  make another one be refused although no session is open any more.
\<close>

lemma take_session_alone:
  "t < length pcs \<Longrightarrow> pcs ! t = ARRIVED \<Longrightarrow>
     (if snd (take_session limit counter) then session_step limit t (counter, pcs) = (fst (take_session limit counter), pcs[t := SESSION_OPEN])
      else session_step limit t (session_step limit t (counter, pcs)) = (fst (take_session limit counter), pcs[t := LEFT]))"
  by (simp add: take_session_def session_step_def)

lemma refused_without_sessions: "run_sessions 1 3 [0, 1, 0, 2] = (2, [LEFT, OVER_LIMIT, OVER_LIMIT])"
  by code_simp

section \<open>Admission: the counter and the policies\<close>

lemma admit_websocket_counter:
  "admit_websocket U cors alive limit req live sessions = (n, a) \<Longrightarrow>
     (case a of WsAdmitted stream captures \<Rightarrow> n = sessions + 1 \<and> sessions < limit | _ \<Rightarrow> n = sessions)"
  by (auto simp: admit_websocket_def split: if_splits option.splits prod.splits)

lemma RejectWebSocket_counter:
  "RejectWebSocket E G D V options req live res db sessions = (n, u) \<Longrightarrow>
     (case u of WS_PENDING p \<Rightarrow> n = sessions + 1 \<and> sessions < sv_session_limit V | _ \<Rightarrow> n = sessions)"
  by (auto simp: RejectWebSocket_def Let_def dest!: admit_websocket_counter split: prod.splits ws_admission.splits sum.splits)

lemma websocket_reads_no_policied_table:
  assumes "RejectWebSocket E G D V options req live res db sessions = (n, WS_PENDING p)"
    and "re_rewrite E = RewriteHandlerWithPolicies P s"
    and "row_access_bindings s \<noteq> [] \<or> masking_bindings s \<noteq> []"
    and "plain_bindings P s" and "\<And>q. pe_parse P (st_handler_sql (pw_stream p)) = Some [SelectStatement q] \<Longrightarrow> inspectable P q"
  shows "\<exists>q. pe_parse P (st_handler_sql (pw_stream p)) = Some [SelectStatement q] \<and> pw_sql p = pe_print P q \<and> protected P s (\<lambda>_. False) [] q"
proof -
  have "re_rewrite E (st_handler_sql (pw_stream p)) False = (pw_sql p, False, [])"
    using assms(1)
    by (auto simp: RejectWebSocket_def prepare_websocket_def Let_def split: prod.splits ws_admission.splits sum.splits if_splits)
  then have "RewriteHandlerWithPolicies P s (st_handler_sql (pw_stream p)) False = (pw_sql p, False, [])" by (simp add: assms(2))
  from policied_rewrite_protected [OF this assms(3,4,5)] show ?thesis by auto
qed

section \<open>Examples\<close>

definition echo_pending :: "(DuckValue, TypeId) QuackapiPendingWebSocket" where
  "echo_pending = \<lparr>pw_stream = tick_stream\<lparr>st_method := ''WS'', st_transport := WS\<rparr>, pw_sql = ''SELECT $message'', pw_named_values = [],
     pw_message_type = T_VARCHAR, pw_takes_message = True, pw_request_id = ''r''\<rparr>"

definition echo_script :: ws_script where
  "echo_script = \<lparr>wx_rounds = [(MESSAGE ''quack'', True), (TIMEOUT, True), (MESSAGE ''duck'', True), (FAIL, True)], wx_pauses = [],
     wx_fails = (\<lambda>_. None), wx_running = True\<rparr>"

lemma echo_session:
  "wz_db (HandleWebSocket ascii_util example_engine tick_db echo_script tick_options (Some echo_pending)
     \<lparr>wc_frames = [], wc_closed = False, wc_wire = (\<lambda>_. True)\<rparr> 0) = 2"
  by code_simp

theorem websocket_reply_per_message_witness:
  "\<exists>n \<le> 4. fold (execute_with ascii_util tick_db ''SELECT $message'' []) (List.map_filter (bound_value example_engine (\<lambda>_. None) T_VARCHAR)
     (take n [(MESSAGE ''quack'', True), (TIMEOUT, True), (MESSAGE ''duck'', True), (FAIL, True)])) 0 = 2"
proof -
  have "pw_takes_message echo_pending" by (simp add: echo_pending_def)
  from websocket_reply_per_message [OF string_util_ok_ascii this, of example_engine echo_script tick_db tick_options "\<lambda>_. True" 0]
  obtain n vs z' where w: "vs = List.map_filter (bound_value example_engine (wx_fails echo_script) (pw_message_type echo_pending)) (take n (wx_rounds echo_script))"
    "n \<le> length (wx_rounds echo_script)"
    "HandleWebSocket ascii_util example_engine tick_db echo_script tick_options (Some echo_pending)
       \<lparr>wc_frames = [], wc_closed = False, wc_wire = (\<lambda>_. True)\<rparr> 0 = wz_close (if wx_running echo_script then Normal else GoingAway) [] z'"
    "wz_db z' = fold (execute_with ascii_util tick_db (pw_sql echo_pending) (pw_named_values echo_pending)) vs 0" by blast
  have "wz_db z' = 2" using echo_session unfolding w(3) by simp
  with w(1,2,4) show ?thesis by (intro exI [of _ n]) (simp add: echo_pending_def echo_script_def)
qed

end
