(* ===== verification/Graphql.thy ===== *)
theory Graphql
  imports Enforcement PolicyDdl "HOL-Library.Char_ord" "HOL-Library.List_Lexorder"
begin

text \<open>
  GraphQL (\<open>src/src/quackapi_graphql.cpp\<close>): the reader of documents, their execution as one statement per root
  field, and the schema document. The reader works on the text still to be read, where the source
  keeps an index. The catalog, the settings, the preparation and the execution of statements are DuckDB's
  (\<open>graphql_env\<close>); the policies are those of \<open>Policy\<close>.
\<close>

section \<open>Reading documents\<close>

definition QUACKAPI_GRAPHQL_MAX_ROOT_FIELDS :: nat where "QUACKAPI_GRAPHQL_MAX_ROOT_FIELDS = 16"
definition QUACKAPI_GRAPHQL_MAX_COLUMNS_PER_FIELD :: nat where "QUACKAPI_GRAPHQL_MAX_COLUMNS_PER_FIELD = 64"
definition QUACKAPI_GRAPHQL_MAX_TOTAL_FIELDS :: nat where "QUACKAPI_GRAPHQL_MAX_TOTAL_FIELDS = 128"
definition QUACKAPI_GRAPHQL_MAX_TOTAL_ROWS :: nat where "QUACKAPI_GRAPHQL_MAX_TOTAL_ROWS = 10000"
definition QUACKAPI_GRAPHQL_MAX_DOCUMENT_BYTES :: nat where "QUACKAPI_GRAPHQL_MAX_DOCUMENT_BYTES = 65536"

definition GraphqlError :: "string \<Rightarrow> string" where
  "GraphqlError message = ''{'' @ dquoted ''errors'' @ '':[{'' @ dquoted ''message'' @ '':'' @ dquoted (QuackapiJsonEscape message) @ ''}]}''"

definition IsGraphqlNameStart :: "char \<Rightarrow> bool" where
  "IsGraphqlNameStart c = (is_alpha c \<or> c = CHR ''_'')"

definition IsGraphqlNameCont :: "char \<Rightarrow> bool" where
  "IsGraphqlNameCont c = (IsGraphqlNameStart c \<or> is_digit c)"

definition graphql_blank :: "char \<Rightarrow> bool" where
  "graphql_blank c = (c = CHR '' '' \<or> c = CHR 0x09 \<or> c = CHR 0x0A \<or> c = CHR 0x0D \<or> c = CHR '','')"

text \<open>White space, commas and comments to the end of the line.\<close>

function SkipWs :: "string \<Rightarrow> string" where
  "SkipWs [] = []"
| "SkipWs (c # s) =
     (if graphql_blank c then SkipWs s
      else if c = CHR ''#'' then SkipWs (dropWhile (\<lambda>d. d \<noteq> CHR 0x0A) s)
      else c # s)"
  by pat_completeness auto
termination
  by (relation "measure length") (auto simp: le_imp_less_Suc length_dropWhile_le)

definition MatchChar :: "char \<Rightarrow> string \<Rightarrow> string option" where
  "MatchChar expected s = (case SkipWs s of c # r \<Rightarrow> if c = expected then Some r else None | [] \<Rightarrow> None)"

definition ReadName :: "string \<Rightarrow> (string \<times> string) option" where
  "ReadName s = (case SkipWs s of
     [] \<Rightarrow> None
   | c # r \<Rightarrow> if IsGraphqlNameStart c then Some (c # takeWhile IsGraphqlNameCont r, dropWhile IsGraphqlNameCont r) else None)"

record GraphqlField =
  gf_name :: string
  gf_columns :: "string list"

definition at_char :: "char \<Rightarrow> string \<Rightarrow> bool" where
  "at_char c s = (s \<noteq> [] \<and> hd s = c)"

lemma SkipWs_length: "length (SkipWs s) \<le> length s"
proof (induction s rule: SkipWs.induct)
  case (2 c s)
  have "length (dropWhile (\<lambda>d. d \<noteq> CHR 0x0A) s) \<le> length s" by (rule length_dropWhile_le)
  with 2 show ?case by auto
qed simp

lemma ReadName_shorter: "ReadName s = Some (name, r) \<Longrightarrow> length r < length s"
proof -
  assume "ReadName s = Some (name, r)"
  then obtain c t where t: "SkipWs s = c # t" "r = dropWhile IsGraphqlNameCont t" by (auto simp: ReadName_def split: list.splits if_splits)
  moreover have "length (dropWhile IsGraphqlNameCont t) \<le> length t" by (rule length_dropWhile_le)
  moreover have "length (c # t) \<le> length s" using SkipWs_length [of s] t(1) by simp
  ultimately show ?thesis by simp
qed

lemma MatchChar_shorter: "MatchChar c s = Some r \<Longrightarrow> length r < length s"
  using SkipWs_length [of s] by (auto simp: MatchChar_def split: list.splits if_splits)

text \<open>The columns of a field, up to its closing brace: the columns and the text after it.\<close>

function column_loop :: "string \<Rightarrow> string list \<Rightarrow> string \<Rightarrow> string + (string list \<times> string)" where
  "column_loop field_name cols s =
     (if at_char (CHR ''}'') (SkipWs s) then Inr (cols, tl (SkipWs s))
      else case ReadName s of
        None \<Rightarrow> Inl (''expected column name inside '' @ field_name)
      | Some (col, r) \<Rightarrow>
          if at_char (CHR ''{'') (SkipWs r) then Inl ''nested selections are not supported in GraphQL v0''
          else if at_char (CHR ''('') (SkipWs r) then Inl ''field arguments are not supported in GraphQL v0''
          else if col \<in> set cols then Inl (''duplicate column '' @ squoted col @ '' in '' @ field_name)
          else if length (cols @ [col]) > QUACKAPI_GRAPHQL_MAX_COLUMNS_PER_FIELD then
            Inl (''selection for '' @ field_name @ '' exceeds the column limit'')
          else column_loop field_name (cols @ [col]) (SkipWs r))"
  by pat_completeness auto
termination
  by (relation "measure (\<lambda>(f, cols, s). length s)") (auto dest!: ReadName_shorter intro: le_less_trans [OF SkipWs_length])

declare column_loop.simps [simp del]

lemma column_loop_shorter: "column_loop field_name cols s = Inr (cols', r) \<Longrightarrow> length r < length s"
proof (induction field_name cols s arbitrary: cols' r rule: column_loop.induct)
  case (1 field_name cols s)
  show ?case
  proof (cases "at_char (CHR ''}'') (SkipWs s)")
    case True
    with 1(2) SkipWs_length [of s] show ?thesis by (cases "SkipWs s") (auto simp: column_loop.simps [of field_name cols s] at_char_def)
  next
    case False
    with 1(2) obtain col t where t: "ReadName s = Some (col, t)" and c: "column_loop field_name (cols @ [col]) (SkipWs t) = Inr (cols', r)"
      and n: "\<not> at_char (CHR ''{'') (SkipWs t)" "\<not> at_char (CHR ''('') (SkipWs t)" "col \<notin> set cols"
        "\<not> length (cols @ [col]) > QUACKAPI_GRAPHQL_MAX_COLUMNS_PER_FIELD"
      by (auto simp: column_loop.simps [of field_name cols s] split: option.splits if_splits)
    from 1(1) [OF False t refl n c] ReadName_shorter [OF t] SkipWs_length [of t] show ?thesis by simp
  qed
qed

definition total_fields :: "GraphqlField list \<Rightarrow> nat" where
  "total_fields roots = sum_list (map (\<lambda>f. length (gf_columns f)) roots)"

text \<open>The checks on a root field that has been read, once it is added to the others.\<close>

definition add_root :: "GraphqlField \<Rightarrow> GraphqlField list \<Rightarrow> string + GraphqlField list" where
  "add_root field roots =
     (if gf_columns field = [] then Inl (''selection set for '' @ gf_name field @ '' must list at least one column'')
      else if gf_name field \<in> gf_name ` set roots then
        Inl (''duplicate root field '' @ squoted (gf_name field) @ '' is not supported in GraphQL v0'')
      else if length (roots @ [field]) > QUACKAPI_GRAPHQL_MAX_ROOT_FIELDS then Inl ''GraphQL document exceeds the root-field limit''
      else if total_fields (roots @ [field]) > QUACKAPI_GRAPHQL_MAX_TOTAL_FIELDS then Inl ''GraphQL document exceeds the total-field limit''
      else Inr (roots @ [field]))"

definition introspection :: "string \<Rightarrow> bool" where
  "introspection name = (name = ''__schema'' \<or> name = ''__type'')"

text \<open>One root field: its name, and its columns in braces.\<close>

definition read_root :: "string \<Rightarrow> string + (GraphqlField \<times> string)" where
  "read_root s = (case ReadName s of
     None \<Rightarrow> Inl ''expected field name in root selection set''
   | Some (field_name, r) \<Rightarrow>
       if introspection field_name then Inl ''introspection fields are not supported in v0; use GET /graphql/schema''
       else case MatchChar (CHR ''{'') r of
         None \<Rightarrow> Inl (''v0 requires a column selection set: { '' @ field_name @ '' { col1 col2 } }'')
       | Some t \<Rightarrow> (case column_loop field_name [] t of
           Inl err \<Rightarrow> Inl err
         | Inr (cols, u) \<Rightarrow> Inr (\<lparr>gf_name = field_name, gf_columns = cols\<rparr>, u)))"

lemma read_root_shorter: "read_root s = Inr (field, r) \<Longrightarrow> length r < length s"
  by (fastforce simp: read_root_def split: option.splits if_splits sum.splits dest: ReadName_shorter MatchChar_shorter column_loop_shorter)

function root_loop :: "GraphqlField list \<Rightarrow> string \<Rightarrow> string + (GraphqlField list \<times> string)" where
  "root_loop roots s =
     (if at_char (CHR ''}'') (SkipWs s) then Inr (roots, tl (SkipWs s))
      else case read_root s of
        Inl err \<Rightarrow> Inl err
      | Inr (field, r) \<Rightarrow> (case add_root field roots of
          Inl err \<Rightarrow> Inl err
        | Inr roots' \<Rightarrow> root_loop roots' r))"
  by pat_completeness auto
termination
  by (relation "measure (\<lambda>(roots, s). length s)") (auto dest: read_root_shorter)

declare root_loop.simps [simp del]

text \<open>The optional keyword \<open>query\<close> with its optional name: the text where the braces must open.\<close>

definition operation_head :: "string \<Rightarrow> string + string" where
  "operation_head s = (case ReadName s of
     None \<Rightarrow> Inr s
   | Some (first, r) \<Rightarrow>
       if first = ''query'' then
         (case ReadName r of
            None \<Rightarrow> Inr r
          | Some (op_name, t) \<Rightarrow>
              if at_char (CHR ''{'') (SkipWs t) then Inr (SkipWs t) else Inl (''expected selection set '' @ squoted ''{'' @ '' after query''))
       else if first = ''mutation'' \<or> first = ''subscription'' then
         Inl ''mutations and subscriptions are not supported in GraphQL v0''
       else Inr s)"

definition ParseThinGraphql :: "string \<Rightarrow> string + GraphqlField list" where
  "ParseThinGraphql doc =
     (if length doc > QUACKAPI_GRAPHQL_MAX_DOCUMENT_BYTES then Inl ''GraphQL document exceeds the 64 KiB limit''
      else if SkipWs doc = [] then Inl ''empty GraphQL document''
      else case operation_head (SkipWs doc) of
        Inl err \<Rightarrow> Inl err
      | Inr s \<Rightarrow> (case MatchChar (CHR ''{'') s of
          None \<Rightarrow> Inl (''expected selection set '' @ squoted ''{'')
        | Some r \<Rightarrow> (case root_loop [] r of
            Inl err \<Rightarrow> Inl err
          | Inr (roots, t) \<Rightarrow>
              if SkipWs t \<noteq> [] then Inl ''unexpected trailing content after selection set''
              else if roots = [] then Inl ''selection set is empty''
              else Inr roots)))"

section \<open>Executing documents\<close>

record GraphqlCatalogObject =
  go_database :: string
  go_schema :: string
  go_name :: string
  go_columns :: "string list"

record GraphqlExecOptions =
  ge_allowed_tables :: "string list option"
  ge_limit :: nat
  ge_authenticated :: bool
  ge_claims :: "(string \<times> string) list option"
  ge_max_response_bytes :: nat
  ge_mode :: string
  ge_route_name :: string

text \<open>
  \<open>gv_catalog\<close> are the rows of the catalog query, \<open>gv_allow_all\<close> the setting that opens the catalog
  (\<open>None\<close> when it cannot be read), \<open>gv_expired\<close> the deadline's readings after the catalog query and
  after a failed execution, \<open>gv_prepare\<close> the names of a statement's parameters and \<open>gv_execute\<close> the
  one cell of its result.
\<close>

record 'db graphql_env =
  gv_policies :: policy_env
  gv_catalog :: "string + GraphqlCatalogObject list"
  gv_allow_all :: "string option"
  gv_expired :: "bool \<times> bool"
  gv_extract :: "string \<Rightarrow> string + string option"
  gv_prepare :: "'db \<Rightarrow> string \<Rightarrow> string + string list"
  gv_execute :: "'db \<Rightarrow> string \<Rightarrow> (string \<times> string option) list \<Rightarrow> 'db \<times> (string + string option)"

abbreviation gv_util :: "'db graphql_env \<Rightarrow> string_util" where
  "gv_util E \<equiv> pe_util (gv_policies E)"

definition GraphqlExtractQuery :: "'db graphql_env \<Rightarrow> string \<Rightarrow> string + string" where
  "GraphqlExtractQuery E raw_body =
     (if raw_body = [] then
        Inl (GraphqlError (''request body is empty; expected JSON {'' @ dquoted ''query'' @ '':'' @ dquoted ''...'' @ ''}''))
      else case gv_extract E raw_body of
        Inl _ \<Rightarrow> Inl (GraphqlError ''invalid JSON body'')
      | Inr None \<Rightarrow> Inl (GraphqlError (''JSON body must be an object with a non-null '' @ dquoted ''query'' @ '' string''))
      | Inr (Some q) \<Rightarrow> if q = [] then Inl (GraphqlError (dquoted ''query'' @ '' must be a non-empty string'')) else Inr q)"

text \<open>The catalog as a map: of objects with one name the first stays.\<close>

definition LoadGraphqlCatalog :: "'db graphql_env \<Rightarrow> string + (string \<times> GraphqlCatalogObject) list" where
  "LoadGraphqlCatalog E = (case gv_catalog E of
     Inl err \<Rightarrow> Inl err
   | Inr objects \<Rightarrow> Inr (map (\<lambda>object. (go_name object, object)) objects))"

definition TableExists :: "'db graphql_env \<Rightarrow> string \<Rightarrow> bool" where
  "TableExists E table = (case LoadGraphqlCatalog E of Inl _ \<Rightarrow> False | Inr objects \<Rightarrow> map_of objects table \<noteq> None)"

definition QuoteGraphqlObject :: "GraphqlCatalogObject \<Rightarrow> string" where
  "QuoteGraphqlObject object = QuoteCatalogIdentifier (go_database object) @ ''.'' @ QuoteCatalogIdentifier (go_schema object) @ ''.'' @
     QuoteCatalogIdentifier (go_name object)"

definition GraphqlLegacyOpenEnabled :: "'db graphql_env \<Rightarrow> bool" where
  "GraphqlLegacyOpenEnabled E = (case gv_allow_all E of None \<Rightarrow> False | Some v \<Rightarrow> su_lower (gv_util E) v = ''true'')"

definition escape_single_quotes :: "string \<Rightarrow> string" where
  "escape_single_quotes s = concat (map (\<lambda>c. if c = squote then [squote, squote] else [c]) s)"

definition select_json_sql :: "string \<Rightarrow> string list \<Rightarrow> string" where
  "select_json_sql source_sql cols =
     ''SELECT coalesce(json_group_array(json_object('' @
     join_with '', '' (map (\<lambda>c. squoted (escape_single_quotes c) @ '', '' @ QuoteCatalogIdentifier c) cols) @ '')), '' @ squoted ''[]'' @
     ''::JSON)::VARCHAR FROM ('' @ source_sql @ '') _gql''"

definition bind_claim :: "GraphqlExecOptions \<Rightarrow> string \<Rightarrow> string option" where
  "bind_claim opts param = (case ge_claims opts of None \<Rightarrow> None | Some cs \<Rightarrow> map_of cs (drop 7 param))"

definition SelectTableJson :: "'db graphql_env \<Rightarrow> string \<Rightarrow> string list \<Rightarrow> GraphqlExecOptions \<Rightarrow> 'db \<Rightarrow> 'db \<times> (string + string)" where
  "SelectTableJson E source_sql cols opts db =
     (let sql = select_json_sql source_sql cols; U = gv_util E
      in case gv_prepare E db sql of
           Inl err \<Rightarrow> (db, Inl err)
         | Inr params \<Rightarrow>
             if \<not> list_all (\<lambda>p. su_starts_with U (su_lower U p) ''claims_'') params then (db, Inl ''unexpected parameter in GraphQL query'')
             else (case gv_execute E db sql (map (\<lambda>p. (p, bind_claim opts p)) params) of
               (db', Inl err) \<Rightarrow> (db', Inl (if snd (gv_expired E) then ''query deadline exceeded'' else err))
             | (db', Inr None) \<Rightarrow> (db', Inr ''[]'')
             | (db', Inr (Some json)) \<Rightarrow>
                 (db', if length json > ge_max_response_bytes opts then Inl ''GraphQL response exceeds configured byte limit'' else Inr json)))"

definition source_select :: "GraphqlCatalogObject \<Rightarrow> string list \<Rightarrow> nat \<Rightarrow> string" where
  "source_select object cols limit =
     ''SELECT '' @ join_with '', '' (map QuoteCatalogIdentifier cols) @ '' FROM '' @ QuoteGraphqlObject object @ '' LIMIT '' @ nat_string limit"

text \<open>Whether a table may be selected: the tables of the mount, the registered ones, or every table.\<close>

definition table_refusal :: "'db graphql_env \<Rightarrow> 'v QuackapiState \<Rightarrow> GraphqlExecOptions \<Rightarrow> string \<Rightarrow> string option" where
  "table_refusal E s opts name = (case ge_allowed_tables opts of
     Some tables \<Rightarrow> if name \<in> set tables then None
       else Some (''table '' @ squoted name @ '' is not on this GraphQL route '' @ em_dash @ '' CREATE GRAPHQL ROUTE '' @ ellipsis @ '' FROM '' @ name)
   | None \<Rightarrow> if GraphqlLegacyOpenEnabled E \<or> name \<in> set (SnapshotGraphqlTables s) then None
       else Some (''table '' @ squoted name @ '' is not registered for GraphQL '' @ em_dash @ '' CREATE GRAPHQL FOR TABLE '' @ name))"

text \<open>The statement of a root field after its checks and the policies; \<open>Inl\<close> is the message of the error.\<close>

definition field_source :: "'db graphql_env \<Rightarrow> 'v QuackapiState \<Rightarrow> GraphqlExecOptions \<Rightarrow> (string \<times> GraphqlCatalogObject) list \<Rightarrow> nat
    \<Rightarrow> GraphqlField \<Rightarrow> string + string" where
  "field_source E s opts catalog limit field =
     (case table_refusal E s opts (gf_name field) of
        Some err \<Rightarrow> Inl err
      | None \<Rightarrow> (case map_of catalog (gf_name field) of
          None \<Rightarrow> Inl (''unknown table '' @ squoted (gf_name field) @ '' (main schema catalog only)'')
        | Some object \<Rightarrow> (case List.find (\<lambda>col. col \<notin> set (go_columns object)) (gf_columns field) of
            Some col \<Rightarrow> Inl (''unknown column '' @ squoted col @ '' on table '' @ squoted (gf_name field))
          | None \<Rightarrow> (case RewriteHandlerWithPolicies (gv_policies E) s (source_select object (gf_columns field) limit) (ge_authenticated opts) of
              (source_sql, deny, policy_error) \<Rightarrow>
                if deny \<or> policy_error \<noteq> [] then Inl ''access denied by table policy'' else Inr source_sql))))"

text \<open>The root fields in turn, each appended to the data so far.\<close>

fun run_fields :: "'db graphql_env \<Rightarrow> 'v QuackapiState \<Rightarrow> GraphqlExecOptions \<Rightarrow> (string \<times> GraphqlCatalogObject) list \<Rightarrow> nat
    \<Rightarrow> GraphqlField list \<Rightarrow> string \<Rightarrow> bool \<Rightarrow> 'db \<Rightarrow> 'db \<times> (string + string)" where
  "run_fields E s opts catalog limit [] data first db = (db, Inr data)"
| "run_fields E s opts catalog limit (field # fs) data first db = (case field_source E s opts catalog limit field of
     Inl err \<Rightarrow> (db, Inl err)
   | Inr source_sql \<Rightarrow> (case SelectTableJson E source_sql (gf_columns field) opts db of (db', selected) \<Rightarrow>
       let err = (case selected of Inl e \<Rightarrow> e | Inr _ \<Rightarrow> []); rows_json = (case selected of Inl _ \<Rightarrow> [] | Inr json \<Rightarrow> json);
           data' = data @ (if first then [] else '','') @ dquoted (QuackapiJsonEscape (gf_name field)) @ '':'' @ rows_json
       in if err \<noteq> [] then (db', Inl (''query failed for '' @ squoted (gf_name field) @ '': '' @ err))
          else if length data' > ge_max_response_bytes opts then (db', Inl ''GraphQL response exceeds configured byte limit'')
          else run_fields E s opts catalog limit fs data' False db'))"

definition row_limit :: "GraphqlExecOptions \<Rightarrow> GraphqlField list \<Rightarrow> nat" where
  "row_limit opts roots =
     min (if ge_limit opts = 0 then QUACKAPI_GRAPHQL_DEFAULT_LIMIT else ge_limit opts) (QUACKAPI_GRAPHQL_MAX_TOTAL_ROWS div length roots)"

definition ExecuteGraphqlQuery :: "'db graphql_env \<Rightarrow> 'v QuackapiState \<Rightarrow> string \<Rightarrow> GraphqlExecOptions \<Rightarrow> 'db \<Rightarrow> 'db \<times> string" where
  "ExecuteGraphqlQuery E s query opts db = (case ParseThinGraphql query of
     Inl err \<Rightarrow> (db, GraphqlError err)
   | Inr roots \<Rightarrow> (case LoadGraphqlCatalog E of
       Inl err \<Rightarrow> (db, GraphqlError (''schema catalog query failed: '' @ err))
     | Inr catalog \<Rightarrow>
         if fst (gv_expired E) then (db, GraphqlError ''schema catalog query deadline exceeded'')
         else (case run_fields E s opts catalog (row_limit opts roots) roots ''{'' True db of
           (db', Inl err) \<Rightarrow> (db', GraphqlError err)
         | (db', Inr data) \<Rightarrow> (db', ''{'' @ dquoted ''data'' @ '':'' @ data @ ''}}''))))"

section \<open>The schema document\<close>

definition GraphqlSchemaNote :: string where
  "GraphqlSchemaNote = ''GraphQL v0 catalog-only schema. Full __schema introspection not implemented. CREATE GRAPHQL FOR TABLE registers an allowlist for POST /graphql; empty = closed. SET GLOBAL quackapi_graphql_allow_all = true restores legacy open catalog mode. CREATE GRAPHQL ROUTE mounts named paths with per-route tables.''"

definition shown_in_schema :: "'db graphql_env \<Rightarrow> 'v QuackapiState \<Rightarrow> GraphqlExecOptions \<Rightarrow> (string \<times> GraphqlCatalogObject) list \<Rightarrow> string \<Rightarrow> bool" where
  "shown_in_schema E s opts catalog table =
     (table_refusal E s opts table = None \<and>
      (ge_authenticated opts \<or> (case map_of catalog table of None \<Rightarrow> False
         | Some object \<Rightarrow> \<not> HandlerTouchesPoliciedTable (gv_policies E) s (''SELECT * FROM '' @ QuoteGraphqlObject object))))"

definition schema_entry :: "string \<Rightarrow> GraphqlCatalogObject \<Rightarrow> string" where
  "schema_entry table object =
     dquoted (QuackapiJsonEscape table) @ '':['' @ join_with '','' (map (\<lambda>c. dquoted (QuackapiJsonEscape c)) (go_columns object)) @ '']''"

fun schema_loop :: "(string \<Rightarrow> string) \<Rightarrow> nat \<Rightarrow> string list \<Rightarrow> string \<Rightarrow> bool \<Rightarrow> string option" where
  "schema_loop entry max_bytes [] body first_table = Some body"
| "schema_loop entry max_bytes (table # tables) body first_table =
     (let body' = body @ (if first_table then [] else '','') @ entry table
      in if length body' > max_bytes then None else schema_loop entry max_bytes tables body' False)"

definition schema_mode :: "'db graphql_env \<Rightarrow> 'v QuackapiState \<Rightarrow> GraphqlExecOptions \<Rightarrow> string" where
  "schema_mode E s opts = (case ge_allowed_tables opts of
     Some _ \<Rightarrow> if ge_mode opts = [] then ''route'' else ge_mode opts
   | None \<Rightarrow> if GraphqlLegacyOpenEnabled E then ''open'' else if SnapshotGraphqlTables s = [] then ''disabled'' else ''allowlist'')"

definition schema_tables :: "'db graphql_env \<Rightarrow> 'v QuackapiState \<Rightarrow> GraphqlExecOptions \<Rightarrow> (string \<times> GraphqlCatalogObject) list \<Rightarrow> string list" where
  "schema_tables E s opts catalog = filter (shown_in_schema E s opts catalog) (sort (remdups (map fst catalog)))"

definition BuildGraphqlSchema :: "'db graphql_env \<Rightarrow> 'v QuackapiState \<Rightarrow> GraphqlExecOptions \<Rightarrow> string" where
  "BuildGraphqlSchema E s opts = (case LoadGraphqlCatalog E of
     Inl err \<Rightarrow> GraphqlError (''schema catalog query failed: '' @ err)
   | Inr catalog \<Rightarrow>
       if fst (gv_expired E) then GraphqlError ''schema catalog query deadline exceeded''
       else let head = ''{'' @ dquoted ''mode'' @ '':'' @ dquoted (schema_mode E s opts) @
                  (if ge_allowed_tables opts \<noteq> None \<and> ge_route_name opts \<noteq> []
                   then '','' @ dquoted ''route'' @ '':'' @ dquoted (QuackapiJsonEscape (ge_route_name opts)) else []) @
                  '','' @ dquoted ''tables'' @ '':{'';
                entry = (\<lambda>table. case map_of catalog table of Some object \<Rightarrow> schema_entry table object | None \<Rightarrow> [])
            in case schema_loop entry (ge_max_response_bytes opts) (schema_tables E s opts catalog) head True of
                 None \<Rightarrow> GraphqlError ''GraphQL response exceeds configured byte limit''
               | Some body \<Rightarrow> body @ ''},'' @ dquoted ''note'' @ '':'' @ dquoted (QuackapiJsonEscape GraphqlSchemaNote) @ ''}'')"

section \<open>What a document that is accepted looks like\<close>

definition graphql_name :: "string \<Rightarrow> bool" where
  "graphql_name name = (name \<noteq> [] \<and> IsGraphqlNameStart (hd name) \<and> list_all IsGraphqlNameCont name)"

definition field_ok :: "GraphqlField \<Rightarrow> bool" where
  "field_ok f = (graphql_name (gf_name f) \<and> \<not> introspection (gf_name f) \<and> gf_columns f \<noteq> [] \<and> distinct (gf_columns f) \<and>
     length (gf_columns f) \<le> QUACKAPI_GRAPHQL_MAX_COLUMNS_PER_FIELD \<and> list_all graphql_name (gf_columns f))"

definition roots_ok :: "GraphqlField list \<Rightarrow> bool" where
  "roots_ok roots = (list_all field_ok roots \<and> distinct (map gf_name roots) \<and>
     length roots \<le> QUACKAPI_GRAPHQL_MAX_ROOT_FIELDS \<and> total_fields roots \<le> QUACKAPI_GRAPHQL_MAX_TOTAL_FIELDS)"

lemma ReadName_name: "ReadName s = Some (name, r) \<Longrightarrow> graphql_name name"
proof -
  have "list_all IsGraphqlNameCont (takeWhile IsGraphqlNameCont t)" for t by (auto simp: list_all_iff dest: set_takeWhileD)
  then show "ReadName s = Some (name, r) \<Longrightarrow> graphql_name name"
    by (auto simp: ReadName_def graphql_name_def IsGraphqlNameCont_def [of "hd name"] split: list.splits if_splits)
      (simp add: IsGraphqlNameCont_def)
qed

lemma column_loop_ok:
  assumes "column_loop field_name cols s = Inr (cols', r)" and "distinct cols" and "list_all graphql_name cols"
    and "length cols \<le> QUACKAPI_GRAPHQL_MAX_COLUMNS_PER_FIELD"
  shows "distinct cols' \<and> list_all graphql_name cols' \<and> length cols' \<le> QUACKAPI_GRAPHQL_MAX_COLUMNS_PER_FIELD"
  using assms
proof (induction field_name cols s arbitrary: cols' r rule: column_loop.induct)
  case (1 field_name cols s)
  show ?case
  proof (cases "at_char (CHR ''}'') (SkipWs s)")
    case True
    with 1(2-) show ?thesis by (auto simp: column_loop.simps [of field_name cols s])
  next
    case False
    with 1(2) obtain col t where t: "ReadName s = Some (col, t)" and c: "column_loop field_name (cols @ [col]) (SkipWs t) = Inr (cols', r)"
      and n: "\<not> at_char (CHR ''{'') (SkipWs t)" "\<not> at_char (CHR ''('') (SkipWs t)" "col \<notin> set cols"
        "\<not> length (cols @ [col]) > QUACKAPI_GRAPHQL_MAX_COLUMNS_PER_FIELD"
      by (auto simp: column_loop.simps [of field_name cols s] split: option.splits if_splits)
    from 1(1) [OF False t refl n c] 1(3-) n(3,4) ReadName_name [OF t] show ?thesis by auto
  qed
qed

lemma read_root_ok:
  assumes "read_root s = Inr (field, r)" and "gf_columns field \<noteq> []"
  shows "field_ok field"
proof -
  obtain name b t cols where r: "ReadName s = Some (name, b)" "\<not> introspection name" "column_loop name [] t = Inr (cols, r)"
    "field = \<lparr>gf_name = name, gf_columns = cols\<rparr>"
    using assms by (auto simp: read_root_def split: option.splits if_splits sum.splits)
  from column_loop_ok [OF r(3)] ReadName_name [OF r(1)] r(2,4) assms(2) show ?thesis by (simp add: field_ok_def)
qed

lemma root_loop_ok:
  assumes "root_loop roots s = Inr (roots', r)" and "roots_ok roots"
  shows "roots_ok roots'"
  using assms
proof (induction roots s arbitrary: roots' r rule: root_loop.induct)
  case (1 roots s)
  show ?case
  proof (cases "at_char (CHR ''}'') (SkipWs s)")
    case True
    with 1(2-) show ?thesis by (auto simp: root_loop.simps [of roots s])
  next
    case False
    with 1(2) obtain field t roots1 where f: "read_root s = Inr (field, t)" and a: "add_root field roots = Inr roots1"
      and l: "root_loop roots1 t = Inr (roots', r)"
      by (auto simp: root_loop.simps [of roots s] split: sum.splits)
    have "roots_ok roots1" using a 1(3) read_root_ok [OF f] by (auto simp: add_root_def roots_ok_def split: if_splits)
    from 1(1) [OF False f refl a l this] show ?thesis .
  qed
qed

text \<open>
  An accepted document is within the limits: at most 16 root fields with distinct names, each with 1 to 64
  distinct columns and at most 128 of them in all, and every name is a GraphQL name.
\<close>

lemma ParseThinGraphql_ok: "ParseThinGraphql doc = Inr roots \<Longrightarrow> roots_ok roots \<and> roots \<noteq> []"
  by (auto simp: ParseThinGraphql_def split: if_splits sum.splits option.splits dest!: root_loop_ok)
    (simp_all add: roots_ok_def total_fields_def)

section \<open>Printed documents read back\<close>

definition print_field :: "GraphqlField \<Rightarrow> string" where
  "print_field f = gf_name f @ ''{'' @ join_with '' '' (gf_columns f) @ ''}''"

definition print_document :: "GraphqlField list \<Rightarrow> string" where
  "print_document roots = ''query{'' @ concat (map print_field roots) @ ''}''"

lemma name_char_plain: "IsGraphqlNameCont c \<Longrightarrow> \<not> graphql_blank c \<and> c \<noteq> CHR ''#'' \<and> c \<noteq> CHR ''}'' \<and> c \<noteq> CHR ''{'' \<and> c \<noteq> CHR ''(''"
  by (auto simp: IsGraphqlNameCont_def IsGraphqlNameStart_def graphql_blank_def is_alpha_def is_digit_def is_upper_def is_lower_def)

lemma SkipWs_stops: "s \<noteq> [] \<Longrightarrow> \<not> graphql_blank (hd s) \<Longrightarrow> hd s \<noteq> CHR ''#'' \<Longrightarrow> SkipWs s = s"
  by (cases s) auto

lemma SkipWs_name: "graphql_name name \<Longrightarrow> SkipWs (name @ s) = name @ s"
  using name_char_plain [of "hd name"]
  by (intro SkipWs_stops) (auto simp: graphql_name_def list_all_iff IsGraphqlNameCont_def)

lemma ReadName_print:
  assumes "graphql_name name" and "s \<noteq> []" and "\<not> IsGraphqlNameCont (hd s)"
  shows "ReadName (name @ s) = Some (name, s)"
proof -
  obtain c cs where n: "name = c # cs" using assms(1) by (cases name) (auto simp: graphql_name_def)
  have all: "list_all IsGraphqlNameCont cs" using assms(1) n by (simp add: graphql_name_def)
  have "takeWhile IsGraphqlNameCont s = []" "dropWhile IsGraphqlNameCont s = s" using assms(2,3) by (cases s; simp)+
  then have "takeWhile IsGraphqlNameCont (cs @ s) = cs" "dropWhile IsGraphqlNameCont (cs @ s) = s"
    using all by (simp_all add: list_all_iff takeWhile_append2 dropWhile_append2)
  with n SkipWs_name [OF assms(1)] assms(1) show ?thesis by (simp add: ReadName_def graphql_name_def)
qed

lemma not_name_chars: "\<not> IsGraphqlNameCont (CHR ''{'')" "\<not> IsGraphqlNameCont (CHR ''}'')" "\<not> IsGraphqlNameCont (CHR '' '')"
  by code_simp+

lemma not_blank_chars: "\<not> graphql_blank (CHR ''{'')" "\<not> graphql_blank (CHR ''}'')" "graphql_blank (CHR '' '')"
  by code_simp+

lemma at_char_name: "graphql_name name \<Longrightarrow> c \<in> {CHR ''{'', CHR ''}'', CHR ''(''} \<Longrightarrow> \<not> at_char c (name @ s)"
  using name_char_plain [of "hd name"] by (auto simp: at_char_def graphql_name_def IsGraphqlNameCont_def)

lemma column_loop_end: "column_loop field_name cols (CHR ''}'' # s) = Inr (cols, s)"
  by (simp add: column_loop.simps [of field_name cols] at_char_def not_blank_chars)

lemma column_loop_step:
  assumes "graphql_name col" and "col \<notin> set cols" and "length cols < QUACKAPI_GRAPHQL_MAX_COLUMNS_PER_FIELD"
    and "s \<noteq> []" and "\<not> IsGraphqlNameCont (hd s)" and "\<not> at_char (CHR ''{'') (SkipWs s)" and "\<not> at_char (CHR ''('') (SkipWs s)"
  shows "column_loop field_name cols (col @ s) = column_loop field_name (cols @ [col]) (SkipWs s)"
proof -
  have "ReadName (col @ s) = Some (col, s)" by (rule ReadName_print [OF assms(1,4,5)])
  moreover have "\<not> at_char (CHR ''}'') (SkipWs (col @ s))" using at_char_name [OF assms(1)] by (simp add: SkipWs_name [OF assms(1)])
  ultimately show ?thesis using assms(2,3,6,7) by (simp add: column_loop.simps [of field_name cols "col @ s"])
qed

lemma SkipWs_space: "SkipWs (CHR '' '' # s) = SkipWs s"
  by (simp add: not_blank_chars)

lemma column_loop_print:
  assumes "cs \<noteq> []" and "list_all graphql_name cs" and "distinct (cols @ cs)"
    and "length (cols @ cs) \<le> QUACKAPI_GRAPHQL_MAX_COLUMNS_PER_FIELD"
  shows "column_loop field_name cols (join_with '' '' cs @ CHR ''}'' # rest) = Inr (cols @ cs, rest)"
  using assms
proof (induction cs arbitrary: cols)
  case (Cons c cs)
  show ?case
  proof (cases cs)
    case Nil
    with Cons.prems column_loop_step [of c cols "CHR ''}'' # rest"] column_loop_end show ?thesis
      by (simp add: not_blank_chars not_name_chars at_char_def)
  next
    case (Cons d ds)
    obtain t2 where t2: "join_with '' '' cs @ CHR ''}'' # rest = d @ t2" using Cons by (cases ds) auto
    have g: "graphql_name d" using Cons Cons.prems by simp
    have sp: "SkipWs (CHR '' '' # d @ t2) = d @ t2" unfolding SkipWs_space by (rule SkipWs_name [OF g])
    have "column_loop field_name cols (c @ CHR '' '' # (join_with '' '' cs @ CHR ''}'' # rest)) =
        column_loop field_name (cols @ [c]) (SkipWs (CHR '' '' # (join_with '' '' cs @ CHR ''}'' # rest)))"
      using Cons.prems at_char_name [OF g, of _ t2] by (intro column_loop_step) (simp_all add: not_name_chars sp t2 del: SkipWs.simps)
    then show ?thesis using Cons.IH [of "cols @ [c]"] Cons Cons.prems sp t2 by (simp del: SkipWs.simps)
  qed
qed simp

lemma total_fields_simps [simp]:
  "total_fields [] = 0" "total_fields (f # fs) = length (gf_columns f) + total_fields fs" "total_fields (xs @ ys) = total_fields xs + total_fields ys"
  by (simp_all add: total_fields_def)

lemma read_root_print:
  assumes "field_ok f"
  shows "read_root (print_field f @ rest) = Inr (f, rest)"
proof -
  have n: "graphql_name (gf_name f)" using assms by (simp add: field_ok_def)
  let ?body = "join_with '' '' (gf_columns f) @ CHR ''}'' # rest"
  have "ReadName (gf_name f @ CHR ''{'' # ?body) = Some (gf_name f, CHR ''{'' # ?body)"
    using ReadName_print [OF n, of "CHR ''{'' # ?body"] by (simp add: not_name_chars)
  moreover have "MatchChar (CHR ''{'') (CHR ''{'' # ?body) = Some ?body" by (simp add: MatchChar_def not_blank_chars)
  moreover have "column_loop (gf_name f) [] ?body = Inr (gf_columns f, rest)"
    using column_loop_print [of "gf_columns f" "[]"] assms by (simp add: field_ok_def)
  ultimately show ?thesis using assms by (simp add: read_root_def print_field_def field_ok_def)
qed

lemma root_loop_print:
  assumes "roots_ok (done @ fs)"
  shows "root_loop done (concat (map print_field fs) @ CHR ''}'' # rest) = Inr (done @ fs, rest)"
  using assms
proof (induction fs arbitrary: "done")
  case Nil
  then show ?case by (simp add: root_loop.simps [of "done"] at_char_def not_blank_chars)
next
  case (Cons f fs)
  let ?s = "print_field f @ (concat (map print_field fs) @ CHR ''}'' # rest)"
  have f: "field_ok f" using Cons.prems by (simp add: roots_ok_def)
  then have n: "graphql_name (gf_name f)" by (simp add: field_ok_def)
  have "\<not> at_char (CHR ''}'') (SkipWs ?s)"
    using SkipWs_name [OF n] at_char_name [OF n] by (simp add: print_field_def)
  moreover have "read_root ?s = Inr (f, concat (map print_field fs) @ CHR ''}'' # rest)" by (rule read_root_print [OF f])
  moreover have "add_root f done = Inr (done @ [f])" using Cons.prems f by (auto simp: add_root_def roots_ok_def field_ok_def)
  ultimately have "root_loop done ?s = root_loop (done @ [f]) (concat (map print_field fs) @ CHR ''}'' # rest)"
    by (simp add: root_loop.simps [of "done" ?s])
  with Cons.IH [of "done @ [f]"] Cons.prems show ?case by simp
qed

text \<open>
  C14. A document within the limits is read as it was written: printing root fields and their columns and
  parsing the text gives them back.
\<close>

theorem graphql_document_roundtrip:
  assumes "roots_ok roots" and "roots \<noteq> []" and "length (print_document roots) \<le> QUACKAPI_GRAPHQL_MAX_DOCUMENT_BYTES"
  shows "ParseThinGraphql (print_document roots) = Inr roots"
proof -
  let ?body = "concat (map print_field roots) @ ''}''"
  have q: "graphql_name ''query''" by code_simp
  have doc: "print_document roots = ''query'' @ (CHR ''{'' # ?body)" by (simp add: print_document_def)
  have sk: "SkipWs (print_document roots) = print_document roots" unfolding doc by (rule SkipWs_name [OF q])
  have r: "ReadName (print_document roots) = Some (''query'', CHR ''{'' # ?body)"
    unfolding doc by (rule ReadName_print [OF q]) (simp_all add: not_name_chars)
  have "operation_head (print_document roots) = Inr (CHR ''{'' # ?body)"
    unfolding operation_head_def r by (simp add: ReadName_def not_blank_chars not_name_chars [unfolded IsGraphqlNameCont_def, simplified])
  moreover have "root_loop [] ?body = Inr (roots, [])" using root_loop_print [of "[]" roots "[]"] assms(1) by simp
  ultimately show ?thesis using assms(2,3) sk doc
    by (simp add: ParseThinGraphql_def MatchChar_def not_blank_chars)
qed

section \<open>What an execution runs\<close>

text \<open>The database was reached by executing statements of a set.\<close>

inductive ran :: "'db graphql_env \<Rightarrow> string set \<Rightarrow> 'db \<Rightarrow> 'db \<Rightarrow> bool" for E A where
  ran_none: "ran E A db db"
| ran_one: "ran E A db db1 \<Longrightarrow> sql \<in> A \<Longrightarrow> gv_execute E db1 sql vals = (db2, res) \<Longrightarrow> ran E A db db2"

text \<open>
  A statement a query may run: it selects, as JSON, columns of one of the query's root fields from the
  table or view of that name in the catalog, which the mount or the registry permits, with a limit that
  keeps all root fields together within the total number of rows; and the policies have passed it, so that
  under any binding it is a query that is guarded for the caller.
\<close>

definition graphql_statement :: "'db graphql_env \<Rightarrow> 'v QuackapiState \<Rightarrow> GraphqlExecOptions \<Rightarrow> GraphqlField list \<Rightarrow> string \<Rightarrow> bool" where
  "graphql_statement E s opts roots sql =
     (\<exists>objects object field n src.
        gv_catalog E = Inr objects \<and> object \<in> set objects \<and> field \<in> set roots \<and> gf_name field = go_name object \<and>
        set (gf_columns field) \<subseteq> set (go_columns object) \<and>
        (case ge_allowed_tables opts of Some tables \<Rightarrow> go_name object \<in> set tables
         | None \<Rightarrow> GraphqlLegacyOpenEnabled E \<or> go_name object \<in> set (SnapshotGraphqlTables s)) \<and>
        n * length roots \<le> QUACKAPI_GRAPHQL_MAX_TOTAL_ROWS \<and>
        RewriteHandlerWithPolicies (gv_policies E) s (source_select object (gf_columns field) n) (ge_authenticated opts) = (src, False, []) \<and>
        (row_access_bindings s = [] \<and> masking_bindings s = [] \<or>
         (\<exists>q. src = pe_print (gv_policies E) q \<and>
            guarded (gv_policies E) s (\<lambda>r. ge_authenticated opts \<and> secure_query (gv_policies E) s r) [] q)) \<and>
        sql = select_json_sql src (gf_columns field))"

lemma field_source_statement:
  assumes "field_source E s opts catalog n field = Inr src" and "LoadGraphqlCatalog E = Inr catalog" and "field \<in> set roots"
    and "n * length roots \<le> QUACKAPI_GRAPHQL_MAX_TOTAL_ROWS"
  shows "graphql_statement E s opts roots (select_json_sql src (gf_columns field))"
proof -
  obtain object where p: "table_refusal E s opts (gf_name field) = None" and o: "map_of catalog (gf_name field) = Some object"
    and c: "List.find (\<lambda>col. col \<notin> set (go_columns object)) (gf_columns field) = None"
    and r: "RewriteHandlerWithPolicies (gv_policies E) s (source_select object (gf_columns field) n) (ge_authenticated opts) = (src, False, [])"
    using assms(1) by (auto simp: field_source_def split: option.splits prod.splits if_splits)
  obtain objects where g: "gv_catalog E = Inr objects" "catalog = map (\<lambda>object. (go_name object, object)) objects"
    using assms(2) by (auto simp: LoadGraphqlCatalog_def split: sum.splits)
  have name: "object \<in> set objects" "gf_name field = go_name object" using map_of_SomeD [OF o] g(2) by auto
  have cols: "set (gf_columns field) \<subseteq> set (go_columns object)" using c by (auto simp: find_None_iff)
  have pol: "row_access_bindings s = [] \<and> masking_bindings s = [] \<or>
      (\<exists>q. src = pe_print (gv_policies E) q \<and> guarded (gv_policies E) s (\<lambda>r. ge_authenticated opts \<and> secure_query (gv_policies E) s r) [] q)"
  proof (cases "row_access_bindings s = [] \<and> masking_bindings s = []")
    case False
    then obtain q q' where "src = pe_print (gv_policies E) q'" "RewritePolicyQueryNode (gv_policies E) s (ge_authenticated opts) [] q = Inr q'"
      using rewrite_passes [OF r] by metis
    with rewrite_sound(3) [of "gv_policies E" s "ge_authenticated opts"] show ?thesis by blast
  qed simp
  have perm: "case ge_allowed_tables opts of Some tables \<Rightarrow> go_name object \<in> set tables
      | None \<Rightarrow> GraphqlLegacyOpenEnabled E \<or> go_name object \<in> set (SnapshotGraphqlTables s)"
    using p name(2) by (auto simp: table_refusal_def split: option.splits if_splits)
  show ?thesis unfolding graphql_statement_def
    by (intro exI [of _ objects] exI [of _ object] exI [of _ field] exI [of _ n] exI [of _ src] conjI)
      (use g(1) name cols perm assms(3,4) r pol in simp_all)
qed

lemma SelectTableJson_ran:
  assumes "SelectTableJson E src cols opts db = (db', res)" and "select_json_sql src cols \<in> A" and "ran E A db0 db"
  shows "ran E A db0 db'"
  using assms by (auto simp: SelectTableJson_def Let_def split: sum.splits if_splits prod.splits option.splits intro: ran_one)

lemma run_fields_ran:
  assumes "run_fields E s opts catalog n fs data first db = (db', res)" and "LoadGraphqlCatalog E = Inr catalog" and "set fs \<subseteq> set roots"
    and "n * length roots \<le> QUACKAPI_GRAPHQL_MAX_TOTAL_ROWS" and "ran E {sql. graphql_statement E s opts roots sql} db0 db"
  shows "ran E {sql. graphql_statement E s opts roots sql} db0 db'"
  using assms(1,3,5)
proof (induction fs arbitrary: data first db)
  case (Cons f fs)
  show ?case
  proof (cases "field_source E s opts catalog n f")
    case (Inr src)
    obtain db1 selected where sel: "SelectTableJson E src (gf_columns f) opts db = (db1, selected)" by (metis prod.exhaust)
    have "graphql_statement E s opts roots (select_json_sql src (gf_columns f))"
      using field_source_statement [OF Inr assms(2) _ assms(4)] Cons.prems(2) by simp
    with SelectTableJson_ran [OF sel] Cons.prems(3) have "ran E {sql. graphql_statement E s opts roots sql} db0 db1" by simp
    with Cons.IH Cons.prems(1,2) sel Inr show ?thesis by (auto simp: Let_def split: if_splits)
  qed (use Cons.prems in simp)
qed simp

text \<open>
  C9. GraphQL runs nothing but selections from permitted tables: whatever the query is, the database is left
  as by a sequence of statements that each select existing columns of a catalog table that the mount
  or the registry permits, under the row limit and as the policies allow the caller.
\<close>

theorem graphql_runs_only_selections:
  "\<exists>roots. ran E {sql. graphql_statement E s opts roots sql} db (fst (ExecuteGraphqlQuery E s query opts db)) \<and>
     length roots \<le> QUACKAPI_GRAPHQL_MAX_ROOT_FIELDS"
proof (cases "ParseThinGraphql query")
  case (Inl err)
  then show ?thesis by (auto simp: ExecuteGraphqlQuery_def intro!: exI [of _ "[]"] ran_none)
next
  case (Inr roots)
  from ParseThinGraphql_ok [OF this] have ok: "roots_ok roots" "roots \<noteq> []" by auto
  have "row_limit opts roots * length roots \<le> (QUACKAPI_GRAPHQL_MAX_TOTAL_ROWS div length roots) * length roots"
    by (simp add: row_limit_def)
  also have "... \<le> QUACKAPI_GRAPHQL_MAX_TOTAL_ROWS" by simp
  finally have n: "row_limit opts roots * length roots \<le> QUACKAPI_GRAPHQL_MAX_TOTAL_ROWS" .
  have "ran E {sql. graphql_statement E s opts roots sql} db (fst (ExecuteGraphqlQuery E s query opts db))"
    using run_fields_ran [OF _ _ subset_refl n ran_none]
    by (fastforce simp: ExecuteGraphqlQuery_def Inr split: sum.splits prod.splits if_splits intro: ran_none)
  with ok show ?thesis by (auto simp: roots_ok_def)
qed

section \<open>Examples\<close>

definition pets_document :: "GraphqlField list" where
  "pets_document = [\<lparr>gf_name = ''pets'', gf_columns = [''id'', ''name'']\<rparr>, \<lparr>gf_name = ''owners'', gf_columns = [''_id'']\<rparr>]"

theorem graphql_document_roundtrip_witness:
  "ParseThinGraphql ''query{pets{id name}owners{_id}}'' = Inr [\<lparr>gf_name = ''pets'', gf_columns = [''id'', ''name'']\<rparr>, \<lparr>gf_name = ''owners'', gf_columns = [''_id'']\<rparr>]"
proof -
  have p: "print_document pets_document = ''query{pets{id name}owners{_id}}''" by code_simp
  have names: "graphql_name ''pets''" "graphql_name ''owners''" "graphql_name ''id''" "graphql_name ''name''" "graphql_name ''_id''"
    by code_simp+
  have "length (print_document pets_document) \<le> QUACKAPI_GRAPHQL_MAX_DOCUMENT_BYTES"
    unfolding p by (simp add: QUACKAPI_GRAPHQL_MAX_DOCUMENT_BYTES_def)
  moreover have "roots_ok pets_document" "pets_document \<noteq> []"
    by (simp_all add: roots_ok_def field_ok_def pets_document_def names introspection_def QUACKAPI_GRAPHQL_MAX_ROOT_FIELDS_def
      QUACKAPI_GRAPHQL_MAX_TOTAL_FIELDS_def QUACKAPI_GRAPHQL_MAX_COLUMNS_PER_FIELD_def)
  ultimately have "roots_ok pets_document" "pets_document \<noteq> []" "length (print_document pets_document) \<le> QUACKAPI_GRAPHQL_MAX_DOCUMENT_BYTES"
    by simp_all
  from graphql_document_roundtrip [OF this] show ?thesis unfolding p by (simp add: pets_document_def)
qed

end
