(* ===== verification/GraphqlDdl.thy ===== *)
theory GraphqlDdl
  imports Graphql
begin

text \<open>
  The statements \<open>CREATE GRAPHQL\<close> and \<open>DROP GRAPHQL\<close> (\<open>src/src/quackapi_graphql.cpp\<close>): tables for
  the built-in endpoint and named mounts; the grammar, the execution on the registry, and the listings.
\<close>

section \<open>Table names\<close>

text \<open>The text after an opening double quote up to the closing one, where a doubled quote stands for one.\<close>

fun quoted_name :: "string \<Rightarrow> (string \<times> string) option" where
  "quoted_name [] = None"
| "quoted_name (c # s) =
     (if c = CHR 0x22 then
        (case s of
           d # s' \<Rightarrow> if d = CHR 0x22 then map_option (\<lambda>(v, r). (CHR 0x22 # v, r)) (quoted_name s') else Some ([], s)
         | [] \<Rightarrow> Some ([], []))
      else map_option (\<lambda>(v, r). (c # v, r)) (quoted_name s))"

lemma quoted_name_shorter: "quoted_name s = Some (v, r) \<Longrightarrow> length r < length s"
  by (induction s arbitrary: v r rule: quoted_name.induct) (fastforce split: if_splits list.splits)+

text \<open>A name and the trimmed text after it.\<close>

definition ParseIdent :: "string_util \<Rightarrow> string \<Rightarrow> (string \<times> string) option" where
  "ParseIdent U rest0 =
     (let rest = QuackapiTrim U rest0; bare = takeWhile (\<lambda>c. \<not> su_space U c \<and> c \<noteq> CHR '','') rest
      in if rest = [] then None
         else if hd rest = CHR 0x22 then
           (case quoted_name (tl rest) of
              None \<Rightarrow> None
            | Some (name, r) \<Rightarrow> if name = [] then None else Some (name, QuackapiTrim U r))
         else if CHR 0x22 \<in> set bare \<or> bare = [] then None
         else Some (bare, QuackapiTrim U (drop (length bare) rest)))"

lemma ParseIdent_shorter: "ParseIdent U s = Some (name, r) \<Longrightarrow> length r < length s"
proof -
  assume p: "ParseIdent U s = Some (name, r)"
  let ?t = "QuackapiTrim U s"
  have t: "length ?t \<le> length s" by (rule length_QuackapiTrim)
  show ?thesis
  proof (cases "hd ?t = CHR 0x22")
    case True
    then obtain r' where q: "quoted_name (tl ?t) = Some (name, r')" "r = QuackapiTrim U r'" "?t \<noteq> []"
      using p by (auto simp: ParseIdent_def Let_def split: if_splits option.splits)
    from quoted_name_shorter [OF q(1)] length_QuackapiTrim [of U r'] t q(2,3) show ?thesis by (cases ?t) auto
  next
    case False
    then have b: "?t \<noteq> []" "takeWhile (\<lambda>c. \<not> su_space U c \<and> c \<noteq> CHR '','') ?t \<noteq> []"
        "r = QuackapiTrim U (drop (length (takeWhile (\<lambda>c. \<not> su_space U c \<and> c \<noteq> CHR '','') ?t)) ?t)"
      using p by (auto simp: ParseIdent_def Let_def split: if_splits)
    have "length r \<le> length (drop (length (takeWhile (\<lambda>c. \<not> su_space U c \<and> c \<noteq> CHR '','') ?t)) ?t)"
      unfolding b(3) by (rule length_QuackapiTrim)
    with b(1,2) t show ?thesis by (cases ?t) (auto split: if_splits)
  qed
qed

definition invalid_table_name :: string where
  "invalid_table_name = ''invalid table name '' @ em_dash @ '' use a bare identifier or '' @ dquoted (''quoted'' @ [CHR 0x22, CHR 0x22] @ ''ident'')"

definition table_name_at :: "string_util \<Rightarrow> string \<Rightarrow> string + (string \<times> string)" where
  "table_name_at U rest = (case ParseIdent U rest of
     None \<Rightarrow> Inl invalid_table_name
   | Some (name, r) \<Rightarrow> if squote \<in> set name then Inl ''invalid table name'' else Inr (name, QuackapiTrim U r))"

lemma table_name_at_shorter: "table_name_at U s = Inr (name, r) \<Longrightarrow> length r < length s"
  by (auto simp: table_name_at_def split: option.splits if_splits dest!: ParseIdent_shorter intro: le_less_trans [OF length_QuackapiTrim])

text \<open>A list of names to the end of the text.\<close>

function ParseTableList :: "string_util \<Rightarrow> string \<Rightarrow> string list \<Rightarrow> string + string list" where
  "ParseTableList U rest tables = (case table_name_at U rest of
     Inl err \<Rightarrow> Inl err
   | Inr (name, r) \<Rightarrow>
       if r = [] then Inr (tables @ [name])
       else if hd r = CHR '','' then
         (if QuackapiTrim U (tl r) = [] then Inl ''trailing comma in table list''
          else ParseTableList U (QuackapiTrim U (tl r)) (tables @ [name]))
       else Inl ''unexpected trailing content after table list'')"
  by pat_completeness auto
termination
proof (relation "measure (\<lambda>(U, rest, tables). length rest)", goal_cases)
  case (2 U rest tables p name r)
  then have "table_name_at U rest = Inr (name, r)" by simp
  then have "length r < length rest" by (rule table_name_at_shorter)
  moreover have "length (QuackapiTrim U (tl r)) \<le> length (tl r)" by (rule length_QuackapiTrim)
  ultimately show ?case by simp
qed simp

declare ParseTableList.simps [simp del]

definition at_mount_clause :: "string_util \<Rightarrow> string \<Rightarrow> bool" where
  "at_mount_clause U rest = (at_keyword U ''REQUIRE'' rest \<or> at_keyword U ''LIMIT'' rest)"

text \<open>A list of names that a clause may follow: the names and the text from that clause on.\<close>

function ParseTableListUntilKeywords :: "string_util \<Rightarrow> string \<Rightarrow> string list \<Rightarrow> string + (string list \<times> string)" where
  "ParseTableListUntilKeywords U rest0 tables =
     (let rest = QuackapiTrim U rest0
      in if rest = [] then (if tables = [] then Inl ''expected at least one table name'' else Inr (tables, rest))
         else if at_mount_clause U rest then
           (if tables = [] then Inl (''expected at least one table name before '' @ take 6 rest) else Inr (tables, rest))
         else case table_name_at U rest of
           Inl err \<Rightarrow> Inl err
         | Inr (name, r) \<Rightarrow>
             if r = [] then Inr (tables @ [name], r)
             else if hd r = CHR '','' then
               (if QuackapiTrim U (tl r) = [] then Inl ''trailing comma in table list''
                else ParseTableListUntilKeywords U (QuackapiTrim U (tl r)) (tables @ [name]))
             else if at_mount_clause U r then Inr (tables @ [name], r)
             else Inl ''unexpected trailing content after table list'')"
  by pat_completeness auto
termination
proof (relation "measure (\<lambda>(U, rest, tables). length rest)", goal_cases)
  case (2 U rest0 tables rest p name r)
  then have "table_name_at U rest = Inr (name, r)" by simp
  then have "length r < length rest" by (rule table_name_at_shorter)
  moreover have "length rest \<le> length rest0" using 2(1) length_QuackapiTrim by simp
  moreover have "length (QuackapiTrim U (tl r)) \<le> length (tl r)" by (rule length_QuackapiTrim)
  ultimately show ?case by simp
qed simp

declare ParseTableListUntilKeywords.simps [simp del]

section \<open>The grammar\<close>

record GraphqlDdlParseData =
  gp_action :: string
  gp_or_replace :: bool
  gp_tables :: "string list"
  gp_route_name :: string
  gp_method :: string
  gp_path :: string
  gp_require_auth :: string
  gp_limit :: nat
  gp_has_limit :: bool

definition graphql_statement_data :: "string \<Rightarrow> GraphqlDdlParseData" where
  "graphql_statement_data action =
     \<lparr>gp_action = action, gp_or_replace = False, gp_tables = [], gp_route_name = [], gp_method = ''POST'', gp_path = [],
      gp_require_auth = [], gp_limit = QUACKAPI_GRAPHQL_DEFAULT_LIMIT, gp_has_limit = False\<rparr>"

definition mount_limit :: "string \<Rightarrow> string + nat" where
  "mount_limit lim_s =
     (if lim_s = [] \<or> \<not> list_all is_digit lim_s then Inl ''LIMIT expects a positive integer''
      else case stoull lim_s of
        None \<Rightarrow> Inl ''LIMIT expects a positive integer''
      | Some limit \<Rightarrow> if limit = 0 \<or> limit > 100000 then Inl ''LIMIT must be between 1 and 100000'' else Inr (nat limit))"

text \<open>The clauses after the tables: at most four rounds; what is left after the fourth is not looked at.\<close>

fun mount_clauses :: "string_util \<Rightarrow> nat \<Rightarrow> string \<Rightarrow> GraphqlDdlParseData \<Rightarrow> string + GraphqlDdlParseData" where
  "mount_clauses U 0 rest d = Inr d"
| "mount_clauses U (Suc rounds) rest0 d =
     (let rest = QuackapiTrim U rest0
      in if rest = [] then Inr d
         else if at_keyword U ''REQUIRE'' rest then
           (case next_token U (after_keyword U ''REQUIRE'' rest) of (tok, r) \<Rightarrow>
              if tok = [] then Inl ''REQUIRE expects an auth name'' else mount_clauses U rounds r (d\<lparr>gp_require_auth := tok\<rparr>))
         else if at_keyword U ''LIMIT'' rest then
           (case next_token U (after_keyword U ''LIMIT'' rest) of (tok, r) \<Rightarrow> (case mount_limit tok of
              Inl err \<Rightarrow> Inl err
            | Inr limit \<Rightarrow> mount_clauses U rounds r (d\<lparr>gp_limit := limit, gp_has_limit := True\<rparr>)))
         else Inl (''Unexpected trailing content after GRAPHQL ROUTE: '' @ rest))"

definition mount_path :: "string \<Rightarrow> string + (string \<times> string)" where
  "mount_path rest =
     (if \<not> quote_ahead rest then Inl (''Expected quoted '' @ squoted ''<path>'' @ '' after POST'')
      else if squote \<notin> set (tl rest) then Inl ''Unterminated GraphQL route path''
      else let path = takeWhile (\<lambda>c. c \<noteq> squote) (tl rest)
           in if path = [] \<or> hd path \<noteq> CHR ''/'' then Inl (''GraphQL route path must be absolute (start with '' @ squoted ''/'' @ '')'')
              else Inr (path, tl (dropWhile (\<lambda>c. c \<noteq> squote) (tl rest))))"

definition mount_tail :: "string_util \<Rightarrow> string \<Rightarrow> GraphqlDdlParseData \<Rightarrow> string + GraphqlDdlParseData" where
  "mount_tail U rest d =
     (if \<not> at_keyword U ''FROM'' rest then Inl (''Expected FROM <table> [, '' @ ellipsis @ ''] after path'')
      else case ParseTableListUntilKeywords U (after_keyword U ''FROM'' rest) [] of
        Inl err \<Rightarrow> Inl (''CREATE GRAPHQL ROUTE: '' @ err)
      | Inr (tables, r) \<Rightarrow> mount_clauses U 4 r (d\<lparr>gp_tables := tables\<rparr>))"

definition GraphqlRouteParse :: "string_util \<Rightarrow> bool \<Rightarrow> string \<Rightarrow> string + GraphqlDdlParseData" where
  "GraphqlRouteParse U or_replace rest =
     (let name = takeWhile (\<lambda>c. c \<noteq> CHR '' '') rest; rest1 = QuackapiTrim U (drop (length name) rest);
          word = takeWhile (\<lambda>c. c \<noteq> CHR '' '') rest1; method' = su_upper U word
      in if CHR '' '' \<notin> set rest then
           Inl (''CREATE GRAPHQL ROUTE <name> POST '' @ squoted ''<path>'' @ '' FROM <table> [, '' @ ellipsis @ '']'')
         else if CHR '' '' \<notin> set rest1 then Inl (''Expected POST '' @ squoted ''<path>'' @ '' after GRAPHQL ROUTE name'')
         else if method' \<noteq> ''POST'' then Inl (''CREATE GRAPHQL ROUTE only supports POST in v0 (got '' @ method' @ '')'')
         else case mount_path (QuackapiTrim U (drop (length word) rest1)) of
           Inl err \<Rightarrow> Inl err
         | Inr (path, r) \<Rightarrow> mount_tail U (QuackapiTrim U r) ((graphql_statement_data ''CREATE_ROUTE'')
             \<lparr>gp_or_replace := or_replace, gp_route_name := name, gp_method := method', gp_path := path\<rparr>))"

definition graphql_outcome :: "string + GraphqlDdlParseData \<Rightarrow> GraphqlDdlParseData parse_outcome" where
  "graphql_outcome parsed = (case parsed of Inl err \<Rightarrow> DISPLAY_EXTENSION_ERROR err | Inr d \<Rightarrow> PARSE_SUCCESSFUL d)"

definition GraphqlTablesParse :: "string_util \<Rightarrow> string \<Rightarrow> bool \<Rightarrow> string \<Rightarrow> string + GraphqlDdlParseData" where
  "GraphqlTablesParse U action or_replace rest =
     (if rest = [] then Inl (action @ '' GRAPHQL FOR TABLE expects at least one table name'')
      else case ParseTableList U rest [] of
        Inl err \<Rightarrow> Inl (action @ '' GRAPHQL FOR TABLE: '' @ err)
      | Inr tables \<Rightarrow> Inr ((graphql_statement_data action)\<lparr>gp_or_replace := or_replace, gp_tables := tables\<rparr>))"

definition GraphqlDdlParse :: "string_util \<Rightarrow> string \<Rightarrow> GraphqlDdlParseData parse_outcome" where
  "GraphqlDdlParse U query =
     (let q = QuackapiTrim U query; upper = su_upper U q; is = su_starts_with U upper; rest = (\<lambda>n. QuackapiTrim U (drop n q))
      in if is ''DROP GRAPHQL ALL'' \<and> (length upper = 16 \<or> \<not> is_alpha (upper ! 16) \<and> \<not> is_digit (upper ! 16) \<and> upper ! 16 \<noteq> CHR ''_'') then
           (if rest 16 \<noteq> [] then DISPLAY_EXTENSION_ERROR ''DROP GRAPHQL ALL takes no arguments''
            else PARSE_SUCCESSFUL (graphql_statement_data ''CLEAR''))
         else if is ''DROP GRAPHQL ROUTE '' then
           drop_statement U (drop 19 q) ''DROP GRAPHQL ROUTE expects a single route name''
             (\<lambda>name. (graphql_statement_data ''DROP_ROUTE'')\<lparr>gp_route_name := name\<rparr>)
         else if is ''CREATE GRAPHQL ROUTE '' then graphql_outcome (GraphqlRouteParse U False (rest 21))
         else if is ''CREATE OR REPLACE GRAPHQL ROUTE '' then graphql_outcome (GraphqlRouteParse U True (rest 32))
         else if is ''CREATE GRAPHQL FOR TABLE '' then graphql_outcome (GraphqlTablesParse U ''CREATE'' False (rest 25))
         else if is ''CREATE OR REPLACE GRAPHQL FOR TABLE '' then graphql_outcome (GraphqlTablesParse U ''CREATE'' True (rest 36))
         else if is ''DROP GRAPHQL FOR TABLE '' then graphql_outcome (GraphqlTablesParse U ''DROP'' False (rest 23))
         else DISPLAY_ORIGINAL_ERROR)"

section \<open>Execution\<close>

text \<open>
  An exception leaves the registry as it was at that point, so the state is returned with the message
  or the exception.
\<close>

definition join_names :: "string list \<Rightarrow> string" where
  "join_names names = join_with '', '' names"

fun add_tables :: "bool \<Rightarrow> string list \<Rightarrow> 'v QuackapiState \<Rightarrow> 'v QuackapiState \<times> exn option" where
  "add_tables or_replace [] s = (s, None)"
| "add_tables or_replace (table # tables) s = (case AddGraphqlTable table or_replace s of
     Inl e \<Rightarrow> (s, Some e)
   | Inr s' \<Rightarrow> add_tables or_replace tables s')"

fun drop_tables :: "string list \<Rightarrow> 'v QuackapiState \<Rightarrow> string list \<Rightarrow> string list \<Rightarrow> 'v QuackapiState \<times> string list \<times> string list" where
  "drop_tables [] s gone absent = (s, gone, absent)"
| "drop_tables (table # tables) s gone absent = (case DropGraphqlTable table s of
     (True, s') \<Rightarrow> drop_tables tables s' (gone @ [table]) absent
   | (False, s') \<Rightarrow> drop_tables tables s' gone (absent @ [table]))"

definition table_missing :: "string \<Rightarrow> string \<Rightarrow> exn" where
  "table_missing statement table = InvalidInput (statement @ '': table or view not found in schema main'') [table]"

definition right_arrow :: string where
  "right_arrow = [CHR 0xE2, CHR 0x86, CHR 0x92]"

definition create_mount :: "'db graphql_env \<Rightarrow> GraphqlDdlParseData \<Rightarrow> 'v QuackapiState \<Rightarrow> 'v QuackapiState \<times> (exn + string)" where
  "create_mount E d s = (case List.find (\<lambda>t. \<not> TableExists E t) (gp_tables d) of
     Some table \<Rightarrow> (s, Inl (table_missing ''CREATE GRAPHQL ROUTE'' table))
   | None \<Rightarrow>
       if gp_require_auth d \<noteq> [] \<and> GetAuth (gv_util E) (gp_require_auth d) s = None then
         (s, Inl (InvalidInput ''CREATE GRAPHQL ROUTE: auth scheme does not exist'' [gp_require_auth d]))
       else let route = \<lparr>gq_name = gp_route_name d, gq_method = gp_method d, gq_path = gp_path d, gq_tables = gp_tables d,
                         gq_require_auth = gp_require_auth d,
                         gq_limit = (if gp_limit d = 0 then QUACKAPI_GRAPHQL_DEFAULT_LIMIT else gp_limit d)\<rparr>
            in case AddGraphqlRoute (gv_util E) route (gp_or_replace d) s of
                 Inl e \<Rightarrow> (s, Inl e)
               | Inr s' \<Rightarrow> (s', Inr (''GraphQL route '' @ gq_name route @ '': '' @ gq_method route @ '' '' @ gq_path route @ '' FROM '' @
                   join_names (gq_tables route) @ (if gq_require_auth route \<noteq> [] then '' REQUIRE '' @ gq_require_auth route else []) @
                   '' LIMIT '' @ nat_string (gq_limit route))))"

definition create_tables :: "'db graphql_env \<Rightarrow> GraphqlDdlParseData \<Rightarrow> 'v QuackapiState \<Rightarrow> 'v QuackapiState \<times> (exn + string)" where
  "create_tables E d s = (case List.find (\<lambda>t. \<not> TableExists E t) (gp_tables d) of
     Some table \<Rightarrow> (s, Inl (table_missing ''CREATE GRAPHQL FOR TABLE'' table))
   | None \<Rightarrow> (case (if gp_or_replace d then None else List.find (\<lambda>t. t \<in> set (SnapshotGraphqlTables s)) (gp_tables d)) of
       Some table \<Rightarrow> (s, Inl (InvalidInput ''GraphQL table already registered, use CREATE OR REPLACE GRAPHQL FOR TABLE'' [table]))
     | None \<Rightarrow> (case add_tables (gp_or_replace d) (gp_tables d) s of
         (s', Some e) \<Rightarrow> (s', Inl e)
       | (s', None) \<Rightarrow> (s', Inr (''GraphQL registered: '' @ join_names (gp_tables d) @ '' (allowlist mode on POST /graphql)'')))))"

definition unregister_tables :: "GraphqlDdlParseData \<Rightarrow> 'v QuackapiState \<Rightarrow> 'v QuackapiState \<times> (exn + string)" where
  "unregister_tables d s = (case drop_tables (gp_tables d) s [] [] of (s', gone, absent) \<Rightarrow>
     (s', if gone = [] then Inl (InvalidInput ''DROP GRAPHQL FOR TABLE: no matching registered tables'' [])
          else Inr (''GraphQL unregistered: '' @ join_names gone @
            (if SnapshotGraphqlTables s' = [] then '' (allowlist empty '' @ right_arrow @ '' catalog closed)'' else []) @
            (if absent \<noteq> [] then ''; not registered: '' @ join_names absent else []))))"

definition ApplyGraphqlExec :: "'db graphql_env \<Rightarrow> GraphqlDdlParseData \<Rightarrow> 'v QuackapiState \<Rightarrow> 'v QuackapiState \<times> (exn + string)" where
  "ApplyGraphqlExec E d s =
     (if gp_action d = ''CLEAR'' then (ClearGraphqlTables s, Inr ''GraphQL allowlist cleared (catalog closed)'')
      else if gp_action d = ''CREATE_ROUTE'' then create_mount E d s
      else if gp_action d = ''DROP_ROUTE'' then
        (case DropGraphqlRoute (gp_route_name d) s of
           (True, s') \<Rightarrow> (s', Inr (''Dropped GraphQL route '' @ gp_route_name d))
         | (False, s') \<Rightarrow> (s', Inl (InvalidInput ''GraphQL route does not exist'' [gp_route_name d])))
      else if gp_action d = ''CREATE'' then create_tables E d s
      else if gp_action d = ''DROP'' then unregister_tables d s
      else (s, Inl (InvalidInput ''internal: unknown GraphQL DDL action'' [gp_action d])))"

section \<open>Listings\<close>

definition GraphqlTablesExec :: "'db graphql_env \<Rightarrow> 'v QuackapiState \<Rightarrow> (string \<times> string option) list" where
  "GraphqlTablesExec E s =
     (if \<not> GraphqlLegacyOpenEnabled E \<and> SnapshotGraphqlTables s \<noteq> [] then map (\<lambda>t. (''allowlist'', Some t)) (SnapshotGraphqlTables s)
      else [(if GraphqlLegacyOpenEnabled E then ''open'' else ''disabled'', None)])"

definition GraphqlRoutesExec :: "'v QuackapiState \<Rightarrow> (string \<times> string \<times> string \<times> string list \<times> string option \<times> nat) list" where
  "GraphqlRoutesExec s = map (\<lambda>r. (gq_name r, gq_method r, gq_path r, gq_tables r,
     if gq_require_auth r = [] then None else Some (gq_require_auth r), gq_limit r)) (SnapshotGraphqlRoutes s)"

section \<open>Properties\<close>

lemma mount_limit_bounds: "mount_limit lim_s = Inr n \<Longrightarrow> 1 \<le> n \<and> n \<le> 100000"
proof -
  assume a: "mount_limit lim_s = Inr n"
  then obtain k where k: "stoull lim_s = Some k" "k \<noteq> 0" "\<not> k > 100000" "n = nat k"
    by (auto simp: mount_limit_def split: if_splits option.splits)
  have "0 \<le> k" using k(1) by (auto simp: stoull_def Let_def split: if_splits)
  with k show ?thesis by auto
qed

definition mount_data_ok :: "GraphqlDdlParseData \<Rightarrow> bool" where
  "mount_data_ok d = (gp_action d = ''CREATE_ROUTE'' \<and> gp_tables d \<noteq> [] \<and> gp_method d = ''POST'' \<and> gp_path d \<noteq> [] \<and> hd (gp_path d) = CHR ''/'' \<and>
     1 \<le> gp_limit d \<and> gp_limit d \<le> 100000)"

lemma mount_clauses_ok: "mount_clauses U k rest d = Inr d' \<Longrightarrow> mount_data_ok d \<Longrightarrow> mount_data_ok d'"
proof (induction k arbitrary: rest d)
  case (Suc k)
  let ?t = "QuackapiTrim U rest"
  note step = Suc.prems(1) [unfolded mount_clauses.simps Let_def]
  show ?case
  proof (cases "?t = []")
    case False
    show ?thesis
    proof (cases "at_keyword U ''REQUIRE'' ?t")
      case True
      obtain tok r where n: "next_token U (after_keyword U ''REQUIRE'' ?t) = (tok, r)" by (metis prod.exhaust)
      have "mount_clauses U k r (d\<lparr>gp_require_auth := tok\<rparr>) = Inr d'" using step False True n by (simp split: if_splits)
      from Suc.IH [OF this] Suc.prems(2) show ?thesis by (simp add: mount_data_ok_def)
    next
      case no: False
      obtain tok r where n: "next_token U (after_keyword U ''LIMIT'' ?t) = (tok, r)" by (metis prod.exhaust)
      then obtain l where l: "mount_limit tok = Inr l" "mount_clauses U k r (d\<lparr>gp_limit := l, gp_has_limit := True\<rparr>) = Inr d'"
        using step False no by (simp split: if_splits sum.splits)
      from Suc.IH [OF l(2)] mount_limit_bounds [OF l(1)] Suc.prems(2) show ?thesis by (simp add: mount_data_ok_def)
    qed
  qed (use step Suc.prems in simp)
qed simp

lemma table_list_nonempty: "ParseTableListUntilKeywords U rest tables = Inr (ts, r) \<Longrightarrow> ts \<noteq> []"
proof (induction rest arbitrary: tables rule: length_induct)
  case (1 rest)
  let ?t = "QuackapiTrim U rest"
  note step = 1(2) [unfolded ParseTableListUntilKeywords.simps [of U rest tables] Let_def]
  show ?case
  proof (cases "?t = [] \<or> at_mount_clause U ?t")
    case True
    with step show ?thesis by (auto split: if_splits)
  next
    case False
    then obtain name r1 where n: "table_name_at U ?t = Inr (name, r1)" using step by (auto split: sum.splits if_splits)
    have "length (QuackapiTrim U (tl r1)) < length rest" if "r1 \<noteq> []"
      using that table_name_at_shorter [OF n] length_QuackapiTrim [of U "tl r1"] length_QuackapiTrim [of U rest] by (cases r1) auto
    with step n False 1(1) show ?thesis by (auto split: if_splits)
  qed
qed

lemma GraphqlRouteParse_ok:
  assumes "GraphqlRouteParse U rep rest = Inr d"
  shows "mount_data_ok d"
proof -
  let ?d = "\<lambda>name path. (graphql_statement_data ''CREATE_ROUTE'')\<lparr>gp_or_replace := rep, gp_route_name := name, gp_method := ''POST'', gp_path := path\<rparr>"
  obtain name path r0 r where p: "mount_path r0 = Inr (path, r)" and t: "mount_tail U (QuackapiTrim U r) (?d name path) = Inr d"
    using assms unfolding GraphqlRouteParse_def Let_def by (auto split: if_splits sum.splits)
  have path: "path \<noteq> [] \<and> hd path = CHR ''/''" using p by (auto simp: mount_path_def Let_def split: if_splits)
  obtain ts r' where ts: "ParseTableListUntilKeywords U (after_keyword U ''FROM'' (QuackapiTrim U r)) [] = Inr (ts, r')"
    and c: "mount_clauses U 4 r' ((?d name path)\<lparr>gp_tables := ts\<rparr>) = Inr d"
    using t by (auto simp: mount_tail_def split: if_splits sum.splits)
  from table_list_nonempty [OF ts] path have "mount_data_ok ((?d name path)\<lparr>gp_tables := ts\<rparr>)"
    by (simp add: mount_data_ok_def graphql_statement_data_def QUACKAPI_GRAPHQL_DEFAULT_LIMIT_def)
  from mount_clauses_ok [OF c this] show ?thesis .
qed

lemma GraphqlDdlParse_mount:
  assumes "GraphqlDdlParse U sql = PARSE_SUCCESSFUL d" and "gp_action d = ''CREATE_ROUTE''"
  shows "mount_data_ok d"
  using assms GraphqlRouteParse_ok [of U]
  unfolding GraphqlDdlParse_def Let_def drop_statement_def graphql_outcome_def GraphqlTablesParse_def
  by (auto simp: graphql_statement_data_def Let_def split: if_splits sum.splits)

text \<open>The registry as statements leave it, those that fail included; the catalog may be another for each (\<open>Es\<close>).\<close>

inductive graphql_history :: "'db graphql_env set \<Rightarrow> 'v QuackapiState \<Rightarrow> bool" for Es where
  no_mounts: "graphql_history Es initial_state"
| graphql_ddl: "graphql_history Es s \<Longrightarrow> GraphqlDdlParse U sql = PARSE_SUCCESSFUL d \<Longrightarrow> E \<in> Es \<Longrightarrow> ApplyGraphqlExec E d s = (s', outcome)
    \<Longrightarrow> graphql_history Es s'"
| other_schemes: "graphql_history Es s \<Longrightarrow> graphql_history Es (s\<lparr>auths := schemes\<rparr>)"

definition mount_ok :: "QuackapiGraphqlRoute \<Rightarrow> bool" where
  "mount_ok r = (gq_name r \<noteq> [] \<and> gq_method r = ''POST'' \<and> gq_tables r \<noteq> [] \<and> \<not> IsReservedGraphqlPath (gq_path r) \<and>
     \<not> IsReservedGraphqlPath (gq_path r @ ''/schema'') \<and> 1 \<le> gq_limit r \<and> gq_limit r \<le> 100000)"

lemma add_tables_keep: "add_tables rep ts s = (s', e) \<Longrightarrow> graphql_routes s' = graphql_routes s \<and> (distinct (graphql_tables s) \<longrightarrow> distinct (graphql_tables s'))"
proof (induction ts arbitrary: s)
  case (Cons t ts)
  show ?case
  proof (cases "AddGraphqlTable t rep s")
    case (Inr s1)
    have "graphql_routes s1 = graphql_routes s \<and> (distinct (graphql_tables s) \<longrightarrow> distinct (graphql_tables s1))"
      using Inr by (auto simp: AddGraphqlTable_def any_iff split: if_splits)
    with Cons.IH [of s1] Cons.prems Inr show ?thesis by simp
  qed (use Cons.prems in simp)
qed simp

lemma drop_tables_keep:
  "drop_tables ts s gone absent = (s', x) \<Longrightarrow> graphql_routes s' = graphql_routes s \<and> (distinct (graphql_tables s) \<longrightarrow> distinct (graphql_tables s'))"
proof (induction ts arbitrary: s gone absent)
  case (Cons t ts)
  obtain b s1 where d: "DropGraphqlTable t s = (b, s1)" by (metis prod.exhaust)
  have "graphql_routes s1 = graphql_routes s \<and> (distinct (graphql_tables s) \<longrightarrow> distinct (graphql_tables s1))"
    using d distinct_map_erase_first [of id "graphql_tables s"] by (auto simp: DropGraphqlTable_def split: if_splits)
  with Cons.IH [of s1] Cons.prems d show ?case by (cases b) auto
qed simp

lemma AddGraphqlRoute_stored:
  assumes "AddGraphqlRoute U r rep s = Inr s'"
  shows "graphql_tables s' = graphql_tables s \<and>
    (\<forall>x \<in> set (graphql_routes s'). x \<in> set (graphql_routes s) \<or> x = stored_graphql_route U r \<and> gq_name r \<noteq> [] \<and> gq_tables r \<noteq> [] \<and>
       gq_method x = ''POST'' \<and> \<not> IsReservedGraphqlPath (gq_path x) \<and> \<not> IsReservedGraphqlPath (gq_path x @ ''/schema''))"
  using assms by (auto simp: AddGraphqlRoute_def Let_def split: if_splits option.splits dest: in_set_replace_firstD)

lemma ApplyGraphqlExec_keeps:
  assumes "ApplyGraphqlExec E d s = (s', outcome)" and "gp_action d = ''CREATE_ROUTE'' \<Longrightarrow> mount_data_ok d"
    and "\<forall>r \<in> set (graphql_routes s). mount_ok r" and "distinct (graphql_tables s)"
  shows "(\<forall>r \<in> set (graphql_routes s'). mount_ok r) \<and> distinct (graphql_tables s')"
proof -
  consider (mount) "gp_action d = ''CREATE_ROUTE''" "create_mount E d s = (s', outcome)"
    | (unmount) "gp_action d \<noteq> ''CREATE_ROUTE''" "s' = snd (DropGraphqlRoute (gp_route_name d) s)"
    | (clear) "s' = ClearGraphqlTables s" | (create) "create_tables E d s = (s', outcome)" | (undo) "unregister_tables d s = (s', outcome)" | (none) "s' = s"
    using assms(1) by (auto simp: ApplyGraphqlExec_def split: if_splits prod.splits bool.splits)
  then show ?thesis
  proof cases
    case mount
    show ?thesis
    proof (cases "s' = s")
      case False
      then obtain r where a: "AddGraphqlRoute (gv_util E) r (gp_or_replace d) s = Inr s'" and l: "gq_limit r = gp_limit d \<or> gq_limit r = QUACKAPI_GRAPHQL_DEFAULT_LIMIT"
        using mount(2) by (auto simp: create_mount_def Let_def split: option.splits if_splits sum.splits)
      have "1 \<le> gq_limit r \<and> gq_limit r \<le> 100000"
        using l assms(2) [OF mount(1)] by (auto simp: mount_data_ok_def QUACKAPI_GRAPHQL_DEFAULT_LIMIT_def)
      with AddGraphqlRoute_stored [OF a] assms(3,4) show ?thesis by (auto simp: mount_ok_def stored_graphql_route_def)
    qed (use assms in simp)
  next
    case unmount
    then show ?thesis using assms(3,4) by (auto simp: DropGraphqlRoute_def dest: subsetD [OF set_erase_first_subset] split: if_splits)
  next
    case create
    then show ?thesis using assms(3,4) by (auto simp: create_tables_def dest!: add_tables_keep split: option.splits prod.splits if_splits)
  next
    case undo
    then show ?thesis using assms(3,4) by (auto simp: unregister_tables_def dest!: drop_tables_keep split: prod.splits)
  qed (use assms in \<open>auto simp: ClearGraphqlTables_def\<close>)
qed

text \<open>
  Whatever statements are run, also those that fail half-way: every GraphQL mount has a name, serves
  \<open>POST\<close> on a path outside the reserved ones, has at least one table and a row limit from 1 to 100000, and
  no table is registered twice.
\<close>

theorem declared_mounts_well_formed:
  assumes "graphql_history Es s"
  shows "(\<forall>r \<in> set (graphql_routes s). mount_ok r) \<and> distinct (graphql_tables s)"
  using assms
proof (induction)
  case no_mounts
  then show ?case by (simp add: initial_state_def)
next
  case (graphql_ddl s U sql d E s' outcome)
  from ApplyGraphqlExec_keeps [OF graphql_ddl(4)] GraphqlDdlParse_mount [OF graphql_ddl(2)] graphql_ddl(5) show ?case by blast
qed simp

section \<open>Examples\<close>

text \<open>A fifth clause after the tables is dropped without a message, here the one that asks for authentication.\<close>

lemma fifth_clause_ignored:
  "mount_clauses ascii_util 4 ''LIMIT 1 LIMIT 2 LIMIT 3 LIMIT 4 REQUIRE admin'' (graphql_statement_data ''CREATE_ROUTE'') =
     Inr ((graphql_statement_data ''CREATE_ROUTE'')\<lparr>gp_limit := 4, gp_has_limit := True\<rparr>)"
  by code_simp

definition pets_catalog :: "nat graphql_env" where
  "pets_catalog = \<lparr>gv_policies = people_env, gv_catalog = Inr [\<lparr>go_database = ''db'', go_schema = ''main'', go_name = ''pets'', go_columns = [''id'']\<rparr>],
     gv_allow_all = None, gv_expired = (False, False), gv_extract = (\<lambda>_. Inr None), gv_prepare = (\<lambda>_ _. Inr []),
     gv_execute = (\<lambda>n _ _. (n + 1, Inr (Some ''[]'')))\<rparr>"

definition pets_twice :: GraphqlDdlParseData where
  "pets_twice = (graphql_statement_data ''CREATE'')\<lparr>gp_tables := [''pets'', ''pets'']\<rparr>"

lemma pets_twice_statement: "GraphqlDdlParse ascii_util ''CREATE GRAPHQL FOR TABLE pets, pets'' = PARSE_SUCCESSFUL pets_twice"
  by code_simp

text \<open>A statement that names a table twice fails after it has registered it.\<close>

lemma failed_statement_registers:
  "ApplyGraphqlExec pets_catalog pets_twice initial_state =
     (initial_state\<lparr>graphql_tables := [''pets'']\<rparr>,
      Inl (InvalidInput ''GraphQL table already registered, use CREATE OR REPLACE GRAPHQL FOR TABLE'' [''pets'']))"
  by (simp add: ApplyGraphqlExec_def create_tables_def pets_twice_def graphql_statement_data_def AddGraphqlTable_def initial_state_def
    TableExists_def LoadGraphqlCatalog_def pets_catalog_def SnapshotGraphqlTables_def)

theorem declared_mounts_well_formed_witness: "distinct (graphql_tables (initial_state\<lparr>graphql_tables := [''pets'']\<rparr> :: nat QuackapiState))"
  using declared_mounts_well_formed [OF graphql_ddl [OF no_mounts pets_twice_statement _ failed_statement_registers, of UNIV]] by simp

end
