(* ===== verification/Deadlines.thy ===== *)
theory Deadlines
  imports Util
begin

text \<open>
  Deadlines and budgets of queries (\<open>src/src/quackapi_limits.cpp\<close>): the guards that bound a connection's
  queries, the watchdog that interrupts connections, and the budgets a request hands to nested calls. A
  time is a count of nanoseconds of the steady clock, kept in 64 bits. The objects that a guard and the
  watchdog share live in a store, so that the watchdog's weak pointers are its keys.
\<close>

section \<open>Times\<close>

definition wrap64 :: "int \<Rightarrow> int" where
  "wrap64 n = (n + 2 ^ 63) mod 2 ^ 64 - 2 ^ 63"

definition TIME_MAX :: int where
  "TIME_MAX = 2 ^ 63 - 1"

definition after_ms :: "int \<Rightarrow> int \<Rightarrow> int" where
  "after_ms now ms = wrap64 (now + wrap64 (ms * 1000000))"

text \<open>\<open>duration_cast\<close> truncates towards zero.\<close>

definition in_ms :: "int \<Rightarrow> int" where
  "in_ms t = (if 0 \<le> t then t div 1000000 else - (- t div 1000000))"

section \<open>Budgets\<close>

record QuackapiContextBudget =
  bu_deadline :: int
  bu_query_timeout_ms :: int
  bu_max_response_bytes :: int

definition new_budget :: QuackapiContextBudget where
  "new_budget = \<lparr>bu_deadline = TIME_MAX, bu_query_timeout_ms = 0, bu_max_response_bytes = 0\<rparr>"

text \<open>The start of a query: the deadline the engine checks itself, in milliseconds, is tightened.\<close>

definition QueryBegin :: "QuackapiContextBudget \<Rightarrow> int option \<Rightarrow> int option" where
  "QueryBegin b query_deadline =
     (if bu_deadline b = TIME_MAX then query_deadline
      else let native_deadline = max 0 (in_ms (bu_deadline b) + 1)
           in case query_deadline of
                None \<Rightarrow> Some native_deadline
              | Some q \<Rightarrow> if native_deadline < q then Some native_deadline else Some q)"

section \<open>The state\<close>

text \<open>
  \<open>dl_probe\<close> says that a probe for the client's disconnection is installed, \<open>cn_action\<close> that the action
  has not been taken yet; what probes answer is an input of the watchdog.
\<close>

record 'c QuackapiDeadlineState =
  dl_connection :: "'c option"
  dl_parent :: "'c option"
  dl_deadline :: int
  dl_expired :: bool
  dl_disconnected :: bool
  dl_probe :: bool

record 'c QuackapiCancellationState =
  cn_context :: "'c option"
  cn_action :: bool

record 'c limits =
  lm_current :: "nat \<Rightarrow> int"
  lm_budgets :: "'c \<Rightarrow> QuackapiContextBudget option"
  lm_states :: "nat \<Rightarrow> 'c QuackapiDeadlineState option"
  lm_watched :: "nat list"
  lm_cancels :: "nat \<Rightarrow> 'c QuackapiCancellationState option"
  lm_watched_cancels :: "nat list"
  lm_fresh :: nat

definition no_limits :: "'c limits" where
  "no_limits = \<lparr>lm_current = (\<lambda>th. TIME_MAX), lm_budgets = (\<lambda>c. None), lm_states = (\<lambda>i. None), lm_watched = [],
     lm_cancels = (\<lambda>i. None), lm_watched_cancels = [], lm_fresh = 0\<rparr>"

definition BudgetOf :: "'c \<Rightarrow> 'c limits \<Rightarrow> QuackapiContextBudget option" where
  "BudgetOf c lm = lm_budgets lm c"

definition BudgetFor :: "'c \<Rightarrow> 'c limits \<Rightarrow> QuackapiContextBudget" where
  "BudgetFor c lm = (case lm_budgets lm c of Some b \<Rightarrow> b | None \<Rightarrow> new_budget)"

section \<open>Guards\<close>

record 'c QuackapiQueryDeadline =
  qd_state :: nat
  qd_budget :: 'c
  qd_budget_previous :: int
  qd_previous :: int
  qd_thread_affine :: bool

definition watch_deadline :: "'c QuackapiDeadlineState \<Rightarrow> 'c limits \<Rightarrow> 'c limits" where
  "watch_deadline st lm =
     lm\<lparr>lm_states := (lm_states lm)(lm_fresh lm \<mapsto> st),
        lm_watched := filter (\<lambda>i. lm_states lm i \<noteq> None) (lm_watched lm) @ [lm_fresh lm], lm_fresh := lm_fresh lm + 1\<rparr>"

definition Start :: "nat \<Rightarrow> bool \<Rightarrow> 'c \<Rightarrow> int \<Rightarrow> 'c option \<Rightarrow> 'c limits \<Rightarrow> 'c limits \<times> 'c QuackapiQueryDeadline" where
  "Start th affine c deadline parent lm =
     (let b = BudgetFor c lm
      in (watch_deadline \<lparr>dl_connection = Some c, dl_parent = parent, dl_deadline = deadline, dl_expired = False,
            dl_disconnected = False, dl_probe = False\<rparr>
            (lm\<lparr>lm_budgets := (lm_budgets lm)(c \<mapsto> b\<lparr>bu_deadline := deadline\<rparr>),
                lm_current := (if affine then (lm_current lm)(th := deadline) else lm_current lm)\<rparr>),
          \<lparr>qd_state = lm_fresh lm, qd_budget = c, qd_budget_previous = bu_deadline b, qd_previous = lm_current lm th,
           qd_thread_affine = affine\<rparr>))"

text \<open>The two constructors; the first never extends the deadline of the thread.\<close>

definition QuackapiTimeoutDeadline :: "nat \<Rightarrow> int \<Rightarrow> 'c \<Rightarrow> int \<Rightarrow> 'c limits \<Rightarrow> 'c limits \<times> 'c QuackapiQueryDeadline" where
  "QuackapiTimeoutDeadline th now c timeout_ms lm =
     Start th True c (min (lm_current lm th) (after_ms now timeout_ms)) None lm"

definition QuackapiAbsoluteDeadline :: "nat \<Rightarrow> 'c \<Rightarrow> int \<Rightarrow> 'c option \<Rightarrow> bool \<Rightarrow> 'c limits \<Rightarrow> 'c limits \<times> 'c QuackapiQueryDeadline" where
  "QuackapiAbsoluteDeadline th c deadline parent thread_affine lm = Start th thread_affine c deadline parent lm"

text \<open>
  The destructor: the budget's deadline is restored only if no later guard has replaced it. The state
  goes with its last strong pointer.
\<close>

definition EndDeadline :: "nat \<Rightarrow> 'c QuackapiQueryDeadline \<Rightarrow> 'c limits \<Rightarrow> 'c limits" where
  "EndDeadline th g lm = (case lm_states lm (qd_state g) of
     None \<Rightarrow> lm
   | Some st \<Rightarrow>
       let b = BudgetFor (qd_budget g) lm;
           b' = (if bu_deadline b = dl_deadline st then b\<lparr>bu_deadline := qd_budget_previous g\<rparr> else b)
       in lm\<lparr>lm_states := (lm_states lm)(qd_state g := None), lm_budgets := (lm_budgets lm)(qd_budget g \<mapsto> b'),
             lm_current := (if qd_thread_affine g then (lm_current lm)(th := qd_previous g) else lm_current lm)\<rparr>)"

definition Expired :: "int \<Rightarrow> 'c QuackapiDeadlineState \<Rightarrow> bool" where
  "Expired now st = (dl_expired st \<or> now \<ge> dl_deadline st)"

definition WatchDisconnect :: "'c QuackapiQueryDeadline \<Rightarrow> 'c limits \<Rightarrow> 'c limits" where
  "WatchDisconnect g lm = lm\<lparr>lm_states := (lm_states lm)(qd_state g := map_option (dl_probe_update (\<lambda>_. True)) (lm_states lm (qd_state g)))\<rparr>"

definition QuackapiCancellationGuard :: "'c \<Rightarrow> 'c limits \<Rightarrow> 'c limits \<times> nat" where
  "QuackapiCancellationGuard context lm =
     (lm\<lparr>lm_cancels := (lm_cancels lm)(lm_fresh lm \<mapsto> \<lparr>cn_context = Some context, cn_action = True\<rparr>),
         lm_watched_cancels := filter (\<lambda>i. lm_cancels lm i \<noteq> None) (lm_watched_cancels lm) @ [lm_fresh lm],
         lm_fresh := lm_fresh lm + 1\<rparr>, lm_fresh lm)"

definition EndCancellation :: "nat \<Rightarrow> 'c limits \<Rightarrow> 'c limits" where
  "EndCancellation i lm = lm\<lparr>lm_cancels := (lm_cancels lm)(i := None)\<rparr>"

section \<open>The watchdog\<close>

text \<open>
  What a round meets: the time, the answers of the probes, and the contexts that are already
  interrupted. An interruption sets the flag at once, so later states of the round see it.
\<close>

record 'c watch_env =
  we_now :: int
  we_probe :: "nat \<Rightarrow> bool"
  we_interrupted :: "'c \<Rightarrow> bool"

definition watch_state :: "'c watch_env \<Rightarrow> nat \<Rightarrow> 'c QuackapiDeadlineState \<Rightarrow> 'c list \<Rightarrow> 'c QuackapiDeadlineState \<times> 'c list" where
  "watch_state E i st interrupts = (case dl_connection st of
     None \<Rightarrow> (st, interrupts)
   | Some c \<Rightarrow>
       if we_now E \<ge> dl_deadline st then (st\<lparr>dl_expired := True\<rparr>, interrupts @ [c])
       else if dl_disconnected st \<or> dl_probe st \<and> we_probe E i then (st\<lparr>dl_disconnected := True\<rparr>, interrupts @ [c])
       else case dl_parent st of
         Some p \<Rightarrow> if we_interrupted E p \<or> p \<in> set interrupts then (st, interrupts @ [c]) else (st, interrupts)
       | None \<Rightarrow> (st, interrupts))"

fun watch_states :: "'c watch_env \<Rightarrow> nat list \<Rightarrow> (nat \<Rightarrow> 'c QuackapiDeadlineState option) \<Rightarrow> 'c list
    \<Rightarrow> nat list \<times> (nat \<Rightarrow> 'c QuackapiDeadlineState option) \<times> 'c list" where
  "watch_states E [] sts interrupts = ([], sts, interrupts)"
| "watch_states E (i # is) sts interrupts = (case sts i of
     None \<Rightarrow> watch_states E is sts interrupts
   | Some st \<Rightarrow> (case watch_state E i st interrupts of (st', interrupts') \<Rightarrow>
       case watch_states E is (sts(i \<mapsto> st')) interrupts' of (kept, sts', interrupts'') \<Rightarrow> (i # kept, sts', interrupts'')))"

text \<open>The actions a round takes, by their keys; a moved action is gone, whether it throws or not.\<close>

definition cancel_due :: "('c \<Rightarrow> bool) \<Rightarrow> 'c QuackapiCancellationState \<Rightarrow> bool" where
  "cancel_due interrupted cn = (case cn_context cn of Some c \<Rightarrow> cn_action cn \<and> interrupted c | None \<Rightarrow> False)"

fun watch_cancels :: "('c \<Rightarrow> bool) \<Rightarrow> nat list \<Rightarrow> (nat \<Rightarrow> 'c QuackapiCancellationState option)
    \<Rightarrow> nat list \<times> (nat \<Rightarrow> 'c QuackapiCancellationState option) \<times> nat list" where
  "watch_cancels interrupted [] cns = ([], cns, [])"
| "watch_cancels interrupted (i # is) cns = (case cns i of
     None \<Rightarrow> watch_cancels interrupted is cns
   | Some cn \<Rightarrow>
       case watch_cancels interrupted is (if cancel_due interrupted cn then cns(i \<mapsto> cn\<lparr>cn_action := False\<rparr>) else cns) of
         (kept, cns', acted) \<Rightarrow> (i # kept, cns', (if cancel_due interrupted cn then [i] else []) @ acted))"

definition watchdog_round :: "'c watch_env \<Rightarrow> 'c limits \<Rightarrow> 'c limits \<times> 'c list \<times> nat list" where
  "watchdog_round E lm = (case watch_states E (lm_watched lm) (lm_states lm) [] of (kept, sts, interrupts) \<Rightarrow>
     case watch_cancels (\<lambda>c. we_interrupted E c \<or> c \<in> set interrupts) (lm_watched_cancels lm) (lm_cancels lm) of
       (kept_cancels, cns, acted) \<Rightarrow>
         (lm\<lparr>lm_watched := kept, lm_states := sts, lm_watched_cancels := kept_cancels, lm_cancels := cns\<rparr>, interrupts, acted))"

section \<open>Reading the limits\<close>

definition QuackapiRemainingTimeoutMillis :: "nat \<Rightarrow> int \<Rightarrow> int \<Rightarrow> 'c limits \<Rightarrow> int" where
  "QuackapiRemainingTimeoutMillis th now fallback_ms lm =
     (if lm_current lm th = TIME_MAX then fallback_ms
      else max 1 (min fallback_ms (in_ms (wrap64 (lm_current lm th - now)))))"

definition Disconnected :: "'c QuackapiDeadlineState \<Rightarrow> bool" where
  "Disconnected st = dl_disconnected st"

definition QuackapiCurrentDeadline :: "nat \<Rightarrow> 'c limits \<Rightarrow> int" where
  "QuackapiCurrentDeadline th lm = lm_current lm th"

definition QuackapiSetCurrentDeadline :: "nat \<Rightarrow> int \<Rightarrow> 'c limits \<Rightarrow> 'c limits" where
  "QuackapiSetCurrentDeadline th deadline lm = lm\<lparr>lm_current := (lm_current lm)(th := deadline)\<rparr>"

text \<open>\<open>query_deadline\<close> is the engine's own deadline of the context, in milliseconds.\<close>

definition QuackapiContextDeadline :: "nat \<Rightarrow> 'c \<Rightarrow> int option \<Rightarrow> 'c limits \<Rightarrow> int" where
  "QuackapiContextDeadline th c query_deadline lm =
     (let deadline = (case BudgetOf c lm of
            None \<Rightarrow> lm_current lm th | Some b \<Rightarrow> min (lm_current lm th) (bu_deadline b))
      in case query_deadline of
           None \<Rightarrow> deadline
         | Some q \<Rightarrow> if in_ms deadline \<ge> 0 \<and> q \<le> in_ms deadline then q * 1000000 else deadline)"

definition QuackapiSetServingBudget :: "'c \<Rightarrow> int \<Rightarrow> int \<Rightarrow> 'c limits \<Rightarrow> 'c limits" where
  "QuackapiSetServingBudget c query_timeout_ms max_response_bytes lm =
     lm\<lparr>lm_budgets := (lm_budgets lm)(c \<mapsto> (BudgetFor c lm)\<lparr>bu_query_timeout_ms := query_timeout_ms, bu_max_response_bytes := max_response_bytes\<rparr>)\<rparr>"

definition QuackapiGetServingBudget :: "'c \<Rightarrow> 'c limits \<Rightarrow> (int \<times> int) option" where
  "QuackapiGetServingBudget c lm = (case BudgetOf c lm of
     None \<Rightarrow> None
   | Some b \<Rightarrow> if bu_query_timeout_ms b \<le> 0 then None else Some (bu_query_timeout_ms b, bu_max_response_bytes b))"

section \<open>Guards nest\<close>

text \<open>What a thread does under guards: each guard encloses what runs before its destructor.\<close>

datatype 'c guarded =
    TIMEOUT_GUARD int 'c int "'c guarded list"
  | ABSOLUTE_GUARD 'c int "'c option" bool "'c guarded list"
  | WATCHDOG_RUNS "'c watch_env"
  | SERVING_BUDGET 'c int int

fun run_guarded :: "nat \<Rightarrow> 'c guarded \<Rightarrow> 'c limits \<Rightarrow> 'c limits" where
  "run_guarded th (TIMEOUT_GUARD now c timeout_ms gs) lm =
     (case QuackapiTimeoutDeadline th now c timeout_ms lm of (lm', g) \<Rightarrow> EndDeadline th g (fold (run_guarded th) gs lm'))"
| "run_guarded th (ABSOLUTE_GUARD c deadline parent affine gs) lm =
     (case QuackapiAbsoluteDeadline th c deadline parent affine lm of (lm', g) \<Rightarrow> EndDeadline th g (fold (run_guarded th) gs lm'))"
| "run_guarded th (WATCHDOG_RUNS E) lm = fst (watchdog_round E lm)"
| "run_guarded th (SERVING_BUDGET c timeout_ms max_bytes) lm = QuackapiSetServingBudget c timeout_ms max_bytes lm"

text \<open>What a block of code leaves as it found it: the deadlines, and those of the guards that were open.\<close>

definition deadline_of :: "'c limits \<Rightarrow> nat \<Rightarrow> int option" where
  "deadline_of lm i = map_option dl_deadline (lm_states lm i)"

definition keeps_deadlines :: "nat \<Rightarrow> 'c limits \<Rightarrow> 'c limits \<Rightarrow> bool" where
  "keeps_deadlines th lm lm' =
     (lm_current lm' th = lm_current lm th \<and> (\<forall>c. bu_deadline (BudgetFor c lm') = bu_deadline (BudgetFor c lm)) \<and>
      (\<forall>i < lm_fresh lm. deadline_of lm' i = deadline_of lm i) \<and> lm_fresh lm \<le> lm_fresh lm')"

lemma keeps_deadlines_refl: "keeps_deadlines th lm lm"
  by (simp add: keeps_deadlines_def)

lemma keeps_deadlines_trans: "keeps_deadlines th lm lm1 \<Longrightarrow> keeps_deadlines th lm1 lm2 \<Longrightarrow> keeps_deadlines th lm lm2"
  by (simp add: keeps_deadlines_def)

lemma watch_state_deadline: "watch_state E i st ints = (st', ints') \<Longrightarrow> dl_deadline st' = dl_deadline st \<and> dl_connection st' = dl_connection st"
  by (auto simp: watch_state_def split: option.splits if_splits)

lemma watch_states_deadline:
  "watch_states E is sts ints = (kept, sts', ints') \<Longrightarrow>
    map_option dl_deadline (sts' i) = map_option dl_deadline (sts i) \<and> map_option dl_connection (sts' i) = map_option dl_connection (sts i)"
proof (induction "is" arbitrary: sts ints kept)
  case (Cons j js)
  show ?case
  proof (cases "sts j")
    case (Some st)
    obtain st1 ints1 where w: "watch_state E j st ints = (st1, ints1)" by fastforce
    then obtain kept1 where "watch_states E js (sts(j \<mapsto> st1)) ints1 = (kept1, sts', ints')"
      using Cons.prems Some by (auto split: prod.splits)
    from Cons.IH [OF this] watch_state_deadline [OF w] Some show ?thesis by auto
  qed (use Cons in auto)
qed simp

lemma watchdog_round_keeps: "keeps_deadlines th lm (fst (watchdog_round E lm))"
  using watch_states_deadline [of E "lm_watched lm" "lm_states lm" "[]"]
  by (auto simp: keeps_deadlines_def watchdog_round_def deadline_of_def BudgetFor_def split: prod.splits)

lemma guard_keeps:
  assumes "Start th affine c deadline parent lm = (lm1, g)" and "keeps_deadlines th lm1 lm2"
  shows "keeps_deadlines th lm (EndDeadline th g lm2)"
proof -
  have g: "qd_state g = lm_fresh lm" "qd_budget g = c" "qd_budget_previous g = bu_deadline (BudgetFor c lm)"
      "qd_previous g = lm_current lm th" "qd_thread_affine g = affine"
    and lm1: "deadline_of lm1 (lm_fresh lm) = Some deadline" "bu_deadline (BudgetFor c lm1) = deadline" "lm_fresh lm1 = lm_fresh lm + 1"
      "\<And>d. d \<noteq> c \<Longrightarrow> bu_deadline (BudgetFor d lm1) = bu_deadline (BudgetFor d lm)" "\<And>i. i < lm_fresh lm \<Longrightarrow> deadline_of lm1 i = deadline_of lm i"
      "\<not> affine \<Longrightarrow> lm_current lm1 th = lm_current lm th"
    using assms(1) by (auto simp: Start_def watch_deadline_def deadline_of_def BudgetFor_def Let_def)
  have "deadline_of lm2 (lm_fresh lm) = Some deadline" using assms(2) lm1 by (auto simp: keeps_deadlines_def)
  then obtain st where st: "lm_states lm2 (lm_fresh lm) = Some st" "dl_deadline st = deadline" by (auto simp: deadline_of_def)
  have "bu_deadline (BudgetFor c lm2) = deadline" using assms(2) lm1 by (auto simp: keeps_deadlines_def)
  then show ?thesis using assms(2) g st lm1
    by (auto simp: keeps_deadlines_def EndDeadline_def Let_def BudgetFor_def deadline_of_def)
qed

lemma keeps_deadlines_fold: "(\<And>x lm. x \<in> set xs \<Longrightarrow> keeps_deadlines th lm (f x lm)) \<Longrightarrow> keeps_deadlines th lm (fold f xs lm)"
  by (induction xs arbitrary: lm) (auto intro: keeps_deadlines_refl keeps_deadlines_trans)

lemma run_guarded_keeps: "keeps_deadlines th lm (run_guarded th g lm)"
proof (induction g arbitrary: lm)
  case (TIMEOUT_GUARD now c timeout_ms gs)
  then show ?case
    by (auto simp: QuackapiTimeoutDeadline_def intro!: guard_keeps keeps_deadlines_fold split: prod.splits)
next
  case (ABSOLUTE_GUARD c deadline parent affine gs)
  then show ?case
    by (auto simp: QuackapiAbsoluteDeadline_def intro!: guard_keeps keeps_deadlines_fold split: prod.splits)
qed (simp_all add: watchdog_round_keeps, simp add: keeps_deadlines_def QuackapiSetServingBudget_def BudgetFor_def deadline_of_def split: option.splits)

text \<open>
  Guards nest: whatever a thread ran under guards, of any connections and with the watchdog at
  work meanwhile, the thread's deadline and the budget's deadline of every connection are then what they were before.
\<close>

theorem nested_guards_restore:
  "lm_current (fold (run_guarded th) gs lm) th = lm_current lm th \<and>
   bu_deadline (BudgetFor c (fold (run_guarded th) gs lm)) = bu_deadline (BudgetFor c lm)"
proof -
  have "keeps_deadlines th lm (fold (run_guarded th) gs lm)" by (intro keeps_deadlines_fold run_guarded_keeps)
  then show ?thesis by (simp add: keeps_deadlines_def)
qed

section \<open>Histories\<close>

datatype 'c limits_op =
    OPEN_DEADLINE nat bool 'c int "'c option"
  | CLOSE_DEADLINE nat "'c QuackapiQueryDeadline"
  | WATCH_DISCONNECT "'c QuackapiQueryDeadline"
  | OPEN_CANCELLATION 'c
  | CLOSE_CANCELLATION nat
  | ROUND "'c watch_env"
  | SET_SERVING 'c int int
  | SET_CURRENT nat int

text \<open>An operation yields the state, the connections it interrupts and the keys of the actions it takes.\<close>

fun limits_step :: "'c limits_op \<Rightarrow> 'c limits \<Rightarrow> 'c limits \<times> 'c list \<times> nat list" where
  "limits_step (OPEN_DEADLINE th affine c deadline parent) lm = (fst (Start th affine c deadline parent lm), [], [])"
| "limits_step (CLOSE_DEADLINE th g) lm = (EndDeadline th g lm, [], [])"
| "limits_step (WATCH_DISCONNECT g) lm = (WatchDisconnect g lm, [], [])"
| "limits_step (OPEN_CANCELLATION c) lm = (fst (QuackapiCancellationGuard c lm), [], [])"
| "limits_step (CLOSE_CANCELLATION i) lm = (EndCancellation i lm, [], [])"
| "limits_step (ROUND E) lm = watchdog_round E lm"
| "limits_step (SET_SERVING c timeout_ms max_bytes) lm = (QuackapiSetServingBudget c timeout_ms max_bytes lm, [], [])"
| "limits_step (SET_CURRENT th deadline) lm = (QuackapiSetCurrentDeadline th deadline lm, [], [])"

fun run_limits :: "'c limits_op list \<Rightarrow> 'c limits \<Rightarrow> 'c limits \<times> nat list" where
  "run_limits [] lm = (lm, [])"
| "run_limits (op # ops) lm = (case limits_step op lm of (lm', _, acted) \<Rightarrow>
     (case run_limits ops lm' of (lm'', rest) \<Rightarrow> (lm'', acted @ rest)))"

text \<open>The watchdog knows every open guard.\<close>

definition all_watched :: "'c limits \<Rightarrow> bool" where
  "all_watched lm =
     ((\<forall>i st. lm_states lm i = Some st \<longrightarrow> i \<in> set (lm_watched lm) \<and> i < lm_fresh lm \<and> dl_connection st \<noteq> None) \<and>
      (\<forall>i cn. lm_cancels lm i = Some cn \<longrightarrow> i \<in> set (lm_watched_cancels lm) \<and> i < lm_fresh lm \<and> cn_context cn \<noteq> None))"

lemma watch_states_kept:
  "watch_states E is sts ints = (kept, sts', ints') \<Longrightarrow> kept = filter (\<lambda>i. sts i \<noteq> None) is"
proof (induction "is" arbitrary: sts ints kept)
  case (Cons j js)
  show ?case
  proof (cases "sts j")
    case (Some st)
    obtain st1 ints1 where w: "watch_state E j st ints = (st1, ints1)" by fastforce
    then obtain kept1 where k: "watch_states E js (sts(j \<mapsto> st1)) ints1 = (kept1, sts', ints')" "kept = j # kept1"
      using Cons.prems Some by (auto split: prod.splits)
    from Cons.IH [OF k(1)] have "kept1 = filter (\<lambda>i. sts i \<noteq> None) js" using Some by (auto intro: filter_cong)
    with k(2) Some show ?thesis by simp
  qed (use Cons in auto)
qed simp

lemma watch_cancels_kept:
  "watch_cancels intr is cns = (kept, cns', acted) \<Longrightarrow>
    kept = filter (\<lambda>i. cns i \<noteq> None) is \<and> map_option cn_context (cns' i) = map_option cn_context (cns i)"
proof (induction "is" arbitrary: cns kept acted)
  case (Cons j js)
  show ?case
  proof (cases "cns j")
    case (Some cn)
    define cns1 where "cns1 = (if cancel_due intr cn then cns(j \<mapsto> cn\<lparr>cn_action := False\<rparr>) else cns)"
    obtain kept1 acted1 where k: "watch_cancels intr js cns1 = (kept1, cns', acted1)" "kept = j # kept1"
      using Cons.prems Some by (auto simp: cns1_def split: prod.splits)
    from Cons.IH [OF k(1)] k(2) Some show ?thesis by (auto simp: cns1_def intro: filter_cong split: if_splits)
  qed (use Cons in auto)
qed simp

text \<open>An action is taken from a guard that still has it, and is then gone from it.\<close>

lemma watch_cancels_acted:
  "watch_cancels intr is cns = (kept, cns', acted) \<Longrightarrow>
    distinct acted \<and> set acted \<subseteq> set is \<and>
    (\<forall>i \<in> set acted. \<exists>cn. cns i = Some cn \<and> cn_action cn \<and> (\<exists>c. cn_context cn = Some c \<and> intr c)) \<and>
    (\<forall>i. cns' i = (if i \<in> set acted then map_option (cn_action_update (\<lambda>_. False)) (cns i) else cns i))"
proof (induction "is" arbitrary: cns kept acted)
  case (Cons j js)
  show ?case
  proof (cases "cns j")
    case (Some cn)
    define act where "act = cancel_due intr cn"
    obtain kept1 acted1 where k: "watch_cancels intr js (if act then cns(j \<mapsto> cn\<lparr>cn_action := False\<rparr>) else cns) = (kept1, cns', acted1)"
      and a: "acted = (if act then [j] else []) @ acted1"
      using Cons.prems Some by (auto simp: act_def split: prod.splits)
    show ?thesis
    proof (cases act)
      case True
      then have ik: "\<exists>c. cn_context cn = Some c \<and> intr c" "cn_action cn" by (auto simp: act_def cancel_due_def split: option.splits)
      note ih = Cons.IH [OF k, simplified True if_True]
      have "j \<notin> set acted1" using ih by fastforce
      then show ?thesis using ih a True Some ik by (auto split: if_splits)
    qed (use Cons.IH [OF k] a in auto)
  next
    case None
    with Cons.prems have "watch_cancels intr js cns = (kept, cns', acted)" by simp
    from Cons.IH [OF this] show ?thesis by auto
  qed
qed simp

lemma watchdog_round_simps:
  assumes "watchdog_round E lm = (lm', interrupts, acted)"
  shows "lm_watched lm' = filter (\<lambda>i. lm_states lm i \<noteq> None) (lm_watched lm)"
    and "lm_watched_cancels lm' = filter (\<lambda>i. lm_cancels lm i \<noteq> None) (lm_watched_cancels lm)"
    and "lm_fresh lm' = lm_fresh lm"
    and "map_option dl_connection (lm_states lm' i) = map_option dl_connection (lm_states lm i)"
    and "lm_cancels lm' i = (if i \<in> set acted then map_option (cn_action_update (\<lambda>_. False)) (lm_cancels lm i) else lm_cancels lm i)"
    and "distinct acted"
    and "i \<in> set acted \<Longrightarrow> \<exists>cn c. lm_cancels lm i = Some cn \<and> cn_action cn \<and> cn_context cn = Some c \<and> (we_interrupted E c \<or> c \<in> set interrupts)"
proof -
  obtain kept sts kept_cancels cns where w: "watch_states E (lm_watched lm) (lm_states lm) [] = (kept, sts, interrupts)"
      "watch_cancels (\<lambda>c. we_interrupted E c \<or> c \<in> set interrupts) (lm_watched_cancels lm) (lm_cancels lm) = (kept_cancels, cns, acted)"
      "lm' = lm\<lparr>lm_watched := kept, lm_states := sts, lm_watched_cancels := kept_cancels, lm_cancels := cns\<rparr>"
    using assms by (auto simp: watchdog_round_def split: prod.splits)
  note facts = watch_states_kept [OF w(1)] watch_states_deadline [OF w(1)] watch_cancels_kept [OF w(2)] watch_cancels_acted [OF w(2)]
  show "lm_watched lm' = filter (\<lambda>i. lm_states lm i \<noteq> None) (lm_watched lm)"
    "lm_watched_cancels lm' = filter (\<lambda>i. lm_cancels lm i \<noteq> None) (lm_watched_cancels lm)" "lm_fresh lm' = lm_fresh lm"
    "map_option dl_connection (lm_states lm' i) = map_option dl_connection (lm_states lm i)"
    "lm_cancels lm' i = (if i \<in> set acted then map_option (cn_action_update (\<lambda>_. False)) (lm_cancels lm i) else lm_cancels lm i)"
    "distinct acted"
    using facts w(3) by auto
  show "\<exists>cn c. lm_cancels lm i = Some cn \<and> cn_action cn \<and> cn_context cn = Some c \<and> (we_interrupted E c \<or> c \<in> set interrupts)" if "i \<in> set acted"
    using facts(4) that by blast
qed

lemma limits_step_fresh: "lm_fresh lm \<le> lm_fresh (fst (limits_step op lm))"
proof (cases op)
  case (ROUND E)
  then show ?thesis using watchdog_round_simps(3) [of E lm] by (cases "watchdog_round E lm") auto
qed (auto simp: Start_def watch_deadline_def EndDeadline_def WatchDisconnect_def QuackapiCancellationGuard_def EndCancellation_def
  QuackapiSetServingBudget_def QuackapiSetCurrentDeadline_def Let_def split: option.splits)

lemma limits_step_watched:
  assumes "all_watched lm"
  shows "all_watched (fst (limits_step op lm))"
proof (cases op)
  case (ROUND E)
  obtain lm' ints acted where r: "watchdog_round E lm = (lm', ints, acted)" by (metis prod.exhaust)
  have "i \<in> set (lm_watched lm') \<and> i < lm_fresh lm' \<and> dl_connection st \<noteq> None" if "lm_states lm' i = Some st" for i st
    using watchdog_round_simps(1) [OF r] watchdog_round_simps(3) [OF r] watchdog_round_simps(4) [OF r, of i] that assms by (cases "lm_states lm i") (auto simp: all_watched_def)
  moreover have "i \<in> set (lm_watched_cancels lm') \<and> i < lm_fresh lm' \<and> cn_context cn \<noteq> None" if "lm_cancels lm' i = Some cn" for i cn
    using watchdog_round_simps(2) [OF r] watchdog_round_simps(3) [OF r] watchdog_round_simps(5) [OF r, of i] that assms by (cases "lm_cancels lm i") (auto simp: all_watched_def split: if_splits)
  ultimately show ?thesis using r ROUND by (simp add: all_watched_def)
qed (use assms in \<open>auto simp: all_watched_def Start_def watch_deadline_def EndDeadline_def WatchDisconnect_def QuackapiCancellationGuard_def
  EndCancellation_def QuackapiSetServingBudget_def QuackapiSetCurrentDeadline_def Let_def less_Suc_eq split: option.splits if_splits\<close>)

lemma run_limits_watched: "all_watched lm \<Longrightarrow> all_watched (fst (run_limits ops lm))"
proof (induction ops arbitrary: lm)
  case (Cons op ops)
  from Cons.IH [OF limits_step_watched [OF Cons.prems, of op]] show ?case by (auto split: prod.splits)
qed simp

lemma no_limits_watched: "all_watched no_limits"
  by (simp add: all_watched_def no_limits_def)

text \<open>Interruptions come from open guards, and every open guard past its deadline gets one.\<close>

lemma watch_state_interrupts:
  assumes "watch_state E i st ints = (st', ints')"
  shows "\<exists>more. ints' = ints @ more \<and> set more \<subseteq> set_option (dl_connection st)"
    and "dl_connection st = Some c \<Longrightarrow> dl_deadline st \<le> we_now E \<Longrightarrow> c \<in> set ints' \<and> dl_expired st'"
  using assms by (auto simp: watch_state_def split: option.splits if_splits)

definition open_connections :: "nat list \<Rightarrow> (nat \<Rightarrow> 'c QuackapiDeadlineState option) \<Rightarrow> 'c set" where
  "open_connections is sts = {c. \<exists>i \<in> set is. \<exists>st. sts i = Some st \<and> dl_connection st = Some c}"

lemma watch_states_interrupts:
  "watch_states E is sts ints = (kept, sts', ints') \<Longrightarrow> set ints \<subseteq> set ints' \<and> set ints' \<subseteq> set ints \<union> open_connections is sts"
proof (induction "is" arbitrary: sts ints kept)
  case (Cons j js)
  show ?case
  proof (cases "sts j")
    case (Some st)
    obtain st1 ints1 where w: "watch_state E j st ints = (st1, ints1)" by fastforce
    then obtain kept1 where k: "watch_states E js (sts(j \<mapsto> st1)) ints1 = (kept1, sts', ints')"
      using Cons.prems Some by (auto split: prod.splits)
    obtain more where m: "ints1 = ints @ more" "set more \<subseteq> set_option (dl_connection st)" using watch_state_interrupts(1) [OF w] by blast
    have "open_connections js (sts(j \<mapsto> st1)) \<subseteq> open_connections (j # js) sts"
      using Some watch_state_deadline [OF w] by (auto simp: open_connections_def split: if_splits)
    moreover have "set more \<subseteq> open_connections (j # js) sts" using m(2) Some by (auto simp: open_connections_def)
    ultimately show ?thesis using Cons.IH [OF k] unfolding m(1) set_append by blast
  next
    case None
    with Cons.prems have "watch_states E js sts ints = (kept, sts', ints')" by simp
    moreover have "open_connections js sts \<subseteq> open_connections (j # js) sts" by (auto simp: open_connections_def)
    ultimately show ?thesis using Cons.IH [of sts ints kept] by blast
  qed
qed simp

lemma watch_states_keep_expired:
  "watch_states E is sts ints = (kept, sts', ints') \<Longrightarrow> sts i = Some st \<Longrightarrow> dl_expired st \<Longrightarrow> \<exists>st'. sts' i = Some st' \<and> dl_expired st'"
proof (induction "is" arbitrary: sts ints kept st)
  case (Cons j js)
  show ?case
  proof (cases "sts j")
    case (Some sj)
    obtain s1 ints1 where w: "watch_state E j sj ints = (s1, ints1)" by fastforce
    then obtain kept1 where k: "watch_states E js (sts(j \<mapsto> s1)) ints1 = (kept1, sts', ints')"
      using Cons.prems Some by (auto split: prod.splits)
    have "dl_expired sj \<Longrightarrow> dl_expired s1" using w by (auto simp: watch_state_def split: option.splits if_splits)
    then show ?thesis using Cons.IH [OF k, of "if i = j then s1 else st"] Cons.prems(2,3) Some by (cases "i = j") auto
  qed (use Cons in auto)
qed simp

lemma watch_states_expires:
  "watch_states E is sts ints = (kept, sts', ints') \<Longrightarrow> i \<in> set is \<Longrightarrow> sts i = Some st \<Longrightarrow> dl_connection st = Some c \<Longrightarrow>
    dl_deadline st \<le> we_now E \<Longrightarrow> c \<in> set ints' \<and> (\<exists>st'. sts' i = Some st' \<and> dl_expired st')"
proof (induction "is" arbitrary: sts ints kept st)
  case (Cons j js)
  show ?case
  proof (cases "sts j")
    case (Some sj)
    obtain s1 ints1 where w: "watch_state E j sj ints = (s1, ints1)" by fastforce
    then obtain kept1 where k: "watch_states E js (sts(j \<mapsto> s1)) ints1 = (kept1, sts', ints')"
      using Cons.prems Some by (auto split: prod.splits)
    show ?thesis
    proof (cases "i = j")
      case True
      with watch_state_interrupts(2) [OF w] Some Cons.prems have "c \<in> set ints1" "dl_expired s1" by auto
      with watch_states_interrupts [OF k] watch_states_keep_expired [OF k, of i s1] True show ?thesis by auto
    next
      case False
      with Cons.IH [OF k, of st] Cons.prems show ?thesis by auto
    qed
  next
    case None
    with Cons.prems have "i \<in> set js" "watch_states E js sts ints = (kept, sts', ints')" by auto
    from Cons.IH [OF this(2,1)] Cons.prems show ?thesis by blast
  qed
qed simp

text \<open>
  C19. No guard escapes the watchdog: in every history, a round interrupts the connection of each open guard
  whose deadline has passed and records it as expired, and it interrupts only connections of open guards.
\<close>

theorem overdue_queries_interrupted:
  assumes "watchdog_round E (fst (run_limits ops no_limits)) = (lm', interrupts, acted)"
  shows "(\<forall>i st. lm_states (fst (run_limits ops no_limits)) i = Some st \<longrightarrow> dl_deadline st \<le> we_now E \<longrightarrow>
      (\<exists>c. dl_connection st = Some c \<and> c \<in> set interrupts) \<and> (\<exists>st'. lm_states lm' i = Some st' \<and> dl_expired st')) \<and>
    (\<forall>c \<in> set interrupts. \<exists>i st. lm_states (fst (run_limits ops no_limits)) i = Some st \<and> dl_connection st = Some c)"
proof -
  let ?lm = "fst (run_limits ops no_limits)"
  obtain kept where w: "watch_states E (lm_watched ?lm) (lm_states ?lm) [] = (kept, lm_states lm', interrupts)"
    using assms by (auto simp: watchdog_round_def split: prod.splits)
  have all: "all_watched ?lm" by (rule run_limits_watched [OF no_limits_watched])
  have "(\<exists>c. dl_connection st = Some c \<and> c \<in> set interrupts) \<and> (\<exists>st'. lm_states lm' i = Some st' \<and> dl_expired st')"
    if "lm_states ?lm i = Some st" "dl_deadline st \<le> we_now E" for i st
  proof -
    from all that obtain c where "i \<in> set (lm_watched ?lm)" "dl_connection st = Some c" unfolding all_watched_def by blast
    with watch_states_expires [OF w _ that(1)] that(2) show ?thesis by auto
  qed
  moreover have "\<exists>i st. lm_states ?lm i = Some st \<and> dl_connection st = Some c" if "c \<in> set interrupts" for c
    using watch_states_interrupts [OF w] that unfolding open_connections_def by fastforce
  ultimately show ?thesis by blast
qed

text \<open>An action that has been taken, or whose guard has ended, is spent.\<close>

definition spent :: "'c limits \<Rightarrow> nat \<Rightarrow> bool" where
  "spent lm i = (i < lm_fresh lm \<and> (case lm_cancels lm i of Some cn \<Rightarrow> \<not> cn_action cn | None \<Rightarrow> True))"

lemma limits_step_spent:
  assumes "limits_step op lm = (lm', ints, acted)" and "all_watched lm"
  shows "distinct acted" and "i \<in> set acted \<Longrightarrow> \<not> spent lm i \<and> spent lm' i" and "spent lm i \<Longrightarrow> spent lm' i"
proof -
  have *: "distinct acted \<and> (i \<in> set acted \<longrightarrow> \<not> spent lm i \<and> spent lm' i) \<and> (spent lm i \<longrightarrow> spent lm' i)"
  proof (cases op)
    case (ROUND E)
    then have r: "watchdog_round E lm = (lm', ints, acted)" using assms(1) by simp
    show ?thesis
      using watchdog_round_simps(3,6) [OF r] watchdog_round_simps(5,7) [OF r, of i] assms(2)
      by (fastforce simp: spent_def all_watched_def split: option.splits if_splits)
  qed (use assms(1) in \<open>auto simp: spent_def Start_def watch_deadline_def EndDeadline_def WatchDisconnect_def QuackapiCancellationGuard_def
    EndCancellation_def QuackapiSetServingBudget_def QuackapiSetCurrentDeadline_def Let_def split: option.splits if_splits\<close>)
  show "distinct acted" "i \<in> set acted \<Longrightarrow> \<not> spent lm i \<and> spent lm' i" "spent lm i \<Longrightarrow> spent lm' i" using * by auto
qed

lemma run_limits_spent:
  "run_limits ops lm = (lm', acted) \<Longrightarrow> all_watched lm \<Longrightarrow> distinct acted \<and> (\<forall>i. spent lm i \<longrightarrow> i \<notin> set acted)"
proof (induction ops arbitrary: lm acted)
  case (Cons op ops)
  obtain lm1 ints acted1 where s: "limits_step op lm = (lm1, ints, acted1)" by (metis prod.exhaust)
  obtain lm2 acted2 where r: "run_limits ops lm1 = (lm2, acted2)" by fastforce
  have a: "acted = acted1 @ acted2" using Cons.prems(1) s r by simp
  have w1: "all_watched lm1" using limits_step_watched [OF Cons.prems(2), of op] s by simp
  have r': "run_limits ops lm1 = (lm', acted2)" using Cons.prems(1) s r by simp
  have ih: "distinct acted2" "\<forall>i. spent lm1 i \<longrightarrow> i \<notin> set acted2" using Cons.IH [OF r' w1] by auto
  show ?case using limits_step_spent [OF s Cons.prems(2)] ih a by fastforce
qed simp

text \<open>
  The action of a cancellation is taken at most once in every history, and never after its guard has ended.
\<close>

theorem cancellation_actions_once:
  "distinct (snd (run_limits ops no_limits)) \<and>
   (\<forall>i lm. run_limits before no_limits = (lm, earlier) \<longrightarrow> i < lm_fresh lm \<longrightarrow> i \<notin> set (snd (run_limits ops (EndCancellation i lm))))"
proof -
  have "i \<notin> set (snd (run_limits ops (EndCancellation i lm)))" if "run_limits before no_limits = (lm, earlier)" "i < lm_fresh lm" for i lm
  proof -
    have "all_watched lm" using run_limits_watched [OF no_limits_watched, of before] that(1) by simp
    then have "all_watched (EndCancellation i lm)" using limits_step_watched [of lm "CLOSE_CANCELLATION i"] by simp
    moreover have "spent (EndCancellation i lm) i" using that(2) by (simp add: spent_def EndCancellation_def)
    ultimately show ?thesis by (metis prod.collapse run_limits_spent)
  qed
  then show ?thesis by (metis no_limits_watched prod.collapse run_limits_spent)
qed

text \<open>
  The deadline that nested work inherits: no later than the thread's, the budget's or the engine's own
  (in whole milliseconds), and one of the three.
\<close>

theorem context_deadline_tightest:
  assumes "0 \<le> lm_current lm th" and "\<And>b. BudgetOf c lm = Some b \<Longrightarrow> 0 \<le> bu_deadline b"
  shows "QuackapiContextDeadline th c query_deadline lm \<le> lm_current lm th \<and>
    (\<forall>b. BudgetOf c lm = Some b \<longrightarrow> QuackapiContextDeadline th c query_deadline lm \<le> bu_deadline b) \<and>
    (\<forall>q. query_deadline = Some q \<longrightarrow> in_ms (QuackapiContextDeadline th c query_deadline lm) \<le> q)"
proof -
  define deadline where "deadline = (case BudgetOf c lm of None \<Rightarrow> lm_current lm th | Some b \<Rightarrow> min (lm_current lm th) (bu_deadline b))"
  have bounds: "0 \<le> deadline" "deadline \<le> lm_current lm th" "\<And>b. BudgetOf c lm = Some b \<Longrightarrow> deadline \<le> bu_deadline b"
    using assms by (auto simp: deadline_def split: option.splits)
  have ms: "q * 1000000 \<le> deadline" if "q \<le> deadline div 1000000" for q
    using that by presburger
  show ?thesis
    using bounds ms unfolding QuackapiContextDeadline_def Let_def deadline_def [symmetric]
    by (fastforce simp: in_ms_def split: option.splits if_splits)
qed

text \<open>Any timeout up to 2 ^ 40 ms, 34 years, is added exactly; larger ones wrap, and the deadline can then lie in the past.\<close>

lemma after_ms_exact:
  assumes "0 \<le> now" and "now < 2 ^ 62" and "0 \<le> ms" and "ms < 2 ^ 40"
  shows "after_ms now ms = now + ms * 1000000"
  using assms by (simp add: after_ms_def wrap64_def)

lemma huge_timeout_is_past: "after_ms 5000000 (2 ^ 63 - 1) = 4000000"
  by (simp add: after_ms_def wrap64_def)

lemma remaining_timeout_bounds:
  "0 < fallback_ms \<Longrightarrow> 1 \<le> QuackapiRemainingTimeoutMillis th now fallback_ms lm \<and> QuackapiRemainingTimeoutMillis th now fallback_ms lm \<le> fallback_ms"
  by (auto simp: QuackapiRemainingTimeoutMillis_def)

section \<open>Witnesses\<close>

definition late_round :: "nat watch_env" where
  "late_round = \<lparr>we_now = 200, we_probe = (\<lambda>i. False), we_interrupted = (\<lambda>c. c = 3)\<rparr>"

theorem overdue_queries_interrupted_witness:
  "7 \<in> set (fst (snd (watchdog_round late_round (fst (run_limits [OPEN_DEADLINE 0 True 7 100 None, OPEN_CANCELLATION 3] no_limits)))))"
proof -
  let ?ops = "[OPEN_DEADLINE 0 True 7 100 None, OPEN_CANCELLATION 3] :: nat limits_op list"
  obtain lm' ints acted where r: "watchdog_round late_round (fst (run_limits ?ops no_limits)) = (lm', ints, acted)" by (metis prod.exhaust)
  obtain st where "lm_states (fst (run_limits ?ops no_limits)) 0 = Some st" "dl_deadline st = 100" "dl_connection st = Some 7"
    by (simp add: Start_def watch_deadline_def QuackapiCancellationGuard_def no_limits_def Let_def)
  with overdue_queries_interrupted [OF r] have "7 \<in> set ints" by (fastforce simp: late_round_def)
  with r show ?thesis by simp
qed

theorem cancellation_actions_once_witness:
  "0 \<notin> set (snd (run_limits [ROUND late_round] (EndCancellation 0 (fst (run_limits [OPEN_CANCELLATION 3] no_limits)))))"
proof -
  let ?r = "run_limits [OPEN_CANCELLATION 3] no_limits :: nat limits \<times> nat list"
  have "?r = (fst ?r, snd ?r)" "0 < lm_fresh (fst ?r)" by (simp_all add: QuackapiCancellationGuard_def)
  then show ?thesis using cancellation_actions_once [of "[ROUND late_round]" "[OPEN_CANCELLATION 3]" "snd ?r"] by blast
qed

theorem context_deadline_tightest_witness:
  "QuackapiContextDeadline 0 (7 :: nat) (Some 1) (fst (Start 0 True 7 5000000 None no_limits)) \<le> 5000000"
  using context_deadline_tightest [of "fst (Start 0 True (7 :: nat) 5000000 None no_limits)" 0 7 "Some 1"]
  by (auto simp: Start_def watch_deadline_def no_limits_def BudgetOf_def new_budget_def BudgetFor_def Let_def)

end
