(* ===== verification/HttpFetch.thy ===== *)
theory HttpFetch
  imports Negotiate Serialize Deadlines "HOL-Library.AList" "HOL-Library.Multiset"
begin

text \<open>
  Outgoing HTTP (\<open>src/src/quackapi_http_fetch.cpp\<close>): the negotiation of the response's format, the pool of
  idle connections, one call with a pooled connection, and the calls of a chunk of rows. The transports
  (the vendored client and DuckDB's \<open>HTTPUtil\<close>), the decoders of Arrow and Parquet and the scheduler are
  parameters. An \<open>unordered_map\<close> is a list of entries in the order of its iteration.
\<close>

section \<open>The format of a response\<close>

datatype ResponseFormat = RAW | ARROW | PARQUET

definition ParseResponseFormat :: "string_util \<Rightarrow> string \<Rightarrow> ResponseFormat result" where
  "ParseResponseFormat U format =
     (if format = [] \<or> su_lower U format = ''raw'' then Inr RAW
      else if su_lower U format = ''arrow'' then Inr ARROW
      else if su_lower U format = ''parquet'' then Inr PARQUET
      else Inl (InvalidInput ''response_format must be raw, arrow, or parquet'' []))"

definition ExpectedResponseType :: "ResponseFormat \<Rightarrow> string" where
  "ExpectedResponseType format = (if format = ARROW then ''application/vnd.apache.arrow.stream'' else ''application/vnd.apache.parquet'')"

text \<open>\<open>stod\<close> yields the number and how many characters it has read, or throws.\<close>

definition range_match :: "string \<Rightarrow> string \<Rightarrow> int" where
  "range_match media expected = (if media = expected then 2 else if media = ''application/*'' then 1 else if media = ''*/*'' then 0 else - 1)"

definition range_q :: "string_util \<Rightarrow> (string \<Rightarrow> (double \<times> nat) option) \<Rightarrow> string \<Rightarrow> rat" where
  "range_q U stod raw = (let value = QuackapiTrim U raw in case stod value of
     Some (Fin q, read) \<Rightarrow> if read \<noteq> length value \<or> \<not> (q \<ge> 0 \<and> q \<le> 1) then 0 else q
   | _ \<Rightarrow> 0)"

fun range_quality :: "string_util \<Rightarrow> (string \<Rightarrow> (double \<times> nat) option) \<Rightarrow> string list \<Rightarrow> rat \<Rightarrow> rat" where
  "range_quality U stod [] quality = quality"
| "range_quality U stod (part # parts) quality = (case su_split U part (CHR ''='') of
     [name, value] \<Rightarrow> range_quality U stod parts (if QuackapiTrim U name \<noteq> ''q'' then quality else range_q U stod value)
   | _ \<Rightarrow> range_quality U stod parts quality)"

text \<open>The most specific match so far and its quality.\<close>

definition accept_range :: "string_util \<Rightarrow> (string \<Rightarrow> (double \<times> nat) option) \<Rightarrow> string \<Rightarrow> string \<Rightarrow> int \<times> rat \<Rightarrow> int \<times> rat" where
  "accept_range U stod expected entry best = (case su_split U entry (CHR '';'') of
     [] \<Rightarrow> best
   | media # params \<Rightarrow>
       let match = range_match (QuackapiTrim U media) expected
       in if match < fst best \<or> match < 0 then best
          else let quality = range_quality U stod params 1
               in (match, if match > fst best then quality else max (snd best) quality))"

definition AcceptsResponseType :: "string_util \<Rightarrow> (string \<Rightarrow> (double \<times> nat) option) \<Rightarrow> string \<Rightarrow> string \<Rightarrow> bool" where
  "AcceptsResponseType U stod accept expected =
     (snd (fold (accept_range U stod expected) (su_split U (su_lower U accept) (CHR '','')) (- 1, 0)) > 0)"

definition is_accept :: "string_util \<Rightarrow> string \<times> string \<Rightarrow> bool" where
  "is_accept U h = (su_lower U (fst h) = ''accept'')"

definition ApplyResponseAccept :: "string_util \<Rightarrow> (string \<Rightarrow> (double \<times> nat) option) \<Rightarrow> (string \<times> string) list \<Rightarrow> ResponseFormat
    \<Rightarrow> (string \<times> string) list result" where
  "ApplyResponseAccept U stod headers format =
     (if format = RAW then Inr headers
      else let expected = ExpectedResponseType format; given = map snd (filter (is_accept U) headers)
           in if given \<noteq> [] \<and> \<not> AcceptsResponseType U stod (join_with '','' given) expected
              then Inl (InvalidInput ''response_format conflicts with the supplied Accept header'' [])
              else Inr (AList.update ''Accept'' expected (filter (\<lambda>h. \<not> is_accept U h) headers)))"

text \<open>The first \<open>Content-Type\<close> decides.\<close>

definition HasResponseType :: "string_util \<Rightarrow> (string \<times> string) list \<Rightarrow> ResponseFormat \<Rightarrow> bool" where
  "HasResponseType U headers format = (case List.find (\<lambda>h. su_lower U (fst h) = ''content-type'') headers of
     None \<Rightarrow> False
   | Some (_, v) \<Rightarrow> (case su_split U v (CHR '';'') of
       [] \<Rightarrow> False
     | media # _ \<Rightarrow> QuackapiTrim U (su_lower U media) = ExpectedResponseType format))"

section \<open>The pool of idle connections\<close>

definition MAX_IDLE_PER_HOST :: nat where "MAX_IDLE_PER_HOST = 64"
definition MAX_IDLE_TOTAL :: nat where "MAX_IDLE_TOTAL = 256"
definition MAX_POOL_HOSTS :: nat where "MAX_POOL_HOSTS = 256"
definition IDLE_POOL_TTL :: int where "IDLE_POOL_TTL = 5 * 60 * 1000000000"
definition MAX_OUTBOUND_FANOUT :: nat where "MAX_OUTBOUND_FANOUT = 32"
definition OUTBOUND_TIMEOUT_SECONDS :: int where "OUTBOUND_TIMEOUT_SECONDS = 600"
definition OUTBOUND_CONNECT_TIMEOUT_SECONDS :: int where "OUTBOUND_CONNECT_TIMEOUT_SECONDS = 5"

text \<open>A connection: its identity and the key it was dialled for.\<close>

record pooled_client =
  cl_id :: nat
  cl_key :: string

record HostPool =
  hp_plain_idle :: "pooled_client list"
  hp_util_idle :: "pooled_client list"
  hp_dialed :: nat
  hp_reused :: nat
  hp_last_used :: int

type_synonym ConnectionPool = "(string \<times> HostPool) list"

definition new_host :: "int \<Rightarrow> HostPool" where
  "new_host now = \<lparr>hp_plain_idle = [], hp_util_idle = [], hp_dialed = 0, hp_reused = 0, hp_last_used = now\<rparr>"

definition oldest_host :: "ConnectionPool \<Rightarrow> string \<times> HostPool" where
  "oldest_host pool = fold (\<lambda>e oldest. if hp_last_used (snd e) < hp_last_used (snd oldest) then e else oldest) pool (hd pool)"

definition evict_hosts :: "int \<Rightarrow> string \<Rightarrow> ConnectionPool \<Rightarrow> ConnectionPool" where
  "evict_hosts now key pool =
     (let fresh = filter (\<lambda>e. \<not> (now - hp_last_used (snd e) > IDLE_POOL_TTL)) pool
      in if map_of fresh key = None \<and> length fresh \<ge> MAX_POOL_HOSTS then AList.delete (fst (oldest_host fresh)) fresh else fresh)"

definition PoolHost :: "int \<Rightarrow> string \<Rightarrow> ConnectionPool \<Rightarrow> ConnectionPool \<times> HostPool" where
  "PoolHost now key pool =
     (let kept = evict_hosts now key pool;
          host = (case map_of kept key of Some h \<Rightarrow> h\<lparr>hp_last_used := now\<rparr> | None \<Rightarrow> new_host now)
      in (AList.update key host kept, host))"

definition TotalIdleClients :: "ConnectionPool \<Rightarrow> nat" where
  "TotalIdleClients pool = sum_list (map (\<lambda>e. length (hp_plain_idle (snd e)) + length (hp_util_idle (snd e))) pool)"

text \<open>Checking a connection out: the last idle one, or none (it will be dialled).\<close>

definition take_plain :: "int \<Rightarrow> string \<Rightarrow> ConnectionPool \<Rightarrow> ConnectionPool \<times> pooled_client option" where
  "take_plain now key pool = (case PoolHost now key pool of (pool', host) \<Rightarrow>
     if hp_plain_idle host \<noteq> [] then
       (AList.update key (host\<lparr>hp_plain_idle := butlast (hp_plain_idle host), hp_reused := hp_reused host + 1\<rparr>) pool', Some (last (hp_plain_idle host)))
     else (AList.update key (host\<lparr>hp_dialed := hp_dialed host + 1\<rparr>) pool', None))"

definition give_plain :: "int \<Rightarrow> string \<Rightarrow> pooled_client \<Rightarrow> ConnectionPool \<Rightarrow> ConnectionPool" where
  "give_plain now key client pool = (case PoolHost now key pool of (pool', host) \<Rightarrow>
     if length (hp_plain_idle host) < MAX_IDLE_PER_HOST \<and> TotalIdleClients pool' < MAX_IDLE_TOTAL
     then AList.update key (host\<lparr>hp_plain_idle := hp_plain_idle host @ [client]\<rparr>) pool' else pool')"

definition take_util :: "int \<Rightarrow> string \<Rightarrow> ConnectionPool \<Rightarrow> ConnectionPool \<times> pooled_client option" where
  "take_util now key pool = (case PoolHost now key pool of (pool', host) \<Rightarrow>
     if hp_util_idle host \<noteq> [] then
       (AList.update key (host\<lparr>hp_util_idle := butlast (hp_util_idle host), hp_reused := hp_reused host + 1\<rparr>) pool', Some (last (hp_util_idle host)))
     else (AList.update key (host\<lparr>hp_dialed := hp_dialed host + 1\<rparr>) pool', None))"

definition give_util :: "int \<Rightarrow> string \<Rightarrow> pooled_client \<Rightarrow> ConnectionPool \<Rightarrow> ConnectionPool" where
  "give_util now key client pool = (case PoolHost now key pool of (pool', host) \<Rightarrow>
     if length (hp_util_idle host) < MAX_IDLE_PER_HOST \<and> TotalIdleClients pool' < MAX_IDLE_TOTAL
     then AList.update key (host\<lparr>hp_util_idle := hp_util_idle host @ [client]\<rparr>) pool' else pool')"

record QuackapiHttpPoolStats =
  hs_host :: string
  hs_idle :: nat
  hs_dialed :: nat
  hs_reused :: nat

definition PoolStats :: "ConnectionPool \<Rightarrow> QuackapiHttpPoolStats list" where
  "PoolStats pool = map (\<lambda>(key, h). \<lparr>hs_host = key, hs_idle = length (hp_plain_idle h) + length (hp_util_idle h),
     hs_dialed = hp_dialed h, hs_reused = hp_reused h\<rparr>) pool"

definition ResetPool :: "ConnectionPool \<Rightarrow> ConnectionPool" where
  "ResetPool pool = []"

section \<open>The pool under concurrent calls\<close>

text \<open>
  A call holds the mutex while it checks a connection out and again while it gives it back; in between it
  is in flight. \<open>pw_busy\<close> has the origins and connections of plain calls in flight, \<open>pw_util_busy\<close> the calls through
  \<open>HTTPUtil\<close>, which have no connection of their own until the transport has made one.
\<close>

record pool_world =
  pw_pool :: ConnectionPool
  pw_busy :: "(string \<times> pooled_client) list"
  pw_util_busy :: "(string \<times> pooled_client option) list"
  pw_next :: nat

definition new_pool_world :: pool_world where
  "new_pool_world = \<lparr>pw_pool = [], pw_busy = [], pw_util_busy = [], pw_next = 0\<rparr>"

definition begin_plain :: "int \<Rightarrow> string \<Rightarrow> pool_world \<Rightarrow> pool_world \<times> pooled_client \<times> bool" where
  "begin_plain now origin w = (case take_plain now origin (pw_pool w) of
     (pool', Some c) \<Rightarrow> (w\<lparr>pw_pool := pool', pw_busy := (origin, c) # pw_busy w\<rparr>, c, True)
   | (pool', None) \<Rightarrow>
       let c = \<lparr>cl_id = pw_next w, cl_key = origin\<rparr>
       in (w\<lparr>pw_pool := pool', pw_busy := (origin, c) # pw_busy w, pw_next := pw_next w + 1\<rparr>, c, False))"

text \<open>Only a connection whose transport stayed healthy goes back, under the origin of the call.\<close>

definition end_plain :: "int \<Rightarrow> string \<Rightarrow> pooled_client \<Rightarrow> bool \<Rightarrow> pool_world \<Rightarrow> pool_world" where
  "end_plain now origin c healthy w =
     w\<lparr>pw_busy := remove1 (origin, c) (pw_busy w), pw_pool := (if healthy then give_plain now origin c (pw_pool w) else pw_pool w)\<rparr>"

definition begin_util :: "int \<Rightarrow> string \<Rightarrow> pool_world \<Rightarrow> pool_world \<times> pooled_client option" where
  "begin_util now key w = (case take_util now key (pw_pool w) of
     (pool', oc) \<Rightarrow> (w\<lparr>pw_pool := pool', pw_util_busy := (key, oc) # pw_util_busy w\<rparr>, oc))"

text \<open>\<open>made\<close>: the transport left a client of its own in the empty pointer.\<close>

definition end_util :: "int \<Rightarrow> string \<Rightarrow> pooled_client option \<Rightarrow> bool \<Rightarrow> bool \<Rightarrow> pool_world \<Rightarrow> pool_world" where
  "end_util now key oc made ok w =
     (let w1 = w\<lparr>pw_util_busy := remove1 (key, oc) (pw_util_busy w)\<rparr>
      in case oc of
           Some c \<Rightarrow> if ok then w1\<lparr>pw_pool := give_util now key c (pw_pool w)\<rparr> else w1
         | None \<Rightarrow> if made \<and> ok then
             w1\<lparr>pw_pool := give_util now key \<lparr>cl_id = pw_next w, cl_key = key\<rparr> (pw_pool w), pw_next := pw_next w + 1\<rparr>
           else w1)"

inductive pool_reachable :: "pool_world \<Rightarrow> bool" where
  start: "pool_reachable new_pool_world"
| begin_plain: "pool_reachable w \<Longrightarrow> pool_reachable (fst (begin_plain now origin w))"
| end_plain: "pool_reachable w \<Longrightarrow> (origin, c) \<in> set (pw_busy w) \<Longrightarrow> pool_reachable (end_plain now origin c healthy w)"
| begin_util: "pool_reachable w \<Longrightarrow> pool_reachable (fst (begin_util now key w))"
| end_util: "pool_reachable w \<Longrightarrow> (key, oc) \<in> set (pw_util_busy w) \<Longrightarrow> pool_reachable (end_util now key oc made ok w)"
| reset: "pool_reachable w \<Longrightarrow> pool_reachable (w\<lparr>pw_pool := ResetPool (pw_pool w)\<rparr>)"

subsection \<open>What an operation does to the idle connections\<close>

definition host_idle :: "HostPool \<Rightarrow> pooled_client multiset" where
  "host_idle h = mset (hp_plain_idle h) + mset (hp_util_idle h)"

definition pool_idle :: "ConnectionPool \<Rightarrow> pooled_client multiset" where
  "pool_idle pool = sum_list (map (\<lambda>e. host_idle (snd e)) pool)"

lemma host_idle_simps [simp]:
  "host_idle (new_host now) = {#}" "host_idle (h\<lparr>hp_last_used := t\<rparr>) = host_idle h"
  "host_idle (h\<lparr>hp_dialed := n\<rparr>) = host_idle h" "host_idle (h\<lparr>hp_reused := n\<rparr>) = host_idle h"
  by (simp_all add: host_idle_def new_host_def)

lemma pool_idle_simps [simp]: "pool_idle [] = {#}" "pool_idle (e # pool) = host_idle (snd e) + pool_idle pool"
  by (simp_all add: pool_idle_def)

lemma TotalIdleClients_size: "TotalIdleClients pool = size (pool_idle pool)"
  by (induction pool) (simp_all add: TotalIdleClients_def host_idle_def)

lemma pool_idle_filter: "pool_idle (filter P pool) \<subseteq># pool_idle pool"
proof (induction pool)
  case (Cons e pool)
  show ?case
  proof (cases "P e")
    case False
    with subset_mset.order_trans [OF Cons.IH mset_subset_eq_add_right] show ?thesis by simp
  qed (use Cons.IH in simp)
qed simp

lemma update_length: "length (AList.update k h pool) = (if map_of pool k = None then length pool + 1 else length pool)"
  by (induction pool) auto

lemma update_entries: "set (AList.update k h pool) \<subseteq> insert (k, h) (set pool)"
  by (induction pool) auto

lemma pool_idle_update:
  "distinct (map fst pool) \<Longrightarrow>
    pool_idle (AList.update k h pool) + (case map_of pool k of Some g \<Rightarrow> host_idle g | None \<Rightarrow> {#}) = pool_idle pool + host_idle h"
proof (induction pool)
  case (Cons e pool)
  show ?case
  proof (cases "fst e = k")
    case True
    with Cons.prems show ?thesis by (cases e) auto
  next
    case False
    with Cons show ?thesis by (cases e) (auto simp: ac_simps)
  qed
qed simp

text \<open>The bounds of a pool, and that every idle connection is under the key it was dialled for.\<close>

definition host_ok :: "string \<Rightarrow> HostPool \<Rightarrow> bool" where
  "host_ok key h =
     (length (hp_plain_idle h) \<le> MAX_IDLE_PER_HOST \<and> length (hp_util_idle h) \<le> MAX_IDLE_PER_HOST \<and> (\<forall>c \<in># host_idle h. cl_key c = key))"

definition pool_ok :: "ConnectionPool \<Rightarrow> bool" where
  "pool_ok pool =
     (distinct (map fst pool) \<and> length pool \<le> MAX_POOL_HOSTS \<and> TotalIdleClients pool \<le> MAX_IDLE_TOTAL \<and>
      (\<forall>e \<in> set pool. host_ok (fst e) (snd e)))"

lemma host_ok_simps [simp]:
  "host_ok key (new_host now)" "host_ok key (h\<lparr>hp_last_used := t\<rparr>) = host_ok key h"
  "host_ok key (h\<lparr>hp_dialed := n\<rparr>) = host_ok key h" "host_ok key (h\<lparr>hp_reused := n\<rparr>) = host_ok key h"
  by (simp_all add: host_ok_def) (simp add: new_host_def)

lemma oldest_host_in:
  assumes "pool \<noteq> []"
  shows "oldest_host pool \<in> set pool"
proof -
  have "fold (\<lambda>e oldest. if hp_last_used (snd e) < hp_last_used (snd oldest) then e else oldest) xs e \<in> insert e (set xs)" for xs and e :: "string \<times> HostPool"
    by (induction xs arbitrary: e) auto
  from this [of pool "hd pool"] assms show ?thesis by (cases pool) (auto simp: oldest_host_def)
qed

lemma evict_hosts_filter:
  obtains P where "evict_hosts now key pool = filter P pool"
proof -
  let ?P = "\<lambda>e. \<not> (now - hp_last_used (snd e) > IDLE_POOL_TTL)"
  show thesis
  proof (cases "map_of (filter ?P pool) key = None \<and> length (filter ?P pool) \<ge> MAX_POOL_HOSTS")
    case True
    then have "evict_hosts now key pool = filter (\<lambda>e. fst (oldest_host (filter ?P pool)) \<noteq> fst e \<and> ?P e) pool"
      by (simp add: evict_hosts_def Let_def AList.delete_eq filter_filter case_prod_beta conj_commute)
    then show thesis by (rule that)
  qed (use that in \<open>auto simp: evict_hosts_def Let_def\<close>)
qed

lemma evict_hosts_length:
  assumes "distinct (map fst pool)" and "length pool \<le> MAX_POOL_HOSTS"
  shows "map_of (evict_hosts now key pool) key \<noteq> None \<or> length (evict_hosts now key pool) < MAX_POOL_HOSTS"
proof -
  define kept where "kept = filter (\<lambda>e. \<not> (now - hp_last_used (snd e) > IDLE_POOL_TTL)) pool"
  have l: "length kept \<le> MAX_POOL_HOSTS" using assms(2) by (metis kept_def le_trans length_filter_le)
  show ?thesis
  proof (cases "map_of kept key = None \<and> length kept \<ge> MAX_POOL_HOSTS")
    case True
    then have "kept \<noteq> []" by (auto simp: MAX_POOL_HOSTS_def)
    then have "oldest_host kept \<in> set kept" by (rule oldest_host_in)
    then have "length (AList.delete (fst (oldest_host kept)) kept) < length kept"
      unfolding AList.delete_eq by (intro length_filter_less [of "oldest_host kept"]) (auto simp: case_prod_beta)
    with True l show ?thesis by (simp add: evict_hosts_def kept_def [symmetric])
  qed (use l in \<open>auto simp: evict_hosts_def Let_def kept_def [symmetric]\<close>)
qed

lemma PoolHost_ok:
  assumes "pool_ok pool" and "PoolHost now key pool = (pool', host)"
  shows "pool_ok pool'" and "map_of pool' key = Some host" and "pool_idle pool' \<subseteq># pool_idle pool"
proof -
  obtain P where P: "evict_hosts now key pool = filter P pool" by (rule evict_hosts_filter)
  let ?kept = "evict_hosts now key pool"
  have d: "distinct (map fst ?kept)" using assms(1) by (simp add: P pool_ok_def distinct_map_filter)
  have l: "map_of ?kept key \<noteq> None \<or> length ?kept < MAX_POOL_HOSTS" "length ?kept \<le> MAX_POOL_HOSTS"
    using evict_hosts_length [of pool now key] assms(1) le_trans [OF length_filter_le [of P pool]] by (auto simp: P pool_ok_def)
  have host: "host = (case map_of ?kept key of Some h \<Rightarrow> h\<lparr>hp_last_used := now\<rparr> | None \<Rightarrow> new_host now)" and p': "pool' = AList.update key host ?kept"
    using assms(2) by (auto simp: PoolHost_def Let_def)
  have idle: "pool_idle pool' = pool_idle ?kept"
    using pool_idle_update [OF d, of key host] by (auto simp: p' host split: option.splits)
  then show sub: "pool_idle pool' \<subseteq># pool_idle pool" using pool_idle_filter by (simp add: P)
  show "map_of pool' key = Some host" by (simp add: p' update_conv)
  have "length pool' \<le> MAX_POOL_HOSTS"
    using l by (auto simp: p' update_length split: if_splits)
  moreover have "TotalIdleClients pool' \<le> MAX_IDLE_TOTAL"
    using size_mset_mono [OF sub] assms(1) by (simp add: TotalIdleClients_size pool_ok_def)
  moreover have "host_ok (fst e) (snd e)" if "e \<in> set pool'" for e
  proof -
    have ok: "\<And>k h. (k, h) \<in> set ?kept \<Longrightarrow> host_ok k h" using assms(1) by (auto simp: P pool_ok_def)
    have "e \<in> set ?kept \<or> e = (key, host)" using that update_entries [of key host ?kept] unfolding p' by blast
    then show ?thesis using ok by (cases e) (auto simp: host dest!: map_of_SomeD split: option.splits)
  qed
  ultimately show "pool_ok pool'" using d by (simp add: pool_ok_def p' distinct_update)
qed

text \<open>Replacing the entry of a host that is in the pool.\<close>

lemma set_host:
  assumes "pool_ok pool" and "map_of pool key = Some host" and "host_ok key h'" and "size (pool_idle (AList.update key h' pool)) \<le> MAX_IDLE_TOTAL"
  shows "pool_ok (AList.update key h' pool)"
proof -
  have "host_ok (fst e) (snd e)" if "e \<in> set (AList.update key h' pool)" for e
    using that update_entries [of key h' pool] assms by (auto simp: pool_ok_def)
  then show ?thesis using assms by (simp add: pool_ok_def update_length distinct_update TotalIdleClients_size)
qed

lemma set_host_idle:
  assumes "pool_ok pool" and "map_of pool key = Some host"
  shows "pool_idle (AList.update key h' pool) + host_idle host = pool_idle pool + host_idle h'"
  using pool_idle_update [of pool key h'] assms by (simp add: pool_ok_def)

lemma mset_butlast_last: "xs \<noteq> [] \<Longrightarrow> mset xs = add_mset (last xs) (mset (butlast xs))"
  by (metis append_butlast_last_id mset.simps(1,2) mset_append union_mset_add_mset_right add.right_neutral)

text \<open>What checking out keeps: the connection taken leaves the pool, and is one that was dialled for the key.\<close>

definition takes :: "string \<Rightarrow> ConnectionPool \<Rightarrow> ConnectionPool \<Rightarrow> pooled_client option \<Rightarrow> bool" where
  "takes key pool pool' oc = (pool_ok pool' \<and> pool_idle pool' + mset_set (set_option oc) \<subseteq># pool_idle pool \<and> (\<forall>c. oc = Some c \<longrightarrow> cl_key c = key))"

lemma takes_host:
  assumes "pool_ok pool" and "PoolHost now key pool = (pool1, host)" and "host_idle host = host_idle h' + mset_set (set_option oc)" and "host_ok key h'"
    and "\<And>c. oc = Some c \<Longrightarrow> c \<in># host_idle host"
  shows "takes key pool (AList.update key h' pool1) oc"
proof -
  note p = PoolHost_ok [OF assms(1,2)]
  have e: "pool_idle (AList.update key h' pool1) + mset_set (set_option oc) = pool_idle pool1"
    using set_host_idle [OF p(1,2), of h'] assms(3) by simp
  then have "size (pool_idle (AList.update key h' pool1)) \<le> size (pool_idle pool1)" by (metis le_add1 size_union)
  then have "pool_ok (AList.update key h' pool1)"
    using set_host [OF p(1,2) assms(4)] p(1) by (simp add: pool_ok_def TotalIdleClients_size)
  moreover have "host_ok key host" using p(1,2) by (auto simp: pool_ok_def dest!: map_of_SomeD)
  ultimately show ?thesis using e p(3) assms(5) by (auto simp: takes_def host_ok_def)
qed

lemma take_plain_takes: "pool_ok pool \<Longrightarrow> take_plain now key pool = (pool', oc) \<Longrightarrow> takes key pool pool' oc"
proof -
  assume a: "pool_ok pool" "take_plain now key pool = (pool', oc)"
  obtain pool1 host where h: "PoolHost now key pool = (pool1, host)" by fastforce
  have ok: "host_ok key host" using PoolHost_ok [OF a(1) h] by (auto simp: pool_ok_def dest!: map_of_SomeD)
  show ?thesis
  proof (cases "hp_plain_idle host = []")
    case True
    then show ?thesis using a(2) h ok takes_host [OF a(1) h, of "host\<lparr>hp_dialed := hp_dialed host + 1\<rparr>" None] by (auto simp: take_plain_def)
  next
    case False
    let ?h = "host\<lparr>hp_plain_idle := butlast (hp_plain_idle host), hp_reused := hp_reused host + 1\<rparr>"
    have idle: "host_idle host = host_idle ?h + {#last (hp_plain_idle host)#}"
      using mset_butlast_last [OF False] by (simp add: host_idle_def)
    then have "host_ok key ?h" using ok by (auto simp: host_ok_def host_idle_def)
    then show ?thesis using a(2) h False idle takes_host [OF a(1) h, of ?h "Some (last (hp_plain_idle host))"] by (auto simp: take_plain_def)
  qed
qed

lemma take_util_takes: "pool_ok pool \<Longrightarrow> take_util now key pool = (pool', oc) \<Longrightarrow> takes key pool pool' oc"
proof -
  assume a: "pool_ok pool" "take_util now key pool = (pool', oc)"
  obtain pool1 host where h: "PoolHost now key pool = (pool1, host)" by fastforce
  have ok: "host_ok key host" using PoolHost_ok [OF a(1) h] by (auto simp: pool_ok_def dest!: map_of_SomeD)
  show ?thesis
  proof (cases "hp_util_idle host = []")
    case True
    then show ?thesis using a(2) h ok takes_host [OF a(1) h, of "host\<lparr>hp_dialed := hp_dialed host + 1\<rparr>" None] by (auto simp: take_util_def)
  next
    case False
    let ?h = "host\<lparr>hp_util_idle := butlast (hp_util_idle host), hp_reused := hp_reused host + 1\<rparr>"
    have idle: "host_idle host = host_idle ?h + {#last (hp_util_idle host)#}"
      using mset_butlast_last [OF False] by (simp add: host_idle_def)
    then have "host_ok key ?h" using ok by (auto simp: host_ok_def host_idle_def)
    then show ?thesis using a(2) h False idle takes_host [OF a(1) h, of ?h "Some (last (hp_util_idle host))"] by (auto simp: take_util_def)
  qed
qed

text \<open>What giving back keeps: the pool gains at most that connection.\<close>

definition gives :: "pooled_client \<Rightarrow> ConnectionPool \<Rightarrow> ConnectionPool \<Rightarrow> bool" where
  "gives c pool pool' = (pool_ok pool' \<and> pool_idle pool' \<subseteq># add_mset c (pool_idle pool))"

lemma gives_host:
  assumes "pool_ok pool" and "PoolHost now (cl_key c) pool = (pool1, host)" and "host_idle h' = add_mset c (host_idle host)" and "host_ok (cl_key c) h'"
    and "TotalIdleClients pool1 < MAX_IDLE_TOTAL"
  shows "gives c pool (AList.update (cl_key c) h' pool1)"
proof -
  note p = PoolHost_ok [OF assms(1,2)]
  have e: "pool_idle (AList.update (cl_key c) h' pool1) = add_mset c (pool_idle pool1)"
    using set_host_idle [OF p(1,2), of h'] assms(3) by (simp del: add_mset_add_single)
  then have "pool_ok (AList.update (cl_key c) h' pool1)"
    using set_host [OF p(1,2) assms(4)] assms(5) by (simp add: TotalIdleClients_size)
  then show ?thesis using e p(3) by (simp add: gives_def)
qed

lemma give_plain_gives: "pool_ok pool \<Longrightarrow> gives c pool (give_plain now (cl_key c) c pool)"
proof -
  assume a: "pool_ok pool"
  obtain pool1 host where h: "PoolHost now (cl_key c) pool = (pool1, host)" by fastforce
  note p = PoolHost_ok [OF a h]
  have ok: "host_ok (cl_key c) host" using p by (auto simp: pool_ok_def dest!: map_of_SomeD)
  show ?thesis
  proof (cases "length (hp_plain_idle host) < MAX_IDLE_PER_HOST \<and> TotalIdleClients pool1 < MAX_IDLE_TOTAL")
    case True
    let ?h = "host\<lparr>hp_plain_idle := hp_plain_idle host @ [c]\<rparr>"
    have idle: "host_idle ?h = add_mset c (host_idle host)" by (simp add: host_idle_def)
    then have "host_ok (cl_key c) ?h" using ok True by (auto simp: host_ok_def)
    then show ?thesis using True h idle gives_host [OF a h, of ?h] by (simp add: give_plain_def)
  qed (use h p in \<open>auto simp: give_plain_def gives_def intro: subset_mset.order_trans\<close>)
qed

lemma give_util_gives: "pool_ok pool \<Longrightarrow> gives c pool (give_util now (cl_key c) c pool)"
proof -
  assume a: "pool_ok pool"
  obtain pool1 host where h: "PoolHost now (cl_key c) pool = (pool1, host)" by fastforce
  note p = PoolHost_ok [OF a h]
  have ok: "host_ok (cl_key c) host" using p by (auto simp: pool_ok_def dest!: map_of_SomeD)
  show ?thesis
  proof (cases "length (hp_util_idle host) < MAX_IDLE_PER_HOST \<and> TotalIdleClients pool1 < MAX_IDLE_TOTAL")
    case True
    let ?h = "host\<lparr>hp_util_idle := hp_util_idle host @ [c]\<rparr>"
    have idle: "host_idle ?h = add_mset c (host_idle host)" by (simp add: host_idle_def)
    then have "host_ok (cl_key c) ?h" using ok True by (auto simp: host_ok_def)
    then show ?thesis using True h idle gives_host [OF a h, of ?h] by (simp add: give_util_def)
  qed (use h p in \<open>auto simp: give_util_def gives_def intro: subset_mset.order_trans\<close>)
qed

subsection \<open>Every connection is in one place\<close>

definition util_held :: "(string \<times> pooled_client option) list \<Rightarrow> pooled_client multiset" where
  "util_held xs = mset (List.map_filter snd xs)"

definition all_clients :: "pool_world \<Rightarrow> pooled_client multiset" where
  "all_clients w = pool_idle (pw_pool w) + image_mset snd (mset (pw_busy w)) + util_held (pw_util_busy w)"

text \<open>Identities below \<open>n\<close>, none of them twice.\<close>

definition ids_ok :: "nat \<Rightarrow> pooled_client multiset \<Rightarrow> bool" where
  "ids_ok n cs = (\<forall>i. count (image_mset cl_id cs) i \<le> (if i < n then 1 else 0))"

definition pool_inv :: "pool_world \<Rightarrow> bool" where
  "pool_inv w =
     (pool_ok (pw_pool w) \<and> ids_ok (pw_next w) (all_clients w) \<and>
      (\<forall>(origin, c) \<in> set (pw_busy w). cl_key c = origin) \<and>
      (\<forall>(key, oc) \<in> set (pw_util_busy w). \<forall>c. oc = Some c \<longrightarrow> cl_key c = key))"

lemma util_held_simps [simp]:
  "util_held [] = {#}" "util_held ((key, oc) # xs) = mset_set (set_option oc) + util_held xs"
  by (cases oc; simp add: util_held_def map_filter_simps)+

lemma util_held_remove: "(key, oc) \<in> set xs \<Longrightarrow> util_held xs = mset_set (set_option oc) + util_held (remove1 (key, oc) xs)"
  by (induction xs) (auto simp: ac_simps)

text \<open>Connections are only moved, dropped, or dialled with a fresh identity.\<close>

lemma ids_moved:
  assumes "ids_ok n cs" and "cs' \<subseteq># cs"
  shows "ids_ok n cs'"
  unfolding ids_ok_def
proof
  fix i
  have "count (image_mset cl_id cs') i \<le> count (image_mset cl_id cs) i" by (rule mset_subset_eq_count [OF image_mset_subseteq_mono [OF assms(2)]])
  also have "\<dots> \<le> (if i < n then 1 else 0)" using assms(1) by (simp add: ids_ok_def)
  finally show "count (image_mset cl_id cs') i \<le> (if i < n then 1 else 0)" .
qed

lemma ids_dialled:
  assumes "ids_ok n cs" and "cs' \<subseteq># add_mset c cs" and "cl_id c = n"
  shows "ids_ok (n + 1) cs'"
proof (rule ids_moved [OF _ assms(2)])
  have "count (image_mset cl_id (add_mset c cs)) i \<le> (if i < n + 1 then 1 else 0)" for i
    using assms(1) [unfolded ids_ok_def, rule_format, of i] assms(3) by (cases "i = n") (auto split: if_splits)
  then show "ids_ok (n + 1) (add_mset c cs)" by (simp add: ids_ok_def)
qed

lemma ids_unique:
  assumes "ids_ok n (add_mset c cs)"
  shows "c \<notin># cs"
proof
  assume "c \<in># cs"
  then obtain cs' where "cs = add_mset c cs'" by (metis multi_member_split)
  with assms have "Suc (Suc (count (image_mset cl_id cs') (cl_id c))) \<le> (if cl_id c < n then 1 else 0)"
    unfolding ids_ok_def by (metis count_add_mset image_mset_add_mset)
  then show False by (simp split: if_splits)
qed

lemma given_back: "P' \<subseteq># add_mset c P \<Longrightarrow> P' + R \<subseteq># P + add_mset c R"
  using subset_mset.add_right_mono [of P' "add_mset c P" R] by simp

lemma pool_inv_start: "pool_inv new_pool_world"
  by (simp add: pool_inv_def new_pool_world_def all_clients_def pool_ok_def TotalIdleClients_def ids_ok_def)

lemma pool_inv_begin_plain:
  assumes "pool_inv w"
  shows "pool_inv (fst (begin_plain now origin w))"
proof -
  obtain pool' oc where t: "take_plain now origin (pw_pool w) = (pool', oc)" by fastforce
  have tk: "takes origin (pw_pool w) pool' oc" using take_plain_takes [OF _ t] assms by (simp add: pool_inv_def)
  let ?rest = "image_mset snd (mset (pw_busy w)) + util_held (pw_util_busy w)"
  have sub: "pool_idle pool' + mset_set (set_option oc) + ?rest \<subseteq># all_clients w"
    using tk by (simp add: takes_def all_clients_def add.assoc)
  show ?thesis
  proof (cases oc)
    case None
    let ?c = "\<lparr>cl_id = pw_next w, cl_key = origin\<rparr>"
    have "add_mset ?c (pool_idle pool' + ?rest) \<subseteq># add_mset ?c (all_clients w)" using sub None by simp
    from ids_dialled [OF _ this] show ?thesis
      using assms t None tk by (simp add: begin_plain_def pool_inv_def all_clients_def takes_def Let_def add.assoc)
  next
    case (Some c)
    then show ?thesis using ids_moved [OF _ sub] assms t tk
      by (simp add: begin_plain_def pool_inv_def all_clients_def takes_def add.assoc)
  qed
qed

lemma pool_inv_begin_util:
  assumes "pool_inv w"
  shows "pool_inv (fst (begin_util now key w))"
proof -
  obtain pool' oc where t: "take_util now key (pw_pool w) = (pool', oc)" by fastforce
  have tk: "takes key (pw_pool w) pool' oc" using take_util_takes [OF _ t] assms by (simp add: pool_inv_def)
  have sub: "pool_idle pool' + image_mset snd (mset (pw_busy w)) + (mset_set (set_option oc) + util_held (pw_util_busy w)) \<subseteq># all_clients w"
  proof -
    have "pool_idle pool' + mset_set (set_option oc) + (image_mset snd (mset (pw_busy w)) + util_held (pw_util_busy w)) \<subseteq># all_clients w"
      using tk by (simp add: takes_def all_clients_def add.assoc)
    then show ?thesis by (simp add: ac_simps)
  qed
  then show ?thesis using ids_moved [OF _ sub] assms t tk
    by (auto simp: begin_util_def pool_inv_def all_clients_def takes_def)
qed

lemma pool_inv_end_plain:
  assumes "pool_inv w" and "(origin, c) \<in> set (pw_busy w)"
  shows "pool_inv (end_plain now origin c healthy w)"
proof -
  have busy: "image_mset snd (mset (pw_busy w)) = add_mset c (image_mset snd (mset (remove1 (origin, c) (pw_busy w))))"
  proof -
    have "mset (pw_busy w) = add_mset (origin, c) (mset (remove1 (origin, c) (pw_busy w)))" using assms(2) by simp
    then show ?thesis by (metis image_mset_add_mset snd_conv)
  qed
  have rest: "\<forall>(k, c') \<in> set (remove1 (origin, c) (pw_busy w)). cl_key c' = k"
    using assms(1) set_remove1_subset [of "(origin, c)" "pw_busy w"] unfolding pool_inv_def by blast
  have "cl_key c = origin" using assms by (auto simp: pool_inv_def)
  then have g: "gives c (pw_pool w) (give_plain now origin c (pw_pool w))"
    using give_plain_gives [of "pw_pool w" c now] assms(1) by (simp add: pool_inv_def)
  have "give + image_mset snd (mset (remove1 (origin, c) (pw_busy w))) \<subseteq># pool_idle (pw_pool w) + image_mset snd (mset (pw_busy w))"
    if "give \<subseteq># add_mset c (pool_idle (pw_pool w))" for give
    using given_back [OF that] unfolding busy .
  then have "all_clients (end_plain now origin c healthy w) \<subseteq># all_clients w"
    using g by (auto simp: end_plain_def all_clients_def gives_def simp del: mset_remove1)
  from ids_moved [OF _ this] show ?thesis using assms(1) g rest by (auto simp: pool_inv_def end_plain_def gives_def)
qed

lemma pool_inv_end_util:
  assumes "pool_inv w" and "(key, oc) \<in> set (pw_util_busy w)"
  shows "pool_inv (end_util now key oc made ok w)"
proof -
  note held = util_held_remove [OF assms(2)]
  have rest: "\<forall>(k, oc') \<in> set (remove1 (key, oc) (pw_util_busy w)). \<forall>c. oc' = Some c \<longrightarrow> cl_key c = k"
    using assms(1) set_remove1_subset [of "(key, oc)" "pw_util_busy w"] unfolding pool_inv_def by blast
  show ?thesis
  proof (cases oc)
    case (Some c)
    then have "cl_key c = key" using assms by (auto simp: pool_inv_def)
    then have g: "gives c (pw_pool w) (give_util now key c (pw_pool w))" using give_util_gives [of "pw_pool w" c now] assms(1) by (simp add: pool_inv_def)
    have "pool_idle (give_util now key c (pw_pool w)) + (image_mset snd (mset (pw_busy w)) + util_held (remove1 (key, oc) (pw_util_busy w)))
        \<subseteq># pool_idle (pw_pool w) + add_mset c (image_mset snd (mset (pw_busy w)) + util_held (remove1 (key, oc) (pw_util_busy w)))"
      using g by (intro given_back) (simp add: gives_def)
    then have "all_clients (end_util now key oc made ok w) \<subseteq># all_clients w"
      using held Some by (auto simp: end_util_def all_clients_def Let_def add.assoc)
    from ids_moved [OF _ this] show ?thesis using assms(1) g Some rest by (auto simp: pool_inv_def end_util_def gives_def Let_def)
  next
    case None
    let ?c = "\<lparr>cl_id = pw_next w, cl_key = key\<rparr>"
    have g: "gives ?c (pw_pool w) (give_util now key ?c (pw_pool w))" using give_util_gives [of "pw_pool w" ?c now] assms(1) by (simp add: pool_inv_def)
    show ?thesis
    proof (cases "made \<and> ok")
      case True
      have "all_clients (end_util now key oc made ok w) \<subseteq># add_mset ?c (all_clients w)"
        using g held None True subset_mset.add_right_mono by (fastforce simp: end_util_def all_clients_def gives_def Let_def add.assoc)
      from ids_dialled [OF _ this] show ?thesis using assms(1) g None True rest by (auto simp: pool_inv_def end_util_def gives_def Let_def)
    next
      case False
      have "all_clients (end_util now key oc made ok w) \<subseteq># all_clients w"
        using held None False by (auto simp: end_util_def all_clients_def Let_def)
      from ids_moved [OF _ this] show ?thesis using assms(1) None False rest by (auto simp: pool_inv_def end_util_def Let_def)
    qed
  qed
qed

lemma pool_reachable_inv: "pool_reachable w \<Longrightarrow> pool_inv w"
proof (induction rule: pool_reachable.induct)
  case (reset w)
  have "all_clients (w\<lparr>pw_pool := ResetPool (pw_pool w)\<rparr>) \<subseteq># all_clients w" by (simp add: all_clients_def ResetPool_def)
  from ids_moved [OF _ this] reset.IH show ?case by (simp add: pool_inv_def ResetPool_def pool_ok_def TotalIdleClients_def)
qed (simp_all add: pool_inv_start pool_inv_begin_plain pool_inv_begin_util pool_inv_end_plain pool_inv_end_util)

text \<open>
  The pool keeps within its bounds in every interleaving of calls: 256 entries, 256 idle connections, 64
  of each kind in an entry.
\<close>

theorem idle_pool_bounded:
  assumes "pool_reachable w"
  shows "length (PoolStats (pw_pool w)) \<le> 256 \<and> sum_list (map hs_idle (PoolStats (pw_pool w))) \<le> 256 \<and>
    distinct (map hs_host (PoolStats (pw_pool w))) \<and>
    (\<forall>(key, h) \<in> set (pw_pool w). length (hp_plain_idle h) \<le> 64 \<and> length (hp_util_idle h) \<le> 64)"
proof -
  have ok: "pool_ok (pw_pool w)" using pool_reachable_inv [OF assms] by (simp add: pool_inv_def)
  have "map hs_host (PoolStats pool) = map fst pool" "sum_list (map hs_idle (PoolStats pool)) = TotalIdleClients pool" "length (PoolStats pool) = length pool" for pool
    by (induction pool) (auto simp: PoolStats_def TotalIdleClients_def)
  with ok show ?thesis
    by (auto simp: pool_ok_def host_ok_def MAX_POOL_HOSTS_def MAX_IDLE_TOTAL_def MAX_IDLE_PER_HOST_def)
qed

lemma util_held_free: "c \<notin># util_held xs \<Longrightarrow> Some c \<notin> snd ` set xs"
  by (induction xs) (auto simp: util_held_def map_filter_simps split: option.splits)

lemma begin_plain_takes:
  assumes "pool_inv w" and "begin_plain now origin w = (w', c, reused)"
  shows "pw_busy w' = (origin, c) # pw_busy w" and "pw_util_busy w' = pw_util_busy w" and "cl_key c = origin"
    and "reused \<Longrightarrow> c \<in># pool_idle (pw_pool w)"
proof -
  obtain pool' oc where t: "take_plain now origin (pw_pool w) = (pool', oc)" by fastforce
  have tk: "takes origin (pw_pool w) pool' oc" using take_plain_takes [OF _ t] assms(1) by (simp add: pool_inv_def)
  then show "pw_busy w' = (origin, c) # pw_busy w" "pw_util_busy w' = pw_util_busy w" "cl_key c = origin"
    "reused \<Longrightarrow> c \<in># pool_idle (pw_pool w)"
    using assms(2) t by (auto simp: begin_plain_def takes_def Let_def split: option.splits dest: mset_subset_eqD)
qed

lemma begin_util_takes:
  assumes "pool_inv w" and "begin_util now key w = (w', Some c)"
  shows "pw_busy w' = pw_busy w" and "pw_util_busy w' = (key, Some c) # pw_util_busy w" and "cl_key c = key"
    and "c \<in># pool_idle (pw_pool w)"
proof -
  obtain pool' oc where t: "take_util now key (pw_pool w) = (pool', oc)" by fastforce
  have tk: "takes key (pw_pool w) pool' oc" using take_util_takes [OF _ t] assms(1) by (simp add: pool_inv_def)
  then show "pw_busy w' = pw_busy w" "pw_util_busy w' = (key, Some c) # pw_util_busy w" "cl_key c = key" "c \<in># pool_idle (pw_pool w)"
    using assms(2) t by (auto simp: begin_util_def takes_def split: option.splits dest: mset_subset_eqD)
qed

text \<open>
  C17. No two calls share a connection. In every interleaving of calls an idle connection is filed under the origin
  it was dialled for; and what a call checks out, over plain HTTP or through \<open>HTTPUtil\<close>, was dialled for the
  call's own origin, is no longer idle, and is in no other call's hands. A connection counted as reused was
  idle before.
\<close>

theorem pooled_connection_exclusive:
  assumes "pool_reachable w"
  shows "(\<forall>(key, h) \<in> set (pw_pool w). \<forall>c \<in> set (hp_plain_idle h) \<union> set (hp_util_idle h). cl_key c = key) \<and>
    (\<forall>now origin w' c reused. begin_plain now origin w = (w', c, reused) \<longrightarrow>
       cl_key c = origin \<and> c \<notin># pool_idle (pw_pool w') \<and> c \<notin> snd ` set (pw_busy w) \<and> Some c \<notin> snd ` set (pw_util_busy w) \<and>
       (reused \<longrightarrow> c \<in># pool_idle (pw_pool w))) \<and>
    (\<forall>now key w' c. begin_util now key w = (w', Some c) \<longrightarrow>
       cl_key c = key \<and> c \<notin># pool_idle (pw_pool w') \<and> c \<notin> snd ` set (pw_busy w) \<and> Some c \<notin> snd ` set (pw_util_busy w) \<and>
       c \<in># pool_idle (pw_pool w))"
proof (intro conjI allI impI)
  note inv = pool_reachable_inv [OF assms]
  then show "\<forall>(key, h) \<in> set (pw_pool w). \<forall>c \<in> set (hp_plain_idle h) \<union> set (hp_util_idle h). cl_key c = key"
    by (fastforce simp: pool_inv_def pool_ok_def host_ok_def host_idle_def)
  { fix now origin w' c reused assume b: "begin_plain now origin w = (w', c, reused)"
    note tk = begin_plain_takes [OF inv b]
    have "ids_ok (pw_next w') (add_mset c (pool_idle (pw_pool w') + image_mset snd (mset (pw_busy w)) + util_held (pw_util_busy w)))"
      using pool_inv_begin_plain [OF inv, of now origin] tk(1,2) b by (simp add: pool_inv_def all_clients_def)
    from ids_unique [OF this] tk(3,4) util_held_free
    show "cl_key c = origin" "c \<notin># pool_idle (pw_pool w')" "c \<notin> snd ` set (pw_busy w)" "Some c \<notin> snd ` set (pw_util_busy w)"
      "reused \<Longrightarrow> c \<in># pool_idle (pw_pool w)" by auto }
  fix now key w' c assume b: "begin_util now key w = (w', Some c)"
  note tk = begin_util_takes [OF inv b]
  have "ids_ok (pw_next w') (add_mset c (pool_idle (pw_pool w') + image_mset snd (mset (pw_busy w)) + util_held (pw_util_busy w)))"
    using pool_inv_begin_util [OF inv, of now key] tk(1,2) b by (simp add: pool_inv_def all_clients_def)
  from ids_unique [OF this] tk(3,4) util_held_free
  show "cl_key c = key" "c \<notin># pool_idle (pw_pool w')" "c \<notin> snd ` set (pw_busy w)" "Some c \<notin> snd ` set (pw_util_busy w)"
    "c \<in># pool_idle (pw_pool w)" by auto
qed

section \<open>One call\<close>

record QuackapiHttpFetchResult =
  fr_status :: int
  fr_body :: string
  fr_reason :: string
  fr_success :: bool
  fr_request_error :: string
  fr_headers :: "(string \<times> string) list"
  fr_reused_connection :: bool
  fr_typed_result :: "row list option"

text \<open>What the vendored client returns: an error by its text, or a response.\<close>

datatype httplib_result =
    HTTPLIB_ERROR string
  | HTTPLIB_RESPONSE int string string "(string \<times> string) list"

text \<open>
  DuckDB's HTTP library: the split of a URL into path and origin, the name of the client in use,
  status codes, and the insertion of a header. \<open>fe_config_error\<close> is the text of a configuration error.
\<close>

record fetch_env =
  fe_util :: string_util
  fe_decompose :: "string \<Rightarrow> string \<times> string"
  fe_util_name :: string
  fe_status_code :: "int \<Rightarrow> int"
  fe_insert :: "string \<Rightarrow> string \<Rightarrow> (string \<times> string) list \<Rightarrow> (string \<times> string) list"
  fe_config_error :: "string \<Rightarrow> string"
  fe_utf8 :: "string \<Rightarrow> bool"

definition HTTP_STATUS_INVALID :: int where "HTTP_STATUS_INVALID = 0"

definition new_fetch_result :: QuackapiHttpFetchResult where
  "new_fetch_result = \<lparr>fr_status = HTTP_STATUS_INVALID, fr_body = [], fr_reason = [], fr_success = False, fr_request_error = [],
     fr_headers = [], fr_reused_connection = False, fr_typed_result = None\<rparr>"

definition fetch_ok :: "QuackapiHttpFetchResult \<Rightarrow> bool" where
  "fetch_ok r = (fr_success r \<and> fr_request_error r = [])"

definition insert_all :: "fetch_env \<Rightarrow> (string \<times> string) list \<Rightarrow> (string \<times> string) list \<Rightarrow> (string \<times> string) list" where
  "insert_all E extra headers = fold (\<lambda>(k, v). fe_insert E k v) extra headers"

definition FromHttplibResult :: "fetch_env \<Rightarrow> httplib_result \<Rightarrow> QuackapiHttpFetchResult" where
  "FromHttplibResult E res = (case res of
     HTTPLIB_ERROR e \<Rightarrow> new_fetch_result\<lparr>fr_request_error := e\<rparr>
   | HTTPLIB_RESPONSE status body reason headers \<Rightarrow>
       new_fetch_result\<lparr>fr_status := fe_status_code E status, fr_body := body, fr_reason := reason,
         fr_success := (status \<ge> 200 \<and> status < 400), fr_headers := insert_all E headers []\<rparr>)"

text \<open>DuckDB's response, with the error of the transport it records; a null pointer is \<open>None\<close>.\<close>

definition FromResponse :: "(int \<times> string \<times> string \<times> bool \<times> string \<times> (string \<times> string) list) option \<Rightarrow> QuackapiHttpFetchResult" where
  "FromResponse response = (case response of
     None \<Rightarrow> new_fetch_result\<lparr>fr_request_error := ''null HTTP response''\<rparr>
   | Some (status, body, reason, success, request_error, headers) \<Rightarrow>
       new_fetch_result\<lparr>fr_status := status, fr_body := body, fr_reason := reason, fr_success := success,
         fr_request_error := request_error, fr_headers := headers\<rparr>)"

definition SplitURL :: "fetch_env \<Rightarrow> string \<Rightarrow> string \<times> string" where
  "SplitURL E url = (case fe_decompose E url of (path, origin) \<Rightarrow> (origin, if path = [] then ''/'' else path))"

definition IsPlainHTTP :: "fetch_env \<Rightarrow> string \<Rightarrow> bool" where
  "IsPlainHTTP E url = su_starts_with (fe_util E) (su_lower (fe_util E) url) ''http://''"

text \<open>The timeouts set at every checkout, as seconds and microseconds.\<close>

record client_timeouts =
  to_max_ms :: int
  to_read :: "int \<times> int"
  to_write :: "int \<times> int"
  to_connect :: "int \<times> int"

definition client_timeouts_for :: "int \<Rightarrow> client_timeouts" where
  "client_timeouts_for timeout_ms =
     (let parts = (\<lambda>ms. (ms div 1000, ms mod 1000 * 1000)); connect_ms = min timeout_ms (OUTBOUND_CONNECT_TIMEOUT_SECONDS * 1000)
      in \<lparr>to_max_ms = timeout_ms, to_read = parts timeout_ms, to_write = parts timeout_ms, to_connect = parts connect_ms\<rparr>)"

text \<open>
  What a call meets: the times of its two accesses to the pool, what remains of its deadline,
  whether the caller is interrupted when the answer is there, and the transports. \<open>Inl\<close> is the text of an exception.
\<close>

record post_request =
  po_path :: string
  po_headers :: "(string \<times> string) list"
  po_body :: string
  po_content_type :: string

record call_env =
  ce_take_time :: int
  ce_give_time :: int
  ce_timeout_ms :: int
  ce_interrupted :: bool
  ce_plain :: "client_timeouts \<Rightarrow> string \<Rightarrow> post_request \<Rightarrow> string + httplib_result"
  ce_util :: "int \<times> int \<Rightarrow> string \<Rightarrow> post_request \<Rightarrow> bool \<times> (string + (int \<times> string \<times> string \<times> bool \<times> string \<times> (string \<times> string) list) option)"

definition WithPlainClient :: "fetch_env \<Rightarrow> call_env \<Rightarrow> string \<Rightarrow> post_request \<Rightarrow> pool_world \<Rightarrow> pool_world \<times> (string + QuackapiHttpFetchResult)" where
  "WithPlainClient E K origin request w = (case begin_plain (ce_take_time K) origin w of
     (w1, c, reused) \<Rightarrow> (case ce_plain K (client_timeouts_for (ce_timeout_ms K)) origin request of
         Inl e \<Rightarrow> (end_plain (ce_give_time K) origin c False w1, Inl e)
       | Inr res \<Rightarrow>
           let healthy = ((case res of HTTPLIB_RESPONSE _ _ _ _ \<Rightarrow> True | HTTPLIB_ERROR _ \<Rightarrow> False) \<and> \<not> ce_interrupted K)
           in (end_plain (ce_give_time K) origin c healthy w1, Inr ((FromHttplibResult E res)\<lparr>fr_reused_connection := reused\<rparr>))))"

definition WithUtilClient :: "fetch_env \<Rightarrow> call_env \<Rightarrow> string \<Rightarrow> post_request \<Rightarrow> pool_world \<Rightarrow> pool_world \<times> (string + QuackapiHttpFetchResult)" where
  "WithUtilClient E K url request w =
     (let key = fe_util_name E @ ''|'' @ fst (SplitURL E url)
      in case begin_util (ce_take_time K) key w of (w1, oc) \<Rightarrow>
         (case ce_util K (ce_timeout_ms K div 1000, ce_timeout_ms K mod 1000 * 1000) url request of
            (made, Inl e) \<Rightarrow> (end_util (ce_give_time K) key oc made False w1, Inl e)
          | (made, Inr response) \<Rightarrow>
              let result = (FromResponse response)\<lparr>fr_reused_connection := (oc \<noteq> None)\<rparr>
              in (end_util (ce_give_time K) key oc made (fr_request_error result = []) w1, Inr result)))"

definition Post :: "fetch_env \<Rightarrow> call_env \<Rightarrow> string \<Rightarrow> string \<Rightarrow> string \<Rightarrow> (string \<times> string) list \<Rightarrow> pool_world
    \<Rightarrow> pool_world \<times> (string + QuackapiHttpFetchResult)" where
  "Post E K url body content_type extra_headers w =
     (if IsPlainHTTP E url then
        (case SplitURL E url of (origin, path) \<Rightarrow> WithPlainClient E K origin
           \<lparr>po_path = path, po_headers = extra_headers, po_body = body,
            po_content_type = (if content_type = [] then ''application/octet-stream'' else content_type)\<rparr> w)
      else if fe_util_name E = ''Built-In'' then
        (w, Inl (fe_config_error E (''quackapi outbound POST over https requires an HTTP client with full method support. '' @
           ''LOAD curl_httpfs (recommended) or LOAD httpfs, then retry. Active HTTPUtil is '' @ [CHR 0x27] @ fe_util_name E @ [CHR 0x27] @ ''.'')))
      else WithUtilClient E K url
        \<lparr>po_path = url, po_headers = insert_all E extra_headers (if content_type \<noteq> [] then fe_insert E ''Content-Type'' content_type [] else []),
         po_body = body, po_content_type = content_type\<rparr> w)"

section \<open>Receipts and settings\<close>

record fetch_receipt =
  re_status :: int
  re_reason :: string
  re_body :: "string option"
  re_headers :: "(string \<times> string) list"
  re_error :: "string option"
  re_reused_connection :: bool
  re_body_blob :: string
  re_rows :: "row list option"

definition ToValue :: "fetch_env \<Rightarrow> QuackapiHttpFetchResult \<Rightarrow> fetch_receipt" where
  "ToValue E r =
     \<lparr>re_status = fr_status r, re_reason = fr_reason r, re_body = (if fe_utf8 E (fr_body r) then Some (fr_body r) else None),
      re_headers = fr_headers r, re_error = (if fr_request_error r = [] then None else Some (fr_request_error r)),
      re_reused_connection = fr_reused_connection r, re_body_blob = fr_body r, re_rows = fr_typed_result r\<rparr>"

text \<open>A MAP argument: its entries are structs of a key and a value, each possibly null.\<close>

definition HeadersFromValue :: "string option list list option \<Rightarrow> (string \<times> string) list" where
  "HeadersFromValue value = (case value of
     None \<Rightarrow> []
   | Some entries \<Rightarrow> fold (\<lambda>kv out. case kv of
       [Some k, v] \<Rightarrow> AList.update k (case v of Some x \<Rightarrow> x | None \<Rightarrow> []) out
     | _ \<Rightarrow> out) entries [])"

text \<open>A setting is \<open>None\<close> where it is unknown or null.\<close>

definition PositiveSetting :: "string \<Rightarrow> int option \<Rightarrow> int \<Rightarrow> int result" where
  "PositiveSetting name setting fallback = (case setting of
     None \<Rightarrow> Inr fallback
   | Some v \<Rightarrow> if v \<le> 0 then Inl (InvalidInput ''%s must be > 0'' [name]) else Inr v)"

definition NonNegativeSetting :: "string \<Rightarrow> int option \<Rightarrow> int \<Rightarrow> int result" where
  "NonNegativeSetting name setting fallback = (case setting of
     None \<Rightarrow> Inr fallback
   | Some v \<Rightarrow> if v < 0 then Inl (InvalidInput ''%s must be >= 0'' [name]) else Inr v)"

text \<open>\<open>context_deadline\<close> is the deadline of the caller's context.\<close>

definition OutboundDeadline :: "int \<Rightarrow> int \<Rightarrow> int option \<Rightarrow> int \<Rightarrow> int result" where
  "OutboundDeadline context_deadline now setting call_timeout_ms =
     (if call_timeout_ms > 0 \<or> setting \<noteq> None then
        let timeout_ms = (if call_timeout_ms > 0 then call_timeout_ms else the setting)
        in if timeout_ms \<le> 0 then Inl (InvalidInput ''quackapi_http_timeout_ms must be > 0'' [])
           else Inr (min context_deadline (after_ms now timeout_ms))
      else Inr context_deadline)"

section \<open>The arguments of a chunk\<close>

text \<open>
  The cells of a row: the positional ones after the URL are present in the longer overloads only.
\<close>

record post_cells =
  pc_url :: "string option"
  pc_body :: "string option"
  pc_content_type :: "string option option"
  pc_headers :: "string option list list option option"
  pc_response_format :: "string option"
  pc_timeout :: "int option"

record post_call =
  pp_url :: string
  pp_body :: string
  pp_content_type :: string
  pp_headers :: "(string \<times> string) list"
  pp_format :: ResponseFormat
  pp_deadline :: int

definition post_skips :: "post_cells \<Rightarrow> bool" where
  "post_skips c = (pc_url c = None \<or> pc_body c = None \<or> pc_content_type c = Some None \<or> pc_headers c = Some None)"

definition prepare_post :: "string_util \<Rightarrow> (string \<Rightarrow> (double \<times> nat) option) \<Rightarrow> int \<Rightarrow> int \<Rightarrow> int option \<Rightarrow> post_cells \<Rightarrow> post_call option result" where
  "prepare_post U stod context_deadline now setting c =
     (if post_skips c then Inr None
      else case ParseResponseFormat U (case pc_response_format c of None \<Rightarrow> ''raw'' | Some f \<Rightarrow> f) of
        Inl e \<Rightarrow> Inl e
      | Inr format \<Rightarrow>
          let call_timeout_ms = (case pc_timeout c of None \<Rightarrow> 0 | Some t \<Rightarrow> t)
          in if pc_timeout c \<noteq> None \<and> call_timeout_ms \<le> 0 then Inl (InvalidInput ''timeout_ms must be > 0'' [])
             else case OutboundDeadline context_deadline now setting call_timeout_ms of
               Inl e \<Rightarrow> Inl e
             | Inr deadline \<Rightarrow>
                 (case ApplyResponseAccept U stod (case pc_headers c of Some h \<Rightarrow> HeadersFromValue h | None \<Rightarrow> []) format of
                    Inl e \<Rightarrow> Inl e
                  | Inr headers \<Rightarrow> Inr (Some \<lparr>pp_url = the (pc_url c), pp_body = (case pc_body c of Some b \<Rightarrow> b | None \<Rightarrow> []),
                      pp_content_type = (case pc_content_type c of Some (Some ct) \<Rightarrow> ct | _ \<Rightarrow> ''application/json''),
                      pp_headers = headers, pp_format = format, pp_deadline = deadline\<rparr>)))"

text \<open>The first row that raises makes the whole chunk raise, before any call is made.\<close>

fun prepare_chunk :: "(post_cells \<Rightarrow> post_call option result) \<Rightarrow> post_cells list \<Rightarrow> post_call option list result" where
  "prepare_chunk prepare [] = Inr []"
| "prepare_chunk prepare (c # cs) = (case prepare c of
     Inl e \<Rightarrow> Inl e
   | Inr p \<Rightarrow> (case prepare_chunk prepare cs of Inl e \<Rightarrow> Inl e | Inr ps \<Rightarrow> Inr (p # ps)))"

section \<open>Decoding a response\<close>

text \<open>The decoder of the format yields rows, an exception by its text, or the interruption of the caller.\<close>

datatype decode_outcome = DECODE_INTERRUPTED | DECODE_FAILED string | DECODED "row list"

definition response_limit :: "(int \<times> int) option \<Rightarrow> int option \<Rightarrow> int result" where
  "response_limit serving_budget setting = (case serving_budget of
     Some (_, limit) \<Rightarrow> Inr limit
   | None \<Rightarrow> PositiveSetting ''quackapi_max_response_bytes'' setting (16 * 1024 * 1024))"

text \<open>\<open>None\<close> is the interruption; any other exception becomes the error of the receipt.\<close>

definition DecodePostResponse :: "fetch_env \<Rightarrow> (exn \<Rightarrow> string) \<Rightarrow> (ResponseFormat \<Rightarrow> string \<Rightarrow> nat \<Rightarrow> decode_outcome) \<Rightarrow> (int \<times> int) option \<Rightarrow> int option
    \<Rightarrow> ResponseFormat \<Rightarrow> QuackapiHttpFetchResult \<Rightarrow> QuackapiHttpFetchResult option" where
  "DecodePostResponse E what decode serving_budget setting format r =
     (if format = RAW \<or> fr_status r < 200 \<or> fr_status r \<ge> 300 then Some r
      else let failed = (\<lambda>msg. Some (r\<lparr>fr_request_error := msg\<rparr>))
        in if \<not> HasResponseType (fe_util E) (fr_headers r) format then
             failed (what (InvalidInput ''response Content-Type does not match response_format'' []))
           else case response_limit serving_budget setting of
             Inl e \<Rightarrow> failed (what e)
           | Inr limit \<Rightarrow>
               if length (fr_body r) > nat limit then failed (what (InvalidInput ''response body exceeds quackapi_max_response_bytes'' []))
               else case decode format (fr_body r) (nat limit) of
                 DECODE_INTERRUPTED \<Rightarrow> None
               | DECODE_FAILED e \<Rightarrow> failed e
               | DECODED rows \<Rightarrow> Some (r\<lparr>fr_typed_result := Some rows\<rparr>))"

section \<open>The calls of a chunk\<close>

text \<open>
  With several rows to call, tasks take row numbers from a shared counter until they pass the last one; an
  interrupted caller stops the tasks between rows. \<open>perform\<close> has the result that the call of a row gives.
\<close>

datatype fan_task = WAITING | PERFORMING nat | ENDED

record 'r fan_state =
  fs_cursor :: nat
  fs_tasks :: "fan_task list"
  fs_out :: "nat \<Rightarrow> 'r option"
  fs_performed :: "nat list"
  fs_interrupted :: bool

definition active_rows :: "bool list \<Rightarrow> nat list" where
  "active_rows skip = filter (\<lambda>i. \<not> skip ! i) [0..<length skip]"

definition fan_start :: "bool list \<Rightarrow> 'r fan_state" where
  "fan_start skip = \<lparr>fs_cursor = 0, fs_tasks = replicate (min (length (active_rows skip)) MAX_OUTBOUND_FANOUT) WAITING,
     fs_out = (\<lambda>i. None), fs_performed = [], fs_interrupted = False\<rparr>"

inductive fan_step :: "bool list \<Rightarrow> (nat \<Rightarrow> 'r) \<Rightarrow> 'r fan_state \<Rightarrow> 'r fan_state \<Rightarrow> bool" for skip perform where
  stop: "t < length (fs_tasks s) \<Longrightarrow> fs_tasks s ! t = WAITING \<Longrightarrow>
    fan_step skip perform s (s\<lparr>fs_tasks := (fs_tasks s)[t := ENDED], fs_interrupted := True\<rparr>)"
| last: "t < length (fs_tasks s) \<Longrightarrow> fs_tasks s ! t = WAITING \<Longrightarrow> fs_cursor s \<ge> length skip \<Longrightarrow>
    fan_step skip perform s (s\<lparr>fs_tasks := (fs_tasks s)[t := ENDED], fs_cursor := fs_cursor s + 1\<rparr>)"
| skipped: "t < length (fs_tasks s) \<Longrightarrow> fs_tasks s ! t = WAITING \<Longrightarrow> fs_cursor s < length skip \<Longrightarrow> skip ! fs_cursor s \<Longrightarrow>
    fan_step skip perform s (s\<lparr>fs_cursor := fs_cursor s + 1\<rparr>)"
| take: "t < length (fs_tasks s) \<Longrightarrow> fs_tasks s ! t = WAITING \<Longrightarrow> fs_cursor s < length skip \<Longrightarrow> \<not> skip ! fs_cursor s \<Longrightarrow>
    fan_step skip perform s (s\<lparr>fs_tasks := (fs_tasks s)[t := PERFORMING (fs_cursor s)], fs_cursor := fs_cursor s + 1,
      fs_performed := fs_performed s @ [fs_cursor s]\<rparr>)"
| answer: "t < length (fs_tasks s) \<Longrightarrow> fs_tasks s ! t = PERFORMING i \<Longrightarrow>
    fan_step skip perform s (s\<lparr>fs_tasks := (fs_tasks s)[t := WAITING], fs_out := (fs_out s)(i \<mapsto> perform i)\<rparr>)"

inductive_cases fan_stepE: "fan_step skip perform s s'"

text \<open>A row's exception becomes the error of its receipt; \<open>Inl\<close> is the text of the exception.\<close>

definition run_one :: "string + QuackapiHttpFetchResult \<Rightarrow> QuackapiHttpFetchResult" where
  "run_one outcome = (case outcome of Inl e \<Rightarrow> new_fetch_result\<lparr>fr_request_error := e\<rparr> | Inr r \<Rightarrow> r)"

text \<open>At most one active row: it is called inline. Otherwise the results are those of a run of the tasks to its end.\<close>

definition fan_inline :: "bool list \<Rightarrow> (nat \<Rightarrow> 'r) \<Rightarrow> nat \<Rightarrow> 'r option" where
  "fan_inline skip perform = fold (\<lambda>i out. if skip ! i then out else out(i \<mapsto> perform i)) [0..<length skip] (\<lambda>i. None)"

inductive FanOutRequests :: "bool list \<Rightarrow> (nat \<Rightarrow> 'r) \<Rightarrow> (nat \<Rightarrow> 'r option) \<Rightarrow> bool" where
  inline: "length (active_rows skip) \<le> 1 \<Longrightarrow> FanOutRequests skip perform (fan_inline skip perform)"
| tasks: "1 < length (active_rows skip) \<Longrightarrow> (fan_step skip perform)\<^sup>*\<^sup>* (fan_start skip) s \<Longrightarrow> \<nexists>s'. fan_step skip perform s s' \<Longrightarrow>
    \<not> fs_interrupted s \<Longrightarrow> FanOutRequests skip perform (fs_out s)"

text \<open>What the results should be: one for each row that is not skipped.\<close>

definition row_results :: "bool list \<Rightarrow> (nat \<Rightarrow> 'r) \<Rightarrow> nat \<Rightarrow> 'r option" where
  "row_results skip perform i = (if i < length skip \<and> \<not> skip ! i then Some (perform i) else None)"

text \<open>Rows below the counter are skipped, in the hands of a task, or done.\<close>

definition in_hand :: "fan_task list \<Rightarrow> nat set" where
  "in_hand tasks = {i. PERFORMING i \<in> set tasks}"

definition fan_inv :: "bool list \<Rightarrow> (nat \<Rightarrow> 'r) \<Rightarrow> 'r fan_state \<Rightarrow> bool" where
  "fan_inv skip perform s =
     (distinct (fs_performed s) \<and>
      set (fs_performed s) = {i. i < fs_cursor s \<and> i < length skip \<and> \<not> skip ! i} \<and>
      (\<forall>i r. fs_out s i = Some r \<longrightarrow> i \<in> set (fs_performed s) \<and> r = perform i) \<and>
      set (fs_performed s) \<subseteq> in_hand (fs_tasks s) \<union> dom (fs_out s) \<and>
      in_hand (fs_tasks s) \<subseteq> set (fs_performed s) \<and>
      (ENDED \<in> set (fs_tasks s) \<longrightarrow> fs_interrupted s \<or> length skip \<le> fs_cursor s))"

lemma fan_start_inv: "fan_inv skip perform (fan_start skip)"
  by (auto simp: fan_inv_def fan_start_def in_hand_def)

lemma in_hand_update:
  assumes "t < length ts"
  shows "ts ! t = WAITING \<Longrightarrow> x \<in> {WAITING, ENDED} \<Longrightarrow> in_hand (ts[t := x]) = in_hand ts"
    and "ts ! t = WAITING \<Longrightarrow> in_hand (ts[t := PERFORMING j]) = insert j (in_hand ts)"
    and "ts ! t = PERFORMING j \<Longrightarrow> in_hand (ts[t := WAITING]) \<subseteq> in_hand ts \<and> in_hand ts \<subseteq> insert j (in_hand (ts[t := WAITING]))"
  using assms by (auto simp: in_hand_def in_set_conv_nth nth_list_update) (metis fan_task.distinct(1) fan_task.inject nth_list_update)+

lemma ended_update: "ENDED \<in> set (ts[t := x]) \<Longrightarrow> x \<noteq> ENDED \<Longrightarrow> ENDED \<in> set ts"
  using set_update_subset_insert by fastforce

lemma fan_step_inv:
  assumes "fan_step skip perform s s'" and "fan_inv skip perform s"
  shows "fan_inv skip perform s'"
  using assms(1)
proof cases
  case (answer t i)
  note h = in_hand_update(3) [OF answer(2,3)]
  have i: "i \<in> set (fs_performed s)" using answer assms(2) nth_mem [of t "fs_tasks s"] by (auto simp: fan_inv_def in_hand_def)
  have "set (fs_performed s) \<subseteq> in_hand ((fs_tasks s)[t := WAITING]) \<union> dom ((fs_out s)(i \<mapsto> perform i))"
    using assms(2) h unfolding fan_inv_def by (simp, blast)
  then show ?thesis using assms(2) h i ended_update [of "fs_tasks s" t WAITING] unfolding fan_inv_def answer(1)
    by (auto simp: fun_upd_apply simp del: dom_fun_upd split: if_splits)
next
  case (take t)
  note h = in_hand_update(2) [OF take(2,3)]
  show ?thesis
    using assms(2) take(4,5) ended_update [of "fs_tasks s" t "PERFORMING (fs_cursor s)"] unfolding fan_inv_def take(1)
    by (simp add: h less_Suc_eq) blast
next
  case (skipped t)
  then show ?thesis using assms(2) unfolding fan_inv_def by (auto simp: less_Suc_eq)
next
  case (stop t)
  show ?thesis using assms(2) in_hand_update(1) [OF stop(2,3), of ENDED] unfolding fan_inv_def stop(1) by (simp, blast)
next
  case (last t)
  show ?thesis using assms(2) last(4) in_hand_update(1) [OF last(2,3)] unfolding fan_inv_def last(1) by (simp add: less_Suc_eq) auto
qed

text \<open>Every step brings the run nearer to its end.\<close>

fun task_weight :: "fan_task \<Rightarrow> nat" where
  "task_weight ENDED = 0" | "task_weight WAITING = 1" | "task_weight (PERFORMING i) = 2"

definition fan_measure :: "bool list \<Rightarrow> 'r fan_state \<Rightarrow> nat" where
  "fan_measure skip s = 2 * (length skip - fs_cursor s) + sum_list (map task_weight (fs_tasks s))"

lemma sum_list_update_nat: "t < length xs \<Longrightarrow> sum_list (map f (xs[t := x])) + f (xs ! t) = sum_list (map f xs) + (f x :: nat)"
  by (induction xs arbitrary: t) (auto split: nat.splits)

lemma fan_step_measure:
  assumes "fan_step skip perform s s'"
  shows "fan_measure skip s' < fan_measure skip s"
  using assms
proof cases
  case (answer t i)
  with sum_list_update_nat [OF answer(2), of task_weight WAITING] show ?thesis by (simp add: fan_measure_def)
next
  case (take t)
  with sum_list_update_nat [OF take(2), of task_weight "PERFORMING (fs_cursor s)"] show ?thesis by (simp add: fan_measure_def)
next
  case (stop t)
  with sum_list_update_nat [OF stop(2), of task_weight ENDED] show ?thesis by (simp add: fan_measure_def)
next
  case (last t)
  with sum_list_update_nat [OF last(2), of task_weight ENDED] show ?thesis by (simp add: fan_measure_def)
qed (simp add: fan_measure_def)

lemma fan_steps_inv: "(fan_step skip perform)\<^sup>*\<^sup>* s s' \<Longrightarrow> fan_inv skip perform s \<Longrightarrow> fan_inv skip perform s'"
  by (induction rule: rtranclp_induct) (auto intro: fan_step_inv)

lemma fan_steps_length: "(fan_step skip perform)\<^sup>*\<^sup>* s s' \<Longrightarrow> length (fs_tasks s') = length (fs_tasks s)"
  by (induction rule: rtranclp_induct) (auto elim!: fan_stepE)

text \<open>A task that has not ended can go on.\<close>

lemma fan_step_exists:
  assumes "t < length (fs_tasks s)" and "fs_tasks s ! t \<noteq> ENDED"
  shows "\<exists>s'. fan_step skip perform s s'"
proof (cases "fs_tasks s ! t")
  case WAITING
  with assms(1) show ?thesis by (blast intro: fan_step.stop)
qed (use assms in \<open>auto intro: fan_step.answer\<close>)

text \<open>
  C18. Each row of a chunk is called exactly once: in every interleaving of the tasks no row is taken twice and
  no skipped row is taken, a run cannot go on for ever nor stop before its tasks have ended, and a run that
  was not interrupted ends with the result of every row that is not skipped.
\<close>

theorem fan_out_calls_each_row_once:
  assumes "(fan_step skip perform)\<^sup>*\<^sup>* (fan_start skip) s"
  shows "distinct (fs_performed s) \<and> set (fs_performed s) \<subseteq> set (active_rows skip) \<and>
    (\<forall>s'. fan_step skip perform s s' \<longrightarrow> fan_measure skip s' < fan_measure skip s) \<and>
    ((\<nexists>s'. fan_step skip perform s s') \<longrightarrow> \<not> fs_interrupted s \<longrightarrow> fs_out s = row_results skip perform)"
proof -
  have inv: "fan_inv skip perform s" using fan_steps_inv [OF assms] fan_start_inv by blast
  have active: "set (active_rows skip) = {i. i < length skip \<and> \<not> skip ! i}" by (auto simp: active_rows_def)
  have "fs_out s i = row_results skip perform i" if stuck: "\<nexists>s'. fan_step skip perform s s'" and run: "\<not> fs_interrupted s" for i
  proof (cases "active_rows skip = []")
    case True
    then have "set (fs_performed s) = {}" using inv active by (auto simp: fan_inv_def)
    with True active inv show ?thesis by (cases "fs_out s i") (auto simp: fan_inv_def row_results_def)
  next
    case False
    have ended: "t < length (fs_tasks s) \<Longrightarrow> fs_tasks s ! t = ENDED" for t using fan_step_exists [of t s skip perform] stuck by blast
    have "0 < length (fs_tasks s)" using fan_steps_length [OF assms] False by (simp add: fan_start_def MAX_OUTBOUND_FANOUT_def)
    then have "ENDED \<in> set (fs_tasks s)" using ended nth_mem by metis
    then have "length skip \<le> fs_cursor s" using inv run by (simp add: fan_inv_def)
    moreover have "in_hand (fs_tasks s) = {}" using ended by (auto simp: in_hand_def in_set_conv_nth)
    moreover have "{i. i < length skip \<and> \<not> skip ! i} \<subseteq> set (fs_performed s)" using inv calculation(1) by (auto simp: fan_inv_def)
    ultimately have "set (active_rows skip) \<subseteq> dom (fs_out s)" using inv active unfolding fan_inv_def by blast
    then show ?thesis using inv active by (cases "fs_out s i") (auto simp: fan_inv_def row_results_def)
  qed
  then show ?thesis using inv active fan_step_measure by (auto simp: fan_inv_def)
qed

lemma fan_inline_results: "fan_inline skip perform = row_results skip perform"
proof -
  have "fold (\<lambda>i out. if skip ! i then out else out(i \<mapsto> perform i)) [0..<n] (\<lambda>i. None) = (\<lambda>i. if i < n \<and> \<not> skip ! i then Some (perform i) else None)" for n
    by (induction n) (auto simp: fun_eq_iff less_Suc_eq)
  then show ?thesis by (auto simp: fan_inline_def row_results_def)
qed

lemma fan_out_results: "FanOutRequests skip perform out \<Longrightarrow> out = row_results skip perform"
  by (induction rule: FanOutRequests.induct) (simp_all add: fan_inline_results, use fan_out_calls_each_row_once in blast)

section \<open>Negotiation: the reference\<close>

text \<open>The ranges that match the type, each with how specific it is and its quality.\<close>

definition matching_ranges :: "string_util \<Rightarrow> (string \<Rightarrow> (double \<times> nat) option) \<Rightarrow> string list \<Rightarrow> string \<Rightarrow> (int \<times> rat) list" where
  "matching_ranges U stod ranges expected =
     filter (\<lambda>m. 0 \<le> fst m) (concat (map (\<lambda>entry. case su_split U entry (CHR '';'') of
       [] \<Rightarrow> [] | media # params \<Rightarrow> [(range_match (QuackapiTrim U media) expected, range_quality U stod params 1)]) ranges))"

lemma range_quality_nonneg: "0 \<le> q \<Longrightarrow> 0 \<le> range_quality U stod params q"
proof (induction params arbitrary: q)
  case (Cons part parts)
  have "0 \<le> range_q U stod v" for v
    by (auto simp: range_q_def Let_def split: option.splits double.splits prod.splits)
  with Cons show ?case by (auto split: list.splits)
qed simp

definition best_range :: "(int \<times> rat) list \<Rightarrow> int \<times> rat \<Rightarrow> bool" where
  "best_range ms best =
     (0 \<le> snd best \<and> - 1 \<le> fst best \<and> (fst best = - 1 \<longrightarrow> ms = [] \<and> snd best = 0) \<and> (fst best \<noteq> - 1 \<longrightarrow> fst best \<in> fst ` set ms) \<and> (\<forall>m \<in> set ms. fst m \<le> fst best) \<and>
      (0 < snd best \<longleftrightarrow> (\<exists>m \<in> set ms. fst m = fst best \<and> 0 < snd m)))"

lemma accept_range_best:
  "best_range ms best \<Longrightarrow> best_range (ms @ matching_ranges U stod [entry] expected) (accept_range U stod expected entry best)"
proof (cases "su_split U entry (CHR '';'')")
  case (Cons media params)
  assume b: "best_range ms best"
  obtain s a where best: "best = (s, a)" by fastforce
  let ?m = "range_match (QuackapiTrim U media) expected" and ?q = "range_quality U stod params 1"
  have q: "0 \<le> ?q" by (simp add: range_quality_nonneg)
  show ?thesis
  proof (cases "?m < 0")
    case True
    with Cons b show ?thesis by (simp add: accept_range_def matching_ranges_def Let_def)
  next
    case False
    then have new: "matching_ranges U stod [entry] expected = [(?m, ?q)]" using Cons by (simp add: matching_ranges_def)
    consider "?m < s" | "?m = s" | "?m > s" by linarith
    then show ?thesis
    proof cases
      case 1
      then show ?thesis using Cons b new False by (auto simp: accept_range_def best best_range_def Let_def)
    next
      case 2
      then show ?thesis using Cons b new False q by (auto simp: accept_range_def best best_range_def Let_def max_def)
    next
      case 3
      then show ?thesis using Cons b new False q by (fastforce simp: accept_range_def best best_range_def Let_def)
    qed
  qed
qed (simp add: accept_range_def matching_ranges_def)

lemma matching_ranges_Cons: "matching_ranges U stod (entry # ranges) expected = matching_ranges U stod [entry] expected @ matching_ranges U stod ranges expected"
  by (simp add: matching_ranges_def)

lemma accept_ranges_best:
  "best_range ms best \<Longrightarrow> best_range (ms @ matching_ranges U stod ranges expected) (fold (accept_range U stod expected) ranges best)"
proof (induction ranges arbitrary: ms best)
  case Nil
  then show ?case by (simp add: matching_ranges_def)
next
  case (Cons entry ranges)
  from Cons.IH [OF accept_range_best [OF Cons.prems]] show ?case by (simp add: matching_ranges_Cons [of U stod entry ranges])
qed

text \<open>
  A type is accepted exactly when one of the most specific ranges that match it has a positive quality: a
  refusal of the type itself overrides any wildcard, in whatever order they are written.
\<close>

theorem accepted_by_most_specific:
  "AcceptsResponseType U stod accept expected \<longleftrightarrow>
    (\<exists>m \<in> set (matching_ranges U stod (su_split U (su_lower U accept) (CHR '','')) expected). 0 < snd m \<and>
      filter (\<lambda>k. fst k > fst m) (matching_ranges U stod (su_split U (su_lower U accept) (CHR '','')) expected) = [])"
proof -
  define ms where "ms = matching_ranges U stod (su_split U (su_lower U accept) (CHR '','')) expected"
  obtain s a where f: "fold (accept_range U stod expected) (su_split U (su_lower U accept) (CHR '','')) (- 1, 0) = (s, a)" by fastforce
  have b: "best_range ([] @ ms) (s, a)" unfolding ms_def f [symmetric] by (rule accept_ranges_best) (simp add: best_range_def)
  have "(\<forall>k \<in> set ms. fst k \<le> fst m) \<longleftrightarrow> fst m = s" if "m \<in> set ms" for m
  proof
    have "s \<in> fst ` set ms" using b that by (auto simp: best_range_def)
    then show "fst m = s" if "\<forall>k \<in> set ms. fst k \<le> fst m" using that b \<open>m \<in> set ms\<close> unfolding best_range_def by fastforce
  qed (use b in \<open>simp add: best_range_def\<close>)
  then have "0 < a \<longleftrightarrow> (\<exists>m \<in> set ms. 0 < snd m \<and> (\<forall>k \<in> set ms. fst k \<le> fst m))"
    using b unfolding best_range_def by auto
  then show ?thesis by (simp add: AcceptsResponseType_def f ms_def [symmetric] filter_empty_conv not_less)
qed

text \<open>A decoding request asks for exactly its type, and changes no other header.\<close>

lemma apply_accept_headers:
  assumes "ApplyResponseAccept U stod headers format = Inr headers'" and "format \<noteq> RAW" and "su_lower U ''Accept'' = ''accept''"
  shows "filter (is_accept U) headers' = [(''Accept'', ExpectedResponseType format)] \<and>
    filter (\<lambda>h. \<not> is_accept U h) headers' = filter (\<lambda>h. \<not> is_accept U h) headers"
proof -
  let ?rest = "filter (\<lambda>h. \<not> is_accept U h) headers"
  have h': "headers' = AList.update ''Accept'' (ExpectedResponseType format) ?rest"
    using assms(1,2) by (auto simp: ApplyResponseAccept_def Let_def split: if_splits)
  have "AList.update ''Accept'' v xs = xs @ [(''Accept'', v)]" if "\<forall>h \<in> set xs. \<not> is_accept U h" for v xs
    using that assms(3) by (induction xs) (auto simp: is_accept_def)
  with assms(3) show ?thesis unfolding h' by (simp add: is_accept_def)
qed

section \<open>Calls and the pool\<close>

lemma end_plain_busy: "begin_plain now origin w = (w1, c, reused) \<Longrightarrow> (origin, c) \<in> set (pw_busy w1)"
  by (auto simp: begin_plain_def Let_def split: prod.splits option.splits)

lemma begin_util_busy: "begin_util now key w = (w1, oc) \<Longrightarrow> (key, oc) \<in> set (pw_util_busy w1)"
  by (auto simp: begin_util_def split: prod.splits)

lemma pool_reachable_begin_plain: "pool_reachable w \<Longrightarrow> begin_plain now origin w = (w1, c, reused) \<Longrightarrow> pool_reachable w1"
  by (metis fst_conv pool_reachable.begin_plain)

lemma pool_reachable_begin_util: "pool_reachable w \<Longrightarrow> begin_util now key w = (w1, oc) \<Longrightarrow> pool_reachable w1"
  by (metis fst_conv pool_reachable.begin_util)

lemma WithPlainClient_reachable: "pool_reachable w \<Longrightarrow> pool_reachable (fst (WithPlainClient E K origin request w))"
  by (auto simp: WithPlainClient_def Let_def split: prod.splits sum.splits
    intro!: pool_reachable.end_plain intro: pool_reachable_begin_plain end_plain_busy)

lemma WithUtilClient_reachable: "pool_reachable w \<Longrightarrow> pool_reachable (fst (WithUtilClient E K url request w))"
  by (auto simp: WithUtilClient_def Let_def split: prod.splits sum.splits
    intro!: pool_reachable.end_util intro: pool_reachable_begin_util begin_util_busy)

lemma Post_reachable: "pool_reachable w \<Longrightarrow> pool_reachable (fst (Post E K url body content_type headers w))"
  by (auto simp: Post_def WithPlainClient_reachable WithUtilClient_reachable split: prod.splits)

text \<open>A plain call that failed, or whose caller was interrupted, leaves no connection of its own in the pool.\<close>

theorem failed_call_returns_nothing:
  assumes "WithPlainClient E K origin request w = (w', outcome)" and "pool_reachable w"
    and "\<And>r. outcome = Inr r \<Longrightarrow> fr_request_error r \<noteq> [] \<or> ce_interrupted K"
    and "\<And>e. ce_plain K (client_timeouts_for (ce_timeout_ms K)) origin request \<noteq> Inr (HTTPLIB_ERROR e) \<or> e \<noteq> []"
  shows "pool_idle (pw_pool w') \<subseteq># pool_idle (pw_pool w) \<and> pw_busy w' = pw_busy w"
proof -
  obtain w1 c reused where b: "begin_plain (ce_take_time K) origin w = (w1, c, reused)" by (metis prod.exhaust)
  obtain pool' oc where t: "take_plain (ce_take_time K) origin (pw_pool w) = (pool', oc)" by fastforce
  have tk: "takes origin (pw_pool w) pool' oc" using take_plain_takes [OF _ t] pool_reachable_inv [OF assms(2)] by (simp add: pool_inv_def)
  have "pool_idle pool' \<subseteq># pool_idle (pw_pool w)"
    using tk subset_mset.order_trans [OF mset_subset_eq_add_left] unfolding takes_def by blast
  moreover have w1: "pw_pool w1 = pool'" "pw_busy w1 = (origin, c) # pw_busy w"
    using b t by (auto simp: begin_plain_def Let_def split: option.splits)
  moreover have "w' = end_plain (ce_give_time K) origin c False w1"
    using assms(1,3) b by (auto simp: WithPlainClient_def Let_def FromHttplibResult_def new_fetch_result_def split: sum.splits httplib_result.splits)
  ultimately show ?thesis by (simp add: end_plain_def)
qed

section \<open>Deadlines and decoding\<close>

theorem outbound_deadline_never_later: "OutboundDeadline context_deadline now setting call_timeout_ms = Inr d \<Longrightarrow> d \<le> context_deadline"
  by (auto simp: OutboundDeadline_def Let_def split: if_splits)

text \<open>
  A decoding never changes the status, the body and the headers of a response, and native rows come only from
  a successful response of the type asked for, within the byte limit.
\<close>

theorem decoding_keeps_response:
  assumes "DecodePostResponse E what decode serving_budget setting format r = Some r'"
  shows "fr_status r' = fr_status r \<and> fr_body r' = fr_body r \<and> fr_headers r' = fr_headers r \<and>
    (fr_typed_result r' = fr_typed_result r \<or>
     200 \<le> fr_status r \<and> fr_status r < 300 \<and> HasResponseType (fe_util E) (fr_headers r) format \<and> fr_request_error r' = fr_request_error r \<and>
     (\<exists>limit. response_limit serving_budget setting = Inr limit \<and> length (fr_body r) \<le> nat limit))"
  using assms by (auto simp: DecodePostResponse_def Let_def split: if_splits sum.splits decode_outcome.splits)

section \<open>Witnesses\<close>

definition example_fetch_env :: fetch_env where
  "example_fetch_env = \<lparr>fe_util = ascii_util, fe_decompose = (\<lambda>url. (''/jobs'', url)), fe_util_name = ''Built-In'', fe_status_code = (\<lambda>s. s),
     fe_insert = AList.update, fe_config_error = (\<lambda>m. m), fe_utf8 = (\<lambda>s. True)\<rparr>"

definition refused_call :: call_env where
  "refused_call = \<lparr>ce_take_time = 10, ce_give_time = 20, ce_timeout_ms = 1500, ce_interrupted = False,
     ce_plain = (\<lambda>t origin request. Inr (HTTPLIB_ERROR ''Connection'')), ce_util = (\<lambda>t url request. (False, Inl ''none''))\<rparr>"

definition job_request :: post_request where
  "job_request = \<lparr>po_path = ''/jobs'', po_headers = [], po_body = ''{}'', po_content_type = ''application/json''\<rparr>"

definition used_pool :: pool_world where
  "used_pool = (case begin_plain 0 ''http://a'' new_pool_world of (w, c, reused) \<Rightarrow> end_plain 5 ''http://a'' c True w)"

lemma used_pool_reachable: "pool_reachable used_pool"
  unfolding used_pool_def
  by (auto split: prod.splits intro!: pool_reachable.end_plain intro: pool_reachable_begin_plain pool_reachable.start end_plain_busy)

theorem idle_pool_bounded_witness: "sum_list (map hs_idle (PoolStats (pw_pool used_pool))) \<le> 256"
  using idle_pool_bounded [OF used_pool_reachable] by blast

theorem pooled_connection_exclusive_witness:
  "fst (snd (begin_plain 10 ''http://a'' used_pool)) \<notin># pool_idle (pw_pool (fst (begin_plain 10 ''http://a'' used_pool)))"
proof -
  obtain w' c reused where "begin_plain 10 ''http://a'' used_pool = (w', c, reused)" by (metis prod.exhaust)
  with pooled_connection_exclusive [OF used_pool_reachable] show ?thesis by auto
qed

theorem failed_call_returns_nothing_witness:
  "pool_idle (pw_pool (fst (WithPlainClient example_fetch_env refused_call ''http://a'' job_request used_pool))) \<subseteq># pool_idle (pw_pool used_pool)"
proof -
  obtain w' outcome where r: "WithPlainClient example_fetch_env refused_call ''http://a'' job_request used_pool = (w', outcome)" by fastforce
  have "fr_request_error r \<noteq> []" if "outcome = Inr r" for r
    using r that by (auto simp: WithPlainClient_def refused_call_def FromHttplibResult_def new_fetch_result_def Let_def split: prod.splits)
  moreover have "ce_plain refused_call t origin request \<noteq> Inr (HTTPLIB_ERROR e) \<or> e \<noteq> []" for t origin request e
    by (auto simp: refused_call_def)
  ultimately show ?thesis using failed_call_returns_nothing [OF r used_pool_reachable] r by auto
qed

definition one_taken :: "nat fan_state" where
  "one_taken = (fan_start [False, True, False])\<lparr>fs_tasks := [PERFORMING 0, WAITING], fs_cursor := 1, fs_performed := [0]\<rparr>"

theorem fan_out_calls_each_row_once_witness:
  "distinct (fs_performed one_taken) \<and> set (fs_performed one_taken) \<subseteq> set (active_rows [False, True, False])"
proof -
  have "fan_step [False, True, False] id (fan_start [False, True, False]) one_taken"
    using fan_step.take [of 0 "fan_start [False, True, False]" "[False, True, False]" id]
    by (simp add: one_taken_def fan_start_def active_rows_def MAX_OUTBOUND_FANOUT_def numeral_3_eq_3 numeral_2_eq_2)
  then show ?thesis using fan_out_calls_each_row_once [OF r_into_rtranclp] by blast
qed

theorem outbound_deadline_never_later_witness: "min 5000000000 (after_ms 0 2000) \<le> 5000000000"
  using outbound_deadline_never_later [of 5000000000 0 "Some 600000" 2000 "min 5000000000 (after_ms 0 2000)"] by (simp add: OutboundDeadline_def)

theorem decoding_keeps_response_witness:
  "fr_body (the (DecodePostResponse example_fetch_env (\<lambda>e. ''bad type'') (\<lambda>f b n. DECODE_INTERRUPTED) None None ARROW (new_fetch_result\<lparr>fr_status := 200, fr_body := ''x''\<rparr>))) = ''x''"
proof -
  let ?r = "new_fetch_result\<lparr>fr_status := 200, fr_body := ''x''\<rparr>"
  have "DecodePostResponse example_fetch_env (\<lambda>e. ''bad type'') (\<lambda>f b n. DECODE_INTERRUPTED) None None ARROW ?r = Some (?r\<lparr>fr_request_error := ''bad type''\<rparr>)"
    by (simp add: DecodePostResponse_def HasResponseType_def new_fetch_result_def)
  from decoding_keeps_response [OF this] this show ?thesis by simp
qed

end
