(* ===== verification/OpenApi.thy ===== *)
theory OpenApi
  imports Handler Ddl
begin

text \<open>
  The OpenAPI document of the live routes (\<open>src/src/quackapi_openapi.cpp\<close>): path templates, the
  schema of a DuckDB type, of a parameter and of a request body, the responses of a route, and the
  document \<open>BuildOpenApiDocument\<close> puts together. DuckDB is a parameter (\<open>oas_env\<close>): what
  preparing a statement reports, the parser that finds a column alias, the texts of values and casts.
  The document is built as text, as in the code; the lemmas read it back with the JSON reader of
  \<open>Json\<close>.
\<close>

section \<open>Texts of JSON objects\<close>

text \<open>
  The string constants of the source spell an object member by member. Each key is quoted as
  \<open>JsonString\<close> quotes it: the keys that are constants need no escapes.
\<close>

definition object_members :: "(string \<times> string) list \<Rightarrow> string" where
  "object_members ms = comma_list (map (\<lambda>(key, text). json_quote key @ '':'' @ text) ms)"

definition object_text :: "(string \<times> string) list \<Rightarrow> string" where
  "object_text ms = ''{'' @ object_members ms @ ''}''"

definition array_text :: "string list \<Rightarrow> string" where
  "array_text ts = ''['' @ comma_list ts @ '']''"

section \<open>Paths\<close>

text \<open>\<open>SplitPath\<close> is the router's (\<open>Routing\<close>): the source repeats it word for word.\<close>

definition PathParamNames :: "string \<Rightarrow> string list" where
  "PathParamNames pattern = List.map_filter (\<lambda>ps.
     if ps \<noteq> [] \<and> hd ps = CHR '':'' then Some (tl ps)
     else if length ps \<ge> 2 \<and> hd ps = CHR 0x7B \<and> last ps = CHR 0x7D then Some (butlast (tl ps))
     else None) (SplitPath pattern)"

definition oas_segment :: "string \<Rightarrow> string" where
  "oas_segment ps = ''/'' @ (if ps \<noteq> [] \<and> hd ps = CHR '':'' then ''{'' @ tl ps @ ''}'' else ps)"

definition OasPath :: "string \<Rightarrow> string" where
  "OasPath pattern =
     (let out = (if pattern = [] \<or> hd pattern \<noteq> CHR ''/'' then ''/'' else []) @ concat (map oas_segment (SplitPath pattern))
      in if out = [] then ''/'' else out)"

definition IsClaimsParamName :: "string_util \<Rightarrow> string \<Rightarrow> bool" where
  "IsClaimsParamName U param_name = (su_starts_with U (su_lower U param_name) ''claims_'' \<and> length param_name > 7)"

definition ListContains :: "string_util \<Rightarrow> string list \<Rightarrow> string \<Rightarrow> bool" where
  "ListContains U xs name = any (\<lambda>s. su_lower U s = su_lower U name) xs"

section \<open>Schemas of DuckDB types\<close>

text \<open>What the document reads of a \<open>LogicalType\<close>; \<open>L_OTHER\<close> carries the text of any other type.\<close>

datatype LogicalType =
    L_BOOLEAN | L_TINYINT | L_SMALLINT | L_INTEGER | L_UTINYINT | L_USMALLINT | L_UINTEGER
  | L_BIGINT | L_UBIGINT | L_HUGEINT | L_FLOAT | L_DOUBLE | L_DECIMAL | L_DATE | L_TIME | L_TIME_TZ
  | L_TIMESTAMP | L_TIMESTAMP_TZ | L_TIMESTAMP_SEC | L_TIMESTAMP_MS | L_TIMESTAMP_NS
  | L_LIST LogicalType | L_STRUCT "(string \<times> LogicalType) list" | L_MAP | L_UNION | L_VARIANT
  | L_VARCHAR | L_BLOB | L_UUID | L_UNKNOWN | L_OTHER string

definition scalar_schema :: "string_util \<Rightarrow> LogicalType \<Rightarrow> string" where
  "scalar_schema U type =
     (if type = L_BOOLEAN then object_text [(''type'', json_quote ''boolean'')]
      else if type \<in> {L_TINYINT, L_SMALLINT, L_INTEGER, L_UTINYINT, L_USMALLINT, L_UINTEGER} then
        object_text [(''type'', json_quote ''integer'')]
      else if type \<in> {L_BIGINT, L_UBIGINT, L_HUGEINT} then
        object_text [(''type'', json_quote ''integer''), (''format'', json_quote ''int64'')]
      else if type \<in> {L_FLOAT, L_DOUBLE} then
        object_text [(''type'', json_quote ''number''), (''format'', json_quote ''double'')]
      else if type = L_DECIMAL then object_text [(''type'', json_quote ''number'')]
      else if type = L_DATE then object_text [(''type'', json_quote ''string''), (''format'', json_quote ''date'')]
      else if type \<in> {L_TIME, L_TIME_TZ} then
        object_text [(''type'', json_quote ''string''), (''format'', json_quote ''time'')]
      else if type \<in> {L_TIMESTAMP, L_TIMESTAMP_TZ, L_TIMESTAMP_SEC, L_TIMESTAMP_MS, L_TIMESTAMP_NS} then
        object_text [(''type'', json_quote ''string''), (''format'', json_quote ''date-time'')]
      else if type \<in> {L_MAP, L_UNION} then object_text [(''type'', json_quote ''object'')]
      else if type = L_VARIANT then object_text []
      else if type \<in> {L_VARCHAR, L_BLOB} then object_text [(''type'', json_quote ''string'')]
      else if type = L_UUID then object_text [(''type'', json_quote ''string''), (''format'', json_quote ''uuid'')]
      else let name = su_lower U (case type of L_OTHER text \<Rightarrow> text | _ \<Rightarrow> ''UNKNOWN'')
           in if name = ''json'' \<or> su_starts_with U name ''struct'' \<or> su_starts_with U name ''map'' then
                object_text [(''type'', json_quote ''object'')]
              else object_text [(''type'', json_quote ''string'')])"

fun DuckTypeToOas :: "string_util \<Rightarrow> LogicalType \<Rightarrow> string" where
  "DuckTypeToOas U type = (case type of
     L_LIST child \<Rightarrow> object_text [(''type'', json_quote ''array''), (''items'', DuckTypeToOas U child)]
   | L_STRUCT children \<Rightarrow> object_text [(''type'', json_quote ''object''),
       (''properties'', object_text (map (\<lambda>child. (fst child, DuckTypeToOas U (snd child))) children))]
   | _ \<Rightarrow> scalar_schema U type)"

declare DuckTypeToOas.simps [simp del]

definition ParamTypeToOas :: "string_util \<Rightarrow> LogicalType \<Rightarrow> string" where
  "ParamTypeToOas U type =
     (if type = L_UNKNOWN \<or> type = L_VARCHAR then object_text [(''type'', json_quote ''string'')] else DuckTypeToOas U type)"

definition ModeFor :: "string_util \<Rightarrow> string list \<Rightarrow> ResponseMode" where
  "ModeFor U names =
     (if length names \<noteq> 1 then MODE_JSON
      else let lower = su_lower U (names ! 0)
           in if lower = ''html'' then MODE_HTML else if lower = ''text'' then MODE_TEXT else MODE_JSON)"

section \<open>What the document reads of DuckDB\<close>

text \<open>
  \<open>oe_prepare\<close> is \<open>None\<close> when a statement does not prepare; the named parameters come in the order
  of their map. \<open>oe_alias\<close> is the alias of the only item of a lone \<open>SELECT\<close> (\<open>None\<close> also when the
  parser throws). \<open>oe_variant\<close> is the type and text of the value inside a \<open>VARIANT\<close>, \<open>None\<close> when
  the cast to \<open>VARIANT\<close> fails, and \<open>oe_cast\<close> the text of a literal cast to a type.
\<close>

record prepared =
  pp_names :: "string list"
  pp_types :: "LogicalType list"
  pp_expected :: "LogicalType ci_map"
  pp_params :: "string list"

record 'v oas_env =
  oe_prepare :: "string \<Rightarrow> prepared option"
  oe_alias :: "string \<Rightarrow> string option"
  oe_value_text :: "'v \<Rightarrow> string"
  oe_variant :: "'v \<Rightarrow> (LogicalType \<times> string) option"
  oe_cast :: "string \<Rightarrow> LogicalType \<Rightarrow> string option"

section \<open>Schemas of parameters\<close>

definition IsVariantParam :: "string_util \<Rightarrow> 'v QuackapiParamSpec \<Rightarrow> bool" where
  "IsVariantParam U spec = su_ci_equals U (ps_type_name spec) ''VARIANT''"

definition HasNumericParamBounds :: "'v QuackapiParamSpec \<Rightarrow> bool" where
  "HasNumericParamBounds spec = (ps_ge spec \<noteq> None \<or> ps_gt spec \<noteq> None \<or> ps_le spec \<noteq> None \<or> ps_lt spec \<noteq> None)"

definition json_number :: "string \<Rightarrow> bool" where
  "json_number text = (text \<noteq> ''nan'' \<and> text \<noteq> ''inf'' \<and> text \<noteq> ''-inf'')"

definition VariantDefaultJson :: "string_util \<Rightarrow> 'v oas_env \<Rightarrow> 'v QuackapiParamSpec \<Rightarrow> string" where
  "VariantDefaultJson U V spec =
     (if \<not> ps_has_default spec then []
      else if ps_default_is_null spec then ''null''
      else case oe_variant V (ps_default_variant spec) of
        None \<Rightarrow> []
      | Some (type, text) \<Rightarrow>
          if type = L_VARCHAR then json_quote text
          else if type \<in> {L_BOOLEAN, L_TINYINT, L_SMALLINT, L_INTEGER, L_BIGINT, L_HUGEINT, L_UTINYINT, L_USMALLINT,
                          L_UINTEGER, L_UBIGINT, L_OTHER ''UHUGEINT'', L_FLOAT, L_DOUBLE, L_DECIMAL} then
            (if json_number (su_lower U text) then su_lower U text else [])
          else [])"

definition AppendOasProperty :: "string \<Rightarrow> string \<Rightarrow> string \<Rightarrow> string" where
  "AppendOasProperty name json_value schema =
     schema @ (if length schema > 1 then '','' else []) @ json_quote name @ '':'' @ json_value"

definition append_bound :: "'v oas_env \<Rightarrow> string \<Rightarrow> 'v option \<Rightarrow> string \<Rightarrow> string" where
  "append_bound V name bound schema =
     (case bound of None \<Rightarrow> schema | Some v \<Rightarrow> AppendOasProperty name (oe_value_text V v) schema)"

definition append_length :: "string \<Rightarrow> nat option \<Rightarrow> string \<Rightarrow> string" where
  "append_length name bound schema =
     (case bound of None \<Rightarrow> schema | Some n \<Rightarrow> AppendOasProperty name (nat_string n) schema)"

text \<open>The type a parameter is documented with: the declared one, if the name is known.\<close>

definition documented_type :: "string_util \<Rightarrow> 'v QuackapiParamSpec option \<Rightarrow> LogicalType \<Rightarrow> LogicalType" where
  "documented_type U spec ptype = (case spec of
     None \<Rightarrow> ptype
   | Some s \<Rightarrow>
       if ps_type_name s = [] then ptype
       else let t = su_upper U (ps_type_name s)
         in if t = ''INTEGER'' \<or> t = ''INT'' then L_INTEGER
            else if t = ''BIGINT'' then L_BIGINT
            else if t = ''SMALLINT'' then L_SMALLINT
            else if t = ''TINYINT'' then L_TINYINT
            else if t = ''DOUBLE'' then L_DOUBLE
            else if t = ''FLOAT'' \<or> t = ''REAL'' then L_FLOAT
            else if t = ''BOOLEAN'' \<or> t = ''BOOL'' then L_BOOLEAN
            else if t = ''VARCHAR'' \<or> t = ''TEXT'' \<or> t = ''STRING'' then L_VARCHAR
            else if t = ''VARIANT'' then L_VARIANT
            else ptype)"

definition has_length_bound :: "'v QuackapiParamSpec \<Rightarrow> bool" where
  "has_length_bound s = (ps_min_length s \<noteq> None \<or> ps_max_length s \<noteq> None)"

definition impossible_text_numeric_variant :: "LogicalType \<Rightarrow> 'v QuackapiParamSpec option \<Rightarrow> bool \<Rightarrow> bool" where
  "impossible_text_numeric_variant ptype spec text_wire =
     (text_wire \<and> ptype = L_VARIANT \<and> (case spec of None \<Rightarrow> False | Some s \<Rightarrow> HasNumericParamBounds s))"

definition impossible_body_variant :: "LogicalType \<Rightarrow> 'v QuackapiParamSpec option \<Rightarrow> bool \<Rightarrow> bool" where
  "impossible_body_variant ptype spec text_wire =
     (\<not> text_wire \<and> ptype = L_VARIANT \<and> (case spec of None \<Rightarrow> False | Some s \<Rightarrow> HasNumericParamBounds s \<and> has_length_bound s))"

definition numeric_body_variant :: "LogicalType \<Rightarrow> 'v QuackapiParamSpec option \<Rightarrow> bool \<Rightarrow> bool" where
  "numeric_body_variant ptype spec text_wire =
     (\<not> text_wire \<and> ptype = L_VARIANT \<and> (case spec of None \<Rightarrow> False | Some s \<Rightarrow> HasNumericParamBounds s) \<and>
      \<not> impossible_body_variant ptype spec text_wire)"

definition string_body_variant :: "LogicalType \<Rightarrow> 'v QuackapiParamSpec option \<Rightarrow> bool \<Rightarrow> bool" where
  "string_body_variant ptype spec text_wire =
     (\<not> text_wire \<and> ptype = L_VARIANT \<and> (case spec of None \<Rightarrow> False | Some s \<Rightarrow> \<not> HasNumericParamBounds s \<and> has_length_bound s))"

definition base_schema :: "string_util \<Rightarrow> LogicalType \<Rightarrow> 'v QuackapiParamSpec option \<Rightarrow> bool \<Rightarrow> string" where
  "base_schema U ptype spec text_wire =
     (if impossible_text_numeric_variant ptype spec text_wire then object_text [(''not'', object_text [])]
      else if impossible_body_variant ptype spec text_wire then object_text [(''not'', object_text [])]
      else if numeric_body_variant ptype spec text_wire then object_text [(''type'', json_quote ''number'')]
      else if string_body_variant ptype spec text_wire then object_text [(''type'', json_quote ''string'')]
      else if text_wire \<and> ptype = L_VARIANT then object_text [(''type'', json_quote ''string'')]
      else ParamTypeToOas U ptype)"

definition append_constraints :: "'v oas_env \<Rightarrow> 'v QuackapiParamSpec \<Rightarrow> string \<Rightarrow> string" where
  "append_constraints V s schema =
     append_length ''maxLength'' (ps_max_length s) (append_length ''minLength'' (ps_min_length s)
      (append_bound V ''exclusiveMaximum'' (ps_lt s) (append_bound V ''maximum'' (ps_le s)
       (append_bound V ''exclusiveMinimum'' (ps_gt s) (append_bound V ''minimum'' (ps_ge s) schema)))))"

definition append_default :: "string_util \<Rightarrow> 'v oas_env \<Rightarrow> LogicalType \<Rightarrow> 'v QuackapiParamSpec \<Rightarrow> bool \<Rightarrow> string \<Rightarrow> string" where
  "append_default U V ptype s text_wire schema =
     (let schema1 =
            (if ps_default_is_null s \<and> \<not> text_wire \<and> ptype = L_VARIANT then
               ''{'' @ json_quote ''anyOf'' @ '':['' @ schema @ ''},'' @ object_text [(''type'', json_quote ''null'')] @ '']''
             else if ps_default_is_null s then AppendOasProperty ''nullable'' ''true'' schema
             else schema)
      in if ptype = L_VARIANT then
           (let value = VariantDefaultJson U V s
            in if value \<noteq> [] then AppendOasProperty ''default'' value schema1 else schema1)
         else if ps_default_is_null s then AppendOasProperty ''default'' ''null'' schema1
         else if ptype = L_VARCHAR then AppendOasProperty ''default'' (json_quote (ps_default_raw s)) schema1
         else (case oe_cast V (ps_default_raw s) ptype of
             None \<Rightarrow> schema1
           | Some text \<Rightarrow>
               if json_number (su_lower U text) then AppendOasProperty ''default'' (su_lower U text) schema1 else schema1))"

text \<open>The last brace is taken off, members are appended, and the brace is put back.\<close>

definition ParamSchema :: "string_util \<Rightarrow> 'v oas_env \<Rightarrow> LogicalType \<Rightarrow> 'v QuackapiParamSpec option \<Rightarrow> bool \<Rightarrow> string" where
  "ParamSchema U V ptype0 spec text_wire =
     (let ptype = documented_type U spec ptype0;
          schema = base_schema U ptype spec text_wire
      in case spec of
           None \<Rightarrow> schema
         | Some s \<Rightarrow>
             if schema = [] \<or> last schema \<noteq> CHR ''}'' then schema
             else let opened = butlast schema;
                      limited = (if \<not> impossible_text_numeric_variant ptype spec text_wire \<and>
                                    \<not> impossible_body_variant ptype spec text_wire
                                 then append_constraints V s opened else opened)
                  in (if ps_has_default s then append_default U V ptype s text_wire limited else limited) @ ''}'')"

section \<open>One route\<close>

text \<open>What preparing the handler tells: columns, their types, the expected types and the named parameters.\<close>

definition no_metadata :: prepared where
  "no_metadata = \<lparr>pp_names = [], pp_types = [], pp_expected = [], pp_params = []\<rparr>"

definition route_metadata :: "string_util \<Rightarrow> 'v oas_env \<Rightarrow> 'v QuackapiRoute \<Rightarrow> prepared" where
  "route_metadata U V route =
     (let exec_param = QuackapiExecRouteParam U (rt_handler_sql route);
          sql = (case exec_param of Some p \<Rightarrow> ''SELECT $'' @ p @ ''::VARCHAR'' | None \<Rightarrow> rt_handler_sql route);
          found = (case oe_prepare V sql of
              None \<Rightarrow> no_metadata
            | Some p \<Rightarrow> if exec_param \<noteq> None then p\<lparr>pp_names := [], pp_types := []\<rparr> else p)
      in if exec_param = None \<and> pp_names found = [''unknown''] then
           (case oe_alias V (rt_handler_sql route) of Some alias \<Rightarrow> found\<lparr>pp_names := [alias]\<rparr> | None \<Rightarrow> found)
         else found)"

text \<open>Control columns are not part of the response.\<close>

definition data_columns :: "string_util \<Rightarrow> string list \<Rightarrow> string list" where
  "data_columns U col_names = filter (\<lambda>n. \<not> (let lower = su_lower U n in
     lower = ''location'' \<or> lower = ''set_cookie'' \<or> lower = ''set-cookie'')) col_names"

definition FindSpec :: "string_util \<Rightarrow> 'v QuackapiRoute \<Rightarrow> string \<Rightarrow> 'v QuackapiParamSpec option" where
  "FindSpec U route n = List.find (\<lambda>s. su_lower U (ps_name s) = su_lower U n) (rt_params route)"

definition WireName :: "'v QuackapiParamSpec \<Rightarrow> string" where
  "WireName s =
     (if ps_external_name s \<noteq> [] then ps_external_name s
      else if ps_source s = HEADER then map (\<lambda>c. if c = CHR ''_'' then CHR ''-'' else c) (ps_name s)
      else ps_name s)"

definition body_capable :: "'v QuackapiRoute \<Rightarrow> bool" where
  "body_capable route = (rt_method route = ''POST'' \<or> rt_method route = ''PUT'' \<or> rt_method route = ''PATCH'')"

definition HasVariantBodyAlternative :: "string_util \<Rightarrow> 'v QuackapiRoute \<Rightarrow> string list \<Rightarrow> 'v QuackapiParamSpec option \<Rightarrow> bool" where
  "HasVariantBodyAlternative U route named_params spec =
     (body_capable route \<and> (case spec of None \<Rightarrow> False | Some s \<Rightarrow>
        IsVariantParam U s \<and> ps_source s \<noteq> HEADER \<and> ps_source s \<noteq> COOKIE \<and>
        \<not> ListContains U (PathParamNames (rt_pattern route)) (ps_name s) \<and> ps_external_name s = [] \<and>
        ListContains U named_params (ps_name s)))"

definition planned_type :: "string_util \<Rightarrow> prepared \<Rightarrow> string \<Rightarrow> LogicalType" where
  "planned_type U meta n = (case ci_find U n (pp_expected meta) of None \<Rightarrow> L_VARCHAR | Some type \<Rightarrow> type)"

definition bool_text :: "bool \<Rightarrow> string" where
  "bool_text b = (if b then ''true'' else ''false'')"

definition path_parameter :: "string_util \<Rightarrow> 'v oas_env \<Rightarrow> 'v QuackapiRoute \<Rightarrow> prepared \<Rightarrow> string \<Rightarrow> string" where
  "path_parameter U V route meta n = object_text
     [(''name'', json_quote n), (''in'', json_quote ''path''), (''required'', ''true''),
      (''schema'', ParamSchema U V (planned_type U meta n) (FindSpec U route n) True)]"

definition input_description :: "'v QuackapiParamSpec \<Rightarrow> string" where
  "input_description s =
     (if HasNumericParamBounds s then
        ''Text input cannot satisfy numeric VARIANT bounds; supply a JSON number in the request body.''
      else if ps_has_default s then
        ''May be supplied as a text parameter or JSON body value; the parameter value takes precedence.''
      else ''Supply this value as a parameter or in the JSON body; at least one is required, and the parameter takes precedence.'')"

definition described :: "string \<Rightarrow> (string \<times> string) list" where
  "described description = (if description = [] then [] else [(''description'', json_quote description)])"

definition named_parameter :: "string_util \<Rightarrow> 'v oas_env \<Rightarrow> 'v QuackapiRoute \<Rightarrow> prepared \<Rightarrow> string \<Rightarrow> string" where
  "named_parameter U V route meta n =
     (let spec = FindSpec U route n;
          alternative = HasVariantBodyAlternative U route (pp_params meta) spec;
          oas_name = (case spec of
              Some s \<Rightarrow> if ps_external_name s \<noteq> [] \<or> ps_source s = HEADER \<or> ps_source s = COOKIE then WireName s else n
            | None \<Rightarrow> n);
          in_loc = (case spec of
              Some s \<Rightarrow> if ps_source s = HEADER then ''header'' else if ps_source s = COOKIE then ''cookie'' else ''query''
            | None \<Rightarrow> ''query'');
          required = (\<not> alternative \<and> (case spec of Some s \<Rightarrow> \<not> ps_has_default s | None \<Rightarrow> True));
          description = (case spec of Some s \<Rightarrow> if alternative then input_description s else [] | None \<Rightarrow> [])
      in object_text ([(''name'', json_quote oas_name), (''in'', json_quote in_loc), (''required'', bool_text required)] @
           described description @ [(''schema'', ParamSchema U V (planned_type U meta n) spec True)]))"

text \<open>The path parameters come first, then the named parameters of the handler that are no claims.\<close>

definition query_params :: "string_util \<Rightarrow> 'v QuackapiRoute \<Rightarrow> prepared \<Rightarrow> string list" where
  "query_params U route meta =
     filter (\<lambda>n. \<not> (IsClaimsParamName U n \<or> ListContains U (PathParamNames (rt_pattern route)) n)) (pp_params meta)"

definition params_json :: "string_util \<Rightarrow> 'v oas_env \<Rightarrow> 'v QuackapiRoute \<Rightarrow> prepared \<Rightarrow> string" where
  "params_json U V route meta = array_text
     (map (path_parameter U V route meta) (PathParamNames (rt_pattern route)) @
      map (named_parameter U V route meta) (query_params U route meta))"

section \<open>Request bodies\<close>

text \<open>The parameters a JSON body may carry, and those only a JSON body can carry.\<close>

definition body_variants :: "string_util \<Rightarrow> 'v QuackapiRoute \<Rightarrow> prepared \<Rightarrow> 'v QuackapiParamSpec list" where
  "body_variants U route meta =
     (if body_capable route then filter (\<lambda>s. HasVariantBodyAlternative U route (pp_params meta) (Some s)) (rt_params route) else [])"

definition required_variants :: "string_util \<Rightarrow> 'v QuackapiRoute \<Rightarrow> prepared \<Rightarrow> string list" where
  "required_variants U route meta =
     map ps_name (filter (\<lambda>s. \<not> ps_has_default s \<and> HasNumericParamBounds s) (body_variants U route meta))"

definition variant_body_overlay :: "string_util \<Rightarrow> 'v oas_env \<Rightarrow> 'v QuackapiRoute \<Rightarrow> prepared \<Rightarrow> string" where
  "variant_body_overlay U V route meta =
     (let variants = body_variants U route meta; needed = required_variants U route meta
      in if variants = [] then []
         else object_text ([(''type'', json_quote ''object''),
                (''properties'', object_text (map (\<lambda>s. (ps_name s, ParamSchema U V L_VARIANT (Some s) False)) variants))] @
                (if needed = [] then [] else [(''required'', array_text (map json_quote needed))])))"

text \<open>The schema of a body: the declared one, the overlay of the \<open>VARIANT\<close> parameters, or both.\<close>

definition declared_body :: "'v QuackapiRoute \<Rightarrow> bool" where
  "declared_body route = (rt_body_schema route \<noteq> [] \<or> rt_body_type route \<noteq> [])"

definition declared_body_schema :: "string_util \<Rightarrow> 'v QuackapiRoute \<Rightarrow> string" where
  "declared_body_schema U route =
     (let transform = QuackapiDuckdbTransformToOpenApi U (rt_body_type route);
          marker = (''x-duckdb-json-transform'', json_quote (rt_body_type route))
      in if rt_body_schema route \<noteq> [] \<and> rt_body_type route \<noteq> [] then
           object_text [(''allOf'', array_text [rt_body_schema route, transform]), marker]
         else if rt_body_schema route \<noteq> [] then rt_body_schema route
         else if length transform > 1 \<and> last transform = CHR ''}'' then
           butlast transform @ '','' @ object_members [marker] @ ''}''
         else object_text [marker])"

definition body_schema :: "string_util \<Rightarrow> 'v oas_env \<Rightarrow> 'v QuackapiRoute \<Rightarrow> prepared \<Rightarrow> string" where
  "body_schema U V route meta =
     (let overlay = variant_body_overlay U V route meta;
          declared = declared_body_schema U route
      in if \<not> declared_body route then overlay
         else if overlay = [] then declared
         else if declared = [] then overlay
         else object_text [(''allOf'', array_text [declared, overlay])])"

definition body_description :: "string_util \<Rightarrow> 'v oas_env \<Rightarrow> 'v QuackapiRoute \<Rightarrow> prepared \<Rightarrow> string" where
  "body_description U V route meta =
     (if variant_body_overlay U V route meta = [] then []
      else if required_variants U route meta \<noteq> [] then
        ''A JSON body is required for numeric-constrained VARIANT parameters.''
      else if any (\<lambda>s. \<not> ps_has_default s) (body_variants U route meta) then
        ''VARIANT values may also be supplied as text parameters; at least one required value must be present. Text parameters take precedence when both locations provide a value.''
      else
        ''VARIANT values may be supplied as text parameters or JSON body values; defaults apply when omitted, and text parameters take precedence when both locations provide a value.'')"

definition request_body :: "string_util \<Rightarrow> 'v oas_env \<Rightarrow> 'v QuackapiRoute \<Rightarrow> prepared \<Rightarrow> (string \<times> string) list" where
  "request_body U V route meta =
     (if declared_body route \<or> variant_body_overlay U V route meta \<noteq> [] then
        [(''requestBody'', object_text
           ([(''required'', bool_text (declared_body route \<or> required_variants U route meta \<noteq> []))] @
            described (body_description U V route meta) @
            [(''content'', object_text [(''application/json'', object_text [(''schema'', body_schema U V route meta)])])]))]
      else [])"

section \<open>Responses\<close>

definition row_properties :: "string_util \<Rightarrow> prepared \<Rightarrow> string" where
  "row_properties U meta = object_text (map (\<lambda>(n, type). (n, DuckTypeToOas U type))
     (filter (\<lambda>(n, type). data_columns U [n] \<noteq> [])
       (map (\<lambda>i. (pp_names meta ! i, if i < length (pp_types meta) then pp_types meta ! i else L_VARCHAR))
         [0..<length (pp_names meta)])))"

text \<open>Media type, description and schema of the successful response.\<close>

definition success_response :: "string_util \<Rightarrow> 'v QuackapiRoute \<Rightarrow> prepared \<Rightarrow> string \<times> string \<times> string" where
  "success_response U route meta =
     (let response_format = su_lower U (rt_response_format route);
          names = data_columns U (pp_names meta);
          mode = ModeFor U names;
          binary_text = object_text [(''type'', json_quote ''string''), (''format'', json_quote ''binary'')]
      in if response_format = ''binary'' then
           (''application/octet-stream'', ''Raw binary body; the handler may provide a different content_type'', binary_text)
         else if mode = MODE_HTML then
           (''text/html'', ''HTML response'',
            object_text [(''type'', json_quote ''string''), (''description'', json_quote ''Raw HTML body (single-column handler AS html)'')])
         else if mode = MODE_TEXT then
           (''text/plain'', ''Plain text response'',
            object_text [(''type'', json_quote ''string''), (''description'', json_quote ''Raw text body (single-column handler AS text)'')])
         else if response_format = ''arrow'' \<or> response_format = ''arrows'' \<or> response_format = ''parquet'' then
           (if response_format = ''parquet'' then ''application/vnd.apache.parquet'' else ''application/vnd.apache.arrow.stream'',
            ''Binary tabular response'', binary_text)
         else if response_format = ''csv'' \<or> response_format = ''ndjson'' then
           (if response_format = ''csv'' then ''text/csv'' else ''application/x-ndjson'',
            ''Tabular text response'', object_text [(''type'', json_quote ''string'')])
         else if names = [] then
           (''application/json'', ''Empty body (redirect / Set-Cookie control columns only)'',
            object_text [(''type'', json_quote ''string''), (''maxLength'', ''0'')])
         else
           (let rows = object_text [(''type'', json_quote ''object''), (''properties'', row_properties U meta)]
            in if su_lower U (if rt_response_envelope route = [] then ''array'' else rt_response_envelope route) = ''object'' then
                 (''application/json'', ''Successful response (JSON object '' @ em_dash @ '' single row)'', rows)
               else (''application/json'', ''Successful response (JSON array of row objects)'',
                 object_text [(''type'', json_quote ''array''), (''items'', rows)])))"

definition described_content :: "string \<Rightarrow> string \<Rightarrow> string \<Rightarrow> string" where
  "described_content description content_type schema = object_text
     [(''description'', json_quote description),
      (''content'', object_text [(content_type, object_text [(''schema'', schema)])])]"

definition responses_json :: "string_util \<Rightarrow> 'v QuackapiRoute \<Rightarrow> prepared \<Rightarrow> string" where
  "responses_json U route meta = (case success_response U route meta of (content_type, response_desc, response_schema) \<Rightarrow>
     object_text
       ([(int_string (rt_status route), described_content response_desc content_type response_schema),
         (''422'', described_content ''Validation error (FastAPI-shaped detail)'' ''application/json''
            (object_text [(''type'', json_quote ''object''),
              (''properties'', object_text [(''detail'', object_text [(''type'', json_quote ''array''),
                 (''items'', object_text [(''type'', json_quote ''object'')])])])]))] @
        (if rt_empty_status route \<noteq> 0 then
           [(int_string (rt_empty_status route), described_content ''Empty result set (EMPTY STATUS)'' ''application/json''
              (object_text [(''type'', json_quote ''object''),
                (''properties'', object_text [(''detail'', object_text [(''type'', json_quote ''string'')])])]))]
         else [])))"

section \<open>Operations\<close>

text \<open>The tags of a group, a comma list: blanks and commas before a tag and blanks after it are dropped.\<close>

function tag_list :: "string_util \<Rightarrow> string \<Rightarrow> string list" where
  "tag_list U tags =
     (case dropWhile (\<lambda>c. su_space U c \<or> c = CHR '','') tags of
        [] \<Rightarrow> []
      | c # cs \<Rightarrow>
          (let tag = rev (dropWhile (su_space U) (rev (takeWhile (\<lambda>c. c \<noteq> CHR '','') (c # cs))))
           in (if tag = [] then [] else [tag]) @ tag_list U (dropWhile (\<lambda>c. c \<noteq> CHR '','') (c # cs))))"
  by pat_completeness auto
termination
proof (relation "measure (\<lambda>(U, tags). length tags)")
  fix U :: string_util and tags cs :: string and c
  assume d: "dropWhile (\<lambda>c. su_space U c \<or> c = CHR '','') tags = c # cs"
  then have "c \<noteq> CHR '',''" using hd_dropWhile [of "\<lambda>c. su_space U c \<or> c = CHR '',''" tags] by auto
  moreover have "length (c # cs) \<le> length tags" using length_dropWhile_le [of "\<lambda>c. su_space U c \<or> c = CHR '',''" tags] d by simp
  ultimately show "((U, dropWhile (\<lambda>c. c \<noteq> CHR '','') (c # cs)), U, tags) \<in> measure (\<lambda>(U, tags). length tags)"
    using length_dropWhile_le [of "\<lambda>c. c \<noteq> CHR '',''" cs] by simp
qed simp

declare tag_list.simps [simp del]

definition operation_json :: "string_util \<Rightarrow> 'v oas_env \<Rightarrow> 'v QuackapiRoute \<Rightarrow> string" where
  "operation_json U V route =
     (let meta = route_metadata U V route; tags = tag_list U (rt_tags route)
      in object_text
        ([(''operationId'', json_quote (rt_name route)), (''summary'', json_quote (rt_name route))] @
         (if tags = [] then [] else [(''tags'', array_text (map json_quote tags))]) @
         request_body U V route meta @
         [(''parameters'', params_json U V route meta),
          (''responses'', responses_json U route meta),
          (''security'', array_text (if rt_require_auth route = [] then []
             else [object_text [(rt_require_auth route, array_text [])]]))]))"

record OpEntry =
  oas_path :: string
  method_lc :: string
  operation_text :: string

definition route_op :: "string_util \<Rightarrow> 'v oas_env \<Rightarrow> 'v QuackapiRoute \<Rightarrow> OpEntry" where
  "route_op U V route = \<lparr>oas_path = OasPath (rt_pattern route), method_lc = su_lower U (rt_method route),
     operation_text = operation_json U V route\<rparr>"

section \<open>The document\<close>

definition add_path :: "string_util \<Rightarrow> OpEntry \<Rightarrow> string list \<Rightarrow> string list" where
  "add_path U op path_order = (if ListContains U path_order (oas_path op) then path_order else path_order @ [oas_path op])"

definition path_order :: "string_util \<Rightarrow> OpEntry list \<Rightarrow> string list" where
  "path_order U ops = fold (add_path U) ops []"

definition path_ops :: "OpEntry list \<Rightarrow> string \<Rightarrow> OpEntry list" where
  "path_ops ops p = filter (\<lambda>op. oas_path op = p) ops"

definition path_item :: "OpEntry list \<Rightarrow> string \<Rightarrow> string" where
  "path_item ops p = object_text (map (\<lambda>op. (method_lc op, operation_text op)) (path_ops ops p))"

definition paths_json :: "string_util \<Rightarrow> OpEntry list \<Rightarrow> string" where
  "paths_json U ops = object_text (map (\<lambda>p. (p, path_item ops p)) (path_order U ops))"

definition security_scheme :: "QuackapiAuth \<Rightarrow> string" where
  "security_scheme a =
     (if au_kind a = JWT_HS256 then
        object_text [(''type'', json_quote ''http''), (''scheme'', json_quote ''bearer''), (''bearerFormat'', json_quote ''JWT'')]
      else object_text [(''type'', json_quote ''apiKey''), (''in'', json_quote ''header''), (''name'', json_quote (au_header a))])"

definition oas_arrow :: string where
  "oas_arrow = [CHR 0xE2, CHR 0x86, CHR 0x92]"

definition document_description :: string where
  "document_description = ''Generated from the live quackapi_routes() + quackapi_auths() registries. Response schemas come from Prepare() column metadata. Path params :id '' @ oas_arrow @ '' {id}. require_auth maps to security schemes.''"

definition document_text :: "string_util \<Rightarrow> string \<Rightarrow> OpEntry list \<Rightarrow> QuackapiAuth list \<Rightarrow> string" where
  "document_text U server_url ops schemes = object_text
     [(''openapi'', json_quote ''3.1.0''),
      (''info'', object_text [(''title'', json_quote ''quackapi''), (''version'', json_quote ''0.2.0''),
         (''description'', json_quote document_description)]),
      (''servers'', array_text [object_text [(''url'', json_quote server_url), (''description'', json_quote ''quackapi_serve'')]]),
      (''paths'', paths_json U ops),
      (''components'', object_text [(''securitySchemes'', object_text (map (\<lambda>a. (au_name a, security_scheme a)) schemes))])]"

text \<open>The document of the live routes; reading the routes may publish them (\<open>SnapshotRoutes\<close>).\<close>

definition BuildOpenApiDocument :: "string_util \<Rightarrow> 'v oas_env \<Rightarrow> string \<Rightarrow> 'v QuackapiState \<Rightarrow> string \<times> 'v QuackapiState" where
  "BuildOpenApiDocument U V server_url s =
     (case SnapshotRoutes s of (live, s') \<Rightarrow>
        (document_text U server_url (map (route_op U V) live) (SnapshotAuths s'), s'))"

section \<open>Reading texts back\<close>

text \<open>A parser that succeeds at a nesting budget returns the same at a larger one.\<close>

definition extends :: "'a reader \<Rightarrow> 'a reader \<Rightarrow> bool" where
  "extends p q \<longleftrightarrow> (\<forall>s r. p s = Some r \<longrightarrow> q s = Some r)"

lemma extendsD: "extends p q \<Longrightarrow> p s = Some r \<Longrightarrow> q s = Some r"
  unfolding extends_def by blast

lemma array_loop_extends:
  assumes "extends p q"
  shows "array_loop p acc s = Some r \<Longrightarrow> array_loop q acc s = Some r"
proof (induction "length s" arbitrary: acc s rule: less_induct)
  case less
  from less(2) show ?case
    by (subst array_loop.simps, subst (asm) array_loop.simps)
      (auto simp: extendsD [OF assms] intro: less(1) split: option.splits list.splits if_splits)
qed

lemma object_loop_extends:
  assumes "extends p q"
  shows "object_loop p acc s = Some r \<Longrightarrow> object_loop q acc s = Some r"
proof (induction "length s" arbitrary: acc s rule: less_induct)
  case less
  from less(2) show ?case
    by (subst object_loop.simps, subst (asm) object_loop.simps)
      (auto simp: extendsD [OF assms] intro: less(1) split: option.splits list.splits if_splits)
qed

lemma ParseArray_extends: "extends p q \<Longrightarrow> extends (ParseArray p) (ParseArray q)"
  by (auto simp: extends_def [of "ParseArray p"] ParseArray_def Let_def array_loop_extends split: option.splits if_splits)

lemma ParseObject_extends: "extends p q \<Longrightarrow> extends (ParseObject p) (ParseObject q)"
  by (auto simp: extends_def [of "ParseObject p"] ParseObject_def Let_def object_loop_extends split: option.splits if_splits)

lemma value_with_extends:
  assumes "extends po po'" "extends pa pa'"
  shows "extends (value_with po pa) (value_with po' pa')"
  unfolding extends_def
proof (intro allI impI)
  fix s r assume r: "value_with po pa s = Some r"
  show "value_with po' pa' s = Some r"
  proof (cases "SkipWhitespace s")
    case Nil
    with r show ?thesis by (simp add: value_with_def)
  next
    case (Cons c s1)
    consider "c = CHR ''{''" | "c = CHR ''[''" | "c \<noteq> CHR ''{''" "c \<noteq> CHR ''[''" by blast
    then show ?thesis
    proof cases
      case 1
      with r Cons extendsD [OF assms(1)] show ?thesis by (simp add: value_with_def)
    next
      case 2
      with r Cons extendsD [OF assms(2)] show ?thesis by (simp add: value_with_def)
    next
      case 3
      with r show ?thesis by (simp only: value_with_def Cons list.case Let_def if_False)
    qed
  qed
qed

lemma ParseValue_extends: "extends (ParseValue n) (ParseValue (Suc n))"
proof (induction n)
  case 0
  show ?case unfolding ParseValue.simps by (rule value_with_extends) (simp_all add: extends_def)
next
  case (Suc n)
  then show ?case by (simp add: value_with_extends ParseArray_extends ParseObject_extends)
qed

lemma reads_as_mono: "reads_as n t node \<Longrightarrow> n \<le> m \<Longrightarrow> reads_as m t node"
proof (induction m)
  case (Suc m)
  then show ?case
    using extendsD [OF ParseValue_extends [of m]] by (cases "n = Suc m") (auto simp: reads_as_def)
qed simp

text \<open>A text reads as a node when it does at some nesting budget.\<close>

definition json_reads :: "string \<Rightarrow> JsonNode \<Rightarrow> bool" where
  "json_reads t node \<longleftrightarrow> (\<exists>n. reads_as n t node)"

definition json_text :: "string \<Rightarrow> bool" where
  "json_text t \<longleftrightarrow> (\<exists>node. json_reads t node)"

lemma json_readsI: "reads_as n t node \<Longrightarrow> json_reads t node"
  by (auto simp: json_reads_def)

lemma json_textI: "json_reads t node \<Longrightarrow> json_text t"
  by (auto simp: json_text_def)

lemma common_budget: "list_all2 json_reads ts nodes \<Longrightarrow> \<exists>n. list_all2 (reads_as n) ts nodes"
proof (induction ts nodes rule: list_all2_induct)
  case (Cons t ts v vs)
  then obtain n m where "reads_as n t v" "list_all2 (reads_as m) ts vs" by (auto simp: json_reads_def)
  then have "reads_as (max n m) t v" "list_all2 (reads_as (max n m)) ts vs"
    by (auto intro: reads_as_mono elim!: list_all2_mono)
  then show ?case by auto
qed simp

lemma json_reads_quote: "json_reads (json_quote s) (JsonNode STRING s [] [])"
  by (rule json_readsI [of 0]) (rule reads_string)

lemma json_reads_array: "list_all2 json_reads ts nodes \<Longrightarrow> json_reads (array_text ts) (JsonNode ARRAY [] nodes [])"
  using common_budget [of ts nodes] reads_array [of _ ts nodes] by (auto simp: array_text_def intro: json_readsI)

lemma json_reads_object:
  assumes "map fst vs = map fst ms" "list_all2 json_reads (map snd ms) (map snd vs)"
  shows "json_reads (object_text ms) (JsonNode OBJECT [] [] vs)"
proof -
  obtain n where n: "list_all2 (reads_as n) (map snd ms) (map snd vs)" using common_budget [OF assms(2)] by blast
  let ?ms = "map2 (\<lambda>m v. (fst m, snd m, snd v)) ms vs"
  have l: "length ms = length vs" using assms(1) by (metis length_map)
  have "\<forall>(key, t, node) \<in> set ?ms. reads_as n t node"
    using n by (auto simp: list_all2_conv_all_nth set_zip) (metis snd_conv)
  from reads_object [OF this]
  have "reads_as (Suc n) (''{'' @ comma_list (map member_text ?ms) @ ''}'') (JsonNode OBJECT [] [] (map member_node ?ms))" .
  moreover have "map member_text ?ms = map (\<lambda>(key, text). json_quote key @ '':'' @ text) ms"
    using l by (intro nth_equalityI) (simp_all add: member_text_def case_prod_beta)
  moreover have "map member_node ?ms = vs"
    using l arg_cong [OF assms(1), of "\<lambda>ks. ks ! _"]
    by (intro nth_equalityI) (simp_all add: member_node_def prod_eq_iff, metis assms(1) nth_map)
  ultimately show ?thesis by (auto simp: object_text_def object_members_def json_reads_def)
qed

lemma json_text_quote: "json_text (json_quote s)"
  by (rule json_textI [OF json_reads_quote])

lemma json_text_list: "(\<And>t. t \<in> set ts \<Longrightarrow> json_text t) \<Longrightarrow> \<exists>nodes. list_all2 json_reads ts nodes"
  by (induction ts) (auto simp: json_text_def list_all2_Cons1 intro: exI [of _ "[]"])

lemma json_text_array: "(\<And>t. t \<in> set ts \<Longrightarrow> json_text t) \<Longrightarrow> json_text (array_text ts)"
  using json_text_list json_reads_array json_textI by blast

lemma json_object_nodes:
  assumes "\<And>k t. (k, t) \<in> set ms \<Longrightarrow> json_text t"
  shows "\<exists>vs. map fst vs = map fst ms \<and> json_reads (object_text ms) (JsonNode OBJECT [] [] vs)"
proof -
  obtain nodes where "list_all2 json_reads (map snd ms) nodes"
    using json_text_list [of "map snd ms"] assms by fastforce
  moreover from this have "length nodes = length ms" by (auto dest: list_all2_lengthD)
  ultimately show ?thesis
    by (intro exI [of _ "zip (map fst ms) nodes"] conjI json_reads_object) auto
qed

lemma json_text_object: "(\<And>k t. (k, t) \<in> set ms \<Longrightarrow> json_text t) \<Longrightarrow> json_text (object_text ms)"
  using json_object_nodes json_textI by blast

lemma json_text_constants: "json_text ''true''" "json_text ''false''" "json_text ''null''"
  by (auto intro!: json_textI json_readsI [of 0] reads_true reads_null reads_false)

lemma json_text_number: "number_text s \<Longrightarrow> json_text s"
  using reads_number_text json_readsI json_textI by blast

section \<open>Every schema is a JSON object\<close>

definition json_members :: "(string \<times> string) list \<Rightarrow> bool" where
  "json_members ms \<longleftrightarrow> (\<forall>(k, t) \<in> set ms. json_text t)"

definition object_schema :: "string \<Rightarrow> bool" where
  "object_schema t \<longleftrightarrow> (\<exists>ms. json_members ms \<and> t = object_text ms)"

definition opened_schema :: "string \<Rightarrow> bool" where
  "opened_schema t \<longleftrightarrow> (\<exists>ms. json_members ms \<and> t = ''{'' @ object_members ms)"

lemma json_members_simps [simp]:
  "json_members []" "json_members ((k, t) # ms) \<longleftrightarrow> json_text t \<and> json_members ms"
  "json_members (ms @ ms') \<longleftrightarrow> json_members ms \<and> json_members ms'"
  by (auto simp: json_members_def)

lemma json_members_map: "json_members (map f xs) \<longleftrightarrow> (\<forall>x \<in> set xs. json_text (snd (f x)))"
  by (auto simp: json_members_def case_prod_beta)

lemma json_members_text: "json_members ms \<Longrightarrow> json_text (object_text ms)"
  by (rule json_text_object) (auto simp: json_members_def)

lemma object_schema_text: "object_schema t \<Longrightarrow> json_text t"
  by (auto simp: object_schema_def json_members_text)

lemma object_schemaI: "json_members ms \<Longrightarrow> object_schema (object_text ms)"
  by (auto simp: object_schema_def)

lemma object_schema_if: "object_schema a \<Longrightarrow> object_schema b \<Longrightarrow> object_schema (if c then a else b)"
  by simp

lemma scalar_schema_object: "object_schema (scalar_schema U type)"
  unfolding scalar_schema_def Let_def
  by (intro object_schema_if object_schemaI) (simp_all add: json_text_quote)

lemma DuckTypeToOas_object: "object_schema (DuckTypeToOas U type)"
proof (induction type)
  case (L_STRUCT children)
  then have "json_members (map (\<lambda>child. (fst child, DuckTypeToOas U (snd child))) children)"
    by (auto simp: json_members_map snds.simps intro: object_schema_text)
  then show ?case
    by (subst DuckTypeToOas.simps) (auto intro!: object_schemaI simp: json_text_quote json_members_text)
next
  case (L_LIST child)
  then show ?case
    by (subst DuckTypeToOas.simps) (auto intro!: object_schemaI simp: json_text_quote object_schema_text)
qed (simp_all add: DuckTypeToOas.simps scalar_schema_object)

lemma base_schema_object: "object_schema (base_schema U ptype spec text_wire)"
  unfolding base_schema_def ParamTypeToOas_def
  by (intro object_schema_if object_schemaI DuckTypeToOas_object) (simp_all add: json_text_quote json_members_text)

lemma object_schema_open: "object_schema t \<Longrightarrow> opened_schema (butlast t)"
  by (auto simp: object_schema_def opened_schema_def object_text_def butlast_append)

lemma object_schema_last [simp]: "object_schema t \<Longrightarrow> last t = CHR ''}''" "object_schema t \<Longrightarrow> t \<noteq> []"
  by (auto simp: object_schema_def object_text_def)

lemma opened_schema_close: "opened_schema t \<Longrightarrow> object_schema (t @ ''}'')"
  by (auto simp: object_schema_def opened_schema_def object_text_def)

lemma object_members_Nil [simp]: "object_members ms = [] \<longleftrightarrow> ms = []"
  by (cases ms; cases "tl ms") (auto simp: object_members_def json_quote_def split: prod.splits)

lemma object_members_snoc:
  "object_members (ms @ [(k, t)]) = object_members ms @ (if ms \<noteq> [] then '','' else []) @ json_quote k @ '':'' @ t"
  using comma_list_snoc [of "map (\<lambda>(key, text). json_quote key @ '':'' @ text) ms"]
  by (simp add: object_members_def)

lemma opened_schema_append:
  assumes "opened_schema t" "json_text v"
  shows "opened_schema (AppendOasProperty k v t)"
proof -
  from assms(1) obtain ms where ms: "json_members ms" "t = ''{'' @ object_members ms" by (auto simp: opened_schema_def)
  have "AppendOasProperty k v t = ''{'' @ object_members (ms @ [(k, v)])"
    by (simp add: AppendOasProperty_def ms(2) object_members_snoc)
  with ms(1) assms(2) show ?thesis unfolding opened_schema_def by (intro exI [of _ "ms @ [(k, v)]"]) simp
qed

lemma opened_schema_any_of:
  assumes "opened_schema t"
  shows "opened_schema (''{'' @ json_quote ''anyOf'' @ '':['' @ t @ ''},'' @ object_text [(''type'', json_quote ''null'')] @ '']'')"
proof -
  let ?null = "object_text [(''type'', json_quote ''null'')]"
  have "json_text (array_text [t @ ''}'', ?null])"
    using object_schema_text [OF opened_schema_close [OF assms]]
    by (auto intro!: json_text_array simp: json_members_text json_text_quote)
  then show ?thesis
    unfolding opened_schema_def
    by (intro exI [of _ "[(''anyOf'', array_text [t @ ''}'', ?null])]"]) (simp add: object_members_def array_text_def)
qed

section \<open>Every route is documented in JSON\<close>

text \<open>
  DuckDB's side: a number or truth value has a text that, in lower case, is a JSON value unless it
  is one of the three the code leaves out.
\<close>

definition literal_types :: "LogicalType set" where
  "literal_types = {L_BOOLEAN, L_TINYINT, L_SMALLINT, L_INTEGER, L_BIGINT, L_HUGEINT, L_UTINYINT, L_USMALLINT,
     L_UINTEGER, L_UBIGINT, L_OTHER ''UHUGEINT'', L_FLOAT, L_DOUBLE, L_DECIMAL}"

definition literal_texts_ok :: "string_util \<Rightarrow> 'v oas_env \<Rightarrow> bool" where
  "literal_texts_ok U V \<longleftrightarrow> (\<forall>type \<in> literal_types. \<forall>text.
     ((\<exists>raw. oe_cast V raw type = Some text) \<or> (\<exists>v. oe_variant V v = Some (type, text))) \<longrightarrow>
     json_number (su_lower U text) \<longrightarrow> json_text (su_lower U text))"

text \<open>
  The declaration's side: bounds are numbers, and a parameter with a default has a declared type the
  document knows. A declared schema is itself JSON, and a declared body type has a schema with at
  least one member: see \<open>untyped_body_breaks_document\<close> and \<open>untyped_default_breaks_document\<close>
  for what happens otherwise.
\<close>

definition documentable_param :: "string_util \<Rightarrow> 'v oas_env \<Rightarrow> 'v QuackapiParamSpec \<Rightarrow> bool" where
  "documentable_param U V s \<longleftrightarrow>
     (\<forall>v. Some v \<in> {ps_ge s, ps_gt s, ps_le s, ps_lt s} \<longrightarrow> number_text (oe_value_text V v)) \<and>
     (ps_has_default s \<longrightarrow> documented_type U (Some s) L_UNKNOWN \<noteq> L_UNKNOWN)"

definition documentable :: "string_util \<Rightarrow> 'v oas_env \<Rightarrow> 'v QuackapiRoute \<Rightarrow> bool" where
  "documentable U V route \<longleftrightarrow>
     list_all (documentable_param U V) (rt_params route) \<and>
     (rt_body_schema route \<noteq> [] \<longrightarrow> json_text (rt_body_schema route)) \<and>
     (rt_body_schema route = [] \<longrightarrow> rt_body_type route \<noteq> [] \<longrightarrow>
        QuackapiDuckdbTransformToOpenApi U (rt_body_type route) \<noteq> ''{}'')"

lemma declared_type_known:
  assumes "documented_type U (Some s) L_UNKNOWN \<noteq> L_UNKNOWN"
  shows "documented_type U (Some s) ptype \<in> insert L_VARCHAR (insert L_VARIANT literal_types)"
  using assms unfolding documented_type_def option.case Let_def literal_types_def by (auto split: if_splits)

lemma variant_default_text:
  assumes "literal_texts_ok U V" "VariantDefaultJson U V s \<noteq> []"
  shows "json_text (VariantDefaultJson U V s)"
proof (cases "oe_variant V (ps_default_variant s)")
  case None
  with assms(2) show ?thesis
    by (auto simp: VariantDefaultJson_def json_text_constants split: if_splits)
next
  case (Some r)
  obtain type lit where r: "r = (type, lit)" by (cases r)
  have "type \<in> literal_types \<Longrightarrow> json_number (su_lower U lit) \<Longrightarrow> json_text (su_lower U lit)"
    using assms(1) Some r unfolding literal_texts_ok_def by blast
  with assms(2) Some r show ?thesis
    unfolding VariantDefaultJson_def literal_types_def [symmetric]
    by (simp add: json_text_constants json_text_quote split: if_splits)
qed

lemma append_default_opened:
  assumes "literal_texts_ok U V" "opened_schema t" "ptype \<in> insert L_VARCHAR (insert L_VARIANT literal_types)"
  shows "opened_schema (append_default U V ptype s text_wire t)"
proof -
  have n: "opened_schema (AppendOasProperty k ''null'' u)" "opened_schema (AppendOasProperty k ''true'' u)"
    "opened_schema (AppendOasProperty k (json_quote q) u)" if "opened_schema u" for k u q
    using that by (simp_all add: opened_schema_append json_text_constants json_text_quote)
  let ?t1 = "if ps_default_is_null s \<and> \<not> text_wire \<and> ptype = L_VARIANT then
      ''{'' @ json_quote ''anyOf'' @ '':['' @ t @ ''},'' @ object_text [(''type'', json_quote ''null'')] @ '']''
    else if ps_default_is_null s then AppendOasProperty ''nullable'' ''true'' t else t"
  have t1: "opened_schema ?t1" using assms(2) n(2) opened_schema_any_of by simp
  have variant: "opened_schema (if VariantDefaultJson U V s \<noteq> [] then AppendOasProperty ''default'' (VariantDefaultJson U V s) ?t1 else ?t1)"
    using t1 variant_default_text [OF assms(1)] opened_schema_append by simp
  have cast: "opened_schema (AppendOasProperty ''default'' (su_lower U lit) ?t1)"
    if "ptype \<noteq> L_VARCHAR" "ptype \<noteq> L_VARIANT" "oe_cast V (ps_default_raw s) ptype = Some lit" "json_number (su_lower U lit)" for lit
    using that assms(1,3) t1 by (intro opened_schema_append) (auto simp: literal_texts_ok_def)
  show ?thesis
    unfolding append_default_def Let_def
    using t1 variant n(1) [OF t1] n(3) [OF t1] cast by (auto split: option.splits)
qed

lemma nat_string_number: "number_text (nat_string n)"
proof -
  have "is_digit c" if "c \<in> set (nat_string n)" for c using that by (rule nat_string_digits)
  then show ?thesis
    by (cases "nat_string n") (auto simp: number_text_def list_all_iff number_char_def)
qed

lemma append_constraints_opened:
  assumes "documentable_param U V s" "opened_schema t"
  shows "opened_schema (append_constraints V s t)"
proof -
  have b: "opened_schema (append_bound V k b u)"
    if "opened_schema u" "b \<in> {ps_ge s, ps_gt s, ps_le s, ps_lt s}" for k b u
    using that assms(1) by (cases b) (auto simp: append_bound_def documentable_param_def intro!: opened_schema_append json_text_number)
  have l: "opened_schema (append_length k b u)" if "opened_schema u" for k b u
    using that by (cases b) (auto simp: append_length_def intro!: opened_schema_append json_text_number nat_string_number)
  show ?thesis unfolding append_constraints_def by (intro l b assms(2)) simp_all
qed

lemma param_schema_object:
  assumes "literal_texts_ok U V" "\<And>s. spec = Some s \<Longrightarrow> documentable_param U V s"
  shows "object_schema (ParamSchema U V ptype0 spec text_wire)"
proof (cases spec)
  case None
  then show ?thesis by (simp add: ParamSchema_def base_schema_object)
next
  case (Some s)
  let ?ptype = "documented_type U spec ptype0"
  let ?t = "butlast (base_schema U ?ptype spec text_wire)"
  let ?limited = "if \<not> impossible_text_numeric_variant ?ptype spec text_wire \<and> \<not> impossible_body_variant ?ptype spec text_wire
    then append_constraints V s ?t else ?t"
  have d: "documentable_param U V s" using assms(2) Some by blast
  have l: "opened_schema ?limited"
    using append_constraints_opened [OF d] object_schema_open [OF base_schema_object, of U ?ptype spec text_wire] by simp
  have "opened_schema (append_default U V ?ptype s text_wire ?limited)" if "ps_has_default s"
    using d that Some declared_type_known [of U s ptype0]
    by (intro append_default_opened assms(1) l) (simp add: documentable_param_def)
  with l have "opened_schema (if ps_has_default s then append_default U V ?ptype s text_wire ?limited else ?limited)" by simp
  from opened_schema_close [OF this] show ?thesis
    using base_schema_object [of U ?ptype spec text_wire] unfolding ParamSchema_def Let_def by (simp add: Some)
qed

lemma find_spec_documentable: "documentable U V route \<Longrightarrow> FindSpec U route n = Some s \<Longrightarrow> documentable_param U V s"
  by (auto simp: documentable_def FindSpec_def list_all_iff dest: find_SomeD)

lemma bool_text_json: "json_text (bool_text b)"
  by (simp add: bool_text_def json_text_constants)

lemma described_members: "json_members (described d)"
  by (simp add: described_def json_text_quote)

lemma params_json_text:
  assumes "literal_texts_ok U V" "documentable U V route"
  shows "json_text (params_json U V route meta)"
proof -
  have schema: "json_text (ParamSchema U V ptype (FindSpec U route n) b)" for ptype n b
    using find_spec_documentable [OF assms(2)] by (intro object_schema_text param_schema_object assms(1)) blast
  have "json_text (path_parameter U V route meta n)" for n
    unfolding path_parameter_def by (intro json_members_text) (simp add: json_text_quote json_text_constants schema)
  moreover have "json_text (named_parameter U V route meta n)" for n
    unfolding named_parameter_def Let_def
    by (intro json_members_text) (simp add: json_text_quote bool_text_json schema described_members)
  ultimately show ?thesis unfolding params_json_def by (intro json_text_array) auto
qed

text \<open>The schema of a declared body structure is an object.\<close>

lemma type_object_members: "type_object t = object_text [(''type'', json_quote t)]"
  "type_format_object t f = object_text [(''type'', json_quote t), (''format'', json_quote f)]" "''{}'' = object_text []"
  by (simp_all add: type_object_def type_format_object_def object_text_def object_members_def json_member_text [of _ _ undefined] member_text_def)

lemma transform_scalar_object: "object_schema (TransformScalarToOpenApi U decl)"
  unfolding TransformScalarToOpenApi_def Let_def type_object_members
  by (intro object_schema_if object_schemaI) (simp_all add: json_text_quote)

lemma transform_node_object: "object_schema (TransformNodeToOpenApi U v)"
proof (induction v)
  case (JsonNode kind scalar children members)
  have e: "object_schema ''{}''" unfolding type_object_members(3) by (rule object_schemaI) simp
  have two: "''{'' @ json_member k t @ '','' @ json_member l u @ ''}'' = object_text [(k, t), (l, u)]"
    if "plain_key k" "plain_key l" for k t l u
    using that by (simp add: object_text_def object_members_def json_member_text [of _ _ undefined] member_text_def)
  show ?case
  proof (cases kind)
    case STRING
    then show ?thesis by (simp add: transform_scalar_object)
  next
    case ARRAY
    have "json_text (case children of [] \<Rightarrow> ''{}'' | child # _ \<Rightarrow> TransformNodeToOpenApi U child)"
      using JsonNode.IH(1) e by (auto intro: object_schema_text split: list.splits)
    then show ?thesis unfolding ARRAY TransformNodeToOpenApi.simps
      by (subst two) (auto intro!: object_schemaI simp: json_text_quote)
  next
    case OBJECT
    have m: "json_members (map (\<lambda>m. (fst m, TransformNodeToOpenApi U (snd m))) members)"
      using JsonNode.IH(2) by (auto simp: json_members_map snds.simps intro!: object_schema_text)
    have "''{'' @ comma_list (map (\<lambda>m. json_quote (fst m) @ '':'' @ TransformNodeToOpenApi U (snd m)) members) @ ''}'' =
        object_text (map (\<lambda>m. (fst m, TransformNodeToOpenApi U (snd m))) members)"
      by (simp add: object_text_def object_members_def comp_def)
    then show ?thesis unfolding OBJECT TransformNodeToOpenApi.simps
      by (subst two) (auto intro!: object_schemaI json_members_text simp: json_text_quote m)
  qed (simp_all add: e)
qed

lemma transform_object: "object_schema (QuackapiDuckdbTransformToOpenApi U body_type)"
proof -
  have "object_schema ''{}''" unfolding type_object_members(3) by (rule object_schemaI) simp
  then show ?thesis by (auto simp: QuackapiDuckdbTransformToOpenApi_def transform_node_object split: option.splits)
qed

lemma object_schema_add_member:
  assumes "object_schema t" "t \<noteq> ''{}''" "json_text v"
  shows "object_schema (butlast t @ '','' @ object_members [(k, v)] @ ''}'')"
proof -
  obtain ms where ms: "json_members ms" "t = object_text ms" using assms(1) by (auto simp: object_schema_def)
  with assms(2) have "ms \<noteq> []" by (auto simp: object_text_def object_members_def)
  then have "butlast t @ '','' @ object_members [(k, v)] @ ''}'' = object_text (ms @ [(k, v)])"
    by (simp add: ms(2) object_text_def butlast_append object_members_snoc) (simp add: object_members_def)
  with ms(1) assms(3) show ?thesis by (simp add: object_schemaI)
qed

lemma declared_body_json:
  assumes "documentable U V route" "declared_body route"
  shows "json_text (declared_body_schema U route)"
proof -
  have s: "rt_body_schema route \<noteq> [] \<Longrightarrow> json_text (rt_body_schema route)"
    and t: "rt_body_schema route = [] \<Longrightarrow> QuackapiDuckdbTransformToOpenApi U (rt_body_type route) \<noteq> ''{}''"
    using assms by (auto simp: documentable_def declared_body_def)
  have both: "json_text (object_text [(''allOf'', array_text [a, b]), (k, json_quote q)])"
    if "json_text a" "json_text b" for a b k q
    using that by (intro json_members_text) (auto simp: json_text_quote intro!: json_text_array)
  show ?thesis
  proof (cases "rt_body_schema route = []")
    case True
    from object_schema_add_member [OF transform_object t [OF True] json_text_quote] show ?thesis
      by (auto simp: declared_body_schema_def Let_def True object_schema_text json_text_quote intro: json_members_text)
  next
    case False
    then show ?thesis
      using s both object_schema_text [OF transform_object] by (simp add: declared_body_schema_def Let_def)
  qed
qed

lemma variant_overlay_json:
  assumes "literal_texts_ok U V" "documentable U V route" "variant_body_overlay U V route meta \<noteq> []"
  shows "json_text (variant_body_overlay U V route meta)"
proof -
  let ?props = "map (\<lambda>s. (ps_name s, ParamSchema U V L_VARIANT (Some s) False)) (body_variants U route meta)"
  have "documentable_param U V s" if "s \<in> set (body_variants U route meta)" for s
    using that assms(2) by (auto simp: body_variants_def documentable_def list_all_iff split: if_splits)
  then have "json_members ?props"
    by (auto simp: json_members_map intro!: object_schema_text param_schema_object assms(1))
  moreover have "json_text (array_text (map json_quote needed))" for needed
    by (intro json_text_array) (auto simp: json_text_quote)
  ultimately show ?thesis
    using assms(3) unfolding variant_body_overlay_def Let_def
    by (auto intro!: json_members_text simp: json_text_quote split: if_splits)
qed

lemma body_schema_json:
  assumes "literal_texts_ok U V" "documentable U V route" "declared_body route \<or> variant_body_overlay U V route meta \<noteq> []"
  shows "json_text (body_schema U V route meta)"
proof -
  have both: "json_text (object_text [(''allOf'', array_text [a, b])])" if "json_text a" "json_text b" for a b
    using that by (intro json_members_text) (auto intro!: json_text_array)
  show ?thesis
    using variant_overlay_json [OF assms(1,2), of meta] declared_body_json [OF assms(2)] assms(3) both
    by (auto simp: body_schema_def Let_def)
qed

lemma request_body_members:
  assumes "literal_texts_ok U V" "documentable U V route"
  shows "json_members (request_body U V route meta)"
proof (cases "declared_body route \<or> variant_body_overlay U V route meta \<noteq> []")
  case True
  then show ?thesis
    using body_schema_json [OF assms, of meta]
    by (auto simp: request_body_def described_members bool_text_json intro!: json_members_text)
qed (simp add: request_body_def)

lemma described_content_json: "json_text schema \<Longrightarrow> json_text (described_content d c schema)"
  unfolding described_content_def by (auto intro!: json_members_text simp: json_text_quote)

lemma row_properties_json: "json_text (row_properties U meta)"
  unfolding row_properties_def
  by (intro json_members_text) (auto simp: json_members_map intro!: object_schema_text DuckTypeToOas_object)

lemma digit_json: "json_text ''0''"
  by (rule json_text_number) (simp add: number_text_def is_digit_def)

lemma success_response_json: "json_text (snd (snd (success_response U route meta)))"
proof -
  have i: "json_text (snd (snd (if c then a else b)))"
    if "json_text (snd (snd a))" "json_text (snd (snd b))" for c and a b :: "string \<times> string \<times> string"
    using that by simp
  have "json_members [(''properties'', row_properties U meta)]" by (simp add: row_properties_json)
  then show ?thesis
    unfolding success_response_def Let_def
    by (intro i) (auto intro!: json_members_text simp: json_text_quote digit_json)
qed

lemma responses_json_text: "json_text (responses_json U route meta)"
proof -
  obtain c d t where s: "success_response U route meta = (c, d, t)" by (metis prod_cases3)
  with success_response_json [of U route meta] have "json_text t" by simp
  then show ?thesis
    unfolding responses_json_def s prod.case
    by (intro json_members_text) (auto intro!: described_content_json json_members_text simp: json_text_quote)
qed

lemma json_object_members:
  assumes "\<And>k t. (k, t) \<in> set ms \<Longrightarrow> \<exists>v. json_reads t v \<and> P k v"
  shows "\<exists>vs. map fst vs = map fst ms \<and> json_reads (object_text ms) (JsonNode OBJECT [] [] vs) \<and> (\<forall>(k, v) \<in> set vs. P k v)"
proof -
  have "\<forall>x \<in> set ms. \<exists>v. json_reads (snd x) v \<and> P (fst x) v" using assms by auto
  from bchoice [OF this] obtain f where f: "\<And>x. x \<in> set ms \<Longrightarrow> json_reads (snd x) (f x) \<and> P (fst x) (f x)" by blast
  have "json_reads (object_text ms) (JsonNode OBJECT [] [] (map (\<lambda>x. (fst x, f x)) ms))"
    by (rule json_reads_object) (use f in \<open>auto simp: comp_def list_all2_conv_all_nth\<close>)
  then show ?thesis using f by (intro exI [of _ "map (\<lambda>x. (fst x, f x)) ms"]) (auto simp: comp_def)
qed

text \<open>What the document says of a route at the least: its name, and the scheme it requires.\<close>

definition security_node :: "'v QuackapiRoute \<Rightarrow> JsonNode" where
  "security_node route = JsonNode ARRAY [] (if rt_require_auth route = [] then []
     else [JsonNode OBJECT [] [] [(rt_require_auth route, JsonNode ARRAY [] [] [])]]) []"

definition documents :: "'v QuackapiRoute \<Rightarrow> JsonNode \<Rightarrow> bool" where
  "documents route node = (jn_kind node = OBJECT \<and>
     map_of (jn_members node) ''operationId'' = Some (JsonNode STRING (rt_name route) [] []) \<and>
     map_of (jn_members node) ''security'' = Some (security_node route))"

lemma security_reads:
  "json_reads (array_text (if a = [] then [] else [object_text [(a, array_text [])]]))
     (JsonNode ARRAY [] (if a = [] then [] else [JsonNode OBJECT [] [] [(a, JsonNode ARRAY [] [] [])]]) [])"
proof -
  have e: "json_reads (array_text []) (JsonNode ARRAY [] [] [])" by (rule json_reads_array) simp
  have "json_reads (object_text [(a, array_text [])]) (JsonNode OBJECT [] [] [(a, JsonNode ARRAY [] [] [])])"
    by (rule json_reads_object) (simp_all add: e)
  then have "json_reads (array_text [object_text [(a, array_text [])]]) (JsonNode ARRAY [] [JsonNode OBJECT [] [] [(a, JsonNode ARRAY [] [] [])]] [])"
    by (intro json_reads_array) simp
  with e show ?thesis by simp
qed

lemma map_of_only:
  assumes "k \<in> fst ` set vs" and "\<forall>(k', v') \<in> set vs. k' = k \<longrightarrow> v' = v"
  shows "map_of vs k = Some v"
proof -
  from assms(1) obtain w where "map_of vs k = Some w" by (metis map_of_eq_None_iff option.exhaust)
  with assms(2) map_of_SomeD [OF this] show ?thesis by auto
qed

lemma operation_documents:
  assumes "literal_texts_ok U V" "documentable U V route"
  shows "\<exists>node. json_reads (operation_json U V route) node \<and> documents route node"
proof -
  let ?meta = "route_metadata U V route" and ?tags = "tag_list U (rt_tags route)"
  let ?ms = "[(''operationId'', json_quote (rt_name route)), (''summary'', json_quote (rt_name route))] @
         (if ?tags = [] then [] else [(''tags'', array_text (map json_quote ?tags))]) @ request_body U V route ?meta @
         [(''parameters'', params_json U V route ?meta), (''responses'', responses_json U route ?meta),
          (''security'', array_text (if rt_require_auth route = [] then [] else [object_text [(rt_require_auth route, array_text [])]]))]"
  let ?P = "\<lambda>k v. (k = ''operationId'' \<longrightarrow> v = JsonNode STRING (rt_name route) [] []) \<and> (k = ''security'' \<longrightarrow> v = security_node route)"
  have body: "t = ''requestBody''" if "(t, x) \<in> set (request_body U V route ?meta)" for t x
    using that by (auto simp: request_body_def Let_def split: if_splits)
  have tags: "json_text (array_text (map json_quote ts))" for ts
    by (intro json_text_array) (auto simp: json_text_quote)
  define Q where "Q = (\<lambda>(k, t). \<exists>v. json_reads t v \<and> ?P k v)"
  have rest: "Q (k, t)" if "json_text t" "k \<noteq> ''operationId''" "k \<noteq> ''security''" for k t
    using that by (auto simp: json_text_def Q_def)
  have ends: "Q (''operationId'', json_quote (rt_name route))"
    "Q (''security'', array_text (if rt_require_auth route = [] then [] else [object_text [(rt_require_auth route, array_text [])]]))"
    using json_reads_quote [of "rt_name route"] security_reads [of "rt_require_auth route"] by (auto simp: Q_def security_node_def)
  have mids: "Q (''summary'', json_quote (rt_name route))" "Q (''tags'', array_text (map json_quote ?tags))"
    "Q (''parameters'', params_json U V route ?meta)" "Q (''responses'', responses_json U route ?meta)"
    by (rule rest; simp add: json_text_quote tags params_json_text [OF assms] responses_json_text)+
  have "list_all Q (request_body U V route ?meta)"
    using request_body_members [OF assms, of ?meta] body by (fastforce simp: list_all_iff json_members_def intro!: rest)
  with ends mids have "list_all Q ?ms" by (simp only: list_all_append list.pred_inject if_distrib [where f = "list_all Q"] simp_thms if_True if_False split: if_split)
  then have all: "\<forall>x \<in> set ?ms. Q x" unfolding list_all_iff .
  have "\<exists>v. json_reads t v \<and> ?P k v" if "(k, t) \<in> set ?ms" for k t
    using bspec [OF all that] unfolding Q_def prod.case .
  from json_object_members [of ?ms ?P, OF this] obtain vs where vs: "map fst vs = map fst ?ms"
    "json_reads (object_text ?ms) (JsonNode OBJECT [] [] vs)" "\<forall>(k, v) \<in> set vs. ?P k v" by blast
  have keys: "fst ` set vs = fst ` set ?ms" using vs(1) by (metis image_set)
  have "map_of vs ''operationId'' = Some (JsonNode STRING (rt_name route) [] [])" "map_of vs ''security'' = Some (security_node route)"
    by (rule map_of_only; use vs(3) in \<open>auto simp: keys\<close>)+
  with vs(2) show ?thesis
    by (intro exI [of _ "JsonNode OBJECT [] [] vs"]) (simp add: operation_json_def documents_def Let_def)
qed

section \<open>Properties of the document\<close>

text \<open>The paths in the order in which they occur first.\<close>

definition first_paths :: "'v QuackapiRoute list \<Rightarrow> string list" where
  "first_paths rs = rev (remdups (rev (map (\<lambda>r. OasPath (rt_pattern r)) rs)))"

definition no_case_variants :: "string_util \<Rightarrow> 'v QuackapiRoute list \<Rightarrow> bool" where
  "no_case_variants U rs = (\<forall>p \<in> set (first_paths rs). \<forall>q \<in> set (first_paths rs). su_lower U p = su_lower U q \<longrightarrow> p = q)"

lemma first_paths_snoc:
  "first_paths (rs @ [r]) = (if OasPath (rt_pattern r) \<in> set (first_paths rs) then first_paths rs else first_paths rs @ [OasPath (rt_pattern r)])"
  by (simp add: first_paths_def)

lemma path_order_first:
  assumes "no_case_variants U rs"
  shows "path_order U (map (route_op U V) rs) = first_paths rs"
  using assms
proof (induction rs rule: rev_induct)
  case (snoc r rs)
  have sub: "set (first_paths rs) \<subseteq> set (first_paths (rs @ [r]))" "OasPath (rt_pattern r) \<in> set (first_paths (rs @ [r]))"
    by (auto simp: first_paths_snoc)
  then have v: "no_case_variants U rs" using snoc.prems unfolding no_case_variants_def by blast
  have "ListContains U (first_paths rs) (OasPath (rt_pattern r)) \<longleftrightarrow> OasPath (rt_pattern r) \<in> set (first_paths rs)"
    using snoc.prems sub unfolding no_case_variants_def ListContains_def any_iff by blast
  with snoc.IH [OF v] show ?case by (simp add: path_order_def add_path_def first_paths_snoc route_op_def)
qed (simp add: path_order_def first_paths_def)

lemma path_ops_routes: "path_ops (map (route_op U V) rs) p = map (route_op U V) (filter (\<lambda>r. OasPath (rt_pattern r) = p) rs)"
  by (simp add: path_ops_def filter_map comp_def route_op_def)

definition paths_node :: "string_util \<Rightarrow> ('v QuackapiRoute \<Rightarrow> JsonNode) \<Rightarrow> 'v QuackapiRoute list \<Rightarrow> JsonNode" where
  "paths_node U operation rs = JsonNode OBJECT [] [] (map (\<lambda>p. (p, JsonNode OBJECT [] []
     (map (\<lambda>r. (su_lower U (rt_method r), operation r)) (filter (\<lambda>r. OasPath (rt_pattern r) = p) rs)))) (first_paths rs))"

lemma paths_read:
  assumes "no_case_variants U rs" and "\<And>r. r \<in> set rs \<Longrightarrow> json_reads (operation_json U V r) (operation r)"
  shows "json_reads (paths_json U (map (route_op U V) rs)) (paths_node U operation rs)"
proof -
  have "json_reads (path_item (map (route_op U V) rs) p)
      (JsonNode OBJECT [] [] (map (\<lambda>r. (su_lower U (rt_method r), operation r)) (filter (\<lambda>r. OasPath (rt_pattern r) = p) rs)))" for p
    unfolding path_item_def path_ops_routes map_map
    by (rule json_reads_object) (use assms(2) in \<open>auto simp: comp_def route_op_def list_all2_map1 list_all2_map2 intro!: list.rel_refl_strong\<close>)
  then show ?thesis
    unfolding paths_json_def paths_node_def path_order_first [OF assms(1)]
    by (intro json_reads_object) (simp_all add: comp_def list_all2_conv_all_nth)
qed


definition example_oas :: "nat oas_env" where
  "example_oas = \<lparr>oe_prepare = (\<lambda>_. Some \<lparr>pp_names = [''id''], pp_types = [L_BIGINT], pp_expected = [(''id'', L_BIGINT)], pp_params = [''id'']\<rparr>),
     oe_alias = (\<lambda>_. None), oe_value_text = nat_string, oe_variant = (\<lambda>n. Some (L_BIGINT, nat_string n)),
     oe_cast = (\<lambda>raw type. if raw = ''7'' then Some ''7'' else None)\<rparr>"

definition example_routes :: "nat QuackapiState" where
  "example_routes = initial_state\<lparr>routes := [example_route, example_route\<lparr>rt_name := ''erase'', rt_method := ''DELETE''\<rparr>]\<rparr>"

lemma example_oas_ok: "literal_texts_ok ascii_util example_oas"
proof -
  have n: "map ascii_lower (nat_string n) = nat_string n" for n
  proof (rule map_idI)
    fix c assume "c \<in> set (nat_string n)"
    then have "is_digit c" by (rule nat_string_digits)
    then show "ascii_lower c = c" by (auto simp: ascii_lower_def is_digit_def is_upper_def)
  qed
  have "json_text ''7''" by (rule json_text_number) (simp add: number_text_def is_digit_def)
  then show ?thesis
    by (auto simp: literal_texts_ok_def example_oas_def n json_text_number nat_string_number ascii_lower_def is_upper_def split: if_splits)
qed

lemma lower_examples:
  "ascii_lower CHR ''G'' = CHR ''g''" "ascii_lower CHR ''E'' = CHR ''e''" "ascii_lower CHR ''T'' = CHR ''t''"
  "ascii_lower CHR ''D'' = CHR ''d''" "ascii_lower CHR ''L'' = CHR ''l''"
  "map ascii_lower ''/Items'' = ''/items''" "map ascii_lower ''/items'' = ''/items''"
  by code_simp+


lemma add_path_distinct: "distinct ps \<Longrightarrow> distinct (fold (add_path U) ops ps)"
proof (induction ops arbitrary: ps)
  case (Cons op ops)
  have "oas_path op \<notin> set ps" if "\<not> ListContains U ps (oas_path op)"
    using that by (auto simp: ListContains_def any_iff)
  with Cons show ?case by (simp add: add_path_def)
qed simp

lemma add_path_all:
  assumes "\<And>p q. p \<in> set ps \<union> oas_path ` set ops \<Longrightarrow> q \<in> set ps \<union> oas_path ` set ops \<Longrightarrow> su_lower U p = su_lower U q \<Longrightarrow> p = q"
  shows "set (fold (add_path U) ops ps) = set ps \<union> oas_path ` set ops"
  using assms
proof (induction ops arbitrary: ps)
  case (Cons op ops)
  have "oas_path op \<in> set ps" if "ListContains U ps (oas_path op)"
  proof -
    from that obtain p where p: "p \<in> set ps" "su_lower U p = su_lower U (oas_path op)"
      by (auto simp: ListContains_def any_iff)
    from Cons.prems [OF _ _ p(2)] p(1) show ?thesis by simp
  qed
  then have s: "set (add_path U op ps) = insert (oas_path op) (set ps)" by (auto simp: add_path_def)
  have "set (fold (add_path U) ops (add_path U op ps)) = set (add_path U op ps) \<union> oas_path ` set ops"
    by (rule Cons.IH) (rule Cons.prems; simp add: s; blast)
  with s show ?case by simp
qed simp

lemma mset_group:
  assumes "distinct ps" "oas_path ` set ops \<subseteq> set ps"
  shows "mset (concat (map (path_ops ops) ps)) = mset ops"
  using assms
proof (induction ps arbitrary: ops)
  case (Cons p ps)
  let ?rest = "filter (\<lambda>op. oas_path op \<noteq> p) ops"
  have m: "map (path_ops ops) ps = map (path_ops ?rest) ps"
    using Cons.prems(1) by (auto simp: path_ops_def intro!: filter_cong)
  have "mset (concat (map (path_ops ?rest) ps)) = mset ?rest"
    by (rule Cons.IH) (use Cons.prems in auto)
  moreover have "mset ops = mset (filter (\<lambda>op. oas_path op = p) ops) + mset ?rest"
    by (simp add: multiset_partition [symmetric])
  ultimately show ?case unfolding list.map concat.simps mset_append m by (simp only: path_ops_def)
qed simp

text \<open>
  When no two documented paths differ only in the case of letters, every route is documented
  exactly once: the operations listed under the paths are, as a multiset, the operations of the
  registry, and no path is listed twice.
\<close>

theorem every_route_documented_once:
  assumes "\<And>p q. p \<in> oas_path ` set ops \<Longrightarrow> q \<in> oas_path ` set ops \<Longrightarrow> su_lower U p = su_lower U q \<Longrightarrow> p = q"
  shows "mset (concat (map (path_ops ops) (path_order U ops))) = mset ops \<and> distinct (path_order U ops)"
proof -
  have s: "set (path_order U ops) = oas_path ` set ops"
    unfolding path_order_def using add_path_all [of "[]" ops U] assms by simp
  have d: "distinct (path_order U ops)"
    unfolding path_order_def using add_path_distinct [of "[]" U ops] by simp
  from mset_group [OF d, of ops] s d show ?thesis by simp
qed

theorem every_route_documented_once_witness:
  "mset (concat (map (path_ops (map (route_op ascii_util example_oas) (routes example_routes)))
      (path_order ascii_util (map (route_op ascii_util example_oas) (routes example_routes))))) =
    mset (map (route_op ascii_util example_oas) (routes example_routes))"
proof -
  let ?ops = "map (route_op ascii_util example_oas) (routes example_routes)"
  have "oas_path ` set ?ops = {OasPath ''/items/:id''}"
    by (simp add: example_routes_def initial_state_def route_op_def example_route_def)
  then show ?thesis using every_route_documented_once [of ?ops ascii_util] by simp
qed

text \<open>
  The comparison of paths ignores case and the choice of operations does not: of two routes whose
  paths differ only in case, the router serves both and the document has only the first.
\<close>

lemma case_variant_undocumented:
  assumes "oas_path a = ''/Items''" "oas_path b = ''/items''"
  shows "concat (map (path_ops [a, b]) (path_order ascii_util [a, b])) = [a]"
    "MatchPattern ''/Items'' ''/items'' = None"
  using assms
  by (simp_all only: path_ops_def path_order_def add_path_def ListContains_def ascii_util_sel lower_examples fold_simps
      any_simps if_True if_False append_Nil comp_apply id_apply, simp_all add: path_ops_def MatchPattern_def SplitPath_def HasTrailingSlash_def capture_name_def)

text \<open>
  Two routes that differ only in a trailing slash are two routes to the router, and one path to
  the document: with the same method, one member name occurs twice.
\<close>

lemma slash_variants_share_member:
  "OasPath ''/items/'' = OasPath ''/items''" "MatchPattern ''/items/'' ''/items'' = None"
  "map method_lc (path_ops [\<lparr>oas_path = OasPath ''/items'', method_lc = ''get'', operation_text = x\<rparr>,
     \<lparr>oas_path = OasPath ''/items/'', method_lc = ''get'', operation_text = y\<rparr>] (OasPath ''/items'')) = [''get'', ''get'']"
  by (simp_all add: OasPath_def SplitPath_def oas_segment_def MatchPattern_def HasTrailingSlash_def path_ops_def)

text \<open>
  The path parameters the document lists are the ones the router captures: whenever a pattern
  matches a path, the captures carry the documented names, in the same order.
\<close>

lemma capture_names_PathParamNames: "PathParamNames pattern = List.map_filter capture_name (SplitPath pattern)"
  unfolding PathParamNames_def capture_name_def ..

lemma instantiates_names: "instantiates pss caps segs \<Longrightarrow> map fst caps = List.map_filter capture_name pss"
  by (induction rule: instantiates.induct) (simp_all add: List.map_filter_simps)

theorem documented_path_params_captured:
  assumes "MatchPattern pattern path = Some captures"
  shows "map fst captures = PathParamNames pattern"
  using assms match_segments_iff [of "SplitPath pattern" "SplitPath path" captures] instantiates_names
  by (auto simp: MatchPattern_def Let_def capture_names_PathParamNames split: if_splits)

theorem documented_path_params_captured_witness:
  "PathParamNames ''/items/:id/{part}'' = [''id'', ''part'']"
proof -
  have "MatchPattern ''/items/:id/{part}'' ''/items/7/x'' = Some [(''id'', ''7''), (''part'', ''x'')]"
    by (simp add: MatchPattern_def SplitPath_def HasTrailingSlash_def capture_name_def)
  from documented_path_params_captured [OF this] show ?thesis by simp
qed

section \<open>Where the document is not JSON\<close>

lemma ParseValue_brace:
  assumes "\<And>m. ParseObject (ParseValue m) (CHR ''{'' # s) = None"
  shows "ParseValue n (CHR ''{'' # s) = None"
  using assms by (cases n) (simp_all add: value_with_def SkipWhitespace_def json_space_def)

lemma ParseObject_open:
  "ParseObject pv (CHR ''{'' # s) = (let s2 = SkipWhitespace s in
     if s2 \<noteq> [] \<and> hd s2 = CHR ''}'' then Some (JsonNode OBJECT [] [] [], tl s2)
     else map_option (\<lambda>(members, s3). (JsonNode OBJECT [] [] members, s3)) (object_loop pv [] s2))"
  by (simp add: ParseObject_def Consume_def SkipWhitespace_def json_space_def)

lemma object_loop_member:
  assumes "reads_as n t node"
  shows "object_loop (ParseValue n) acc (json_quote key @ '':'' @ t @ '','' @ s) = object_loop (ParseValue n) (acc @ [(key, node)]) s"
  using assms by (subst object_loop.simps) (simp add: Consume_def reads_asD)

text \<open>
  A body type that accepts any value (\<open>"JSON"\<close> or \<open>"VARIANT"\<close>, and also a text that is not a
  structure) has the schema \<open>{}\<close>: the marker is appended to its opening brace with a comma in
  front, and the document that contains it is not JSON.
\<close>

lemma untyped_body_breaks_document:
  assumes "rt_body_schema route = []" "QuackapiDuckdbTransformToOpenApi U (rt_body_type route) = ''{}''"
  shows "\<not> json_text (declared_body_schema U route)"
proof -
  have "object_loop pv [] (CHR '','' # s) = None" for pv s
    by (subst object_loop.simps) (simp add: ParseString_def Consume_def SkipWhitespace_def json_space_def)
  then have "ParseObject pv (''{,'' @ s) = None" for pv s
    by (simp add: ParseObject_open SkipWhitespace_def json_space_def)
  then have "ParseValue n (''{,'' @ s) = None" for n s using ParseValue_brace [of "CHR '','' # s"] by simp
  then have "\<not> reads_as n (''{,'' @ s @ ''}'') node" for n s node
    unfolding reads_as_def by (metis append_assoc append_Nil2 option.distinct(1))
  then show ?thesis
    using assms by (auto simp: declared_body_schema_def Let_def json_text_def json_reads_def)
qed

lemma json_body_schema: "QuackapiDuckdbTransformToOpenApi ascii_util (json_quote ''JSON'') = ''{}''"
proof -
  have "upper_trim ascii_util ''JSON'' = ''JSON''" unfolding upper_trim_def ascii_util_sel by code_simp
  then show ?thesis
    by (simp add: QuackapiDuckdbTransformToOpenApi_def reads_as_document [OF reads_string] TransformScalarToOpenApi_def)
qed

text \<open>
  A default of a parameter without a declared type is written as the text of its cast to the type
  DuckDB expects. For a type whose text is no number, such as \<open>TIME\<close>, it is not quoted and the
  schema is not JSON.
\<close>

lemma untyped_default_breaks_document:
  assumes "ps_type_name s = []" "ps_has_default s" "\<not> ps_default_is_null s"
    "{ps_ge s, ps_gt s, ps_le s, ps_lt s} = {None}" "ps_min_length s = None" "ps_max_length s = None"
    "oe_cast V (ps_default_raw s) L_TIME = Some ''09:30:00''"
  shows "\<not> json_text (ParamSchema ascii_util V L_TIME (Some s) True)"
proof -
  let ?tail = "json_quote ''default'' @ '':09:30:00}''"
  have b: "base_schema ascii_util L_TIME (Some s) True = object_text [(''type'', json_quote ''string''), (''format'', json_quote ''time'')]"
    by (simp add: base_schema_def impossible_text_numeric_variant_def impossible_body_variant_def numeric_body_variant_def
        string_body_variant_def ParamTypeToOas_def DuckTypeToOas.simps scalar_schema_def)
  have lower: "map ascii_lower ''09:30:00'' = ''09:30:00''" by code_simp
  have c: "append_constraints V s t = t" for t
    using assms(4-6) by (simp add: append_constraints_def append_bound_def append_length_def)
  have t: "ParamSchema ascii_util V L_TIME (Some s) True =
      ''{'' @ json_quote ''type'' @ '':'' @ json_quote ''string'' @ '','' @ json_quote ''format'' @ '':'' @ json_quote ''time'' @ '','' @ ?tail"
    using assms(1-3,7) lower
    by (simp add: ParamSchema_def documented_type_def Let_def b c append_default_def AppendOasProperty_def json_number_def
        object_text_def object_members_def butlast_append)
  have loop: "object_loop (ParseValue m) acc (?tail @ r) = None" for m acc r
  proof -
    have "ParseValue m (''09:30:00}'' @ r) = Some (JsonNode NUMBER ''09'' [] [], '':30:00}'' @ r)"
      using reads_as_def [of m "''09''" "JsonNode NUMBER ''09'' [] []", THEN iffD1, OF reads_number_text, rule_format, of "'':30:00}'' @ r"]
      by (simp add: number_text_def is_digit_def number_char_def)
    then show ?thesis
      by (subst object_loop.simps) (simp add: Consume_def SkipWhitespace_def json_space_def)
  qed
  let ?members = "json_quote ''type'' @ '':'' @ json_quote ''string'' @ '','' @ json_quote ''format'' @ '':'' @
      json_quote ''time'' @ '','' @ ?tail"
  have "object_loop (ParseValue m) [] ?members = None" for m
    using object_loop_member [OF reads_string] loop [of m _ "[]"] by simp
  then have "ParseObject (ParseValue m) (CHR ''{'' # ?members) = None" for m
    by (simp add: ParseObject_open json_quote_def SkipWhitespace_def json_space_def)
  then have "ParseValue n (CHR ''{'' # ?members) = None" for n by (rule ParseValue_brace)
  then have "ParseValue n (ParamSchema ascii_util V L_TIME (Some s) True) = None" for n by (simp add: t)
  then show ?thesis unfolding json_text_def json_reads_def reads_as_def by (metis append_Nil2 option.distinct(1))
qed

text \<open>
  The request id, trace id and span id are values of the server: every request has them, and the
  document lists them as required query parameters.
\<close>

lemma server_values_documented_as_required:
  assumes "FindSpec U route ''request_id'' = None" "ci_find U ''request_id'' (pp_expected meta) = None"
  shows "named_parameter U V route meta ''request_id'' = object_text
    [(''name'', json_quote ''request_id''), (''in'', json_quote ''query''), (''required'', ''true''),
     (''schema'', object_text [(''type'', json_quote ''string'')])]"
  using assms
  by (simp add: named_parameter_def Let_def HasVariantBodyAlternative_def bool_text_def described_def planned_type_def
      ParamSchema_def documented_type_def base_schema_def impossible_text_numeric_variant_def impossible_body_variant_def
      numeric_body_variant_def string_body_variant_def ParamTypeToOas_def)

end
