(* ===== verification/TableApi.thy ===== *)
theory TableApi
  imports GraphqlDdl Ddl RegistryProps Routing
begin

text \<open>
  The statement \<open>CREATE API FOR TABLE\<close> (\<open>src/src/quackapi_table_api.cpp\<close>): its grammar, the two
  routes it generates for a table, and their registration. DuckDB's answer to preparing a statement
  is a parameter; \<open>num\<close> is \<open>Value::INTEGER\<close>.
\<close>

section \<open>The grammar\<close>

definition ParseQuoted :: "string_util \<Rightarrow> string \<Rightarrow> (string \<times> string) option" where
  "ParseQuoted U rest0 =
     (let rest = QuackapiTrim U rest0
      in if rest = [] \<or> hd rest \<noteq> squote then None
         else if squote \<notin> set (tl rest) then None
         else let out = takeWhile (\<lambda>c. c \<noteq> squote) (tl rest)
              in Some (out, QuackapiTrim U (drop (length out + 2) rest)))"

text \<open>\<open>quoted_name\<close> is the loop over a quoted identifier, as in \<open>GraphqlDdl\<close>: the sources repeat it.\<close>

definition ParseTableIdent :: "string_util \<Rightarrow> string \<Rightarrow> (string \<times> string) option" where
  "ParseTableIdent U rest0 =
     (let rest = QuackapiTrim U rest0; tok = takeWhile (\<lambda>c. c \<noteq> CHR '' '') rest
      in if rest = [] then None
         else if hd rest = CHR 0x22 then
           (case quoted_name (tl rest) of
              None \<Rightarrow> None
            | Some (out, r) \<Rightarrow> if out = [] then None else Some (out, QuackapiTrim U r))
         else if tok = [] \<or> CHR 0x22 \<in> set tok then None
         else Some (tok, QuackapiTrim U (drop (length tok) rest)))"

definition IsSafeParamName :: "string \<Rightarrow> bool" where
  "IsSafeParamName name = (name \<noteq> [] \<and> list_all (\<lambda>c. is_alpha c \<or> is_digit c \<or> c = CHR ''_'') name)"

record TableApiParseData =
  ta_or_replace :: bool
  ta_table :: string
  ta_base_path :: string
  ta_key :: string

lemma ParseQuoted_shorter:
  assumes "ParseQuoted U s = Some (v, r)"
  shows "length r \<le> length s"
proof -
  have "r = QuackapiTrim U (drop (length v + 2) (QuackapiTrim U s))"
    using assms by (auto simp: ParseQuoted_def Let_def split: if_splits)
  with length_QuackapiTrim [of U "drop (length v + 2) (QuackapiTrim U s)"] length_QuackapiTrim [of U s]
  show ?thesis by simp
qed

text \<open>The clauses \<open>AT '<base>'\<close> and \<open>KEY '<column>'\<close>, in any order; a later one overrides.\<close>

definition at_base :: "string_util \<Rightarrow> string \<Rightarrow> TableApiParseData \<Rightarrow> (TableApiParseData \<times> string) option" where
  "at_base U rest data = (case ParseQuoted U rest of
     None \<Rightarrow> None
   | Some (v, r) \<Rightarrow> if v = [] \<or> hd v \<noteq> CHR ''/'' then None else Some (data\<lparr>ta_base_path := v\<rparr>, r))"

definition at_key :: "string_util \<Rightarrow> string \<Rightarrow> TableApiParseData \<Rightarrow> (TableApiParseData \<times> string) option" where
  "at_key U rest data = (case ParseQuoted U rest of
     None \<Rightarrow> None
   | Some (v, r) \<Rightarrow> if v = [] then None else Some (data\<lparr>ta_key := v\<rparr>, r))"

lemma at_base_shorter: "at_base U s data = Some (data', r) \<Longrightarrow> length r \<le> length s"
  by (auto simp: at_base_def dest: ParseQuoted_shorter split: option.splits if_splits)

lemma at_key_shorter: "at_key U s data = Some (data', r) \<Longrightarrow> length r \<le> length s"
  by (auto simp: at_key_def dest: ParseQuoted_shorter split: option.splits if_splits)

function api_clauses :: "string_util \<Rightarrow> string \<Rightarrow> TableApiParseData \<Rightarrow> string + TableApiParseData" where
  "api_clauses U rest data =
     (if rest = [] then Inr data
      else if su_starts_with U (su_upper U rest) ''AT '' then
        (case at_base U (drop 3 rest) data of
           None \<Rightarrow> Inl (''CREATE API FOR TABLE: AT expects a quoted '' @ squoted ''/path'')
         | Some (data', r) \<Rightarrow> api_clauses U r data')
      else if su_starts_with U (su_upper U rest) ''KEY '' then
        (case at_key U (drop 4 rest) data of
           None \<Rightarrow> Inl (''CREATE API FOR TABLE: KEY expects a quoted '' @ squoted ''column'')
         | Some (data', r) \<Rightarrow> api_clauses U r data')
      else Inl (''CREATE API FOR TABLE: unexpected clause '' @ dquoted rest))"
  by pat_completeness auto
termination
proof (relation "measure (\<lambda>(U, rest, data). length rest)", goal_cases)
  case (2 U rest data p data' r)
  then have "length r \<le> length (drop 3 rest)" by (auto dest: at_base_shorter)
  with 2(1) show ?case by (cases rest) auto
next
  case (3 U rest data p data' r)
  then have "length r \<le> length (drop 4 rest)" by (auto dest: at_key_shorter)
  with 3(1) show ?case by (cases rest) auto
qed simp

declare api_clauses.simps [simp del]

definition api_statement :: "string_util \<Rightarrow> bool \<Rightarrow> string \<Rightarrow> string + TableApiParseData" where
  "api_statement U or_replace rest =
     (if rest = [] then Inl ''CREATE API FOR TABLE expects a table name''
      else case ParseTableIdent U rest of
        None \<Rightarrow> Inl (''CREATE API FOR TABLE: '' @ invalid_table_name)
      | Some (table, r) \<Rightarrow>
          if squote \<in> set table then Inl ''CREATE API FOR TABLE: invalid table name''
          else case api_clauses U r \<lparr>ta_or_replace = or_replace, ta_table = table, ta_base_path = [], ta_key = ''id''\<rparr> of
            Inl err \<Rightarrow> Inl err
          | Inr data \<Rightarrow>
              if \<not> IsSafeParamName (ta_key data) then
                Inl ''CREATE API FOR TABLE: KEY must be a bare identifier (letters, digits, underscore)''
              else Inr data)"

definition TableApiParse :: "string_util \<Rightarrow> string \<Rightarrow> TableApiParseData parse_outcome" where
  "TableApiParse U query =
     (let q = QuackapiTrim U query; upper = su_upper U q;
          outcome = (\<lambda>parsed. case parsed of Inl err \<Rightarrow> DISPLAY_EXTENSION_ERROR err | Inr data \<Rightarrow> PARSE_SUCCESSFUL data)
      in if su_starts_with U upper ''CREATE API FOR TABLE '' then outcome (api_statement U False (QuackapiTrim U (drop 21 q)))
         else if su_starts_with U upper ''CREATE OR REPLACE API FOR TABLE '' then
           outcome (api_statement U True (QuackapiTrim U (drop 32 q)))
         else DISPLAY_ORIGINAL_ERROR)"

section \<open>The generated routes\<close>

definition QuoteIdent :: "string \<Rightarrow> string" where
  "QuoteIdent ident = [CHR 0x22] @ concat (map (\<lambda>c. if c = CHR 0x22 then [CHR 0x22, CHR 0x22] else [c]) ident) @ [CHR 0x22]"

text \<open>The base path without trailing slashes, except the root itself.\<close>

function strip_trailing_slashes :: "string \<Rightarrow> string" where
  "strip_trailing_slashes base = (if length base > 1 \<and> last base = CHR ''/'' then strip_trailing_slashes (butlast base) else base)"
  by pat_completeness auto
termination by (relation "measure length") auto

declare strip_trailing_slashes.simps [simp del]

definition api_base :: "TableApiParseData \<Rightarrow> string" where
  "api_base d = strip_trailing_slashes (if ta_base_path d = [] then ''/'' @ ta_table d else ta_base_path d)"

definition limit_param :: "'v literals \<Rightarrow> (int \<Rightarrow> 'v) \<Rightarrow> 'v QuackapiParamSpec" where
  "limit_param L num = (new_spec L ''limit'')\<lparr>ps_type_name := ''INTEGER'', ps_has_default := True, ps_default_raw := ''100'',
     ps_ge := Some (num 1), ps_le := Some (num 1000)\<rparr>"

definition offset_param :: "'v literals \<Rightarrow> (int \<Rightarrow> 'v) \<Rightarrow> 'v QuackapiParamSpec" where
  "offset_param L num = (new_spec L ''offset'')\<lparr>ps_type_name := ''BIGINT'', ps_has_default := True, ps_default_raw := ''0'',
     ps_ge := Some (num 0)\<rparr>"

definition list_route :: "'v literals \<Rightarrow> (int \<Rightarrow> 'v) \<Rightarrow> TableApiParseData \<Rightarrow> 'v QuackapiRoute" where
  "list_route L num d = (new_route (ta_table d @ ''_list'') ''GET'' (api_base d))
     \<lparr>rt_handler_sql := ''SELECT * FROM '' @ QuoteIdent (ta_table d) @ '' ORDER BY '' @ QuoteIdent (ta_key d) @ '' LIMIT $limit OFFSET $offset'',
      rt_params := [limit_param L num, offset_param L num], rt_status := 200\<rparr>"

definition get_route :: "TableApiParseData \<Rightarrow> 'v QuackapiRoute" where
  "get_route d = (new_route (ta_table d @ ''_get'') ''GET'' (api_base d @ ''/:'' @ ta_key d))
     \<lparr>rt_handler_sql := ''SELECT * FROM '' @ QuoteIdent (ta_table d) @ '' WHERE '' @ QuoteIdent (ta_key d) @ '' = $'' @ ta_key d,
      rt_status := 200\<rparr>"

text \<open>Both handlers are prepared (\<open>prepare\<close> gives the error) before the registry changes.\<close>

definition ApplyApiExec :: "string_util \<Rightarrow> 'v literals \<Rightarrow> (int \<Rightarrow> 'v) \<Rightarrow> (string \<Rightarrow> string option) \<Rightarrow> TableApiParseData
    \<Rightarrow> 'v QuackapiState \<Rightarrow> (string \<times> 'v QuackapiState) result" where
  "ApplyApiExec U L num prepare d s =
     (let list = list_route L num d; get = get_route d
      in case prepare (rt_handler_sql list) of
           Some err \<Rightarrow> Inl (InvalidInput ''Invalid handler SQL for API table'' [ta_table d, err])
         | None \<Rightarrow> (case prepare (rt_handler_sql get) of
             Some err \<Rightarrow> Inl (InvalidInput ''Invalid handler SQL for API table'' [ta_table d, err])
           | None \<Rightarrow> (case AddRoutes U [list, get] (ta_or_replace d) s of
               Inl e \<Rightarrow> Inl e
             | Inr s' \<Rightarrow> Inr (''API for '' @ ta_table d @ '': GET '' @ api_base d @ '', GET '' @ api_base d @ ''/:'' @ ta_key d, s'))))"

section \<open>Accepted statements\<close>

definition api_data_ok :: "TableApiParseData \<Rightarrow> bool" where
  "api_data_ok d \<longleftrightarrow> ta_table d \<noteq> [] \<and> squote \<notin> set (ta_table d) \<and> (ta_base_path d = [] \<or> hd (ta_base_path d) = CHR ''/'') \<and>
     IsSafeParamName (ta_key d)"

lemma api_clauses_data:
  "api_clauses U rest data = Inr data' \<Longrightarrow> ta_base_path data = [] \<or> hd (ta_base_path data) = CHR ''/'' \<Longrightarrow>
    ta_table data' = ta_table data \<and> ta_or_replace data' = ta_or_replace data \<and> (ta_base_path data' = [] \<or> hd (ta_base_path data') = CHR ''/'')"
proof (induction U rest data rule: api_clauses.induct)
  case (1 U rest data)
  show ?case
  proof (cases "rest = []")
    case True
    with 1(3,4) show ?thesis by (simp add: api_clauses.simps [of U "[]" data])
  next
    case False
    consider (at) "su_starts_with U (su_upper U rest) ''AT ''"
      | (key) "\<not> su_starts_with U (su_upper U rest) ''AT ''" "su_starts_with U (su_upper U rest) ''KEY ''"
      using 1(3) False by (auto simp: api_clauses.simps [of U rest data] split: if_splits)
    then show ?thesis
    proof cases
      case at
      with 1(3) False obtain d r where d: "at_base U (drop 3 rest) data = Some (d, r)" "api_clauses U r d = Inr data'"
        by (auto simp: api_clauses.simps [of U rest data] split: option.splits)
      then have "ta_table d = ta_table data" "ta_or_replace d = ta_or_replace data" "hd (ta_base_path d) = CHR ''/''"
        by (auto simp: at_base_def split: option.splits if_splits)
      with 1(1) [OF False at d(1) refl d(2)] show ?thesis by simp
    next
      case key
      with 1(3) False obtain d r where d: "at_key U (drop 4 rest) data = Some (d, r)" "api_clauses U r d = Inr data'"
        by (auto simp: api_clauses.simps [of U rest data] split: option.splits)
      then have "ta_table d = ta_table data" "ta_or_replace d = ta_or_replace data" "ta_base_path d = ta_base_path data"
        by (auto simp: at_key_def split: option.splits if_splits)
      with 1(2) [OF False key d(1) refl d(2)] 1(4) show ?thesis by simp
    qed
  qed
qed

lemma ParseTableIdent_nonempty [simp]: "ParseTableIdent U s \<noteq> Some ([], r)"
  by (auto simp: ParseTableIdent_def Let_def split: if_splits option.splits)

lemma api_statement_ok: "api_statement U or_replace rest = Inr d \<Longrightarrow> api_data_ok d \<and> ta_or_replace d = or_replace"
  by (auto simp: api_statement_def api_data_ok_def split: if_splits option.splits sum.splits
      dest!: api_clauses_data)

lemma TableApiParse_ok: "TableApiParse U query = PARSE_SUCCESSFUL d \<Longrightarrow> api_data_ok d"
  by (auto simp: TableApiParse_def Let_def split: if_splits sum.splits dest: api_statement_ok)

section \<open>Properties\<close>

lemma quoted_name_doubled:
  assumes "rest = [] \<or> hd rest \<noteq> CHR 0x22"
  shows "quoted_name (concat (map (\<lambda>c. if c = CHR 0x22 then [CHR 0x22, CHR 0x22] else [c]) ident) @ CHR 0x22 # rest) = Some (ident, rest)"
  using assms by (induction ident) (auto split: list.splits)

lemma QuoteIdent_reads: "rest = [] \<or> hd rest \<noteq> CHR 0x22 \<Longrightarrow> \<exists>body. QuoteIdent ident @ rest = CHR 0x22 # body \<and> quoted_name body = Some (ident, rest)"
  using quoted_name_doubled [of rest ident] by (auto simp: QuoteIdent_def)

text \<open>
  C29. The SQL a table API generates names the table and the key column and nothing else, whatever
  characters the table name has: after its constant start each handler reads as a quoted identifier
  that is exactly the table's name, and what follows is the constant text and the quoted key.
\<close>

theorem generated_sql_quotes_names:
  "(\<exists>body tail. rt_handler_sql (list_route L num d) = ''SELECT * FROM '' @ CHR 0x22 # body \<and>
    quoted_name body = Some (ta_table d, '' ORDER BY '' @ CHR 0x22 # tail) \<and>
    quoted_name tail = Some (ta_key d, '' LIMIT $limit OFFSET $offset'')) \<and>
   (\<exists>body tail. rt_handler_sql (get_route d) = ''SELECT * FROM '' @ CHR 0x22 # body \<and>
    quoted_name body = Some (ta_table d, '' WHERE '' @ CHR 0x22 # tail) \<and>
    quoted_name tail = Some (ta_key d, '' = $'' @ ta_key d))"
proof
  show "\<exists>body tail. rt_handler_sql (list_route L num d) = ''SELECT * FROM '' @ CHR 0x22 # body \<and>
      quoted_name body = Some (ta_table d, '' ORDER BY '' @ CHR 0x22 # tail) \<and>
      quoted_name tail = Some (ta_key d, '' LIMIT $limit OFFSET $offset'')"
  proof -
    obtain tail where t: "QuoteIdent (ta_key d) @ '' LIMIT $limit OFFSET $offset'' = CHR 0x22 # tail"
      "quoted_name tail = Some (ta_key d, '' LIMIT $limit OFFSET $offset'')"
      using QuoteIdent_reads [of "'' LIMIT $limit OFFSET $offset''" "ta_key d"] by auto
    obtain body where "QuoteIdent (ta_table d) @ '' ORDER BY '' @ CHR 0x22 # tail = CHR 0x22 # body"
      "quoted_name body = Some (ta_table d, '' ORDER BY '' @ CHR 0x22 # tail)"
      using QuoteIdent_reads [of "'' ORDER BY '' @ CHR 0x22 # tail" "ta_table d"] by auto
    with t show ?thesis by (auto simp: list_route_def)
  qed
  show "\<exists>body tail. rt_handler_sql (get_route d) = ''SELECT * FROM '' @ CHR 0x22 # body \<and>
      quoted_name body = Some (ta_table d, '' WHERE '' @ CHR 0x22 # tail) \<and>
      quoted_name tail = Some (ta_key d, '' = $'' @ ta_key d)"
  proof -
    obtain tail where t: "QuoteIdent (ta_key d) @ '' = $'' @ ta_key d = CHR 0x22 # tail"
      "quoted_name tail = Some (ta_key d, '' = $'' @ ta_key d)"
      using QuoteIdent_reads [of "'' = $'' @ ta_key d" "ta_key d"] by auto
    obtain body where "QuoteIdent (ta_table d) @ '' WHERE '' @ CHR 0x22 # tail = CHR 0x22 # body"
      "quoted_name body = Some (ta_table d, '' WHERE '' @ CHR 0x22 # tail)"
      using QuoteIdent_reads [of "'' WHERE '' @ CHR 0x22 # tail" "ta_table d"] by auto
    with t show ?thesis by (auto simp: get_route_def)
  qed
qed

lemma strip_trailing_slashes_trailing: "\<not> HasTrailingSlash (strip_trailing_slashes base)"
proof (induction base rule: strip_trailing_slashes.induct)
  case (1 base)
  then show ?case
    by (cases "length base > 1 \<and> last base = CHR ''/''") (simp_all add: strip_trailing_slashes.simps [of base] HasTrailingSlash_def)
qed

lemma split_path_append: "split_path cur (p @ CHR ''/'' # q) = split_path cur p @ split_path [] q"
  by (induction cur p rule: split_path.induct) auto

lemma split_path_segment: "CHR ''/'' \<notin> set q \<Longrightarrow> split_path cur q = (if cur @ q = [] then [] else [cur @ q])"
  by (induction q arbitrary: cur) auto

lemma SplitPath_segment: "q \<noteq> [] \<Longrightarrow> CHR ''/'' \<notin> set q \<Longrightarrow> SplitPath (p @ CHR ''/'' # q) = SplitPath p @ [q]"
  by (simp add: SplitPath_def split_path_append split_path_segment)

lemma match_literal_append:
  "list_all (\<lambda>ps. capture_name ps = None) pss \<Longrightarrow> match_segments (pss @ qss) (pss @ segs) = match_segments qss segs"
  by (induction pss) auto

lemma safe_name_no_slash: "IsSafeParamName key \<Longrightarrow> CHR ''/'' \<notin> set key"
  by (auto simp: IsSafeParamName_def list_all_iff is_alpha_def is_digit_def is_upper_def is_lower_def)

text \<open>
  The two routes of an accepted statement do not get in each other's way: when the base path has no
  captures, the route by key matches exactly the base path extended by one segment and captures that
  segment under the name of the key column, and the list route matches the base path and no such
  extension.
\<close>

theorem table_api_routes_match:
  fixes L :: "'v literals"
  assumes "TableApiParse U query = PARSE_SUCCESSFUL d"
    and "list_all (\<lambda>ps. capture_name ps = None) (SplitPath (api_base d))"
    and "seg \<noteq> []" "CHR ''/'' \<notin> set seg"
  shows "MatchPattern (rt_pattern (get_route d :: 'v QuackapiRoute)) (api_base d @ ''/'' @ seg) = Some [(ta_key d, seg)] \<and>
    MatchPattern (rt_pattern (list_route L num d)) (api_base d) = Some [] \<and>
    MatchPattern (rt_pattern (list_route L num d)) (api_base d @ ''/'' @ seg) = None"
proof -
  have k: "CHR ''/'' \<notin> set (ta_key d)" "ta_key d \<noteq> []"
    using TableApiParse_ok [OF assms(1)] by (auto simp: api_data_ok_def safe_name_no_slash IsSafeParamName_def)
  have b: "\<not> HasTrailingSlash (api_base d)" by (simp add: api_base_def strip_trailing_slashes_trailing)
  have t: "\<not> HasTrailingSlash (p @ CHR ''/'' # q)" if "q \<noteq> []" "CHR ''/'' \<notin> set q" for p q
    using that by (auto simp: HasTrailingSlash_def) (metis last_in_set)
  have s: "SplitPath (api_base d @ CHR ''/'' # q) = SplitPath (api_base d) @ [q]" if "q \<noteq> []" "CHR ''/'' \<notin> set q" for q
    using that by (rule SplitPath_segment)
  have lit: "match_segments (SplitPath (api_base d)) (SplitPath (api_base d)) = Some []"
    using match_literal_append [OF assms(2), of "[]" "[]"] by simp
  have get: "MatchPattern (rt_pattern (get_route d :: 'v QuackapiRoute)) (api_base d @ ''/'' @ seg) = Some [(ta_key d, seg)]"
    using k t [of "CHR '':'' # ta_key d"] t [OF assms(3,4)] s [of "CHR '':'' # ta_key d"] s [OF assms(3,4)]
      match_literal_append [OF assms(2), of "[CHR '':'' # ta_key d]" "[seg]"]
    by (simp add: get_route_def new_route_def MatchPattern_def Let_def capture_name_def)
  have list: "MatchPattern (rt_pattern (list_route L num d)) (api_base d) = Some []"
    by (simp add: list_route_def new_route_def MatchPattern_def Let_def lit)
  have "MatchPattern (rt_pattern (list_route L num d)) (api_base d @ ''/'' @ seg) = None"
    using b t [OF assms(3,4)] s [OF assms(3,4)] by (simp add: list_route_def new_route_def MatchPattern_def Let_def)
  with get list show ?thesis by simp
qed

definition items_api :: TableApiParseData where
  "items_api = \<lparr>ta_or_replace = False, ta_table = ''items'', ta_base_path = [], ta_key = ''id''\<rparr>"

definition example_literals :: "nat literals" where
  "example_literals = \<lparr>li_tokens = (\<lambda>_. []), li_constant = (\<lambda>_. Inr None), li_numeric = (\<lambda>_. None), li_integral = (\<lambda>_. True),
     li_ubigint = Some, li_string = length, li_null = 0\<rparr>"

lemma items_api_parse: "TableApiParse ascii_util ''create api for table items'' = PARSE_SUCCESSFUL items_api"
  by code_simp

lemma items_api_base: "api_base items_api = ''/items''"
  by code_simp

theorem table_api_routes_match_witness:
  "MatchPattern (rt_pattern (get_route items_api :: nat QuackapiRoute)) ''/items/7'' = Some [(''id'', ''7'')]"
proof -
  have "list_all (\<lambda>ps. capture_name ps = None) (SplitPath (api_base items_api))"
    unfolding items_api_base by (simp add: SplitPath_def capture_name_def)
  moreover have "ta_key items_api = ''id''" by (simp add: items_api_def)
  ultimately show ?thesis
    using table_api_routes_match [OF items_api_parse, of "''7''" example_literals nat] by (simp add: items_api_base)
qed

text \<open>
  A statement that is accepted changes two entries of the route table at most: afterwards the names
  \<open><table>_list\<close> and \<open><table>_get\<close> stand for the generated routes, every other name for what it stood
  for before, and names, methods and patterns stay distinct. A statement whose handlers do not
  prepare, or whose routes collide, is refused and there is no new state.
\<close>

theorem table_api_registers_both:
  assumes "routes_wf s" "ApplyApiExec U L num prepare d s = Inr (msg, s')"
  shows "routes_wf s' \<and> List.find (\<lambda>r. rt_name r = n) (routes s') =
    (if n = ta_table d @ ''_list'' then Some (list_route L num d)
     else if n = ta_table d @ ''_get'' then Some (get_route d)
     else List.find (\<lambda>r. rt_name r = n) (routes s))"
proof -
  have a: "AddRoutes U [list_route L num d, get_route d] (ta_or_replace d) s = Inr s'"
    using assms(2) by (auto simp: ApplyApiExec_def Let_def split: option.splits sum.splits)
  have p: "propose_routes [list_route L num d, get_route d] (ta_or_replace d) (routes s) = Inr (routes s')"
    using a by (rule AddRoutes_propose)
  have w: "routes_wf (s\<lparr>routes := routes s\<rparr>)" using assms(1) by simp
  have n: "rt_name (list_route L num d) = ta_table d @ ''_list''" "rt_name (get_route d) = ta_table d @ ''_get''"
    by (simp_all add: list_route_def get_route_def new_route_def)
  from propose_routes_lookup [OF w p, of n] AddRoutes_wf [OF a assms(1)] show ?thesis by (auto simp: n)
qed

theorem table_api_registers_both_witness:
  "\<exists>msg s'. ApplyApiExec ascii_util example_literals nat (\<lambda>_. None) items_api initial_state = Inr (msg, s') \<and> routes_wf s' \<and>
    List.find (\<lambda>r. rt_name r = ''items_get'') (routes s') = Some (get_route items_api)"
proof -
  have w: "routes_wf (initial_state :: nat QuackapiState)" by (simp add: routes_wf_def initial_state_def)
  obtain msg s' where e: "ApplyApiExec ascii_util example_literals nat (\<lambda>_. None) items_api initial_state = Inr (msg, s')"
    by (simp add: ApplyApiExec_def Let_def AddRoutes_def propose_route_def list_route_def get_route_def new_route_def
        items_api_def initial_state_def split: sum.splits option.splits if_splits)
  with table_api_registers_both [OF w e, of "''items_get''"] show ?thesis by (auto simp: items_api_def)
qed

end
