(* ===== verification/Servers.thy ===== *)
theory Servers
  imports Server Queue Policy RegistryProps
begin

text \<open>
  The running servers of a database (\<open>src/src/quackapi_registry.cpp\<close>: start, stop, listing, and the
  per-port observations) and what a server sets up before it starts
  (\<open>src/src/quackapi_batteries.cpp\<close>: log levels, the database settings, the choice of the outbound
  HTTP client, the health routes). The lines printed to the standard error stream and the summary
  text are not modelled.
\<close>

section \<open>The servers of a database\<close>

text \<open>
  \<open>servers\<close> is an \<open>unordered_map\<close>: a list of keys and servers whose order is the iteration order.
  The ring is \<open>None\<close> when its size is zero.
\<close>

record running_server =
  sv_host :: string
  sv_port :: int
  sv_options :: QuackapiServeOptions
  sv_ring :: "QuackapiRequestRecord request_ring option"
  sv_sinks :: "table_sink list"

type_synonym server_map = "(string \<times> running_server) list"

definition server_key :: "string \<Rightarrow> int \<Rightarrow> string" where
  "server_key host port = host @ '':'' @ int_string port"

text \<open>\<open>new_server\<close> is the constructor, which binds the socket: it can throw.\<close>

definition StartServer :: "(string \<Rightarrow> int \<Rightarrow> QuackapiServeOptions \<Rightarrow> running_server result) \<Rightarrow> string \<Rightarrow> int \<Rightarrow> QuackapiServeOptions
    \<Rightarrow> server_map \<Rightarrow> server_map result" where
  "StartServer new_server host port opts servers =
     (let key = server_key host port
      in if any (\<lambda>kv. fst kv = key) servers then Inl (InvalidInput ''quackapi already serving on'' [key])
         else case new_server host port opts of
           Inl e \<Rightarrow> Inl e
         | Inr server \<Rightarrow> Inr (servers @ [(key, server)]))"

text \<open>
  What stopping does, in order: the outbound pool is reset, the listeners stop accepting, and each
  server is handed to a thread that destroys it later.
\<close>

datatype stop_action = RESET_POOL | STOP_ACCEPTING running_server | DESTROY_LATER running_server

definition StopServer :: "int \<Rightarrow> server_map \<Rightarrow> bool \<times> server_map \<times> stop_action list" where
  "StopServer port servers = (case List.find (\<lambda>kv. sv_port (snd kv) = port) servers of
     None \<Rightarrow> (False, servers, [])
   | Some (key, server) \<Rightarrow>
       (True, erase_first (\<lambda>kv. sv_port (snd kv) = port) servers, [RESET_POOL, STOP_ACCEPTING server, DESTROY_LATER server]))"

definition StopAllServers :: "server_map \<Rightarrow> server_map \<times> stop_action list" where
  "StopAllServers servers =
     ([], [RESET_POOL] @ map (\<lambda>kv. STOP_ACCEPTING (snd kv)) servers @ map (\<lambda>kv. DESTROY_LATER (snd kv)) servers)"

definition HasServerOnPort :: "int \<Rightarrow> server_map \<Rightarrow> bool" where
  "HasServerOnPort port servers = any (\<lambda>kv. sv_port (snd kv) = port) servers"

definition GetServerHost :: "int \<Rightarrow> server_map \<Rightarrow> string option" where
  "GetServerHost port servers = map_option (\<lambda>kv. sv_host (snd kv)) (List.find (\<lambda>kv. sv_port (snd kv) = port) servers)"

definition ListServers :: "server_map \<Rightarrow> (string \<times> int \<times> string \<times> string) list" where
  "ListServers servers = map (\<lambda>(key, server).
     (sv_host server, sv_port server,
      if so_http_client_active (sv_options server) = [] then ''httplib'' else so_http_client_active (sv_options server),
      so_http_client_reason (sv_options server))) servers"

text \<open>Port 0 means the only running server; with several, a port is required.\<close>

definition server_requests :: "running_server \<Rightarrow> QuackapiRequestRecord list" where
  "server_requests server = (case sv_ring server of None \<Rightarrow> [] | Some ring \<Rightarrow> Snapshot ring)"

definition observed_server :: "string \<Rightarrow> int \<Rightarrow> server_map \<Rightarrow> running_server option result" where
  "observed_server what port servers =
     (if port = 0 then
        (case servers of
           [] \<Rightarrow> Inr None
         | [(key, server)] \<Rightarrow> Inr (Some server)
         | _ \<Rightarrow> Inl (InvalidInput (what @ ''(): port is required when multiple servers are running'') []))
      else Inr (map_option snd (List.find (\<lambda>kv. sv_port (snd kv) = port) servers)))"

definition SnapshotRequests :: "int \<Rightarrow> server_map \<Rightarrow> QuackapiRequestRecord list result" where
  "SnapshotRequests port servers = (case observed_server ''quackapi_requests'' port servers of
     Inl e \<Rightarrow> Inl e
   | Inr None \<Rightarrow> Inr []
   | Inr (Some server) \<Rightarrow> Inr (server_requests server))"

definition SnapshotTelemetryStatus :: "(table_sink \<Rightarrow> 'st) \<Rightarrow> int \<Rightarrow> server_map \<Rightarrow> 'st list result" where
  "SnapshotTelemetryStatus status port servers = (case observed_server ''quackapi_telemetry_status'' port servers of
     Inl e \<Rightarrow> Inl e
   | Inr None \<Rightarrow> Inr []
   | Inr (Some server) \<Rightarrow> Inr (map status (sv_sinks server)))"

definition flush_server :: "running_server \<Rightarrow> running_server" where
  "flush_server server = server\<lparr>sv_sinks := map FlushPending (sv_sinks server)\<rparr>"

fun flush_port :: "int \<Rightarrow> server_map \<Rightarrow> server_map" where
  "flush_port port [] = []"
| "flush_port port ((key, server) # servers) =
     (if sv_port server = port then (key, flush_server server) # servers else (key, server) # flush_port port servers)"

definition FlushTelemetry :: "int \<Rightarrow> server_map \<Rightarrow> (bool \<times> server_map) result" where
  "FlushTelemetry port servers =
     (if port = 0 then
        (case servers of
           [] \<Rightarrow> Inr (False, servers)
         | [(key, server)] \<Rightarrow> Inr (True, [(key, flush_server server)])
         | _ \<Rightarrow> Inl (InvalidInput ''quackapi_telemetry_flush(): port is required when multiple servers are running'' []))
      else Inr (HasServerOnPort port servers, flush_port port servers))"

section \<open>Log levels\<close>

definition ParseQuackapiLogLevel :: "string_util \<Rightarrow> string \<Rightarrow> QuackapiLogLevel" where
  "ParseQuackapiLogLevel U raw =
     (let lower = su_trim U (su_lower U raw)
      in if lower = ''silent'' \<or> lower = ''off'' \<or> lower = ''none'' then LOG_SILENT
         else if lower = ''error'' then LOG_ERROR
         else if lower = ''warn'' \<or> lower = ''warning'' then LOG_WARN
         else if lower = ''debug'' \<or> lower = ''trace'' \<or> lower = ''verbose'' then LOG_DEBUG
         else LOG_INFO)"

definition LogLevelDuckDBName :: "QuackapiLogLevel \<Rightarrow> string" where
  "LogLevelDuckDBName level = (case level of
     LOG_SILENT \<Rightarrow> ''ERROR'' | LOG_ERROR \<Rightarrow> ''ERROR'' | LOG_WARN \<Rightarrow> ''WARNING'' | LOG_DEBUG \<Rightarrow> ''DEBUG'' | LOG_INFO \<Rightarrow> ''INFO'')"

section \<open>Server defaults\<close>

text \<open>
  DuckDB answers a statement from the statements it was given before: \<open>de_query\<close> is the error of a
  statement, if any; \<open>de_memory_limit\<close> the error of reading a memory limit; \<open>de_logging\<close> whether logging
  is on, and \<open>de_setting\<close> whether a setting exists. The state is the list of statements run.
\<close>

record database_env =
  de_query :: "string list \<Rightarrow> string \<Rightarrow> string option"
  de_memory_limit :: "string \<Rightarrow> string option"
  de_logging :: "string list \<Rightarrow> bool"
  de_setting :: "string list \<Rightarrow> string \<Rightarrow> bool"

definition RunSet :: "database_env \<Rightarrow> string \<Rightarrow> string list \<Rightarrow> bool \<times> string list" where
  "RunSet D sql done = (de_query D done sql = None, done @ [sql])"

definition quoted_sql :: "string \<Rightarrow> string" where
  "quoted_sql s = [squote] @ s @ [squote]"

definition bool_word :: "bool \<Rightarrow> string" where
  "bool_word b = (if b then ''true'' else ''false'')"

definition set_memory_limit :: "database_env \<Rightarrow> QuackapiServeOptions \<Rightarrow> string list \<Rightarrow> string list result" where
  "set_memory_limit D opts done =
     (if so_memory_limit opts = [] then Inr done
      else case de_memory_limit D (so_memory_limit opts) of
        Some err \<Rightarrow> Inl (InvalidInput ''quackapi_serve: invalid memory_limit'' [so_memory_limit opts, err])
      | None \<Rightarrow> Inr (snd (RunSet D (''SET memory_limit TO '' @ SqlQuote (so_memory_limit opts)) done)))"

definition set_query_options :: "database_env \<Rightarrow> QuackapiServeOptions \<Rightarrow> string list \<Rightarrow> string list" where
  "set_query_options D opts done0 =
     (let done1 = (if so_preserve_insertion_order_explicit opts
                     then snd (RunSet D (''SET preserve_insertion_order = '' @ bool_word (so_preserve_insertion_order opts)) done0)
                     else done0);
          done2 = snd (RunSet D ''SET pg_use_ctid_scan = false'' done1);
          done3 = snd (RunSet D (''SET enable_http_metadata_cache = '' @ bool_word (so_enable_http_metadata_cache opts)) done2)
      in if so_threads opts = [] then done3
         else if list_all is_digit (so_threads opts) then snd (RunSet D (''SET threads = '' @ so_threads opts) done3)
         else snd (RunSet D (''SET threads TO '' @ SqlQuote (so_threads opts)) done3))"

definition set_logging :: "database_env \<Rightarrow> QuackapiServeOptions \<Rightarrow> string list \<Rightarrow> string list" where
  "set_logging D opts done =
     (if so_enable_logging opts \<and> so_log_level opts \<noteq> LOG_SILENT then
        (let level = LogLevelDuckDBName (so_log_level opts);
             called = RunSet D (''CALL enable_logging(level:='' @ quoted_sql level @ '', storage:='' @ quoted_sql ''stdout'' @ '')'') done;
             done1 = (if fst called then snd called
                      else snd (RunSet D (''SET logging_storage = '' @ quoted_sql ''stdout'')
                             (snd (RunSet D (''SET logging_level = '' @ quoted_sql level)
                               (snd (RunSet D ''SET enable_logging = true'' (snd called)))))))
         in snd (RunSet D ''SET enable_http_logging = true'' done1))
      else if de_logging D done \<and> \<not> so_enable_logging_explicit opts then done
      else snd (RunSet D ''SET enable_http_logging = false'' (snd (RunSet D ''SET enable_logging = false'' done))))"

definition set_quack_log :: "database_env \<Rightarrow> string list \<Rightarrow> string list" where
  "set_quack_log D done =
     (let done1 = (if de_setting D done ''quack_log_level'' then snd (RunSet D (''SET quack_log_level = '' @ quoted_sql ''info'') done) else done)
      in if de_setting D done1 ''quack_logging'' then snd (RunSet D ''SET quack_logging = true'' done1) else done1)"

text \<open>
  Loading an extension, with one attempt to install it first when it does not load; \<open>None\<close> is
  success, otherwise the error of the last statement.
\<close>

definition load_or_install :: "database_env \<Rightarrow> string \<Rightarrow> string \<Rightarrow> string list \<Rightarrow> string option \<times> string list" where
  "load_or_install D load install done =
     (if de_query D done load = None then (None, done @ [load])
      else let done1 = done @ [load]
        in case de_query D done1 install of
             Some err \<Rightarrow> (Some err, done1 @ [install])
           | None \<Rightarrow> (de_query D (done1 @ [install]) load, done1 @ [install, load]))"

definition one_line :: "string \<Rightarrow> string" where
  "one_line s = (if s = [] then ''unknown'' else map (\<lambda>c. if c = CHR 0x0A then CHR '' '' else c) s)"

definition select_curl :: "database_env \<Rightarrow> string list \<Rightarrow> string list" where
  "select_curl D done =
     (case RunSet D (''SET httpfs_client_implementation = '' @ quoted_sql ''curl'') done of
        (True, done1) \<Rightarrow> done1
      | (False, done1) \<Rightarrow> (case RunSet D (''SET curl_httpfs_client_implementation = '' @ quoted_sql ''curl'') done1 of
          (True, done2) \<Rightarrow> done2
        | (False, done2) \<Rightarrow> snd (RunSet D (''SET curl_httpfs_client_implementation = '' @ quoted_sql ''multi_curl'') done2)))"

definition http_client_preference :: "string_util \<Rightarrow> QuackapiServeOptions \<Rightarrow> string" where
  "http_client_preference U opts =
     (let pref = su_trim U (su_lower U (so_http_client opts)) in if pref = [] then ''auto'' else pref)"

definition choose_http_client :: "string_util \<Rightarrow> database_env \<Rightarrow> QuackapiServeOptions \<Rightarrow> string list
    \<Rightarrow> string list \<times> QuackapiServeOptions result" where
  "choose_http_client U D opts done =
     (let pref = http_client_preference U opts
      in if pref \<noteq> ''auto'' \<and> pref \<noteq> ''curl'' \<and> pref \<noteq> ''httplib'' then
           (done, Inl (InvalidInput ''quackapi_serve: http_client must be auto, curl, or httplib'' [so_http_client opts]))
         else if pref = ''httplib'' then
           (snd (RunSet D (''SET httpfs_client_implementation = '' @ quoted_sql ''httplib'') done),
            Inr (opts\<lparr>so_http_client_active := ''httplib'', so_http_client_reason := ''operator_forced''\<rparr>))
         else
           (let done1 = snd (load_or_install D ''LOAD httpfs'' ''INSTALL httpfs'' done)
            in case load_or_install D ''LOAD curl_httpfs'' ''INSTALL curl_httpfs FROM community'' done1 of
                 (None, done2) \<Rightarrow>
                   (select_curl D done2, Inr (opts\<lparr>so_http_client_active := ''curl'', so_http_client_reason := []\<rparr>))
               | (Some fail_detail, done2) \<Rightarrow>
                   (done2,
                    if pref = ''curl'' then
                      Inl (InvalidInput ''quackapi_serve: http_client=curl requires curl_httpfs but INSTALL/LOAD failed'' [one_line fail_detail])
                    else Inr (opts\<lparr>so_http_client_active := ''httplib'', so_http_client_reason := ''curl_httpfs_unavailable''\<rparr>))))"

text \<open>The statements run so far stay run when a later step throws.\<close>

definition ApplyQuackapiServerDefaults :: "string_util \<Rightarrow> database_env \<Rightarrow> QuackapiServeOptions \<Rightarrow> string list
    \<Rightarrow> string list \<times> QuackapiServeOptions result" where
  "ApplyQuackapiServerDefaults U D opts done =
     (case set_memory_limit D opts done of
        Inl e \<Rightarrow> (done, Inl e)
      | Inr done1 \<Rightarrow>
          choose_http_client U D opts (set_quack_log D (set_logging D opts (set_query_options D opts done1))))"

definition ProbeQuackapiRequestIdSource :: "QuackapiServeOptions \<Rightarrow> QuackapiServeOptions" where
  "ProbeQuackapiRequestIdSource opts = opts\<lparr>so_request_id_source := ''uuidv7''\<rparr>"

section \<open>Health routes\<close>

definition bare_route :: "string \<Rightarrow> string \<Rightarrow> string \<Rightarrow> 'v QuackapiRoute" where
  "bare_route name pat sql = \<lparr>rt_name = name, rt_method = ''GET'', rt_pattern = pat, rt_handler_sql = sql, rt_status = 200,
     rt_require_auth = [], rt_params = [], rt_body_schema = [], rt_body_type = [], rt_group_name = [], rt_tags = [],
     rt_max_request_bytes = 0, rt_rate_limit_n = 0, rt_rate_limit_per_sec = 0, rt_rate_limit_by = [],
     rt_response_format = ''json'', rt_response_envelope = ''array'', rt_empty_status = 0, rt_empty_body = [], rt_timeout_sec = 0,
     rt_schedule = []\<rparr>"

definition health_route :: "'v QuackapiRoute" where
  "health_route = bare_route ''__quackapi_health'' ''/health'' (''SELECT '' @ quoted_sql ''ok'' @ '' AS status'')"

definition healthz_route :: "'v QuackapiRoute" where
  "healthz_route = bare_route ''__quackapi_healthz'' ''/healthz'' (''SELECT '' @ quoted_sql ''ok'' @ '' AS status, version() AS version'')"

definition RegisterQuackapiHealthRoutes :: "string_util \<Rightarrow> QuackapiServeOptions \<Rightarrow> 'v QuackapiState \<Rightarrow> 'v QuackapiState \<times> exn option" where
  "RegisterQuackapiHealthRoutes U opts s =
     (if \<not> so_health_routes opts then
        (snd (DropRoute U ''__quackapi_healthz'' (snd (DropRoute U ''__quackapi_health'' s))), None)
      else case AddRoute U health_route True s of
        Inl e \<Rightarrow> (s, Some e)
      | Inr s1 \<Rightarrow> (case AddRoute U healthz_route True s1 of
          Inl e \<Rightarrow> (s1, Some e)
        | Inr s2 \<Rightarrow> (s2, None)))"

section \<open>The life of servers\<close>

text \<open>
  \<open>sw_started\<close> are the addresses of all servers ever started, \<open>sw_log\<close> what stopping did. A flush can
  come between any two steps.
\<close>

record server_world =
  sw_running :: server_map
  sw_started :: "(string \<times> int) list"
  sw_log :: "stop_action list"

definition address :: "running_server \<Rightarrow> string \<times> int" where
  "address server = (sv_host server, sv_port server)"

definition no_servers :: server_world where
  "no_servers = \<lparr>sw_running = [], sw_started = [], sw_log = []\<rparr>"

inductive server_step :: "(string \<Rightarrow> int \<Rightarrow> QuackapiServeOptions \<Rightarrow> running_server result) \<Rightarrow> server_world \<Rightarrow> server_world \<Rightarrow> bool"
  for new_server where
  start: "StartServer new_server host port opts (sw_running w) = Inr servers \<Longrightarrow>
    server_step new_server w (w\<lparr>sw_running := servers, sw_started := sw_started w @ [(host, port)]\<rparr>)"
| stop: "StopServer port (sw_running w) = (found, servers, actions) \<Longrightarrow>
    server_step new_server w (w\<lparr>sw_running := servers, sw_log := sw_log w @ actions\<rparr>)"
| stop_all: "StopAllServers (sw_running w) = (servers, actions) \<Longrightarrow>
    server_step new_server w (w\<lparr>sw_running := servers, sw_log := sw_log w @ actions\<rparr>)"
| flush: "FlushTelemetry port (sw_running w) = Inr (found, servers) \<Longrightarrow>
    server_step new_server w (w\<lparr>sw_running := servers\<rparr>)"

definition stopped_of :: "stop_action list \<Rightarrow> (string \<times> int) multiset" where
  "stopped_of actions = mset (List.map_filter (\<lambda>a. case a of STOP_ACCEPTING s \<Rightarrow> Some (address s) | _ \<Rightarrow> None) actions)"

definition destroyed_of :: "stop_action list \<Rightarrow> (string \<times> int) multiset" where
  "destroyed_of actions = mset (List.map_filter (\<lambda>a. case a of DESTROY_LATER s \<Rightarrow> Some (address s) | _ \<Rightarrow> None) actions)"

lemma stop_log_simps [simp]:
  "stopped_of [] = {#}" "destroyed_of [] = {#}"
  "stopped_of (a @ b) = stopped_of a + stopped_of b" "destroyed_of (a @ b) = destroyed_of a + destroyed_of b"
  "stopped_of (RESET_POOL # a) = stopped_of a" "destroyed_of (RESET_POOL # a) = destroyed_of a"
  "stopped_of [STOP_ACCEPTING s, DESTROY_LATER s] = {#address s#}"
  "destroyed_of [STOP_ACCEPTING s, DESTROY_LATER s] = {#address s#}"
  by (simp_all add: stopped_of_def destroyed_of_def List.map_filter_def)

lemma stop_log_maps [simp]:
  "stopped_of (map (\<lambda>kv. STOP_ACCEPTING (snd kv)) xs) = image_mset (address \<circ> snd) (mset xs)"
  "stopped_of (map (\<lambda>kv. DESTROY_LATER (snd kv)) xs) = {#}"
  "destroyed_of (map (\<lambda>kv. STOP_ACCEPTING (snd kv)) xs) = {#}"
  "destroyed_of (map (\<lambda>kv. DESTROY_LATER (snd kv)) xs) = image_mset (address \<circ> snd) (mset xs)"
  by (induction xs) (simp_all add: stopped_of_def destroyed_of_def List.map_filter_def)

text \<open>The key of a server determines its address: the text of a port has no colon.\<close>

lemma int_string_no_colon: "CHR '':'' \<notin> set (int_string n)"
  by (auto simp: int_string_def is_digit_def dest!: nat_string_digits)

lemma int_string_inj: "int_string m = int_string n \<Longrightarrow> m = n"
proof -
  assume e: "int_string m = int_string n"
  have d: "CHR ''-'' \<notin> set (nat_string k)" for k by (auto simp: is_digit_def dest!: nat_string_digits)
  have h: "nat_string a \<noteq> CHR ''-'' # nat_string b" for a b using d [of a] by (metis list.set_intros(1))
  from e h d show "m = n"
    by (auto simp: int_string_def h h [symmetric] dest!: nat_string_inj split: if_splits)
qed

lemma last_colon: "p @ CHR '':'' # a = q @ CHR '':'' # b \<Longrightarrow> CHR '':'' \<notin> set a \<Longrightarrow> CHR '':'' \<notin> set b \<Longrightarrow> p = q \<and> a = b"
  by (auto simp: append_eq_append_conv2 Cons_eq_append_conv append_eq_Cons_conv)

lemma server_key_inj: "server_key h p = server_key h' p' \<longleftrightarrow> h = h' \<and> p = p'"
  using last_colon [OF _ int_string_no_colon int_string_no_colon] int_string_inj by (auto simp: server_key_def)

definition servers_ok :: "server_map \<Rightarrow> bool" where
  "servers_ok servers \<longleftrightarrow> distinct (map fst servers) \<and> (\<forall>kv \<in> set servers. fst kv = server_key (sv_host (snd kv)) (sv_port (snd kv)))"

lemma servers_ok_distinct: "servers_ok servers \<Longrightarrow> distinct (map (address \<circ> snd) servers)"
proof -
  assume s: "servers_ok servers"
  then have e: "map fst servers = map (\<lambda>a. server_key (fst a) (snd a)) (map (address \<circ> snd) servers)"
    by (simp add: servers_ok_def address_def)
  have "distinct (map fst servers)" using s by (simp add: servers_ok_def)
  then show "distinct (map (address \<circ> snd) servers)" unfolding e by (simp only: distinct_map)
qed

lemma flush_port_addresses:
  "map fst (flush_port port servers) = map fst servers" "map (address \<circ> snd) (flush_port port servers) = map (address \<circ> snd) servers"
  by (induction port servers rule: flush_port.induct) (simp_all add: flush_server_def address_def)

lemma FlushTelemetry_addresses:
  assumes "FlushTelemetry port servers = Inr (found, servers')"
  shows "map fst servers' = map fst servers \<and> map (address \<circ> snd) servers' = map (address \<circ> snd) servers"
proof (cases "port = 0")
  case True
  with assms show ?thesis
    by (cases servers; cases "tl servers") (auto simp: FlushTelemetry_def flush_server_def address_def)
next
  case False
  with assms show ?thesis by (auto simp: FlushTelemetry_def flush_port_addresses)
qed

lemma servers_ok_addresses:
  "servers_ok servers \<longleftrightarrow> distinct (map fst servers) \<and> map fst servers = map (\<lambda>a. server_key (fst a) (snd a)) (map (address \<circ> snd) servers)"
  by (auto simp: servers_ok_def address_def)

lemma servers_ok_erase: "servers_ok xs \<Longrightarrow> servers_ok (erase_first p xs)"
  by (auto simp: servers_ok_def distinct_map_erase_first dest: set_mp [OF set_erase_first_subset])

lemma erase_first_mset: "List.find p xs = Some x \<Longrightarrow> mset xs = add_mset x (mset (erase_first p xs))"
  by (induction xs) (auto split: if_splits)

definition lifecycle_ok :: "server_world \<Rightarrow> bool" where
  "lifecycle_ok w \<longleftrightarrow> servers_ok (sw_running w) \<and>
     mset (sw_started w) = image_mset (address \<circ> snd) (mset (sw_running w)) + destroyed_of (sw_log w) \<and>
     stopped_of (sw_log w) = destroyed_of (sw_log w)"

lemma lifecycle_step:
  assumes "server_step new_server w w'" "lifecycle_ok w"
    and "\<And>h p opts s. new_server h p opts = Inr s \<Longrightarrow> sv_host s = h \<and> sv_port s = p"
  shows "lifecycle_ok w'"
  using assms(1,2)
proof cases
  case (start host port opts servers)
  then obtain server where s: "new_server host port opts = Inr server" "servers = sw_running w @ [(server_key host port, server)]"
    "\<not> any (\<lambda>kv. fst kv = server_key host port) (sw_running w)"
    by (auto simp: StartServer_def Let_def split: if_splits sum.splits)
  with assms(3) [OF s(1)] assms(2) start(1) show ?thesis
    by (auto simp: lifecycle_ok_def servers_ok_def address_def any_iff)
next
  case (stop port found servers actions)
  show ?thesis
  proof (cases "List.find (\<lambda>kv. sv_port (snd kv) = port) (sw_running w)")
    case None
    with stop assms(2) show ?thesis by (auto simp: StopServer_def lifecycle_ok_def)
  next
    case (Some kv)
    obtain key server where kv: "kv = (key, server)" by (cases kv)
    have r: "servers = erase_first (\<lambda>kv. sv_port (snd kv) = port) (sw_running w)"
      "actions = [RESET_POOL, STOP_ACCEPTING server, DESTROY_LATER server]"
      using stop(2) Some by (auto simp: StopServer_def kv)
    have "servers_ok servers"
      using assms(2) by (simp add: r(1) lifecycle_ok_def servers_ok_erase)
    moreover have "mset (sw_running w) = add_mset (key, server) (mset servers)"
      using erase_first_mset [OF Some] by (simp add: r(1) kv)
    ultimately show ?thesis using assms(2) stop(1) r(2) by (simp add: lifecycle_ok_def)
  qed
next
  case (stop_all servers actions)
  then show ?thesis using assms(2) by (auto simp: lifecycle_ok_def StopAllServers_def servers_ok_def)
next
  case (flush port found servers)
  then show ?thesis
    using assms(2) FlushTelemetry_addresses [OF flush(2)]
    by (simp add: lifecycle_ok_def servers_ok_addresses flip: mset_map)
qed

text \<open>
  C22. In every history of starting, stopping and flushing servers no two running servers listen on
  the same host and port, and no server is lost or destroyed twice: the servers started are, as a
  multiset, those running and those handed to destruction, and each of the latter was told once to
  stop accepting.
\<close>

theorem servers_conserved:
  assumes "(server_step new_server)\<^sup>*\<^sup>* no_servers w"
    and "\<And>h p opts s. new_server h p opts = Inr s \<Longrightarrow> sv_host s = h \<and> sv_port s = p"
  shows "distinct (map (address \<circ> snd) (sw_running w)) \<and>
    mset (sw_started w) = image_mset (address \<circ> snd) (mset (sw_running w)) + destroyed_of (sw_log w) \<and>
    stopped_of (sw_log w) = destroyed_of (sw_log w)"
proof -
  have "lifecycle_ok w" using assms(1)
  proof (induction rule: rtranclp_induct)
    case base
    show ?case by (simp add: lifecycle_ok_def no_servers_def servers_ok_def)
  next
    case (step w w')
    from lifecycle_step [OF step(2,3) assms(2)] show ?case .
  qed
  with servers_ok_distinct show ?thesis by (auto simp: lifecycle_ok_def)
qed

definition plain_server :: "string \<Rightarrow> int \<Rightarrow> QuackapiServeOptions \<Rightarrow> running_server result" where
  "plain_server host port opts = Inr \<lparr>sv_host = host, sv_port = port, sv_options = opts, sv_ring = None, sv_sinks = []\<rparr>"

theorem servers_conserved_witness:
  "\<exists>w. (server_step plain_server)\<^sup>*\<^sup>* no_servers w \<and> sw_started w = [(''a'', 1)] \<and> sw_running w = [] \<and>
    mset (sw_started w) = image_mset (address \<circ> snd) (mset (sw_running w)) + destroyed_of (sw_log w)"
proof -
  let ?s = "\<lparr>sv_host = ''a'', sv_port = 1, sv_options = default_options, sv_ring = None, sv_sinks = []\<rparr>"
  let ?w1 = "no_servers\<lparr>sw_running := [(server_key ''a'' 1, ?s)], sw_started := [(''a'', 1)]\<rparr>"
  let ?w2 = "?w1\<lparr>sw_running := [], sw_log := [RESET_POOL, STOP_ACCEPTING ?s, DESTROY_LATER ?s]\<rparr>"
  have "server_step plain_server no_servers ?w1"
    using server_step.start [of plain_server "''a''" 1 default_options no_servers "[(server_key ''a'' 1, ?s)]"]
    by (simp add: StartServer_def plain_server_def no_servers_def Let_def)
  moreover have "server_step plain_server ?w1 ?w2"
    using server_step.stop [of 1 ?w1 True "[]" "[RESET_POOL, STOP_ACCEPTING ?s, DESTROY_LATER ?s]" plain_server]
    by (simp add: StopServer_def no_servers_def)
  ultimately have r: "(server_step plain_server)\<^sup>*\<^sup>* no_servers ?w2" by (meson rtranclp.rtrancl_refl rtranclp.rtrancl_into_rtrancl)
  have "mset (sw_started ?w2) = image_mset (address \<circ> snd) (mset (sw_running ?w2)) + destroyed_of (sw_log ?w2)"
    using servers_conserved [OF r] by (auto simp: plain_server_def)
  with r show ?thesis by (intro exI [of _ ?w2]) simp
qed

section \<open>What a server does to the database\<close>

text \<open>
  The statements a start may run. The operator's texts occur as one SQL literal each, or as digits.
\<close>

definition server_statements :: "QuackapiServeOptions \<Rightarrow> string set" where
  "server_statements opts =
     (if so_memory_limit opts = [] then {} else {''SET memory_limit TO '' @ SqlQuote (so_memory_limit opts)}) \<union>
     (if so_preserve_insertion_order_explicit opts
      then {''SET preserve_insertion_order = '' @ bool_word (so_preserve_insertion_order opts)} else {}) \<union>
     (if so_threads opts = [] then {}
      else if list_all is_digit (so_threads opts) then {''SET threads = '' @ so_threads opts}
      else {''SET threads TO '' @ SqlQuote (so_threads opts)}) \<union>
     {''SET pg_use_ctid_scan = false'', ''SET enable_http_metadata_cache = '' @ bool_word (so_enable_http_metadata_cache opts),
      ''CALL enable_logging(level:='' @ quoted_sql (LogLevelDuckDBName (so_log_level opts)) @ '', storage:='' @ quoted_sql ''stdout'' @ '')'',
      ''SET enable_logging = true'', ''SET logging_level = '' @ quoted_sql (LogLevelDuckDBName (so_log_level opts)),
      ''SET logging_storage = '' @ quoted_sql ''stdout'', ''SET enable_http_logging = true'', ''SET enable_logging = false'',
      ''SET enable_http_logging = false'', ''SET quack_log_level = '' @ quoted_sql ''info'', ''SET quack_logging = true'',
      ''SET httpfs_client_implementation = '' @ quoted_sql ''httplib'', ''LOAD httpfs'', ''INSTALL httpfs'', ''LOAD curl_httpfs'',
      ''INSTALL curl_httpfs FROM community'', ''SET httpfs_client_implementation = '' @ quoted_sql ''curl'',
      ''SET curl_httpfs_client_implementation = '' @ quoted_sql ''curl'', ''SET curl_httpfs_client_implementation = '' @ quoted_sql ''multi_curl''}"

definition ran_listed :: "QuackapiServeOptions \<Rightarrow> string list \<Rightarrow> string list \<Rightarrow> bool" where
  "ran_listed opts done done' \<longleftrightarrow> (\<exists>sqls. done' = done @ sqls \<and> set sqls \<subseteq> server_statements opts)"

lemma ran_refl [simp]: "ran_listed opts done done"
  by (simp add: ran_listed_def)

lemma ran_trans: "ran_listed opts a b \<Longrightarrow> ran_listed opts b c \<Longrightarrow> ran_listed opts a c"
  by (auto simp: ran_listed_def)

lemma ran_set: "sql \<in> server_statements opts \<Longrightarrow> ran_listed opts done (snd (RunSet D sql done))"
  by (simp add: ran_listed_def RunSet_def)

lemma ran_snoc: "ran_listed opts a b \<Longrightarrow> sql \<in> server_statements opts \<Longrightarrow> ran_listed opts a (b @ [sql])"
  by (auto simp: ran_listed_def)

lemma ran_if: "(c \<Longrightarrow> ran_listed opts a b) \<Longrightarrow> (\<not> c \<Longrightarrow> ran_listed opts a b') \<Longrightarrow> ran_listed opts a (if c then b else b')"
  by simp

lemma RunSet_done [simp]: "snd (RunSet D sql done) = done @ [sql]" "RunSet D sql done = (b, done') \<Longrightarrow> done' = done @ [sql]"
  by (auto simp: RunSet_def)

lemma memory_limit_ran: "set_memory_limit D opts done = Inr done' \<Longrightarrow> ran_listed opts done done'"
  by (auto simp: set_memory_limit_def server_statements_def intro!: ran_snoc split: if_splits option.splits)

lemma query_options_ran: "ran_listed opts done (set_query_options D opts done)"
  unfolding set_query_options_def Let_def RunSet_done
  by (intro ran_if ran_snoc ran_refl; simp add: server_statements_def)

lemma logging_ran: "ran_listed opts done (set_logging D opts done)"
  unfolding set_logging_def Let_def RunSet_done
  by (intro ran_if ran_snoc ran_refl; simp add: server_statements_def)

lemma quack_log_ran: "ran_listed opts done (set_quack_log D done)"
  unfolding set_quack_log_def Let_def RunSet_done
  by (intro ran_if ran_snoc ran_refl; simp add: server_statements_def)

lemma load_or_install_ran:
  assumes "load_or_install D load install done = (r, done')" "{load, install} \<subseteq> server_statements opts"
  shows "ran_listed opts done done'"
  using assms by (auto simp: load_or_install_def Let_def ran_listed_def split: if_splits option.splits)

lemma select_curl_ran: "ran_listed opts done (select_curl D done)"
  by (auto simp: select_curl_def RunSet_def ran_listed_def server_statements_def split: prod.splits bool.splits)

lemma choose_http_client_ran:
  assumes "choose_http_client U D opts done = (done', r)"
  shows "ran_listed opts done done'"
proof -
  obtain r1 done1 where l1: "load_or_install D ''LOAD httpfs'' ''INSTALL httpfs'' done = (r1, done1)" by fastforce
  obtain r2 done2 where l2: "load_or_install D ''LOAD curl_httpfs'' ''INSTALL curl_httpfs FROM community'' done1 = (r2, done2)" by fastforce
  have a: "ran_listed opts done done1" "ran_listed opts done1 done2"
    using load_or_install_ran [OF l1] load_or_install_ran [OF l2] by (auto simp: server_statements_def)
  have h: "ran_listed opts done (done @ [''SET httpfs_client_implementation = '' @ quoted_sql ''httplib''])"
    by (intro ran_snoc ran_refl) (simp add: server_statements_def)
  have s: "ran_listed opts done (select_curl D done2)" using ran_trans [OF ran_trans [OF a]] select_curl_ran by blast
  show ?thesis
    using assms ran_trans [OF a] h s
    by (auto simp: choose_http_client_def Let_def l1 l2 split: if_splits option.splits)
qed

text \<open>
  Starting a server runs only statements of a fixed list, also when it fails. Among them the memory
  limit, the insertion order and the number of threads are set only when the operator asked for it,
  and a text of the operator is one SQL literal or a row of digits.
\<close>

theorem defaults_run_only_listed:
  assumes "ApplyQuackapiServerDefaults U D opts done = (done', r)"
  shows "\<exists>sqls. done' = done @ sqls \<and> set sqls \<subseteq> server_statements opts"
proof (cases "set_memory_limit D opts done")
  case (Inl e)
  with assms show ?thesis by (simp add: ApplyQuackapiServerDefaults_def)
next
  case (Inr done1)
  let ?done4 = "set_quack_log D (set_logging D opts (set_query_options D opts done1))"
  have "ran_listed opts done ?done4"
    by (rule ran_trans [OF ran_trans [OF ran_trans [OF memory_limit_ran [OF Inr] query_options_ran] logging_ran] quack_log_ran])
  moreover have "ran_listed opts ?done4 done'"
    using assms Inr choose_http_client_ran by (simp add: ApplyQuackapiServerDefaults_def)
  ultimately show ?thesis using ran_trans ran_listed_def by blast
qed

text \<open>
  The choice of the outbound HTTP client is never silent: a start that asks for curl has curl or
  fails; the automatic choice has curl, or the stock client together with the reason; a forced stock
  client says so. No other option changes.
\<close>

theorem http_client_choice:
  assumes "ApplyQuackapiServerDefaults U D opts done = (done', Inr opts')"
  shows "(so_http_client_active opts', so_http_client_reason opts') \<in>
      (if http_client_preference U opts = ''curl'' then {(''curl'', [])}
       else if http_client_preference U opts = ''httplib'' then {(''httplib'', ''operator_forced'')}
       else {(''curl'', []), (''httplib'', ''curl_httpfs_unavailable'')}) \<and>
    http_client_preference U opts \<in> {''auto'', ''curl'', ''httplib''} \<and>
    opts'\<lparr>so_http_client_active := so_http_client_active opts, so_http_client_reason := so_http_client_reason opts\<rparr> = opts"
  using assms
  by (auto simp: ApplyQuackapiServerDefaults_def choose_http_client_def Let_def split: sum.splits if_splits option.splits prod.splits)

definition offline_database :: database_env where
  "offline_database = \<lparr>de_query = (\<lambda>done sql. if sql \<in> {''LOAD curl_httpfs'', ''INSTALL curl_httpfs FROM community''} then Some ''offline'' else None),
     de_memory_limit = (\<lambda>_. None), de_logging = (\<lambda>_. False), de_setting = (\<lambda>_ _. False)\<rparr>"

lemma auto_preference: "http_client_preference ascii_util default_options = ''auto''"
proof -
  have "trim_ascii (map ascii_lower ''auto'') = ''auto''" by code_simp
  then show ?thesis by (simp add: http_client_preference_def default_options_def)
qed

lemma offline_defaults:
  "\<exists>done. ApplyQuackapiServerDefaults ascii_util offline_database default_options [] =
    (done, Inr (default_options\<lparr>so_http_client_active := ''httplib'', so_http_client_reason := ''curl_httpfs_unavailable''\<rparr>))"
proof -
  have m: "set_memory_limit offline_database default_options [] = Inr []"
    by (simp add: set_memory_limit_def default_options_def)
  have l: "load_or_install offline_database ''LOAD curl_httpfs'' ''INSTALL curl_httpfs FROM community'' ds =
      (Some ''offline'', ds @ [''LOAD curl_httpfs'', ''INSTALL curl_httpfs FROM community''])" for ds
    by (simp add: load_or_install_def offline_database_def Let_def)
  show ?thesis
    by (simp add: ApplyQuackapiServerDefaults_def m choose_http_client_def auto_preference l Let_def)
qed

theorem defaults_run_only_listed_witness:
  "\<exists>sqls. fst (ApplyQuackapiServerDefaults ascii_util offline_database default_options []) = sqls \<and>
    set sqls \<subseteq> server_statements default_options"
proof -
  obtain done' r where e: "ApplyQuackapiServerDefaults ascii_util offline_database default_options [] = (done', r)" by fastforce
  from defaults_run_only_listed [OF this] show ?thesis by (auto simp: e)
qed

theorem http_client_choice_witness:
  "http_client_preference ascii_util default_options \<in> {''auto'', ''curl'', ''httplib''}"
proof -
  obtain done' where "ApplyQuackapiServerDefaults ascii_util offline_database default_options [] =
      (done', Inr (default_options\<lparr>so_http_client_active := ''httplib'', so_http_client_reason := ''curl_httpfs_unavailable''\<rparr>))"
    using offline_defaults by blast
  from http_client_choice [OF this] show ?thesis by blast
qed

section \<open>Health routes\<close>

text \<open>
  After the health routes are registered both names stand for them, and after a start without
  health routes for nothing; every other route is as before, and the table stays well-formed.
\<close>

theorem health_routes_registered:
  assumes "routes_wf s" "RegisterQuackapiHealthRoutes U opts s = (s', None)"
  shows "routes_wf s' \<and> List.find (\<lambda>r. rt_name r = n) (routes s') =
    (if n = ''__quackapi_health'' then (if so_health_routes opts then Some health_route else None)
     else if n = ''__quackapi_healthz'' then (if so_health_routes opts then Some healthz_route else None)
     else List.find (\<lambda>r. rt_name r = n) (routes s))"
proof (cases "so_health_routes opts")
  case True
  then obtain s1 where a: "AddRoute U health_route True s = Inr s1" "AddRoute U healthz_route True s1 = Inr s'"
    using assms(2) by (auto simp: RegisterQuackapiHealthRoutes_def split: sum.splits)
  have w1: "routes_wf s1" using AddRoutes_wf a(1) assms(1) unfolding AddRoute_def by blast
  have w2: "routes_wf s'" using AddRoutes_wf a(2) w1 unfolding AddRoute_def by blast
  have f: "List.find (\<lambda>r. rt_name r = n) (routes t') = (if n = rt_name r then Some r else List.find (\<lambda>r. rt_name r = n) (routes t))"
    if "AddRoute U r True t = Inr t'" "routes_wf t" for r t t'
  proof -
    have p: "propose_routes [r] True (routes t) = Inr (routes t')" using that(1) AddRoutes_propose unfolding AddRoute_def by blast
    have "routes_wf (t\<lparr>routes := routes t\<rparr>)" using that(2) by simp
    from propose_routes_lookup [OF this p, of n] show ?thesis by auto
  qed
  have n: "rt_name health_route = ''__quackapi_health''" "rt_name healthz_route = ''__quackapi_healthz''"
    by (simp_all add: health_route_def healthz_route_def bare_route_def)
  from f [OF a(2) w1] f [OF a(1) assms(1)] w2 True show ?thesis unfolding n by (auto split: if_splits)
next
  case False
  let ?s1 = "snd (DropRoute U ''__quackapi_health'' s)"
  have s': "s' = snd (DropRoute U ''__quackapi_healthz'' ?s1)"
    using assms(2) False by (simp add: RegisterQuackapiHealthRoutes_def)
  have w: "routes_wf ?s1" "routes_wf s'" unfolding s' using DropRoute_wf assms(1) by blast+
  have d: "List.find (\<lambda>r. rt_name r = n) (routes (snd (DropRoute U m t))) = (if n = m then None else List.find (\<lambda>r. rt_name r = n) (routes t))"
    if "routes_wf t" for m t
    using that route_reg.get_drop [of t n U m]
    by (simp add: routes_wf_def route_reg.keys_distinct_def route_reg.get_def)
  show ?thesis using w d [OF assms(1), of "''__quackapi_health''"] d [OF w(1), of "''__quackapi_healthz''"] False by (auto simp: s' split: if_splits)
qed

theorem health_routes_registered_witness:
  "List.find (\<lambda>r. rt_name r = ''__quackapi_health'')
    (routes (fst (RegisterQuackapiHealthRoutes ascii_util default_options (initial_state :: nat QuackapiState)))) = Some health_route"
proof -
  have w: "routes_wf (initial_state :: nat QuackapiState)" by (simp add: routes_wf_def initial_state_def)
  obtain s' where e: "RegisterQuackapiHealthRoutes ascii_util default_options (initial_state :: nat QuackapiState) = (s', None)"
    by (simp add: RegisterQuackapiHealthRoutes_def default_options_def AddRoute_def AddRoutes_def propose_route_def
        health_route_def healthz_route_def bare_route_def initial_state_def PublishRoutes_def Let_def split: sum.splits option.splits if_splits)
  have "so_health_routes default_options" by (simp add: default_options_def)
  with health_routes_registered [OF w e, of "''__quackapi_health''"] show ?thesis by (simp add: e)
qed

text \<open>
  A route of the user for \<open>GET /health\<close> under any other name is a conflict: the registration throws,
  and with it the start of a server whose health routes are not switched off.
\<close>

lemma user_health_route_blocks:
  assumes "r \<in> set (routes s)" "rt_name r \<noteq> ''__quackapi_health''" "rt_method r = ''GET''" "rt_pattern r = ''/health''"
    and "so_health_routes opts"
  shows "\<exists>e. RegisterQuackapiHealthRoutes U opts s = (s, Some e)"
proof -
  have "\<not> is_ok (AddRoute U health_route True s)"
    unfolding AddRoute_def AddRoutes_single_ok scan_proposed_ok
    using assms by (auto simp: health_route_def bare_route_def)
  then obtain e where "AddRoute U health_route True s = Inl e" by (auto simp: is_ok_def split: sum.splits)
  with assms(5) show ?thesis by (simp add: RegisterQuackapiHealthRoutes_def)
qed

end
