(* ===== verification/FromX.thy ===== *)
theory FromX
  imports OpenApi
begin

text \<open>
  The extraction of routes and models from the sources of other frameworks
  (\<open>src/src/quackapi_from_x.cpp\<close>): the expansion of the path, its substitution into the extraction
  SQL, the run with its coercion of columns, and the delivery in chunks. The texts of SQL
  (\<open>include/quackapi_from_x_sql.hpp\<close>, generated) are an argument (\<open>embedded\<close>), as are DuckDB's values
  (\<open>value_env\<close>), its answers to statements and its vector size.
\<close>

section \<open>Paths\<close>

definition LooksLikeGlob :: "string \<Rightarrow> bool" where
  "LooksLikeGlob path = (CHR ''*'' \<in> set path \<or> CHR ''?'' \<in> set path)"

function RtrimSlashes :: "string \<Rightarrow> string" where
  "RtrimSlashes p = (if length p > 1 \<and> (last p = CHR ''/'' \<or> last p = CHR 0x5C) then RtrimSlashes (butlast p) else p)"
  by pat_completeness auto
termination by (relation "measure length") auto

declare RtrimSlashes.simps [simp del]

definition EscapeSqlString :: "string \<Rightarrow> string" where
  "EscapeSqlString s = concat (map (\<lambda>c. if c = squote then [squote, squote] else [c]) s)"

definition source_file :: "string_util \<Rightarrow> string \<Rightarrow> bool" where
  "source_file U path = any (su_ends_with U (su_lower U path)) [''.py'', ''.rb'', ''.ts'', ''.js'', ''.go'']"

definition directory_default :: "string \<Rightarrow> string \<Rightarrow> string \<Rightarrow> string" where
  "directory_default framework kind path =
     (if framework = ''fastapi'' then path @ ''/**/*.py''
      else if framework = ''rails'' then (if kind = ''routes'' then path @ ''/config/routes.rb'' else path)
      else if framework = ''express'' then path
      else if framework = ''gin'' then path @ ''/**/*.go''
      else path)"

definition ExpandRepoPath :: "string_util \<Rightarrow> string \<Rightarrow> string \<Rightarrow> string \<Rightarrow> string result" where
  "ExpandRepoPath U raw_path framework kind =
     (if raw_path = [] then Inl (InvalidInput ''quack_from_x: path must be non-empty'' [])
      else let path = RtrimSlashes raw_path
        in if LooksLikeGlob path \<or> source_file U path then Inr path
           else Inr (directory_default framework kind path))"

text \<open>\<open>StringUtil::Replace\<close>: all occurrences from the left, what was put in is not searched again.\<close>

function replace_all :: "string \<Rightarrow> string \<Rightarrow> string \<Rightarrow> string" where
  "replace_all pat text' s = (case s of
     [] \<Rightarrow> []
   | c # cs \<Rightarrow>
       if pat \<noteq> [] \<and> prefix pat (c # cs) then text' @ replace_all pat text' (drop (length pat) (c # cs))
       else c # replace_all pat text' cs)"
  by pat_completeness auto
termination by (relation "measure (\<lambda>(pat, text', s). length s)") auto

declare replace_all.simps [simp del]

definition REPO :: string where
  "REPO = ''__REPO__''"

definition SubstituteRepo :: "string \<Rightarrow> string \<Rightarrow> string" where
  "SubstituteRepo sql_template repo_path = replace_all REPO (EscapeSqlString repo_path) sql_template"

section \<open>Binding\<close>

record FromXBindData =
  fx_framework :: string
  fx_kind :: string
  fx_path :: string
  fx_is_routes :: bool

definition route_columns :: "(string \<times> LogicalType) list" where
  "route_columns = [(''method'', L_VARCHAR), (''path'', L_VARCHAR), (''handler_name'', L_VARCHAR), (''file'', L_VARCHAR),
     (''start_line'', L_UINTEGER), (''evidence'', L_VARCHAR)]"

definition model_columns :: "(string \<times> LogicalType) list" where
  "model_columns = [(''model_name'', L_VARCHAR), (''field_name'', L_VARCHAR), (''field_type'', L_VARCHAR),
     (''is_required'', L_BOOLEAN), (''is_optional'', L_BOOLEAN), (''has_default'', L_BOOLEAN),
     (''default_expr'', L_VARCHAR), (''file'', L_VARCHAR), (''field_line'', L_UINTEGER)]"

definition from_x_columns :: "FromXBindData \<Rightarrow> (string \<times> LogicalType) list" where
  "from_x_columns bind = (if fx_is_routes bind then route_columns else model_columns)"

definition FromXBind :: "string_util \<Rightarrow> string \<Rightarrow> string option list \<Rightarrow> (FromXBindData \<times> (string \<times> LogicalType) list) result" where
  "FromXBind U kind inputs = (case inputs of
     [Some framework0, Some path] \<Rightarrow>
       (let framework = su_lower U framework0;
            bind = \<lparr>fx_framework = framework, fx_kind = kind, fx_path = path, fx_is_routes = (kind = ''routes'')\<rparr>
        in if framework \<noteq> ''fastapi'' \<and> framework \<noteq> ''rails'' \<and> framework \<noteq> ''express'' \<and> framework \<noteq> ''gin'' then
             Inl (InvalidInput ''quack_from: unknown framework (expected fastapi, rails, express, or gin)'' [kind, framework])
           else if path = [] then Inl (InvalidInput ''quack_from: path must be non-empty'' [kind])
           else Inr (bind, from_x_columns bind))
   | _ \<Rightarrow> Inl (InvalidInput ''quack_from(framework, path): framework and path must not be NULL'' [kind]))"

section \<open>Running an extraction\<close>

record EmbeddedSql =
  es_framework :: string
  es_kind :: string
  es_sql :: string

definition Lookup :: "EmbeddedSql list \<Rightarrow> string \<Rightarrow> string \<Rightarrow> string option" where
  "Lookup embedded framework kind =
     map_option es_sql (List.find (\<lambda>e. es_framework e = framework \<and> es_kind e = kind) embedded)"

text \<open>Values: \<open>None\<close> where the conversion of the source throws.\<close>

record 'v value_env =
  ve_type :: "'v \<Rightarrow> LogicalType"
  ve_is_null :: "'v \<Rightarrow> bool"
  ve_null :: "LogicalType \<Rightarrow> 'v"
  ve_text :: "'v \<Rightarrow> string"
  ve_string :: "string \<Rightarrow> 'v"
  ve_to_bool :: "'v \<Rightarrow> bool option"
  ve_boolean :: "bool \<Rightarrow> 'v"
  ve_integral :: "LogicalType \<Rightarrow> bool"
  ve_to_bigint :: "'v \<Rightarrow> 64 word option"
  ve_uinteger :: "32 word \<Rightarrow> 'v"
  ve_stoul :: "string \<Rightarrow> 64 word option"

definition CoerceColumn :: "'v value_env \<Rightarrow> 'v \<Rightarrow> LogicalType \<Rightarrow> 'v" where
  "CoerceColumn V v want =
     (if ve_is_null V v then ve_null V want
      else if ve_type V v = want then v
      else if want = L_VARCHAR then ve_string V (ve_text V v)
      else if want = L_BOOLEAN then
        (if ve_type V v = L_BOOLEAN then v
         else case ve_to_bool V v of Some b \<Rightarrow> ve_boolean V b | None \<Rightarrow> ve_null V want)
      else if want = L_UINTEGER then
        (case (if ve_integral V (ve_type V v) then ve_to_bigint V v else ve_stoul V (ve_text V v)) of
           Some n \<Rightarrow> ve_uinteger V (ucast n)
         | None \<Rightarrow> ve_null V want)
      else ve_null V want)"

definition coerce_row :: "'v value_env \<Rightarrow> LogicalType list \<Rightarrow> 'v list \<Rightarrow> 'v list" where
  "coerce_row V want row =
     map (\<lambda>c. if c < length row then CoerceColumn V (row ! c) (want ! c) else ve_null V (want ! c)) [0..<length want]"

text \<open>A result is read chunk by chunk, up to an empty one.\<close>

fun fetch_chunks :: "'v value_env \<Rightarrow> LogicalType list \<Rightarrow> 'v list list list \<Rightarrow> 'v list list" where
  "fetch_chunks V want [] = []"
| "fetch_chunks V want (chunk # chunks) = (if chunk = [] then [] else map (coerce_row V want) chunk @ fetch_chunks V want chunks)"

text \<open>The answer of DuckDB to a statement after the statements run before: an error or the chunks.\<close>

type_synonym 'v answers = "string list \<Rightarrow> string \<Rightarrow> string + 'v list list list"

definition EnsureSittingDuck :: "'v answers \<Rightarrow> string list \<Rightarrow> string list \<times> exn option" where
  "EnsureSittingDuck D done =
     (case D done ''LOAD sitting_duck'' of
        Inr _ \<Rightarrow> (done @ [''LOAD sitting_duck''], None)
      | Inl _ \<Rightarrow>
          (let done1 = done @ [''LOAD sitting_duck'']; done2 = done1 @ [''INSTALL sitting_duck FROM community'']
           in case D done1 ''INSTALL sitting_duck FROM community'' of
                Inl err \<Rightarrow> (done2, Some (InvalidInput ''quack_from_x: could not INSTALL sitting_duck FROM community'' [err]))
              | Inr _ \<Rightarrow> (case D done2 ''LOAD sitting_duck'' of
                  Inl err \<Rightarrow> (done2 @ [''LOAD sitting_duck''], Some (InvalidInput ''quack_from_x: could not LOAD sitting_duck'' [err]))
                | Inr _ \<Rightarrow> (done2 @ [''LOAD sitting_duck''], None))))"

record 'v FromXGlobalState =
  fx_rows :: "'v list list"
  fx_offset :: nat

definition FromXInit :: "string_util \<Rightarrow> 'v value_env \<Rightarrow> 'v answers \<Rightarrow> EmbeddedSql list \<Rightarrow> FromXBindData \<Rightarrow> string list
    \<Rightarrow> string list \<times> 'v FromXGlobalState result" where
  "FromXInit U V D embedded bind done =
     (case Lookup embedded (fx_framework bind) (fx_kind bind) of
        None \<Rightarrow> (done, Inl (Internal ''quack_from_x: missing embedded SQL''))
      | Some sql_tmpl \<Rightarrow>
          (case ExpandRepoPath U (fx_path bind) (fx_framework bind) (fx_kind bind) of
             Inl e \<Rightarrow> (done, Inl e)
           | Inr repo \<Rightarrow>
               (case EnsureSittingDuck D done of
                  (done1, Some e) \<Rightarrow> (done1, Inl e)
                | (done1, None) \<Rightarrow>
                    (let sql = SubstituteRepo sql_tmpl repo
                     in (done1 @ [sql],
                         case D done1 sql of
                           Inl err \<Rightarrow> Inl (InvalidInput ''quack_from: extraction failed'' [fx_framework bind, fx_path bind, err])
                         | Inr chunks \<Rightarrow>
                             Inr \<lparr>fx_rows = fetch_chunks V (map snd (from_x_columns bind)) chunks, fx_offset = 0\<rparr>)))))"

function emit_rows :: "nat \<Rightarrow> nat \<Rightarrow> 'v list list \<Rightarrow> nat \<Rightarrow> 'v list list \<Rightarrow> nat \<times> 'v list list" where
  "emit_rows vector_size ncol rows offset emitted =
     (if offset < length rows \<and> length emitted < vector_size
      then emit_rows vector_size ncol rows (offset + 1) (emitted @ [take ncol (rows ! offset)])
      else (offset, emitted))"
  by pat_completeness auto
termination by (relation "measure (\<lambda>(vs, ncol, rows, offset, emitted). length rows - offset)") auto

declare emit_rows.simps [simp del]

definition FromXExec :: "nat \<Rightarrow> nat \<Rightarrow> 'v FromXGlobalState \<Rightarrow> 'v list list \<times> 'v FromXGlobalState" where
  "FromXExec vector_size ncol st =
     (if fx_offset st \<ge> length (fx_rows st) then ([], st)
      else case emit_rows vector_size ncol (fx_rows st) (fx_offset st) [] of
        (offset, emitted) \<Rightarrow> (emitted, st\<lparr>fx_offset := offset\<rparr>))"

section \<open>What the path can do to the SQL\<close>

text \<open>
  The pieces of an SQL text: single characters of code, string literals with their values, and
  comments up to the end of the line (the texts of the repository use no other kind of quoting).
\<close>

datatype sql_piece = CODE char | LITERAL string | COMMENT string

definition line_char :: "char \<Rightarrow> bool" where
  "line_char c = (c \<noteq> CHR 0x0A \<and> c \<noteq> CHR 0x0D)"

function pieces :: "string \<Rightarrow> sql_piece list option" where
  "pieces s = (case s of
     [] \<Rightarrow> Some []
   | c # cs \<Rightarrow>
       if c = squote then (case sql_quoted cs of None \<Rightarrow> None | Some (v, r) \<Rightarrow> map_option ((#) (LITERAL v)) (pieces r))
       else if c = CHR ''-'' \<and> cs \<noteq> [] \<and> hd cs = CHR ''-'' then
         map_option ((#) (COMMENT (takeWhile line_char cs))) (pieces (dropWhile line_char cs))
       else map_option ((#) (CODE c)) (pieces cs))"
  by pat_completeness auto
termination
  by (relation "measure length") (auto dest!: sql_quoted_shorter simp: less_Suc_eq_le length_dropWhile_le)

declare pieces.simps [simp del]

fun code_text :: "sql_piece list \<Rightarrow> string" where
  "code_text [] = []"
| "code_text (CODE c # ps) = c # code_text ps"
| "code_text (_ # ps) = code_text ps"

fun put_path :: "string \<Rightarrow> sql_piece \<Rightarrow> sql_piece" where
  "put_path path (LITERAL v) = LITERAL (replace_all REPO path v)"
| "put_path path (COMMENT v) = COMMENT (replace_all REPO (EscapeSqlString path) v)"
| "put_path path (CODE c) = CODE c"

lemma REPO_plain: "REPO \<noteq> []" "squote \<notin> set REPO" "CHR ''-'' \<notin> set REPO" "list_all line_char REPO"
  by (simp_all add: REPO_def squote_def line_char_def)

lemma replace_all_Nil [simp]: "replace_all pat text' [] = []"
  by (subst replace_all.simps) simp

lemma replace_all_hit [simp]:
  assumes "pat \<noteq> []"
  shows "replace_all pat text' (pat @ s) = text' @ replace_all pat text' s"
proof -
  obtain c cs where e: "pat @ s = c # cs" using assms by (cases "pat @ s") auto
  then have "prefix pat (c # cs)" "drop (length pat) (c # cs) = s"
    by (metis prefixI, metis append_eq_conv_conj)
  with assms show ?thesis unfolding e by (subst replace_all.simps) simp
qed

lemma replace_all_miss [simp]: "\<not> prefix pat (c # cs) \<Longrightarrow> replace_all pat text' (c # cs) = c # replace_all pat text' cs"
  by (subst replace_all.simps) simp

lemma EscapeSqlString_simps [simp]:
  "EscapeSqlString [] = []" "EscapeSqlString (c # s) = (if c = squote then [squote, squote] else [c]) @ EscapeSqlString s"
  by (simp_all add: EscapeSqlString_def)

lemma EscapeSqlString_line: "list_all line_char path \<Longrightarrow> list_all line_char (EscapeSqlString path)"
  by (induction path) (auto simp: line_char_def squote_def)

lemma quoted_plain: "squote \<notin> set q \<Longrightarrow> sql_quoted (q @ s) = map_option (\<lambda>(v, r). (q @ v, r)) (sql_quoted s)"
  by (cases "sql_quoted s"; induction q) auto

lemma quoted_escape: "sql_quoted (EscapeSqlString p @ s) = map_option (\<lambda>(v, r). (p @ v, r)) (sql_quoted s)"
  by (cases "sql_quoted s"; induction p) auto

lemma quoted_prefix:
  "sql_quoted s = Some (v, r) \<Longrightarrow> squote \<notin> set q \<Longrightarrow> prefix q v \<Longrightarrow> prefix q s"
proof (induction q arbitrary: s v)
  case (Cons a q)
  obtain v' where v: "v = a # v'" "prefix q v'" using Cons.prems(3) by (cases v) auto
  with Cons.prems obtain s' where "s = a # s'" "sql_quoted s' = Some (v', r)"
    by (cases s) (auto split: if_splits list.splits)
  with Cons.IH Cons.prems(2) v(2) show ?case by simp
qed simp

text \<open>A literal of the template is a literal of the statement, with the path in place of the placeholder.\<close>

lemma quoted_replace:
  assumes "sql_quoted s = Some (v, r)" "\<not> prefix REPO r"
  shows "sql_quoted (replace_all REPO (EscapeSqlString p) s) = Some (replace_all REPO p v, replace_all REPO (EscapeSqlString p) r)"
  using assms
proof (induction "length s" arbitrary: s v rule: less_induct)
  case less
  let ?R = "replace_all REPO (EscapeSqlString p)"
  show ?case
  proof (cases "prefix REPO s")
    case True
    then obtain s' where s: "s = REPO @ s'" by (auto simp: prefix_def)
    with less(2) obtain v' where v: "sql_quoted s' = Some (v', r)" "v = REPO @ v'"
      by (auto simp: quoted_plain REPO_plain)
    have "length s' < length s" using s REPO_plain by simp
    from less(1) [OF this v(1) less(3)] show ?thesis by (simp add: s v(2) REPO_plain quoted_escape)
  next
    case False
    obtain c cs where s: "s = c # cs" using less(2) by (cases s) auto
    show ?thesis
    proof (cases "c = squote")
      case False
      then obtain v' where v: "sql_quoted cs = Some (v', r)" "v = c # v'" using less(2) by (auto simp: s)
      have "\<not> prefix REPO v" using quoted_prefix [OF less(2)] REPO_plain \<open>\<not> prefix REPO s\<close> by blast
      then show ?thesis
        using less(1) [OF _ v(1) less(3)] \<open>\<not> prefix REPO s\<close> False by (simp add: s v(2))
    next
      case True
      have miss: "\<not> prefix REPO (squote # x)" for x by (simp add: REPO_def squote_def)
      consider (doubled) cs' where "cs = squote # cs'" | (closed) "cs = [] \<or> hd cs \<noteq> squote" by (cases cs) auto
      then show ?thesis
      proof cases
        case doubled
        then obtain v' where v: "sql_quoted cs' = Some (v', r)" "v = squote # v'" using less(2) True by (auto simp: s)
        from less(1) [OF _ v(1) less(3)] show ?thesis by (simp add: s True doubled miss v(2))
      next
        case closed
        then have r: "v = []" "r = cs" using less(2) True by (cases cs; auto simp: s)+
        have "?R cs = [] \<or> hd (?R cs) \<noteq> squote"
          using closed less(3) by (cases cs) (auto simp: r(2))
        then show ?thesis by (cases "?R cs") (auto simp: s True miss r)
      qed
    qed
  qed
qed

lemma comment_replace:
  assumes "list_all line_char p"
  shows "takeWhile line_char (replace_all REPO p s) = replace_all REPO p (takeWhile line_char s) \<and>
    dropWhile line_char (replace_all REPO p s) = replace_all REPO p (dropWhile line_char s)"
proof (induction "length s" arbitrary: s rule: less_induct)
  case less
  have app: "takeWhile line_char (q @ t) = q @ takeWhile line_char t" "dropWhile line_char (q @ t) = dropWhile line_char t"
    if "list_all line_char q" for q t
    using that by (induction q) auto
  show ?case
  proof (cases "prefix REPO s")
    case True
    then obtain s' where s: "s = REPO @ s'" by (auto simp: prefix_def)
    have "length s' < length s" using s REPO_plain by simp
    from less(1) [OF this] show ?thesis by (simp add: s REPO_plain app assms)
  next
    case False
    show ?thesis
    proof (cases s)
      case (Cons c cs)
      have "\<not> prefix REPO (c # takeWhile line_char cs)" if "line_char c"
      proof
        assume "prefix REPO (c # takeWhile line_char cs)"
        then have "prefix REPO (takeWhile line_char s)" using that Cons by simp
        with False takeWhile_is_prefix [of line_char s] show False using prefix_order.trans by blast
      qed
      with less(1) [of cs] False Cons show ?thesis by simp
    qed simp
  qed
qed

lemma code_plain: "squote \<notin> set q \<Longrightarrow> CHR ''-'' \<notin> set q \<Longrightarrow> pieces (q @ s) = map_option ((@) (map CODE q)) (pieces s)"
proof (induction q)
  case (Cons c q)
  then show ?case by (cases "pieces s") (auto simp: pieces.simps [of "c # q @ s"])
qed (cases "pieces s"; simp)

lemma code_placeholder: "pieces s = Some ps \<Longrightarrow> prefix REPO s \<Longrightarrow> prefix REPO (code_text ps)"
proof -
  have code: "code_text (map CODE q @ ps) = q @ code_text ps" for q ps by (induction q) auto
  assume "pieces s = Some ps" "prefix REPO s"
  then show ?thesis by (auto simp: prefix_def code_plain REPO_plain code)
qed

lemma code_text_tail: "\<not> sublist REPO (code_text (pc # ps)) \<Longrightarrow> \<not> sublist REPO (code_text ps)"
  by (cases pc) (auto simp: sublist_Cons_right)

lemma pieces_replace:
  assumes "pieces t = Some ps" "\<not> sublist REPO (code_text ps)" "list_all line_char p"
  shows "pieces (replace_all REPO (EscapeSqlString p) t) = Some (map (put_path p) ps)"
  using assms(1,2)
proof (induction "length t" arbitrary: t ps rule: less_induct)
  case less
  let ?R = "replace_all REPO (EscapeSqlString p)"
  have no: "\<not> prefix REPO s" if "pieces s = Some qs" "\<not> sublist REPO (code_text qs)" for s qs
    using that code_placeholder by blast
  have miss: "?R (c # cs) = c # ?R cs" if "pieces (c # cs) = Some qs" "\<not> sublist REPO (code_text qs)" for c cs qs
    using no [OF that] by simp
  have line: "list_all line_char (EscapeSqlString p)" by (rule EscapeSqlString_line [OF assms(3)])
  show ?case
  proof (cases t)
    case Nil
    with less(2) show ?thesis by (simp add: pieces.simps [of "[]"])
  next
    case (Cons c cs)
    have R: "?R t = c # ?R cs" using miss less(2,3) unfolding Cons by blast
    consider (literal) v r qs where "c = squote" "sql_quoted cs = Some (v, r)" "pieces r = Some qs" "ps = LITERAL v # qs"
      | (comment) qs where "c = CHR ''-''" "c \<noteq> squote" "cs \<noteq> []" "hd cs = CHR ''-''" "pieces (dropWhile line_char cs) = Some qs"
          "ps = COMMENT (takeWhile line_char cs) # qs"
      | (code) qs where "c \<noteq> squote" "\<not> (c = CHR ''-'' \<and> cs \<noteq> [] \<and> hd cs = CHR ''-'')" "pieces cs = Some qs" "ps = CODE c # qs"
      using less(2) by (auto simp: Cons pieces.simps [of "c # cs"] split: if_splits option.splits)
    then show ?thesis
    proof cases
      case literal
      then have qs: "\<not> sublist REPO (code_text qs)" using less(3) by simp
      have "length r < length t" using sql_quoted_shorter [OF literal(2)] by (simp add: Cons)
      from less(1) [OF this literal(3) qs] quoted_replace [OF literal(2) no [OF literal(3) qs], of p]
      show ?thesis unfolding R by (subst pieces.simps) (simp add: literal(1,4))
    next
      case comment
      then have qs: "\<not> sublist REPO (code_text qs)" using less(3) by simp
      have "length (dropWhile line_char cs) < length t" by (simp add: Cons less_Suc_eq_le length_dropWhile_le)
      note ih = less(1) [OF this comment(5) qs]
      obtain cs' where cs: "cs = CHR ''-'' # cs'" using comment(3,4) by (cases cs) auto
      have "\<not> prefix REPO cs" by (simp add: cs REPO_def)
      then have "?R cs \<noteq> []" "hd (?R cs) = CHR ''-''" by (simp_all add: cs)
      then show ?thesis
        unfolding R using comment_replace [OF line, of cs] ih comment(1,2)
        by (subst pieces.simps) (simp add: comment(6))
    next
      case code
      then have qs: "\<not> sublist REPO (code_text qs)" using less(3) code_text_tail [of "CODE c" qs] by simp
      have "length cs < length t" by (simp add: Cons)
      note ih = less(1) [OF this code(3) qs]
      have "?R cs = [] \<longleftrightarrow> cs = []" "cs \<noteq> [] \<Longrightarrow> hd (?R cs) = hd cs"
        using no [OF code(3) qs] by (cases cs; simp)+
      with ih code show ?thesis unfolding R by (subst pieces.simps) auto
    qed
  qed
qed

text \<open>
  C30. A path without line breaks is data in the extraction SQL, whatever quotes it has: for a template
  that has the placeholder in literals and comments only, the statement that runs has the code,
  literals and comments of the template, with the path for the placeholder inside the literals and
  its escaped text inside the comments.
\<close>

theorem from_x_path_is_data:
  assumes "pieces sql_tmpl = Some ps" "\<not> sublist REPO (code_text ps)" "list_all line_char path"
  shows "pieces (SubstituteRepo sql_tmpl path) = Some (map (put_path path) ps)"
  unfolding SubstituteRepo_def using assms by (rule pieces_replace)

text \<open>
  The templates of the repository name the placeholder in a comment at their head as well
  (\<open>-- Placeholder: __REPO__\<close>). Line breaks are not escaped: what follows a line break in the path is
  code of the statement, and \<open>Query\<close> runs every statement of the text.
\<close>

lemma newline_path_is_code:
  assumes "list_all line_char a" "squote \<notin> set a" "squote \<notin> set b"
    and "pieces (b @ replace_all REPO (a @ CHR 0x0A # b) rest) = Some ps"
  shows "pieces (SubstituteRepo (''-- Placeholder: '' @ REPO @ rest) (a @ CHR 0x0A # b)) =
    Some (COMMENT (''- Placeholder: '' @ a) # CODE CHR 0x0A # ps)"
proof -
  have e: "EscapeSqlString q = q" if "squote \<notin> set q" for q using that by (induction q) auto
  have n: "squote \<notin> set (a @ CHR 0x0A # b)" using assms(2,3) by (simp add: squote_def)
  have miss: "replace_all REPO x (''-- Placeholder: '' @ y) = ''-- Placeholder: '' @ replace_all REPO x y" for x y
    by (simp add: REPO_def)
  have s: "SubstituteRepo (''-- Placeholder: '' @ REPO @ rest) (a @ CHR 0x0A # b) =
      ''-- Placeholder: '' @ a @ CHR 0x0A # b @ replace_all REPO (a @ CHR 0x0A # b) rest" (is "?s = _ @ _ @ _ # ?t")
    unfolding SubstituteRepo_def e [OF n] miss by (simp add: REPO_plain)
  have w: "takeWhile line_char (a @ CHR 0x0A # y) = a" "dropWhile line_char (a @ CHR 0x0A # y) = CHR 0x0A # y" for y
    using assms(1) by (induction a) (auto simp: line_char_def)
  have "pieces (CHR 0x0A # ?t) = Some (CODE CHR 0x0A # ps)"
    using assms(4) by (simp add: pieces.simps [of "CHR 0x0A # ?t"] squote_def)
  then show ?thesis unfolding s by (subst pieces.simps) (simp add: w squote_def, simp add: line_char_def)
qed

definition example_template :: string where
  "example_template = ''-- __REPO__'' @ [CHR 0x0A] @ ''FROM read_ast('' @ [squote] @ ''__REPO__/**/*.ts'' @ [squote] @ '')''"

definition example_path :: string where
  "example_path = ''/o'' @ [squote] @ ''neil''"

theorem from_x_path_is_data_witness:
  "\<exists>ps. pieces (SubstituteRepo example_template example_path) = Some ps \<and>
    LITERAL (example_path @ ''/**/*.ts'') \<in> set ps \<and> code_text ps = CHR 0x0A # ''FROM read_ast()''"
proof -
  let ?ps = "[COMMENT ''- __REPO__'', CODE CHR 0x0A] @ map CODE ''FROM read_ast('' @ [LITERAL ''__REPO__/**/*.ts'', CODE CHR '')'']"
  have "pieces example_template = Some ?ps" by code_simp
  moreover have "\<not> sublist REPO (code_text ?ps)" by code_simp
  moreover have "list_all line_char example_path" by code_simp
  ultimately have "pieces (SubstituteRepo example_template example_path) = Some (map (put_path example_path) ?ps)"
    by (rule from_x_path_is_data)
  moreover have "replace_all REPO example_path ''__REPO__/**/*.ts'' = example_path @ ''/**/*.ts''" by code_simp
  ultimately show ?thesis by simp
qed

text \<open>
  A path that names a file or a glob is to be used as it is. The texts for the models of Rails and
  for Express append a pattern to the placeholder themselves, so a file is read as a directory.
\<close>

lemma file_read_as_directory:
  "ExpandRepoPath ascii_util ''app/user.rb'' ''rails'' ''models'' = Inr ''app/user.rb''"
  "replace_all REPO ''app/user.rb'' (REPO @ ''/app/models/**/*.rb'') = ''app/user.rb/app/models/**/*.rb''"
proof -
  have "RtrimSlashes ''app/user.rb'' = ''app/user.rb''" by code_simp
  moreover have "source_file ascii_util ''app/user.rb''" by code_simp
  ultimately show "ExpandRepoPath ascii_util ''app/user.rb'' ''rails'' ''models'' = Inr ''app/user.rb''"
    by (simp add: ExpandRepoPath_def)
qed code_simp

section \<open>Rows\<close>

text \<open>DuckDB's side: the constructors make values of their types.\<close>

definition values_ok :: "'v value_env \<Rightarrow> bool" where
  "values_ok V \<longleftrightarrow> (\<forall>type. ve_type V (ve_null V type) = type) \<and> (\<forall>s. ve_type V (ve_string V s) = L_VARCHAR) \<and>
     (\<forall>b. ve_type V (ve_boolean V b) = L_BOOLEAN) \<and> (\<forall>n. ve_type V (ve_uinteger V n) = L_UINTEGER)"

lemma CoerceColumn_type: "values_ok V \<Longrightarrow> ve_type V (CoerceColumn V v want) = want"
  by (auto simp: values_ok_def CoerceColumn_def split: option.splits)

lemma coerce_row_types: "values_ok V \<Longrightarrow> map (ve_type V) (coerce_row V want row) = want"
  by (intro nth_equalityI) (auto simp: coerce_row_def CoerceColumn_type values_ok_def)

lemma fetch_chunks_types: "values_ok V \<Longrightarrow> row \<in> set (fetch_chunks V want chunks) \<Longrightarrow> map (ve_type V) row = want"
  by (induction V want chunks rule: fetch_chunks.induct) (auto simp: coerce_row_types split: if_splits)

text \<open>
  Whatever columns the extraction SQL returns, every row has exactly the columns that were declared
  when the call was bound, each of its declared type.
\<close>

theorem extracted_rows_typed:
  assumes "FromXBind U kind inputs = Inr (bind, columns)" "FromXInit U V D embedded bind done = (done', Inr st)"
    and "values_ok V" "row \<in> set (fx_rows st)"
  shows "map (ve_type V) row = map snd columns"
proof -
  have "columns = from_x_columns bind"
    using assms(1) by (auto simp: FromXBind_def Let_def split: list.splits option.splits if_splits)
  moreover obtain chunks where "fx_rows st = fetch_chunks V (map snd (from_x_columns bind)) chunks"
    using assms(2) by (auto simp: FromXInit_def Let_def split: option.splits sum.splits prod.splits)
  ultimately show ?thesis using fetch_chunks_types assms(3,4) by metis
qed

text \<open>What a bound call runs when the texts of all frameworks are there.\<close>

definition all_embedded :: "EmbeddedSql list \<Rightarrow> bool" where
  "all_embedded embedded \<longleftrightarrow>
     (\<forall>framework \<in> {''fastapi'', ''rails'', ''express'', ''gin''}. \<forall>kind \<in> {''routes'', ''models''}. Lookup embedded framework kind \<noteq> None)"

lemma bound_text_found:
  assumes "FromXBind U kind inputs = Inr (bind, columns)" "kind \<in> {''routes'', ''models''}" "all_embedded embedded"
  shows "Lookup embedded (fx_framework bind) (fx_kind bind) \<noteq> None \<and> is_ok (ExpandRepoPath U (fx_path bind) (fx_framework bind) (fx_kind bind))"
  using assms
  by (auto simp: FromXBind_def all_embedded_def ExpandRepoPath_def is_ok_def Let_def split: list.splits option.splits if_splits)

text \<open>Successive calls of \<open>FromXExec\<close>, up to one that returns no row.\<close>

function drain_rows :: "nat \<Rightarrow> nat \<Rightarrow> 'v FromXGlobalState \<Rightarrow> 'v list list list" where
  "drain_rows vector_size ncol st =
     (case FromXExec vector_size ncol st of (emitted, st') \<Rightarrow>
        if emitted = [] \<or> fx_offset st' \<le> fx_offset st \<or> length (fx_rows st') < fx_offset st' \<or> fx_rows st' \<noteq> fx_rows st then []
        else emitted # drain_rows vector_size ncol st')"
  by pat_completeness auto
termination by (relation "measure (\<lambda>(vs, ncol, st). length (fx_rows st) - fx_offset st)") auto

declare drain_rows.simps [simp del]

lemma emit_rows_take:
  "length emitted \<le> vs \<Longrightarrow> offset \<le> length rows \<Longrightarrow>
    emit_rows vs ncol rows offset emitted =
      (offset + min (vs - length emitted) (length rows - offset),
       emitted @ map (take ncol) (take (vs - length emitted) (drop offset rows)))"
proof (induction vs ncol rows offset emitted rule: emit_rows.induct)
  case (1 vs ncol rows offset emitted)
  show ?case
  proof (cases "offset < length rows \<and> length emitted < vs")
    case True
    then have "take (vs - length emitted) (drop offset rows) = rows ! offset # take (vs - Suc (length emitted)) (drop (Suc offset) rows)"
      by (simp add: take_Cons' flip: Cons_nth_drop_Suc)
    with 1 True show ?thesis by (subst emit_rows.simps) auto
  next
    case False
    with 1(2,3) show ?thesis by (subst emit_rows.simps) auto
  qed
qed

text \<open>The calls deliver every row once, in order, at most \<open>vector_size\<close> of them at a time.\<close>

theorem extracted_rows_delivered:
  assumes "0 < vector_size" "list_all (\<lambda>row. length row = ncol) (fx_rows st)"
  shows "concat (drain_rows vector_size ncol st) = drop (fx_offset st) (fx_rows st) \<and>
    list_all (\<lambda>emitted. emitted \<noteq> [] \<and> length emitted \<le> vector_size) (drain_rows vector_size ncol st)"
  using assms
proof (induction vector_size ncol st rule: drain_rows.induct)
  case (1 vs ncol st)
  let ?rows = "fx_rows st" and ?o = "fx_offset st"
  show ?case
  proof (cases "length ?rows \<le> ?o")
    case True
    then show ?thesis by (simp add: drain_rows.simps [of vs ncol st] FromXExec_def)
  next
    case False
    let ?out = "take vs (drop ?o ?rows)"
    let ?st = "st\<lparr>fx_offset := ?o + min vs (length ?rows - ?o)\<rparr>"
    have "map (take ncol) ?out = ?out"
      using 1(3) by (intro map_idI) (auto simp: list_all_iff dest!: in_set_takeD in_set_dropD)
    then have x: "FromXExec vs ncol st = (?out, ?st)"
      using False emit_rows_take [of "[]" vs ?o ?rows ncol] by (simp add: FromXExec_def)
    have d: "drain_rows vs ncol st = ?out # drain_rows vs ncol ?st"
      using False 1(2) by (subst drain_rows.simps) (simp add: x)
    have "concat (drain_rows vs ncol ?st) = drop (fx_offset ?st) (fx_rows ?st) \<and>
        list_all (\<lambda>emitted. emitted \<noteq> [] \<and> length emitted \<le> vs) (drain_rows vs ncol ?st)"
      by (rule 1(1) [OF x [symmetric]]) (use False 1(2,3) in auto)
    moreover have "?out @ drop (?o + min vs (length ?rows - ?o)) ?rows = drop ?o ?rows"
      by (cases "vs \<le> length ?rows - ?o") (simp_all add: min_def add.commute flip: drop_drop)
    ultimately show ?thesis unfolding d using False 1(2) by simp
  qed
qed

end
