(* ===== verification/Spec2Isabelle.thy ===== *)
theory Spec2Isabelle
  imports RateLimit RegistryProps Auth Middleware Json Routing Negotiate Body Serialize Telemetry Server Params Handler Options Queue Ddl Policy PolicyDdl Enforcement StreamDdl Streams WebSocket Graphql GraphqlDdl Deadlines HttpFetch SelfDispatch OpenApi TableApi Servers FromX
begin

text \<open>
  A verification development for quackapi, a DuckDB extension (C++) that serves HTTP from SQL: routes,
  groups, authentication, policies, middleware, queues and streams are declared by DDL statements, kept
  in a registry attached to the database, and read by an HTTP server that answers requests by running
  the SQL of the route they match.

  \<^bold>\<open>How the program works and where it is modelled.\<close> Paths are under \<open>src/src/\<close>.

  \<^item> The registry, \<open>QuackapiState\<close> (\<open>include/quackapi_state.hpp\<close>, \<open>quackapi_registry.cpp\<close>): one table
    per kind of object, with published snapshots of routes and streams. \<open>State\<close> has the records and the
    locales \<open>named_registry\<close> and \<open>located_registry\<close>, the interface of a table keyed by name (and by
    method and path); \<open>Registry\<close> has one definition per method and interprets the locales on them;
    \<open>RegistryProps\<close> the step relation of the operations, its reachable states and their invariants.
  \<^item> Declaring objects: \<open>Ddl\<close> (\<open>quackapi_ddl.cpp\<close>, routes and groups), \<open>PolicyDdl\<close>
    (\<open>quackapi_policy.cpp\<close>), \<open>Queue\<close> (\<open>quackapi_queue.cpp\<close>), \<open>StreamDdl\<close> (\<open>quackapi_stream.cpp\<close>),
    \<open>GraphqlDdl\<close> (\<open>quackapi_graphql.cpp\<close>), \<open>TableApi\<close> (\<open>quackapi_table_api.cpp\<close>, whose statement
    generates two routes), \<open>Auth\<close> (\<open>quackapi_auth.cpp\<close>) and
    \<open>Middleware\<close> (\<open>quackapi_middleware.cpp\<close>) model each grammar (\<open>...DdlParse\<close>) and each execution
    (\<open>Apply...Exec\<close>). A grammar yields \<open>DISPLAY_ORIGINAL_ERROR\<close> (not ours),
    \<open>DISPLAY_EXTENSION_ERROR\<close> with the message, or \<open>PARSE_SUCCESSFUL\<close> with the parsed data.
    \<open>Options\<close> has what the grammars share: quoted strings, option lists, durations and byte counts.
    \<open>Util\<close> (\<open>quackapi_util.cpp\<close>) has the statements rebuilt from tokens that feed the grammars.
  \<^item> Answering a request (\<open>quackapi_server.cpp\<close>): \<open>Routing\<close> (patterns, selection of a route, redirects,
    size limits), \<open>Server\<close> (\<open>HandleRequest\<close> up to the handler: cross-origin headers, built-in routes,
    authentication, rate limit, policies, middleware, WebSocket admission), \<open>Body\<close> (media types, forms,
    cookies, the flat JSON scanner), \<open>Params\<close> (collection and binding of parameters), \<open>Handler\<close>
    (execution of the statement and every response format), \<open>Serialize\<close> (values and rows to JSON,
    NDJSON, CSV, server-sent events), \<open>Negotiate\<close> (encodings and formats), \<open>Telemetry\<close> (trace context,
    access log, redaction), \<open>RateLimit\<close>, and \<open>Http\<close> for the part of the vendored HTTP library
    (\<open>../third_party/httplib/httplib.hpp\<close>) these call. \<open>Json\<close> (\<open>quackapi_validation.cpp\<close>) is the reader of
    declared structures and the text of validation errors.
  \<^item> Open streams (\<open>quackapi_server.cpp\<close>): \<open>Streams\<close> has event streams, from the request that opens one
    through every call of the provider to its end, \<open>WebSocket\<close> the sessions over WebSockets: the handshake,
    the counter of sessions, the messages, the pushes. The connection is a list of what each write and
    read meets.
  \<^item> GraphQL (\<open>quackapi_graphql.cpp\<close>): \<open>Graphql\<close> has the reader of documents, the translation of a
    selection to the request of the table it names, the execution and the schema.
  \<^item> Protecting data: \<open>Auth\<close> over \<open>Crypto\<close> (tokens and keys), \<open>Policy\<close> (\<open>quackapi_policy.cpp\<close>, the
    rewriting of a handler's syntax tree), \<open>Middleware\<close> (hooks around a handler). \<open>Enforcement\<close> puts the
    rewriting into the server.
  \<^item> Servers and their description: \<open>Servers\<close> has the table of running servers
    (\<open>quackapi_registry.cpp\<close>) and what a start sets up in the database and the registry
    (\<open>quackapi_batteries.cpp\<close>); \<open>OpenApi\<close> (\<open>quackapi_openapi.cpp\<close>) the document of the live routes, built
    as text as in the code; \<open>FromX\<close> (\<open>quackapi_from_x.cpp\<close>) the extraction of routes and models from the
    sources of other frameworks.
  \<^item> Time and outgoing work: \<open>Deadlines\<close> (\<open>quackapi_limits.cpp\<close>) has the deadlines and budgets of
    connections, the guards that set and restore them and the watchdog that interrupts; \<open>HttpFetch\<close>
    (\<open>quackapi_http_fetch.cpp\<close>) the calls to other servers, their pool of connections and the tasks of a
    chunk; \<open>SelfDispatch\<close> (the same file) the execution of request SQL on the process's own database.

  The server reads a snapshot of the registry at the start of a request; the rate limiter
  and the counters of sessions and tasks are all that a request changes. The state is passed explicitly, an operation returns the updated
  record, and an exception is a value \<open>Inl\<close> (\<open>'a result\<close>). Names follow the sources.

  \<^bold>\<open>What is a parameter.\<close> Code that is not in the repository is an argument of the definitions that use
  it. \<open>string_util\<close> is DuckDB's string library, with \<open>string_util_ok\<close> for its documented behaviour;
  \<open>mbedtls\<close> the bundled crypto library; \<open>json_db\<close>, \<open>engine\<close>, \<open>database\<close> DuckDB's JSON functions,
  binder and execution; \<open>native_serializer\<close> its serializer; \<open>logical_types\<close> its types; \<open>literals\<close>,
  \<open>qualified_names\<close>, \<open>policy_env\<close> its parser, printer and catalog; \<open>variants\<close> its VARIANT casts;
  \<open>route_checks\<close> the answers of the queries a new route runs; \<open>oas_env\<close> what the document reads of a
  prepared statement; \<open>database_env\<close> the answers to the statements a start runs; \<open>value_env\<close> the values of an extraction; \<open>hook_env\<close> the execution of a hook;
  \<open>float_text\<close> and \<open>atoi\<close> the C library's conversions; \<open>compressors\<close> zlib, brotli and zstd;
  \<open>request_env\<close> and \<open>builtin_env\<close> what a request sees of the clock, of fresh identifiers and of the
  built-in documents. Hypotheses on them are named predicates or premises with a witness.

  \<^bold>\<open>What the groups of lemmas show.\<close>

  \<^item> Who may run what: a handler runs only for a request that was routed to it and passed its guards;
    the authentication of a route is decided by its registered scheme only; a JWT is accepted exactly
    when it is well formed, signed and in its time window; SQL that has passed the policies reads no bound
    table outside the query its policies make of it; a hook that does not answer stops the request.
  \<^item> What the registry keeps: names and paths are unique in every reachable state, bindings refer to
    existing policies, adding routes refines the update of a finite map, revoked schemes take their keys
    with them, and every route that DDL statements have stored is within the declared bounds.
  \<^item> What a value becomes: the bound value of a parameter satisfies its declared contract, a path capture
    is never replaced by the query or the body, a claim only comes from a verified credential; and the
    round trips of JSON strings, CSV fields, query strings, base64url, compression and quoted text.
  \<^item> Queues: a job is delivered at most \<open>max_attempts\<close> times, only the current delivery can complete it,
    and dequeuing takes the oldest claimable jobs, over every history of statements.
  \<^item> Streams and sessions: an event stream without an interval executes once, a session sends one close
    frame at most, answers each message that binds once and keeps to its byte limit; at most the limit of
    sessions is open, however the requests interleave; GraphQL only ever runs selections of allowed tables.
  \<^item> Concurrency: every open guard is watched and interrupted when overdue, cancellation actions run at
    most once, nested guards restore what they found; pooled connections are never shared between calls or
    origins, each row of a chunk is called once, admitted tasks are accounted for, and resumable and
    inline rows agree.
  \<^item> Servers and documents: no server is lost or destroyed twice; a start runs only listed statements;
    the SQL generated for a table quotes its names, and the path of an extraction is data in its SQL; the OpenAPI document is one JSON object with every
    path and operation, and the lemmas at the end of \<open>OpenApi\<close> show the declarations for which it is not.
  \<^item> Bounds and endings: the rate limiter lets at most its limit pass in a window and keeps a bounded
    table; log records are conserved and flushed; the parsers return on every text.

  \<^bold>\<open>Fuel and bounds.\<close> The nesting of JSON documents is bounded by the source itself
  (\<open>MAX_NESTING_DEPTH\<close>), and the readers recurse on that budget, so no fuel is added.
  \<open>clause_rounds\<close> is the source's loop of 18 rounds and \<open>claim_tries\<close> its loop of 8. Loops the source
  does not bound are recursive with a measure on the text left, or, where a parameter decides how far a
  step advances (\<open>param_options\<close>, \<open>param_clauses\<close>), \<open>partial_function (option)\<close> with a theorem that they
  return. \<open>cut_utf8\<close> and the scanners recurse on their positions. What a connection, a scheduler or the
  watchdog meets is a list of environments, one for each step, and the theorems hold for every such list;
  the interleavings of threads are step relations whose steps are the atomic operations of the sources.

  \<^bold>\<open>Not modelled.\<close> Sockets, threads and the parsing of the wire format (the vendored library): a
  server is started and stopped in the table of servers, its socket and threads are not modelled; the
  static file handler (operating system calls); the registration of functions and parser extensions with
  DuckDB, the binding of their options and the waiting for servers (\<open>quackapi_extension.cpp\<close>), and the
  splitting of their results into chunks; the decoding of Arrow and Parquet bodies by native libraries;
  the constant pages around the OpenAPI document; the texts of SQL that \<open>quackapi_from_x.cpp\<close> runs.
\<close>

end
